(* ===== verification/Prelude.thy ===== *)
theory Prelude
  imports Main "HOL-Library.Word" "HOL-Library.Multiset"
begin

text \<open>
  What the components share: how a run-time panic of Go is represented, the Go
  operations on slices the sources use everywhere (reading an index, cutting one
  element out with \<^verbatim>\<open>append(s[:i], s[i+1:]...)\<close>), the integer types, and the
  generic list and multiset lemmas that carry the component proofs.

  Conventions of the whole library.
  \<^item> A Go function that can panic returns \<open>'a result\<close>: \<open>Inl\<close> carries the panic,
    \<open>Inr\<close> the value. \<^verbatim>\<open>log.Panic\<close> and \<^verbatim>\<open>panic\<close> are \<open>Panic\<close> with the source's message
    (for a formatted message, its constant part); the run-time errors of the
    language have a constructor each. \<open>Diverges\<close> stands for a loop that did not end within
    the fuel its definition gives it; a theorem that an operation returns \<open>Inr\<close> excludes it.
  \<^item> A \<^verbatim>\<open>nil\<close> pointer or interface is \<open>None\<close>.
  \<^item> \<^verbatim>\<open>uint64\<close> is \<open>64 word\<close> (arithmetic wraps), \<^verbatim>\<open>byte\<close> is \<open>8 word\<close>. A Go \<^verbatim>\<open>int\<close> that is
    a capacity, an identifier or a difference is an \<open>int\<close>, and one that is only ever
    an index or a length of a slice is a \<open>nat\<close>.
  \<^item> Mutation is state passing; a mutex is not modelled, since every function that
    takes one holds it for its whole body.
  \<^item> Hooks and tracing calls (\<^verbatim>\<open>InvokeHook\<close>, \<^verbatim>\<open>tracing.StartTask\<close>, \<dots>) only observe and
    are left out, as is printing.
\<close>

section \<open>Panics as values\<close>

datatype go_panic =
    Panic string
  | IndexOutOfRange
  | NilDereference
  | DivideByZero
  | Diverges

type_synonym 'a result = "go_panic + 'a"

definition bindR :: "'a result \<Rightarrow> ('a \<Rightarrow> 'b result) \<Rightarrow> 'b result" where
  "bindR m f = (case m of Inl e \<Rightarrow> Inl e | Inr x \<Rightarrow> f x)"

named_theorems go_simps

lemma bindR_simps [simp, go_simps]:
  "bindR (Inl e) f = Inl e"
  "bindR (Inr x) f = f x"
  by (simp_all add: bindR_def)

lemma bindR_eq_Inr: "bindR m f = Inr y \<longleftrightarrow> (\<exists>x. m = Inr x \<and> f x = Inr y)"
  by (cases m) auto

lemma bindR_split: "P (bindR m f) \<longleftrightarrow> (\<forall>e. m = Inl e \<longrightarrow> P (Inl e)) \<and> (\<forall>x. m = Inr x \<longrightarrow> P (f x))"
  by (cases m) auto

definition ok :: "'a result \<Rightarrow> bool" where
  "ok m \<longleftrightarrow> (\<exists>x. m = Inr x)"

lemma ok_simps [simp]: "ok (Inr x)" "\<not> ok (Inl e)"
  by (simp_all add: ok_def)

section \<open>Integers and slices\<close>

type_synonym u64 = "64 word"
type_synonym u32 = "32 word"
type_synonym byte = "8 word"

text \<open>\<^verbatim>\<open>s[i]\<close>: the element, or the run-time panic outside the slice.\<close>

definition slice_get :: "'a list \<Rightarrow> nat \<Rightarrow> 'a result" where
  "slice_get xs i = (if i < length xs then Inr (xs ! i) else Inl IndexOutOfRange)"

lemma slice_get_in [simp]: "i < length xs \<Longrightarrow> slice_get xs i = Inr (xs ! i)"
  by (simp add: slice_get_def)

lemma slice_get_out [simp]: "length xs \<le> i \<Longrightarrow> slice_get xs i = Inl IndexOutOfRange"
  by (simp add: slice_get_def)

text \<open>\<^verbatim>\<open>append(s[:i], s[i+1:]...)\<close>: the slice without its \<open>i\<close>-th element.\<close>

definition remove_at :: "nat \<Rightarrow> 'a list \<Rightarrow> 'a list" where
  "remove_at i xs = take i xs @ drop (Suc i) xs"

lemma remove_at_simps [simp]:
  "remove_at 0 (x # xs) = xs"
  "remove_at (Suc i) (x # xs) = x # remove_at i xs"
  by (simp_all add: remove_at_def)

lemma mset_remove_at: "i < length xs \<Longrightarrow> mset (remove_at i xs) + {#xs ! i#} = mset xs"
proof (induction xs arbitrary: i)
  case Nil
  then show ?case by simp
next
  case (Cons x xs)
  then show ?case by (cases i) auto
qed

lemma length_remove_at [simp]: "i < length xs \<Longrightarrow> length (remove_at i xs) = length xs - 1"
  by (simp add: remove_at_def)

lemma set_remove_at: "set (remove_at i xs) \<subseteq> set xs"
  by (auto simp: remove_at_def dest: in_set_takeD in_set_dropD)

text \<open>\<^verbatim>\<open>copy(dst[off:off+len(src)], src)\<close>, for a destination that is long enough.\<close>

definition copy_at :: "'a list \<Rightarrow> nat \<Rightarrow> 'a list \<Rightarrow> 'a list" where
  "copy_at dst off src = take off dst @ src @ drop (off + length src) dst"

lemma length_copy_at [simp]: "off + length src \<le> length dst \<Longrightarrow> length (copy_at dst off src) = length dst"
  by (simp add: copy_at_def)

lemma nth_copy_at:
  "off + length src \<le> length dst \<Longrightarrow> i < length dst \<Longrightarrow>
   copy_at dst off src ! i = (if off \<le> i \<and> i < off + length src then src ! (i - off) else dst ! i)"
  by (auto simp: copy_at_def nth_append)

text \<open>
  A Go slice where sharing of the backing array matters: the array, as long as the
  slice's capacity, and the length. \<^verbatim>\<open>append\<close> writes in place while there is capacity and
  otherwise moves to a new array with \<open>spare n\<close> unused elements (the language does not
  fix how many), holding the zero value \<open>z\<close>.
\<close>

record 'a go_slice =
  sl_array :: "'a list"
  sl_len :: nat

definition sl_view :: "'a go_slice \<Rightarrow> 'a list" where
  "sl_view s = take (sl_len s) (sl_array s)"

definition sl_wf :: "'a go_slice \<Rightarrow> bool" where
  "sl_wf s \<longleftrightarrow> sl_len s \<le> length (sl_array s)"

definition sl_nil :: "'a go_slice" where
  "sl_nil = \<lparr>sl_array = [], sl_len = 0\<rparr>"

definition sl_append :: "'a \<Rightarrow> (nat \<Rightarrow> nat) \<Rightarrow> 'a go_slice \<Rightarrow> 'a \<Rightarrow> 'a go_slice" where
  "sl_append z spare s x =
     (if sl_len s < length (sl_array s)
      then \<lparr>sl_array = (sl_array s)[sl_len s := x], sl_len = Suc (sl_len s)\<rparr>
      else \<lparr>sl_array = sl_view s @ x # replicate (spare (sl_len s)) z, sl_len = Suc (sl_len s)\<rparr>)"

text \<open>\<^verbatim>\<open>append(s[:i], s[i+1:]...)\<close> on a slice with its array: it moves the tail in place.\<close>

definition sl_cut :: "nat \<Rightarrow> 'a go_slice \<Rightarrow> 'a go_slice" where
  "sl_cut i s = \<lparr>sl_array = copy_at (sl_array s) i (drop (Suc i) (sl_view s)), sl_len = sl_len s - 1\<rparr>"

lemma sl_nil_simps [simp]: "sl_view sl_nil = []" "sl_wf sl_nil"
  by (simp_all add: sl_view_def sl_wf_def sl_nil_def)

lemma sl_append_wf [simp]: "sl_wf s \<Longrightarrow> sl_wf (sl_append z spare s x)"
  by (auto simp: sl_wf_def sl_append_def sl_view_def)

lemma length_sl_view [simp]: "sl_wf s \<Longrightarrow> length (sl_view s) = sl_len s"
  by (simp add: sl_wf_def sl_view_def)

lemma sl_append_view [simp]: "sl_wf s \<Longrightarrow> sl_view (sl_append z spare s x) = sl_view s @ [x]"
  by (auto simp: sl_wf_def sl_append_def sl_view_def take_Suc_conv_app_nth)

lemma sl_cut_array_take:
  assumes "sl_wf s" "i < sl_len s"
  shows "take (sl_len s - 1) (sl_array (sl_cut i s)) = remove_at i (sl_view s)"
    and "length (sl_array (sl_cut i s)) = length (sl_array s)"
proof -
  have "sl_len s - Suc 0 \<le> i \<Longrightarrow> sl_len s = Suc i" using assms by linarith
  then show "take (sl_len s - 1) (sl_array (sl_cut i s)) = remove_at i (sl_view s)"
    using assms by (auto simp: sl_wf_def sl_cut_def sl_view_def copy_at_def remove_at_def min_def)
  show "length (sl_array (sl_cut i s)) = length (sl_array s)"
    using assms by (auto simp: sl_wf_def sl_cut_def sl_view_def copy_at_def)
qed

text \<open>
  The search loop \<^verbatim>\<open>for i, x := range s { if p(x) { return i } }\<close> of the sources: the
  first index at which the predicate holds.
\<close>

fun find_index :: "('a \<Rightarrow> bool) \<Rightarrow> 'a list \<Rightarrow> nat option" where
  "find_index p [] = None"
| "find_index p (x # xs) = (if p x then Some 0 else map_option Suc (find_index p xs))"

lemma find_index_None: "find_index p xs = None \<longleftrightarrow> (\<forall>x \<in> set xs. \<not> p x)"
  by (induction xs) auto

lemma find_index_Some:
  "find_index p xs = Some i \<longleftrightarrow> i < length xs \<and> p (xs ! i) \<and> (\<forall>j < i. \<not> p (xs ! j))"
proof (induction xs arbitrary: i)
  case Nil
  then show ?case by simp
next
  case (Cons x xs)
  then show ?case
    by (cases i) (auto simp: nth_Cons' less_Suc_eq_0_disj)
qed

lemma find_index_find: "find p xs = map_option ((!) xs) (find_index p xs)"
  by (induction xs) (auto simp: option.map_comp comp_def)

section \<open>Generic lemmas\<close>

lemma unat_lt64: "unat (x::u64) < 2 ^ 64"
  using unsigned_less [of x, where ?'a = nat] by simp

lemma unat_word_add:
  fixes a :: "'a::len word"
  shows "unat a + n < 2 ^ LENGTH('a) \<Longrightarrow> unat (a + of_nat n) = unat a + n"
  by (simp add: unat_word_ariths(1) unat_of_nat mod_add_right_eq)

lemma unat_word_add2:
  fixes a :: "'a::len word"
  shows "unat a + unat b < 2 ^ LENGTH('a) \<Longrightarrow> unat (a + b) = unat a + unat b"
  by (simp add: unat_word_ariths(1))

lemma sorted_wrt_map_iff_nth:
  "sorted (map f xs) \<longleftrightarrow> (\<forall>i j. i \<le> j \<longrightarrow> j < length xs \<longrightarrow> f (xs ! i) \<le> f (xs ! j))"
  by (auto simp: sorted_iff_nth_mono)

lemma map_upt_nth: "map (\<lambda>i. f (xs ! i)) [0..<length xs] = map f xs"
  by (rule nth_equalityI) simp_all

lemma map_upt_split:
  assumes "m \<le> n"
  shows "map f [0..<n] = map f [0..<m] @ map (\<lambda>i. f (m + i)) [0..<n - m]"
proof -
  have "[0..<n] = [0..<m] @ [m..<n]" using assms upt_add_eq_append [of 0 m "n - m"] by simp
  moreover have "map f [m..<n] = map (\<lambda>i. f (m + i)) [0..<n - m]"
    by (rule nth_equalityI) simp_all
  ultimately show ?thesis by simp
qed

lemma nth_take_drop_decomp: "i < length xs \<Longrightarrow> take i xs @ xs ! i # drop (Suc i) xs = xs"
  by (rule id_take_nth_drop [symmetric])

end
