(* ===== verification/Event_Queue.thy ===== *)
theory Event_Queue
  imports Prelude
begin

text \<open>
  The event queues of the simulation engine (\<^verbatim>\<open>akita/event.go\<close>, \<^verbatim>\<open>akita/eventqueue.go\<close>).
  An event carries the virtual time at which it happens; the engine only ever
  compares times, so \<^verbatim>\<open>VTimeInSec\<close> is a type variable of class \<open>linorder\<close> (the float64
  order restricted to numbers; a NaN time is outside the model). There are two
  implementations of the interface \<^verbatim>\<open>EventQueue\<close>: the binary heap of the standard
  library over a slice (\<^verbatim>\<open>EventQueueImpl\<close>, with \<^verbatim>\<open>container/heap\<close>'s \<open>up\<close> and \<open>down\<close>), and a list
  kept sorted by insertion (\<^verbatim>\<open>InsertionQueue\<close>). The locale \<open>event_queue\<close> states what
  the engine relies on; both are interpretations of it.
\<close>

section \<open>Events\<close>

record ('t, 'h) event =
  ev_ID :: string
  ev_time :: 't
  ev_handler :: 'h
  ev_secondary :: bool

text \<open>\<^verbatim>\<open>SetHandler\<close> has a value receiver: it assigns to a copy and the event keeps its handler.\<close>

definition SetHandler :: "('t, 'h) event \<Rightarrow> 'h \<Rightarrow> ('t, 'h) event" where
  "SetHandler e h = (let copy = e\<lparr>ev_handler := h\<rparr> in e)"

text \<open>An interface value of Go: the methods of \<^verbatim>\<open>EventQueue\<close> over a representation \<open>'q\<close>.\<close>

record ('q, 'e) queue_ops =
  qPush :: "'e \<Rightarrow> 'q \<Rightarrow> 'q"
  qPop :: "'q \<Rightarrow> ('e \<times> 'q) result"
  qLen :: "'q \<Rightarrow> nat"
  qPeek :: "'q \<Rightarrow> 'e result"

section \<open>The heap of the standard library, over a slice of events\<close>

type_synonym ('t, 'h) eventHeap = "('t, 'h) event list"

definition heapLess :: "('t::linorder, 'h) eventHeap \<Rightarrow> nat \<Rightarrow> nat \<Rightarrow> bool" where
  "heapLess h i j = (ev_time (h ! i) < ev_time (h ! j))"

definition heapSwap :: "('t, 'h) eventHeap \<Rightarrow> nat \<Rightarrow> nat \<Rightarrow> ('t, 'h) eventHeap" where
  "heapSwap h i j = h[i := h ! j, j := h ! i]"

text \<open>\<^verbatim>\<open>container/heap\<close>: \<open>up\<close> moves the element at \<open>j\<close> towards the root.\<close>

function up :: "('t::linorder, 'h) eventHeap \<Rightarrow> nat \<Rightarrow> ('t, 'h) eventHeap" where
  "up h j = (let i = (j - 1) div 2
             in if i = j \<or> \<not> heapLess h j i then h else up (heapSwap h i j) i)"
  by pat_completeness auto
termination
  by (relation "measure (\<lambda>(h, j). j)") (auto simp: Let_def)

text \<open>\<open>down\<close> moves the element at \<open>i\<close> towards the leaves of the first \<open>n\<close> elements.\<close>

function down :: "('t::linorder, 'h) eventHeap \<Rightarrow> nat \<Rightarrow> nat \<Rightarrow> ('t, 'h) eventHeap" where
  "down h i n =
     (let j1 = 2 * i + 1; j2 = j1 + 1
      in if j1 \<ge> n then h
         else let j = (if j2 < n \<and> heapLess h j2 j1 then j2 else j1)
              in if \<not> heapLess h j i then h else down (heapSwap h i j) j n)"
  by pat_completeness auto
termination
  by (relation "measure (\<lambda>(h, i, n). n - i)") (auto simp: Let_def)

declare up.simps [simp del] down.simps [simp del]

text \<open>The methods of \<^verbatim>\<open>eventHeap\<close> that \<^verbatim>\<open>container/heap\<close> calls back.\<close>

definition eventHeap_Push :: "('t, 'h) event \<Rightarrow> ('t, 'h) eventHeap \<Rightarrow> ('t, 'h) eventHeap" where
  "eventHeap_Push evt h = h @ [evt]"

definition eventHeap_Pop :: "('t, 'h) eventHeap \<Rightarrow> (('t, 'h) event \<times> ('t, 'h) eventHeap) result" where
  "eventHeap_Pop h =
     (if h = [] then Inl IndexOutOfRange
      else let n = length h in Inr (h ! (n - 1), take (n - 1) h))"

section \<open>EventQueueImpl\<close>

definition NewEventQueue :: "('t, 'h) eventHeap" where
  "NewEventQueue = []"

definition EventQueueImpl_Push ::
    "('t::linorder, 'h) event \<Rightarrow> ('t, 'h) eventHeap \<Rightarrow> ('t, 'h) eventHeap" where
  "EventQueueImpl_Push evt q = (let h = eventHeap_Push evt q in up h (length h - 1))"

text \<open>
  \<^verbatim>\<open>heap.Pop\<close> swaps the root with the last element, repairs the rest and pops the end;
  on an empty queue the swap reads index \<open>-1\<close> and panics.
\<close>

definition EventQueueImpl_Pop ::
    "('t::linorder, 'h) eventHeap \<Rightarrow> (('t, 'h) event \<times> ('t, 'h) eventHeap) result" where
  "EventQueueImpl_Pop q =
     (if q = [] then Inl IndexOutOfRange
      else let n = length q - 1 in eventHeap_Pop (down (heapSwap q 0 n) 0 n))"

definition EventQueueImpl_Len :: "('t, 'h) eventHeap \<Rightarrow> nat" where
  "EventQueueImpl_Len q = length q"

definition EventQueueImpl_Peek :: "('t, 'h) eventHeap \<Rightarrow> ('t, 'h) event result" where
  "EventQueueImpl_Peek q = slice_get q 0"

definition EventQueueImpl ::
    "(('t::linorder, 'h) eventHeap, ('t, 'h) event) queue_ops" where
  "EventQueueImpl = \<lparr>qPush = EventQueueImpl_Push, qPop = EventQueueImpl_Pop,
                     qLen = EventQueueImpl_Len, qPeek = EventQueueImpl_Peek\<rparr>"

section \<open>InsertionQueue\<close>

definition NewInsertionQueue :: "('t, 'h) event list" where
  "NewInsertionQueue = []"

text \<open>The loop stops at the first element later than the event; \<^verbatim>\<open>InsertBefore\<close> or \<^verbatim>\<open>PushBack\<close>.\<close>

fun InsertionQueue_Push ::
    "('t::linorder, 'h) event \<Rightarrow> ('t, 'h) event list \<Rightarrow> ('t, 'h) event list" where
  "InsertionQueue_Push evt [] = [evt]"
| "InsertionQueue_Push evt (ele # l) =
     (if ev_time ele > ev_time evt then evt # ele # l
      else ele # InsertionQueue_Push evt l)"

fun InsertionQueue_Pop ::
    "('t, 'h) event list \<Rightarrow> (('t, 'h) event \<times> ('t, 'h) event list) result" where
  "InsertionQueue_Pop [] = Inl NilDereference"
| "InsertionQueue_Pop (e # l) = Inr (e, l)"

definition InsertionQueue_Len :: "('t, 'h) event list \<Rightarrow> nat" where
  "InsertionQueue_Len l = length l"

fun InsertionQueue_Peek :: "('t, 'h) event list \<Rightarrow> ('t, 'h) event result" where
  "InsertionQueue_Peek [] = Inl NilDereference"
| "InsertionQueue_Peek (e # l) = Inr e"

definition InsertionQueue ::
    "(('t::linorder, 'h) event list, ('t, 'h) event) queue_ops" where
  "InsertionQueue = \<lparr>qPush = InsertionQueue_Push, qPop = InsertionQueue_Pop,
                     qLen = InsertionQueue_Len, qPeek = InsertionQueue_Peek\<rparr>"

section \<open>What the engine relies on\<close>

text \<open>
  A queue is abstracted to the multiset of its events. Popping fails exactly on the
  empty queue, and gives an event no later than any other.
\<close>

locale event_queue =
  fixes Q :: "('q, ('t::linorder, 'h) event) queue_ops"
    and invar :: "'q \<Rightarrow> bool"
    and bag :: "'q \<Rightarrow> ('t, 'h) event multiset"
  assumes invar_push: "invar q \<Longrightarrow> invar (qPush Q e q)"
    and bag_push: "invar q \<Longrightarrow> bag (qPush Q e q) = add_mset e (bag q)"
    and len_bag: "invar q \<Longrightarrow> qLen Q q = size (bag q)"
    and pop_nonempty: "invar q \<Longrightarrow> bag q \<noteq> {#} \<Longrightarrow> ok (qPop Q q)"
    and pop_spec: "invar q \<Longrightarrow> qPop Q q = Inr (e, q') \<Longrightarrow>
       invar q' \<and> bag q = add_mset e (bag q') \<and> (\<forall>x \<in># bag q. ev_time e \<le> ev_time x)"
    and peek_pop: "invar q \<Longrightarrow> qPop Q q = Inr (e, q') \<Longrightarrow> qPeek Q q = Inr e"

text \<open>Popping until the queue is empty, at most \<open>n\<close> times.\<close>

fun drain :: "('q, 'e) queue_ops \<Rightarrow> nat \<Rightarrow> 'q \<Rightarrow> 'e list result" where
  "drain Q 0 q = Inr []"
| "drain Q (Suc n) q =
     (if qLen Q q = 0 then Inr []
      else bindR (qPop Q q) (\<lambda>(e, q'). bindR (drain Q n q') (\<lambda>es. Inr (e # es))))"

context event_queue
begin

lemma drain_sorted_permutation:
  "invar q \<Longrightarrow> size (bag q) \<le> n \<Longrightarrow>
   \<exists>es. drain Q n q = Inr es \<and> mset es = bag q \<and> sorted (map ev_time es)"
proof (induction n arbitrary: q)
  case 0
  then show ?case by simp
next
  case (Suc n)
  show ?case
  proof (cases "bag q = {#}")
    case True
    with Suc.prems show ?thesis by (simp add: len_bag)
  next
    case False
    then obtain e q' where pop: "qPop Q q = Inr (e, q')"
      using pop_nonempty [OF Suc.prems(1)] by (auto simp: ok_def)
    note spec = pop_spec [OF Suc.prems(1) pop]
    with Suc.prems(2) have "size (bag q') \<le> n" by simp
    with Suc.IH spec obtain es where
      es: "drain Q n q' = Inr es" "mset es = bag q'" "sorted (map ev_time es)" by blast
    have "\<forall>x \<in> set es. ev_time e \<le> ev_time x"
      using spec es(2) by (metis insert_iff set_mset_add_mset_insert set_mset_mset)
    with es spec False Suc.prems pop show ?thesis by (simp add: len_bag)
  qed
qed

end

section \<open>The heap is an event queue\<close>

definition parent :: "nat \<Rightarrow> nat" where
  "parent k = (k - 1) div 2"

definition heap_le :: "('t::linorder, 'h) eventHeap \<Rightarrow> nat \<Rightarrow> nat \<Rightarrow> bool" where
  "heap_le h i j = (ev_time (h ! i) \<le> ev_time (h ! j))"

definition is_heap :: "('t::linorder, 'h) eventHeap \<Rightarrow> bool" where
  "is_heap h \<longleftrightarrow> (\<forall>k < length h. 0 < k \<longrightarrow> heap_le h (parent k) k)"

lemma parent_less: "0 < k \<Longrightarrow> parent k < k"
  by (simp add: parent_def)

lemma parent_children: "0 < k \<Longrightarrow> parent k = i \<longleftrightarrow> k = 2 * i + 1 \<or> k = 2 * i + 2"
  by (auto simp: parent_def)

lemma heapSwap_length [simp]: "length (heapSwap h i j) = length h"
  by (simp add: heapSwap_def)

lemma heapSwap_mset [simp]:
  "i < length h \<Longrightarrow> j < length h \<Longrightarrow> mset (heapSwap h i j) = mset h"
  by (simp add: heapSwap_def mset_swap)

lemma heapSwap_nth:
  "i < length h \<Longrightarrow> j < length h \<Longrightarrow> k < length h \<Longrightarrow>
   heapSwap h i j ! k = (if k = i then h ! j else if k = j then h ! i else h ! k)"
  by (auto simp: heapSwap_def nth_list_update)

text \<open>Every edge but the one into \<open>j\<close> is in order, also across \<open>j\<close>.\<close>

definition heap_up_inv :: "('t::linorder, 'h) eventHeap \<Rightarrow> nat \<Rightarrow> bool" where
  "heap_up_inv h j \<longleftrightarrow> j < length h \<and>
     (\<forall>k < length h. 0 < k \<longrightarrow> k \<noteq> j \<longrightarrow> heap_le h (parent k) k) \<and>
     (\<forall>k < length h. 0 < k \<longrightarrow> 0 < j \<longrightarrow> parent k = j \<longrightarrow> heap_le h (parent j) k)"

text \<open>Every edge of the first \<open>n\<close> elements but those out of \<open>i\<close> is in order, also across \<open>i\<close>.\<close>

definition heap_down_inv :: "('t::linorder, 'h) eventHeap \<Rightarrow> nat \<Rightarrow> nat \<Rightarrow> bool" where
  "heap_down_inv h i n \<longleftrightarrow> n \<le> length h \<and>
     (\<forall>k < n. 0 < k \<longrightarrow> parent k \<noteq> i \<longrightarrow> heap_le h (parent k) k) \<and>
     (\<forall>k < n. 0 < k \<longrightarrow> 0 < i \<longrightarrow> parent k = i \<longrightarrow> heap_le h (parent i) k)"


lemma heap_up_step:
  assumes inv: "heap_up_inv h j" and j: "0 < j" and less: "heapLess h j (parent j)"
  shows "heap_up_inv (heapSwap h (parent j) j) (parent j)"
proof -
  let ?i = "parent j" and ?h = "heapSwap h (parent j) j"
  have ij: "?i < j" "j < length h" "?i < length h"
    using inv parent_less [OF j] by (auto simp: heap_up_inv_def)
  have edge: "heap_le h (parent k) k" if "k < length h" "0 < k" "k \<noteq> j" for k
    using inv that by (simp add: heap_up_inv_def)
  have across: "heap_le h ?i k" if "k < length h" "0 < k" "parent k = j" for k
    using inv that j by (simp add: heap_up_inv_def)
  have ordered: "heap_le ?h (parent k) k" if k: "k < length h" "0 < k" "k \<noteq> ?i" for k
  proof -
    have pk: "parent k < k" "parent k < length h"
      using parent_less [of k] k by auto
    consider "k = j" | "k \<noteq> j" "parent k = ?i" | "k \<noteq> j" "parent k = j"
      | "k \<noteq> j" "parent k \<noteq> ?i" "parent k \<noteq> j" by blast
    then show ?thesis
    proof cases
      case 1
      then show ?thesis using less ij pk by (auto simp: heap_le_def heapLess_def heapSwap_nth)
    next
      case 2
      then show ?thesis
        using edge [of k] less k ij pk by (auto simp: heap_le_def heapLess_def heapSwap_nth)
    next
      case 3
      then show ?thesis using across [of k] k ij pk by (auto simp: heap_le_def heapSwap_nth)
    next
      case 4
      then show ?thesis using edge [of k] k ij pk by (auto simp: heap_le_def heapSwap_nth)
    qed
  qed
  have "heap_le ?h (parent ?i) k" if k: "k < length h" "0 < k" "0 < ?i" "parent k = ?i" for k
  proof -
    have pi: "parent ?i < ?i" using parent_less [OF k(3)] .
    have top: "heap_le h (parent ?i) ?i" using edge [of ?i] ij k(3) by simp
    show ?thesis
    proof (cases "k = j")
      case True
      with top pi ij show ?thesis by (auto simp: heap_le_def heapSwap_nth)
    next
      case False
      with edge [of k] k have "heap_le h ?i k" by simp
      with top False pi ij k parent_less [OF k(2)] show ?thesis
        by (auto simp: heap_le_def heapSwap_nth)
    qed
  qed
  with ordered ij show ?thesis by (simp add: heap_up_inv_def)
qed

lemma up_correct: "heap_up_inv h j \<Longrightarrow> is_heap (up h j) \<and> mset (up h j) = mset h"
proof (induction h j rule: up.induct)
  case (1 h j)
  have jl: "j < length h" using "1.prems" by (simp add: heap_up_inv_def)
  show ?case
  proof (cases "parent j = j \<or> \<not> heapLess h j (parent j)")
    case True
    then have stop: "up h j = h" by (subst up.simps) (simp add: parent_def Let_def)
    have "heap_le h (parent j) j" if "0 < j"
      using True parent_less [OF that] by (auto simp: heapLess_def heap_le_def)
    then have "is_heap h"
      using "1.prems" by (auto simp: heap_up_inv_def is_heap_def)
    with stop show ?thesis by simp
  next
    case False
    then have "0 < j" by (cases j) (simp_all add: parent_def)
    have move: "up h j = up (heapSwap h (parent j) j) (parent j)"
      using False by (subst up.simps) (simp add: parent_def Let_def)
    have "is_heap (up (heapSwap h (parent j) j) (parent j)) \<and>
          mset (up (heapSwap h (parent j) j) (parent j)) = mset (heapSwap h (parent j) j)"
      using "1.IH" [of "parent j"] heap_up_step [OF "1.prems" \<open>0 < j\<close>] False
      by (simp add: parent_def)
    with move jl parent_less [OF \<open>0 < j\<close>] show ?thesis by simp
  qed
qed

lemma heap_down_step:
  assumes inv: "heap_down_inv h i n" and j: "parent j = i" "0 < j" "j < n"
    and least: "\<And>k. k < n \<Longrightarrow> 0 < k \<Longrightarrow> parent k = i \<Longrightarrow> heap_le h j k"
    and less: "heapLess h j i"
  shows "heap_down_inv (heapSwap h i j) j n"
proof -
  let ?h = "heapSwap h i j"
  have n: "n \<le> length h" and ij: "i < j" "i < length h" "j < length h"
    using inv j parent_less [of j] by (auto simp: heap_down_inv_def)
  have edge: "heap_le h (parent k) k" if "k < n" "0 < k" "parent k \<noteq> i" for k
    using inv that by (simp add: heap_down_inv_def)
  have across: "heap_le h (parent i) k" if "k < n" "0 < k" "0 < i" "parent k = i" for k
    using inv that by (simp add: heap_down_inv_def)
  have ordered: "heap_le ?h (parent k) k" if k: "k < n" "0 < k" "parent k \<noteq> j" for k
  proof -
    have pk: "parent k < k" "k < length h"
      using parent_less [of k] k n by auto
    consider "parent k = i" | "k = i" | "parent k \<noteq> i" "k \<noteq> i" by blast
    then show ?thesis
    proof cases
      case 1
      then show ?thesis
        using least [of k] less k ij pk by (auto simp: heap_le_def heapLess_def heapSwap_nth)
    next
      case 2
      then show ?thesis using across [of j] j k ij pk by (auto simp: heap_le_def heapSwap_nth)
    next
      case 3
      then have "k \<noteq> j" using j by auto
      with 3 show ?thesis using edge [of k] k ij pk by (auto simp: heap_le_def heapSwap_nth)
    qed
  qed
  have "heap_le ?h (parent j) k" if k: "k < n" "0 < k" "parent k = j" for k
  proof -
    have "k \<noteq> i" "k \<noteq> j" "k < length h" using parent_less [OF k(2)] k ij n by auto
    with edge [of k] k j ij show ?thesis by (auto simp: heap_le_def heapSwap_nth)
  qed
  with ordered n show ?thesis by (simp add: heap_down_inv_def)
qed

text \<open>The child \<open>down\<close> chooses, and what the loop does with it.\<close>

definition down_child :: "('t::linorder, 'h) eventHeap \<Rightarrow> nat \<Rightarrow> nat \<Rightarrow> nat" where
  "down_child h i n =
     (if 2 * i + 2 < n \<and> heapLess h (2 * i + 2) (2 * i + 1) then 2 * i + 2 else 2 * i + 1)"

lemma down_unfold:
  "down h i n =
     (if n \<le> 2 * i + 1 \<or> \<not> heapLess h (down_child h i n) i then h
      else down (heapSwap h i (down_child h i n)) (down_child h i n) n)"
  by (subst down.simps) (auto simp: down_child_def Let_def)

lemma down_child_props:
  assumes "2 * i + 1 < n"
  shows "parent (down_child h i n) = i" "0 < down_child h i n" "down_child h i n < n"
    and "\<And>k. k < n \<Longrightarrow> 0 < k \<Longrightarrow> parent k = i \<Longrightarrow> heap_le h (down_child h i n) k"
proof -
  show "parent (down_child h i n) = i" "0 < down_child h i n" "down_child h i n < n"
    using assms by (auto simp: down_child_def parent_def)
  fix k
  assume "k < n" "0 < k" "parent k = i"
  then have "k < n" "k = 2 * i + 1 \<or> k = 2 * i + 2" by (auto simp: parent_children)
  then show "heap_le h (down_child h i n) k"
    by (auto simp: down_child_def heap_le_def heapLess_def)
qed

lemma down_correct:
  "heap_down_inv h i n \<Longrightarrow>
   mset (down h i n) = mset h \<and>
   (\<forall>k < n. 0 < k \<longrightarrow> heap_le (down h i n) (parent k) k) \<and>
   (\<forall>k. n \<le> k \<longrightarrow> k < length h \<longrightarrow> down h i n ! k = h ! k)"
proof (induction "n - i" arbitrary: h i rule: less_induct)
  case (less i h)
  let ?j = "down_child h i n" and ?h = "heapSwap h i (down_child h i n)"
  have n: "n \<le> length h" using less.prems by (simp add: heap_down_inv_def)
  show ?case
  proof (cases "n \<le> 2 * i + 1 \<or> \<not> heapLess h ?j i")
    case True
    then have stop: "down h i n = h" by (subst down_unfold) simp
    have "heap_le h i k" if k: "k < n" "0 < k" "parent k = i" for k
    proof -
      have c: "2 * i + 1 < n" using k by (auto simp: parent_children)
      then have "heap_le h ?j k" using down_child_props(4) k by blast
      with True c show ?thesis by (auto simp: heap_le_def heapLess_def)
    qed
    with less.prems stop show ?thesis by (auto simp: heap_down_inv_def)
  next
    case False
    then have c: "2 * i + 1 < n" and lt: "heapLess h ?j i" by auto
    note child = down_child_props [OF c, where h = h]
    have ij: "i < ?j" using parent_less [OF child(2)] child(1) by simp
    have inv: "heap_down_inv ?h ?j n"
      by (rule heap_down_step [OF less.prems child(1-3) child(4) lt])
    have "mset (down ?h ?j n) = mset ?h \<and>
      (\<forall>k < n. 0 < k \<longrightarrow> heap_le (down ?h ?j n) (parent k) k) \<and>
      (\<forall>k. n \<le> k \<longrightarrow> k < length ?h \<longrightarrow> down ?h ?j n ! k = ?h ! k)"
      by (rule less.hyps [OF _ inv]) (use ij child(3) in auto)
    moreover have "down h i n = down ?h ?j n" using False by (subst down_unfold) simp
    ultimately show ?thesis using ij child(3) n by (auto simp: heapSwap_nth)
  qed
qed

lemma is_heap_root:
  assumes "is_heap h" "k < length h"
  shows "ev_time (h ! 0) \<le> ev_time (h ! k)"
  using assms(2)
proof (induction k rule: less_induct)
  case (less k)
  show ?case
  proof (cases "k = 0")
    case False
    then have "ev_time (h ! 0) \<le> ev_time (h ! parent k)"
      using less parent_less [of k] by simp
    also have "\<dots> \<le> ev_time (h ! k)"
      using assms(1) less.prems False by (simp add: is_heap_def heap_le_def)
    finally show ?thesis .
  qed simp
qed

lemma push_heap_up_inv:
  "is_heap q \<Longrightarrow> heap_up_inv (q @ [e]) (length q)"
proof -
  assume heap: "is_heap q"
  have "heap_le (q @ [e]) (parent k) k" if "k < length q" "0 < k" for k
    using heap that parent_less [of k] by (simp add: is_heap_def heap_le_def nth_append)
  moreover have "parent k \<noteq> length q" if "k < Suc (length q)" "0 < k" for k
    using that parent_less [of k] by auto
  ultimately show ?thesis by (auto simp: heap_up_inv_def less_Suc_eq)
qed

lemma pop_heap_down_inv:
  assumes "is_heap q" "q \<noteq> []"
  shows "heap_down_inv (heapSwap q 0 (length q - 1)) 0 (length q - 1)"
proof -
  let ?n = "length q - 1"
  have "heap_le (heapSwap q 0 ?n) (parent k) k" if k: "k < ?n" "0 < k" "parent k \<noteq> 0" for k
    using assms k parent_less [of k]
    by (auto simp: is_heap_def heap_le_def heapSwap_nth)
  then show ?thesis by (simp add: heap_down_inv_def)
qed

lemma EventQueueImpl_Pop_spec:
  assumes "is_heap q" "q \<noteq> []"
  shows "\<exists>q'. EventQueueImpl_Pop q = Inr (q ! 0, q') \<and> is_heap q' \<and> mset q = add_mset (q ! 0) (mset q')"
proof -
  let ?n = "length q - 1"
  define h where "h = down (heapSwap q 0 ?n) 0 ?n"
  have n: "?n < length q" "0 < length q" using assms(2) by auto
  have h: "mset h = mset (heapSwap q 0 ?n)"
    "\<forall>k < ?n. 0 < k \<longrightarrow> heap_le h (parent k) k" "h ! ?n = heapSwap q 0 ?n ! ?n"
    using down_correct [OF pop_heap_down_inv [OF assms]] n by (auto simp: h_def)
  have len: "length h = length q" using h(1) by (metis heapSwap_length mset_eq_length)
  have last: "h ! ?n = q ! 0" using h(3) n by (simp add: heapSwap_nth)
  have "is_heap (take ?n h)"
    unfolding is_heap_def
  proof (intro allI impI)
    fix k
    assume k: "k < length (take ?n h)" "0 < k"
    with h(2) parent_less [of k] show "heap_le (take ?n h) (parent k) k"
      by (simp add: heap_le_def)
  qed
  moreover have "mset q = add_mset (q ! 0) (mset (take ?n h))"
  proof -
    have "h = take ?n h @ [h ! ?n]"
      using len n take_Suc_conv_app_nth [of ?n h] by simp
    then have "mset h = mset (take ?n h @ [h ! ?n])" by (rule arg_cong)
    also have "\<dots> = add_mset (h ! ?n) (mset (take ?n h))" by simp
    finally show ?thesis using h(1) last n by simp
  qed
  moreover have "EventQueueImpl_Pop q = Inr (q ! 0, take ?n h)"
    using assms(2) len last h_def by (auto simp: EventQueueImpl_Pop_def eventHeap_Pop_def Let_def)
  ultimately show ?thesis by blast
qed

interpretation hq: event_queue EventQueueImpl is_heap mset
proof
  fix q :: "('a::linorder, 'b) eventHeap" and e
  assume inv: "is_heap q"
  show "is_heap (qPush EventQueueImpl e q)" "mset (qPush EventQueueImpl e q) = add_mset e (mset q)"
    using up_correct [OF push_heap_up_inv [OF inv, of e]]
    by (auto simp: EventQueueImpl_def EventQueueImpl_Push_def eventHeap_Push_def Let_def)
  show "qLen EventQueueImpl q = size (mset q)"
    by (simp add: EventQueueImpl_def EventQueueImpl_Len_def)
  show "ok (qPop EventQueueImpl q)" if "mset q \<noteq> {#}"
    using EventQueueImpl_Pop_spec [OF inv] that by (force simp: EventQueueImpl_def ok_def)
  fix q'
  assume pop: "qPop EventQueueImpl q = Inr (e, q')"
  then have ne: "q \<noteq> []" by (auto simp: EventQueueImpl_def EventQueueImpl_Pop_def)
  with EventQueueImpl_Pop_spec [OF inv ne] pop
  have e: "e = q ! 0" "is_heap q'" "mset q = add_mset e (mset q')"
    by (auto simp: EventQueueImpl_def)
  then show "is_heap q' \<and> mset q = add_mset e (mset q') \<and> (\<forall>x \<in># mset q. ev_time e \<le> ev_time x)"
    using is_heap_root [OF inv] by (metis in_set_conv_nth set_mset_mset)
  show "qPeek EventQueueImpl q = Inr e"
    using ne e(1) by (simp add: EventQueueImpl_def EventQueueImpl_Peek_def)
qed

section \<open>The insertion queue is an event queue\<close>

lemma InsertionQueue_Push_mset [simp]: "mset (InsertionQueue_Push e l) = add_mset e (mset l)"
  by (induction l) auto

lemma InsertionQueue_Push_set: "set (InsertionQueue_Push e l) = insert e (set l)"
  by (induction l) auto

lemma InsertionQueue_Push_sorted:
  "sorted (map ev_time l) \<Longrightarrow> sorted (map ev_time (InsertionQueue_Push e l))"
  by (induction l) (auto simp: InsertionQueue_Push_set)

text \<open>Events of the same time stay in the order they were pushed.\<close>

lemma InsertionQueue_Push_stable:
  "sorted (map ev_time l) \<Longrightarrow>
   filter (\<lambda>x. t = ev_time x) (InsertionQueue_Push e l) =
   filter (\<lambda>x. t = ev_time x) l @ (if t = ev_time e then [e] else [])"
proof (induction l)
  case Nil
  then show ?case by simp
next
  case (Cons x l)
  have "filter (\<lambda>y. ev_time e = ev_time y) l = []" if "ev_time e < ev_time x"
    using that Cons.prems by (auto simp: filter_empty_conv)
  with Cons show ?case by auto
qed

interpretation iq: event_queue InsertionQueue "\<lambda>l. sorted (map ev_time l)" mset
proof
  fix q :: "('a::linorder, 'b) event list" and e q'
  assume inv: "sorted (map ev_time q)"
  show "sorted (map ev_time (qPush InsertionQueue e q))"
    using inv by (simp add: InsertionQueue_def InsertionQueue_Push_sorted)
  show "mset (qPush InsertionQueue e q) = add_mset e (mset q)"
    by (simp add: InsertionQueue_def)
  show "qLen InsertionQueue q = size (mset q)"
    by (simp add: InsertionQueue_def InsertionQueue_Len_def)
  show "mset q \<noteq> {#} \<Longrightarrow> ok (qPop InsertionQueue q)"
    by (cases q) (simp_all add: InsertionQueue_def)
  assume pop: "qPop InsertionQueue q = Inr (e, q')"
  then have "q = e # q'" by (cases q) (simp_all add: InsertionQueue_def)
  with inv show "sorted (map ev_time q') \<and> mset q = add_mset e (mset q') \<and>
      (\<forall>x \<in># mset q. ev_time e \<le> ev_time x)" "qPeek InsertionQueue q = Inr e"
    by (auto simp: InsertionQueue_def)
qed

lemma drain_InsertionQueue: "drain InsertionQueue (length l) l = Inr l"
  by (induction l) (simp_all add: InsertionQueue_def InsertionQueue_Len_def)

lemma EventQueueImpl_Push_heap:
  "is_heap q \<Longrightarrow> is_heap (EventQueueImpl_Push e q)"
  "is_heap q \<Longrightarrow> mset (EventQueueImpl_Push e q) = add_mset e (mset q)"
  using hq.invar_push [of q e] hq.bag_push [of q e] by (simp_all add: EventQueueImpl_def)

lemma fold_push_heap: "is_heap q \<Longrightarrow> is_heap (fold EventQueueImpl_Push evts q) \<and>
    mset (fold EventQueueImpl_Push evts q) = mset evts + mset q"
  by (induction evts arbitrary: q) (simp_all add: EventQueueImpl_Push_heap)

lemma fold_push_sorted: "sorted (map ev_time l) \<Longrightarrow>
    sorted (map ev_time (fold InsertionQueue_Push evts l)) \<and>
    mset (fold InsertionQueue_Push evts l) = mset evts + mset l"
  by (induction evts arbitrary: l) (auto simp: InsertionQueue_Push_sorted)

lemma fold_push_stable: "sorted (map ev_time l) \<Longrightarrow>
    filter (\<lambda>x. t = ev_time x) (fold InsertionQueue_Push evts l) =
    filter (\<lambda>x. t = ev_time x) l @ filter (\<lambda>x. t = ev_time x) evts"
  by (induction evts arbitrary: l)
    (auto simp: InsertionQueue_Push_sorted InsertionQueue_Push_stable)

section \<open>Properties\<close>

text \<open>
  Claim C19. Whatever events are pushed into a new \<^verbatim>\<open>EventQueueImpl\<close>, in whatever order,
  popping until it is empty succeeds and returns exactly those events, by
  non-decreasing time.
\<close>

theorem EventQueueImpl_drains_in_time_order:
  "\<exists>es. drain EventQueueImpl (length evts) (fold EventQueueImpl_Push evts NewEventQueue) = Inr es \<and>
        mset es = mset evts \<and> sorted (map ev_time es)"
proof -
  have "is_heap (fold EventQueueImpl_Push evts NewEventQueue) \<and>
        mset (fold EventQueueImpl_Push evts NewEventQueue) = mset evts"
    using fold_push_heap [of NewEventQueue evts] by (simp add: NewEventQueue_def is_heap_def)
  then show ?thesis
    using hq.drain_sorted_permutation by (metis order_refl size_mset)
qed

text \<open>
  The \<^verbatim>\<open>InsertionQueue\<close> is a stable priority queue: draining it returns the
  pushed events as a stable sort by time would, so events of the same time leave in
  the order in which they were pushed.
\<close>

theorem InsertionQueue_drains_stably:
  "drain InsertionQueue (length evts) (fold InsertionQueue_Push evts NewInsertionQueue) =
   Inr (sort_key ev_time evts)"
proof -
  let ?l = "fold InsertionQueue_Push evts NewInsertionQueue"
  have l: "sorted (map ev_time ?l)" "mset ?l = mset evts"
    using fold_push_sorted [of NewInsertionQueue evts] by (simp_all add: NewInsertionQueue_def)
  have "\<And>k. filter (\<lambda>x. ev_time k = ev_time x) ?l = filter (\<lambda>x. ev_time k = ev_time x) evts"
    using fold_push_stable [of NewInsertionQueue] by (simp add: NewInsertionQueue_def)
  with l have "sort_key ev_time evts = ?l" by (intro properties_for_sort_key) auto
  moreover have "length ?l = length evts" using l(2) by (metis size_mset)
  ultimately show ?thesis using drain_InsertionQueue [of ?l] by simp
qed

end
