(* ===== verification/Serial_Engine.thy ===== *)
theory Serial_Engine
  imports Event_Queue
begin

text \<open>
  The serial simulation engine (\<^verbatim>\<open>akita/serialengine.go\<close>). The engine holds the virtual
  time and two event queues, one for primary and one for secondary events, and \<^verbatim>\<open>Run\<close>
  pops and handles events one at a time. It reaches its queues only through the
  interface \<^verbatim>\<open>EventQueue\<close>, so every definition takes the queue's methods as an argument;
  its lemmas are proved once in the context of the locale \<open>event_queue\<close> and used for
  \<^verbatim>\<open>EventQueueImpl\<close>, which \<^verbatim>\<open>NewSerialEngine\<close> installs.

  The handler of an event is any component, and what it does to the engine is to call
  \<^verbatim>\<open>Schedule\<close>: the parameter \<open>handle\<close> maps the event and the state \<open>'w\<close> of all components
  to their new state and the events scheduled, in order. \<^verbatim>\<open>Run\<close> loops for as long as there
  are events, which may be forever: \<open>Run\<close> below does at most \<open>n\<close> iterations, and
  \<open>Run_terminates\<close> gives an \<open>n\<close> that is enough whenever handling an event makes less work
  than the event itself was.
\<close>

section \<open>State and operations\<close>

record ('t, 'q, 'w) serial_engine =
  eng_time :: 't
  eng_queue :: 'q
  eng_secondaryQueue :: 'q
  eng_endHandlers :: "('t \<Rightarrow> 'w \<Rightarrow> 'w) list"

definition NewSerialEngine :: "('t::{linorder,zero}, ('t, 'h) eventHeap, 'w) serial_engine" where
  "NewSerialEngine = \<lparr>eng_time = 0, eng_queue = NewEventQueue,
                      eng_secondaryQueue = NewEventQueue, eng_endHandlers = []\<rparr>"

definition Schedule ::
    "('q, ('t::linorder, 'h) event) queue_ops \<Rightarrow> ('t, 'h) event \<Rightarrow>
     ('t, 'q, 'w) serial_engine \<Rightarrow> ('t, 'q, 'w) serial_engine result" where
  "Schedule Q evt e =
     (let now = eng_time e
      in if ev_time evt < now then Inl (Panic ''scheduling an event earlier than current time'')
         else if ev_secondary evt
              then Inr (e\<lparr>eng_secondaryQueue := qPush Q evt (eng_secondaryQueue e)\<rparr>)
              else Inr (e\<lparr>eng_queue := qPush Q evt (eng_queue e)\<rparr>))"

text \<open>The calls of \<^verbatim>\<open>Schedule\<close> a handler makes, one after the other.\<close>

fun Schedule_all ::
    "('q, ('t::linorder, 'h) event) queue_ops \<Rightarrow> ('t, 'h) event list \<Rightarrow>
     ('t, 'q, 'w) serial_engine \<Rightarrow> ('t, 'q, 'w) serial_engine result" where
  "Schedule_all Q [] e = Inr e"
| "Schedule_all Q (evt # evts) e = bindR (Schedule Q evt e) (Schedule_all Q evts)"

definition noMoreEvent ::
    "('q, 'e) queue_ops \<Rightarrow> ('t, 'q, 'w) serial_engine \<Rightarrow> bool" where
  "noMoreEvent Q e = (qLen Q (eng_queue e) = 0 \<and> qLen Q (eng_secondaryQueue e) = 0)"

definition nextEvent ::
    "('q, ('t::linorder, 'h) event) queue_ops \<Rightarrow> ('t, 'q, 'w) serial_engine \<Rightarrow>
     (('t, 'h) event \<times> ('t, 'q, 'w) serial_engine) result" where
  "nextEvent Q e =
     (if qLen Q (eng_queue e) = 0
      then bindR (qPop Q (eng_secondaryQueue e))
             (\<lambda>(evt, q). Inr (evt, e\<lparr>eng_secondaryQueue := q\<rparr>))
      else if qLen Q (eng_secondaryQueue e) = 0
      then bindR (qPop Q (eng_queue e)) (\<lambda>(evt, q). Inr (evt, e\<lparr>eng_queue := q\<rparr>))
      else bindR (qPeek Q (eng_queue e)) (\<lambda>primaryEvt.
           bindR (qPeek Q (eng_secondaryQueue e)) (\<lambda>secondaryEvt.
           if ev_time primaryEvt \<le> ev_time secondaryEvt
           then bindR (qPop Q (eng_queue e)) (\<lambda>(_, q). Inr (primaryEvt, e\<lparr>eng_queue := q\<rparr>))
           else bindR (qPop Q (eng_secondaryQueue e))
                  (\<lambda>(_, q). Inr (secondaryEvt, e\<lparr>eng_secondaryQueue := q\<rparr>)))))"

definition CurrentTime :: "('t, 'q, 'w) serial_engine \<Rightarrow> 't" where
  "CurrentTime e = eng_time e"

text \<open>One iteration of the loop of \<^verbatim>\<open>Run\<close>, when there is an event.\<close>

definition RunBody ::
    "('q, ('t::linorder, 'h) event) queue_ops \<Rightarrow>
     (('t, 'h) event \<Rightarrow> 'w \<Rightarrow> 'w \<times> ('t, 'h) event list) \<Rightarrow>
     ('t, 'q, 'w) serial_engine \<Rightarrow> 'w \<Rightarrow>
     (('t, 'h) event \<times> ('t, 'q, 'w) serial_engine \<times> 'w) result" where
  "RunBody Q handle e w =
     bindR (nextEvent Q e) (\<lambda>(evt, e1).
       let now = eng_time e1
       in if ev_time evt < now then Inl (Panic ''cannot run event in the past'')
          else let e2 = e1\<lparr>eng_time := ev_time evt\<rparr>; (w', evts) = handle evt w
               in bindR (Schedule_all Q evts e2) (\<lambda>e3. Inr (evt, e3, w')))"

text \<open>The loop of \<^verbatim>\<open>Run\<close>: the events handled, in order, and the state it stops in.\<close>

fun Run ::
    "('q, ('t::linorder, 'h) event) queue_ops \<Rightarrow>
     (('t, 'h) event \<Rightarrow> 'w \<Rightarrow> 'w \<times> ('t, 'h) event list) \<Rightarrow> nat \<Rightarrow>
     ('t, 'q, 'w) serial_engine \<Rightarrow> 'w \<Rightarrow>
     (('t, 'h) event list \<times> ('t, 'q, 'w) serial_engine \<times> 'w) result" where
  "Run Q handle 0 e w = Inr ([], e, w)"
| "Run Q handle (Suc n) e w =
     (if noMoreEvent Q e then Inr ([], e, w)
      else bindR (RunBody Q handle e w) (\<lambda>(evt, e', w').
           bindR (Run Q handle n e' w') (\<lambda>(tr, e'', w''). Inr (evt # tr, e'', w''))))"

definition RegisterSimulationEndHandler ::
    "('t \<Rightarrow> 'w \<Rightarrow> 'w) \<Rightarrow> ('t, 'q, 'w) serial_engine \<Rightarrow> ('t, 'q, 'w) serial_engine" where
  "RegisterSimulationEndHandler h e = e\<lparr>eng_endHandlers := eng_endHandlers e @ [h]\<rparr>"

definition Finished :: "('t, 'q, 'w) serial_engine \<Rightarrow> 'w \<Rightarrow> 'w" where
  "Finished e w = fold (\<lambda>h. h (eng_time e)) (eng_endHandlers e) w"

section \<open>Invariant\<close>

definition engine_inv ::
    "('q \<Rightarrow> bool) \<Rightarrow> ('q \<Rightarrow> ('t::linorder, 'h) event multiset) \<Rightarrow> ('t, 'q, 'w) serial_engine \<Rightarrow> bool" where
  "engine_inv invar bag e \<longleftrightarrow>
     invar (eng_queue e) \<and> invar (eng_secondaryQueue e) \<and>
     (\<forall>x \<in># bag (eng_queue e). \<not> ev_secondary x \<and> eng_time e \<le> ev_time x) \<and>
     (\<forall>x \<in># bag (eng_secondaryQueue e). ev_secondary x \<and> eng_time e \<le> ev_time x)"

definition pending ::
    "('q \<Rightarrow> ('t, 'h) event multiset) \<Rightarrow> ('t, 'q, 'w) serial_engine \<Rightarrow> ('t, 'h) event multiset" where
  "pending bag e = bag (eng_queue e) + bag (eng_secondaryQueue e)"

text \<open>Handlers never schedule into the past of the event they handle.\<close>

definition causal :: "(('t::linorder, 'h) event \<Rightarrow> 'w \<Rightarrow> 'w \<times> ('t, 'h) event list) \<Rightarrow> bool" where
  "causal handle \<longleftrightarrow> (\<forall>evt w. \<forall>x \<in> set (snd (handle evt w)). ev_time evt \<le> ev_time x)"

lemma causalD:
  "causal handle \<Longrightarrow> handle evt w = (w', evts) \<Longrightarrow> x \<in> set evts \<Longrightarrow> ev_time evt \<le> ev_time x"
  by (force simp: causal_def dest: spec [of _ evt] spec [of _ w])

context event_queue
begin

lemma Schedule_spec:
  assumes "engine_inv invar bag e" "eng_time e \<le> ev_time evt"
  shows "\<exists>e'. Schedule Q evt e = Inr e' \<and> engine_inv invar bag e' \<and>
              eng_time e' = eng_time e \<and> pending bag e' = add_mset evt (pending bag e)"
  using assms
  by (cases "ev_secondary evt")
     (auto simp: Schedule_def engine_inv_def pending_def invar_push bag_push)

lemma Schedule_all_spec:
  "engine_inv invar bag e \<Longrightarrow> \<forall>x \<in> set evts. eng_time e \<le> ev_time x \<Longrightarrow>
   \<exists>e'. Schedule_all Q evts e = Inr e' \<and> engine_inv invar bag e' \<and>
        eng_time e' = eng_time e \<and> pending bag e' = mset evts + pending bag e"
proof (induction evts arbitrary: e)
  case Nil
  then show ?case by simp
next
  case (Cons evt evts)
  then obtain e1 where e1: "Schedule Q evt e = Inr e1" "engine_inv invar bag e1"
      "eng_time e1 = eng_time e" "pending bag e1 = add_mset evt (pending bag e)"
    using Schedule_spec by (metis list.set_intros(1))
  with Cons.IH [of e1] Cons.prems show ?case by auto
qed

text \<open>
  The next event is one of the pending events, none is earlier, and when it is a
  secondary one every pending primary event is strictly later.
\<close>

lemma nextEvent_spec:
  assumes inv: "engine_inv invar bag e" and more: "\<not> noMoreEvent Q e"
  shows "\<exists>evt e'. nextEvent Q e = Inr (evt, e') \<and> eng_time e' = eng_time e \<and>
           invar (eng_queue e') \<and> invar (eng_secondaryQueue e') \<and>
           pending bag e = add_mset evt (pending bag e') \<and>
           bag (eng_queue e') \<subseteq># bag (eng_queue e) \<and>
           bag (eng_secondaryQueue e') \<subseteq># bag (eng_secondaryQueue e) \<and>
           (\<forall>x \<in># pending bag e. ev_time evt \<le> ev_time x) \<and>
           (ev_secondary evt \<longrightarrow> (\<forall>x \<in># bag (eng_queue e). ev_time evt < ev_time x))"
proof -
  let ?p = "eng_queue e" and ?s = "eng_secondaryQueue e"
  have invs: "invar ?p" "invar ?s" using inv by (auto simp: engine_inv_def)
  note lens = len_bag [OF invs(1)] len_bag [OF invs(2)]
  have prim: "\<exists>x q. qPop Q ?p = Inr (x, q) \<and> qPeek Q ?p = Inr x \<and> invar q \<and> \<not> ev_secondary x \<and>
      bag ?p = add_mset x (bag q) \<and> (\<forall>y \<in># bag ?p. ev_time x \<le> ev_time y)" if ne: "bag ?p \<noteq> {#}"
  proof -
    obtain x q where "qPop Q ?p = Inr (x, q)"
      using pop_nonempty [OF invs(1) ne] by (auto simp: ok_def)
    with pop_spec [OF invs(1)] peek_pop [OF invs(1)] inv show ?thesis
      by (force simp: engine_inv_def)
  qed
  have sec: "\<exists>x q. qPop Q ?s = Inr (x, q) \<and> qPeek Q ?s = Inr x \<and> invar q \<and> ev_secondary x \<and>
      bag ?s = add_mset x (bag q) \<and> (\<forall>y \<in># bag ?s. ev_time x \<le> ev_time y)" if ne: "bag ?s \<noteq> {#}"
  proof -
    obtain x q where "qPop Q ?s = Inr (x, q)"
      using pop_nonempty [OF invs(2) ne] by (auto simp: ok_def)
    with pop_spec [OF invs(2)] peek_pop [OF invs(2)] inv show ?thesis
      by (force simp: engine_inv_def)
  qed
  consider "bag ?p = {#}" "bag ?s \<noteq> {#}" | "bag ?p \<noteq> {#}" "bag ?s = {#}"
    | "bag ?p \<noteq> {#}" "bag ?s \<noteq> {#}"
    using more lens by (auto simp: noMoreEvent_def)
  then show ?thesis
  proof cases
    case 1
    with sec show ?thesis using invs lens by (auto simp: nextEvent_def pending_def)
  next
    case 2
    with prim show ?thesis using invs lens by (auto simp: nextEvent_def pending_def)
  next
    case 3
    obtain x q where x: "qPop Q ?p = Inr (x, q)" "qPeek Q ?p = Inr x" "invar q" "\<not> ev_secondary x"
        "bag ?p = add_mset x (bag q)" "\<forall>y \<in># bag ?p. ev_time x \<le> ev_time y"
      using prim [OF 3(1)] by blast
    obtain y r where y: "qPop Q ?s = Inr (y, r)" "qPeek Q ?s = Inr y" "invar r" "ev_secondary y"
        "bag ?s = add_mset y (bag r)" "\<forall>z \<in># bag ?s. ev_time y \<le> ev_time z"
      using sec [OF 3(2)] by blast
    show ?thesis
    proof (cases "ev_time x \<le> ev_time y")
      case True
      with 3 x y invs lens show ?thesis
        by (auto simp: nextEvent_def pending_def intro: order_trans)
    next
      case False
      with 3 x y invs lens show ?thesis
        by (auto simp: nextEvent_def pending_def intro: less_le_trans order.trans)
    qed
  qed
qed

lemma RunBody_spec:
  assumes inv: "engine_inv invar bag e" and more: "\<not> noMoreEvent Q e" and c: "causal handle"
  shows "\<exists>evt e' w' evts. RunBody Q handle e w = Inr (evt, e', w') \<and> handle evt w = (w', evts) \<and>
           engine_inv invar bag e' \<and> eng_time e' = ev_time evt \<and> eng_time e \<le> ev_time evt \<and>
           add_mset evt (pending bag e') = mset evts + pending bag e \<and>
           (ev_secondary evt \<longrightarrow> (\<forall>x \<in># bag (eng_queue e). ev_time evt < ev_time x))"
proof -
  obtain evt e1 where e1: "nextEvent Q e = Inr (evt, e1)" "eng_time e1 = eng_time e"
      "invar (eng_queue e1)" "invar (eng_secondaryQueue e1)"
      "pending bag e = add_mset evt (pending bag e1)"
      "bag (eng_queue e1) \<subseteq># bag (eng_queue e)"
      "bag (eng_secondaryQueue e1) \<subseteq># bag (eng_secondaryQueue e)"
      "\<forall>x \<in># pending bag e. ev_time evt \<le> ev_time x"
      "ev_secondary evt \<longrightarrow> (\<forall>x \<in># bag (eng_queue e). ev_time evt < ev_time x)"
    using nextEvent_spec [OF inv more] by blast
  obtain w' evts where h: "handle evt w = (w', evts)" by fastforce
  have "evt \<in># pending bag e" using e1(5) by simp
  then have later: "eng_time e \<le> ev_time evt"
    using inv by (auto simp: engine_inv_def pending_def)
  let ?e2 = "e1\<lparr>eng_time := ev_time evt\<rparr>"
  have "engine_inv invar bag ?e2"
    using inv e1(3,4,6-8) by (auto simp: engine_inv_def pending_def dest: mset_subset_eqD)
  moreover have "\<forall>x \<in> set evts. eng_time ?e2 \<le> ev_time x"
    using causalD [OF c h] by simp
  ultimately obtain e' where e': "Schedule_all Q evts ?e2 = Inr e'" "engine_inv invar bag e'"
      "eng_time e' = ev_time evt" "pending bag e' = mset evts + pending bag ?e2"
    using Schedule_all_spec by fastforce
  have "RunBody Q handle e w = Inr (evt, e', w')"
    using e1(1,2) later h e'(1) by (auto simp: RunBody_def Let_def)
  with h e' later e1(5,9) show ?thesis by (auto simp: pending_def)
qed

text \<open>What a run of any length does from a state that satisfies the invariant.\<close>

lemma Run_spec:
  "engine_inv invar bag e \<Longrightarrow> causal handle \<Longrightarrow>
   \<exists>tr e' w'. Run Q handle n e w = Inr (tr, e', w') \<and> engine_inv invar bag e' \<and>
      sorted (map ev_time tr) \<and> (\<forall>x \<in> set tr. eng_time e \<le> ev_time x \<and> ev_time x \<le> eng_time e') \<and>
      eng_time e \<le> eng_time e'"
proof (induction n arbitrary: e w)
  case 0
  then show ?case by simp
next
  case (Suc n)
  show ?case
  proof (cases "noMoreEvent Q e")
    case True
    with Suc.prems show ?thesis by simp
  next
    case False
    then obtain evt e1 w1 where s: "RunBody Q handle e w = Inr (evt, e1, w1)"
        "engine_inv invar bag e1" "eng_time e1 = ev_time evt" "eng_time e \<le> ev_time evt"
      using RunBody_spec [OF Suc.prems(1) False Suc.prems(2)] by blast
    obtain tr e' w' where r: "Run Q handle n e1 w1 = Inr (tr, e', w')" "engine_inv invar bag e'"
        "sorted (map ev_time tr)" "\<forall>x \<in> set tr. eng_time e1 \<le> ev_time x \<and> ev_time x \<le> eng_time e'"
        "eng_time e1 \<le> eng_time e'"
      using Suc.IH [OF s(2) Suc.prems(2)] by blast
    with s False show ?thesis by (auto intro: order_trans)
  qed
qed

text \<open>
  If every event has a weight and handling one schedules strictly less weight than the
  event's own, a run of as many iterations as the pending weight empties both queues.
\<close>

lemma Run_terminates_spec:
  fixes weight :: "('t, 'h) event \<Rightarrow> nat"
  assumes c: "causal handle"
    and less: "\<And>evt w. (\<Sum>x \<in># mset (snd (handle evt w)). weight x) < weight evt"
  shows "engine_inv invar bag e \<Longrightarrow> (\<Sum>x \<in># pending bag e. weight x) \<le> n \<Longrightarrow>
   \<exists>tr e' w'. Run Q handle n e w = Inr (tr, e', w') \<and> noMoreEvent Q e'"
proof (induction n arbitrary: e w)
  case 0
  have "0 < weight x" for x
    using less [of x undefined] by (rule le_less_trans [OF zero_le])
  moreover have "weight x = 0" if "x \<in># pending bag e" for x
    using 0 that by simp
  ultimately have "pending bag e = {#}" by (metis less_irrefl multiset_nonemptyE)
  with 0 show ?case by (simp add: noMoreEvent_def pending_def engine_inv_def len_bag)
next
  case (Suc n)
  show ?case
  proof (cases "noMoreEvent Q e")
    case True
    then show ?thesis by simp
  next
    case False
    then obtain evt e1 w1 evts where s: "RunBody Q handle e w = Inr (evt, e1, w1)"
        "handle evt w = (w1, evts)" "engine_inv invar bag e1"
        "add_mset evt (pending bag e1) = mset evts + pending bag e"
      using RunBody_spec [OF Suc.prems(1) False c] by blast
    from s(4) have "weight evt + (\<Sum>x \<in># pending bag e1. weight x) =
        (\<Sum>x \<in># mset evts. weight x) + (\<Sum>x \<in># pending bag e. weight x)"
      by (metis image_mset_add_mset image_mset_union sum_mset.add_mset sum_mset.union)
    with less [of evt w] s(2) Suc.prems(2) have "(\<Sum>x \<in># pending bag e1. weight x) \<le> n" by simp
    with Suc.IH [OF s(3)] obtain tr e' w' where
      "Run Q handle n e1 w1 = Inr (tr, e', w')" "noMoreEvent Q e'" by blast
    with s(1) False show ?thesis by simp
  qed
qed

end

section \<open>Properties\<close>

text \<open>The components kick the simulation off by scheduling into a new engine.\<close>

lemma Schedule_all_new:
  assumes "\<forall>x \<in> set evts. (0::'t::{linorder,zero}) \<le> ev_time x"
  shows "\<exists>e0. Schedule_all EventQueueImpl evts (NewSerialEngine :: ('t, ('t, 'h) eventHeap, 'w) serial_engine) = Inr e0 \<and>
           engine_inv is_heap mset e0 \<and> eng_time e0 = 0 \<and> pending mset e0 = mset evts"
proof -
  have "engine_inv is_heap mset (NewSerialEngine :: ('t, ('t, 'h) eventHeap, 'w) serial_engine)"
    by (simp add: engine_inv_def NewSerialEngine_def NewEventQueue_def is_heap_def)
  from hq.Schedule_all_spec [OF this, of evts] assms show ?thesis
    by (simp add: NewSerialEngine_def NewEventQueue_def pending_def)
qed

text \<open>
  Claim C1. When handlers only schedule events no earlier than the event they handle, a
  run of any length from a new engine with any initial events never panics (neither in
  \<^verbatim>\<open>Schedule\<close> nor in the check of \<^verbatim>\<open>Run\<close>, nor on an empty queue), handles events by
  non-decreasing time, and the clock ends no earlier than any handled event.
\<close>

theorem Run_in_time_order:
  fixes evts :: "('t::{linorder,zero}, 'h) event list" and w :: 'w
  assumes "causal handle" and "\<forall>x \<in> set evts. 0 \<le> ev_time x"
  shows "\<exists>e0 tr e w'. Schedule_all EventQueueImpl evts NewSerialEngine = Inr e0 \<and>
           Run EventQueueImpl handle n e0 w = Inr (tr, e, w') \<and>
           sorted (map ev_time tr) \<and> (\<forall>x \<in> set tr. ev_time x \<le> CurrentTime e)"
proof -
  obtain e0 :: "('t, ('t, 'h) eventHeap, 'w) serial_engine"
    where e0: "Schedule_all EventQueueImpl evts NewSerialEngine = Inr e0" "engine_inv is_heap mset e0"
    using Schedule_all_new [OF assms(2)] by blast
  with hq.Run_spec [OF e0(2) assms(1)] show ?thesis by (fastforce simp: CurrentTime_def)
qed

text \<open>
  Claim C2. Secondary events are handled after all same-time primary events: whenever an
  iteration of \<^verbatim>\<open>Run\<close> handles a secondary event, every primary event still queued is
  strictly later.
\<close>

theorem primary_before_secondary:
  fixes evts :: "('t::{linorder,zero}, 'h) event list" and w :: 'w
  assumes "causal handle" and "\<forall>x \<in> set evts. 0 \<le> ev_time x"
    and "Schedule_all EventQueueImpl evts NewSerialEngine = Inr e0"
    and "Run EventQueueImpl handle n e0 w = Inr (tr, e, w1)"
    and "\<not> noMoreEvent EventQueueImpl e"
    and "RunBody EventQueueImpl handle e w1 = Inr (evt, e', w2)" and "ev_secondary evt"
  shows "\<forall>x \<in> set (eng_queue e). ev_time evt < ev_time x"
proof -
  have "engine_inv is_heap mset e0"
    using Schedule_all_new [OF assms(2), where 'w = 'w] assms(3) by auto
  from hq.Run_spec [OF this assms(1), of n w] assms(4)
  have "engine_inv is_heap mset e" by auto
  from hq.RunBody_spec [OF this assms(5,1), of w1] assms(6,7) show ?thesis by auto
qed

text \<open>
  Claim C3. \<^verbatim>\<open>Run\<close> returns: if events can be weighed so that handling one schedules strictly
  less weight than its own, then as many iterations as the initial events weigh are
  enough to empty both queues.
\<close>

theorem Run_terminates:
  fixes evts :: "('t::{linorder,zero}, 'h) event list" and w :: 'w
  assumes "causal handle" and "\<forall>x \<in> set evts. 0 \<le> ev_time x"
    and "\<And>evt w. (\<Sum>x \<in># mset (snd (handle evt w)). weight x) < (weight evt :: nat)"
  shows "\<exists>e0 tr e w'. Schedule_all EventQueueImpl evts NewSerialEngine = Inr e0 \<and>
           Run EventQueueImpl handle (\<Sum>x \<in># mset evts. weight x) e0 w = Inr (tr, e, w') \<and>
           noMoreEvent EventQueueImpl e"
proof -
  obtain e0 :: "('t, ('t, 'h) eventHeap, 'w) serial_engine"
    where e0: "Schedule_all EventQueueImpl evts NewSerialEngine = Inr e0"
      "engine_inv is_heap mset e0" "pending mset e0 = mset evts"
    using Schedule_all_new [OF assms(2)] by blast
  with hq.Run_terminates_spec [OF assms(1,3) e0(2)] show ?thesis by fastforce
qed

text \<open>A handler that re-schedules its event one unit later until time 3, and two first events.\<close>

definition relay :: "(nat, nat) event \<Rightarrow> nat \<Rightarrow> nat \<times> (nat, nat) event list" where
  "relay evt w = (w + 1, if ev_time evt < 3 then [evt\<lparr>ev_time := ev_time evt + 1\<rparr>] else [])"

definition relay_events :: "(nat, nat) event list" where
  "relay_events = [\<lparr>ev_ID = ''s'', ev_time = 2, ev_handler = 0, ev_secondary = True\<rparr>,
                   \<lparr>ev_ID = ''p'', ev_time = 2, ev_handler = 0, ev_secondary = False\<rparr>]"

lemma relay_causal: "causal relay"
  by (simp add: causal_def relay_def)

theorem Run_in_time_order_witness:
  "causal relay \<and> (\<exists>e0 tr e w'. Schedule_all EventQueueImpl relay_events NewSerialEngine = Inr e0 \<and>
     Run EventQueueImpl relay 10 e0 0 = Inr (tr, e, w') \<and>
     sorted (map ev_time tr) \<and> (\<forall>x \<in> set tr. ev_time x \<le> CurrentTime e))"
  using relay_causal Run_in_time_order [OF relay_causal, of relay_events 10 0] by simp

lemmas engine_eval = relay_events_def relay_def NewSerialEngine_def NewEventQueue_def Schedule_def
  EventQueueImpl_def EventQueueImpl_Push_def EventQueueImpl_Pop_def EventQueueImpl_Len_def
  EventQueueImpl_Peek_def eventHeap_Push_def eventHeap_Pop_def heapSwap_def heapLess_def
  up.simps down.simps noMoreEvent_def nextEvent_def RunBody_def Let_def

theorem primary_before_secondary_witness:
  "\<exists>e0 tr e w1 evt e' w2. Schedule_all EventQueueImpl relay_events NewSerialEngine = Inr e0 \<and>
     Run EventQueueImpl relay 1 e0 0 = Inr (tr, e, w1) \<and>
     RunBody EventQueueImpl relay e w1 = Inr (evt, e', w2) \<and> ev_secondary evt \<and>
     eng_queue e \<noteq> [] \<and> (\<forall>x \<in> set (eng_queue e). ev_time evt < ev_time x)"
proof -
  obtain e0 :: "(nat, (nat, nat) eventHeap, nat) serial_engine" and tr e w1 evt e' w2
    where s: "Schedule_all EventQueueImpl relay_events NewSerialEngine = Inr e0"
      "Run EventQueueImpl relay 1 e0 0 = Inr (tr, e, w1)" "\<not> noMoreEvent EventQueueImpl e"
      "RunBody EventQueueImpl relay e w1 = Inr (evt, e', w2)" "ev_secondary evt" "eng_queue e \<noteq> []"
    by (simp add: engine_eval)
  then show ?thesis
    using primary_before_secondary [OF relay_causal _ s(1-5)] by auto
qed

theorem Run_terminates_witness:
  "\<exists>e0 tr e w'. Schedule_all EventQueueImpl relay_events NewSerialEngine = Inr e0 \<and>
     Run EventQueueImpl relay 4 e0 0 = Inr (tr, e, w') \<and> noMoreEvent EventQueueImpl e"
proof -
  have "(\<Sum>x \<in># mset (snd (relay evt w)). Suc (3 - ev_time x)) < Suc (3 - ev_time evt)" for evt w
    by (auto simp: relay_def)
  moreover have "(\<Sum>x \<in># mset relay_events. Suc (3 - ev_time x)) = 4"
    by (simp add: relay_events_def)
  ultimately show ?thesis
    using Run_terminates [OF relay_causal, of relay_events "\<lambda>x. Suc (3 - ev_time x)" 0] by simp
qed

end
