(* ===== verification/Connection.thy ===== *)
theory Connection
  imports Event_Queue
begin

text \<open>
  How components exchange messages: the tick scheduler every component and connection wakes up with
  (\<^verbatim>\<open>akita/ticker.go\<close>), the ports (\<^verbatim>\<open>akita/port.go\<close>) and the direct connection that moves messages from the buffer of
  a source port to the incoming buffer of the destination port (\<^verbatim>\<open>akita/directconnection.go\<close>).

  A port is named by a number; the ports' states are a function from names to states. Two packages implement
  \<^verbatim>\<open>akita.Port\<close>, so the connection takes the methods it calls as an argument (\<open>port_ops\<close>) and its lemmas are proved in
  the locale \<open>msg_port\<close>, which \<^verbatim>\<open>LimitNumMsgPort\<close> interprets. A call of a component's \<^verbatim>\<open>NotifyRecv\<close> or \<^verbatim>\<open>NotifyPortFree\<close>
  is a value of \<open>notice\<close> in the output, the message's traffic statistics are part of its body, and an event given to \<^verbatim>\<open>Engine.Schedule\<close> an element of the returned list. Times are
  an ordered ring with the code's \<open>-1\<close> for ``never''; \<^verbatim>\<open>Freq.NextTick\<close> computes in floating point and is a field of the
  scheduler, of which only \<open>now < NextTick now\<close> is used. The identifier of an event is an argument.
\<close>

section \<open>Ticks\<close>

record 't TickScheduler =
  ts_NextTick :: "'t \<Rightarrow> 't"
  ts_secondary :: bool
  ts_nextTickTime :: 't

definition MakeTickEvent :: "string \<Rightarrow> 't \<Rightarrow> 'h \<Rightarrow> ('t, 'h) event" where
  "MakeTickEvent ident t handler = \<lparr>ev_ID = ident, ev_time = t, ev_handler = handler, ev_secondary = False\<rparr>"

definition NewTickScheduler :: "('t \<Rightarrow> 't) \<Rightarrow> 't::linordered_idom TickScheduler" where
  "NewTickScheduler freq = \<lparr>ts_NextTick = freq, ts_secondary = False, ts_nextTickTime = -1\<rparr>"

definition NewSecondaryTickScheduler :: "('t \<Rightarrow> 't) \<Rightarrow> 't::linordered_idom TickScheduler" where
  "NewSecondaryTickScheduler freq = \<lparr>ts_NextTick = freq, ts_secondary = True, ts_nextTickTime = -1\<rparr>"

definition TickNow ::
    "string \<Rightarrow> 'h \<Rightarrow> 't::linordered_idom \<Rightarrow> 't TickScheduler \<Rightarrow> 't TickScheduler \<times> ('t, 'h) event list" where
  "TickNow ident handler now ts =
     (let time = now
      in if ts_nextTickTime ts \<ge> time then (ts, [])
         else (ts\<lparr>ts_nextTickTime := time\<rparr>,
               [let tick = MakeTickEvent ident time handler
                in if ts_secondary ts then tick\<lparr>ev_secondary := True\<rparr> else tick]))"

definition TickLater ::
    "string \<Rightarrow> 'h \<Rightarrow> 't::linordered_idom \<Rightarrow> 't TickScheduler \<Rightarrow> 't TickScheduler \<times> ('t, 'h) event list" where
  "TickLater ident handler now ts =
     (let time = ts_NextTick ts now
      in if ts_nextTickTime ts \<ge> time then (ts, [])
         else (ts\<lparr>ts_nextTickTime := time\<rparr>,
               [let tick = MakeTickEvent ident time handler
                in if ts_secondary ts then tick\<lparr>ev_secondary := True\<rparr> else tick]))"

text \<open>\<^verbatim>\<open>Handle\<close> of a ticking component, over the component's \<^verbatim>\<open>Tick\<close>.\<close>

definition TickingComponent_Handle ::
    "string \<Rightarrow> 'h \<Rightarrow> ('t \<Rightarrow> 's \<Rightarrow> (bool \<times> 's) result) \<Rightarrow> ('t::linordered_idom, 'h) event \<Rightarrow> 's \<times> 't TickScheduler \<Rightarrow>
     (('s \<times> 't TickScheduler) \<times> ('t, 'h) event list) result" where
  "TickingComponent_Handle ident self tick e st =
     (let now = ev_time e
      in bindR (tick now (fst st)) (\<lambda>(madeProgress, s').
           if madeProgress then let (ts, evts) = TickLater ident self now (snd st) in Inr ((s', ts), evts)
           else Inr ((s', snd st), [])))"

definition NotifyRecv_ticks :: "string \<Rightarrow> 'h \<Rightarrow> 't::linordered_idom \<Rightarrow> 't TickScheduler \<Rightarrow> 't TickScheduler \<times> ('t, 'h) event list" where
  "NotifyRecv_ticks ident self now ts = TickLater ident self now ts"

definition NotifyPortFree_ticks :: "string \<Rightarrow> 'h \<Rightarrow> 't::linordered_idom \<Rightarrow> 't TickScheduler \<Rightarrow> 't TickScheduler \<times> ('t, 'h) event list" where
  "NotifyPortFree_ticks ident self now ts = TickLater ident self now ts"

section \<open>Messages and ports\<close>

type_synonym port = nat

record ('t, 'b) Msg =
  m_ID :: string
  m_Src :: "port option"
  m_Dst :: "port option"
  m_SendTime :: 't
  m_RecvTime :: 't
  m_PutInL2TLBBuffer :: bool
  m_Body :: 'b

datatype 't notice = NotifyRecv 't port | NotifyPortFree 't port

text \<open>
  The methods of \<^verbatim>\<open>akita.Port\<close> a connection and a component call: \<^verbatim>\<open>Recv\<close> tells whether there was no error, \<^verbatim>\<open>Retrieve\<close>
  also whether it called the connection's \<^verbatim>\<open>NotifyAvailable\<close>, and \<open>pOwned\<close> whether there is a component to notify.
\<close>

record ('p, 't, 'b) port_ops =
  pName :: "'p \<Rightarrow> string"
  pOwned :: "'p \<Rightarrow> bool"
  pSetConnection :: "nat \<Rightarrow> 'p \<Rightarrow> 'p"
  pRecv :: "('t, 'b) Msg \<Rightarrow> 'p \<Rightarrow> bool \<times> 'p"
  pRetrieve :: "'p \<Rightarrow> (('t, 'b) Msg option \<times> bool \<times> 'p) result"
  pPeek :: "'p \<Rightarrow> ('t, 'b) Msg option"

record ('t, 'b) LimitNumMsgPort =
  lp_name :: string
  lp_comp :: "nat option"
  lp_conn :: "nat option"
  lp_buf :: "('t, 'b) Msg list"
  lp_bufCapacity :: int
  lp_portBusy :: bool

definition NewLimitNumMsgPort :: "nat option \<Rightarrow> int \<Rightarrow> string \<Rightarrow> ('t, 'b) LimitNumMsgPort" where
  "NewLimitNumMsgPort owner capacity name =
     \<lparr>lp_name = name, lp_comp = owner, lp_conn = None, lp_buf = [], lp_bufCapacity = capacity, lp_portBusy = False\<rparr>"

definition Port_SetConnection :: "nat \<Rightarrow> ('t, 'b) LimitNumMsgPort \<Rightarrow> ('t, 'b) LimitNumMsgPort" where
  "Port_SetConnection conn p = p\<lparr>lp_conn := Some conn\<rparr>"

definition Port_Send :: "(nat \<Rightarrow> ('t, 'b) Msg \<Rightarrow> 'r result) \<Rightarrow> ('t, 'b) Msg \<Rightarrow> ('t, 'b) LimitNumMsgPort \<Rightarrow> 'r result" where
  "Port_Send conn_Send msg p = (case lp_conn p of None \<Rightarrow> Inl NilDereference | Some c \<Rightarrow> conn_Send c msg)"

definition Port_Recv :: "('t, 'b) Msg \<Rightarrow> ('t, 'b) LimitNumMsgPort \<Rightarrow> bool \<times> ('t, 'b) LimitNumMsgPort" where
  "Port_Recv msg p =
     (if int (length (lp_buf p)) \<ge> lp_bufCapacity p then (False, p\<lparr>lp_portBusy := True\<rparr>)
      else (True, p\<lparr>lp_buf := lp_buf p @ [msg]\<rparr>))"

definition Port_Retrieve ::
    "('t, 'b) LimitNumMsgPort \<Rightarrow> (('t, 'b) Msg option \<times> bool \<times> ('t, 'b) LimitNumMsgPort) result" where
  "Port_Retrieve p =
     (case lp_buf p of
        [] \<Rightarrow> Inr (None, False, p)
      | msg # rest \<Rightarrow>
          let p = p\<lparr>lp_buf := rest\<rparr>
          in if lp_portBusy p
             then case lp_conn p of
                    None \<Rightarrow> Inl NilDereference
                  | Some _ \<Rightarrow> Inr (Some msg, True, p\<lparr>lp_portBusy := False\<rparr>)
             else Inr (Some msg, False, p))"

definition Port_Peek :: "('t, 'b) LimitNumMsgPort \<Rightarrow> ('t, 'b) Msg option" where
  "Port_Peek p = (case lp_buf p of [] \<Rightarrow> None | msg # _ \<Rightarrow> Some msg)"

definition Port_Owned :: "('t, 'b) LimitNumMsgPort \<Rightarrow> bool" where
  "Port_Owned p = (lp_comp p \<noteq> None)"

text \<open>\<^verbatim>\<open>NotifyAvailable\<close> of a port tells its component that the connection takes messages again.\<close>

definition Port_NotifyAvailable :: "('p, 't, 'b) port_ops \<Rightarrow> 't \<Rightarrow> port \<Rightarrow> 'p \<Rightarrow> 't notice list" where
  "Port_NotifyAvailable P now i p = (if pOwned P p then [NotifyPortFree now i] else [])"

definition LimitNumMsgPort :: "(('t, 'b) LimitNumMsgPort, 't, 'b) port_ops" where
  "LimitNumMsgPort = \<lparr>pName = lp_name, pOwned = Port_Owned, pSetConnection = Port_SetConnection,
     pRecv = Port_Recv, pRetrieve = Port_Retrieve, pPeek = Port_Peek\<rparr>"

lemmas LimitNumMsgPort_defs = LimitNumMsgPort_def Port_Owned_def Port_SetConnection_def Port_Recv_def Port_Retrieve_def Port_Peek_def

text \<open>At the end of a simulation the port has to be empty.\<close>

definition PortEndSimulationChecker_Handle :: "('p, 't, 'b) port_ops \<Rightarrow> 'p \<Rightarrow> unit result" where
  "PortEndSimulationChecker_Handle P p = (if pPeek P p \<noteq> None then Inl (Panic ''port is not free'') else Inr ())"

section \<open>The direct connection\<close>

text \<open>\<^verbatim>\<open>strings.Contains\<close>.\<close>

fun Contains :: "string \<Rightarrow> string \<Rightarrow> bool" where
  "Contains [] sub \<longleftrightarrow> sub = []"
| "Contains (c # s) sub \<longleftrightarrow> take (length sub) (c # s) = sub \<or> Contains s sub"

record ('t, 'b) directConnectionEnd =
  end_port :: port
  end_buf :: "('t, 'b) Msg list"
  end_bufSize :: int
  end_busy :: bool

record ('t, 'b) DirectConnection =
  dc_name :: string
  dc_sched :: "'t TickScheduler"
  dc_nextPortID :: nat
  dc_ports :: "port list"
  dc_ends :: "port \<rightharpoonup> ('t, 'b) directConnectionEnd"
  dc_L2Port :: "port option"

definition NewDirectConnection :: "string \<Rightarrow> ('t \<Rightarrow> 't) \<Rightarrow> ('t::linordered_idom, 'b) DirectConnection" where
  "NewDirectConnection name freq =
     \<lparr>dc_name = name, dc_sched = NewSecondaryTickScheduler freq, dc_nextPortID = 0, dc_ports = [], dc_ends = Map.empty, dc_L2Port = None\<rparr>"

definition PlugIn ::
    "('p, 't, 'b) port_ops \<Rightarrow> nat \<Rightarrow> port \<Rightarrow> int \<Rightarrow> ('t, 'b) DirectConnection \<Rightarrow> (port \<Rightarrow> 'p) \<Rightarrow> ('t, 'b) DirectConnection \<times> (port \<Rightarrow> 'p)" where
  "PlugIn P self port sourceSideBufSize c st =
     (let e = \<lparr>end_port = port, end_buf = [], end_bufSize = sourceSideBufSize, end_busy = False\<rparr>;
          c = c\<lparr>dc_ports := dc_ports c @ [port], dc_ends := (dc_ends c)(port \<mapsto> e)\<rparr>;
          c = (if Contains (pName P (st port)) ''L2TLB.TopPort'' then c\<lparr>dc_L2Port := Some port\<rparr> else c)
      in (c, st(port := pSetConnection P self (st port))))"

definition portMustBeConnected :: "('t, 'b) DirectConnection \<Rightarrow> port option \<Rightarrow> port result" where
  "portMustBeConnected c port =
     (case port of
        None \<Rightarrow> Inl (Panic ''src or dst is not given'')
      | Some p \<Rightarrow> if dc_ends c p = None then Inl (Panic ''src or dst is not connected'') else Inr p)"

definition msgMustBeValid :: "(port \<Rightarrow> string) \<Rightarrow> ('t, 'b) Msg \<Rightarrow> ('t, 'b) DirectConnection \<Rightarrow> unit result" where
  "msgMustBeValid name msg c =
     (if m_Src msg = None \<or> m_Dst msg = None then Inl (Panic ''src or dst is not given'')
      else bindR (portMustBeConnected c (m_Src msg)) (\<lambda>src.
           bindR (portMustBeConnected c (m_Dst msg)) (\<lambda>dst.
           if src = dst \<and> \<not> Contains (name src) ''RTU'' then Inl (Panic ''sending back to src'') else Inr ())))"

text \<open>The port whose end a message is queued at.\<close>

definition srcPort :: "('t, 'b) Msg \<Rightarrow> ('t, 'b) DirectConnection \<Rightarrow> port option" where
  "srcPort msg c =
     (if Contains (dc_name c) ''L1TLB-L2TLB''
      then if m_PutInL2TLBBuffer msg then dc_L2Port c else m_Src msg
      else m_Src msg)"

definition DC_TickNow ::
    "string \<Rightarrow> 't \<Rightarrow> ('t::linordered_idom, 'b) DirectConnection \<Rightarrow> ('t, 'b) DirectConnection \<times> ('t, string) event list" where
  "DC_TickNow ident now c =
     (let (ts, evts) = TickNow ident (dc_name c) now (dc_sched c) in (c\<lparr>dc_sched := ts\<rparr>, evts))"

definition DC_NotifyAvailable ::
    "string \<Rightarrow> 't \<Rightarrow> port \<Rightarrow> ('t::linordered_idom, 'b) DirectConnection \<Rightarrow> ('t, 'b) DirectConnection \<times> ('t, string) event list" where
  "DC_NotifyAvailable ident now port c = DC_TickNow ident now c"

definition DC_Send ::
    "string \<Rightarrow> (port \<Rightarrow> string) \<Rightarrow> ('t, 'b) Msg \<Rightarrow> ('t::linordered_idom, 'b) DirectConnection \<Rightarrow>
     (bool \<times> ('t, 'b) DirectConnection \<times> ('t, string) event list) result" where
  "DC_Send ident name msg c =
     bindR (msgMustBeValid name msg c) (\<lambda>_.
       case Option.bind (srcPort msg c) (\<lambda>p. map_option (Pair p) (dc_ends c p)) of
         None \<Rightarrow> Inl NilDereference
       | Some (p, srcEnd) \<Rightarrow>
           if int (length (end_buf srcEnd)) \<ge> end_bufSize srcEnd
           then Inr (False, c\<lparr>dc_ends := (dc_ends c)(p \<mapsto> srcEnd\<lparr>end_busy := True\<rparr>)\<rparr>, [])
           else let c = c\<lparr>dc_ends := (dc_ends c)(p \<mapsto> srcEnd\<lparr>end_buf := end_buf srcEnd @ [msg]\<rparr>)\<rparr>;
                    (c, evts) = DC_TickNow ident (m_SendTime msg) c
                in Inr (True, c, evts))"

definition DC_Unplug :: "port \<Rightarrow> ('t, 'b) DirectConnection \<Rightarrow> ('t, 'b) DirectConnection result" where
  "DC_Unplug port c = Inl (Panic ''not implemented'')"

text \<open>
  The loop of \<^verbatim>\<open>forwardMany\<close>: messages go to their destination until the buffer is empty or a destination refuses. A
  message gets its time of reception before the destination is tried.
\<close>

fun forward_loop ::
    "('p, 't, 'b) port_ops \<Rightarrow> 't \<Rightarrow> port \<Rightarrow> ('t, 'b) Msg list \<Rightarrow> bool \<Rightarrow> (port \<Rightarrow> 'p) \<Rightarrow>
     (bool \<times> ('t, 'b) Msg list \<times> bool \<times> (port \<Rightarrow> 'p) \<times> 't notice list) result" where
  "forward_loop P now port [] busy st = Inr (False, [], busy, st, [])"
| "forward_loop P now port (head # rest) busy st =
     (let head = head\<lparr>m_RecvTime := now\<rparr>
      in case m_Dst head of
           None \<Rightarrow> Inl NilDereference
         | Some d \<Rightarrow>
             (case pRecv P head (st d) of
                (False, p) \<Rightarrow> Inr (False, head # rest, busy, st(d := p), [])
              | (True, p) \<Rightarrow>
                  let st = st(d := p);
                      recvd = (if pOwned P p then [NotifyRecv now d] else []);
                      free = (if busy then Port_NotifyAvailable P now port (st port) else [])
                  in bindR (forward_loop P now port rest False st) (\<lambda>(_, buf, busy', st', ns).
                       Inr (True, buf, busy', st', recvd @ free @ ns))))"

definition forwardMany ::
    "('p, 't, 'b) port_ops \<Rightarrow> 't \<Rightarrow> ('t, 'b) directConnectionEnd \<Rightarrow> (port \<Rightarrow> 'p) \<Rightarrow>
     (bool \<times> ('t, 'b) directConnectionEnd \<times> (port \<Rightarrow> 'p) \<times> 't notice list) result" where
  "forwardMany P now e st =
     bindR (forward_loop P now (end_port e) (end_buf e) (end_busy e) st) (\<lambda>(madeProgress, buf, busy, st', ns).
       Inr (madeProgress, e\<lparr>end_buf := buf, end_busy := busy\<rparr>, st', ns))"

text \<open>The loop of \<^verbatim>\<open>Tick\<close> over the ports, in the order given.\<close>

fun tick_ports ::
    "('p, 't, 'b) port_ops \<Rightarrow> 't \<Rightarrow> port list \<Rightarrow> (port \<rightharpoonup> ('t, 'b) directConnectionEnd) \<Rightarrow> (port \<Rightarrow> 'p) \<Rightarrow>
     (bool \<times> (port \<rightharpoonup> ('t, 'b) directConnectionEnd) \<times> (port \<Rightarrow> 'p) \<times> 't notice list) result" where
  "tick_ports P now [] ends st = Inr (False, ends, st, [])"
| "tick_ports P now (port # ports) ends st =
     (case ends port of
        None \<Rightarrow> Inl NilDereference
      | Some e \<Rightarrow>
          bindR (forwardMany P now e st) (\<lambda>(progress, e', st', ns).
          bindR (tick_ports P now ports (ends(port \<mapsto> e')) st') (\<lambda>(progress', ends', st'', ns').
            Inr (progress \<or> progress', ends', st'', ns @ ns'))))"

definition DC_Tick ::
    "('p, 't, 'b) port_ops \<Rightarrow> 't \<Rightarrow> ('t, 'b) DirectConnection \<times> (port \<Rightarrow> 'p) \<times> 't notice list \<Rightarrow>
     (bool \<times> ('t, 'b) DirectConnection \<times> (port \<Rightarrow> 'p) \<times> 't notice list) result" where
  "DC_Tick P now = (\<lambda>(c, st, ns).
     let n = length (dc_ports c);
         order = map (\<lambda>i. dc_ports c ! ((i + dc_nextPortID c) mod n)) [0..<n]
     in bindR (tick_ports P now order (dc_ends c) st) (\<lambda>(madeProgress, ends, st', ns').
          if n = 0 then Inl DivideByZero
          else Inr (madeProgress, c\<lparr>dc_ends := ends, dc_nextPortID := (dc_nextPortID c + 1) mod n\<rparr>, st', ns @ ns')))"

text \<open>\<^verbatim>\<open>forwardOne\<close>, which the code keeps beside \<^verbatim>\<open>forwardMany\<close>.\<close>

definition forwardOne ::
    "('p, 't, 'b) port_ops \<Rightarrow> 't \<Rightarrow> ('t, 'b) directConnectionEnd \<Rightarrow> (port \<Rightarrow> 'p) \<Rightarrow>
     (bool \<times> ('t, 'b) directConnectionEnd \<times> (port \<Rightarrow> 'p) \<times> 't notice list) result" where
  "forwardOne P now e st =
     (case end_buf e of
        [] \<Rightarrow> Inr (False, e, st, [])
      | head # rest \<Rightarrow>
          let head = head\<lparr>m_RecvTime := now\<rparr>
          in case m_Dst head of
               None \<Rightarrow> Inl NilDereference
             | Some d \<Rightarrow>
                 (case pRecv P head (st d) of
                    (False, p) \<Rightarrow> Inr (False, e\<lparr>end_buf := head # rest\<rparr>, st(d := p), [])
                  | (True, p) \<Rightarrow>
                      let st = st(d := p)
                      in Inr (True, e\<lparr>end_buf := rest, end_busy := False\<rparr>, st,
                           (if pOwned P p then [NotifyRecv now d] else []) @
                           (if end_busy e then Port_NotifyAvailable P now (end_port e) (st (end_port e)) else []))))"

text \<open>The event handler of the connection: a ticking component whose ticks are secondary events.\<close>

definition DC_Handle ::
    "('p, 't, 'b) port_ops \<Rightarrow> string \<Rightarrow> ('t, string) event \<Rightarrow> ('t::linordered_idom, 'b) DirectConnection \<Rightarrow> (port \<Rightarrow> 'p) \<Rightarrow>
     (('t, 'b) DirectConnection \<times> (port \<Rightarrow> 'p) \<times> 't notice list \<times> ('t, string) event list) result" where
  "DC_Handle P ident e c st =
     bindR (TickingComponent_Handle ident (dc_name c) (DC_Tick P) e ((c, st, []), dc_sched c)) (\<lambda>(((c', st', ns), ts), evts).
       Inr (c'\<lparr>dc_sched := ts\<rparr>, st', ns, evts))"

section \<open>Histories of a network\<close>

text \<open>
  One connection, its ports and the engine's clock. Components send and retrieve at the current time, in primary events; the
  connection's ticks are secondary events. The engine handles every event in time order and all primary events of a time
  before the secondary ones, and whatever a tick causes happens later (the components it notifies call \<^verbatim>\<open>TickLater\<close>): so a
  component acts only when the connection has not yet ticked at the current time, and the clock does not pass a
  scheduled tick. The two logs hold the messages the connection accepted and the messages components took out of
  their ports.
\<close>

record ('p, 't, 'b) network =
  nw_conn :: "('t, 'b) DirectConnection"
  nw_ports :: "port \<Rightarrow> 'p"
  nw_now :: 't
  nw_lastTick :: 't
  nw_ticks :: "'t list"
  nw_accepted :: "('t, 'b) Msg list"
  nw_retrieved :: "('t, 'b) Msg list"

definition plug_all ::
    "('p, 't, 'b) port_ops \<Rightarrow> nat \<Rightarrow> (port \<times> int) list \<Rightarrow> ('t, 'b) DirectConnection \<times> (port \<Rightarrow> 'p) \<Rightarrow> ('t, 'b) DirectConnection \<times> (port \<Rightarrow> 'p)" where
  "plug_all P self xs = fold (\<lambda>(p, n) (c, st). PlugIn P self p n c st) xs"

definition network_init ::
    "('p, 't, 'b) port_ops \<Rightarrow> nat \<Rightarrow> string \<Rightarrow> ('t \<Rightarrow> 't) \<Rightarrow> (port \<times> int) list \<Rightarrow> (port \<Rightarrow> 'p) \<Rightarrow> ('p, 't::linordered_idom, 'b) network" where
  "network_init P self name freq xs st =
     (let (c, st') = plug_all P self xs (NewDirectConnection name freq, st)
      in \<lparr>nw_conn = c, nw_ports = st', nw_now = 0, nw_lastTick = -1, nw_ticks = [], nw_accepted = [], nw_retrieved = []\<rparr>)"

inductive network_step :: "('p, 't::linordered_idom, 'b) port_ops \<Rightarrow> ('p, 't, 'b) network \<Rightarrow> ('p, 't, 'b) network \<Rightarrow> bool" for P where
  send: "nw_lastTick s < nw_now s \<Longrightarrow> m_SendTime msg = nw_now s \<Longrightarrow>
    DC_Send ident (\<lambda>p. pName P (nw_ports s p)) msg (nw_conn s) = Inr (accepted, c, evts) \<Longrightarrow>
    network_step P s (s\<lparr>nw_conn := c, nw_ticks := nw_ticks s @ map ev_time evts,
      nw_accepted := (if accepted then nw_accepted s @ [msg] else nw_accepted s)\<rparr>)"
| retrieve: "nw_lastTick s < nw_now s \<Longrightarrow> dc_ends (nw_conn s) p \<noteq> None \<Longrightarrow>
    pRetrieve P (nw_ports s p) = Inr (taken, avail, p') \<Longrightarrow>
    (c, evts) = (if avail then DC_NotifyAvailable ident (nw_now s) p (nw_conn s) else (nw_conn s, [])) \<Longrightarrow>
    network_step P s (s\<lparr>nw_conn := c, nw_ports := (nw_ports s)(p := p'), nw_ticks := nw_ticks s @ map ev_time evts,
      nw_retrieved := nw_retrieved s @ (case taken of None \<Rightarrow> [] | Some m \<Rightarrow> [m])\<rparr>)"
| advance: "nw_now s \<le> t \<Longrightarrow> \<forall>x \<in> set (nw_ticks s). t \<le> x \<Longrightarrow> network_step P s (s\<lparr>nw_now := t\<rparr>)"
| tick: "x \<in> set (nw_ticks s) \<Longrightarrow> \<forall>y \<in> set (nw_ticks s). x \<le> y \<Longrightarrow> ev_time e = x \<Longrightarrow>
    DC_Handle P ident e (nw_conn s) (nw_ports s) = Inr (c, st, ns, evts) \<Longrightarrow>
    network_step P s (s\<lparr>nw_conn := c, nw_ports := st, nw_now := x, nw_lastTick := x,
      nw_ticks := remove1 x (nw_ticks s) @ map ev_time evts\<rparr>)"

text \<open>A message without the time of its reception, and the messages that go from the end of \<open>s\<close> to the port \<open>d\<close>.\<close>

definition plain :: "('t::zero, 'b) Msg \<Rightarrow> ('t, 'b) Msg" where
  "plain m = m\<lparr>m_RecvTime := 0\<rparr>"

definition via :: "('t, 'b) DirectConnection \<Rightarrow> port \<Rightarrow> port \<Rightarrow> ('t, 'b) Msg \<Rightarrow> bool" where
  "via c s d m \<longleftrightarrow> srcPort m c = Some s \<and> m_Dst m = Some d"

lemma plain_simps [simp]:
  "m_Dst (plain m) = m_Dst m" "srcPort (plain m) c = srcPort m c" "via c s d (plain m) = via c s d m"
  "plain (m\<lparr>m_RecvTime := t\<rparr>) = plain m"
  by (simp_all add: plain_def srcPort_def via_def)

lemma srcPort_cong: "dc_name c' = dc_name c \<Longrightarrow> dc_L2Port c' = dc_L2Port c \<Longrightarrow> srcPort m c' = srcPort m c"
  by (simp add: srcPort_def)

lemma srcPort_RecvTime [simp]: "srcPort (m\<lparr>m_RecvTime := t\<rparr>) c = srcPort m c"
  by (simp add: srcPort_def)

lemma via_RecvTime [simp]: "via c s d (m\<lparr>m_RecvTime := t\<rparr>) = via c s d m"
  by (simp add: via_def)

definition end_bufOf :: "(port \<rightharpoonup> ('t, 'b) directConnectionEnd) \<Rightarrow> port \<Rightarrow> ('t, 'b) Msg list" where
  "end_bufOf ends s = (case ends s of None \<Rightarrow> [] | Some e \<Rightarrow> end_buf e)"

lemma ball_plain:
  assumes "map plain xs = map plain ys" "\<And>m. Q (plain m) = Q m" "\<forall>m \<in> set xs. Q m"
  shows "\<forall>m \<in> set ys. Q m"
proof -
  have "\<forall>m \<in> plain ` set ys. Q m" using assms by (metis imageE set_map)
  then show ?thesis using assms(2) by auto
qed

lemma filter_map_plain: "(\<And>m. Q (plain m) = Q m) \<Longrightarrow> filter Q (map plain xs) = map plain (filter Q xs)"
  by (induction xs) simp_all

text \<open>The ends and ports of a connection are consistent; the messages on their way from the end of \<open>s\<close> to the component behind \<open>d\<close>.\<close>

definition ends_ok ::
    "('p \<Rightarrow> ('t, 'b) Msg list) \<Rightarrow> ('p \<Rightarrow> bool) \<Rightarrow> ('t, 'b) DirectConnection \<Rightarrow> (port \<rightharpoonup> ('t, 'b) directConnectionEnd) \<Rightarrow> (port \<Rightarrow> 'p) \<Rightarrow> bool" where
  "ends_ok contents attached c ends st \<longleftrightarrow>
     (\<forall>p e. ends p = Some e \<longrightarrow> end_port e = p \<and>
        (\<forall>m \<in> set (end_buf e). srcPort m c = Some p \<and> (\<exists>d \<in> dom ends. m_Dst m = Some d))) \<and>
     (\<forall>d \<in> dom ends. attached (st d) \<and> (\<forall>m \<in> set (contents (st d)). m_Dst m = Some d))"

definition transit ::
    "('p \<Rightarrow> ('t::zero, 'b) Msg list) \<Rightarrow> ('t, 'b) DirectConnection \<Rightarrow> (port \<rightharpoonup> ('t, 'b) directConnectionEnd) \<Rightarrow> (port \<Rightarrow> 'p) \<Rightarrow> port \<Rightarrow> port \<Rightarrow> ('t, 'b) Msg list" where
  "transit contents c ends st s d = filter (via c s d) (map plain (contents (st d) @ end_bufOf ends s))"

lemma rotation_set:
  assumes "xs \<noteq> []"
  shows "set (map (\<lambda>i. xs ! ((i + k) mod length xs)) [0..<length xs]) = set xs"
proof -
  have "map (\<lambda>i. xs ! ((i + k) mod length xs)) [0..<length xs] = rotate k xs"
    by (rule nth_equalityI) (simp_all add: nth_rotate add.commute)
  then show ?thesis by simp
qed

lemma ends_ok_cong:
  assumes "dc_name c' = dc_name c" "dc_L2Port c' = dc_L2Port c"
  shows "ends_ok contents attached c' ends st = ends_ok contents attached c ends st" "via c' = via c"
    "transit contents c' ends st s d = transit contents c ends st s d"
proof -
  have "srcPort m c' = srcPort m c" for m by (rule srcPort_cong [OF assms])
  then show "ends_ok contents attached c' ends st = ends_ok contents attached c ends st" "via c' = via c"
    "transit contents c' ends st s d = transit contents c ends st s d"
    by (simp_all add: ends_ok_def transit_def via_def [abs_def])
qed

section \<open>The scheduled ticks\<close>

text \<open>At most one tick is scheduled, at the time the scheduler remembers, and it is after the last tick.\<close>

definition sched_ok :: "'t::linordered_idom TickScheduler \<Rightarrow> 't \<Rightarrow> 't \<Rightarrow> 't list \<Rightarrow> bool" where
  "sched_ok ts lst now ticks \<longleftrightarrow> (\<forall>t. t < ts_NextTick ts t) \<and> lst \<le> now \<and>
     ticks = (if lst < ts_nextTickTime ts then [ts_nextTickTime ts] else []) \<and> (\<forall>x \<in> set ticks. now \<le> x)"

lemma TickNow_ok:
  assumes "sched_ok ts lst now ticks" "lst < now" "TickNow ident h now ts = (ts', evts)"
  shows "sched_ok ts' lst now (ticks @ map ev_time evts)" "ticks @ map ev_time evts \<noteq> []"
  using assms by (auto simp: sched_ok_def TickNow_def MakeTickEvent_def Let_def split: if_splits)

lemma TickLater_ok:
  assumes "sched_ok ts lst now ticks" "x \<in> set ticks" "TickLater ident h x ts = (ts', evts)"
  shows "sched_ok ts' x x (remove1 x ticks @ map ev_time evts)" "evts \<noteq> []"
proof -
  have x: "x = ts_nextTickTime ts" "ticks = [x]" using assms(1,2) by (auto simp: sched_ok_def split: if_splits)
  moreover have "x < ts_NextTick ts x" using assms(1) by (simp add: sched_ok_def)
  ultimately show "sched_ok ts' x x (remove1 x ticks @ map ev_time evts)" "evts \<noteq> []"
    using assms by (auto simp: sched_ok_def TickLater_def MakeTickEvent_def Let_def)
qed

lemma sched_ok_handled: "sched_ok ts lst now ticks \<Longrightarrow> x \<in> set ticks \<Longrightarrow> sched_ok ts x x (remove1 x ticks)"
  by (auto simp: sched_ok_def split: if_splits)

section \<open>What the connection relies on\<close>

locale msg_port =
  fixes P :: "('p, 't::linordered_idom, 'b) port_ops"
    and contents :: "'p \<Rightarrow> ('t, 'b) Msg list"
    and room busy attached :: "'p \<Rightarrow> bool"
  assumes recv_room: "room p \<Longrightarrow> \<exists>p'. pRecv P m p = (True, p') \<and> contents p' = contents p @ [m] \<and> attached p' = attached p"
    and recv_full: "\<not> room p \<Longrightarrow>
      \<exists>p'. pRecv P m p = (False, p') \<and> contents p' = contents p \<and> attached p' = attached p \<and> busy p' \<and> \<not> room p'"
    and retrieve_none: "contents p = [] \<Longrightarrow> pRetrieve P p = Inr (None, False, p)"
    and retrieve_some: "contents p = m # ms \<Longrightarrow> attached p \<Longrightarrow>
      \<exists>p'. pRetrieve P p = Inr (Some m, busy p, p') \<and> contents p' = ms \<and> attached p'"
    and connect: "contents (pSetConnection P i p) = contents p \<and> attached (pSetConnection P i p)"
begin

lemma forward_loop_ok:
  assumes "\<forall>m \<in> set buf. m_Dst m \<noteq> None"
  shows "\<exists>pre buf' st' ns. forward_loop P now i buf bsy st = Inr (pre \<noteq> [], buf', bsy \<and> pre = [], st', ns) \<and>
    map plain buf = map plain (pre @ buf') \<and>
    (\<forall>d. contents (st' d) = contents (st d) @ filter (\<lambda>m. m_Dst m = Some d) pre \<and> attached (st' d) = attached (st d)) \<and>
    (pre = [] \<longrightarrow> (\<forall>d. room (st' d) = room (st d) \<and> (busy (st d) \<longrightarrow> busy (st' d)))) \<and>
    (buf' \<noteq> [] \<longrightarrow> (\<exists>d. m_Dst (hd buf') = Some d \<and> \<not> room (st' d) \<and> busy (st' d))) \<and>
    (pre = [] \<longrightarrow> buf \<noteq> [] \<longrightarrow> (\<exists>d. m_Dst (hd buf) = Some d \<and> \<not> room (st d)))"
  using assms
proof (induction buf arbitrary: bsy st)
  case Nil
  then show ?case by auto
next
  case (Cons h rest)
  let ?h = "h\<lparr>m_RecvTime := now\<rparr>"
  obtain d where d: "m_Dst h = Some d" using Cons.prems by auto
  have rest: "\<forall>m \<in> set rest. m_Dst m \<noteq> None" using Cons.prems by simp
  show ?case
  proof (cases "room (st d)")
    case False
    then obtain p' where p': "pRecv P ?h (st d) = (False, p')" "contents p' = contents (st d)" "attached p' = attached (st d)"
      "busy p'" "\<not> room p'" using recv_full [OF False] by blast
    then show ?thesis using d False by (intro exI [of _ "[]"] exI [of _ "?h # rest"] exI [of _ "st(d := p')"] exI [of _ "[]"]) auto
  next
    case True
    then obtain p' where p': "pRecv P ?h (st d) = (True, p')" "contents p' = contents (st d) @ [?h]" "attached p' = attached (st d)"
      using recv_room [OF True] by blast
    obtain pre buf' st' ns where IH: "forward_loop P now i rest False (st(d := p')) = Inr (pre \<noteq> [], buf', False \<and> pre = [], st', ns)"
      "map plain rest = map plain (pre @ buf')"
      "\<forall>x. contents (st' x) = contents ((st(d := p')) x) @ filter (\<lambda>m. m_Dst m = Some x) pre \<and> attached (st' x) = attached ((st(d := p')) x)"
      "buf' \<noteq> [] \<longrightarrow> (\<exists>d. m_Dst (hd buf') = Some d \<and> \<not> room (st' d) \<and> busy (st' d))"
      using Cons.IH [OF rest, of False "st(d := p')"] by (elim exE conjE) (rule that; assumption)
    have "\<exists>ns'. forward_loop P now i (h # rest) bsy st = Inr (True, buf', False, st', ns')"
      using d p'(1) IH(1) by (simp add: Let_def)
    moreover have "contents (st' x) = contents (st x) @ filter (\<lambda>m. m_Dst m = Some x) (?h # pre) \<and> attached (st' x) = attached (st x)" for x
      using IH(3) [rule_format, of x] p'(2,3) d by (auto split: if_splits)
    ultimately show ?thesis using IH(2,4) by (intro exI [of _ "?h # pre"] exI [of _ buf'] exI [of _ st']) auto
  qed
qed


text \<open>What trying the ends of the ports \<open>ps\<close> does to the ends and the ports.\<close>

definition ticked where
  "ticked c ps ends st progress ends' st' \<longleftrightarrow>
     ends_ok contents attached c ends' st' \<and> dom ends' = dom ends \<and>
     (\<forall>s d. transit contents c ends' st' s d = transit contents c ends st s d) \<and>
     (\<forall>p e'. ends' p = Some e' \<longrightarrow> (\<exists>e. ends p = Some e \<and> end_bufSize e' = end_bufSize e \<and>
        (end_busy e' \<longrightarrow> end_busy e \<and> length (end_buf e') = length (end_buf e)))) \<and>
     (\<forall>p. length (end_bufOf ends' p) \<le> length (end_bufOf ends p)) \<and>
     (progress \<longrightarrow> (\<exists>p. length (end_bufOf ends' p) < length (end_bufOf ends p))) \<and>
     (\<not> progress \<longrightarrow> (\<forall>d. room (st' d) = room (st d) \<and> (busy (st d) \<longrightarrow> busy (st' d))) \<and>
        (\<forall>p. map m_Dst (end_bufOf ends' p) = map m_Dst (end_bufOf ends p)) \<and>
        (\<forall>p \<in> set ps. end_bufOf ends' p \<noteq> [] \<longrightarrow> (\<exists>d. m_Dst (hd (end_bufOf ends' p)) = Some d \<and> \<not> room (st' d) \<and> busy (st' d))))"

lemma ticked_trans:
  assumes "ticked c ps ends st pr ends1 st1" "ticked c qs ends1 st1 pr' ends2 st2"
  shows "ticked c (ps @ qs) ends st (pr \<or> pr') ends2 st2"
proof -
  have "(\<exists>d. m_Dst (hd (end_bufOf ends2 p)) = Some d \<and> \<not> room (st2 d) \<and> busy (st2 d))"
    if a: "\<not> pr" "\<not> pr'" "p \<in> set (ps @ qs)" "end_bufOf ends2 p \<noteq> []" for p
  proof (cases "p \<in> set qs")
    case True
    then show ?thesis using that assms(2) unfolding ticked_def by blast
  next
    case False
    have e: "map m_Dst (end_bufOf ends2 p) = map m_Dst (end_bufOf ends1 p)" using assms(2) that(2) by (simp add: ticked_def)
    then have ne: "end_bufOf ends1 p \<noteq> []" using that(4) by auto
    have "m_Dst (hd (end_bufOf ends2 p)) = m_Dst (hd (end_bufOf ends1 p))" using e that(4) ne by (metis hd_map)
    moreover have "p \<in> set ps" using that(3) False by simp
    then obtain d where "m_Dst (hd (end_bufOf ends1 p)) = Some d" "\<not> room (st1 d)" "busy (st1 d)"
      using assms(1) a(1) ne unfolding ticked_def by blast
    ultimately show ?thesis using assms(2) that(2) unfolding ticked_def by auto
  qed
  moreover have "\<exists>e. ends p = Some e \<and> end_bufSize e' = end_bufSize e \<and> (end_busy e' \<longrightarrow> end_busy e \<and> length (end_buf e') = length (end_buf e))"
    if "ends2 p = Some e'" for p e' using that assms unfolding ticked_def by metis
  moreover have L: "\<And>p. length (end_bufOf ends2 p) \<le> length (end_bufOf ends1 p)" "\<And>p. length (end_bufOf ends1 p) \<le> length (end_bufOf ends p)"
    "pr \<Longrightarrow> \<exists>p. length (end_bufOf ends1 p) < length (end_bufOf ends p)" "pr' \<Longrightarrow> \<exists>p. length (end_bufOf ends2 p) < length (end_bufOf ends1 p)"
    using assms unfolding ticked_def by blast+
  then have "length (end_bufOf ends2 p) \<le> length (end_bufOf ends p)" for p using le_trans by blast
  moreover have "pr \<or> pr' \<longrightarrow> (\<exists>p. length (end_bufOf ends2 p) < length (end_bufOf ends p))"
    using L by (meson le_less_trans less_le_trans)
  ultimately show ?thesis using assms by (simp add: ticked_def)
qed

lemma ticked_refl: "ends_ok contents attached c ends st \<Longrightarrow> ticked c [] ends st False ends st"
  by (simp add: ticked_def)

lemma forwardMany_ok:
  assumes ok: "ends_ok contents attached c ends st" and e: "ends p = Some e"
  shows "\<exists>progress e' st' ns. forwardMany P now e st = Inr (progress, e', st', ns) \<and> ticked c [p] ends st progress (ends(p \<mapsto> e')) st'"
proof -
  have dst: "\<forall>m \<in> set (end_buf e). srcPort m c = Some p \<and> (\<exists>d \<in> dom ends. m_Dst m = Some d)" and ep: "end_port e = p"
    using ok e by (auto simp: ends_ok_def)
  then have "\<forall>m \<in> set (end_buf e). m_Dst m \<noteq> None" by auto
  from forward_loop_ok [OF this, of now "end_port e" "end_busy e" st]
  obtain pre buf' st' ns where f: "forward_loop P now (end_port e) (end_buf e) (end_busy e) st = Inr (pre \<noteq> [], buf', end_busy e \<and> pre = [], st', ns)"
    and pl: "map plain (end_buf e) = map plain (pre @ buf')"
    and stA: "\<forall>d. contents (st' d) = contents (st d) @ filter (\<lambda>m. m_Dst m = Some d) pre \<and> attached (st' d) = attached (st d)"
    and quiet: "pre = [] \<longrightarrow> (\<forall>d. room (st' d) = room (st d) \<and> (busy (st d) \<longrightarrow> busy (st' d)))"
    and stuck: "buf' \<noteq> [] \<longrightarrow> (\<exists>d. m_Dst (hd buf') = Some d \<and> \<not> room (st' d) \<and> busy (st' d))"
    by (elim exE conjE) (rule that; assumption)
  note st' = stA [rule_format, THEN conjunct1] stA [rule_format, THEN conjunct2]
  let ?e = "e\<lparr>end_buf := buf', end_busy := end_busy e \<and> pre = []\<rparr>" and ?ends = "\<lambda>e'. ends(p \<mapsto> e')"
  have all: "\<forall>m \<in> set (pre @ buf'). srcPort m c = Some p \<and> (\<exists>d \<in> dom ends. m_Dst m = Some d)"
    by (rule ball_plain [OF pl _ dst]) simp
  have dom: "dom (?ends ?e) = dom ends" using e by auto
  have "ends_ok contents attached c (?ends ?e) st'"
    unfolding ends_ok_def dom using ok ep all by (auto simp: ends_ok_def st')
  moreover have "transit contents c (?ends ?e) st' s d = transit contents c ends st s d" for s d
  proof (cases "s = p")
    case True
    have "filter (\<lambda>x. m_Dst x = Some d \<and> via c s d x) pre = filter (via c s d) pre" by (auto simp: via_def intro!: filter_cong)
    then show ?thesis using True e pl [THEN arg_cong, of "filter (via c s d)"]
      by (simp add: transit_def end_bufOf_def st' filter_map_plain conj_commute)
  next
    case False
    then have "filter (via c s d) pre = []" using all by (auto simp: filter_empty_conv via_def)
    then have "filter (\<lambda>x. m_Dst x = Some d \<and> via c s d x) pre = []" by (auto simp: filter_empty_conv)
    then show ?thesis using False by (simp add: transit_def end_bufOf_def st' filter_map_plain conj_commute)
  qed
  moreover have "pre = [] \<Longrightarrow> map m_Dst buf' = map m_Dst (end_buf e)"
    using pl [THEN arg_cong, of "map m_Dst"] by (simp add: o_def)
  moreover have "length (end_buf e) = length pre + length buf'" using pl [THEN arg_cong, of length] by simp
  ultimately have "ticked c [p] ends st (pre \<noteq> []) (?ends ?e) st'"
    using e quiet stuck by (auto simp: ticked_def end_bufOf_def)
  then show ?thesis using f by (simp add: forwardMany_def)
qed

lemma tick_ports_ok:
  assumes "ends_ok contents attached c ends st" "set ps \<subseteq> dom ends"
  shows "\<exists>progress ends' st' ns. tick_ports P now ps ends st = Inr (progress, ends', st', ns) \<and> ticked c ps ends st progress ends' st'"
  using assms
proof (induction ps arbitrary: ends st)
  case Nil
  then show ?case using ticked_refl by (intro exI [of _ False]) simp
next
  case (Cons p ps)
  then obtain e where e: "ends p = Some e" by auto
  obtain pr e' st1 ns1 where f: "forwardMany P now e st = Inr (pr, e', st1, ns1)" "ticked c [p] ends st pr (ends(p \<mapsto> e')) st1"
    using forwardMany_ok [OF Cons.prems(1) e] by blast
  then have "ends_ok contents attached c (ends(p \<mapsto> e')) st1" "set ps \<subseteq> dom (ends(p \<mapsto> e'))"
    using Cons.prems(2) by (auto simp: ticked_def)
  then obtain pr2 ends' st' ns' where t: "tick_ports P now ps (ends(p \<mapsto> e')) st1 = Inr (pr2, ends', st', ns')" "ticked c ps (ends(p \<mapsto> e')) st1 pr2 ends' st'"
    using Cons.IH by blast
  then show ?case using e f(1) ticked_trans [OF f(2) t(2)] by simp
qed


definition network_inv where
  "network_inv s \<longleftrightarrow> (let c = nw_conn s; ends = dc_ends c in
     sched_ok (dc_sched c) (nw_lastTick s) (nw_now s) (nw_ticks s) \<and>
     ends_ok contents attached c ends (nw_ports s) \<and> set (dc_ports c) = dom ends \<and> dc_ports c \<noteq> [] \<and>
     (\<forall>p e. ends p = Some e \<longrightarrow> end_busy e \<longrightarrow> end_bufSize e \<le> int (length (end_buf e))) \<and>
     (\<forall>p. end_bufOf ends p \<noteq> [] \<longrightarrow> nw_ticks s \<noteq> [] \<or>
        (\<exists>d. m_Dst (hd (end_bufOf ends p)) = Some d \<and> \<not> room (nw_ports s d) \<and> busy (nw_ports s d))) \<and>
     (\<forall>q. \<forall>d \<in> dom ends. filter (via c q d) (map plain (nw_accepted s)) =
        filter (via c q d) (map plain (nw_retrieved s)) @ transit contents c ends (nw_ports s) q d))"

lemma network_invD:
  assumes "network_inv s"
  shows "sched_ok (dc_sched (nw_conn s)) (nw_lastTick s) (nw_now s) (nw_ticks s)"
    "ends_ok contents attached (nw_conn s) (dc_ends (nw_conn s)) (nw_ports s)"
    "set (dc_ports (nw_conn s)) = dom (dc_ends (nw_conn s))" "dc_ports (nw_conn s) \<noteq> []"
    "\<forall>p e. dc_ends (nw_conn s) p = Some e \<longrightarrow> end_busy e \<longrightarrow> end_bufSize e \<le> int (length (end_buf e))"
    "\<forall>p. end_bufOf (dc_ends (nw_conn s)) p \<noteq> [] \<longrightarrow> nw_ticks s \<noteq> [] \<or>
        (\<exists>d. m_Dst (hd (end_bufOf (dc_ends (nw_conn s)) p)) = Some d \<and> \<not> room (nw_ports s d) \<and> busy (nw_ports s d))"
    "\<forall>q. \<forall>d \<in> dom (dc_ends (nw_conn s)). filter (via (nw_conn s) q d) (map plain (nw_accepted s)) =
        filter (via (nw_conn s) q d) (map plain (nw_retrieved s)) @ transit contents (nw_conn s) (dc_ends (nw_conn s)) (nw_ports s) q d"
  using assms by (simp_all add: network_inv_def Let_def)

lemma DC_Handle_ok:
  assumes "network_inv s" "x \<in> set (nw_ticks s)" "ev_time e = x"
  shows "\<exists>progress c st ns evts. DC_Handle P ident e (nw_conn s) (nw_ports s) = Inr (c, st, ns, evts) \<and>
    ticked (nw_conn s) (dc_ports (nw_conn s)) (dc_ends (nw_conn s)) (nw_ports s) progress (dc_ends c) st \<and>
    dc_name c = dc_name (nw_conn s) \<and> dc_L2Port c = dc_L2Port (nw_conn s) \<and> dc_ports c = dc_ports (nw_conn s) \<and>
    sched_ok (dc_sched c) x x (remove1 x (nw_ticks s) @ map ev_time evts) \<and> (progress \<longrightarrow> evts \<noteq> [])"
proof -
  let ?c = "nw_conn s"
  let ?n = "length (dc_ports ?c)"
  let ?order = "map (\<lambda>i. dc_ports ?c ! ((i + dc_nextPortID ?c) mod ?n)) [0..<?n]"
  note inv = network_invD [OF assms(1)]
  have order: "set ?order = set (dc_ports ?c)" using rotation_set [OF inv(4)] by simp
  obtain pr ends st ns where t: "tick_ports P x ?order (dc_ends ?c) (nw_ports s) = Inr (pr, ends, st, ns)"
    "ticked ?c ?order (dc_ends ?c) (nw_ports s) pr ends st"
    using tick_ports_ok [OF inv(2), of ?order x] order inv(3) by auto
  have tk: "ticked ?c (dc_ports ?c) (dc_ends ?c) (nw_ports s) pr ends st" using t(2) unfolding ticked_def order .
  let ?c1 = "?c\<lparr>dc_ends := ends, dc_nextPortID := (dc_nextPortID ?c + 1) mod ?n\<rparr>"
  have tick: "DC_Tick P x (?c, nw_ports s, []) = Inr (pr, ?c1, st, ns)" using t(1) inv(4) by (simp add: DC_Tick_def Let_def)
  show ?thesis
  proof (cases pr)
    case True
    obtain ts evts where l: "TickLater ident (dc_name ?c) x (dc_sched ?c) = (ts, evts)" by fastforce
    have "DC_Handle P ident e ?c (nw_ports s) = Inr (?c1\<lparr>dc_sched := ts\<rparr>, st, ns, evts)"
      using tick True l assms(3) by (simp add: DC_Handle_def TickingComponent_Handle_def Let_def)
    then show ?thesis using tk True TickLater_ok [OF inv(1) assms(2) l]
      by (intro exI [of _ True] exI [of _ "?c1\<lparr>dc_sched := ts\<rparr>"] exI [of _ st] exI [of _ ns] exI [of _ evts]) simp
  next
    case False
    have "DC_Handle P ident e ?c (nw_ports s) = Inr (?c1\<lparr>dc_sched := dc_sched ?c\<rparr>, st, ns, [])"
      using tick False assms(3) by (simp add: DC_Handle_def TickingComponent_Handle_def Let_def)
    then show ?thesis using tk False sched_ok_handled [OF inv(1) assms(2)]
      by (intro exI [of _ False] exI [of _ "?c1\<lparr>dc_sched := dc_sched ?c\<rparr>"] exI [of _ st] exI [of _ ns] exI [of _ "[]"]) simp
  qed
qed


lemma network_inv_send:
  assumes inv: "network_inv s" and prim: "nw_lastTick s < nw_now s" "m_SendTime msg = nw_now s"
    and snd: "DC_Send ident name msg (nw_conn s) = Inr (accepted, c, evts)"
  shows "network_inv (s\<lparr>nw_conn := c, nw_ticks := nw_ticks s @ map ev_time evts,
    nw_accepted := (if accepted then nw_accepted s @ [msg] else nw_accepted s)\<rparr>)"
proof -
  let ?c = "nw_conn s"
  note I = network_invD [OF inv]
  obtain p e d where p: "srcPort msg ?c = Some p" "dc_ends ?c p = Some e" "m_Dst msg = Some d" "d \<in> dom (dc_ends ?c)"
    using snd by (cases "srcPort msg ?c"; cases "m_Dst msg")
      (auto simp: DC_Send_def bindR_eq_Inr msgMustBeValid_def portMustBeConnected_def split: option.splits if_splits)
  show ?thesis
  proof (cases "int (length (end_buf e)) \<ge> end_bufSize e")
    case True
    let ?ends = "(dc_ends ?c)(p \<mapsto> e\<lparr>end_busy := True\<rparr>)"
    have r: "\<not> accepted" "c = ?c\<lparr>dc_ends := ?ends\<rparr>" "evts = []"
      using snd p True by (auto simp: DC_Send_def bindR_eq_Inr)
    have b: "end_bufOf ?ends = end_bufOf (dc_ends ?c)" "dom ?ends = dom (dc_ends ?c)" using p(2) by (auto simp: end_bufOf_def fun_eq_iff)
    have "ends_ok contents attached ?c ?ends (nw_ports s)" using I(2) p(2) unfolding ends_ok_def b by auto
    moreover have "transit contents ?c ?ends (nw_ports s) q x = transit contents ?c (dc_ends ?c) (nw_ports s) q x" for q x
      by (simp add: transit_def b)
    ultimately show ?thesis using I r True
      by (simp add: network_inv_def Let_def b ends_ok_cong [of "?c\<lparr>dc_ends := ?ends\<rparr>" ?c] del: dom_fun_upd)
  next
    case False
    let ?ends = "(dc_ends ?c)(p \<mapsto> e\<lparr>end_buf := end_buf e @ [msg]\<rparr>)"
    obtain ts where t: "TickNow ident (dc_name ?c) (nw_now s) (dc_sched ?c) = (ts, evts)" and r: "accepted" "c = ?c\<lparr>dc_ends := ?ends, dc_sched := ts\<rparr>"
      using snd p False prim(2) by (auto simp: DC_Send_def bindR_eq_Inr DC_TickNow_def Let_def split: prod.splits)
    have b: "dom ?ends = dom (dc_ends ?c)" using p(2) by auto
    have "ends_ok contents attached ?c ?ends (nw_ports s)" using I(2) p unfolding ends_ok_def b by auto
    moreover have "transit contents ?c ?ends (nw_ports s) q x =
        transit contents ?c (dc_ends ?c) (nw_ports s) q x @ filter (via ?c q x) [plain msg]" for q x
      using p(1,2) by (auto simp: transit_def end_bufOf_def via_def)
    moreover have "\<not> end_busy e" using I(5) p(2) False by auto
    ultimately show ?thesis using I r False TickNow_ok [OF I(1) prim(1) t]
      by (simp add: network_inv_def Let_def b ends_ok_cong [of "?c\<lparr>dc_ends := ?ends, dc_sched := ts\<rparr>" ?c] del: dom_fun_upd)
  qed
qed


lemma network_inv_retrieve:
  assumes inv: "network_inv s" and prim: "nw_lastTick s < nw_now s" and p: "dc_ends (nw_conn s) p \<noteq> None"
    and rtv: "pRetrieve P (nw_ports s p) = Inr (taken, avail, p')"
    and c: "(c, evts) = (if avail then DC_NotifyAvailable ident (nw_now s) p (nw_conn s) else (nw_conn s, []))"
  shows "network_inv (s\<lparr>nw_conn := c, nw_ports := (nw_ports s)(p := p'), nw_ticks := nw_ticks s @ map ev_time evts,
      nw_retrieved := nw_retrieved s @ (case taken of None \<Rightarrow> [] | Some m \<Rightarrow> [m])\<rparr>)"
proof (cases "contents (nw_ports s p)")
  case Nil
  then have "taken = None" "\<not> avail" "p' = nw_ports s p" using rtv retrieve_none by auto
  then show ?thesis using inv c by simp
next
  case (Cons m ms)
  let ?c = "nw_conn s"
  note I = network_invD [OF inv]
  have at: "attached (nw_ports s p)" "m_Dst m = Some p" "\<forall>x \<in> set ms. m_Dst x = Some p" using I(2) p Cons by (auto simp: ends_ok_def dom_def)
  have r: "taken = Some m" "avail = busy (nw_ports s p)" "contents p' = ms" "attached p'"
    using retrieve_some [OF Cons at(1)] rtv by auto
  let ?st = "(nw_ports s)(p := p')"
  obtain ts where ts: "c = ?c\<lparr>dc_sched := ts\<rparr>" "avail \<Longrightarrow> TickNow ident (dc_name ?c) (nw_now s) (dc_sched ?c) = (ts, evts)"
    "\<not> avail \<Longrightarrow> ts = dc_sched ?c \<and> evts = []"
    using c by (cases avail) (auto simp: DC_NotifyAvailable_def DC_TickNow_def split: prod.splits)
  have sc: "sched_ok ts (nw_lastTick s) (nw_now s) (nw_ticks s @ map ev_time evts)" "avail \<longrightarrow> nw_ticks s @ map ev_time evts \<noteq> []"
    using I(1) TickNow_ok [OF I(1) prim ts(2)] ts(3) by (cases avail; simp)+
  have "ends_ok contents attached ?c (dc_ends ?c) ?st" using I(2) r at by (auto simp: ends_ok_def)
  moreover have "transit contents ?c (dc_ends ?c) (nw_ports s) q d =
      (if via ?c q d m then [plain m] else []) @ transit contents ?c (dc_ends ?c) ?st q d" for q d
    using Cons r at(2) by (auto simp: transit_def via_def)
  moreover have "nw_ticks s @ map ev_time evts \<noteq> [] \<or>
      (\<exists>d. m_Dst (hd (end_bufOf (dc_ends ?c) q)) = Some d \<and> \<not> room (?st d) \<and> busy (?st d))" if "end_bufOf (dc_ends ?c) q \<noteq> []" for q
    using I(6) [rule_format, OF that] sc(2) r(2) by auto
  ultimately show ?thesis using I sc r(1) ts(1)
    by (simp add: network_inv_def Let_def ends_ok_cong [of "?c\<lparr>dc_sched := ts\<rparr>" ?c])
qed

lemma network_inv_tick:
  assumes inv: "network_inv s" and x: "x \<in> set (nw_ticks s)" "ev_time e = x"
    and h: "DC_Handle P ident e (nw_conn s) (nw_ports s) = Inr (c, st, ns, evts)"
  shows "network_inv (s\<lparr>nw_conn := c, nw_ports := st, nw_now := x, nw_lastTick := x,
      nw_ticks := remove1 x (nw_ticks s) @ map ev_time evts\<rparr>)"
proof -
  let ?c = "nw_conn s"
  note I = network_invD [OF inv]
  obtain pr where t: "ticked ?c (dc_ports ?c) (dc_ends ?c) (nw_ports s) pr (dc_ends c) st"
    and c: "dc_name c = dc_name ?c" "dc_L2Port c = dc_L2Port ?c" "dc_ports c = dc_ports ?c"
    and sc: "sched_ok (dc_sched c) x x (remove1 x (nw_ticks s) @ map ev_time evts)" "pr \<longrightarrow> evts \<noteq> []"
    using DC_Handle_ok [OF inv x, of ident] h by auto
  have T: "ends_ok contents attached ?c (dc_ends c) st" "dom (dc_ends c) = dom (dc_ends ?c)"
    "\<And>q d. transit contents ?c (dc_ends c) st q d = transit contents ?c (dc_ends ?c) (nw_ports s) q d"
    using t unfolding ticked_def by blast+
  have "end_bufSize e' \<le> int (length (end_buf e'))" if "dc_ends c p = Some e'" "end_busy e'" for p e'
    using t I(5) that unfolding ticked_def by metis
  moreover have "evts \<noteq> [] \<or> (\<exists>d. m_Dst (hd (end_bufOf (dc_ends c) p)) = Some d \<and> \<not> room (st d) \<and> busy (st d))"
    if "end_bufOf (dc_ends c) p \<noteq> []" for p
  proof (cases pr)
    case False
    have "p \<in> set (dc_ports ?c)" using that T(2) I(3) by (auto simp: end_bufOf_def split: option.splits)
    then show ?thesis using t False that unfolding ticked_def by blast
  qed (use sc(2) in simp)
  ultimately show ?thesis using I sc(1) T c by (auto simp: network_inv_def Let_def ends_ok_cong [OF c(1,2)])
qed

lemma network_inv_step: "network_step P s s' \<Longrightarrow> network_inv s \<Longrightarrow> network_inv s'"
proof (induction rule: network_step.induct)
  case (advance s t)
  then show ?case by (auto simp: network_inv_def Let_def sched_ok_def)
qed (blast intro: network_inv_send network_inv_retrieve network_inv_tick)+


text \<open>A connection on which ports have been plugged in and nothing has been sent.\<close>

definition idle where
  "idle c st \<longleftrightarrow> (\<forall>p e. dc_ends c p = Some e \<longrightarrow> end_port e = p \<and> end_buf e = [] \<and> \<not> end_busy e) \<and>
     set (dc_ports c) = dom (dc_ends c) \<and> (\<forall>p. contents (st p) = []) \<and> (\<forall>p \<in> dom (dc_ends c). attached (st p))"

lemma PlugIn_idle:
  assumes "idle c st" "PlugIn P self p n c st = (c', st')"
  shows "idle c' st' \<and> dc_sched c' = dc_sched c \<and> dc_ports c' \<noteq> []"
  using assms connect by (auto simp: idle_def PlugIn_def Let_def split: if_splits)

lemma plug_all_idle:
  assumes "idle c st" "plug_all P self xs (c, st) = (c', st')"
  shows "idle c' st' \<and> dc_sched c' = dc_sched c \<and> (xs \<noteq> [] \<longrightarrow> dc_ports c' \<noteq> [])"
  using assms
proof (induction xs arbitrary: c' st' rule: rev_induct)
  case (snoc x xs)
  obtain c1 st1 where 1: "plug_all P self xs (c, st) = (c1, st1)" by fastforce
  have "PlugIn P self (fst x) (snd x) c1 st1 = (c', st')" using snoc.prems(2) 1 by (simp add: plug_all_def split_beta)
  then show ?case using PlugIn_idle snoc.IH [OF snoc.prems(1) 1] by auto
qed (simp add: plug_all_def)

lemma network_inv_init:
  assumes "\<forall>t. t < freq t" "xs \<noteq> []" "\<forall>p. contents (st p) = []"
  shows "network_inv (network_init P self name freq xs st)"
proof -
  obtain c st' where c: "plug_all P self xs (NewDirectConnection name freq, st) = (c, st')" by fastforce
  have "idle (NewDirectConnection name freq) st" using assms(3) by (simp add: idle_def NewDirectConnection_def)
  from plug_all_idle [OF this c] show ?thesis using assms c
    by (auto simp: network_init_def network_inv_def idle_def sched_ok_def ends_ok_def end_bufOf_def transit_def
        NewDirectConnection_def NewSecondaryTickScheduler_def split: option.splits)
qed

lemma network_inv_reach:
  "(network_step P)\<^sup>*\<^sup>* (network_init P self name freq xs st) s \<Longrightarrow> \<forall>t. t < freq t \<Longrightarrow> xs \<noteq> [] \<Longrightarrow> \<forall>p. contents (st p) = [] \<Longrightarrow> network_inv s"
  by (induction rule: rtranclp_induct) (auto intro: network_inv_init network_inv_step)

end

definition port_room :: "('t, 'b) LimitNumMsgPort \<Rightarrow> bool" where
  "port_room p \<longleftrightarrow> int (length (lp_buf p)) < lp_bufCapacity p"

definition port_attached :: "('t, 'b) LimitNumMsgPort \<Rightarrow> bool" where
  "port_attached p \<longleftrightarrow> lp_conn p \<noteq> None"

interpretation lp: msg_port LimitNumMsgPort lp_buf port_room lp_portBusy port_attached
  by unfold_locales (auto simp: LimitNumMsgPort_defs port_room_def port_attached_def Let_def)

section \<open>Properties\<close>

text \<open>
  Claim C4. The connection loses, duplicates and reorders nothing: in every history of sends, deliveries and retrievals, for every
  source end and every destination, the messages the connection accepted are, in order, those the destination's component
  has retrieved, then those in its port, then those still queued at the source end.
\<close>

theorem DirectConnection_fifo:
  assumes "(network_step LimitNumMsgPort)\<^sup>*\<^sup>* (network_init LimitNumMsgPort self name freq xs st) s"
    and "\<forall>t. t < freq t" "xs \<noteq> []" "\<forall>p. lp_buf (st p) = []" "dc_ends (nw_conn s) d = Some e"
  shows "filter (via (nw_conn s) q d) (map plain (nw_accepted s)) =
    filter (via (nw_conn s) q d) (map plain (nw_retrieved s @ lp_buf (nw_ports s d) @ end_bufOf (dc_ends (nw_conn s)) q))"
proof -
  have "d \<in> dom (dc_ends (nw_conn s))" using assms(5) by blast
  then show ?thesis using lp.network_invD(7) [OF lp.network_inv_reach [OF assms(1-4)]] by (simp add: transit_def)
qed

text \<open>
  Claim C5. No wake-up is lost: whenever a message is queued at an end, a tick of the connection is scheduled, no earlier than
  now and after the last one, or the head of the queue waits for a full port that is marked busy; then the next message its
  component retrieves makes the port notify the connection, which schedules a tick. A refused sender stays marked
  only as long as its queue is full.
\<close>

theorem DirectConnection_no_lost_wakeup:
  assumes "(network_step LimitNumMsgPort)\<^sup>*\<^sup>* (network_init LimitNumMsgPort self name freq xs st) s"
    and "\<forall>t. t < freq t" "xs \<noteq> []" "\<forall>p. lp_buf (st p) = []"
    and "dc_ends (nw_conn s) q = Some e" "end_buf e = h # r"
  shows "(\<exists>x. nw_ticks s = [x] \<and> nw_now s \<le> x \<and> nw_lastTick s < x) \<or>
    (\<exists>d. m_Dst h = Some d \<and> lp_bufCapacity (nw_ports s d) \<le> int (length (lp_buf (nw_ports s d))) \<and>
       (\<forall>m ms. lp_buf (nw_ports s d) = m # ms \<longrightarrow> (\<exists>p'. Port_Retrieve (nw_ports s d) = Inr (Some m, True, p'))) \<and>
       (nw_lastTick s < nw_now s \<longrightarrow> map ev_time (snd (DC_NotifyAvailable ident (nw_now s) d (nw_conn s))) = [nw_now s]))"
proof (cases "nw_ticks s = []")
  case False
  then show ?thesis using lp.network_invD(1) [OF lp.network_inv_reach [OF assms(1-4)]] by (auto simp: sched_ok_def split: if_splits)
next
  case True
  note I = lp.network_invD [OF lp.network_inv_reach [OF assms(1-4)]]
  have q: "end_bufOf (dc_ends (nw_conn s)) q = h # r" using assms(5,6) by (simp add: end_bufOf_def)
  then obtain d where d: "m_Dst h = Some d" "lp_bufCapacity (nw_ports s d) \<le> int (length (lp_buf (nw_ports s d)))" "lp_portBusy (nw_ports s d)"
    using I(6) [rule_format, of q] True by (auto simp: port_room_def)
  have "d \<in> dom (dc_ends (nw_conn s))" using I(2) assms(5,6) d(1) by (fastforce simp: ends_ok_def)
  then have "port_attached (nw_ports s d)" using I(2) unfolding ends_ok_def by blast
  then obtain k where k: "lp_conn (nw_ports s d) = Some k" by (auto simp: port_attached_def)
  have "\<exists>p'. Port_Retrieve (nw_ports s d) = Inr (Some m, True, p')" if "lp_buf (nw_ports s d) = m # ms" for m ms
    using that d(3) k by (simp add: Port_Retrieve_def Let_def)
  moreover have "map ev_time (snd (DC_NotifyAvailable ident (nw_now s) d (nw_conn s))) = [nw_now s]" if "nw_lastTick s < nw_now s"
    using that I(1) True by (auto simp: sched_ok_def DC_NotifyAvailable_def DC_TickNow_def TickNow_def MakeTickEvent_def Let_def split: if_splits)
  ultimately show ?thesis using d(1,2) by (intro disjI2 exI [of _ d]) auto
qed


text \<open>Two ports of one message each on a connection that ticks once per time unit.\<close>

definition demo_init :: "((int, nat) LimitNumMsgPort, int, nat) network" where
  "demo_init = network_init LimitNumMsgPort 0 ''Conn'' (\<lambda>t. t + 1) [(0, 4), (1, 4)] (\<lambda>p. NewLimitNumMsgPort (Some p) 1 ''P'')"

definition demo_msg :: "nat \<Rightarrow> (int, nat) Msg" where
  "demo_msg b = \<lparr>m_ID = ''1'', m_Src = Some 0, m_Dst = Some 1, m_SendTime = 0, m_RecvTime = 0, m_PutInL2TLBBuffer = False, m_Body = b\<rparr>"

lemmas demo_defs = demo_init_def demo_msg_def network_init_def plug_all_def PlugIn_def NewDirectConnection_def NewSecondaryTickScheduler_def
  NewLimitNumMsgPort_def LimitNumMsgPort_defs DC_Send_def msgMustBeValid_def portMustBeConnected_def srcPort_def DC_TickNow_def TickNow_def
  MakeTickEvent_def DC_Handle_def TickingComponent_Handle_def TickLater_def DC_Tick_def forwardMany_def Port_NotifyAvailable_def Let_def

lemma demo_run:
  "\<exists>s. (network_step LimitNumMsgPort)\<^sup>*\<^sup>* demo_init s \<and> map m_Body (nw_accepted s) = [7, 8] \<and> nw_ticks s = [1] \<and>
     (\<exists>e m. dc_ends (nw_conn s) 0 = Some e \<and> end_buf e = [m] \<and> m_Body m = 8) \<and> (\<exists>e. dc_ends (nw_conn s) 1 = Some e)"
proof -
  let ?N = "network_step LimitNumMsgPort"
  let ?nm = "\<lambda>s p. pName LimitNumMsgPort (nw_ports s p)"
  define c1 where "c1 = fst (snd (projr (DC_Send [] (?nm demo_init) (demo_msg 7) (nw_conn demo_init))))"
  define s1 where "s1 = demo_init\<lparr>nw_conn := c1, nw_ticks := [0], nw_accepted := [demo_msg 7]\<rparr>"
  have "\<exists>e. DC_Send [] (?nm demo_init) (demo_msg 7) (nw_conn demo_init) = Inr (True, c1, [e]) \<and> ev_time e = 0"
    unfolding c1_def by (simp add: demo_defs)
  then have 1: "?N demo_init s1" using network_step.send [of demo_init "demo_msg 7" "[]" LimitNumMsgPort True c1] by (auto simp: s1_def demo_defs)
  define c2 where "c2 = fst (snd (projr (DC_Send [] (?nm s1) (demo_msg 8) c1)))"
  define s2 where "s2 = s1\<lparr>nw_conn := c2, nw_accepted := [demo_msg 7, demo_msg 8]\<rparr>"
  have "DC_Send [] (?nm s1) (demo_msg 8) (nw_conn s1) = Inr (True, c2, [])"
    unfolding c2_def s1_def c1_def by (simp add: demo_defs)
  then have 2: "?N s1 s2" using network_step.send [of s1 "demo_msg 8" "[]" LimitNumMsgPort True c2 "[]"] by (auto simp: s2_def s1_def demo_defs)
  let ?e = "MakeTickEvent [] 0 [] :: (int, string) event"
  define c3 st3 where "c3 = fst (projr (DC_Handle LimitNumMsgPort [] ?e c2 (nw_ports s2)))"
    and "st3 = fst (snd (projr (DC_Handle LimitNumMsgPort [] ?e c2 (nw_ports s2))))"
  define s3 where "s3 = s2\<lparr>nw_conn := c3, nw_ports := st3, nw_now := 0, nw_lastTick := 0, nw_ticks := [1]\<rparr>"
  have "\<exists>ns e. DC_Handle LimitNumMsgPort [] ?e (nw_conn s2) (nw_ports s2) = Inr (c3, st3, ns, [e]) \<and> ev_time e = 1 \<and>
      (\<exists>e m. dc_ends c3 0 = Some e \<and> end_buf e = [m] \<and> m_Body m = 8) \<and> (\<exists>e. dc_ends c3 1 = Some e)"
    unfolding c3_def st3_def s2_def s1_def c2_def c1_def by (simp add: demo_defs)
  then obtain ns e where 3: "DC_Handle LimitNumMsgPort [] ?e (nw_conn s2) (nw_ports s2) = Inr (c3, st3, ns, [e])" "ev_time e = 1"
    "\<exists>e m. dc_ends c3 0 = Some e \<and> end_buf e = [m] \<and> m_Body m = 8" "(\<exists>e. dc_ends c3 1 = Some e)" by blast
  have t: "nw_ticks s2 = [0]" by (simp add: s2_def s1_def)
  have "?N s2 s3" using network_step.tick [OF _ _ _ 3(1), of 0] t 3(2) by (simp add: s3_def MakeTickEvent_def)
  with 1 2 have "?N\<^sup>*\<^sup>* demo_init s3" by (meson converse_rtranclp_into_rtranclp rtranclp.rtrancl_refl)
  then show ?thesis using 3(3,4) by (intro exI [of _ s3]) (simp add: s3_def s2_def demo_msg_def)
qed

theorem DirectConnection_fifo_witness:
  "\<exists>s. (network_step LimitNumMsgPort)\<^sup>*\<^sup>* demo_init s \<and> map m_Body (nw_accepted s) = [7, 8] \<and>
     filter (via (nw_conn s) 0 1) (map plain (nw_accepted s)) =
     filter (via (nw_conn s) 0 1) (map plain (nw_retrieved s @ lp_buf (nw_ports s 1) @ end_bufOf (dc_ends (nw_conn s)) 0))"
proof -
  obtain s e where s: "(network_step LimitNumMsgPort)\<^sup>*\<^sup>* demo_init s" "map m_Body (nw_accepted s) = [7, 8]" "dc_ends (nw_conn s) 1 = Some e"
    using demo_run by (elim exE conjE) (rule that; assumption)
  note F = DirectConnection_fifo [OF s(1) [unfolded demo_init_def] _ _ _ s(3), of 0]
  show ?thesis by (intro exI [of _ s] conjI F) (use s in \<open>simp_all add: NewLimitNumMsgPort_def\<close>)
qed

theorem DirectConnection_no_lost_wakeup_witness:
  "\<exists>s e m. (network_step LimitNumMsgPort)\<^sup>*\<^sup>* demo_init s \<and> dc_ends (nw_conn s) 0 = Some e \<and> end_buf e = [m] \<and>
     ((\<exists>x. nw_ticks s = [x] \<and> nw_now s \<le> x \<and> nw_lastTick s < x) \<or>
      (\<exists>d. m_Dst m = Some d \<and> lp_bufCapacity (nw_ports s d) \<le> int (length (lp_buf (nw_ports s d)))))"
proof -
  obtain s e m where s: "(network_step LimitNumMsgPort)\<^sup>*\<^sup>* demo_init s" "dc_ends (nw_conn s) 0 = Some e" "end_buf e = [m]"
    using demo_run by (elim exE conjE) (rule that; assumption)
  note W = DirectConnection_no_lost_wakeup [OF s(1) [unfolded demo_init_def] _ _ _ s(2,3), where ident = "[]"]
  have "(\<exists>x. nw_ticks s = [x] \<and> nw_now s \<le> x \<and> nw_lastTick s < x) \<or>
      (\<exists>d. m_Dst m = Some d \<and> lp_bufCapacity (nw_ports s d) \<le> int (length (lp_buf (nw_ports s d))))"
    by (rule disjE [OF W]) (simp_all add: NewLimitNumMsgPort_def, blast)
  then show ?thesis using s by blast
qed


end
