(* ===== verification/Buffer.thy ===== *)
theory Buffer
  imports Prelude
begin

text \<open>
  The bounded FIFO buffer every component queues in (\<^verbatim>\<open>util/buffer.go\<close>) and the buffered
  sender on top of it (\<^verbatim>\<open>util/akitaext/bufferedsender.go\<close>). The interface \<^verbatim>\<open>util.Buffer\<close> is
  the record \<open>buffer_ops\<close> of its methods and the locale \<open>fifo_buffer\<close> of its laws;
  \<^verbatim>\<open>bufferImpl\<close> is an interpretation. The sender (here) and the pipeline (theory
  \<open>Pipeline\<close>) are its clients.
\<close>

section \<open>util.Buffer\<close>

record ('b, 'a) buffer_ops =
  bCanPush :: "'b \<Rightarrow> bool"
  bPush :: "'a \<Rightarrow> 'b \<Rightarrow> 'b result"
  bPop :: "'b \<Rightarrow> 'a option \<times> 'b"
  bPeek :: "'b \<Rightarrow> 'a option"
  bCapacity :: "'b \<Rightarrow> int"
  bSize :: "'b \<Rightarrow> int"
  bClear :: "'b \<Rightarrow> 'b"

record 'a bufferImpl =
  buf_capacity :: int
  buf_elements :: "'a list"

definition NewBuffer :: "int \<Rightarrow> 'a bufferImpl" where
  "NewBuffer capacity = \<lparr>buf_capacity = capacity, buf_elements = []\<rparr>"

definition bufferImpl_CanPush :: "'a bufferImpl \<Rightarrow> bool" where
  "bufferImpl_CanPush b = (int (length (buf_elements b)) < buf_capacity b)"

definition bufferImpl_Push :: "'a \<Rightarrow> 'a bufferImpl \<Rightarrow> 'a bufferImpl result" where
  "bufferImpl_Push e b =
     (if int (length (buf_elements b)) \<ge> buf_capacity b then Inl (Panic ''buffer overflow'')
      else Inr (b\<lparr>buf_elements := buf_elements b @ [e]\<rparr>))"

definition bufferImpl_Pop :: "'a bufferImpl \<Rightarrow> 'a option \<times> 'a bufferImpl" where
  "bufferImpl_Pop b =
     (case buf_elements b of [] \<Rightarrow> (None, b) | e # es \<Rightarrow> (Some e, b\<lparr>buf_elements := es\<rparr>))"

definition bufferImpl_Peek :: "'a bufferImpl \<Rightarrow> 'a option" where
  "bufferImpl_Peek b = (case buf_elements b of [] \<Rightarrow> None | e # _ \<Rightarrow> Some e)"

definition bufferImpl_Capacity :: "'a bufferImpl \<Rightarrow> int" where
  "bufferImpl_Capacity b = buf_capacity b"

definition bufferImpl_Size :: "'a bufferImpl \<Rightarrow> int" where
  "bufferImpl_Size b = int (length (buf_elements b))"

definition bufferImpl_Clear :: "'a bufferImpl \<Rightarrow> 'a bufferImpl" where
  "bufferImpl_Clear b = b\<lparr>buf_elements := []\<rparr>"

definition bufferImpl :: "('a bufferImpl, 'a) buffer_ops" where
  "bufferImpl = \<lparr>bCanPush = bufferImpl_CanPush, bPush = bufferImpl_Push, bPop = bufferImpl_Pop,
     bPeek = bufferImpl_Peek, bCapacity = bufferImpl_Capacity, bSize = bufferImpl_Size,
     bClear = bufferImpl_Clear\<rparr>"

lemmas bufferImpl_defs = bufferImpl_def bufferImpl_CanPush_def bufferImpl_Push_def
  bufferImpl_Pop_def bufferImpl_Peek_def bufferImpl_Capacity_def bufferImpl_Size_def
  bufferImpl_Clear_def

section \<open>What its clients rely on\<close>

text \<open>
  A buffer is abstracted to the list of its elements, oldest first. A push succeeds
  exactly when \<^verbatim>\<open>CanPush\<close> says so.
\<close>

locale fifo_buffer =
  fixes B :: "('b, 'a) buffer_ops"
    and contents :: "'b \<Rightarrow> 'a list"
  assumes canPush: "bCanPush B b \<longleftrightarrow> bSize B b < bCapacity B b"
    and size: "bSize B b = int (length (contents b))"
    and push_fails: "\<not> bCanPush B b \<Longrightarrow> bPush B x b = Inl (Panic ''buffer overflow'')"
    and push: "bCanPush B b \<Longrightarrow>
      \<exists>b'. bPush B x b = Inr b' \<and> contents b' = contents b @ [x] \<and> bCapacity B b' = bCapacity B b"
    and pop: "bPop B b = (case contents b of [] \<Rightarrow> (None, b) | x # _ \<Rightarrow> (Some x, snd (bPop B b)))"
    and contents_pop: "contents (snd (bPop B b)) = tl (contents b)"
    and capacity_pop: "bCapacity B (snd (bPop B b)) = bCapacity B b"
    and peek: "bPeek B b = (case contents b of [] \<Rightarrow> None | x # _ \<Rightarrow> Some x)"
    and clear: "contents (bClear B b) = [] \<and> bCapacity B (bClear B b) = bCapacity B b"
begin

lemma push_Inr: "bPush B x b = Inr b' \<Longrightarrow> contents b' = contents b @ [x] \<and> bCanPush B b"
  using push [of b x] push_fails [of b x] by (cases "bCanPush B b") auto

lemma fst_pop: "fst (bPop B b) = (case contents b of [] \<Rightarrow> None | x # _ \<Rightarrow> Some x)"
  by (subst pop) (auto split: list.split)

end

interpretation bi: fifo_buffer bufferImpl buf_elements
  by unfold_locales (auto simp: bufferImpl_defs split: list.splits)

section \<open>BufferedSender\<close>

text \<open>
  The sender holds a buffer of messages and a port. A message is a pointer: \<open>store\<close> maps
  it to the time of sending the sender writes into the message before it tries the
  port. The port's \<^verbatim>\<open>Send\<close> is the parameter \<open>send\<close>: it takes the message and the state of the
  port, and tells whether there was no error.
\<close>

definition CanSend :: "('b, 'p) buffer_ops \<Rightarrow> 'b \<Rightarrow> int \<Rightarrow> bool result" where
  "CanSend B b cnt =
     (if cnt > bCapacity B b
      then Inl (Panic ''trying to send number of reuqests exceeding capacity'')
      else if cnt + bSize B b > bCapacity B b then Inr False else Inr True)"

definition Sender_Send :: "('b, 'p) buffer_ops \<Rightarrow> 'p \<Rightarrow> 'b \<Rightarrow> 'b result" where
  "Sender_Send B msg b = bPush B msg b"

definition Sender_Clear :: "('b, 'p) buffer_ops \<Rightarrow> 'b \<Rightarrow> 'b" where
  "Sender_Clear B b = bClear B b"

definition Sender_Tick ::
    "('b, 'p) buffer_ops \<Rightarrow> ('p \<Rightarrow> 'c \<Rightarrow> bool \<times> 'c) \<Rightarrow> 't \<Rightarrow> 'b \<Rightarrow> ('p \<Rightarrow> 't) \<Rightarrow> 'c \<Rightarrow>
     bool \<times> 'b \<times> ('p \<Rightarrow> 't) \<times> 'c" where
  "Sender_Tick B send now b store c =
     (case bPeek B b of
        None \<Rightarrow> (False, b, store, c)
      | Some msg \<Rightarrow>
          let store' = store(msg := now)
          in case send msg c of
               (False, c') \<Rightarrow> (False, b, store', c')
             | (True, c') \<Rightarrow> (True, snd (bPop B b), store', c'))"

text \<open>
  A history of a sender: its owner sends, and it ticks, where the environment decides
  whether the port takes the message. The port keeps a log of the messages it took.
\<close>

datatype ('p, 't) sender_action = ASend 'p | ATick 't bool

definition logging_port :: "bool \<Rightarrow> 'p \<Rightarrow> 'p list \<Rightarrow> bool \<times> 'p list" where
  "logging_port accepts msg log = (if accepts then (True, log @ [msg]) else (False, log))"

fun sender_run ::
    "('b, 'p) buffer_ops \<Rightarrow> ('p, 't) sender_action list \<Rightarrow> 'b \<Rightarrow> ('p \<Rightarrow> 't) \<Rightarrow> 'p list \<Rightarrow>
     ('b \<times> ('p \<Rightarrow> 't) \<times> 'p list) result" where
  "sender_run B [] b store log = Inr (b, store, log)"
| "sender_run B (ASend msg # as) b store log =
     bindR (Sender_Send B msg b) (\<lambda>b'. sender_run B as b' store log)"
| "sender_run B (ATick now accepts # as) b store log =
     (case Sender_Tick B (logging_port accepts) now b store log of
        (_, b', store', log') \<Rightarrow> sender_run B as b' store' log')"

fun sent_msgs :: "('p, 't) sender_action list \<Rightarrow> 'p list" where
  "sent_msgs [] = []"
| "sent_msgs (ASend msg # as) = msg # sent_msgs as"
| "sent_msgs (ATick _ _ # as) = sent_msgs as"

context fifo_buffer
begin

lemma CanSend_enough:
  "CanSend B b (int n) = Inr True \<Longrightarrow> n \<le> length xs \<Longrightarrow>
   \<exists>b'. foldl (\<lambda>r x. bindR r (Sender_Send B x)) (Inr b) (take n xs) = Inr b' \<and>
        contents b' = contents b @ take n xs"
proof (induction n arbitrary: b xs)
  case 0
  then show ?case by simp
next
  case (Suc n)
  then obtain x ys where xs: "xs = x # ys" by (cases xs) auto
  have room: "int (Suc n) \<le> bCapacity B b" "int (Suc n) + bSize B b \<le> bCapacity B b"
    using Suc.prems(1) by (auto simp: CanSend_def split: if_splits)
  then obtain b1 where b1: "bPush B x b = Inr b1" "contents b1 = contents b @ [x]"
      "bCapacity B b1 = bCapacity B b"
    using push [of b x] canPush [of b] by auto
  with room have "CanSend B b1 (int n) = Inr True"
    by (simp add: CanSend_def size)
  from Suc.IH [OF this, of ys] Suc.prems(2) b1 xs show ?case
    by (auto simp: Sender_Send_def)
qed

lemma Sender_Tick_log:
  "Sender_Tick B (logging_port accepts) now b store log = (p, b', store', log') \<Longrightarrow>
   log' @ contents b' = log @ contents b"
  by (auto simp: Sender_Tick_def peek logging_port_def contents_pop split: list.splits if_splits)

lemma sender_run_log:
  "sender_run B as b store log = Inr (b', store', log') \<Longrightarrow>
   log' @ contents b' = log @ contents b @ sent_msgs as"
proof (induction as arbitrary: b store log)
  case Nil
  then show ?case by simp
next
  case (Cons a as)
  show ?case
  proof (cases a)
    case (ASend msg)
    with Cons show ?thesis
      by (auto simp: bindR_eq_Inr Sender_Send_def dest!: push_Inr Cons.IH)
  next
    case (ATick now accepts)
    then show ?thesis
      using Cons.prems by (auto split: prod.splits dest!: Cons.IH Sender_Tick_log)
  qed
qed

end

section \<open>Properties\<close>

text \<open>
  Claim C30. A \<^verbatim>\<open>BufferedSender\<close> over a \<^verbatim>\<open>bufferImpl\<close> is a lossless FIFO: in every history of sends
  and ticks, whatever the port accepts and refuses, the messages that left through the
  port followed by those still buffered are exactly the messages sent, in that order.
\<close>

theorem BufferedSender_fifo:
  assumes "sender_run bufferImpl as (NewBuffer capacity) store [] = Inr (b, store', log)"
  shows "log @ buf_elements b = sent_msgs as"
  using bi.sender_run_log [OF assms] by (simp add: NewBuffer_def)

theorem BufferedSender_fifo_witness:
  "\<exists>b store' log. sender_run bufferImpl [ASend 7, ATick 1 False, ASend 8, ATick (2::nat) True, ASend 9]
       (NewBuffer 2) (\<lambda>_. 0) [] = Inr (b, store', log) \<and>
     log = [7::nat] \<and> log @ buf_elements b = [7, 8, 9]"
proof -
  obtain b store' log where r: "sender_run bufferImpl [ASend 7, ATick 1 False, ASend 8, ATick (2::nat) True, ASend 9]
       (NewBuffer 2) (\<lambda>_. 0) [] = Inr (b, store', log)" "log = [7::nat]"
    by (simp add: bufferImpl_defs NewBuffer_def Sender_Send_def Sender_Tick_def logging_port_def)
  with BufferedSender_fifo [OF r(1)] show ?thesis by auto
qed

text \<open>
  \<^verbatim>\<open>CanSend\<close> is a reservation: when it answers true for \<open>n\<close>, the next \<open>n\<close> sends all
  succeed and queue their messages in order behind what is buffered.
\<close>

theorem CanSend_reserves:
  assumes "CanSend bufferImpl b (int (length msgs)) = Inr True"
  shows "\<exists>b'. foldl (\<lambda>r msg. bindR r (Sender_Send bufferImpl msg)) (Inr b) msgs = Inr b' \<and>
              buf_elements b' = buf_elements b @ msgs"
  using bi.CanSend_enough [OF assms order_refl] by simp

theorem CanSend_reserves_witness:
  "CanSend bufferImpl (NewBuffer 2) (int (length [7, 8 :: nat])) = Inr True \<and>
   (\<exists>b'. foldl (\<lambda>r msg. bindR r (Sender_Send bufferImpl msg)) (Inr (NewBuffer 2)) [7, 8] = Inr b' \<and>
         buf_elements b' = buf_elements (NewBuffer 2) @ [7, 8 :: nat])"
proof -
  have h: "CanSend bufferImpl (NewBuffer 2) (int (length [7, 8 :: nat])) = Inr True"
    by (simp add: CanSend_def bufferImpl_defs NewBuffer_def)
  from CanSend_reserves [OF h] h show ?thesis by blast
qed

end
