(* ===== verification/Pipeline.thy ===== *)
theory Pipeline
  imports Buffer
begin

text \<open>
  The timed pipeline components put in front of their banks and lookup stages
  (\<^verbatim>\<open>util/pipelining/pipeline.go\<close>). A pipeline has \<open>width\<close> lanes of \<open>numStage\<close> stages; an element
  spends \<open>cyclePerStage\<close> ticks in each and leaves into the post-pipeline buffer, a
  \<^verbatim>\<open>util.Buffer\<close> it shares with its owner. The lemmas use the buffer only through the locale
  \<open>fifo_buffer\<close>. Tracing and the name are left out.
\<close>

section \<open>State\<close>

record 'e pipelineStageInfo =
  st_elem :: "'e option"
  st_cycleLeft :: int

record ('e, 'b) pipelineImpl =
  pl_width :: nat
  pl_numStage :: nat
  pl_cyclePerStage :: int
  pl_postBuf :: 'b
  pl_stages :: "'e pipelineStageInfo list list"

definition pipeline_Clear :: "('e, 'b) pipelineImpl \<Rightarrow> ('e, 'b) pipelineImpl" where
  "pipeline_Clear p = p\<lparr>pl_stages :=
     replicate (pl_width p) (replicate (pl_numStage p) \<lparr>st_elem = None, st_cycleLeft = 0\<rparr>)\<rparr>"

definition NewPipeline :: "nat \<Rightarrow> int \<Rightarrow> 'b \<Rightarrow> ('e, 'b) pipelineImpl" where
  "NewPipeline numStage cyclePerStage postBuf =
     pipeline_Clear \<lparr>pl_width = 1, pl_numStage = numStage, pl_cyclePerStage = cyclePerStage,
                     pl_postBuf = postBuf, pl_stages = []\<rparr>"

text \<open>The stage \<^verbatim>\<open>p.stages[lane][i]\<close>, and a write through the pointer to it.\<close>

definition stage :: "('e, 'b) pipelineImpl \<Rightarrow> nat \<Rightarrow> nat \<Rightarrow> 'e pipelineStageInfo" where
  "stage p lane i = pl_stages p ! lane ! i"

definition set_stage ::
    "nat \<Rightarrow> nat \<Rightarrow> 'e pipelineStageInfo \<Rightarrow> ('e, 'b) pipelineImpl \<Rightarrow> ('e, 'b) pipelineImpl" where
  "set_stage lane i st p = p\<lparr>pl_stages := (pl_stages p)[lane := (pl_stages p ! lane)[i := st]]\<rparr>"

section \<open>Operations\<close>

definition tryMoveToPostPipelineBuffer ::
    "('b, 'e) buffer_ops \<Rightarrow> nat \<Rightarrow> nat \<Rightarrow> ('e, 'b) pipelineImpl \<Rightarrow>
     (bool \<times> ('e, 'b) pipelineImpl) result" where
  "tryMoveToPostPipelineBuffer B lane i p =
     (if \<not> bCanPush B (pl_postBuf p) then Inr (False, p)
      else case st_elem (stage p lane i) of
             None \<Rightarrow> Inl NilDereference
           | Some e \<Rightarrow> bindR (bPush B e (pl_postBuf p)) (\<lambda>b.
               Inr (True, set_stage lane i ((stage p lane i)\<lparr>st_elem := None\<rparr>) (p\<lparr>pl_postBuf := b\<rparr>))))"

definition tryMoveToNextStage ::
    "nat \<Rightarrow> nat \<Rightarrow> ('e, 'b) pipelineImpl \<Rightarrow> bool \<times> ('e, 'b) pipelineImpl" where
  "tryMoveToNextStage lane stageNum p =
     (if st_elem (stage p lane (stageNum + 1)) \<noteq> None then (False, p)
      else (True,
            set_stage lane stageNum ((stage p lane stageNum)\<lparr>st_elem := None\<rparr>)
              (set_stage lane (stageNum + 1)
                 \<lparr>st_elem = st_elem (stage p lane stageNum),
                  st_cycleLeft = pl_cyclePerStage p - 1\<rparr> p)))"

text \<open>The body of the two loops of \<^verbatim>\<open>Tick\<close>: whether there was progress, and the pipeline.\<close>

definition tick_stage ::
    "('b, 'e) buffer_ops \<Rightarrow> nat \<Rightarrow> nat \<Rightarrow> ('e, 'b) pipelineImpl \<Rightarrow>
     (bool \<times> ('e, 'b) pipelineImpl) result" where
  "tick_stage B lane i p =
     (let st = stage p lane i
      in if st_elem st = None then Inr (False, p)
         else if st_cycleLeft st > 0
         then Inr (True, set_stage lane i (st\<lparr>st_cycleLeft := st_cycleLeft st - 1\<rparr>) p)
         else if i = pl_numStage p - 1 then tryMoveToPostPipelineBuffer B lane i p
         else Inr (tryMoveToNextStage lane i p))"

text \<open>\<^verbatim>\<open>for i := p.numStage - 1; i >= 0; i--\<close>: the stages below \<open>n\<close>, the last one first.\<close>

fun tick_lane ::
    "('b, 'e) buffer_ops \<Rightarrow> nat \<Rightarrow> nat \<Rightarrow> bool \<times> ('e, 'b) pipelineImpl \<Rightarrow>
     (bool \<times> ('e, 'b) pipelineImpl) result" where
  "tick_lane B lane 0 (mp, p) = Inr (mp, p)"
| "tick_lane B lane (Suc i) (mp, p) =
     bindR (tick_stage B lane i p) (\<lambda>(m, p'). tick_lane B lane i (m \<or> mp, p'))"

fun tick_lanes ::
    "('b, 'e) buffer_ops \<Rightarrow> nat list \<Rightarrow> bool \<times> ('e, 'b) pipelineImpl \<Rightarrow>
     (bool \<times> ('e, 'b) pipelineImpl) result" where
  "tick_lanes B [] s = Inr s"
| "tick_lanes B (lane # lanes) s =
     bindR (tick_lane B lane (pl_numStage (snd s)) s) (tick_lanes B lanes)"

definition pipeline_Tick ::
    "('b, 'e) buffer_ops \<Rightarrow> ('e, 'b) pipelineImpl \<Rightarrow> (bool \<times> ('e, 'b) pipelineImpl) result" where
  "pipeline_Tick B p = tick_lanes B [0..<pl_width p] (False, p)"

text \<open>The lane \<^verbatim>\<open>CanAccept\<close> and \<^verbatim>\<open>Accept\<close> look for: the first whose first stage is empty.\<close>

definition free_lane :: "('e, 'b) pipelineImpl \<Rightarrow> nat option" where
  "free_lane p = find (\<lambda>lane. st_elem (stage p lane 0) = None) [0..<pl_width p]"

definition pipeline_CanAccept :: "('b, 'e) buffer_ops \<Rightarrow> ('e, 'b) pipelineImpl \<Rightarrow> bool" where
  "pipeline_CanAccept B p =
     (if pl_numStage p = 0 then bCanPush B (pl_postBuf p) else free_lane p \<noteq> None)"

definition pipeline_Accept ::
    "('b, 'e) buffer_ops \<Rightarrow> 'e \<Rightarrow> ('e, 'b) pipelineImpl \<Rightarrow> ('e, 'b) pipelineImpl result" where
  "pipeline_Accept B elem p =
     (if pl_numStage p = 0
      then bindR (bPush B elem (pl_postBuf p)) (\<lambda>b. Inr (p\<lparr>pl_postBuf := b\<rparr>))
      else case free_lane p of
             None \<Rightarrow> Inl (Panic ''pipeline is not free. Use can push before pushing.'')
           | Some lane \<Rightarrow>
               Inr (set_stage lane 0
                      \<lparr>st_elem = Some elem, st_cycleLeft = pl_cyclePerStage p - 1\<rparr> p))"

section \<open>Shape\<close>

definition pipeline_wf :: "('e, 'b) pipelineImpl \<Rightarrow> bool" where
  "pipeline_wf p \<longleftrightarrow> length (pl_stages p) = pl_width p \<and>
     (\<forall>l \<in> set (pl_stages p). length l = pl_numStage p)"

text \<open>The elements of a lane, those nearest to the exit first.\<close>

definition lane_items :: "'e pipelineStageInfo list \<Rightarrow> 'e list" where
  "lane_items l = List.map_filter st_elem (rev l)"

definition in_flight :: "('e, 'b) pipelineImpl \<Rightarrow> 'e multiset" where
  "in_flight p = (\<Sum>l \<leftarrow> pl_stages p. mset (lane_items l))"

lemma NewPipeline_wf: "pipeline_wf (NewPipeline n c b)"
  by (simp add: pipeline_wf_def NewPipeline_def pipeline_Clear_def)

lemma lane_items_append: "lane_items (xs @ ys) = lane_items ys @ lane_items xs"
  by (simp add: lane_items_def map_filter_def)

lemma lane_items_single: "lane_items [st] = (case st_elem st of None \<Rightarrow> [] | Some e \<Rightarrow> [e])"
  by (simp add: lane_items_def map_filter_def split: option.split)

lemma lane_items_Nil [simp]: "lane_items [] = []"
  by (simp add: lane_items_def map_filter_def)

text \<open>A lane cut at stage \<open>i\<close>, and what a write to that stage makes of its elements.\<close>

lemma lane_items_split:
  assumes "i < length l"
  shows "lane_items (l[i := st]) =
    lane_items (drop (Suc i) l) @ lane_items [st] @ lane_items (take i l)"
proof -
  have "l[i := st] = take i l @ [st] @ drop (Suc i) l"
    using assms by (simp add: upd_conv_take_nth_drop)
  then show ?thesis by (simp only: lane_items_append append_assoc)
qed

lemma lane_items_nth:
  "i < length l \<Longrightarrow> lane_items l =
     lane_items (drop (Suc i) l) @ lane_items [l ! i] @ lane_items (take i l)"
  using lane_items_split [of i l "l ! i"] by simp

lemma lane_items_cycles:
  "i < length l \<Longrightarrow> lane_items (l[i := (l ! i)\<lparr>st_cycleLeft := c\<rparr>]) = lane_items l"
  by (simp add: lane_items_split lane_items_nth [of i l] lane_items_single)

lemma lane_items_exit:
  "l \<noteq> [] \<Longrightarrow> i = length l - 1 \<Longrightarrow> st_elem (l ! i) = Some e \<Longrightarrow>
   lane_items l = e # lane_items (l[i := (l ! i)\<lparr>st_elem := None\<rparr>])"
  by (simp add: lane_items_split lane_items_nth [of i l] lane_items_single)

lemma lane_items_move:
  assumes i: "Suc i < length l" and empty: "st_elem (l ! Suc i) = None"
  shows "lane_items (l[Suc i := \<lparr>st_elem = st_elem (l ! i), st_cycleLeft = c\<rparr>,
                       i := (l ! i)\<lparr>st_elem := None\<rparr>]) = lane_items l"
proof -
  let ?m = "l[Suc i := \<lparr>st_elem = st_elem (l ! i), st_cycleLeft = c\<rparr>]"
  have "lane_items (?m[i := (l ! i)\<lparr>st_elem := None\<rparr>]) = lane_items (drop (Suc i) ?m) @ lane_items (take i ?m)"
    using i by (simp add: lane_items_split [of i] lane_items_single)
  also have "drop (Suc i) ?m = \<lparr>st_elem = st_elem (l ! i), st_cycleLeft = c\<rparr> # drop (Suc (Suc i)) l"
    using i by (simp add: drop_update_swap Cons_nth_drop_Suc [symmetric])
  also have "lane_items \<dots> = lane_items (drop (Suc (Suc i)) l) @ lane_items [l ! i]"
    using lane_items_append [of "[_]" "drop (Suc (Suc i)) l"] by (simp add: lane_items_single)
  also have "take i ?m = take i l" by simp
  also have "lane_items (drop (Suc (Suc i)) l) = lane_items (drop (Suc i) l)"
    using i empty lane_items_append [of "[l ! Suc i]" "drop (Suc (Suc i)) l"]
    by (simp add: Cons_nth_drop_Suc lane_items_single)
  finally show ?thesis using i lane_items_nth [of i l] by simp
qed

section \<open>Nothing is lost, duplicated or reordered\<close>

text \<open>
  What a step on one lane keeps: the shape and the configuration, the other lanes, and
  the sequence made of the post-pipeline buffer followed by the lane.
\<close>

definition lane_step ::
    "('b \<Rightarrow> 'e list) \<Rightarrow> nat \<Rightarrow> ('e, 'b) pipelineImpl \<Rightarrow> ('e, 'b) pipelineImpl \<Rightarrow> bool" where
  "lane_step contents lane p p' \<longleftrightarrow> pipeline_wf p' \<and>
     pl_width p' = pl_width p \<and> pl_numStage p' = pl_numStage p \<and>
     pl_cyclePerStage p' = pl_cyclePerStage p \<and>
     contents (pl_postBuf p') @ lane_items (pl_stages p' ! lane) =
     contents (pl_postBuf p) @ lane_items (pl_stages p ! lane) \<and>
     (\<forall>l. l \<noteq> lane \<longrightarrow> pl_stages p' ! l = pl_stages p ! l)"

lemma lane_step_refl: "pipeline_wf p \<Longrightarrow> lane_step contents lane p p"
  by (simp add: lane_step_def)

lemma lane_step_trans:
  "lane_step contents lane p p' \<Longrightarrow> lane_step contents lane p' p'' \<Longrightarrow> lane_step contents lane p p''"
  by (simp add: lane_step_def)

lemma wf_set_stage:
  assumes "pipeline_wf p" "lane < pl_width p"
  shows "pipeline_wf (set_stage lane i st p)"
proof -
  have "length (pl_stages p ! lane) = pl_numStage p"
    using assms by (simp add: pipeline_wf_def)
  with assms show ?thesis
    by (auto simp: pipeline_wf_def set_stage_def dest!: subsetD [OF set_update_subset_insert])
qed

lemma stages_set_stage [simp]:
  "lane < length (pl_stages p) \<Longrightarrow> pl_stages (set_stage lane i st p) ! lane = (pl_stages p ! lane)[i := st]"
  "l \<noteq> lane \<Longrightarrow> pl_stages (set_stage lane i st p) ! l = pl_stages p ! l"
  "pl_width (set_stage lane i st p) = pl_width p"
  "pl_numStage (set_stage lane i st p) = pl_numStage p"
  "pl_cyclePerStage (set_stage lane i st p) = pl_cyclePerStage p"
  "pl_postBuf (set_stage lane i st p) = pl_postBuf p"
  "length (pl_stages (set_stage lane i st p)) = length (pl_stages p)"
  by (simp_all add: set_stage_def)

lemma pipeline_wf_lengths:
  "pipeline_wf p \<Longrightarrow> length (pl_stages p) = pl_width p"
  "pipeline_wf p \<Longrightarrow> lane < pl_width p \<Longrightarrow> length (pl_stages p ! lane) = pl_numStage p"
  by (simp_all add: pipeline_wf_def)

lemma pipeline_wf_postBuf [simp]: "pipeline_wf (p\<lparr>pl_postBuf := b\<rparr>) = pipeline_wf p"
  by (simp add: pipeline_wf_def)

lemma pl_stages_nth_step:
  assumes "lane_step contents lane p p'" "lane < pl_width p" "pipeline_wf p"
  shows "mset (contents (pl_postBuf p')) + in_flight p' = mset (contents (pl_postBuf p)) + in_flight p"
proof -
  let ?f = "\<lambda>q. \<Sum>l \<leftarrow> [0..<pl_width p]. mset (lane_items (pl_stages q ! l))"
  have fl: "in_flight q = ?f q" if "pipeline_wf q" "pl_width q = pl_width p" for q
    using that map_upt_nth [of "\<lambda>l. mset (lane_items l)" "pl_stages q"]
    by (simp add: in_flight_def pipeline_wf_def)
  have split: "?f q = mset (lane_items (pl_stages q ! lane)) +
      (\<Sum>l \<leftarrow> remove1 lane [0..<pl_width p]. mset (lane_items (pl_stages q ! l)))" for q
    using assms(2) by (simp add: sum_list_map_remove1)
  have rest: "(\<Sum>l \<leftarrow> remove1 lane [0..<pl_width p]. mset (lane_items (pl_stages p' ! l))) =
      (\<Sum>l \<leftarrow> remove1 lane [0..<pl_width p]. mset (lane_items (pl_stages p ! l)))"
    using assms(1) by (intro arg_cong [where f = sum_list] map_cong) (auto simp: lane_step_def)
  have "mset (contents (pl_postBuf p')) + mset (lane_items (pl_stages p' ! lane)) =
        mset (contents (pl_postBuf p)) + mset (lane_items (pl_stages p ! lane))"
    using assms(1) unfolding lane_step_def by (metis mset_append)
  with fl [of p] fl [of p'] split [of p] split [of p'] rest assms show ?thesis
    by (simp add: lane_step_def add.assoc [symmetric])
qed

context fifo_buffer
begin

lemma tick_stage_step:
  assumes wf: "pipeline_wf p" and lane: "lane < pl_width p" and i: "i < pl_numStage p"
  shows "\<exists>m p'. tick_stage B lane i p = Inr (m, p') \<and> lane_step contents lane p p'"
proof -
  let ?l = "pl_stages p ! lane" and ?st = "stage p lane i"
  note len = pipeline_wf_lengths [OF wf] pipeline_wf_lengths(2) [OF wf lane]
  have l: "i < length ?l" "?st = ?l ! i" using i len by (simp_all add: stage_def)
  consider "st_elem ?st = None" | e where "st_elem ?st = Some e" "st_cycleLeft ?st > 0"
    | e where "st_elem ?st = Some e" "\<not> st_cycleLeft ?st > 0" "i = pl_numStage p - 1"
    | e where "st_elem ?st = Some e" "\<not> st_cycleLeft ?st > 0" "i \<noteq> pl_numStage p - 1"
    by (cases "st_elem ?st") auto
  then show ?thesis
  proof cases
    case 1
    then show ?thesis using wf by (auto simp: tick_stage_def lane_step_refl)
  next
    case 2
    then show ?thesis
      using wf lane l len by (auto simp: tick_stage_def Let_def lane_step_def wf_set_stage lane_items_cycles)
  next
    case (3 e)
    show ?thesis
    proof (cases "bCanPush B (pl_postBuf p)")
      case False
      with 3 wf show ?thesis
        by (auto simp: tick_stage_def tryMoveToPostPipelineBuffer_def lane_step_refl)
    next
      case True
      then obtain b where b: "bPush B e (pl_postBuf p) = Inr b"
          "contents b = contents (pl_postBuf p) @ [e]"
        using push by blast
      have "lane_items ?l = e # lane_items (?l[i := ?st\<lparr>st_elem := None\<rparr>])"
        using lane_items_exit [of ?l i e] 3 i l len by fastforce
      with 3 True b wf lane len show ?thesis
        by (auto simp: tick_stage_def tryMoveToPostPipelineBuffer_def lane_step_def wf_set_stage)
    qed
  next
    case (4 e)
    have next_i: "Suc i < length ?l" using 4 i len by simp
    show ?thesis
    proof (cases "st_elem (stage p lane (i + 1))")
      case (Some e')
      with 4 wf show ?thesis by (auto simp: tick_stage_def tryMoveToNextStage_def lane_step_refl)
    next
      case None
      then have "lane_items (?l[Suc i := \<lparr>st_elem = st_elem ?st, st_cycleLeft = pl_cyclePerStage p - 1\<rparr>,
          i := ?st\<lparr>st_elem := None\<rparr>]) = lane_items ?l"
        using lane_items_move [OF next_i] by (simp add: stage_def)
      with None 4 wf lane len show ?thesis
        by (auto simp: tick_stage_def tryMoveToNextStage_def lane_step_def wf_set_stage)
    qed
  qed
qed

lemma tick_lane_step:
  "pipeline_wf p \<Longrightarrow> lane < pl_width p \<Longrightarrow> n \<le> pl_numStage p \<Longrightarrow>
   \<exists>m p'. tick_lane B lane n (mp, p) = Inr (m, p') \<and> lane_step contents lane p p'"
proof (induction n arbitrary: p mp)
  case 0
  then show ?case by (simp add: lane_step_refl)
next
  case (Suc n)
  obtain m p1 where p1: "tick_stage B lane n p = Inr (m, p1)" "lane_step contents lane p p1"
    using tick_stage_step [OF Suc.prems(1,2), of n] Suc.prems(3) by auto
  then obtain m' p2 where "tick_lane B lane n (m \<or> mp, p1) = Inr (m', p2)" "lane_step contents lane p1 p2"
    using Suc.IH [of p1 "m \<or> mp"] Suc.prems by (auto simp: lane_step_def)
  with p1 show ?case by (auto intro: lane_step_trans)
qed

lemma tick_lanes_conserves:
  "pipeline_wf p \<Longrightarrow> \<forall>lane \<in> set lanes. lane < pl_width p \<Longrightarrow>
   \<exists>m p'. tick_lanes B lanes (mp, p) = Inr (m, p') \<and> pipeline_wf p' \<and>
     pl_width p' = pl_width p \<and> pl_numStage p' = pl_numStage p \<and>
     mset (contents (pl_postBuf p')) + in_flight p' = mset (contents (pl_postBuf p)) + in_flight p"
proof (induction lanes arbitrary: p mp)
  case Nil
  then show ?case by simp
next
  case (Cons lane lanes)
  then obtain m p1 where p1: "tick_lane B lane (pl_numStage p) (mp, p) = Inr (m, p1)"
      "lane_step contents lane p p1"
    using tick_lane_step [of p lane "pl_numStage p" mp] by auto
  with Cons.IH [of p1 m] Cons.prems pl_stages_nth_step [OF p1(2)] show ?case
    by (auto simp: lane_step_def)
qed

lemma pipeline_Tick_conserves:
  "pipeline_wf p \<Longrightarrow>
   \<exists>m p'. pipeline_Tick B p = Inr (m, p') \<and> pipeline_wf p' \<and> pl_width p' = pl_width p \<and>
     mset (contents (pl_postBuf p')) + in_flight p' = mset (contents (pl_postBuf p)) + in_flight p"
  using tick_lanes_conserves [of p "[0..<pl_width p]" False] by (auto simp: pipeline_Tick_def)

text \<open>In a pipeline with a single lane the order is kept as well.\<close>

lemma pipeline_Tick_fifo:
  assumes "pipeline_wf p" "pl_width p = 1" "pipeline_Tick B p = Inr (m, p')"
  shows "contents (pl_postBuf p') @ lane_items (pl_stages p' ! 0) =
         contents (pl_postBuf p) @ lane_items (pl_stages p ! 0)"
    and "pipeline_wf p'" "pl_width p' = 1" "pl_numStage p' = pl_numStage p"
  using tick_lane_step [of p 0 "pl_numStage p" False] assms
  by (auto simp: pipeline_Tick_def lane_step_def)

lemma pipeline_Accept_iff_CanAccept: "ok (pipeline_Accept B e p) \<longleftrightarrow> pipeline_CanAccept B p"
  using push [of "pl_postBuf p" e] push_fails [of "pl_postBuf p" e]
  by (cases "bCanPush B (pl_postBuf p)")
     (auto simp: pipeline_Accept_def pipeline_CanAccept_def split: option.split)

end

section \<open>Latency\<close>

text \<open>The only element of a single-lane pipeline is \<open>e\<close>, at stage \<open>i\<close> with \<open>c\<close> cycles left.\<close>

definition only_at :: "('e, 'b) pipelineImpl \<Rightarrow> nat \<Rightarrow> 'e \<Rightarrow> int \<Rightarrow> bool" where
  "only_at p i e c \<longleftrightarrow> pipeline_wf p \<and> pl_width p = 1 \<and> i < pl_numStage p \<and>
     st_elem (stage p 0 i) = Some e \<and> st_cycleLeft (stage p 0 i) = c \<and>
     (\<forall>j < pl_numStage p. j \<noteq> i \<longrightarrow> st_elem (stage p 0 j) = None)"

lemma tick_lane_idle:
  "\<forall>j < n. st_elem (stage p lane j) = None \<Longrightarrow> tick_lane B lane n (mp, p) = Inr (mp, p)"
  by (induction n arbitrary: mp) (auto simp: tick_stage_def)

text \<open>A tick of a lane with one element is the step of that element's stage.\<close>

lemma tick_lane_single:
  assumes "\<forall>j < n. j \<noteq> i \<longrightarrow> st_elem (stage p lane j) = None" "i < n"
    and "tick_stage B lane i p = Inr (m, p')"
    and "\<forall>j < i. st_elem (stage p' lane j) = None"
  shows "tick_lane B lane n (mp, p) = Inr (m \<or> mp, p')"
  using assms
proof (induction n)
  case 0
  then show ?case by simp
next
  case (Suc n)
  show ?case
  proof (cases "n = i")
    case True
    with Suc.prems show ?thesis by (simp add: tick_lane_idle)
  next
    case False
    then have "tick_stage B lane n p = Inr (False, p)"
      using Suc.prems by (simp add: tick_stage_def)
    with Suc False show ?thesis by simp
  qed
qed

lemma stage_set_stage:
  "pipeline_wf p \<Longrightarrow> lane < pl_width p \<Longrightarrow> i < pl_numStage p \<Longrightarrow>
   stage (set_stage lane i st p) lane j = (if j = i then st else stage p lane j)"
  by (simp add: stage_def pipeline_wf_lengths nth_list_update)

lemma Tick_single:
  assumes "only_at p i e c" "tick_stage B 0 i p = Inr (m, p')"
    and "\<forall>j < i. st_elem (stage p' 0 j) = None"
  shows "pipeline_Tick B p = Inr (m, p')"
proof -
  have "tick_lane B 0 (pl_numStage p) (False, p) = Inr (m \<or> False, p')"
    by (rule tick_lane_single [where i = i]) (use assms in \<open>auto simp: only_at_def\<close>)
  with assms(1) show ?thesis by (simp add: pipeline_Tick_def only_at_def)
qed

lemma Tick_counts_down:
  assumes "only_at p i e c" "0 < c"
  shows "\<exists>p'. pipeline_Tick B p = Inr (True, p') \<and> only_at p' i e (c - 1) \<and>
     pl_numStage p' = pl_numStage p \<and> pl_cyclePerStage p' = pl_cyclePerStage p \<and> pl_postBuf p' = pl_postBuf p"
proof -
  let ?p = "set_stage 0 i ((stage p 0 i)\<lparr>st_cycleLeft := c - 1\<rparr>) p"
  have wf: "pipeline_wf p" "0 < pl_width p" "i < pl_numStage p"
    using assms by (auto simp: only_at_def)
  have "only_at ?p i e (c - 1)"
    using assms by (auto simp: only_at_def wf_set_stage stage_set_stage)
  moreover have "tick_stage B 0 i p = Inr (True, ?p)"
    using assms by (auto simp: only_at_def tick_stage_def Let_def)
  ultimately show ?thesis
    using Tick_single [OF assms(1)] assms(1) wf by (auto simp: only_at_def stage_set_stage)
qed

lemma Tick_moves_on:
  assumes "only_at p i e 0" "Suc i < pl_numStage p"
  shows "\<exists>p'. pipeline_Tick B p = Inr (True, p') \<and> only_at p' (Suc i) e (pl_cyclePerStage p - 1) \<and>
     pl_numStage p' = pl_numStage p \<and> pl_cyclePerStage p' = pl_cyclePerStage p \<and> pl_postBuf p' = pl_postBuf p"
proof -
  let ?q = "set_stage 0 (Suc i) \<lparr>st_elem = st_elem (stage p 0 i), st_cycleLeft = pl_cyclePerStage p - 1\<rparr> p"
  let ?p = "set_stage 0 i ((stage p 0 i)\<lparr>st_elem := None\<rparr>) ?q"
  have wf: "pipeline_wf p" "0 < pl_width p" "pl_width p = 1"
    using assms by (auto simp: only_at_def)
  have q: "pipeline_wf ?q" by (rule wf_set_stage [OF wf(1,2)])
  have "only_at ?p (Suc i) e (pl_cyclePerStage p - 1)"
    using assms wf q by (auto simp: only_at_def stage_set_stage intro!: wf_set_stage)
  moreover have "tick_stage B 0 i p = Inr (True, ?p)"
    using assms by (auto simp: only_at_def tick_stage_def tryMoveToNextStage_def Let_def)
  moreover have "\<forall>j < i. st_elem (stage ?p 0 j) = None"
    using assms wf q by (auto simp: only_at_def stage_set_stage)
  ultimately show ?thesis using Tick_single [OF assms(1)] by auto
qed

fun ticks :: "('b, 'e) buffer_ops \<Rightarrow> nat \<Rightarrow> ('e, 'b) pipelineImpl \<Rightarrow> ('e, 'b) pipelineImpl result" where
  "ticks B 0 p = Inr p"
| "ticks B (Suc n) p = bindR (pipeline_Tick B p) (\<lambda>(_, p'). ticks B n p')"

lemma ticks_add: "ticks B (m + n) p = bindR (ticks B m p) (ticks B n)"
  by (induction m arbitrary: p) (auto simp: bindR_def split: sum.splits)

lemma ticks_count_down:
  "only_at p i e (int c) \<Longrightarrow>
   \<exists>p'. ticks B c p = Inr p' \<and> only_at p' i e 0 \<and>
     pl_numStage p' = pl_numStage p \<and> pl_cyclePerStage p' = pl_cyclePerStage p \<and> pl_postBuf p' = pl_postBuf p"
proof (induction c arbitrary: p)
  case 0
  then show ?case by simp
next
  case (Suc c)
  obtain p1 where p1: "pipeline_Tick B p = Inr (True, p1)" "only_at p1 i e (int c)"
      "pl_numStage p1 = pl_numStage p" "pl_cyclePerStage p1 = pl_cyclePerStage p" "pl_postBuf p1 = pl_postBuf p"
    using Tick_counts_down [OF Suc.prems, of B] by auto
  with Suc.IH [OF p1(2)] show ?case by simp
qed

text \<open>\<open>d\<close> stages further take \<open>d\<close> times the cycles per stage.\<close>

lemma ticks_stages:
  assumes "0 < cps"
  shows "only_at p i e (int cps - 1) \<Longrightarrow> pl_cyclePerStage p = int cps \<Longrightarrow> i + d < pl_numStage p \<Longrightarrow>
   \<exists>p'. ticks B (d * cps) p = Inr p' \<and> only_at p' (i + d) e (int cps - 1) \<and>
     pl_numStage p' = pl_numStage p \<and> pl_cyclePerStage p' = pl_cyclePerStage p \<and> pl_postBuf p' = pl_postBuf p"
proof (induction d arbitrary: p i)
  case 0
  then show ?case by simp
next
  case (Suc d)
  have c: "only_at p i e (int (cps - 1))" using Suc.prems(1) assms by (simp add: of_nat_diff)
  obtain p1 where p1: "ticks B (cps - 1) p = Inr p1" "only_at p1 i e 0"
      "pl_numStage p1 = pl_numStage p" "pl_cyclePerStage p1 = int cps" "pl_postBuf p1 = pl_postBuf p"
    using ticks_count_down [OF c, of B] Suc.prems(2) by auto
  obtain p2 where p2: "pipeline_Tick B p1 = Inr (True, p2)" "only_at p2 (Suc i) e (int cps - 1)"
      "pl_numStage p2 = pl_numStage p" "pl_cyclePerStage p2 = int cps" "pl_postBuf p2 = pl_postBuf p"
    using Tick_moves_on [OF p1(2), of B] p1 Suc.prems(3) by auto
  have "ticks B ((cps - 1) + Suc 0) p = Inr p2"
    unfolding ticks_add using p1(1) p2(1) by simp
  then have "ticks B cps p = Inr p2" using assms by simp
  moreover obtain p3 where "ticks B (d * cps) p2 = Inr p3" "only_at p3 (Suc i + d) e (int cps - 1)"
      "pl_numStage p3 = pl_numStage p" "pl_cyclePerStage p3 = int cps" "pl_postBuf p3 = pl_postBuf p"
    using Suc.IH [OF p2(2)] p2 Suc.prems(3) by auto
  ultimately show ?case using Suc.prems(2) by (auto simp: ticks_add [of B cps "d * cps"])
qed

section \<open>Histories of a single-lane pipeline\<close>

text \<open>The owner accepts elements, ticks the pipeline and pops its buffer.\<close>

datatype 'e pipeline_action = PAccept 'e | PTick | PPop

fun pipeline_run ::
    "('b, 'e) buffer_ops \<Rightarrow> 'e pipeline_action list \<Rightarrow> ('e, 'b) pipelineImpl \<Rightarrow> 'e list \<Rightarrow>
     (('e, 'b) pipelineImpl \<times> 'e list) result" where
  "pipeline_run B [] p out = Inr (p, out)"
| "pipeline_run B (PAccept e # as) p out =
     bindR (pipeline_Accept B e p) (\<lambda>p'. pipeline_run B as p' out)"
| "pipeline_run B (PTick # as) p out =
     bindR (pipeline_Tick B p) (\<lambda>(_, p'). pipeline_run B as p' out)"
| "pipeline_run B (PPop # as) p out =
     (case bPop B (pl_postBuf p) of
        (x, b) \<Rightarrow> pipeline_run B as (p\<lparr>pl_postBuf := b\<rparr>) (out @ (case x of None \<Rightarrow> [] | Some e \<Rightarrow> [e])))"

fun accepted :: "'e pipeline_action list \<Rightarrow> 'e list" where
  "accepted [] = []"
| "accepted (PAccept e # as) = e # accepted as"
| "accepted (PTick # as) = accepted as"
| "accepted (PPop # as) = accepted as"

context fifo_buffer
begin

lemma pipeline_Accept_fifo:
  assumes wf: "pipeline_wf p" "pl_width p = 1" and acc: "pipeline_Accept B e p = Inr p'"
  shows "contents (pl_postBuf p') @ lane_items (pl_stages p' ! 0) =
         contents (pl_postBuf p) @ lane_items (pl_stages p ! 0) @ [e]"
    and "pipeline_wf p'" "pl_width p' = 1"
proof -
  have len: "length (pl_stages p) = 1" "length (pl_stages p ! 0) = pl_numStage p"
    using wf by (auto simp: pipeline_wf_def)
  have "contents (pl_postBuf p') @ lane_items (pl_stages p' ! 0) =
         contents (pl_postBuf p) @ lane_items (pl_stages p ! 0) @ [e] \<and> pipeline_wf p' \<and> pl_width p' = 1"
  proof (cases "pl_numStage p = 0")
    case True
    with acc len wf show ?thesis
      by (auto simp: pipeline_Accept_def bindR_eq_Inr dest!: push_Inr)
  next
    case False
    with acc wf have empty: "st_elem (pl_stages p ! 0 ! 0) = None" and
      p': "p' = set_stage 0 0 \<lparr>st_elem = Some e, st_cycleLeft = pl_cyclePerStage p - 1\<rparr> p"
      by (auto simp: pipeline_Accept_def free_lane_def stage_def split: if_splits)
    have "lane_items (pl_stages p' ! 0) = lane_items (pl_stages p ! 0) @ [e]"
      using empty False len lane_items_nth [of 0 "pl_stages p ! 0"]
      by (simp add: p' lane_items_split lane_items_single)
    with wf p' show ?thesis by (simp add: wf_set_stage)
  qed
  then show "contents (pl_postBuf p') @ lane_items (pl_stages p' ! 0) =
         contents (pl_postBuf p) @ lane_items (pl_stages p ! 0) @ [e]"
    "pipeline_wf p'" "pl_width p' = 1" by auto
qed

lemma pipeline_run_fifo:
  "pipeline_wf p \<Longrightarrow> pl_width p = 1 \<Longrightarrow> pipeline_run B as p out = Inr (p', out') \<Longrightarrow>
   out' @ contents (pl_postBuf p') @ lane_items (pl_stages p' ! 0) =
   out @ contents (pl_postBuf p) @ lane_items (pl_stages p ! 0) @ accepted as"
proof (induction as arbitrary: p out)
  case Nil
  then show ?case by simp
next
  case (Cons a as)
  show ?case
  proof (cases a)
    case (PAccept e)
    with Cons.prems obtain p1 where p1: "pipeline_Accept B e p = Inr p1"
        "pipeline_run B as p1 out = Inr (p', out')" by (auto simp: bindR_eq_Inr)
    note acc = pipeline_Accept_fifo [OF Cons.prems(1,2) p1(1)]
    from Cons.IH [OF acc(2,3) p1(2)] acc(1) PAccept show ?thesis by simp
  next
    case PTick
    with Cons.prems obtain m p1 where p1: "pipeline_Tick B p = Inr (m, p1)"
        "pipeline_run B as p1 out = Inr (p', out')" by (auto simp: bindR_eq_Inr)
    note tick = pipeline_Tick_fifo [OF Cons.prems(1,2) p1(1)]
    from Cons.IH [OF tick(2,3) p1(2)] tick(1) PTick show ?thesis
      by (simp flip: append_assoc)
  next
    case PPop
    let ?b = "pl_postBuf p"
    have "fst (bPop B ?b) = (case contents ?b of [] \<Rightarrow> None | x # _ \<Rightarrow> Some x)"
      "contents (snd (bPop B ?b)) = tl (contents ?b)"
      by (rule fst_pop) (rule contents_pop)
    moreover from PPop Cons.prems have "pipeline_run B as (p\<lparr>pl_postBuf := snd (bPop B ?b)\<rparr>)
        (out @ (case fst (bPop B ?b) of None \<Rightarrow> [] | Some e \<Rightarrow> [e])) = Inr (p', out')"
      by (simp split: prod.splits)
    note Cons.IH [OF _ _ this]
    ultimately show ?thesis using PPop Cons.prems(1,2) by (auto split: list.splits)
  qed
qed

end

section \<open>Properties\<close>

text \<open>
  A tick of a well-formed pipeline of any width never panics (in particular it
  never overflows the post-pipeline buffer), keeps the pipeline well-formed, and neither
  loses nor duplicates an element: buffer and stages together hold the same multiset.
\<close>

theorem pipeline_Tick_lossless:
  assumes "pipeline_wf p"
  shows "\<exists>m p'. pipeline_Tick bufferImpl p = Inr (m, p') \<and> pipeline_wf p' \<and>
     mset (buf_elements (pl_postBuf p')) + in_flight p' =
     mset (buf_elements (pl_postBuf p)) + in_flight p"
  using bi.pipeline_Tick_conserves [OF assms] by blast

text \<open>Two lanes whose elements both want to leave into a buffer with room for one.\<close>

definition two_lanes :: "(nat, nat bufferImpl) pipelineImpl" where
  "two_lanes = \<lparr>pl_width = 2, pl_numStage = 1, pl_cyclePerStage = 1, pl_postBuf = NewBuffer 1,
     pl_stages = [[\<lparr>st_elem = Some 1, st_cycleLeft = 0\<rparr>], [\<lparr>st_elem = Some 2, st_cycleLeft = 0\<rparr>]]\<rparr>"

theorem pipeline_Tick_lossless_witness:
  "pipeline_wf two_lanes \<and> (\<exists>m p'. pipeline_Tick bufferImpl two_lanes = Inr (m, p') \<and> pipeline_wf p' \<and>
     mset (buf_elements (pl_postBuf p')) + in_flight p' = {#1, 2#})"
proof -
  have wf: "pipeline_wf two_lanes" by (simp add: pipeline_wf_def two_lanes_def)
  moreover have "mset (buf_elements (pl_postBuf two_lanes)) + in_flight two_lanes = {#1, 2#}"
    by (simp add: two_lanes_def NewBuffer_def in_flight_def lane_items_single)
  ultimately show ?thesis using pipeline_Tick_lossless [OF wf] by simp
qed

text \<open>
  Claim C29. A pipeline made by \<^verbatim>\<open>NewPipeline\<close> is first-in-first-out: in every history of
  accepts, ticks and pops of its buffer, what was popped, then what is buffered, then
  what is in the stages from the exit backwards, is exactly what was accepted, in order.
\<close>

theorem NewPipeline_fifo:
  assumes "pipeline_run bufferImpl as (NewPipeline numStage cps (NewBuffer capacity)) [] = Inr (p, out)"
  shows "out @ buf_elements (pl_postBuf p) @ lane_items (pl_stages p ! 0) = accepted as"
proof -
  have "lane_items (replicate numStage \<lparr>st_elem = None, st_cycleLeft = 0\<rparr>) = []"
    by (simp add: lane_items_def map_filter_def)
  with bi.pipeline_run_fifo [OF NewPipeline_wf _ assms] show ?thesis
    by (simp add: NewPipeline_def pipeline_Clear_def NewBuffer_def)
qed

lemmas pipeline_eval = pipeline_Accept_def pipeline_Tick_def free_lane_def stage_def set_stage_def
  tick_stage_def tryMoveToPostPipelineBuffer_def tryMoveToNextStage_def NewPipeline_def
  pipeline_Clear_def NewBuffer_def bufferImpl_defs Let_def upt_rec numeral_2_eq_2

theorem NewPipeline_fifo_witness:
  "\<exists>p out. pipeline_run bufferImpl [PAccept 7, PTick, PAccept 8, PTick, PTick, PPop]
       (NewPipeline 2 1 (NewBuffer 1)) [] = Inr (p, out) \<and> out = [7::nat] \<and>
     out @ buf_elements (pl_postBuf p) @ lane_items (pl_stages p ! 0) = [7, 8]"
proof -
  obtain p out where r: "pipeline_run bufferImpl [PAccept 7, PTick, PAccept 8, PTick, PTick, PPop]
       (NewPipeline 2 1 (NewBuffer 1)) [] = Inr (p, out)" "out = [7::nat]"
    by (simp add: pipeline_eval)
  with NewPipeline_fifo [OF r(1)] show ?thesis by auto
qed

text \<open>
  Claim C26. The latency of an idle pipeline is exactly \<open>numStage * cyclePerStage\<close> ticks: an
  element accepted into it is in the last stage with no cycle left after one tick
  less, the buffer being untouched, and in the post-pipeline buffer after that many.
\<close>

theorem pipeline_latency:
  fixes e :: 'e
  assumes "0 < numStage" "0 < cps" "0 < capacity"
  shows "\<exists>p q r. pipeline_Accept bufferImpl e (NewPipeline numStage (int cps) (NewBuffer capacity)) = Inr p \<and>
     ticks bufferImpl (numStage * cps - 1) p = Inr q \<and> only_at q (numStage - 1) e 0 \<and>
     buf_elements (pl_postBuf q) = [] \<and>
     ticks bufferImpl (numStage * cps) p = Inr r \<and> buf_elements (pl_postBuf r) = [e]"
proof -
  let ?n = "NewPipeline numStage (int cps) (NewBuffer capacity) :: ('e, 'e bufferImpl) pipelineImpl"
  let ?p = "set_stage 0 0 \<lparr>st_elem = Some e, st_cycleLeft = int cps - 1\<rparr> ?n"
  have new: "pipeline_wf ?n" "pl_width ?n = 1" "pl_numStage ?n = numStage"
      "pl_cyclePerStage ?n = int cps" "pl_postBuf ?n = NewBuffer capacity"
    and empty: "\<forall>j < numStage. st_elem (stage ?n 0 j) = None"
    by (simp_all add: NewPipeline_wf) (simp_all add: NewPipeline_def pipeline_Clear_def stage_def)
  have acc: "pipeline_Accept bufferImpl e ?n = Inr ?p"
    using new empty assms by (simp add: pipeline_Accept_def free_lane_def)
  have at0: "only_at ?p 0 e (int cps - 1)"
    using new empty assms by (simp add: only_at_def wf_set_stage stage_set_stage)
  obtain p1 where p1: "ticks bufferImpl ((numStage - 1) * cps) ?p = Inr p1"
      "only_at p1 (numStage - 1) e (int cps - 1)" "pl_numStage p1 = numStage"
      "pl_postBuf p1 = NewBuffer capacity"
    using ticks_stages [OF assms(2) at0, of "numStage - 1" bufferImpl] new assms(1) by auto
  have "only_at p1 (numStage - 1) e (int (cps - 1))" using p1(2) assms(2) by (simp add: of_nat_diff)
  then obtain q where q: "ticks bufferImpl (cps - 1) p1 = Inr q" "only_at q (numStage - 1) e 0"
      "pl_numStage q = numStage" "pl_postBuf q = NewBuffer capacity"
    using ticks_count_down [of p1 "numStage - 1" e "cps - 1" bufferImpl] p1 by auto
  let ?r = "set_stage 0 (numStage - 1) ((stage q 0 (numStage - 1))\<lparr>st_elem := None\<rparr>)
      (q\<lparr>pl_postBuf := \<lparr>buf_capacity = capacity, buf_elements = [e]\<rparr>\<rparr>)"
  have step: "tick_stage bufferImpl 0 (numStage - 1) q = Inr (True, ?r)"
    using q assms by (simp add: only_at_def tick_stage_def tryMoveToPostPipelineBuffer_def
        bufferImpl_defs NewBuffer_def)
  have "st_elem (stage ?r 0 j) = None" if "j < numStage - 1" for j
    using q(2,3) that by (auto simp: only_at_def stage_def pipeline_wf_lengths)
  then have last: "pipeline_Tick bufferImpl q = Inr (True, ?r)"
    using Tick_single [OF q(2) step] by blast
  have n1: "(numStage - 1) * cps + (cps - 1) = numStage * cps - 1"
    using assms(1,2) by (cases numStage) auto
  have "ticks bufferImpl (numStage * cps - 1) ?p = Inr q"
    using ticks_add [of bufferImpl "(numStage - 1) * cps" "cps - 1" ?p] p1(1) q(1) n1 by simp
  moreover from this have "ticks bufferImpl (numStage * cps) ?p = Inr ?r"
    using ticks_add [of bufferImpl "numStage * cps - 1" 1 ?p] last assms by simp
  ultimately show ?thesis using acc q by (auto simp: NewBuffer_def)
qed

theorem pipeline_latency_witness:
  "\<exists>p q r. pipeline_Accept bufferImpl (5::nat) (NewPipeline 2 (int 3) (NewBuffer 1)) = Inr p \<and>
     ticks bufferImpl (2 * 3 - 1) p = Inr q \<and> only_at q (2 - 1) 5 0 \<and> buf_elements (pl_postBuf q) = [] \<and>
     ticks bufferImpl (2 * 3) p = Inr r \<and> buf_elements (pl_postBuf r) = [5]"
  by (rule pipeline_latency) simp_all

end
