(* ===== verification/Storage.thy ===== *)
theory Storage
  imports Prelude
begin

text \<open>
  The backing store of the simulated memories (\<^verbatim>\<open>mem/storage.go\<close>): an address space of
  \<open>Capacity\<close> bytes kept in units that are allocated when first touched. \<^verbatim>\<open>Read\<close> and
  \<^verbatim>\<open>Write\<close> split an access at unit borders. Addresses are 64-bit words. A call returns the
  new storage and either Go's error value (\<open>Inl\<close>) or the result; a panic is the outer
  \<open>Inl\<close>. The loops take fuel, and \<open>Read\<close> and \<open>Write\<close> give them one unit more than the bytes of
  the access, which \<open>read_loop_spec\<close> and \<open>write_loop_spec\<close> show to be enough.
\<close>

section \<open>State and operations\<close>

record storage =
  sto_Capacity :: u64
  sto_unitSize :: u64
  sto_data :: "u64 \<rightharpoonup> byte list"

definition newStorageUnit :: "u64 \<Rightarrow> byte list" where
  "newStorageUnit unitSize = replicate (unat unitSize) 0"

definition NewStorage :: "u64 \<Rightarrow> storage" where
  "NewStorage capacity =
     \<lparr>sto_Capacity = capacity, sto_unitSize = capacity div 16, sto_data = Map.empty\<rparr>"

definition parseAddress :: "storage \<Rightarrow> u64 \<Rightarrow> (u64 \<times> u64) result" where
  "parseAddress s addr =
     (if sto_unitSize s = 0 then Inl DivideByZero
      else let inUnitAddr = addr mod sto_unitSize s in Inr (addr - inUnitAddr, inUnitAddr))"

definition createOrGetStorageUnit ::
    "storage \<Rightarrow> u64 \<Rightarrow> (storage \<times> (string + byte list)) result" where
  "createOrGetStorageUnit s address =
     (if address > sto_Capacity s
      then Inr (s, Inl ''accessing physical address beyond the storage capacity'')
      else bindR (parseAddress s address) (\<lambda>(baseAddr, _).
           case sto_data s baseAddr of
             Some unit \<Rightarrow> Inr (s, Inr unit)
           | None \<Rightarrow> let unit = newStorageUnit (sto_unitSize s)
                     in Inr (s\<lparr>sto_data := (sto_data s)(baseAddr \<mapsto> unit)\<rparr>, Inr unit)))"

fun read_loop ::
    "nat \<Rightarrow> u64 \<Rightarrow> storage \<Rightarrow> u64 \<Rightarrow> u64 \<Rightarrow> u64 \<Rightarrow> byte list \<Rightarrow>
     (storage \<times> (string + byte list)) result option" where
  "read_loop 0 endAddr s currAddr lenLeft dataOffset res = None"
| "read_loop (Suc fuel) endAddr s currAddr lenLeft dataOffset res =
     (if \<not> currAddr < endAddr then Some (Inr (s, Inr res))
      else case createOrGetStorageUnit s currAddr of
             Inl p \<Rightarrow> Some (Inl p)
           | Inr (s', Inl err) \<Rightarrow> Some (Inr (s', Inl err))
           | Inr (s', Inr unit) \<Rightarrow>
               (case parseAddress s' currAddr of
                  Inl p \<Rightarrow> Some (Inl p)
                | Inr (baseAddr, inUnitAddr) \<Rightarrow>
                    let lenLeftInUnit = baseAddr + sto_unitSize s' - currAddr;
                        lenToRead = (if lenLeft < lenLeftInUnit then lenLeft else lenLeftInUnit)
                    in read_loop fuel endAddr s' (currAddr + lenToRead) (lenLeft - lenToRead)
                         (dataOffset + lenToRead)
                         (copy_at res (unat dataOffset)
                            (take (unat lenToRead) (drop (unat inUnitAddr) unit)))))"

definition storage_Read ::
    "storage \<Rightarrow> u64 \<Rightarrow> u64 \<Rightarrow> (storage \<times> (string + byte list)) result option" where
  "storage_Read s address len =
     read_loop (Suc (unat len)) (address + len) s address len 0 (replicate (unat len) 0)"

fun write_loop ::
    "nat \<Rightarrow> byte list \<Rightarrow> storage \<Rightarrow> u64 \<Rightarrow> u64 \<Rightarrow> (storage \<times> (string + unit)) result option" where
  "write_loop 0 data s currAddr dataOffset = None"
| "write_loop (Suc fuel) data s currAddr dataOffset =
     (if \<not> dataOffset < of_nat (length data) then Some (Inr (s, Inr ()))
      else case createOrGetStorageUnit s currAddr of
             Inl p \<Rightarrow> Some (Inl p)
           | Inr (s', Inl err) \<Rightarrow> Some (Inr (s', Inl err))
           | Inr (s', Inr unit) \<Rightarrow>
               (case parseAddress s' currAddr of
                  Inl p \<Rightarrow> Some (Inl p)
                | Inr (baseAddr, inUnitAddr) \<Rightarrow>
                    let lenLeftInData = of_nat (length data) - dataOffset;
                        lenLeftInUnit =
                          currAddr div sto_unitSize s' * sto_unitSize s' + sto_unitSize s' - currAddr;
                        lenToWrite = (if lenLeftInData < lenLeftInUnit then lenLeftInData else lenLeftInUnit);
                        unit' = copy_at unit (unat inUnitAddr)
                                  (take (unat lenToWrite) (drop (unat dataOffset) data))
                    in write_loop fuel data (s'\<lparr>sto_data := (sto_data s')(baseAddr \<mapsto> unit')\<rparr>)
                         (currAddr + lenToWrite) (dataOffset + lenToWrite)))"

definition storage_Write ::
    "storage \<Rightarrow> u64 \<Rightarrow> byte list \<Rightarrow> (storage \<times> (string + unit)) result option" where
  "storage_Write s address data = write_loop (Suc (length data)) data s address 0"

section \<open>The abstract memory\<close>

definition storage_wf :: "storage \<Rightarrow> bool" where
  "storage_wf s \<longleftrightarrow> sto_unitSize s \<noteq> 0 \<and>
     (\<forall>b u. sto_data s b = Some u \<longrightarrow> length u = unat (sto_unitSize s))"

text \<open>The byte at an address; a unit never touched reads as zeros.\<close>

definition byte_at :: "storage \<Rightarrow> u64 \<Rightarrow> byte" where
  "byte_at s a =
     (case sto_data s (a - a mod sto_unitSize s) of
        None \<Rightarrow> 0 | Some u \<Rightarrow> u ! unat (a mod sto_unitSize s))"

text \<open>An access of \<open>n\<close> bytes stays inside the capacity.\<close>

definition in_range :: "storage \<Rightarrow> u64 \<Rightarrow> nat \<Rightarrow> bool" where
  "in_range s a n \<longleftrightarrow> unat a + n \<le> unat (sto_Capacity s)"

lemma NewStorage_wf: "16 \<le> capacity \<Longrightarrow> storage_wf (NewStorage capacity)"
  by (auto simp: storage_wf_def NewStorage_def word_le_nat_alt unat_div unat_eq_0 [symmetric] div_eq_0_iff)

section \<open>Addresses inside a unit\<close>

lemma unat_mod_less: "(u::u64) \<noteq> 0 \<Longrightarrow> unat a mod unat u < unat u"
  by (simp add: unat_gt_0)

text \<open>What is left of the unit at an address, as \<^verbatim>\<open>Read\<close> and as \<^verbatim>\<open>Write\<close> compute it.\<close>

lemma unit_rest:
  assumes "(u::u64) \<noteq> 0"
  shows "unat (a - a mod u + u - a) = unat u - unat a mod unat u"
    and "a div u * u + u - a = a - a mod u + u - a"
proof -
  have "a - a mod u + u - a = u - a mod u" by simp
  moreover have "a mod u \<le> u"
    using unat_mod_less [OF assms, of a] by (simp add: word_le_nat_alt unat_mod)
  ultimately show "unat (a - a mod u + u - a) = unat u - unat a mod unat u"
    by (simp add: unat_sub unat_mod)
  show "a div u * u + u - a = a - a mod u + u - a"
    by (simp add: minus_mod_eq_div_mult)
qed

text \<open>The next \<open>j\<close> addresses lie in the same unit as long as the rest of the unit lasts.\<close>

lemma same_unit:
  assumes u: "(u::u64) \<noteq> 0" and j: "j < unat u - unat a mod unat u" and no: "unat a + j < 2 ^ 64"
  shows "unat ((a + of_nat j) mod u) = unat a mod unat u + j"
    and "(a + of_nat j) - (a + of_nat j) mod u = a - a mod u"
proof -
  have aj: "unat (a + of_nat j) = unat a + j" by (rule unat_word_add) (use no in simp)
  have "(unat a + j) mod unat u = (unat a mod unat u + j) mod unat u" by (simp add: mod_add_left_eq)
  also have "\<dots> = unat a mod unat u + j" using j by simp
  finally show m: "unat ((a + of_nat j) mod u) = unat a mod unat u + j" by (simp add: unat_mod aj)
  have "(a + of_nat j) mod u = a mod u + of_nat j"
  proof (rule word_unat_eq_iff [THEN iffD2])
    have "unat (a mod u + of_nat j) = unat (a mod u) + j"
      by (rule unat_word_add) (use j unat_lt64 [of u] in \<open>simp add: unat_mod\<close>)
    with m show "unat ((a + of_nat j) mod u) = unat (a mod u + of_nat j)" by (simp add: unat_mod)
  qed
  then show "(a + of_nat j) - (a + of_nat j) mod u = a - a mod u" by simp
qed

section \<open>One step of the loops\<close>

lemma parseAddress_ok:
  "storage_wf s \<Longrightarrow> parseAddress s a = Inr (a - a mod sto_unitSize s, a mod sto_unitSize s)"
  by (simp add: parseAddress_def storage_wf_def Let_def)

text \<open>Touching a unit inside the capacity succeeds and does not change any byte.\<close>

lemma createOrGet_spec:
  assumes wf: "storage_wf s" and a: "a \<le> sto_Capacity s"
  shows "\<exists>s' u. createOrGetStorageUnit s a = Inr (s', Inr u) \<and> storage_wf s' \<and>
           sto_Capacity s' = sto_Capacity s \<and> sto_unitSize s' = sto_unitSize s \<and>
           sto_data s' (a - a mod sto_unitSize s) = Some u \<and> length u = unat (sto_unitSize s) \<and>
           byte_at s' = byte_at s"
proof (cases "sto_data s (a - a mod sto_unitSize s)")
  case (Some u)
  with wf a show ?thesis
    by (auto simp: createOrGetStorageUnit_def parseAddress_ok storage_wf_def not_less)
next
  case None
  let ?s = "s\<lparr>sto_data := (sto_data s)(a - a mod sto_unitSize s \<mapsto> newStorageUnit (sto_unitSize s))\<rparr>"
  have "unat (x mod sto_unitSize s) < unat (sto_unitSize s)" for x
    using wf unat_mod_less [of "sto_unitSize s" x] by (simp add: storage_wf_def unat_mod)
  then have "byte_at ?s = byte_at s"
    using None by (auto simp: byte_at_def newStorageUnit_def fun_eq_iff split: option.split)
  moreover have "storage_wf ?s" using wf by (auto simp: storage_wf_def newStorageUnit_def)
  moreover have "createOrGetStorageUnit s a = Inr (?s, Inr (newStorageUnit (sto_unitSize s)))"
    using None wf a by (auto simp: createOrGetStorageUnit_def parseAddress_ok not_less Let_def)
  ultimately show ?thesis by (simp add: newStorageUnit_def)
qed

text \<open>The part of a unit an access of \<open>n\<close> bytes at \<open>a\<close> covers holds the bytes at those addresses.\<close>

lemma unit_bytes:
  assumes wf: "storage_wf s" and u: "sto_data s (a - a mod sto_unitSize s) = Some u"
    and n: "n \<le> unat (sto_unitSize s) - unat a mod unat (sto_unitSize s)" "unat a + n \<le> 2 ^ 64 - 1"
  shows "take n (drop (unat (a mod sto_unitSize s)) u) = map (\<lambda>i. byte_at s (a + of_nat i)) [0..<n]"
proof (rule nth_equalityI)
  have nz: "sto_unitSize s \<noteq> 0" and len: "length u = unat (sto_unitSize s)"
    using wf u by (auto simp: storage_wf_def)
  note m = unat_mod_less [OF nz, of a]
  show l: "length (take n (drop (unat (a mod sto_unitSize s)) u)) =
      length (map (\<lambda>i. byte_at s (a + of_nat i)) [0..<n])"
    using len n m by (simp add: unat_mod)
  fix i
  assume "i < length (take n (drop (unat (a mod sto_unitSize s)) u))"
  then have i: "i < n" using l by simp
  with n have j: "i < unat (sto_unitSize s) - unat a mod unat (sto_unitSize s)" "unat a + i < 2 ^ 64"
    by auto
  have "byte_at s (a + of_nat i) = u ! (unat a mod unat (sto_unitSize s) + i)"
    unfolding byte_at_def same_unit [OF nz j] u by simp
  with i len n m
  show "take n (drop (unat (a mod sto_unitSize s)) u) ! i = map (\<lambda>i. byte_at s (a + of_nat i)) [0..<n] ! i"
    by (simp add: unat_mod)
qed

section \<open>Read\<close>

lemma read_loop_spec:
  "storage_wf s \<Longrightarrow> in_range s a (unat left) \<Longrightarrow> unat off + unat left = length res \<Longrightarrow>
   length res < 2 ^ 64 \<Longrightarrow> unat left < fuel \<Longrightarrow>
   \<exists>s'. read_loop fuel (a + left) s a left off res =
          Some (Inr (s', Inr (take (unat off) res @ map (\<lambda>i. byte_at s (a + of_nat i)) [0..<unat left]))) \<and>
        storage_wf s' \<and> byte_at s' = byte_at s \<and> sto_Capacity s' = sto_Capacity s"
proof (induction fuel arbitrary: s a left off res)
  case 0
  then show ?case by simp
next
  case (Suc fuel)
  let ?U = "sto_unitSize s" and ?C = "sto_Capacity s"
  have bound: "unat a + unat left \<le> unat ?C" "unat ?C < 2 ^ 64"
    using Suc.prems(2) unat_lt64 [of ?C] by (auto simp: in_range_def)
  show ?case
  proof (cases "unat left = 0")
    case True
    then have "left = 0" by (simp add: unat_eq_0)
    with Suc.prems show ?thesis by simp
  next
    case False
    have endA: "unat (a + left) = unat a + unat left"
      using bound unat_word_add2 [of a left] by simp
    have more: "a < a + left" using endA False by (simp add: word_less_nat_alt)
    have "a \<le> ?C" using bound by (simp add: word_le_nat_alt)
    then obtain s1 u where s1: "createOrGetStorageUnit s a = Inr (s1, Inr u)" "storage_wf s1"
        "sto_Capacity s1 = ?C" "sto_unitSize s1 = ?U" "sto_data s1 (a - a mod ?U) = Some u"
        "length u = unat ?U" "byte_at s1 = byte_at s"
      using createOrGet_spec [OF Suc.prems(1)] by blast
    define rest where "rest = a - a mod ?U + ?U - a"
    define m where "m = (if left < rest then left else rest)"
    have nz: "?U \<noteq> 0" using Suc.prems(1) by (simp add: storage_wf_def)
    have rest: "unat rest = unat ?U - unat a mod unat ?U" "0 < unat rest"
      using unit_rest(1) [OF nz, of a] unat_mod_less [OF nz, of a] by (auto simp: rest_def)
    have m: "unat m \<le> unat rest" "0 < unat m" "unat m \<le> unat left"
      using False rest by (auto simp: m_def word_less_nat_alt)
    let ?res = "copy_at res (unat off) (take (unat m) (drop (unat (a mod ?U)) u))"
    have chunk: "take (unat m) (drop (unat (a mod ?U)) u) = map (\<lambda>i. byte_at s (a + of_nat i)) [0..<unat m]"
      using unit_bytes [OF s1(2), of a u "unat m"] s1 m rest bound by simp
    have am: "unat (a + m) = unat a + unat m" using bound m(3) unat_word_add2 [of a m] by simp
    have lm: "unat (left - m) = unat left - unat m" using m by (simp add: unat_sub word_le_nat_alt)
    have om: "unat (off + m) = unat off + unat m"
      using Suc.prems(3,4) m(3) unat_word_add2 [of off m] by simp
    have res: "length ?res = length res" using Suc.prems(3) m chunk by simp
    have fuel: "unat left - unat m < fuel" using Suc.prems(5) m by linarith
    obtain s2 where s2: "read_loop fuel (a + m + (left - m)) s1 (a + m) (left - m) (off + m) ?res =
        Some (Inr (s2, Inr (take (unat (off + m)) ?res @
          map (\<lambda>i. byte_at s1 (a + m + of_nat i)) [0..<unat (left - m)])))"
        "storage_wf s2" "byte_at s2 = byte_at s1" "sto_Capacity s2 = sto_Capacity s1"
      using Suc.IH [OF s1(2), of "a + m" "left - m" "off + m" ?res] s1(3) bound am lm om m res fuel Suc.prems(3,4)
      by (auto simp: in_range_def)
    have "take (unat (off + m)) ?res = take (unat off) res @ map (\<lambda>i. byte_at s (a + of_nat i)) [0..<unat m]"
      using chunk om m Suc.prems(3) by (simp add: copy_at_def)
    moreover have "map (\<lambda>i. byte_at s (a + of_nat i)) [0..<unat m] @
        map (\<lambda>i. byte_at s (a + m + of_nat i)) [0..<unat (left - m)] =
        map (\<lambda>i. byte_at s (a + of_nat i)) [0..<unat left]"
      using m lm by (simp add: map_upt_split [of "unat m" "unat left"] add.assoc)
    moreover have "read_loop (Suc fuel) (a + left) s a left off res =
        read_loop fuel (a + m + (left - m)) s1 (a + m) (left - m) (off + m) ?res"
      using more s1 by (simp add: parseAddress_ok Let_def m_def rest_def)
    ultimately show ?thesis using s2 s1 by simp
  qed
qed

section \<open>Write\<close>

lemma unat_div_mult_mod: "unat (x - x mod u) = unat x - unat x mod unat (u::u64)"
  by (simp add: unat_sub word_le_nat_alt unat_mod)

text \<open>Overwriting the covered part of one unit changes exactly the bytes at those addresses.\<close>

lemma byte_at_write_unit:
  assumes wf: "storage_wf s" and u: "sto_data s (a - a mod sto_unitSize s) = Some u"
    and chunk: "length chunk \<le> unat (sto_unitSize s) - unat a mod unat (sto_unitSize s)"
      "unat a + length chunk \<le> 2 ^ 64 - 1"
    and s': "s' = s\<lparr>sto_data := (sto_data s)
       (a - a mod sto_unitSize s \<mapsto> copy_at u (unat (a mod sto_unitSize s)) chunk)\<rparr>"
  shows "byte_at s' x = (if unat a \<le> unat x \<and> unat x < unat a + length chunk
                         then chunk ! (unat x - unat a) else byte_at s x)"
    and "storage_wf s'"
proof -
  let ?U = "sto_unitSize s"
  have nz: "?U \<noteq> 0" and len: "length u = unat ?U" using wf u by (auto simp: storage_wf_def)
  note modx = unat_mod_less [OF nz, of x] and moda = unat_mod_less [OF nz, of a]
  have fits: "unat (a mod ?U) + length chunk \<le> length u"
    using chunk len moda by (simp add: unat_mod)
  show "storage_wf s'" using wf len fits by (auto simp: storage_wf_def s')
  show "byte_at s' x = (if unat a \<le> unat x \<and> unat x < unat a + length chunk
                         then chunk ! (unat x - unat a) else byte_at s x)"
  proof (cases "x - x mod ?U = a - a mod ?U")
    case True
    then have eq: "unat x - unat x mod unat ?U = unat a - unat a mod unat ?U"
      by (metis unat_div_mult_mod)
    have le: "unat x mod unat ?U \<le> unat x" "unat a mod unat ?U \<le> unat a" by simp_all
    have "byte_at s' x = copy_at u (unat (a mod ?U)) chunk ! unat (x mod ?U)"
      using True by (simp add: byte_at_def s')
    also have "\<dots> = (if unat a mod unat ?U \<le> unat x mod unat ?U \<and>
          unat x mod unat ?U < unat a mod unat ?U + length chunk
        then chunk ! (unat x mod unat ?U - unat a mod unat ?U) else u ! (unat x mod unat ?U))"
      using nth_copy_at [OF fits, of "unat (x mod ?U)"] modx len by (simp add: unat_mod)
    also have "\<dots> = (if unat a \<le> unat x \<and> unat x < unat a + length chunk
        then chunk ! (unat x - unat a) else u ! (unat x mod unat ?U))"
    proof -
      have "unat x - unat a = unat x mod unat ?U - unat a mod unat ?U"
        "unat a \<le> unat x \<longleftrightarrow> unat a mod unat ?U \<le> unat x mod unat ?U"
        "unat x < unat a + length chunk \<longleftrightarrow> unat x mod unat ?U < unat a mod unat ?U + length chunk"
        using eq le by linarith+
      then show ?thesis by simp
    qed
    also have "u ! (unat x mod unat ?U) = byte_at s x"
      using True u by (simp add: byte_at_def unat_mod)
    finally show ?thesis .
  next
    case False
    have "\<not> (unat a \<le> unat x \<and> unat x < unat a + length chunk)"
    proof
      assume "unat a \<le> unat x \<and> unat x < unat a + length chunk"
      then obtain j where j: "unat x = unat a + j" "j < length chunk"
        by (metis le_add_diff_inverse nat_add_left_cancel_less)
      then have "x = a + of_nat j"
        using unat_lt64 [of x] unat_word_add [of a j] by (simp add: word_unat_eq_iff)
      moreover have "j < unat ?U - unat a mod unat ?U" "unat a + j < 2 ^ 64"
        using j chunk by auto
      ultimately show False using False same_unit(2) [OF nz] by blast
    qed
    with False show ?thesis by (auto simp: byte_at_def s' split: option.split)
  qed
qed

lemma write_loop_spec:
  "storage_wf s \<Longrightarrow> in_range s a (length data - unat off) \<Longrightarrow> unat off \<le> length data \<Longrightarrow>
   length data < 2 ^ 64 \<Longrightarrow> length data - unat off < fuel \<Longrightarrow>
   \<exists>s'. write_loop fuel data s a off = Some (Inr (s', Inr ())) \<and>
        storage_wf s' \<and> sto_Capacity s' = sto_Capacity s \<and>
        (\<forall>x. byte_at s' x = (if unat a \<le> unat x \<and> unat x < unat a + (length data - unat off)
                             then data ! (unat off + (unat x - unat a)) else byte_at s x))"
proof (induction fuel arbitrary: s a off)
  case 0
  then show ?case by simp
next
  case (Suc fuel)
  let ?U = "sto_unitSize s" and ?C = "sto_Capacity s"
  define left :: u64 where "left = of_nat (length data) - off"
  have ld: "unat (of_nat (length data) :: u64) = length data"
    using Suc.prems(4) by (simp add: unat_of_nat)
  then have left: "unat left = length data - unat off"
    using Suc.prems(3) by (simp add: left_def unat_sub word_le_nat_alt)
  have bound: "unat a + unat left \<le> unat ?C" "unat ?C < 2 ^ 64"
    using Suc.prems(2) left unat_lt64 [of ?C] by (auto simp: in_range_def)
  show ?case
  proof (cases "off < of_nat (length data)")
    case False
    then have "length data - unat off = 0" using ld by (simp add: word_less_nat_alt)
    with Suc.prems False show ?thesis by auto
  next
    case True
    then have pos: "0 < unat left" using left ld by (simp add: word_less_nat_alt)
    have "a \<le> ?C" using bound by (simp add: word_le_nat_alt)
    then obtain s1 u where s1: "createOrGetStorageUnit s a = Inr (s1, Inr u)" "storage_wf s1"
        "sto_Capacity s1 = ?C" "sto_unitSize s1 = ?U" "sto_data s1 (a - a mod ?U) = Some u"
        "length u = unat ?U" "byte_at s1 = byte_at s"
      using createOrGet_spec [OF Suc.prems(1)] by blast
    define rest where "rest = a div ?U * ?U + ?U - a"
    define m where "m = (if left < rest then left else rest)"
    define chunk where "chunk = take (unat m) (drop (unat off) data)"
    define s2 where "s2 = s1\<lparr>sto_data := (sto_data s1)(a - a mod ?U \<mapsto> copy_at u (unat (a mod ?U)) chunk)\<rparr>"
    have nz: "?U \<noteq> 0" using Suc.prems(1) by (simp add: storage_wf_def)
    have rest: "unat rest = unat ?U - unat a mod unat ?U" "0 < unat rest"
      unfolding rest_def unit_rest(2) [OF nz]
      using unit_rest(1) [OF nz, of a] unat_mod_less [OF nz, of a] by auto
    have m: "unat m \<le> unat rest" "0 < unat m" "unat m \<le> unat left"
      using pos rest by (auto simp: m_def word_less_nat_alt)
    have lc: "length chunk = unat m" using m left by (simp add: chunk_def)
    have s2: "storage_wf s2" "byte_at s2 x = (if unat a \<le> unat x \<and> unat x < unat a + unat m
        then chunk ! (unat x - unat a) else byte_at s x)" "sto_Capacity s2 = ?C" for x
      using byte_at_write_unit [OF s1(2), of a u chunk s2] s1 lc m rest bound by (auto simp: s2_def)
    have am: "unat (a + m) = unat a + unat m" using bound m(3) unat_word_add2 [of a m] by simp
    have om: "unat (off + m) = unat off + unat m"
      using Suc.prems(3,4) m(3) left unat_word_add2 [of off m] by simp
    have fuel: "length data - (unat off + unat m) < fuel" "unat off + unat m \<le> length data"
      using Suc.prems(3,5) m left by linarith+
    obtain s3 where s3: "write_loop fuel data s2 (a + m) (off + m) = Some (Inr (s3, Inr ()))"
        "storage_wf s3" "sto_Capacity s3 = ?C"
        "\<forall>x. byte_at s3 x = (if unat (a + m) \<le> unat x \<and> unat x < unat (a + m) + (length data - unat (off + m))
             then data ! (unat (off + m) + (unat x - unat (a + m))) else byte_at s2 x)"
      using Suc.IH [OF s2(1), of "a + m" "off + m"] s2(3) am om m left bound fuel Suc.prems(4)
      by (auto simp: in_range_def)
    have "byte_at s3 x = (if unat a \<le> unat x \<and> unat x < unat a + (length data - unat off)
        then data ! (unat off + (unat x - unat a)) else byte_at s x)" for x
      using s3(4) s2(2) [of x] am om m left by (auto simp: chunk_def)
    moreover have "write_loop (Suc fuel) data s a off = write_loop fuel data s2 (a + m) (off + m)"
      using True s1 by (simp add: parseAddress_ok Let_def m_def rest_def left_def s2_def chunk_def)
    ultimately show ?thesis using s3 by auto
  qed
qed

section \<open>Properties\<close>

lemma storage_Read_spec:
  assumes "storage_wf s" "in_range s a (unat n)"
  shows "\<exists>s'. storage_Read s a n = Some (Inr (s', Inr (map (\<lambda>i. byte_at s (a + of_nat i)) [0..<unat n]))) \<and>
     storage_wf s' \<and> byte_at s' = byte_at s \<and> sto_Capacity s' = sto_Capacity s"
  using read_loop_spec [OF assms, of 0 "replicate (unat n) 0" "Suc (unat n)"] unat_lt64 [of n]
  by (simp add: storage_Read_def)

lemma in_range_length: "in_range s a n \<Longrightarrow> n < 2 ^ 64"
  using unat_lt64 [of "sto_Capacity s"] by (simp add: in_range_def)

lemma storage_Write_spec:
  assumes "storage_wf s" "in_range s a (length data)"
  shows "\<exists>s'. storage_Write s a data = Some (Inr (s', Inr ())) \<and> storage_wf s' \<and> sto_Capacity s' = sto_Capacity s \<and>
     (\<forall>x. byte_at s' x = (if unat a \<le> unat x \<and> unat x < unat a + length data then data ! (unat x - unat a) else byte_at s x))"
  using write_loop_spec [OF assms(1), of a data 0 "Suc (length data)"] assms(2) in_range_length [OF assms(2)]
  by (auto simp: storage_Write_def)

text \<open>
  Claim C8. What was written is what is read back: after a write inside the capacity, a
  read of the same range returns the data, and a read of a range that does not overlap
  returns what it did before.
\<close>

theorem storage_read_after_write:
  assumes wf: "storage_wf s" and r: "in_range s a (length data)" and r': "in_range s b (unat n)"
    and apart: "unat b + unat n \<le> unat a \<or> unat a + length data \<le> unat b"
  shows "\<exists>s1 s2 s3. storage_Write s a data = Some (Inr (s1, Inr ())) \<and>
     storage_Read s1 a (of_nat (length data)) = Some (Inr (s2, Inr data)) \<and>
     storage_Read s1 b n =
       Some (Inr (s3, Inr (map (\<lambda>i. byte_at s (b + of_nat i)) [0..<unat n])))"
proof -
  have len: "length data < 2 ^ 64" by (rule in_range_length [OF r])
  obtain s1 where s1: "storage_Write s a data = Some (Inr (s1, Inr ()))" "storage_wf s1"
      "sto_Capacity s1 = sto_Capacity s"
      "\<And>x. byte_at s1 x = (if unat a \<le> unat x \<and> unat x < unat a + length data
                          then data ! (unat x - unat a) else byte_at s x)"
    using storage_Write_spec [OF wf r] by blast
  have at: "unat (c + of_nat i) = unat c + i" if "in_range s c k" "i < k" for c i k
    using that unat_lt64 [of "sto_Capacity s"] by (intro unat_word_add) (auto simp: in_range_def)
  have "map (\<lambda>i. byte_at s1 (a + of_nat i)) [0..<length data] = data"
    by (rule nth_equalityI) (simp_all add: s1(4) at [OF r])
  moreover have "map (\<lambda>i. byte_at s1 (b + of_nat i)) [0..<unat n] =
      map (\<lambda>i. byte_at s (b + of_nat i)) [0..<unat n]"
    using apart by (auto simp: s1(4) at [OF r'])
  moreover have "unat (of_nat (length data) :: u64) = length data" using len by (simp add: unat_of_nat)
  ultimately show ?thesis
    using storage_Read_spec [OF s1(2), of a "of_nat (length data)"] storage_Read_spec [OF s1(2), of b n]
      r r' s1(1,3) by (auto simp: in_range_def)
qed

text \<open>A storage of 64 bytes has units of 4 bytes: the accesses below cross unit borders.\<close>

lemma NewStorage_64: "storage_wf (NewStorage 64)" "in_range (NewStorage 64) 2 6" "in_range (NewStorage 64) 20 9"
  by (rule NewStorage_wf, simp) (simp_all add: in_range_def NewStorage_def)

theorem storage_read_after_write_witness:
  "\<exists>s1 s2 s3. storage_Write (NewStorage 64) 2 [1, 2, 3, 4, 5, 6] = Some (Inr (s1, Inr ())) \<and>
     storage_Read s1 2 6 = Some (Inr (s2, Inr [1, 2, 3, 4, 5, 6])) \<and>
     storage_Read s1 20 9 =
       Some (Inr (s3, Inr (map (\<lambda>i. byte_at (NewStorage 64) (20 + of_nat i)) [0..<unat (9::u64)])))"
  using storage_read_after_write [OF NewStorage_64(1), of 2 "[1, 2, 3, 4, 5, 6]" 20 9] NewStorage_64
  by (simp add: in_range_def NewStorage_def)

text \<open>
  The capacity check is off by one: the address right behind the last byte
  passes it, so on every well-formed storage a one-byte write there succeeds instead of
  returning the error, and the byte is stored.
\<close>

theorem storage_Write_at_capacity:
  assumes "storage_wf s"
  shows "\<exists>s'. storage_Write s (sto_Capacity s) [v] = Some (Inr (s', Inr ())) \<and>
              byte_at s' (sto_Capacity s) = v"
proof -
  let ?a = "sto_Capacity s" and ?U = "sto_unitSize s"
  have nz: "?U \<noteq> 0" using assms by (simp add: storage_wf_def)
  obtain s1 u where s1: "createOrGetStorageUnit s ?a = Inr (s1, Inr u)" "storage_wf s1"
      "sto_unitSize s1 = ?U" "sto_data s1 (?a - ?a mod ?U) = Some u" "length u = unat ?U"
    using createOrGet_spec [OF assms order_refl] by blast
  have r: "unat (?a div ?U * ?U + ?U - ?a) = unat ?U - unat ?a mod unat ?U"
    unfolding unit_rest(2) [OF nz] by (rule unit_rest(1) [OF nz])
  have one: "(if (1::u64) < ?a div ?U * ?U + ?U - ?a then 1 else ?a div ?U * ?U + ?U - ?a) = 1"
    using r unat_mod_less [OF nz, of ?a] by (auto simp: word_less_nat_alt word_unat_eq_iff not_less)
  let ?s = "s1\<lparr>sto_data := (sto_data s1)(?a - ?a mod ?U \<mapsto> copy_at u (unat (?a mod ?U)) [v])\<rparr>"
  have "storage_Write s ?a [v] = Some (Inr (?s, Inr ()))"
    using s1 one by (simp add: storage_Write_def parseAddress_ok Let_def)
  moreover have "unat ?a mod unat ?U < length u" using unat_mod_less [OF nz] s1(5) by simp
  then have "byte_at ?s ?a = v"
    using s1(3) nth_copy_at [of "unat (?a mod ?U)" "[v]" u "unat (?a mod ?U)"] by (simp add: byte_at_def unat_mod)
  ultimately show ?thesis by blast
qed

theorem storage_Write_at_capacity_witness:
  "\<exists>s'. storage_Write (NewStorage 64) 64 [7] = Some (Inr (s', Inr ())) \<and> byte_at s' 64 = 7"
  using storage_Write_at_capacity [OF NewStorage_64(1), of 7] by (simp add: NewStorage_def)

end
