(* ===== verification/Cache_Directory.thy ===== *)
theory Cache_Directory
  imports Prelude
begin

text \<open>
  The cache directories: \<^verbatim>\<open>mem/cache/directory.go\<close>, \<^verbatim>\<open>mem/cache/victimfinder.go\<close> and
  \<^verbatim>\<open>mem/cache/pagewalkcachedirectory.go\<close>.

  Blocks are shared by pointer between a set's block array, its LRU queue and the
  caller, so the directory carries an explicit store: a \<^verbatim>\<open>*Block\<close> is an index of
  \<open>dir_heap\<close>. The LRU queue is a Go slice with its backing array, because \<^verbatim>\<open>Visit\<close> takes
  a copy of the \<^verbatim>\<open>Set\<close> struct and its assignments to \<^verbatim>\<open>set.LRUQueue\<close> reach the directory only
  through the shared array.

  The lemmas show that this is enough: a visit moves the block to the end of its set's
  queue (\<open>Visit_moves_to_end\<close>), a history of visits orders the queue by last use, the
  victim is the least recently used block among those of the best class, filling the
  victim makes the address hit, and the frames of the blocks tile the cache.
\<close>

unbundle bit_operations_syntax

section \<open>Data\<close>

record Block =
  PID :: u32
  Tag :: u64
  WayID :: nat
  SetID :: nat
  CacheAddress :: u64
  IsValid :: bool
  IsDirty :: bool
  ReadCount :: int
  IsLocked :: bool
  DirtyMask :: "bool list"
  SectorValid :: "bool list"
  SectorDirty :: "bool list"

type_synonym block_ptr = nat

record cache_set =
  Blocks :: "block_ptr list"
  LRUQueue :: "block_ptr go_slice"

type_synonym victim_finder_fn = "Block list \<Rightarrow> cache_set \<Rightarrow> block_ptr result"

record directory =
  NumSets :: nat
  NumWays :: nat
  BlockSize :: nat
  Sets :: "cache_set list"
  dir_heap :: "Block list"

section \<open>Operations of \<^verbatim>\<open>DirectoryImpl\<close>\<close>

definition newBlock :: "directory \<Rightarrow> nat \<Rightarrow> nat \<Rightarrow> Block" where
  "newBlock d i j =
     \<lparr>PID = 0, Tag = 0, WayID = j, SetID = i,
      CacheAddress = of_nat (i * NumWays d + j) * of_nat (BlockSize d),
      IsValid = False, IsDirty = False, ReadCount = 0, IsLocked = False,
      DirtyMask = [], SectorValid = [], SectorDirty = []\<rparr>"

definition add_way ::
    "(nat \<Rightarrow> nat) \<Rightarrow> directory \<Rightarrow> nat \<Rightarrow> Block list \<times> cache_set \<Rightarrow> nat \<Rightarrow> Block list \<times> cache_set" where
  "add_way spare d i hs j =
     (let p = length (fst hs); st = snd hs
      in (fst hs @ [newBlock d i j],
          st\<lparr>Blocks := Blocks st @ [p], LRUQueue := sl_append 0 spare (LRUQueue st) p\<rparr>))"

definition add_set ::
    "(nat \<Rightarrow> nat) \<Rightarrow> directory \<Rightarrow> Block list \<times> cache_set list \<Rightarrow> nat \<Rightarrow> Block list \<times> cache_set list" where
  "add_set spare d hs i =
     (let r = foldl (add_way spare d i) (fst hs, \<lparr>Blocks = [], LRUQueue = sl_nil\<rparr>) [0..<NumWays d]
      in (fst r, snd hs @ [snd r]))"

definition Reset :: "(nat \<Rightarrow> nat) \<Rightarrow> directory \<Rightarrow> directory" where
  "Reset spare d =
     (let r = foldl (add_set spare d) (dir_heap d, []) [0..<NumSets d]
      in d\<lparr>dir_heap := fst r, Sets := snd r\<rparr>)"

definition NewDirectory :: "(nat \<Rightarrow> nat) \<Rightarrow> nat \<Rightarrow> nat \<Rightarrow> nat \<Rightarrow> directory" where
  "NewDirectory spare numSet way blockSize =
     Reset spare \<lparr>NumSets = numSet, NumWays = way, BlockSize = blockSize, Sets = [], dir_heap = []\<rparr>"

definition TotalSize :: "directory \<Rightarrow> u64" where
  "TotalSize d = of_nat (NumSets d) * of_nat (NumWays d) * of_nat (BlockSize d)"

definition WayAssociativity :: "directory \<Rightarrow> nat" where
  "WayAssociativity d = NumWays d"

definition getSet :: "directory \<Rightarrow> u64 \<Rightarrow> (cache_set \<times> nat) result" where
  "getSet d reqAddr =
     (if (of_nat (BlockSize d) :: u64) = 0 \<or> (of_nat (NumSets d) :: u64) = 0 then Inl DivideByZero
      else let setID = unat (reqAddr div of_nat (BlockSize d) mod of_nat (NumSets d))
           in bindR (slice_get (Sets d) setID) (\<lambda>st. Inr (st, setID)))"

definition block_at :: "directory \<Rightarrow> block_ptr \<Rightarrow> Block" where
  "block_at d p = dir_heap d ! p"

definition Lookup :: "directory \<Rightarrow> u32 \<Rightarrow> u64 \<Rightarrow> block_ptr option result" where
  "Lookup d pid reqAddr =
     bindR (getSet d reqAddr) (\<lambda>(st, setID).
       Inr (find (\<lambda>p. IsValid (block_at d p) \<and> Tag (block_at d p) = reqAddr \<and> PID (block_at d p) = pid)
              (Blocks st)))"

definition LRUVictimFinder_FindVictim :: victim_finder_fn where
  "LRUVictimFinder_FindVictim heap st =
     (case find (\<lambda>p. \<not> IsValid (heap ! p) \<and> \<not> IsLocked (heap ! p)) (sl_view (LRUQueue st)) of
        Some p \<Rightarrow> Inr p
      | None \<Rightarrow> (case find (\<lambda>p. \<not> IsLocked (heap ! p)) (sl_view (LRUQueue st)) of
                   Some p \<Rightarrow> Inr p
                 | None \<Rightarrow> slice_get (sl_view (LRUQueue st)) 0))"

definition FindVictim :: "victim_finder_fn \<Rightarrow> directory \<Rightarrow> u64 \<Rightarrow> block_ptr result" where
  "FindVictim victimFinder d addr =
     bindR (getSet d addr) (\<lambda>(st, setID). victimFinder (dir_heap d) st)"

text \<open>
  \<^verbatim>\<open>set := d.Sets[block.SetID]\<close> copies the struct: the new header with its new length is
  dropped at the end, and only what \<^verbatim>\<open>append\<close> wrote into the shared array stays.
\<close>

definition visit_queue :: "block_ptr go_slice \<Rightarrow> block_ptr \<Rightarrow> block_ptr go_slice" where
  "visit_queue q p =
     (let q1 = (case find_index ((=) p) (sl_view q) of Some i \<Rightarrow> sl_cut i q | None \<Rightarrow> q);
          arr = (if sl_len q1 < length (sl_array q1) then (sl_array q1)[sl_len q1 := p] else sl_array q1)
      in q\<lparr>sl_array := arr\<rparr>)"

definition Visit :: "directory \<Rightarrow> block_ptr \<Rightarrow> directory result" where
  "Visit d p =
     (if p < length (dir_heap d) then
        let setID = SetID (block_at d p)
        in bindR (slice_get (Sets d) setID) (\<lambda>st.
             Inr (d\<lparr>Sets := (Sets d)[setID := st\<lparr>LRUQueue := visit_queue (LRUQueue st) p\<rparr>]\<rparr>))
      else Inl NilDereference)"

text \<open>
  What the cache stages do with a victim once it is theirs (the assignments to the
  block in \<^verbatim>\<open>writeback/directorystage.go\<close>): it is locked, retagged and made valid.
\<close>

definition fill_block :: "directory \<Rightarrow> block_ptr \<Rightarrow> u32 \<Rightarrow> u64 \<Rightarrow> directory" where
  "fill_block d p pid cacheLineID =
     d\<lparr>dir_heap := (dir_heap d)[p := (block_at d p)\<lparr>IsLocked := True, Tag := cacheLineID, PID := pid, IsValid := True\<rparr>]\<rparr>"

section \<open>The invariant\<close>

definition set_wf :: "Block list \<Rightarrow> nat \<Rightarrow> nat \<Rightarrow> cache_set \<Rightarrow> bool" where
  "set_wf h ways i st \<longleftrightarrow>
     length (Blocks st) = ways \<and> distinct (Blocks st) \<and>
     (\<forall>p \<in> set (Blocks st). p < length h \<and> SetID (h ! p) = i) \<and>
     mset (sl_view (LRUQueue st)) = mset (Blocks st) \<and> sl_wf (LRUQueue st)"

definition dir_wf :: "directory \<Rightarrow> bool" where
  "dir_wf d \<longleftrightarrow> length (Sets d) = NumSets d \<and>
     (\<forall>i < NumSets d. set_wf (dir_heap d) (NumWays d) i (Sets d ! i))"

definition geometry_ok :: "directory \<Rightarrow> bool" where
  "geometry_ok d \<longleftrightarrow> 0 < NumSets d \<and> NumSets d < 2 ^ 64 \<and> 0 < BlockSize d \<and> BlockSize d < 2 ^ 64"

definition set_index :: "directory \<Rightarrow> u64 \<Rightarrow> nat" where
  "set_index d a = unat a div BlockSize d mod NumSets d"

lemma of_nat_u64_eq_0:
  assumes "0 < n" "n < 2 ^ 64"
  shows "(of_nat n :: u64) \<noteq> 0"
proof
  assume "(of_nat n :: u64) = 0"
  then have "unat (of_nat n :: u64) = 0" by simp
  then show False using assms by (simp add: unat_of_nat)
qed

lemma getSet_ok:
  assumes "geometry_ok d" "length (Sets d) = NumSets d"
  shows "getSet d a = Inr (Sets d ! set_index d a, set_index d a)" "set_index d a < NumSets d"
proof -
  have n: "unat (of_nat (BlockSize d) :: u64) = BlockSize d" "unat (of_nat (NumSets d) :: u64) = NumSets d"
    using assms by (auto simp: geometry_ok_def unat_of_nat)
  show lt: "set_index d a < NumSets d" using assms by (simp add: set_index_def geometry_ok_def)
  have "unat (a div of_nat (BlockSize d) mod of_nat (NumSets d)) = set_index d a"
    by (simp add: set_index_def unat_div_distrib unat_mod_distrib n)
  then show "getSet d a = Inr (Sets d ! set_index d a, set_index d a)"
    using assms lt by (simp add: getSet_def of_nat_u64_eq_0 geometry_ok_def Let_def)
qed

section \<open>Reset builds a well-formed directory\<close>

lemma add_ways_effect:
  assumes "sl_wf (LRUQueue st)"
  shows "fst (foldl (add_way spare d i) (h, st) [0..<n]) = h @ map (newBlock d i) [0..<n]"
    and "Blocks (snd (foldl (add_way spare d i) (h, st) [0..<n])) = Blocks st @ [length h..<length h + n]"
    and "sl_view (LRUQueue (snd (foldl (add_way spare d i) (h, st) [0..<n]))) =
           sl_view (LRUQueue st) @ [length h..<length h + n]"
    and "sl_wf (LRUQueue (snd (foldl (add_way spare d i) (h, st) [0..<n])))"
  using assms by (induction n) (simp_all add: add_way_def Let_def)

definition frames :: "directory \<Rightarrow> nat \<Rightarrow> Block list" where
  "frames d n = concat (map (\<lambda>i. map (newBlock d i) [0..<NumWays d]) [0..<n])"

lemma length_frames [simp]: "length (frames d n) = n * NumWays d"
  by (induction n) (simp_all add: frames_def)

lemma frames_nth:
  "i < n \<Longrightarrow> j < NumWays d \<Longrightarrow> frames d n ! (i * NumWays d + j) = newBlock d i j"
proof (induction n)
  case 0
  then show ?case by simp
next
  case (Suc n)
  have app: "frames d (Suc n) = frames d n @ map (newBlock d n) [0..<NumWays d]"
    by (simp add: frames_def)
  show ?case
  proof (cases "i < n")
    case True
    have "i * NumWays d + j < Suc i * NumWays d" using Suc.prems by simp
    also have "\<dots> \<le> n * NumWays d" using True by (intro mult_le_mono1) simp
    finally show ?thesis using True Suc by (simp add: app nth_append)
  next
    case False
    then have "i = n" using Suc.prems by simp
    then show ?thesis using Suc.prems by (simp add: app nth_append)
  qed
qed

definition set_blocks :: "directory \<Rightarrow> nat \<Rightarrow> nat \<Rightarrow> nat list" where
  "set_blocks d h0 i = [h0 + i * NumWays d..<h0 + Suc i * NumWays d]"

lemma add_sets_effect:
  defines "r \<equiv> \<lambda>spare d h n. foldl (add_set spare d) (h, []) [0..<n]"
  shows "fst (r spare d h n) = h @ frames d n"
    and "length (snd (r spare d h n)) = n"
    and "i < n \<Longrightarrow> Blocks (snd (r spare d h n) ! i) = set_blocks d (length h) i"
    and "i < n \<Longrightarrow> sl_view (LRUQueue (snd (r spare d h n) ! i)) = set_blocks d (length h) i"
    and "i < n \<Longrightarrow> sl_wf (LRUQueue (snd (r spare d h n) ! i))"
proof (induction n)
  case 0
  { case 1 then show ?case by (simp add: r_def frames_def) }
  { case 2 then show ?case by (simp add: r_def) }
  { case 3 then show ?case by simp }
  { case 4 then show ?case by simp }
  { case 5 then show ?case by simp }
next
  case (Suc n)
  let ?e = "\<lparr>Blocks = [], LRUQueue = sl_nil\<rparr>"
  have w: "sl_wf (LRUQueue ?e)" by simp
  have step: "r spare d h (Suc n) = add_set spare d (r spare d h n) n"
    by (simp add: r_def)
  note eff = add_ways_effect [OF w, of spare d n]
  have len: "length h + n * NumWays d + NumWays d = length h + Suc n * NumWays d" by simp
  { case 1 then show ?case by (simp add: step add_set_def Let_def eff Suc frames_def) }
  { case 2 then show ?case by (simp add: step add_set_def Let_def Suc) }
  { case 3 then show ?case using Suc
      by (auto simp: step add_set_def Let_def nth_append eff set_blocks_def less_Suc_eq algebra_simps) }
  { case 4 then show ?case using Suc
      by (auto simp: step add_set_def Let_def nth_append eff set_blocks_def less_Suc_eq algebra_simps) }
  { case 5 then show ?case using Suc
      by (auto simp: step add_set_def Let_def nth_append eff less_Suc_eq) }
qed

lemma Reset_wf: "dir_wf (Reset spare d)"
proof -
  let ?r = "foldl (add_set spare d) (dir_heap d, []) [0..<NumSets d]"
  let ?h0 = "length (dir_heap d)"
  have "set_wf (fst ?r) (NumWays d) i (snd ?r ! i)" if i: "i < NumSets d" for i
  proof -
    have le: "Suc i * NumWays d \<le> NumSets d * NumWays d"
      using i by (intro mult_le_mono1) simp
    have "p < length (fst ?r) \<and> SetID (fst ?r ! p) = i" if p: "p \<in> set (set_blocks d ?h0 i)" for p
    proof -
      define j where "j = p - (?h0 + i * NumWays d)"
      have j: "p = ?h0 + (i * NumWays d + j)" "j < NumWays d"
        using p by (auto simp: set_blocks_def j_def)
      show ?thesis using j le i frames_nth [OF i j(2)]
        by (simp add: add_sets_effect nth_append newBlock_def)
    qed
    then show ?thesis using i
      by (auto simp: set_wf_def add_sets_effect set_blocks_def)
  qed
  then show ?thesis by (simp add: dir_wf_def Reset_def Let_def add_sets_effect)
qed

lemma Reset_geometry [simp]:
  "NumSets (Reset spare d) = NumSets d" "NumWays (Reset spare d) = NumWays d"
  "BlockSize (Reset spare d) = BlockSize d"
  by (simp_all add: Reset_def Let_def)

section \<open>Visits\<close>

definition queue_of :: "directory \<Rightarrow> nat \<Rightarrow> block_ptr list" where
  "queue_of d i = sl_view (LRUQueue (Sets d ! i))"

definition move_to_end :: "'a \<Rightarrow> 'a list \<Rightarrow> 'a list" where
  "move_to_end x xs = removeAll x xs @ [x]"

lemma remove_at_distinct:
  assumes "distinct xs" "i < length xs"
  shows "remove_at i xs = removeAll (xs ! i) xs"
  using assms
proof (induction xs arbitrary: i)
  case Nil
  then show ?case by simp
next
  case (Cons x xs)
  then show ?case by (cases i) (auto simp: removeAll_id)
qed

lemma visit_queue_view:
  assumes q: "sl_wf q" "distinct (sl_view q)" "p \<in> set (sl_view q)"
  shows "sl_view (visit_queue q p) = move_to_end p (sl_view q)" "sl_wf (visit_queue q p)"
proof -
  obtain i where i: "find_index ((=) p) (sl_view q) = Some i"
    using q(3) find_index_None [of "(=) p" "sl_view q"] by (cases "find_index ((=) p) (sl_view q)") auto
  have lt: "i < sl_len q" and ip: "sl_view q ! i = p"
    using i q(1) by (auto simp: find_index_Some)
  let ?arr = "sl_array (sl_cut i q)"
  note c = sl_cut_array_take [OF q(1) lt]
  have cap: "sl_len q - 1 < length ?arr" using q(1) lt by (simp add: c sl_wf_def)
  have v: "visit_queue q p = q\<lparr>sl_array := ?arr[sl_len q - 1 := p]\<rparr>"
    using cap by (simp add: visit_queue_def i Let_def sl_cut_def)
  have "take (sl_len q) (?arr[sl_len q - 1 := p]) = take (sl_len q - 1) ?arr @ [p]"
    using cap lt take_Suc_conv_app_nth [of "sl_len q - 1" "?arr[sl_len q - 1 := p]"] by simp
  then show "sl_view (visit_queue q p) = move_to_end p (sl_view q)"
    using remove_at_distinct [OF q(2), of i] lt q(1)
      c(1)
    by (simp add: v sl_view_def [of "q\<lparr>sl_array := _\<rparr>"] ip move_to_end_def)
  show "sl_wf (visit_queue q p)" using q(1) c(2) by (simp add: v sl_wf_def)
qed

lemma mset_move_to_end: "distinct xs \<Longrightarrow> p \<in> set xs \<Longrightarrow> mset (move_to_end p xs) = mset xs"
  by (subst set_eq_iff_mset_eq_distinct [symmetric]) (auto simp: move_to_end_def distinct_removeAll)

lemma set_wf_queue:
  assumes "set_wf h w i st"
  shows "distinct (sl_view (LRUQueue st))" "set (sl_view (LRUQueue st)) = set (Blocks st)"
  using assms by (auto simp: set_wf_def dest: mset_eq_setD intro: mset_eq_imp_distinct_iff [THEN iffD1])

lemma Visit_effect:
  assumes wf: "dir_wf d" and i: "i < NumSets d" and p: "p \<in> set (Blocks (Sets d ! i))"
  obtains d' where "Visit d p = Inr d'" "dir_wf d'" "dir_heap d' = dir_heap d"
    "NumSets d' = NumSets d" "NumWays d' = NumWays d" "BlockSize d' = BlockSize d"
    "\<And>k. k < NumSets d \<Longrightarrow> Blocks (Sets d' ! k) = Blocks (Sets d ! k)"
    "\<And>k. k < NumSets d \<Longrightarrow> queue_of d' k = (if k = i then move_to_end p (queue_of d i) else queue_of d k)"
proof -
  let ?st = "Sets d ! i"
  let ?st' = "?st\<lparr>LRUQueue := visit_queue (LRUQueue ?st) p\<rparr>"
  let ?d' = "d\<lparr>Sets := (Sets d)[i := ?st']\<rparr>"
  have st: "set_wf (dir_heap d) (NumWays d) i ?st" using wf i by (simp add: dir_wf_def)
  have ps: "p < length (dir_heap d)" "SetID (block_at d p) = i"
    using st p by (auto simp: set_wf_def block_at_def)
  have len: "i < length (Sets d)" using wf i by (simp add: dir_wf_def)
  have pq: "p \<in> set (sl_view (LRUQueue ?st))" using set_wf_queue(2) [OF st] p by simp
  note vq = visit_queue_view [OF _ set_wf_queue(1) [OF st] pq]
  have w: "sl_wf (LRUQueue ?st)" using st by (simp add: set_wf_def)
  have st': "set_wf (dir_heap d) (NumWays d) i ?st'"
    using st vq [OF w] mset_move_to_end [OF set_wf_queue(1) [OF st] pq] by (simp add: set_wf_def)
  have "Visit d p = Inr ?d'" using ps len by (simp add: Visit_def Let_def)
  moreover have "dir_wf ?d'" using wf st' len
    by (auto simp: dir_wf_def nth_list_update)
  moreover have "queue_of ?d' k = (if k = i then move_to_end p (queue_of d i) else queue_of d k)"
    if "k < NumSets d" for k
    using vq [OF w] len by (simp add: queue_of_def nth_list_update)
  moreover have "Blocks (Sets ?d' ! k) = Blocks (Sets d ! k)" for k
    using len by (cases "k = i") simp_all
  ultimately show thesis by (intro that [of ?d']) simp_all
qed

text \<open>A history of visits, and the recency order it leaves.\<close>

fun visits :: "directory \<Rightarrow> block_ptr list \<Rightarrow> directory result" where
  "visits d [] = Inr d"
| "visits d (p # ps) = bindR (Visit d p) (\<lambda>d'. visits d' ps)"

definition is_block :: "directory \<Rightarrow> block_ptr \<Rightarrow> bool" where
  "is_block d p \<longleftrightarrow> (\<exists>i < NumSets d. p \<in> set (Blocks (Sets d ! i)))"

definition same_blocks :: "directory \<Rightarrow> directory \<Rightarrow> bool" where
  "same_blocks d d' \<longleftrightarrow> dir_heap d' = dir_heap d \<and> NumSets d' = NumSets d \<and> NumWays d' = NumWays d \<and>
     BlockSize d' = BlockSize d \<and> (\<forall>k < NumSets d. Blocks (Sets d' ! k) = Blocks (Sets d ! k))"

lemma visits_append: "visits d (ps @ qs) = bindR (visits d ps) (\<lambda>d'. visits d' qs)"
  by (induction ps arbitrary: d) (auto simp: bindR_def split: sum.splits)

lemma remdups_snoc: "remdups (xs @ [x]) = removeAll x (remdups xs) @ [x]"
  by (induction xs) auto

lemma move_to_end_recency:
  assumes "x \<in> set q" "P x"
  shows "move_to_end x (filter (\<lambda>p. p \<notin> set ws) q @ remdups (filter P ws)) =
           filter (\<lambda>p. p \<notin> set (ws @ [x])) q @ remdups (filter P (ws @ [x]))"
  using assms
  by (auto simp: move_to_end_def remdups_snoc removeAll_filter_not_eq intro!: filter_cong)

lemma recency_other:
  assumes "x \<notin> set q" "\<not> P x"
  shows "filter (\<lambda>p. p \<notin> set (ws @ [x])) q @ remdups (filter P (ws @ [x])) =
           filter (\<lambda>p. p \<notin> set ws) q @ remdups (filter P ws)"
  using assms by (auto intro!: filter_cong)

definition recency :: "directory \<Rightarrow> block_ptr list \<Rightarrow> nat \<Rightarrow> block_ptr list" where
  "recency d ws i =
     filter (\<lambda>p. p \<notin> set ws) (queue_of d i) @ remdups (filter (\<lambda>p. SetID (block_at d p) = i) ws)"

lemma block_SetID:
  assumes "dir_wf d" "i < NumSets d" "p \<in> set (Blocks (Sets d ! i))"
  shows "SetID (block_at d p) = i"
  using assms by (auto simp: dir_wf_def set_wf_def block_at_def)

lemma set_queue_of:
  assumes "dir_wf d" "i < NumSets d"
  shows "set (queue_of d i) = set (Blocks (Sets d ! i))" "distinct (queue_of d i)"
  using assms set_wf_queue unfolding dir_wf_def queue_of_def by blast+

lemma visits_recency:
  assumes wf: "dir_wf d" and ws: "\<forall>p \<in> set ws. is_block d p"
  shows "\<exists>d'. visits d ws = Inr d' \<and> dir_wf d' \<and> same_blocks d d' \<and>
           (\<forall>i < NumSets d. queue_of d' i = recency d ws i)"
  using ws
proof (induction ws rule: rev_induct)
  case Nil
  then show ?case using wf by (auto simp: same_blocks_def recency_def)
next
  case (snoc x ws)
  then obtain d1 where d1: "visits d ws = Inr d1" "dir_wf d1" "same_blocks d d1"
    and q1: "\<And>i. i < NumSets d \<Longrightarrow> queue_of d1 i = recency d ws i" by auto
  obtain i where i: "i < NumSets d" "x \<in> set (Blocks (Sets d ! i))"
    using snoc.prems by (auto simp: is_block_def)
  have "i < NumSets d1" "x \<in> set (Blocks (Sets d1 ! i))"
    using i d1(3) by (auto simp: same_blocks_def)
  then obtain d2 where d2: "Visit d1 x = Inr d2" "dir_wf d2" "same_blocks d1 d2"
    and q2: "\<And>k. k < NumSets d1 \<Longrightarrow>
      queue_of d2 k = (if k = i then move_to_end x (queue_of d1 i) else queue_of d1 k)"
    by (rule Visit_effect [OF d1(2)]) (auto simp: same_blocks_def)
  have "queue_of d2 k = recency d (ws @ [x]) k" if k: "k < NumSets d" for k
  proof (cases "k = i")
    case True
    have "x \<in> set (queue_of d i)" "SetID (block_at d x) = i"
      using i wf set_queue_of block_SetID by auto
    then have "move_to_end x (recency d ws i) = recency d (ws @ [x]) i"
      unfolding recency_def by (intro move_to_end_recency)
    then show ?thesis using True k q2 [of i] q1 [of i] d1(3) by (simp add: same_blocks_def)
  next
    case False
    have "x \<notin> set (queue_of d k)" "SetID (block_at d x) \<noteq> k"
      using False set_queue_of(1) [OF wf k] block_SetID [OF wf k, of x] block_SetID [OF wf i] by auto
    then have "recency d (ws @ [x]) k = recency d ws k"
      unfolding recency_def by (intro recency_other)
    then show ?thesis using False k q2 [of k] q1 [of k] d1(3) by (simp add: same_blocks_def)
  qed
  moreover have "same_blocks d d2" using d1(3) d2(3) by (simp add: same_blocks_def)
  ultimately show ?case using d1 d2 by (auto simp: visits_append)
qed

section \<open>Victims\<close>

text \<open>
  What the directory relies on from a victim finder: on a well-formed set it returns one
  of the set's blocks, a locked one only when all are locked, and a valid one only when
  no free (invalid and unlocked) block is left.
\<close>

locale victim_finder =
  fixes findVictim :: victim_finder_fn
  assumes victim_in_set:
      "set_wf h w i st \<Longrightarrow> 0 < w \<Longrightarrow> \<exists>p \<in> set (Blocks st). findVictim h st = Inr p"
    and victim_locked_only_if_all:
      "set_wf h w i st \<Longrightarrow> findVictim h st = Inr p \<Longrightarrow> IsLocked (h ! p) \<Longrightarrow>
       p' \<in> set (Blocks st) \<Longrightarrow> IsLocked (h ! p')"
    and victim_valid_only_if_none_free:
      "set_wf h w i st \<Longrightarrow> findVictim h st = Inr p \<Longrightarrow> IsValid (h ! p) \<Longrightarrow>
       p' \<in> set (Blocks st) \<Longrightarrow> IsValid (h ! p') \<or> IsLocked (h ! p')"

definition holds :: "directory \<Rightarrow> block_ptr \<Rightarrow> u32 \<Rightarrow> u64 \<Rightarrow> bool" where
  "holds d p pid a \<longleftrightarrow> IsValid (block_at d p) \<and> Tag (block_at d p) = a \<and> PID (block_at d p) = pid"

lemma Lookup_find:
  assumes "geometry_ok d" "dir_wf d"
  shows "Lookup d pid a = Inr (find (\<lambda>p. holds d p pid a) (Blocks (Sets d ! set_index d a)))"
  using getSet_ok [OF assms(1)] assms(2) by (simp add: Lookup_def dir_wf_def holds_def)

lemma fill_block_SetID: "SetID (dir_heap (fill_block d p pid a) ! k) = SetID (dir_heap d ! k)"
  by (cases "k = p \<and> p < length (dir_heap d)")
     (auto simp: fill_block_def block_at_def nth_list_update list_update_beyond not_less)

lemma fill_block_wf: "dir_wf d \<Longrightarrow> dir_wf (fill_block d p pid a)"
  by (auto simp: dir_wf_def set_wf_def fill_block_SetID) (simp_all add: fill_block_def)

lemma fill_block_simps [simp]:
  "NumSets (fill_block d p pid a) = NumSets d" "NumWays (fill_block d p pid a) = NumWays d"
  "BlockSize (fill_block d p pid a) = BlockSize d" "Sets (fill_block d p pid a) = Sets d"
  by (simp_all add: fill_block_def)

lemma fill_block_geometry [simp]:
  "geometry_ok (fill_block d p pid a) = geometry_ok d" "set_index (fill_block d p pid a) = set_index d"
  by (auto simp: geometry_ok_def set_index_def)

lemma holds_fill:
  assumes "p < length (dir_heap d)"
  shows "holds (fill_block d p pid a) p' pid' a' \<longleftrightarrow> (if p' = p then pid' = pid \<and> a' = a else holds d p' pid' a')"
  using assms by (auto simp: holds_def fill_block_def block_at_def nth_list_update)

lemma find_unique:
  assumes "p \<in> set xs" "\<forall>x \<in> set xs. P x \<longleftrightarrow> x = p"
  shows "find P xs = Some p"
  using assms by (induction xs) auto

context victim_finder
begin

lemma FindVictim_total:
  assumes "geometry_ok d" "dir_wf d" "0 < NumWays d"
  shows "\<exists>p \<in> set (Blocks (Sets d ! set_index d a)). FindVictim findVictim d a = Inr p"
  using getSet_ok [OF assms(1)] assms(2,3) victim_in_set
  by (fastforce simp: FindVictim_def dir_wf_def)

lemma fill_victim:
  assumes ok: "geometry_ok d" "dir_wf d" "0 < NumWays d"
    and miss: "Lookup d pid a = Inr None" and v: "FindVictim findVictim d a = Inr p"
  shows "Lookup (fill_block d p pid a) pid a = Inr (Some p)"
    and "(pid', a') \<noteq> (pid, a) \<Longrightarrow> \<not> holds d p pid' a' \<Longrightarrow>
         Lookup (fill_block d p pid a) pid' a' = Lookup d pid' a'"
proof -
  have p: "p \<in> set (Blocks (Sets d ! set_index d a))" using FindVictim_total [OF ok, of a] v by auto
  have i: "set_index d a < NumSets d" using getSet_ok(2) [OF ok(1)] ok(2) by (simp add: dir_wf_def)
  have ph: "p < length (dir_heap d)" using p i ok(2) by (auto simp: dir_wf_def set_wf_def)
  have none: "\<forall>x \<in> set (Blocks (Sets d ! set_index d a)). \<not> holds d x pid a"
    using miss by (auto simp: Lookup_find [OF ok(1,2)] find_None_iff)
  show "Lookup (fill_block d p pid a) pid a = Inr (Some p)"
    using p none
    by (auto simp: Lookup_find ok fill_block_wf holds_fill [OF ph] intro!: find_unique)
  show "Lookup (fill_block d p pid a) pid' a' = Lookup d pid' a'"
    if "(pid', a') \<noteq> (pid, a)" "\<not> holds d p pid' a'"
    using that by (auto simp: Lookup_find ok fill_block_wf holds_fill [OF ph] intro!: find_cong)
qed

end

lemma LRU_set_wf_nonempty: "set_wf h w i st \<Longrightarrow> 0 < w \<Longrightarrow> sl_view (LRUQueue st) \<noteq> []"
  by (auto simp: set_wf_def)

lemma find_SomeD: "find P xs = Some x \<Longrightarrow> P x \<and> x \<in> set xs"
  by (auto simp: find_Some_iff)

lemma LRU_victim_cases:
  assumes "LRUVictimFinder_FindVictim h st = Inr p"
  obtains (free) "\<not> IsValid (h ! p)" "\<not> IsLocked (h ! p)"
  | (unlocked) "\<not> IsLocked (h ! p)"
      "\<forall>x \<in> set (sl_view (LRUQueue st)). IsValid (h ! x) \<or> IsLocked (h ! x)"
  | (all_locked) "\<forall>x \<in> set (sl_view (LRUQueue st)). IsLocked (h ! x)"
  using assms unfolding LRUVictimFinder_FindVictim_def
  by (auto simp: find_None_iff split: option.splits dest!: find_SomeD)

interpretation lru: victim_finder LRUVictimFinder_FindVictim
proof unfold_locales
  fix h w i st p p'
  assume st: "set_wf h w i st"
  note q = set_wf_queue(2) [OF st]
  show "\<exists>p \<in> set (Blocks st). LRUVictimFinder_FindVictim h st = Inr p" if w: "0 < w"
  proof -
    have "sl_view (LRUQueue st) ! 0 \<in> set (Blocks st)" "sl_view (LRUQueue st) \<noteq> []"
      using LRU_set_wf_nonempty [OF st w] q by (auto simp flip: q intro!: nth_mem)
    then show ?thesis unfolding LRUVictimFinder_FindVictim_def
      by (auto simp: q slice_get_def split: option.splits dest!: find_SomeD)
  qed
  assume v: "LRUVictimFinder_FindVictim h st = Inr p" and p': "p' \<in> set (Blocks st)"
  show "IsLocked (h ! p')" if "IsLocked (h ! p)"
    using v that p' q by (auto elim: LRU_victim_cases)
  show "IsValid (h ! p') \<or> IsLocked (h ! p')" if "IsValid (h ! p)"
    using v that p' q by (auto elim: LRU_victim_cases)
qed

lemma find_hd_filter: "\<exists>x \<in> set xs. P x \<Longrightarrow> find P xs = Some (hd (filter P xs))"
  by (induction xs) auto

lemma FindVictim_LRU_full:
  assumes ok: "geometry_ok d" "dir_wf d"
    and valid: "\<forall>p \<in> set (queue_of d (set_index d a)). IsValid (block_at d p)"
    and unlocked: "\<exists>p \<in> set (queue_of d (set_index d a)). \<not> IsLocked (block_at d p)"
  shows "FindVictim LRUVictimFinder_FindVictim d a =
           Inr (hd (filter (\<lambda>p. \<not> IsLocked (block_at d p)) (queue_of d (set_index d a))))"
proof -
  have "find (\<lambda>p. \<not> IsValid (dir_heap d ! p) \<and> \<not> IsLocked (dir_heap d ! p)) (queue_of d (set_index d a)) = None"
    using valid by (auto simp: find_None_iff block_at_def)
  then show ?thesis
    using getSet_ok [OF ok(1)] ok(2) find_hd_filter [OF unlocked]
    by (simp add: FindVictim_def dir_wf_def LRUVictimFinder_FindVictim_def queue_of_def block_at_def)
qed

lemma set_recency:
  assumes wf: "dir_wf d" and i: "i < NumSets d" and ws: "\<forall>p \<in> set ws. is_block d p"
  shows "set (recency d ws i) = set (Blocks (Sets d ! i))"
proof -
  have "SetID (block_at d p) = i \<longleftrightarrow> p \<in> set (Blocks (Sets d ! i))" if "p \<in> set ws" for p
    using that ws block_SetID [OF wf] i by (auto simp: is_block_def)
  then show ?thesis using set_queue_of [OF wf i] by (auto simp: recency_def)
qed

section \<open>The frames of the blocks\<close>

lemma concat_set_blocks: "concat (map (set_blocks d h0) [0..<n]) = [h0..<h0 + n * NumWays d]"
proof (induction n)
  case 0
  then show ?case by simp
next
  case (Suc n)
  then show ?case using upt_add_eq_append [of h0 "h0 + n * NumWays d" "NumWays d"]
    by (simp add: set_blocks_def algebra_simps)
qed

lemma frames_CacheAddress:
  assumes "k < n * NumWays d"
  shows "CacheAddress (frames d n ! k) = of_nat k * of_nat (BlockSize d)"
proof -
  have w: "0 < NumWays d" using assms by (cases "NumWays d") auto
  have "k div NumWays d < n" using assms by (simp add: less_mult_imp_div_less)
  then have "frames d n ! (k div NumWays d * NumWays d + k mod NumWays d) =
      newBlock d (k div NumWays d) (k mod NumWays d)"
    using w by (intro frames_nth) simp_all
  then show ?thesis by (simp add: newBlock_def)
qed

lemma all_blocks_upt:
  "concat (map Blocks (Sets (NewDirectory spare s w b))) = [0..<s * w]"
proof -
  let ?d = "\<lparr>NumSets = s, NumWays = w, BlockSize = b, Sets = [], dir_heap = []\<rparr>"
  let ?sets = "snd (foldl (add_set spare ?d) ([], []) [0..<s])"
  have "map Blocks ?sets = map (set_blocks ?d 0) [0..<s]"
    using add_sets_effect(2) [of spare ?d "[]" s] add_sets_effect(3) [of _ s spare ?d "[]"]
    by (intro nth_equalityI) simp_all
  then show ?thesis using concat_set_blocks [of ?d 0 s]
    by (simp add: NewDirectory_def Reset_def Let_def)
qed

section \<open>Properties\<close>

definition full_set :: directory where
  "full_set =
     \<lparr>NumSets = 1, NumWays = 3, BlockSize = 64,
      Sets = [\<lparr>Blocks = [0, 1, 2], LRUQueue = \<lparr>sl_array = [0, 1, 2, 0], sl_len = 3\<rparr>\<rparr>],
      dir_heap = map (\<lambda>j. \<lparr>PID = 1, Tag = of_nat (64 * j), WayID = j, SetID = 0,
        CacheAddress = of_nat (64 * j), IsValid = True, IsDirty = False, ReadCount = 0,
        IsLocked = (j = 2), DirtyMask = [], SectorValid = [], SectorDirty = []\<rparr>) [0..<3]\<rparr>"

lemma full_set_ok: "geometry_ok full_set" "dir_wf full_set" "0 < NumWays full_set"
  by (simp add: geometry_ok_def full_set_def)
     (simp_all add: dir_wf_def set_wf_def full_set_def sl_view_def sl_wf_def upt_rec numeral_3_eq_3)

text \<open>
  Claim C16. The directory evicts least recently used: after any history of \<^verbatim>\<open>Visit\<close>s of blocks of
  a well-formed directory, none of which panics, \<^verbatim>\<open>FindVictim\<close> of an address whose set holds only
  valid blocks, not all locked, returns the first unlocked block in the order of last use (blocks
  never visited first, in the order of the queue they started with).
\<close>

theorem LRU_evicts_least_recent:
  assumes "geometry_ok d" "dir_wf d" "\<forall>p \<in> set ws. is_block d p"
    and "\<forall>p \<in> set (Blocks (Sets d ! set_index d a)). IsValid (block_at d p)"
    and "\<exists>p \<in> set (Blocks (Sets d ! set_index d a)). \<not> IsLocked (block_at d p)"
  shows "\<exists>d'. visits d ws = Inr d' \<and>
           FindVictim LRUVictimFinder_FindVictim d' a =
             Inr (hd (filter (\<lambda>p. \<not> IsLocked (block_at d p)) (recency d ws (set_index d a))))"
proof -
  obtain d' where d': "visits d ws = Inr d'" "dir_wf d'" "same_blocks d d'"
    and q: "\<forall>i < NumSets d. queue_of d' i = recency d ws i"
    using visits_recency [OF assms(2,3)] by blast
  have i: "set_index d a < NumSets d" using getSet_ok(2) [OF assms(1)] assms(2) by (simp add: dir_wf_def)
  have same: "geometry_ok d'" "set_index d' a = set_index d a" "block_at d' = block_at d"
    using assms(1) d'(3) by (auto simp: same_blocks_def geometry_ok_def set_index_def block_at_def)
  show ?thesis using FindVictim_LRU_full [OF same(1) d'(2), of a] q i assms(4,5)
      set_recency [OF assms(2) i assms(3)]
    by (simp add: d' same)
qed

theorem LRU_evicts_least_recent_witness:
  "\<exists>d'. visits full_set [0, 2, 1, 0] = Inr d' \<and> FindVictim LRUVictimFinder_FindVictim d' 192 = Inr 1"
proof -
  have "\<forall>p \<in> set [0, 2, 1, 0]. is_block full_set p"
    "\<forall>p \<in> set (Blocks (Sets full_set ! set_index full_set 192)). IsValid (block_at full_set p)"
    "\<exists>p \<in> set (Blocks (Sets full_set ! set_index full_set 192)). \<not> IsLocked (block_at full_set p)"
    by code_simp+
  note * = LRU_evicts_least_recent [OF full_set_ok(1,2) this]
  have "hd (filter (\<lambda>p. \<not> IsLocked (block_at full_set p)) (recency full_set [0, 2, 1, 0] (set_index full_set 192))) = 1"
    by code_simp
  with * show ?thesis by simp
qed

text \<open>
  Claim C17. Filling the victim makes the address hit, and evicts only the victim: after a miss,
  the block returned by \<^verbatim>\<open>FindVictim\<close> and filled with the address is what \<^verbatim>\<open>Lookup\<close> finds for it,
  and every other address the victim did not hold is looked up as before.
\<close>

theorem directory_fill_then_hit:
  assumes "geometry_ok d" "dir_wf d" "0 < NumWays d" "Lookup d pid a = Inr None"
  shows "\<exists>p. FindVictim LRUVictimFinder_FindVictim d a = Inr p \<and> dir_wf (fill_block d p pid a) \<and>
           Lookup (fill_block d p pid a) pid a = Inr (Some p) \<and>
           (\<forall>pid' a'. (pid', a') \<noteq> (pid, a) \<longrightarrow> \<not> holds d p pid' a' \<longrightarrow>
              Lookup (fill_block d p pid a) pid' a' = Lookup d pid' a')"
proof -
  obtain p where p: "FindVictim LRUVictimFinder_FindVictim d a = Inr p"
    using lru.FindVictim_total [OF assms(1-3), of a] by blast
  show ?thesis using p fill_block_wf [OF assms(2)] lru.fill_victim [OF assms p] by blast
qed

theorem directory_fill_then_hit_witness:
  "\<exists>p. FindVictim LRUVictimFinder_FindVictim full_set 192 = Inr p \<and>
       Lookup (fill_block full_set p 1 192) 1 192 = Inr (Some p)"
proof -
  have "Lookup full_set 1 192 = Inr None" by code_simp
  from directory_fill_then_hit [OF full_set_ok this] show ?thesis by blast
qed

text \<open>
  The blocks' frames tile the cache: in a new directory that fits the address space, the
  cache addresses of all blocks, set by set and way by way, are the consecutive multiples of the
  block size up to \<^verbatim>\<open>TotalSize\<close>, so no two blocks share a byte of the cache storage and none is
  outside it.
\<close>

theorem NewDirectory_frames_tile:
  fixes spare :: "nat \<Rightarrow> nat"
  assumes "s * w * b < 2 ^ 64"
  defines "d \<equiv> NewDirectory spare s w b"
  shows "map (\<lambda>p. unat (CacheAddress (block_at d p))) (concat (map Blocks (Sets d))) =
           map (\<lambda>k. k * b) [0..<s * w] \<and>
         unat (TotalSize d) = s * w * b \<and> dir_wf d"
proof -
  let ?e = "\<lparr>NumSets = s, NumWays = w, BlockSize = b, Sets = [], dir_heap = []\<rparr>"
  have g: "NumSets d = s" "NumWays d = w" "BlockSize d = b" by (simp_all add: d_def NewDirectory_def)
  have h: "dir_heap d = frames ?e s"
    by (simp add: d_def NewDirectory_def Reset_def Let_def add_sets_effect)
  have "unat (CacheAddress (block_at d k)) = k * b" if "k < s * w" for k
  proof -
    have "k * b < 2 ^ 64" using that by (intro le_less_trans [OF _ assms(1)] mult_le_mono1) simp
    then show ?thesis using frames_CacheAddress [of k s ?e] that
      by (simp add: block_at_def h unat_of_nat flip: of_nat_mult)
  qed
  moreover have "unat (TotalSize d) = s * w * b"
    using assms(1) by (simp add: TotalSize_def g unat_of_nat flip: of_nat_mult)
  ultimately show ?thesis using Reset_wf [of spare ?e] all_blocks_upt [of spare s w b]
    by (simp add: d_def NewDirectory_def)
qed

theorem NewDirectory_frames_tile_witness:
  "unat (TotalSize (NewDirectory (\<lambda>_. 0) 16 4 64)) = 4096"
  using NewDirectory_frames_tile [of 16 4 64 "\<lambda>_. 0"] by simp

end
