(* ===== verification/Page_Walk_Cache.thy ===== *)
theory Page_Walk_Cache
  imports Cache_Directory
begin

text \<open>
  The directory of the page-walk cache, \<^verbatim>\<open>mem/cache/pagewalkcachedirectory.go\<close>: a cache
  directory whose tags are virtual-address prefixes with the page-table level in their two
  low bits, and whose \<^verbatim>\<open>Lookup\<close> returns the longest matching prefix. The functions it
  repeats from \<^verbatim>\<open>directory.go\<close> word by word are that theory's.
\<close>

unbundle bit_operations_syntax

record page_walk_directory =
  pwc_dir :: directory
  masks :: "u64 list"
  log2PageSize :: u64
  bitsPerLevel :: u64

definition level_masks :: "u64 \<Rightarrow> u64 \<Rightarrow> u64 list" where
  "level_masks log2Page bits =
     (let curMask2 = push_bit (unat bits) (NOT (push_bit (unat log2Page) 1 - 1));
          curMask1 = push_bit (unat bits) curMask2;
          curMask0 = push_bit (unat bits) curMask1
      in [curMask0, curMask1, curMask2])"

definition NewPageWalkCacheDirectory ::
    "(nat \<Rightarrow> nat) \<Rightarrow> nat \<Rightarrow> nat \<Rightarrow> nat \<Rightarrow> u64 \<Rightarrow> u64 \<Rightarrow> page_walk_directory" where
  "NewPageWalkCacheDirectory spare numSet way blockSize log2Page bits =
     \<lparr>pwc_dir = NewDirectory spare numSet way blockSize, masks = level_masks log2Page bits,
      log2PageSize = log2Page, bitsPerLevel = bits\<rparr>"

definition PWC_TotalSize :: "page_walk_directory \<Rightarrow> u64" where
  "PWC_TotalSize d = TotalSize (pwc_dir d)"

definition PWC_getSet :: "page_walk_directory \<Rightarrow> u64 \<Rightarrow> (cache_set \<times> nat) result" where
  "PWC_getSet d = getSet (pwc_dir d)"

text \<open>The scan of \<^verbatim>\<open>Lookup\<close>, with the best match so far and its level (\<^verbatim>\<open>-1\<close> for none).\<close>

fun pwc_scan ::
    "page_walk_directory \<Rightarrow> u32 \<Rightarrow> u64 \<Rightarrow> block_ptr list \<Rightarrow> block_ptr option \<Rightarrow> int \<Rightarrow> block_ptr option result" where
  "pwc_scan d pid reqAddr [] longestMatch curLevel = Inr longestMatch"
| "pwc_scan d pid reqAddr (p # ps) longestMatch curLevel =
     (let block = block_at (pwc_dir d) p in
      if IsValid block \<and> PID block = pid then
        let tag = Tag block AND NOT 3; level = unat (Tag block AND 3) in
        bindR (slice_get (masks d) level) (\<lambda>mask.
          let maskedReqAddr = mask AND reqAddr in
          if tag = maskedReqAddr \<and> curLevel < int level
          then pwc_scan d pid reqAddr ps (Some p) (int level)
          else pwc_scan d pid reqAddr ps longestMatch curLevel)
      else pwc_scan d pid reqAddr ps longestMatch curLevel)"

definition PWC_Lookup :: "page_walk_directory \<Rightarrow> u32 \<Rightarrow> u64 \<Rightarrow> block_ptr option result" where
  "PWC_Lookup d pid reqAddr =
     bindR (PWC_getSet d reqAddr) (\<lambda>(st, setID). pwc_scan d pid reqAddr (Blocks st) None (-1))"

text \<open>\<^verbatim>\<open>LookupExactAddress\<close> keeps the last match of its scan.\<close>

definition LookupExactAddress :: "page_walk_directory \<Rightarrow> u32 \<Rightarrow> u64 \<Rightarrow> block_ptr option result" where
  "LookupExactAddress d pid reqAddr =
     bindR (PWC_getSet d reqAddr) (\<lambda>(st, setID).
       Inr (foldl (\<lambda>toReturn p.
              let block = block_at (pwc_dir d) p in
              if IsValid block \<and> PID block = pid \<and> Tag block = reqAddr then Some p else toReturn)
            None (Blocks st)))"

definition PWC_FindVictim :: "victim_finder_fn \<Rightarrow> page_walk_directory \<Rightarrow> u64 \<Rightarrow> block_ptr result" where
  "PWC_FindVictim victimFinder d addr = FindVictim victimFinder (pwc_dir d) addr"

definition PWC_Visit :: "page_walk_directory \<Rightarrow> block_ptr \<Rightarrow> page_walk_directory result" where
  "PWC_Visit d p = bindR (Visit (pwc_dir d) p) (\<lambda>dir. Inr (d\<lparr>pwc_dir := dir\<rparr>))"

definition PWC_Reset :: "(nat \<Rightarrow> nat) \<Rightarrow> page_walk_directory \<Rightarrow> page_walk_directory" where
  "PWC_Reset spare d = d\<lparr>pwc_dir := Reset spare (pwc_dir d)\<rparr>"

definition FormulateWriteAddress :: "page_walk_directory \<Rightarrow> u64 \<Rightarrow> u64 result" where
  "FormulateWriteAddress d req =
     (let vAddr = req AND NOT 3; level = req AND 3 in
      bindR (slice_get (masks d) (unat level)) (\<lambda>mask. Inr ((vAddr AND mask) OR level)))"

definition pwc_fill :: "page_walk_directory \<Rightarrow> block_ptr \<Rightarrow> u32 \<Rightarrow> u64 \<Rightarrow> page_walk_directory" where
  "pwc_fill d p pid a = d\<lparr>pwc_dir := fill_block (pwc_dir d) p pid a\<rparr>"

section \<open>Longest match\<close>

definition level_of :: "page_walk_directory \<Rightarrow> block_ptr \<Rightarrow> nat" where
  "level_of d p = unat (Tag (block_at (pwc_dir d) p) AND 3)"

definition usable :: "page_walk_directory \<Rightarrow> u32 \<Rightarrow> block_ptr \<Rightarrow> bool" where
  "usable d pid p \<longleftrightarrow> IsValid (block_at (pwc_dir d) p) \<and> PID (block_at (pwc_dir d) p) = pid"

definition prefix_match :: "page_walk_directory \<Rightarrow> u32 \<Rightarrow> u64 \<Rightarrow> block_ptr \<Rightarrow> bool" where
  "prefix_match d pid a p \<longleftrightarrow> usable d pid p \<and>
     Tag (block_at (pwc_dir d) p) AND NOT 3 = (masks d ! level_of d p) AND a"

text \<open>The best of a list: the first block of the highest level among those that match.\<close>

definition longest_in :: "page_walk_directory \<Rightarrow> u32 \<Rightarrow> u64 \<Rightarrow> block_ptr list \<Rightarrow> block_ptr option \<Rightarrow> bool" where
  "longest_in d pid a ps r \<longleftrightarrow>
     (case r of
        None \<Rightarrow> \<forall>p \<in> set ps. \<not> prefix_match d pid a p
      | Some b \<Rightarrow> b \<in> set ps \<and> prefix_match d pid a b \<and>
          (\<forall>p \<in> set ps. prefix_match d pid a p \<longrightarrow> level_of d p \<le> level_of d b))"

definition best_level :: "page_walk_directory \<Rightarrow> block_ptr option \<Rightarrow> int" where
  "best_level d r = (case r of None \<Rightarrow> -1 | Some b \<Rightarrow> int (level_of d b))"

lemma pwc_scan_longest:
  assumes "\<forall>p \<in> set ps. usable d pid p \<longrightarrow> level_of d p < length (masks d)"
    and "longest_in d pid a qs r"
  shows "\<exists>r'. pwc_scan d pid a ps r (best_level d r) = Inr r' \<and> longest_in d pid a (qs @ ps) r'"
  using assms
proof (induction ps arbitrary: qs r)
  case Nil
  then show ?case by simp
next
  case (Cons p ps)
  let ?better = "prefix_match d pid a p \<and> best_level d r < int (level_of d p)"
  have step: "pwc_scan d pid a (p # ps) r (best_level d r) =
      (if ?better then pwc_scan d pid a ps (Some p) (best_level d (Some p))
       else pwc_scan d pid a ps r (best_level d r))"
    using Cons.prems(1)
    by (auto simp: Let_def prefix_match_def usable_def level_of_def best_level_def)
  have "longest_in d pid a (qs @ [p]) (if ?better then Some p else r)"
    using Cons.prems(2) by (auto simp: longest_in_def best_level_def split: option.splits)
  then show ?case
    using Cons.IH [of "qs @ [p]" "if ?better then Some p else r"] Cons.prems(1) step by auto
qed

lemma PWC_Lookup_longest_in:
  assumes "geometry_ok (pwc_dir d)" "dir_wf (pwc_dir d)"
    and "\<forall>p \<in> set (Blocks (Sets (pwc_dir d) ! set_index (pwc_dir d) a)).
           usable d pid p \<longrightarrow> level_of d p < length (masks d)"
  shows "\<exists>r. PWC_Lookup d pid a = Inr r \<and>
           longest_in d pid a (Blocks (Sets (pwc_dir d) ! set_index (pwc_dir d) a)) r"
  using pwc_scan_longest [OF assms(3), of a "[]" None] getSet_ok [OF assms(1), of a] assms(2)
  by (simp add: PWC_Lookup_def PWC_getSet_def longest_in_def best_level_def dir_wf_def)

section \<open>What a fill makes visible\<close>

lemma mask_low_bits:
  assumes "2 \<le> unat bits" "m \<in> set (level_masks log2Page bits)"
  shows "m AND 3 = 0"
proof -
  have "push_bit k x AND 3 = 0" if "2 \<le> k" for k and x :: u64
  proof -
    have "(3::u64) = mask 2" by (simp add: mask_eq_exp_minus_1)
    then show ?thesis using that
      by (simp add: bit_eq_iff bit_and_iff bit_push_bit_iff bit_mask_iff)
  qed
  then show ?thesis using assms by (auto simp: level_masks_def Let_def)
qed

lemma masked_parts:
  fixes m req low :: u64
  assumes "m AND low = 0"
  shows "((req AND NOT low AND m) OR (req AND low)) AND low = req AND low"
    and "((req AND NOT low AND m) OR (req AND low)) AND NOT low = m AND req"
proof -
  have b: "\<not> (bit m n \<and> bit low n)" for n
    using assms by (metis bit_and_iff bit_0_eq bot_apply bot_bool_def)
  show "((req AND NOT low AND m) OR (req AND low)) AND low = req AND low"
    using b by (intro bit_word_eqI) (auto simp: bit_and_iff bit_or_iff bit_not_iff)
  show "((req AND NOT low AND m) OR (req AND low)) AND NOT low = m AND req"
    using b by (intro bit_word_eqI) (auto simp: bit_and_iff bit_or_iff bit_not_iff)
qed

definition pwc_wf :: "page_walk_directory \<Rightarrow> bool" where
  "pwc_wf d \<longleftrightarrow> geometry_ok (pwc_dir d) \<and> dir_wf (pwc_dir d) \<and> NumSets (pwc_dir d) = 1 \<and>
     2 \<le> unat (bitsPerLevel d) \<and> masks d = level_masks (log2PageSize d) (bitsPerLevel d) \<and>
     (\<forall>p \<in> set (Blocks (Sets (pwc_dir d) ! 0)). IsValid (block_at (pwc_dir d) p) \<longrightarrow> level_of d p < 3)"

lemma level_masks_length [simp]: "length (level_masks l b) = 3"
  by (simp add: level_masks_def Let_def)

lemma single_set_index: "NumSets d = 1 \<Longrightarrow> set_index d a = 0"
  by (simp add: set_index_def)

lemma PWC_Lookup_wf:
  assumes "pwc_wf d"
  shows "\<exists>r. PWC_Lookup d pid a = Inr r \<and> longest_in d pid a (Blocks (Sets (pwc_dir d) ! 0)) r"
  using PWC_Lookup_longest_in [of d a pid] assms
  by (auto simp: pwc_wf_def single_set_index usable_def)

lemma pwc_fill_tag:
  assumes "pwc_wf d" "p \<in> set (Blocks (Sets (pwc_dir d) ! 0))"
  shows "block_at (pwc_dir (pwc_fill d p pid w)) q =
    (if q = p then (block_at (pwc_dir d) p)\<lparr>IsLocked := True, Tag := w, PID := pid, IsValid := True\<rparr>
     else block_at (pwc_dir d) q)"
proof -
  have "p < length (dir_heap (pwc_dir d))" using assms by (auto simp: pwc_wf_def dir_wf_def set_wf_def)
  then show ?thesis by (simp add: pwc_fill_def fill_block_def block_at_def nth_list_update)
qed

lemma pwc_fill_wf:
  assumes d: "pwc_wf d" "p \<in> set (Blocks (Sets (pwc_dir d) ! 0))" and "unat (w AND 3) < 3"
  shows "pwc_wf (pwc_fill d p pid w)"
proof -
  have "level_of (pwc_fill d p pid w) q < 3"
    if "q \<in> set (Blocks (Sets (pwc_dir d) ! 0))" "IsValid (block_at (pwc_dir (pwc_fill d p pid w)) q)" for q
    using that assms by (auto simp: pwc_fill_tag [OF d] level_of_def pwc_wf_def split: if_splits)
  then show ?thesis using d fill_block_wf [of "pwc_dir d" p pid w]
    by (simp add: pwc_wf_def pwc_fill_def)
qed

section \<open>Properties\<close>

definition small_pwc :: page_walk_directory where
  "small_pwc =
     \<lparr>pwc_dir = \<lparr>NumSets = 1, NumWays = 2, BlockSize = 8,
        Sets = [\<lparr>Blocks = [0, 1], LRUQueue = \<lparr>sl_array = [0, 1], sl_len = 2\<rparr>\<rparr>],
        dir_heap = map (\<lambda>j. newBlock \<lparr>NumSets = 1, NumWays = 2, BlockSize = 8, Sets = [], dir_heap = []\<rparr> 0 j) [0, 1]\<rparr>,
      masks = level_masks 12 9, log2PageSize = 12, bitsPerLevel = 9\<rparr>"

lemma small_pwc_wf: "pwc_wf small_pwc"
  by (simp add: pwc_wf_def small_pwc_def geometry_ok_def dir_wf_def set_wf_def newBlock_def
      block_at_def sl_view_def sl_wf_def)

text \<open>
  \<^verbatim>\<open>Lookup\<close> of the page-walk cache returns the longest match: on a well-formed directory it
  does not panic; it returns no block only if no valid block of the process matches the masked
  address, and otherwise a matching block of the highest level (the longest address prefix).
\<close>

theorem PWC_Lookup_longest_match:
  assumes "pwc_wf d"
  shows "\<exists>r. PWC_Lookup d pid a = Inr r \<and>
           (case r of
              None \<Rightarrow> \<forall>p \<in> set (Blocks (Sets (pwc_dir d) ! 0)). \<not> prefix_match d pid a p
            | Some b \<Rightarrow> b \<in> set (Blocks (Sets (pwc_dir d) ! 0)) \<and> prefix_match d pid a b \<and>
                (\<forall>p \<in> set (Blocks (Sets (pwc_dir d) ! 0)). prefix_match d pid a p \<longrightarrow> level_of d p \<le> level_of d b))"
  using PWC_Lookup_wf [OF assms] by (simp add: longest_in_def)

theorem PWC_Lookup_longest_match_witness:
  "\<exists>r. PWC_Lookup (pwc_fill small_pwc 1 7 2) 7 4096 = Inr r"
proof -
  have "pwc_wf (pwc_fill small_pwc 1 7 2)"
    by (rule pwc_fill_wf [OF small_pwc_wf]) (simp_all add: small_pwc_def)
  from PWC_Lookup_longest_match [OF this, of 7 4096] show ?thesis by blast
qed

text \<open>
  What is written into the page-walk cache is found by a walk: when a block is filled with
  the address \<^verbatim>\<open>FormulateWriteAddress\<close> makes of a request of level \<open>l\<close>, every later \<^verbatim>\<open>Lookup\<close> of an
  address that agrees with the request on the level's mask hits, in a block of level at least \<open>l\<close>.
\<close>

theorem PWC_fill_then_hit:
  assumes d: "pwc_wf d" and p: "p \<in> set (Blocks (Sets (pwc_dir d) ! 0))"
    and l: "unat (req AND 3) < 3"
    and agree: "masks d ! unat (req AND 3) AND a = masks d ! unat (req AND 3) AND req"
  shows "\<exists>w b. FormulateWriteAddress d req = Inr w \<and>
           PWC_Lookup (pwc_fill d p pid w) pid a = Inr (Some b) \<and>
           unat (req AND 3) \<le> level_of (pwc_fill d p pid w) b"
proof -
  define m where "m = masks d ! unat (req AND 3)"
  define w where "w = (req AND NOT 3 AND m) OR (req AND 3)"
  let ?d = "pwc_fill d p pid w"
  have "m \<in> set (masks d)" using d l by (simp add: m_def pwc_wf_def)
  then have m: "m AND 3 = 0" using mask_low_bits [of "bitsPerLevel d" m "log2PageSize d"] d
    by (simp add: pwc_wf_def)
  note parts = masked_parts [OF m, of req, folded w_def]
  have F: "FormulateWriteAddress d req = Inr w"
    using l d by (simp add: FormulateWriteAddress_def Let_def w_def m_def pwc_wf_def and.assoc)
  have wf: "pwc_wf ?d" using pwc_fill_wf [OF d p] l parts(1) by simp
  have sets: "Sets (pwc_dir ?d) = Sets (pwc_dir d)" "masks ?d = masks d" by (simp_all add: pwc_fill_def)
  have lp: "level_of ?d p = unat (req AND 3)"
    by (simp add: level_of_def pwc_fill_tag [OF d p] parts(1))
  have "prefix_match ?d pid a p"
    using agree parts(2) by (simp add: prefix_match_def usable_def pwc_fill_tag [OF d p] lp sets m_def)
  moreover obtain r where r: "PWC_Lookup ?d pid a = Inr r"
    "longest_in ?d pid a (Blocks (Sets (pwc_dir d) ! 0)) r"
    using PWC_Lookup_wf [OF wf] sets by metis
  ultimately obtain b where "r = Some b" "unat (req AND 3) \<le> level_of ?d b"
    using p lp by (cases r) (auto simp: longest_in_def)
  then show ?thesis using F r(1) by blast
qed

theorem PWC_fill_then_hit_witness:
  "\<exists>w b. FormulateWriteAddress small_pwc 0x40200002 = Inr w \<and>
         PWC_Lookup (pwc_fill small_pwc 1 7 w) 7 0x40200800 = Inr (Some b)"
proof -
  have "masks small_pwc ! unat (0x40200002 AND 3 :: u64) AND 0x40200800 =
        masks small_pwc ! unat (0x40200002 AND 3 :: u64) AND 0x40200002"
    by (simp add: small_pwc_def level_masks_def Let_def)
  from PWC_fill_then_hit [OF small_pwc_wf _ _ this, of 1 7] show ?thesis
    by (simp add: small_pwc_def) blast
qed

end
