(* ===== verification/MSHR.thy ===== *)
theory MSHR
  imports Prelude
begin

text \<open>
  The miss-status holding registers: \<^verbatim>\<open>mem/cache/mshr.go\<close>, \<^verbatim>\<open>mem/vm/tlb/tlbmshr.go\<close> and
  \<^verbatim>\<open>mgpusim/remotetranslation/remotetranslationmshr.go\<close>. The three files have the same
  operations over different entry structs, so the loops are written once over the entry's
  key function (\<^verbatim>\<open>e.PID\<close>, \<^verbatim>\<open>e.Address\<close> or \<^verbatim>\<open>e.vAddr\<close>) and each file has its own entry record
  and operations.

  The interface a client relies on is the locale \<open>mshr\<close>: a finite map of bounded size from
  (process, address) to entries. Its lemmas follow a client that coalesces the misses of one
  address in the entry and serves them when the fill returns: nothing panics, the capacity
  holds, and every accepted request is served exactly once, in order per address.
  Entries are shared by pointer; a client's assignment to a field of the entry it got from
  \<^verbatim>\<open>Query\<close> is \<open>modify_entry\<close>.
\<close>

type_synonym mshr_key = "u32 \<times> u64"

section \<open>Entries\<close>

record ('r, 'b, 'rd, 'dr) MSHREntry =
  me_PID :: u32
  me_Address :: u64
  me_Requests :: "'r list"
  me_Block :: "'b option"
  me_ReadReq :: "'rd option"
  me_DataReady :: "'dr option"
  me_Data :: "byte list"

text \<open>
  In the entries of the TLB and of the remote translation unit the page is a struct; \<open>None\<close> stands for its zero value, which a new
  entry has until its answer arrives.
\<close>

record ('r, 'pg) tlb_mshrEntry =
  te_pid :: u32
  te_vAddr :: u64
  te_Requests :: "'r list"
  te_reqToBottom :: "'r option"
  te_page :: "'pg option"
  te_numResponded :: int

record ('r, 'rsp, 'pg) rtu_mshrEntry =
  re_pid :: u32
  re_vAddr :: u64
  re_Requests :: "'r list"
  re_reqToBottom :: "'r option"
  re_rspToL1 :: "'rsp option"
  re_page :: "'pg option"
  re_numResponded :: int

definition NewMSHREntry :: "('r, 'b, 'rd, 'dr) MSHREntry" where
  "NewMSHREntry = \<lparr>me_PID = 0, me_Address = 0, me_Requests = [], me_Block = None, me_ReadReq = None,
     me_DataReady = None, me_Data = []\<rparr>"

definition tlb_newMSHREntry :: "('r, 'pg) tlb_mshrEntry" where
  "tlb_newMSHREntry = \<lparr>te_pid = 0, te_vAddr = 0, te_Requests = [], te_reqToBottom = None, te_page = None,
     te_numResponded = 0\<rparr>"

definition rtu_newMSHREntry :: "('r, 'rsp, 'pg) rtu_mshrEntry" where
  "rtu_newMSHREntry = \<lparr>re_pid = 0, re_vAddr = 0, re_Requests = [], re_reqToBottom = None,
     re_rspToL1 = None, re_page = None, re_numResponded = 0\<rparr>"

definition tlb_IncNumRespondedByOne :: "('r, 'pg) tlb_mshrEntry \<Rightarrow> ('r, 'pg) tlb_mshrEntry" where
  "tlb_IncNumRespondedByOne e = e\<lparr>te_numResponded := te_numResponded e + 1\<rparr>"

definition rtu_IncNumRespondedByOne :: "('r, 'rsp, 'pg) rtu_mshrEntry \<Rightarrow> ('r, 'rsp, 'pg) rtu_mshrEntry" where
  "rtu_IncNumRespondedByOne e = e\<lparr>re_numResponded := re_numResponded e + 1\<rparr>"

definition cache_key :: "('r, 'b, 'rd, 'dr) MSHREntry \<Rightarrow> mshr_key" where
  "cache_key e = (me_PID e, me_Address e)"

definition tlb_key :: "('r, 'pg) tlb_mshrEntry \<Rightarrow> mshr_key" where
  "tlb_key e = (te_pid e, te_vAddr e)"

definition rtu_key :: "('r, 'rsp, 'pg) rtu_mshrEntry \<Rightarrow> mshr_key" where
  "rtu_key e = (re_pid e, re_vAddr e)"

section \<open>The operations\<close>

record 'e mshrImpl =
  mshr_capacity :: int
  mshr_entries :: "'e list"

definition NewMSHR :: "int \<Rightarrow> 'e mshrImpl" where
  "NewMSHR capacity = \<lparr>mshr_capacity = capacity, mshr_entries = []\<rparr>"

definition mshr_IsFull :: "'e mshrImpl \<Rightarrow> bool" where
  "mshr_IsFull m \<longleftrightarrow> mshr_capacity m \<le> int (length (mshr_entries m))"

definition mshr_Query :: "('e \<Rightarrow> mshr_key) \<Rightarrow> mshr_key \<Rightarrow> 'e mshrImpl \<Rightarrow> 'e option" where
  "mshr_Query key k m = find (\<lambda>e. key e = k) (mshr_entries m)"

definition mshr_Add ::
    "('e \<Rightarrow> mshr_key) \<Rightarrow> (mshr_key \<Rightarrow> 'e) \<Rightarrow> mshr_key \<Rightarrow> 'e mshrImpl \<Rightarrow> ('e \<times> 'e mshrImpl) result" where
  "mshr_Add key new k m =
     (if list_ex (\<lambda>e. key e = k) (mshr_entries m) then Inl (Panic ''entry already in mshr'')
      else if mshr_capacity m \<le> int (length (mshr_entries m)) then Inl (Panic ''MSHR is full'')
      else let entry = new k in Inr (entry, m\<lparr>mshr_entries := mshr_entries m @ [entry]\<rparr>))"

definition mshr_Remove ::
    "('e \<Rightarrow> mshr_key) \<Rightarrow> mshr_key \<Rightarrow> 'e mshrImpl \<Rightarrow> ('e \<times> 'e mshrImpl) result" where
  "mshr_Remove key k m =
     (case find_index (\<lambda>e. key e = k) (mshr_entries m) of
        Some i \<Rightarrow> Inr (mshr_entries m ! i, m\<lparr>mshr_entries := remove_at i (mshr_entries m)\<rparr>)
      | None \<Rightarrow> Inl (Panic ''trying to remove an non-exist entry''))"

definition mshr_AllEntries :: "'e mshrImpl \<Rightarrow> 'e list" where
  "mshr_AllEntries m = mshr_entries m"

definition mshr_Reset :: "'e mshrImpl \<Rightarrow> 'e mshrImpl" where
  "mshr_Reset m = m\<lparr>mshr_entries := []\<rparr>"

definition mshr_IsEntryPresent :: "('e \<Rightarrow> mshr_key) \<Rightarrow> mshr_key \<Rightarrow> 'e mshrImpl \<Rightarrow> bool" where
  "mshr_IsEntryPresent key k m = list_ex (\<lambda>e. key e = k) (mshr_entries m)"

definition modify_entry :: "('e \<Rightarrow> mshr_key) \<Rightarrow> mshr_key \<Rightarrow> ('e \<Rightarrow> 'e) \<Rightarrow> 'e mshrImpl \<Rightarrow> 'e mshrImpl" where
  "modify_entry key k f m =
     (case find_index (\<lambda>e. key e = k) (mshr_entries m) of
        Some i \<Rightarrow> m\<lparr>mshr_entries := (mshr_entries m)[i := f (mshr_entries m ! i)]\<rparr>
      | None \<Rightarrow> m)"

text \<open>The operations of the three files.\<close>

record ('m, 'e) mshr_ops =
  mNew :: "int \<Rightarrow> 'm"
  mQuery :: "mshr_key \<Rightarrow> 'm \<Rightarrow> 'e option"
  mAdd :: "mshr_key \<Rightarrow> 'm \<Rightarrow> ('e \<times> 'm) result"
  mRemove :: "mshr_key \<Rightarrow> 'm \<Rightarrow> ('e \<times> 'm) result"
  mAllEntries :: "'m \<Rightarrow> 'e list"
  mIsFull :: "'m \<Rightarrow> bool"
  mReset :: "'m \<Rightarrow> 'm"
  mModify :: "mshr_key \<Rightarrow> ('e \<Rightarrow> 'e) \<Rightarrow> 'm \<Rightarrow> 'm"

definition mk_mshr :: "('e \<Rightarrow> mshr_key) \<Rightarrow> (mshr_key \<Rightarrow> 'e) \<Rightarrow> ('e mshrImpl, 'e) mshr_ops" where
  "mk_mshr key new =
     \<lparr>mNew = NewMSHR, mQuery = mshr_Query key, mAdd = mshr_Add key new, mRemove = mshr_Remove key,
      mAllEntries = mshr_AllEntries, mIsFull = mshr_IsFull, mReset = mshr_Reset,
      mModify = modify_entry key\<rparr>"

definition cache_MSHR :: "(('r, 'b, 'rd, 'dr) MSHREntry mshrImpl, ('r, 'b, 'rd, 'dr) MSHREntry) mshr_ops" where
  "cache_MSHR = mk_mshr cache_key (\<lambda>(pid, addr). NewMSHREntry\<lparr>me_PID := pid, me_Address := addr\<rparr>)"

definition tlb_mshr :: "(('r, 'pg) tlb_mshrEntry mshrImpl, ('r, 'pg) tlb_mshrEntry) mshr_ops" where
  "tlb_mshr = mk_mshr tlb_key (\<lambda>(pid, vAddr). tlb_newMSHREntry\<lparr>te_pid := pid, te_vAddr := vAddr\<rparr>)"

definition rtu_mshr :: "(('r, 'rsp, 'pg) rtu_mshrEntry mshrImpl, ('r, 'rsp, 'pg) rtu_mshrEntry) mshr_ops" where
  "rtu_mshr = mk_mshr rtu_key (\<lambda>(pid, vAddr). rtu_newMSHREntry\<lparr>re_pid := pid, re_vAddr := vAddr\<rparr>)"

section \<open>The interface\<close>

text \<open>
  \<open>reqs\<close> reads and \<open>addreq\<close> extends the list of requests waiting in an entry; \<open>abs\<close> is the
  finite map the registers stand for.
\<close>

locale mshr =
  fixes ops :: "('m, 'e) mshr_ops"
    and inv :: "'m \<Rightarrow> bool"
    and abs :: "'m \<Rightarrow> mshr_key \<rightharpoonup> 'e"
    and cap :: "'m \<Rightarrow> int"
    and reqs :: "'e \<Rightarrow> 'r list"
    and addreq :: "'r \<Rightarrow> 'e \<Rightarrow> 'e"
  assumes new: "0 \<le> c \<Longrightarrow> inv (mNew ops c)" "abs (mNew ops c) = Map.empty" "cap (mNew ops c) = c"
    and finite_dom: "inv m \<Longrightarrow> finite (dom (abs m))"
    and allEntries: "inv m \<Longrightarrow> length (mAllEntries ops m) = card (dom (abs m))"
    and bounded: "inv m \<Longrightarrow> int (card (dom (abs m))) \<le> cap m"
    and query: "inv m \<Longrightarrow> mQuery ops k m = abs m k"
    and isFull: "inv m \<Longrightarrow> mIsFull ops m \<longleftrightarrow> int (card (dom (abs m))) = cap m"
    and add: "inv m \<Longrightarrow> abs m k = None \<Longrightarrow> \<not> mIsFull ops m \<Longrightarrow>
      \<exists>e m'. mAdd ops k m = Inr (e, m') \<and> inv m' \<and> cap m' = cap m \<and> reqs e = [] \<and> abs m' = (abs m)(k \<mapsto> e)"
    and remove: "inv m \<Longrightarrow> abs m k = Some e \<Longrightarrow>
      \<exists>m'. mRemove ops k m = Inr (e, m') \<and> inv m' \<and> cap m' = cap m \<and> abs m' = (abs m)(k := None)"
    and modify: "inv m \<Longrightarrow> abs m k = Some e \<Longrightarrow>
      inv (mModify ops k (addreq r) m) \<and> cap (mModify ops k (addreq r) m) = cap m \<and>
      abs (mModify ops k (addreq r) m) = (abs m)(k \<mapsto> addreq r e)"
    and addreq [simp]: "reqs (addreq r e) = reqs e @ [r]"

text \<open>
  The client's discipline, as the cache and TLB miss paths have it: a miss on an address that
  is already registered joins the entry; otherwise it needs a free register and stalls
  without one; a fill removes the entry and answers the requests it holds.
\<close>

datatype 'r miss_action = Miss mshr_key 'r | Fill mshr_key

definition miss ::
    "('m, 'e) mshr_ops \<Rightarrow> ('r \<Rightarrow> 'e \<Rightarrow> 'e) \<Rightarrow> mshr_key \<Rightarrow> 'r \<Rightarrow> 'm \<Rightarrow> (bool \<times> 'm) result" where
  "miss ops addreq k r m =
     (case mQuery ops k m of
        Some e \<Rightarrow> Inr (True, mModify ops k (addreq r) m)
      | None \<Rightarrow> if mIsFull ops m then Inr (False, m)
                else bindR (mAdd ops k m) (\<lambda>(e, m'). Inr (True, mModify ops k (addreq r) m')))"

definition fill ::
    "('m, 'e) mshr_ops \<Rightarrow> ('e \<Rightarrow> 'r list) \<Rightarrow> mshr_key \<Rightarrow> 'm \<Rightarrow> ('r list \<times> 'm) result" where
  "fill ops reqs k m =
     (case mQuery ops k m of
        None \<Rightarrow> Inr ([], m)
      | Some e \<Rightarrow> bindR (mRemove ops k m) (\<lambda>(e', m'). Inr (reqs e', m')))"

text \<open>A run logs what was accepted and what was served, each with its address.\<close>

fun miss_run ::
    "('m, 'e) mshr_ops \<Rightarrow> ('e \<Rightarrow> 'r list) \<Rightarrow> ('r \<Rightarrow> 'e \<Rightarrow> 'e) \<Rightarrow> 'r miss_action list \<Rightarrow> 'm \<Rightarrow>
     (mshr_key \<times> 'r) list \<Rightarrow> (mshr_key \<times> 'r) list \<Rightarrow>
     ('m \<times> (mshr_key \<times> 'r) list \<times> (mshr_key \<times> 'r) list) result" where
  "miss_run ops reqs addreq [] m acc srv = Inr (m, acc, srv)"
| "miss_run ops reqs addreq (Miss k r # as) m acc srv =
     bindR (miss ops addreq k r m) (\<lambda>(ok, m').
       miss_run ops reqs addreq as m' (if ok then acc @ [(k, r)] else acc) srv)"
| "miss_run ops reqs addreq (Fill k # as) m acc srv =
     bindR (fill ops reqs k m) (\<lambda>(rs, m').
       miss_run ops reqs addreq as m' acc (srv @ map (Pair k) rs))"

definition of_key :: "mshr_key \<Rightarrow> (mshr_key \<times> 'r) list \<Rightarrow> 'r list" where
  "of_key k xs = map snd (filter (\<lambda>x. fst x = k) xs)"

text \<open>
  The contract of a run: it does not panic, the entries fit the capacity, and per address the
  accepted requests are those served followed by those still waiting, in order.
\<close>

definition serves_once ::
    "('m, 'e) mshr_ops \<Rightarrow> ('e \<Rightarrow> 'r list) \<Rightarrow> ('r \<Rightarrow> 'e \<Rightarrow> 'e) \<Rightarrow> 'r miss_action list \<Rightarrow> 'm \<Rightarrow> int \<Rightarrow> bool" where
  "serves_once ops reqs addreq as m0 c \<longleftrightarrow>
     (\<exists>m acc srv. miss_run ops reqs addreq as m0 [] [] = Inr (m, acc, srv) \<and>
        int (length (mAllEntries ops m)) \<le> c \<and>
        (\<forall>k. of_key k acc =
           of_key k srv @ (case mQuery ops k m of None \<Rightarrow> [] | Some e \<Rightarrow> reqs e)))"

lemma of_key_append [simp]: "of_key k (xs @ ys) = of_key k xs @ of_key k ys"
  by (simp add: of_key_def)

lemma of_key_single [simp]: "of_key k [(k', r)] = (if k' = k then [r] else [])"
  by (simp add: of_key_def)

lemma of_key_map_Pair [simp]: "of_key k (map (Pair k') rs) = (if k' = k then rs else [])"
  by (induction rs) (auto simp: of_key_def)

context mshr
begin

definition waiting :: "mshr_key \<Rightarrow> 'm \<Rightarrow> 'r list" where
  "waiting k m = (case abs m k of None \<Rightarrow> [] | Some e \<Rightarrow> reqs e)"

definition balanced :: "'m \<Rightarrow> (mshr_key \<times> 'r) list \<Rightarrow> (mshr_key \<times> 'r) list \<Rightarrow> bool" where
  "balanced m acc srv \<longleftrightarrow> (\<forall>k. of_key k acc = of_key k srv @ waiting k m)"

lemma miss_step:
  assumes "inv m" "balanced m acc srv"
  shows "\<exists>ok m'. miss ops addreq k r m = Inr (ok, m') \<and> inv m' \<and> cap m' = cap m \<and>
           (ok \<longleftrightarrow> abs m k \<noteq> None \<or> \<not> mIsFull ops m) \<and>
           balanced m' (if ok then acc @ [(k, r)] else acc) srv"
proof (cases "abs m k")
  case None
  show ?thesis
  proof (cases "mIsFull ops m")
    case True
    then show ?thesis using None assms by (auto simp: miss_def query)
  next
    case False
    obtain e m' where a: "mAdd ops k m = Inr (e, m')" "inv m'" "cap m' = cap m" "reqs e = []"
      "abs m' = (abs m)(k \<mapsto> e)" using add [OF assms(1) None False] by blast
    then show ?thesis using modify [OF a(2), of k e r] None False assms
      by (auto simp: miss_def query balanced_def waiting_def)
  qed
next
  case (Some e)
  then show ?thesis using modify [OF assms(1) Some, of r] assms
    by (auto simp: miss_def query balanced_def waiting_def)
qed

lemma fill_step:
  assumes "inv m" "balanced m acc srv"
  shows "\<exists>rs m'. fill ops reqs k m = Inr (rs, m') \<and> inv m' \<and> cap m' = cap m \<and> abs m' k = None \<and>
           balanced m' acc (srv @ map (Pair k) rs)"
proof (cases "abs m k")
  case None
  then show ?thesis using assms by (simp add: fill_def query)
next
  case (Some e)
  then show ?thesis using remove [OF assms(1) Some] assms
    by (auto simp: fill_def query balanced_def waiting_def)
qed

lemma miss_run_balanced:
  assumes "inv m" "balanced m acc srv"
  shows "\<exists>m' acc' srv'. miss_run ops reqs addreq as m acc srv = Inr (m', acc', srv') \<and>
           inv m' \<and> cap m' = cap m \<and> balanced m' acc' srv'"
  using assms
proof (induction as arbitrary: m acc srv)
  case Nil
  then show ?case by simp
next
  case (Cons x as)
  show ?case
  proof (cases x)
    case (Miss k r)
    obtain ok m' where "miss ops addreq k r m = Inr (ok, m')" "inv m'" "cap m' = cap m"
      "balanced m' (if ok then acc @ [(k, r)] else acc) srv"
      using miss_step [OF Cons.prems] by blast
    then show ?thesis using Cons.IH [of m'] Miss by auto
  next
    case (Fill k)
    obtain rs m' where "fill ops reqs k m = Inr (rs, m')" "inv m'" "cap m' = cap m"
      "balanced m' acc (srv @ map (Pair k) rs)"
      using fill_step [OF Cons.prems] by blast
    then show ?thesis using Cons.IH [of m'] Fill by auto
  qed
qed

lemma new_balanced: "balanced (mNew ops c) [] []"
  by (simp add: balanced_def waiting_def new of_key_def)

lemma new_serves_once:
  assumes "0 \<le> c"
  shows "serves_once ops reqs addreq as (mNew ops c) c"
proof -
  obtain m acc srv where "miss_run ops reqs addreq as (mNew ops c) [] [] = Inr (m, acc, srv)"
    "inv m" "cap m = c" "balanced m acc srv"
    using miss_run_balanced [OF new(1) [OF assms] new_balanced, of as] new(3) [of c] by metis
  then show ?thesis using bounded [of m] by (auto simp: serves_once_def allEntries query balanced_def waiting_def)
qed

end

section \<open>The implementations provide it\<close>

definition mshr_wf :: "('e \<Rightarrow> mshr_key) \<Rightarrow> 'e mshrImpl \<Rightarrow> bool" where
  "mshr_wf key m \<longleftrightarrow> distinct (map key (mshr_entries m)) \<and> int (length (mshr_entries m)) \<le> mshr_capacity m"

definition mshr_map :: "('e \<Rightarrow> mshr_key) \<Rightarrow> 'e mshrImpl \<Rightarrow> mshr_key \<rightharpoonup> 'e" where
  "mshr_map key m k = mshr_Query key k m"

lemma dom_find_key: "dom (\<lambda>k. find (\<lambda>e. key e = k) xs) = set (map key xs)"
  by (auto simp: dom_def find_None_iff not_None_eq [symmetric] simp del: not_None_eq)

lemma find_key_append:
  "find (\<lambda>e. key e = k) (xs @ ys) =
     (case find (\<lambda>e. key e = k) xs of Some e \<Rightarrow> Some e | None \<Rightarrow> find (\<lambda>e. key e = k) ys)"
  by (induction xs) auto

lemma find_key_unique:
  "distinct (map key xs) \<Longrightarrow> i < length xs \<Longrightarrow> find (\<lambda>e. key e = key (xs ! i)) xs = Some (xs ! i)"
proof (induction xs arbitrary: i)
  case Nil
  then show ?case by simp
next
  case (Cons x xs)
  then show ?case by (cases i) (auto simp: nth_mem)
qed

lemma find_key_notin: "k \<notin> key ` set xs \<Longrightarrow> find (\<lambda>e. key e = k) xs = None"
  by (auto simp: find_None_iff)

lemma find_key_remove_at:
  assumes "distinct (map key xs)" "i < length xs"
  shows "find (\<lambda>e. key e = k) (remove_at i xs) =
           (if k = key (xs ! i) then None else find (\<lambda>e. key e = k) xs)"
  using assms
proof (induction xs arbitrary: i)
  case Nil
  then show ?case by simp
next
  case (Cons x xs)
  show ?case
  proof (cases i)
    case 0
    then show ?thesis using Cons.prems by (simp add: find_key_notin)
  next
    case (Suc j)
    then have "key (xs ! j) \<noteq> key x" using Cons.prems by (metis distinct.simps(2) imageI list.set_map list.simps(9) nth_mem Suc_less_eq length_Cons)
    then show ?thesis using Cons.IH [of j] Cons.prems Suc by (auto split: if_splits)
  qed
qed

lemma find_key_update:
  assumes "distinct (map key xs)" "i < length xs" "key y = key (xs ! i)"
  shows "find (\<lambda>e. key e = k) (xs[i := y]) = (if k = key (xs ! i) then Some y else find (\<lambda>e. key e = k) xs)"
  using assms
proof (induction xs arbitrary: i)
  case Nil
  then show ?case by simp
next
  case (Cons x xs)
  then show ?case by (cases i) (auto simp: nth_mem)
qed

lemma map_key_remove_at: "map key (remove_at i xs) = remove_at i (map key xs)"
  by (simp add: remove_at_def take_map drop_map)

lemma distinct_remove_at: "distinct xs \<Longrightarrow> distinct (remove_at i xs)"
  by (auto simp: remove_at_def distinct_append set_take_disj_set_drop_if_distinct)

lemma mshr_Query_index:
  assumes "mshr_Query key k m = Some e"
  obtains i where "find_index (\<lambda>e. key e = k) (mshr_entries m) = Some i" "i < length (mshr_entries m)"
    "mshr_entries m ! i = e" "key e = k"
  using assms by (auto simp: mshr_Query_def find_index_find find_index_Some)

lemma mshr_map_card:
  "mshr_wf key m \<Longrightarrow> card (dom (mshr_map key m)) = length (mshr_entries m)"
  using distinct_card [of "map key (mshr_entries m)"] dom_find_key [of key "mshr_entries m"]
  by (simp add: mshr_map_def [abs_def] mshr_Query_def mshr_wf_def)

lemma mshr_Add_map:
  assumes wf: "mshr_wf key m" and n: "key (new k) = k"
    and free: "mshr_map key m k = None" "\<not> mshr_IsFull m"
  shows "\<exists>m'. mshr_Add key new k m = Inr (new k, m') \<and> mshr_wf key m' \<and>
           mshr_capacity m' = mshr_capacity m \<and> mshr_map key m' = (mshr_map key m)(k \<mapsto> new k)"
proof -
  have "k \<notin> key ` set (mshr_entries m)" using free(1) by (auto simp: mshr_map_def mshr_Query_def find_None_iff)
  then show ?thesis using wf free n
    by (auto simp: mshr_Add_def mshr_wf_def mshr_map_def mshr_Query_def mshr_IsFull_def list_ex_iff
        find_key_append Let_def fun_eq_iff split: option.splits)
qed

lemma mshr_Remove_map:
  assumes wf: "mshr_wf key m" and e: "mshr_map key m k = Some e"
  shows "\<exists>m'. mshr_Remove key k m = Inr (e, m') \<and> mshr_wf key m' \<and>
           mshr_capacity m' = mshr_capacity m \<and> mshr_map key m' = (mshr_map key m)(k := None)"
proof -
  obtain i where i: "find_index (\<lambda>e. key e = k) (mshr_entries m) = Some i" "i < length (mshr_entries m)"
    "mshr_entries m ! i = e" "key e = k" by (rule mshr_Query_index [OF e [unfolded mshr_map_def]])
  then show ?thesis using wf
    by (auto simp: mshr_Remove_def mshr_wf_def map_key_remove_at distinct_remove_at mshr_map_def
        mshr_Query_def find_key_remove_at fun_eq_iff)
qed

lemma modify_entry_map:
  assumes wf: "mshr_wf key m" and e: "mshr_map key m k = Some e" and f: "key (f e) = key e"
  shows "mshr_wf key (modify_entry key k f m)" "mshr_capacity (modify_entry key k f m) = mshr_capacity m"
    "mshr_map key (modify_entry key k f m) = (mshr_map key m)(k \<mapsto> f e)"
proof -
  obtain i where i: "find_index (\<lambda>e. key e = k) (mshr_entries m) = Some i" "i < length (mshr_entries m)"
    "mshr_entries m ! i = e" "key e = k" by (rule mshr_Query_index [OF e [unfolded mshr_map_def]])
  have same: "map key ((mshr_entries m)[i := f e]) = map key (mshr_entries m)"
    using i f by (simp add: map_update list_update_same_conv)
  show "mshr_wf key (modify_entry key k f m)" "mshr_capacity (modify_entry key k f m) = mshr_capacity m"
    using wf i same by (simp_all add: modify_entry_def mshr_wf_def)
  show "mshr_map key (modify_entry key k f m) = (mshr_map key m)(k \<mapsto> f e)"
    using wf i f by (auto simp: modify_entry_def mshr_wf_def mshr_map_def mshr_Query_def find_key_update fun_eq_iff)
qed

lemma mk_mshr_mshr:
  assumes "\<And>k. key (new k) = k" "\<And>k. reqs (new k) = []"
    and "\<And>r e. key (addreq r e) = key e" "\<And>r e. reqs (addreq r e) = reqs e @ [r]"
  shows "mshr (mk_mshr key new) (mshr_wf key) (mshr_map key) mshr_capacity reqs addreq"
proof unfold_locales
  fix m k e r assume wf: "mshr_wf key m"
  show "finite (dom (mshr_map key m))"
    by (simp add: mshr_map_def [abs_def] mshr_Query_def dom_find_key)
  show "length (mAllEntries (mk_mshr key new) m) = card (dom (mshr_map key m))"
    using wf by (simp add: mshr_map_card mk_mshr_def mshr_AllEntries_def)
  show "int (card (dom (mshr_map key m))) \<le> mshr_capacity m"
    "mIsFull (mk_mshr key new) m \<longleftrightarrow> int (card (dom (mshr_map key m))) = mshr_capacity m"
    using wf by (auto simp: mshr_map_card mk_mshr_def mshr_IsFull_def mshr_wf_def)
  show "mQuery (mk_mshr key new) k m = mshr_map key m k" by (simp add: mk_mshr_def mshr_map_def)
  { assume "mshr_map key m k = None" "\<not> mIsFull (mk_mshr key new) m"
    then obtain m' where "mshr_Add key new k m = Inr (new k, m')" "mshr_wf key m'"
      "mshr_capacity m' = mshr_capacity m" "mshr_map key m' = (mshr_map key m)(k \<mapsto> new k)"
      using mshr_Add_map [OF wf, of new k] assms(1) by (auto simp: mk_mshr_def)
    then show "\<exists>e m'. mAdd (mk_mshr key new) k m = Inr (e, m') \<and> mshr_wf key m' \<and>
        mshr_capacity m' = mshr_capacity m \<and> reqs e = [] \<and> mshr_map key m' = (mshr_map key m)(k \<mapsto> e)"
      using assms(2) [of k] by (intro exI [of _ "new k"] exI [of _ m']) (simp add: mk_mshr_def) }
  assume e: "mshr_map key m k = Some e"
  show "\<exists>m'. mRemove (mk_mshr key new) k m = Inr (e, m') \<and> mshr_wf key m' \<and>
      mshr_capacity m' = mshr_capacity m \<and> mshr_map key m' = (mshr_map key m)(k := None)"
    using mshr_Remove_map [OF wf e] by (simp add: mk_mshr_def)
  show "mshr_wf key (mModify (mk_mshr key new) k (addreq r) m) \<and>
      mshr_capacity (mModify (mk_mshr key new) k (addreq r) m) = mshr_capacity m \<and>
      mshr_map key (mModify (mk_mshr key new) k (addreq r) m) = (mshr_map key m)(k \<mapsto> addreq r e)"
    using modify_entry_map [OF wf e, of "addreq r"] assms(3) by (simp add: mk_mshr_def)
qed (simp_all add: assms mk_mshr_def NewMSHR_def mshr_wf_def mshr_map_def mshr_Query_def fun_eq_iff)

definition cache_addreq :: "'r \<Rightarrow> ('r, 'b, 'rd, 'dr) MSHREntry \<Rightarrow> ('r, 'b, 'rd, 'dr) MSHREntry" where
  "cache_addreq r e = e\<lparr>me_Requests := me_Requests e @ [r]\<rparr>"

definition tlb_addreq :: "'r \<Rightarrow> ('r, 'pg) tlb_mshrEntry \<Rightarrow> ('r, 'pg) tlb_mshrEntry" where
  "tlb_addreq r e = e\<lparr>te_Requests := te_Requests e @ [r]\<rparr>"

definition rtu_addreq :: "'r \<Rightarrow> ('r, 'rsp, 'pg) rtu_mshrEntry \<Rightarrow> ('r, 'rsp, 'pg) rtu_mshrEntry" where
  "rtu_addreq r e = e\<lparr>re_Requests := re_Requests e @ [r]\<rparr>"

interpretation cm: mshr cache_MSHR "mshr_wf cache_key" "mshr_map cache_key" mshr_capacity me_Requests cache_addreq
  unfolding cache_MSHR_def
  by (rule mk_mshr_mshr) (auto simp: cache_key_def NewMSHREntry_def cache_addreq_def)

interpretation tm: mshr tlb_mshr "mshr_wf tlb_key" "mshr_map tlb_key" mshr_capacity te_Requests tlb_addreq
  unfolding tlb_mshr_def
  by (rule mk_mshr_mshr) (auto simp: tlb_key_def tlb_newMSHREntry_def tlb_addreq_def)

interpretation rm: mshr rtu_mshr "mshr_wf rtu_key" "mshr_map rtu_key" mshr_capacity re_Requests rtu_addreq
  unfolding rtu_mshr_def
  by (rule mk_mshr_mshr) (auto simp: rtu_key_def rtu_newMSHREntry_def rtu_addreq_def)

lemma mNew_mshrs: "mNew cache_MSHR = NewMSHR" "mNew tlb_mshr = NewMSHR" "mNew rtu_mshr = NewMSHR"
  by (simp_all add: cache_MSHR_def tlb_mshr_def rtu_mshr_def mk_mshr_def)

section \<open>Properties\<close>

text \<open>
  The cache's MSHR is a bounded map from (process, address) to entries: with the invariant
  (distinct keys, at most \<^verbatim>\<open>capacity\<close> entries), \<^verbatim>\<open>Add\<close> of an absent key on a non-full register
  file succeeds with an empty entry and \<^verbatim>\<open>Query\<close> then returns it, \<^verbatim>\<open>Add\<close> of a present key or on a
  full file panics with the source's message, \<^verbatim>\<open>Remove\<close> returns what \<^verbatim>\<open>Query\<close> returned and frees
  the register, \<^verbatim>\<open>Remove\<close> of an absent key panics, and no other key is affected.
\<close>

theorem cache_MSHR_is_bounded_map:
  fixes m :: "('r, 'b, 'rd, 'dr) MSHREntry mshrImpl"
  assumes wf: "mshr_wf cache_key m"
  shows "(case mQuery cache_MSHR k m of
            None \<Rightarrow>
              mRemove cache_MSHR k m = Inl (Panic ''trying to remove an non-exist entry'') \<and>
              (if mIsFull cache_MSHR m then mAdd cache_MSHR k m = Inl (Panic ''MSHR is full'')
               else \<exists>e m'. mAdd cache_MSHR k m = Inr (e, m') \<and> mshr_wf cache_key m' \<and> me_Requests e = [] \<and>
                      (\<forall>k'. mQuery cache_MSHR k' m' = (if k' = k then Some e else mQuery cache_MSHR k' m)))
          | Some e \<Rightarrow>
              mAdd cache_MSHR k m = Inl (Panic ''entry already in mshr'') \<and>
              (\<exists>m'. mRemove cache_MSHR k m = Inr (e, m') \<and> mshr_wf cache_key m' \<and> \<not> mIsFull cache_MSHR m' \<and>
                    (\<forall>k'. mQuery cache_MSHR k' m' = (if k' = k then None else mQuery cache_MSHR k' m))))"
proof (cases "mQuery cache_MSHR k m")
  case None
  then have abs: "mshr_map cache_key m k = None" using cm.query [OF wf, of k] by simp
  then have no: "\<forall>e \<in> set (mshr_entries m). cache_key e \<noteq> k"
    by (simp add: mshr_map_def mshr_Query_def find_None_iff)
  have "mRemove cache_MSHR k m = Inl (Panic ''trying to remove an non-exist entry'')"
    using no find_index_None [of "\<lambda>e. cache_key e = k" "mshr_entries m"]
    by (simp add: cache_MSHR_def mk_mshr_def mshr_Remove_def)
  moreover have "mAdd cache_MSHR k m = Inl (Panic ''MSHR is full'')" if "mIsFull cache_MSHR m"
    using no that by (auto simp: cache_MSHR_def mk_mshr_def mshr_Add_def mshr_IsFull_def list_ex_iff)
  moreover have "\<exists>e m'. mAdd cache_MSHR k m = Inr (e, m') \<and> mshr_wf cache_key m' \<and> me_Requests e = [] \<and>
      (\<forall>k'. mQuery cache_MSHR k' m' = (if k' = k then Some e else mQuery cache_MSHR k' m))"
    if "\<not> mIsFull cache_MSHR m"
    using cm.add [OF wf abs that] cm.query wf by (auto simp: cm.query)
  ultimately show ?thesis using None by simp
next
  case (Some e)
  then have abs: "mshr_map cache_key m k = Some e" using cm.query [OF wf, of k] by simp
  then have "\<exists>e \<in> set (mshr_entries m). cache_key e = k"
    by (auto simp: mshr_map_def mshr_Query_def find_Some_iff intro: nth_mem)
  then have "mAdd cache_MSHR k m = Inl (Panic ''entry already in mshr'')"
    by (auto simp: cache_MSHR_def mk_mshr_def mshr_Add_def list_ex_iff)
  moreover obtain m' where m': "mRemove cache_MSHR k m = Inr (e, m')" "mshr_wf cache_key m'"
    "mshr_capacity m' = mshr_capacity m" "mshr_map cache_key m' = (mshr_map cache_key m)(k := None)"
    using cm.remove [OF wf abs] by blast
  moreover have "card (dom (mshr_map cache_key m')) < card (dom (mshr_map cache_key m))"
    using abs cm.finite_dom [OF wf] by (auto simp: m'(4) intro!: psubset_card_mono)
  then have "\<not> mIsFull cache_MSHR m'"
    using cm.isFull [OF m'(2)] cm.bounded [OF wf] m'(3) by simp
  ultimately show ?thesis using Some wf by (simp add: cm.query)
qed

theorem cache_MSHR_is_bounded_map_witness:
  "\<exists>e m'. mAdd cache_MSHR (1, 64) (NewMSHR 2 :: (nat, nat, nat, nat) MSHREntry mshrImpl) = Inr (e, m') \<and>
          mQuery cache_MSHR (1, 64) m' = Some e"
proof -
  have q: "mQuery cache_MSHR (1, 64) (NewMSHR 2 :: (nat, nat, nat, nat) MSHREntry mshrImpl) = None"
    "\<not> mIsFull cache_MSHR (NewMSHR 2 :: (nat, nat, nat, nat) MSHREntry mshrImpl)"
    by (simp_all add: cache_MSHR_def mk_mshr_def NewMSHR_def mshr_Query_def mshr_IsFull_def)
  have "mshr_wf cache_key (NewMSHR 2 :: (nat, nat, nat, nat) MSHREntry mshrImpl)"
    by (simp add: mshr_wf_def NewMSHR_def)
  from cache_MSHR_is_bounded_map [OF this, of "(1, 64)"] q show ?thesis by auto
qed

text \<open>
  Claim C14. No miss is lost or answered twice: whatever the interleaving of misses (each joining the
  entry of its address, taking a free register, or stalling) and fills, a client of any of the
  three MSHRs never panics and never exceeds the capacity, and for every address the accepted
  requests are, in order, those already answered followed by those waiting in the entry.
\<close>

theorem mshr_serves_every_miss_once:
  assumes "0 \<le> c"
  shows "serves_once cache_MSHR me_Requests cache_addreq as (NewMSHR c :: ('r, 'b, 'rd, 'dr) MSHREntry mshrImpl) c \<and>
         serves_once tlb_mshr te_Requests tlb_addreq as (NewMSHR c :: ('r, 'pg) tlb_mshrEntry mshrImpl) c \<and>
         serves_once rtu_mshr re_Requests rtu_addreq as (NewMSHR c :: ('r, 'rsp, 'pg) rtu_mshrEntry mshrImpl) c"
  using cm.new_serves_once [OF assms] tm.new_serves_once [OF assms] rm.new_serves_once [OF assms]
  by (auto simp: mNew_mshrs)

theorem mshr_serves_every_miss_once_witness:
  "serves_once tlb_mshr te_Requests tlb_addreq
     [Miss (1, 64) 7, Miss (1, 64) 8, Miss (1, 128) 9, Fill (1, 64), Miss (1, 128) (10::nat)]
     (NewMSHR 1 :: (nat, nat) tlb_mshrEntry mshrImpl) 1"
  by (rule mshr_serves_every_miss_once [of 1, THEN conjunct2, THEN conjunct1]) simp

end
