(* ===== verification/Low_Module.thy ===== *)
theory Low_Module
  imports Prelude
begin

text \<open>
  Which lower module serves an address: the finders of \<^verbatim>\<open>mem/cache/lowmodulefinder.go\<close>,
  \<^verbatim>\<open>mem/cache/hashlowmodulefinder.go\<close> and \<^verbatim>\<open>mem/cache/twolevellowmodulefinder.go\<close>, and the
  \<^verbatim>\<open>InterleavingConverter\<close> of the memory controllers
  (\<^verbatim>\<open>mem/idealmemcontroller/addressconverter.go\<close>, repeated in
  \<^verbatim>\<open>mem/dram/internal/addressmapping/addressconverter.go\<close>), which undoes the interleaving.

  The lemmas connect them: the finder that looks from outside and the ones that decide
  between local and remote agree, exactly one chiplet owns an address, the controller a
  finder names accepts the address, and the internal address determines the external one.
  A port is an element of \<open>'p\<close>, \<^verbatim>\<open>nil\<close> is \<open>None\<close>.
\<close>

unbundle bit_operations_syntax

section \<open>\<^verbatim>\<open>lowmodulefinder.go\<close>\<close>

record 'p SingleLowModuleFinder =
  single_LowModule :: "'p option"

definition Single_Find :: "'p SingleLowModuleFinder \<Rightarrow> u64 \<Rightarrow> 'p option result" where
  "Single_Find f address = Inr (single_LowModule f)"

record 'p InterleavedLowModuleFinder =
  il_UseAddressSpaceLimitation :: bool
  il_LowAddress :: u64
  il_HighAddress :: u64
  il_InterleavingSize :: u64
  il_LowModules :: "'p list"
  il_ModuleForOtherAddresses :: "'p option"

text \<open>Reading \<^verbatim>\<open>modules[i]\<close> with a \<^verbatim>\<open>uint64\<close> index, and the division of \<^verbatim>\<open>uint64\<close> that panics on zero.\<close>

definition module_at :: "'p list \<Rightarrow> u64 \<Rightarrow> 'p option result" where
  "module_at ms i = bindR (slice_get ms (unat i)) (\<lambda>p. Inr (Some p))"

definition udiv :: "u64 \<Rightarrow> u64 \<Rightarrow> u64 result" where
  "udiv a b = (if b = 0 then Inl DivideByZero else Inr (a div b))"

definition umod :: "u64 \<Rightarrow> u64 \<Rightarrow> u64 result" where
  "umod a b = (if b = 0 then Inl DivideByZero else Inr (a mod b))"

definition Interleaved_Find :: "'p InterleavedLowModuleFinder \<Rightarrow> u64 \<Rightarrow> 'p option result" where
  "Interleaved_Find f address =
     (if il_UseAddressSpaceLimitation f \<and> (il_HighAddress f \<le> address \<or> address < il_LowAddress f)
      then Inr (il_ModuleForOtherAddresses f)
      else bindR (udiv address (il_InterleavingSize f)) (\<lambda>q.
           bindR (umod q (of_nat (length (il_LowModules f)))) (\<lambda>number.
           module_at (il_LowModules f) number)))"

definition NewInterleavedLowModuleFinder :: "u64 \<Rightarrow> 'p InterleavedLowModuleFinder" where
  "NewInterleavedLowModuleFinder interleavingSize =
     \<lparr>il_UseAddressSpaceLimitation = False, il_LowAddress = 0, il_HighAddress = 0,
      il_InterleavingSize = interleavingSize, il_LowModules = [], il_ModuleForOtherAddresses = None\<rparr>"

record 'p BankedLowModuleFinder =
  bk_MemAddrOffset :: u64
  bk_BankSize :: u64
  bk_LowModules :: "'p list"

definition Banked_Find :: "'p BankedLowModuleFinder \<Rightarrow> u64 \<Rightarrow> 'p option result" where
  "Banked_Find f address0 =
     (let address = address0 - bk_MemAddrOffset f in
      bindR (udiv address (bk_BankSize f)) (\<lambda>i. module_at (bk_LowModules f) i))"

definition NewBankedLowModuleFinder :: "u64 \<Rightarrow> u64 \<Rightarrow> 'p BankedLowModuleFinder" where
  "NewBankedLowModuleFinder memAddrOffset bankSize =
     \<lparr>bk_MemAddrOffset = memAddrOffset, bk_BankSize = bankSize, bk_LowModules = []\<rparr>"

record 'p XORLowModuleFinder =
  xo_NumLowModules :: int
  xo_NumTerms :: nat
  xo_NumBitsPerTerm :: nat
  xo_OffsetBits :: nat
  xo_LowModules :: "'p list"

text \<open>The loop over the terms, shared by the two XOR finders.\<close>

fun xor_loop :: "u64 \<Rightarrow> nat \<Rightarrow> nat \<Rightarrow> u64 \<Rightarrow> u64 \<Rightarrow> u64" where
  "xor_loop m bits 0 index address = index"
| "xor_loop m bits (Suc i) index address =
     xor_loop m bits i (index XOR (address AND m)) (drop_bit bits address)"

definition xor_index :: "nat \<Rightarrow> nat \<Rightarrow> nat \<Rightarrow> u64 \<Rightarrow> u64" where
  "xor_index terms bits offsetBits address =
     xor_loop (push_bit bits 1 - 1) bits terms 0 (drop_bit offsetBits address)"

definition XOR_Find :: "'p XORLowModuleFinder \<Rightarrow> u64 \<Rightarrow> 'p option result" where
  "XOR_Find f address =
     module_at (xo_LowModules f)
       (xor_index (xo_NumTerms f) (xo_NumBitsPerTerm f) (xo_OffsetBits f) address)"

definition NewXORLowModuleFinder :: "int \<Rightarrow> nat \<Rightarrow> nat \<Rightarrow> nat \<Rightarrow> 'p XORLowModuleFinder" where
  "NewXORLowModuleFinder numModules numTerms numBitsPerTerm offsetBits =
     \<lparr>xo_NumLowModules = numModules, xo_NumTerms = numTerms, xo_NumBitsPerTerm = numBitsPerTerm,
      xo_OffsetBits = offsetBits, xo_LowModules = []\<rparr>"

record 'p StripedLowModuleFinder =
  st_MemAddrOffset :: u64
  st_NumBanks :: u64
  st_Striping :: u64
  st_LowModules :: "'p list"

definition stripe_index :: "u64 \<Rightarrow> u64 \<Rightarrow> u64 \<Rightarrow> u64 \<Rightarrow> u64 result" where
  "stripe_index memAddrOffset numBanks striping address0 =
     (let address = address0 - memAddrOffset in
      bindR (umod address (numBanks * striping)) (\<lambda>r. udiv r striping))"

definition Striped_Find :: "'p StripedLowModuleFinder \<Rightarrow> u64 \<Rightarrow> 'p option result" where
  "Striped_Find f address =
     bindR (stripe_index (st_MemAddrOffset f) (st_NumBanks f) (st_Striping f) address) (\<lambda>i.
       module_at (st_LowModules f) i)"

definition NewStripedLowModuleFinder :: "u64 \<Rightarrow> u64 \<Rightarrow> u64 \<Rightarrow> 'p StripedLowModuleFinder" where
  "NewStripedLowModuleFinder memAddrOffset numBanks striping =
     \<lparr>st_MemAddrOffset = memAddrOffset, st_NumBanks = numBanks, st_Striping = striping, st_LowModules = []\<rparr>"

record 'p StripedLocalVRemoteLowModuleFinder =
  lr_MemAddrOffset :: u64
  lr_NumBanks :: u64
  lr_Striping :: u64
  lr_LocalBankStart :: u64
  lr_LocalBankEnd :: u64
  lr_LowModules :: "'p list"
  lr_ModuleForOtherAddresses :: "'p option"

definition StripedLocalVRemote_Find :: "'p StripedLocalVRemoteLowModuleFinder \<Rightarrow> u64 \<Rightarrow> 'p option result" where
  "StripedLocalVRemote_Find f address =
     bindR (stripe_index (lr_MemAddrOffset f) (lr_NumBanks f) (lr_Striping f) address) (\<lambda>i.
       if lr_LocalBankStart f \<le> i \<and> i \<le> lr_LocalBankEnd f
       then module_at (lr_LowModules f) (i - lr_LocalBankStart f)
       else Inr (lr_ModuleForOtherAddresses f))"

definition NewStripedLocalVRemoteLowModuleFinder ::
    "u64 \<Rightarrow> u64 \<Rightarrow> u64 \<Rightarrow> u64 \<Rightarrow> u64 \<Rightarrow> 'p StripedLocalVRemoteLowModuleFinder" where
  "NewStripedLocalVRemoteLowModuleFinder memAddrOffset numBanks striping start endBank =
     \<lparr>lr_MemAddrOffset = memAddrOffset, lr_NumBanks = numBanks, lr_Striping = striping,
      lr_LocalBankStart = start, lr_LocalBankEnd = endBank, lr_LowModules = [],
      lr_ModuleForOtherAddresses = None\<rparr>"

section \<open>\<^verbatim>\<open>hashlowmodulefinder.go\<close>\<close>

text \<open>
  The default hash function is a closure over the finder, so it sees the modules added
  later: a hash takes the current number of modules.
\<close>

record 'p HashLowModuleFinder =
  ha_Hashfunc :: "nat \<Rightarrow> u64 \<Rightarrow> u64 result"
  ha_LowModules :: "'p list"
  ha_offsetBits :: u64

definition Hash_Find :: "'p HashLowModuleFinder \<Rightarrow> u64 \<Rightarrow> 'p option result" where
  "Hash_Find d address0 =
     (let address = drop_bit (unat (ha_offsetBits d)) address0 in
      bindR (ha_Hashfunc d (length (ha_LowModules d)) address) (\<lambda>port. module_at (ha_LowModules d) port))"

definition NewHashLowModuleFinder :: "u64 \<Rightarrow> 'p HashLowModuleFinder" where
  "NewHashLowModuleFinder offsetBits =
     \<lparr>ha_Hashfunc = (\<lambda>n address. umod address (of_nat n)), ha_LowModules = [], ha_offsetBits = offsetBits\<rparr>"

definition WithHashFunction :: "'p HashLowModuleFinder \<Rightarrow> (u64 \<Rightarrow> u64 result) \<Rightarrow> 'p HashLowModuleFinder" where
  "WithHashFunction d hashfunc = d\<lparr>ha_Hashfunc := (\<lambda>n. hashfunc)\<rparr>"

section \<open>\<^verbatim>\<open>twolevellowmodulefinder.go\<close>\<close>

record 'p TwoLevelLowModuleFinder =
  tl_UseAddressSpaceLimitation :: bool
  tl_LowAddress :: u64
  tl_HighAddress :: u64
  tl_OuterBankSize :: u64
  tl_NumOuterBanks :: u64
  tl_InnerInterleavingSize :: u64
  tl_NumInnerBanks :: u64
  tl_LowModules :: "'p list"
  tl_ModuleForOtherAddresses :: "'p option"

definition TwoLevel_Find :: "'p TwoLevelLowModuleFinder \<Rightarrow> u64 \<Rightarrow> 'p option result" where
  "TwoLevel_Find d address0 =
     (if tl_UseAddressSpaceLimitation d \<and> (tl_HighAddress d \<le> address0 \<or> address0 < tl_LowAddress d)
      then Inl (Panic ''panicking because addres out of range haha'')
      else let address = address0 - tl_LowAddress d in
        bindR (udiv address (tl_OuterBankSize d)) (\<lambda>chipletNumber.
          let offsetWithinChiplet = address - (chipletNumber * tl_OuterBankSize d) in
          bindR (udiv offsetWithinChiplet (tl_InnerInterleavingSize d)) (\<lambda>q.
          bindR (umod q (tl_NumInnerBanks d)) (\<lambda>bankNumber.
          module_at (tl_LowModules d) (chipletNumber * tl_NumInnerBanks d + bankNumber)))))"

definition NewTwoLevelLowModuleFinder ::
    "u64 \<Rightarrow> u64 \<Rightarrow> u64 \<Rightarrow> u64 \<Rightarrow> u64 \<Rightarrow> u64 \<Rightarrow> 'p TwoLevelLowModuleFinder" where
  "NewTwoLevelLowModuleFinder lowAddress highAddress outerBankSize numOuterBanks innerSize numInnerBanks =
     \<lparr>tl_UseAddressSpaceLimitation = True, tl_LowAddress = lowAddress, tl_HighAddress = highAddress,
      tl_OuterBankSize = outerBankSize, tl_NumOuterBanks = numOuterBanks,
      tl_InnerInterleavingSize = innerSize, tl_NumInnerBanks = numInnerBanks,
      tl_LowModules = [], tl_ModuleForOtherAddresses = None\<rparr>"

record 'p LocalInterleavedLowModuleFinder =
  li_LocalLowModuleID :: u64
  li_NumLowModules :: u64
  li_InterleavingSize :: u64
  li_LocalLowModule :: "'p option"
  li_RemoteLowModule :: "'p option"

definition LocalInterleaved_Find :: "'p LocalInterleavedLowModuleFinder \<Rightarrow> u64 \<Rightarrow> 'p option result" where
  "LocalInterleaved_Find f address =
     bindR (udiv address (li_InterleavingSize f)) (\<lambda>q.
     bindR (umod q (li_NumLowModules f)) (\<lambda>number.
       if number = li_LocalLowModuleID f then Inr (li_LocalLowModule f) else Inr (li_RemoteLowModule f)))"

definition NewLocalInterleavedLowModuleFinder :: "u64 \<Rightarrow> u64 \<Rightarrow> u64 \<Rightarrow> 'p LocalInterleavedLowModuleFinder" where
  "NewLocalInterleavedLowModuleFinder localID numModules interleavingSize =
     \<lparr>li_LocalLowModuleID = localID, li_NumLowModules = numModules, li_InterleavingSize = interleavingSize,
      li_LocalLowModule = None, li_RemoteLowModule = None\<rparr>"

record 'p LocalXORLowModuleFinder =
  lx_LocalLowModuleID :: u64
  lx_NumLowModules :: u64
  lx_NumTerms :: nat
  lx_NumBitsPerTerm :: nat
  lx_OffsetBits :: nat
  lx_LocalLowModule :: "'p option"
  lx_RemoteLowModule :: "'p option"

definition LocalXOR_Find :: "'p LocalXORLowModuleFinder \<Rightarrow> u64 \<Rightarrow> 'p option result" where
  "LocalXOR_Find f address =
     (if xor_index (lx_NumTerms f) (lx_NumBitsPerTerm f) (lx_OffsetBits f) address = lx_LocalLowModuleID f
      then Inr (lx_LocalLowModule f) else Inr (lx_RemoteLowModule f))"

definition NewLocalXORLowModuleFinder :: "u64 \<Rightarrow> u64 \<Rightarrow> nat \<Rightarrow> nat \<Rightarrow> nat \<Rightarrow> 'p LocalXORLowModuleFinder" where
  "NewLocalXORLowModuleFinder localID numModules numTerms numBitsPerTerm offsetBits =
     \<lparr>lx_LocalLowModuleID = localID, lx_NumLowModules = numModules, lx_NumTerms = numTerms,
      lx_NumBitsPerTerm = numBitsPerTerm, lx_OffsetBits = offsetBits,
      lx_LocalLowModule = None, lx_RemoteLowModule = None\<rparr>"

record 'p CustomTwoLevelLowModuleFinder =
  cu_LocalLowModuleID :: u64
  cu_LocalLowModule :: "'p option"
  cu_RemoteLowModule :: "'p option"
  cu_Hashfunc :: "u64 \<Rightarrow> u64"
  cu_PrivateMode :: bool
  cu_offsetBits :: u64

definition CustomTwoLevel_Find :: "'p CustomTwoLevelLowModuleFinder \<Rightarrow> u64 \<Rightarrow> 'p option result" where
  "CustomTwoLevel_Find f address0 =
     (if cu_PrivateMode f then Inr (cu_LocalLowModule f)
      else let address = drop_bit (unat (cu_offsetBits f)) address0; index = cu_Hashfunc f address in
        if index = cu_LocalLowModuleID f then Inr (cu_LocalLowModule f) else Inr (cu_RemoteLowModule f))"

definition NewCustomTwoLevelLowModuleFinder :: "u64 \<Rightarrow> u64 \<Rightarrow> 'p CustomTwoLevelLowModuleFinder" where
  "NewCustomTwoLevelLowModuleFinder offsetBits localID =
     \<lparr>cu_LocalLowModuleID = localID, cu_LocalLowModule = None, cu_RemoteLowModule = None,
      cu_Hashfunc = (\<lambda>address. address mod 4), cu_PrivateMode = False, cu_offsetBits = offsetBits\<rparr>"

section \<open>The address converters\<close>

record InterleavingConverter =
  ic_InterleavingSize :: u64
  ic_TotalNumOfElements :: int
  ic_CurrentElementIndex :: int
  ic_Offset :: u64

definition ConvertExternalToInternal :: "InterleavingConverter \<Rightarrow> u64 \<Rightarrow> u64 result" where
  "ConvertExternalToInternal c external =
     (if external < ic_Offset c then Inl (Panic ''address is smaller than offset'')
      else let addr = external - ic_Offset c;
               roundSize = ic_InterleavingSize c * of_int (ic_TotalNumOfElements c) in
        bindR (umod addr roundSize) (\<lambda>r.
        bindR (udiv r (ic_InterleavingSize c)) (\<lambda>b.
          let belongsTo = sint b in
          if belongsTo \<noteq> ic_CurrentElementIndex c then Inl (Panic ''address does not belongs to current element'')
          else Inr (addr div roundSize * ic_InterleavingSize c + external mod ic_InterleavingSize c))))"

definition ConvertInternalToExternal :: "InterleavingConverter \<Rightarrow> u64 \<Rightarrow> u64 result" where
  "ConvertInternalToExternal c internal = Inl (Panic ''this function should never be called'')"

section \<open>One owner per address\<close>

text \<open>
  What the two views of one interleaved space promise each other: a configuration has a
  list of modules, the global finder names the module at the address's home position, and
  the finder of position \<open>i\<close> answers with its local port exactly for the addresses whose home
  is \<open>i\<close>.
\<close>

locale home_map =
  fixes valid :: "'c \<Rightarrow> bool"
    and modules :: "'c \<Rightarrow> 'p list"
    and home :: "'c \<Rightarrow> u64 \<Rightarrow> nat"
    and gfind :: "'c \<Rightarrow> u64 \<Rightarrow> 'p option result"
    and lfind :: "'c \<Rightarrow> nat \<Rightarrow> 'p \<Rightarrow> 'p \<Rightarrow> u64 \<Rightarrow> 'p option result"
  assumes home_less: "valid c \<Longrightarrow> home c a < length (modules c)"
    and gfind_home: "valid c \<Longrightarrow> gfind c a = Inr (Some (modules c ! home c a))"
    and lfind_home: "valid c \<Longrightarrow> i < length (modules c) \<Longrightarrow>
      lfind c i loc rem a = Inr (Some (if i = home c a then loc else rem))"
begin

lemma unique_owner:
  assumes "valid c" "loc \<noteq> rem"
  shows "\<exists>!i. i < length (modules c) \<and> lfind c i loc rem a = Inr (Some loc)"
  using assms home_less [of c a] by (intro ex1I [of _ "home c a"]) (auto simp: lfind_home split: if_splits)

lemma owner_serves:
  assumes "valid c" "loc \<noteq> rem" "distinct (modules c)" "i < length (modules c)"
  shows "lfind c i loc rem a = Inr (Some loc) \<longleftrightarrow> gfind c a = Inr (Some (modules c ! i))"
  using assms home_less [of c a] by (auto simp: lfind_home gfind_home nth_eq_iff_index_eq)

end

definition il_valid :: "'p InterleavedLowModuleFinder \<Rightarrow> bool" where
  "il_valid f \<longleftrightarrow> \<not> il_UseAddressSpaceLimitation f \<and> il_InterleavingSize f \<noteq> 0 \<and>
     0 < length (il_LowModules f) \<and> length (il_LowModules f) < 2 ^ 64"

definition il_home :: "'p InterleavedLowModuleFinder \<Rightarrow> u64 \<Rightarrow> nat" where
  "il_home f a = unat a div unat (il_InterleavingSize f) mod length (il_LowModules f)"

definition il_local :: "'p InterleavedLowModuleFinder \<Rightarrow> nat \<Rightarrow> 'p \<Rightarrow> 'p \<Rightarrow> u64 \<Rightarrow> 'p option result" where
  "il_local f i loc rem =
     LocalInterleaved_Find
       ((NewLocalInterleavedLowModuleFinder (of_nat i) (of_nat (length (il_LowModules f))) (il_InterleavingSize f))
          \<lparr>li_LocalLowModule := Some loc, li_RemoteLowModule := Some rem\<rparr>)"

lemma word_of_nat_neq_0: "0 < n \<Longrightarrow> n < 2 ^ 64 \<Longrightarrow> (of_nat n :: u64) \<noteq> 0"
  by (auto simp: word_of_nat_eq_0_iff dest: nat_dvd_not_less)

lemma word_eq_of_nat_iff: "n < 2 ^ 64 \<Longrightarrow> (x::u64) = of_nat n \<longleftrightarrow> unat x = n"
  by (auto simp: unat_of_nat word_unat_eq_iff)

lemma il_number:
  assumes "0 < n" "n < 2 ^ 64"
  shows "unat (a div s mod (of_nat n :: u64)) = unat a div unat s mod n"
  using assms by (simp add: unat_mod_distrib unat_div_distrib unat_of_nat)

interpretation il: home_map il_valid il_LowModules il_home Interleaved_Find il_local
proof unfold_locales
  fix f :: "'p InterleavedLowModuleFinder" and a i loc rem
  assume v: "il_valid f"
  note n = il_number [of "length (il_LowModules f)" a "il_InterleavingSize f"]
  show lt: "il_home f a < length (il_LowModules f)" using v by (simp add: il_home_def il_valid_def)
  show "Interleaved_Find f a = Inr (Some (il_LowModules f ! il_home f a))"
    using v lt n by (simp add: Interleaved_Find_def il_valid_def udiv_def umod_def module_at_def
        word_of_nat_neq_0 il_home_def)
  assume "i < length (il_LowModules f)"
  then have "i < 2 ^ 64" using v by (simp add: il_valid_def)
  then show "il_local f i loc rem a = Inr (Some (if i = il_home f a then loc else rem))"
    using v n word_eq_of_nat_iff [of i]
    by (auto simp: il_local_def LocalInterleaved_Find_def NewLocalInterleavedLowModuleFinder_def
        il_valid_def udiv_def umod_def word_of_nat_neq_0 il_home_def)
qed

section \<open>The XOR hash\<close>

lemma xor_loop_linear:
  "xor_loop m bits n (i XOR j) (a XOR b) = xor_loop m bits n i a XOR xor_loop m bits n j b"
proof (induction n arbitrary: i j a b)
  case 0
  then show ?case by simp
next
  case (Suc n)
  have "(i XOR j) XOR ((a XOR b) AND m) = (i XOR (a AND m)) XOR (j XOR (b AND m))"
    by (simp add: bit_eq_iff bit_xor_iff bit_and_iff) blast
  moreover have "drop_bit bits (a XOR b) = drop_bit bits a XOR drop_bit bits b"
    by (simp add: drop_bit_xor)
  ultimately show ?case using Suc by simp
qed

lemma xor_loop_zero: "xor_loop m bits n i 0 = i"
  by (induction n arbitrary: i) simp_all

lemma xor_loop_masked: "i AND m = i \<Longrightarrow> xor_loop m bits n i a AND m = xor_loop m bits n i a"
proof (induction n arbitrary: i a)
  case 0
  then show ?case by simp
next
  case (Suc n)
  have "(i XOR (a AND m)) AND m = i XOR (a AND m)"
    using Suc.prems by (simp add: bit_eq_iff bit_xor_iff bit_and_iff) blast
  then show ?case using Suc.IH by simp
qed

lemma term_mask: "(push_bit bits 1 - 1 :: u64) = mask bits"
  by (simp add: mask_eq_exp_minus_1 push_bit_eq_mult)

lemma xor_index_mask: "xor_index terms bits off a = xor_loop (mask bits) bits terms 0 (drop_bit off a)"
  unfolding xor_index_def term_mask by (rule refl)

lemma xor_index_less: "bits < 64 \<Longrightarrow> unat (xor_index terms bits off a) < 2 ^ bits"
proof -
  assume "bits < 64"
  have "take_bit bits (xor_index terms bits off a) = xor_index terms bits off a"
    using xor_loop_masked [of 0 "mask bits"] by (simp add: xor_index_mask take_bit_eq_mask)
  then have "take_bit bits (unat (xor_index terms bits off a)) = unat (xor_index terms bits off a)"
    by (metis unsigned_take_bit_eq)
  then show ?thesis by (metis take_bit_nat_less_exp)
qed

lemma xor_index_shift:
  assumes "off + bits \<le> 64" "bits < 64" "0 < terms" "d < 2 ^ bits"
  shows "xor_index terms bits off (a XOR push_bit off (of_nat d)) = xor_index terms bits off a XOR of_nat d"
proof -
  obtain n where n: "terms = Suc n" using assms(3) by (cases terms) auto
  have td: "take_bit bits (of_nat d :: u64) = of_nat d"
    using assms(4) by (metis of_nat_take_bit take_bit_nat_eq_self)
  have "drop_bit off (push_bit off (of_nat d :: u64)) = of_nat d"
    by (rule bit_word_eqI)
       (use assms(1) td in \<open>auto simp: bit_drop_bit_eq bit_push_bit_iff bit_take_bit_iff bit_eq_iff\<close>)
  then have *: "drop_bit off (a XOR push_bit off (of_nat d)) = drop_bit off a XOR of_nat d"
    by (simp add: drop_bit_xor)
  have "drop_bit bits (of_nat d :: u64) = 0" "of_nat d AND mask bits = (of_nat d :: u64)"
    using td by (metis drop_bit_take_bit diff_self_eq_0 take_bit_0, metis take_bit_eq_mask)
  then have "xor_loop (mask bits) bits terms 0 (of_nat d :: u64) = of_nat d"
    by (simp add: n xor_loop_zero)
  then show ?thesis
    using xor_loop_linear [of "mask bits" bits terms 0 0 "drop_bit off a" "of_nat d"]
    unfolding xor_index_mask * by simp
qed

lemma xor_cancel: "(i::u64) XOR x = i XOR y \<longleftrightarrow> x = y"
proof
  assume "i XOR x = i XOR y"
  then have "i XOR (i XOR x) = i XOR (i XOR y)" by simp
  then show "x = y" by (simp only: xor.assoc [symmetric] xor_self_eq xor.left_neutral)
qed simp

definition xo_valid :: "'p XORLowModuleFinder \<Rightarrow> bool" where
  "xo_valid f \<longleftrightarrow> xo_NumBitsPerTerm f < 64 \<and> length (xo_LowModules f) = 2 ^ xo_NumBitsPerTerm f"

definition xo_home :: "'p XORLowModuleFinder \<Rightarrow> u64 \<Rightarrow> nat" where
  "xo_home f a = unat (xor_index (xo_NumTerms f) (xo_NumBitsPerTerm f) (xo_OffsetBits f) a)"

definition xo_local :: "'p XORLowModuleFinder \<Rightarrow> nat \<Rightarrow> 'p \<Rightarrow> 'p \<Rightarrow> u64 \<Rightarrow> 'p option result" where
  "xo_local f i loc rem =
     LocalXOR_Find
       ((NewLocalXORLowModuleFinder (of_nat i) (of_int (xo_NumLowModules f)) (xo_NumTerms f)
           (xo_NumBitsPerTerm f) (xo_OffsetBits f))
          \<lparr>lx_LocalLowModule := Some loc, lx_RemoteLowModule := Some rem\<rparr>)"

interpretation xo: home_map xo_valid xo_LowModules xo_home XOR_Find xo_local
proof unfold_locales
  fix f :: "'p XORLowModuleFinder" and a i loc rem
  assume v: "xo_valid f"
  show lt: "xo_home f a < length (xo_LowModules f)"
    using v xor_index_less by (simp add: xo_valid_def xo_home_def)
  show "XOR_Find f a = Inr (Some (xo_LowModules f ! xo_home f a))"
    using lt by (simp add: XOR_Find_def module_at_def xo_home_def)
  assume "i < length (xo_LowModules f)"
  moreover have "(2::nat) ^ xo_NumBitsPerTerm f \<le> 2 ^ 64"
    using v unfolding xo_valid_def by (intro power_increasing) simp_all
  ultimately have "i < 2 ^ 64" using v unfolding xo_valid_def by linarith
  then show "xo_local f i loc rem a = Inr (Some (if i = xo_home f a then loc else rem))"
    using word_eq_of_nat_iff [of i]
    by (auto simp: xo_local_def LocalXOR_Find_def NewLocalXORLowModuleFinder_def xo_home_def)
qed

section \<open>Interleaving and its inverse\<close>

definition converter_of :: "'p StripedLowModuleFinder \<Rightarrow> nat \<Rightarrow> InterleavingConverter" where
  "converter_of f i =
     \<lparr>ic_InterleavingSize = st_Striping f, ic_TotalNumOfElements = int (unat (st_NumBanks f)),
      ic_CurrentElementIndex = int i, ic_Offset = st_MemAddrOffset f\<rparr>"

definition st_valid :: "'p StripedLowModuleFinder \<Rightarrow> bool" where
  "st_valid f \<longleftrightarrow> st_Striping f \<noteq> 0 \<and> st_NumBanks f \<noteq> 0 \<and>
     unat (st_NumBanks f) * unat (st_Striping f) < 2 ^ 64 \<and> unat (st_NumBanks f) < 2 ^ 63 \<and>
     length (st_LowModules f) = unat (st_NumBanks f) \<and> unat (st_Striping f) dvd unat (st_MemAddrOffset f)"

definition st_home :: "'p StripedLowModuleFinder \<Rightarrow> u64 \<Rightarrow> nat" where
  "st_home f a = (unat a - unat (st_MemAddrOffset f)) mod (unat (st_NumBanks f) * unat (st_Striping f))
     div unat (st_Striping f)"

lemma st_home_less:
  assumes "st_valid f"
  shows "st_home f a < unat (st_NumBanks f)"
proof -
  have "0 < unat (st_NumBanks f) * unat (st_Striping f)"
    using assms by (simp add: st_valid_def unat_gt_0)
  then show ?thesis unfolding st_home_def by (intro less_mult_imp_div_less mod_less_divisor)
qed

lemma unat_round: "st_valid f \<Longrightarrow> unat (st_NumBanks f * st_Striping f) = unat (st_NumBanks f) * unat (st_Striping f)"
  by (simp add: st_valid_def unat_word_ariths)

lemma round_neq_0: "st_valid f \<Longrightarrow> st_NumBanks f * st_Striping f \<noteq> 0"
  using unat_round [of f] by (auto simp: st_valid_def unat_eq_zero simp flip: unat_eq_zero)

lemma stripe_index_home:
  assumes "st_valid f" "st_MemAddrOffset f \<le> a"
  shows "\<exists>x. stripe_index (st_MemAddrOffset f) (st_NumBanks f) (st_Striping f) a = Inr x \<and> unat x = st_home f a"
  using assms round_neq_0 [OF assms(1)] unat_round [OF assms(1)]
  by (simp add: stripe_index_def umod_def udiv_def st_valid_def st_home_def unat_div_distrib
      unat_mod_distrib unat_sub)

lemma div_mod_reconstruct:
  fixes a n s :: nat
  assumes "0 < s"
  shows "a = a div (n * s) * (n * s) + a mod (n * s) div s * s + a mod s"
proof -
  have "a mod (n * s) = a mod (n * s) div s * s + a mod (n * s) mod s" by simp
  moreover have "a mod (n * s) mod s = a mod s" by (simp add: mod_mod_cancel)
  ultimately show ?thesis by (metis add.assoc div_mult_mod_eq)
qed

lemma sint_small: "unat (b::u64) < 2 ^ 63 \<Longrightarrow> sint b = int (unat b)"
proof -
  assume b: "unat b < 2 ^ 63"
  have u: "uint b = int (unat b)" by simp
  have "int (unat b) < int (2 ^ 63)" using b by (simp only: of_nat_less_iff)
  moreover have "- (2 ^ 63) \<le> int (unat b)" by (rule order_trans [of _ 0]) simp_all
  ultimately show ?thesis unfolding sint_uint u by (intro signed_take_bit_int_eq_self) simp_all
qed

definition internal_of :: "'p StripedLowModuleFinder \<Rightarrow> u64 \<Rightarrow> nat" where
  "internal_of f a =
     (unat a - unat (st_MemAddrOffset f)) div (unat (st_NumBanks f) * unat (st_Striping f)) * unat (st_Striping f)
       + unat a mod unat (st_Striping f)"

lemma mod_sub_dvd:
  fixes x o' s :: nat
  assumes "s dvd o'" "o' \<le> x"
  shows "(x - o') mod s = x mod s"
proof -
  have "x mod s = (o' mod s + (x - o')) mod s" unfolding mod_add_left_eq using assms(2) by simp
  then show ?thesis using assms(1) by simp
qed

lemma internal_le:
  assumes "st_valid f" "st_MemAddrOffset f \<le> a"
  shows "internal_of f a \<le> unat a"
proof -
  let ?o = "unat (st_MemAddrOffset f)" and ?n = "unat (st_NumBanks f)" and ?s = "unat (st_Striping f)"
  have s: "0 < ?s" "0 < ?n" using assms by (auto simp: st_valid_def unat_gt_0)
  have "?s dvd ?o" "?o \<le> unat a" using assms by (auto simp: st_valid_def word_le_nat_alt)
  then have m: "(unat a - ?o) mod ?s = unat a mod ?s" by (rule mod_sub_dvd)
  have "(unat a - ?o) div (?n * ?s) * ?s \<le> (unat a - ?o) div ?s * ?s"
    using s by (intro mult_le_mono1 div_le_mono2) simp_all
  then show ?thesis using div_mult_mod_eq [of "unat a - ?o" ?s] m unfolding internal_of_def by linarith
qed

lemma Convert_home:
  assumes v: "st_valid f" and a: "st_MemAddrOffset f \<le> a"
  shows "ConvertExternalToInternal (converter_of f i) a =
    (if i = st_home f a then Inr (of_nat (internal_of f a))
     else Inl (Panic ''address does not belongs to current element''))"
proof -
  let ?n = "st_NumBanks f" and ?s = "st_Striping f" and ?o = "st_MemAddrOffset f"
  have b: "unat ((a - ?o) mod (?n * ?s) div ?s) = st_home f a"
    using a by (simp add: st_home_def unat_div_distrib unat_mod_distrib unat_sub unat_round [OF v])
  then have sb: "sint ((a - ?o) mod (?n * ?s) div ?s) = int (st_home f a)"
    using sint_small [of "(a - ?o) mod (?n * ?s) div ?s"] st_home_less [OF v, of a] v
    unfolding st_valid_def b by linarith
  have d: "unat ((a - ?o) div (?n * ?s)) = (unat a - unat ?o) div (unat ?n * unat ?s)"
    using a by (simp only: unat_div_distrib unat_sub unat_round [OF v])
  have w: "(a - ?o) div (?n * ?s) * ?s + a mod ?s = of_nat (internal_of f a)"
    unfolding internal_of_def d [symmetric] unat_mod_distrib [symmetric] of_nat_add of_nat_mult by simp
  have c: "?n * ?s = ?s * ?n" by (rule mult.commute)
  show ?thesis using v a round_neq_0 [OF v] unfolding c
    by (auto simp: ConvertExternalToInternal_def converter_of_def umod_def udiv_def Let_def
        sb [unfolded c] w [unfolded c] st_valid_def not_less)
qed

section \<open>Properties\<close>

text \<open>
  Claim C31. Local and global finders agree, and every address has one owner: in a machine whose
  modules are interleaved, or hashed by XOR over all \<open>2^NumBitsPerTerm\<close> modules, exactly one
  position's local finder answers with the local port, and it is the position whose module the
  global finder returns (which never panics).
\<close>

theorem finders_have_one_owner:
  assumes "il_valid f" "distinct (il_LowModules f)" "xo_valid g" "distinct (xo_LowModules g)" "loc \<noteq> rem"
  shows "(\<exists>!i. i < length (il_LowModules f) \<and> il_local f i loc rem a = Inr (Some loc)) \<and>
         (\<forall>i < length (il_LowModules f). il_local f i loc rem a = Inr (Some loc) \<longleftrightarrow>
            Interleaved_Find f a = Inr (Some (il_LowModules f ! i))) \<and>
         (\<exists>!i. i < length (xo_LowModules g) \<and> xo_local g i loc rem a = Inr (Some loc)) \<and>
         (\<forall>i < length (xo_LowModules g). xo_local g i loc rem a = Inr (Some loc) \<longleftrightarrow>
            XOR_Find g a = Inr (Some (xo_LowModules g ! i)))"
  using il.unique_owner [OF assms(1,5)] xo.unique_owner [OF assms(3,5)]
    il.owner_serves [OF assms(1,5,2)] xo.owner_serves [OF assms(3,5,4)]
  by simp

definition il_example :: "nat InterleavedLowModuleFinder" where
  "il_example = (NewInterleavedLowModuleFinder 4096)\<lparr>il_LowModules := [10, 11, 12, 13]\<rparr>"

definition xo_example :: "nat XORLowModuleFinder" where
  "xo_example = (NewXORLowModuleFinder 4 5 2 12)\<lparr>xo_LowModules := [10, 11, 12, 13]\<rparr>"

lemma finder_examples_valid:
  "il_valid il_example" "xo_valid xo_example" "length (il_LowModules il_example) = 4"
  "distinct (il_LowModules il_example)" "distinct (xo_LowModules xo_example)"
  by (simp_all add: il_valid_def il_example_def NewInterleavedLowModuleFinder_def
      xo_valid_def xo_example_def NewXORLowModuleFinder_def)

theorem finders_have_one_owner_witness:
  "\<exists>!i. i < 4 \<and> il_local il_example i (0::nat) 1 8192 = Inr (Some 0)"
  using finders_have_one_owner [OF finder_examples_valid(1,4,2,5) zero_neq_one, of 8192]
  unfolding finder_examples_valid(3) by blast

text \<open>
  The XOR finder spreads neighbours: the \<open>2^NumBitsPerTerm\<close> addresses that agree everywhere
  but in the lowest term go to pairwise different modules, so together they use every module.
\<close>

theorem XOR_Find_conflict_free:
  assumes v: "xo_valid f" "distinct (xo_LowModules f)" "0 < xo_NumTerms f"
    and bits: "xo_OffsetBits f + xo_NumBitsPerTerm f \<le> 64"
    and d: "d < 2 ^ xo_NumBitsPerTerm f" "d' < 2 ^ xo_NumBitsPerTerm f" "d \<noteq> d'"
  shows "XOR_Find f (a XOR push_bit (xo_OffsetBits f) (of_nat d)) \<noteq>
         XOR_Find f (a XOR push_bit (xo_OffsetBits f) (of_nat d'))"
proof -
  let ?a = "\<lambda>d. a XOR push_bit (xo_OffsetBits f) (of_nat d)"
  have b: "xo_NumBitsPerTerm f < 64" using v(1) by (simp add: xo_valid_def)
  then have "(2::nat) ^ xo_NumBitsPerTerm f \<le> 2 ^ 64" by (intro power_increasing) simp_all
  then have "d < 2 ^ 64" "d' < 2 ^ 64" using d by linarith+
  then have "unat (of_nat d :: u64) = d" "unat (of_nat d' :: u64) = d'" by (simp_all add: unat_of_nat)
  then have "(of_nat d :: u64) \<noteq> of_nat d'" using d(3) by metis
  then have "xor_index (xo_NumTerms f) (xo_NumBitsPerTerm f) (xo_OffsetBits f) (?a d) \<noteq>
      xor_index (xo_NumTerms f) (xo_NumBitsPerTerm f) (xo_OffsetBits f) (?a d')"
    using xor_index_shift [OF bits b v(3) d(1)] xor_index_shift [OF bits b v(3) d(2)]
    by (simp only: xor_cancel not_False_eq_True)
  then have "xo_home f (?a d) \<noteq> xo_home f (?a d')" unfolding xo_home_def by (simp only: word_unat_eq_iff not_False_eq_True)
  then show ?thesis using v(2) xo.home_less [OF v(1)] by (simp add: xo.gfind_home [OF v(1)] nth_eq_iff_index_eq)
qed

theorem XOR_Find_conflict_free_witness:
  "XOR_Find xo_example (0x12345000 XOR push_bit 12 (of_nat 1)) \<noteq>
   XOR_Find xo_example (0x12345000 XOR push_bit 12 (of_nat 2))"
  using XOR_Find_conflict_free [OF finder_examples_valid(2), of 1 2 "0x12345000"]
  by (simp add: xo_example_def NewXORLowModuleFinder_def)

text \<open>
  The controllers undo the striping: for an address at or above the offset, the striped
  finder names bank \<open>i\<close>, the converter of bank \<open>i\<close> and of no other accepts the address, and the
  external address is recovered from \<open>i\<close> and the internal address, so no two addresses of a bank
  share an internal address.
\<close>

theorem striping_roundtrip:
  assumes v: "st_valid f" and a: "st_MemAddrOffset f \<le> a"
  shows "\<exists>i w. i < unat (st_NumBanks f) \<and> Striped_Find f a = Inr (Some (st_LowModules f ! i)) \<and>
     ConvertExternalToInternal (converter_of f i) a = Inr w \<and>
     (\<forall>j. j \<noteq> i \<longrightarrow> \<not> ok (ConvertExternalToInternal (converter_of f j) a)) \<and>
     unat a = unat (st_MemAddrOffset f) +
       (unat w div unat (st_Striping f) * (unat (st_NumBanks f) * unat (st_Striping f)) +
        i * unat (st_Striping f) + unat w mod unat (st_Striping f))"
proof -
  let ?i = "st_home f a" and ?s = "unat (st_Striping f)" and ?n = "unat (st_NumBanks f)"
  let ?o = "unat (st_MemAddrOffset f)"
  obtain x where x: "stripe_index (st_MemAddrOffset f) (st_NumBanks f) (st_Striping f) a = Inr x" "unat x = ?i"
    using stripe_index_home [OF v a] by blast
  have i: "?i < ?n" by (rule st_home_less [OF v])
  have len: "length (st_LowModules f) = ?n" using v by (simp add: st_valid_def)
  have s: "0 < ?s" using v by (simp add: st_valid_def unat_gt_0)
  have le: "?o \<le> unat a" using a by (simp add: word_le_nat_alt)
  have w: "unat (of_nat (internal_of f a) :: u64) = internal_of f a"
    using le_less_trans [OF internal_le [OF v a] unat_lt64] by (simp add: unat_of_nat)
  have "?s dvd ?o" using v by (simp add: st_valid_def)
  then have m: "(unat a - ?o) mod ?s = unat a mod ?s" using le by (rule mod_sub_dvd)
  have "internal_of f a div ?s = (unat a - ?o) div (?n * ?s)" "internal_of f a mod ?s = unat a mod ?s"
    using s by (simp_all add: internal_of_def)
  then have "unat a = ?o + (internal_of f a div ?s * (?n * ?s) + ?i * ?s + internal_of f a mod ?s)"
    using div_mod_reconstruct [OF s, of "unat a - ?o" ?n] le m by (simp add: st_home_def)
  then show ?thesis using x i len w
    by (intro exI [of _ ?i] exI [of _ "of_nat (internal_of f a)"])
       (simp add: Striped_Find_def module_at_def Convert_home [OF v a])
qed

theorem striping_roundtrip_witness:
  "\<exists>i w. ConvertExternalToInternal
           (converter_of ((NewStripedLowModuleFinder 0x1000 4 0x100)\<lparr>st_LowModules := [0::nat, 1, 2, 3]\<rparr>) i)
           0x1742 = Inr w"
  using striping_roundtrip [of "(NewStripedLowModuleFinder 0x1000 4 0x100)\<lparr>st_LowModules := [0::nat, 1, 2, 3]\<rparr>" "0x1742"]
  by (simp add: st_valid_def NewStripedLowModuleFinder_def) blast

text \<open>
  The two-level finder is total on its address space and keeps chiplets apart: with
  \<open>NumOuterBanks * NumInnerBanks\<close> modules and a range of \<open>NumOuterBanks\<close> outer banks, every address in
  the range is served by a module of the chiplet whose outer bank holds it, by the bank the inner
  interleaving gives, and every address outside the range panics.
\<close>

theorem TwoLevel_Find_total:
  fixes f :: "'p TwoLevelLowModuleFinder"
  defines "outer \<equiv> unat (tl_OuterBankSize f)" and "inner \<equiv> unat (tl_NumInnerBanks f)"
    and "gran \<equiv> unat (tl_InnerInterleavingSize f)" and "off \<equiv> \<lambda>a. unat a - unat (tl_LowAddress f)"
  assumes lim: "tl_UseAddressSpaceLimitation f" and pos: "0 < outer" "0 < inner" "0 < gran"
    and len: "length (tl_LowModules f) = unat (tl_NumOuterBanks f) * inner" "length (tl_LowModules f) < 2 ^ 64"
    and high: "unat (tl_HighAddress f) = unat (tl_LowAddress f) + unat (tl_NumOuterBanks f) * outer"
  shows "TwoLevel_Find f a =
    (if tl_LowAddress f \<le> a \<and> a < tl_HighAddress f
     then Inr (Some (tl_LowModules f ! (off a div outer * inner + off a mod outer div gran mod inner)))
     else Inl (Panic ''panicking because addres out of range haha''))"
proof (cases "tl_LowAddress f \<le> a \<and> a < tl_HighAddress f")
  case False
  then show ?thesis using lim by (auto simp: TwoLevel_Find_def not_less not_le)
next
  case True
  let ?x = "a - tl_LowAddress f" and ?N = "unat (tl_NumOuterBanks f)"
  have x: "unat ?x = off a" using True by (simp add: off_def unat_sub)
  have "off a < ?N * outer" using True high unfolding off_def word_less_nat_alt word_le_nat_alt by linarith
  then have c: "off a div outer < ?N" by (rule less_mult_imp_div_less)
  have cd: "unat (?x div tl_OuterBankSize f) = off a div outer" by (simp only: unat_div_distrib x outer_def)
  have nz: "tl_OuterBankSize f \<noteq> 0" "tl_InnerInterleavingSize f \<noteq> 0" "tl_NumInnerBanks f \<noteq> 0"
    using pos by (auto simp: outer_def inner_def gran_def)
  have m: "?x - ?x div tl_OuterBankSize f * tl_OuterBankSize f = ?x mod tl_OuterBankSize f"
    by (simp only: minus_div_mult_eq_mod)
  let ?b = "?x mod tl_OuterBankSize f div tl_InnerInterleavingSize f mod tl_NumInnerBanks f"
  have b: "unat ?b = off a mod outer div gran mod inner"
    by (simp only: unat_div_distrib unat_mod_distrib x outer_def inner_def gran_def)
  have idx: "off a div outer * inner + off a mod outer div gran mod inner < ?N * inner"
  proof -
    have "off a mod outer div gran mod inner < inner" using pos by simp
    then have "off a div outer * inner + off a mod outer div gran mod inner < Suc (off a div outer) * inner" by simp
    also have "\<dots> \<le> ?N * inner" using c by (intro mult_le_mono1) simp
    finally show ?thesis .
  qed
  have "unat (?x div tl_OuterBankSize f * tl_NumInnerBanks f + ?b) =
      off a div outer * inner + off a mod outer div gran mod inner"
    using idx len by (simp add: unat_word_ariths(1,2) cd b inner_def [symmetric] mod_add_left_eq)
  then show ?thesis using True nz idx len
    by (auto simp: TwoLevel_Find_def Let_def udiv_def umod_def m module_at_def)
qed

theorem TwoLevel_Find_total_witness:
  "TwoLevel_Find ((NewTwoLevelLowModuleFinder 0 0x4000 0x1000 4 0x100 2)\<lparr>tl_LowModules := [0::nat..<8]\<rparr>) 0x2300 =
     Inr (Some 5)"
  using TwoLevel_Find_total [of "(NewTwoLevelLowModuleFinder 0 0x4000 0x1000 4 0x100 2)\<lparr>tl_LowModules := [0::nat..<8]\<rparr>" "0x2300"]
  by (simp add: NewTwoLevelLowModuleFinder_def)

end
