(* ===== verification/CU_Resource.thy ===== *)
theory CU_Resource
  imports Prelude
begin

text \<open>
  The resources of a compute unit as the dispatcher sees them:
  \<^verbatim>\<open>mgpusim/timing/cp/internal/resource/\<close> (\<^verbatim>\<open>resourcemask.go\<close>, \<^verbatim>\<open>curesourceimpl.go\<close>,
  \<^verbatim>\<open>curesourcepool.go\<close>, \<^verbatim>\<open>wflocation.go\<close>). A work-group gets, per wavefront, a range of scalar
  registers, a SIMD unit with a range of its vector registers and a slot of its wavefront
  pool, and one range of local data share; all or nothing.

  The lemmas show that \<^verbatim>\<open>nextRegion\<close> finds the first free region, that a rejected reservation
  leaves no trace, that the ranges of all resident wavefronts stay disjoint in every history
  of reservations and releases, and that a release gives back exactly what was taken.

  A \<^verbatim>\<open>*WorkGroup\<close> is a record with an identity. A count in a code object is non-negative,
  hence a \<open>nat\<close>; free counts are \<open>int\<close>.
\<close>

section \<open>Resource masks\<close>

datatype allocStatus = Free | ToReserve | Reserved | Used

datatype resourceMask =
    ResourceMaskImpl "allocStatus list"
  | UnlimitedResourceMask nat

definition newResourceMask :: "nat \<Rightarrow> resourceMask" where
  "newResourceMask n = ResourceMaskImpl (replicate n Free)"

text \<open>The scan of \<^verbatim>\<open>nextRegion\<close> with the variables \<^verbatim>\<open>offset\<close> and \<^verbatim>\<open>currLength\<close>.\<close>

fun region_scan :: "nat \<Rightarrow> allocStatus \<Rightarrow> allocStatus list \<Rightarrow> nat \<Rightarrow> nat \<Rightarrow> nat \<times> bool" where
  "region_scan len statusReq [] offset currLength = (0, False)"
| "region_scan len statusReq (x # xs) offset currLength =
     (if x = statusReq then
        (if Suc currLength = len then (offset + 1 - Suc currLength, True)
         else region_scan len statusReq xs (Suc offset) (Suc currLength))
      else region_scan len statusReq xs (Suc offset) 0)"

fun nextRegion :: "nat \<Rightarrow> allocStatus \<Rightarrow> resourceMask \<Rightarrow> (nat \<times> bool) \<times> resourceMask" where
  "nextRegion len statusReq (UnlimitedResourceMask next) = ((next, True), UnlimitedResourceMask (next + len))"
| "nextRegion len statusReq (ResourceMaskImpl m) =
     ((if len = 0 then (0, True) else region_scan len statusReq m 0 0), ResourceMaskImpl m)"

fun setStatus :: "nat \<Rightarrow> nat \<Rightarrow> allocStatus \<Rightarrow> resourceMask \<Rightarrow> resourceMask result" where
  "setStatus offset len st (UnlimitedResourceMask next) = Inr (UnlimitedResourceMask next)"
| "setStatus offset len st (ResourceMaskImpl m) =
     (if len = 0 then Inr (ResourceMaskImpl m)
      else if offset + len \<le> length m then Inr (ResourceMaskImpl (copy_at m offset (replicate len st)))
      else Inl IndexOutOfRange)"

fun convertStatus :: "allocStatus \<Rightarrow> allocStatus \<Rightarrow> resourceMask \<Rightarrow> resourceMask" where
  "convertStatus from to (UnlimitedResourceMask next) = UnlimitedResourceMask next"
| "convertStatus from to (ResourceMaskImpl m) = ResourceMaskImpl (map (\<lambda>x. if x = from then to else x) m)"

fun statusCount :: "allocStatus \<Rightarrow> resourceMask \<Rightarrow> nat" where
  "statusCount st (UnlimitedResourceMask next) = 0"
| "statusCount st (ResourceMaskImpl m) = length (filter (\<lambda>x. x = st) m)"

section \<open>The resources of a compute unit\<close>

record WorkGroup =
  wg_id :: nat
  wg_Wavefronts :: "nat list"
  wg_WFSgprCount :: nat
  wg_WGGroupSegmentByteSize :: nat
  wg_WIVgprCount :: nat

record WfLocation =
  loc_Wavefront :: nat
  SIMDID :: nat
  VGPROffset :: nat
  SGPROffset :: nat
  LDSOffset :: nat

record CUResourceImpl =
  wfPoolFreeCount :: "int list"
  sregCount :: int
  sregGranularity :: nat
  sregMask :: resourceMask
  vregCounts :: "int list"
  vregGranularity :: nat
  vregMasks :: "resourceMask list"
  ldsByteSize :: int
  ldsGranularity :: nat
  ldsMask :: resourceMask
  nextSIMD :: nat
  reservedWGs :: "WorkGroup \<rightharpoonup> WfLocation list"

definition unitsOccupy :: "nat \<Rightarrow> nat \<Rightarrow> nat result" where
  "unitsOccupy amount granularity =
     (if granularity = 0 then Inl DivideByZero
      else if amount mod granularity = 0 then Inr (amount div granularity)
      else Inr (amount div granularity + 1))"

fun sgpr_loop ::
    "nat \<Rightarrow> nat list \<Rightarrow> resourceMask \<Rightarrow> WfLocation list \<Rightarrow> (bool \<times> resourceMask \<times> WfLocation list) result" where
  "sgpr_loop required [] m locations = Inr (True, m, locations)"
| "sgpr_loop required (i # is) m locations =
     (case nextRegion required Free m of
        ((offset, hit), m1) \<Rightarrow>
          if \<not> hit then Inr (False, m1, locations)
          else bindR (setStatus offset required ToReserve m1) (\<lambda>m2.
                 sgpr_loop required is m2
                   (locations[i := (locations ! i)\<lparr>SGPROffset := offset * 16 * 4\<rparr>])))"

definition withinSGPRLimitation ::
    "CUResourceImpl \<Rightarrow> WorkGroup \<Rightarrow> WfLocation list \<Rightarrow> (bool \<times> CUResourceImpl \<times> WfLocation list) result" where
  "withinSGPRLimitation r wg locations =
     bindR (unitsOccupy (wg_WFSgprCount wg) (sregGranularity r)) (\<lambda>required.
     bindR (sgpr_loop required [0..<length (wg_Wavefronts wg)] (sregMask r) locations) (\<lambda>(ok, m, locs).
       Inr (ok, r\<lparr>sregMask := m\<rparr>, locs)))"

definition withinLDSLimitation ::
    "CUResourceImpl \<Rightarrow> WorkGroup \<Rightarrow> WfLocation list \<Rightarrow> (bool \<times> CUResourceImpl \<times> WfLocation list) result" where
  "withinLDSLimitation r wg locations =
     bindR (unitsOccupy (wg_WGGroupSegmentByteSize wg) (ldsGranularity r)) (\<lambda>required.
       case nextRegion required Free (ldsMask r) of
         ((offset, hit), m1) \<Rightarrow>
           if \<not> hit then Inr (False, r\<lparr>ldsMask := m1\<rparr>, locations)
           else bindR (setStatus offset required ToReserve m1) (\<lambda>m2.
                  Inr (True, r\<lparr>ldsMask := m2\<rparr>,
                       map (\<lambda>l. l\<lparr>LDSOffset := offset * ldsGranularity r\<rparr>) locations)))"

text \<open>
  The inner loop of \<^verbatim>\<open>matchWfWithSIMDs\<close> goes once around the SIMD units, starting at
  \<^verbatim>\<open>nextSIMD\<close>; it returns the unit and offset found. The slice \<^verbatim>\<open>vgprToUse\<close> of the source is
  written and never read, and is left out.
\<close>

fun simd_loop ::
    "nat \<Rightarrow> nat \<Rightarrow> nat \<Rightarrow> bool \<Rightarrow> int list \<Rightarrow> int list \<Rightarrow> nat \<Rightarrow> resourceMask list \<Rightarrow>
     ((nat \<times> nat) option \<times> nat \<times> resourceMask list) result" where
  "simd_loop 0 required first firstTry free used next masks = Inl Diverges"
| "simd_loop (Suc fuel) required first firstTry free used next masks =
     (if \<not> (firstTry \<or> next \<noteq> first) then Inr (None, next, masks)
      else bindR (slice_get masks next) (\<lambda>m.
        case nextRegion required Free m of
          ((offset, hit), m1) \<Rightarrow>
            let next' = (if length free \<le> next + 1 then 0 else next + 1) in
            bindR (if hit then bindR (slice_get free next) (\<lambda>f. bindR (slice_get used next) (\<lambda>u. Inr (f - u > 0)))
                   else Inr False) (\<lambda>take_it.
              if take_it
              then bindR (setStatus offset required ToReserve m1) (\<lambda>m2.
                     Inr (Some (next, offset), next', masks[next := m2]))
              else simd_loop fuel required first False free used next' (masks[next := m1]))))"

fun match_loop ::
    "nat \<Rightarrow> nat \<Rightarrow> int list \<Rightarrow> nat list \<Rightarrow> int list \<Rightarrow> nat \<Rightarrow> resourceMask list \<Rightarrow> WfLocation list \<Rightarrow>
     (bool \<times> nat \<times> resourceMask list \<times> WfLocation list) result" where
  "match_loop required gran free [] used next masks locations = Inr (True, next, masks, locations)"
| "match_loop required gran free (i # is) used next masks locations =
     bindR (simd_loop (Suc (length free)) required next True free used next masks) (\<lambda>(found, next', masks').
       case found of
         None \<Rightarrow> Inr (False, next', masks', locations)
       | Some (s, offset) \<Rightarrow>
           match_loop required gran free is (used[s := used ! s + 1]) next' masks'
             (locations[i := (locations ! i)\<lparr>SIMDID := s, VGPROffset := offset * gran * 4\<rparr>]))"

definition matchWfWithSIMDs ::
    "CUResourceImpl \<Rightarrow> WorkGroup \<Rightarrow> WfLocation list \<Rightarrow> (bool \<times> CUResourceImpl \<times> WfLocation list) result" where
  "matchWfWithSIMDs r wg locations =
     (if wg_Wavefronts wg = [] then Inr (True, r, locations)
      else
     bindR (unitsOccupy (wg_WIVgprCount wg) (vregGranularity r)) (\<lambda>required.
     bindR (match_loop required (vregGranularity r) (wfPoolFreeCount r) [0..<length (wg_Wavefronts wg)]
              (replicate (length (wfPoolFreeCount r)) 0) (nextSIMD r) (vregMasks r) locations)
       (\<lambda>(ok, next, masks, locs). Inr (ok, r\<lparr>nextSIMD := next, vregMasks := masks\<rparr>, locs))))"

fun take_slots :: "int \<Rightarrow> WfLocation list \<Rightarrow> int list \<Rightarrow> int list result" where
  "take_slots d [] free = Inr free"
| "take_slots d (l # ls) free =
     bindR (slice_get free (SIMDID l)) (\<lambda>f. take_slots d ls (free[SIMDID l := f + d]))"

definition convert_vregs :: "allocStatus \<Rightarrow> allocStatus \<Rightarrow> CUResourceImpl \<Rightarrow> resourceMask list result" where
  "convert_vregs from to r =
     (if length (vregMasks r) < length (wfPoolFreeCount r) then Inl IndexOutOfRange
      else Inr (map (convertStatus from to) (take (length (wfPoolFreeCount r)) (vregMasks r)) @
                drop (length (wfPoolFreeCount r)) (vregMasks r)))"

definition reserveResources ::
    "CUResourceImpl \<Rightarrow> WorkGroup \<Rightarrow> WfLocation list \<Rightarrow> CUResourceImpl result" where
  "reserveResources r wg locations =
     bindR (take_slots (-1) locations (wfPoolFreeCount r)) (\<lambda>free.
     bindR (convert_vregs ToReserve Reserved r) (\<lambda>masks.
       if reservedWGs r wg \<noteq> None then Inl (Panic ''reserving a work-group twice'')
       else Inr (r\<lparr>wfPoolFreeCount := free, sregMask := convertStatus ToReserve Reserved (sregMask r),
                   ldsMask := convertStatus ToReserve Reserved (ldsMask r), vregMasks := masks,
                   reservedWGs := (reservedWGs r)(wg \<mapsto> locations)\<rparr>)))"

definition clearTempReservation :: "CUResourceImpl \<Rightarrow> CUResourceImpl result" where
  "clearTempReservation r =
     bindR (convert_vregs ToReserve Free r) (\<lambda>masks.
       Inr (r\<lparr>sregMask := convertStatus ToReserve Free (sregMask r),
              ldsMask := convertStatus ToReserve Free (ldsMask r), vregMasks := masks\<rparr>))"

definition ReserveResourceForWG ::
    "CUResourceImpl \<Rightarrow> WorkGroup \<Rightarrow> (WfLocation list option \<times> CUResourceImpl) result" where
  "ReserveResourceForWG r wg =
     (let locations = map (\<lambda>wf. \<lparr>loc_Wavefront = wf, SIMDID = 0, VGPROffset = 0, SGPROffset = 0, LDSOffset = 0\<rparr>)
                        (wg_Wavefronts wg) in
      bindR (withinSGPRLimitation r wg locations) (\<lambda>(ok1, r1, l1).
      bindR (if ok1 then withinLDSLimitation r1 wg l1 else Inr (False, r1, l1)) (\<lambda>(ok2, r2, l2).
      bindR (if ok2 then matchWfWithSIMDs r2 wg l2 else Inr (False, r2, l2)) (\<lambda>(ok3, r3, l3).
        if ok3 then bindR (reserveResources r3 wg l3) (\<lambda>r4. Inr (Some l3, r4))
        else bindR (clearTempReservation r3) (\<lambda>r4. Inr (None, r4))))))"

fun free_loop :: "WorkGroup \<Rightarrow> WfLocation list \<Rightarrow> CUResourceImpl \<Rightarrow> CUResourceImpl result" where
  "free_loop wg [] r = Inr r"
| "free_loop wg (l # ls) r =
     bindR (slice_get (wfPoolFreeCount r) (SIMDID l)) (\<lambda>f.
     bindR (unitsOccupy (wg_WGGroupSegmentByteSize wg) (ldsGranularity r)) (\<lambda>ldsUnits.
     bindR (setStatus (LDSOffset l div ldsGranularity r) ldsUnits Free (ldsMask r)) (\<lambda>lm.
     bindR (unitsOccupy (wg_WFSgprCount wg) (sregGranularity r)) (\<lambda>sgprUnits.
     bindR (setStatus (SGPROffset l div 4 div sregGranularity r) sgprUnits Free (sregMask r)) (\<lambda>sm.
     bindR (unitsOccupy (wg_WIVgprCount wg) (vregGranularity r)) (\<lambda>vgprUnits.
     bindR (slice_get (vregMasks r) (SIMDID l)) (\<lambda>vm0.
     bindR (setStatus (VGPROffset l div 4 div vregGranularity r) vgprUnits Free vm0) (\<lambda>vm.
       free_loop wg ls
         (r\<lparr>wfPoolFreeCount := (wfPoolFreeCount r)[SIMDID l := f + 1], ldsMask := lm, sregMask := sm,
            vregMasks := (vregMasks r)[SIMDID l := vm]\<rparr>)))))))))"

definition FreeResourcesForWG :: "CUResourceImpl \<Rightarrow> WorkGroup \<Rightarrow> CUResourceImpl result" where
  "FreeResourcesForWG r wg =
     (case reservedWGs r wg of
        None \<Rightarrow> Inl (Panic ''work-group not found'')
      | Some locations \<Rightarrow>
          bindR (free_loop wg locations r) (\<lambda>r'. Inr (r'\<lparr>reservedWGs := (reservedWGs r')(wg := None)\<rparr>)))"

section \<open>The pool\<close>

record DispatchableCU =
  dcu_id :: nat
  WfPoolSizes :: "int list"
  VRegCounts :: "int list"
  SRegCount :: int
  LDSBytes :: int

record CUResourcePoolImpl =
  registeredCUs :: "DispatchableCU \<Rightarrow> bool"
  cus :: "CUResourceImpl list"

definition NewCUResourcePool :: CUResourcePoolImpl where
  "NewCUResourcePool = \<lparr>registeredCUs = (\<lambda>_. False), cus = []\<rparr>"

definition NumCU :: "CUResourcePoolImpl \<Rightarrow> nat" where
  "NumCU p = length (cus p)"

definition GetCU :: "CUResourcePoolImpl \<Rightarrow> nat \<Rightarrow> CUResourceImpl result" where
  "GetCU p i = slice_get (cus p) i"

definition createMask :: "int \<Rightarrow> nat \<Rightarrow> resourceMask result" where
  "createMask n granularity =
     (if n < 0 then Inr (UnlimitedResourceMask 0)
      else if n mod int granularity \<noteq> 0 then Inl (Panic ''the count is not a multiple of the granularity'')
      else Inr (newResourceMask (nat n div granularity)))"

fun createVRegMasks :: "int list \<Rightarrow> resourceMask list result" where
  "createVRegMasks [] = Inr []"
| "createVRegMasks (c # cs) =
     bindR (createMask c (4 * 64)) (\<lambda>m. bindR (createVRegMasks cs) (\<lambda>ms. Inr (m # ms)))"

definition RegisterCU :: "CUResourcePoolImpl \<Rightarrow> DispatchableCU \<Rightarrow> CUResourcePoolImpl result" where
  "RegisterCU p cu =
     (if registeredCUs p cu then Inr p
      else bindR (createMask (SRegCount cu) 16) (\<lambda>sm.
           bindR (createVRegMasks (VRegCounts cu)) (\<lambda>vms.
           bindR (createMask (LDSBytes cu) 256) (\<lambda>lm.
             Inr (p\<lparr>cus := cus p @
                      [\<lparr>wfPoolFreeCount = WfPoolSizes cu, sregCount = SRegCount cu, sregGranularity = 16,
                        sregMask = sm, vregCounts = VRegCounts cu, vregGranularity = 4, vregMasks = vms,
                        ldsByteSize = LDSBytes cu, ldsGranularity = 256, ldsMask = lm, nextSIMD = 0,
                        reservedWGs = Map.empty\<rparr>],
                    registeredCUs := (registeredCUs p)(cu := True)\<rparr>)))))"

section \<open>What a region is\<close>

definition region :: "allocStatus list \<Rightarrow> allocStatus \<Rightarrow> nat \<Rightarrow> nat \<Rightarrow> bool" where
  "region m st off len \<longleftrightarrow> off + len \<le> length m \<and> (\<forall>u. off \<le> u \<longrightarrow> u < off + len \<longrightarrow> m ! u = st)"

definition first_region :: "allocStatus list \<Rightarrow> allocStatus \<Rightarrow> nat \<Rightarrow> nat \<times> bool \<Rightarrow> bool" where
  "first_region m st len res \<longleftrightarrow>
     (if snd res then region m st (fst res) len \<and> (\<forall>k < fst res. \<not> region m st k len)
      else \<forall>k. \<not> region m st k len)"

lemma region_scan_first:
  assumes "drop offset m = xs" "offset \<le> length m" "c \<le> offset" "c < len"
    and "\<forall>u. offset - c \<le> u \<longrightarrow> u < offset \<longrightarrow> m ! u = st"
    and "\<forall>k < offset - c. \<not> region m st k len"
  shows "first_region m st len (region_scan len st xs offset c)"
  using assms
proof (induction xs arbitrary: offset c)
  case Nil
  then have "\<not> region m st k len" for k
    by (cases "k < offset - c") (auto simp: region_def)
  then show ?case by (simp add: first_region_def)
next
  case (Cons x xs)
  have lt: "offset < length m" using Cons.prems(1) by (cases "offset < length m") auto
  have x: "m ! offset = x" "drop (Suc offset) m = xs"
    using Cons.prems(1) lt by (metis hd_drop_conv_nth list.sel(1), metis drop_Suc list.sel(3) tl_drop)
  show ?case
  proof (cases "x = st")
    case True
    have run: "\<forall>u. offset - c \<le> u \<longrightarrow> u < Suc offset \<longrightarrow> m ! u = st"
      using Cons.prems(5) True x(1) by (auto simp: less_Suc_eq)
    show ?thesis
    proof (cases "Suc c = len")
      case True
      then have "region m st (offset - c) len" using run lt Cons.prems(3) by (auto simp: region_def)
      then show ?thesis using Cons.prems(6) \<open>x = st\<close> by (simp add: first_region_def True [symmetric])
    next
      case False
      then show ?thesis using Cons.IH [of "Suc offset" "Suc c"] x(2) lt run Cons.prems True by simp
    qed
  next
    case False
    have "\<not> region m st k len" if "k < Suc offset" for k
    proof (cases "k < offset - c")
      case True
      then show ?thesis using Cons.prems(6) by simp
    next
      case nk: False
      then have "k \<le> offset" "offset < k + len" using that Cons.prems(3,4) by linarith+
      then show ?thesis using False x(1) by (auto simp: region_def)
    qed
    then show ?thesis using Cons.IH [of "Suc offset" 0] x(2) lt Cons.prems False by simp
  qed
qed

lemma nextRegion_first:
  assumes "0 < len"
  shows "\<exists>res. nextRegion len st (ResourceMaskImpl m) = (res, ResourceMaskImpl m) \<and> first_region m st len res"
  using assms region_scan_first [of 0 m m 0 len st] by simp

section \<open>Owners\<close>

text \<open>
  The ghost state behind a mask: \<open>own u\<close> is the (work-group, wavefront) that holds unit \<open>u\<close>. The
  status of a unit follows from its owner and from the work-group that is being placed, if any.
\<close>

type_synonym owner = "WorkGroup \<times> nat"

definition status_of :: "WorkGroup option \<Rightarrow> owner option \<Rightarrow> allocStatus" where
  "status_of cur x = (case x of None \<Rightarrow> Free | Some (w, i) \<Rightarrow> if cur = Some w then ToReserve else Reserved)"

definition tagged :: "(nat \<Rightarrow> owner option) \<Rightarrow> WorkGroup option \<Rightarrow> resourceMask \<Rightarrow> bool" where
  "tagged own cur msk \<longleftrightarrow>
     (case msk of
        UnlimitedResourceMask n \<Rightarrow> False
      | ResourceMaskImpl m \<Rightarrow> (\<forall>u. if u < length m then m ! u = status_of cur (own u) else own u = None))"

definition paint :: "(nat \<Rightarrow> owner option) \<Rightarrow> nat \<Rightarrow> nat \<Rightarrow> owner option \<Rightarrow> nat \<Rightarrow> owner option" where
  "paint own off len x = (\<lambda>u. if off \<le> u \<and> u < off + len then x else own u)"

definition erase :: "WorkGroup \<Rightarrow> (nat \<Rightarrow> owner option) \<Rightarrow> nat \<Rightarrow> owner option" where
  "erase w own = (\<lambda>u. case own u of Some (w', i) \<Rightarrow> if w' = w then None else own u | None \<Rightarrow> None)"

lemma status_of_Free: "status_of cur x = Free \<longleftrightarrow> x = None"
  by (auto simp: status_of_def split: option.splits)

lemma tagged_nextRegion:
  assumes "tagged own cur msk" "nextRegion len Free msk = ((off, True), msk')"
  shows "msk' = msk" "\<forall>u. off \<le> u \<longrightarrow> u < off + len \<longrightarrow> own u = None"
proof -
  obtain m where m: "msk = ResourceMaskImpl m" using assms(1) by (cases msk) (auto simp: tagged_def)
  show "msk' = msk" using assms(2) m by simp
  show "\<forall>u. off \<le> u \<longrightarrow> u < off + len \<longrightarrow> own u = None"
  proof (cases "len = 0")
    case False
    then have "region m Free off len"
      using nextRegion_first [of len Free m] assms(2) m by (auto simp: first_region_def)
    then show ?thesis using assms(1) m status_of_Free by (auto simp: region_def tagged_def)
  qed auto
qed

lemma tagged_nextRegion_hit:
  assumes "tagged own cur msk" "nextRegion len Free msk = ((off, True), msk')" "0 < len"
  shows "\<exists>m. msk = ResourceMaskImpl m \<and> off + len \<le> length m"
proof -
  obtain m where m: "msk = ResourceMaskImpl m" using assms(1) by (cases msk) (auto simp: tagged_def)
  then show ?thesis using nextRegion_first [of len Free m] assms(2,3)
    by (auto simp: first_region_def region_def)
qed

text \<open>Setting a region to a status that agrees with the new owner.\<close>

lemma tagged_setStatus:
  assumes t: "tagged own cur msk"
    and fits: "0 < len \<longrightarrow> (\<exists>m. msk = ResourceMaskImpl m \<and> off + len \<le> length m)"
    and st: "st = status_of cur x"
  shows "\<exists>msk'. setStatus off len st msk = Inr msk' \<and> tagged (paint own off len x) cur msk'"
proof (cases "len = 0")
  case True
  then show ?thesis using t by (cases msk) (auto simp: tagged_def paint_def)
next
  case False
  then obtain m where m: "msk = ResourceMaskImpl m" "off + len \<le> length m" using fits by auto
  then show ?thesis using t False st
    by (auto simp: tagged_def paint_def nth_copy_at length_copy_at)
qed

lemma tagged_current:
  assumes "tagged own None msk" "\<forall>u i. own u \<noteq> Some (w, i)"
  shows "tagged own (Some w) msk"
  using assms by (auto simp: tagged_def status_of_def split: resourceMask.splits option.splits if_splits)

lemma tagged_commit:
  assumes "tagged own (Some w) msk"
  shows "tagged own None (convertStatus ToReserve Reserved msk)"
  using assms
  by (cases msk) (auto simp: tagged_def status_of_def split: option.splits if_splits)

lemma tagged_rollback:
  assumes "tagged own (Some w) msk"
  shows "tagged (erase w own) None (convertStatus ToReserve Free msk)"
  using assms
  by (cases msk) (auto simp: tagged_def status_of_def erase_def split: option.splits if_splits)

section \<open>Layouts\<close>

text \<open>
  A layout assigns each owner its range. That the owner of a unit is a function of the unit
  makes the ranges of different owners disjoint.
\<close>

type_synonym alloc = "owner \<Rightarrow> (nat \<times> nat) option"

definition covers :: "alloc \<Rightarrow> owner \<Rightarrow> nat \<Rightarrow> bool" where
  "covers R x u \<longleftrightarrow> (case R x of Some (off, len) \<Rightarrow> off \<le> u \<and> u < off + len | None \<Rightarrow> False)"

definition layout :: "(nat \<Rightarrow> owner option) \<Rightarrow> alloc \<Rightarrow> bool" where
  "layout own R \<longleftrightarrow> (\<forall>u x. own u = Some x \<longleftrightarrow> covers R x u)"

lemma covers_Some: "R x = Some (off, len) \<Longrightarrow> covers R x u \<longleftrightarrow> off \<le> u \<and> u < off + len"
  by (simp add: covers_def)

lemma covers_update:
  "covers (R(x := p)) y u \<longleftrightarrow>
     (if y = x then (case p of Some (off, len) \<Rightarrow> off \<le> u \<and> u < off + len | None \<Rightarrow> False) else covers R y u)"
  by (simp add: covers_def)

lemma layoutD: "layout own R \<Longrightarrow> own u = Some x \<longleftrightarrow> covers R x u"
  unfolding layout_def by blast

lemma layout_paint:
  assumes "layout own R" "R x = None" "\<forall>u. off \<le> u \<longrightarrow> u < off + len \<longrightarrow> own u = None"
  shows "layout (paint own off len (Some x)) (R(x \<mapsto> (off, len)))"
  unfolding layout_def
proof (intro allI)
  fix u y
  have "own u \<noteq> Some x" using assms(2) by (simp add: layoutD [OF assms(1)] covers_def)
  then show "(paint own off len (Some x) u = Some y) = covers (R(x \<mapsto> (off, len))) y u"
    using assms(3) by (auto simp: paint_def covers_update simp flip: layoutD [OF assms(1)])
qed

lemma layout_free:
  assumes "layout own R" "R x = Some (off, len)"
  shows "layout (paint own off len None) (R(x := None))"
  unfolding layout_def covers_update paint_def
  using layoutD [OF assms(1)] covers_Some [of R x off len, OF assms(2)] by (simp add: if_distrib) (metis option.inject)

lemma layout_erase:
  assumes "layout own R"
  shows "layout (erase w own) (\<lambda>x. if fst x = w then None else R x)"
proof -
  have "covers (\<lambda>x. if fst x = w then None else R x) x u \<longleftrightarrow> fst x \<noteq> w \<and> covers R x u" for x u
    by (simp add: covers_def)
  moreover have "erase w own u = Some x \<longleftrightarrow> fst x \<noteq> w \<and> own u = Some x" for u x
    by (auto simp: erase_def split: option.splits)
  ultimately show ?thesis unfolding layout_def by (simp add: layoutD [OF assms])
qed

lemma layout_disjoint:
  assumes "layout own R" "R x = Some (o1, l1)" "R y = Some (o2, l2)" "x \<noteq> y"
  shows "{o1..<o1 + l1} \<inter> {o2..<o2 + l2} = {}"
proof -
  have "own u = Some x" if "u \<in> {o1..<o1 + l1}" for u
    using that by (simp add: layoutD [OF assms(1)] covers_Some [of R x, OF assms(2)])
  moreover have "own u = Some y" if "u \<in> {o2..<o2 + l2}" for u
    using that by (simp add: layoutD [OF assms(1)] covers_Some [of R y, OF assms(3)])
  ultimately show ?thesis using assms(4) by (metis disjoint_iff option.inject)
qed

lemma layout_fits:
  assumes "layout own R" "R x = Some (off, len)" "tagged own cur msk" "0 < len"
  shows "\<exists>m. msk = ResourceMaskImpl m \<and> off + len \<le> length m"
proof -
  obtain m where m: "msk = ResourceMaskImpl m" using assms(3) by (cases msk) (auto simp: tagged_def)
  have "own (off + len - 1) = Some x"
    using assms(4) by (simp add: layoutD [OF assms(1)] covers_Some [of R x, OF assms(2)])
  moreover have "own u = None" if "\<not> u < length m" for u using assms(3) m that by (auto simp: tagged_def)
  ultimately have "off + len - 1 < length m" by (metis option.distinct(1))
  then show ?thesis using m assms(4) by auto
qed

lemma erase_paint: "(\<forall>u. off \<le> u \<longrightarrow> u < off + len \<longrightarrow> own u = None) \<Longrightarrow>
    erase w (paint own off len (Some (w, i))) = erase w own"
  by (auto simp: erase_def paint_def fun_eq_iff)

section \<open>Placing the scalar registers\<close>

definition with_regions :: "WorkGroup \<Rightarrow> nat \<Rightarrow> nat \<Rightarrow> (nat \<Rightarrow> (nat \<times> nat) option) \<Rightarrow> alloc \<Rightarrow> alloc" where
  "with_regions w k n reg R = (\<lambda>(w', i). if w' = w \<and> k \<le> i \<and> i < n then reg i else R (w', i))"

lemma with_regions_step:
  assumes "k < n" "reg k = Some p"
  shows "with_regions w (Suc k) n reg (R((w, k) \<mapsto> p)) = with_regions w k n reg R"
  using assms by (auto simp: with_regions_def fun_eq_iff le_Suc_eq Suc_le_eq)

definition sgpr_reg :: "nat \<Rightarrow> WfLocation list \<Rightarrow> nat \<Rightarrow> (nat \<times> nat) option" where
  "sgpr_reg required ls i = Some (SGPROffset (ls ! i) div 4 div 16, required)"

lemma sgpr_loop_places:
  assumes "tagged own (Some w) m" "layout own R" "\<forall>i. k \<le> i \<longrightarrow> R (w, i) = None" "length ls = n" "k \<le> n"
  shows "\<exists>b m' ls' own'. sgpr_loop required [k..<n] m ls = Inr (b, m', ls') \<and>
    tagged own' (Some w) m' \<and> erase w own' = erase w own \<and> length ls' = n \<and>
    (\<forall>i < k. ls' ! i = ls ! i) \<and> (\<forall>i < n. \<exists>x. ls' ! i = (ls ! i)\<lparr>SGPROffset := x\<rparr>) \<and>
    (b \<longrightarrow> layout own' (with_regions w k n (sgpr_reg required ls') R))"
  using assms
proof (induction "n - k" arbitrary: k m ls own R)
  case 0
  then have "n = k" by simp
  then have "with_regions w k n (sgpr_reg required ls) R = R" by (auto simp: with_regions_def fun_eq_iff)
  moreover have "\<exists>x. ls ! i = (ls ! i)\<lparr>SGPROffset := x\<rparr>" for i by (metis WfLocation.surjective WfLocation.update_convs(4))
  ultimately show ?case using 0 \<open>n = k\<close> by auto
next
  case (Suc d)
  then have k: "k < n" by simp
  have keep: "\<exists>x. ls ! i = (ls ! i)\<lparr>SGPROffset := x\<rparr>" for i by (metis WfLocation.surjective WfLocation.update_convs(4))
  obtain off hit m1 where nr: "nextRegion required Free m = ((off, hit), m1)" by (metis prod.exhaust)
  have step: "[k..<n] = k # [Suc k..<n]" using k by (simp add: upt_conv_Cons)
  show ?case
  proof (cases hit)
    case False
    have "m1 = m" using nr Suc.prems(1) by (cases m) (auto simp: tagged_def)
    then show ?thesis using False nr step Suc.prems keep by auto
  next
    case True
    then have nr: "nextRegion required Free m = ((off, True), m1)" using nr by simp
    have m1: "m1 = m" and free: "\<forall>u. off \<le> u \<longrightarrow> u < off + required \<longrightarrow> own u = None"
      using tagged_nextRegion [OF Suc.prems(1) nr] by auto
    have fits: "0 < required \<longrightarrow> (\<exists>m'. m = ResourceMaskImpl m' \<and> off + required \<le> length m')"
      using tagged_nextRegion_hit [OF Suc.prems(1) nr] by auto
    let ?own = "paint own off required (Some (w, k))"
    obtain m2 where m2: "setStatus off required ToReserve m = Inr m2" "tagged ?own (Some w) m2"
      using tagged_setStatus [OF Suc.prems(1) fits, of ToReserve "Some (w, k)"] by (auto simp: status_of_def)
    let ?ls = "ls[k := (ls ! k)\<lparr>SGPROffset := off * 16 * 4\<rparr>]"
    have lay: "layout ?own (R((w, k) \<mapsto> (off, required)))"
      using Suc.prems(2,3) free by (intro layout_paint) auto
    have d: "d = n - Suc k" using Suc.hyps(2) by simp
    have pre: "\<forall>i. Suc k \<le> i \<longrightarrow> (R((w, k) \<mapsto> (off, required))) (w, i) = None" "length ?ls = n" "Suc k \<le> n"
      using Suc.prems(3,4) k by auto
    obtain b m' ls' own' where IH: "sgpr_loop required [Suc k..<n] m2 ?ls = Inr (b, m', ls')"
      "tagged own' (Some w) m'" "erase w own' = erase w ?own" "length ls' = n"
      "\<forall>i < Suc k. ls' ! i = ?ls ! i" "\<forall>i < n. \<exists>x. ls' ! i = (?ls ! i)\<lparr>SGPROffset := x\<rparr>"
      "b \<longrightarrow> layout own' (with_regions w (Suc k) n (sgpr_reg required ls') (R((w, k) \<mapsto> (off, required))))"
      using Suc.hyps(1) [OF d m2(2) lay pre] by blast
    have at: "ls' ! k = (ls ! k)\<lparr>SGPROffset := off * 16 * 4\<rparr>" using IH(5) k Suc.prems(4) by simp
    then have "sgpr_reg required ls' k = Some (off, required)" by (simp add: sgpr_reg_def)
    moreover have "\<exists>x. ls' ! i = (ls ! i)\<lparr>SGPROffset := x\<rparr>" if i: "i < n" for i
    proof -
      obtain x where "ls' ! i = (?ls ! i)\<lparr>SGPROffset := x\<rparr>" using IH(6) i by blast
      then show ?thesis using i Suc.prems(4) by (cases "i = k") auto
    qed
    moreover have "erase w own' = erase w own" using IH(3) erase_paint [OF free] by simp
    moreover have "\<forall>i < k. ls' ! i = ls ! i" using IH(5) by auto
    ultimately show ?thesis using IH m1 m2 nr step with_regions_step [OF k, of "sgpr_reg required ls'"]
      by auto
  qed
qed

section \<open>Placing the wavefronts on SIMD units\<close>

definition dist_to :: "nat \<Rightarrow> nat \<Rightarrow> nat \<Rightarrow> nat" where
  "dist_to first n next = (if next \<le> first then first - next else first + n - next)"

lemma simd_loop_finds:
  assumes "length free = n" "length used = n" "length masks = n" "next < n" "first < n"
    and "firstTry \<longrightarrow> next = first" "(if firstTry then n else dist_to first n next) < fuel"
    and "\<forall>s < n. tagged (own s) (Some w) (masks ! s)"
  shows "\<exists>found next' masks'. simd_loop fuel required first firstTry free used next masks = Inr (found, next', masks') \<and>
    next' < n \<and>
    (case found of
       None \<Rightarrow> masks' = masks
     | Some (s, off) \<Rightarrow> s < n \<and> 0 < free ! s - used ! s \<and>
         (\<forall>u. off \<le> u \<longrightarrow> u < off + required \<longrightarrow> own s u = None) \<and>
         (\<exists>m2. masks' = masks[s := m2] \<and> (\<forall>i. tagged (paint (own s) off required (Some (w, i))) (Some w) m2)))"
  using assms
proof (induction fuel arbitrary: firstTry "next")
  case 0
  then show ?case by simp
next
  case (Suc fuel)
  show ?case
  proof (cases "firstTry \<or> next \<noteq> first")
    case False
    then show ?thesis using Suc.prems by auto
  next
    case go: True
    let ?m = "masks ! next"
    let ?next = "if length free \<le> next + 1 then 0 else next + 1"
    have nx: "?next < n" "dist_to first n ?next < fuel"
      using Suc.prems go by (auto simp: dist_to_def split: if_splits)
    obtain off hit m1 where nr: "nextRegion required Free ?m = ((off, hit), m1)" by (metis prod.exhaust)
    have t: "tagged (own next) (Some w) ?m" using Suc.prems(4,8) by blast
    have m1: "m1 = ?m" using nr t by (cases ?m) (auto simp: tagged_def)
    show ?thesis
    proof (cases "hit \<and> free ! next - used ! next > 0")
      case True
      then have nr': "nextRegion required Free ?m = ((off, True), m1)" using nr by simp
      note free = tagged_nextRegion(2) [OF t nr']
      have fits: "0 < required \<longrightarrow> (\<exists>m. ?m = ResourceMaskImpl m \<and> off + required \<le> length m)"
        using tagged_nextRegion_hit [OF t nr'] by auto
      have "\<exists>m2. setStatus off required ToReserve ?m = Inr m2 \<and> tagged (paint (own next) off required (Some (w, i))) (Some w) m2" for i
        using tagged_setStatus [OF t fits, of ToReserve "Some (w, i)"] by (simp add: status_of_def)
      then obtain m2 where m2: "setStatus off required ToReserve ?m = Inr m2"
        "\<forall>i. tagged (paint (own next) off required (Some (w, i))) (Some w) m2" by (metis sum.inject(2))
      have "simd_loop (Suc fuel) required first firstTry free used next masks = Inr (Some (next, off), ?next, masks[next := m2])"
        using go True nr' m1 m2(1) Suc.prems(1-4) by (simp add: Let_def)
      then show ?thesis using nx(1) Suc.prems(4) True free m2(2) by auto
    next
      case False
      have "simd_loop (Suc fuel) required first firstTry free used next masks =
          simd_loop fuel required first False free used ?next masks"
        using go False nr m1 Suc.prems(1-4) by (auto simp: Let_def)
      then show ?thesis using Suc.IH [of ?next False] nx Suc.prems by simp
    qed
  qed
qed

definition vgpr_reg :: "nat \<Rightarrow> nat \<Rightarrow> nat \<Rightarrow> WfLocation list \<Rightarrow> nat \<Rightarrow> (nat \<times> nat) option" where
  "vgpr_reg s required gran ls i =
     (if SIMDID (ls ! i) = s then Some (VGPROffset (ls ! i) div 4 div gran, required) else None)"

definition on_simd :: "nat \<Rightarrow> WfLocation list \<Rightarrow> nat \<Rightarrow> int" where
  "on_simd s ls k = int (length (filter (\<lambda>l. SIMDID l = s) (drop k ls)))"

lemma with_regions_skip:
  assumes "k < n" "reg k = None" "R (w, k) = None"
  shows "with_regions w (Suc k) n reg R = with_regions w k n reg R"
  using assms by (auto simp: with_regions_def fun_eq_iff le_Suc_eq Suc_le_eq)

lemma on_simd_step:
  "k < length ls \<Longrightarrow> on_simd s ls k = (if SIMDID (ls ! k) = s then 1 else 0) + on_simd s ls (Suc k)"
  by (simp add: on_simd_def flip: Cons_nth_drop_Suc)

definition placed :: "(nat \<Rightarrow> nat \<Rightarrow> owner option) \<Rightarrow> WorkGroup \<Rightarrow> nat \<Rightarrow> resourceMask list \<Rightarrow> bool" where
  "placed own w n masks \<longleftrightarrow> length masks = n \<and> (\<forall>s < n. tagged (own s) (Some w) (masks ! s))"

lemma match_loop_places:
  assumes "length free = n" "length used = n" "placed own w n masks" "next < n" "0 < gran"
    and "\<forall>s < n. layout (own s) (R s) \<and> (\<forall>i. k \<le> i \<longrightarrow> R s (w, i) = None) \<and> 0 \<le> free ! s - used ! s"
    and "length ls = N" "k \<le> N"
  shows "\<exists>b next' masks' ls' own'. match_loop required gran free [k..<N] used next masks ls = Inr (b, next', masks', ls') \<and>
    next' < n \<and> placed own' w n masks' \<and> (\<forall>s < n. erase w (own' s) = erase w (own s)) \<and>
    length ls' = N \<and> (\<forall>i < k. ls' ! i = ls ! i) \<and>
    (\<forall>i < N. \<exists>a c. ls' ! i = (ls ! i)\<lparr>SIMDID := a, VGPROffset := c\<rparr>) \<and>
    (b \<longrightarrow> (\<forall>i < N. k \<le> i \<longrightarrow> SIMDID (ls' ! i) < n) \<and>
       (\<forall>s < n. layout (own' s) (with_regions w k N (vgpr_reg s required gran ls') (R s)) \<and>
                on_simd s ls' k \<le> free ! s - used ! s))"
  using assms
proof (induction "N - k" arbitrary: k used "next" masks ls own R)
  case 0
  then have "N = k" by simp
  then have "with_regions w k N reg R = R" for reg R by (auto simp: with_regions_def fun_eq_iff)
  moreover have "\<exists>a c. ls ! i = (ls ! i)\<lparr>SIMDID := a, VGPROffset := c\<rparr>" for i
    by (metis WfLocation.surjective WfLocation.update_convs(2,3))
  ultimately show ?case using 0 \<open>N = k\<close> by (auto simp: on_simd_def)
next
  case (Suc d)
  then have k: "k < N" and d: "d = N - Suc k" by auto
  have keep: "\<exists>a c. ls ! i = (ls ! i)\<lparr>SIMDID := a, VGPROffset := c\<rparr>" for i
    by (metis WfLocation.surjective WfLocation.update_convs(2,3))
  have step: "[k..<N] = k # [Suc k..<N]" using k by (simp add: upt_conv_Cons)
  obtain found nx masks1 where sl: "simd_loop (Suc (length free)) required next True free used next masks = Inr (found, nx, masks1)"
    "nx < n" and fnd: "case found of
       None \<Rightarrow> masks1 = masks
     | Some (s, off) \<Rightarrow> s < n \<and> 0 < free ! s - used ! s \<and>
         (\<forall>u. off \<le> u \<longrightarrow> u < off + required \<longrightarrow> own s u = None) \<and>
         (\<exists>m2. masks1 = masks[s := m2] \<and> (\<forall>i. tagged (paint (own s) off required (Some (w, i))) (Some w) m2))"
    using simd_loop_finds [of free n used masks "next" "next" True "Suc (length free)" own w required] Suc.prems
    by (auto simp: placed_def)
  show ?case
  proof (cases found)
    case None
    then show ?thesis using sl fnd step Suc.prems keep by (auto simp: placed_def)
  next
    case (Some p)
    obtain s off where p: "p = (s, off)" by (cases p)
    obtain m2 where s: "s < n" "0 < free ! s - used ! s"
      and fr: "\<forall>u. off \<le> u \<longrightarrow> u < off + required \<longrightarrow> own s u = None"
      and m2: "masks1 = masks[s := m2]" "\<forall>i. tagged (paint (own s) off required (Some (w, i))) (Some w) m2"
      using fnd Some p by auto
    let ?own = "own(s := paint (own s) off required (Some (w, k)))"
    let ?R = "R(s := (R s)((w, k) \<mapsto> (off, required)))"
    let ?used = "used[s := used ! s + 1]"
    let ?ls = "ls[k := (ls ! k)\<lparr>SIMDID := s, VGPROffset := off * gran * 4\<rparr>]"
    have pl: "placed ?own w n masks1"
      using Suc.prems(3) s m2 by (auto simp: placed_def nth_list_update)
    have lay: "\<forall>t < n. layout (?own t) (?R t) \<and> (\<forall>i. Suc k \<le> i \<longrightarrow> ?R t (w, i) = None) \<and> 0 \<le> free ! t - ?used ! t"
      using Suc.prems(2,6) s fr by (auto simp: nth_list_update intro!: layout_paint)
    have pre: "length ?used = n" "length ?ls = N" "Suc k \<le> N" using Suc.prems k by auto
    obtain b next' masks' ls' own' where IH:
      "match_loop required gran free [Suc k..<N] ?used nx masks1 ?ls = Inr (b, next', masks', ls')"
      "next' < n" "placed own' w n masks'" "\<forall>t < n. erase w (own' t) = erase w (?own t)" "length ls' = N"
      "\<forall>i < Suc k. ls' ! i = ?ls ! i"
      "\<forall>i < N. \<exists>a c. ls' ! i = (?ls ! i)\<lparr>SIMDID := a, VGPROffset := c\<rparr>"
      "b \<longrightarrow> (\<forall>i < N. Suc k \<le> i \<longrightarrow> SIMDID (ls' ! i) < n) \<and>
         (\<forall>t < n. layout (own' t) (with_regions w (Suc k) N (vgpr_reg t required gran ls') (?R t)) \<and>
                  on_simd t ls' (Suc k) \<le> free ! t - ?used ! t)"
      using Suc.hyps(1) [OF d Suc.prems(1) pre(1) pl sl(2) Suc.prems(5) lay pre(2,3)] by blast
    have at: "SIMDID (ls' ! k) = s" "VGPROffset (ls' ! k) = off * gran * 4"
      using IH(6) k Suc.prems(7) by auto
    have reg: "vgpr_reg t required gran ls' k = (if t = s then Some (off, required) else None)" for t
      using at Suc.prems(5) by (simp add: vgpr_reg_def)
    have wr: "with_regions w (Suc k) N (vgpr_reg t required gran ls') (?R t) =
        with_regions w k N (vgpr_reg t required gran ls') (R t)" if "t < n" for t
      using that reg [of t] with_regions_step [OF k, of "vgpr_reg t required gran ls'"]
        with_regions_skip [OF k, of "vgpr_reg t required gran ls'"] Suc.prems(6) by (cases "t = s") auto
    have os: "on_simd t ls' k \<le> free ! t - used ! t" if "b" "t < n" for t
      using IH(8) that s k Suc.prems(2) IH(5) at by (auto simp: on_simd_step nth_list_update)
    have er: "\<forall>t < n. erase w (own' t) = erase w (own t)" using IH(4) erase_paint [OF fr] by auto
    have upd: "\<exists>a c. ls' ! i = (ls ! i)\<lparr>SIMDID := a, VGPROffset := c\<rparr>" if i: "i < N" for i
    proof -
      obtain a c where "ls' ! i = (?ls ! i)\<lparr>SIMDID := a, VGPROffset := c\<rparr>" using IH(7) i by blast
      then show ?thesis using i Suc.prems(7) by (cases "i = k") auto
    qed
    have simds: "SIMDID (ls' ! i) < n" if "b" "i < N" "k \<le> i" for i
      using IH(8) that at s by (cases "i = k") auto
    have "match_loop required gran free [k..<N] used next masks ls = Inr (b, next', masks', ls')"
      using step sl(1) Some p IH(1) by simp
    moreover have "\<forall>i < k. ls' ! i = ls ! i" using IH(6) by auto
    ultimately show ?thesis using IH(2,3,5,8) er upd simds wr os by (intro exI conjI) auto
  qed
qed

section \<open>Sizes\<close>

fun msize :: "resourceMask \<Rightarrow> nat" where
  "msize (ResourceMaskImpl m) = length m"
| "msize (UnlimitedResourceMask n) = 0"

lemma nextRegion_msize: "nextRegion len st msk = (res, msk') \<Longrightarrow> msize msk' = msize msk"
  by (cases msk) auto

lemma setStatus_msize: "setStatus off len st msk = Inr msk' \<Longrightarrow> msize msk' = msize msk"
  by (cases msk) (auto simp: length_copy_at split: if_splits)

lemma convertStatus_msize [simp]: "msize (convertStatus a b msk) = msize msk"
  by (cases msk) auto

lemma sgpr_loop_msize: "sgpr_loop required is m ls = Inr (b, m', ls') \<Longrightarrow> msize m' = msize m"
proof (induction "is" arbitrary: m ls)
  case Nil
  then show ?case by simp
next
  case (Cons i "is")
  then show ?case
    by (auto simp: bindR_eq_Inr split: prod.splits if_splits dest!: nextRegion_msize setStatus_msize)
qed

lemma msize_update: "i < length ms \<Longrightarrow> msize m = msize (ms ! i) \<Longrightarrow> map msize (ms[i := m]) = map msize ms"
  by (simp add: map_update list_update_same_conv)

lemma simd_loop_msize:
  "simd_loop fuel required first firstTry free used next ms = Inr (found, nx, ms') \<Longrightarrow> map msize ms' = map msize ms"
proof (induction fuel arbitrary: firstTry "next" ms)
  case 0
  then show ?case by simp
next
  case (Suc fuel)
  show ?case
  proof (cases "(firstTry \<or> next \<noteq> first) \<and> next < length ms")
    case True
    obtain off hit m1 where nr: "nextRegion required Free (ms ! next) = ((off, hit), m1)" by (metis prod.exhaust)
    note m1 = nextRegion_msize [OF nr]
    show ?thesis using Suc.prems True nr m1 msize_update [of "next" ms]
      by (auto simp: Let_def bindR_eq_Inr split: if_splits dest!: Suc.IH setStatus_msize)
  next
    case False
    then show ?thesis using Suc.prems by (auto simp: slice_get_def split: if_splits)
  qed
qed

lemma match_loop_msize:
  "match_loop required gran free is used next ms ls = Inr (b, nx, ms', ls') \<Longrightarrow> map msize ms' = map msize ms"
proof (induction "is" arbitrary: used "next" ms ls)
  case Nil
  then show ?case by simp
next
  case (Cons i "is")
  then obtain found nx1 ms1 where sl:
      "simd_loop (Suc (length free)) required next True free used next ms = Inr (found, nx1, ms1)"
    by (auto simp: bindR_eq_Inr simp del: simd_loop.simps)
  show ?case
  proof (cases found)
    case None
    then show ?thesis using Cons.prems sl simd_loop_msize [OF sl] by (simp del: simd_loop.simps)
  next
    case (Some p)
    obtain s off where "p = (s, off)" by (cases p)
    then show ?thesis using Cons.prems sl simd_loop_msize [OF sl] Some Cons.IH
      by (simp del: simd_loop.simps)
  qed
qed

lemma tagged_same_size:
  assumes "tagged own cur m1" "tagged own cur m2" "msize m1 = msize m2"
  shows "m1 = m2"
proof -
  obtain xs ys where m: "m1 = ResourceMaskImpl xs" "m2 = ResourceMaskImpl ys"
    using assms(1,2) by (cases m1; cases m2) (auto simp: tagged_def)
  have "\<forall>u < length xs. xs ! u = status_of cur (own u)" using assms(1) m by (auto simp: tagged_def)
  moreover have "\<forall>u < length ys. ys ! u = status_of cur (own u)" using assms(2) m by (auto simp: tagged_def)
  ultimately show ?thesis using m assms(3) by (simp add: nth_equalityI)
qed

section \<open>The invariant of a compute unit\<close>

definition units :: "nat \<Rightarrow> nat \<Rightarrow> nat" where
  "units amount gran = (if amount mod gran = 0 then amount div gran else amount div gran + 1)"

lemma unitsOccupy_units: "0 < gran \<Longrightarrow> unitsOccupy amount gran = Inr (units amount gran)"
  by (simp add: unitsOccupy_def units_def)

definition allocs :: "(WorkGroup \<Rightarrow> WfLocation list \<Rightarrow> nat \<Rightarrow> (nat \<times> nat) option) \<Rightarrow> CUResourceImpl \<Rightarrow> alloc" where
  "allocs reg r = (\<lambda>(w, i). case reservedWGs r w of
     None \<Rightarrow> None | Some ls \<Rightarrow> if i < length ls then reg w ls i else None)"

definition sreg_of :: "WorkGroup \<Rightarrow> WfLocation list \<Rightarrow> nat \<Rightarrow> (nat \<times> nat) option" where
  "sreg_of w = sgpr_reg (units (wg_WFSgprCount w) 16)"

definition vreg_of :: "nat \<Rightarrow> nat \<Rightarrow> WorkGroup \<Rightarrow> WfLocation list \<Rightarrow> nat \<Rightarrow> (nat \<times> nat) option" where
  "vreg_of gran s w = vgpr_reg s (units (wg_WIVgprCount w) gran) gran"

definition lds_of :: "nat \<Rightarrow> WorkGroup \<Rightarrow> WfLocation list \<Rightarrow> nat \<Rightarrow> (nat \<times> nat) option" where
  "lds_of gran w ls i =
     (if i = 0 then Some (LDSOffset (ls ! 0) div gran, units (wg_WGGroupSegmentByteSize w) gran) else None)"

definition holds_layout :: "resourceMask \<Rightarrow> alloc \<Rightarrow> bool" where
  "holds_layout msk R \<longleftrightarrow> (\<exists>own. tagged own None msk \<and> layout own R)"

definition resident :: "nat \<Rightarrow> CUResourceImpl \<Rightarrow> int" where
  "resident s r = (\<Sum>w \<in> dom (reservedWGs r). on_simd s (the (reservedWGs r w)) 0)"

definition cu_shape :: "int list \<Rightarrow> CUResourceImpl \<Rightarrow> bool" where
  "cu_shape sizes r \<longleftrightarrow> sregGranularity r = 16 \<and> 0 < vregGranularity r \<and> 0 < ldsGranularity r \<and>
     length (wfPoolFreeCount r) = length sizes \<and> length (vregMasks r) = length sizes \<and>
     nextSIMD r < length sizes \<and> finite (dom (reservedWGs r)) \<and>
     (\<forall>w ls. reservedWGs r w = Some ls \<longrightarrow> length ls = length (wg_Wavefronts w) \<and> ls \<noteq> [] \<and>
        (\<forall>l \<in> set ls. SIMDID l < length sizes \<and> LDSOffset l = LDSOffset (ls ! 0)))"

definition cu_inv :: "int list \<Rightarrow> CUResourceImpl \<Rightarrow> bool" where
  "cu_inv sizes r \<longleftrightarrow> cu_shape sizes r \<and>
     holds_layout (sregMask r) (allocs sreg_of r) \<and>
     holds_layout (ldsMask r) (allocs (lds_of (ldsGranularity r)) r) \<and>
     (\<forall>s < length sizes. holds_layout (vregMasks r ! s) (allocs (vreg_of (vregGranularity r) s) r)) \<and>
     (\<forall>s < length sizes. 0 \<le> wfPoolFreeCount r ! s \<and> wfPoolFreeCount r ! s + resident s r = sizes ! s)"

lemma allocs_new:
  assumes "reservedWGs r w = None"
  shows "allocs reg r (w, i) = None"
  using assms by (simp add: allocs_def)

lemma layout_no_owner:
  assumes "layout own (allocs reg r)" "reservedWGs r w = None"
  shows "\<forall>u i. own u \<noteq> Some (w, i)" "erase w own = own"
proof -
  show "\<forall>u i. own u \<noteq> Some (w, i)" by (simp add: layoutD [OF assms(1)] covers_def allocs_new [OF assms(2)])
  then show "erase w own = own" by (auto simp: erase_def fun_eq_iff split: option.splits)
qed

text \<open>Adding a work-group's locations to the map is adding its regions to the layout.\<close>

lemma allocs_add:
  assumes "reservedWGs r w = None" "reservedWGs r' = (reservedWGs r)(w \<mapsto> ls)" "length ls = N"
  shows "allocs reg r' = with_regions w 0 N (reg w ls) (allocs reg r)"
  using assms by (auto simp: allocs_def with_regions_def fun_eq_iff)

lemma allocs_remove:
  assumes "reservedWGs r' = (reservedWGs r)(w := None)"
  shows "allocs reg r' = (\<lambda>x. if fst x = w then None else allocs reg r x)"
  using assms by (auto simp: allocs_def fun_eq_iff)

section \<open>Reserving\<close>

lemma rollback_restores:
  assumes "tagged own None m0" "erase w own = own" "tagged own' (Some w) m" "erase w own' = erase w own"
    and "msize m = msize m0"
  shows "convertStatus ToReserve Free m = m0"
  using tagged_same_size [OF _ assms(1)] tagged_rollback [OF assms(3)] assms(2,4,5) by simp

lemma sgpr_stage:
  assumes inv: "cu_inv sizes r" and new: "reservedWGs r wg = None" and len: "length ls = length (wg_Wavefronts wg)"
  shows "\<exists>b m ls'. withinSGPRLimitation r wg ls = Inr (b, r\<lparr>sregMask := m\<rparr>, ls') \<and>
    convertStatus ToReserve Free m = sregMask r \<and> length ls' = length ls \<and>
    (b \<longrightarrow> holds_layout (convertStatus ToReserve Reserved m)
       (with_regions wg 0 (length ls) (sreg_of wg ls') (allocs sreg_of r)))"
proof -
  obtain own where own: "tagged own None (sregMask r)" "layout own (allocs sreg_of r)"
    using inv by (auto simp: cu_inv_def holds_layout_def)
  note no = layout_no_owner [OF own(2) new]
  note cur = tagged_current [OF own(1) no(1)]
  let ?req = "units (wg_WFSgprCount wg) 16"
  obtain b m ls' own' where l: "sgpr_loop ?req [0..<length ls] (sregMask r) ls = Inr (b, m, ls')"
    "tagged own' (Some wg) m" "erase wg own' = erase wg own" "length ls' = length ls"
    "b \<longrightarrow> layout own' (with_regions wg 0 (length ls) (sgpr_reg ?req ls') (allocs sreg_of r))"
    using sgpr_loop_places [OF cur own(2), of 0 ls "length ls" ?req] allocs_new [OF new] by auto
  have "withinSGPRLimitation r wg ls = Inr (b, r\<lparr>sregMask := m\<rparr>, ls')"
    using inv l(1) len by (simp add: withinSGPRLimitation_def unitsOccupy_units cu_inv_def cu_shape_def)
  moreover have "convertStatus ToReserve Free m = sregMask r"
    using rollback_restores [OF own(1) no(2) l(2,3) sgpr_loop_msize [OF l(1)]] .
  ultimately show ?thesis using l tagged_commit [OF l(2)] by (auto simp: holds_layout_def sreg_of_def)
qed

lemma lds_stage:
  assumes inv: "cu_inv sizes r" and new: "reservedWGs r wg = None"
    and r1: "r1 = r\<lparr>sregMask := a\<rparr>"
  shows "\<exists>b m ls'. withinLDSLimitation r1 wg ls = Inr (b, r1\<lparr>ldsMask := m\<rparr>, ls') \<and>
    convertStatus ToReserve Free m = ldsMask r \<and>
    (b \<longrightarrow> (\<exists>off. ls' = map (\<lambda>l. l\<lparr>LDSOffset := off * ldsGranularity r\<rparr>) ls \<and>
       holds_layout (convertStatus ToReserve Reserved m)
         ((allocs (lds_of (ldsGranularity r)) r)((wg, 0) \<mapsto> (off, units (wg_WGGroupSegmentByteSize wg) (ldsGranularity r))))))"
proof -
  let ?R = "allocs (lds_of (ldsGranularity r)) r"
  let ?req = "units (wg_WGGroupSegmentByteSize wg) (ldsGranularity r)"
  have g: "0 < ldsGranularity r" using inv by (simp add: cu_inv_def cu_shape_def)
  obtain own where own: "tagged own None (ldsMask r)" "layout own ?R"
    using inv by (auto simp: cu_inv_def holds_layout_def)
  note no = layout_no_owner [OF own(2) new]
  note cur = tagged_current [OF own(1) no(1)]
  obtain off hit m1 where nr: "nextRegion ?req Free (ldsMask r) = ((off, hit), m1)" by (metis prod.exhaust)
  have m1: "m1 = ldsMask r" using nr cur by (cases "ldsMask r") (auto simp: tagged_def)
  show ?thesis
  proof (cases hit)
    case False
    have "withinLDSLimitation r1 wg ls = Inr (False, r1\<lparr>ldsMask := ldsMask r\<rparr>, ls)"
      using False nr m1 g r1 by (simp add: withinLDSLimitation_def unitsOccupy_units)
    moreover have "convertStatus ToReserve Free (ldsMask r) = ldsMask r"
      using rollback_restores [OF own(1) no(2) cur] by simp
    ultimately show ?thesis by blast
  next
    case True
    then have nr': "nextRegion ?req Free (ldsMask r) = ((off, True), m1)" using nr by simp
    note free = tagged_nextRegion(2) [OF cur nr']
    have fits: "0 < ?req \<longrightarrow> (\<exists>m'. ldsMask r = ResourceMaskImpl m' \<and> off + ?req \<le> length m')"
      using tagged_nextRegion_hit [OF cur nr'] by auto
    obtain m2 where m2: "setStatus off ?req ToReserve (ldsMask r) = Inr m2"
      "tagged (paint own off ?req (Some (wg, 0))) (Some wg) m2"
      using tagged_setStatus [OF cur fits, of ToReserve "Some (wg, 0)"] by (auto simp: status_of_def)
    have "withinLDSLimitation r1 wg ls = Inr (True, r1\<lparr>ldsMask := m2\<rparr>, map (\<lambda>l. l\<lparr>LDSOffset := off * ldsGranularity r\<rparr>) ls)"
      using nr' m1 g r1 m2(1) by (simp add: withinLDSLimitation_def unitsOccupy_units)
    moreover have "convertStatus ToReserve Free m2 = ldsMask r"
      using rollback_restores [OF own(1) no(2) m2(2) erase_paint [OF free] setStatus_msize [OF m2(1)]] .
    moreover have "layout (paint own off ?req (Some (wg, 0))) (?R((wg, 0) \<mapsto> (off, ?req)))"
      using own(2) free allocs_new [OF new] by (intro layout_paint) auto
    ultimately show ?thesis using tagged_commit [OF m2(2)] by (auto simp: holds_layout_def)
  qed
qed

lemma simd_stage:
  assumes inv: "cu_inv sizes r" and new: "reservedWGs r wg = None"
    and r2: "r2 = r\<lparr>sregMask := a, ldsMask := c\<rparr>"
    and len: "length ls = length (wg_Wavefronts wg)" "wg_Wavefronts wg \<noteq> []"
  shows "\<exists>b d ms ls'. matchWfWithSIMDs r2 wg ls = Inr (b, r2\<lparr>nextSIMD := d, vregMasks := ms\<rparr>, ls') \<and>
    d < length sizes \<and> length ms = length sizes \<and> map (convertStatus ToReserve Free) ms = vregMasks r \<and>
    length ls' = length ls \<and> (\<forall>i < length ls. \<exists>x y. ls' ! i = (ls ! i)\<lparr>SIMDID := x, VGPROffset := y\<rparr>) \<and>
    (b \<longrightarrow> (\<forall>i < length ls. SIMDID (ls' ! i) < length sizes) \<and>
       (\<forall>s < length sizes. on_simd s ls' 0 \<le> wfPoolFreeCount r ! s \<and>
          holds_layout (convertStatus ToReserve Reserved (ms ! s))
            (with_regions wg 0 (length ls) (vreg_of (vregGranularity r) s wg ls') (allocs (vreg_of (vregGranularity r) s) r))))"
proof -
  let ?n = "length sizes" and ?g = "vregGranularity r"
  let ?req = "units (wg_WIVgprCount wg) ?g"
  let ?R = "\<lambda>s. allocs (vreg_of ?g s) r"
  have sh: "cu_shape sizes r" using inv by (simp add: cu_inv_def)
  then have g: "0 < ?g" "length (wfPoolFreeCount r) = ?n" "length (vregMasks r) = ?n" "nextSIMD r < ?n"
    by (auto simp: cu_shape_def)
  have "\<forall>s < ?n. \<exists>own. tagged own None (vregMasks r ! s) \<and> layout own (?R s)"
    using inv by (auto simp: cu_inv_def holds_layout_def)
  then obtain own where own: "\<And>s. s < ?n \<Longrightarrow> tagged (own s) None (vregMasks r ! s)"
    "\<And>s. s < ?n \<Longrightarrow> layout (own s) (?R s)" by metis
  note no = layout_no_owner [OF own(2) new]
  have pl: "placed own wg ?n (vregMasks r)" using tagged_current [OF own(1) no(1)] g(3) by (simp add: placed_def)
  have pre: "\<forall>s < ?n. layout (own s) (?R s) \<and> (\<forall>i. 0 \<le> i \<longrightarrow> ?R s (wg, i) = None) \<and>
      0 \<le> wfPoolFreeCount r ! s - replicate ?n 0 ! s"
    using own(2) allocs_new [OF new] inv by (auto simp: cu_inv_def)
  obtain b d ms ls' own' where l:
    "match_loop ?req ?g (wfPoolFreeCount r) [0..<length ls] (replicate ?n 0) (nextSIMD r) (vregMasks r) ls = Inr (b, d, ms, ls')"
    "d < ?n" "placed own' wg ?n ms" "\<forall>s < ?n. erase wg (own' s) = erase wg (own s)" "length ls' = length ls"
    "\<forall>i < length ls. \<exists>x y. ls' ! i = (ls ! i)\<lparr>SIMDID := x, VGPROffset := y\<rparr>"
    "b \<longrightarrow> (\<forall>i < length ls. 0 \<le> i \<longrightarrow> SIMDID (ls' ! i) < ?n) \<and>
       (\<forall>s < ?n. layout (own' s) (with_regions wg 0 (length ls) (vgpr_reg s ?req ?g ls') (?R s)) \<and>
                on_simd s ls' 0 \<le> wfPoolFreeCount r ! s - replicate ?n 0 ! s)"
    using match_loop_places [OF g(2) length_replicate pl g(4,1) pre refl [of "length ls"] le0, of ?req]
    by (elim exE conjE) (rule that)
  have tg: "\<And>s. s < ?n \<Longrightarrow> tagged (own' s) (Some wg) (ms ! s)" and lms: "length ms = ?n"
    using l(3) by (auto simp: placed_def)
  have "msize (ms ! s) = msize (vregMasks r ! s)" if "s < ?n" for s
    using match_loop_msize [OF l(1)] that lms g(3) by (metis nth_map)
  then have "convertStatus ToReserve Free (ms ! s) = vregMasks r ! s" if "s < ?n" for s
    using rollback_restores [OF own(1) no(2) tg] l(4) that by auto
  then have "map (convertStatus ToReserve Free) ms = vregMasks r"
    using lms g(3) by (intro nth_equalityI) auto
  moreover have "matchWfWithSIMDs r2 wg ls = Inr (b, r2\<lparr>nextSIMD := d, vregMasks := ms\<rparr>, ls')"
    using l(1) len g by (simp add: matchWfWithSIMDs_def unitsOccupy_units r2)
  moreover have "holds_layout (convertStatus ToReserve Reserved (ms ! s))
      (with_regions wg 0 (length ls) (vreg_of ?g s wg ls') (?R s))" if "b" "s < ?n" for s
    using l(7) that tagged_commit [OF tg] by (auto simp: holds_layout_def vreg_of_def)
  ultimately show ?thesis using l(2,5,6,7) lms by (intro exI conjI) auto
qed

lemma take_slots_effect:
  assumes "\<forall>l \<in> set ls. SIMDID l < length free"
  shows "\<exists>free'. take_slots d ls free = Inr free' \<and> length free' = length free \<and>
    (\<forall>s < length free. free' ! s = free ! s + d * on_simd s ls 0)"
  using assms
proof (induction ls arbitrary: free)
  case Nil
  then show ?case by (simp add: on_simd_def)
next
  case (Cons l ls)
  let ?f = "free[SIMDID l := free ! SIMDID l + d]"
  obtain free' where f: "take_slots d ls ?f = Inr free'" "length free' = length free"
    "\<forall>s < length free. free' ! s = ?f ! s + d * on_simd s ls 0"
    using Cons.IH [of ?f] Cons.prems by auto
  have "on_simd s (l # ls) 0 = (if SIMDID l = s then 1 else 0) + on_simd s ls 0" for s
    by (simp add: on_simd_def)
  then show ?case using f Cons.prems by (auto simp: nth_list_update algebra_simps)
qed

lemma convert_vregs_all:
  "length (vregMasks r) = length (wfPoolFreeCount r) \<Longrightarrow>
   convert_vregs a b r = Inr (map (convertStatus a b) (vregMasks r))"
  by (simp add: convert_vregs_def)

lemma resident_add:
  assumes "finite (dom (reservedWGs r))" "reservedWGs r w = None" "reservedWGs r' = (reservedWGs r)(w \<mapsto> ls)"
  shows "resident s r' = resident s r + on_simd s ls 0"
proof -
  have "w \<notin> dom (reservedWGs r)" using assms(2) by auto
  moreover have "(\<Sum>x \<in> dom (reservedWGs r). on_simd s (the (((reservedWGs r)(w \<mapsto> ls)) x)) 0) = resident s r"
    unfolding resident_def using assms(2) by (intro sum.cong) auto
  ultimately show ?thesis using assms(1,3) by (simp add: resident_def)
qed

lemma convertStatus_idem:
  "convertStatus ToReserve Free (convertStatus ToReserve Free m) = convertStatus ToReserve Free m"
  by (cases m) auto

lemma allocs_add_lds:
  assumes "reservedWGs r w = None" "reservedWGs r' = (reservedWGs r)(w \<mapsto> ls)" "ls \<noteq> []"
    and "LDSOffset (ls ! 0) = off * gran" "0 < gran"
  shows "allocs (lds_of gran) r' =
    (allocs (lds_of gran) r)((w, 0) \<mapsto> (off, units (wg_WGGroupSegmentByteSize w) gran))"
  using assms by (auto simp: allocs_def lds_of_def fun_eq_iff)

lemma commit_inv:
  assumes inv: "cu_inv sizes r" and new: "reservedWGs r wg = None" and ne: "wg_Wavefronts wg \<noteq> []"
    and r3: "r3 = r\<lparr>sregMask := a, ldsMask := c, nextSIMD := d, vregMasks := ms\<rparr>"
    and d: "d < length sizes" "length ms = length sizes" "length ls = length (wg_Wavefronts wg)"
    and sreg: "holds_layout (convertStatus ToReserve Reserved a)
      (with_regions wg 0 (length ls) (sreg_of wg ls) (allocs sreg_of r))"
    and lds: "holds_layout (convertStatus ToReserve Reserved c)
      ((allocs (lds_of (ldsGranularity r)) r)((wg, 0) \<mapsto> (off, units (wg_WGGroupSegmentByteSize wg) (ldsGranularity r))))"
      "\<forall>l \<in> set ls. LDSOffset l = off * ldsGranularity r"
    and simd: "\<forall>l \<in> set ls. SIMDID l < length sizes"
      "\<forall>s < length sizes. on_simd s ls 0 \<le> wfPoolFreeCount r ! s \<and>
         holds_layout (convertStatus ToReserve Reserved (ms ! s))
           (with_regions wg 0 (length ls) (vreg_of (vregGranularity r) s wg ls) (allocs (vreg_of (vregGranularity r) s) r))"
  shows "\<exists>r'. reserveResources r3 wg ls = Inr r' \<and> cu_inv sizes r' \<and> reservedWGs r' = (reservedWGs r)(wg \<mapsto> ls)"
proof -
  have sh: "cu_shape sizes r" using inv by (simp add: cu_inv_def)
  have gl: "length (wfPoolFreeCount r) = length sizes" "finite (dom (reservedWGs r))" "0 < ldsGranularity r"
    using sh by (auto simp: cu_shape_def)
  obtain free where fr: "take_slots (-1) ls (wfPoolFreeCount r) = Inr free" "length free = length sizes"
    "\<forall>s < length sizes. free ! s = wfPoolFreeCount r ! s - on_simd s ls 0"
    using take_slots_effect [of ls "wfPoolFreeCount r" "-1"] simd(1) gl by auto
  define r' where "r' = r3\<lparr>wfPoolFreeCount := free, sregMask := convertStatus ToReserve Reserved a,
      ldsMask := convertStatus ToReserve Reserved c, vregMasks := map (convertStatus ToReserve Reserved) ms,
      reservedWGs := (reservedWGs r)(wg \<mapsto> ls)\<rparr>"
  have res: "reserveResources r3 wg ls = Inr r'"
    using fr(1) new gl d by (simp add: reserveResources_def convert_vregs_all r3 r'_def)
  have m: "reservedWGs r' = (reservedWGs r)(wg \<mapsto> ls)" by (simp add: r'_def)
  have ls: "ls \<noteq> []" using d(3) ne by auto
  have l0: "LDSOffset (ls ! 0) = off * ldsGranularity r" using lds(2) ls by simp
  have "cu_shape sizes r'"
    using sh d fr(2) simd(1) lds(2) ls l0 by (auto simp: cu_shape_def r'_def r3)
  moreover have "holds_layout (sregMask r') (allocs sreg_of r')"
    using sreg allocs_add [OF new m refl] by (simp add: r'_def)
  moreover have "holds_layout (ldsMask r') (allocs (lds_of (ldsGranularity r')) r')"
    using lds allocs_add_lds [OF new m ls _ gl(3), of off] ls by (simp add: r'_def r3)
  moreover have "holds_layout (vregMasks r' ! s) (allocs (vreg_of (vregGranularity r') s) r')" if "s < length sizes" for s
    using simd(2) that d(2) allocs_add [OF new m refl] by (simp add: r'_def r3)
  moreover have "0 \<le> wfPoolFreeCount r' ! s \<and> wfPoolFreeCount r' ! s + resident s r' = sizes ! s"
    if "s < length sizes" for s
    using inv that fr(3) simd(2) resident_add [OF gl(2) new m, of s] by (auto simp: cu_inv_def r'_def)
  ultimately have "cu_inv sizes r'" by (simp add: cu_inv_def)
  then show ?thesis using res m by blast
qed

lemma sreg_of_cong:
  "(\<And>i. i < n \<Longrightarrow> SGPROffset (ls ! i) = SGPROffset (ls' ! i)) \<Longrightarrow>
   with_regions w 0 n (sreg_of w ls) R = with_regions w 0 n (sreg_of w ls') R"
  by (auto simp: with_regions_def sreg_of_def sgpr_reg_def fun_eq_iff)

definition fresh_locations :: "WorkGroup \<Rightarrow> WfLocation list" where
  "fresh_locations wg = map (\<lambda>wf. \<lparr>loc_Wavefront = wf, SIMDID = 0, VGPROffset = 0, SGPROffset = 0, LDSOffset = 0\<rparr>)
     (wg_Wavefronts wg)"

lemma reserve_failed:
  assumes "ReserveResourceForWG r wg = Inr (None, r\<lparr>nextSIMD := d\<rparr>)" "cu_inv sizes (r\<lparr>nextSIMD := d\<rparr>)"
  shows "\<exists>res r'. ReserveResourceForWG r wg = Inr (res, r') \<and> cu_inv sizes r' \<and>
    (case res of None \<Rightarrow> \<exists>d. r' = r\<lparr>nextSIMD := d\<rparr> | Some ls \<Rightarrow> reservedWGs r' = (reservedWGs r)(wg \<mapsto> ls))"
proof (intro exI conjI)
  show "ReserveResourceForWG r wg = Inr (None, r\<lparr>nextSIMD := d\<rparr>)" by (rule assms)
  show "cu_inv sizes (r\<lparr>nextSIMD := d\<rparr>)" by (rule assms)
  show "case None of None \<Rightarrow> \<exists>d'. r\<lparr>nextSIMD := d\<rparr> = r\<lparr>nextSIMD := d'\<rparr>
      | Some ls \<Rightarrow> reservedWGs (r\<lparr>nextSIMD := d\<rparr>) = (reservedWGs r)(wg \<mapsto> ls)"
    by (simp only: option.case) (rule exI, rule refl)
qed

lemma reserve_cases:
  assumes inv: "cu_inv sizes r" and new: "reservedWGs r wg = None" and ne: "wg_Wavefronts wg \<noteq> []"
  shows "\<exists>res r'. ReserveResourceForWG r wg = Inr (res, r') \<and> cu_inv sizes r' \<and>
    (case res of
       None \<Rightarrow> \<exists>d. r' = r\<lparr>nextSIMD := d\<rparr>
     | Some ls \<Rightarrow> reservedWGs r' = (reservedWGs r)(wg \<mapsto> ls))"
proof -
  let ?ls0 = "fresh_locations wg" and ?v = "vregMasks r" and ?n = "length sizes"
  have len0: "length ?ls0 = length (wg_Wavefronts wg)" by (simp add: fresh_locations_def)
  have sh: "cu_shape sizes r" using inv by (simp add: cu_inv_def)
  have gl: "length (wfPoolFreeCount r) = ?n" "length ?v = ?n" "nextSIMD r < ?n" using sh by (auto simp: cu_shape_def)
  have fail: "cu_inv sizes (r\<lparr>nextSIMD := d\<rparr>)" if "d < ?n" for d
    using inv that by (simp add: cu_inv_def cu_shape_def allocs_def resident_def)
  obtain b1 m1 l1 where s1: "withinSGPRLimitation r wg ?ls0 = Inr (b1, r\<lparr>sregMask := m1\<rparr>, l1)"
    "convertStatus ToReserve Free m1 = sregMask r" "length l1 = length ?ls0"
    "b1 \<longrightarrow> holds_layout (convertStatus ToReserve Reserved m1) (with_regions wg 0 (length ?ls0) (sreg_of wg l1) (allocs sreg_of r))"
    using sgpr_stage [OF inv new len0] by blast
  obtain b2 m2 l2 where s2: "withinLDSLimitation (r\<lparr>sregMask := m1\<rparr>) wg l1 = Inr (b2, r\<lparr>sregMask := m1, ldsMask := m2\<rparr>, l2)"
    "convertStatus ToReserve Free m2 = ldsMask r"
    "b2 \<longrightarrow> (\<exists>off. l2 = map (\<lambda>l. l\<lparr>LDSOffset := off * ldsGranularity r\<rparr>) l1 \<and>
       holds_layout (convertStatus ToReserve Reserved m2)
         ((allocs (lds_of (ldsGranularity r)) r)((wg, 0) \<mapsto> (off, units (wg_WGGroupSegmentByteSize wg) (ldsGranularity r)))))"
    using lds_stage [OF inv new refl, of m1 l1] by blast
  have clear: "clearTempReservation (r\<lparr>sregMask := a, ldsMask := c, nextSIMD := d, vregMasks := ms\<rparr>) = Inr (r\<lparr>nextSIMD := d\<rparr>)"
    if "convertStatus ToReserve Free a = sregMask r" "convertStatus ToReserve Free c = ldsMask r"
      "length ms = ?n" "map (convertStatus ToReserve Free) ms = ?v" for a c d ms
    using that gl by (simp add: clearTempReservation_def convert_vregs_all)
  obtain ms0 where ms0: "?v = map (convertStatus ToReserve Free) ms0"
    using simd_stage [OF inv new refl len0 ne] by metis
  have keep: "map (convertStatus ToReserve Free) ?v = ?v" unfolding ms0 by (simp add: convertStatus_idem)
  have lds: "convertStatus ToReserve Free (ldsMask r) = ldsMask r" using s2(2) convertStatus_idem by metis
  show ?thesis
  proof (cases "b1 \<and> b2")
    case False
    have e1: "r\<lparr>sregMask := m1\<rparr> = r\<lparr>sregMask := m1, ldsMask := ldsMask r, nextSIMD := nextSIMD r, vregMasks := ?v\<rparr>"
      and e2: "r\<lparr>sregMask := m1, ldsMask := m2\<rparr> = r\<lparr>sregMask := m1, ldsMask := m2, nextSIMD := nextSIMD r, vregMasks := ?v\<rparr>"
      by (cases r; simp)+
    have c: "clearTempReservation (r\<lparr>sregMask := m1\<rparr>) = Inr (r\<lparr>nextSIMD := nextSIMD r\<rparr>)"
      "clearTempReservation (r\<lparr>sregMask := m1, ldsMask := m2\<rparr>) = Inr (r\<lparr>nextSIMD := nextSIMD r\<rparr>)"
      by (subst e1, rule clear [OF s1(2) lds gl(2) keep]) (subst e2, rule clear [OF s1(2) s2(2) gl(2) keep])
    have "ReserveResourceForWG r wg = Inr (None, r\<lparr>nextSIMD := nextSIMD r\<rparr>)"
      unfolding ReserveResourceForWG_def fresh_locations_def [symmetric] Let_def s1(1) bindR_simps prod.case
      using False s2(1) c by (cases b1) simp_all
    then show ?thesis using fail [OF gl(3)] by (rule reserve_failed)
  next
    case True
    then obtain off where off: "l2 = map (\<lambda>l. l\<lparr>LDSOffset := off * ldsGranularity r\<rparr>) l1"
      "holds_layout (convertStatus ToReserve Reserved m2)
         ((allocs (lds_of (ldsGranularity r)) r)((wg, 0) \<mapsto> (off, units (wg_WGGroupSegmentByteSize wg) (ldsGranularity r))))"
      using s2(3) by blast
    have l2: "length l2 = length (wg_Wavefronts wg)" using off(1) s1(3) len0 by simp
    obtain b3 d ms l3 where s3: "matchWfWithSIMDs (r\<lparr>sregMask := m1, ldsMask := m2\<rparr>) wg l2 =
        Inr (b3, r\<lparr>sregMask := m1, ldsMask := m2, nextSIMD := d, vregMasks := ms\<rparr>, l3)"
      "d < ?n" "length ms = ?n" "map (convertStatus ToReserve Free) ms = ?v" "length l3 = length l2"
      and upd: "\<forall>i < length l2. \<exists>x y. l3 ! i = (l2 ! i)\<lparr>SIMDID := x, VGPROffset := y\<rparr>"
      and ok3: "b3 \<longrightarrow> (\<forall>i < length l2. SIMDID (l3 ! i) < ?n) \<and>
       (\<forall>s < ?n. on_simd s l3 0 \<le> wfPoolFreeCount r ! s \<and>
          holds_layout (convertStatus ToReserve Reserved (ms ! s))
            (with_regions wg 0 (length l2) (vreg_of (vregGranularity r) s wg l3) (allocs (vreg_of (vregGranularity r) s) r)))"
      using simd_stage [OF inv new refl l2 ne, of m2 m1]
      by (elim exE conjE) (rule that)
    let ?r3 = "r\<lparr>sregMask := m1, ldsMask := m2, nextSIMD := d, vregMasks := ms\<rparr>"
    show ?thesis
    proof (cases b3)
      case False
      then have "ReserveResourceForWG r wg = Inr (None, r\<lparr>nextSIMD := d\<rparr>)"
        using clear [of m1 m2 ms d] s1 s2 s3 True
        by (simp add: ReserveResourceForWG_def fresh_locations_def [symmetric])
      then show ?thesis using fail [OF s3(2)] by (rule reserve_failed)
    next
      case b3: True
      have keeps: "SGPROffset (l3 ! i) = SGPROffset (l1 ! i)" "LDSOffset (l3 ! i) = off * ldsGranularity r" if "i < length l3" for i
        using upd that s3(5) off(1) by fastforce+
      have sreg: "holds_layout (convertStatus ToReserve Reserved m1)
          (with_regions wg 0 (length l3) (sreg_of wg l3) (allocs sreg_of r))"
        using s1(3,4) True keeps(1) sreg_of_cong [of "length l3" l3 l1] s3(5) off(1) by simp
      obtain r' where "reserveResources ?r3 wg l3 = Inr r'" "cu_inv sizes r'" "reservedWGs r' = (reservedWGs r)(wg \<mapsto> l3)"
        using commit_inv [OF inv new ne refl s3(2,3) _ sreg off(2)] ok3 b3 keeps(2) s3(5) l2
        by (auto simp: all_set_conv_all_nth)
      then show ?thesis using s1 s2 s3 True b3
        by (simp add: ReserveResourceForWG_def fresh_locations_def [symmetric])
    qed
  qed
qed

section \<open>Releasing\<close>

lemma setStatus_again: "setStatus off len st m = Inr m' \<Longrightarrow> setStatus off len st m' = Inr m'"
  by (cases m) (auto simp: copy_at_def split: if_splits)

lemma free_region:
  assumes "holds_layout msk R" "R x = Some (off, len)"
  shows "\<exists>msk'. setStatus off len Free msk = Inr msk' \<and> holds_layout msk' (R(x := None))"
proof -
  obtain own where own: "tagged own None msk" "layout own R" using assms(1) by (auto simp: holds_layout_def)
  have fits: "0 < len \<longrightarrow> (\<exists>m. msk = ResourceMaskImpl m \<and> off + len \<le> length m)"
    using layout_fits [OF own(2) assms(2) own(1)] by simp
  obtain msk' where "setStatus off len Free msk = Inr msk'" "tagged (paint own off len None) None msk'"
    using tagged_setStatus [OF own(1) fits, of Free None] by (auto simp: status_of_def)
  then show ?thesis using layout_free [of own R x, OF own(2) assms(2)] by (auto simp: holds_layout_def)
qed

definition cut :: "WorkGroup \<Rightarrow> nat \<Rightarrow> nat \<Rightarrow> alloc \<Rightarrow> alloc" where
  "cut w k m R = (\<lambda>x. if fst x = w \<and> k \<le> snd x \<and> snd x < k + m then None else R x)"

lemma cut_step: "cut w (Suc k) m (R((w, k) := None)) = cut w k (Suc m) R"
  by (auto simp: cut_def fun_eq_iff)

lemma cut_step_none: "R (w, k) = None \<Longrightarrow> cut w (Suc k) m R = cut w k (Suc m) R"
  by (auto simp: cut_def fun_eq_iff le_Suc_eq Suc_le_eq)

lemma cut_zero: "cut w k 0 R = R"
  by (auto simp: cut_def fun_eq_iff)

lemma free_loop_frees:
  assumes "sregGranularity r = 16" "0 < vregGranularity r" "0 < ldsGranularity r"
    and "length (wfPoolFreeCount r) = n" "length (vregMasks r) = n"
    and "\<forall>l \<in> set ls. SIMDID l < n \<and> LDSOffset l div ldsGranularity r = L"
    and "setStatus L (units (wg_WGGroupSegmentByteSize w) (ldsGranularity r)) Free (ldsMask r) = Inr lm"
    and "setStatus L (units (wg_WGGroupSegmentByteSize w) (ldsGranularity r)) Free lm = Inr lm"
    and "holds_layout (sregMask r) Rs" "\<forall>i < length ls. Rs (w, k + i) = sreg_of w ls i"
    and "\<forall>s < n. holds_layout (vregMasks r ! s) (Rv s) \<and>
      (\<forall>i < length ls. Rv s (w, k + i) = vreg_of (vregGranularity r) s w ls i)"
  shows "\<exists>free sm vms. free_loop w ls r =
      Inr (r\<lparr>wfPoolFreeCount := free, ldsMask := (if ls = [] then ldsMask r else lm), sregMask := sm, vregMasks := vms\<rparr>) \<and>
    length free = n \<and> length vms = n \<and> holds_layout sm (cut w k (length ls) Rs) \<and>
    (\<forall>s < n. holds_layout (vms ! s) (cut w k (length ls) (Rv s)) \<and> free ! s = wfPoolFreeCount r ! s + on_simd s ls 0)"
  using assms
proof (induction ls arbitrary: k r Rs Rv)
  case Nil
  have "r = r\<lparr>wfPoolFreeCount := wfPoolFreeCount r, ldsMask := ldsMask r, sregMask := sregMask r, vregMasks := vregMasks r\<rparr>"
    by (cases r) simp
  then show ?case using Nil by (auto simp: cut_zero on_simd_def intro!: exI)
next
  case (Cons l ls)
  let ?lU = "units (wg_WGGroupSegmentByteSize w) (ldsGranularity r)"
  let ?g = "vregGranularity r"
  have l: "SIMDID l < n" "LDSOffset l div ldsGranularity r = L" using Cons.prems(6) by auto
  have rs: "Rs (w, k) = Some (SGPROffset l div 4 div 16, units (wg_WFSgprCount w) 16)"
    using Cons.prems(10) [rule_format, of 0] by (simp add: sreg_of_def sgpr_reg_def)
  obtain sm where sm: "setStatus (SGPROffset l div 4 div 16) (units (wg_WFSgprCount w) 16) Free (sregMask r) = Inr sm"
    "holds_layout sm (Rs((w, k) := None))" using free_region [OF Cons.prems(9) rs] by blast
  have rv: "Rv s (w, k) = (if SIMDID l = s then Some (VGPROffset l div 4 div ?g, units (wg_WIVgprCount w) ?g) else None)"
    if "s < n" for s
  proof -
    have "Rv s (w, k + 0) = vreg_of ?g s w (l # ls) 0" using Cons.prems(11) that by blast
    then show ?thesis by (simp add: vreg_of_def vgpr_reg_def)
  qed
  obtain vm where vm: "setStatus (VGPROffset l div 4 div ?g) (units (wg_WIVgprCount w) ?g) Free (vregMasks r ! SIMDID l) = Inr vm"
    "holds_layout vm ((Rv (SIMDID l))((w, k) := None))"
    using free_region [of "vregMasks r ! SIMDID l" "Rv (SIMDID l)" "(w, k)"] rv [OF l(1)] Cons.prems(11) l(1) by auto
  let ?r = "r\<lparr>wfPoolFreeCount := (wfPoolFreeCount r)[SIMDID l := wfPoolFreeCount r ! SIMDID l + 1],
      ldsMask := lm, sregMask := sm, vregMasks := (vregMasks r)[SIMDID l := vm]\<rparr>"
  let ?Rv = "Rv(SIMDID l := (Rv (SIMDID l))((w, k) := None))"
  have step: "free_loop w (l # ls) r = free_loop w ls ?r"
    using Cons.prems(1-5,7) l sm(1) vm(1) by (simp add: unitsOccupy_units)
  have vl: "\<forall>s < n. holds_layout (vregMasks ?r ! s) (?Rv s) \<and>
      (\<forall>i < length ls. ?Rv s (w, Suc k + i) = vreg_of (vregGranularity ?r) s w ls i)"
  proof (intro allI impI conjI)
    fix s assume s: "s < n"
    show "holds_layout (vregMasks ?r ! s) (?Rv s)"
      using s vm(2) Cons.prems(5,11) by (cases "s = SIMDID l") simp_all
    fix i assume i: "i < length ls"
    have "\<forall>i < length (l # ls). Rv s (w, k + i) = vreg_of ?g s w (l # ls) i" using Cons.prems(11) s by blast
    from this [rule_format, of "Suc i"] have "Rv s (w, k + Suc i) = vreg_of ?g s w (l # ls) (Suc i)" using i by simp
    then show "?Rv s (w, Suc k + i) = vreg_of (vregGranularity ?r) s w ls i"
      by (cases "s = SIMDID l") (simp_all add: vreg_of_def vgpr_reg_def)
  qed
  have sl: "\<forall>i < length ls. (Rs((w, k) := None)) (w, Suc k + i) = sreg_of w ls i"
  proof (intro allI impI)
    fix i assume "i < length ls"
    then have "Rs (w, k + Suc i) = sreg_of w (l # ls) (Suc i)" using Cons.prems(10) [rule_format, of "Suc i"] by simp
    then show "(Rs((w, k) := None)) (w, Suc k + i) = sreg_of w ls i" by (simp add: sreg_of_def sgpr_reg_def)
  qed
  have pr: "sregGranularity ?r = 16" "0 < vregGranularity ?r" "0 < ldsGranularity ?r"
    "length (wfPoolFreeCount ?r) = n" "length (vregMasks ?r) = n"
    "\<forall>l \<in> set ls. SIMDID l < n \<and> LDSOffset l div ldsGranularity ?r = L"
    "setStatus L (units (wg_WGGroupSegmentByteSize w) (ldsGranularity ?r)) Free (ldsMask ?r) = Inr lm"
    "setStatus L (units (wg_WGGroupSegmentByteSize w) (ldsGranularity ?r)) Free lm = Inr lm"
    "holds_layout (sregMask ?r) (Rs((w, k) := None))"
    using Cons.prems(1-8) sm(2) by simp_all
  obtain free sm' vms where IH: "free_loop w ls ?r =
      Inr (?r\<lparr>wfPoolFreeCount := free, ldsMask := (if ls = [] then ldsMask ?r else lm), sregMask := sm', vregMasks := vms\<rparr>)"
    "length free = n" "length vms = n" "holds_layout sm' (cut w (Suc k) (length ls) (Rs((w, k) := None)))"
    "\<forall>s < n. holds_layout (vms ! s) (cut w (Suc k) (length ls) (?Rv s)) \<and>
       free ! s = wfPoolFreeCount ?r ! s + on_simd s ls 0"
    using Cons.IH [OF pr sl vl] by (elim exE conjE) (rule that)
  have "cut w (Suc k) (length ls) (?Rv s) = cut w k (Suc (length ls)) (Rv s)" if "s < n" for s
    using rv [OF that] cut_step cut_step_none [of "Rv s" w k] by (cases "s = SIMDID l") simp_all
  moreover have "free ! s = wfPoolFreeCount r ! s + on_simd s (l # ls) 0" if "s < n" for s
    using IH(5) that Cons.prems(4) by (auto simp: on_simd_def nth_list_update)
  ultimately show ?case using IH(1-5) step cut_step [of w k "length ls" Rs]
    by (intro exI [of _ free] exI [of _ sm'] exI [of _ vms]) (auto split: if_splits)
qed

lemma cut_allocs:
  assumes "reservedWGs r w = Some ls" "reservedWGs r' = (reservedWGs r)(w := None)"
  shows "cut w 0 (length ls) (allocs reg r) = allocs reg r'"
  using assms by (auto simp: cut_def allocs_def fun_eq_iff)

lemma resident_remove:
  assumes "finite (dom (reservedWGs r))" "reservedWGs r w = Some ls" "reservedWGs r' = (reservedWGs r)(w := None)"
  shows "resident s r' + on_simd s ls 0 = resident s r"
proof -
  have "resident s r' = (\<Sum>x \<in> dom (reservedWGs r) - {w}. on_simd s (the (reservedWGs r x)) 0)"
    unfolding resident_def using assms(3) by (intro sum.cong) auto
  moreover have "w \<in> dom (reservedWGs r)" using assms(2) by auto
  ultimately show ?thesis using assms(1,2) sum.remove [of "dom (reservedWGs r)" w "\<lambda>x. on_simd s (the (reservedWGs r x)) 0"]
    by (simp add: resident_def)
qed

lemma free_cases:
  assumes inv: "cu_inv sizes r" and res: "reservedWGs r wg = Some ls"
  shows "\<exists>r'. FreeResourcesForWG r wg = Inr r' \<and> cu_inv sizes r' \<and> reservedWGs r' = (reservedWGs r)(wg := None)"
proof -
  let ?n = "length sizes"
  have sh: "cu_shape sizes r" using inv by (simp add: cu_inv_def)
  have g: "sregGranularity r = 16" "0 < vregGranularity r" "0 < ldsGranularity r"
    "length (wfPoolFreeCount r) = ?n" "length (vregMasks r) = ?n" "finite (dom (reservedWGs r))"
    using sh by (auto simp: cu_shape_def)
  have ls: "ls \<noteq> []" "\<forall>l \<in> set ls. SIMDID l < ?n \<and> LDSOffset l div ldsGranularity r = LDSOffset (ls ! 0) div ldsGranularity r"
    using sh res by (auto simp: cu_shape_def)
  let ?L = "allocs (lds_of (ldsGranularity r)) r"
  have l0: "?L (wg, 0) = Some (LDSOffset (ls ! 0) div ldsGranularity r, units (wg_WGGroupSegmentByteSize wg) (ldsGranularity r))"
    using res ls(1) by (simp add: allocs_def lds_of_def)
  have "holds_layout (ldsMask r) ?L" using inv by (simp add: cu_inv_def)
  then obtain lm where lm: "setStatus (LDSOffset (ls ! 0) div ldsGranularity r)
      (units (wg_WGGroupSegmentByteSize wg) (ldsGranularity r)) Free (ldsMask r) = Inr lm"
    "holds_layout lm (?L((wg, 0) := None))"
    using free_region [of "ldsMask r" ?L "(wg, 0)", OF _ l0] by blast
  have sr: "\<forall>i < length ls. allocs sreg_of r (wg, 0 + i) = sreg_of wg ls i" using res by (simp add: allocs_def)
  have vr: "\<forall>s < ?n. holds_layout (vregMasks r ! s) (allocs (vreg_of (vregGranularity r) s) r) \<and>
      (\<forall>i < length ls. allocs (vreg_of (vregGranularity r) s) r (wg, 0 + i) = vreg_of (vregGranularity r) s wg ls i)"
    using inv res by (simp add: allocs_def cu_inv_def)
  have shl: "holds_layout (sregMask r) (allocs sreg_of r)" using inv by (simp add: cu_inv_def)
  obtain free sm vms where fl: "free_loop wg ls r =
      Inr (r\<lparr>wfPoolFreeCount := free, ldsMask := (if ls = [] then ldsMask r else lm), sregMask := sm, vregMasks := vms\<rparr>)"
    "length free = ?n" "length vms = ?n" "holds_layout sm (cut wg 0 (length ls) (allocs sreg_of r))"
    "\<forall>s < ?n. holds_layout (vms ! s) (cut wg 0 (length ls) (allocs (vreg_of (vregGranularity r) s) r)) \<and>
       free ! s = wfPoolFreeCount r ! s + on_simd s ls 0"
    using free_loop_frees [OF g(1-5) ls(2) lm(1) setStatus_again [OF lm(1)] shl sr vr] by blast
  define r' where "r' = r\<lparr>wfPoolFreeCount := free, ldsMask := lm, sregMask := sm, vregMasks := vms,
      reservedWGs := (reservedWGs r)(wg := None)\<rparr>"
  have m: "reservedWGs r' = (reservedWGs r)(wg := None)" by (simp add: r'_def)
  note ca = cut_allocs [OF res m]
  have "?L((wg, 0) := None) = allocs (lds_of (ldsGranularity r)) r'"
    using res m by (auto simp: allocs_def lds_of_def fun_eq_iff)
  then have "holds_layout (ldsMask r') (allocs (lds_of (ldsGranularity r')) r')" using lm(2) by (simp add: r'_def)
  moreover have "cu_shape sizes r'" using sh fl(2,3) by (auto simp: cu_shape_def r'_def)
  moreover have "holds_layout (sregMask r') (allocs sreg_of r')" using fl(4) ca [of sreg_of] by (simp add: r'_def)
  moreover have "holds_layout (vregMasks r' ! s) (allocs (vreg_of (vregGranularity r') s) r')" if "s < ?n" for s
  proof -
    have "holds_layout (vms ! s) (allocs (vreg_of (vregGranularity r) s) r')"
      using fl(5) that unfolding ca by blast
    then show ?thesis by (simp add: r'_def)
  qed
  moreover have "0 \<le> wfPoolFreeCount r' ! s \<and> wfPoolFreeCount r' ! s + resident s r' = sizes ! s" if s: "s < ?n" for s
  proof -
    have "0 \<le> wfPoolFreeCount r ! s" "wfPoolFreeCount r ! s + resident s r = sizes ! s"
      using inv s by (auto simp: cu_inv_def)
    moreover have "wfPoolFreeCount r' ! s = wfPoolFreeCount r ! s + on_simd s ls 0" using fl(5) s by (simp add: r'_def)
    moreover have "0 \<le> on_simd s ls 0" by (simp add: on_simd_def)
    ultimately show ?thesis using resident_remove [OF g(6) res m, of s] by linarith
  qed
  ultimately have "cu_inv sizes r'" by (simp add: cu_inv_def)
  moreover have "FreeResourcesForWG r wg = Inr r'" using res fl(1) ls(1) by (simp add: FreeResourcesForWG_def r'_def)
  ultimately show ?thesis using m by blast
qed

section \<open>The masks keep their sizes\<close>

definition msizes :: "CUResourceImpl \<Rightarrow> nat \<times> nat \<times> nat list \<times> nat \<times> nat" where
  "msizes r = (msize (sregMask r), msize (ldsMask r), map msize (vregMasks r), vregGranularity r, ldsGranularity r)"

lemma convert_vregs_msize: "convert_vregs a b r = Inr ms \<Longrightarrow> map msize ms = map msize (vregMasks r)"
  by (auto simp: convert_vregs_def comp_def take_map drop_map split: if_splits) (metis append_take_drop_id map_append)

lemma withinSGPRLimitation_msizes: "withinSGPRLimitation r wg ls = Inr (b, r', ls') \<Longrightarrow> msizes r' = msizes r"
  by (auto simp: withinSGPRLimitation_def bindR_eq_Inr msizes_def dest!: sgpr_loop_msize)

lemma withinLDSLimitation_msizes: "withinLDSLimitation r wg ls = Inr (b, r', ls') \<Longrightarrow> msizes r' = msizes r"
proof -
  assume w: "withinLDSLimitation r wg ls = Inr (b, r', ls')"
  then obtain req where req: "unitsOccupy (wg_WGGroupSegmentByteSize wg) (ldsGranularity r) = Inr req"
    by (cases "unitsOccupy (wg_WGGroupSegmentByteSize wg) (ldsGranularity r)") (auto simp: withinLDSLimitation_def)
  obtain off hit m1 where nr: "nextRegion req Free (ldsMask r) = ((off, hit), m1)" by (metis prod.exhaust)
  show ?thesis using w req nr nextRegion_msize [OF nr]
    by (auto simp: withinLDSLimitation_def bindR_eq_Inr msizes_def split: if_splits dest!: setStatus_msize)
qed

lemma matchWfWithSIMDs_msizes: "matchWfWithSIMDs r wg ls = Inr (b, r', ls') \<Longrightarrow> msizes r' = msizes r"
  by (auto simp: matchWfWithSIMDs_def bindR_eq_Inr msizes_def split: if_splits dest!: match_loop_msize)

lemma reserveResources_msizes: "reserveResources r wg ls = Inr r' \<Longrightarrow> msizes r' = msizes r"
  by (auto simp: reserveResources_def bindR_eq_Inr msizes_def split: if_splits dest!: convert_vregs_msize)

lemma clearTempReservation_msizes: "clearTempReservation r = Inr r' \<Longrightarrow> msizes r' = msizes r"
  by (auto simp: clearTempReservation_def bindR_eq_Inr msizes_def dest!: convert_vregs_msize)

lemmas stage_msizes = withinSGPRLimitation_msizes withinLDSLimitation_msizes matchWfWithSIMDs_msizes
  reserveResources_msizes clearTempReservation_msizes

lemma ReserveResourceForWG_msizes: "ReserveResourceForWG r wg = Inr (res, r') \<Longrightarrow> msizes r' = msizes r"
  unfolding ReserveResourceForWG_def Let_def
  by (auto simp: bindR_eq_Inr split: if_splits dest!: stage_msizes)

lemma free_loop_msizes: "free_loop wg ls r = Inr r' \<Longrightarrow> msizes r' = msizes r"
proof (induction ls arbitrary: r)
  case Nil
  then show ?case by simp
next
  case (Cons l ls)
  then show ?case
    by (auto simp: bindR_eq_Inr slice_get_def msizes_def map_update list_update_same_conv split: if_splits
        dest!: Cons.IH setStatus_msize)
qed

lemma FreeResourcesForWG_msizes: "FreeResourcesForWG r wg = Inr r' \<Longrightarrow> msizes r' = msizes r"
  by (auto simp: FreeResourcesForWG_def bindR_eq_Inr msizes_def split: option.splits dest!: free_loop_msizes)

lemma holds_layout_unique:
  assumes "holds_layout m1 R" "holds_layout m2 R" "msize m1 = msize m2"
  shows "m1 = m2"
proof -
  obtain o1 o2 where o: "tagged o1 None m1" "layout o1 R" "tagged o2 None m2" "layout o2 R"
    using assms(1,2) by (auto simp: holds_layout_def)
  have "o1 u = o2 u" for u
    using layoutD [OF o(2), of u] layoutD [OF o(4), of u] by (metis option.exhaust)
  then have "o1 = o2" by (simp add: fun_eq_iff)
  then show ?thesis using tagged_same_size [OF o(1) _ assms(3)] o(3) by simp
qed

section \<open>Properties\<close>

text \<open>A history of the dispatcher: each step reserves for a new work-group or releases a resident one.\<close>

datatype cu_action = Reserve WorkGroup | Release WorkGroup

definition cu_step :: "cu_action \<Rightarrow> CUResourceImpl \<Rightarrow> CUResourceImpl result" where
  "cu_step act r =
     (case act of
        Reserve wg \<Rightarrow> if reservedWGs r wg \<noteq> None \<or> wg_Wavefronts wg = [] then Inr r
                      else bindR (ReserveResourceForWG r wg) (\<lambda>(res, r'). Inr r')
      | Release wg \<Rightarrow> if reservedWGs r wg = None then Inr r else FreeResourcesForWG r wg)"

fun cu_run :: "cu_action list \<Rightarrow> CUResourceImpl \<Rightarrow> CUResourceImpl result" where
  "cu_run [] r = Inr r"
| "cu_run (act # acts) r = bindR (cu_step act r) (cu_run acts)"

lemma cu_step_inv:
  assumes "cu_inv sizes r"
  shows "\<exists>r'. cu_step act r = Inr r' \<and> cu_inv sizes r'"
proof (cases act)
  case (Reserve wg)
  then show ?thesis using assms reserve_cases [OF assms, of wg] by (auto simp: cu_step_def)
next
  case (Release wg)
  then show ?thesis using assms free_cases [OF assms, of wg] by (auto simp: cu_step_def)
qed

lemma cu_run_inv:
  assumes "cu_inv sizes r"
  shows "\<exists>r'. cu_run acts r = Inr r' \<and> cu_inv sizes r'"
  using assms
proof (induction acts arbitrary: r)
  case (Cons act acts)
  then show ?case using cu_step_inv [OF Cons.prems, of act] by auto
qed simp

text \<open>The limited compute unit \<^verbatim>\<open>RegisterCU\<close> makes of a device with these sizes.\<close>

definition limited_cu :: "DispatchableCU \<Rightarrow> bool" where
  "limited_cu cu \<longleftrightarrow> 0 \<le> SRegCount cu \<and> SRegCount cu mod 16 = 0 \<and> 0 \<le> LDSBytes cu \<and> LDSBytes cu mod 256 = 0 \<and>
     (\<forall>c \<in> set (VRegCounts cu). 0 \<le> c \<and> c mod 256 = 0) \<and> WfPoolSizes cu \<noteq> [] \<and>
     length (VRegCounts cu) = length (WfPoolSizes cu) \<and> (\<forall>c \<in> set (WfPoolSizes cu). 0 \<le> c)"

lemma createVRegMasks_limited:
  "\<forall>c \<in> set cs. 0 \<le> c \<and> c mod 256 = 0 \<Longrightarrow> createVRegMasks cs = Inr (map (\<lambda>c. newResourceMask (nat c div 256)) cs)"
  by (induction cs) (auto simp: createMask_def)

lemma holds_layout_new: "holds_layout (newResourceMask n) (\<lambda>x. None)"
  unfolding holds_layout_def
  by (intro exI [of _ "\<lambda>u. None"]) (simp add: tagged_def newResourceMask_def status_of_def layout_def covers_def)

lemma RegisterCU_inv:
  assumes "limited_cu cu" "\<not> registeredCUs p cu"
  shows "\<exists>p' r. RegisterCU p cu = Inr p' \<and> cus p' = cus p @ [r] \<and> registeredCUs p' cu \<and> cu_inv (WfPoolSizes cu) r \<and>
    reservedWGs r = Map.empty \<and> wfPoolFreeCount r = WfPoolSizes cu"
proof -
  let ?r = "\<lparr>wfPoolFreeCount = WfPoolSizes cu, sregCount = SRegCount cu, sregGranularity = 16,
      sregMask = newResourceMask (nat (SRegCount cu) div 16), vregCounts = VRegCounts cu, vregGranularity = 4,
      vregMasks = map (\<lambda>c. newResourceMask (nat c div 256)) (VRegCounts cu),
      ldsByteSize = LDSBytes cu, ldsGranularity = 256, ldsMask = newResourceMask (nat (LDSBytes cu) div 256),
      nextSIMD = 0, reservedWGs = Map.empty\<rparr>"
  have "allocs reg ?r = (\<lambda>x. None)" for reg by (simp add: allocs_def fun_eq_iff)
  then have "cu_inv (WfPoolSizes cu) ?r"
    using assms(1) holds_layout_new by (auto simp: cu_inv_def cu_shape_def limited_cu_def resident_def)
  moreover have "RegisterCU p cu = Inr (p\<lparr>cus := cus p @ [?r], registeredCUs := (registeredCUs p)(cu := True)\<rparr>)"
    using assms createVRegMasks_limited [of "VRegCounts cu"]
    by (auto simp: RegisterCU_def limited_cu_def createMask_def)
  ultimately show ?thesis by auto
qed

text \<open>
  \<^verbatim>\<open>nextRegion\<close> is first fit: for a positive length it reports a region exactly when one exists,
  and the offset it returns starts the lowest run of that many units in the wanted status.
\<close>

theorem nextRegion_first_fit:
  assumes "0 < len"
  shows "\<exists>off hit. nextRegion len st (ResourceMaskImpl m) = ((off, hit), ResourceMaskImpl m) \<and>
    (if hit then region m st off len \<and> (\<forall>k < off. \<not> region m st k len) else (\<forall>k. \<not> region m st k len))"
proof -
  obtain off hit where r: "nextRegion len st (ResourceMaskImpl m) = ((off, hit), ResourceMaskImpl m)"
    "first_region m st len (off, hit)" using nextRegion_first [OF assms, of st m] by (metis prod.exhaust)
  then show ?thesis by (intro exI [of _ off] exI [of _ hit] conjI) (simp_all only: first_region_def fst_conv snd_conv)
qed

theorem nextRegion_first_fit_witness:
  "\<exists>off hit. nextRegion 2 Free (ResourceMaskImpl [Free, Reserved, Free, Free]) =
     ((off, hit), ResourceMaskImpl [Free, Reserved, Free, Free]) \<and>
     (if hit then region [Free, Reserved, Free, Free] Free off 2 \<and>
        (\<forall>k < off. \<not> region [Free, Reserved, Free, Free] Free k 2)
      else (\<forall>k. \<not> region [Free, Reserved, Free, Free] Free k 2))"
  by (rule nextRegion_first_fit) simp

definition sgpr_units :: "WorkGroup \<Rightarrow> WfLocation \<Rightarrow> nat set" where
  "sgpr_units w l = {SGPROffset l div 4 div 16 ..< SGPROffset l div 4 div 16 + units (wg_WFSgprCount w) 16}"

definition vgpr_units :: "nat \<Rightarrow> WorkGroup \<Rightarrow> WfLocation \<Rightarrow> nat set" where
  "vgpr_units gran w l = {VGPROffset l div 4 div gran ..< VGPROffset l div 4 div gran + units (wg_WIVgprCount w) gran}"

definition lds_units :: "nat \<Rightarrow> WorkGroup \<Rightarrow> WfLocation \<Rightarrow> nat set" where
  "lds_units gran w l = {LDSOffset l div gran ..< LDSOffset l div gran + units (wg_WGGroupSegmentByteSize w) gran}"

definition isolated :: "CUResourceImpl \<Rightarrow> bool" where
  "isolated r \<longleftrightarrow> (\<forall>w ls i w' ls' j.
     reservedWGs r w = Some ls \<longrightarrow> reservedWGs r w' = Some ls' \<longrightarrow> i < length ls \<longrightarrow> j < length ls' \<longrightarrow>
     (w, i) \<noteq> (w', j) \<longrightarrow>
       sgpr_units w (ls ! i) \<inter> sgpr_units w' (ls' ! j) = {} \<and>
       (SIMDID (ls ! i) = SIMDID (ls' ! j) \<longrightarrow>
          vgpr_units (vregGranularity r) w (ls ! i) \<inter> vgpr_units (vregGranularity r) w' (ls' ! j) = {}) \<and>
       (w \<noteq> w' \<longrightarrow> lds_units (ldsGranularity r) w (ls ! i) \<inter> lds_units (ldsGranularity r) w' (ls' ! j) = {}))"

lemma holds_layout_disjoint:
  assumes "holds_layout msk R" "R x = Some (o1, l1)" "R y = Some (o2, l2)" "x \<noteq> y"
  shows "{o1..<o1 + l1} \<inter> {o2..<o2 + l2} = {}"
proof -
  obtain own where "layout own R" using assms(1) by (auto simp: holds_layout_def)
  from layout_disjoint [of own R x o1 l1 y o2 l2, OF this assms(2-4)] show ?thesis .
qed

lemma cu_inv_isolated:
  assumes inv: "cu_inv sizes r"
  shows "isolated r"
  unfolding isolated_def
proof (intro allI impI)
  fix w ls i w' ls' j
  assume w: "reservedWGs r w = Some ls" "reservedWGs r w' = Some ls'" and i: "i < length ls" "j < length ls'"
    and ne: "(w, i) \<noteq> (w', j)"
  have at: "allocs reg r (w, i) = reg w ls i" "allocs reg r (w', j) = reg w' ls' j" for reg
    using w i by (simp_all add: allocs_def)
  have sh: "ls \<noteq> []" "ls' \<noteq> []" "LDSOffset (ls ! i) = LDSOffset (ls ! 0)" "LDSOffset (ls' ! j) = LDSOffset (ls' ! 0)"
    "SIMDID (ls ! i) < length sizes"
    using inv w i by (auto simp: cu_inv_def cu_shape_def)
  have s: "sgpr_units w (ls ! i) \<inter> sgpr_units w' (ls' ! j) = {}"
    unfolding sgpr_units_def
    by (rule holds_layout_disjoint [of "sregMask r" "allocs sreg_of r" "(w, i)" _ _ "(w', j)"])
       (use inv ne in \<open>simp_all add: cu_inv_def at sreg_of_def sgpr_reg_def\<close>)
  have v: "vgpr_units (vregGranularity r) w (ls ! i) \<inter> vgpr_units (vregGranularity r) w' (ls' ! j) = {}"
    if "SIMDID (ls ! i) = SIMDID (ls' ! j)"
    unfolding vgpr_units_def
    by (rule holds_layout_disjoint [of "vregMasks r ! SIMDID (ls ! i)" "allocs (vreg_of (vregGranularity r) (SIMDID (ls ! i))) r" "(w, i)" _ _ "(w', j)"])
       (use inv ne that sh in \<open>simp_all add: cu_inv_def at vreg_of_def vgpr_reg_def\<close>)
  have l: "lds_units (ldsGranularity r) w (ls ! i) \<inter> lds_units (ldsGranularity r) w' (ls' ! j) = {}" if "w \<noteq> w'"
    unfolding lds_units_def sh(3,4)
    by (rule holds_layout_disjoint [of "ldsMask r" "allocs (lds_of (ldsGranularity r)) r" "(w, 0)" _ _ "(w', 0)"])
       (use inv that sh w in \<open>simp_all add: cu_inv_def allocs_def lds_of_def\<close>)
  show "sgpr_units w (ls ! i) \<inter> sgpr_units w' (ls' ! j) = {} \<and>
       (SIMDID (ls ! i) = SIMDID (ls' ! j) \<longrightarrow>
          vgpr_units (vregGranularity r) w (ls ! i) \<inter> vgpr_units (vregGranularity r) w' (ls' ! j) = {}) \<and>
       (w \<noteq> w' \<longrightarrow> lds_units (ldsGranularity r) w (ls ! i) \<inter> lds_units (ldsGranularity r) w' (ls' ! j) = {})"
    using s v l by blast
qed

text \<open>
  Claim C23. Wavefronts are isolated: on a compute unit registered with limited resources, every history of
  reservations and releases runs without a panic, and in the state it leaves no two resident wavefronts
  share a scalar register, a vector register of a SIMD unit or (across work-groups) local data share, and
  on every SIMD unit the free slots and the resident wavefronts add up to the pool size.
\<close>

theorem wavefronts_isolated:
  assumes "limited_cu cu" "\<not> registeredCUs p cu"
  shows "\<exists>p' r0 r. RegisterCU p cu = Inr p' \<and> cus p' = cus p @ [r0] \<and> cu_run acts r0 = Inr r \<and> isolated r \<and>
    (\<forall>s < length (WfPoolSizes cu). 0 \<le> wfPoolFreeCount r ! s \<and> wfPoolFreeCount r ! s + resident s r = WfPoolSizes cu ! s)"
proof -
  obtain p' r0 where r0: "RegisterCU p cu = Inr p'" "cus p' = cus p @ [r0]" "cu_inv (WfPoolSizes cu) r0"
    using RegisterCU_inv [OF assms] by blast
  obtain r where r: "cu_run acts r0 = Inr r" "cu_inv (WfPoolSizes cu) r" using cu_run_inv [OF r0(3)] by blast
  then show ?thesis using r0 cu_inv_isolated [OF r(2)] by (auto simp: cu_inv_def)
qed

definition timing_cu :: DispatchableCU where
  "timing_cu = \<lparr>dcu_id = 1, WfPoolSizes = [10, 10, 10, 10], VRegCounts = [16384, 16384, 16384, 16384],
     SRegCount = 3200, LDSBytes = 65536\<rparr>"

definition sample_wg :: WorkGroup where
  "sample_wg = \<lparr>wg_id = 7, wg_Wavefronts = [1, 2, 3, 4, 5], wg_WFSgprCount = 14, wg_WGGroupSegmentByteSize = 900,
     wg_WIVgprCount = 18\<rparr>"

lemma timing_cu_limited: "limited_cu timing_cu"
  by (simp add: limited_cu_def timing_cu_def)

theorem wavefronts_isolated_witness:
  "\<exists>p' r0 r. RegisterCU NewCUResourcePool timing_cu = Inr p' \<and> cus p' = [r0] \<and>
     cu_run [Reserve sample_wg, Release sample_wg] r0 = Inr r \<and> isolated r"
  using wavefronts_isolated [OF timing_cu_limited, of NewCUResourcePool "[Reserve sample_wg, Release sample_wg]"]
  by (auto simp: NewCUResourcePool_def)

text \<open>
  A rejected reservation leaves no trace: when \<^verbatim>\<open>ReserveResourceForWG\<close> answers no, all masks, counts and
  reservations are what they were; only the round-robin pointer \<^verbatim>\<open>nextSIMD\<close> may have moved.
\<close>

theorem rejected_reservation_leaves_no_trace:
  assumes "cu_inv sizes r" "reservedWGs r wg = None" "wg_Wavefronts wg \<noteq> []"
    and "ReserveResourceForWG r wg = Inr (None, r')"
  shows "\<exists>d. r' = r\<lparr>nextSIMD := d\<rparr>"
  using reserve_cases [OF assms(1-3)] assms(4) by (auto split: option.splits)

definition small_cu :: DispatchableCU where
  "small_cu = \<lparr>dcu_id = 1, WfPoolSizes = [2, 1], VRegCounts = [512, 512], SRegCount = 64, LDSBytes = 512\<rparr>"

definition small_r :: CUResourceImpl where
  "small_r = \<lparr>wfPoolFreeCount = [2, 1], sregCount = 64, sregGranularity = 16,
     sregMask = newResourceMask 4, vregCounts = [512, 512], vregGranularity = 4,
     vregMasks = [newResourceMask 2, newResourceMask 2],
     ldsByteSize = 512, ldsGranularity = 256, ldsMask = newResourceMask 2, nextSIMD = 0,
     reservedWGs = Map.empty\<rparr>"

definition small_wg :: "nat \<Rightarrow> WorkGroup" where
  "small_wg sgprs = \<lparr>wg_id = 7, wg_Wavefronts = [1, 2], wg_WFSgprCount = sgprs, wg_WGGroupSegmentByteSize = 300,
     wg_WIVgprCount = 4\<rparr>"

lemma small_r_inv: "cu_inv [2, 1] small_r" "reservedWGs small_r = Map.empty"
proof -
  have "limited_cu small_cu" by (simp add: limited_cu_def small_cu_def)
  from RegisterCU_inv [OF this, of NewCUResourcePool]
  obtain p r where "RegisterCU NewCUResourcePool small_cu = Inr p" "cus p = [r]" "cu_inv [2, 1] r"
    by (auto simp: NewCUResourcePool_def small_cu_def)
  moreover have "r = small_r" using calculation(1,2)
    by (auto simp: RegisterCU_def NewCUResourcePool_def small_cu_def createMask_def small_r_def)
  ultimately show "cu_inv [2, 1] small_r" "reservedWGs small_r = Map.empty" by (simp_all add: small_r_def)
qed

theorem rejected_reservation_leaves_no_trace_witness:
  "\<exists>r' d. ReserveResourceForWG small_r (small_wg 48) = Inr (None, r') \<and> r' = small_r\<lparr>nextSIMD := d\<rparr>"
proof -
  have "(case ReserveResourceForWG small_r (small_wg 48) of Inr (None, r) \<Rightarrow> True | _ \<Rightarrow> False)" by code_simp
  then obtain r' where r': "ReserveResourceForWG small_r (small_wg 48) = Inr (None, r')"
    by (auto split: sum.splits option.splits)
  have "reservedWGs small_r (small_wg 48) = None" "wg_Wavefronts (small_wg 48) \<noteq> []"
    by (simp_all add: small_r_inv small_wg_def)
  from rejected_reservation_leaves_no_trace [OF small_r_inv(1) this r'] r' show ?thesis by blast
qed

text \<open>
  A release gives back exactly what was taken: reserving for a work-group and releasing it again
  restores every mask, every free count and the table of reservations.
\<close>

theorem release_undoes_reservation:
  assumes inv: "cu_inv sizes r" and new: "reservedWGs r wg = None" and ne: "wg_Wavefronts wg \<noteq> []"
    and res: "ReserveResourceForWG r wg = Inr (Some ls, r1)"
  shows "\<exists>r2. FreeResourcesForWG r1 wg = Inr r2 \<and> sregMask r2 = sregMask r \<and> ldsMask r2 = ldsMask r \<and>
    vregMasks r2 = vregMasks r \<and> wfPoolFreeCount r2 = wfPoolFreeCount r \<and> reservedWGs r2 = reservedWGs r"
proof -
  have r1: "cu_inv sizes r1" "reservedWGs r1 = (reservedWGs r)(wg \<mapsto> ls)"
    using reserve_cases [OF inv new ne] res by auto
  obtain r2 where r2: "FreeResourcesForWG r1 wg = Inr r2" "cu_inv sizes r2" "reservedWGs r2 = (reservedWGs r1)(wg := None)"
    using free_cases [OF r1(1), of wg ls] r1(2) by auto
  have m: "reservedWGs r2 = reservedWGs r" using r2(3) r1(2) new by (auto simp: fun_eq_iff)
  have ms: "msizes r2 = msizes r"
    using ReserveResourceForWG_msizes [OF res] FreeResourcesForWG_msizes [OF r2(1)] by simp
  have al: "allocs reg r2 = allocs reg r" for reg by (simp add: allocs_def m)
  have g: "vregGranularity r2 = vregGranularity r" "ldsGranularity r2 = ldsGranularity r"
    "msize (sregMask r2) = msize (sregMask r)" "msize (ldsMask r2) = msize (ldsMask r)"
    "map msize (vregMasks r2) = map msize (vregMasks r)" using ms by (simp_all add: msizes_def)
  have len: "length (vregMasks r) = length sizes" "length (vregMasks r2) = length sizes"
    "length (wfPoolFreeCount r) = length sizes" "length (wfPoolFreeCount r2) = length sizes"
    using inv r2(2) by (auto simp: cu_inv_def cu_shape_def)
  have "sregMask r2 = sregMask r"
    using holds_layout_unique [OF _ _ g(3), of "allocs sreg_of r"] inv r2(2) by (simp add: cu_inv_def al)
  moreover have "ldsMask r2 = ldsMask r"
    using holds_layout_unique [OF _ _ g(4), of "allocs (lds_of (ldsGranularity r)) r"] inv r2(2)
    by (simp add: cu_inv_def al g)
  moreover have "vregMasks r2 ! s = vregMasks r ! s" if "s < length sizes" for s
  proof -
    have "msize (vregMasks r2 ! s) = msize (vregMasks r ! s)" using g(5) that len by (metis nth_map)
    from holds_layout_unique [OF _ _ this, of "allocs (vreg_of (vregGranularity r) s) r"] show ?thesis
      using inv r2(2) that by (simp add: cu_inv_def al g)
  qed
  moreover have "wfPoolFreeCount r2 ! s = wfPoolFreeCount r ! s" if "s < length sizes" for s
  proof -
    have "resident s r2 = resident s r" by (simp add: resident_def m)
    moreover have "wfPoolFreeCount r ! s + resident s r = sizes ! s" "wfPoolFreeCount r2 ! s + resident s r2 = sizes ! s"
      using inv r2(2) that by (simp_all add: cu_inv_def)
    ultimately show ?thesis by linarith
  qed
  ultimately show ?thesis using r2(1) m len by (auto intro!: nth_equalityI)
qed

theorem release_undoes_reservation_witness:
  "\<exists>ls r1 r2. ReserveResourceForWG small_r (small_wg 20) = Inr (Some ls, r1) \<and>
     FreeResourcesForWG r1 (small_wg 20) = Inr r2 \<and> sregMask r2 = sregMask small_r"
proof -
  have "(case ReserveResourceForWG small_r (small_wg 20) of Inr (Some ls, r) \<Rightarrow> True | _ \<Rightarrow> False)" by code_simp
  then obtain ls r1 where r1: "ReserveResourceForWG small_r (small_wg 20) = Inr (Some ls, r1)"
    by (auto split: sum.splits option.splits)
  have "reservedWGs small_r (small_wg 20) = None" "wg_Wavefronts (small_wg 20) \<noteq> []"
    by (simp_all add: small_r_inv small_wg_def)
  from release_undoes_reservation [OF small_r_inv(1) this r1] r1 show ?thesis by blast
qed

end
