(* ===== verification/Write_Buffer.thy ===== *)
theory Write_Buffer
  imports Prelude
begin

text \<open>
  The write-combining buffer, \<^verbatim>\<open>mem/writebuffer.go\<close>. A write is what it does to memory: the
  bytes its dirty mask selects, at consecutive addresses of its process (\<open>apply_write\<close>). The
  lemmas show that combining is invisible as long as the buffered writes start at a
  multiple of the combining size, and that it is not otherwise, because \<^verbatim>\<open>expandWrite\<close> moves
  the data to the line's start and leaves the address.

  A \<^verbatim>\<open>nil\<close> dirty mask is \<open>None\<close> and means that every byte is written. The port is a function,
  as in the buffered sender.
\<close>

section \<open>The buffer\<close>

record WriteReq =
  w_Address :: u64
  w_Data :: "byte list"
  w_DirtyMask :: "bool list option"
  w_PID :: u32

record writeBufferImpl =
  wb_capacity :: int
  wb_writeCombineSize :: u64
  wb_buf :: "WriteReq list"

definition NewWriteBuffer :: "int \<Rightarrow> writeBufferImpl" where
  "NewWriteBuffer capacity = \<lparr>wb_capacity = capacity, wb_writeCombineSize = 64, wb_buf = []\<rparr>"

definition SetWriteCombineGranularity :: "u64 \<Rightarrow> writeBufferImpl \<Rightarrow> writeBufferImpl" where
  "SetWriteCombineGranularity sz b = b\<lparr>wb_writeCombineSize := sz\<rparr>"

definition wb_Tick :: "(WriteReq \<Rightarrow> 'p \<Rightarrow> bool \<times> 'p) \<Rightarrow> writeBufferImpl \<Rightarrow> 'p \<Rightarrow> bool \<times> writeBufferImpl \<times> 'p" where
  "wb_Tick send b port =
     (case wb_buf b of
        [] \<Rightarrow> (False, b, port)
      | w # ws \<Rightarrow> (case send w port of
                      (False, port') \<Rightarrow> (False, b, port')
                    | (True, port') \<Rightarrow> (True, b\<lparr>wb_buf := ws\<rparr>, port')))"

definition CanEnqueue :: "writeBufferImpl \<Rightarrow> bool" where
  "CanEnqueue b \<longleftrightarrow> \<not> (wb_capacity b \<le> int (length (wb_buf b)))"

definition createDirtyMask :: "WriteReq \<Rightarrow> WriteReq" where
  "createDirtyMask w = w\<lparr>w_DirtyMask := Some (replicate (length (w_Data w)) True)\<rparr>"

definition with_mask :: "WriteReq \<Rightarrow> WriteReq" where
  "with_mask w = (if w_DirtyMask w = None then createDirtyMask w else w)"

text \<open>\<^verbatim>\<open>copy(dst[off:], src)\<close> copies as much as fits; \<^verbatim>\<open>dst[off:]\<close> with \<^verbatim>\<open>off\<close> at most the length.\<close>

definition copy_into :: "'a list \<Rightarrow> nat \<Rightarrow> 'a list \<Rightarrow> 'a list" where
  "copy_into dst off src = copy_at dst off (take (length dst - off) src)"

definition expandWrite :: "u64 \<Rightarrow> WriteReq \<Rightarrow> WriteReq" where
  "expandWrite sz w =
     (if (of_nat (length (w_Data w)) :: u64) = sz then w
      else let offset = unat (w_Address w mod sz) in
        w\<lparr>w_Data := copy_into (replicate (unat sz) 0) offset (w_Data w),
          w_DirtyMask := Some (copy_into (replicate (unat sz) False) offset (the (w_DirtyMask w)))\<rparr>)"

text \<open>The loop over the bytes of the second write.\<close>

fun combine_bytes ::
    "nat \<Rightarrow> byte list \<Rightarrow> bool list \<Rightarrow> byte list \<Rightarrow> bool list \<Rightarrow> (byte list \<times> bool list) result" where
  "combine_bytes pos [] mks wdata wmask = Inr (wdata, wmask)"
| "combine_bytes pos (d # ds) [] wdata wmask = Inl IndexOutOfRange"
| "combine_bytes pos (d # ds) (k # mks) wdata wmask =
     (if \<not> k then combine_bytes (Suc pos) ds mks wdata wmask
      else if pos < length wdata \<and> pos < length wmask
      then combine_bytes (Suc pos) ds mks (wdata[pos := d]) (wmask[pos := True])
      else Inl IndexOutOfRange)"

definition combineWrite :: "u64 \<Rightarrow> WriteReq \<Rightarrow> WriteReq \<Rightarrow> WriteReq result" where
  "combineWrite sz w0 write0 =
     (let write = with_mask write0; w = expandWrite sz (with_mask w0); offset = unat (w_Address write mod sz) in
      bindR (combine_bytes offset (w_Data write) (the (w_DirtyMask write)) (w_Data w) (the (w_DirtyMask w)))
        (\<lambda>(d, k). Inr (w\<lparr>w_Data := d, w_DirtyMask := Some k\<rparr>)))"

fun enqueue_scan :: "u64 \<Rightarrow> WriteReq \<Rightarrow> WriteReq list \<Rightarrow> WriteReq list result" where
  "enqueue_scan sz write [] = Inr [write]"
| "enqueue_scan sz write (w # ws) =
     (if w_PID w \<noteq> w_PID write then bindR (enqueue_scan sz write ws) (\<lambda>ws'. Inr (w # ws'))
      else if sz = 0 then Inl DivideByZero
      else if w_Address w div sz = w_Address write div sz then bindR (combineWrite sz w write) (\<lambda>w'. Inr (w' # ws))
      else bindR (enqueue_scan sz write ws) (\<lambda>ws'. Inr (w # ws')))"

definition Enqueue :: "WriteReq \<Rightarrow> writeBufferImpl \<Rightarrow> writeBufferImpl result" where
  "Enqueue write b =
     (if wb_capacity b \<le> int (length (wb_buf b))
      then Inl (Panic ''Buffer overflow, please use CanEnqueue before Enqueue'')
      else bindR (enqueue_scan (wb_writeCombineSize b) write (wb_buf b)) (\<lambda>ws. Inr (b\<lparr>wb_buf := ws\<rparr>)))"

definition wb_Query :: "u32 \<Rightarrow> u64 \<Rightarrow> writeBufferImpl \<Rightarrow> WriteReq option" where
  "wb_Query pid addr b =
     find (\<lambda>w. w_PID w = pid \<and> w_Address w \<le> addr \<and> addr < w_Address w + of_nat (length (w_Data w))) (wb_buf b)"

section \<open>What a write does\<close>

type_synonym memory = "u32 \<Rightarrow> u64 \<Rightarrow> byte"

definition byte_of :: "WriteReq \<Rightarrow> nat \<Rightarrow> byte option" where
  "byte_of w i =
     (if i < length (w_Data w) \<and> (case w_DirtyMask w of None \<Rightarrow> True | Some k \<Rightarrow> i < length k \<and> k ! i)
      then Some (w_Data w ! i) else None)"

definition apply_write :: "WriteReq \<Rightarrow> memory \<Rightarrow> memory" where
  "apply_write w m = (\<lambda>pid a. if pid = w_PID w then
     (case byte_of w (unat (a - w_Address w)) of Some x \<Rightarrow> x | None \<Rightarrow> m pid a) else m pid a)"

definition effect :: "WriteReq list \<Rightarrow> memory \<Rightarrow> memory" where
  "effect ws m = foldl (\<lambda>m w. apply_write w m) m ws"

text \<open>A write that starts its line: the case the cache issues, whole or partial.\<close>

definition line_write :: "u64 \<Rightarrow> WriteReq \<Rightarrow> bool" where
  "line_write sz w \<longleftrightarrow> w_Address w mod sz = 0 \<and> length (w_Data w) \<le> unat sz \<and>
     unat (w_Address w) + unat sz \<le> 2 ^ 64 \<and>
     (case w_DirtyMask w of None \<Rightarrow> True | Some k \<Rightarrow> length k = length (w_Data w))"

definition wb_inv :: "writeBufferImpl \<Rightarrow> bool" where
  "wb_inv b \<longleftrightarrow> wb_writeCombineSize b \<noteq> 0 \<and> (\<forall>w \<in> set (wb_buf b). line_write (wb_writeCombineSize b) w) \<and>
     distinct (map (\<lambda>w. (w_PID w, w_Address w)) (wb_buf b)) \<and> int (length (wb_buf b)) \<le> wb_capacity b"

lemma with_mask_simps [simp]:
  "w_Address (with_mask w) = w_Address w" "w_Data (with_mask w) = w_Data w" "w_PID (with_mask w) = w_PID w"
  "\<exists>k. w_DirtyMask (with_mask w) = Some k"
  by (auto simp: with_mask_def createDirtyMask_def)

lemma byte_of_with_mask [simp]: "byte_of (with_mask w) i = byte_of w i"
  by (auto simp: byte_of_def with_mask_def createDirtyMask_def)

lemma line_write_mask:
  assumes "line_write sz w"
  obtains k where "w_DirtyMask (with_mask w) = Some k" "length k = length (w_Data w)"
  using assms by (auto simp: line_write_def with_mask_def createDirtyMask_def split: option.splits)

text \<open>Two line writes of one line have the same address.\<close>

lemma line_same_address:
  assumes "sz \<noteq> 0" "line_write sz w" "line_write sz v"
  shows "w_Address w div sz = w_Address v div sz \<longleftrightarrow> w_Address w = w_Address v"
  using assms by (metis line_write_def word_mod_div_equality add.right_neutral)

lemma copy_into_aligned:
  "length src \<le> n \<Longrightarrow> copy_into (replicate n z) 0 src = src @ replicate (n - length src) z"
  by (simp add: copy_into_def copy_at_def)

lemma expandWrite_line:
  assumes "line_write sz w" "w_DirtyMask w = Some k" "length k = length (w_Data w)"
  defines "v \<equiv> expandWrite sz w"
  shows "w_Address v = w_Address w" "w_PID v = w_PID w" "length (w_Data v) = unat sz"
    "\<exists>k'. w_DirtyMask v = Some k' \<and> length k' = unat sz" "byte_of v i = byte_of w i"
proof -
  let ?n = "length (w_Data w)"
  have le: "?n \<le> unat sz" and al: "w_Address w mod sz = 0" using assms(1) by (auto simp: line_write_def)
  have full: "(of_nat ?n :: u64) = sz \<longleftrightarrow> ?n = unat sz"
    using le unat_lt64 [of sz] by (auto simp: unat_of_nat word_unat_eq_iff)
  have v: "v = (if ?n = unat sz then w else
      w\<lparr>w_Data := w_Data w @ replicate (unat sz - ?n) 0, w_DirtyMask := Some (k @ replicate (unat sz - ?n) False)\<rparr>)"
    using le assms(2,3) by (simp add: v_def expandWrite_def full al copy_into_aligned)
  show "w_Address v = w_Address w" "w_PID v = w_PID w" "length (w_Data v) = unat sz"
    "\<exists>k'. w_DirtyMask v = Some k' \<and> length k' = unat sz"
    using le assms(2,3) by (auto simp: v)
  show "byte_of v i = byte_of w i"
    using assms(2,3) by (auto simp: v byte_of_def nth_append)
qed

lemma combine_bytes_spec:
  assumes "length mks = length ds" "pos + length ds \<le> length wdata" "length wmask = length wdata"
  shows "\<exists>d k. combine_bytes pos ds mks wdata wmask = Inr (d, k) \<and> length d = length wdata \<and> length k = length wdata \<and>
    (\<forall>i < length wdata. if pos \<le> i \<and> i < pos + length ds \<and> mks ! (i - pos)
       then d ! i = ds ! (i - pos) \<and> k ! i else d ! i = wdata ! i \<and> k ! i = wmask ! i)"
  using assms
proof (induction ds arbitrary: pos mks wdata wmask)
  case Nil
  then show ?case by auto
next
  case (Cons x ds)
  obtain b mks' where m: "mks = b # mks'" using Cons.prems(1) by (cases mks) auto
  let ?d = "if b then wdata[pos := x] else wdata" and ?k = "if b then wmask[pos := True] else wmask"
  have ld: "length ?d = length wdata" "length ?k = length wmask" by simp_all
  have p: "length mks' = length ds" "Suc pos + length ds \<le> length ?d" "length ?k = length ?d"
    using Cons.prems m by simp_all
  obtain d k where IH: "combine_bytes (Suc pos) ds mks' ?d ?k = Inr (d, k)" "length d = length wdata" "length k = length wdata"
    "\<forall>i < length wdata. if Suc pos \<le> i \<and> i < Suc pos + length ds \<and> mks' ! (i - Suc pos)
       then d ! i = ds ! (i - Suc pos) \<and> k ! i else d ! i = ?d ! i \<and> k ! i = ?k ! i"
    using Cons.IH [OF p, unfolded ld] by blast
  have "if pos \<le> i \<and> i < pos + length (x # ds) \<and> mks ! (i - pos)
       then d ! i = (x # ds) ! (i - pos) \<and> k ! i else d ! i = wdata ! i \<and> k ! i = wmask ! i" if i: "i < length wdata" for i
  proof (cases "i = pos")
    case True
    then show ?thesis using IH(4) [rule_format, OF i] m i Cons.prems(3) by (auto split: if_splits)
  next
    case False
    then show ?thesis using IH(4) [rule_format, OF i] m i Cons.prems(3)
      by (cases "pos < i") (auto simp: nth_Cons' Suc_diff_Suc split: if_splits)
  qed
  then show ?case using IH(1-3) m Cons.prems by (auto split: if_splits)
qed

lemma combineWrite_line:
  assumes l: "line_write sz w" "line_write sz v" and same: "w_Address v = w_Address w" "w_PID v = w_PID w"
  shows "\<exists>w'. combineWrite sz w v = Inr w' \<and> line_write sz w' \<and> w_Address w' = w_Address w \<and> w_PID w' = w_PID w \<and>
    (\<forall>i. byte_of w' i = (case byte_of v i of Some x \<Rightarrow> Some x | None \<Rightarrow> byte_of w i))"
proof -
  obtain kw where kw: "w_DirtyMask (with_mask w) = Some kw" "length kw = length (w_Data w)" by (rule line_write_mask [OF l(1)])
  obtain kv where kv: "w_DirtyMask (with_mask v) = Some kv" "length kv = length (w_Data v)" by (rule line_write_mask [OF l(2)])
  have "line_write sz (with_mask w)" using l(1) kw by (simp add: line_write_def)
  note ex = expandWrite_line [OF this kw(1)]
  let ?e = "expandWrite sz (with_mask w)"
  obtain k' where k': "w_DirtyMask ?e = Some k'" "length k' = unat sz" using ex(4) kw(2) by auto
  have le: "length (w_Data v) \<le> unat sz" and al: "w_Address v mod sz = 0" using l(2) by (auto simp: line_write_def)
  obtain d k where c: "combine_bytes 0 (w_Data v) kv (w_Data ?e) k' = Inr (d, k)" "length d = unat sz" "length k = unat sz"
    "\<forall>i < unat sz. if 0 \<le> i \<and> i < 0 + length (w_Data v) \<and> kv ! (i - 0)
       then d ! i = w_Data v ! (i - 0) \<and> k ! i else d ! i = w_Data ?e ! i \<and> k ! i = k' ! i"
    using combine_bytes_spec [of kv "w_Data v" 0 "w_Data ?e" k'] kv(2) le ex(3) k' kw(2) by auto
  let ?w' = "?e\<lparr>w_Data := d, w_DirtyMask := Some k\<rparr>"
  have "combineWrite sz w v = Inr ?w'" using c(1) kv(1) k'(1) al by (simp add: combineWrite_def Let_def)
  moreover have "byte_of ?w' i = (case byte_of v i of Some x \<Rightarrow> Some x | None \<Rightarrow> byte_of w i)" for i
  proof -
    have bv: "byte_of v i = (if i < length (w_Data v) \<and> kv ! i then Some (w_Data v ! i) else None)"
      by (rule trans [OF byte_of_with_mask [symmetric]]) (simp add: byte_of_def kv)
    have bw: "byte_of w i = (if i < unat sz \<and> k' ! i then Some (w_Data ?e ! i) else None)"
      using ex(5) [of i] kw(2) k' ex(3) by (simp add: byte_of_def [of ?e])
    show ?thesis using c(2-4) le unfolding bv bw by (auto simp: byte_of_def split: if_splits)
  qed
  moreover have "line_write sz ?w'" using l(1) ex(1) c(2,3) kw(2) by (simp add: line_write_def)
  ultimately show ?thesis using ex(1,2) kw(2) by (intro exI [of _ ?w']) simp
qed

lemma apply_combined:
  assumes "w_Address v = w_Address w" "w_PID v = w_PID w" "w_Address w' = w_Address w" "w_PID w' = w_PID w"
    and "\<forall>i. byte_of w' i = (case byte_of v i of Some x \<Rightarrow> Some x | None \<Rightarrow> byte_of w i)"
  shows "apply_write w' m = apply_write v (apply_write w m)"
  using assms by (auto simp: apply_write_def fun_eq_iff split: option.splits)

lemma line_byte_address:
  assumes "sz \<noteq> 0" "line_write sz w" "byte_of w (unat (a - w_Address w)) \<noteq> None"
  shows "unat a div unat sz = unat (w_Address w) div unat sz"
proof -
  let ?i = "unat (a - w_Address w)"
  have i: "?i < unat sz" using assms(2,3) by (auto simp: byte_of_def line_write_def split: if_splits)
  have "unat (w_Address w) + unat sz \<le> 2 ^ 64" using assms(2) by (simp add: line_write_def)
  then have "unat (w_Address w + (a - w_Address w)) = unat (w_Address w) + ?i"
    using i by (intro unat_word_add2) simp
  then have a: "unat a = unat (w_Address w) + ?i" by simp
  have "unat (w_Address w) mod unat sz = 0" using assms(2) by (metis line_write_def unat_0 unat_mod_distrib)
  then show ?thesis using a i by (metis add.right_neutral div_less div_plus_div_distrib_dvd_left mod_0_imp_dvd)
qed

lemma apply_write_commute:
  assumes "sz \<noteq> 0" "line_write sz w" "line_write sz v" "(w_PID w, w_Address w) \<noteq> (w_PID v, w_Address v)"
  shows "apply_write v (apply_write w m) = apply_write w (apply_write v m)"
proof -
  have *: "byte_of v (unat (a - w_Address v)) = None"
    if "w_PID w = w_PID v" "byte_of w (unat (a - w_Address w)) \<noteq> None" for a
  proof (rule ccontr)
    assume "\<not> ?thesis"
    then have "unat (w_Address w) div unat sz = unat (w_Address v) div unat sz"
      using line_byte_address [OF assms(1,2), of a] line_byte_address [OF assms(1,3), of a] that(2) by simp
    then have "w_Address w div sz = w_Address v div sz" by (simp add: word_unat_eq_iff unat_div_distrib)
    then show False using line_same_address [OF assms(1-3)] assms(4) that(1) by simp
  qed
  show ?thesis
  proof (intro ext)
    fix pid a
    show "apply_write v (apply_write w m) pid a = apply_write w (apply_write v m) pid a"
      using * [of a] by (cases "byte_of w (unat (a - w_Address w))") (auto simp: apply_write_def split: option.splits)
  qed
qed

lemma effect_Cons: "effect (w # ws) m = effect ws (apply_write w m)"
  by (simp add: effect_def)

lemma effect_commute:
  assumes "sz \<noteq> 0" "line_write sz v" "\<forall>w \<in> set ws. line_write sz w \<and> (w_PID w, w_Address w) \<noteq> (w_PID v, w_Address v)"
  shows "effect ws (apply_write v m) = apply_write v (effect ws m)"
  using assms(3)
proof (induction ws arbitrary: m)
  case (Cons w ws)
  have "apply_write w (apply_write v m) = apply_write v (apply_write w m)"
    using Cons.prems by (intro apply_write_commute [OF assms(1,2)]) auto
  then show ?case using Cons by (simp add: effect_Cons)
qed (simp add: effect_def)

abbreviation wkey :: "WriteReq \<Rightarrow> u32 \<times> u64" where
  "wkey w \<equiv> (w_PID w, w_Address w)"

lemma enqueue_scan_line:
  assumes "sz \<noteq> 0" "line_write sz v" "\<forall>w \<in> set ws. line_write sz w" "distinct (map wkey ws)"
  shows "\<exists>ws'. enqueue_scan sz v ws = Inr ws' \<and> (\<forall>w \<in> set ws'. line_write sz w) \<and> distinct (map wkey ws') \<and>
    set (map wkey ws') = insert (wkey v) (set (map wkey ws)) \<and>
    (\<forall>m. effect ws' m = apply_write v (effect ws m)) \<and> length ws' \<le> Suc (length ws)"
  using assms(3,4)
proof (induction ws)
  case Nil
  then show ?case using assms by (simp add: effect_def)
next
  case (Cons w ws)
  have lw: "line_write sz w" using Cons.prems by simp
  show ?case
  proof (cases "wkey w = wkey v")
    case True
    then have same: "w_Address v = w_Address w" "w_PID v = w_PID w" by auto
    obtain w' where w': "combineWrite sz w v = Inr w'" "line_write sz w'" "w_Address w' = w_Address w" "w_PID w' = w_PID w"
      "\<forall>i. byte_of w' i = (case byte_of v i of Some x \<Rightarrow> Some x | None \<Rightarrow> byte_of w i)"
      using combineWrite_line [OF lw assms(2) same] by blast
    have "effect (w' # ws) m = apply_write v (effect (w # ws) m)" for m
    proof -
      have "\<forall>u \<in> set ws. line_write sz u \<and> wkey u \<noteq> wkey v" 
        using Cons.prems True by (auto simp: image_iff)
      then show ?thesis by (simp add: effect_Cons apply_combined [OF same w'(3,4,5)] effect_commute [OF assms(1,2)])
    qed
    then show ?thesis using w'(1-4) same Cons.prems assms(1) by (intro exI [of _ "w' # ws"]) (simp add: insert_absorb)
  next
    case False
    obtain ws' where ws': "enqueue_scan sz v ws = Inr ws'" "\<forall>w \<in> set ws'. line_write sz w" "distinct (map wkey ws')"
      "set (map wkey ws') = insert (wkey v) (set (map wkey ws))" "\<forall>m. effect ws' m = apply_write v (effect ws m)"
      "length ws' \<le> Suc (length ws)" using Cons by auto
    have "enqueue_scan sz v (w # ws) = Inr (w # ws')"
      using ws'(1) False assms(1) line_same_address [OF assms(1) lw assms(2)] by auto
    then show ?thesis using ws' Cons.prems False lw by (intro exI [of _ "w # ws'"]) (auto simp: effect_Cons)
  qed
qed

section \<open>Properties\<close>

text \<open>
  Claim C32. Write combining is invisible: when all writes start at a multiple of the combining size, a
  non-full buffer takes a new write without a panic, keeps at most one entry per process and line,
  and draining it afterwards has the effect of draining it before followed by the new write.
\<close>

theorem Enqueue_preserves_effect:
  assumes "wb_inv b" "CanEnqueue b" "line_write (wb_writeCombineSize b) w"
  shows "\<exists>b'. Enqueue w b = Inr b' \<and> wb_inv b' \<and> (\<forall>m. effect (wb_buf b') m = apply_write w (effect (wb_buf b) m))"
proof -
  obtain ws' where ws': "enqueue_scan (wb_writeCombineSize b) w (wb_buf b) = Inr ws'"
    "\<forall>w \<in> set ws'. line_write (wb_writeCombineSize b) w" "distinct (map wkey ws')"
    "\<forall>m. effect ws' m = apply_write w (effect (wb_buf b) m)" "length ws' \<le> Suc (length (wb_buf b))"
    using enqueue_scan_line [OF _ assms(3), of "wb_buf b"] assms(1) unfolding wb_inv_def by (elim conjE) blast
  then show ?thesis using assms(1,2)
    by (intro exI [of _ "b\<lparr>wb_buf := ws'\<rparr>"]) (auto simp: Enqueue_def wb_inv_def CanEnqueue_def)
qed

definition two_halves :: "WriteReq list" where
  "two_halves = [\<lparr>w_Address = 0x100, w_Data = [1, 2, 3, 4], w_DirtyMask = None, w_PID = 1\<rparr>,
                 \<lparr>w_Address = 0x140, w_Data = [5], w_DirtyMask = None, w_PID = 1\<rparr>]"

theorem Enqueue_preserves_effect_witness:
  "\<exists>b'. Enqueue \<lparr>w_Address = 0x100, w_Data = [9, 9], w_DirtyMask = Some [False, True], w_PID = 1\<rparr>
          ((NewWriteBuffer 4)\<lparr>wb_buf := two_halves\<rparr>) = Inr b' \<and> wb_inv b'"
proof -
  have "wb_inv ((NewWriteBuffer 4)\<lparr>wb_buf := two_halves\<rparr>)" "CanEnqueue ((NewWriteBuffer 4)\<lparr>wb_buf := two_halves\<rparr>)"
    "line_write (wb_writeCombineSize ((NewWriteBuffer 4)\<lparr>wb_buf := two_halves\<rparr>))
       \<lparr>w_Address = 0x100, w_Data = [9, 9], w_DirtyMask = Some [False, True], w_PID = 1\<rparr>"
    by (simp_all add: wb_inv_def line_write_def NewWriteBuffer_def two_halves_def CanEnqueue_def)
  from Enqueue_preserves_effect [OF this] show ?thesis by blast
qed

lemma replicate_8: "replicate 8 x = [x, x, x, x, x, x, x, x]"
  by (simp add: numeral_eq_Suc)

text \<open>
  Combining displaces writes that do not start their line: with lines of 8 bytes, a buffered write of
  the byte at 0x104, combined with one of the byte at 0x106, leaves one entry at 0x104 whose data starts at offset 4,
  so draining the buffer no longer writes the byte at 0x104, which the two writes, drained one by one, do.
\<close>

theorem combine_displaces_unaligned:
  "bindR (bindR (Enqueue \<lparr>w_Address = 0x104, w_Data = [1], w_DirtyMask = None, w_PID = 0\<rparr>
                   (SetWriteCombineGranularity 8 (NewWriteBuffer 4)))
         (Enqueue \<lparr>w_Address = 0x106, w_Data = [2], w_DirtyMask = None, w_PID = 0\<rparr>))
       (\<lambda>b. Inr (effect (wb_buf b) (\<lambda>_ _. 0) 0 0x104)) = Inr 0 \<and>
   effect [\<lparr>w_Address = 0x104, w_Data = [1], w_DirtyMask = None, w_PID = 0\<rparr>,
           \<lparr>w_Address = 0x106, w_Data = [2], w_DirtyMask = None, w_PID = 0\<rparr>] (\<lambda>_ _. 0) 0 0x104 = 1"
  by (simp add: Enqueue_def NewWriteBuffer_def SetWriteCombineGranularity_def combineWrite_def Let_def with_mask_def
      createDirtyMask_def expandWrite_def copy_into_def copy_at_def effect_def apply_write_def byte_of_def replicate_8)

end
