(* ===== verification/Page_Table.thy ===== *)
theory Page_Table
  imports Prelude
begin

text \<open>
  The page table (\<^verbatim>\<open>mem/device/pagetable.go\<close>): per process a radix tree of four levels with nine bits
  each, whose nodes have the physical addresses a page walk visits, and beside it a hash table of
  linked-list elements that \<^verbatim>\<open>Find\<close> reads.

  A tree node is a value of \<open>treeNode\<close> (a Go tree node is reachable from its parent only, so the
  pointers form a tree); a list element keeps its identity, since the hash table and the list share it.
  The memory allocator, an interface, is the function that hands out pages for inner nodes, over a
  state \<open>'m\<close>; it may be \<^verbatim>\<open>nil\<close>.

  The invariant \<open>table_wf\<close> ties the tree to the hash table. The locale \<open>page_store\<close> is the contract of a
  store of pages, refined by the page table; the properties show that every history of insertions, updates
  and removals behaves like a finite map, and that a page walk ends where \<^verbatim>\<open>Find\<close> says.
\<close>

unbundle bit_operations_syntax

section \<open>Pages and trees\<close>

record Page =
  pg_PID :: u32
  pg_PAddr :: u64
  pg_VAddr :: u64
  pg_PageSize :: u64
  pg_Valid :: bool
  pg_DeviceID :: u64
  pg_Unified :: bool
  pg_IsMigrating :: bool
  pg_IsPinned :: bool

definition no_page :: Page where
  "no_page = \<lparr>pg_PID = 0, pg_PAddr = 0, pg_VAddr = 0, pg_PageSize = 0, pg_Valid = False, pg_DeviceID = 0,
     pg_Unified = False, pg_IsMigrating = False, pg_IsPinned = False\<rparr>"

datatype treeNode = TreeNode (tn_pAddr: u64) (tn_page: Page) (tn_children: "treeNode option list")

type_synonym 'm MemoryAllocator = "u32 \<Rightarrow> int \<Rightarrow> u64 \<Rightarrow> u64 \<Rightarrow> 'm \<Rightarrow> (u64 \<times> 'm) result"

record 'm processTableImpl =
  t_root :: "treeNode option"
  t_log2PageSize :: nat
  t_bitsPerLevel :: nat
  t_bitsPerLevelMask :: u64
  t_numChildren :: u64
  t_numLevels :: nat
  t_memAllocator :: "'m MemoryAllocator option"
  t_entries :: "(nat \<times> Page) list"
  t_entriesTable :: "u64 \<rightharpoonup> nat"
  t_fresh :: nat

definition newProcessTable :: "nat \<Rightarrow> nat \<Rightarrow> nat \<Rightarrow> 'm MemoryAllocator option \<Rightarrow> 'm processTableImpl" where
  "newProcessTable log2PageSize numLevels bitsPerLevel a =
     \<lparr>t_root = None, t_log2PageSize = log2PageSize, t_bitsPerLevel = bitsPerLevel,
      t_bitsPerLevelMask = NOT (push_bit bitsPerLevel (NOT 0)), t_numChildren = push_bit bitsPerLevel 1,
      t_numLevels = numLevels, t_memAllocator = a, t_entries = [], t_entriesTable = Map.empty, t_fresh = 0\<rparr>"

section \<open>Operations of a process table\<close>

fun rearrange_loop :: "nat \<Rightarrow> 'm processTableImpl \<Rightarrow> u64 \<Rightarrow> u64 \<Rightarrow> u64" where
  "rearrange_loop 0 t vpn rearrangedVpn = rearrangedVpn"
| "rearrange_loop (Suc n) t vpn rearrangedVpn =
     rearrange_loop n t (drop_bit (t_bitsPerLevel t) vpn)
       (push_bit (t_bitsPerLevel t) rearrangedVpn OR (vpn AND t_bitsPerLevelMask t))"

definition rearrange :: "'m processTableImpl \<Rightarrow> u64 \<Rightarrow> u64 result" where
  "rearrange t vAddr =
     (let pageSize = push_bit (t_log2PageSize t) 1 in
      if pageSize = 0 then Inl DivideByZero else Inr (rearrange_loop (t_numLevels t) t (vAddr div pageSize) 0))"

text \<open>\<^verbatim>\<open>t.numLevels-level-1\<close> is only computed for levels above the leaves, where it does not wrap.\<close>

definition newTreeNode ::
    "'m processTableImpl \<Rightarrow> u32 \<Rightarrow> u64 \<Rightarrow> u64 \<Rightarrow> u64 \<Rightarrow> nat \<Rightarrow> 'm \<Rightarrow> (treeNode \<times> 'm) result" where
  "newTreeNode t pid gpuid vAddr pAddr level m =
     (if level = t_numLevels t - 1 then Inr (TreeNode 0 no_page [], m)
      else case t_memAllocator t of
             None \<Rightarrow> Inl NilDereference
           | Some alloc \<Rightarrow>
               bindR (alloc pid (sint gpuid) (drop_bit (t_bitsPerLevel t * (t_numLevels t - level - 1) + t_log2PageSize t) vAddr) pAddr m)
                 (\<lambda>(a, m). Inr (TreeNode a no_page (replicate (unat (t_numChildren t)) None), m)))"

definition set_child :: "nat \<Rightarrow> treeNode option \<Rightarrow> treeNode \<Rightarrow> treeNode" where
  "set_child i c n = TreeNode (tn_pAddr n) (tn_page n) ((tn_children n)[i := c])"

definition child_index :: "'m processTableImpl \<Rightarrow> u64 \<Rightarrow> nat" where
  "child_index t vAddr = unat (vAddr AND t_bitsPerLevelMask t)"

fun insert_node ::
    "nat \<Rightarrow> nat \<Rightarrow> 'm processTableImpl \<Rightarrow> Page \<Rightarrow> u64 \<Rightarrow> treeNode \<Rightarrow> 'm \<Rightarrow> (treeNode \<times> 'm) result" where
  "insert_node 0 i t page vAddr n m =
     (let indexOfChild = child_index t vAddr in
      bindR (slice_get (tn_children n) indexOfChild) (\<lambda>c.
      if c \<noteq> None then Inl (Panic ''page already present'')
      else bindR (newTreeNode t (pg_PID page) (pg_DeviceID page) (pg_VAddr page) (pg_PAddr page) i m) (\<lambda>(leaf, m).
        Inr (set_child indexOfChild (Some (TreeNode (pg_PAddr page) page (tn_children leaf))) n, m))))"
| "insert_node (Suc k) i t page vAddr n m =
     (let indexOfChild = child_index t vAddr in
      bindR (slice_get (tn_children n) indexOfChild) (\<lambda>c.
      bindR (case c of Some ch \<Rightarrow> Inr (ch, m)
             | None \<Rightarrow> newTreeNode t (pg_PID page) (pg_DeviceID page) (pg_VAddr page) (pg_PAddr page) i m) (\<lambda>(ch, m).
      bindR (insert_node k (Suc i) t page (drop_bit (t_bitsPerLevel t) vAddr) ch m) (\<lambda>(ch, m).
      Inr (set_child indexOfChild (Some ch) n, m)))))"

definition pageMustExist :: "'m processTableImpl \<Rightarrow> u64 \<Rightarrow> nat result" where
  "pageMustExist t vAddr = (case t_entriesTable t vAddr of None \<Rightarrow> Inl (Panic ''page does not exist'') | Some e \<Rightarrow> Inr e)"

definition pageMustNotExist :: "'m processTableImpl \<Rightarrow> u64 \<Rightarrow> unit result" where
  "pageMustNotExist t vAddr = (case t_entriesTable t vAddr of None \<Rightarrow> Inr () | Some e \<Rightarrow> Inl (Panic ''page exist''))"

definition pt_insert :: "'m processTableImpl \<Rightarrow> Page \<Rightarrow> 'm \<Rightarrow> ('m processTableImpl \<times> 'm) result" where
  "pt_insert t page m =
     bindR (case t_root t of Some n \<Rightarrow> Inr (n, m) | None \<Rightarrow> newTreeNode t (pg_PID page) (pg_DeviceID page) 0 0 0 m) (\<lambda>(n, m).
     bindR (rearrange t (pg_VAddr page)) (\<lambda>vAddr.
     bindR (insert_node (t_numLevels t - 1) 0 t page vAddr n m) (\<lambda>(n, m).
     bindR (pageMustNotExist t (pg_VAddr page)) (\<lambda>_.
     Inr (t\<lparr>t_root := Some n, t_entries := t_entries t @ [(t_fresh t, page)],
            t_entriesTable := (t_entriesTable t)(pg_VAddr page \<mapsto> t_fresh t), t_fresh := Suc (t_fresh t)\<rparr>, m)))))"

text \<open>The loops that descend to the node of the last level, with what is done to its slot there.\<close>

fun remove_node :: "nat \<Rightarrow> 'm processTableImpl \<Rightarrow> u64 \<Rightarrow> u64 \<Rightarrow> treeNode option \<Rightarrow> treeNode result" where
  "remove_node k t vAddr rearrangedVpn None = Inl NilDereference"
| "remove_node 0 t vAddr rearrangedVpn (Some n) =
     (let indexOfChild = child_index t rearrangedVpn in
      bindR (slice_get (tn_children n) indexOfChild) (\<lambda>c.
      case c of None \<Rightarrow> Inl (Panic ''virtual page does not exist!'')
      | Some leaf \<Rightarrow> if pg_VAddr (tn_page leaf) \<noteq> vAddr then Inl (Panic ''DFS wrongly implemented'')
                    else Inr (set_child indexOfChild None n)))"
| "remove_node (Suc k) t vAddr rearrangedVpn (Some n) =
     (let indexOfChild = child_index t rearrangedVpn in
      bindR (slice_get (tn_children n) indexOfChild) (\<lambda>c.
      bindR (remove_node k t vAddr (drop_bit (t_bitsPerLevel t) rearrangedVpn) c) (\<lambda>c.
      Inr (set_child indexOfChild (Some c) n))))"

definition pt_remove :: "'m processTableImpl \<Rightarrow> u64 \<Rightarrow> 'm processTableImpl result" where
  "pt_remove t vAddr =
     bindR (rearrange t vAddr) (\<lambda>rearrangedVpn.
     bindR (remove_node (t_numLevels t - 1) t vAddr rearrangedVpn (t_root t)) (\<lambda>n.
     bindR (pageMustExist t vAddr) (\<lambda>elem.
     Inr (t\<lparr>t_root := Some n, t_entries := filter (\<lambda>(e, p). e \<noteq> elem) (t_entries t),
            t_entriesTable := (t_entriesTable t)(vAddr := None)\<rparr>))))"

fun update_node :: "nat \<Rightarrow> 'm processTableImpl \<Rightarrow> Page \<Rightarrow> u64 \<Rightarrow> treeNode option \<Rightarrow> treeNode result" where
  "update_node k t page vAddr None = Inl NilDereference"
| "update_node 0 t page vAddr (Some n) = Inr (TreeNode (pg_PAddr page) page (tn_children n))"
| "update_node (Suc k) t page vAddr (Some n) =
     (let indexOfChild = child_index t vAddr in
      bindR (slice_get (tn_children n) indexOfChild) (\<lambda>c.
      bindR (update_node k t page (drop_bit (t_bitsPerLevel t) vAddr) c) (\<lambda>c.
      Inr (set_child indexOfChild (Some c) n))))"

definition pt_update :: "'m processTableImpl \<Rightarrow> Page \<Rightarrow> 'm processTableImpl result" where
  "pt_update t page =
     bindR (rearrange t (pg_VAddr page)) (\<lambda>vAddr.
     bindR (update_node (t_numLevels t) t page vAddr (t_root t)) (\<lambda>n.
     bindR (pageMustExist t (pg_VAddr page)) (\<lambda>elem.
     Inr (t\<lparr>t_root := Some n, t_entries := map (\<lambda>(e, p). (e, if e = elem then page else p)) (t_entries t)\<rparr>))))"

definition pt_find :: "'m processTableImpl \<Rightarrow> u64 \<Rightarrow> Page option" where
  "pt_find t vAddr = (case t_entriesTable t vAddr of None \<Rightarrow> None | Some elem \<Rightarrow> map_of (t_entries t) elem)"

fun findAddr_node :: "nat \<Rightarrow> 'm processTableImpl \<Rightarrow> u64 \<Rightarrow> treeNode option \<Rightarrow> u64 result" where
  "findAddr_node k t vAddr None = Inl NilDereference"
| "findAddr_node 0 t vAddr (Some n) =
     (let indexOfChild = child_index t vAddr in
      bindR (slice_get (tn_children n) indexOfChild) (\<lambda>c.
      if c = None then Inl (Panic ''oh no!'') else Inr (tn_pAddr n + of_nat indexOfChild * 8)))"
| "findAddr_node (Suc k) t vAddr (Some n) =
     bindR (slice_get (tn_children n) (child_index t vAddr)) (findAddr_node k t (drop_bit (t_bitsPerLevel t) vAddr))"

definition findAddr :: "'m processTableImpl \<Rightarrow> u64 \<Rightarrow> nat \<Rightarrow> u64 result" where
  "findAddr t vAddr level =
     (if t_numLevels t \<le> level then Inl (Panic ''level!'')
      else bindR (rearrange t vAddr) (\<lambda>vAddr. findAddr_node level t vAddr (t_root t)))"

definition addOffset :: "'m processTableImpl \<Rightarrow> u64 \<Rightarrow> u64 \<Rightarrow> u64" where
  "addOffset t root vAddr = root + (vAddr AND t_bitsPerLevelMask t) * 8"

definition nextLevel :: "'m processTableImpl \<Rightarrow> u64 \<Rightarrow> u64" where
  "nextLevel t vAddr = drop_bit (t_bitsPerLevel t) vAddr"

text \<open>The breadth-first traversal; only the root of an empty table is \<^verbatim>\<open>nil\<close> in the queue.\<close>

function pages_loop :: "'m processTableImpl \<Rightarrow> treeNode list \<Rightarrow> u64 list \<Rightarrow> u64 list result" where
  "pages_loop t [] pagesAsInts = Inr pagesAsInts"
| "pages_loop t (n # queue) pagesAsInts =
     (if tn_children n = [] then pages_loop t queue pagesAsInts
      else if length (tn_children n) \<noteq> unat (t_numChildren t) then Inl (Panic ''oh no!'')
      else pages_loop t (queue @ List.map_filter id (tn_children n))
             (pagesAsInts @ tn_pAddr n # map (\<lambda>c. case c of None \<Rightarrow> 0 | Some ch \<Rightarrow> tn_pAddr ch) (tn_children n)))"
  by pat_completeness auto

lemma size_map_filter: "sum_list (map size (List.map_filter id cs)) \<le> size_list (size_option size) (cs :: treeNode option list)"
  by (induction cs) (auto simp: map_filter_simps split: option.splits)

termination pages_loop
proof (relation "measure (\<lambda>(t, queue, out). sum_list (map size queue))", goal_cases)
  case (2 t n queue pagesAsInts)
  then show ?case by (cases n) simp
next
  case (3 t n queue pagesAsInts)
  then show ?case using size_map_filter [of "tn_children n"] by (cases n) simp
qed simp

definition PageTablePagesAsBytes :: "'m processTableImpl \<Rightarrow> u64 list result" where
  "PageTablePagesAsBytes t = (case t_root t of None \<Rightarrow> Inl NilDereference | Some n \<Rightarrow> pages_loop t [n] [])"

section \<open>The page table of all processes\<close>

record 'm PageTableImpl =
  pt_log2PageSize :: nat
  pt_tables :: "u32 \<rightharpoonup> 'm processTableImpl"
  pt_memAllocator :: "'m MemoryAllocator option"

definition NewPageTable :: "nat \<Rightarrow> 'm PageTableImpl" where
  "NewPageTable log2PageSize = \<lparr>pt_log2PageSize = log2PageSize, pt_tables = Map.empty, pt_memAllocator = None\<rparr>"

definition SetMemoryAllocator :: "'m MemoryAllocator option \<Rightarrow> 'm PageTableImpl \<Rightarrow> 'm PageTableImpl" where
  "SetMemoryAllocator a pt = pt\<lparr>pt_memAllocator := a\<rparr>"

definition getTable :: "u32 \<Rightarrow> 'm PageTableImpl \<Rightarrow> 'm processTableImpl \<times> 'm PageTableImpl" where
  "getTable pid pt =
     (case pt_tables pt pid of
        Some t \<Rightarrow> (t, pt)
      | None \<Rightarrow> let t = newProcessTable (pt_log2PageSize pt) 4 9 (pt_memAllocator pt)
                in (t, pt\<lparr>pt_tables := (pt_tables pt)(pid \<mapsto> t)\<rparr>))"

definition put_table :: "u32 \<Rightarrow> 'm processTableImpl \<Rightarrow> 'm PageTableImpl \<Rightarrow> 'm PageTableImpl" where
  "put_table pid t pt = pt\<lparr>pt_tables := (pt_tables pt)(pid \<mapsto> t)\<rparr>"

definition AlignToPage :: "'m PageTableImpl \<Rightarrow> u64 \<Rightarrow> u64" where
  "AlignToPage pt addr = push_bit (pt_log2PageSize pt) (drop_bit (pt_log2PageSize pt) addr)"

definition pt_Insert :: "Page \<Rightarrow> 'm PageTableImpl \<Rightarrow> 'm \<Rightarrow> ('m PageTableImpl \<times> 'm) result" where
  "pt_Insert page pt m = (let (t, pt) = getTable (pg_PID page) pt in
     bindR (pt_insert t page m) (\<lambda>(t, m). Inr (put_table (pg_PID page) t pt, m)))"

definition pt_Remove :: "u32 \<Rightarrow> u64 \<Rightarrow> 'm PageTableImpl \<Rightarrow> 'm PageTableImpl result" where
  "pt_Remove pid vAddr pt = (let (t, pt) = getTable pid pt in
     bindR (pt_remove t vAddr) (\<lambda>t. Inr (put_table pid t pt)))"

definition pt_Find :: "u32 \<Rightarrow> u64 \<Rightarrow> 'm PageTableImpl \<Rightarrow> Page option \<times> 'm PageTableImpl" where
  "pt_Find pid vAddr pt = (let (t, pt) = getTable pid pt in (pt_find t (AlignToPage pt vAddr), pt))"

definition pt_Update :: "Page \<Rightarrow> 'm PageTableImpl \<Rightarrow> 'm PageTableImpl result" where
  "pt_Update page pt = (let (t, pt) = getTable (pg_PID page) pt in
     bindR (pt_update t page) (\<lambda>t. Inr (put_table (pg_PID page) t pt)))"

definition pt_FindAddr :: "u32 \<Rightarrow> u64 \<Rightarrow> nat \<Rightarrow> 'm PageTableImpl \<Rightarrow> u64 result \<times> 'm PageTableImpl" where
  "pt_FindAddr pid vAddr level pt = (let (t, pt) = getTable pid pt in (findAddr t vAddr level, pt))"

definition pt_PageTablePagesAsBytes :: "u32 \<Rightarrow> 'm PageTableImpl \<Rightarrow> u64 list result \<times> 'm PageTableImpl" where
  "pt_PageTablePagesAsBytes pid pt = (let (t, pt) = getTable pid pt in (PageTablePagesAsBytes t, pt))"

definition Rearrange :: "u64 \<Rightarrow> 'm PageTableImpl \<Rightarrow> u64 result \<times> 'm PageTableImpl" where
  "Rearrange vAddr pt = (let (t, pt) = getTable 0 pt in (rearrange t vAddr, pt))"

definition GetRoot :: "u32 \<Rightarrow> 'm PageTableImpl \<Rightarrow> u64 result \<times> 'm PageTableImpl" where
  "GetRoot pid pt = (let (t, pt) = getTable pid pt in
     (case t_root t of None \<Rightarrow> Inl NilDereference | Some n \<Rightarrow> Inr (tn_pAddr n), pt))"

definition AddOffset :: "u64 \<Rightarrow> u64 \<Rightarrow> 'm PageTableImpl \<Rightarrow> u64 \<times> 'm PageTableImpl" where
  "AddOffset root vAddr pt = (let (t, pt) = getTable 0 pt in (addOffset t root vAddr, pt))"

definition NextLevel :: "u64 \<Rightarrow> 'm PageTableImpl \<Rightarrow> u64 \<times> 'm PageTableImpl" where
  "NextLevel vAddr pt = (let (t, pt) = getTable 0 pt in (nextLevel t vAddr, pt))"

fun MoveToLevel :: "u64 \<Rightarrow> nat \<Rightarrow> 'm PageTableImpl \<Rightarrow> u64 \<times> 'm PageTableImpl" where
  "MoveToLevel vAddr 0 pt = (vAddr, pt)"
| "MoveToLevel vAddr (Suc level) pt = (let (vAddr, pt) = NextLevel vAddr pt in MoveToLevel vAddr level pt)"

section \<open>The path of an address\<close>

definition standard :: "nat \<Rightarrow> 'm processTableImpl \<Rightarrow> bool" where
  "standard lg t \<longleftrightarrow> lg \<le> 28 \<and> t_log2PageSize t = lg \<and> t_bitsPerLevel t = 9 \<and> t_bitsPerLevelMask t = mask 9 \<and>
     t_numChildren t = 512 \<and> t_numLevels t = 4"

lemma standard_new: "lg \<le> 28 \<Longrightarrow> standard lg (newProcessTable lg 4 9 a)"
  by (simp add: standard_def newProcessTable_def mask_eq_exp_minus_1)

definition canonical :: "nat \<Rightarrow> u64 \<Rightarrow> bool" where
  "canonical lg v \<longleftrightarrow> take_bit lg v = 0 \<and> drop_bit (36 + lg) v = 0"

definition page_path :: "nat \<Rightarrow> u64 \<Rightarrow> nat list" where
  "page_path lg v = map (\<lambda>i. unat (take_bit 9 (drop_bit (9 * i + lg) v))) [3, 2, 1, 0]"

lemma length_page_path [simp]: "length (page_path lg v) = 4"
  by (simp add: page_path_def)

fun indices :: "nat \<Rightarrow> 'm processTableImpl \<Rightarrow> u64 \<Rightarrow> nat list" where
  "indices 0 t vAddr = []"
| "indices (Suc k) t vAddr = child_index t vAddr # indices k t (drop_bit (t_bitsPerLevel t) vAddr)"

lemma length_indices [simp]: "length (indices k t v) = k"
  by (induction k arbitrary: v) simp_all

lemma four_Suc: "(4 :: nat) = Suc (Suc (Suc (Suc 0)))"
  by simp

lemma indices_standard:
  "standard lg t \<Longrightarrow> indices k t r = map (\<lambda>i. unat (take_bit 9 (drop_bit (9 * i) r))) [0..<k]"
proof (induction k arbitrary: r)
  case (Suc k)
  then show ?case unfolding upt_conv_Cons [OF zero_less_Suc] map_Suc_upt [symmetric]
    by (simp add: standard_def child_index_def take_bit_eq_mask [symmetric] drop_bit_drop_bit add.commute)
qed simp

lemma rearrange_standard:
  assumes "standard lg t"
  shows "\<exists>r. rearrange t v = Inr r \<and> indices 4 t r = page_path lg v"
proof -
  let ?vpn = "drop_bit lg v"
  let ?d = "\<lambda>i. take_bit 9 (drop_bit (9 * i) ?vpn)"
  let ?r = "push_bit 9 (push_bit 9 (push_bit 9 (?d 0) OR ?d 1) OR ?d 2) OR ?d 3"
  have sz: "push_bit lg (1 :: u64) \<noteq> 0"
  proof -
    have "bit (push_bit lg (1 :: u64)) lg" using assms by (simp add: standard_def bit_simps)
    then show ?thesis by (metis bit_0_eq bot_apply bot_bool_def)
  qed
  have "v div push_bit lg 1 = ?vpn" by (simp add: drop_bit_eq_div push_bit_eq_mult)
  then have "rearrange t v = Inr ?r"
    using assms sz by (simp add: rearrange_def standard_def four_Suc drop_bit_drop_bit take_bit_eq_mask and.commute)
  moreover have "take_bit 9 (drop_bit (9 * i) ?r) = ?d (3 - i)" if "i < 4" for i
  proof -
    have "i = 0 \<or> i = 1 \<or> i = 2 \<or> i = 3" using that by linarith
    then show ?thesis by (elim disjE) (auto intro!: bit_word_eqI simp: bit_simps)
  qed
  then have "unat (take_bit 9 (drop_bit (9 * i) ?r)) = unat (take_bit 9 (drop_bit (9 * (3 - i) + lg) v))" if "i < 4" for i
    using that by (simp only: drop_bit_drop_bit)
  then have "indices 4 t ?r = map (\<lambda>i. unat (take_bit 9 (drop_bit (9 * (3 - i) + lg) v))) [0..<4]"
    unfolding indices_standard [OF assms] by (intro map_cong) simp_all
  then have "indices 4 t ?r = page_path lg v"
    by (simp add: page_path_def upt_rec)
  ultimately show ?thesis by blast
qed

lemma rearrange_loop_cong:
  "t_bitsPerLevel t = t_bitsPerLevel t' \<Longrightarrow> t_bitsPerLevelMask t = t_bitsPerLevelMask t' \<Longrightarrow>
     rearrange_loop n t v r = rearrange_loop n t' v r"
  by (induction n arbitrary: v r) simp_all

lemma rearrange_cong: "standard lg t \<Longrightarrow> standard lg t' \<Longrightarrow> rearrange t v = rearrange t' v"
  using rearrange_loop_cong [of t t' 4] by (simp add: standard_def rearrange_def)

lemma page_path_inj:
  assumes "canonical lg v" "canonical lg w" "page_path lg v = page_path lg w"
  shows "v = w"
proof (rule bit_word_eqI)
  fix n assume n: "n < LENGTH(64)"
  have d: "take_bit 9 (drop_bit (9 * i + lg) v) = take_bit 9 (drop_bit (9 * i + lg) w)" if "i < 4" for i
  proof -
    have "i = 0 \<or> i = 1 \<or> i = 2 \<or> i = 3" using that by linarith
    then show ?thesis using assms(3) by (elim disjE) (simp_all add: page_path_def word_unat_eq_iff)
  qed
  consider "n < lg" | "lg \<le> n" "n < 36 + lg" | "36 + lg \<le> n" by linarith
  then show "bit v n = bit w n"
  proof cases
    case 1
    then have "bit x n \<longleftrightarrow> bit (take_bit lg x) n" for x :: u64 by (simp add: bit_simps)
    from this [of v] this [of w] show ?thesis using assms(1,2) by (simp add: canonical_def)
  next
    case 2
    let ?i = "(n - lg) div 9" and ?j = "(n - lg) mod 9"
    have nn: "n = 9 * ?i + lg + ?j" "?i < 4" using 2 by (simp_all add: less_mult_imp_div_less)
    have "bit x n \<longleftrightarrow> bit (take_bit 9 (drop_bit (9 * ?i + lg) x)) ?j" for x :: u64
      using n nn(1) by (simp add: bit_simps)
    from this [of v] this [of w] show ?thesis using d [OF nn(2)] by simp
  next
    case 3
    then have "bit x n \<longleftrightarrow> bit (drop_bit (36 + lg) x) (n - (36 + lg))" for x :: u64 by (simp add: bit_simps)
    from this [of v] this [of w] show ?thesis using assms(1,2) by (simp add: canonical_def)
  qed
qed

section \<open>Trees\<close>

fun lookup :: "nat list \<Rightarrow> treeNode \<Rightarrow> treeNode option" where
  "lookup [] n = Some n"
| "lookup (i # is) n = (if i < length (tn_children n) then Option.bind (tn_children n ! i) (lookup is) else None)"

lemma bind_lookup_Nil [simp]: "Option.bind c (lookup []) = c"
  by (cases c) auto

fun wf_tree :: "nat \<Rightarrow> treeNode \<Rightarrow> bool" where
  "wf_tree 0 n = (tn_children n = [])"
| "wf_tree (Suc k) n = (length (tn_children n) = 512 \<and> (\<forall>i < 512. \<forall>c. tn_children n ! i = Some c \<longrightarrow> wf_tree k c))"

lemma set_child_sel [simp]:
  "tn_pAddr (set_child i c n) = tn_pAddr n" "tn_children (set_child i c n) = (tn_children n)[i := c]"
  by (simp_all add: set_child_def)

lemma lookup_set_child:
  "i < length (tn_children n) \<Longrightarrow> lookup (j # js) (set_child i c n) = (if j = i then Option.bind c (lookup js) else lookup (j # js) n)"
  by auto

lemma wf_set_child:
  "wf_tree (Suc k) n \<Longrightarrow> i < 512 \<Longrightarrow> (\<And>c'. c = Some c' \<Longrightarrow> wf_tree k c') \<Longrightarrow> wf_tree (Suc k) (set_child i c n)"
  by (auto simp: nth_list_update)

lemma child_index_standard [simp]: "standard lg t \<Longrightarrow> child_index t v < 512"
  using take_bit_nat_less_exp [of 9 "unat v"]
  by (simp add: standard_def child_index_def take_bit_eq_mask [symmetric] unsigned_take_bit_eq)

definition allocates :: "'m processTableImpl \<Rightarrow> bool" where
  "allocates t \<longleftrightarrow> (\<exists>alloc. t_memAllocator t = Some alloc \<and> (\<forall>pid gpu v p m. \<exists>a m'. alloc pid gpu v p m = Inr (a, m')))"

lemma newTreeNode_ok:
  assumes "standard lg t" "allocates t" "level < 3"
  shows "\<exists>n m'. newTreeNode t pid gpu v p level m = Inr (n, m') \<and> wf_tree (Suc k) n \<and> (\<forall>js. js \<noteq> [] \<longrightarrow> lookup js n = None)"
proof -
  obtain alloc where alloc: "t_memAllocator t = Some alloc" "\<forall>pid gpu v p m. \<exists>a m'. alloc pid gpu v p m = Inr (a, m')"
    using assms(2) by (auto simp: allocates_def)
  let ?v = "drop_bit (t_bitsPerLevel t * (t_numLevels t - level - 1) + t_log2PageSize t) v"
  obtain a m' where "alloc pid (sint gpu) ?v p m = Inr (a, m')" using alloc(2) by blast
  then have "newTreeNode t pid gpu v p level m = Inr (TreeNode a no_page (replicate 512 None), m')"
    using assms(1,3) alloc(1) by (simp add: newTreeNode_def standard_def)
  moreover have "lookup js (TreeNode a no_page (replicate 512 None)) = None" if "js \<noteq> []" for js
    using that by (cases js) auto
  ultimately show ?thesis by simp
qed

lemma insert_node_ok:
  assumes "standard lg t" "allocates t" "k + i = 3" "wf_tree (Suc k) n" "lookup (indices (Suc k) t va) n = None"
  shows "\<exists>n' m'. insert_node k i t page va n m = Inr (n', m') \<and> wf_tree (Suc k) n' \<and>
    (\<forall>js. length js = Suc k \<longrightarrow>
       lookup js n' = (if js = indices (Suc k) t va then Some (TreeNode (pg_PAddr page) page []) else lookup js n))"
  using assms(3-5)
proof (induction k arbitrary: i va n m)
  case 0
  let ?x = "child_index t va"
  have x: "?x < length (tn_children n)" "tn_children n ! ?x = None" using 0 assms(1) by (auto split: if_splits)
  let ?leaf = "TreeNode (pg_PAddr page) page []"
  have "newTreeNode t (pg_PID page) (pg_DeviceID page) (pg_VAddr page) (pg_PAddr page) i m = Inr (TreeNode 0 no_page [], m)"
    using 0(1) assms(1) by (simp add: newTreeNode_def standard_def)
  then have "insert_node 0 i t page va n m = Inr (set_child ?x (Some ?leaf) n, m)" using x by (simp add: Let_def)
  moreover have "wf_tree (Suc 0) (set_child ?x (Some ?leaf) n)" using 0(2) assms(1) by (intro wf_set_child) auto
  moreover have "lookup js (set_child ?x (Some ?leaf) n) = (if js = indices (Suc 0) t va then Some ?leaf else lookup js n)"
    if "length js = Suc 0" for js
    using that x lookup_set_child [OF x(1)] by (cases js) auto
  ultimately show ?case by blast
next
  case (Suc k)
  let ?x = "child_index t va" and ?va = "drop_bit (t_bitsPerLevel t) va"
  have x: "?x < length (tn_children n)" "?x < 512" using Suc.prems(2) assms(1) by auto
  obtain ch m1 where ch: "(case tn_children n ! ?x of Some ch \<Rightarrow> Inr (ch, m)
        | None \<Rightarrow> newTreeNode t (pg_PID page) (pg_DeviceID page) (pg_VAddr page) (pg_PAddr page) i m) = Inr (ch, m1)"
      "wf_tree (Suc k) ch" "\<forall>js. js \<noteq> [] \<longrightarrow> lookup js ch = Option.bind (tn_children n ! ?x) (lookup js)"
  proof (cases "tn_children n ! ?x")
    case None
    have "i < 3" using Suc.prems(1) by simp
    from newTreeNode_ok [OF assms(1,2) this, of "pg_PID page" "pg_DeviceID page" "pg_VAddr page" "pg_PAddr page" m k]
    obtain c m' where "newTreeNode t (pg_PID page) (pg_DeviceID page) (pg_VAddr page) (pg_PAddr page) i m = Inr (c, m')"
      "wf_tree (Suc k) c" "\<forall>js. js \<noteq> [] \<longrightarrow> lookup js c = None" by blast
    then show ?thesis using that [of c m'] None by simp
  next
    case (Some c)
    then show ?thesis using that [of c m] Suc.prems(2) x by auto
  qed
  have "Option.bind (tn_children n ! ?x) (lookup (indices (Suc k) t ?va)) = None" using Suc.prems(3) x(1) by simp
  moreover have "indices (Suc k) t ?va \<noteq> []" by simp
  ultimately have "lookup (indices (Suc k) t ?va) ch = None" using ch(3) by metis
  then obtain ch' m2 where ch': "insert_node k (Suc i) t page ?va ch m1 = Inr (ch', m2)" "wf_tree (Suc k) ch'"
    "\<forall>js. length js = Suc k \<longrightarrow> lookup js ch' = (if js = indices (Suc k) t ?va then Some (TreeNode (pg_PAddr page) page []) else lookup js ch)"
    using Suc.IH [of "Suc i" ch ?va m1] Suc.prems(1) ch(2) by auto
  have "insert_node (Suc k) i t page va n m = Inr (set_child ?x (Some ch') n, m2)"
    using x ch(1) ch'(1) by (simp add: Let_def)
  moreover have "wf_tree (Suc (Suc k)) (set_child ?x (Some ch') n)"
    by (rule wf_set_child [OF Suc.prems(2) x(2)]) (use ch'(2) in simp)
  moreover have "lookup js (set_child ?x (Some ch') n) =
      (if js = indices (Suc (Suc k)) t va then Some (TreeNode (pg_PAddr page) page []) else lookup js n)" if "length js = Suc (Suc k)" for js
  proof -
    obtain j js' where js: "js = j # js'" "length js' = Suc k" using \<open>length js = Suc (Suc k)\<close> by (cases js) auto
    then have "js' \<noteq> []" by auto
    then show ?thesis unfolding js(1) lookup_set_child [OF x(1)] using ch'(3) ch(3) js(2) x by auto
  qed
  ultimately show ?case by blast
qed

lemma remove_node_ok:
  assumes "standard lg t" "wf_tree (Suc k) n" "lookup (indices (Suc k) t va) n = Some leaf" "pg_VAddr (tn_page leaf) = v"
  shows "\<exists>n'. remove_node k t v va (Some n) = Inr n' \<and> wf_tree (Suc k) n' \<and>
    (\<forall>js. length js = Suc k \<longrightarrow> lookup js n' = (if js = indices (Suc k) t va then None else lookup js n))"
  using assms(2-3)
proof (induction k arbitrary: va n)
  case 0
  let ?x = "child_index t va"
  have x: "?x < length (tn_children n)" "tn_children n ! ?x = Some leaf" using 0 by (auto split: if_splits)
  have "remove_node 0 t v va (Some n) = Inr (set_child ?x None n)" using x assms(4) by (simp add: Let_def)
  moreover have "wf_tree (Suc 0) (set_child ?x None n)" using 0(1) assms(1) by (intro wf_set_child) auto
  moreover have "lookup js (set_child ?x None n) = (if js = indices (Suc 0) t va then None else lookup js n)" if "length js = Suc 0" for js
    using that x lookup_set_child [OF x(1)] by (cases js) auto
  ultimately show ?case by blast
next
  case (Suc k)
  let ?x = "child_index t va" and ?va = "drop_bit (t_bitsPerLevel t) va"
  obtain ch where x: "?x < length (tn_children n)" "?x < 512" and ch: "tn_children n ! ?x = Some ch"
    and l: "lookup (indices (Suc k) t ?va) ch = Some leaf"
    using Suc.prems assms(1) by (auto split: if_splits simp: bind_eq_Some_conv)
  have "wf_tree (Suc k) ch" using Suc.prems(1) x ch by auto
  then obtain ch' where ch': "remove_node k t v ?va (Some ch) = Inr ch'" "wf_tree (Suc k) ch'"
    "\<forall>js. length js = Suc k \<longrightarrow> lookup js ch' = (if js = indices (Suc k) t ?va then None else lookup js ch)"
    using Suc.IH [OF _ l] by blast
  have "remove_node (Suc k) t v va (Some n) = Inr (set_child ?x (Some ch') n)" using x ch ch'(1) by (simp add: Let_def)
  moreover have "wf_tree (Suc (Suc k)) (set_child ?x (Some ch') n)"
    by (rule wf_set_child [OF Suc.prems(1) x(2)]) (use ch'(2) in simp)
  moreover have "lookup js (set_child ?x (Some ch') n) = (if js = indices (Suc (Suc k)) t va then None else lookup js n)"
    if "length js = Suc (Suc k)" for js
  proof -
    obtain j js' where js: "js = j # js'" "length js' = Suc k" using \<open>length js = Suc (Suc k)\<close> by (cases js) auto
    then show ?thesis unfolding js(1) lookup_set_child [OF x(1)] using ch'(3) ch x by auto
  qed
  ultimately show ?case by blast
qed

lemma update_node_ok:
  assumes "standard lg t" "wf_tree k n" "lookup (indices k t va) n = Some leaf"
  shows "\<exists>n'. update_node k t page va (Some n) = Inr n' \<and> wf_tree k n' \<and>
    (\<forall>js. length js = k \<longrightarrow> lookup js n' = (if js = indices k t va then Some (TreeNode (pg_PAddr page) page []) else lookup js n))"
  using assms(2-3)
proof (induction k arbitrary: va n)
  case (Suc k)
  let ?x = "child_index t va" and ?va = "drop_bit (t_bitsPerLevel t) va"
  obtain ch where x: "?x < length (tn_children n)" "?x < 512" and ch: "tn_children n ! ?x = Some ch"
    and l: "lookup (indices k t ?va) ch = Some leaf"
    using Suc.prems assms(1) by (auto split: if_splits simp: bind_eq_Some_conv)
  have "wf_tree k ch" using Suc.prems(1) x ch by auto
  then obtain ch' where ch': "update_node k t page ?va (Some ch) = Inr ch'" "wf_tree k ch'"
    "\<forall>js. length js = k \<longrightarrow> lookup js ch' = (if js = indices k t ?va then Some (TreeNode (pg_PAddr page) page []) else lookup js ch)"
    using Suc.IH [OF _ l] by blast
  have "update_node (Suc k) t page va (Some n) = Inr (set_child ?x (Some ch') n)" using x ch ch'(1) by (simp add: Let_def)
  moreover have "wf_tree (Suc k) (set_child ?x (Some ch') n)"
    by (rule wf_set_child [OF Suc.prems(1) x(2)]) (use ch'(2) in simp)
  moreover have "lookup js (set_child ?x (Some ch') n) =
      (if js = indices (Suc k) t va then Some (TreeNode (pg_PAddr page) page []) else lookup js n)" if "length js = Suc k" for js
  proof -
    obtain j js' where js: "js = j # js'" "length js' = k" using \<open>length js = Suc k\<close> by (cases js) auto
    then show ?thesis unfolding js(1) lookup_set_child [OF x(1)] using ch'(3) ch x by auto
  qed
  ultimately show ?case by blast
qed simp

section \<open>The invariant\<close>

definition tree_at :: "'m processTableImpl \<Rightarrow> nat list \<Rightarrow> treeNode option" where
  "tree_at t js = Option.bind (t_root t) (lookup js)"

definition elems_wf :: "'m processTableImpl \<Rightarrow> bool" where
  "elems_wf t \<longleftrightarrow> distinct (map fst (t_entries t)) \<and> (\<forall>e \<in> fst ` set (t_entries t). e < t_fresh t) \<and>
     ran (t_entriesTable t) = fst ` set (t_entries t) \<and> inj_on (t_entriesTable t) (dom (t_entriesTable t))"

definition table_wf :: "nat \<Rightarrow> 'm processTableImpl \<Rightarrow> bool" where
  "table_wf lg t \<longleftrightarrow> standard lg t \<and> elems_wf t \<and> (\<forall>n. t_root t = Some n \<longrightarrow> wf_tree 4 n) \<and>
     (\<forall>v p. pt_find t v = Some p \<longrightarrow> pg_VAddr p = v \<and> canonical lg v) \<and>
     (\<forall>v. canonical lg v \<longrightarrow> tree_at t (page_path lg v) = map_option (\<lambda>p. TreeNode (pg_PAddr p) p []) (pt_find t v))"

lemma table_wf_new: "lg \<le> 28 \<Longrightarrow> table_wf lg (newProcessTable lg 4 9 a)"
  using standard_new [of lg a] by (simp add: table_wf_def elems_wf_def pt_find_def tree_at_def newProcessTable_def)

lemma pt_find_None: "elems_wf t \<Longrightarrow> pt_find t v = None \<longleftrightarrow> t_entriesTable t v = None"
  by (auto simp: pt_find_def elems_wf_def map_of_eq_None_iff ran_def split: option.splits)

lemma elems_in: "elems_wf t \<Longrightarrow> t_entriesTable t v = Some e \<Longrightarrow> e \<in> fst ` set (t_entries t)"
  by (auto simp: elems_wf_def ran_def)

lemma elems_inj: "elems_wf t \<Longrightarrow> t_entriesTable t v = Some e \<Longrightarrow> t_entriesTable t w = Some e \<Longrightarrow> w = v"
  unfolding elems_wf_def inj_on_def by (metis domI)

lemma elems_append:
  fixes r page
  assumes "elems_wf t" "t_entriesTable t v = None"
  defines "t' \<equiv> t\<lparr>t_root := r, t_entries := t_entries t @ [(t_fresh t, page)],
            t_entriesTable := (t_entriesTable t)(v \<mapsto> t_fresh t), t_fresh := Suc (t_fresh t)\<rparr>"
  shows "elems_wf t'" "pt_find t' = (pt_find t)(v \<mapsto> page)"
proof -
  have new: "t_fresh t \<notin> fst ` set (t_entries t)" using assms(1) by (auto simp: elems_wf_def)
  then have m: "map_of (t_entries t) (t_fresh t) = None" by (simp add: map_of_eq_None_iff)
  have nf: "t_entriesTable t w \<noteq> Some (t_fresh t)" for w using elems_in [OF assms(1), of w] new by blast
  have "inj_on ((t_entriesTable t)(v \<mapsto> t_fresh t)) (insert v (dom (t_entriesTable t)))"
    using assms(1) nf unfolding elems_wf_def inj_on_def by (metis domIff fun_upd_apply insertE)
  then show "elems_wf t'" using assms(1,2) new by (auto simp: t'_def elems_wf_def less_Suc_eq)
  show "pt_find t' = (pt_find t)(v \<mapsto> page)"
  proof
    fix w
    show "pt_find t' w = ((pt_find t)(v \<mapsto> page)) w"
      using m nf [of w] by (auto simp: t'_def pt_find_def map_add_def split: option.splits)
  qed
qed

lemma map_of_filter_ne: "x \<noteq> e \<Longrightarrow> map_of (filter (\<lambda>(k, v). k \<noteq> e) xs) x = map_of xs x"
  by (induction xs) auto

lemma elems_remove:
  fixes r
  assumes "elems_wf t" "t_entriesTable t v = Some elem"
  defines "t' \<equiv> t\<lparr>t_root := r, t_entries := filter (\<lambda>(e, p). e \<noteq> elem) (t_entries t), t_entriesTable := (t_entriesTable t)(v := None)\<rparr>"
  shows "elems_wf t'" "pt_find t' = (pt_find t)(v := None)"
proof -
  have other: "t_entriesTable t w \<noteq> Some elem" if "w \<noteq> v" for w
    using elems_inj [OF assms(1,2), of w] that by blast
  have f: "fst ` set (filter (\<lambda>(e, p). e \<noteq> elem) (t_entries t)) = fst ` set (t_entries t) - {elem}" by force
  have r: "ran ((t_entriesTable t)(v := None)) = ran (t_entriesTable t) - {elem}"
    using assms(2) other unfolding ran_def by (auto, metis option.inject)
  have d: "distinct (map fst (filter (\<lambda>(e, p). e \<noteq> elem) (t_entries t)))"
    using assms(1) by (intro distinct_map_filter) (simp add: elems_wf_def)
  have i: "inj_on ((t_entriesTable t)(v := None)) (dom (t_entriesTable t) - {v})"
    using assms(1) by (auto simp: elems_wf_def inj_on_def)
  show "elems_wf t'" unfolding elems_wf_def t'_def using assms(1) d i by (simp add: f r) (auto simp: elems_wf_def)
  show "pt_find t' = (pt_find t)(v := None)"
  proof
    fix w
    show "pt_find t' w = ((pt_find t)(v := None)) w"
      using other [of w] by (auto simp: t'_def pt_find_def map_of_filter_ne split: option.splits)
  qed
qed

lemma map_of_replace:
  "map_of (map (\<lambda>(e, p). (e, if e = x then y else p)) xs) z = (if z = x \<and> z \<in> fst ` set xs then Some y else map_of xs z)"
proof (induction xs)
  case (Cons a xs)
  then show ?case by (cases a; cases "z = x") auto
qed simp

lemma elems_update:
  fixes r page
  assumes "elems_wf t" "t_entriesTable t v = Some elem"
  defines "t' \<equiv> t\<lparr>t_root := r, t_entries := map (\<lambda>(e, p). (e, if e = elem then page else p)) (t_entries t)\<rparr>"
  shows "elems_wf t'" "pt_find t' = (pt_find t)(v \<mapsto> page)"
proof -
  have f: "map fst (t_entries t') = map fst (t_entries t)" by (auto simp: t'_def)
  then have f': "fst ` set (t_entries t') = fst ` set (t_entries t)" by (metis set_map)
  have "t_fresh t' = t_fresh t" "t_entriesTable t' = t_entriesTable t" by (simp_all add: t'_def)
  then show "elems_wf t'" using assms(1) unfolding elems_wf_def f f' by simp
  have other: "t_entriesTable t w \<noteq> Some elem" if "w \<noteq> v" for w
    using elems_inj [OF assms(1,2), of w] that by blast
  have mo: "map_of (t_entries t') e = (if e = elem \<and> e \<in> fst ` set (t_entries t) then Some page else map_of (t_entries t) e)" for e
    by (simp add: t'_def map_of_replace)
  have "elem \<in> fst ` set (t_entries t)" using assms(1,2) by (auto simp: elems_wf_def ran_def)
  then show "pt_find t' = (pt_find t)(v \<mapsto> page)"
    using other assms(2) mo by (auto simp: pt_find_def t'_def fun_eq_iff split: option.splits)
qed

section \<open>The operations keep the invariant and act on the map\<close>

lemma tree_at_root:
  assumes "table_wf lg t" "canonical lg v" "t_root t = Some n"
  shows "wf_tree 4 n" "lookup (page_path lg v) n = map_option (\<lambda>p. TreeNode (pg_PAddr p) p []) (pt_find t v)"
  using assms by (simp_all add: table_wf_def tree_at_def)

lemma table_wf_step:
  assumes "table_wf lg t" "canonical lg v" "standard lg t'" "elems_wf t'" "t_root t' = Some n'" "wf_tree 4 n'"
    and "pt_find t' = (pt_find t)(v := q)" "\<And>p. q = Some p \<Longrightarrow> pg_VAddr p = v"
    and "\<forall>js. length js = 4 \<longrightarrow> lookup js n' = (if js = page_path lg v then map_option (\<lambda>p. TreeNode (pg_PAddr p) p []) q else tree_at t js)"
  shows "table_wf lg t'"
proof -
  have "pg_VAddr p = w \<and> canonical lg w" if "pt_find t' w = Some p" for w p
    using that assms(1,2,7,8) by (cases "w = v") (auto simp: table_wf_def)
  moreover have "tree_at t' (page_path lg w) = map_option (\<lambda>p. TreeNode (pg_PAddr p) p []) (pt_find t' w)" if "canonical lg w" for w
  proof -
    have "page_path lg w = page_path lg v \<longleftrightarrow> w = v" using page_path_inj [OF that assms(2)] by auto
    moreover have "tree_at t (page_path lg w) = map_option (\<lambda>p. TreeNode (pg_PAddr p) p []) (pt_find t w)"
      using that assms(1) by (simp add: table_wf_def)
    moreover have "tree_at t' (page_path lg w) = lookup (page_path lg w) n'" using assms(5) by (simp add: tree_at_def)
    ultimately show ?thesis using assms(7) spec [OF assms(9), of "page_path lg w"] by simp
  qed
  ultimately show ?thesis using assms(3-6) unfolding table_wf_def by simp
qed

lemma pt_insert_ok:
  assumes "table_wf lg t" "allocates t" "canonical lg (pg_VAddr page)" "pt_find t (pg_VAddr page) = None"
  shows "\<exists>t' m'. pt_insert t page m = Inr (t', m') \<and> table_wf lg t' \<and> allocates t' \<and> pt_find t' = (pt_find t)(pg_VAddr page \<mapsto> page)"
proof -
  let ?v = "pg_VAddr page"
  have st: "standard lg t" and ew: "elems_wf t" using assms(1) by (simp_all add: table_wf_def)
  obtain r where r: "rearrange t ?v = Inr r" "indices 4 t r = page_path lg ?v" using rearrange_standard [OF st] by blast
  obtain n m1 where n: "(case t_root t of Some n \<Rightarrow> Inr (n, m) | None \<Rightarrow> newTreeNode t (pg_PID page) (pg_DeviceID page) 0 0 0 m) = Inr (n, m1)"
      "wf_tree 4 n" "\<forall>js. js \<noteq> [] \<longrightarrow> lookup js n = tree_at t js"
  proof (cases "t_root t")
    case None
    obtain n m1 where "newTreeNode t (pg_PID page) (pg_DeviceID page) 0 0 0 m = Inr (n, m1)" "wf_tree (Suc 3) n"
        "\<forall>js. js \<noteq> [] \<longrightarrow> lookup js n = None"
      using newTreeNode_ok [OF st assms(2), of 0 "pg_PID page" "pg_DeviceID page" 0 0 m 3] by auto
    then show ?thesis using that [of n m1] None by (simp add: tree_at_def)
  next
    case (Some n)
    then show ?thesis using that [of n m] tree_at_root [OF assms(1,3)] by (simp add: tree_at_def)
  qed
  have n4: "\<forall>js. length js = 4 \<longrightarrow> lookup js n = tree_at t js" using n(3) by (metis list.size(3) zero_neq_numeral)
  have "tree_at t (page_path lg ?v) = None" using assms(1,3,4) by (simp add: table_wf_def)
  moreover have "page_path lg ?v \<noteq> []" by (simp add: page_path_def)
  ultimately have "lookup (indices (Suc 3) t r) n = None" using n(3) r(2) by (simp del: indices.simps)
  then obtain n' m' where n': "insert_node 3 0 t page r n m1 = Inr (n', m')" "wf_tree 4 n'"
    "\<forall>js. length js = 4 \<longrightarrow> lookup js n' = (if js = page_path lg ?v then Some (TreeNode (pg_PAddr page) page []) else lookup js n)"
    using insert_node_ok [OF st assms(2), of 3 0 n r page m1] n(2) r(2) by auto
  have none: "t_entriesTable t ?v = None" using pt_find_None [OF ew] assms(4) by simp
  let ?t' = "t\<lparr>t_root := Some n', t_entries := t_entries t @ [(t_fresh t, page)],
            t_entriesTable := (t_entriesTable t)(?v \<mapsto> t_fresh t), t_fresh := Suc (t_fresh t)\<rparr>"
  note el = elems_append [OF ew none, where r = "Some n'" and page = page]
  have "pt_insert t page m = Inr (?t', m')"
    using n(1) r(1) n'(1) none st by (simp add: pt_insert_def pageMustNotExist_def standard_def)
  moreover have "table_wf lg ?t'"
  proof (rule table_wf_step [OF assms(1,3) _ el(1) _ n'(2) el(2)])
    show "\<forall>js. length js = 4 \<longrightarrow> lookup js n' = (if js = page_path lg ?v then map_option (\<lambda>p. TreeNode (pg_PAddr p) p []) (Some page) else tree_at t js)"
      using n'(3) n4 by simp
  qed (use st in \<open>simp_all add: standard_def\<close>)
  moreover have "allocates ?t'" using assms(2) by (simp add: allocates_def)
  ultimately show ?thesis using el(2) by blast
qed

lemma pt_remove_ok:
  assumes "table_wf lg t" "pt_find t v = Some page"
  shows "\<exists>t'. pt_remove t v = Inr t' \<and> table_wf lg t' \<and> t_memAllocator t' = t_memAllocator t \<and> pt_find t' = (pt_find t)(v := None)"
proof -
  have st: "standard lg t" and ew: "elems_wf t" and v: "canonical lg v" "pg_VAddr page = v" using assms by (auto simp: table_wf_def)
  obtain r where r: "rearrange t v = Inr r" "indices 4 t r = page_path lg v" using rearrange_standard [OF st] by blast
  have "tree_at t (page_path lg v) = Some (TreeNode (pg_PAddr page) page [])" using assms v(1) by (simp add: table_wf_def)
  then obtain n where n: "t_root t = Some n" "lookup (page_path lg v) n = Some (TreeNode (pg_PAddr page) page [])"
    by (auto simp: tree_at_def bind_eq_Some_conv)
  obtain n' where n': "remove_node 3 t v r (Some n) = Inr n'" "wf_tree 4 n'"
    "\<forall>js. length js = 4 \<longrightarrow> lookup js n' = (if js = page_path lg v then None else lookup js n)"
    using remove_node_ok [OF st, of 3 n r "TreeNode (pg_PAddr page) page []" v] tree_at_root(1) [OF assms(1) v(1) n(1)] n(2) r(2) v(2) by auto
  obtain e where e: "t_entriesTable t v = Some e" using pt_find_None [OF ew, of v] assms(2) by fastforce
  let ?t' = "t\<lparr>t_root := Some n', t_entries := filter (\<lambda>(e', p). e' \<noteq> e) (t_entries t), t_entriesTable := (t_entriesTable t)(v := None)\<rparr>"
  note el = elems_remove [OF ew e, where r = "Some n'"]
  have "pt_remove t v = Inr ?t'" using r(1) n(1) n'(1) e st by (simp add: pt_remove_def pageMustExist_def standard_def)
  moreover have "table_wf lg ?t'"
  proof (rule table_wf_step [OF assms(1) v(1) _ el(1) _ n'(2) el(2)])
    show "\<forall>js. length js = 4 \<longrightarrow> lookup js n' = (if js = page_path lg v then map_option (\<lambda>p. TreeNode (pg_PAddr p) p []) None else tree_at t js)"
      using n'(3) n(1) by (auto simp: tree_at_def)
  qed (use st in \<open>simp_all add: standard_def\<close>)
  ultimately show ?thesis using el(2) by auto
qed

lemma pt_update_ok:
  assumes "table_wf lg t" "pt_find t (pg_VAddr page) = Some old"
  shows "\<exists>t'. pt_update t page = Inr t' \<and> table_wf lg t' \<and> t_memAllocator t' = t_memAllocator t \<and> pt_find t' = (pt_find t)(pg_VAddr page \<mapsto> page)"
proof -
  let ?v = "pg_VAddr page"
  have st: "standard lg t" and ew: "elems_wf t" and v: "canonical lg ?v" using assms by (auto simp: table_wf_def)
  obtain r where r: "rearrange t ?v = Inr r" "indices 4 t r = page_path lg ?v" using rearrange_standard [OF st] by blast
  have "tree_at t (page_path lg ?v) = Some (TreeNode (pg_PAddr old) old [])" using assms v by (simp add: table_wf_def)
  then obtain n where n: "t_root t = Some n" "lookup (page_path lg ?v) n = Some (TreeNode (pg_PAddr old) old [])"
    by (auto simp: tree_at_def bind_eq_Some_conv)
  obtain n' where n': "update_node 4 t page r (Some n) = Inr n'" "wf_tree 4 n'"
    "\<forall>js. length js = 4 \<longrightarrow> lookup js n' = (if js = page_path lg ?v then Some (TreeNode (pg_PAddr page) page []) else lookup js n)"
    using update_node_ok [OF st tree_at_root(1) [OF assms(1) v n(1)], of r "TreeNode (pg_PAddr old) old []" page] n(2) r(2) by auto
  obtain e where e: "t_entriesTable t ?v = Some e" using pt_find_None [OF ew, of ?v] assms(2) by fastforce
  let ?t' = "t\<lparr>t_root := Some n', t_entries := map (\<lambda>(e', p). (e', if e' = e then page else p)) (t_entries t)\<rparr>"
  note el = elems_update [OF ew e, where r = "Some n'" and page = page]
  have "pt_update t page = Inr ?t'" using r(1) n(1) n'(1) e st by (simp add: pt_update_def pageMustExist_def standard_def)
  moreover have "table_wf lg ?t'"
  proof (rule table_wf_step [OF assms(1) v _ el(1) _ n'(2) el(2)])
    show "\<forall>js. length js = 4 \<longrightarrow> lookup js n' = (if js = page_path lg ?v then map_option (\<lambda>p. TreeNode (pg_PAddr p) p []) (Some page) else tree_at t js)"
      using n'(3) n(1) by (auto simp: tree_at_def)
  qed (use st in \<open>simp_all add: standard_def\<close>)
  ultimately show ?thesis using el(2) by auto
qed

section \<open>Stores of pages\<close>

datatype 'k page_op = PInsert Page | PUpdate Page | PRemove 'k

fun run_ops :: "('o \<Rightarrow> 's \<Rightarrow> 's result) \<Rightarrow> 'o list \<Rightarrow> 's \<Rightarrow> 's result" where
  "run_ops f [] s = Inr s"
| "run_ops f (x # xs) s = bindR (f x s) (run_ops f xs)"

text \<open>The contract: an insertion of a new legal page, an update or a removal of a present one. \<open>None\<close> is a misuse.\<close>

fun spec_op :: "('k \<Rightarrow> bool) \<Rightarrow> (Page \<Rightarrow> 'k) \<Rightarrow> 'k page_op \<Rightarrow> ('k \<rightharpoonup> Page) \<Rightarrow> ('k \<rightharpoonup> Page) option" where
  "spec_op legal key (PInsert p) M = (if legal (key p) \<and> M (key p) = None then Some (M(key p \<mapsto> p)) else None)"
| "spec_op legal key (PUpdate p) M = (if M (key p) \<noteq> None then Some (M(key p \<mapsto> p)) else None)"
| "spec_op legal key (PRemove k) M = (if M k \<noteq> None then Some (M(k := None)) else None)"

fun spec_ops :: "('k \<Rightarrow> bool) \<Rightarrow> (Page \<Rightarrow> 'k) \<Rightarrow> 'k page_op list \<Rightarrow> ('k \<rightharpoonup> Page) \<Rightarrow> ('k \<rightharpoonup> Page) option" where
  "spec_ops legal key [] M = Some M"
| "spec_ops legal key (x # xs) M = Option.bind (spec_op legal key x M) (spec_ops legal key xs)"

locale page_store =
  fixes invar :: "'s \<Rightarrow> bool" and pages :: "'s \<Rightarrow> 'k \<rightharpoonup> Page" and key :: "Page \<Rightarrow> 'k" and legal :: "'k \<Rightarrow> bool"
    and step :: "'k page_op \<Rightarrow> 's \<Rightarrow> 's result"
  assumes ins: "invar s \<Longrightarrow> legal (key p) \<Longrightarrow> pages s (key p) = None \<Longrightarrow>
      \<exists>s'. step (PInsert p) s = Inr s' \<and> invar s' \<and> pages s' = (pages s)(key p \<mapsto> p)"
    and upd: "invar s \<Longrightarrow> pages s (key p) = Some q \<Longrightarrow>
      \<exists>s'. step (PUpdate p) s = Inr s' \<and> invar s' \<and> pages s' = (pages s)(key p \<mapsto> p)"
    and del: "invar s \<Longrightarrow> pages s k = Some q \<Longrightarrow>
      \<exists>s'. step (PRemove k) s = Inr s' \<and> invar s' \<and> pages s' = (pages s)(k := None)"
begin

lemma step_refines:
  assumes "invar s" "spec_op legal key x (pages s) = Some M"
  shows "\<exists>s'. step x s = Inr s' \<and> invar s' \<and> pages s' = M"
  using assms ins upd del by (cases x) (auto split: if_splits)

lemma run_refines:
  assumes "invar s" "spec_ops legal key xs (pages s) = Some M"
  shows "\<exists>s'. run_ops step xs s = Inr s' \<and> invar s' \<and> pages s' = M"
  using assms
proof (induction xs arbitrary: s)
  case (Cons x xs)
  then obtain M1 where M1: "spec_op legal key x (pages s) = Some M1" "spec_ops legal key xs M1 = Some M"
    by (auto simp: bind_eq_Some_conv)
  then obtain s1 where s1: "step x s = Inr s1" "invar s1" "pages s1 = M1" using step_refines [OF Cons.prems(1)] by blast
  then show ?case using Cons.IH [OF s1(2)] M1(2) by simp
qed simp

end

section \<open>The page table refines a map\<close>

definition total_allocator :: "'m MemoryAllocator \<Rightarrow> bool" where
  "total_allocator alloc \<longleftrightarrow> (\<forall>pid gpu v p m. \<exists>a m'. alloc pid gpu v p m = Inr (a, m'))"

definition pt_wf :: "nat \<Rightarrow> 'm PageTableImpl \<Rightarrow> bool" where
  "pt_wf lg pt \<longleftrightarrow> lg \<le> 28 \<and> pt_log2PageSize pt = lg \<and> (\<exists>alloc. pt_memAllocator pt = Some alloc \<and> total_allocator alloc) \<and>
     (\<forall>pid t. pt_tables pt pid = Some t \<longrightarrow> table_wf lg t \<and> allocates t)"

definition pt_pages :: "'m PageTableImpl \<Rightarrow> u32 \<times> u64 \<rightharpoonup> Page" where
  "pt_pages pt = (\<lambda>(pid, v). Option.bind (pt_tables pt pid) (\<lambda>t. pt_find t v))"

fun pt_step :: "(u32 \<times> u64) page_op \<Rightarrow> 'm PageTableImpl \<times> 'm \<Rightarrow> ('m PageTableImpl \<times> 'm) result" where
  "pt_step (PInsert p) (pt, m) = pt_Insert p pt m"
| "pt_step (PUpdate p) (pt, m) = bindR (pt_Update p pt) (\<lambda>pt. Inr (pt, m))"
| "pt_step (PRemove (pid, v)) (pt, m) = bindR (pt_Remove pid v pt) (\<lambda>pt. Inr (pt, m))"

lemma pt_find_new [simp]: "pt_find (newProcessTable lg n b a) v = None"
  by (simp add: pt_find_def newProcessTable_def)

lemma getTable_wf:
  assumes "pt_wf lg pt"
  obtains t pt' where "getTable pid pt = (t, pt')" "pt_wf lg pt'" "pt_tables pt' pid = Some t" "pt_pages pt' = pt_pages pt"
    "\<forall>v. pt_find t v = pt_pages pt (pid, v)"
proof (cases "pt_tables pt pid")
  case (Some t)
  then show ?thesis using that [of t pt] assms by (simp add: getTable_def pt_pages_def)
next
  case None
  let ?t = "newProcessTable (pt_log2PageSize pt) 4 9 (pt_memAllocator pt)"
  let ?pt = "pt\<lparr>pt_tables := (pt_tables pt)(pid \<mapsto> ?t)\<rparr>"
  have "table_wf lg ?t" "allocates ?t" using assms table_wf_new
    by (auto simp: pt_wf_def allocates_def newProcessTable_def total_allocator_def)
  then have "pt_wf lg ?pt" using assms by (simp add: pt_wf_def)
  moreover have "pt_pages ?pt = pt_pages pt" using None by (auto simp: pt_pages_def fun_eq_iff)
  moreover have "\<forall>v. pt_find ?t v = pt_pages pt (pid, v)" using None by (simp add: pt_pages_def)
  ultimately show ?thesis using that [of ?t ?pt] None by (simp add: getTable_def Let_def)
qed

lemma put_table_wf:
  assumes "pt_wf lg pt" "pt_tables pt pid = Some t" "table_wf lg t'" "allocates t'" "pt_find t' = (pt_find t)(v := q)"
  shows "pt_wf lg (put_table pid t' pt)" "pt_pages (put_table pid t' pt) = (pt_pages pt)((pid, v) := q)"
  using assms by (auto simp: pt_wf_def put_table_def pt_pages_def fun_eq_iff)

interpretation ptm: page_store "\<lambda>(pt, m). pt_wf lg pt" "\<lambda>(pt, m). pt_pages pt" "\<lambda>p. (pg_PID p, pg_VAddr p)"
  "\<lambda>(pid, v). canonical lg v" pt_step for lg
proof (unfold_locales, goal_cases)
  case (1 s p)
  obtain pt m where s: "s = (pt, m)" by fastforce
  obtain t pt' where g: "getTable (pg_PID p) pt = (t, pt')" "pt_wf lg pt'" "pt_tables pt' (pg_PID p) = Some t" "pt_pages pt' = pt_pages pt"
      "\<forall>v. pt_find t v = pt_pages pt (pg_PID p, v)"
    using getTable_wf [of lg pt] 1(1) s by auto
  have "pt_find t (pg_VAddr p) = None" using 1(3) g(5) by (simp add: s)
  moreover have "table_wf lg t" "allocates t" using g(2,3) by (simp_all add: pt_wf_def)
  ultimately obtain t' m' where t': "pt_insert t p m = Inr (t', m')" "table_wf lg t'" "allocates t'" "pt_find t' = (pt_find t)(pg_VAddr p \<mapsto> p)"
    using pt_insert_ok [of lg t p m] 1(2) by auto
  then show ?case using g put_table_wf [OF g(2,3) t'(2-4)] by (simp add: s pt_Insert_def)
next
  case (2 s p q)
  obtain pt m where s: "s = (pt, m)" by fastforce
  obtain t pt' where g: "getTable (pg_PID p) pt = (t, pt')" "pt_wf lg pt'" "pt_tables pt' (pg_PID p) = Some t" "pt_pages pt' = pt_pages pt"
      "\<forall>v. pt_find t v = pt_pages pt (pg_PID p, v)"
    using getTable_wf [of lg pt] 2(1) s by auto
  have "pt_find t (pg_VAddr p) = Some q" using 2(2) g(5) by (simp add: s)
  moreover have "table_wf lg t" "allocates t" using g(2,3) by (simp_all add: pt_wf_def)
  ultimately obtain t' where t': "pt_update t p = Inr t'" "table_wf lg t'" "allocates t'" "pt_find t' = (pt_find t)(pg_VAddr p \<mapsto> p)"
    using pt_update_ok [of lg t p q] by (auto simp: allocates_def)
  then show ?case using g put_table_wf [OF g(2,3) t'(2-4)] by (simp add: s pt_Update_def)
next
  case (3 s k q)
  obtain pt m pid v where s: "s = (pt, m)" "k = (pid, v)" by fastforce
  obtain t pt' where g: "getTable pid pt = (t, pt')" "pt_wf lg pt'" "pt_tables pt' pid = Some t" "pt_pages pt' = pt_pages pt"
      "\<forall>v. pt_find t v = pt_pages pt (pid, v)"
    using getTable_wf [of lg pt] 3(1) s by auto
  have "pt_find t v = Some q" using 3(2) g(5) by (simp add: s)
  moreover have "table_wf lg t" "allocates t" using g(2,3) by (simp_all add: pt_wf_def)
  ultimately obtain t' where t': "pt_remove t v = Inr t'" "table_wf lg t'" "allocates t'" "pt_find t' = (pt_find t)(v := None)"
    using pt_remove_ok [of lg t v q] by (auto simp: allocates_def)
  then show ?case using g put_table_wf [OF g(2,3) t'(2-4)] by (simp add: s pt_Remove_def)
qed

section \<open>Page walks\<close>

text \<open>The slots of the tree's nodes in physical memory: eight bytes per child, with the child's address.\<close>

inductive slot :: "treeNode \<Rightarrow> u64 \<Rightarrow> u64 \<Rightarrow> bool" where
  here: "i < length (tn_children n) \<Longrightarrow> tn_children n ! i = Some c \<Longrightarrow> slot n (tn_pAddr n + of_nat i * 8) (tn_pAddr c)"
| below: "i < length (tn_children n) \<Longrightarrow> tn_children n ! i = Some c \<Longrightarrow> slot c a x \<Longrightarrow> slot n a x"

text \<open>The memory that holds a table, and the loop of a walker: add the offset of the level, read, go to the next level.\<close>

definition table_in_memory :: "(u64 \<Rightarrow> u64) \<Rightarrow> treeNode \<Rightarrow> bool" where
  "table_in_memory mem n \<longleftrightarrow> (\<forall>a x. slot n a x \<longrightarrow> mem a = x)"

fun walk :: "(u64 \<Rightarrow> u64) \<Rightarrow> 'm processTableImpl \<Rightarrow> nat \<Rightarrow> u64 \<Rightarrow> u64 \<Rightarrow> u64" where
  "walk mem t 0 ppn vAddr = ppn"
| "walk mem t (Suc k) ppn vAddr = walk mem t k (mem (addOffset t ppn vAddr)) (nextLevel t vAddr)"

lemma addOffset_index: "addOffset t ppn v = ppn + of_nat (child_index t v) * 8"
  by (simp add: addOffset_def child_index_def)

lemma table_in_memory_child:
  "table_in_memory mem n \<Longrightarrow> i < length (tn_children n) \<Longrightarrow> tn_children n ! i = Some c \<Longrightarrow>
     mem (tn_pAddr n + of_nat i * 8) = tn_pAddr c \<and> table_in_memory mem c"
  by (auto simp: table_in_memory_def intro: slot.intros)

lemma walk_lookup:
  assumes "table_in_memory mem n" "lookup (indices k t v) n = Some leaf"
  shows "walk mem t k (tn_pAddr n) v = tn_pAddr leaf"
  using assms
proof (induction k arbitrary: n v)
  case (Suc k)
  then obtain c where c: "child_index t v < length (tn_children n)" "tn_children n ! child_index t v = Some c"
    "lookup (indices k t (drop_bit (t_bitsPerLevel t) v)) c = Some leaf"
    by (auto simp: bind_eq_Some_conv split: if_splits)
  then show ?case using table_in_memory_child [OF Suc.prems(1) c(1,2)] Suc.IH [of c] by (simp add: addOffset_index nextLevel_def)
qed simp

lemma findAddr_lookup:
  assumes "lookup (indices (Suc k) t v) n = Some c"
  shows "\<exists>d. lookup (indices k t v) n = Some d \<and> findAddr_node k t v (Some n) = Inr (addOffset t (tn_pAddr d) (drop_bit (k * t_bitsPerLevel t) v))"
  using assms
proof (induction k arbitrary: n v)
  case 0
  then show ?case by (auto simp: Let_def addOffset_index split: if_splits)
next
  case (Suc k)
  obtain ch where ch: "child_index t v < length (tn_children n)" "tn_children n ! child_index t v = Some ch"
    "lookup (indices (Suc k) t (drop_bit (t_bitsPerLevel t) v)) ch = Some c"
    using Suc.prems by (auto simp: bind_eq_Some_conv split: if_splits)
  then show ?case using Suc.IH [OF ch(3)] by (simp add: drop_bit_drop_bit add.commute)
qed

lemma lookup_append: "lookup (xs @ ys) n = Option.bind (lookup xs n) (lookup ys)"
proof (induction xs arbitrary: n)
  case (Cons x xs)
  then show ?case by (cases "tn_children n ! x") auto
qed simp

lemma indices_add: "indices (j + k) t v = indices j t v @ indices k t (drop_bit (j * t_bitsPerLevel t) v)"
  by (induction j arbitrary: v) (simp_all add: drop_bit_drop_bit add.commute)

lemma lookup_shorter:
  assumes "lookup (indices (j + k) t v) n = Some leaf"
  shows "\<exists>d. lookup (indices j t v) n = Some d"
  using assms by (auto simp: indices_add lookup_append bind_eq_Some_conv)

lemma process_walk:
  assumes "table_wf lg t" "pt_find t v = Some p"
  shows "\<exists>r n. rearrange t v = Inr r \<and> t_root t = Some n \<and> (\<forall>mem. table_in_memory mem n \<longrightarrow> walk mem t 4 (tn_pAddr n) r = pg_PAddr p \<and>
     (\<forall>k < 4. findAddr t v k = Inr (addOffset t (walk mem t k (tn_pAddr n) r) (drop_bit (k * 9) r))))"
proof -
  have st: "standard lg t" and v: "canonical lg v" using assms by (auto simp: table_wf_def)
  obtain r where r: "rearrange t v = Inr r" "indices 4 t r = page_path lg v" using rearrange_standard [OF st] by blast
  have "tree_at t (page_path lg v) = Some (TreeNode (pg_PAddr p) p [])" using assms v by (simp add: table_wf_def)
  then obtain n where n: "t_root t = Some n" "lookup (indices 4 t r) n = Some (TreeNode (pg_PAddr p) p [])"
    by (auto simp: tree_at_def bind_eq_Some_conv r(2))
  have "findAddr t v k = Inr (addOffset t (walk mem t k (tn_pAddr n) r) (drop_bit (k * 9) r))" if mem: "table_in_memory mem n" and k: "k < 4" for mem k
  proof -
    have "Suc k + (3 - k) = 4" using k by simp
    then obtain c where "lookup (indices (Suc k) t r) n = Some c" using lookup_shorter [of "Suc k" "3 - k" t r n] n(2) by auto
    then obtain d where d: "lookup (indices k t r) n = Some d" "findAddr_node k t r (Some n) = Inr (addOffset t (tn_pAddr d) (drop_bit (k * 9) r))"
      using findAddr_lookup [of k t r n c] st by (auto simp: standard_def)
    then show ?thesis using walk_lookup [OF mem d(1)] k r(1) n(1) st by (simp add: findAddr_def standard_def)
  qed
  then show ?thesis using r(1) n walk_lookup [OF _ n(2)] by auto
qed

section \<open>Properties\<close>

text \<open>
  Claim C18. The page table refines a map from process and virtual page to page: on a new table with an allocator that does
  not fail, every history of insertions of absent pages, updates and removals of present ones (virtual page numbers of up
  to 36 bits, page-aligned) runs without panic, and afterwards \<^verbatim>\<open>Find\<close> of any address of any process answers
  with what the map holds for its page.
\<close>

theorem PageTable_history:
  assumes "lg \<le> 28" "total_allocator alloc"
    and "spec_ops (\<lambda>(pid, v). canonical lg v) (\<lambda>p. (pg_PID p, pg_VAddr p)) ops Map.empty = Some M"
  shows "\<exists>pt m'. run_ops pt_step ops (SetMemoryAllocator (Some alloc) (NewPageTable lg), m) = Inr (pt, m') \<and>
    (\<forall>pid a. fst (pt_Find pid a pt) = M (pid, push_bit lg (drop_bit lg a)))"
proof -
  let ?pt = "SetMemoryAllocator (Some alloc) (NewPageTable lg)"
  have "pt_wf lg ?pt" using assms(1,2) by (simp add: pt_wf_def SetMemoryAllocator_def NewPageTable_def)
  moreover have "pt_pages ?pt = Map.empty" by (simp add: pt_pages_def SetMemoryAllocator_def NewPageTable_def fun_eq_iff)
  ultimately obtain pt m' where pt: "run_ops pt_step ops (?pt, m) = Inr (pt, m')" "pt_wf lg pt" "pt_pages pt = M"
    using ptm.run_refines [of lg "(?pt, m)" ops M] assms(3) by auto
  have "fst (pt_Find pid a pt) = M (pid, push_bit lg (drop_bit lg a))" for pid a
  proof -
    obtain t pt' where g: "getTable pid pt = (t, pt')" "pt_wf lg pt'" "\<forall>v. pt_find t v = pt_pages pt (pid, v)"
      by (rule getTable_wf [OF pt(2), of pid]) blast
    then show ?thesis using pt(3) by (simp add: pt_Find_def AlignToPage_def pt_wf_def)
  qed
  then show ?thesis using pt(1) by blast
qed

text \<open>
  Claim C20. A page walk ends where \<^verbatim>\<open>Find\<close> says: in a memory that holds the nodes of a process's tree, starting at
  \<^verbatim>\<open>GetRoot\<close> with the rearranged address and repeating \<^verbatim>\<open>AddOffset\<close>, a read and \<^verbatim>\<open>NextLevel\<close> four times gives the physical
  address of the page \<^verbatim>\<open>Find\<close> returns, and the addresses read on the way are those of \<^verbatim>\<open>FindAddr\<close>.
\<close>

theorem page_walk_agrees_with_Find:
  assumes "pt_wf lg pt" "fst (pt_Find pid v pt) = Some p" "canonical lg v"
  shows "\<exists>t r n. pt_tables pt pid = Some t \<and> fst (Rearrange v pt) = Inr r \<and> fst (GetRoot pid pt) = Inr (tn_pAddr n) \<and> t_root t = Some n \<and>
    (\<forall>mem. table_in_memory mem n \<longrightarrow> walk mem t 4 (tn_pAddr n) r = pg_PAddr p \<and>
       (\<forall>k < 4. fst (pt_FindAddr pid v k pt) = Inr (addOffset t (walk mem t k (tn_pAddr n) r) (drop_bit (k * 9) r))))"
proof -
  have "take_bit lg v = 0" using assms(3) by (simp add: canonical_def)
  then have "push_bit lg (drop_bit lg v) = v"
    using bits_ident [of lg v] by simp
  then have al: "AlignToPage pt' v = v" if "pt_log2PageSize pt' = lg" for pt' :: "'a PageTableImpl" using that by (simp add: AlignToPage_def)
  obtain t pt' where g: "getTable pid pt = (t, pt')" "pt_wf lg pt'" "pt_find t v = pt_pages pt (pid, v)"
    by (rule getTable_wf [OF assms(1), of pid]) blast
  then have f: "pt_find t v = Some p" using assms(2) al by (simp add: pt_Find_def pt_wf_def)
  then have t: "pt_tables pt pid = Some t" using g(1,3) by (auto simp: getTable_def Let_def split: option.splits)
  then have wf: "table_wf lg t" using assms(1) by (simp add: pt_wf_def)
  obtain r n where w: "rearrange t v = Inr r" "t_root t = Some n"
    "\<forall>mem. table_in_memory mem n \<longrightarrow> walk mem t 4 (tn_pAddr n) r = pg_PAddr p \<and>
     (\<forall>k < 4. findAddr t v k = Inr (addOffset t (walk mem t k (tn_pAddr n) r) (drop_bit (k * 9) r)))"
    using process_walk [OF wf f] by blast
  obtain t0 pt0 where g0: "getTable 0 pt = (t0, pt0)" "pt_wf lg pt0" "pt_tables pt0 0 = Some t0"
    by (rule getTable_wf [OF assms(1), of 0])
  have "standard lg t0" "standard lg t" using g0(2,3) wf by (auto simp: pt_wf_def table_wf_def)
  then have "rearrange t0 v = rearrange t v" by (rule rearrange_cong)
  then show ?thesis using w t g0(1) g(1) by (simp add: Rearrange_def GetRoot_def pt_FindAddr_def)
qed

definition bump :: "u64 MemoryAllocator" where
  "bump pid gpu v p m = Inr (m, m + 0x1000)"

definition page0 :: Page where
  "page0 = no_page\<lparr>pg_PID := 1, pg_VAddr := 0, pg_PAddr := 0x7000\<rparr>"

definition chain :: "u64 \<Rightarrow> treeNode \<Rightarrow> treeNode" where
  "chain a c = TreeNode a no_page ((replicate 512 None)[0 := Some c])"

lemma slot_chain: "slot (chain a c) b x \<longleftrightarrow> b = a \<and> x = tn_pAddr c \<or> slot c b x"
proof
  assume "slot (chain a c) b x"
  then show "b = a \<and> x = tn_pAddr c \<or> slot c b x"
    by cases (auto simp: chain_def nth_list_update split: if_splits)
next
  assume "b = a \<and> x = tn_pAddr c \<or> slot c b x"
  then show "slot (chain a c) b x"
    using slot.here [of 0 "chain a c" c] slot.below [of 0 "chain a c" c b x] by (auto simp: chain_def)
qed

lemma slot_leaf: "\<not> slot (TreeNode a p []) b x"
  by (auto elim: slot.cases)

definition tree0 :: treeNode where
  "tree0 = chain 0x1000 (chain 0x2000 (chain 0x3000 (chain 0x4000 (TreeNode 0x7000 page0 []))))"

lemma rearrange_loop_0: "rearrange_loop n t 0 0 = 0"
  by (induction n) simp_all

definition pt0 :: "u64 PageTableImpl" where
  "pt0 = put_table 1 ((newProcessTable 12 4 9 (Some bump))
      \<lparr>t_root := Some tree0, t_entries := [(0, page0)], t_entriesTable := [0 \<mapsto> 0], t_fresh := 1\<rparr>)
      (SetMemoryAllocator (Some bump) (NewPageTable 12))"

lemma insert0:
  "run_ops pt_step [PInsert page0] (SetMemoryAllocator (Some bump) (NewPageTable 12), 0x1000) = Inr (pt0, 0x5000)"
proof -
  let ?t = "newProcessTable 12 4 9 (Some bump)"
  have r: "rearrange ?t 0 = Inr 0"
    by (simp add: rearrange_def rearrange_loop_0 newProcessTable_def)
  have n: "newTreeNode ?t 1 0 0 p i m = Inr (TreeNode m no_page (replicate 512 None), m + 0x1000)" if "i < 3" for p i m
    using that by (simp add: newTreeNode_def bump_def newProcessTable_def)
  have l: "newTreeNode ?t 1 0 0 p 3 m = Inr (TreeNode 0 no_page [], m)" for p m
    by (simp add: newTreeNode_def newProcessTable_def)
  have x: "child_index ?t 0 = 0" by (simp add: child_index_def)
  have pg: "pg_PID page0 = 1" "pg_DeviceID page0 = 0" "pg_VAddr page0 = 0" "pg_PAddr page0 = 0x7000"
    by (simp_all add: page0_def no_page_def)
  have s3: "Suc (Suc (Suc 0)) = 3" by simp
  have i0: "insert_node 0 3 ?t page0 0 (TreeNode a no_page (replicate 512 None)) m = Inr (chain a (TreeNode 0x7000 page0 []), m)" for a m
    using l by (simp add: x pg chain_def set_child_def)
  have i1: "insert_node (Suc k) i ?t page0 0 (TreeNode a no_page (replicate 512 None)) m = 
      bindR (insert_node k (Suc i) ?t page0 0 (TreeNode m no_page (replicate 512 None)) (m + 0x1000)) (\<lambda>(c, m). Inr (chain a c, m))" if "i < 3" for k i a m
    using n [OF that] by (simp add: x pg chain_def set_child_def)
  have i2: "insert_node 1 2 ?t page0 0 (TreeNode a no_page (replicate 512 None)) m = Inr (chain a (chain m (TreeNode 0x7000 page0 [])), m + 0x1000)" for a m
    using i1 [of 2 0 a m] i0 by (simp del: insert_node.simps)
  have i3: "insert_node 2 1 ?t page0 0 (TreeNode a no_page (replicate 512 None)) m =
      Inr (chain a (chain m (chain (m + 0x1000) (TreeNode 0x7000 page0 []))), m + 0x2000)" for a m
    using i1 [of 1 1 a m] i2 by (simp del: insert_node.simps add: numeral_2_eq_2 [symmetric])
  have "insert_node 3 0 ?t page0 0 (TreeNode 0x1000 no_page (replicate 512 None)) 0x2000 = Inr (tree0, 0x5000)"
    using i1 [of 0 2 "0x1000" "0x2000"] i3 by (simp del: insert_node.simps add: tree0_def numeral_3_eq_3 [symmetric])
  then have "pt_insert ?t page0 0x1000 = Inr (?t\<lparr>t_root := Some tree0, t_entries := [(0, page0)], t_entriesTable := [0 \<mapsto> 0], t_fresh := 1\<rparr>, 0x5000)"
    using r n [of 0 0 "0x1000"] pg
    by (simp add: pt_insert_def pageMustNotExist_def newProcessTable_def)
  then show ?thesis using pg by (simp add: Let_def pt_Insert_def getTable_def SetMemoryAllocator_def NewPageTable_def pt0_def put_table_def)
qed

lemma bump_total: "total_allocator bump"
  by (simp add: total_allocator_def bump_def)

lemma pt0_wf: "pt_wf 12 pt0"
proof -
  let ?pt = "SetMemoryAllocator (Some bump) (NewPageTable 12)"
  have "pt_wf 12 ?pt" using bump_total by (simp add: pt_wf_def SetMemoryAllocator_def NewPageTable_def)
  then show ?thesis using ptm.run_refines [of 12 "(?pt, 0x1000)" "[PInsert page0]"] insert0
    by (auto simp: pt_pages_def SetMemoryAllocator_def NewPageTable_def page0_def no_page_def canonical_def)
qed

lemma tree0_memory: "table_in_memory (\<lambda>a. if a = 0x4000 then 0x7000 else a + 0x1000) tree0"
  by (auto simp: table_in_memory_def tree0_def slot_chain slot_leaf) (auto simp: chain_def)

theorem PageTable_history_witness:
  "\<exists>pt m'. run_ops pt_step [PInsert page0, PUpdate (page0\<lparr>pg_PAddr := 0x9000\<rparr>)] (SetMemoryAllocator (Some bump) (NewPageTable 12), 0x1000) = Inr (pt, m') \<and>
     fst (pt_Find 1 0x234 pt) = Some (page0\<lparr>pg_PAddr := 0x9000\<rparr>) \<and> fst (pt_Find 2 0x234 pt) = None"
proof -
  let ?p = "page0\<lparr>pg_PAddr := 0x9000\<rparr>"
  have "spec_ops (\<lambda>(pid, v). canonical 12 v) (\<lambda>p. (pg_PID p, pg_VAddr p)) [PInsert page0, PUpdate ?p] Map.empty = Some [(1, 0) \<mapsto> ?p]"
    by (simp add: page0_def no_page_def canonical_def)
  from PageTable_history [OF _ bump_total this, of "0x1000"]
  obtain pt m' where pt: "run_ops pt_step [PInsert page0, PUpdate ?p] (SetMemoryAllocator (Some bump) (NewPageTable 12), 0x1000) = Inr (pt, m')"
    "\<forall>pid a. fst (pt_Find pid a pt) = [(1, 0) \<mapsto> ?p] (pid, push_bit 12 (drop_bit 12 a))" by auto
  then show ?thesis using pt(2) [rule_format, of 1 "0x234"] pt(2) [rule_format, of 2 "0x234"] by auto
qed

theorem page_walk_agrees_with_Find_witness:
  "run_ops pt_step [PInsert page0] (SetMemoryAllocator (Some bump) (NewPageTable 12), 0x1000) = Inr (pt0, 0x5000) \<and>
   (\<exists>t mem. pt_tables pt0 1 = Some t \<and> table_in_memory mem tree0 \<and> walk mem t 4 0x1000 0 = 0x7000)"
proof -
  let ?mem = "\<lambda>a::u64. if a = 0x4000 then 0x7000 else a + 0x1000"
  have t: "pt_tables pt0 1 = Some ((newProcessTable 12 4 9 (Some bump))
      \<lparr>t_root := Some tree0, t_entries := [(0, page0)], t_entriesTable := [0 \<mapsto> 0], t_fresh := 1\<rparr>)" by (simp add: pt0_def put_table_def)
  have "fst (pt_Find 1 0 pt0) = Some page0" using t by (simp add: pt_Find_def getTable_def pt_find_def AlignToPage_def)
  from page_walk_agrees_with_Find [OF pt0_wf this] obtain t' r n where w: "pt_tables pt0 1 = Some t'" "fst (Rearrange 0 pt0) = Inr r" "t_root t' = Some n"
    "\<forall>mem. table_in_memory mem n \<longrightarrow> walk mem t' 4 (tn_pAddr n) r = pg_PAddr page0"
    by (auto simp: canonical_def)
  have "r = 0" using w(2) by (simp add: Let_def Rearrange_def getTable_def pt0_def put_table_def SetMemoryAllocator_def NewPageTable_def rearrange_def newProcessTable_def rearrange_loop_0)
  moreover have "n = tree0" using w(1,3) t by auto
  ultimately have "walk ?mem t' 4 0x1000 0 = 0x7000" using w(4) tree0_memory by (simp add: tree0_def chain_def page0_def)
  then show ?thesis using insert0 w(1) tree0_memory by blast
qed

end
