(* ===== verification/Little_Endian.thy ===== *)
theory Little_Endian
  imports Prelude
begin

text \<open>
  The little-endian encoding of machine words (\<^verbatim>\<open>mgpusim/insts/littleendian.go\<close>, which the emulator's registers and
  memory accesses use; \<^verbatim>\<open>encoding/binary\<close> has the same functions for the MMU), and that decoding undoes encoding.
\<close>

unbundle bit_operations_syntax

section \<open>Little-endian encoding\<close>

definition le_bytes :: "nat \<Rightarrow> 'a::len word \<Rightarrow> byte list" where
  "le_bytes n w = map (\<lambda>i. ucast (drop_bit (8 * i) w)) [0..<n]"

fun le_word :: "byte list \<Rightarrow> 'a::len word" where
  "le_word [] = 0"
| "le_word (b # bs) = ucast b OR push_bit 8 (le_word bs)"

definition Uint32ToBytes :: "u32 \<Rightarrow> byte list" where
  "Uint32ToBytes num = le_bytes 4 num"

definition Uint64ToBytes :: "u64 \<Rightarrow> byte list" where
  "Uint64ToBytes num = le_bytes 8 num"

definition BytesToUint32 :: "byte list \<Rightarrow> u32 result" where
  "BytesToUint32 data = (if length data < 4 then Inl IndexOutOfRange else Inr (le_word (take 4 data)))"

definition BytesToUint64 :: "byte list \<Rightarrow> u64 result" where
  "BytesToUint64 data = (if length data < 8 then Inl IndexOutOfRange else Inr (le_word (take 8 data)))"

lemma length_le_bytes [simp]: "length (le_bytes n w) = n"
  by (simp add: le_bytes_def)

lemma nth_le_bytes [simp]: "i < n \<Longrightarrow> le_bytes n w ! i = ucast (drop_bit (8 * i) w)"
  by (simp add: le_bytes_def)

lemma length_Uint_bytes [simp]: "length (Uint32ToBytes v) = 4" "length (Uint64ToBytes w) = 8"
  by (simp_all add: Uint32ToBytes_def Uint64ToBytes_def)

lemma bit_le_word:
  "bit (le_word bs :: 'a::len word) n \<longleftrightarrow> n < LENGTH('a) \<and> n div 8 < length bs \<and> bit (bs ! (n div 8)) (n mod 8)"
proof (induction bs arbitrary: n)
  case Nil
  then show ?case by simp
next
  case (Cons b bs)
  show ?case
  proof (cases "n < 8")
    case True
    then show ?thesis by (auto simp: bit_simps)
  next
    case False
    then have "n div 8 = Suc ((n - 8) div 8)" "(n - 8) mod 8 = n mod 8"
      by (simp_all add: le_div_geq le_mod_geq)
    then show ?thesis using False Cons.IH [of "n - 8"] bit_imp_le_length [of b n] by (auto simp: bit_simps)
  qed
qed

lemma le_word_le_bytes:
  "le_word (le_bytes n (w :: 'a::len word)) = (if LENGTH('b) \<le> 8 * n then ucast w else ucast (take_bit (8 * n) w) :: 'b::len word)"
  by (rule bit_word_eqI) (auto simp: bit_le_word bit_simps dest: bit_imp_le_length)

lemma le_word_le_bytes_u64 [simp]: "le_word (le_bytes 8 (w::u64)) = w" "le_word (le_bytes 4 (v::u32)) = v"
  by (simp_all add: le_word_le_bytes)

lemma BytesToUint_of [simp]:
  "BytesToUint64 (Uint64ToBytes w) = Inr w" "BytesToUint32 (Uint32ToBytes v) = Inr v"
  by (simp_all add: BytesToUint64_def Uint64ToBytes_def BytesToUint32_def Uint32ToBytes_def)

end
