(* ===== verification/MMU.thy ===== *)
theory MMU
  imports Page_Table Buffer Little_Endian
begin

text \<open>
  The memory management unit (\<^verbatim>\<open>mem/vm/mmu/mmu.go\<close>): it takes translation requests from the TLBs and walks the
  page table in memory for each, starting where the page-walk cache says. A walk is a state machine, one read per level of the
  tree. The page table is the one of \<open>Page_Table\<close> and the sender of responses the one of \<open>Buffer\<close>.

  The MMU's ports are the record \<open>mmu_io\<close>: the messages waiting in each port, the sender, and the log of messages the
  connections accepted. What is outside the component is the record \<open>mmu_env\<close>: the process-wide identifier generator (whose parallel
  implementation is a third-party package), whether a connection accepts a message after the ones it accepted before,
  and the low-module finder, which gives the name of the port that serves an address. Times of messages, tracing and the
  two floating-point averages (statistics nobody reads) are left out.
\<close>

unbundle bit_operations_syntax

section \<open>Messages and state\<close>

datatype transactionState =
  newTransaction | sentToPageWalkCache | pageWalkCacheDone | sentToMem | memDone | transactionFinished

record TranslationReq =
  tq_ID :: string
  tq_Src :: string
  tq_PID :: u32
  tq_VAddr :: u64

record transaction =
  tr_req :: TranslationReq
  tr_page :: Page
  tr_level :: nat
  tr_msgID :: string
  tr_state :: transactionState
  tr_PPN :: u64
  tr_vAddr :: u64

record 'm MMUImpl =
  mmu_pageTable :: "'m PageTableImpl"
  mmu_maxRequestsInFlight :: int
  mmu_walkingTranslations :: "transaction list"
  mmu_remoteMemAccessesInCurEpoch :: u64
  mmu_remoteMemAccessesInPrevEpoch :: u64
  mmu_memAccessesInCurEpoch :: u64
  mmu_memAccessesInPrevEpoch :: u64
  mmu_numWalksDone :: u64
  mmu_numWalksInCurEpoch :: u64
  mmu_numWalksInPrevEpoch :: u64
  mmu_lastChecked :: u64
  mmu_sendStateInfo :: bool
  mmu_interleaving :: u64

record DataReadyRspInfo =
  ri_AccessResult :: nat
  ri_Src :: string

datatype mem_msg = DataReadyRsp string "byte list option" "DataReadyRspInfo option" | WriteDoneRsp string | OtherMemMsg

datatype ctrl_msg = TLBIndexingSwitchMsg u64 | SendStatsMsg | OtherCtrlMsg

datatype top_msg = TranslationReqMsg TranslationReq | OtherTopMsg

datatype mmu_out =
    PWCRead string u32 u64
  | PWCWrite string u32 u64 "byte list"
  | MemRead string u32 u64 string
  | CollectedStats string
  | SendStats string
  | TranslationRsp string string string Page

record mmu_io =
  io_ToTop :: "top_msg list"
  io_Control :: "ctrl_msg list"
  io_PWC :: "mem_msg list"
  io_Mem :: "mem_msg list"
  io_topSender :: "mmu_out bufferImpl"
  io_sent :: "mmu_out list"
  io_nextID :: nat

record mmu_env =
  env_Generate :: "nat \<Rightarrow> string"
  env_accepts :: "mmu_out list \<Rightarrow> mmu_out \<Rightarrow> bool"
  env_Find :: "u64 \<Rightarrow> string result"

definition Generate :: "mmu_env \<Rightarrow> mmu_io \<Rightarrow> string \<times> mmu_io" where
  "Generate env io = (env_Generate env (io_nextID io), io\<lparr>io_nextID := Suc (io_nextID io)\<rparr>)"

text \<open>\<^verbatim>\<open>Send\<close> of a port: whether there was no error, and the log.\<close>

definition port_Send :: "mmu_env \<Rightarrow> mmu_out \<Rightarrow> mmu_io \<Rightarrow> bool \<times> mmu_io" where
  "port_Send env msg io = (if env_accepts env (io_sent io) msg then (True, io\<lparr>io_sent := io_sent io @ [msg]\<rparr>) else (False, io))"

text \<open>\<^verbatim>\<open>strings.Split\<close> for a separator of one character.\<close>

fun Split :: "char \<Rightarrow> string \<Rightarrow> string list" where
  "Split sep [] = [[]]"
| "Split sep (c # s) =
     (if c = sep then [] # Split sep s else case Split sep s of [] \<Rightarrow> [[c]] | w # ws \<Rightarrow> (c # w) # ws)"

section \<open>Sending the requests of a walk\<close>

definition sendToPageWalkCache ::
    "mmu_env \<Rightarrow> transaction \<Rightarrow> 'm MMUImpl \<Rightarrow> mmu_io \<Rightarrow> (transaction \<times> 'm MMUImpl \<times> mmu_io) result" where
  "sendToPageWalkCache env tr mmu io =
     (if tr_state tr \<noteq> newTransaction then Inl (Panic ''this state shouldn't be here!'')
      else let (ident, io) = Generate env io;
               readReq = PWCRead ident (tq_PID (tr_req tr)) (AlignToPage (mmu_pageTable mmu) (tq_VAddr (tr_req tr)));
               (_, io) = port_Send env readReq io
           in Inr (tr\<lparr>tr_msgID := ident, tr_state := sentToPageWalkCache\<rparr>, mmu, io))"

definition sendToMem ::
    "mmu_env \<Rightarrow> transaction \<Rightarrow> 'm MMUImpl \<Rightarrow> mmu_io \<Rightarrow> (transaction \<times> 'm MMUImpl \<times> mmu_io) result" where
  "sendToMem env tr mmu io =
     (if tr_state tr \<noteq> pageWalkCacheDone \<and> tr_state tr \<noteq> memDone then Inl (Panic ''this state shouldn't be here!'')
      else let (ppnWithOffset, pt) = AddOffset (tr_PPN tr) (tr_vAddr tr) (mmu_pageTable mmu);
               (vAddr, pt) = NextLevel (tr_vAddr tr) pt;
               mmu = mmu\<lparr>mmu_pageTable := pt\<rparr>
           in bindR (env_Find env ppnWithOffset) (\<lambda>dstPort.
              let (ident, io) = Generate env io;
                  readReq = MemRead ident (tq_PID (tr_req tr)) ppnWithOffset dstPort;
                  (_, io) = port_Send env readReq io;
                  tr = tr\<lparr>tr_vAddr := vAddr, tr_msgID := ident, tr_state := sentToMem\<rparr>
              in bindR (slice_get (Split CHR ''.'' dstPort) 2) (\<lambda>dstType.
                 let mmu = (if dstType = ''ChipRDMA''
                            then mmu\<lparr>mmu_remoteMemAccessesInCurEpoch := mmu_remoteMemAccessesInCurEpoch mmu + 1\<rparr> else mmu)
                 in Inr (tr, mmu\<lparr>mmu_memAccessesInCurEpoch := mmu_memAccessesInCurEpoch mmu + 1\<rparr>, io))))"

text \<open>
  The loop of \<^verbatim>\<open>walkPageTable\<close>, which compacts the slice in place: position \<open>i\<close> is read before anything is written
  to it, so the elements kept are those that are not finished after their step.
\<close>

definition walk_one ::
    "mmu_env \<Rightarrow> transaction \<Rightarrow> 'm MMUImpl \<Rightarrow> mmu_io \<Rightarrow> (transaction \<times> 'm MMUImpl \<times> mmu_io) result" where
  "walk_one env tr mmu io =
     (case tr_state tr of
        newTransaction \<Rightarrow> sendToPageWalkCache env tr mmu io
      | pageWalkCacheDone \<Rightarrow> sendToMem env tr mmu io
      | memDone \<Rightarrow> sendToMem env tr mmu io
      | _ \<Rightarrow> Inr (tr, mmu, io))"

definition count_finished :: "'m MMUImpl \<Rightarrow> 'm MMUImpl" where
  "count_finished mmu =
     (let mmu = mmu\<lparr>mmu_numWalksDone := mmu_numWalksDone mmu + 1\<rparr>;
          mmu = (if mmu_numWalksDone mmu = 1200 \<and> \<not> mmu_sendStateInfo mmu \<and> mmu_interleaving mmu = 12
                 then mmu\<lparr>mmu_numWalksDone := 0, mmu_lastChecked := 0, mmu_sendStateInfo := True\<rparr> else mmu)
      in mmu\<lparr>mmu_numWalksInCurEpoch := mmu_numWalksInCurEpoch mmu + 1\<rparr>)"

fun walk_loop ::
    "mmu_env \<Rightarrow> transaction list \<Rightarrow> transaction list \<Rightarrow> 'm MMUImpl \<Rightarrow> mmu_io \<Rightarrow> ('m MMUImpl \<times> mmu_io) result" where
  "walk_loop env [] tmp mmu io = Inr (mmu\<lparr>mmu_walkingTranslations := tmp\<rparr>, io)"
| "walk_loop env (tr # rest) tmp mmu io =
     bindR (walk_one env tr mmu io) (\<lambda>(tr, mmu, io).
       if tr_state tr \<noteq> transactionFinished then walk_loop env rest (tmp @ [tr]) mmu io
       else walk_loop env rest tmp (count_finished mmu) io)"

definition walkPageTable :: "mmu_env \<Rightarrow> 'm MMUImpl \<Rightarrow> mmu_io \<Rightarrow> (bool \<times> 'm MMUImpl \<times> mmu_io) result" where
  "walkPageTable env mmu io =
     bindR (walk_loop env (mmu_walkingTranslations mmu) [] mmu io) (\<lambda>(mmu', io').
       Inr (length (mmu_walkingTranslations mmu) > 0, mmu', io'))"

section \<open>Handling the answers\<close>

text \<open>A loop over the transactions that replaces each by what the body makes of it.\<close>

fun for_each ::
    "(transaction \<Rightarrow> 'm MMUImpl \<Rightarrow> mmu_io \<Rightarrow> (transaction \<times> 'm MMUImpl \<times> mmu_io) result) \<Rightarrow> transaction list \<Rightarrow>
     'm MMUImpl \<Rightarrow> mmu_io \<Rightarrow> (transaction list \<times> 'm MMUImpl \<times> mmu_io) result" where
  "for_each body [] mmu io = Inr ([], mmu, io)"
| "for_each body (tr # rest) mmu io =
     bindR (body tr mmu io) (\<lambda>(tr, mmu, io).
     bindR (for_each body rest mmu io) (\<lambda>(rest, mmu, io). Inr (tr # rest, mmu, io)))"

definition pwc_answer ::
    "byte list option \<Rightarrow> transaction \<Rightarrow> 'm MMUImpl \<Rightarrow> mmu_io \<Rightarrow> (transaction \<times> 'm MMUImpl \<times> mmu_io) result" where
  "pwc_answer data tr mmu io =
     (case data of
        None \<Rightarrow> Inr (tr\<lparr>tr_state := pageWalkCacheDone\<rparr>, mmu, io)
      | Some d \<Rightarrow>
          bindR (BytesToUint64 d) (\<lambda>rspData.
            let level = unat (rspData AND 3);
                (vAddr, pt) = MoveToLevel (tr_vAddr tr) (level + 1) (mmu_pageTable mmu)
            in Inr (tr\<lparr>tr_PPN := rspData AND NOT 3, tr_vAddr := vAddr, tr_level := level + 1, tr_state := pageWalkCacheDone\<rparr>,
                    mmu\<lparr>mmu_pageTable := pt\<rparr>, io)))"

definition handlePageWalkCacheResponse ::
    "string \<Rightarrow> byte list option \<Rightarrow> 'm MMUImpl \<Rightarrow> mmu_io \<Rightarrow> ('m MMUImpl \<times> mmu_io) result" where
  "handlePageWalkCacheResponse respondTo data mmu io =
     bindR (for_each (\<lambda>tr mmu io. if tr_msgID tr = respondTo then pwc_answer data tr mmu io else Inr (tr, mmu, io))
              (mmu_walkingTranslations mmu) mmu io) (\<lambda>(ts, mmu, io). Inr (mmu\<lparr>mmu_walkingTranslations := ts\<rparr>, io))"

definition getAccessResultString :: "nat \<Rightarrow> string result" where
  "getAccessResultString accessResult =
     (if accessResult = 0 then Inr ''read-hit'' else if accessResult = 1 then Inr ''read-miss''
      else if accessResult = 2 then Inr ''read-mshr-hit'' else Inl (Panic ''unknown access type''))"

definition getChipletNum :: "string \<Rightarrow> string result" where
  "getChipletNum component =
     bindR (slice_get (Split CHR ''_'' component) 1) (\<lambda>s. if length s < 2 then Inl IndexOutOfRange else Inr [s ! 1])"

definition doPageWalkHit :: "mmu_env \<Rightarrow> transaction \<Rightarrow> mmu_io \<Rightarrow> (bool \<times> mmu_io) result" where
  "doPageWalkHit env walking io =
     bindR (CanSend bufferImpl (io_topSender io) 1) (\<lambda>can.
       if \<not> can then Inr (False, io)
       else let (ident, io) = Generate env io;
                rsp = TranslationRsp ident (tq_Src (tr_req walking)) (tq_ID (tr_req walking)) (tr_page walking)
            in bindR (Sender_Send bufferImpl rsp (io_topSender io)) (\<lambda>b. Inr (True, io\<lparr>io_topSender := b\<rparr>)))"

definition finalizeTransaction ::
    "mmu_env \<Rightarrow> transaction \<Rightarrow> 'm MMUImpl \<Rightarrow> mmu_io \<Rightarrow> (transaction \<times> 'm MMUImpl \<times> mmu_io) result" where
  "finalizeTransaction env tr mmu io =
     (let req = tr_req tr; (found, pt) = pt_Find (tq_PID req) (tq_VAddr req) (mmu_pageTable mmu); mmu = mmu\<lparr>mmu_pageTable := pt\<rparr>
      in case found of
           None \<Rightarrow> Inl (Panic ''page not found'')
         | Some page \<Rightarrow>
             if tr_PPN tr \<noteq> pg_PAddr page then Inl (Panic ''addresses don't match!'')
             else let newPage = no_page\<lparr>pg_PID := tq_PID req, pg_VAddr := tq_VAddr req, pg_PAddr := tr_PPN tr, pg_Valid := True\<rparr>;
                      tr = tr\<lparr>tr_page := newPage, tr_state := transactionFinished\<rparr>
                  in bindR (doPageWalkHit env tr io) (\<lambda>(_, io). Inr (tr, mmu, io)))"

definition fillPageWalkCache ::
    "mmu_env \<Rightarrow> transaction \<Rightarrow> 'm MMUImpl \<Rightarrow> mmu_io \<Rightarrow> transaction \<times> 'm MMUImpl \<times> mmu_io" where
  "fillPageWalkCache env tr mmu io =
     (let level = of_nat (tr_level tr) :: u64;
          data = Uint64ToBytes (tr_PPN tr OR level);
          (ident, io) = Generate env io;
          writeReq = PWCWrite ident (tq_PID (tr_req tr)) (AlignToPage (mmu_pageTable mmu) (tq_VAddr (tr_req tr)) OR level) data;
          (_, io) = port_Send env writeReq io
      in (tr\<lparr>tr_msgID := ident\<rparr>, mmu, io))"

definition mem_answer ::
    "mmu_env \<Rightarrow> byte list option \<Rightarrow> DataReadyRspInfo option \<Rightarrow> transaction \<Rightarrow> 'm MMUImpl \<Rightarrow> mmu_io \<Rightarrow>
     (transaction \<times> 'm MMUImpl \<times> mmu_io) result" where
  "mem_answer env data info tr mmu io =
     (case info of
        None \<Rightarrow> Inl (Panic ''interface conversion'')
      | Some rspInfo \<Rightarrow>
          bindR (getChipletNum (ri_Src rspInfo)) (\<lambda>_.
          bindR (getAccessResultString (ri_AccessResult rspInfo)) (\<lambda>_.
          bindR (BytesToUint64 (case data of None \<Rightarrow> [] | Some d \<Rightarrow> d)) (\<lambda>ppn.
            let tr = tr\<lparr>tr_PPN := ppn, tr_state := memDone\<rparr>
            in bindR (if tr_level tr + 1 = 4 then finalizeTransaction env tr mmu io
                      else Inr (fillPageWalkCache env tr mmu io)) (\<lambda>(tr, mmu, io).
               Inr (tr\<lparr>tr_level := tr_level tr + 1\<rparr>, mmu, io))))))"

definition handleMemResponse ::
    "mmu_env \<Rightarrow> string \<Rightarrow> byte list option \<Rightarrow> DataReadyRspInfo option \<Rightarrow> 'm MMUImpl \<Rightarrow> mmu_io \<Rightarrow> ('m MMUImpl \<times> mmu_io) result" where
  "handleMemResponse env respondTo data info mmu io =
     bindR (for_each (\<lambda>tr mmu io. if tr_msgID tr = respondTo then mem_answer env data info tr mmu io else Inr (tr, mmu, io))
              (mmu_walkingTranslations mmu) mmu io) (\<lambda>(ts, mmu, io). Inr (mmu\<lparr>mmu_walkingTranslations := ts\<rparr>, io))"

definition parseFromPageWalkCache :: "'m MMUImpl \<Rightarrow> mmu_io \<Rightarrow> (bool \<times> 'm MMUImpl \<times> mmu_io) result" where
  "parseFromPageWalkCache mmu io =
     (case io_PWC io of
        [] \<Rightarrow> Inr (False, mmu, io)
      | item # rest \<Rightarrow>
          (case item of
             DataReadyRsp respondTo data _ \<Rightarrow>
               bindR (handlePageWalkCacheResponse respondTo data mmu io) (\<lambda>(mmu, io). Inr (True, mmu, io\<lparr>io_PWC := rest\<rparr>))
           | WriteDoneRsp _ \<Rightarrow> Inr (True, mmu, io\<lparr>io_PWC := rest\<rparr>)
           | OtherMemMsg \<Rightarrow> Inl (Panic ''unknown message type'')))"

definition parseFromMem :: "mmu_env \<Rightarrow> 'm MMUImpl \<Rightarrow> mmu_io \<Rightarrow> (bool \<times> 'm MMUImpl \<times> mmu_io) result" where
  "parseFromMem env mmu io =
     (case io_Mem io of
        [] \<Rightarrow> Inr (False, mmu, io)
      | item # rest \<Rightarrow>
          (case item of
             DataReadyRsp respondTo data info \<Rightarrow>
               bindR (handleMemResponse env respondTo data info mmu io) (\<lambda>(mmu, io). Inr (True, mmu, io\<lparr>io_Mem := rest\<rparr>))
           | _ \<Rightarrow> Inl (Panic ''unknown message type'')))"

section \<open>Requests, control messages and the tick\<close>

definition startWalking :: "TranslationReq \<Rightarrow> 'm MMUImpl \<Rightarrow> 'm MMUImpl result" where
  "startWalking req mmu =
     (let (rearranged, pt) = Rearrange (tq_VAddr req) (mmu_pageTable mmu)
      in bindR rearranged (\<lambda>rearrangedVAddr.
         let (root, pt) = GetRoot (tq_PID req) pt
         in bindR root (\<lambda>root.
            Inr (mmu\<lparr>mmu_pageTable := pt, mmu_walkingTranslations := mmu_walkingTranslations mmu @
              [\<lparr>tr_req = req, tr_page = no_page, tr_level = 0, tr_msgID = ''invalid'', tr_state = newTransaction,
                tr_PPN = root, tr_vAddr = rearrangedVAddr\<rparr>]\<rparr>))))"

definition parseFromTop :: "'m MMUImpl \<Rightarrow> mmu_io \<Rightarrow> (bool \<times> 'm MMUImpl \<times> mmu_io) result" where
  "parseFromTop mmu io =
     (if int (length (mmu_walkingTranslations mmu)) \<ge> mmu_maxRequestsInFlight mmu then Inr (False, mmu, io)
      else case io_ToTop io of
             [] \<Rightarrow> Inr (False, mmu, io)
           | req # rest \<Rightarrow>
               (case req of
                  TranslationReqMsg req \<Rightarrow> bindR (startWalking req mmu) (\<lambda>mmu. Inr (True, mmu, io\<lparr>io_ToTop := rest\<rparr>))
                | OtherTopMsg \<Rightarrow> Inl (Panic ''MMU canot handle request of type'')))"

definition switchIndexing :: "u64 \<Rightarrow> 'm MMUImpl \<Rightarrow> 'm MMUImpl" where
  "switchIndexing tlbInterleaving mmu =
     mmu\<lparr>mmu_numWalksDone := 0, mmu_lastChecked := 0, mmu_remoteMemAccessesInCurEpoch := 0, mmu_remoteMemAccessesInPrevEpoch := 0,
         mmu_memAccessesInCurEpoch := 0, mmu_memAccessesInPrevEpoch := 0, mmu_numWalksInCurEpoch := 0, mmu_numWalksInPrevEpoch := 0,
         mmu_sendStateInfo := (tlbInterleaving \<noteq> 12), mmu_interleaving := tlbInterleaving\<rparr>"

definition sendCollectedStatsToCP :: "mmu_env \<Rightarrow> mmu_io \<Rightarrow> (bool \<times> mmu_io) result" where
  "sendCollectedStatsToCP env io =
     (let (ident, io) = Generate env io; (accepted, io) = port_Send env (CollectedStats ident) io
      in if \<not> accepted then Inl (Panic ''could not send stats to CP!'') else Inr (True, io\<lparr>io_Control := tl (io_Control io)\<rparr>))"

definition performCtrlReq :: "mmu_env \<Rightarrow> 'm MMUImpl \<Rightarrow> mmu_io \<Rightarrow> (bool \<times> 'm MMUImpl \<times> mmu_io) result" where
  "performCtrlReq env mmu io =
     (case io_Control io of
        [] \<Rightarrow> Inr (False, mmu, io)
      | item # _ \<Rightarrow>
          bindR (case item of
                   TLBIndexingSwitchMsg i \<Rightarrow> Inr (True, switchIndexing i mmu, io)
                 | SendStatsMsg \<Rightarrow> bindR (sendCollectedStatsToCP env io) (\<lambda>(progress, io). Inr (progress, mmu, io))
                 | OtherCtrlMsg \<Rightarrow> Inl (Panic ''cannot process request''))
            (\<lambda>(madeProgress, mmu, io).
               if madeProgress then Inr (True, mmu, io\<lparr>io_Control := tl (io_Control io)\<rparr>) else Inl (Panic ''something is wrong!'')))"

definition sendMsgToCP :: "mmu_env \<Rightarrow> 'm MMUImpl \<Rightarrow> mmu_io \<Rightarrow> (bool \<times> mmu_io) result" where
  "sendMsgToCP env mmu io =
     (if \<not> mmu_sendStateInfo mmu then Inl (Panic ''how are we sending a message to CP when we shouldn't be?!'')
      else let (ident, io) = Generate env io; (_, io) = port_Send env (SendStats ident) io in Inr (True, io))"

definition sendTranlationRsp :: "mmu_env \<Rightarrow> transaction \<Rightarrow> mmu_io \<Rightarrow> (bool \<times> mmu_io) result" where
  "sendTranlationRsp env tr io =
     (let (ident, io) = Generate env io;
          rsp = TranslationRsp ident (tq_Src (tr_req tr)) (tq_ID (tr_req tr)) (tr_page tr)
      in bindR (Sender_Send bufferImpl rsp (io_topSender io)) (\<lambda>b. Inr (True, io\<lparr>io_topSender := b\<rparr>)))"

definition GetNumActiveWalkers :: "'m MMUImpl \<Rightarrow> nat" where
  "GetNumActiveWalkers mmu = length (mmu_walkingTranslations mmu)"

text \<open>\<^verbatim>\<open>topSender.Tick\<close>; the time it writes into the message is not modelled.\<close>

definition topSender_Tick :: "mmu_env \<Rightarrow> mmu_io \<Rightarrow> bool \<times> mmu_io" where
  "topSender_Tick env io =
     (case Sender_Tick bufferImpl (port_Send env) () (io_topSender io) (\<lambda>_. ()) io of
        (progress, b, _, io) \<Rightarrow> (progress, io\<lparr>io_topSender := b\<rparr>))"

definition mmu_Tick :: "mmu_env \<Rightarrow> 'm MMUImpl \<Rightarrow> mmu_io \<Rightarrow> (bool \<times> 'm MMUImpl \<times> mmu_io) result" where
  "mmu_Tick env mmu io =
     bindR (performCtrlReq env mmu io) (\<lambda>(_, mmu, io).
     let (_, io) = topSender_Tick env io in
     bindR (walkPageTable env mmu io) (\<lambda>(_, mmu, io).
     bindR (parseFromPageWalkCache mmu io) (\<lambda>(_, mmu, io).
     bindR (parseFromMem env mmu io) (\<lambda>(_, mmu, io).
     bindR (parseFromTop mmu io) (\<lambda>(_, mmu, io). Inr (True, mmu, io))))))"

text \<open>What the builder makes; its ports are empty.\<close>

definition mmu_Build :: "'m PageTableImpl option \<Rightarrow> int \<Rightarrow> ('m MMUImpl \<times> mmu_io) result" where
  "mmu_Build pageTable maxNumReqInFlight =
     (case pageTable of
        None \<Rightarrow> Inl (Panic ''no page table!'')
      | Some pt \<Rightarrow>
          Inr (\<lparr>mmu_pageTable = pt, mmu_maxRequestsInFlight = maxNumReqInFlight, mmu_walkingTranslations = [],
                 mmu_remoteMemAccessesInCurEpoch = 0, mmu_remoteMemAccessesInPrevEpoch = 0, mmu_memAccessesInCurEpoch = 0,
                 mmu_memAccessesInPrevEpoch = 0, mmu_numWalksDone = 0, mmu_numWalksInCurEpoch = 0, mmu_numWalksInPrevEpoch = 0,
                 mmu_lastChecked = 0, mmu_sendStateInfo = False, mmu_interleaving = 0\<rparr>,
               \<lparr>io_ToTop = [], io_Control = [], io_PWC = [], io_Mem = [], io_topSender = NewBuffer 4096, io_sent = [], io_nextID = 0\<rparr>))"

end
