(* ===== verification/MMU_Walks.thy ===== *)
theory MMU_Walks
  imports MMU
begin

text \<open>
  What the MMU computes. The invariant \<open>mmu_inv\<close> says where every transaction stands on the path of its address through the
  tree of \<open>Page_Table\<close>, and that every message under way belongs to the walk that waits for it; every operation of \<open>MMU\<close>
  and every answer of the memory and the page-walk cache keeps it. The consequences are that a tick never panics, in
  particular not with ``page not found'' or ``addresses don't match!'', and that responses are right.
\<close>

unbundle bit_operations_syntax

section \<open>The tree a walk follows\<close>

definition root_of :: "'m PageTableImpl \<Rightarrow> u32 \<Rightarrow> treeNode option" where
  "root_of pt pid = Option.bind (pt_tables pt pid) t_root"

definition mapped :: "nat \<Rightarrow> (u32 \<times> u64 \<rightharpoonup> Page) \<Rightarrow> TranslationReq set \<Rightarrow> TranslationReq \<Rightarrow> Page \<Rightarrow> bool" where
  "mapped lg M Q req p \<longleftrightarrow> req \<in> Q \<and> M (tq_PID req, push_bit lg (drop_bit lg (tq_VAddr req))) = Some p"

definition node_at :: "nat \<Rightarrow> (u32 \<Rightarrow> treeNode option) \<Rightarrow> TranslationReq \<Rightarrow> nat \<Rightarrow> treeNode option" where
  "node_at lg R req k = Option.bind (R (tq_PID req)) (lookup (take k (page_path lg (tq_VAddr req))))"

definition naddr :: "nat \<Rightarrow> (u32 \<Rightarrow> treeNode option) \<Rightarrow> TranslationReq \<Rightarrow> nat \<Rightarrow> u64" where
  "naddr lg R req k = (case node_at lg R req k of None \<Rightarrow> 0 | Some n \<Rightarrow> tn_pAddr n)"

text \<open>The rearranged address of a virtual address, and what is left of it after \<open>k\<close> levels.\<close>

definition rear :: "nat \<Rightarrow> u64 \<Rightarrow> u64" where
  "rear lg v = projr (rearrange (newProcessTable lg 4 9 None :: unit processTableImpl) v)"

definition vaddr_at :: "nat \<Rightarrow> TranslationReq \<Rightarrow> nat \<Rightarrow> u64" where
  "vaddr_at lg req k = drop_bit (9 * k) (rear lg (tq_VAddr req))"

definition slot_addr :: "nat \<Rightarrow> (u32 \<Rightarrow> treeNode option) \<Rightarrow> TranslationReq \<Rightarrow> nat \<Rightarrow> u64" where
  "slot_addr lg R req k = naddr lg R req k + of_nat (page_path lg (tq_VAddr req) ! k) * 8"

definition pt_ok :: "nat \<Rightarrow> (u32 \<times> u64 \<rightharpoonup> Page) \<Rightarrow> (u32 \<Rightarrow> treeNode option) \<Rightarrow> 'm PageTableImpl \<Rightarrow> bool" where
  "pt_ok lg M R pt \<longleftrightarrow> pt_wf lg pt \<and> pt_pages pt = M \<and> root_of pt = R"

lemma page_path_align: "page_path lg (push_bit lg (drop_bit lg v)) = page_path lg v"
proof -
  have "drop_bit (9 * i + lg) (push_bit lg (drop_bit lg v)) = drop_bit (9 * i + lg) v" for i
    by (rule bit_word_eqI) (auto simp: bit_simps ac_simps dest: bit_imp_le_length)
  then show ?thesis by (simp add: page_path_def)
qed

lemma rear_standard:
  assumes "standard lg t"
  shows "rearrange t v = Inr (rear lg v)" "indices 4 t (rear lg v) = page_path lg v"
proof -
  have st: "standard lg (newProcessTable lg 4 9 None :: unit processTableImpl)" using assms by (intro standard_new) (simp add: standard_def)
  obtain r where r: "rearrange t v = Inr r" "indices 4 t r = page_path lg v" using rearrange_standard [OF assms] by blast
  moreover have "rearrange (newProcessTable lg 4 9 None :: unit processTableImpl) v = rearrange t v" by (rule rearrange_cong [OF st assms])
  ultimately show "rearrange t v = Inr (rear lg v)" "indices 4 t (rear lg v) = page_path lg v" by (simp_all add: rear_def)
qed

lemma child_index_path:
  assumes "standard lg t" "k < 4"
  shows "child_index t (vaddr_at lg req k) = page_path lg (tq_VAddr req) ! k"
proof -
  have "indices 4 t (rear lg (tq_VAddr req)) ! k = unat (take_bit 9 (drop_bit (9 * k) (rear lg (tq_VAddr req))))"
    unfolding indices_standard [OF assms(1)] using assms(2) by simp
  moreover have "child_index t v = unat (take_bit 9 v)" for v using assms(1) by (simp add: standard_def child_index_def take_bit_eq_mask)
  ultimately show ?thesis using rear_standard(2) [OF assms(1)] by (simp add: vaddr_at_def)
qed

lemma getTable_ok:
  assumes "pt_ok lg M R pt" "getTable pid pt = (t, pt')"
  shows "pt_ok lg M R pt'" "standard lg t" "t_root t = R pid" "\<forall>v. pt_find t v = M (pid, v)" "pt_log2PageSize pt' = lg"
proof -
  obtain u pt1 where g: "getTable pid pt = (u, pt1)" "pt_wf lg pt1" "pt_tables pt1 pid = Some u" "pt_pages pt1 = pt_pages pt"
    "\<forall>v. pt_find u v = pt_pages pt (pid, v)"
    by (rule getTable_wf [of lg pt pid]) (use assms(1) in \<open>simp add: pt_ok_def\<close>)
  then have e: "u = t" "pt1 = pt'" using assms(2) by simp_all
  have r: "root_of pt' = root_of pt" "t_root t = root_of pt pid"
    using assms(2) by (auto simp: getTable_def root_of_def fun_eq_iff newProcessTable_def Let_def split: option.splits)
  then show "pt_ok lg M R pt'" "t_root t = R pid" "\<forall>v. pt_find t v = M (pid, v)" using g e assms(1) by (simp_all add: pt_ok_def)
  show "standard lg t" "pt_log2PageSize pt' = lg" using g(2,3) e by (auto simp: pt_wf_def table_wf_def)
qed

lemma AddOffset_ok:
  assumes "pt_ok lg M R pt" "k < 4"
  shows "\<exists>pt'. AddOffset a (vaddr_at lg req k) pt = (a + of_nat (page_path lg (tq_VAddr req) ! k) * 8, pt') \<and> pt_ok lg M R pt'"
proof -
  obtain t pt' where g: "getTable 0 pt = (t, pt')" by fastforce
  then show ?thesis using getTable_ok [OF assms(1) g] child_index_path [OF getTable_ok(2) [OF assms(1) g] assms(2), of req] by (simp add: AddOffset_def addOffset_index)
qed

lemma NextLevel_ok:
  assumes "pt_ok lg M R pt"
  shows "\<exists>pt'. NextLevel v pt = (drop_bit 9 v, pt') \<and> pt_ok lg M R pt'"
proof -
  obtain t pt' where g: "getTable 0 pt = (t, pt')" by fastforce
  then show ?thesis using getTable_ok [OF assms g] by (simp add: NextLevel_def nextLevel_def standard_def)
qed

lemma MoveToLevel_ok:
  "pt_ok lg M R pt \<Longrightarrow> \<exists>pt'. MoveToLevel v k pt = (drop_bit (9 * k) v, pt') \<and> pt_ok lg M R pt'"
proof (induction k arbitrary: v pt)
  case (Suc k)
  obtain pt1 where 1: "NextLevel v pt = (drop_bit 9 v, pt1)" "pt_ok lg M R pt1" using NextLevel_ok [OF Suc.prems] by blast
  then show ?case using Suc.IH [OF 1(2), of "drop_bit 9 v"] by (simp add: drop_bit_drop_bit add.commute)
qed simp

lemma Rearrange_ok:
  assumes "pt_ok lg M R pt"
  shows "\<exists>pt'. Rearrange v pt = (Inr (rear lg v), pt') \<and> pt_ok lg M R pt'"
proof -
  obtain t pt' where g: "getTable 0 pt = (t, pt')" by fastforce
  then show ?thesis using getTable_ok [OF assms g] rear_standard(1) by (simp add: Rearrange_def)
qed

lemma pt_Find_ok:
  assumes "pt_ok lg M R pt"
  shows "\<exists>pt'. pt_Find pid v pt = (M (pid, push_bit lg (drop_bit lg v)), pt') \<and> pt_ok lg M R pt'"
proof -
  obtain t pt' where g: "getTable pid pt = (t, pt')" by fastforce
  then show ?thesis using getTable_ok [OF assms g] by (simp add: pt_Find_def AlignToPage_def)
qed

lemma mapped_path:
  assumes "pt_ok lg M R pt" "mapped lg M Q req p"
  shows "node_at lg R req 4 = Some (TreeNode (pg_PAddr p) p [])"
proof -
  let ?v = "push_bit lg (drop_bit lg (tq_VAddr req))" and ?pid = "tq_PID req"
  have "pt_pages pt (?pid, ?v) = Some p" using assms by (simp add: pt_ok_def mapped_def)
  then obtain t where t: "pt_tables pt ?pid = Some t" "pt_find t ?v = Some p" by (auto simp: pt_pages_def bind_eq_Some_conv)
  then have wf: "table_wf lg t" using assms(1) by (simp add: pt_ok_def pt_wf_def)
  then have "tree_at t (page_path lg ?v) = Some (TreeNode (pg_PAddr p) p [])" using t(2) by (simp add: table_wf_def)
  moreover have "R ?pid = t_root t" using assms(1) t(1) by (auto simp: pt_ok_def root_of_def)
  ultimately show ?thesis by (simp add: node_at_def tree_at_def page_path_align)
qed

lemma GetRoot_ok:
  assumes "pt_ok lg M R pt" "mapped lg M Q req p"
  shows "\<exists>pt'. GetRoot (tq_PID req) pt = (Inr (naddr lg R req 0), pt') \<and> pt_ok lg M R pt'"
proof -
  obtain t pt' where g: "getTable (tq_PID req) pt = (t, pt')" by fastforce
  obtain n where "R (tq_PID req) = Some n" using mapped_path [OF assms] by (cases "R (tq_PID req)") (auto simp: node_at_def)
  then show ?thesis using g getTable_ok [OF assms(1) g] by (simp add: GetRoot_def naddr_def node_at_def)
qed

lemma table_in_memory_lookup: "table_in_memory mem n \<Longrightarrow> lookup js n = Some c \<Longrightarrow> table_in_memory mem c"
proof (induction js arbitrary: n)
  case (Cons j js)
  then obtain d where "j < length (tn_children n)" "tn_children n ! j = Some d" "lookup js d = Some c"
    by (auto simp: bind_eq_Some_conv split: if_splits)
  then show ?case using Cons.IH table_in_memory_child [OF Cons.prems(1)] by blast
qed simp

text \<open>Reading the slot of a level gives the address of the node of the next level.\<close>

lemma slot_read:
  assumes "node_at lg R req 4 = Some leaf" "k < 4" "\<forall>pid n. R pid = Some n \<longrightarrow> table_in_memory mem n"
  shows "mem (slot_addr lg R req k) = naddr lg R req (Suc k)"
proof -
  let ?path = "page_path lg (tq_VAddr req)"
  obtain n where n: "R (tq_PID req) = Some n" "lookup ?path n = Some leaf" using assms(1) by (auto simp: node_at_def bind_eq_Some_conv)
  have "take (Suc k) ?path = take k ?path @ [?path ! k]" using assms(2) by (simp add: take_Suc_conv_app_nth)
  moreover have "?path = take (Suc k) ?path @ drop (Suc k) ?path" by simp
  ultimately have "lookup (take k ?path @ ?path ! k # drop (Suc k) ?path) n = Some leaf" using n(2) by (metis append.assoc append_Cons append_Nil)
  then obtain d where d: "lookup (take k ?path) n = Some d" "lookup (?path ! k # drop (Suc k) ?path) d = Some leaf"
    by (auto simp: lookup_append bind_eq_Some_conv)
  then obtain c where c: "?path ! k < length (tn_children d)" "tn_children d ! (?path ! k) = Some c"
    by (auto simp: bind_eq_Some_conv split: if_splits)
  have "lookup (take (Suc k) ?path) n = Some c"
    using d(1) c assms(2) by (simp add: take_Suc_conv_app_nth lookup_append)
  moreover have "mem (tn_pAddr d + of_nat (?path ! k) * 8) = tn_pAddr c"
    using table_in_memory_child [OF table_in_memory_lookup [OF _ d(1)] c] assms(3) n(1) by blast
  ultimately show ?thesis using n(1) d(1) by (simp add: slot_addr_def naddr_def node_at_def)
qed

section \<open>What surrounds the MMU\<close>

text \<open>
  What the MMU relies on: identifiers are unique and not the placeholder of a new walk, the finder knows a port for every
  address with a name of at least three parts, the command processor takes the statistics, and the memory holds the page
  tables, whose nodes are aligned (the page-walk cache keeps the level in the low bits of a node's address).
\<close>

definition mmu_world :: "mmu_env \<Rightarrow> (u64 \<Rightarrow> u64) \<Rightarrow> nat \<Rightarrow> (u32 \<Rightarrow> treeNode option) \<Rightarrow> bool" where
  "mmu_world env mem lg R \<longleftrightarrow> 2 \<le> lg \<and> inj (env_Generate env) \<and> (\<forall>k. env_Generate env k \<noteq> ''invalid'') \<and>
     (\<forall>a. \<exists>nm. env_Find env a = Inr nm \<and> 2 < length (Split CHR ''.'' nm)) \<and>
     (\<forall>xs i. env_accepts env xs (CollectedStats i)) \<and>
     (\<forall>pid n. R pid = Some n \<longrightarrow> table_in_memory mem n \<and>
        (\<forall>js c. length js < 4 \<longrightarrow> lookup js n = Some c \<longrightarrow> take_bit 2 (tn_pAddr c) = 0))"

definition info_ok :: "DataReadyRspInfo \<Rightarrow> bool" where
  "info_ok i \<longleftrightarrow> ri_AccessResult i \<le> 2 \<and> 1 < length (Split CHR ''_'' (ri_Src i)) \<and> 2 \<le> length (Split CHR ''_'' (ri_Src i) ! 1)"

record 'm mmu_system =
  sy_mmu :: "'m MMUImpl"
  sy_io :: mmu_io
  sy_answered :: "string set"

text \<open>
  The MMU among its neighbours: it ticks; TLBs ask for addresses whose page is in the table; control messages arrive; the memory answers
  a read, once, with the word at its address; the page-walk cache answers a lookup, once, with nothing or with the data of a
  fill for the same process whose address has the same path down to the level the data names.
\<close>

inductive mmu_step ::
    "mmu_env \<Rightarrow> (u64 \<Rightarrow> u64) \<Rightarrow> nat \<Rightarrow> (u32 \<times> u64 \<rightharpoonup> Page) \<Rightarrow> TranslationReq set \<Rightarrow> 'm mmu_system \<Rightarrow> 'm mmu_system \<Rightarrow> bool" for env mem lg M Q where
  tick: "mmu_Tick env (sy_mmu s) (sy_io s) = Inr (b, mmu, io) \<Longrightarrow> mmu_step env mem lg M Q s (s\<lparr>sy_mmu := mmu, sy_io := io\<rparr>)"
| request: "mapped lg M Q req p \<Longrightarrow>
    mmu_step env mem lg M Q s (s\<lparr>sy_io := (sy_io s)\<lparr>io_ToTop := io_ToTop (sy_io s) @ [TranslationReqMsg req]\<rparr>\<rparr>)"
| control: "c \<noteq> OtherCtrlMsg \<Longrightarrow> mmu_step env mem lg M Q s (s\<lparr>sy_io := (sy_io s)\<lparr>io_Control := io_Control (sy_io s) @ [c]\<rparr>\<rparr>)"
| memory: "MemRead ident pid a dst \<in> set (io_sent (sy_io s)) \<Longrightarrow> ident \<notin> sy_answered s \<Longrightarrow> info_ok i \<Longrightarrow>
    mmu_step env mem lg M Q s (s\<lparr>sy_io := (sy_io s)\<lparr>io_Mem := io_Mem (sy_io s) @ [DataReadyRsp ident (Some (Uint64ToBytes (mem a))) (Some i)]\<rparr>,
      sy_answered := insert ident (sy_answered s)\<rparr>)"
| pwc_miss: "PWCRead ident pid a \<in> set (io_sent (sy_io s)) \<Longrightarrow> ident \<notin> sy_answered s \<Longrightarrow>
    mmu_step env mem lg M Q s (s\<lparr>sy_io := (sy_io s)\<lparr>io_PWC := io_PWC (sy_io s) @ [DataReadyRsp ident None i]\<rparr>,
      sy_answered := insert ident (sy_answered s)\<rparr>)"
| pwc_hit: "PWCRead ident pid a \<in> set (io_sent (sy_io s)) \<Longrightarrow> ident \<notin> sy_answered s \<Longrightarrow>
    PWCWrite ident' pid a' d \<in> set (io_sent (sy_io s)) \<Longrightarrow> BytesToUint64 d = Inr w \<Longrightarrow>
    take (Suc (unat (w AND 3))) (page_path lg a) = take (Suc (unat (w AND 3))) (page_path lg a') \<Longrightarrow>
    mmu_step env mem lg M Q s (s\<lparr>sy_io := (sy_io s)\<lparr>io_PWC := io_PWC (sy_io s) @ [DataReadyRsp ident (Some d) i]\<rparr>,
      sy_answered := insert ident (sy_answered s)\<rparr>)"
| pwc_done: "mmu_step env mem lg M Q s (s\<lparr>sy_io := (sy_io s)\<lparr>io_PWC := io_PWC (sy_io s) @ [WriteDoneRsp ident]\<rparr>\<rparr>)"

section \<open>The invariant\<close>

text \<open>Where a transaction stands on the path of its address.\<close>

definition tr_ok :: "nat \<Rightarrow> (u32 \<times> u64 \<rightharpoonup> Page) \<Rightarrow> TranslationReq set \<Rightarrow> (u32 \<Rightarrow> treeNode option) \<Rightarrow> transaction \<Rightarrow> bool" where
  "tr_ok lg M Q R tr \<longleftrightarrow> (\<exists>p. mapped lg M Q (tr_req tr) p) \<and> (tr_state tr \<noteq> transactionFinished \<longrightarrow> tr_level tr < 4 \<and>
     tr_PPN tr = naddr lg R (tr_req tr) (tr_level tr) \<and>
     tr_vAddr tr = vaddr_at lg (tr_req tr) (if tr_state tr = sentToMem then tr_level tr + 1 else tr_level tr) \<and>
     (tr_state tr = newTransaction \<or> tr_state tr = sentToPageWalkCache \<longrightarrow> tr_level tr = 0))"

definition used :: "mmu_env \<Rightarrow> nat \<Rightarrow> string \<Rightarrow> bool" where
  "used env n ident \<longleftrightarrow> (\<exists>k < n. ident = env_Generate env k)"

definition pwc_data_ok :: "nat \<Rightarrow> (u32 \<Rightarrow> treeNode option) \<Rightarrow> TranslationReq \<Rightarrow> byte list \<Rightarrow> bool" where
  "pwc_data_ok lg R req d \<longleftrightarrow> (\<exists>l < 3. d = Uint64ToBytes (naddr lg R req (Suc l) OR of_nat l))"

text \<open>A response to a request that was made, with the physical address of its page.\<close>

definition rsp_ok :: "nat \<Rightarrow> (u32 \<times> u64 \<rightharpoonup> Page) \<Rightarrow> TranslationReq set \<Rightarrow> string \<Rightarrow> string \<Rightarrow> Page \<Rightarrow> bool" where
  "rsp_ok lg M Q dst rspTo pg \<longleftrightarrow> (\<exists>req p. mapped lg M Q req p \<and> dst = tq_Src req \<and> rspTo = tq_ID req \<and>
     pg_PID pg = tq_PID req \<and> pg_VAddr pg = tq_VAddr req \<and> pg_PAddr pg = pg_PAddr p \<and> pg_Valid pg)"

text \<open>Every message the MMU has sent is what the walk it belongs to needs, as long as it is not answered.\<close>

fun sent_ok ::
    "mmu_env \<Rightarrow> nat \<Rightarrow> (u32 \<times> u64 \<rightharpoonup> Page) \<Rightarrow> TranslationReq set \<Rightarrow> (u32 \<Rightarrow> treeNode option) \<Rightarrow> nat \<Rightarrow> transaction set \<Rightarrow> string set \<Rightarrow> mmu_out \<Rightarrow> bool" where
  "sent_ok env lg M Q R n W ans (PWCRead ident pid a) \<longleftrightarrow> used env n ident \<and>
     (\<forall>tr \<in> W. ident \<notin> ans \<longrightarrow> tr_msgID tr = ident \<longrightarrow> tr_state tr = sentToPageWalkCache \<and> pid = tq_PID (tr_req tr) \<and>
        page_path lg a = page_path lg (tq_VAddr (tr_req tr)))"
| "sent_ok env lg M Q R n W ans (MemRead ident pid a dst) \<longleftrightarrow> used env n ident \<and>
     (\<forall>tr \<in> W. ident \<notin> ans \<longrightarrow> tr_msgID tr = ident \<longrightarrow> tr_state tr = sentToMem \<and> a = slot_addr lg R (tr_req tr) (tr_level tr))"
| "sent_ok env lg M Q R n W ans (PWCWrite ident pid a d) \<longleftrightarrow>
     (\<exists>req p. mapped lg M Q req p \<and> pid = tq_PID req \<and> page_path lg a = page_path lg (tq_VAddr req) \<and> pwc_data_ok lg R req d)"
| "sent_ok env lg M Q R n W ans (TranslationRsp ident dst rspTo pg) \<longleftrightarrow> rsp_ok lg M Q dst rspTo pg"
| "sent_ok env lg M Q R n W ans _ \<longleftrightarrow> True"

fun mem_ok :: "(u64 \<Rightarrow> u64) \<Rightarrow> nat \<Rightarrow> (u32 \<Rightarrow> treeNode option) \<Rightarrow> transaction set \<Rightarrow> string set \<Rightarrow> mem_msg \<Rightarrow> bool" where
  "mem_ok mem lg R W ans (DataReadyRsp ident d i) \<longleftrightarrow> ident \<in> ans \<and> (\<exists>x. i = Some x \<and> info_ok x) \<and>
     (\<forall>tr \<in> W. tr_msgID tr = ident \<longrightarrow> tr_state tr = sentToMem \<and>
        d = Some (Uint64ToBytes (mem (slot_addr lg R (tr_req tr) (tr_level tr)))))"
| "mem_ok mem lg R W ans _ \<longleftrightarrow> False"

fun pwc_ok :: "nat \<Rightarrow> (u32 \<Rightarrow> treeNode option) \<Rightarrow> transaction set \<Rightarrow> string set \<Rightarrow> mem_msg \<Rightarrow> bool" where
  "pwc_ok lg R W ans (DataReadyRsp ident d i) \<longleftrightarrow> ident \<in> ans \<and>
     (\<forall>tr \<in> W. tr_msgID tr = ident \<longrightarrow> tr_state tr = sentToPageWalkCache \<and> (d = None \<or> (\<exists>x. d = Some x \<and> pwc_data_ok lg R (tr_req tr) x)))"
| "pwc_ok lg R W ans (WriteDoneRsp _) \<longleftrightarrow> True"
| "pwc_ok lg R W ans OtherMemMsg \<longleftrightarrow> False"

fun msg_id :: "mem_msg \<Rightarrow> string list" where
  "msg_id (DataReadyRsp ident d i) = [ident]"
| "msg_id _ = []"

text \<open>
  The transactions \<open>W\<close>, the log, and the answers \<open>memq\<close> and \<open>pwcq\<close> that still wait, fit together.
\<close>

definition walks_ok ::
    "mmu_env \<Rightarrow> (u64 \<Rightarrow> u64) \<Rightarrow> nat \<Rightarrow> (u32 \<times> u64 \<rightharpoonup> Page) \<Rightarrow> TranslationReq set \<Rightarrow> (u32 \<Rightarrow> treeNode option) \<Rightarrow>
     transaction set \<Rightarrow> mmu_out list \<Rightarrow> nat \<Rightarrow> mem_msg list \<Rightarrow> mem_msg list \<Rightarrow> string set \<Rightarrow> bool" where
  "walks_ok env mem lg M Q R W sent n memq pwcq ans \<longleftrightarrow>
     (\<forall>tr \<in> W. tr_ok lg M Q R tr \<and> (tr_msgID tr = ''invalid'' \<or> used env n (tr_msgID tr))) \<and>
     (\<forall>ident \<in> ans. used env n ident) \<and> (\<forall>m \<in> set sent. sent_ok env lg M Q R n W ans m) \<and>
     (\<forall>m \<in> set memq. mem_ok mem lg R W ans m) \<and> (\<forall>m \<in> set pwcq. pwc_ok lg R W ans m) \<and>
     distinct (concat (map msg_id (memq @ pwcq)))"

lemma used_mono: "used env n ident \<Longrightarrow> n \<le> n' \<Longrightarrow> used env n' ident"
  unfolding used_def using less_le_trans by blast

lemma used_new: "used env (Suc n) (env_Generate env n)"
  by (auto simp: used_def)

lemma used_not_new: "mmu_world env mem lg R \<Longrightarrow> used env n ident \<Longrightarrow> ident \<noteq> env_Generate env n"
  by (auto simp: used_def mmu_world_def dest: injD)

lemma used_not_invalid: "mmu_world env mem lg R \<Longrightarrow> used env n ident \<Longrightarrow> ident \<noteq> ''invalid''"
  by (auto simp: used_def mmu_world_def)

text \<open>A transaction may change where no waiting message is for it.\<close>

lemma sent_ok_insert:
  assumes "sent_ok env lg M Q R n (insert tr W) ans m" "n \<le> n'"
    "\<And>ident. used env n ident \<Longrightarrow> ident \<notin> ans \<Longrightarrow> ident \<noteq> tr_msgID tr'"
  shows "sent_ok env lg M Q R n' (insert tr' W) ans m"
  using assms by (cases m) (auto intro: used_mono)

lemma sent_ok_mono: "sent_ok env lg M Q R n W ans m \<Longrightarrow> n \<le> n' \<Longrightarrow> W' \<subseteq> W \<Longrightarrow> sent_ok env lg M Q R n' W' ans m"
  by (cases m) (auto intro: used_mono)

lemma mem_ok_insert:
  assumes "mem_ok mem lg R (insert tr W) ans m" "tr_msgID tr' \<notin> set (msg_id m)"
  shows "mem_ok mem lg R (insert tr' W) ans m"
  using assms by (cases m) auto

lemma pwc_ok_insert:
  assumes "pwc_ok lg R (insert tr W) ans m" "tr_msgID tr' \<notin> set (msg_id m)"
  shows "pwc_ok lg R (insert tr' W) ans m"
  using assms by (cases m) auto

lemma mem_ok_id: "mem_ok mem lg R W ans m \<Longrightarrow> set (msg_id m) \<subseteq> ans"
  by (cases m) auto

lemma pwc_ok_id: "pwc_ok lg R W ans m \<Longrightarrow> set (msg_id m) \<subseteq> ans"
  by (cases m) auto

lemma walks_ok_change:
  assumes w: "walks_ok env mem lg M Q R (insert tr W) sent n memq pwcq ans" and n: "n \<le> n'"
    and tr': "tr_ok lg M Q R tr'" "used env n' (tr_msgID tr')"
    and q: "tr_msgID tr' \<notin> set (concat (map msg_id (memq @ pwcq)))"
    and a: "\<And>ident. used env n ident \<Longrightarrow> ident \<notin> ans \<Longrightarrow> ident \<noteq> tr_msgID tr'"
    and s: "\<forall>m \<in> set sent'. sent_ok env lg M Q R n' (insert tr' W) ans m"
  shows "walks_ok env mem lg M Q R (insert tr' W) (sent @ sent') n' memq pwcq ans"
proof -
  have "\<forall>m \<in> set memq. mem_ok mem lg R (insert tr' W) ans m" "\<forall>m \<in> set pwcq. pwc_ok lg R (insert tr' W) ans m"
    using w q by (auto simp: walks_ok_def intro: mem_ok_insert pwc_ok_insert)
  moreover have "\<forall>m \<in> set sent. sent_ok env lg M Q R n' (insert tr' W) ans m"
    using w sent_ok_insert [OF _ n a] by (auto simp: walks_ok_def)
  ultimately show ?thesis using w tr' s used_mono [OF _ n] by (auto simp: walks_ok_def)
qed

lemma walks_ok_fresh:
  assumes "mmu_world env mem lg R" and w: "walks_ok env mem lg M Q R (insert tr W) sent n memq pwcq ans"
    and tr': "tr_ok lg M Q R tr'" "tr_msgID tr' = env_Generate env n"
    and s: "sent_ok env lg M Q R (Suc n) (insert tr' W) ans m"
  shows "walks_ok env mem lg M Q R (insert tr' W) (sent @ [m]) (Suc n) memq pwcq ans"
    "walks_ok env mem lg M Q R (insert tr' W) sent (Suc n) memq pwcq ans"
proof -
  have u: "used env (Suc n) (tr_msgID tr')" using used_new tr'(2) by simp
  have a: "\<forall>ident \<in> ans. used env n ident" using w by (simp add: walks_ok_def)
  have "set (msg_id m) \<subseteq> ans" if "m \<in> set (memq @ pwcq)" for m using w that mem_ok_id pwc_ok_id unfolding walks_ok_def by fastforce
  then have q: "tr_msgID tr' \<notin> set (concat (map msg_id (memq @ pwcq)))" using a used_not_new [OF assms(1)] tr'(2) by fastforce
  have n: "ident \<noteq> tr_msgID tr'" if "used env n ident" for ident using used_not_new [OF assms(1) that] tr'(2) by simp
  show "walks_ok env mem lg M Q R (insert tr' W) (sent @ [m]) (Suc n) memq pwcq ans"
    by (rule walks_ok_change [OF w _ tr'(1) u q]) (use n s in auto)
  show "walks_ok env mem lg M Q R (insert tr' W) sent (Suc n) memq pwcq ans"
    using walks_ok_change [OF w _ tr'(1) u q, of "[]"] n by simp
qed

text \<open>A message for another walk does not depend on the transaction with the new identifier.\<close>

lemma old_not_fresh:
  assumes "mmu_world env mem lg R" "walks_ok env mem lg M Q R W sent n memq pwcq ans" "tr \<in> W"
  shows "tr_msgID tr \<noteq> env_Generate env n"
  using assms used_not_new [OF assms(1)] unfolding walks_ok_def mmu_world_def by metis

definition io_frame :: "mmu_io \<Rightarrow> mmu_io \<Rightarrow> bool" where
  "io_frame io io' \<longleftrightarrow> io_ToTop io' = io_ToTop io \<and> io_Control io' = io_Control io \<and> io_PWC io' = io_PWC io \<and> io_Mem io' = io_Mem io"

lemma sendToPageWalkCache_ok:
  assumes world: "mmu_world env mem lg R" and pt: "pt_ok lg M R (mmu_pageTable mmu)"
    and w: "walks_ok env mem lg M Q R (insert tr W) (io_sent io) (io_nextID io) memq pwcq ans" and st: "tr_state tr = newTransaction"
  shows "\<exists>tr' io'. sendToPageWalkCache env tr mmu io = Inr (tr', mmu, io') \<and> io_frame io io' \<and> io_topSender io' = io_topSender io \<and>
    walks_ok env mem lg M Q R (insert tr' W) (io_sent io') (io_nextID io') memq pwcq ans"
proof -
  let ?g = "env_Generate env (io_nextID io)"
  let ?tr = "tr\<lparr>tr_msgID := ?g, tr_state := sentToPageWalkCache\<rparr>"
  let ?m = "PWCRead ?g (tq_PID (tr_req tr)) (AlignToPage (mmu_pageTable mmu) (tq_VAddr (tr_req tr)))"
  have "tr_ok lg M Q R tr" using w by (simp add: walks_ok_def)
  then have ok: "tr_ok lg M Q R ?tr" using st by (simp add: tr_ok_def)
  have "pt_log2PageSize (mmu_pageTable mmu) = lg" using pt by (simp add: pt_ok_def pt_wf_def)
  then have "page_path lg (AlignToPage (mmu_pageTable mmu) v) = page_path lg v" for v by (simp add: AlignToPage_def page_path_align)
  then have m: "sent_ok env lg M Q R (Suc (io_nextID io)) (insert ?tr W) ans ?m"
    using old_not_fresh [OF world w] used_new by auto
  show ?thesis
  proof (cases "env_accepts env (io_sent io) ?m")
    case True
    have "walks_ok env mem lg M Q R (insert ?tr W) (io_sent io @ [?m]) (Suc (io_nextID io)) memq pwcq ans"
      by (rule walks_ok_fresh(1) [OF world w ok _ m]) simp
    then show ?thesis using st True by (simp add: sendToPageWalkCache_def Generate_def port_Send_def io_frame_def)
  next
    case False
    have "walks_ok env mem lg M Q R (insert ?tr W) (io_sent io) (Suc (io_nextID io)) memq pwcq ans"
      by (rule walks_ok_fresh(2) [OF world w ok _ m]) simp
    then show ?thesis using st False by (simp add: sendToPageWalkCache_def Generate_def port_Send_def io_frame_def)
  qed
qed

lemma sendToMem_ok:
  assumes world: "mmu_world env mem lg R" and pt: "pt_ok lg M R (mmu_pageTable mmu)"
    and w: "walks_ok env mem lg M Q R (insert tr W) (io_sent io) (io_nextID io) memq pwcq ans"
    and st: "tr_state tr = pageWalkCacheDone \<or> tr_state tr = memDone"
  shows "\<exists>tr' mmu' io'. sendToMem env tr mmu io = Inr (tr', mmu', io') \<and> io_frame io io' \<and> io_topSender io' = io_topSender io \<and>
    pt_ok lg M R (mmu_pageTable mmu') \<and> walks_ok env mem lg M Q R (insert tr' W) (io_sent io') (io_nextID io') memq pwcq ans"
proof -
  have ok: "tr_ok lg M Q R tr" using w by (simp add: walks_ok_def)
  then have l: "tr_level tr < 4" "tr_vAddr tr = vaddr_at lg (tr_req tr) (tr_level tr)" "tr_PPN tr = naddr lg R (tr_req tr) (tr_level tr)"
    using st by (auto simp: tr_ok_def)
  let ?a = "slot_addr lg R (tr_req tr) (tr_level tr)"
  obtain pt1 where 1: "AddOffset (tr_PPN tr) (tr_vAddr tr) (mmu_pageTable mmu) = (?a, pt1)" "pt_ok lg M R pt1"
    using AddOffset_ok [OF pt l(1), of "tr_PPN tr" "tr_req tr"] l by (auto simp: slot_addr_def)
  obtain pt2 where 2: "NextLevel (tr_vAddr tr) pt1 = (vaddr_at lg (tr_req tr) (tr_level tr + 1), pt2)" "pt_ok lg M R pt2"
    using NextLevel_ok [OF 1(2), of "tr_vAddr tr"] l(2) by (auto simp: vaddr_at_def drop_bit_drop_bit)
  obtain nm where nm: "env_Find env ?a = Inr nm" "2 < length (Split CHR ''.'' nm)" using world unfolding mmu_world_def by blast
  let ?g = "env_Generate env (io_nextID io)"
  let ?tr = "tr\<lparr>tr_vAddr := vaddr_at lg (tr_req tr) (tr_level tr + 1), tr_msgID := ?g, tr_state := sentToMem\<rparr>"
  let ?m = "MemRead ?g (tq_PID (tr_req tr)) ?a nm"
  have ok': "tr_ok lg M Q R ?tr" using ok st by (auto simp: tr_ok_def)
  have m: "sent_ok env lg M Q R (Suc (io_nextID io)) (insert ?tr W) ans ?m" using old_not_fresh [OF world w] used_new by auto
  have go: "\<exists>mmu'. sendToMem env tr mmu io = Inr (?tr, mmu', snd (port_Send env ?m (io\<lparr>io_nextID := Suc (io_nextID io)\<rparr>))) \<and> mmu_pageTable mmu' = pt2"
    using st 1(1) 2(1) nm by (auto simp: sendToMem_def Generate_def split_beta Let_def)
  show ?thesis
  proof (cases "env_accepts env (io_sent io) ?m")
    case True
    have "walks_ok env mem lg M Q R (insert ?tr W) (io_sent io @ [?m]) (Suc (io_nextID io)) memq pwcq ans"
      by (rule walks_ok_fresh(1) [OF world w ok' _ m]) simp
    then show ?thesis using go True 2(2) by (auto simp: port_Send_def io_frame_def)
  next
    case False
    have "walks_ok env mem lg M Q R (insert ?tr W) (io_sent io) (Suc (io_nextID io)) memq pwcq ans"
      by (rule walks_ok_fresh(2) [OF world w ok' _ m]) simp
    then show ?thesis using go False 2(2) by (auto simp: port_Send_def io_frame_def)
  qed
qed

section \<open>Every operation keeps the invariant\<close>

lemma walks_ok_subset:
  assumes "walks_ok env mem lg M Q R W sent n memq pwcq ans" "W' \<subseteq> W"
  shows "walks_ok env mem lg M Q R W' sent n memq pwcq ans"
proof -
  have "mem_ok mem lg R W' ans m" if "mem_ok mem lg R W ans m" for m using that assms(2) by (cases m) auto
  moreover have "pwc_ok lg R W' ans m" if "pwc_ok lg R W ans m" for m using that assms(2) by (cases m) auto
  ultimately show ?thesis using assms sent_ok_mono [OF _ order.refl assms(2)] unfolding walks_ok_def by (meson subsetD)
qed

lemma io_frame_trans: "io_frame a b \<Longrightarrow> io_frame b c \<Longrightarrow> io_frame a c"
  by (simp add: io_frame_def)

lemma io_frame_refl [simp]: "io_frame a a"
  by (simp add: io_frame_def)

lemma walk_one_ok:
  assumes "mmu_world env mem lg R" "pt_ok lg M R (mmu_pageTable mmu)"
    and "walks_ok env mem lg M Q R (insert tr W) (io_sent io) (io_nextID io) memq pwcq ans"
  shows "\<exists>tr' mmu' io'. walk_one env tr mmu io = Inr (tr', mmu', io') \<and> io_frame io io' \<and> io_topSender io' = io_topSender io \<and>
    pt_ok lg M R (mmu_pageTable mmu') \<and> walks_ok env mem lg M Q R (insert tr' W) (io_sent io') (io_nextID io') memq pwcq ans"
  using assms sendToPageWalkCache_ok [OF assms] sendToMem_ok [OF assms]
  by (cases "tr_state tr") (auto simp: walk_one_def)

lemma count_finished_pt [simp]: "mmu_pageTable (count_finished mmu) = mmu_pageTable mmu"
  by (simp add: count_finished_def Let_def)

lemma walk_loop_ok:
  assumes "mmu_world env mem lg R" "pt_ok lg M R (mmu_pageTable mmu)"
    and "walks_ok env mem lg M Q R (set tmp \<union> set ts) (io_sent io) (io_nextID io) memq pwcq ans"
  shows "\<exists>mmu' io'. walk_loop env ts tmp mmu io = Inr (mmu', io') \<and> io_frame io io' \<and> io_topSender io' = io_topSender io \<and>
    pt_ok lg M R (mmu_pageTable mmu') \<and>
    walks_ok env mem lg M Q R (set (mmu_walkingTranslations mmu')) (io_sent io') (io_nextID io') memq pwcq ans"
  using assms(2,3)
proof (induction ts arbitrary: tmp mmu io)
  case (Cons tr ts)
  have "set tmp \<union> set (tr # ts) = insert tr (set tmp \<union> set ts)" by simp
  then obtain tr' mmu1 io1 where 1: "walk_one env tr mmu io = Inr (tr', mmu1, io1)" "io_frame io io1" "io_topSender io1 = io_topSender io"
    "pt_ok lg M R (mmu_pageTable mmu1)" "walks_ok env mem lg M Q R (insert tr' (set tmp \<union> set ts)) (io_sent io1) (io_nextID io1) memq pwcq ans"
    using walk_one_ok [OF assms(1) Cons.prems(1)] Cons.prems(2) by metis
  show ?case
  proof (cases "tr_state tr' = transactionFinished")
    case True
    have "walks_ok env mem lg M Q R (set tmp \<union> set ts) (io_sent io1) (io_nextID io1) memq pwcq ans" by (rule walks_ok_subset [OF 1(5)]) blast
    then obtain mmu' io' where "walk_loop env ts tmp (count_finished mmu1) io1 = Inr (mmu', io')" "io_frame io1 io'" "io_topSender io' = io_topSender io1"
      "pt_ok lg M R (mmu_pageTable mmu')" "walks_ok env mem lg M Q R (set (mmu_walkingTranslations mmu')) (io_sent io') (io_nextID io') memq pwcq ans"
      using Cons.IH [of "count_finished mmu1" tmp io1] 1(4) by auto
    then show ?thesis using 1(1,3) True io_frame_trans [OF 1(2)] by simp
  next
    case False
    have "set (tmp @ [tr']) \<union> set ts = insert tr' (set tmp \<union> set ts)" by simp
    then obtain mmu' io' where "walk_loop env ts (tmp @ [tr']) mmu1 io1 = Inr (mmu', io')" "io_frame io1 io'" "io_topSender io' = io_topSender io1"
      "pt_ok lg M R (mmu_pageTable mmu')" "walks_ok env mem lg M Q R (set (mmu_walkingTranslations mmu')) (io_sent io') (io_nextID io') memq pwcq ans"
      using Cons.IH [of mmu1 "tmp @ [tr']" io1] 1(4,5) by auto
    then show ?thesis using 1(1,3) False io_frame_trans [OF 1(2)] by simp
  qed
qed (simp)

lemma for_each_ok:
  assumes "\<And>tr W mmu io. tr \<in> set ts \<Longrightarrow> I (insert tr W) mmu io \<Longrightarrow> \<exists>tr' mmu' io'. body tr mmu io = Inr (tr', mmu', io') \<and> I (insert tr' W) mmu' io'"
    and "I (W \<union> set ts) mmu io"
  shows "\<exists>ts' mmu' io'. for_each body ts mmu io = Inr (ts', mmu', io') \<and> I (W \<union> set ts') mmu' io'"
  using assms
proof (induction ts arbitrary: W mmu io)
  case (Cons tr ts)
  have "I (insert tr (W \<union> set ts)) mmu io" using Cons.prems(2) by simp
  then obtain tr' mmu1 io1 where 1: "body tr mmu io = Inr (tr', mmu1, io1)" "I (insert tr' (W \<union> set ts)) mmu1 io1"
    using Cons.prems(1) by (meson list.set_intros(1))
  have "insert tr' (W \<union> set ts) = insert tr' W \<union> set ts" by simp
  then obtain ts' mmu' io' where 2: "for_each body ts mmu1 io1 = Inr (ts', mmu', io')" "I (insert tr' W \<union> set ts') mmu' io'"
    using Cons.IH [of "insert tr' W" mmu1 io1] Cons.prems(1) 1(2) by (metis list.set_intros(2))
  then show ?case using 1(1) by simp
qed simp

lemma low_bits:
  assumes "take_bit 2 (a :: u64) = 0" "l < 3"
  shows "(a OR of_nat l) AND 3 = of_nat l" "(a OR of_nat l) AND NOT 3 = a" "unat ((a OR of_nat l) AND 3) = l"
proof -
  have a: "a AND 3 = 0" using assms(1) by (simp add: take_bit_eq_mask mask_eq_exp_minus_1)
  have "a = (a AND 3) OR (a AND NOT 3)" by (simp add: bit.conj_disj_distrib [symmetric])
  then have n: "a AND NOT 3 = a" using a by simp
  consider "l = 0" | "l = 1" | "l = 2" using assms(2) by linarith
  then have l: "of_nat l AND (3 :: u64) = of_nat l" "of_nat l AND NOT (3 :: u64) = 0" by (cases; simp)+
  then show e: "(a OR of_nat l) AND 3 = of_nat l" "(a OR of_nat l) AND NOT 3 = a" using a n by (simp_all add: bit.conj_disj_distrib2)
  show "unat ((a OR of_nat l) AND 3) = l" unfolding e(1) using assms(2) by (simp add: unat_of_nat)
qed

lemma naddr_aligned:
  assumes "mmu_world env mem lg R" "k < 4"
  shows "take_bit 2 (naddr lg R req k) = 0"
proof (cases "node_at lg R req k")
  case (Some c)
  then obtain n where "R (tq_PID req) = Some n" "lookup (take k (page_path lg (tq_VAddr req))) n = Some c"
    by (auto simp: node_at_def bind_eq_Some_conv)
  moreover have "length (take k (page_path lg (tq_VAddr req))) < 4" using assms(2) by simp
  ultimately have "take_bit 2 (tn_pAddr c) = 0" using assms(1) unfolding mmu_world_def by blast
  then show ?thesis using Some by (simp add: naddr_def)
qed (simp add: naddr_def)

lemma pwc_answer_ok:
  assumes world: "mmu_world env mem lg R" and pt: "pt_ok lg M R (mmu_pageTable mmu)"
    and w: "walks_ok env mem lg M Q R (insert tr W) sent n memq pwcq ans"
    and tr: "tr_state tr = sentToPageWalkCache" "tr_msgID tr \<in> ans" "tr_msgID tr \<notin> set (concat (map msg_id (memq @ pwcq)))"
    and d: "d = None \<or> (\<exists>x. d = Some x \<and> pwc_data_ok lg R (tr_req tr) x)"
  shows "\<exists>tr' mmu'. pwc_answer d tr mmu io = Inr (tr', mmu', io) \<and> pt_ok lg M R (mmu_pageTable mmu') \<and>
    walks_ok env mem lg M Q R (insert tr' W) sent n memq pwcq ans"
proof -
  have ok: "tr_ok lg M Q R tr" "used env n (tr_msgID tr)" using w tr(2) by (auto simp: walks_ok_def)
  have change: "walks_ok env mem lg M Q R (insert tr' W) sent n memq pwcq ans" if "tr_ok lg M Q R tr'" "tr_msgID tr' = tr_msgID tr" for tr'
    using walks_ok_change [OF w order.refl that(1), of "[]"] that(2) ok(2) tr(2,3) by auto
  show ?thesis
  proof (cases d)
    case None
    have "tr_ok lg M Q R (tr\<lparr>tr_state := pageWalkCacheDone\<rparr>)" using ok(1) tr(1) by (auto simp: tr_ok_def)
    then show ?thesis using None pt change by (simp add: pwc_answer_def)
  next
    case (Some x)
    then obtain l where l: "l < 3" "x = Uint64ToBytes (naddr lg R (tr_req tr) (Suc l) OR of_nat l)" using d by (auto simp: pwc_data_ok_def)
    note b = low_bits [OF naddr_aligned [OF world, of "Suc l" "tr_req tr"] l(1)]
    obtain pt' where m: "MoveToLevel (tr_vAddr tr) (Suc l) (mmu_pageTable mmu) = (drop_bit (9 * Suc l) (tr_vAddr tr), pt')" "pt_ok lg M R pt'"
      using MoveToLevel_ok [OF pt] by blast
    have v: "drop_bit (9 * Suc l) (tr_vAddr tr) = vaddr_at lg (tr_req tr) (Suc l)" using ok(1) tr(1) by (simp add: tr_ok_def vaddr_at_def)
    let ?tr = "tr\<lparr>tr_PPN := naddr lg R (tr_req tr) (Suc l), tr_vAddr := vaddr_at lg (tr_req tr) (Suc l), tr_level := Suc l, tr_state := pageWalkCacheDone\<rparr>"
    have "tr_ok lg M Q R ?tr" using ok(1) l(1) by (simp add: tr_ok_def)
    moreover have "pwc_answer d tr mmu io = Inr (?tr, mmu\<lparr>mmu_pageTable := pt'\<rparr>, io)"
      using l m(1) b v by (simp add: pwc_answer_def Some Let_def del: MoveToLevel.simps)
    ultimately show ?thesis using change m(2) by simp
  qed
qed

definition sender_ok :: "nat \<Rightarrow> (u32 \<times> u64 \<rightharpoonup> Page) \<Rightarrow> TranslationReq set \<Rightarrow> mmu_out bufferImpl \<Rightarrow> bool" where
  "sender_ok lg M Q b \<longleftrightarrow> 1 \<le> buf_capacity b \<and> (\<forall>m \<in> set (buf_elements b). \<exists>i d t pg. m = TranslationRsp i d t pg \<and> rsp_ok lg M Q d t pg)"

lemma doPageWalkHit_ok:
  assumes "sender_ok lg M Q (io_topSender io)" "rsp_ok lg M Q (tq_Src (tr_req tr)) (tq_ID (tr_req tr)) (tr_page tr)"
  shows "\<exists>b io'. doPageWalkHit env tr io = Inr (b, io') \<and> io_frame io io' \<and> sender_ok lg M Q (io_topSender io') \<and> io_sent io' = io_sent io \<and>
    io_nextID io \<le> io_nextID io'"
  using assms by (auto simp: doPageWalkHit_def CanSend_def Sender_Send_def bufferImpl_defs Generate_def sender_ok_def io_frame_def)

lemma finalizeTransaction_ok:
  assumes "pt_ok lg M R (mmu_pageTable mmu)" "mapped lg M Q (tr_req tr) p" "tr_PPN tr = naddr lg R (tr_req tr) 4" "sender_ok lg M Q (io_topSender io)"
  shows "\<exists>pg mmu' io'. finalizeTransaction env tr mmu io = Inr (tr\<lparr>tr_page := pg, tr_state := transactionFinished\<rparr>, mmu', io') \<and>
    pt_ok lg M R (mmu_pageTable mmu') \<and> io_frame io io' \<and> sender_ok lg M Q (io_topSender io') \<and> io_sent io' = io_sent io \<and> io_nextID io \<le> io_nextID io'"
proof -
  obtain pt' where f: "pt_Find (tq_PID (tr_req tr)) (tq_VAddr (tr_req tr)) (mmu_pageTable mmu) = (Some p, pt')" "pt_ok lg M R pt'"
    using pt_Find_ok [OF assms(1), of "tq_PID (tr_req tr)" "tq_VAddr (tr_req tr)"] assms(2) by (auto simp: mapped_def)
  have p: "tr_PPN tr = pg_PAddr p" using mapped_path [OF assms(1,2)] assms(3) by (simp add: naddr_def)
  let ?pg = "no_page\<lparr>pg_PID := tq_PID (tr_req tr), pg_VAddr := tq_VAddr (tr_req tr), pg_PAddr := tr_PPN tr, pg_Valid := True\<rparr>"
  let ?tr = "tr\<lparr>tr_page := ?pg, tr_state := transactionFinished\<rparr>"
  have "rsp_ok lg M Q (tq_Src (tr_req ?tr)) (tq_ID (tr_req ?tr)) (tr_page ?tr)" using assms(2) p by (auto simp: rsp_ok_def no_page_def)
  then obtain b io' where h: "doPageWalkHit env ?tr io = Inr (b, io')" "io_frame io io'" "sender_ok lg M Q (io_topSender io')" "io_sent io' = io_sent io"
    "io_nextID io \<le> io_nextID io'" using doPageWalkHit_ok [OF assms(4)] by blast
  have "finalizeTransaction env tr mmu io = Inr (?tr, mmu\<lparr>mmu_pageTable := pt'\<rparr>, io')"
    using f(1) p h(1) by (simp add: finalizeTransaction_def Let_def)
  then show ?thesis using f(2) h(2-5) by (intro exI [of _ ?pg] exI [of _ "mmu\<lparr>mmu_pageTable := pt'\<rparr>"] exI [of _ io']) simp
qed

lemma page_path_level:
  assumes "2 \<le> lg" "l < 4" "pt_log2PageSize pt = lg"
  shows "page_path lg (AlignToPage pt v OR of_nat l) = page_path lg v"
proof -
  have "take_bit lg (of_nat l :: u64) = of_nat l"
  proof -
    have "l < 2 ^ lg" using assms(1,2) power_increasing [of 2 lg "2 :: nat"] by simp
    then have "take_bit lg l = l" by (simp add: take_bit_nat_eq_self)
    then show ?thesis by (metis take_bit_of_nat)
  qed
  moreover have "drop_bit lg (take_bit lg (of_nat l :: u64)) = 0" by (rule bit_word_eqI) (simp add: bit_simps)
  ultimately have z: "drop_bit lg (of_nat l :: u64) = 0" by simp
  have e: "drop_bit (9 * i + lg) x = drop_bit (9 * i) (drop_bit lg x)" for i and x :: u64 by (simp add: drop_bit_drop_bit)
  have "drop_bit (9 * i + lg) (AlignToPage pt v OR of_nat l) = drop_bit (9 * i + lg) (AlignToPage pt v)" for i
    unfolding e by (simp add: z)
  then have "page_path lg (AlignToPage pt v OR of_nat l) = page_path lg (AlignToPage pt v)" by (simp add: page_path_def)
  then show ?thesis using assms(3) by (simp add: AlignToPage_def page_path_align)
qed

lemma mem_answer_ok:
  assumes world: "mmu_world env mem lg R" and pt: "pt_ok lg M R (mmu_pageTable mmu)"
    and w: "walks_ok env mem lg M Q R (insert tr W) (io_sent io) (io_nextID io) memq pwcq ans"
    and tr: "tr_state tr = sentToMem" "tr_msgID tr \<in> ans" "tr_msgID tr \<notin> set (concat (map msg_id (memq @ pwcq)))"
    and d: "d = Some (Uint64ToBytes (mem (slot_addr lg R (tr_req tr) (tr_level tr))))" "i = Some x" "info_ok x"
    and snd: "sender_ok lg M Q (io_topSender io)"
  shows "\<exists>tr' mmu' io'. mem_answer env d i tr mmu io = Inr (tr', mmu', io') \<and> pt_ok lg M R (mmu_pageTable mmu') \<and> io_frame io io' \<and>
    sender_ok lg M Q (io_topSender io') \<and> walks_ok env mem lg M Q R (insert tr' W) (io_sent io') (io_nextID io') memq pwcq ans"
proof -
  let ?req = "tr_req tr" and ?l = "tr_level tr"
  have ok: "tr_ok lg M Q R tr" "used env (io_nextID io) (tr_msgID tr)" using w tr(2) by (auto simp: walks_ok_def)
  then obtain p where p: "mapped lg M Q ?req p" "?l < 4" "tr_vAddr tr = vaddr_at lg ?req (Suc ?l)" using tr(1) by (auto simp: tr_ok_def)
  have tm: "\<forall>pid n. R pid = Some n \<longrightarrow> table_in_memory mem n" using world unfolding mmu_world_def by blast
  have rd: "mem (slot_addr lg R ?req ?l) = naddr lg R ?req (Suc ?l)" by (rule slot_read [OF mapped_path [OF pt p(1)] p(2) tm])
  obtain cs where c: "getChipletNum (ri_Src x) = Inr cs" using d(3) by (auto simp: info_ok_def getChipletNum_def)
  obtain rs where a: "getAccessResultString (ri_AccessResult x) = Inr rs"
    using d(3) by (auto simp: info_ok_def getAccessResultString_def numeral_2_eq_2 le_Suc_eq)
  let ?tr = "tr\<lparr>tr_PPN := naddr lg R ?req (Suc ?l), tr_state := memDone\<rparr>"
  have go: "mem_answer env d i tr mmu io = bindR (if ?l + 1 = 4 then finalizeTransaction env ?tr mmu io else Inr (fillPageWalkCache env ?tr mmu io))
      (\<lambda>(tr, mmu, io). Inr (tr\<lparr>tr_level := tr_level tr + 1\<rparr>, mmu, io))"
    using c a d(1,2) rd by (simp add: mem_answer_def Let_def)
  show ?thesis
  proof (cases "?l + 1 = 4")
    case True
    then have "tr_PPN ?tr = naddr lg R (tr_req ?tr) 4" by simp
    then obtain pg mmu' io' where f: "finalizeTransaction env ?tr mmu io = Inr (?tr\<lparr>tr_page := pg, tr_state := transactionFinished\<rparr>, mmu', io')"
      "pt_ok lg M R (mmu_pageTable mmu')" "io_frame io io'" "sender_ok lg M Q (io_topSender io')" "io_sent io' = io_sent io" "io_nextID io \<le> io_nextID io'"
      using finalizeTransaction_ok [OF pt, of Q ?tr p io env] p(1) snd by auto
    let ?tr' = "?tr\<lparr>tr_page := pg, tr_state := transactionFinished, tr_level := ?l + 1\<rparr>"
    have "tr_ok lg M Q R ?tr'" using p(1) by (auto simp: tr_ok_def)
    then have "walks_ok env mem lg M Q R (insert ?tr' W) (io_sent io @ []) (io_nextID io') memq pwcq ans"
      by (rule walks_ok_change [OF w f(6)]) (use tr(2,3) used_mono [OF ok(2) f(6)] in auto)
    then show ?thesis using go f True by (intro exI [of _ ?tr'] exI [of _ mmu'] exI [of _ io']) simp
  next
    case False
    let ?g = "env_Generate env (io_nextID io)"
    let ?tr' = "?tr\<lparr>tr_msgID := ?g, tr_level := ?l + 1\<rparr>"
    let ?m = "PWCWrite ?g (tq_PID ?req) (AlignToPage (mmu_pageTable mmu) (tq_VAddr ?req) OR of_nat ?l) (Uint64ToBytes (naddr lg R ?req (Suc ?l) OR of_nat ?l))"
    have l: "?l < 3" using False p(2) by linarith
    have ok': "tr_ok lg M Q R ?tr'" using p l by (auto simp: tr_ok_def)
    have "pt_log2PageSize (mmu_pageTable mmu) = lg" "2 \<le> lg" using pt world by (auto simp: pt_ok_def pt_wf_def mmu_world_def)
    then have "page_path lg (AlignToPage (mmu_pageTable mmu) (tq_VAddr ?req) OR of_nat ?l) = page_path lg (tq_VAddr ?req)"
      using page_path_level p(2) by blast
    then have m: "sent_ok env lg M Q R (Suc (io_nextID io)) (insert ?tr' W) ans ?m" using p(1) l by (auto simp: pwc_data_ok_def)
    have W: "walks_ok env mem lg M Q R (insert ?tr' W) (io_sent io @ [?m]) (Suc (io_nextID io)) memq pwcq ans"
        "walks_ok env mem lg M Q R (insert ?tr' W) (io_sent io) (Suc (io_nextID io)) memq pwcq ans"
      by (rule walks_ok_fresh [OF world w ok' _ m]; simp)+
    have "mem_answer env d i tr mmu io = Inr (?tr', mmu, snd (port_Send env ?m (io\<lparr>io_nextID := Suc (io_nextID io)\<rparr>)))"
      using go False by (simp add: fillPageWalkCache_def Generate_def Let_def split_beta)
    then show ?thesis using W pt snd by (auto simp: port_Send_def io_frame_def)
  qed
qed

definition mmu_inv ::
    "mmu_env \<Rightarrow> (u64 \<Rightarrow> u64) \<Rightarrow> nat \<Rightarrow> (u32 \<times> u64 \<rightharpoonup> Page) \<Rightarrow> TranslationReq set \<Rightarrow> (u32 \<Rightarrow> treeNode option) \<Rightarrow> 'm MMUImpl \<Rightarrow> mmu_io \<Rightarrow> string set \<Rightarrow> bool" where
  "mmu_inv env mem lg M Q R mmu io ans \<longleftrightarrow> pt_ok lg M R (mmu_pageTable mmu) \<and> sender_ok lg M Q (io_topSender io) \<and>
     walks_ok env mem lg M Q R (set (mmu_walkingTranslations mmu)) (io_sent io) (io_nextID io) (io_Mem io) (io_PWC io) ans \<and>
     (\<forall>m \<in> set (io_ToTop io). \<exists>req p. m = TranslationReqMsg req \<and> mapped lg M Q req p) \<and> OtherCtrlMsg \<notin> set (io_Control io)"

lemma walks_ok_more:
  assumes "walks_ok env mem lg M Q R W sent n memq pwcq ans" "n \<le> n'" "\<forall>m \<in> set sent'. sent_ok env lg M Q R n' W ans m"
  shows "walks_ok env mem lg M Q R W (sent @ sent') n' memq pwcq ans"
  using assms sent_ok_mono [OF _ assms(2) order.refl] used_mono [OF _ assms(2)] unfolding walks_ok_def set_append by blast

lemma performCtrlReq_inv:
  assumes "mmu_world env mem lg R" "mmu_inv env mem lg M Q R mmu io ans"
  shows "\<exists>r. performCtrlReq env mmu io = Inr r \<and> mmu_inv env mem lg M Q R (fst (snd r)) (snd (snd r)) ans"
proof (cases "io_Control io")
  case (Cons c cs)
  have acc: "env_accepts env xs (CollectedStats i)" for xs i using assms(1) by (simp add: mmu_world_def)
  show ?thesis
  proof (cases c)
    case (TLBIndexingSwitchMsg i)
    then show ?thesis using Cons assms(2) by (auto simp: performCtrlReq_def mmu_inv_def switchIndexing_def)
  next
    case SendStatsMsg
    have "walks_ok env mem lg M Q R (set (mmu_walkingTranslations mmu)) (io_sent io @ [CollectedStats (env_Generate env (io_nextID io))])
        (Suc (io_nextID io)) (io_Mem io) (io_PWC io) ans"
      by (rule walks_ok_more) (use assms(2) in \<open>auto simp: mmu_inv_def\<close>)
    moreover have "set (tl cs) \<subseteq> set cs" by (cases cs) auto
    ultimately show ?thesis using Cons SendStatsMsg assms(2) acc
      by (auto simp: performCtrlReq_def mmu_inv_def sendCollectedStatsToCP_def Generate_def port_Send_def)
  next
    case OtherCtrlMsg
    then show ?thesis using Cons assms(2) by (simp add: mmu_inv_def)
  qed
qed (use assms(2) in \<open>simp add: performCtrlReq_def\<close>)

lemma topSender_Tick_inv:
  assumes "mmu_inv env mem lg M Q R mmu io ans"
  shows "mmu_inv env mem lg M Q R mmu (snd (topSender_Tick env io)) ans"
proof (cases "buf_elements (io_topSender io)")
  case (Cons m ms)
  then have m: "sent_ok env lg M Q R (io_nextID io) W ans m" for W using assms by (auto simp: mmu_inv_def sender_ok_def)
  have "walks_ok env mem lg M Q R (set (mmu_walkingTranslations mmu)) (io_sent io @ [m]) (io_nextID io) (io_Mem io) (io_PWC io) ans"
    by (rule walks_ok_more) (use assms m in \<open>auto simp: mmu_inv_def\<close>)
  then show ?thesis using assms Cons
    by (auto simp: topSender_Tick_def Sender_Tick_def bufferImpl_defs port_Send_def mmu_inv_def sender_ok_def)
qed (use assms in \<open>simp add: topSender_Tick_def Sender_Tick_def bufferImpl_defs\<close>)

lemma walkPageTable_inv:
  assumes "mmu_world env mem lg R" "mmu_inv env mem lg M Q R mmu io ans"
  shows "\<exists>r. walkPageTable env mmu io = Inr r \<and> mmu_inv env mem lg M Q R (fst (snd r)) (snd (snd r)) ans"
proof -
  have "walks_ok env mem lg M Q R (set [] \<union> set (mmu_walkingTranslations mmu)) (io_sent io) (io_nextID io) (io_Mem io) (io_PWC io) ans"
    "pt_ok lg M R (mmu_pageTable mmu)" using assms(2) by (simp_all add: mmu_inv_def)
  then obtain mmu' io' where "walk_loop env (mmu_walkingTranslations mmu) [] mmu io = Inr (mmu', io')" "io_frame io io'" "io_topSender io' = io_topSender io"
    "pt_ok lg M R (mmu_pageTable mmu')" "walks_ok env mem lg M Q R (set (mmu_walkingTranslations mmu')) (io_sent io') (io_nextID io') (io_Mem io) (io_PWC io) ans"
    using walk_loop_ok [OF assms(1)] by blast
  then show ?thesis using assms(2) by (simp add: walkPageTable_def mmu_inv_def io_frame_def)
qed

lemma walks_ok_pop:
  assumes "walks_ok env mem lg M Q R W sent n memq pwcq ans"
  shows "memq = m # memq' \<Longrightarrow> walks_ok env mem lg M Q R W sent n memq' pwcq ans"
    "pwcq = m # pwcq' \<Longrightarrow> walks_ok env mem lg M Q R W sent n memq pwcq' ans"
  using assms by (auto simp: walks_ok_def)

lemma parseFromPageWalkCache_inv:
  fixes mmu :: "'m MMUImpl"
  assumes world: "mmu_world env mem lg R" and inv: "mmu_inv env mem lg M Q R mmu io ans"
  shows "\<exists>r. parseFromPageWalkCache mmu io = Inr r \<and> mmu_inv env mem lg M Q R (fst (snd r)) (snd (snd r)) ans"
proof (cases "io_PWC io")
  case (Cons m rest)
  have w: "walks_ok env mem lg M Q R (set (mmu_walkingTranslations mmu)) (io_sent io) (io_nextID io) (io_Mem io) (io_PWC io) ans"
    using inv by (simp add: mmu_inv_def)
  then have m: "pwc_ok lg R (set (mmu_walkingTranslations mmu)) ans m" using Cons by (simp add: walks_ok_def)
  show ?thesis
  proof (cases m)
    case (DataReadyRsp ident d i)
    let ?ts = "mmu_walkingTranslations mmu"
    let ?body = "\<lambda>tr mmu io. if tr_msgID tr = ident then pwc_answer d tr mmu io else Inr (tr, mmu, io)"
    let ?I = "\<lambda>W (mmu' :: 'm MMUImpl) io'. io' = io \<and> pt_ok lg M R (mmu_pageTable mmu') \<and> walks_ok env mem lg M Q R W (io_sent io) (io_nextID io) (io_Mem io) rest ans"
    have q: "ident \<notin> set (concat (map msg_id (io_Mem io @ rest)))" "ident \<in> ans" using w m by (auto simp: walks_ok_def Cons DataReadyRsp)
    have "\<exists>ts' mmu' io'. for_each ?body ?ts mmu io = Inr (ts', mmu', io') \<and> ?I ({} \<union> set ts') mmu' io'"
    proof (rule for_each_ok)
      fix tr W mmu' io' assume tr: "tr \<in> set ?ts" "?I (insert tr W) mmu' io'"
      have st: "tr_state tr = sentToPageWalkCache" "d = None \<or> (\<exists>x. d = Some x \<and> pwc_data_ok lg R (tr_req tr) x)" if "tr_msgID tr = ident"
        using m tr(1) that by (auto simp: DataReadyRsp)
      show "\<exists>tr' mmu'' io''. ?body tr mmu' io' = Inr (tr', mmu'', io'') \<and> ?I (insert tr' W) mmu'' io''"
      proof (cases "tr_msgID tr = ident")
        case True
        from True q have q': "tr_msgID tr \<in> ans" "tr_msgID tr \<notin> set (concat (map msg_id (io_Mem io @ rest)))" by simp_all
        show ?thesis using pwc_answer_ok [OF world _ _ st(1) [OF True] q' st(2) [OF True]] tr(2) True by fastforce
      qed (use tr(2) in simp)
    next
      show "?I ({} \<union> set ?ts) mmu io" using inv walks_ok_pop(2) [OF w Cons] by (simp add: mmu_inv_def)
    qed
    then obtain ts' mmu' where f: "for_each ?body ?ts mmu io = Inr (ts', mmu', io)" "?I (set ts') mmu' io" by auto
    have "parseFromPageWalkCache mmu io = Inr (True, mmu'\<lparr>mmu_walkingTranslations := ts'\<rparr>, io\<lparr>io_PWC := rest\<rparr>)"
      using f(1) by (simp add: parseFromPageWalkCache_def Cons DataReadyRsp handlePageWalkCacheResponse_def)
    then show ?thesis using f(2) inv by (simp add: mmu_inv_def)
  next
    case (WriteDoneRsp ident)
    then show ?thesis using inv walks_ok_pop(2) [OF w Cons] by (simp add: parseFromPageWalkCache_def Cons mmu_inv_def)
  qed (use m in simp)
qed (use inv in \<open>simp add: parseFromPageWalkCache_def\<close>)

lemma parseFromMem_inv:
  fixes mmu :: "'m MMUImpl"
  assumes world: "mmu_world env mem lg R" and inv: "mmu_inv env mem lg M Q R mmu io ans"
  shows "\<exists>r. parseFromMem env mmu io = Inr r \<and> mmu_inv env mem lg M Q R (fst (snd r)) (snd (snd r)) ans"
proof (cases "io_Mem io")
  case (Cons m rest)
  have w: "walks_ok env mem lg M Q R (set (mmu_walkingTranslations mmu)) (io_sent io) (io_nextID io) (io_Mem io) (io_PWC io) ans"
    using inv by (simp add: mmu_inv_def)
  then have m: "mem_ok mem lg R (set (mmu_walkingTranslations mmu)) ans m" using Cons by (simp add: walks_ok_def)
  then obtain ident d x where M: "m = DataReadyRsp ident d (Some x)" "info_ok x" by (cases m) auto
  let ?ts = "mmu_walkingTranslations mmu"
  let ?body = "\<lambda>tr mmu io. if tr_msgID tr = ident then mem_answer env d (Some x) tr mmu io else Inr (tr, mmu, io)"
  let ?I = "\<lambda>W (mmu' :: 'm MMUImpl) io'. io_frame io io' \<and> sender_ok lg M Q (io_topSender io') \<and> pt_ok lg M R (mmu_pageTable mmu') \<and>
    walks_ok env mem lg M Q R W (io_sent io') (io_nextID io') rest (io_PWC io) ans"
  have q: "ident \<notin> set (concat (map msg_id (rest @ io_PWC io)))" "ident \<in> ans" using w m by (auto simp: walks_ok_def Cons M)
  have "\<exists>ts' mmu' io'. for_each ?body ?ts mmu io = Inr (ts', mmu', io') \<and> ?I ({} \<union> set ts') mmu' io'"
  proof (rule for_each_ok)
    fix tr W mmu' io' assume tr: "tr \<in> set ?ts" "?I (insert tr W) mmu' io'"
    have st: "tr_state tr = sentToMem" "d = Some (Uint64ToBytes (mem (slot_addr lg R (tr_req tr) (tr_level tr))))" if "tr_msgID tr = ident"
      using m tr(1) that by (auto simp: M)
    show "\<exists>tr' mmu'' io''. ?body tr mmu' io' = Inr (tr', mmu'', io'') \<and> ?I (insert tr' W) mmu'' io''"
    proof (cases "tr_msgID tr = ident")
      case True
      from True q have q': "tr_msgID tr \<in> ans" "tr_msgID tr \<notin> set (concat (map msg_id (rest @ io_PWC io)))" by simp_all
      show ?thesis using mem_answer_ok [OF world _ _ st(1) [OF True] q' st(2) [OF True] refl M(2)] tr(2) True io_frame_trans by fastforce
    qed (use tr(2) in simp)
  next
    show "?I ({} \<union> set ?ts) mmu io" using inv walks_ok_pop(1) [OF w Cons] by (simp add: mmu_inv_def)
  qed
  then obtain ts' mmu' io' where f: "for_each ?body ?ts mmu io = Inr (ts', mmu', io')" "?I (set ts') mmu' io'" by auto
  have "parseFromMem env mmu io = Inr (True, mmu'\<lparr>mmu_walkingTranslations := ts'\<rparr>, io'\<lparr>io_Mem := rest\<rparr>)"
    using f(1) by (simp add: parseFromMem_def Cons M handleMemResponse_def)
  then show ?thesis using f(2) inv by (simp add: mmu_inv_def io_frame_def)
qed (use inv in \<open>simp add: parseFromMem_def\<close>)

lemma walks_ok_start:
  assumes world: "mmu_world env mem lg R" and w: "walks_ok env mem lg M Q R W sent n memq pwcq ans" and tr: "tr_ok lg M Q R tr" "tr_msgID tr = ''invalid''"
  shows "walks_ok env mem lg M Q R (insert tr W) sent n memq pwcq ans"
proof -
  have a: "ident \<in> ans \<Longrightarrow> ident \<noteq> ''invalid''" "used env n ident \<Longrightarrow> ident \<noteq> ''invalid''" for ident
    using w used_not_invalid [OF world] unfolding walks_ok_def by blast+
  have "sent_ok env lg M Q R n (insert tr W) ans m" if "sent_ok env lg M Q R n W ans m" for m using that a(2) tr(2) by (cases m) auto
  moreover have "mem_ok mem lg R (insert tr W) ans m" if "mem_ok mem lg R W ans m" for m using that a(1) tr(2) by (cases m) auto
  moreover have "pwc_ok lg R (insert tr W) ans m" if "pwc_ok lg R W ans m" for m using that a(1) tr(2) by (cases m) auto
  ultimately show ?thesis using w tr unfolding walks_ok_def by auto
qed

lemma parseFromTop_inv:
  assumes world: "mmu_world env mem lg R" and inv: "mmu_inv env mem lg M Q R mmu io ans"
  shows "\<exists>r. parseFromTop mmu io = Inr r \<and> mmu_inv env mem lg M Q R (fst (snd r)) (snd (snd r)) ans"
proof (cases "int (length (mmu_walkingTranslations mmu)) \<ge> mmu_maxRequestsInFlight mmu \<or> io_ToTop io = []")
  case True
  then show ?thesis using inv by (auto simp: parseFromTop_def)
next
  case False
  then obtain req p rest where m: "io_ToTop io = TranslationReqMsg req # rest" "mapped lg M Q req p"
    using inv by (cases "io_ToTop io") (auto simp: mmu_inv_def)
  have pt: "pt_ok lg M R (mmu_pageTable mmu)" using inv by (simp add: mmu_inv_def)
  obtain pt1 where 1: "Rearrange (tq_VAddr req) (mmu_pageTable mmu) = (Inr (rear lg (tq_VAddr req)), pt1)" "pt_ok lg M R pt1" using Rearrange_ok [OF pt] by blast
  obtain pt2 where 2: "GetRoot (tq_PID req) pt1 = (Inr (naddr lg R req 0), pt2)" "pt_ok lg M R pt2" using GetRoot_ok [OF 1(2) m(2)] by blast
  let ?tr = "\<lparr>tr_req = req, tr_page = no_page, tr_level = 0, tr_msgID = ''invalid'', tr_state = newTransaction,
    tr_PPN = naddr lg R req 0, tr_vAddr = rear lg (tq_VAddr req)\<rparr>"
  have "tr_ok lg M Q R ?tr" using m(2) by (auto simp: tr_ok_def vaddr_at_def)
  moreover have "walks_ok env mem lg M Q R (set (mmu_walkingTranslations mmu)) (io_sent io) (io_nextID io) (io_Mem io) (io_PWC io) ans"
    using inv by (simp add: mmu_inv_def)
  ultimately have "walks_ok env mem lg M Q R (insert ?tr (set (mmu_walkingTranslations mmu))) (io_sent io) (io_nextID io) (io_Mem io) (io_PWC io) ans"
    using walks_ok_start [OF world] by simp
  then show ?thesis using False m(1) 1(1) 2 inv by (auto simp: parseFromTop_def startWalking_def mmu_inv_def)
qed

lemma mmu_Tick_inv:
  assumes world: "mmu_world env mem lg R" and inv: "mmu_inv env mem lg M Q R mmu io ans"
  shows "\<exists>r. mmu_Tick env mmu io = Inr r \<and> mmu_inv env mem lg M Q R (fst (snd r)) (snd (snd r)) ans"
proof -
  obtain b1 m1 i1 where 1: "performCtrlReq env mmu io = Inr (b1, m1, i1)" "mmu_inv env mem lg M Q R m1 i1 ans"
    using performCtrlReq_inv [OF world inv] by auto
  obtain b2 i2 where 2: "topSender_Tick env i1 = (b2, i2)" "mmu_inv env mem lg M Q R m1 i2 ans" using topSender_Tick_inv [OF 1(2)] by (cases "topSender_Tick env i1") auto
  obtain b3 m3 i3 where 3: "walkPageTable env m1 i2 = Inr (b3, m3, i3)" "mmu_inv env mem lg M Q R m3 i3 ans"
    using walkPageTable_inv [OF world 2(2)] by auto
  obtain b4 m4 i4 where 4: "parseFromPageWalkCache m3 i3 = Inr (b4, m4, i4)" "mmu_inv env mem lg M Q R m4 i4 ans"
    using parseFromPageWalkCache_inv [OF world 3(2)] by auto
  obtain b5 m5 i5 where 5: "parseFromMem env m4 i4 = Inr (b5, m5, i5)" "mmu_inv env mem lg M Q R m5 i5 ans"
    using parseFromMem_inv [OF world 4(2)] by auto
  obtain b6 m6 i6 where 6: "parseFromTop m5 i5 = Inr (b6, m6, i6)" "mmu_inv env mem lg M Q R m6 i6 ans"
    using parseFromTop_inv [OF world 5(2)] by auto
  show ?thesis using 1(1) 2(1) 3(1) 4(1) 5(1) 6 by (simp add: mmu_Tick_def)
qed

section \<open>The neighbours keep the invariant\<close>

lemma walks_ok_answer:
  assumes w: "walks_ok env mem lg M Q R W sent n memq pwcq ans" and u: "used env n ident" and new: "ident \<notin> ans"
  shows "mem_ok mem lg R W (insert ident ans) (DataReadyRsp ident d i) \<Longrightarrow>
      walks_ok env mem lg M Q R W sent n (memq @ [DataReadyRsp ident d i]) pwcq (insert ident ans)"
    "pwc_ok lg R W (insert ident ans) (DataReadyRsp ident d i) \<Longrightarrow>
      walks_ok env mem lg M Q R W sent n memq (pwcq @ [DataReadyRsp ident d i]) (insert ident ans)"
proof -
  have "sent_ok env lg M Q R n W (insert ident ans) m" if "sent_ok env lg M Q R n W ans m" for m using that by (cases m) auto
  moreover have "mem_ok mem lg R W (insert ident ans) m" if "mem_ok mem lg R W ans m" for m using that by (cases m) auto
  moreover have "pwc_ok lg R W (insert ident ans) m" if "pwc_ok lg R W ans m" for m using that by (cases m) auto
  moreover have "set (msg_id m) \<subseteq> ans" if "m \<in> set (memq @ pwcq)" for m using w that mem_ok_id pwc_ok_id unfolding walks_ok_def by fastforce
  then have "ident \<notin> set (concat (map msg_id (memq @ pwcq)))" using new by fastforce
  ultimately show "mem_ok mem lg R W (insert ident ans) (DataReadyRsp ident d i) \<Longrightarrow>
      walks_ok env mem lg M Q R W sent n (memq @ [DataReadyRsp ident d i]) pwcq (insert ident ans)"
    "pwc_ok lg R W (insert ident ans) (DataReadyRsp ident d i) \<Longrightarrow>
      walks_ok env mem lg M Q R W sent n memq (pwcq @ [DataReadyRsp ident d i]) (insert ident ans)"
    using w u by (auto simp: walks_ok_def)
qed

lemma pwc_data_shared:
  assumes world: "mmu_world env mem lg R" and d: "pwc_data_ok lg R req' d" "BytesToUint64 d = Inr w"
    and same: "tq_PID req' = tq_PID req" "take (Suc (unat (w AND 3))) (page_path lg (tq_VAddr req)) = take (Suc (unat (w AND 3))) (page_path lg (tq_VAddr req'))"
  shows "pwc_data_ok lg R req d"
proof -
  obtain l where l: "l < 3" "d = Uint64ToBytes (naddr lg R req' (Suc l) OR of_nat l)" using d(1) by (auto simp: pwc_data_ok_def)
  then have "unat (w AND 3) = l" using d(2) low_bits(3) [OF naddr_aligned [OF world, of "Suc l" req'] l(1)] by simp
  then have "naddr lg R req (Suc l) = naddr lg R req' (Suc l)" using same by (simp add: naddr_def node_at_def)
  then show ?thesis using l by (auto simp: pwc_data_ok_def)
qed

lemma mmu_step_inv:
  assumes "mmu_step env mem lg M Q s s'" and world: "mmu_world env mem lg R" and inv: "mmu_inv env mem lg M Q R (sy_mmu s) (sy_io s) (sy_answered s)"
  shows "mmu_inv env mem lg M Q R (sy_mmu s') (sy_io s') (sy_answered s')"
  using assms(1) inv
proof (induction rule: mmu_step.induct)
  case (tick s b mmu io)
  then show ?case using mmu_Tick_inv [OF world, of M Q "sy_mmu s" "sy_io s" "sy_answered s"] by simp
next
  case (memory ident pid a dst s i)
  let ?W = "set (mmu_walkingTranslations (sy_mmu s))"
  have w: "walks_ok env mem lg M Q R ?W (io_sent (sy_io s)) (io_nextID (sy_io s)) (io_Mem (sy_io s)) (io_PWC (sy_io s)) (sy_answered s)"
    using memory.prems by (simp add: mmu_inv_def)
  then have o: "sent_ok env lg M Q R (io_nextID (sy_io s)) ?W (sy_answered s) (MemRead ident pid a dst)" using memory.hyps(1) unfolding walks_ok_def by blast
  then have "mem_ok mem lg R ?W (insert ident (sy_answered s)) (DataReadyRsp ident (Some (Uint64ToBytes (mem a))) (Some i))" using memory.hyps(2,3) by auto
  then show ?case using walks_ok_answer(1) [OF w _ memory.hyps(2)] o memory.prems by (simp add: mmu_inv_def)
next
  case (pwc_miss ident pid a s i)
  let ?W = "set (mmu_walkingTranslations (sy_mmu s))"
  have w: "walks_ok env mem lg M Q R ?W (io_sent (sy_io s)) (io_nextID (sy_io s)) (io_Mem (sy_io s)) (io_PWC (sy_io s)) (sy_answered s)"
    using pwc_miss.prems by (simp add: mmu_inv_def)
  then have o: "sent_ok env lg M Q R (io_nextID (sy_io s)) ?W (sy_answered s) (PWCRead ident pid a)" using pwc_miss.hyps(1) unfolding walks_ok_def by blast
  then have "pwc_ok lg R ?W (insert ident (sy_answered s)) (DataReadyRsp ident None i)" using pwc_miss.hyps(2) by auto
  then show ?case using walks_ok_answer(2) [OF w _ pwc_miss.hyps(2)] o pwc_miss.prems by (simp add: mmu_inv_def)
next
  case (pwc_hit ident pid a s ident' a' d w i)
  let ?W = "set (mmu_walkingTranslations (sy_mmu s))"
  have w: "walks_ok env mem lg M Q R ?W (io_sent (sy_io s)) (io_nextID (sy_io s)) (io_Mem (sy_io s)) (io_PWC (sy_io s)) (sy_answered s)"
    using pwc_hit.prems by (simp add: mmu_inv_def)
  then have o: "sent_ok env lg M Q R (io_nextID (sy_io s)) ?W (sy_answered s) (PWCRead ident pid a)"
    "sent_ok env lg M Q R (io_nextID (sy_io s)) ?W (sy_answered s) (PWCWrite ident' pid a' d)" using pwc_hit.hyps(1,3) unfolding walks_ok_def by blast+
  then obtain req where req: "pid = tq_PID req" "page_path lg a' = page_path lg (tq_VAddr req)" "pwc_data_ok lg R req d" by auto
  have "pwc_data_ok lg R (tr_req tr) d" if "tr \<in> ?W" "tr_msgID tr = ident" for tr
    by (rule pwc_data_shared [OF world req(3) pwc_hit.hyps(4)]) (use o(1) that pwc_hit.hyps(2,5) req in auto)
  then have "pwc_ok lg R ?W (insert ident (sy_answered s)) (DataReadyRsp ident (Some d) i)" using o(1) pwc_hit.hyps(2) by auto
  then show ?case using walks_ok_answer(2) [OF w _ pwc_hit.hyps(2)] o(1) pwc_hit.prems by (simp add: mmu_inv_def)
next
  case (pwc_done s ident)
  then show ?case by (simp add: mmu_inv_def walks_ok_def)
qed (auto simp: mmu_inv_def)

section \<open>Properties\<close>

definition mmu_start :: "'m MMUImpl \<times> mmu_io \<Rightarrow> 'm mmu_system" where
  "mmu_start x = \<lparr>sy_mmu = fst x, sy_io = snd x, sy_answered = {}\<rparr>"

lemma mmu_start_inv:
  assumes "mmu_world env mem lg (root_of pt)" "pt_wf lg pt" "mmu_Build (Some pt) maxRequests = Inr x"
  shows "mmu_inv env mem lg (pt_pages pt) Q (root_of pt) (sy_mmu (mmu_start x)) (sy_io (mmu_start x)) (sy_answered (mmu_start x))"
  using assms by (auto simp: mmu_start_def mmu_Build_def mmu_inv_def pt_ok_def sender_ok_def NewBuffer_def walks_ok_def)

lemma mmu_reach_inv:
  assumes "(mmu_step env mem lg (pt_pages pt) Q)\<^sup>*\<^sup>* (mmu_start x) s"
    and "mmu_world env mem lg (root_of pt)" "pt_wf lg pt" "mmu_Build (Some pt) maxRequests = Inr x"
  shows "mmu_inv env mem lg (pt_pages pt) Q (root_of pt) (sy_mmu s) (sy_io s) (sy_answered s)"
  using assms(1) by (induction rule: rtranclp_induct) (auto intro: mmu_start_inv [OF assms(2-4)] mmu_step_inv [OF _ assms(2)])

text \<open>
  Claim C15. The MMU translates: among neighbours that answer every read with the word in memory and every page-walk-cache
  lookup with nothing or a matching fill, with any number of walks interleaved in any way, a tick of the MMU never panics, and every
  response it sends belongs to a request that was made and carries the physical address of the page the page table holds for
  the requested address.
\<close>

theorem MMU_translates:
  assumes "(mmu_step env mem lg (pt_pages pt) Q)\<^sup>*\<^sup>* (mmu_start x) s"
    and "mmu_world env mem lg (root_of pt)" "pt_wf lg pt" "mmu_Build (Some pt) maxRequests = Inr x"
  shows "(\<exists>r. mmu_Tick env (sy_mmu s) (sy_io s) = Inr r) \<and>
    (\<forall>ident dst rspTo pg. TranslationRsp ident dst rspTo pg \<in> set (io_sent (sy_io s)) \<longrightarrow>
       (\<exists>req \<in> Q. dst = tq_Src req \<and> rspTo = tq_ID req \<and> pg_PID pg = tq_PID req \<and> pg_VAddr pg = tq_VAddr req \<and>
          (\<exists>p. pt_pages pt (tq_PID req, push_bit lg (drop_bit lg (tq_VAddr req))) = Some p \<and> pg_PAddr pg = pg_PAddr p)))"
proof -
  note inv = mmu_reach_inv [OF assms]
  have "rsp_ok lg (pt_pages pt) Q dst rspTo pg" if "TranslationRsp ident dst rspTo pg \<in> set (io_sent (sy_io s))" for ident dst rspTo pg
    using inv that unfolding mmu_inv_def walks_ok_def by (metis sent_ok.simps(4))
  then show ?thesis using mmu_Tick_inv [OF assms(2) inv] by (auto simp: rsp_ok_def mapped_def) blast
qed

lemma MMU_full_sender_loses_response:
  assumes "tr_level tr = 3" "info_ok x" "fst (pt_Find (tq_PID (tr_req tr)) (tq_VAddr (tr_req tr)) (mmu_pageTable mmu)) = Some p"
    and "1 \<le> buf_capacity (io_topSender io)" "int (length (buf_elements (io_topSender io))) = buf_capacity (io_topSender io)"
  shows "\<exists>tr' mmu'. mem_answer env (Some (Uint64ToBytes (pg_PAddr p))) (Some x) tr mmu io = Inr (tr', mmu', io) \<and>
    tr_state tr' = transactionFinished"
proof -
  obtain cs where c: "getChipletNum (ri_Src x) = Inr cs" using assms(2) by (auto simp: info_ok_def getChipletNum_def)
  obtain rs where a: "getAccessResultString (ri_AccessResult x) = Inr rs"
    using assms(2) by (auto simp: info_ok_def getAccessResultString_def numeral_2_eq_2 le_Suc_eq)
  obtain pt' where f: "pt_Find (tq_PID (tr_req tr)) (tq_VAddr (tr_req tr)) (mmu_pageTable mmu) = (Some p, pt')"
    using assms(3) by (cases "pt_Find (tq_PID (tr_req tr)) (tq_VAddr (tr_req tr)) (mmu_pageTable mmu)") auto
  show ?thesis using assms(1,4,5) c a f
    by (simp add: mem_answer_def finalizeTransaction_def Let_def doPageWalkHit_def CanSend_def bufferImpl_defs)
qed

text \<open>A walk through the page table of one page that the memory holds.\<close>

definition env0 :: mmu_env where
  "env0 = \<lparr>env_Generate = (\<lambda>k. replicate k CHR ''a''), env_accepts = (\<lambda>_ _. True), env_Find = (\<lambda>_. Inr ''GPU.Chip.L2'')\<rparr>"

lemma lookup_chain: "lookup js (chain a c) = (case js of [] \<Rightarrow> Some (chain a c) | j # js' \<Rightarrow> if j = 0 then lookup js' c else None)"
  by (cases js) (auto simp: chain_def nth_list_update)

lemma chain_addr [simp]: "tn_pAddr (chain a c) = a"
  by (simp add: chain_def)

lemma env0_world: "mmu_world env0 (\<lambda>a. if a = 0x4000 then 0x7000 else a + 0x1000) 12 (root_of pt0)"
proof -
  have r: "root_of pt0 pid = (if pid = 1 then Some tree0 else None)" for pid
    by (simp add: root_of_def pt0_def put_table_def SetMemoryAllocator_def NewPageTable_def)
  have "replicate k CHR ''a'' \<noteq> ''invalid''" for k by (cases k) auto
  moreover have "take_bit 2 (tn_pAddr c) = 0" if "lookup js tree0 = Some c" "length js < 4" for js c
    using that by (auto simp: tree0_def lookup_chain split: list.splits if_splits)
  moreover have "inj (\<lambda>k. replicate k CHR ''a'')" by (rule injI) (metis length_replicate)
  ultimately show ?thesis unfolding mmu_world_def r using tree0_memory by (auto simp: env0_def)
qed

definition req0 :: TranslationReq where
  "req0 = \<lparr>tq_ID = ''r'', tq_Src = ''TLB'', tq_PID = 1, tq_VAddr = 0x234\<rparr>"

lemma req0_mapped: "mapped 12 (pt_pages pt0) {req0} req0 page0"
proof -
  have "push_bit 12 (drop_bit 12 (0x234 :: u64)) = 0" by code_simp
  then show ?thesis by (simp add: mapped_def req0_def pt_pages_def pt0_def put_table_def pt_find_def)
qed

theorem MMU_translates_witness:
  "\<exists>x s r. (mmu_step env0 (\<lambda>a. if a = 0x4000 then 0x7000 else a + 0x1000) 12 (pt_pages pt0) {req0})\<^sup>*\<^sup>* (mmu_start x) s \<and>
     mmu_Build (Some pt0) 8 = Inr x \<and> io_ToTop (sy_io s) = [TranslationReqMsg req0] \<and> mmu_Tick env0 (sy_mmu s) (sy_io s) = Inr r"
proof -
  obtain x where x: "mmu_Build (Some pt0) 8 = Inr x" "io_ToTop (snd x) = []" by (simp add: mmu_Build_def)
  let ?s = "(mmu_start x)\<lparr>sy_io := (snd x)\<lparr>io_ToTop := [TranslationReqMsg req0]\<rparr>\<rparr>"
  from mmu_step.request [OF req0_mapped, of env0 "\<lambda>a. if a = 0x4000 then 0x7000 else a + 0x1000" "mmu_start x"]
  have s: "(mmu_step env0 (\<lambda>a. if a = 0x4000 then 0x7000 else a + 0x1000) 12 (pt_pages pt0) {req0})\<^sup>*\<^sup>* (mmu_start x) ?s"
    using x(2) by (simp add: mmu_start_def r_into_rtranclp)
  obtain r where "mmu_Tick env0 (sy_mmu ?s) (sy_io ?s) = Inr r" using MMU_translates [OF s env0_world pt0_wf x(1)] by blast
  then show ?thesis using s x(1) by (intro exI [of _ x] exI [of _ ?s] exI [of _ r]) simp
qed

end
