(* ===== verification/MMU_Lost.thy ===== *)
theory MMU_Lost
  imports MMU_Walks
begin

text \<open>
  What becomes of a request to the page-walk cache that its connection refuses. \<^verbatim>\<open>walkPageTable\<close> drops the error of \<^verbatim>\<open>Send\<close> and lets
  the transaction wait for an answer under an identifier that no message carries. The invariant \<open>lost\<close> says that a transaction waits and
  that nothing sent, about to be sent or received has its identifier; every operation of \<open>MMU\<close> and every step of the neighbours keeps
  it, so the transaction waits for ever and holds one of the places for walks.
\<close>

section \<open>Connections that change their mind\<close>

text \<open>
  A step of \<open>mmu_step\<close> in which the connections accept and refuse as they like; the port to the command processor, whose refusal of
  the collected statistics panics, accepts those.
\<close>

definition takes_stats :: "(mmu_out list \<Rightarrow> mmu_out \<Rightarrow> bool) \<Rightarrow> bool" where
  "takes_stats acc \<longleftrightarrow> (\<forall>xs i. acc xs (CollectedStats i))"

definition any_step ::
    "mmu_env \<Rightarrow> (u64 \<Rightarrow> u64) \<Rightarrow> nat \<Rightarrow> (u32 \<times> u64 \<rightharpoonup> Page) \<Rightarrow> TranslationReq set \<Rightarrow> 'm mmu_system \<Rightarrow> 'm mmu_system \<Rightarrow> bool" where
  "any_step env mem lg M Q s s' \<longleftrightarrow> (\<exists>acc. takes_stats acc \<and> mmu_step (env\<lparr>env_accepts := acc\<rparr>) mem lg M Q s s')"

lemma mmu_world_accepts: "mmu_world env mem lg R \<Longrightarrow> takes_stats acc \<Longrightarrow> mmu_world (env\<lparr>env_accepts := acc\<rparr>) mem lg R"
  by (auto simp: mmu_world_def takes_stats_def)

lemma used_accepts [simp]: "used (env\<lparr>env_accepts := acc\<rparr>) = used env"
  by (intro ext) (simp add: used_def)

lemma sent_ok_accepts [simp]: "sent_ok (env\<lparr>env_accepts := acc\<rparr>) = sent_ok env"
proof (intro ext)
  show "sent_ok (env\<lparr>env_accepts := acc\<rparr>) lg M Q R n W ans m = sent_ok env lg M Q R n W ans m" for lg M Q R n W ans m by (cases m) auto
qed

lemma mmu_inv_accepts [simp]: "mmu_inv (env\<lparr>env_accepts := acc\<rparr>) = mmu_inv env"
  by (intro ext) (simp add: mmu_inv_def walks_ok_def)

lemma any_reach_inv:
  assumes "(any_step env mem lg (pt_pages pt) Q)\<^sup>*\<^sup>* (mmu_start x) s"
    and "mmu_world env mem lg (root_of pt)" "pt_wf lg pt" "mmu_Build (Some pt) maxRequests = Inr x"
  shows "mmu_inv env mem lg (pt_pages pt) Q (root_of pt) (sy_mmu s) (sy_io s) (sy_answered s)"
  using assms(1)
proof (induction rule: rtranclp_induct)
  case (step s s')
  then obtain acc where acc: "takes_stats acc" "mmu_step (env\<lparr>env_accepts := acc\<rparr>) mem lg (pt_pages pt) Q s s'" by (auto simp: any_step_def)
  show ?case using mmu_step_inv [OF acc(2) mmu_world_accepts [OF assms(2) acc(1)]] step.IH by simp
qed (rule mmu_start_inv [OF assms(2-4)])

section \<open>Identifiers nobody asks under\<close>

fun asks :: "string \<Rightarrow> mmu_out \<Rightarrow> bool" where
  "asks ident (PWCRead ident' _ _) \<longleftrightarrow> ident' = ident"
| "asks ident (MemRead ident' _ _ _) \<longleftrightarrow> ident' = ident"
| "asks ident _ \<longleftrightarrow> False"

definition unasked :: "string \<Rightarrow> mmu_io \<Rightarrow> bool" where
  "unasked ident io \<longleftrightarrow> (\<forall>m \<in> set (io_sent io) \<union> set (buf_elements (io_topSender io)). \<not> asks ident m) \<and>
     (\<forall>m \<in> set (io_Mem io) \<union> set (io_PWC io). ident \<notin> set (msg_id m))"

definition quiet :: "mmu_env \<Rightarrow> string \<Rightarrow> mmu_io \<Rightarrow> bool" where
  "quiet env ident io \<longleftrightarrow> inj (env_Generate env) \<and> used env (io_nextID io) ident \<and> unasked ident io"

definition lost :: "mmu_env \<Rightarrow> transaction \<Rightarrow> transaction list \<Rightarrow> mmu_io \<Rightarrow> bool" where
  "lost env tr ts io \<longleftrightarrow> tr \<in> set ts \<and> tr_state tr = sentToPageWalkCache \<and> quiet env (tr_msgID tr) io"

lemma quiet_accepts [simp]: "quiet (env\<lparr>env_accepts := acc\<rparr>) = quiet env"
  by (intro ext) (simp add: quiet_def)

lemma lost_accepts [simp]: "lost (env\<lparr>env_accepts := acc\<rparr>) = lost env"
  by (intro ext) (simp add: lost_def)

lemma unaskedD:
  assumes "unasked ident io"
  shows "PWCRead ident pid a \<notin> set (io_sent io)" "MemRead ident pid a dst \<notin> set (io_sent io)" "DataReadyRsp ident d i \<notin> set (io_PWC io)"
proof -
  have "\<not> asks ident m" if "m \<in> set (io_sent io)" for m using assms that by (simp add: unasked_def)
  then show "PWCRead ident pid a \<notin> set (io_sent io)" "MemRead ident pid a dst \<notin> set (io_sent io)" by (metis asks.simps(1), metis asks.simps(2))
  have "ident \<notin> set (msg_id m)" if "m \<in> set (io_PWC io)" for m using assms that by (simp add: unasked_def)
  then show "DataReadyRsp ident d i \<notin> set (io_PWC io)" by (metis list.set_intros(1) msg_id.simps(1))
qed

text \<open>An identifier not yet generated is one under which nobody asked.\<close>

lemma next_unasked:
  assumes "mmu_world env mem lg R" "walks_ok env mem lg M Q R W (io_sent io) (io_nextID io) (io_Mem io) (io_PWC io) ans"
    and "sender_ok lg M Q (io_topSender io)"
  shows "unasked (env_Generate env (io_nextID io)) io"
proof -
  let ?g = "env_Generate env (io_nextID io)"
  have new: "\<not> used env (io_nextID io) ?g" using used_not_new [OF assms(1)] by blast
  have asked: "used env (io_nextID io) ident" if "sent_ok env lg M Q R (io_nextID io) W ans m" "asks ident m" for ident m
    using that by (cases m) auto
  have "\<forall>m \<in> set (io_sent io). sent_ok env lg M Q R (io_nextID io) W ans m" using assms(2) by (simp add: walks_ok_def)
  then have "\<not> asks ?g m" if "m \<in> set (io_sent io)" for m using that asked new by blast
  moreover have "\<not> asks ?g m" if "m \<in> set (buf_elements (io_topSender io))" for m
    using that assms(3) by (auto simp: sender_ok_def)
  moreover have "set (msg_id m) \<subseteq> ans" if "m \<in> set (io_Mem io) \<union> set (io_PWC io)" for m
    using assms(2) that mem_ok_id pwc_ok_id unfolding walks_ok_def by (meson UnE)
  then have "?g \<notin> set (msg_id m)" if "m \<in> set (io_Mem io) \<union> set (io_PWC io)" for m
    using assms(2) that new unfolding walks_ok_def by blast
  ultimately show ?thesis by (auto simp: unasked_def)
qed

section \<open>Every operation keeps a lost transaction\<close>

lemma quiet_Generate:
  assumes "quiet env ident io" "Generate env io = (new, io')"
  shows "quiet env ident io'" "new \<noteq> ident"
proof -
  have u: "used env (io_nextID io) ident" "inj (env_Generate env)" using assms(1) by (simp_all add: quiet_def)
  then have "used env (Suc (io_nextID io)) ident" using used_mono by simp
  then show "quiet env ident io'" using assms by (auto simp: Generate_def quiet_def unasked_def)
  show "new \<noteq> ident" using assms(2) u by (auto simp: Generate_def used_def dest: injD)
qed

lemma quiet_Send: "quiet env ident io \<Longrightarrow> \<not> asks ident m \<Longrightarrow> port_Send env m io = (b, io') \<Longrightarrow> quiet env ident io'"
  by (auto simp: port_Send_def quiet_def unasked_def split: if_splits)

lemma quiet_Sender_Send:
  assumes "quiet env ident io" "\<not> asks ident m" "Sender_Send bufferImpl m (io_topSender io) = Inr b"
  shows "quiet env ident (io\<lparr>io_topSender := b\<rparr>)"
  using assms by (auto simp: Sender_Send_def bufferImpl_defs quiet_def unasked_def split: if_splits)

lemma quiet_pop:
  assumes "quiet env ident io" "\<forall>m \<in> set rest. ident \<notin> set (msg_id m)"
  shows "quiet env ident (io\<lparr>io_Mem := rest\<rparr>)" "quiet env ident (io\<lparr>io_PWC := rest\<rparr>)"
  using assms by (auto simp: quiet_def unasked_def)

lemma walk_one_quiet:
  assumes "quiet env ident io" "walk_one env tr mmu io = Inr (tr', mmu', io')"
  shows "quiet env ident io'"
proof -
  obtain new io1 where g: "Generate env io = (new, io1)" by (cases "Generate env io")
  note q = quiet_Generate [OF assms(1) g]
  have s: "quiet env ident (snd (port_Send env m io1))" if "\<not> asks ident m" for m
    using quiet_Send [OF q(1) that] by (cases "port_Send env m io1") simp
  show ?thesis using assms q(2)
    by (auto simp: walk_one_def sendToPageWalkCache_def sendToMem_def g split_beta Let_def bindR_eq_Inr intro!: s split: transactionState.splits if_splits)
qed

lemma walk_one_waits: "tr_state tr = sentToPageWalkCache \<Longrightarrow> walk_one env tr mmu io = Inr (tr, mmu, io)"
  by (simp add: walk_one_def)

lemma walk_loop_lost:
  assumes "lost env tr (tmp @ ts) io" "walk_loop env ts tmp mmu io = Inr (mmu', io')"
  shows "lost env tr (mmu_walkingTranslations mmu') io'"
  using assms
proof (induction ts arbitrary: tmp mmu io)
  case (Cons t ts)
  obtain t1 m1 i1 where 1: "walk_one env t mmu io = Inr (t1, m1, i1)" using Cons.prems(2) by (auto simp: bindR_eq_Inr)
  have l: "tr_state tr = sentToPageWalkCache" "quiet env (tr_msgID tr) i1" using Cons.prems(1) walk_one_quiet [OF _ 1] by (auto simp: lost_def)
  have "t1 = t" if "t = tr" using walk_one_waits [of t env mmu io] 1 l(1) that by simp
  then have m: "tr = t1 \<or> tr \<in> set (tmp @ ts)" using Cons.prems(1) by (auto simp: lost_def)
  show ?case
  proof (cases "tr_state t1 = transactionFinished")
    case True
    then have "lost env tr (tmp @ ts) i1" using m l by (auto simp: lost_def)
    then show ?thesis using Cons.IH [of tmp i1 "count_finished m1"] Cons.prems(2) 1 True by simp
  next
    case False
    have "lost env tr ((tmp @ [t1]) @ ts) i1" using m l by (auto simp: lost_def)
    then show ?thesis using Cons.IH [of "tmp @ [t1]" i1 m1] Cons.prems(2) 1 False by simp
  qed
qed auto

lemma for_each_keeps:
  assumes "\<And>t mmu io t' mmu' io'. P io \<Longrightarrow> body t mmu io = Inr (t', mmu', io') \<Longrightarrow> P io'"
    and "\<And>mmu io. body tr mmu io = Inr (tr, mmu, io)"
    and "P io" "for_each body ts mmu io = Inr (ts', mmu', io')"
  shows "P io' \<and> (tr \<in> set ts \<longrightarrow> tr \<in> set ts')"
  using assms(3,4)
proof (induction ts arbitrary: ts' mmu io)
  case (Cons t ts)
  obtain t1 m1 i1 ts1 where 1: "body t mmu io = Inr (t1, m1, i1)" "for_each body ts m1 i1 = Inr (ts1, mmu', io')" "ts' = t1 # ts1"
    using Cons.prems(2) by (auto simp: bindR_eq_Inr)
  then show ?case using Cons.IH [OF assms(1) [OF Cons.prems(1) 1(1)] 1(2)] assms(2) by auto
qed simp

lemma pwc_answer_io: "pwc_answer d tr mmu io = Inr (tr', mmu', io') \<Longrightarrow> io' = io"
  by (auto simp: pwc_answer_def bindR_eq_Inr Let_def split_beta split: option.splits)

lemma doPageWalkHit_quiet:
  assumes "quiet env ident io" "doPageWalkHit env tr io = Inr (b, io')"
  shows "quiet env ident io'"
proof -
  obtain new io1 where g: "Generate env io = (new, io1)" by (cases "Generate env io")
  have "quiet env ident (io1\<lparr>io_topSender := x\<rparr>)" if "Sender_Send bufferImpl (TranslationRsp new p q r) (io_topSender io1) = Inr x" for x p q r
    by (rule quiet_Sender_Send [OF quiet_Generate(1) [OF assms(1) g] _ that]) simp
  then show ?thesis using assms
    by (auto simp: doPageWalkHit_def g bindR_eq_Inr Let_def split: if_splits)
qed

lemma mem_answer_quiet:
  assumes "quiet env ident io" "mem_answer env d i tr mmu io = Inr (tr', mmu', io')"
  shows "quiet env ident io'"
proof -
  obtain new io1 where g: "Generate env io = (new, io1)" by (cases "Generate env io")
  have "quiet env ident (snd (port_Send env (PWCWrite new pid a w) io1))" for pid a w
    using quiet_Send [OF quiet_Generate(1) [OF assms(1) g], of "PWCWrite new pid a w"] by (cases "port_Send env (PWCWrite new pid a w) io1") auto
  then show ?thesis using assms doPageWalkHit_quiet [OF assms(1)]
    by (auto simp: mem_answer_def finalizeTransaction_def fillPageWalkCache_def g bindR_eq_Inr Let_def split_beta split: option.splits if_splits)
qed

lemma parseFromPageWalkCache_lost:
  assumes "lost env tr (mmu_walkingTranslations mmu) io" "parseFromPageWalkCache mmu io = Inr (b, mmu', io')"
  shows "lost env tr (mmu_walkingTranslations mmu') io'"
proof (cases "io_PWC io")
  case (Cons m rest)
  have rest: "lost env tr ts (io\<lparr>io_PWC := rest\<rparr>)" if "tr \<in> set ts" for ts
    using assms(1) that Cons quiet_pop(2) [of env "tr_msgID tr" io rest] by (auto simp: lost_def quiet_def unasked_def)
  show ?thesis
  proof (cases m)
    case (DataReadyRsp ident d i)
    have ne: "tr_msgID tr \<noteq> ident" using assms(1) Cons DataReadyRsp by (auto simp: lost_def quiet_def unasked_def)
    obtain ts m1 i1 where f: "for_each (\<lambda>tr mmu io. if tr_msgID tr = ident then pwc_answer d tr mmu io else Inr (tr, mmu, io))
        (mmu_walkingTranslations mmu) mmu io = Inr (ts, m1, i1)" "mmu' = m1\<lparr>mmu_walkingTranslations := ts\<rparr>" "io' = i1\<lparr>io_PWC := rest\<rparr>"
      using assms(2) by (auto simp: parseFromPageWalkCache_def handlePageWalkCacheResponse_def Cons DataReadyRsp bindR_eq_Inr)
    have "i1 = io \<and> (tr \<in> set (mmu_walkingTranslations mmu) \<longrightarrow> tr \<in> set ts)"
      by (rule for_each_keeps [OF _ _ _ f(1)]) (use ne in \<open>auto dest: pwc_answer_io split: if_splits\<close>)
    then show ?thesis using rest [of ts] f(2,3) assms(1) by (auto simp: lost_def)
  qed (use assms rest in \<open>auto simp: parseFromPageWalkCache_def Cons lost_def\<close>)
qed (use assms in \<open>auto simp: parseFromPageWalkCache_def\<close>)

lemma parseFromMem_lost:
  assumes "lost env tr (mmu_walkingTranslations mmu) io" "parseFromMem env mmu io = Inr (b, mmu', io')"
  shows "lost env tr (mmu_walkingTranslations mmu') io'"
proof (cases "io_Mem io")
  case (Cons m rest)
  obtain ident d i where m: "m = DataReadyRsp ident d i" using assms(2) by (cases m) (auto simp: parseFromMem_def Cons)
  have ne: "tr_msgID tr \<noteq> ident" using assms(1) Cons m by (auto simp: lost_def quiet_def unasked_def)
  obtain ts m1 i1 where f: "for_each (\<lambda>tr mmu io. if tr_msgID tr = ident then mem_answer env d i tr mmu io else Inr (tr, mmu, io))
      (mmu_walkingTranslations mmu) mmu io = Inr (ts, m1, i1)" "mmu' = m1\<lparr>mmu_walkingTranslations := ts\<rparr>" "io' = i1\<lparr>io_Mem := rest\<rparr>"
    using assms(2) by (auto simp: parseFromMem_def handleMemResponse_def Cons m bindR_eq_Inr)
  have rest: "\<forall>m \<in> set rest. tr_msgID tr \<notin> set (msg_id m)" using assms(1) Cons by (auto simp: lost_def quiet_def unasked_def)
  have "quiet env (tr_msgID tr) i1 \<and> (tr \<in> set (mmu_walkingTranslations mmu) \<longrightarrow> tr \<in> set ts)"
    by (rule for_each_keeps [OF _ _ _ f(1)]) (use ne assms(1) in \<open>auto simp: lost_def dest: mem_answer_quiet split: if_splits\<close>)
  then show ?thesis using f(2,3) assms(1) quiet_pop(1) [OF _ rest] by (simp add: lost_def)
qed (use assms in \<open>auto simp: parseFromMem_def\<close>)

lemma performCtrlReq_lost:
  assumes "lost env tr (mmu_walkingTranslations mmu) io" "performCtrlReq env mmu io = Inr (b, mmu', io')"
  shows "lost env tr (mmu_walkingTranslations mmu') io'"
proof -
  have q: "tr \<in> set (mmu_walkingTranslations mmu)" "tr_state tr = sentToPageWalkCache" "quiet env (tr_msgID tr) io" using assms(1) by (auto simp: lost_def)
  obtain new io1 where g: "Generate env io = (new, io1)" by (cases "Generate env io")
  have c: "quiet env (tr_msgID tr) (i\<lparr>io_Control := cs\<rparr>)" if "quiet env (tr_msgID tr) i" for i cs using that by (simp add: quiet_def unasked_def)
  have "quiet env (tr_msgID tr) i" if "port_Send env (CollectedStats new) io1 = (a, i)" for a i
    by (rule quiet_Send [OF quiet_Generate(1) [OF q(3) g] _ that]) simp
  then show ?thesis using assms(2) q
    by (auto simp: performCtrlReq_def sendCollectedStatsToCP_def switchIndexing_def g bindR_eq_Inr Let_def lost_def
        split: list.splits ctrl_msg.splits prod.splits if_splits intro!: c)
qed

lemma topSender_Tick_lost:
  assumes "lost env tr ts io"
  shows "lost env tr ts (snd (topSender_Tick env io))"
  using assms by (cases "buf_elements (io_topSender io)")
    (auto simp: topSender_Tick_def Sender_Tick_def bufferImpl_defs port_Send_def lost_def quiet_def unasked_def)

lemma parseFromTop_lost:
  assumes "lost env tr (mmu_walkingTranslations mmu) io" "parseFromTop mmu io = Inr (b, mmu', io')"
  shows "lost env tr (mmu_walkingTranslations mmu') io'"
  using assms by (auto simp: parseFromTop_def startWalking_def bindR_eq_Inr Let_def split_beta lost_def quiet_def unasked_def split: if_splits list.splits top_msg.splits)

text \<open>The part of a tick behind the walks, and the whole tick.\<close>

lemma answers_lost:
  assumes "lost env tr (mmu_walkingTranslations mmu) io"
    and "bindR (parseFromPageWalkCache mmu io) (\<lambda>(_, mmu, io). bindR (parseFromMem env mmu io) (\<lambda>(_, mmu, io).
      bindR (parseFromTop mmu io) (\<lambda>(_, mmu, io). Inr (True, mmu, io)))) = Inr (b, mmu', io')"
  shows "lost env tr (mmu_walkingTranslations mmu') io'"
proof -
  obtain b1 m1 i1 b2 m2 i2 b3 where "parseFromPageWalkCache mmu io = Inr (b1, m1, i1)" "parseFromMem env m1 i1 = Inr (b2, m2, i2)"
    "parseFromTop m2 i2 = Inr (b3, mmu', io')" using assms(2) by (auto simp: bindR_eq_Inr)
  then show ?thesis using parseFromPageWalkCache_lost [OF assms(1)] parseFromMem_lost parseFromTop_lost by metis
qed

lemma mmu_Tick_lost:
  assumes "lost env tr (mmu_walkingTranslations mmu) io" "mmu_Tick env mmu io = Inr (b, mmu', io')"
  shows "lost env tr (mmu_walkingTranslations mmu') io'"
proof -
  obtain b1 m1 i1 m2 i2 where t: "performCtrlReq env mmu io = Inr (b1, m1, i1)"
    "walk_loop env (mmu_walkingTranslations m1) [] m1 (snd (topSender_Tick env i1)) = Inr (m2, i2)"
    "bindR (parseFromPageWalkCache m2 i2) (\<lambda>(_, mmu, io). bindR (parseFromMem env mmu io) (\<lambda>(_, mmu, io).
      bindR (parseFromTop mmu io) (\<lambda>(_, mmu, io). Inr (True, mmu, io)))) = Inr (b, mmu', io')"
    using assms(2) by (auto simp: mmu_Tick_def walkPageTable_def bindR_eq_Inr split_beta)
  have "lost env tr ([] @ mmu_walkingTranslations m1) (snd (topSender_Tick env i1))"
    using topSender_Tick_lost [OF performCtrlReq_lost [OF assms(1) t(1)]] by simp
  from answers_lost [OF walk_loop_lost [OF this t(2)] t(3)] show ?thesis .
qed

lemma mmu_step_lost:
  assumes "mmu_step env mem lg M Q s s'" "lost env tr (mmu_walkingTranslations (sy_mmu s)) (sy_io s)"
  shows "lost env tr (mmu_walkingTranslations (sy_mmu s')) (sy_io s')"
  using assms
proof (induction rule: mmu_step.induct)
  case (tick s b mmu io)
  then show ?case using mmu_Tick_lost by simp
next
  case (memory ident pid a dst s i)
  then have "ident \<noteq> tr_msgID tr" using unaskedD(2) by (auto simp: lost_def quiet_def)
  then show ?case using memory.prems by (auto simp: lost_def quiet_def unasked_def)
next
  case (pwc_miss ident pid a s i)
  then have "ident \<noteq> tr_msgID tr" using unaskedD(1) by (auto simp: lost_def quiet_def)
  then show ?case using pwc_miss.prems by (auto simp: lost_def quiet_def unasked_def)
next
  case (pwc_hit ident pid a s ident' a' d w i)
  then have "ident \<noteq> tr_msgID tr" using unaskedD(1) by (auto simp: lost_def quiet_def)
  then show ?case using pwc_hit.prems by (auto simp: lost_def quiet_def unasked_def)
qed (auto simp: lost_def quiet_def unasked_def)

lemma any_steps_lost:
  assumes "(any_step env mem lg M Q)\<^sup>*\<^sup>* s s'" "lost env tr (mmu_walkingTranslations (sy_mmu s)) (sy_io s)"
  shows "lost env tr (mmu_walkingTranslations (sy_mmu s')) (sy_io s')"
  using assms by (induction rule: rtranclp_induct) (auto simp: any_step_def dest: mmu_step_lost)

section \<open>A refused request\<close>

lemma refused_lost:
  assumes "mmu_world env mem lg R" "walks_ok env mem lg M Q R W (io_sent io) (io_nextID io) (io_Mem io) (io_PWC io) ans"
    and "sender_ok lg M Q (io_topSender io)" "tr_state tr = newTransaction" "\<And>xs ident pid a. \<not> env_accepts env xs (PWCRead ident pid a)"
  shows "\<exists>tr' io'. walk_one env tr mmu io = Inr (tr', mmu, io') \<and> tr_req tr' = tr_req tr \<and> lost env tr' [tr'] io'"
proof -
  have "inj (env_Generate env)" using assms(1) by (simp add: mmu_world_def)
  then show ?thesis using assms(4,5) next_unasked [OF assms(1-3)] used_new [of env "io_nextID io"]
    by (auto simp: walk_one_def sendToPageWalkCache_def Generate_def port_Send_def Let_def lost_def quiet_def unasked_def)
qed

lemma walk_loop_refused:
  assumes "mmu_world env mem lg R" "\<And>xs ident pid a. \<not> env_accepts env xs (PWCRead ident pid a)" "tr_state tr = newTransaction"
    and "pt_ok lg M R (mmu_pageTable mmu)" "walks_ok env mem lg M Q R (set tmp \<union> set ts) (io_sent io) (io_nextID io) (io_Mem io) (io_PWC io) ans"
    and "sender_ok lg M Q (io_topSender io)" "tr \<in> set ts" "walk_loop env ts tmp mmu io = Inr (mmu', io')"
  shows "\<exists>tr'. tr_req tr' = tr_req tr \<and> lost env tr' (mmu_walkingTranslations mmu') io'"
  using assms(4-8)
proof (induction ts arbitrary: tmp mmu io)
  case (Cons t ts)
  show ?case
  proof (cases "t = tr")
    case True
    obtain tr' i1 where 1: "walk_one env tr mmu io = Inr (tr', mmu, i1)" "tr_req tr' = tr_req tr" "lost env tr' [tr'] i1"
      using refused_lost [OF assms(1) Cons.prems(2,3) assms(3,2)] by blast
    then have "lost env tr' ((tmp @ [tr']) @ ts) i1" "walk_loop env ts (tmp @ [tr']) mmu i1 = Inr (mmu', io')"
      using Cons.prems(5) True by (auto simp: lost_def)
    then show ?thesis using walk_loop_lost 1(2) by blast
  next
    case False
    have "set tmp \<union> set (t # ts) = insert t (set tmp \<union> set ts)" by simp
    then obtain t1 m1 i1 where 1: "walk_one env t mmu io = Inr (t1, m1, i1)" "io_frame io i1" "io_topSender i1 = io_topSender io"
      "pt_ok lg M R (mmu_pageTable m1)" "walks_ok env mem lg M Q R (insert t1 (set tmp \<union> set ts)) (io_sent i1) (io_nextID i1) (io_Mem io) (io_PWC io) ans"
      using walk_one_ok [OF assms(1) Cons.prems(1)] Cons.prems(2) by metis
    have q: "io_Mem i1 = io_Mem io" "io_PWC i1 = io_PWC io" "tr \<in> set ts" using 1(2) False Cons.prems(4) by (auto simp: io_frame_def)
    show ?thesis
    proof (cases "tr_state t1 = transactionFinished")
      case True
      have "walks_ok env mem lg M Q R (set tmp \<union> set ts) (io_sent i1) (io_nextID i1) (io_Mem i1) (io_PWC i1) ans"
        unfolding q by (rule walks_ok_subset [OF 1(5)]) blast
      then show ?thesis using Cons.IH [of "count_finished m1" tmp i1] 1 q(3) Cons.prems(3,5) True by simp
    next
      case False
      then show ?thesis using Cons.IH [of m1 "tmp @ [t1]" i1] 1 q Cons.prems(3,5) by simp
    qed
  qed
qed simp

lemma mmu_Tick_refused:
  assumes world: "mmu_world env mem lg R" and inv: "mmu_inv env mem lg M Q R mmu io ans"
    and "\<And>xs ident pid a. \<not> env_accepts env xs (PWCRead ident pid a)" "tr \<in> set (mmu_walkingTranslations mmu)" "tr_state tr = newTransaction"
  shows "\<exists>b mmu' io' tr'. mmu_Tick env mmu io = Inr (b, mmu', io') \<and> tr_req tr' = tr_req tr \<and> lost env tr' (mmu_walkingTranslations mmu') io'"
proof -
  obtain b mmu' io' where t: "mmu_Tick env mmu io = Inr (b, mmu', io')" using mmu_Tick_inv [OF world inv] by auto
  obtain b1 m1 i1 m2 i2 where u: "performCtrlReq env mmu io = Inr (b1, m1, i1)"
    "walk_loop env (mmu_walkingTranslations m1) [] m1 (snd (topSender_Tick env i1)) = Inr (m2, i2)"
    "bindR (parseFromPageWalkCache m2 i2) (\<lambda>(_, mmu, io). bindR (parseFromMem env mmu io) (\<lambda>(_, mmu, io).
      bindR (parseFromTop mmu io) (\<lambda>(_, mmu, io). Inr (True, mmu, io)))) = Inr (b, mmu', io')"
    using t by (auto simp: mmu_Tick_def walkPageTable_def bindR_eq_Inr split_beta)
  have "mmu_walkingTranslations m1 = mmu_walkingTranslations mmu"
    using u(1) by (auto simp: performCtrlReq_def bindR_eq_Inr switchIndexing_def split: list.splits ctrl_msg.splits if_splits)
  moreover have "mmu_inv env mem lg M Q R m1 (snd (topSender_Tick env i1)) ans"
    using topSender_Tick_inv performCtrlReq_inv [OF world inv] u(1) by fastforce
  ultimately obtain tr' where "tr_req tr' = tr_req tr" "lost env tr' (mmu_walkingTranslations m2) i2"
    using walk_loop_refused [OF world assms(3,5) _ _ _ _ u(2), of M Q ans] assms(4) by (auto simp: mmu_inv_def)
  then show ?thesis using t answers_lost [OF _ u(3)] by blast
qed

text \<open>
  Claim C39. A request the page-walk cache's connection refuses is lost. In any state the MMU reaches, let a tick begin with a walk that has not
  asked the page-walk cache yet and in which the connection refuses its requests. The tick does not panic, and from then on, whatever the
  neighbours do and whatever the connections accept in later ticks, the transaction is among the walks and waits for an answer of the
  page-walk cache: it is never changed and so never finished, no request was or will be sent under the identifier it waits for, and no
  answer with that identifier arrives.
\<close>

theorem MMU_refused_request_is_lost:
  assumes "(any_step env mem lg (pt_pages pt) Q)\<^sup>*\<^sup>* (mmu_start x) s"
    and "mmu_world env mem lg (root_of pt)" "pt_wf lg pt" "mmu_Build (Some pt) maxRequests = Inr x"
    and "tr \<in> set (mmu_walkingTranslations (sy_mmu s))" "tr_state tr = newTransaction"
    and "takes_stats acc" "\<forall>xs ident pid a. \<not> acc xs (PWCRead ident pid a)"
  shows "\<exists>b mmu io tr'. mmu_Tick (env\<lparr>env_accepts := acc\<rparr>) (sy_mmu s) (sy_io s) = Inr (b, mmu, io) \<and>
    tr_req tr' = tr_req tr \<and> tr_state tr' = sentToPageWalkCache \<and>
    (\<forall>s'. (any_step env mem lg (pt_pages pt) Q)\<^sup>*\<^sup>* (s\<lparr>sy_mmu := mmu, sy_io := io\<rparr>) s' \<longrightarrow>
       tr' \<in> set (mmu_walkingTranslations (sy_mmu s')) \<and> (\<forall>pid a. PWCRead (tr_msgID tr') pid a \<notin> set (io_sent (sy_io s'))) \<and>
       (\<forall>d i. DataReadyRsp (tr_msgID tr') d i \<notin> set (io_PWC (sy_io s'))))"
proof -
  have "\<not> env_accepts (env\<lparr>env_accepts := acc\<rparr>) xs (PWCRead ident pid a)" for xs ident pid a using assms(8) by simp
  from mmu_Tick_refused [OF mmu_world_accepts [OF assms(2,7)] _ this assms(5,6)] any_reach_inv [OF assms(1-4)]
  obtain b mmu io tr' where t: "mmu_Tick (env\<lparr>env_accepts := acc\<rparr>) (sy_mmu s) (sy_io s) = Inr (b, mmu, io)" "tr_req tr' = tr_req tr"
    "lost env tr' (mmu_walkingTranslations mmu) io" by (metis lost_accepts mmu_inv_accepts)
  have "lost env tr' (mmu_walkingTranslations (sy_mmu s')) (sy_io s')"
    if "(any_step env mem lg (pt_pages pt) Q)\<^sup>*\<^sup>* (s\<lparr>sy_mmu := mmu, sy_io := io\<rparr>) s'" for s' using any_steps_lost [OF that] t(3) by simp
  then have "tr' \<in> set (mmu_walkingTranslations (sy_mmu s')) \<and> (\<forall>pid a. PWCRead (tr_msgID tr') pid a \<notin> set (io_sent (sy_io s'))) \<and>
       (\<forall>d i. DataReadyRsp (tr_msgID tr') d i \<notin> set (io_PWC (sy_io s')))"
    if "(any_step env mem lg (pt_pages pt) Q)\<^sup>*\<^sup>* (s\<lparr>sy_mmu := mmu, sy_io := io\<rparr>) s'" for s'
    using that by (simp add: lost_def quiet_def unaskedD)
  then show ?thesis using t(1,2,3) unfolding lost_def by blast
qed

text \<open>The walk of \<open>req0\<close>, which has been taken from the port and not asked yet.\<close>

lemma env0_any_step: "mmu_step env0 mem lg M Q s s' \<Longrightarrow> any_step env0 mem lg M Q s s'"
  unfolding any_step_def by (rule exI [of _ "env_accepts env0"]) (simp add: takes_stats_def env0_def)

lemma req0_started:
  obtains x s tr where "mmu_Build (Some pt0) 8 = Inr x" "(any_step env0 mem 12 (pt_pages pt0) {req0})\<^sup>*\<^sup>* (mmu_start x) s"
    "tr \<in> set (mmu_walkingTranslations (sy_mmu s))" "tr_state tr = newTransaction" "tr_req tr = req0"
proof -
  have pt: "pt_ok 12 (pt_pages pt0) (root_of pt0) pt0" using pt0_wf by (simp add: pt_ok_def)
  obtain x where x: "mmu_Build (Some pt0) 8 = Inr x" by (simp add: mmu_Build_def)
  let ?s = "(mmu_start x)\<lparr>sy_io := (snd x)\<lparr>io_ToTop := [TranslationReqMsg req0]\<rparr>\<rparr>"
  have s: "any_step env0 mem 12 (pt_pages pt0) {req0} (mmu_start x) ?s"
    using env0_any_step [OF mmu_step.request [OF req0_mapped, of env0 mem "mmu_start x"]] x by (auto simp: mmu_start_def mmu_Build_def)
  obtain r pt1 where 1: "Rearrange (tq_VAddr req0) pt0 = (Inr r, pt1)" "pt_ok 12 (pt_pages pt0) (root_of pt0) pt1" using Rearrange_ok [OF pt] by blast
  obtain a pt2 where 2: "GetRoot (tq_PID req0) pt1 = (Inr a, pt2)" using GetRoot_ok [OF 1(2) req0_mapped] by blast
  let ?tr = "\<lparr>tr_req = req0, tr_page = no_page, tr_level = 0, tr_msgID = ''invalid'', tr_state = newTransaction, tr_PPN = a, tr_vAddr = r\<rparr>"
  obtain b mmu io where t: "mmu_Tick env0 (sy_mmu ?s) (sy_io ?s) = Inr (b, mmu, io)" "mmu_walkingTranslations mmu = [?tr]"
    using x 1(1) 2 by (auto simp: mmu_start_def mmu_Build_def mmu_Tick_def performCtrlReq_def topSender_Tick_def Sender_Tick_def bufferImpl_defs NewBuffer_def
        walkPageTable_def parseFromPageWalkCache_def parseFromMem_def parseFromTop_def startWalking_def)
  from env0_any_step [OF mmu_step.tick [OF t(1), of mem 12 "pt_pages pt0" "{req0}"]] s
  have "(any_step env0 mem 12 (pt_pages pt0) {req0})\<^sup>*\<^sup>* (mmu_start x) (?s\<lparr>sy_mmu := mmu, sy_io := io\<rparr>)" by (meson rtranclp.rtrancl_into_rtrancl r_into_rtranclp)
  then show ?thesis by (rule that [OF x, of _ ?tr]) (simp_all add: t(2))
qed

theorem MMU_refused_request_is_lost_witness:
  "\<exists>(s :: u64 mmu_system) b mmu io tr. mmu_Tick (env0\<lparr>env_accepts := \<lambda>_ m. case m of PWCRead _ _ _ \<Rightarrow> False | _ \<Rightarrow> True\<rparr>) (sy_mmu s) (sy_io s) = Inr (b, mmu, io) \<and>
     tr_req tr = req0 \<and> tr_state tr = sentToPageWalkCache \<and>
     {s'. (any_step env0 (\<lambda>a. if a = 0x4000 then 0x7000 else a + 0x1000) 12 (pt_pages pt0) {req0})\<^sup>*\<^sup>* (s\<lparr>sy_mmu := mmu, sy_io := io\<rparr>) s'} \<subseteq>
       {s'. tr \<in> set (mmu_walkingTranslations (sy_mmu s'))}"
proof -
  let ?acc = "\<lambda>_ m. case m of PWCRead _ _ _ \<Rightarrow> False | _ \<Rightarrow> True" and ?mem = "\<lambda>a. if a = 0x4000 then 0x7000 else a + 0x1000 :: u64"
  obtain x s tr where s: "mmu_Build (Some pt0) 8 = Inr x" "(any_step env0 ?mem 12 (pt_pages pt0) {req0})\<^sup>*\<^sup>* (mmu_start x) s"
    "tr \<in> set (mmu_walkingTranslations (sy_mmu s))" "tr_state tr = newTransaction" "tr_req tr = req0" by (rule req0_started)
  have "takes_stats ?acc" "\<forall>xs ident pid a. \<not> ?acc xs (PWCRead ident pid a)" by (simp_all add: takes_stats_def)
  from MMU_refused_request_is_lost [OF s(2) env0_world pt0_wf s(1,3,4) this]
  obtain b mmu io tr' where "mmu_Tick (env0\<lparr>env_accepts := ?acc\<rparr>) (sy_mmu s) (sy_io s) = Inr (b, mmu, io)" "tr_req tr' = tr_req tr"
    "tr_state tr' = sentToPageWalkCache" and later: "\<forall>s'. (any_step env0 ?mem 12 (pt_pages pt0) {req0})\<^sup>*\<^sup>* (s\<lparr>sy_mmu := mmu, sy_io := io\<rparr>) s' \<longrightarrow>
       tr' \<in> set (mmu_walkingTranslations (sy_mmu s')) \<and> (\<forall>pid a. PWCRead (tr_msgID tr') pid a \<notin> set (io_sent (sy_io s'))) \<and>
       (\<forall>d i. DataReadyRsp (tr_msgID tr') d i \<notin> set (io_PWC (sy_io s')))" by (elim exE conjE) (rule that)
  then show ?thesis using s(5) by (intro exI [of _ s] exI [of _ b] exI [of _ mmu] exI [of _ io] exI [of _ tr'] conjI subsetI) auto
qed

end
