(* ===== verification/Sim_World.thy ===== *)
theory Sim_World
  imports Connection
begin

text \<open>
  What a component sees of the rest of a simulation: the process-wide identifier generator
  (\<^verbatim>\<open>akita/idgenerator.go\<close>) and the ports it peeks into, retrieves from and sends through. A component's definitions take
  these operations as an argument (\<open>world_ops\<close>) and pass a world through; the locale \<open>port_world\<close> states what a component
  relies on. The world of this repository is \<open>sim\<close>: ports of \<^verbatim>\<open>LimitNumMsgPort\<close> plugged into any number of direct connections
  and the sequential generator, and it interprets the locale.

  Three things are recorded that the code does not keep: the messages the connections accepted, the identifiers generated
  and the tick events scheduled.
\<close>

section \<open>Identifiers\<close>

text \<open>\<^verbatim>\<open>strconv.FormatUint(n, 10)\<close>.\<close>

definition digit :: "nat \<Rightarrow> char" where
  "digit d = ''0123456789'' ! d"

fun decimal :: "nat \<Rightarrow> string" where
  "decimal n = (if n < 10 then [digit n] else decimal (n div 10) @ [digit (n mod 10)])"

declare decimal.simps [simp del]

definition FormatUint :: "u64 \<Rightarrow> string" where
  "FormatUint n = decimal (unat n)"

text \<open>\<^verbatim>\<open>Generate\<close> of the sequential generator, whose state is the number \<^verbatim>\<open>nextID\<close>.\<close>

definition sequentialIDGenerator_Generate :: "u64 \<Rightarrow> string \<times> u64" where
  "sequentialIDGenerator_Generate nextID = (let idNumber = nextID + 1 in (FormatUint idNumber, idNumber))"

text \<open>The first \<open>k\<close> identifiers.\<close>

definition first_ids :: "nat \<Rightarrow> string list" where
  "first_ids k = map (\<lambda>i. FormatUint (of_nat (Suc i))) [0..<k]"

lemma less_10_cases: "d < 10 \<longleftrightarrow> d \<in> {0, 1, 2, 3, 4, 5, 6, 7, 8, 9::nat}"
  by auto

lemma digit_inj: "d < 10 \<Longrightarrow> e < 10 \<Longrightarrow> digit d = digit e \<Longrightarrow> d = e"
  unfolding less_10_cases by (elim insertE emptyE) (simp_all add: digit_def)

lemma decimal_ne: "decimal n \<noteq> []"
  by (subst decimal.simps) simp

lemma decimal_inj: "decimal m = decimal n \<Longrightarrow> m = n"
proof (induction m arbitrary: n rule: decimal.induct)
  case (1 m)
  have d: "m mod 10 < 10" "n mod 10 < 10" by simp_all
  show ?case
  proof (cases "m < 10 \<or> n < 10")
    case True
    with "1.prems" show ?thesis using decimal_ne [of "m div 10"] decimal_ne [of "n div 10"]
      by (subst (asm) (1 2) decimal.simps) (auto split: if_splits intro: digit_inj)
  next
    case False
    with "1.prems" have "decimal (m div 10) = decimal (n div 10)" "digit (m mod 10) = digit (n mod 10)"
      by (subst (asm) (1 2) decimal.simps, simp)+
    then have "m div 10 = n div 10" "m mod 10 = n mod 10" using "1.IH" False digit_inj d by auto
    then show ?thesis by (metis div_mult_mod_eq)
  qed
qed

text \<open>As long as the counter has not wrapped around, no identifier is generated twice.\<close>

lemma first_ids_distinct:
  assumes "k < 2 ^ 64"
  shows "distinct (first_ids k)"
proof -
  have "inj_on (\<lambda>i. FormatUint (of_nat (Suc i))) {0..<k}"
  proof (rule inj_onI)
    fix i j assume *: "i \<in> {0..<k}" "j \<in> {0..<k}" "FormatUint (of_nat (Suc i)) = FormatUint (of_nat (Suc j))"
    then have "unat (of_nat (Suc i) :: u64) = unat (of_nat (Suc j) :: u64)" unfolding FormatUint_def by (metis decimal_inj)
    then show "i = j" using *(1,2) assms by (simp add: unat_of_nat del: of_nat_Suc)
  qed
  then show ?thesis by (simp add: first_ids_def distinct_map)
qed

lemma Generate_next:
  "sequentialIDGenerator_Generate (of_nat k) = (i, n) \<Longrightarrow> first_ids k @ [i] = first_ids (Suc k) \<and> n = of_nat (Suc k)"
  by (auto simp: sequentialIDGenerator_Generate_def first_ids_def Let_def add.commute)

section \<open>The operations of a world\<close>

record ('w, 't, 'b) world_ops =
  wPeek :: "port \<Rightarrow> 'w \<Rightarrow> ('t, 'b) Msg option"
  wRetrieve :: "'t \<Rightarrow> port \<Rightarrow> 'w \<Rightarrow> (('t, 'b) Msg option \<times> 'w) result"
  wSend :: "port \<Rightarrow> ('t, 'b) Msg \<Rightarrow> 'w \<Rightarrow> (bool \<times> 'w) result"
  wGenerate :: "'w \<Rightarrow> string \<times> 'w"

text \<open>
  What can be said of a world: the messages waiting in a port, the messages sent and accepted so far, the identifiers generated
  so far, and which ports a connection links.
\<close>

record ('w, 't, 'b) world_view =
  vWaiting :: "'w \<Rightarrow> port \<Rightarrow> ('t, 'b) Msg list"
  vSent :: "'w \<Rightarrow> ('t, 'b) Msg list"
  vGenerated :: "'w \<Rightarrow> string list"
  vLinked :: "'w \<Rightarrow> port \<Rightarrow> port \<Rightarrow> bool"

text \<open>The loop \<^verbatim>\<open>for p.Retrieve(now) != nil {}\<close>.\<close>

partial_function (option) retrieve_all :: "('w, 't, 'b) world_ops \<Rightarrow> 't \<Rightarrow> port \<Rightarrow> 'w \<Rightarrow> 'w result option" where
  [code]: "retrieve_all W now p w =
     (case wRetrieve W now p w of
        Inl e \<Rightarrow> Some (Inl e)
      | Inr (None, w') \<Rightarrow> Some (Inr w')
      | Inr (Some _, w') \<Rightarrow> retrieve_all W now p w')"

definition drain_port :: "('w, 't, 'b) world_ops \<Rightarrow> 't \<Rightarrow> port \<Rightarrow> 'w \<Rightarrow> 'w result" where
  "drain_port W now p w = (case retrieve_all W now p w of None \<Rightarrow> Inl Diverges | Some r \<Rightarrow> r)"

text \<open>
  A step that touches neither what waits in the ports nor which ports are linked, sends \<open>ms\<close> and may generate identifiers.
\<close>

definition sends :: "('w, 't, 'b) world_view \<Rightarrow> ('t, 'b) Msg list \<Rightarrow> 'w \<Rightarrow> 'w \<Rightarrow> bool" where
  "sends V ms w w' \<longleftrightarrow> vWaiting V w' = vWaiting V w \<and> vSent V w' = vSent V w @ ms \<and>
     (\<exists>ids. vGenerated V w' = vGenerated V w @ ids) \<and> vLinked V w' = vLinked V w"

text \<open>A step that takes the messages \<open>ms\<close> out of the port \<open>p\<close>.\<close>

definition takes :: "('w, 't, 'b) world_view \<Rightarrow> port \<Rightarrow> ('t, 'b) Msg list \<Rightarrow> 'w \<Rightarrow> 'w \<Rightarrow> bool" where
  "takes V p ms w w' \<longleftrightarrow> vWaiting V w p = ms @ vWaiting V w' p \<and> (\<forall>q. q \<noteq> p \<longrightarrow> vWaiting V w' q = vWaiting V w q) \<and>
     vSent V w' = vSent V w \<and> (\<exists>ids. vGenerated V w' = vGenerated V w @ ids) \<and> vLinked V w' = vLinked V w"

lemma takes_trans: "takes V p ms w w' \<Longrightarrow> takes V p ms' w' w'' \<Longrightarrow> takes V p (ms @ ms') w w''"
  by (auto simp: takes_def)

text \<open>The messages sent from a port.\<close>

definition sent_by :: "('w, 't, 'b) world_view \<Rightarrow> 'w \<Rightarrow> port \<Rightarrow> ('t, 'b) Msg list" where
  "sent_by V w p = filter (\<lambda>m. m_Src m = Some p) (vSent V w)"

text \<open>The sender of a message can be reached from the port.\<close>

definition from_linked :: "('w, 't, 'b) world_view \<Rightarrow> 'w \<Rightarrow> port \<Rightarrow> ('t, 'b) Msg \<Rightarrow> bool" where
  "from_linked V w p m \<longleftrightarrow> (\<exists>d. m_Src m = Some d \<and> vLinked V w p d)"

lemma sends_sent_by:
  assumes "sends V ms w w'"
  shows "sent_by V w' p = sent_by V w p @ filter (\<lambda>m. m_Src m = Some p) ms"
  using assms by (simp add: sends_def sent_by_def)

lemma takes_sent_by: "takes V q ms w w' \<Longrightarrow> sent_by V w' p = sent_by V w p"
  by (simp add: takes_def sent_by_def)

lemma sends_trans: "sends V ms w w' \<Longrightarrow> sends V ms' w' w'' \<Longrightarrow> sends V (ms @ ms') w w''"
  by (auto simp: sends_def)

locale port_world =
  fixes W :: "('w, 't::linordered_idom, 'b) world_ops" and V :: "('w, 't, 'b) world_view"
  assumes Peek: "wPeek W p w = (case vWaiting V w p of [] \<Rightarrow> None | m # _ \<Rightarrow> Some m)"
    and Retrieve: "vLinked V w p d \<Longrightarrow>
      \<exists>w'. wRetrieve W now p w = Inr (wPeek W p w, w') \<and> takes V p (take 1 (vWaiting V w p)) w w'"
    and Send: "vLinked V w p d \<Longrightarrow> m_Src m = Some p \<Longrightarrow> m_Dst m = Some d \<Longrightarrow> \<not> m_PutInL2TLBBuffer m \<Longrightarrow>
      \<exists>ok w'. wSend W p m w = Inr (ok, w') \<and> sends V (if ok then [m] else []) w w'"
    and Generate: "wGenerate W w = (i, w') \<Longrightarrow> sends V [] w w' \<and> vGenerated V w' = vGenerated V w @ [i]"
begin

lemma Retrieve_none:
  assumes "vLinked V w p d" "vWaiting V w p = []"
  shows "\<exists>w'. wRetrieve W now p w = Inr (None, w') \<and> takes V p [] w w'"
  using Retrieve [OF assms(1), of now] assms(2) by (simp add: Peek)

lemma Retrieve_some:
  assumes "vLinked V w p d" "vWaiting V w p = m # ms"
  shows "\<exists>w'. wRetrieve W now p w = Inr (Some m, w') \<and> takes V p [m] w w' \<and> vWaiting V w' p = ms"
  using Retrieve [OF assms(1), of now] assms(2) by (auto simp: Peek takes_def)

text \<open>Draining a linked port ends, with the port empty.\<close>

lemma drain_all:
  assumes "vLinked V w p d"
  shows "\<exists>w'. drain_port W now p w = Inr w' \<and> takes V p (vWaiting V w p) w w' \<and> vWaiting V w' p = []"
  using assms
proof (induction "vWaiting V w p" arbitrary: w)
  case Nil
  then obtain w' where w': "wRetrieve W now p w = Inr (None, w')" "takes V p [] w w'" using Retrieve_none [OF Nil.prems] by metis
  then have "drain_port W now p w = Inr w'" unfolding drain_port_def by (subst retrieve_all.simps) simp
  then show ?case using w'(2) Nil.hyps by (auto simp: takes_def)
next
  case (Cons m ms)
  obtain w1 where w1: "wRetrieve W now p w = Inr (Some m, w1)" "takes V p [m] w w1" "vWaiting V w1 p = ms"
    using Retrieve_some [OF Cons.prems Cons.hyps(2) [symmetric]] by blast
  then have "vLinked V w1 p d" using Cons.prems by (simp add: takes_def)
  from Cons.hyps(1) [OF w1(3) [symmetric] this] obtain w' where w': "drain_port W now p w1 = Inr w'" "takes V p ms w1 w'" "vWaiting V w' p = []"
    using w1(3) by metis
  have "drain_port W now p w = drain_port W now p w1" unfolding drain_port_def by (subst retrieve_all.simps) (simp add: w1(1))
  then show ?case using takes_trans [OF w1(2) w'(2)] w' Cons.hyps(2) by auto
qed

end

section \<open>The world of direct connections\<close>

record ('t, 'b) sim =
  sim_ports :: "port \<Rightarrow> ('t, 'b) LimitNumMsgPort"
  sim_conns :: "nat \<Rightarrow> ('t, 'b) DirectConnection"
  sim_nextID :: u64
  sim_events :: "('t, string) event list"
  sim_sent :: "('t, 'b) Msg list"
  sim_generated :: "string list"

definition sim_Generate :: "('t, 'b) sim \<Rightarrow> string \<times> ('t, 'b) sim" where
  "sim_Generate w =
     (let (ident, n) = sequentialIDGenerator_Generate (sim_nextID w)
      in (ident, w\<lparr>sim_nextID := n, sim_generated := sim_generated w @ [ident]\<rparr>))"

text \<open>A call of a connection, which draws an identifier for the tick event it schedules.\<close>

definition sim_call ::
    "nat \<Rightarrow> (string \<Rightarrow> ('t, 'b) DirectConnection \<Rightarrow> ('a \<times> ('t, 'b) DirectConnection \<times> ('t, string) event list) result) \<Rightarrow>
     ('t, 'b) sim \<Rightarrow> ('a \<times> ('t, 'b) sim) result" where
  "sim_call c f w =
     (let (ident, w1) = sim_Generate w
      in bindR (f ident (sim_conns w c)) (\<lambda>(x, conn, evts).
           let w2 = (if evts = [] then w else w1)
           in Inr (x, w2\<lparr>sim_conns := (sim_conns w2)(c := conn), sim_events := sim_events w2 @ evts\<rparr>)))"

definition sim_Send :: "port \<Rightarrow> ('t::linordered_idom, 'b) Msg \<Rightarrow> ('t, 'b) sim \<Rightarrow> (bool \<times> ('t, 'b) sim) result" where
  "sim_Send p msg w =
     Port_Send (\<lambda>c msg.
       bindR (sim_call c (\<lambda>ident. DC_Send ident (\<lambda>q. lp_name (sim_ports w q)) msg) w) (\<lambda>(ok, w').
         Inr (ok, w'\<lparr>sim_sent := sim_sent w' @ (if ok then [msg] else [])\<rparr>))) msg (sim_ports w p)"

definition sim_Retrieve ::
    "'t::linordered_idom \<Rightarrow> port \<Rightarrow> ('t, 'b) sim \<Rightarrow> (('t, 'b) Msg option \<times> ('t, 'b) sim) result" where
  "sim_Retrieve now p w =
     bindR (Port_Retrieve (sim_ports w p)) (\<lambda>(taken, avail, p').
       let w = w\<lparr>sim_ports := (sim_ports w)(p := p')\<rparr>
       in if \<not> avail then Inr (taken, w)
          else case lp_conn p' of
                 None \<Rightarrow> Inl NilDereference
               | Some c \<Rightarrow> sim_call c (\<lambda>ident conn. Inr (taken, DC_NotifyAvailable ident now p conn)) w)"

definition sim_Peek :: "port \<Rightarrow> ('t, 'b) sim \<Rightarrow> ('t, 'b) Msg option" where
  "sim_Peek p w = Port_Peek (sim_ports w p)"

definition sim_linked :: "('t, 'b) sim \<Rightarrow> port \<Rightarrow> port \<Rightarrow> bool" where
  "sim_linked w p d \<longleftrightarrow> p \<noteq> d \<and>
     (case lp_conn (sim_ports w p) of
        None \<Rightarrow> False
      | Some c \<Rightarrow> dc_ends (sim_conns w c) p \<noteq> None \<and> dc_ends (sim_conns w c) d \<noteq> None)"

definition sim_world :: "(('t::linordered_idom, 'b) sim, 't, 'b) world_ops" where
  "sim_world = \<lparr>wPeek = sim_Peek, wRetrieve = sim_Retrieve, wSend = sim_Send, wGenerate = sim_Generate\<rparr>"

definition sim_view :: "(('t, 'b) sim, 't, 'b) world_view" where
  "sim_view = \<lparr>vWaiting = (\<lambda>w p. lp_buf (sim_ports w p)), vSent = sim_sent, vGenerated = sim_generated, vLinked = sim_linked\<rparr>"

lemma sim_linked_iff:
  "sim_linked w p d \<longleftrightarrow> p \<noteq> d \<and>
     (\<exists>c. lp_conn (sim_ports w p) = Some c \<and> p \<in> dom (dc_ends (sim_conns w c)) \<and> d \<in> dom (dc_ends (sim_conns w c)))"
  by (auto simp: sim_linked_def split: option.splits)

lemma sim_Generate_parts:
  assumes "sim_Generate w = (i, w')"
  shows "sim_generated w' = sim_generated w @ [i]" "sim_ports w' = sim_ports w" "sim_conns w' = sim_conns w"
    "sim_sent w' = sim_sent w" "sim_linked w' = sim_linked w"
  using assms by (auto simp: sim_Generate_def sim_linked_iff fun_eq_iff split: prod.splits)

text \<open>A call of a connection that keeps its ends plugged in.\<close>

lemma sim_call_ok:
  assumes "\<And>ident. \<exists>x conn evts. f ident (sim_conns w c) = Inr (x, conn, evts) \<and> dom (dc_ends conn) = dom (dc_ends (sim_conns w c)) \<and> P x"
  shows "\<exists>x w'. sim_call c f w = Inr (x, w') \<and> P x \<and> sends sim_view [] w w' \<and> sim_ports w' = sim_ports w \<and> sim_sent w' = sim_sent w"
proof -
  obtain i w1 where g: "sim_Generate w = (i, w1)" by fastforce
  obtain x conn evts where f: "f i (sim_conns w c) = Inr (x, conn, evts)" "dom (dc_ends conn) = dom (dc_ends (sim_conns w c))" "P x"
    using assms [of i] by blast
  have d: "dc_ends conn q = None \<longleftrightarrow> dc_ends (sim_conns w c) q = None" for q using f(2) by (metis domIff)
  show ?thesis using g f d sim_Generate_parts [OF g]
    by (auto simp: sim_call_def Let_def sends_def sim_view_def sim_linked_iff fun_eq_iff split: option.splits)
qed

lemma DC_TickNow_ends: "\<exists>c' evts. DC_TickNow ident t c = (c', evts) \<and> dc_ends c' = dc_ends c"
  by (auto simp: DC_TickNow_def split: prod.splits)

lemma DC_Send_linked:
  assumes "m_Src m = Some p" "m_Dst m = Some d" "\<not> m_PutInL2TLBBuffer m" "p \<noteq> d"
    "dc_ends c p \<noteq> None" "dc_ends c d \<noteq> None"
  shows "\<exists>ok c' evts. DC_Send ident name m c = Inr (ok, c', evts) \<and> dom (dc_ends c') = dom (dc_ends c)"
proof -
  have "msgMustBeValid name m c = Inr ()" "srcPort m c = Some p"
    using assms by (auto simp: msgMustBeValid_def portMustBeConnected_def srcPort_def)
  moreover obtain e where "dc_ends c p = Some e" using assms(5) by auto
  moreover obtain c' evts where "DC_TickNow ident (m_SendTime m) (c\<lparr>dc_ends := (dc_ends c)(p \<mapsto> e\<lparr>end_buf := end_buf e @ [m]\<rparr>)\<rparr>) = (c', evts)"
      "dc_ends c' = (dc_ends c)(p \<mapsto> e\<lparr>end_buf := end_buf e @ [m]\<rparr>)"
    using DC_TickNow_ends [of ident "m_SendTime m" "c\<lparr>dc_ends := (dc_ends c)(p \<mapsto> e\<lparr>end_buf := end_buf e @ [m]\<rparr>)\<rparr>"] by auto
  ultimately have "\<exists>r. DC_Send ident name m c = Inr r \<and> dom (dc_ends (fst (snd r))) = dom (dc_ends c)"
    by (auto simp: DC_Send_def Let_def)
  then show ?thesis by (metis prod.collapse)
qed

lemma sim_Send_law:
  assumes "sim_linked w p d" "m_Src m = Some p" "m_Dst m = Some d" "\<not> m_PutInL2TLBBuffer m"
  shows "\<exists>ok w'. sim_Send p m w = Inr (ok, w') \<and> sends sim_view (if ok then [m] else []) w w'"
proof -
  obtain c where c: "lp_conn (sim_ports w p) = Some c" "p \<noteq> d" "dc_ends (sim_conns w c) p \<noteq> None" "dc_ends (sim_conns w c) d \<noteq> None"
    using assms(1) by (auto simp: sim_linked_iff split: option.splits)
  obtain ok w' where w': "sim_call c (\<lambda>ident. DC_Send ident (\<lambda>q. lp_name (sim_ports w q)) m) w = Inr (ok, w')" "sends sim_view [] w w'" 
    using sim_call_ok [of "\<lambda>ident. DC_Send ident (\<lambda>q. lp_name (sim_ports w q)) m" w c "\<lambda>_. True"] DC_Send_linked [OF assms(2-4) c(2-4)]
    by blast
  then show ?thesis using c(1) by (auto simp: sim_Send_def Port_Send_def sends_def sim_view_def sim_linked_iff fun_eq_iff)
qed

lemma sim_Retrieve_law:
  assumes "sim_linked w p d"
  shows "\<exists>w'. sim_Retrieve now p w = Inr (sim_Peek p w, w') \<and> takes sim_view p (take 1 (lp_buf (sim_ports w p))) w w'"
proof (cases "lp_buf (sim_ports w p)")
  case Nil
  then show ?thesis by (simp add: sim_Retrieve_def sim_Peek_def Port_Retrieve_def Port_Peek_def takes_def)
next
  case (Cons m ms)
  obtain c where c: "lp_conn (sim_ports w p) = Some c" using assms by (auto simp: sim_linked_iff split: option.splits)
  let ?p = "(sim_ports w p)\<lparr>lp_buf := ms, lp_portBusy := False\<rparr>"
  let ?w = "w\<lparr>sim_ports := (sim_ports w)(p := ?p)\<rparr>"
  have t: "takes sim_view p [m] w ?w" using Cons by (auto simp: takes_def sim_view_def sim_linked_iff fun_eq_iff)
  show ?thesis
  proof (cases "lp_portBusy (sim_ports w p)")
    case True
    have "\<exists>x conn evts. Inr (Some m, DC_NotifyAvailable ident now p (sim_conns ?w c)) = (Inr (x, conn, evts) :: _ result) \<and>
        dom (dc_ends conn) = dom (dc_ends (sim_conns ?w c)) \<and> x = Some m" for ident
      using DC_TickNow_ends [of ident now "sim_conns ?w c"] by (auto simp: DC_NotifyAvailable_def)
    then obtain w' where w': "sim_call c (\<lambda>ident conn. Inr (Some m, DC_NotifyAvailable ident now p conn)) ?w = Inr (Some m, w')" "sends sim_view [] ?w w'"
      using sim_call_ok [of "\<lambda>ident conn. Inr (Some m, DC_NotifyAvailable ident now p conn)" ?w c "\<lambda>x. x = Some m"]
      by blast
    have "takes sim_view p [m] w w'" using t w'(2) by (auto simp: takes_def sends_def)
    then show ?thesis using Cons c True w'(1) by (auto simp: sim_Retrieve_def sim_Peek_def Port_Retrieve_def Port_Peek_def)
  next
    case False
    have "takes sim_view p [m] w (w\<lparr>sim_ports := (sim_ports w)(p := (sim_ports w p)\<lparr>lp_buf := ms\<rparr>)\<rparr>)"
      using Cons by (auto simp: takes_def sim_view_def sim_linked_iff fun_eq_iff)
    then show ?thesis using Cons False by (auto simp: sim_Retrieve_def sim_Peek_def Port_Retrieve_def Port_Peek_def)
  qed
qed

interpretation sw: port_world sim_world sim_view
proof unfold_locales
  show "wPeek sim_world p w = (case vWaiting sim_view w p of [] \<Rightarrow> None | m # _ \<Rightarrow> Some m)" for p and w :: "('a, 'b) sim"
    by (simp add: sim_world_def sim_view_def sim_Peek_def Port_Peek_def)
  show "\<exists>w'. wRetrieve sim_world now p w = Inr (wPeek sim_world p w, w') \<and> takes sim_view p (take 1 (vWaiting sim_view w p)) w w'"
    if "vLinked sim_view w p d" for now p d and w :: "('a, 'b) sim"
    using sim_Retrieve_law [of w p d now] that by (simp add: sim_world_def sim_view_def)
  show "\<exists>ok w'. wSend sim_world p m w = Inr (ok, w') \<and> sends sim_view (if ok then [m] else []) w w'"
    if "vLinked sim_view w p d" "m_Src m = Some p" "m_Dst m = Some d" "\<not> m_PutInL2TLBBuffer m" for p d m and w :: "('a, 'b) sim"
    using sim_Send_law [of w p d m] that by (simp add: sim_world_def sim_view_def)
  show "sends sim_view [] w w' \<and> vGenerated sim_view w' = vGenerated sim_view w @ [i]"
    if "wGenerate sim_world w = (i, w')" for i and w w' :: "('a, 'b) sim"
    using sim_Generate_parts [of w i w'] that by (simp add: sim_world_def sim_view_def sends_def)
qed

end
