(* ===== verification/Mem_Protocol.thy ===== *)
theory Mem_Protocol
  imports Sim_World
begin

text \<open>
  The messages of the memory system (\<^verbatim>\<open>mem/protocol.go\<close>): read and write requests, their responses and the control messages, with the
  builders that make them. A message is the record \<open>Msg\<close> of \<open>Connection\<close> (the \<^verbatim>\<open>MsgMeta\<close> every Go message embeds)
  around one of the bodies below, which also carries the \<^verbatim>\<open>TrafficBytes\<close> of the meta data. The field \<^verbatim>\<open>Info\<close> is an
  \<^verbatim>\<open>interface{}\<close> that none of the components over this theory look into: its type is a parameter. \<open>OtherMsg\<close> is a message of a
  type declared elsewhere; it says whether that type is an \<^verbatim>\<open>AccessReq\<close> and what its \<^verbatim>\<open>GetRespondTo\<close> gives when it is an
  \<^verbatim>\<open>AccessRsp\<close>. A method \<^verbatim>\<open>With\<dots>\<close> or \<^verbatim>\<open>To\<dots>\<close> of a builder is the update of the field it sets.
\<close>

section \<open>Bodies\<close>

record 'i ReadReq =
  rd_TrafficBytes :: int
  rd_Address :: u64
  rd_AccessByteSize :: u64
  rd_PID :: u32
  rd_CanWaitForCoalesce :: bool
  rd_Info :: "'i option"

record 'i WriteReq =
  wr_TrafficBytes :: int
  wr_Address :: u64
  wr_Data :: "byte list"
  wr_DirtyMask :: "bool list option"
  wr_PID :: u32
  wr_CanWaitForCoalesce :: bool
  wr_Info :: "'i option"

record 'i DataReadyRsp =
  dr_TrafficBytes :: int
  dr_RespondTo :: string
  dr_Data :: "byte list"
  dr_Info :: "'i option"

record WriteDoneRsp =
  wd_TrafficBytes :: int
  wd_RespondTo :: string

record ControlMsg =
  cm_TrafficBytes :: int
  cm_DiscardTransations :: bool
  cm_Restart :: bool
  cm_NotifyDone :: bool

datatype 'i mem_body =
    ReadReqMsg "'i ReadReq"
  | WriteReqMsg "'i WriteReq"
  | DataReadyMsg "'i DataReadyRsp"
  | WriteDoneMsg WriteDoneRsp
  | ControlMsg ControlMsg
  | OtherMsg bool "string option"

type_synonym ('t, 'i) MemMsg = "('t, 'i mem_body) Msg"

definition accessReqByteOverhead :: int where "accessReqByteOverhead = 12"
definition accessRspByteOverhead :: int where "accessRspByteOverhead = 4"
definition controlMsgByteOverhead :: int where "controlMsgByteOverhead = 4"

text \<open>The methods of the interfaces; \<open>None\<close> for a type that does not implement the interface.\<close>

fun is_AccessReq :: "'i mem_body \<Rightarrow> bool" where
  "is_AccessReq (ReadReqMsg r) = True"
| "is_AccessReq (WriteReqMsg r) = True"
| "is_AccessReq (OtherMsg req rsp) = req"
| "is_AccessReq _ = False"

fun GetAddress :: "'i mem_body \<Rightarrow> u64 option" where
  "GetAddress (ReadReqMsg r) = Some (rd_Address r)"
| "GetAddress (WriteReqMsg r) = Some (wr_Address r)"
| "GetAddress _ = None"

fun GetByteSize :: "'i mem_body \<Rightarrow> u64 option" where
  "GetByteSize (ReadReqMsg r) = Some (rd_AccessByteSize r)"
| "GetByteSize (WriteReqMsg r) = Some (of_nat (length (wr_Data r)))"
| "GetByteSize _ = None"

fun GetPID :: "'i mem_body \<Rightarrow> u32 option" where
  "GetPID (ReadReqMsg r) = Some (rd_PID r)"
| "GetPID (WriteReqMsg r) = Some (wr_PID r)"
| "GetPID _ = None"

fun GetRespondTo :: "'i mem_body \<Rightarrow> string option" where
  "GetRespondTo (DataReadyMsg r) = Some (dr_RespondTo r)"
| "GetRespondTo (WriteDoneMsg r) = Some (wd_RespondTo r)"
| "GetRespondTo (OtherMsg req rsp) = rsp"
| "GetRespondTo _ = None"

text \<open>The two kinds of request and of response this theory declares.\<close>

fun plain_req :: "'i mem_body \<Rightarrow> bool" where
  "plain_req (ReadReqMsg r) = True"
| "plain_req (WriteReqMsg r) = True"
| "plain_req _ = False"

fun plain_rsp :: "'i mem_body \<Rightarrow> bool" where
  "plain_rsp (DataReadyMsg r) = True"
| "plain_rsp (WriteDoneMsg r) = True"
| "plain_rsp _ = False"

section \<open>Builders\<close>

record ('t, 'i) ReadReqBuilder =
  rrb_sendTime :: 't
  rrb_src :: "port option"
  rrb_dst :: "port option"
  rrb_pid :: u32
  rrb_address :: u64
  rrb_byteSize :: u64
  rrb_canWaitForCoalesce :: bool
  rrb_info :: "'i option"

record ('t, 'i) WriteReqBuilder =
  wrb_sendTime :: 't
  wrb_src :: "port option"
  wrb_dst :: "port option"
  wrb_pid :: u32
  wrb_info :: "'i option"
  wrb_address :: u64
  wrb_data :: "byte list"
  wrb_dirtyMask :: "bool list option"
  wrb_canWaitForCoalesce :: bool

record ('t, 'i) DataReadyRspBuilder =
  drb_sendTime :: 't
  drb_src :: "port option"
  drb_dst :: "port option"
  drb_rspTo :: string
  drb_data :: "byte list"
  drb_info :: "'i option"

record 't WriteDoneRspBuilder =
  wdb_sendTime :: 't
  wdb_src :: "port option"
  wdb_dst :: "port option"
  wdb_rspTo :: string

record 't ControlMsgBuilder =
  cmb_sendTime :: 't
  cmb_src :: "port option"
  cmb_dst :: "port option"
  cmb_discardTransactions :: bool
  cmb_restart :: bool
  cmb_notifyDone :: bool

text \<open>The zero values \<^verbatim>\<open>ReadReqBuilder{}\<close>, \dots\<close>

definition ReadReqBuilder0 :: "('t::zero, 'i) ReadReqBuilder" where
  "ReadReqBuilder0 = \<lparr>rrb_sendTime = 0, rrb_src = None, rrb_dst = None, rrb_pid = 0, rrb_address = 0, rrb_byteSize = 0,
     rrb_canWaitForCoalesce = False, rrb_info = None\<rparr>"

definition WriteReqBuilder0 :: "('t::zero, 'i) WriteReqBuilder" where
  "WriteReqBuilder0 = \<lparr>wrb_sendTime = 0, wrb_src = None, wrb_dst = None, wrb_pid = 0, wrb_info = None, wrb_address = 0,
     wrb_data = [], wrb_dirtyMask = None, wrb_canWaitForCoalesce = False\<rparr>"

definition DataReadyRspBuilder0 :: "('t::zero, 'i) DataReadyRspBuilder" where
  "DataReadyRspBuilder0 = \<lparr>drb_sendTime = 0, drb_src = None, drb_dst = None, drb_rspTo = [], drb_data = [], drb_info = None\<rparr>"

definition WriteDoneRspBuilder0 :: "'t::zero WriteDoneRspBuilder" where
  "WriteDoneRspBuilder0 = \<lparr>wdb_sendTime = 0, wdb_src = None, wdb_dst = None, wdb_rspTo = []\<rparr>"

definition ControlMsgBuilder0 :: "'t::zero ControlMsgBuilder" where
  "ControlMsgBuilder0 = \<lparr>cmb_sendTime = 0, cmb_src = None, cmb_dst = None, cmb_discardTransactions = False, cmb_restart = False,
     cmb_notifyDone = False\<rparr>"

text \<open>A new message: an identifier and the meta data \<^verbatim>\<open>Build\<close> sets.\<close>

definition new_msg ::
    "('w, 't::zero, 'b) world_ops \<Rightarrow> port option \<Rightarrow> port option \<Rightarrow> 't \<Rightarrow> 'b \<Rightarrow> 'w \<Rightarrow> ('t, 'b) Msg \<times> 'w" where
  "new_msg W src dst t body w =
     (let (ident, w') = wGenerate W w
      in (\<lparr>m_ID = ident, m_Src = src, m_Dst = dst, m_SendTime = t, m_RecvTime = 0, m_PutInL2TLBBuffer = False, m_Body = body\<rparr>, w'))"

definition ReadReq_Build ::
    "('w, 't::zero, 'i mem_body) world_ops \<Rightarrow> ('t, 'i) ReadReqBuilder \<Rightarrow> 'w \<Rightarrow> ('t, 'i) MemMsg \<times> 'w" where
  "ReadReq_Build W b = new_msg W (rrb_src b) (rrb_dst b) (rrb_sendTime b)
     (ReadReqMsg \<lparr>rd_TrafficBytes = accessReqByteOverhead, rd_Address = rrb_address b, rd_AccessByteSize = rrb_byteSize b,
        rd_PID = rrb_pid b, rd_CanWaitForCoalesce = rrb_canWaitForCoalesce b, rd_Info = rrb_info b\<rparr>)"

definition WriteReq_Build ::
    "('w, 't::zero, 'i mem_body) world_ops \<Rightarrow> ('t, 'i) WriteReqBuilder \<Rightarrow> 'w \<Rightarrow> ('t, 'i) MemMsg \<times> 'w" where
  "WriteReq_Build W b = new_msg W (wrb_src b) (wrb_dst b) (wrb_sendTime b)
     (WriteReqMsg \<lparr>wr_TrafficBytes = int (length (wrb_data b)) + accessReqByteOverhead, wr_Address = wrb_address b,
        wr_Data = wrb_data b, wr_DirtyMask = wrb_dirtyMask b, wr_PID = wrb_pid b,
        wr_CanWaitForCoalesce = wrb_canWaitForCoalesce b, wr_Info = wrb_info b\<rparr>)"

definition DataReadyRsp_Build ::
    "('w, 't::zero, 'i mem_body) world_ops \<Rightarrow> ('t, 'i) DataReadyRspBuilder \<Rightarrow> 'w \<Rightarrow> ('t, 'i) MemMsg \<times> 'w" where
  "DataReadyRsp_Build W b = new_msg W (drb_src b) (drb_dst b) (drb_sendTime b)
     (DataReadyMsg \<lparr>dr_TrafficBytes = int (length (drb_data b)) + accessRspByteOverhead, dr_RespondTo = drb_rspTo b,
        dr_Data = drb_data b, dr_Info = drb_info b\<rparr>)"

definition WriteDoneRsp_Build ::
    "('w, 't::zero, 'i mem_body) world_ops \<Rightarrow> 't WriteDoneRspBuilder \<Rightarrow> 'w \<Rightarrow> ('t, 'i) MemMsg \<times> 'w" where
  "WriteDoneRsp_Build W b = new_msg W (wdb_src b) (wdb_dst b) (wdb_sendTime b)
     (WriteDoneMsg \<lparr>wd_TrafficBytes = accessRspByteOverhead, wd_RespondTo = wdb_rspTo b\<rparr>)"

definition ControlMsg_Build ::
    "('w, 't::zero, 'i mem_body) world_ops \<Rightarrow> 't ControlMsgBuilder \<Rightarrow> 'w \<Rightarrow> ('t, 'i) MemMsg \<times> 'w" where
  "ControlMsg_Build W b = new_msg W (cmb_src b) (cmb_dst b) (cmb_sendTime b)
     (ControlMsg \<lparr>cm_TrafficBytes = controlMsgByteOverhead, cm_DiscardTransations = cmb_discardTransactions b,
        cm_Restart = cmb_restart b, cm_NotifyDone = cmb_notifyDone b\<rparr>)"

lemmas Build_defs = ReadReq_Build_def WriteReq_Build_def DataReadyRsp_Build_def WriteDoneRsp_Build_def ControlMsg_Build_def
  ReadReqBuilder0_def WriteReqBuilder0_def DataReadyRspBuilder0_def WriteDoneRspBuilder0_def ControlMsgBuilder0_def

text \<open>The world of a component that exchanges these messages.\<close>

locale mem_world = port_world W V
  for W :: "('w, 't::linordered_idom, 'i mem_body) world_ops" and V :: "('w, 't, 'i mem_body) world_view"
begin

text \<open>A built message has a fresh place in the list of identifiers and nothing else changes.\<close>

lemma new_msg_ok:
  "\<exists>ident w'. new_msg W src dst t body w =
      (\<lparr>m_ID = ident, m_Src = src, m_Dst = dst, m_SendTime = t, m_RecvTime = 0, m_PutInL2TLBBuffer = False, m_Body = body\<rparr>, w') \<and>
    sends V [] w w' \<and> vGenerated V w' = vGenerated V w @ [ident]"
  using Generate [of w] by (cases "wGenerate W w") (simp add: new_msg_def)

end

interpretation mw: mem_world sim_world sim_view
  by unfold_locales

end
