(* ===== verification/Reorder_Buffer.thy ===== *)
theory Reorder_Buffer
  imports Mem_Protocol
begin

text \<open>
  The reorder buffer between a compute unit and its caches (\<^verbatim>\<open>mgpusim/timing/caches/rob/rob.go\<close>): it forwards a copy of every memory
  request downwards, collects the responses in whatever order they come back and answers the requests in the order they
  were made. A control message discards everything in flight, another one restarts the buffer.

  \<open>list.List\<close> is a list of elements with an identity (a number), since the table from identifiers to elements refers to
  them; \<open>rb_elems\<close> counts the elements made. The ports are names, and what happens at a port is the world's
  (\<open>Sim_World\<close>). A message is a value: neither side changes the request it has sent.
\<close>

section \<open>State and operations\<close>

record ('t, 'i) rob_transaction =
  rt_reqFromTop :: "('t, 'i) MemMsg"
  rt_reqToBottom :: "('t, 'i) MemMsg"
  rt_rspFromBottom :: "('t, 'i) MemMsg option"

record ('t, 'i) ReorderBuffer =
  rb_TopPort :: port
  rb_BottomPort :: port
  rb_ControlPort :: port
  rb_BottomUnit :: "port option"
  rb_bufferSize :: int
  rb_numReqPerCycle :: int
  rb_toBottomReqIDToTransactionTable :: "string \<rightharpoonup> nat"
  rb_transactions :: "(nat \<times> ('t, 'i) rob_transaction) list"
  rb_isFlushing :: bool
  rb_elems :: nat

text \<open>\<^verbatim>\<open>Build\<close>: the buffer and the three ports it makes.\<close>

definition rob_Build ::
    "nat \<Rightarrow> string \<Rightarrow> port \<Rightarrow> port \<Rightarrow> port \<Rightarrow> int \<Rightarrow> int \<Rightarrow> ('t, 'i) ReorderBuffer \<times> (port \<times> ('t, 'i mem_body) LimitNumMsgPort) list" where
  "rob_Build self name topPort bottomPort controlPort numReqPerCycle bufferSize =
     (\<lparr>rb_TopPort = topPort, rb_BottomPort = bottomPort, rb_ControlPort = controlPort, rb_BottomUnit = None, rb_bufferSize = bufferSize,
       rb_numReqPerCycle = numReqPerCycle, rb_toBottomReqIDToTransactionTable = Map.empty, rb_transactions = [],
       rb_isFlushing = False, rb_elems = 0\<rparr>,
      [(topPort, NewLimitNumMsgPort (Some self) (2 * numReqPerCycle) (name @ ''.TopPort'')),
       (bottomPort, NewLimitNumMsgPort (Some self) (2 * numReqPerCycle) (name @ ''.BottomPort'')),
       (controlPort, NewLimitNumMsgPort (Some self) 1 (name @ ''.ControlPort''))])"

definition rob_isFull :: "('t, 'i) ReorderBuffer \<Rightarrow> bool" where
  "rob_isFull b \<longleftrightarrow> int (length (rb_transactions b)) \<ge> rb_bufferSize b"

definition duplicateReadReq ::
    "('w, 't::zero, 'i mem_body) world_ops \<Rightarrow> ('t, 'i) ReorderBuffer \<Rightarrow> 'i ReadReq \<Rightarrow> 'w \<Rightarrow> ('t, 'i) MemMsg \<times> 'w" where
  "duplicateReadReq W b req =
     ReadReq_Build W (ReadReqBuilder0\<lparr>rrb_address := rd_Address req, rrb_byteSize := rd_AccessByteSize req, rrb_pid := rd_PID req,
       rrb_dst := rb_BottomUnit b\<rparr>)"

definition duplicateWriteReq ::
    "('w, 't::zero, 'i mem_body) world_ops \<Rightarrow> ('t, 'i) ReorderBuffer \<Rightarrow> 'i WriteReq \<Rightarrow> 'w \<Rightarrow> ('t, 'i) MemMsg \<times> 'w" where
  "duplicateWriteReq W b req =
     WriteReq_Build W (WriteReqBuilder0\<lparr>wrb_address := wr_Address req, wrb_pid := wr_PID req, wrb_data := wr_Data req,
       wrb_dirtyMask := wr_DirtyMask req, wrb_dst := rb_BottomUnit b\<rparr>)"

definition duplicateReq ::
    "('w, 't::zero, 'i mem_body) world_ops \<Rightarrow> ('t, 'i) ReorderBuffer \<Rightarrow> ('t, 'i) MemMsg \<Rightarrow> 'w \<Rightarrow> (('t, 'i) MemMsg \<times> 'w) result" where
  "duplicateReq W b req w =
     (case m_Body req of
        ReadReqMsg r \<Rightarrow> Inr (duplicateReadReq W b r w)
      | WriteReqMsg r \<Rightarrow> Inr (duplicateWriteReq W b r w)
      | _ \<Rightarrow> Inl (Panic ''unsupported type''))"

definition duplicateDataReadyRsp ::
    "('w, 't::zero, 'i mem_body) world_ops \<Rightarrow> 'i DataReadyRsp \<Rightarrow> string \<Rightarrow> 'w \<Rightarrow> ('t, 'i) MemMsg \<times> 'w" where
  "duplicateDataReadyRsp W rsp rspTo = DataReadyRsp_Build W (DataReadyRspBuilder0\<lparr>drb_data := dr_Data rsp, drb_rspTo := rspTo\<rparr>)"

definition duplicateWriteDoneRsp ::
    "('w, 't::zero, 'i mem_body) world_ops \<Rightarrow> WriteDoneRsp \<Rightarrow> string \<Rightarrow> 'w \<Rightarrow> ('t, 'i) MemMsg \<times> 'w" where
  "duplicateWriteDoneRsp W rsp rspTo = WriteDoneRsp_Build W (WriteDoneRspBuilder0\<lparr>wdb_rspTo := rspTo\<rparr>)"

definition duplicateRsp ::
    "('w, 't::zero, 'i mem_body) world_ops \<Rightarrow> ('t, 'i) MemMsg \<Rightarrow> string \<Rightarrow> 'w \<Rightarrow> (('t, 'i) MemMsg \<times> 'w) result" where
  "duplicateRsp W rsp rspTo w =
     (case m_Body rsp of
        DataReadyMsg r \<Rightarrow> Inr (duplicateDataReadyRsp W r rspTo w)
      | WriteDoneMsg r \<Rightarrow> Inr (duplicateWriteDoneRsp W r rspTo w)
      | _ \<Rightarrow> Inl (Panic ''type not supported''))"

definition createTransaction ::
    "('w, 't::zero, 'i mem_body) world_ops \<Rightarrow> ('t, 'i) ReorderBuffer \<Rightarrow> ('t, 'i) MemMsg \<Rightarrow> 'w \<Rightarrow> (('t, 'i) rob_transaction \<times> 'w) result" where
  "createTransaction W b req w =
     bindR (duplicateReq W b req w) (\<lambda>(below, w').
       Inr (\<lparr>rt_reqFromTop = req, rt_reqToBottom = below, rt_rspFromBottom = None\<rparr>, w'))"

definition addTransaction :: "('t, 'i) rob_transaction \<Rightarrow> ('t, 'i) ReorderBuffer \<Rightarrow> ('t, 'i) ReorderBuffer" where
  "addTransaction t b =
     b\<lparr>rb_transactions := rb_transactions b @ [(rb_elems b, t)],
       rb_toBottomReqIDToTransactionTable := (rb_toBottomReqIDToTransactionTable b)(m_ID (rt_reqToBottom t) \<mapsto> rb_elems b),
       rb_elems := Suc (rb_elems b)\<rparr>"

definition deleteTransaction :: "nat \<times> ('t, 'i) rob_transaction \<Rightarrow> ('t, 'i) ReorderBuffer \<Rightarrow> ('t, 'i) ReorderBuffer" where
  "deleteTransaction el b =
     b\<lparr>rb_transactions := filter (\<lambda>x. fst x \<noteq> fst el) (rb_transactions b),
       rb_toBottomReqIDToTransactionTable := (rb_toBottomReqIDToTransactionTable b)(m_ID (rt_reqToBottom (snd el)) := None)\<rparr>"

definition topDown ::
    "('w, 't::zero, 'i mem_body) world_ops \<Rightarrow> 't \<Rightarrow> ('t, 'i) ReorderBuffer \<times> 'w \<Rightarrow> (bool \<times> ('t, 'i) ReorderBuffer \<times> 'w) result" where
  "topDown W now = (\<lambda>(b, w).
     if rob_isFull b then Inr (False, b, w)
     else case wPeek W (rb_TopPort b) w of
            None \<Rightarrow> Inr (False, b, w)
          | Some req \<Rightarrow>
              if \<not> is_AccessReq (m_Body req) then Inl (Panic ''interface conversion'')
              else bindR (createTransaction W b req w) (\<lambda>(t, w).
                let t = t\<lparr>rt_reqToBottom := (rt_reqToBottom t)\<lparr>m_Src := Some (rb_BottomPort b), m_SendTime := now\<rparr>\<rparr>
                in bindR (wSend W (rb_BottomPort b) (rt_reqToBottom t) w) (\<lambda>(accepted, w).
                   if \<not> accepted then Inr (False, b, w)
                   else let b = addTransaction t b
                        in bindR (wRetrieve W now (rb_TopPort b) w) (\<lambda>(_, w). Inr (True, b, w)))))"

text \<open>The assignment \<^verbatim>\<open>trans.rspFromBottom = rsp\<close> through an element.\<close>

definition set_rsp ::
    "nat \<Rightarrow> ('t, 'i) MemMsg \<Rightarrow> (nat \<times> ('t, 'i) rob_transaction) list \<Rightarrow> (nat \<times> ('t, 'i) rob_transaction) list" where
  "set_rsp el rsp = map (\<lambda>(e, t). (e, if e = el then t\<lparr>rt_rspFromBottom := Some rsp\<rparr> else t))"

definition parseBottom ::
    "('w, 't::zero, 'i mem_body) world_ops \<Rightarrow> 't \<Rightarrow> ('t, 'i) ReorderBuffer \<times> 'w \<Rightarrow> (bool \<times> ('t, 'i) ReorderBuffer \<times> 'w) result" where
  "parseBottom W now = (\<lambda>(b, w).
     case wPeek W (rb_BottomPort b) w of
       None \<Rightarrow> Inr (False, b, w)
     | Some rsp \<Rightarrow>
         (case GetRespondTo (m_Body rsp) of
            None \<Rightarrow> Inl (Panic ''interface conversion'')
          | Some rspTo \<Rightarrow>
              let b = (case rb_toBottomReqIDToTransactionTable b rspTo of
                         None \<Rightarrow> b
                       | Some el \<Rightarrow> b\<lparr>rb_transactions := set_rsp el rsp (rb_transactions b)\<rparr>)
              in bindR (wRetrieve W now (rb_BottomPort b) w) (\<lambda>(_, w). Inr (True, b, w))))"

definition bottomUp ::
    "('w, 't::zero, 'i mem_body) world_ops \<Rightarrow> 't \<Rightarrow> ('t, 'i) ReorderBuffer \<times> 'w \<Rightarrow> (bool \<times> ('t, 'i) ReorderBuffer \<times> 'w) result" where
  "bottomUp W now = (\<lambda>(b, w).
     case rb_transactions b of
       [] \<Rightarrow> Inr (False, b, w)
     | el # _ \<Rightarrow>
         (case rt_rspFromBottom (snd el) of
            None \<Rightarrow> Inr (False, b, w)
          | Some below \<Rightarrow>
              bindR (duplicateRsp W below (m_ID (rt_reqFromTop (snd el))) w) (\<lambda>(rsp, w).
                let rsp = rsp\<lparr>m_Dst := m_Src (rt_reqFromTop (snd el)), m_Src := Some (rb_TopPort b), m_SendTime := now\<rparr>
                in bindR (wSend W (rb_TopPort b) rsp w) (\<lambda>(accepted, w).
                   if \<not> accepted then Inr (False, b, w) else Inr (True, deleteTransaction el b, w)))))"

text \<open>\<^verbatim>\<open>for i := 0; i < n; i++ { madeProgress = f(now) || madeProgress }\<close>.\<close>

fun repeat_op :: "nat \<Rightarrow> ('s \<Rightarrow> (bool \<times> 's) result) \<Rightarrow> 's \<Rightarrow> (bool \<times> 's) result" where
  "repeat_op 0 f s = Inr (False, s)"
| "repeat_op (Suc n) f s =
     bindR (f s) (\<lambda>(p, s'). bindR (repeat_op n f s') (\<lambda>(p', s''). Inr (p \<or> p', s'')))"

definition runPipeline ::
    "('w, 't::zero, 'i mem_body) world_ops \<Rightarrow> 't \<Rightarrow> ('t, 'i) ReorderBuffer \<times> 'w \<Rightarrow> (bool \<times> ('t, 'i) ReorderBuffer \<times> 'w) result" where
  "runPipeline W now s =
     (let n = nat (rb_numReqPerCycle (fst s))
      in bindR (repeat_op n (bottomUp W now) s) (\<lambda>(p1, s).
         bindR (repeat_op n (parseBottom W now) s) (\<lambda>(p2, s).
         bindR (repeat_op n (topDown W now) s) (\<lambda>(p3, s).
           Inr (p1 \<or> p2 \<or> p3, s)))))"

definition notifyDone :: "('w, 't::zero, 'i mem_body) world_ops \<Rightarrow> 't \<Rightarrow> ('t, 'i) MemMsg \<Rightarrow> ('t, 'i) ReorderBuffer \<Rightarrow> 'w \<Rightarrow> (bool \<times> 'w) result" where
  "notifyDone W now msg b w =
     (let (rsp, w) = ControlMsg_Build W (ControlMsgBuilder0\<lparr>cmb_src := Some (rb_ControlPort b), cmb_dst := m_Src msg,
            cmb_sendTime := now, cmb_notifyDone := True\<rparr>) w
      in wSend W (rb_ControlPort b) rsp w)"

definition discardTransactions ::
    "('w, 't::zero, 'i mem_body) world_ops \<Rightarrow> 't \<Rightarrow> ('t, 'i) MemMsg \<Rightarrow> ('t, 'i) ReorderBuffer \<times> 'w \<Rightarrow>
     (bool \<times> ('t, 'i) ReorderBuffer \<times> 'w) result" where
  "discardTransactions W now msg = (\<lambda>(b, w).
     bindR (notifyDone W now msg b w) (\<lambda>(accepted, w).
       if \<not> accepted then Inr (False, b, w)
       else let b = b\<lparr>rb_isFlushing := True, rb_toBottomReqIDToTransactionTable := Map.empty, rb_transactions := []\<rparr>
            in bindR (wRetrieve W now (rb_ControlPort b) w) (\<lambda>(_, w). Inr (True, b, w))))"

definition restart ::
    "('w, 't::zero, 'i mem_body) world_ops \<Rightarrow> 't \<Rightarrow> ('t, 'i) MemMsg \<Rightarrow> ('t, 'i) ReorderBuffer \<times> 'w \<Rightarrow>
     (bool \<times> ('t, 'i) ReorderBuffer \<times> 'w) result" where
  "restart W now msg = (\<lambda>(b, w).
     bindR (notifyDone W now msg b w) (\<lambda>(accepted, w).
       if \<not> accepted then Inr (False, b, w)
       else let b = b\<lparr>rb_isFlushing := False, rb_toBottomReqIDToTransactionTable := Map.empty, rb_transactions := []\<rparr>
            in bindR (drain_port W now (rb_TopPort b) w) (\<lambda>w.
               bindR (drain_port W now (rb_BottomPort b) w) (\<lambda>w.
               bindR (wRetrieve W now (rb_ControlPort b) w) (\<lambda>(_, w). Inr (True, b, w))))))"

definition rob_processControlMsg ::
    "('w, 't::zero, 'i mem_body) world_ops \<Rightarrow> 't \<Rightarrow> ('t, 'i) ReorderBuffer \<times> 'w \<Rightarrow> (bool \<times> ('t, 'i) ReorderBuffer \<times> 'w) result" where
  "rob_processControlMsg W now = (\<lambda>(b, w).
     case wPeek W (rb_ControlPort b) w of
       None \<Rightarrow> Inr (False, b, w)
     | Some item \<Rightarrow>
         (case m_Body item of
            ControlMsg msg \<Rightarrow>
              if cm_DiscardTransations msg then discardTransactions W now item (b, w)
              else if cm_Restart msg then restart W now item (b, w)
              else Inl (Panic ''never'')
          | _ \<Rightarrow> Inl (Panic ''interface conversion'')))"

definition rob_Tick ::
    "('w, 't::zero, 'i mem_body) world_ops \<Rightarrow> 't \<Rightarrow> ('t, 'i) ReorderBuffer \<times> 'w \<Rightarrow> (bool \<times> ('t, 'i) ReorderBuffer \<times> 'w) result" where
  "rob_Tick W now s =
     bindR (rob_processControlMsg W now s) (\<lambda>(p1, s).
       if \<not> rb_isFlushing (fst s)
       then bindR (runPipeline W now s) (\<lambda>(p2, s). Inr (p1 \<or> p2, s))
       else Inr (p1, s))"

end
