(* ===== verification/Reorder_Order.thy ===== *)
theory Reorder_Order
  imports Reorder_Buffer
begin

text \<open>
  The reorder buffer answers in order: an invariant over its state, what waits in its ports and what it has sent, kept by every
  operation in the locale \<open>mem_world\<close>; the histories of the buffer among neighbours that deliver whatever they like; and
  the property, for the world of direct connections.
\<close>

section \<open>What the buffer promises\<close>

text \<open>A copy asks for the same access, a response carries the same data.\<close>

fun copies :: "'i mem_body \<Rightarrow> 'i mem_body \<Rightarrow> bool" where
  "copies (ReadReqMsg r) (ReadReqMsg r') \<longleftrightarrow>
     rd_Address r' = rd_Address r \<and> rd_AccessByteSize r' = rd_AccessByteSize r \<and> rd_PID r' = rd_PID r"
| "copies (WriteReqMsg r) (WriteReqMsg r') \<longleftrightarrow>
     wr_Address r' = wr_Address r \<and> wr_Data r' = wr_Data r \<and> wr_DirtyMask r' = wr_DirtyMask r \<and> wr_PID r' = wr_PID r"
| "copies _ _ \<longleftrightarrow> False"

fun carries :: "'i mem_body \<Rightarrow> 'i mem_body \<Rightarrow> bool" where
  "carries (DataReadyMsg r) (DataReadyMsg r') \<longleftrightarrow> dr_Data r' = dr_Data r"
| "carries (WriteDoneMsg r) (WriteDoneMsg r') \<longleftrightarrow> True"
| "carries _ _ \<longleftrightarrow> False"

fun plain_ctrl :: "'i mem_body \<Rightarrow> bool" where
  "plain_ctrl (ControlMsg c) = (cm_DiscardTransations c \<or> cm_Restart c)"
| "plain_ctrl _ = False"

definition forwarded :: "('t, 'i) ReorderBuffer \<Rightarrow> ('t, 'i) rob_transaction \<Rightarrow> bool" where
  "forwarded b t \<longleftrightarrow> m_Src (rt_reqToBottom t) = Some (rb_BottomPort b) \<and> m_Dst (rt_reqToBottom t) = rb_BottomUnit b \<and>
     copies (m_Body (rt_reqFromTop t)) (m_Body (rt_reqToBottom t))"

definition answers :: "('t, 'i) ReorderBuffer \<Rightarrow> ('t, 'i) rob_transaction \<Rightarrow> ('t, 'i) MemMsg \<Rightarrow> bool" where
  "answers b t m \<longleftrightarrow> m_Src m = Some (rb_TopPort b) \<and> m_Dst m = m_Src (rt_reqFromTop t) \<and>
     GetRespondTo (m_Body m) = Some (m_ID (rt_reqFromTop t)) \<and>
     (\<exists>r. rt_rspFromBottom t = Some r \<and> carries (m_Body r) (m_Body m))"

text \<open>
  A history: the requests that arrived since the last reset, the responses that ever came from below, and what had been
  sent to either side when the buffer was reset.
\<close>

record ('t, 'i) rob_history =
  h_arrived :: "('t, 'i) MemMsg list"
  h_responses :: "('t, 'i) MemMsg list"
  h_up0 :: "('t, 'i) MemMsg list"
  h_down0 :: "('t, 'i) MemMsg list"

text \<open>The ports are wired up and only messages of the right types wait in them.\<close>

definition rob_safe :: "('w, 't, 'i mem_body) world_view \<Rightarrow> ('t, 'i) ReorderBuffer \<Rightarrow> 'w \<Rightarrow> bool" where
  "rob_safe V b w \<longleftrightarrow> distinct [rb_TopPort b, rb_BottomPort b, rb_ControlPort b] \<and>
     (\<exists>d. vLinked V w (rb_TopPort b) d) \<and> (\<exists>d. rb_BottomUnit b = Some d \<and> vLinked V w (rb_BottomPort b) d) \<and>
     (\<exists>d. vLinked V w (rb_ControlPort b) d) \<and>
     (\<forall>m \<in> set (vWaiting V w (rb_TopPort b)). plain_req (m_Body m) \<and> from_linked V w (rb_TopPort b) m) \<and>
     (\<forall>m \<in> set (vWaiting V w (rb_BottomPort b)). plain_rsp (m_Body m)) \<and>
     (\<forall>m \<in> set (vWaiting V w (rb_ControlPort b)). plain_ctrl (m_Body m) \<and> from_linked V w (rb_ControlPort b) m) \<and>
     (\<forall>t \<in> snd ` set (rb_transactions b). from_linked V w (rb_TopPort b) (rt_reqFromTop t) \<and>
        (\<forall>r. rt_rspFromBottom t = Some r \<longrightarrow> plain_rsp (m_Body r)))"

text \<open>No two requests below share an identifier; the table finds exactly the pending transactions.\<close>

definition ids_ok :: "('t, 'i) MemMsg list \<Rightarrow> string list \<Rightarrow> bool" where
  "ids_ok sb gen \<longleftrightarrow> distinct (map m_ID sb) \<and> m_ID ` set sb \<subseteq> set gen"

definition table_ok :: "('t, 'i) ReorderBuffer \<Rightarrow> bool" where
  "table_ok b \<longleftrightarrow> distinct (map fst (rb_transactions b)) \<and> (\<forall>e \<in> fst ` set (rb_transactions b). e < rb_elems b) \<and>
     (\<forall>i e. rb_toBottomReqIDToTransactionTable b i = Some e \<longleftrightarrow> (\<exists>t. (e, t) \<in> set (rb_transactions b) \<and> m_ID (rt_reqToBottom t) = i)) \<and>
     int (length (rb_transactions b)) \<le> max 0 (rb_bufferSize b)"

text \<open>A transaction was forwarded, and its response is one from below to its copy.\<close>

definition served :: "('t, 'i) MemMsg set \<Rightarrow> ('t, 'i) ReorderBuffer \<Rightarrow> ('t, 'i) rob_transaction \<Rightarrow> bool" where
  "served rsps b t \<longleftrightarrow> forwarded b t \<and>
     (\<forall>r. rt_rspFromBottom t = Some r \<longrightarrow> r \<in> rsps \<and> GetRespondTo (m_Body r) = Some (m_ID (rt_reqToBottom t)))"

text \<open>
  With \<open>wt\<close> and \<open>wb\<close> waiting in the top and bottom port, \<open>st\<close> and \<open>sb\<close> sent from them and the identifiers \<open>gen\<close> generated: the
  requests that arrived are those of the answered transactions \<open>dn\<close>, of the pending ones and the waiting ones, in order.
\<close>

definition rob_order ::
    "('t, 'i) rob_history \<Rightarrow> ('t, 'i) ReorderBuffer \<Rightarrow> ('t, 'i) MemMsg list \<Rightarrow> ('t, 'i) MemMsg list \<Rightarrow> ('t, 'i) MemMsg list \<Rightarrow>
     ('t, 'i) MemMsg list \<Rightarrow> string list \<Rightarrow> ('t, 'i) rob_transaction list \<Rightarrow> bool" where
  "rob_order h b wt wb st sb gen dn \<longleftrightarrow>
     h_arrived h = map rt_reqFromTop (dn @ map snd (rb_transactions b)) @ wt \<and>
     sb = h_down0 h @ map rt_reqToBottom (dn @ map snd (rb_transactions b)) \<and>
     (\<exists>ups. st = h_up0 h @ ups \<and> list_all2 (answers b) dn ups) \<and>
     (\<forall>t \<in> set (dn @ map snd (rb_transactions b)). served (set (h_responses h)) b t) \<and>
     set wb \<subseteq> set (h_responses h) \<and> ids_ok sb gen \<and> table_ok b"

definition rob_orderly :: "('w, 't, 'i mem_body) world_view \<Rightarrow> ('t, 'i) rob_history \<Rightarrow> ('t, 'i) ReorderBuffer \<Rightarrow> 'w \<Rightarrow> ('t, 'i) rob_transaction list \<Rightarrow> bool" where
  "rob_orderly V h b w dn \<longleftrightarrow> rob_order h b (vWaiting V w (rb_TopPort b)) (vWaiting V w (rb_BottomPort b))
     (sent_by V w (rb_TopPort b)) (sent_by V w (rb_BottomPort b)) (vGenerated V w) dn"

definition rob_inv :: "('w, 't, 'i mem_body) world_view \<Rightarrow> ('t, 'i) rob_history \<Rightarrow> ('t, 'i) ReorderBuffer \<Rightarrow> 'w \<Rightarrow> bool" where
  "rob_inv V h b w \<longleftrightarrow> rob_safe V b w \<and> (distinct (vGenerated V w) \<longrightarrow> (\<exists>dn. rob_orderly V h b w dn))"

section \<open>The order of transactions\<close>

lemma ids_ok_mono: "ids_ok sb gen \<Longrightarrow> ids_ok sb (gen @ ids)"
  by (auto simp: ids_ok_def)

lemma served_mono: "served rsps b t \<Longrightarrow> rsps \<subseteq> rsps' \<Longrightarrow> served rsps' b t"
  by (auto simp: served_def)

text \<open>Only the transactions, the table and the number of elements of the buffer change.\<close>

lemma rob_frame:
  assumes "rb_TopPort b' = rb_TopPort b" "rb_BottomPort b' = rb_BottomPort b" "rb_BottomUnit b' = rb_BottomUnit b"
  shows "served rsps b' = served rsps b" "answers b' = answers b"
  using assms by (simp_all add: served_def forwarded_def answers_def fun_eq_iff)

lemma table_ok_empty: "rb_transactions b = [] \<Longrightarrow> rb_toBottomReqIDToTransactionTable b = Map.empty \<Longrightarrow> table_ok b"
  by (simp add: table_ok_def)

lemma table_ok_add:
  assumes "table_ok b" "\<And>e x. (e, x) \<in> set (rb_transactions b) \<Longrightarrow> m_ID (rt_reqToBottom x) \<noteq> m_ID (rt_reqToBottom t)" "\<not> rob_isFull b"
  shows "table_ok (addTransaction t b)"
  using assms by (auto simp: table_ok_def addTransaction_def rob_isFull_def)

lemma set_rsp_simps [simp]:
  "map fst (set_rsp el rsp ts) = map fst ts" "length (set_rsp el rsp ts) = length ts" "fst ` set (set_rsp el rsp ts) = fst ` set ts"
  "map rt_reqFromTop (map snd (set_rsp el rsp ts)) = map rt_reqFromTop (map snd ts)"
  "map rt_reqToBottom (map snd (set_rsp el rsp ts)) = map rt_reqToBottom (map snd ts)"
  by (force simp: set_rsp_def)+

lemma in_set_rsp:
  "(e, t') \<in> set (set_rsp el rsp ts) \<longleftrightarrow> (\<exists>t. (e, t) \<in> set ts \<and> t' = (if e = el then t\<lparr>rt_rspFromBottom := Some rsp\<rparr> else t))"
  by (force simp: set_rsp_def)

lemma table_ok_rsp: "table_ok b \<Longrightarrow> table_ok (b\<lparr>rb_transactions := set_rsp el rsp (rb_transactions b)\<rparr>)"
proof -
  have "(\<exists>t. (e, t) \<in> set (set_rsp el rsp (rb_transactions b)) \<and> m_ID (rt_reqToBottom t) = j) \<longleftrightarrow>
      (\<exists>t. (e, t) \<in> set (rb_transactions b) \<and> m_ID (rt_reqToBottom t) = j)" for e j
    unfolding in_set_rsp by (cases "e = el") force+
  then show "table_ok b \<Longrightarrow> ?thesis" by (simp add: table_ok_def)
qed

lemma table_ok_delete:
  assumes "table_ok b" "rb_transactions b = el # rest" "\<And>e t. (e, t) \<in> set rest \<Longrightarrow> m_ID (rt_reqToBottom t) \<noteq> m_ID (rt_reqToBottom (snd el))"
  shows "table_ok (deleteTransaction el b)" "rb_transactions (deleteTransaction el b) = rest"
proof -
  have "fst el \<notin> fst ` set rest" using assms(1,2) by (simp add: table_ok_def)
  then have f: "filter (\<lambda>x. fst x \<noteq> fst el) rest = rest" and ne: "\<And>e t. (e, t) \<in> set rest \<Longrightarrow> e \<noteq> fst el"
    by (auto simp: filter_id_conv rev_image_eqI)
  then show ts: "rb_transactions (deleteTransaction el b) = rest" using assms(2) by (simp add: deleteTransaction_def)
  have "rb_toBottomReqIDToTransactionTable (deleteTransaction el b) i = Some e \<longleftrightarrow> (\<exists>t. (e, t) \<in> set rest \<and> m_ID (rt_reqToBottom t) = i)" for i e
    using assms ne by (cases el) (auto simp: deleteTransaction_def table_ok_def)
  then show "table_ok (deleteTransaction el b)" using assms(1,2) unfolding table_ok_def ts by (auto simp: deleteTransaction_def)
qed

lemma rob_order_reset:
  "rb_transactions b = [] \<Longrightarrow> rb_toBottomReqIDToTransactionTable b = Map.empty \<Longrightarrow> ids_ok sb gen \<Longrightarrow> set wb \<subseteq> set (h_responses h) \<Longrightarrow>
   rob_order (h\<lparr>h_arrived := wt, h_up0 := st, h_down0 := sb\<rparr>) b wt wb st sb gen []"
  by (simp add: rob_order_def table_ok_empty)

lemma rob_order_mono:
  assumes "rob_order h b wt wb st sb gen dn"
  shows "rob_order (h\<lparr>h_arrived := h_arrived h @ ts, h_responses := h_responses h @ bs\<rparr>) b (wt @ ts) (wb @ bs) st sb (gen @ ids) dn"
  using assms by (auto simp: rob_order_def ids_ok_mono intro: served_mono)

lemma rob_order_gen: "rob_order h b wt wb st sb gen dn \<Longrightarrow> rob_order h b wt wb st sb (gen @ ids) dn"
  by (auto simp: rob_order_def ids_ok_mono)

lemma rob_order_wb: "rob_order h b wt (x # wb) st sb gen dn \<Longrightarrow> rob_order h b wt wb st sb gen dn"
  unfolding rob_order_def list.set insert_subset by blast

lemma rob_orderD:
  assumes "rob_order h b wt wb st sb gen dn"
  shows "h_arrived h = map rt_reqFromTop (dn @ map snd (rb_transactions b)) @ wt"
    "sb = h_down0 h @ map rt_reqToBottom (dn @ map snd (rb_transactions b))"
    "\<exists>ups. st = h_up0 h @ ups \<and> list_all2 (answers b) dn ups"
    "\<And>t. t \<in> set (dn @ map snd (rb_transactions b)) \<Longrightarrow> served (set (h_responses h)) b t"
    "set wb \<subseteq> set (h_responses h)" "ids_ok sb gen" "table_ok b"
  using assms unfolding rob_order_def by (elim conjE; assumption | blast)+

lemma rob_order_pending:
  assumes "rob_order h b wt wb st sb gen dn" "(e, t) \<in> set (rb_transactions b)"
  shows "rt_reqToBottom t \<in> set sb" "served (set (h_responses h)) b t"
proof -
  have t: "t \<in> set (dn @ map snd (rb_transactions b))" using assms(2) by (simp add: rev_image_eqI)
  then have "rt_reqToBottom t \<in> set (map rt_reqToBottom (dn @ map snd (rb_transactions b)))" by (simp only: list.set_map image_eqI)
  then show "rt_reqToBottom t \<in> set sb" by (subst rob_orderD(2) [OF assms(1)]) simp
  show "served (set (h_responses h)) b t" by (rule rob_orderD(4) [OF assms(1) t])
qed

lemma rob_order_add:
  assumes "rob_order h b (rt_reqFromTop t # wt) wb st sb gen dn" "forwarded b t" "rt_rspFromBottom t = None"
    "m_ID (rt_reqToBottom t) \<notin> m_ID ` set sb" "m_ID (rt_reqToBottom t) \<in> set gen" "\<not> rob_isFull b"
  shows "rob_order h (addTransaction t b) wt wb st (sb @ [rt_reqToBottom t]) gen dn"
proof -
  have eq: "served rsps (addTransaction t b) = served rsps b" "answers (addTransaction t b) = answers b" for rsps
    by (rule rob_frame; simp add: addTransaction_def)+
  have "m_ID (rt_reqToBottom x) \<noteq> m_ID (rt_reqToBottom t)" if "(e, x) \<in> set (rb_transactions b)" for e x
    using rob_order_pending(1) [OF assms(1) that] assms(4) by (metis imageI)
  then have "table_ok (addTransaction t b)" using assms(1,6) by (auto simp: rob_order_def intro!: table_ok_add)
  moreover have "ids_ok (sb @ [rt_reqToBottom t]) gen" using rob_orderD(6) [OF assms(1)] assms(4,5) by (simp add: ids_ok_def)
  moreover have ts: "map snd (rb_transactions (addTransaction t b)) = map snd (rb_transactions b) @ [t]" by (simp add: addTransaction_def)
  moreover have "served (set (h_responses h)) b t" using assms(2,3) by (simp add: served_def)
  ultimately show ?thesis using assms(1) unfolding rob_order_def ts eq by simp
qed

lemma rob_order_rsp:
  assumes "rob_order h b wt (rsp # wb) st sb gen dn" "GetRespondTo (m_Body rsp) = Some i" "rb_toBottomReqIDToTransactionTable b i = Some el"
  shows "rob_order h (b\<lparr>rb_transactions := set_rsp el rsp (rb_transactions b)\<rparr>) wt wb st sb gen dn"
proof -
  let ?b = "b\<lparr>rb_transactions := set_rsp el rsp (rb_transactions b)\<rparr>"
  have tab: "table_ok b" and rsp: "rsp \<in> set (h_responses h)" using assms(1) by (simp_all add: rob_order_def)
  obtain t0 where t0: "(el, t0) \<in> set (rb_transactions b)" "m_ID (rt_reqToBottom t0) = i" using assms(3) tab by (auto simp: table_ok_def)
  have one: "t = t0" if "(el, t) \<in> set (rb_transactions b)" for t
    using that t0(1) tab unfolding table_ok_def by (metis eq_key_imp_eq_value)
  have s: "served (set (h_responses h)) b t'" if t': "(e, t') \<in> set (set_rsp el rsp (rb_transactions b))" for e t'
  proof -
    obtain t where t: "(e, t) \<in> set (rb_transactions b)" "t' = (if e = el then t\<lparr>rt_rspFromBottom := Some rsp\<rparr> else t)"
      using t' by (auto simp: in_set_rsp)
    then show ?thesis using rob_order_pending(2) [OF assms(1) t(1)] rsp assms(2) t0(2) one [of t] by (auto simp: served_def forwarded_def)
  qed
  have eq: "served rsps ?b = served rsps b" "answers ?b = answers b" for rsps by (rule rob_frame; simp)+
  have ts: "rb_transactions ?b = set_rsp el rsp (rb_transactions b)" by simp
  note D = rob_orderD [OF assms(1), unfolded map_append]
  have "\<forall>x \<in> set (dn @ map snd (set_rsp el rsp (rb_transactions b))). served (set (h_responses h)) b x" using D(4) s by auto
  moreover have "set wb \<subseteq> set (h_responses h)" using D(5) by simp
  ultimately show ?thesis unfolding rob_order_def eq ts map_append set_rsp_simps
    using D(1-3,6) table_ok_rsp [OF tab] by (intro conjI; assumption | blast)
qed

lemma rob_order_delete:
  assumes "rob_order h b wt wb st sb gen dn" "rb_transactions b = el # rest" "answers b (snd el) m"
  shows "rob_order h (deleteTransaction el b) wt wb (st @ [m]) sb gen (dn @ [snd el])"
proof -
  have "ids_ok (h_down0 h @ map rt_reqToBottom (dn @ map snd (rb_transactions b))) gen" using rob_orderD(2,6) [OF assms(1)] by metis
  then have "distinct (map m_ID (map rt_reqToBottom (map snd (rb_transactions b))))" by (simp add: ids_ok_def)
  then have "m_ID (rt_reqToBottom t) \<noteq> m_ID (rt_reqToBottom (snd el))" if "(e, t) \<in> set rest" for e t
    using that assms(2) by (force simp: image_iff)
  moreover have "table_ok b" using assms(1) by (simp add: rob_order_def)
  ultimately have tab: "table_ok (deleteTransaction el b)" "rb_transactions (deleteTransaction el b) = rest"
    using table_ok_delete [OF _ assms(2)] by blast+
  have eq: "served rsps (deleteTransaction el b) = served rsps b" "answers (deleteTransaction el b) = answers b" for rsps
    by (rule rob_frame; simp add: deleteTransaction_def)+
  show ?thesis using assms tab(1) unfolding rob_order_def tab(2) eq by (auto intro!: list_all2_appendI)
qed

section \<open>The operations keep the order\<close>

text \<open>Sending from another port touches nothing the invariant speaks of.\<close>

lemma rob_inv_sends:
  assumes "rob_inv V h b w" "sends V ms w w'" "\<And>m. m \<in> set ms \<Longrightarrow> m_Src m \<noteq> Some (rb_TopPort b) \<and> m_Src m \<noteq> Some (rb_BottomPort b)"
  shows "rob_inv V h b w'"
proof -
  obtain ids where ids: "vGenerated V w' = vGenerated V w @ ids" using assms(2) by (auto simp: sends_def)
  have same: "vWaiting V w' = vWaiting V w" "vLinked V w' = vLinked V w" using assms(2) by (simp_all add: sends_def)
  have "filter (\<lambda>m. m_Src m = Some (rb_TopPort b)) ms = []" "filter (\<lambda>m. m_Src m = Some (rb_BottomPort b)) ms = []"
    using assms(3) by (auto simp: filter_empty_conv)
  then have "sent_by V w' (rb_TopPort b) = sent_by V w (rb_TopPort b)" "sent_by V w' (rb_BottomPort b) = sent_by V w (rb_BottomPort b)"
    by (simp_all add: sends_sent_by [OF assms(2)])
  then show ?thesis using assms(1) ids same
    by (auto simp: rob_inv_def rob_orderly_def rob_safe_def from_linked_def intro: rob_order_gen)
qed

text \<open>Taking a message out of a port keeps the types and links.\<close>

lemma rob_safe_takes:
  assumes "rob_safe V b w" "takes V p ms w w'"
  shows "rob_safe V b w'"
proof -
  have "set (vWaiting V w' q) \<subseteq> set (vWaiting V w q)" for q using assms(2) by (cases "q = p") (auto simp: takes_def)
  moreover have l: "vLinked V w' = vLinked V w" using assms(2) by (simp add: takes_def)
  moreover have f: "from_linked V w' = from_linked V w" by (simp add: from_linked_def l fun_eq_iff)
  ultimately show ?thesis using assms(1) unfolding rob_safe_def f l by (intro conjI) blast+
qed

lemma rob_safe_rsp:
  assumes "rob_safe V b w" "plain_rsp (m_Body rsp)"
  shows "rob_safe V (b\<lparr>rb_transactions := set_rsp el rsp (rb_transactions b)\<rparr>) w"
proof -
  have "from_linked V w (rb_TopPort b) (rt_reqFromTop t') \<and> (\<forall>r. rt_rspFromBottom t' = Some r \<longrightarrow> plain_rsp (m_Body r))"
    if mem: "(e, t') \<in> set (set_rsp el rsp (rb_transactions b))" for e t'
  proof -
    obtain t where t: "(e, t) \<in> set (rb_transactions b)" "t' = (if e = el then t\<lparr>rt_rspFromBottom := Some rsp\<rparr> else t)"
      using mem unfolding in_set_rsp by blast
    then have "t \<in> snd ` set (rb_transactions b)" by (simp add: rev_image_eqI)
    then have "from_linked V w (rb_TopPort b) (rt_reqFromTop t) \<and> (\<forall>r. rt_rspFromBottom t = Some r \<longrightarrow> plain_rsp (m_Body r))"
      using assms(1) unfolding rob_safe_def by blast
    then show ?thesis using assms(2) t(2) by simp
  qed
  then show ?thesis using assms(1) by (auto simp: rob_safe_def)
qed

context mem_world
begin

lemma duplicateReq_ok:
  assumes "plain_req (m_Body req)"
  shows "\<exists>m w'. duplicateReq W b req w = Inr (m, w') \<and> sends V [] w w' \<and> vGenerated V w' = vGenerated V w @ [m_ID m] \<and>
    copies (m_Body req) (m_Body m) \<and> m_Dst m = rb_BottomUnit b \<and> \<not> m_PutInL2TLBBuffer m"
proof (cases "m_Body req")
  case (ReadReqMsg r)
  show ?thesis
    using new_msg_ok [of None "rb_BottomUnit b" 0 "ReadReqMsg \<lparr>rd_TrafficBytes = accessReqByteOverhead, rd_Address = rd_Address r,
      rd_AccessByteSize = rd_AccessByteSize r, rd_PID = rd_PID r, rd_CanWaitForCoalesce = False, rd_Info = None\<rparr>" w]
    by (auto simp: duplicateReq_def duplicateReadReq_def Build_defs ReadReqMsg)
next
  case (WriteReqMsg r)
  show ?thesis
    using new_msg_ok [of None "rb_BottomUnit b" 0 "WriteReqMsg \<lparr>wr_TrafficBytes = int (length (wr_Data r)) + accessReqByteOverhead,
      wr_Address = wr_Address r, wr_Data = wr_Data r, wr_DirtyMask = wr_DirtyMask r, wr_PID = wr_PID r,
      wr_CanWaitForCoalesce = False, wr_Info = None\<rparr>" w]
    by (auto simp: duplicateReq_def duplicateWriteReq_def Build_defs WriteReqMsg)
qed (use assms in simp_all)

lemma duplicateRsp_ok:
  assumes "plain_rsp (m_Body rsp)"
  shows "\<exists>m w'. duplicateRsp W rsp i w = Inr (m, w') \<and> sends V [] w w' \<and> GetRespondTo (m_Body m) = Some i \<and>
    carries (m_Body rsp) (m_Body m) \<and> \<not> m_PutInL2TLBBuffer m"
proof (cases "m_Body rsp")
  case (DataReadyMsg r)
  show ?thesis
    using new_msg_ok [of None None 0 "DataReadyMsg \<lparr>dr_TrafficBytes = int (length (dr_Data r)) + accessRspByteOverhead, dr_RespondTo = i,
      dr_Data = dr_Data r, dr_Info = None\<rparr>" w]
    by (auto simp: duplicateRsp_def duplicateDataReadyRsp_def Build_defs DataReadyMsg)
next
  case (WriteDoneMsg r)
  show ?thesis
    using new_msg_ok [of None None 0 "WriteDoneMsg \<lparr>wd_TrafficBytes = accessRspByteOverhead, wd_RespondTo = i\<rparr>" w]
    by (auto simp: duplicateRsp_def duplicateWriteDoneRsp_def Build_defs WriteDoneMsg)
qed (use assms in simp_all)

lemma topDown_ok:
  assumes "rob_inv V h b w"
  shows "\<exists>p b' w'. topDown W now (b, w) = Inr (p, b', w') \<and> rob_inv V h b' w'"
proof (cases "rob_isFull b \<or> vWaiting V w (rb_TopPort b) = []")
  case True
  then show ?thesis using assms by (auto simp: topDown_def Peek)
next
  case False
  then obtain req rest where q: "vWaiting V w (rb_TopPort b) = req # rest" "\<not> rob_isFull b" by (auto simp: neq_Nil_conv)
  note I = assms [unfolded rob_inv_def]
  have safe: "rob_safe V b w" using I by simp
  obtain top bot where l: "vLinked V w (rb_TopPort b) top" "rb_BottomUnit b = Some bot" "vLinked V w (rb_BottomPort b) bot"
    "rb_TopPort b \<noteq> rb_BottomPort b" "plain_req (m_Body req)" "from_linked V w (rb_TopPort b) req"
    using safe q(1) unfolding rob_safe_def by auto
  obtain m w1 where m: "duplicateReq W b req w = Inr (m, w1)" "sends V [] w w1" "vGenerated V w1 = vGenerated V w @ [m_ID m]"
    "copies (m_Body req) (m_Body m)" "m_Dst m = rb_BottomUnit b" "\<not> m_PutInL2TLBBuffer m"
    using duplicateReq_ok [OF l(5), of b w] by (elim exE conjE) (rule that; assumption)
  let ?m = "m\<lparr>m_Src := Some (rb_BottomPort b), m_SendTime := now\<rparr>"
  have l1: "vLinked V w1 = vLinked V w" "vWaiting V w1 = vWaiting V w" using m(2) by (simp_all add: sends_def)
  obtain accepted w2 where s: "wSend W (rb_BottomPort b) ?m w1 = Inr (accepted, w2)" "sends V (if accepted then [?m] else []) w1 w2"
    using Send [of w1 "rb_BottomPort b" bot ?m] l l1 m(5,6) by auto
  have req: "is_AccessReq (m_Body req)" using l(5) by (cases "m_Body req") auto
  show ?thesis
  proof (cases accepted)
    case False
    then have "topDown W now (b, w) = Inr (False, b, w2)"
      using q m(1) s(1) req by (simp add: topDown_def Peek createTransaction_def)
    then show ?thesis using rob_inv_sends [OF assms sends_trans [OF m(2) s(2)]] False by auto
  next
    case True
    have l2: "vLinked V w2 = vLinked V w" "vWaiting V w2 = vWaiting V w" using s(2) l1 by (simp_all add: sends_def)
    then obtain w3 where r: "wRetrieve W now (rb_TopPort b) w2 = Inr (Some req, w3)" "takes V (rb_TopPort b) [req] w2 w3"
      "vWaiting V w3 (rb_TopPort b) = rest"
      using Retrieve_some [of w2 "rb_TopPort b" top req rest now] l q by auto
    let ?t = "\<lparr>rt_reqFromTop = req, rt_reqToBottom = ?m, rt_rspFromBottom = None\<rparr>"
    have op: "topDown W now (b, w) = Inr (True, addTransaction ?t b, w3)"
      using q m(1) s(1) r(1) req True by (simp add: topDown_def Peek createTransaction_def addTransaction_def)
    have f: "rb_TopPort (addTransaction ?t b) = rb_TopPort b" "rb_BottomPort (addTransaction ?t b) = rb_BottomPort b"
      by (simp_all add: addTransaction_def)
    have safe3: "rob_safe V (addTransaction ?t b) w3"
    proof -
      have "rob_safe V b w2" using safe l2 by (simp add: rob_safe_def from_linked_def)
      from rob_safe_takes [OF this r(2)] have "rob_safe V b w3" .
      moreover have "from_linked V w3 (rb_TopPort b) req" using l(6) r(2) l2 by (simp add: from_linked_def takes_def)
      ultimately show ?thesis by (auto simp: rob_safe_def addTransaction_def)
    qed
    have "\<exists>dn. rob_orderly V h (addTransaction ?t b) w3 dn" if d3: "distinct (vGenerated V w3)"
    proof -
      obtain ids2 ids3 where g: "vGenerated V w2 = vGenerated V w1 @ ids2" "vGenerated V w3 = vGenerated V w2 @ ids3"
        using s(2) r(2) by (auto simp: sends_def takes_def)
      then have d: "distinct (vGenerated V w)" "m_ID m \<notin> set (vGenerated V w)" using d3 m(3) by auto
      then obtain dn where O: "rob_orderly V h b w dn" using I by blast
      have sb: "sent_by V w3 (rb_BottomPort b) = sent_by V w (rb_BottomPort b) @ [?m]"
        "sent_by V w3 (rb_TopPort b) = sent_by V w (rb_TopPort b)"
        using l(4) True by (simp_all add: takes_sent_by [OF r(2)] sends_sent_by [OF s(2)] sends_sent_by [OF m(2)])
      have "m_ID ` set (sent_by V w (rb_BottomPort b)) \<subseteq> set (vGenerated V w)"
        using rob_orderD(6) [OF O [unfolded rob_orderly_def]] by (simp add: ids_ok_def)
      then have new: "m_ID ?m \<notin> m_ID ` set (sent_by V w (rb_BottomPort b))" using d(2) by auto
      have "vWaiting V w3 (rb_BottomPort b) = vWaiting V w (rb_BottomPort b)" using r(2) l2 l(4) by (auto simp: takes_def)
      moreover have "rob_order h b (req # rest) (vWaiting V w (rb_BottomPort b)) (sent_by V w (rb_TopPort b))
          (sent_by V w (rb_BottomPort b)) (vGenerated V w3) dn"
        using rob_order_gen [OF O [unfolded rob_orderly_def], of "[m_ID m] @ ids2 @ ids3"] q(1) g m(3) by simp
      ultimately show ?thesis
        using rob_order_add [of h b ?t rest] new m(3-5) g q(2) r(3) sb
        unfolding rob_orderly_def f by (auto simp: forwarded_def intro!: exI [of _ dn])
    qed
    then show ?thesis using op safe3 by (auto simp: rob_inv_def)
  qed
qed

lemma parseBottom_ok:
  assumes "rob_inv V h b w"
  shows "\<exists>p b' w'. parseBottom W now (b, w) = Inr (p, b', w') \<and> rob_inv V h b' w'"
proof (cases "vWaiting V w (rb_BottomPort b)")
  case Nil
  then show ?thesis using assms by (auto simp: parseBottom_def Peek)
next
  case (Cons rsp rest)
  have safe: "rob_safe V b w" using assms by (simp add: rob_inv_def)
  then have l: "rb_TopPort b \<noteq> rb_BottomPort b" "plain_rsp (m_Body rsp)" "\<exists>bot. vLinked V w (rb_BottomPort b) bot"
    using Cons by (auto simp: rob_safe_def)
  obtain w1 where r: "wRetrieve W now (rb_BottomPort b) w = Inr (Some rsp, w1)" "takes V (rb_BottomPort b) [rsp] w w1"
    "vWaiting V w1 (rb_BottomPort b) = rest"
    using Retrieve_some [OF _ Cons, of _ now] l(3) by blast
  obtain i where i: "GetRespondTo (m_Body rsp) = Some i" using l(2) by (cases "m_Body rsp") auto
  define b' where "b' = (case rb_toBottomReqIDToTransactionTable b i of
      None \<Rightarrow> b | Some el \<Rightarrow> b\<lparr>rb_transactions := set_rsp el rsp (rb_transactions b)\<rparr>)"
  have f: "rb_TopPort b' = rb_TopPort b" "rb_BottomPort b' = rb_BottomPort b" by (simp_all add: b'_def split: option.splits)
  have op: "parseBottom W now (b, w) = Inr (True, b', w1)"
    using Cons i r(1) f(2) by (simp add: parseBottom_def Peek flip: b'_def)
  have safe1: "rob_safe V b' w1"
    using rob_safe_takes [OF safe r(2)] rob_safe_rsp l(2) by (auto simp: b'_def split: option.splits)
  have "\<exists>dn. rob_orderly V h b' w1 dn" if dist: "distinct (vGenerated V w1)"
  proof -
    obtain ids where g: "vGenerated V w1 = vGenerated V w @ ids" using r(2) by (auto simp: takes_def)
    then obtain dn where O: "rob_orderly V h b w dn" using assms dist by (auto simp: rob_inv_def)
    have "rob_order h b (vWaiting V w1 (rb_TopPort b)) (rsp # rest) (sent_by V w1 (rb_TopPort b)) (sent_by V w1 (rb_BottomPort b)) (vGenerated V w1) dn"
      using rob_order_gen [OF O [unfolded rob_orderly_def], of ids] r(2) l(1) Cons g by (simp add: takes_sent_by [OF r(2)]) (simp add: takes_def)
    moreover from this have "rob_order h b (vWaiting V w1 (rb_TopPort b)) rest (sent_by V w1 (rb_TopPort b)) (sent_by V w1 (rb_BottomPort b)) (vGenerated V w1) dn"
      by (rule rob_order_wb)
    ultimately have "rob_order h b' (vWaiting V w1 (rb_TopPort b)) rest (sent_by V w1 (rb_TopPort b)) (sent_by V w1 (rb_BottomPort b)) (vGenerated V w1) dn"
      using rob_order_rsp [OF _ i] by (auto simp: b'_def split: option.splits)
    then show ?thesis using r(3) unfolding rob_orderly_def f by blast
  qed
  then show ?thesis using op safe1 by (auto simp: rob_inv_def)
qed

lemma bottomUp_ok:
  assumes "rob_inv V h b w"
  shows "\<exists>p b' w'. bottomUp W now (b, w) = Inr (p, b', w') \<and> rob_inv V h b' w'"
proof (cases "\<exists>e t rest r. rb_transactions b = (e, t) # rest \<and> rt_rspFromBottom t = Some r")
  case False
  then show ?thesis using assms by (cases "rb_transactions b"; cases "rt_rspFromBottom (snd (hd (rb_transactions b)))") (force simp: bottomUp_def)+
next
  case True
  then obtain e t rest r where t: "rb_transactions b = (e, t) # rest" "rt_rspFromBottom t = Some r" by blast
  have safe: "rob_safe V b w" using assms by (simp add: rob_inv_def)
  then obtain d where l: "rb_TopPort b \<noteq> rb_BottomPort b" "plain_rsp (m_Body r)" "m_Src (rt_reqFromTop t) = Some d" "vLinked V w (rb_TopPort b) d"
    using t unfolding rob_safe_def from_linked_def by auto
  obtain m w1 where m: "duplicateRsp W r (m_ID (rt_reqFromTop t)) w = Inr (m, w1)" "sends V [] w w1"
    "GetRespondTo (m_Body m) = Some (m_ID (rt_reqFromTop t))" "carries (m_Body r) (m_Body m)" "\<not> m_PutInL2TLBBuffer m"
    using duplicateRsp_ok [OF l(2), of "m_ID (rt_reqFromTop t)" w] by (elim exE conjE) (rule that; assumption)
  let ?m = "m\<lparr>m_Dst := m_Src (rt_reqFromTop t), m_Src := Some (rb_TopPort b), m_SendTime := now\<rparr>"
  have "vLinked V w1 (rb_TopPort b) d" using l(4) m(2) by (simp add: sends_def)
  then obtain accepted w2 where s: "wSend W (rb_TopPort b) ?m w1 = Inr (accepted, w2)" "sends V (if accepted then [?m] else []) w1 w2"
    using Send [of w1 "rb_TopPort b" d ?m] l(3) m(5) by auto
  note s2 = sends_trans [OF m(2) s(2)]
  show ?thesis
  proof (cases accepted)
    case False
    then have "bottomUp W now (b, w) = Inr (False, b, w2)" using t m(1) s(1) by (simp add: bottomUp_def)
    then show ?thesis using rob_inv_sends [OF assms s2] False by auto
  next
    case True
    let ?b = "deleteTransaction (e, t) b"
    have f: "rb_TopPort ?b = rb_TopPort b" "rb_BottomPort ?b = rb_BottomPort b" "rb_ControlPort ?b = rb_ControlPort b"
      "rb_BottomUnit ?b = rb_BottomUnit b" "set (rb_transactions ?b) \<subseteq> set (rb_transactions b)"
      by (auto simp: deleteTransaction_def)
    have op: "bottomUp W now (b, w) = Inr (True, ?b, w2)" using t m(1) s(1) True by (simp add: bottomUp_def)
    have "vWaiting V w2 = vWaiting V w" "vLinked V w2 = vLinked V w" using s2 by (simp_all add: sends_def)
    then have safe2: "rob_safe V ?b w2" using safe f(5) unfolding rob_safe_def from_linked_def f by auto
    have "\<exists>dn. rob_orderly V h ?b w2 dn" if dist: "distinct (vGenerated V w2)"
    proof -
      obtain ids where g: "vGenerated V w2 = vGenerated V w @ ids" using s2 by (auto simp: sends_def)
      then obtain dn where O: "rob_orderly V h b w dn" using assms dist by (auto simp: rob_inv_def)
      have "sent_by V w2 (rb_TopPort b) = sent_by V w (rb_TopPort b) @ [?m]" "sent_by V w2 (rb_BottomPort b) = sent_by V w (rb_BottomPort b)"
        using True l(1) by (simp_all add: sends_sent_by [OF s2])
      moreover have "answers b t ?m" using m(3,4) t(2) by (simp add: answers_def)
      ultimately have "rob_orderly V h ?b w2 (dn @ [t])"
        using rob_order_delete [OF rob_order_gen [OF O [unfolded rob_orderly_def], of ids] t(1)] g \<open>vWaiting V w2 = vWaiting V w\<close>
        unfolding rob_orderly_def f by simp
      then show ?thesis by blast
    qed
    then show ?thesis using op safe2 by (auto simp: rob_inv_def)
  qed
qed

lemma repeat_op_ok:
  assumes "\<And>b w. I b w \<Longrightarrow> \<exists>p b' w'. f (b, w) = Inr (p, b', w') \<and> I b' w'" "I b w"
  shows "\<exists>p b' w'. repeat_op n f (b, w) = Inr (p, b', w') \<and> I b' w'"
  using assms(2)
proof (induction n arbitrary: b w)
  case (Suc n)
  obtain p b1 w1 where 1: "f (b, w) = Inr (p, b1, w1)" "I b1 w1" using assms(1) [OF Suc.prems] by blast
  obtain p' b2 w2 where "repeat_op n f (b1, w1) = Inr (p', b2, w2)" "I b2 w2" using Suc.IH [OF 1(2)] by blast
  then show ?case using 1(1) by auto
qed auto

lemma runPipeline_ok:
  assumes "rob_inv V h b w"
  shows "\<exists>p b' w'. runPipeline W now (b, w) = Inr (p, b', w') \<and> rob_inv V h b' w'"
proof -
  let ?n = "nat (rb_numReqPerCycle b)"
  obtain p1 b1 w1 where 1: "repeat_op ?n (bottomUp W now) (b, w) = Inr (p1, b1, w1)" "rob_inv V h b1 w1"
    using repeat_op_ok [of "rob_inv V h" "bottomUp W now", OF bottomUp_ok assms] by blast
  obtain p2 b2 w2 where 2: "repeat_op ?n (parseBottom W now) (b1, w1) = Inr (p2, b2, w2)" "rob_inv V h b2 w2"
    using repeat_op_ok [of "rob_inv V h" "parseBottom W now", OF parseBottom_ok 1(2)] by blast
  obtain p3 b3 w3 where 3: "repeat_op ?n (topDown W now) (b2, w2) = Inr (p3, b3, w3)" "rob_inv V h b3 w3"
    using repeat_op_ok [of "rob_inv V h" "topDown W now", OF topDown_ok 2(2)] by blast
  show ?thesis using 1(1) 2(1) 3 by (simp add: runPipeline_def)
qed

end

section \<open>Control messages\<close>

text \<open>A reset forgets the transactions: the history starts again with what waits.\<close>

definition reset_history :: "('w, 't, 'i mem_body) world_view \<Rightarrow> ('t, 'i) ReorderBuffer \<Rightarrow> 'w \<Rightarrow> ('t, 'i) rob_history \<Rightarrow> ('t, 'i) rob_history" where
  "reset_history V b w h = h\<lparr>h_arrived := vWaiting V w (rb_TopPort b), h_up0 := sent_by V w (rb_TopPort b), h_down0 := sent_by V w (rb_BottomPort b)\<rparr>"

lemma rob_inv_reset:
  assumes "rob_inv V h b w" "b' = b\<lparr>rb_isFlushing := fl, rb_toBottomReqIDToTransactionTable := Map.empty, rb_transactions := []\<rparr>"
    "rob_safe V b w'" "\<exists>ids. vGenerated V w' = vGenerated V w @ ids" "sent_by V w' (rb_BottomPort b) = sent_by V w (rb_BottomPort b)"
    "set (vWaiting V w' (rb_BottomPort b)) \<subseteq> set (vWaiting V w (rb_BottomPort b))"
  shows "rob_inv V (reset_history V b' w' h) b' w'"
proof -
  have f: "rb_TopPort b' = rb_TopPort b" "rb_BottomPort b' = rb_BottomPort b" "rb_transactions b' = []" "rb_toBottomReqIDToTransactionTable b' = Map.empty"
    using assms(2) by simp_all
  have safe: "rob_safe V b' w'" using assms(2,3) by (simp add: rob_safe_def)
  have "rob_orderly V (reset_history V b' w' h) b' w' []" if dist: "distinct (vGenerated V w')"
  proof -
    obtain ids where g: "vGenerated V w' = vGenerated V w @ ids" using assms(4) by blast
    then obtain dn where "rob_orderly V h b w dn" using assms(1) dist by (auto simp: rob_inv_def)
    note O = rob_orderD [OF this [unfolded rob_orderly_def]]
    have "ids_ok (sent_by V w' (rb_BottomPort b)) (vGenerated V w')" using O(6) g assms(5) by (simp add: ids_ok_mono)
    moreover have "set (vWaiting V w' (rb_BottomPort b)) \<subseteq> set (h_responses h)" using O(5) assms(6) by blast
    ultimately show ?thesis using rob_order_reset [OF f(3,4)] unfolding rob_orderly_def reset_history_def f(1,2) by blast
  qed
  then show ?thesis using safe unfolding rob_inv_def by blast
qed

lemma rob_safe_sends: "rob_safe V b w \<Longrightarrow> sends V ms w w' \<Longrightarrow> rob_safe V b w'"
  by (simp add: rob_safe_def from_linked_def sends_def)

context mem_world
begin

lemma notifyDone_ok:
  assumes "m_Src msg = Some d" "vLinked V w (rb_ControlPort b) d"
  shows "\<exists>accepted w' ms. notifyDone W now msg b w = Inr (accepted, w') \<and> sends V ms w w' \<and> (\<forall>m \<in> set ms. m_Src m = Some (rb_ControlPort b))"
proof -
  let ?body = "ControlMsg \<lparr>cm_TrafficBytes = controlMsgByteOverhead, cm_DiscardTransations = False, cm_Restart = False, cm_NotifyDone = True\<rparr>"
  obtain m w1 where m: "new_msg W (Some (rb_ControlPort b)) (m_Src msg) now ?body w = (m, w1)" "m_Src m = Some (rb_ControlPort b)"
    "m_Dst m = Some d" "\<not> m_PutInL2TLBBuffer m" "sends V [] w w1"
    using new_msg_ok [of "Some (rb_ControlPort b)" "m_Src msg" now ?body w] assms(1) by auto
  have "vLinked V w1 (rb_ControlPort b) d" using assms(2) m(5) by (simp add: sends_def)
  then obtain accepted w2 where s: "wSend W (rb_ControlPort b) m w1 = Inr (accepted, w2)" "sends V (if accepted then [m] else []) w1 w2"
    using Send [OF _ m(2-4)] by blast
  then have "notifyDone W now msg b w = Inr (accepted, w2)" using m(1) by (simp add: notifyDone_def Build_defs)
  moreover have "\<forall>x \<in> set ([] @ (if accepted then [m] else [])). m_Src x = Some (rb_ControlPort b)" using m(2) by simp
  ultimately show ?thesis using sends_trans [OF m(5) s(2)] by blast
qed

text \<open>A control message is refused and nothing happens, or the buffer is reset.\<close>

lemma rob_processControlMsg_ok:
  assumes "rob_inv V h b w"
  shows "\<exists>c b' w'. rob_processControlMsg W now (b, w) = Inr (c, b', w') \<and> rob_inv V (if c then reset_history V b' w' h else h) b' w'"
proof (cases "vWaiting V w (rb_ControlPort b)")
  case Nil
  then show ?thesis using assms by (auto simp: rob_processControlMsg_def Peek)
next
  case (Cons item rest)
  have safe: "rob_safe V b w" using assms by (simp add: rob_inv_def)
  then have pc: "plain_ctrl (m_Body item)" and "from_linked V w (rb_ControlPort b) item"
    and neq: "rb_TopPort b \<noteq> rb_BottomPort b" "rb_TopPort b \<noteq> rb_ControlPort b" "rb_BottomPort b \<noteq> rb_ControlPort b"
    and "\<exists>x. vLinked V w (rb_TopPort b) x" "\<exists>y. vLinked V w (rb_BottomPort b) y" using Cons by (auto simp: rob_safe_def)
  then obtain d x y where d: "m_Src item = Some d" "vLinked V w (rb_ControlPort b) d" and x: "vLinked V w (rb_TopPort b) x"
    and y: "vLinked V w (rb_BottomPort b) y" by (auto simp: from_linked_def)
  obtain c where c: "m_Body item = ControlMsg c" "cm_DiscardTransations c \<or> cm_Restart c" using pc by (cases "m_Body item") auto
  obtain accepted w1 ms where n: "notifyDone W now item b w = Inr (accepted, w1)" "sends V ms w w1" "\<forall>m \<in> set ms. m_Src m = Some (rb_ControlPort b)"
    using notifyDone_ok [OF d] by blast
  have l1: "vLinked V w1 = vLinked V w" "vWaiting V w1 = vWaiting V w" using n(2) by (simp_all add: sends_def)
  have sb1: "sent_by V w1 (rb_BottomPort b) = sent_by V w (rb_BottomPort b)" using n(3) neq(3) by (auto simp: sends_sent_by [OF n(2)] filter_empty_conv)
  have safe1: "rob_safe V b w1" by (rule rob_safe_sends [OF safe n(2)])
  let ?b = "\<lambda>fl. b\<lparr>rb_isFlushing := fl, rb_toBottomReqIDToTransactionTable := Map.empty, rb_transactions := []\<rparr>"
  show ?thesis
  proof (cases accepted)
    case False
    then have "rob_processControlMsg W now (b, w) = Inr (False, b, w1)"
      using Cons c n(1) by (auto simp: rob_processControlMsg_def Peek discardTransactions_def restart_def)
    moreover have "rob_inv V h b w1" using rob_inv_sends [OF assms n(2)] n(3) neq by auto
    ultimately show ?thesis by auto
  next
    case True
    note acc = True
    show ?thesis
    proof (cases "cm_DiscardTransations c")
      case True
      obtain w2 where r: "wRetrieve W now (rb_ControlPort b) w1 = Inr (Some item, w2)" "takes V (rb_ControlPort b) [item] w1 w2"
        using Retrieve_some [of w1 "rb_ControlPort b" d item rest now] d(2) l1 Cons by auto
      have op: "rob_processControlMsg W now (b, w) = Inr (True, ?b True, w2)"
        using Cons c(1) n(1) acc True r(1) by (simp add: rob_processControlMsg_def Peek discardTransactions_def)
      have "rob_inv V (reset_history V (?b True) w2 h) (?b True) w2"
        by (rule rob_inv_reset [OF assms refl rob_safe_takes [OF safe1 r(2)]])
          (use r(2) n(2) sb1 l1 neq in \<open>auto simp: takes_def sends_def sent_by_def\<close>)
      then show ?thesis using op by auto
    next
      case False
      obtain w2 where t: "drain_port W now (rb_TopPort b) w1 = Inr w2" "takes V (rb_TopPort b) (vWaiting V w1 (rb_TopPort b)) w1 w2"
        using drain_all [of w1 "rb_TopPort b" x now] x l1 by auto
      have l2: "vLinked V w2 = vLinked V w" "vWaiting V w2 (rb_ControlPort b) = item # rest" using t(2) l1 neq Cons by (auto simp: takes_def)
      obtain w3 where t3: "drain_port W now (rb_BottomPort b) w2 = Inr w3" "takes V (rb_BottomPort b) (vWaiting V w2 (rb_BottomPort b)) w2 w3"
        using drain_all [of w2 "rb_BottomPort b" y now] y l2 by auto
      have l3: "vLinked V w3 = vLinked V w" "vWaiting V w3 (rb_ControlPort b) = item # rest" using t3(2) l2 neq by (auto simp: takes_def)
      obtain w4 where r: "wRetrieve W now (rb_ControlPort b) w3 = Inr (Some item, w4)" "takes V (rb_ControlPort b) [item] w3 w4"
        using Retrieve_some [of w3 "rb_ControlPort b" d item rest now] d(2) l3 by auto
      have op: "rob_processControlMsg W now (b, w) = Inr (True, ?b False, w4)"
        using Cons c n(1) acc False r(1) t(1) t3(1) by (simp add: rob_processControlMsg_def Peek restart_def)
      have safe4: "rob_safe V b w4" by (rule rob_safe_takes [OF rob_safe_takes [OF rob_safe_takes [OF safe1 t(2)] t3(2)] r(2)])
      have "sent_by V w4 (rb_BottomPort b) = sent_by V w (rb_BottomPort b)"
        by (simp add: takes_sent_by [OF r(2)] takes_sent_by [OF t3(2)] takes_sent_by [OF t(2)] sb1)
      moreover have "vWaiting V w4 (rb_BottomPort b) = []" using r(2) t3(2) neq by (auto simp: takes_def)
      moreover have "\<exists>ids. vGenerated V w4 = vGenerated V w @ ids" using n(2) t(2) t3(2) r(2) by (auto simp: takes_def sends_def)
      ultimately have "rob_inv V (reset_history V (?b False) w4 h) (?b False) w4"
        by (intro rob_inv_reset [OF assms refl safe4]) auto
      then show ?thesis using op by auto
    qed
  qed
qed

lemma rob_Tick_ok:
  assumes "rob_inv V h b w"
  shows "\<exists>c b1 w1 p b' w'. rob_processControlMsg W now (b, w) = Inr (c, b1, w1) \<and> rob_Tick W now (b, w) = Inr (p, b', w') \<and>
    rob_inv V (if c then reset_history V b1 w1 h else h) b' w'"
proof -
  obtain c b1 w1 where 1: "rob_processControlMsg W now (b, w) = Inr (c, b1, w1)" "rob_inv V (if c then reset_history V b1 w1 h else h) b1 w1"
    using rob_processControlMsg_ok [OF assms] by blast
  obtain p b2 w2 where 2: "runPipeline W now (b1, w1) = Inr (p, b2, w2)" "rob_inv V (if c then reset_history V b1 w1 h else h) b2 w2"
    using runPipeline_ok [OF 1(2)] by blast
  show ?thesis using 1 2 by (auto simp: rob_Tick_def)
qed

end

section \<open>Histories\<close>

text \<open>
  What anything else in the simulation may do between two ticks: deliver requests \<open>ts\<close> to the top port, responses \<open>bs\<close> to the
  bottom port and control messages, generate identifiers and link further ports. It does not take messages out of the
  buffer's ports and does not send from them.
\<close>

definition rob_env ::
    "('w, 't, 'i mem_body) world_view \<Rightarrow> ('t, 'i) ReorderBuffer \<Rightarrow> ('t, 'i) MemMsg list \<Rightarrow> ('t, 'i) MemMsg list \<Rightarrow> 'w \<Rightarrow> 'w \<Rightarrow> bool" where
  "rob_env V b ts bs w w' \<longleftrightarrow>
     vWaiting V w' (rb_TopPort b) = vWaiting V w (rb_TopPort b) @ ts \<and>
     vWaiting V w' (rb_BottomPort b) = vWaiting V w (rb_BottomPort b) @ bs \<and>
     (\<exists>cs. vWaiting V w' (rb_ControlPort b) = vWaiting V w (rb_ControlPort b) @ cs \<and>
        (\<forall>m \<in> set cs. plain_ctrl (m_Body m) \<and> from_linked V w' (rb_ControlPort b) m)) \<and>
     (\<forall>m \<in> set ts. plain_req (m_Body m) \<and> from_linked V w' (rb_TopPort b) m) \<and>
     (\<forall>m \<in> set bs. plain_rsp (m_Body m)) \<and>
     (\<forall>p \<in> {rb_TopPort b, rb_BottomPort b}. sent_by V w' p = sent_by V w p) \<and>
     (\<exists>ids. vGenerated V w' = vGenerated V w @ ids) \<and>
     (\<forall>p \<in> {rb_TopPort b, rb_BottomPort b, rb_ControlPort b}. \<forall>d. vLinked V w p d \<longrightarrow> vLinked V w' p d)"

record ('w, 't, 'i) rob_system =
  rs_rob :: "('t, 'i) ReorderBuffer"
  rs_world :: 'w
  rs_history :: "('t, 'i) rob_history"

inductive rob_step ::
    "('w, 't::zero, 'i mem_body) world_ops \<Rightarrow> ('w, 't, 'i mem_body) world_view \<Rightarrow> ('w, 't, 'i) rob_system \<Rightarrow> ('w, 't, 'i) rob_system \<Rightarrow> bool"
  for W V where
  environment: "rob_env V b ts bs w w' \<Longrightarrow>
    rob_step W V \<lparr>rs_rob = b, rs_world = w, rs_history = h\<rparr>
      \<lparr>rs_rob = b, rs_world = w', rs_history = h\<lparr>h_arrived := h_arrived h @ ts, h_responses := h_responses h @ bs\<rparr>\<rparr>"
| tick: "rob_processControlMsg W now (b, w) = Inr (c, b1, w1) \<Longrightarrow> rob_Tick W now (b, w) = Inr (p, b', w') \<Longrightarrow>
    rob_step W V \<lparr>rs_rob = b, rs_world = w, rs_history = h\<rparr>
      \<lparr>rs_rob = b', rs_world = w', rs_history = (if c then reset_history V b1 w1 h else h)\<rparr>"

definition rob_start :: "('w, 't, 'i mem_body) world_view \<Rightarrow> ('t, 'i) ReorderBuffer \<Rightarrow> 'w \<Rightarrow> ('w, 't, 'i) rob_system" where
  "rob_start V b w = \<lparr>rs_rob = b, rs_world = w,
     rs_history = \<lparr>h_arrived = [], h_responses = [], h_up0 = sent_by V w (rb_TopPort b), h_down0 = []\<rparr>\<rparr>"

lemma rob_inv_env:
  assumes "rob_inv V h b w" "rob_env V b ts bs w w'"
  shows "rob_inv V (h\<lparr>h_arrived := h_arrived h @ ts, h_responses := h_responses h @ bs\<rparr>) b w'"
proof -
  have safe: "rob_safe V b w" using assms(1) by (simp add: rob_inv_def)
  obtain cs ids where e: "vWaiting V w' (rb_TopPort b) = vWaiting V w (rb_TopPort b) @ ts" "vWaiting V w' (rb_BottomPort b) = vWaiting V w (rb_BottomPort b) @ bs"
    "vWaiting V w' (rb_ControlPort b) = vWaiting V w (rb_ControlPort b) @ cs" "\<forall>m \<in> set cs. plain_ctrl (m_Body m) \<and> from_linked V w' (rb_ControlPort b) m"
    "\<forall>m \<in> set ts. plain_req (m_Body m) \<and> from_linked V w' (rb_TopPort b) m" "\<forall>m \<in> set bs. plain_rsp (m_Body m)"
    "vGenerated V w' = vGenerated V w @ ids" "\<forall>p \<in> {rb_TopPort b, rb_BottomPort b}. sent_by V w' p = sent_by V w p"
    "\<forall>p \<in> {rb_TopPort b, rb_BottomPort b, rb_ControlPort b}. \<forall>d. vLinked V w p d \<longrightarrow> vLinked V w' p d"
    using assms(2) unfolding rob_env_def by (elim exE conjE) (rule that; assumption)
  have fl: "from_linked V w p m \<Longrightarrow> from_linked V w' p m" if "p \<in> {rb_TopPort b, rb_BottomPort b, rb_ControlPort b}" for p m
    using e(9) that unfolding from_linked_def by blast
  have "rob_safe V b w'"
    using safe e(4-6,9) fl unfolding rob_safe_def e(1-3) by (intro conjI) (simp_all; blast)+
  moreover have "\<exists>dn. rob_orderly V (h\<lparr>h_arrived := h_arrived h @ ts, h_responses := h_responses h @ bs\<rparr>) b w' dn" if dist: "distinct (vGenerated V w')"
  proof -
    obtain dn where O: "rob_orderly V h b w dn" using assms(1) dist e(7) by (auto simp: rob_inv_def)
    have "sent_by V w' (rb_TopPort b) = sent_by V w (rb_TopPort b)" "sent_by V w' (rb_BottomPort b) = sent_by V w (rb_BottomPort b)" using e(8) by simp_all
    then show ?thesis using rob_order_mono [OF O [unfolded rob_orderly_def], where ts = ts and bs = bs and ids = ids] unfolding rob_orderly_def e(1,2,7) by auto
  qed
  ultimately show ?thesis by (simp add: rob_inv_def)
qed

context mem_world
begin

lemma rob_inv_step: "rob_step W V s s' \<Longrightarrow> rob_inv V (rs_history s) (rs_rob s) (rs_world s) \<Longrightarrow> rob_inv V (rs_history s') (rs_rob s') (rs_world s')"
proof (induction rule: rob_step.induct)
  case (environment b ts bs w w' h)
  then show ?case using rob_inv_env by fastforce
next
  case (tick now b w c b1 w1 p b' w' h)
  then show ?case using rob_Tick_ok [of h b w now] by auto
qed

lemma rob_inv_reach:
  "(rob_step W V)\<^sup>*\<^sup>* s s' \<Longrightarrow> rob_inv V (rs_history s) (rs_rob s) (rs_world s) \<Longrightarrow> rob_inv V (rs_history s') (rs_rob s') (rs_world s')"
  by (induction rule: rtranclp_induct) (auto intro: rob_inv_step)

lemma rob_Tick_returns: "rob_inv V h b w \<Longrightarrow> \<exists>r. rob_Tick W now (b, w) = Inr r"
  using rob_Tick_ok by blast

end

text \<open>A buffer as the builder makes it, wired up, before anything was sent.\<close>

lemma rob_inv_start:
  assumes "b = (fst (rob_Build self name topPort bottomPort controlPort n capacity))\<lparr>rb_BottomUnit := Some below\<rparr>"
    and "distinct [topPort, bottomPort, controlPort]" "vLinked V w topPort x" "vLinked V w bottomPort below" "vLinked V w controlPort y"
    and "\<forall>p \<in> {topPort, bottomPort, controlPort}. vWaiting V w p = []" "sent_by V w bottomPort = []"
  shows "rob_inv V (rs_history (rob_start V b w)) (rs_rob (rob_start V b w)) (rs_world (rob_start V b w))"
  using assms by (auto simp: rob_inv_def rob_orderly_def rob_safe_def rob_start_def rob_Build_def rob_order_def ids_ok_def table_ok_def)

section \<open>Properties\<close>

text \<open>
  Claim C12. The reorder buffer answers in order. Take a buffer as built, wired to direct connections, and any history in which requests,
  responses (to anything, in any order, any number of times) and control messages arrive and the buffer ticks, as long as no
  identifier was generated twice. Then a tick never panics and returns, and since the last reset the requests that arrived are,
  in order, those answered, those pending and those waiting; each was forwarded as one copy, in the same order and with an identifier
  no other copy ever had; the answers sent up are, in order, one for each answered request, addressed to its sender and
  with its identifier, and with the data of a response from below to its copy. At most \<open>bufferSize\<close> requests are pending.
\<close>

theorem ROB_answers_in_order:
  assumes "b0 = (fst (rob_Build self name topPort bottomPort controlPort n capacity))\<lparr>rb_BottomUnit := Some below\<rparr>"
    and "distinct [topPort, bottomPort, controlPort]" "sim_linked w0 topPort x" "sim_linked w0 bottomPort below" "sim_linked w0 controlPort y"
    and "\<forall>p \<in> {topPort, bottomPort, controlPort}. lp_buf (sim_ports w0 p) = []" "sent_by sim_view w0 bottomPort = []"
    and "(rob_step sim_world sim_view)\<^sup>*\<^sup>* (rob_start sim_view b0 w0) \<lparr>rs_rob = b, rs_world = w, rs_history = h\<rparr>"
    and "distinct (sim_generated w)"
  shows "(\<exists>r. rob_Tick sim_world now (b, w) = Inr r) \<and> int (length (rb_transactions b)) \<le> max 0 (rb_bufferSize b) \<and>
    distinct (map m_ID (sent_by sim_view w (rb_BottomPort b))) \<and>
    (\<exists>dn ups. h_arrived h = map rt_reqFromTop (dn @ map snd (rb_transactions b)) @ lp_buf (sim_ports w (rb_TopPort b)) \<and>
       sent_by sim_view w (rb_BottomPort b) = h_down0 h @ map rt_reqToBottom (dn @ map snd (rb_transactions b)) \<and>
       sent_by sim_view w (rb_TopPort b) = h_up0 h @ ups \<and> list_all2 (answers b) dn ups \<and>
       (\<forall>t \<in> set (dn @ map snd (rb_transactions b)). served (set (h_responses h)) b t))"
proof -
  have "rob_inv sim_view (rs_history (rob_start sim_view b0 w0)) (rs_rob (rob_start sim_view b0 w0)) (rs_world (rob_start sim_view b0 w0))"
    by (rule rob_inv_start [OF assms(1,2)]) (use assms(3-7) in \<open>simp_all add: sim_view_def\<close>)
  from mw.rob_inv_reach [OF assms(8) this] have inv: "rob_inv sim_view h b w" by simp
  then obtain dn where "rob_orderly sim_view h b w dn" using assms(9) by (auto simp: rob_inv_def sim_view_def)
  note O = rob_orderD [OF this [unfolded rob_orderly_def]]
  obtain ups where "sent_by sim_view w (rb_TopPort b) = h_up0 h @ ups" "list_all2 (answers b) dn ups" using O(3) by blast
  moreover have "vWaiting sim_view w (rb_TopPort b) = lp_buf (sim_ports w (rb_TopPort b))" by (simp add: sim_view_def)
  ultimately show ?thesis using mw.rob_Tick_returns [OF inv, of now] O(1,2,4,6,7) unfolding ids_ok_def table_ok_def by (intro conjI exI [of _ dn] exI [of _ ups]) auto
qed

text \<open>A buffer for one request between a requester at port 0 and a unit at port 3, with a controller at port 5.\<close>

definition demo_rob :: "(int, unit) ReorderBuffer" where
  "demo_rob = (fst (rob_Build 0 ''ROB'' 1 2 4 1 1))\<lparr>rb_BottomUnit := Some 3\<rparr>"

definition demo_world :: "(int, unit mem_body) sim" where
  "demo_world =
     (let (c, ports) = plug_all LimitNumMsgPort 0 [(0, 4), (1, 4), (2, 4), (3, 4), (4, 4), (5, 4)]
            (NewDirectConnection ''Conn'' (\<lambda>t. t + 1), (\<lambda>p. NewLimitNumMsgPort (Some p) 2 ''P''))
      in \<lparr>sim_ports = ports, sim_conns = (\<lambda>_. c), sim_nextID = 0, sim_events = [], sim_sent = [], sim_generated = []\<rparr>)"

definition demo_deliver :: "port \<Rightarrow> (int, unit) MemMsg \<Rightarrow> (int, unit mem_body) sim \<Rightarrow> (int, unit mem_body) sim" where
  "demo_deliver p m w = w\<lparr>sim_ports := (sim_ports w)(p := snd (Port_Recv m (sim_ports w p)))\<rparr>"

definition demo_read :: "(int, unit) MemMsg" where
  "demo_read = \<lparr>m_ID = ''r'', m_Src = Some 0, m_Dst = Some 1, m_SendTime = 0, m_RecvTime = 0, m_PutInL2TLBBuffer = False,
     m_Body = ReadReqMsg \<lparr>rd_TrafficBytes = 12, rd_Address = 64, rd_AccessByteSize = 2, rd_PID = 1, rd_CanWaitForCoalesce = True, rd_Info = None\<rparr>\<rparr>"

definition demo_data :: "(int, unit) MemMsg" where
  "demo_data = \<lparr>m_ID = ''d'', m_Src = Some 3, m_Dst = Some 2, m_SendTime = 1, m_RecvTime = 1, m_PutInL2TLBBuffer = False,
     m_Body = DataReadyMsg \<lparr>dr_TrafficBytes = 6, dr_RespondTo = ''1'', dr_Data = [7, 8], dr_Info = None\<rparr>\<rparr>"

lemmas demo_rob_defs = demo_rob_def demo_world_def demo_deliver_def demo_read_def demo_data_def rob_Build_def plug_all_def PlugIn_def
  NewDirectConnection_def NewSecondaryTickScheduler_def NewLimitNumMsgPort_def LimitNumMsgPort_defs DC_Send_def msgMustBeValid_def
  portMustBeConnected_def srcPort_def DC_TickNow_def TickNow_def MakeTickEvent_def DC_NotifyAvailable_def Port_Send_def
  sim_world_def sim_Peek_def sim_Retrieve_def sim_Send_def sim_Generate_def sim_call_def sequentialIDGenerator_Generate_def FormatUint_def
  rob_Tick_def rob_processControlMsg_def runPipeline_def bottomUp_def parseBottom_def topDown_def rob_isFull_def createTransaction_def
  duplicateReq_def duplicateReadReq_def duplicateRsp_def duplicateDataReadyRsp_def addTransaction_def deleteTransaction_def set_rsp_def
  new_msg_def Build_defs digit_def decimal.simps Let_def

text \<open>The read arrives and is forwarded; its response arrives, is noted in the next tick and answered in the one after.\<close>

definition demo_rob1 where "demo_rob1 = snd (projr (rob_Tick sim_world 0 (demo_rob, demo_deliver 1 demo_read demo_world)))"
definition demo_rob2 where "demo_rob2 = snd (projr (rob_Tick sim_world 1 (fst demo_rob1, demo_deliver 2 demo_data (snd demo_rob1))))"
definition demo_rob3 where "demo_rob3 = snd (projr (rob_Tick sim_world 2 demo_rob2))"

lemma demo_rob1_eval: "rob_Tick sim_world 0 (demo_rob, demo_deliver 1 demo_read demo_world) = Inr (True, demo_rob1)"
    "rob_processControlMsg sim_world 0 (demo_rob, demo_deliver 1 demo_read demo_world) = Inr (False, demo_rob, demo_deliver 1 demo_read demo_world)"
  unfolding demo_rob1_def by (simp_all add: demo_rob_defs)

lemma demo_rob2_eval: "rob_Tick sim_world 1 (fst demo_rob1, demo_deliver 2 demo_data (snd demo_rob1)) = Inr (True, demo_rob2)"
    "rob_processControlMsg sim_world 1 (fst demo_rob1, demo_deliver 2 demo_data (snd demo_rob1)) = Inr (False, fst demo_rob1, demo_deliver 2 demo_data (snd demo_rob1))"
  unfolding demo_rob2_def demo_rob1_def by (simp_all add: demo_rob_defs)

lemma demo_rob3_eval: "rob_Tick sim_world 2 demo_rob2 = Inr (True, demo_rob3)"
    "rob_processControlMsg sim_world 2 demo_rob2 = Inr (False, demo_rob2)"
    "distinct (sim_generated (snd demo_rob3))" "rb_TopPort (fst demo_rob3) = 1" "rb_BottomPort (fst demo_rob3) = 2"
    "map (\<lambda>m. GetRespondTo (m_Body m)) (sent_by sim_view (snd demo_rob3) 1) = [Some ''r'']"
  unfolding demo_rob3_def demo_rob2_def demo_rob1_def by (simp_all add: demo_rob_defs sent_by_def sim_view_def)

lemma demo_rob_reach:
  "(rob_step sim_world sim_view)\<^sup>*\<^sup>* (rob_start sim_view demo_rob demo_world)
     \<lparr>rs_rob = fst demo_rob3, rs_world = snd demo_rob3, rs_history = \<lparr>h_arrived = [demo_read], h_responses = [demo_data], h_up0 = [], h_down0 = []\<rparr>\<rparr>"
proof -
  let ?S = "rob_step sim_world sim_view"
  let ?h = "\<lambda>xs ys. \<lparr>h_arrived = xs, h_responses = ys, h_up0 = [], h_down0 = []\<rparr>"
  let ?s = "\<lambda>b w xs ys. \<lparr>rs_rob = b, rs_world = w, rs_history = ?h xs ys\<rparr>"
  have 0: "rob_start sim_view demo_rob demo_world = ?s demo_rob demo_world [] []"
    by (simp add: rob_start_def sent_by_def sim_view_def demo_rob_defs)
  have "rob_env sim_view demo_rob [demo_read] [] demo_world (demo_deliver 1 demo_read demo_world)"
    by (auto simp: rob_env_def sent_by_def from_linked_def sim_view_def sim_linked_def demo_rob_defs)
  from rob_step.environment [OF this, of sim_world "?h [] []"]
  have 1: "?S (?s demo_rob demo_world [] []) (?s demo_rob (demo_deliver 1 demo_read demo_world) [demo_read] [])" by simp
  from rob_step.tick [where V = sim_view, OF demo_rob1_eval(2), of True "fst demo_rob1" "snd demo_rob1"] demo_rob1_eval(1)
  have 2: "?S (?s demo_rob (demo_deliver 1 demo_read demo_world) [demo_read] []) (?s (fst demo_rob1) (snd demo_rob1) [demo_read] [])" by simp
  have "rob_env sim_view (fst demo_rob1) [] [demo_data] (snd demo_rob1) (demo_deliver 2 demo_data (snd demo_rob1))"
    unfolding demo_rob1_def by (auto simp: rob_env_def sent_by_def from_linked_def sim_view_def sim_linked_def demo_rob_defs)
  from rob_step.environment [OF this, of sim_world "?h [demo_read] []"]
  have 3: "?S (?s (fst demo_rob1) (snd demo_rob1) [demo_read] []) (?s (fst demo_rob1) (demo_deliver 2 demo_data (snd demo_rob1)) [demo_read] [demo_data])" by simp
  from rob_step.tick [where V = sim_view, OF demo_rob2_eval(2), of True "fst demo_rob2" "snd demo_rob2"] demo_rob2_eval(1)
  have 4: "?S (?s (fst demo_rob1) (demo_deliver 2 demo_data (snd demo_rob1)) [demo_read] [demo_data]) (?s (fst demo_rob2) (snd demo_rob2) [demo_read] [demo_data])" by simp
  from rob_step.tick [where V = sim_view and W = sim_world and b = "fst demo_rob2" and w = "snd demo_rob2" and c = False and ?b1.0 = "fst demo_rob2" and ?w1.0 = "snd demo_rob2"
      and b' = "fst demo_rob3" and w' = "snd demo_rob3" and now = 2 and p = True] demo_rob3_eval(1,2)
  have 5: "?S (?s (fst demo_rob2) (snd demo_rob2) [demo_read] [demo_data]) (?s (fst demo_rob3) (snd demo_rob3) [demo_read] [demo_data])" by simp
  show ?thesis unfolding 0 using 1 2 3 4 5 by (meson converse_rtranclp_into_rtranclp rtranclp.rtrancl_refl)
qed

theorem ROB_answers_in_order_witness:
  "\<exists>dn ups. [demo_read] = map rt_reqFromTop (dn @ map snd (rb_transactions (fst demo_rob3))) @ lp_buf (sim_ports (snd demo_rob3) 1) \<and>
     list_all2 (answers (fst demo_rob3)) dn ups \<and> map (\<lambda>m. GetRespondTo (m_Body m)) ups = [Some ''r'']"
proof -
  have "distinct [1, 2, 4 :: nat]" "sim_linked demo_world 1 0" "sim_linked demo_world 2 3" "sim_linked demo_world 4 5"
    "\<forall>p \<in> {1, 2, 4}. lp_buf (sim_ports demo_world p) = []" "sent_by sim_view demo_world 2 = []"
    by (auto simp: sim_linked_def sent_by_def sim_view_def demo_rob_defs)
  from ROB_answers_in_order [OF demo_rob_def this demo_rob_reach demo_rob3_eval(3), of 3] obtain dn ups
    where "[demo_read] = map rt_reqFromTop (dn @ map snd (rb_transactions (fst demo_rob3))) @ lp_buf (sim_ports (snd demo_rob3) 1)"
      "list_all2 (answers (fst demo_rob3)) dn ups" "sent_by sim_view (snd demo_rob3) 1 = ups"
    unfolding demo_rob3_eval(4) by auto
  then show ?thesis using demo_rob3_eval(6) by metis
qed

text \<open>
  The copy of a read or write never says that it may wait for coalescing, whatever the request says, although the coalescer of the cache
  behind the buffer decides by that flag.
\<close>

lemma duplicate_cannot_wait:
  "m_Body (fst (duplicateReadReq W b r w)) = ReadReqMsg r' \<Longrightarrow> \<not> rd_CanWaitForCoalesce r'"
  "m_Body (fst (duplicateWriteReq W b q w)) = WriteReqMsg q' \<Longrightarrow> \<not> wr_CanWaitForCoalesce q'"
  by (auto simp: duplicateReadReq_def duplicateWriteReq_def Build_defs new_msg_def split: prod.splits)

end
