(* ===== verification/Ideal_Controller.thy ===== *)
theory Ideal_Controller
  imports Mem_Protocol Storage Low_Module
begin

text \<open>
  The ideal memory controller (\<^verbatim>\<open>mem/idealmemcontroller/idealmemcontroller.go\<close>): it takes at most \<open>MaxNumTransaction\<close> requests at a time out of its port,
  schedules one event per request a fixed number of cycles later and answers when the event is handled, reading or writing the
  storage of \<open>Storage\<close> behind the address converter of \<open>Low_Module\<close>. A response the connection refuses is tried again
  in the next cycle.

  The messages are those of \<open>Mem_Protocol\<close>, the ports those of \<open>Sim_World\<close>. The events a handler gives to \<^verbatim>\<open>Engine.Schedule\<close> are
  the last component of its result. \<^verbatim>\<open>Freq.NCyclesLater\<close> and \<^verbatim>\<open>Freq.NextTick\<close> compute in floating point and are fields. Reading may allocate a
  unit of the storage, which stays allocated when the response is refused.
\<close>

section \<open>State and operations\<close>

datatype ('t, 'i) imc_event =
    readRespondEvent string 't "('t, 'i) MemMsg" "'i ReadReq"
  | writeRespondEvent string 't "('t, 'i) MemMsg" "'i WriteReq"
  | TickEvent string 't
  | OtherEvent 't

record 't IdealMemController =
  imc_ToTop :: port
  imc_Storage :: storage
  imc_Latency :: int
  imc_AddressConverter :: "InterleavingConverter option"
  imc_MaxNumTransaction :: int
  imc_currNumTransaction :: int
  imc_sched :: "'t TickScheduler"
  imc_NCyclesLater :: "int \<Rightarrow> 't \<Rightarrow> 't"

type_synonym ('w, 't, 'i) imc_result = "('t IdealMemController \<times> 'w \<times> ('t, 'i) imc_event list) result"

definition imc_New ::
    "port \<Rightarrow> ('t \<Rightarrow> 't) \<Rightarrow> (int \<Rightarrow> 't \<Rightarrow> 't) \<Rightarrow> nat \<Rightarrow> string \<Rightarrow> u64 \<Rightarrow>
     't::linordered_idom IdealMemController \<times> ('t, 'b) LimitNumMsgPort" where
  "imc_New toTop nextTick nCyclesLater self name capacity =
     (\<lparr>imc_ToTop = toTop, imc_Storage = NewStorage capacity, imc_Latency = 100, imc_AddressConverter = None,
       imc_MaxNumTransaction = 100, imc_currNumTransaction = 0, imc_sched = NewTickScheduler nextTick, imc_NCyclesLater = nCyclesLater\<rparr>,
      NewLimitNumMsgPort (Some self) 16 (name @ ''.ToTop''))"

text \<open>\<^verbatim>\<open>TickLater\<close> of the embedded ticking component: it draws an identifier when it makes an event.\<close>

definition imc_TickLater ::
    "('w, 't::linordered_idom, 'i mem_body) world_ops \<Rightarrow> 't \<Rightarrow> 't IdealMemController \<Rightarrow> 'w \<Rightarrow> ('w, 't, 'i) imc_result" where
  "imc_TickLater W now c w =
     (let (ident, w') = wGenerate W w;
          (ts, evts) = TickLater ident () now (imc_sched c)
      in Inr (c\<lparr>imc_sched := ts\<rparr>, if evts = [] then w else w', map (\<lambda>e. TickEvent (ev_ID e) (ev_time e)) evts))"

definition handleReadReq ::
    "('w, 't, 'i mem_body) world_ops \<Rightarrow> 't \<Rightarrow> ('t, 'i) MemMsg \<Rightarrow> 'i ReadReq \<Rightarrow> 't IdealMemController \<Rightarrow> 'w \<Rightarrow> ('w, 't, 'i) imc_result" where
  "handleReadReq W now msg req c w =
     (let timeToSchedule = imc_NCyclesLater c (imc_Latency c) now;
          (ident, w') = wGenerate W w
      in Inr (c, w', [readRespondEvent ident timeToSchedule msg req]))"

definition handleWriteReq ::
    "('w, 't, 'i mem_body) world_ops \<Rightarrow> 't \<Rightarrow> ('t, 'i) MemMsg \<Rightarrow> 'i WriteReq \<Rightarrow> 't IdealMemController \<Rightarrow> 'w \<Rightarrow> ('w, 't, 'i) imc_result" where
  "handleWriteReq W now msg req c w =
     (let timeToSchedule = imc_NCyclesLater c (imc_Latency c) now;
          (ident, w') = wGenerate W w
      in Inr (c, w', [writeRespondEvent ident timeToSchedule msg req]))"

definition imc_Tick ::
    "('w, 't, 'i mem_body) world_ops \<Rightarrow> 't \<Rightarrow> 't IdealMemController \<Rightarrow> 'w \<Rightarrow>
     (bool \<times> 't IdealMemController \<times> 'w \<times> ('t, 'i) imc_event list) result" where
  "imc_Tick W now c w =
     (if imc_currNumTransaction c \<ge> imc_MaxNumTransaction c then Inr (False, c, w, [])
      else bindR (wRetrieve W now (imc_ToTop c) w) (\<lambda>(taken, w).
        case taken of
          None \<Rightarrow> Inr (False, c, w, [])
        | Some msg \<Rightarrow>
            let c = c\<lparr>imc_currNumTransaction := imc_currNumTransaction c + 1\<rparr>
            in case m_Body msg of
                 ReadReqMsg r \<Rightarrow> bindR (handleReadReq W now msg r c w) (\<lambda>s. Inr (True, s))
               | WriteReqMsg r \<Rightarrow> bindR (handleWriteReq W now msg r c w) (\<lambda>s. Inr (True, s))
               | _ \<Rightarrow> Inl (Panic ''cannot handle request of type'')))"

definition imc_convert :: "'t IdealMemController \<Rightarrow> u64 \<Rightarrow> u64 result" where
  "imc_convert c addr = (case imc_AddressConverter c of None \<Rightarrow> Inr addr | Some conv \<Rightarrow> ConvertExternalToInternal conv addr)"

text \<open>A call of the storage whose error the controller turns into a panic.\<close>

definition or_panic :: "(storage \<times> (string + 'a)) result option \<Rightarrow> (storage \<times> 'a) result" where
  "or_panic r =
     (case r of
        None \<Rightarrow> Inl Diverges
      | Some (Inl p) \<Rightarrow> Inl p
      | Some (Inr (s, Inl err)) \<Rightarrow> Inl (Panic err)
      | Some (Inr (s, Inr x)) \<Rightarrow> Inr (s, x))"

definition handleReadRespondEvent ::
    "('w, 't::linordered_idom, 'i mem_body) world_ops \<Rightarrow> 't \<Rightarrow> ('t, 'i) MemMsg \<Rightarrow> 'i ReadReq \<Rightarrow> 't IdealMemController \<Rightarrow> 'w \<Rightarrow> ('w, 't, 'i) imc_result" where
  "handleReadRespondEvent W now msg req c w =
     bindR (imc_convert c (rd_Address req)) (\<lambda>addr.
     bindR (or_panic (storage_Read (imc_Storage c) addr (rd_AccessByteSize req))) (\<lambda>(s, data).
       let c = c\<lparr>imc_Storage := s\<rparr>;
           (rsp, w) = DataReadyRsp_Build W (DataReadyRspBuilder0\<lparr>drb_sendTime := now, drb_src := Some (imc_ToTop c),
             drb_dst := m_Src msg, drb_rspTo := m_ID msg, drb_data := data\<rparr>) w
       in bindR (wSend W (imc_ToTop c) rsp w) (\<lambda>(accepted, w).
          if \<not> accepted
          then let (ident, w) = wGenerate W w in Inr (c, w, [readRespondEvent ident (ts_NextTick (imc_sched c) now) msg req])
          else imc_TickLater W now (c\<lparr>imc_currNumTransaction := imc_currNumTransaction c - 1\<rparr>) w)))"

text \<open>The loop over the dirty mask; it indexes the mask and the data read.\<close>

fun merge_dirty :: "nat \<Rightarrow> byte list \<Rightarrow> bool list \<Rightarrow> byte list \<Rightarrow> byte list result" where
  "merge_dirty i [] dirty res = Inr res"
| "merge_dirty i (x # xs) dirty res =
     bindR (slice_get dirty i) (\<lambda>d.
       if d then if i < length res then merge_dirty (Suc i) xs dirty (res[i := x]) else Inl IndexOutOfRange
       else merge_dirty (Suc i) xs dirty res)"

definition imc_write :: "'i WriteReq \<Rightarrow> u64 \<Rightarrow> storage \<Rightarrow> storage result" where
  "imc_write req addr s =
     (case wr_DirtyMask req of
        None \<Rightarrow> bindR (or_panic (storage_Write s addr (wr_Data req))) (\<lambda>(s, _). Inr s)
      | Some dirty \<Rightarrow>
          bindR (or_panic (storage_Read s addr (of_nat (length (wr_Data req))))) (\<lambda>(s, data).
          bindR (merge_dirty 0 (wr_Data req) dirty data) (\<lambda>data.
          bindR (or_panic (storage_Write s addr data)) (\<lambda>(s, _). Inr s))))"

definition handleWriteRespondEvent ::
    "('w, 't::linordered_idom, 'i mem_body) world_ops \<Rightarrow> 't \<Rightarrow> ('t, 'i) MemMsg \<Rightarrow> 'i WriteReq \<Rightarrow> 't IdealMemController \<Rightarrow> 'w \<Rightarrow> ('w, 't, 'i) imc_result" where
  "handleWriteRespondEvent W now msg req c w =
     (let (rsp, w) = WriteDoneRsp_Build W (WriteDoneRspBuilder0\<lparr>wdb_sendTime := now, wdb_src := Some (imc_ToTop c),
            wdb_dst := m_Src msg, wdb_rspTo := m_ID msg\<rparr>) w
      in bindR (wSend W (imc_ToTop c) rsp w) (\<lambda>(accepted, w).
         if \<not> accepted
         then let (ident, w) = wGenerate W w in Inr (c, w, [writeRespondEvent ident (ts_NextTick (imc_sched c) now) msg req])
         else bindR (imc_convert c (wr_Address req)) (\<lambda>addr.
              bindR (imc_write req addr (imc_Storage c)) (\<lambda>s.
                imc_TickLater W now (c\<lparr>imc_Storage := s, imc_currNumTransaction := imc_currNumTransaction c - 1\<rparr>) w))))"

definition imc_Handle ::
    "('w, 't::linordered_idom, 'i mem_body) world_ops \<Rightarrow> ('t, 'i) imc_event \<Rightarrow> 't IdealMemController \<Rightarrow> 'w \<Rightarrow> ('w, 't, 'i) imc_result" where
  "imc_Handle W e c w =
     (case e of
        readRespondEvent _ now msg req \<Rightarrow> handleReadRespondEvent W now msg req c w
      | writeRespondEvent _ now msg req \<Rightarrow> handleWriteRespondEvent W now msg req c w
      | TickEvent _ now \<Rightarrow>
          bindR (imc_Tick W now c w) (\<lambda>(madeProgress, c, w, evts).
            if madeProgress
            then bindR (imc_TickLater W now c w) (\<lambda>(c, w, evts'). Inr (c, w, evts @ evts'))
            else Inr (c, w, evts))
      | OtherEvent _ \<Rightarrow> Inl (Panic ''cannot handle event of''))"

end
