(* ===== verification/Ideal_Memory.thy ===== *)
theory Ideal_Memory
  imports Ideal_Controller
begin

text \<open>
  The ideal memory controller implements a memory: the abstract memory and its answers, the storage operations in its terms, the histories of
  arriving requests and handled events with their invariant (kept in the locale \<open>mem_world\<close>), and the properties for the world of direct connections.
\<close>

section \<open>The memory the controller implements\<close>

text \<open>What a request does to the bytes behind the controller, and the answer it deserves.\<close>

definition is_dirty :: "'i WriteReq \<Rightarrow> nat \<Rightarrow> bool" where
  "is_dirty r i = (case wr_DirtyMask r of None \<Rightarrow> True | Some dirty \<Rightarrow> dirty ! i)"

definition put_bytes :: "u64 \<Rightarrow> 'i WriteReq \<Rightarrow> (u64 \<Rightarrow> byte) \<Rightarrow> u64 \<Rightarrow> byte" where
  "put_bytes a r m x =
     (if unat a \<le> unat x \<and> unat x < unat a + length (wr_Data r) \<and> is_dirty r (unat x - unat a) then wr_Data r ! (unat x - unat a) else m x)"

fun apply_req :: "(u64 \<Rightarrow> u64 result) \<Rightarrow> 'i mem_body \<Rightarrow> (u64 \<Rightarrow> byte) \<Rightarrow> u64 \<Rightarrow> byte" where
  "apply_req conv (WriteReqMsg r) m = (case conv (wr_Address r) of Inl _ \<Rightarrow> m | Inr a \<Rightarrow> put_bytes a r m)"
| "apply_req conv _ m = m"

fun right_answer :: "(u64 \<Rightarrow> u64 result) \<Rightarrow> (u64 \<Rightarrow> byte) \<Rightarrow> 'i mem_body \<Rightarrow> string \<Rightarrow> 'i mem_body \<Rightarrow> bool" where
  "right_answer conv m (ReadReqMsg r) ident (DataReadyMsg d) \<longleftrightarrow> dr_RespondTo d = ident \<and>
     (\<exists>a. conv (rd_Address r) = Inr a \<and> dr_Data d = map (\<lambda>i. m (a + of_nat i)) [0..<unat (rd_AccessByteSize r)])"
| "right_answer conv m (WriteReqMsg r) ident (WriteDoneMsg d) \<longleftrightarrow> wd_RespondTo d = ident"
| "right_answer conv m _ _ _ \<longleftrightarrow> False"

definition answered_at :: "(u64 \<Rightarrow> u64 result) \<Rightarrow> port \<Rightarrow> (u64 \<Rightarrow> byte) \<Rightarrow> ('t, 'i) MemMsg \<Rightarrow> ('t, 'i) MemMsg \<Rightarrow> bool" where
  "answered_at conv p m req rsp \<longleftrightarrow> m_Src rsp = Some p \<and> m_Dst rsp = m_Src req \<and> right_answer conv m (m_Body req) (m_ID req) (m_Body rsp)"

text \<open>The requests in the order they took effect, each answered from the memory its predecessors left.\<close>

fun memory_run ::
    "(u64 \<Rightarrow> u64 result) \<Rightarrow> port \<Rightarrow> (u64 \<Rightarrow> byte) \<Rightarrow> ('t, 'i) MemMsg list \<Rightarrow> ('t, 'i) MemMsg list \<Rightarrow> bool" where
  "memory_run conv p m [] [] \<longleftrightarrow> True"
| "memory_run conv p m (q # qs) (a # as) \<longleftrightarrow> answered_at conv p m q a \<and> memory_run conv p (apply_req conv (m_Body q) m) qs as"
| "memory_run conv p m _ _ \<longleftrightarrow> False"

definition memory_after :: "(u64 \<Rightarrow> u64 result) \<Rightarrow> (u64 \<Rightarrow> byte) \<Rightarrow> ('t, 'i) MemMsg list \<Rightarrow> u64 \<Rightarrow> byte" where
  "memory_after conv m qs = fold (\<lambda>q. apply_req conv (m_Body q)) qs m"

lemma memory_run_snoc:
  "memory_run conv p m qs as \<Longrightarrow> answered_at conv p (memory_after conv m qs) q a \<Longrightarrow> memory_run conv p m (qs @ [q]) (as @ [a])"
  by (induction conv p m qs as rule: memory_run.induct) (auto simp: memory_after_def)

lemma memory_after_snoc: "memory_after conv m (qs @ [q]) = apply_req conv (m_Body q) (memory_after conv m qs)"
  by (simp add: memory_after_def)

text \<open>A request the controller can serve: inside the storage, and with a mask as long as the data.\<close>

fun served_body :: "(u64 \<Rightarrow> u64 result) \<Rightarrow> storage \<Rightarrow> 'i mem_body \<Rightarrow> bool" where
  "served_body conv s (ReadReqMsg r) \<longleftrightarrow> (\<exists>a. conv (rd_Address r) = Inr a \<and> in_range s a (unat (rd_AccessByteSize r)))"
| "served_body conv s (WriteReqMsg r) \<longleftrightarrow> (\<exists>a. conv (wr_Address r) = Inr a \<and> in_range s a (length (wr_Data r))) \<and>
     (\<forall>dirty. wr_DirtyMask r = Some dirty \<longrightarrow> length dirty = length (wr_Data r))"
| "served_body conv s _ \<longleftrightarrow> False"

lemma served_body_cong: "sto_Capacity s' = sto_Capacity s \<Longrightarrow> served_body conv s' b = served_body conv s b"
  by (cases b) (simp_all add: in_range_def)

section \<open>The storage operations\<close>

lemma merge_dirty_ok:
  assumes "i + length xs = length dirty" "length res = length dirty"
  shows "\<exists>res'. merge_dirty i xs dirty res = Inr res' \<and> length res' = length res \<and>
    (\<forall>k < length res. res' ! k = (if i \<le> k \<and> dirty ! k then xs ! (k - i) else res ! k))"
  using assms
proof (induction i xs dirty res rule: merge_dirty.induct)
  case (2 i x xs dirty res)
  have i: "i < length dirty" "Suc i + length xs = length dirty" using "2.prems" by simp_all
  show ?case
  proof (cases "dirty ! i")
    case True
    obtain res' where r: "merge_dirty (Suc i) xs dirty (res[i := x]) = Inr res'" "length res' = length res"
      "\<forall>k < length res. res' ! k = (if Suc i \<le> k \<and> dirty ! k then xs ! (k - Suc i) else res[i := x] ! k)"
      using "2.IH"(1) [of "dirty ! i"] True i "2.prems" by auto
    have "res' ! k = (if i \<le> k \<and> dirty ! k then (x # xs) ! (k - i) else res ! k)" if "k < length res" for k
      using r(3) that True by (cases "k = i") (auto simp: nth_Cons' Suc_le_eq)
    then show ?thesis using r True i "2.prems" by auto
  next
    case False
    obtain res' where r: "merge_dirty (Suc i) xs dirty res = Inr res'" "length res' = length res"
      "\<forall>k < length res. res' ! k = (if Suc i \<le> k \<and> dirty ! k then xs ! (k - Suc i) else res ! k)"
      using "2.IH"(2) [of "dirty ! i"] False i "2.prems" by auto
    have "res' ! k = (if i \<le> k \<and> dirty ! k then (x # xs) ! (k - i) else res ! k)" if "k < length res" for k
      using r(3) that False by (cases "k = i") (auto simp: nth_Cons' Suc_le_eq)
    then show ?thesis using r False i "2.prems" by auto
  qed
qed auto

lemma in_range_index: "in_range s a n \<Longrightarrow> unat a \<le> unat x \<Longrightarrow> unat x < unat a + n \<Longrightarrow> a + of_nat (unat x - unat a) = x"
  by (simp add: of_nat_diff)

lemma imc_write_ok:
  assumes "storage_wf s" "in_range s a (length (wr_Data r))" "\<forall>dirty. wr_DirtyMask r = Some dirty \<longrightarrow> length dirty = length (wr_Data r)"
  shows "\<exists>s'. imc_write r a s = Inr s' \<and> storage_wf s' \<and> sto_Capacity s' = sto_Capacity s \<and> byte_at s' = put_bytes a r (byte_at s)"
proof (cases "wr_DirtyMask r")
  case None
  then show ?thesis using storage_Write_spec [OF assms(1,2)]
    by (auto simp: imc_write_def or_panic_def put_bytes_def is_dirty_def fun_eq_iff)
next
  case (Some dirty)
  let ?n = "length (wr_Data r)"
  have n: "unat (of_nat ?n :: u64) = ?n" using in_range_length [OF assms(2)] by (simp add: unat_of_nat)
  have len: "length dirty = ?n" using assms(3) Some by simp
  obtain s1 where s1: "storage_Read s a (of_nat ?n) = Some (Inr (s1, Inr (map (\<lambda>i. byte_at s (a + of_nat i)) [0..<?n])))"
    "storage_wf s1" "byte_at s1 = byte_at s" "sto_Capacity s1 = sto_Capacity s"
    using storage_Read_spec [OF assms(1), of a "of_nat ?n"] assms(2) n by auto
  obtain data where d: "merge_dirty 0 (wr_Data r) dirty (map (\<lambda>i. byte_at s (a + of_nat i)) [0..<?n]) = Inr data" "length data = ?n"
    "\<forall>k < ?n. data ! k = (if dirty ! k then wr_Data r ! k else byte_at s (a + of_nat k))"
    using merge_dirty_ok [of 0 "wr_Data r" dirty "map (\<lambda>i. byte_at s (a + of_nat i)) [0..<?n]"] len by auto
  have "in_range s1 a (length data)" using assms(2) d(2) s1(4) by (simp add: in_range_def)
  from storage_Write_spec [OF s1(2) this] obtain s2 where s2: "storage_Write s1 a data = Some (Inr (s2, Inr ()))" "storage_wf s2" "sto_Capacity s2 = sto_Capacity s1"
    "\<And>x. byte_at s2 x = (if unat a \<le> unat x \<and> unat x < unat a + length data then data ! (unat x - unat a) else byte_at s1 x)" by blast
  have "byte_at s2 x = put_bytes a r (byte_at s) x" for x
    using s2(4) [of x] d(2,3) s1(3) Some in_range_index [OF assms(2), of x] by (auto simp: put_bytes_def is_dirty_def)
  then show ?thesis using Some s1 d(1) s2 by (auto simp: imc_write_def or_panic_def)
qed

section \<open>Histories\<close>

text \<open>The requests the scheduled events will answer.\<close>

fun event_reqs :: "('t, 'i) imc_event \<Rightarrow> ('t, 'i) MemMsg list" where
  "event_reqs (readRespondEvent i t msg r) = [msg]"
| "event_reqs (writeRespondEvent i t msg r) = [msg]"
| "event_reqs _ = []"

definition pending_reqs :: "('t, 'i) imc_event list \<Rightarrow> ('t, 'i) MemMsg list" where
  "pending_reqs evts = concat (map event_reqs evts)"

fun event_ok :: "('t, 'i) imc_event \<Rightarrow> bool" where
  "event_ok (readRespondEvent i t msg r) \<longleftrightarrow> m_Body msg = ReadReqMsg r"
| "event_ok (writeRespondEvent i t msg r) \<longleftrightarrow> m_Body msg = WriteReqMsg r"
| "event_ok (TickEvent i t) \<longleftrightarrow> True"
| "event_ok (OtherEvent t) \<longleftrightarrow> False"

lemma pending_reqs_simps [simp]:
  "pending_reqs [] = []" "pending_reqs (e # es) = event_reqs e @ pending_reqs es" "pending_reqs (es @ es') = pending_reqs es @ pending_reqs es'"
  by (simp_all add: pending_reqs_def)

lemma pending_reqs_remove: "e \<in> set evts \<Longrightarrow> mset (pending_reqs evts) = mset (event_reqs e) + mset (pending_reqs (remove1 e evts))"
  by (induction evts) auto

record ('w, 't, 'i) imc_system =
  is_ctrl :: "'t IdealMemController"
  is_world :: 'w
  is_events :: "('t, 'i) imc_event list"
  is_arrived :: "('t, 'i) MemMsg list"
  is_done :: "('t, 'i) MemMsg list"

text \<open>
  Requests the controller can serve arrive; the port or the connection notifies the component, which asks for a tick; and any scheduled event is handled,
  in any order. The requests that took effect are recorded in the order in which their responses were accepted.
\<close>

definition imc_env ::
    "('w, 't, 'i mem_body) world_view \<Rightarrow> 't IdealMemController \<Rightarrow> ('t, 'i) MemMsg list \<Rightarrow> 'w \<Rightarrow> 'w \<Rightarrow> bool" where
  "imc_env V c ts w w' \<longleftrightarrow> vWaiting V w' (imc_ToTop c) = vWaiting V w (imc_ToTop c) @ ts \<and>
     (\<forall>m \<in> set ts. served_body (imc_convert c) (imc_Storage c) (m_Body m) \<and> from_linked V w' (imc_ToTop c) m) \<and>
     sent_by V w' (imc_ToTop c) = sent_by V w (imc_ToTop c) \<and> (\<forall>d. vLinked V w (imc_ToTop c) d \<longrightarrow> vLinked V w' (imc_ToTop c) d)"

inductive imc_step ::
    "('w, 't::linordered_idom, 'i mem_body) world_ops \<Rightarrow> ('w, 't, 'i mem_body) world_view \<Rightarrow> ('w, 't, 'i) imc_system \<Rightarrow> ('w, 't, 'i) imc_system \<Rightarrow> bool"
  for W V where
  environment: "imc_env V c ts w w' \<Longrightarrow>
    imc_step W V \<lparr>is_ctrl = c, is_world = w, is_events = evts, is_arrived = qs, is_done = dn\<rparr>
      \<lparr>is_ctrl = c, is_world = w', is_events = evts, is_arrived = qs @ ts, is_done = dn\<rparr>"
| notify: "imc_TickLater W now c w = Inr (c', w', evts') \<Longrightarrow>
    imc_step W V \<lparr>is_ctrl = c, is_world = w, is_events = evts, is_arrived = qs, is_done = dn\<rparr>
      \<lparr>is_ctrl = c', is_world = w', is_events = evts @ evts', is_arrived = qs, is_done = dn\<rparr>"
| handle: "e \<in> set evts \<Longrightarrow> imc_Handle W e c w = Inr (c', w', evts') \<Longrightarrow>
    imc_step W V \<lparr>is_ctrl = c, is_world = w, is_events = evts, is_arrived = qs, is_done = dn\<rparr>
      \<lparr>is_ctrl = c', is_world = w', is_events = remove1 e evts @ evts', is_arrived = qs,
        is_done = dn @ (if sent_by V w' (imc_ToTop c) = sent_by V w (imc_ToTop c) then [] else event_reqs e)\<rparr>"

section \<open>The invariant\<close>

definition imc_inv ::
    "('w, 't, 'i mem_body) world_view \<Rightarrow> (u64 \<Rightarrow> byte) \<Rightarrow> ('t, 'i) MemMsg list \<Rightarrow> 't IdealMemController \<Rightarrow> 'w \<Rightarrow> ('t, 'i) imc_event list \<Rightarrow>
     ('t, 'i) MemMsg list \<Rightarrow> ('t, 'i) MemMsg list \<Rightarrow> bool" where
  "imc_inv V m0 sent0 c w evts qs dn \<longleftrightarrow> (\<exists>d. vLinked V w (imc_ToTop c) d) \<and> storage_wf (imc_Storage c) \<and>
     byte_at (imc_Storage c) = memory_after (imc_convert c) m0 dn \<and>
     (\<exists>ups. sent_by V w (imc_ToTop c) = sent0 @ ups \<and> memory_run (imc_convert c) (imc_ToTop c) m0 dn ups) \<and>
     mset qs = mset dn + mset (pending_reqs evts) + mset (vWaiting V w (imc_ToTop c)) \<and>
     imc_currNumTransaction c = int (length (pending_reqs evts)) \<and> imc_currNumTransaction c \<le> max 0 (imc_MaxNumTransaction c) \<and>
     (\<forall>m \<in> set (pending_reqs evts) \<union> set (vWaiting V w (imc_ToTop c)).
        served_body (imc_convert c) (imc_Storage c) (m_Body m) \<and> from_linked V w (imc_ToTop c) m) \<and>
     (\<forall>e \<in> set evts. event_ok e)"

text \<open>What every operation leaves alone.\<close>

definition imc_frame :: "'t IdealMemController \<Rightarrow> 't IdealMemController \<Rightarrow> bool" where
  "imc_frame c c' \<longleftrightarrow> imc_ToTop c' = imc_ToTop c \<and> imc_AddressConverter c' = imc_AddressConverter c \<and>
     imc_MaxNumTransaction c' = imc_MaxNumTransaction c \<and> sto_Capacity (imc_Storage c') = sto_Capacity (imc_Storage c)"

lemma imc_frame_convert: "imc_frame c c' \<Longrightarrow> imc_convert c' = imc_convert c"
  by (simp add: imc_frame_def imc_convert_def fun_eq_iff)

lemma imc_frame_served: "imc_frame c c' \<Longrightarrow> served_body conv (imc_Storage c') b = served_body conv (imc_Storage c) b"
  by (rule served_body_cong) (simp add: imc_frame_def)

text \<open>A respond event is either tried again later, or takes effect and is answered.\<close>

definition imc_outcome ::
    "('w, 't, 'i mem_body) world_view \<Rightarrow> 't IdealMemController \<Rightarrow> 'w \<Rightarrow> ('t, 'i) MemMsg \<Rightarrow> 't IdealMemController \<Rightarrow> 'w \<Rightarrow> ('t, 'i) imc_event list \<Rightarrow> bool" where
  "imc_outcome V c w msg c' w' evts' \<longleftrightarrow> imc_frame c c' \<and> storage_wf (imc_Storage c') \<and> (\<forall>e \<in> set evts'. event_ok e) \<and>
     (byte_at (imc_Storage c') = byte_at (imc_Storage c) \<and> imc_currNumTransaction c' = imc_currNumTransaction c \<and>
        pending_reqs evts' = [msg] \<and> sends V [] w w' \<or>
      byte_at (imc_Storage c') = apply_req (imc_convert c) (m_Body msg) (byte_at (imc_Storage c)) \<and>
        imc_currNumTransaction c' = imc_currNumTransaction c - 1 \<and> pending_reqs evts' = [] \<and>
        (\<exists>rsp. sends V [rsp] w w' \<and> answered_at (imc_convert c) (imc_ToTop c) (byte_at (imc_Storage c)) msg rsp))"

lemma imc_inv_outcome:
  assumes "imc_inv V m0 sent0 c w evts qs dn" "e \<in> set evts" "event_reqs e = [msg]" "imc_outcome V c w msg c' w' evts'"
  shows "imc_inv V m0 sent0 c' w' (remove1 e evts @ evts') qs
    (dn @ (if sent_by V w' (imc_ToTop c) = sent_by V w (imc_ToTop c) then [] else event_reqs e))"
proof -
  have f: "imc_frame c c'" using assms(4) by (simp add: imc_outcome_def)
  note fr = imc_frame_convert [OF f] imc_frame_served [OF f] f [unfolded imc_frame_def, THEN conjunct1]
    f [unfolded imc_frame_def, THEN conjunct2, THEN conjunct2, THEN conjunct1]
  have rm: "mset (pending_reqs evts) = {#msg#} + mset (pending_reqs (remove1 e evts))"
    using pending_reqs_remove [OF assms(2)] assms(3) by simp
  then have len: "length (pending_reqs evts) = Suc (length (pending_reqs (remove1 e evts)))" by (metis add_mset_add_single size_add_mset size_mset add.commute)
  have st: "set (pending_reqs evts) = insert msg (set (pending_reqs (remove1 e evts)))" using rm by (metis set_mset_add_mset_insert set_mset_mset add_mset_add_single add.commute)
  have ok: "\<forall>e \<in> set (remove1 e evts @ evts'). event_ok e"
    using assms(1,4) notin_set_remove1 [of _ evts e] by (auto simp: imc_inv_def imc_outcome_def)
  obtain ups where ups: "sent_by V w (imc_ToTop c) = sent0 @ ups" "memory_run (imc_convert c) (imc_ToTop c) m0 dn ups"
    using assms(1) unfolding imc_inv_def by blast
  have "(byte_at (imc_Storage c') = byte_at (imc_Storage c) \<and> imc_currNumTransaction c' = imc_currNumTransaction c \<and>
        pending_reqs evts' = [msg] \<and> sends V [] w w') \<or>
      (byte_at (imc_Storage c') = apply_req (imc_convert c) (m_Body msg) (byte_at (imc_Storage c)) \<and>
        imc_currNumTransaction c' = imc_currNumTransaction c - 1 \<and> pending_reqs evts' = [] \<and>
        (\<exists>rsp. sends V [rsp] w w' \<and> answered_at (imc_convert c) (imc_ToTop c) (byte_at (imc_Storage c)) msg rsp))"
    using assms(4) by (simp add: imc_outcome_def)
  then show ?thesis
  proof (elim disjE conjE exE)
    assume a: "byte_at (imc_Storage c') = byte_at (imc_Storage c)" "imc_currNumTransaction c' = imc_currNumTransaction c"
      "pending_reqs evts' = [msg]" "sends V [] w w'"
    have "sent_by V w' (imc_ToTop c) = sent_by V w (imc_ToTop c)" by (simp add: sends_sent_by [OF a(4)])
    moreover have "vWaiting V w' = vWaiting V w" "vLinked V w' = vLinked V w" using a(4) by (simp_all add: sends_def)
    ultimately show ?thesis using assms(1,4) a(1-3) rm len st ok
      unfolding imc_inv_def fr by (auto simp: imc_outcome_def from_linked_def)
  next
    fix rsp
    assume a: "byte_at (imc_Storage c') = apply_req (imc_convert c) (m_Body msg) (byte_at (imc_Storage c))"
      "imc_currNumTransaction c' = imc_currNumTransaction c - 1" "pending_reqs evts' = []" "sends V [rsp] w w'"
      "answered_at (imc_convert c) (imc_ToTop c) (byte_at (imc_Storage c)) msg rsp"
    have sb: "sent_by V w' (imc_ToTop c) = sent0 @ (ups @ [rsp])" using a(5) ups(1) by (simp add: sends_sent_by [OF a(4)] answered_at_def)
    have mem: "byte_at (imc_Storage c) = memory_after (imc_convert c) m0 dn" using assms(1) by (simp add: imc_inv_def)
    have run: "memory_run (imc_convert c) (imc_ToTop c) m0 (dn @ [msg]) (ups @ [rsp])"
      by (rule memory_run_snoc [OF ups(2)]) (use a(5) mem in simp)
    have d: "dn @ (if sent_by V w' (imc_ToTop c) = sent_by V w (imc_ToTop c) then [] else event_reqs e) = dn @ [msg]" using sb ups(1) assms(3) by simp
    have w: "vWaiting V w' = vWaiting V w" "vLinked V w' = vLinked V w" using a(4) by (simp_all add: sends_def)
    show ?thesis unfolding d imc_inv_def fr w
      using assms(1,4) a(1-3) rm len st ok sb run mem w
      by (auto simp: imc_inv_def imc_outcome_def from_linked_def memory_after_snoc)
  qed
qed

context mem_world
begin

lemma Generate_sends: "\<exists>i w'. wGenerate W w = (i, w') \<and> sends V [] w w'"
  using Generate [of w] by (cases "wGenerate W w") auto

lemma sends_refl: "sends V [] w w"
  by (simp add: sends_def)

lemma imc_TickLater_ok:
  "\<exists>ts w' evts. imc_TickLater W now c w = Inr (c\<lparr>imc_sched := ts\<rparr>, w', evts) \<and> sends V [] w w' \<and> pending_reqs evts = [] \<and> (\<forall>e \<in> set evts. event_ok e)"
proof -
  obtain i w' where g: "wGenerate W w = (i, w')" "sends V [] w w'" using Generate_sends by blast
  obtain ts evts where t: "TickLater i () now (imc_sched c) = (ts, evts)" by fastforce
  have "pending_reqs (map (\<lambda>e. TickEvent (ev_ID e) (ev_time e)) es) = ([] :: ('t, 'i) MemMsg list)" for es :: "('t, unit) event list"
    by (induction es) simp_all
  then show ?thesis using g t sends_refl [of w] by (auto simp: imc_TickLater_def)
qed

lemma handleReadRespondEvent_ok:
  assumes "m_Body msg = ReadReqMsg r" "served_body (imc_convert c) (imc_Storage c) (m_Body msg)" "from_linked V w (imc_ToTop c) msg" "storage_wf (imc_Storage c)"
  shows "\<exists>c' w' evts'. handleReadRespondEvent W now msg r c w = Inr (c', w', evts') \<and> imc_outcome V c w msg c' w' evts'"
proof -
  obtain a where a: "imc_convert c (rd_Address r) = Inr a" "in_range (imc_Storage c) a (unat (rd_AccessByteSize r))" using assms(1,2) by auto
  let ?data = "map (\<lambda>i. byte_at (imc_Storage c) (a + of_nat i)) [0..<unat (rd_AccessByteSize r)]"
  obtain s where s: "storage_Read (imc_Storage c) a (rd_AccessByteSize r) = Some (Inr (s, Inr ?data))" "storage_wf s"
    "byte_at s = byte_at (imc_Storage c)" "sto_Capacity s = sto_Capacity (imc_Storage c)" using storage_Read_spec [OF assms(4) a(2)] by blast
  obtain d where d: "m_Src msg = Some d" "vLinked V w (imc_ToTop c) d" using assms(3) by (auto simp: from_linked_def)
  let ?body = "DataReadyMsg \<lparr>dr_TrafficBytes = int (length ?data) + accessRspByteOverhead, dr_RespondTo = m_ID msg, dr_Data = ?data, dr_Info = None\<rparr>"
  obtain m w1 where m: "new_msg W (Some (imc_ToTop c)) (m_Src msg) now ?body w = (m, w1)" "m_Src m = Some (imc_ToTop c)" "m_Dst m = Some d"
    "\<not> m_PutInL2TLBBuffer m" "m_Body m = ?body" "sends V [] w w1"
    using new_msg_ok [of "Some (imc_ToTop c)" "m_Src msg" now ?body w] d(1) by auto
  have "vLinked V w1 (imc_ToTop c) d" using d(2) m(6) by (simp add: sends_def)
  from Send [OF this m(2-4)] obtain accepted w2 where sd: "wSend W (imc_ToTop c) m w1 = Inr (accepted, w2)" "sends V (if accepted then [m] else []) w1 w2" by blast
  let ?c = "c\<lparr>imc_Storage := s\<rparr>"
  show ?thesis
  proof (cases accepted)
    case False
    obtain i w3 where g: "wGenerate W w2 = (i, w3)" "sends V [] w2 w3" using Generate_sends by blast
    have "handleReadRespondEvent W now msg r c w = Inr (?c, w3, [readRespondEvent i (ts_NextTick (imc_sched c) now) msg r])"
      using a(1) s(1) m(1) sd(1) False g(1) by (simp add: handleReadRespondEvent_def or_panic_def Build_defs)
    moreover have "sends V [] w w3" using sends_trans [OF sends_trans [OF m(6) sd(2)] g(2)] False by simp
    ultimately show ?thesis using s assms(1) by (auto simp: imc_outcome_def imc_frame_def)
  next
    case True
    obtain ts w3 evts where t: "imc_TickLater W now (?c\<lparr>imc_currNumTransaction := imc_currNumTransaction c - 1\<rparr>) w2 =
        Inr (?c\<lparr>imc_currNumTransaction := imc_currNumTransaction c - 1, imc_sched := ts\<rparr>, w3, evts)"
      "sends V [] w2 w3" "pending_reqs evts = []" "\<forall>e \<in> set evts. event_ok e"
      using imc_TickLater_ok [of now "?c\<lparr>imc_currNumTransaction := imc_currNumTransaction c - 1\<rparr>" w2] by blast
    have "handleReadRespondEvent W now msg r c w = Inr (?c\<lparr>imc_currNumTransaction := imc_currNumTransaction c - 1, imc_sched := ts\<rparr>, w3, evts)"
      using a(1) s(1) m(1) sd(1) True t(1) by (simp add: handleReadRespondEvent_def or_panic_def Build_defs)
    moreover have "sends V [m] w w3" using sends_trans [OF sends_trans [OF m(6) sd(2)] t(2)] True by simp
    moreover have "answered_at (imc_convert c) (imc_ToTop c) (byte_at (imc_Storage c)) msg m"
      using m(2,3,5) d(1) assms(1) a(1) by (simp add: answered_at_def)
    ultimately show ?thesis using s t(3,4) assms(1) by (auto simp: imc_outcome_def imc_frame_def)
  qed
qed

lemma handleWriteRespondEvent_ok:
  assumes "m_Body msg = WriteReqMsg r" "served_body (imc_convert c) (imc_Storage c) (m_Body msg)" "from_linked V w (imc_ToTop c) msg" "storage_wf (imc_Storage c)"
  shows "\<exists>c' w' evts'. handleWriteRespondEvent W now msg r c w = Inr (c', w', evts') \<and> imc_outcome V c w msg c' w' evts'"
proof -
  obtain a where a: "imc_convert c (wr_Address r) = Inr a" "in_range (imc_Storage c) a (length (wr_Data r))"
    "\<forall>dirty. wr_DirtyMask r = Some dirty \<longrightarrow> length dirty = length (wr_Data r)" using assms(1,2) by auto
  obtain s where s: "imc_write r a (imc_Storage c) = Inr s" "storage_wf s" "sto_Capacity s = sto_Capacity (imc_Storage c)"
    "byte_at s = put_bytes a r (byte_at (imc_Storage c))" using imc_write_ok [OF assms(4) a(2,3)] by blast
  obtain d where d: "m_Src msg = Some d" "vLinked V w (imc_ToTop c) d" using assms(3) by (auto simp: from_linked_def)
  let ?body = "WriteDoneMsg \<lparr>wd_TrafficBytes = accessRspByteOverhead, wd_RespondTo = m_ID msg\<rparr>"
  obtain m w1 where m: "new_msg W (Some (imc_ToTop c)) (m_Src msg) now ?body w = (m, w1)" "m_Src m = Some (imc_ToTop c)" "m_Dst m = Some d"
    "\<not> m_PutInL2TLBBuffer m" "m_Body m = ?body" "sends V [] w w1"
    using new_msg_ok [of "Some (imc_ToTop c)" "m_Src msg" now ?body w] d(1) by auto
  have "vLinked V w1 (imc_ToTop c) d" using d(2) m(6) by (simp add: sends_def)
  from Send [OF this m(2-4)] obtain accepted w2 where sd: "wSend W (imc_ToTop c) m w1 = Inr (accepted, w2)" "sends V (if accepted then [m] else []) w1 w2" by blast
  show ?thesis
  proof (cases accepted)
    case False
    obtain i w3 where g: "wGenerate W w2 = (i, w3)" "sends V [] w2 w3" using Generate_sends by blast
    have "handleWriteRespondEvent W now msg r c w = Inr (c, w3, [writeRespondEvent i (ts_NextTick (imc_sched c) now) msg r])"
      using m(1) sd(1) False g(1) by (simp add: handleWriteRespondEvent_def Build_defs)
    moreover have "sends V [] w w3" using sends_trans [OF sends_trans [OF m(6) sd(2)] g(2)] False by simp
    ultimately show ?thesis using assms(1,4) by (auto simp: imc_outcome_def imc_frame_def)
  next
    case True
    let ?c = "c\<lparr>imc_Storage := s, imc_currNumTransaction := imc_currNumTransaction c - 1\<rparr>"
    obtain ts w3 evts where t: "imc_TickLater W now ?c w2 = Inr (?c\<lparr>imc_sched := ts\<rparr>, w3, evts)"
      "sends V [] w2 w3" "pending_reqs evts = []" "\<forall>e \<in> set evts. event_ok e"
      using imc_TickLater_ok [of now ?c w2] by blast
    have "handleWriteRespondEvent W now msg r c w = Inr (?c\<lparr>imc_sched := ts\<rparr>, w3, evts)"
      using a(1) s(1) m(1) sd(1) True t(1) by (simp add: handleWriteRespondEvent_def Build_defs)
    moreover have "sends V [m] w w3" using sends_trans [OF sends_trans [OF m(6) sd(2)] t(2)] True by simp
    moreover have "answered_at (imc_convert c) (imc_ToTop c) (byte_at (imc_Storage c)) msg m"
      using m(2,3,5) d(1) assms(1) by (simp add: answered_at_def)
    ultimately show ?thesis using s t(3,4) assms(1) a(1) by (auto simp: imc_outcome_def imc_frame_def)
  qed
qed

text \<open>A tick takes at most one request and schedules its event.\<close>

lemma imc_Tick_ok:
  assumes "imc_inv V m0 sent0 c w evts qs dn"
  shows "\<exists>p c' w' evts'. imc_Tick W now c w = Inr (p, c', w', evts') \<and> imc_inv V m0 sent0 c' w' (evts @ evts') qs dn \<and>
    sent_by V w' (imc_ToTop c) = sent_by V w (imc_ToTop c)"
proof (cases "imc_currNumTransaction c \<ge> imc_MaxNumTransaction c")
  case True
  then show ?thesis using assms by (auto simp: imc_Tick_def)
next
  case False
  obtain d where l: "vLinked V w (imc_ToTop c) d" using assms by (auto simp: imc_inv_def)
  show ?thesis
  proof (cases "vWaiting V w (imc_ToTop c)")
    case Nil
    obtain w1 where r: "wRetrieve W now (imc_ToTop c) w = Inr (None, w1)" "takes V (imc_ToTop c) [] w w1" using Retrieve_none [OF l Nil] by blast
    have "sent_by V w1 (imc_ToTop c) = sent_by V w (imc_ToTop c)" "vWaiting V w1 (imc_ToTop c) = vWaiting V w (imc_ToTop c)" "vLinked V w1 = vLinked V w"
      using r(2) takes_sent_by [OF r(2)] by (simp_all add: takes_def)
    moreover from this have "imc_inv V m0 sent0 c w1 evts qs dn" using assms unfolding imc_inv_def from_linked_def by simp
    ultimately show ?thesis using r(1) False by (auto simp: imc_Tick_def)
  next
    case (Cons msg rest)
    obtain w1 where r: "wRetrieve W now (imc_ToTop c) w = Inr (Some msg, w1)" "takes V (imc_ToTop c) [msg] w w1" "vWaiting V w1 (imc_ToTop c) = rest"
      using Retrieve_some [OF l Cons] by blast
    obtain i w2 where g: "wGenerate W w1 = (i, w2)" "sends V [] w1 w2" using Generate_sends by blast
    let ?c = "c\<lparr>imc_currNumTransaction := imc_currNumTransaction c + 1\<rparr>"
    have sb: "served_body (imc_convert c) (imc_Storage c) (m_Body msg)" using assms Cons by (simp add: imc_inv_def)
    then obtain e where e: "imc_Tick W now c w = Inr (True, ?c, w2, [e])" "event_reqs e = [msg]" "event_ok e"
      using r(1) g(1) False by (cases "m_Body msg") (auto simp: imc_Tick_def handleReadReq_def handleWriteReq_def)
    have same: "sent_by V w2 (imc_ToTop c) = sent_by V w (imc_ToTop c)" "vLinked V w2 = vLinked V w" "vWaiting V w2 (imc_ToTop c) = rest"
      using r(2,3) g(2) takes_sent_by [OF r(2)] by (simp_all add: sends_sent_by [OF g(2)]) (simp_all add: takes_def sends_def)
    have "imc_convert ?c = imc_convert c" by (simp add: imc_convert_def fun_eq_iff)
    then have "imc_inv V m0 sent0 ?c w2 (evts @ [e]) qs dn"
      using assms Cons False same e(2,3) unfolding imc_inv_def from_linked_def by auto
    then show ?thesis using e(1) same(1) by blast
  qed
qed

lemma imc_inv_TickLater:
  assumes "imc_inv V m0 sent0 c w evts qs dn"
  shows "\<exists>c' w' evts'. imc_TickLater W now c w = Inr (c', w', evts') \<and> imc_inv V m0 sent0 c' w' (evts @ evts') qs dn \<and>
    sent_by V w' (imc_ToTop c) = sent_by V w (imc_ToTop c)"
proof -
  obtain ts w' evts' where t: "imc_TickLater W now c w = Inr (c\<lparr>imc_sched := ts\<rparr>, w', evts')" "sends V [] w w'" "pending_reqs evts' = []" "\<forall>e \<in> set evts'. event_ok e"
    using imc_TickLater_ok by blast
  have same: "sent_by V w' (imc_ToTop c) = sent_by V w (imc_ToTop c)" "vLinked V w' = vLinked V w" "vWaiting V w' = vWaiting V w"
    using t(2) by (simp_all add: sends_sent_by [OF t(2)]) (simp_all add: sends_def)
  have "imc_convert (c\<lparr>imc_sched := ts\<rparr>) = imc_convert c" by (simp add: imc_convert_def fun_eq_iff)
  then have "imc_inv V m0 sent0 (c\<lparr>imc_sched := ts\<rparr>) w' (evts @ evts') qs dn"
    using assms same t(3,4) unfolding imc_inv_def from_linked_def by auto
  then show ?thesis using t(1) same(1) by blast
qed

lemma imc_inv_removed_tick:
  assumes "imc_inv V m0 sent0 c w evts qs dn" "e \<in> set evts" "event_reqs e = []"
  shows "imc_inv V m0 sent0 c w (remove1 e evts) qs dn"
proof -
  have m: "mset (pending_reqs evts) = mset (pending_reqs (remove1 e evts))" using pending_reqs_remove [OF assms(2)] assms(3) by simp
  then have "length (pending_reqs evts) = length (pending_reqs (remove1 e evts))" "set (pending_reqs evts) = set (pending_reqs (remove1 e evts))"
    by (metis size_mset, metis set_mset_mset)
  then show ?thesis using assms(1) m notin_set_remove1 [of _ evts e] unfolding imc_inv_def by auto
qed

lemma imc_Handle_ok:
  assumes "imc_inv V m0 sent0 c w evts qs dn" "e \<in> set evts"
  shows "\<exists>c' w' evts'. imc_Handle W e c w = Inr (c', w', evts') \<and> imc_inv V m0 sent0 c' w' (remove1 e evts @ evts') qs
    (dn @ (if sent_by V w' (imc_ToTop c) = sent_by V w (imc_ToTop c) then [] else event_reqs e))"
proof -
  have wf: "storage_wf (imc_Storage c)" "event_ok e" using assms by (auto simp: imc_inv_def)
  have "set (event_reqs e) \<subseteq> set (pending_reqs evts)" using assms(2) by (auto simp: pending_reqs_def)
  then have msgs: "\<forall>m \<in> set (event_reqs e). served_body (imc_convert c) (imc_Storage c) (m_Body m) \<and> from_linked V w (imc_ToTop c) m"
    using assms(1) unfolding imc_inv_def by blast
  show ?thesis
  proof (cases e)
    case (readRespondEvent i now msg r)
    then have m: "m_Body msg = ReadReqMsg r" "served_body (imc_convert c) (imc_Storage c) (m_Body msg)" "from_linked V w (imc_ToTop c) msg"
      using wf(2) msgs by (auto simp del: served_body.simps)
    obtain c' w' evts' where h: "handleReadRespondEvent W now msg r c w = Inr (c', w', evts')" "imc_outcome V c w msg c' w' evts'"
      using handleReadRespondEvent_ok [OF m wf(1)] by blast
    then show ?thesis using imc_inv_outcome [OF assms _ h(2)] readRespondEvent by (auto simp: imc_Handle_def)
  next
    case (writeRespondEvent i now msg r)
    then have m: "m_Body msg = WriteReqMsg r" "served_body (imc_convert c) (imc_Storage c) (m_Body msg)" "from_linked V w (imc_ToTop c) msg"
      using wf(2) msgs by (auto simp del: served_body.simps)
    obtain c' w' evts' where h: "handleWriteRespondEvent W now msg r c w = Inr (c', w', evts')" "imc_outcome V c w msg c' w' evts'"
      using handleWriteRespondEvent_ok [OF m wf(1)] by blast
    then show ?thesis using imc_inv_outcome [OF assms _ h(2)] writeRespondEvent by (auto simp: imc_Handle_def)
  next
    case (TickEvent i now)
    then have q: "event_reqs e = []" by simp
    obtain p c1 w1 e1 where 1: "imc_Tick W now c w = Inr (p, c1, w1, e1)" "imc_inv V m0 sent0 c1 w1 (remove1 e evts @ e1) qs dn"
      using imc_Tick_ok [OF imc_inv_removed_tick [OF assms q]] by blast
    obtain c2 w2 e2 where 2: "imc_TickLater W now c1 w1 = Inr (c2, w2, e2)" "imc_inv V m0 sent0 c2 w2 ((remove1 e evts @ e1) @ e2) qs dn"
      using imc_inv_TickLater [OF 1(2)] by blast
    show ?thesis using 1 2 TickEvent q by (cases p) (auto simp: imc_Handle_def)
  next
    case (OtherEvent t)
    then show ?thesis using wf(2) by simp
  qed
qed

lemma imc_inv_step:
  "imc_step W V s s' \<Longrightarrow> imc_inv V m0 sent0 (is_ctrl s) (is_world s) (is_events s) (is_arrived s) (is_done s) \<Longrightarrow>
   imc_inv V m0 sent0 (is_ctrl s') (is_world s') (is_events s') (is_arrived s') (is_done s')"
proof (induction rule: imc_step.induct)
  case (environment c ts w w' evts qs dn)
  then have e: "vWaiting V w' (imc_ToTop c) = vWaiting V w (imc_ToTop c) @ ts" "sent_by V w' (imc_ToTop c) = sent_by V w (imc_ToTop c)"
    "\<forall>m \<in> set ts. served_body (imc_convert c) (imc_Storage c) (m_Body m) \<and> from_linked V w' (imc_ToTop c) m"
    "\<And>m. from_linked V w (imc_ToTop c) m \<Longrightarrow> from_linked V w' (imc_ToTop c) m" "\<And>d. vLinked V w (imc_ToTop c) d \<Longrightarrow> vLinked V w' (imc_ToTop c) d"
    by (auto simp: imc_env_def from_linked_def)
  then show ?case using environment.prems unfolding imc_inv_def by auto
next
  case (notify now c w c' w' evts' evts qs dn)
  then show ?case using imc_inv_TickLater [of m0 sent0 c w evts qs dn now] by auto
next
  case (handle e evts c w c' w' evts' qs dn)
  then show ?case using imc_Handle_ok [of m0 sent0 c w evts qs dn e] by auto
qed

lemma imc_inv_reach:
  "(imc_step W V)\<^sup>*\<^sup>* s s' \<Longrightarrow> imc_inv V m0 sent0 (is_ctrl s) (is_world s) (is_events s) (is_arrived s) (is_done s) \<Longrightarrow>
   imc_inv V m0 sent0 (is_ctrl s') (is_world s') (is_events s') (is_arrived s') (is_done s')"
  by (induction rule: rtranclp_induct) (auto intro: imc_inv_step)

end

section \<open>Properties\<close>

definition imc_start :: "'t IdealMemController \<Rightarrow> 'w \<Rightarrow> ('w, 't, 'i) imc_system" where
  "imc_start c w = \<lparr>is_ctrl = c, is_world = w, is_events = [], is_arrived = [], is_done = []\<rparr>"

lemma NewStorage_zero: "byte_at (NewStorage capacity) = (\<lambda>_. 0)"
  by (simp add: byte_at_def NewStorage_def fun_eq_iff)

lemma imc_inv_start:
  assumes "c = (fst (imc_New toTop nextTick nCyclesLater self name capacity))\<lparr>imc_Latency := latency, imc_AddressConverter := conv, imc_MaxNumTransaction := k\<rparr>"
    and "16 \<le> capacity" "vLinked V w toTop d" "vWaiting V w toTop = []"
  shows "imc_inv V (\<lambda>_. 0) (sent_by V w toTop) c w [] [] []"
  using assms by (simp add: imc_inv_def imc_New_def NewStorage_wf NewStorage_zero memory_after_def) blast

lemma imc_inv_sim:
  assumes "c0 = (fst (imc_New toTop nextTick nCyclesLater self name capacity))\<lparr>imc_Latency := latency, imc_AddressConverter := conv, imc_MaxNumTransaction := k\<rparr>"
    and "16 \<le> capacity" "sim_linked w0 toTop d" "lp_buf (sim_ports w0 toTop) = []"
    and "(imc_step sim_world sim_view)\<^sup>*\<^sup>* (imc_start c0 w0) \<lparr>is_ctrl = c, is_world = w, is_events = evts, is_arrived = qs, is_done = dn\<rparr>"
  shows "imc_inv sim_view (\<lambda>_. 0) (sent_by sim_view w0 toTop) c w evts qs dn"
proof -
  have "imc_inv sim_view (\<lambda>_. 0) (sent_by sim_view w0 toTop) c0 w0 [] [] []"
    by (rule imc_inv_start [OF assms(1,2)]) (use assms(3,4) in \<open>simp_all add: sim_view_def\<close>)
  from mw.imc_inv_reach [OF assms(5), of "\<lambda>_. 0" "sent_by sim_view w0 toTop"] this
  show ?thesis by (simp add: imc_start_def)
qed

text \<open>
  Claim C13. The controller is a memory. Requests that lie inside the storage arrive in any number, ticks are asked for at any time and the scheduled events are
  handled in any order, with the connection refusing responses whenever it likes. Then no event panics; the responses sent are, one by one,
  those of a memory of zeros to the requests in some order: a read gets the bytes the writes before it left, a write changes exactly its
  dirty bytes, and the storage holds what all of them left; and every request that arrived has been answered once, has one event scheduled, or waits in the
  port.
\<close>

theorem IMC_implements_memory:
  assumes "c0 = (fst (imc_New toTop nextTick nCyclesLater self name capacity))\<lparr>imc_Latency := latency, imc_AddressConverter := conv, imc_MaxNumTransaction := k\<rparr>"
    and "16 \<le> capacity" "sim_linked w0 toTop d" "lp_buf (sim_ports w0 toTop) = []"
    and "(imc_step sim_world sim_view)\<^sup>*\<^sup>* (imc_start c0 w0) \<lparr>is_ctrl = c, is_world = w, is_events = evts, is_arrived = qs, is_done = dn\<rparr>"
  shows "(\<forall>e \<in> set evts. \<exists>r. imc_Handle sim_world e c w = Inr r) \<and>
    byte_at (imc_Storage c) = memory_after (imc_convert c) (\<lambda>_. 0) dn \<and>
    (\<exists>ups. sent_by sim_view w (imc_ToTop c) = sent_by sim_view w0 toTop @ ups \<and> memory_run (imc_convert c) (imc_ToTop c) (\<lambda>_. 0) dn ups) \<and>
    mset qs = mset dn + mset (pending_reqs evts) + mset (lp_buf (sim_ports w (imc_ToTop c)))"
proof -
  note inv = imc_inv_sim [OF assms]
  have "\<exists>r. imc_Handle sim_world e c w = Inr r" if "e \<in> set evts" for e using mw.imc_Handle_ok [OF inv that] by blast
  then show ?thesis using inv by (simp add: imc_inv_def sim_view_def)
qed

text \<open>
  Claim C34. The number of transactions the controller counts is the number of requests with a scheduled event, and it stays between 0 and
  \<open>MaxNumTransaction\<close>, whatever the order of events.
\<close>

theorem IMC_transactions_bounded:
  assumes "c0 = (fst (imc_New toTop nextTick nCyclesLater self name capacity))\<lparr>imc_Latency := latency, imc_AddressConverter := conv, imc_MaxNumTransaction := k\<rparr>"
    and "16 \<le> capacity" "sim_linked w0 toTop d" "lp_buf (sim_ports w0 toTop) = []"
    and "(imc_step sim_world sim_view)\<^sup>*\<^sup>* (imc_start c0 w0) \<lparr>is_ctrl = c, is_world = w, is_events = evts, is_arrived = qs, is_done = dn\<rparr>"
  shows "imc_currNumTransaction c = int (length (pending_reqs evts)) \<and> imc_currNumTransaction c \<le> max 0 (imc_MaxNumTransaction c)"
  using imc_inv_sim [OF assms] by (simp add: imc_inv_def)

text \<open>A controller of 64 bytes at port 1 that gets a write of two bytes from port 0.\<close>

definition demo_imc :: "int IdealMemController" where
  "demo_imc = (fst (imc_New 1 (\<lambda>t. t + 1) (\<lambda>n t. t + n) 1 ''Mem'' 64 :: int IdealMemController \<times> (int, unit mem_body) LimitNumMsgPort))\<lparr>imc_Latency := 3, imc_AddressConverter := None, imc_MaxNumTransaction := 1\<rparr>"

definition demo_imc_world :: "(int, unit mem_body) sim" where
  "demo_imc_world =
     (let (c, ports) = plug_all LimitNumMsgPort 0 [(0, 4), (1, 4)]
            (NewDirectConnection ''Conn'' (\<lambda>t. t + 1), (\<lambda>p. NewLimitNumMsgPort (Some p) 2 ''P''))
      in \<lparr>sim_ports = ports, sim_conns = (\<lambda>_. c), sim_nextID = 0, sim_events = [], sim_sent = [], sim_generated = []\<rparr>)"

definition demo_write_body :: "unit WriteReq" where
  "demo_write_body = \<lparr>wr_TrafficBytes = 14, wr_Address = 5, wr_Data = [7, 8], wr_DirtyMask = Some [False, True], wr_PID = 1,
     wr_CanWaitForCoalesce = False, wr_Info = None\<rparr>"

definition demo_write :: "(int, unit) MemMsg" where
  "demo_write = \<lparr>m_ID = ''q'', m_Src = Some 0, m_Dst = Some 1, m_SendTime = 0, m_RecvTime = 0, m_PutInL2TLBBuffer = False,
     m_Body = WriteReqMsg demo_write_body\<rparr>"

definition demo_imc1 :: "(int, unit mem_body) sim" where
  "demo_imc1 = demo_imc_world\<lparr>sim_ports := (sim_ports demo_imc_world)(1 := snd (Port_Recv demo_write (sim_ports demo_imc_world 1)))\<rparr>"

definition demo_imc2 :: "int IdealMemController \<times> (int, unit mem_body) sim \<times> (int, unit) imc_event list" where
  "demo_imc2 = projr (imc_TickLater sim_world 0 demo_imc demo_imc1)"

definition demo_imc3 :: "int IdealMemController \<times> (int, unit mem_body) sim \<times> (int, unit) imc_event list" where
  "demo_imc3 = projr (imc_Handle sim_world (TickEvent ''1'' 1) (fst demo_imc2) (fst (snd demo_imc2)))"

lemmas demo_imc_defs = demo_imc_def demo_imc_world_def demo_write_def demo_write_body_def demo_imc1_def imc_New_def plug_all_def PlugIn_def
  NewDirectConnection_def NewTickScheduler_def NewSecondaryTickScheduler_def NewLimitNumMsgPort_def LimitNumMsgPort_defs
  sim_world_def sim_Peek_def sim_Retrieve_def sim_Send_def sim_Generate_def sim_call_def sequentialIDGenerator_Generate_def FormatUint_def
  imc_TickLater_def TickLater_def MakeTickEvent_def imc_Handle_def imc_Tick_def handleWriteReq_def digit_def decimal.simps Let_def

lemma demo_imc2_eval: "imc_TickLater sim_world 0 demo_imc demo_imc1 = Inr (fst demo_imc2, fst (snd demo_imc2), [TickEvent ''1'' 1])"
  unfolding demo_imc2_def by (simp add: demo_imc_defs)

lemma demo_imc3_eval:
  "\<exists>evts. imc_Handle sim_world (TickEvent ''1'' 1) (fst demo_imc2) (fst (snd demo_imc2)) =
     Inr (fst demo_imc3, fst (snd demo_imc3), writeRespondEvent ''2'' 4 demo_write demo_write_body # evts) \<and> pending_reqs evts = []"
  "sent_by sim_view (fst (snd demo_imc3)) 1 = []" "sent_by sim_view (fst (snd demo_imc2)) 1 = []" "imc_ToTop (fst demo_imc2) = 1"
  unfolding demo_imc3_def demo_imc2_def by (simp_all add: demo_imc_defs sent_by_def sim_view_def)

lemma demo_imc_reach:
  "\<exists>evts. (imc_step sim_world sim_view)\<^sup>*\<^sup>* (imc_start demo_imc demo_imc_world)
     \<lparr>is_ctrl = fst demo_imc3, is_world = fst (snd demo_imc3), is_events = writeRespondEvent ''2'' 4 demo_write demo_write_body # evts,
       is_arrived = [demo_write], is_done = []\<rparr> \<and> pending_reqs evts = []"
proof -
  let ?S = "imc_step sim_world sim_view"
  let ?s = "\<lambda>c w e qs. \<lparr>is_ctrl = c, is_world = w, is_events = e, is_arrived = qs, is_done = []\<rparr>"
  have "imc_env sim_view demo_imc [demo_write] demo_imc_world demo_imc1"
    by (auto simp: imc_env_def sent_by_def from_linked_def sim_view_def sim_linked_def imc_convert_def in_range_def NewStorage_def demo_imc_defs)
  from imc_step.environment [OF this, of sim_world "[]" "[]" "[]"]
  have 1: "?S (imc_start demo_imc demo_imc_world) (?s demo_imc demo_imc1 [] [demo_write])" by (simp add: imc_start_def)
  from imc_step.notify [where V = sim_view, OF demo_imc2_eval, of "[]" "[demo_write]" "[]"]
  have 2: "?S (?s demo_imc demo_imc1 [] [demo_write]) (?s (fst demo_imc2) (fst (snd demo_imc2)) [TickEvent ''1'' 1] [demo_write])" by simp
  obtain evts where h: "imc_Handle sim_world (TickEvent ''1'' 1) (fst demo_imc2) (fst (snd demo_imc2)) =
     Inr (fst demo_imc3, fst (snd demo_imc3), writeRespondEvent ''2'' 4 demo_write demo_write_body # evts)" "pending_reqs evts = []"
    using demo_imc3_eval(1) by blast
  from imc_step.handle [where V = sim_view, OF _ h(1), of "[TickEvent ''1'' 1]" "[demo_write]" "[]"]
  have 3: "?S (?s (fst demo_imc2) (fst (snd demo_imc2)) [TickEvent ''1'' 1] [demo_write])
      (?s (fst demo_imc3) (fst (snd demo_imc3)) (writeRespondEvent ''2'' 4 demo_write demo_write_body # evts) [demo_write])"
    using demo_imc3_eval(2-4) by simp
  show ?thesis using 1 2 3 h(2) by (meson converse_rtranclp_into_rtranclp rtranclp.rtrancl_refl)
qed

lemma demo_imc_wired: "(16 :: u64) \<le> 64" "sim_linked demo_imc_world 1 0" "lp_buf (sim_ports demo_imc_world 1) = []"
  by (auto simp: sim_linked_def demo_imc_defs)

theorem IMC_implements_memory_witness:
  "(\<exists>r. imc_Handle sim_world (writeRespondEvent ''2'' 4 demo_write demo_write_body) (fst demo_imc3) (fst (snd demo_imc3)) = Inr r) \<and>
   byte_at (imc_Storage (fst demo_imc3)) = (\<lambda>_. 0)"
proof -
  obtain evts where "(imc_step sim_world sim_view)\<^sup>*\<^sup>* (imc_start demo_imc demo_imc_world)
     \<lparr>is_ctrl = fst demo_imc3, is_world = fst (snd demo_imc3), is_events = writeRespondEvent ''2'' 4 demo_write demo_write_body # evts,
       is_arrived = [demo_write], is_done = []\<rparr>" using demo_imc_reach by blast
  from IMC_implements_memory [OF demo_imc_def demo_imc_wired this] show ?thesis by (simp add: memory_after_def)
qed

theorem IMC_transactions_bounded_witness: "imc_currNumTransaction (fst demo_imc3) = 1"
proof -
  obtain evts where "(imc_step sim_world sim_view)\<^sup>*\<^sup>* (imc_start demo_imc demo_imc_world)
     \<lparr>is_ctrl = fst demo_imc3, is_world = fst (snd demo_imc3), is_events = writeRespondEvent ''2'' 4 demo_write demo_write_body # evts,
       is_arrived = [demo_write], is_done = []\<rparr>" "pending_reqs evts = []" using demo_imc_reach by blast
  from IMC_transactions_bounded [OF demo_imc_def demo_imc_wired this(1)] this(2) show ?thesis by simp
qed

end
