(* ===== verification/Emu_Wavefront.thy ===== *)
theory Emu_Wavefront
  imports Little_Endian
begin

text \<open>
  The architectural state of the GCN3 emulator: the registers (\<^verbatim>\<open>mgpusim/insts/reg.go\<close>),
  the operands of a decoded instruction (\<^verbatim>\<open>insts/operand.go\<close>), and the register files of a wavefront with their raw byte
  access (\<^verbatim>\<open>emu/wavefront.go\<close>). The lemmas show that \<^verbatim>\<open>ReadReg\<close> returns what \<^verbatim>\<open>WriteReg\<close>
  wrote and that registers of different lanes and indices do not overlap, and that the two
  halves of VCC are the exception: writing one destroys the other.

  The name of a register is only printed and is left out. A floating-point operand is
  represented by the single-precision bit pattern it is read as.
\<close>

unbundle bit_operations_syntax

section \<open>Registers and operands\<close>

datatype RegType = InvalidRegType | RPC | V nat | S nat
  | EXEC | EXECLO | EXECHI | EXECZ | VCC | VCCLO | VCCHI | VCCZ | SCC
  | FlatSratch | FlatSratchLo | FlatSratchHi | XnackMask | XnackMaskLo | XnackMaskHi
  | Status | Mode | M0 | Trapsts | Tba | TbaLo | TbaHi | Tma | TmaLo | TmaHi
  | Timp nat | VMCNT | EXPCNT | LGKMCNT

record Reg =
  reg_type :: RegType
  reg_ByteSize :: nat
  reg_IsBool :: bool

definition wide_regs :: "RegType list" where
  "wide_regs = [RPC, EXEC, VCC, FlatSratch, XnackMask, Tba, Tma]"

definition Regs :: "RegType \<Rightarrow> Reg" where
  "Regs t = \<lparr>reg_type = t,
     reg_ByteSize = (if t = InvalidRegType then 0 else if t \<in> set wide_regs then 8
                     else if t \<in> set [EXECZ, VCCZ, SCC, VMCNT, EXPCNT, LGKMCNT] then 1 else 4),
     reg_IsBool = (t \<in> set [EXECZ, VCCZ, SCC])\<rparr>"

definition VReg :: "nat \<Rightarrow> Reg" where
  "VReg index = Regs (V index)"

definition SReg :: "nat \<Rightarrow> Reg" where
  "SReg index = Regs (S index)"

fun IsVReg :: "RegType \<Rightarrow> bool" where
  "IsVReg (V i) = (i \<le> 255)"
| "IsVReg _ = False"

fun IsSReg :: "RegType \<Rightarrow> bool" where
  "IsSReg (S i) = (i \<le> 101)"
| "IsSReg _ = False"

text \<open>\<^verbatim>\<open>RegIndex\<close> is only called on scalar and vector registers; its \<open>-1\<close> for the others is \<open>None\<close>.\<close>

fun RegIndex :: "RegType \<Rightarrow> nat option" where
  "RegIndex (S i) = (if i \<le> 101 then Some i else None)"
| "RegIndex (V i) = (if i \<le> 255 then Some i else None)"
| "RegIndex _ = None"

datatype Operand =
    RegOperand Reg nat
  | FloatOperand u32
  | IntOperand u64
  | LiteralConstant u32
  | InvalidOperand

definition NewRegOperand :: "RegType \<Rightarrow> nat \<Rightarrow> Operand" where
  "NewRegOperand reg cnt = RegOperand (Regs reg) cnt"

definition NewSRegOperand :: "nat \<Rightarrow> nat \<Rightarrow> Operand" where
  "NewSRegOperand index cnt = RegOperand (Regs (S index)) cnt"

definition NewVRegOperand :: "nat \<Rightarrow> nat \<Rightarrow> Operand" where
  "NewVRegOperand index cnt = RegOperand (Regs (V index)) cnt"

section \<open>The wavefront\<close>

record Wavefront =
  wf_pid :: u32
  wf_Completed :: bool
  wf_AtBarrier :: bool
  wf_PC :: u64
  wf_Exec :: u64
  wf_SCC :: byte
  wf_VCC :: u64
  wf_M0 :: u32
  wf_SRegFile :: "byte list"
  wf_VRegFile :: "byte list"
  wf_scratchpad :: "byte list"

definition NewWavefront :: Wavefront where
  "NewWavefront = \<lparr>wf_pid = 0, wf_Completed = False, wf_AtBarrier = False, wf_PC = 0, wf_Exec = 0, wf_SCC = 0,
     wf_VCC = 0, wf_M0 = 0, wf_SRegFile = replicate (4 * 102) 0, wf_VRegFile = replicate (4 * 64 * 256) 0,
     wf_scratchpad = replicate 4096 0\<rparr>"

text \<open>\<^verbatim>\<open>buf[off:off+n]\<close>, and \<^verbatim>\<open>copy(buf[off:off+n], data)\<close>, with the run-time bounds check.\<close>

definition slice_range :: "'a list \<Rightarrow> nat \<Rightarrow> nat \<Rightarrow> 'a list result" where
  "slice_range buf off n = (if off + n \<le> length buf then Inr (take n (drop off buf)) else Inl IndexOutOfRange)"

definition copy_range :: "'a list \<Rightarrow> nat \<Rightarrow> nat \<Rightarrow> 'a list \<Rightarrow> 'a list result" where
  "copy_range buf off n data = (if off + n \<le> length buf then Inr (copy_at buf off (take n data)) else Inl IndexOutOfRange)"

definition nregs :: "nat \<Rightarrow> nat" where
  "nregs regCount = (if 2 \<le> regCount then regCount else 1)"

definition reg_bytes :: "Reg \<Rightarrow> nat \<Rightarrow> nat" where
  "reg_bytes reg regCount = reg_ByteSize reg * nregs regCount"

definition SRegValue :: "nat \<Rightarrow> Wavefront \<Rightarrow> u32 result" where
  "SRegValue i wv = bindR (slice_range (wf_SRegFile wv) (i * 4) 4) BytesToUint32"

definition VRegValue :: "nat \<Rightarrow> nat \<Rightarrow> Wavefront \<Rightarrow> u32 result" where
  "VRegValue lane i wv = bindR (slice_range (wf_VRegFile wv) (lane * 1024 + i * 4) 4) BytesToUint32"

text \<open>\<^verbatim>\<open>value := make([]byte, n); copy(value, src)\<close>.\<close>

definition padded :: "nat \<Rightarrow> byte list \<Rightarrow> byte list" where
  "padded n src = copy_at (replicate n 0) 0 (take n src)"

definition ReadReg :: "Reg \<Rightarrow> nat \<Rightarrow> nat \<Rightarrow> Wavefront \<Rightarrow> byte list result" where
  "ReadReg reg regCount laneID wv =
     (let numBytes = reg_bytes reg regCount; t = reg_type reg in
      if IsSReg t then bindR (slice_range (wf_SRegFile wv) (the (RegIndex t) * 4) numBytes) (\<lambda>d. Inr (padded numBytes d))
      else if IsVReg t then
        bindR (slice_range (wf_VRegFile wv) (laneID * 256 * 4 + the (RegIndex t) * 4) numBytes) (\<lambda>d. Inr (padded numBytes d))
      else if t = SCC then (if 0 < numBytes then Inr ((replicate numBytes 0)[0 := wf_SCC wv]) else Inl IndexOutOfRange)
      else if t = VCC then Inr (padded numBytes (Uint64ToBytes (wf_VCC wv)))
      else if t = VCCLO \<and> regCount = 1 then Inr (padded numBytes (Uint32ToBytes (ucast (wf_VCC wv))))
      else if t = VCCHI \<and> regCount = 1 then Inr (padded numBytes (Uint32ToBytes (ucast (drop_bit 32 (wf_VCC wv)))))
      else if t = VCCLO \<and> regCount = 2 then Inr (padded numBytes (Uint64ToBytes (wf_VCC wv)))
      else if t = EXEC then Inr (padded numBytes (Uint64ToBytes (wf_Exec wv)))
      else if t = EXECLO \<and> regCount = 2 then Inr (padded numBytes (Uint64ToBytes (wf_Exec wv)))
      else if t = M0 then Inr (padded numBytes (Uint32ToBytes (wf_M0 wv)))
      else Inl (Panic ''Register type not supported''))"

definition WriteReg :: "Reg \<Rightarrow> nat \<Rightarrow> nat \<Rightarrow> byte list \<Rightarrow> Wavefront \<Rightarrow> Wavefront result" where
  "WriteReg reg regCount laneID data wv =
     (let numBytes = reg_bytes reg regCount; t = reg_type reg in
      if IsSReg t then
        bindR (copy_range (wf_SRegFile wv) (the (RegIndex t) * 4) numBytes data) (\<lambda>f. Inr (wv\<lparr>wf_SRegFile := f\<rparr>))
      else if IsVReg t then
        bindR (copy_range (wf_VRegFile wv) (laneID * 256 * 4 + the (RegIndex t) * 4) numBytes data)
          (\<lambda>f. Inr (wv\<lparr>wf_VRegFile := f\<rparr>))
      else if t = SCC then bindR (slice_get data 0) (\<lambda>b. Inr (wv\<lparr>wf_SCC := b\<rparr>))
      else if t = VCC then bindR (BytesToUint64 data) (\<lambda>v. Inr (wv\<lparr>wf_VCC := v\<rparr>))
      else if t = VCCLO \<and> regCount = 2 then bindR (BytesToUint64 data) (\<lambda>v. Inr (wv\<lparr>wf_VCC := v\<rparr>))
      else if t = VCCLO \<and> regCount = 1 then
        bindR (BytesToUint32 data) (\<lambda>v. Inr (wv\<lparr>wf_VCC := wf_VCC wv AND 0x00000000ffffffff OR ucast v\<rparr>))
      else if t = VCCHI \<and> regCount = 1 then
        bindR (BytesToUint32 data) (\<lambda>v. Inr (wv\<lparr>wf_VCC := wf_VCC wv AND 0xffffffff00000000 OR push_bit 32 (ucast v)\<rparr>))
      else if t = EXEC then bindR (BytesToUint64 data) (\<lambda>v. Inr (wv\<lparr>wf_Exec := v\<rparr>))
      else if t = EXECLO \<and> regCount = 2 then bindR (BytesToUint64 data) (\<lambda>v. Inr (wv\<lparr>wf_Exec := v\<rparr>))
      else if t = M0 then bindR (BytesToUint32 data) (\<lambda>v. Inr (wv\<lparr>wf_M0 := v\<rparr>))
      else Inl (Panic ''Register type not supported''))"

section \<open>Register access lemmas\<close>

definition wf_ok :: "Wavefront \<Rightarrow> bool" where
  "wf_ok wv \<longleftrightarrow> length (wf_SRegFile wv) = 408 \<and> length (wf_VRegFile wv) = 65536 \<and> length (wf_scratchpad wv) = 4096"

lemma NewWavefront_ok [simp]: "wf_ok NewWavefront"
  by (simp add: wf_ok_def NewWavefront_def)

lemma padded_id [simp]: "length d = n \<Longrightarrow> padded n d = d"
  by (simp add: padded_def copy_at_def)

lemma length_padded [simp]: "length (padded n d) = n"
  by (simp add: padded_def copy_at_def min_def)

lemma copy_at_read_same:
  "off + length d \<le> length buf \<Longrightarrow> n = length d \<Longrightarrow> take n (drop off (copy_at buf off d)) = d"
  by (simp add: copy_at_def)

lemma copy_at_read_other:
  "off + length d \<le> length buf \<Longrightarrow> a + n \<le> off \<or> off + length d \<le> a \<Longrightarrow>
   take n (drop a (copy_at buf off d)) = take n (drop a buf)"
proof (rule nth_equalityI)
  fix i
  assume a: "off + length d \<le> length buf" "a + n \<le> off \<or> off + length d \<le> a"
  assume "i < length (take n (drop a (copy_at buf off d)))"
  then have "i < n" "a + i < length buf" "a \<le> length buf" using a(1) by auto
  then show "take n (drop a (copy_at buf off d)) ! i = take n (drop a buf) ! i"
    using a by (auto simp: nth_copy_at)
qed simp

lemma Regs_sel [simp]:
  "reg_type (Regs t) = t" "reg_ByteSize (Regs (S i)) = 4" "reg_ByteSize (Regs (V i)) = 4"
  "reg_ByteSize (Regs EXEC) = 8" "reg_ByteSize (Regs VCC) = 8" "reg_ByteSize (Regs SCC) = 1"
  "reg_ByteSize (Regs VCCLO) = 4" "reg_ByteSize (Regs VCCHI) = 4" "reg_ByteSize (Regs EXECLO) = 4" "reg_ByteSize (Regs M0) = 4"
  by (simp_all add: Regs_def wide_regs_def)

text \<open>
  The bytes a register operand stands for: a bank, an offset in it and a number of bytes.
  The halves of VCC and EXEC share the bank of the whole.
\<close>

fun reg_span :: "RegType \<Rightarrow> nat \<Rightarrow> nat \<Rightarrow> nat \<times> nat \<times> nat" where
  "reg_span (S i) c lane = (0, 4 * i, 4 * nregs c)"
| "reg_span (V i) c lane = (1, 1024 * lane + 4 * i, 4 * nregs c)"
| "reg_span SCC c lane = (2, 0, 1)"
| "reg_span VCC c lane = (3, 0, 8)"
| "reg_span VCCLO c lane = (3, 0, 8)"
| "reg_span VCCHI c lane = (3, 0, 8)"
| "reg_span EXEC c lane = (4, 0, 8)"
| "reg_span EXECLO c lane = (4, 0, 8)"
| "reg_span M0 c lane = (5, 0, 4)"
| "reg_span _ c lane = (6, 0, 0)"

definition separate :: "nat \<times> nat \<times> nat \<Rightarrow> nat \<times> nat \<times> nat \<Rightarrow> bool" where
  "separate x y \<longleftrightarrow> (case (x, y) of ((b, o1, n), (b', o2, n')) \<Rightarrow> b \<noteq> b' \<or> o1 + n \<le> o2 \<or> o2 + n' \<le> o1)"

text \<open>The registers an instruction writes: whole registers, or the pair that starts with a low half.\<close>

fun plain_reg :: "RegType \<Rightarrow> nat \<Rightarrow> bool" where
  "plain_reg (S i) c = (i + nregs c \<le> 102)"
| "plain_reg (V i) c = (i + nregs c \<le> 256)"
| "plain_reg SCC c = (c \<le> 1)"
| "plain_reg VCC c = (c \<le> 1)"
| "plain_reg EXEC c = (c \<le> 1)"
| "plain_reg M0 c = (c \<le> 1)"
| "plain_reg VCCLO c = (c = 2)"
| "plain_reg EXECLO c = (c = 2)"
| "plain_reg _ c = False"

lemma nregs_simps [simp]: "0 < nregs c" "nregs 0 = 1" "nregs (Suc 0) = 1" "nregs 1 = 1" "nregs 2 = 2"
  by (simp_all add: nregs_def)

lemma nregs_le: "i + nregs c \<le> n \<Longrightarrow> i < n"
  using nregs_simps(1) [of c] by linarith

lemma WriteReg_S:
  assumes "wf_ok wv" "i + nregs c \<le> 102"
  shows "WriteReg (Regs (S i)) c lane data wv =
    Inr (wv\<lparr>wf_SRegFile := copy_at (wf_SRegFile wv) (4 * i) (take (4 * nregs c) data)\<rparr>)"
proof -
  have "i \<le> 101" "i * 4 + 4 * nregs c \<le> 408" using assms(2) nregs_le [OF assms(2)] by linarith+
  then show ?thesis using assms by (simp add: WriteReg_def Let_def copy_range_def wf_ok_def reg_bytes_def mult.commute)
qed

lemma V_bounds:
  assumes "i + nregs c \<le> 256" "lane < 64"
  shows "i \<le> 255" "lane * 256 * 4 + i * 4 + 4 * nregs c \<le> 65536" "lane * 256 * 4 + i * 4 = 1024 * lane + 4 * i"
  using assms nregs_le [OF assms(1)] by linarith+

lemma WriteReg_V:
  assumes "wf_ok wv" "i + nregs c \<le> 256" "lane < 64"
  shows "WriteReg (Regs (V i)) c lane data wv =
    Inr (wv\<lparr>wf_VRegFile := copy_at (wf_VRegFile wv) (1024 * lane + 4 * i) (take (4 * nregs c) data)\<rparr>)"
  using assms(1) V_bounds [OF assms(2,3)] by (simp add: WriteReg_def Let_def copy_range_def wf_ok_def reg_bytes_def mult.commute)

lemma ReadReg_S:
  assumes "wf_ok wv" "i + nregs c \<le> 102"
  shows "ReadReg (Regs (S i)) c lane wv = Inr (take (4 * nregs c) (drop (4 * i) (wf_SRegFile wv)))"
proof -
  have "i \<le> 101" "i * 4 + 4 * nregs c \<le> 408" using assms(2) nregs_le [OF assms(2)] by linarith+
  then show ?thesis using assms by (simp add: ReadReg_def Let_def slice_range_def wf_ok_def reg_bytes_def mult.commute)
qed

lemma ReadReg_V:
  assumes "wf_ok wv" "i + nregs c \<le> 256" "lane < 64"
  shows "ReadReg (Regs (V i)) c lane wv = Inr (take (4 * nregs c) (drop (1024 * lane + 4 * i) (wf_VRegFile wv)))"
  using assms(1) V_bounds [OF assms(2,3)] by (simp add: ReadReg_def Let_def slice_range_def wf_ok_def reg_bytes_def mult.commute)

lemma slice_range_other:
  assumes "off + length d \<le> length buf" "a + n \<le> off \<or> off + length d \<le> a"
  shows "slice_range (copy_at buf off d) a n = slice_range buf a n"
  using assms by (simp add: slice_range_def copy_at_read_other)

lemma ReadReg_frame:
  "\<not> IsSReg u \<Longrightarrow> ReadReg (Regs u) c l (wv\<lparr>wf_SRegFile := f\<rparr>) = ReadReg (Regs u) c l wv"
  "\<not> IsVReg u \<Longrightarrow> ReadReg (Regs u) c l (wv\<lparr>wf_VRegFile := f\<rparr>) = ReadReg (Regs u) c l wv"
  "u \<noteq> SCC \<Longrightarrow> ReadReg (Regs u) c l (wv\<lparr>wf_SCC := b\<rparr>) = ReadReg (Regs u) c l wv"
  "u \<notin> {VCC, VCCLO, VCCHI} \<Longrightarrow> ReadReg (Regs u) c l (wv\<lparr>wf_VCC := v\<rparr>) = ReadReg (Regs u) c l wv"
  "u \<notin> {EXEC, EXECLO} \<Longrightarrow> ReadReg (Regs u) c l (wv\<lparr>wf_Exec := v\<rparr>) = ReadReg (Regs u) c l wv"
  "u \<noteq> M0 \<Longrightarrow> ReadReg (Regs u) c l (wv\<lparr>wf_M0 := m\<rparr>) = ReadReg (Regs u) c l wv"
  "ReadReg (Regs u) c l (wv\<lparr>wf_PC := p\<rparr>) = ReadReg (Regs u) c l wv"
  "ReadReg (Regs u) c l (wv\<lparr>wf_scratchpad := sp\<rparr>) = ReadReg (Regs u) c l wv"
  by (simp_all add: ReadReg_def Let_def)

lemma ReadReg_S_other:
  assumes "wf_ok wv" "i + nregs c \<le> 102" "length d \<le> 4 * nregs c" "separate (reg_span (S i) c lane) (reg_span u c' lane')"
  shows "ReadReg (Regs u) c' lane' (wv\<lparr>wf_SRegFile := copy_at (wf_SRegFile wv) (4 * i) d\<rparr>) = ReadReg (Regs u) c' lane' wv"
proof (cases "IsSReg u")
  case True
  then obtain j where u: "u = S j" "j \<le> 101" by (cases u) auto
  have "slice_range (copy_at (wf_SRegFile wv) (4 * i) d) (j * 4) (4 * nregs c') = slice_range (wf_SRegFile wv) (j * 4) (4 * nregs c')"
    using assms by (intro slice_range_other) (auto simp: u separate_def wf_ok_def)
  then show ?thesis using u by (simp add: ReadReg_def Let_def reg_bytes_def)
qed (simp add: ReadReg_frame)

lemma ReadReg_V_other:
  assumes "wf_ok wv" "i + nregs c \<le> 256" "lane < 64" "length d \<le> 4 * nregs c"
    "separate (reg_span (V i) c lane) (reg_span u c' lane')"
  shows "ReadReg (Regs u) c' lane' (wv\<lparr>wf_VRegFile := copy_at (wf_VRegFile wv) (1024 * lane + 4 * i) d\<rparr>) = ReadReg (Regs u) c' lane' wv"
proof (cases "IsVReg u")
  case True
  then obtain j where u: "u = V j" "j \<le> 255" by (cases u) auto
  have "slice_range (copy_at (wf_VRegFile wv) (1024 * lane + 4 * i) d) (lane' * 256 * 4 + j * 4) (4 * nregs c') =
      slice_range (wf_VRegFile wv) (lane' * 256 * 4 + j * 4) (4 * nregs c')"
    using assms by (intro slice_range_other) (auto simp: u separate_def wf_ok_def)
  then show ?thesis using u by (simp add: ReadReg_def Let_def reg_bytes_def)
qed (simp add: ReadReg_frame)

lemma le_bytes_le_word: "8 * length bs \<le> LENGTH('a) \<Longrightarrow> le_bytes (length bs) (le_word bs :: 'a::len word) = bs"
  by (rule nth_equalityI) (auto intro!: bit_word_eqI simp: bit_le_word bit_simps)

lemma le_bytes_u64 [simp]: "length d = 8 \<Longrightarrow> Uint64ToBytes (le_word d) = d"
  using le_bytes_le_word [of d, where ?'a = 64] by (simp add: Uint64ToBytes_def)

lemma le_bytes_u32 [simp]: "length d = 4 \<Longrightarrow> Uint32ToBytes (le_word d) = d"
  using le_bytes_le_word [of d, where ?'a = 32] by (simp add: Uint32ToBytes_def)

lemma wf_ok_updates [simp]:
  "wf_ok (wv\<lparr>wf_SCC := b\<rparr>) = wf_ok wv" "wf_ok (wv\<lparr>wf_VCC := v\<rparr>) = wf_ok wv" "wf_ok (wv\<lparr>wf_Exec := v\<rparr>) = wf_ok wv"
  "wf_ok (wv\<lparr>wf_M0 := m\<rparr>) = wf_ok wv" "wf_ok (wv\<lparr>wf_PC := p\<rparr>) = wf_ok wv"
  "wf_ok wv \<Longrightarrow> wf_ok (wv\<lparr>wf_scratchpad := sp\<rparr>) = (length sp = 4096)"
  by (simp_all add: wf_ok_def)

text \<open>A register write that succeeds: the value is there, separate registers keep theirs.\<close>

definition writes :: "RegType \<Rightarrow> nat \<Rightarrow> nat \<Rightarrow> byte list \<Rightarrow> Wavefront \<Rightarrow> Wavefront \<Rightarrow> bool" where
  "writes t c lane data wv wv' \<longleftrightarrow> WriteReg (Regs t) c lane data wv = Inr wv' \<and> wf_ok wv' \<and>
     ReadReg (Regs t) c lane wv' = Inr data \<and>
     (\<forall>u c' lane'. separate (reg_span t c lane) (reg_span u c' lane') \<longrightarrow>
        ReadReg (Regs u) c' lane' wv' = ReadReg (Regs u) c' lane' wv)"

lemma writes_S:
  assumes "wf_ok wv" "i + nregs c \<le> 102" "length data = 4 * nregs c"
  shows "writes (S i) c lane data wv (wv\<lparr>wf_SRegFile := copy_at (wf_SRegFile wv) (4 * i) data\<rparr>)"
proof -
  let ?w = "wv\<lparr>wf_SRegFile := copy_at (wf_SRegFile wv) (4 * i) data\<rparr>"
  have len: "4 * i + length data \<le> length (wf_SRegFile wv)" using assms by (simp add: wf_ok_def)
  have ok': "wf_ok ?w" using assms(1) len by (simp add: wf_ok_def)
  show ?thesis
    using assms ok' len by (simp add: writes_def WriteReg_S ReadReg_S copy_at_read_same ReadReg_S_other)
qed

lemma writes_V:
  assumes "wf_ok wv" "i + nregs c \<le> 256" "lane < 64" "length data = 4 * nregs c"
  shows "writes (V i) c lane data wv (wv\<lparr>wf_VRegFile := copy_at (wf_VRegFile wv) (1024 * lane + 4 * i) data\<rparr>)"
proof -
  let ?w = "wv\<lparr>wf_VRegFile := copy_at (wf_VRegFile wv) (1024 * lane + 4 * i) data\<rparr>"
  have len: "1024 * lane + 4 * i + length data \<le> length (wf_VRegFile wv)" using assms by (simp add: wf_ok_def)
  have ok': "wf_ok ?w" using assms(1) len by (simp add: wf_ok_def)
  show ?thesis
    using assms ok' len by (simp add: writes_def WriteReg_V ReadReg_V copy_at_read_same ReadReg_V_other)
qed

lemma special_separate:
  "separate (reg_span SCC c lane) (reg_span u c' l') \<Longrightarrow> u \<noteq> SCC"
  "t \<in> {VCC, VCCLO} \<Longrightarrow> separate (reg_span t c lane) (reg_span u c' l') \<Longrightarrow> u \<notin> {VCC, VCCLO, VCCHI}"
  "t \<in> {EXEC, EXECLO} \<Longrightarrow> separate (reg_span t c lane) (reg_span u c' l') \<Longrightarrow> u \<notin> {EXEC, EXECLO}"
  "separate (reg_span M0 c lane) (reg_span u c' l') \<Longrightarrow> u \<noteq> M0"
  by (auto simp: separate_def)

lemma writesI:
  assumes "WriteReg (Regs t) c lane data wv = Inr wv'" "wf_ok wv'" "ReadReg (Regs t) c lane wv' = Inr data"
    and "\<And>u c' lane'. separate (reg_span t c lane) (reg_span u c' lane') \<Longrightarrow>
           ReadReg (Regs u) c' lane' wv' = ReadReg (Regs u) c' lane' wv"
  shows "writes t c lane data wv wv'"
  using assms by (simp add: writes_def)

lemma nregs_1: "c \<le> 1 \<Longrightarrow> nregs c = 1"
  by (simp add: nregs_def)

lemma writes_SCC:
  assumes "wf_ok wv" "c \<le> 1" "length data = 1"
  shows "writes SCC c lane data wv (wv\<lparr>wf_SCC := data ! 0\<rparr>)"
  using assms
  by (intro writesI ReadReg_frame(3) special_separate(1))
     (auto simp: WriteReg_def ReadReg_def Let_def reg_bytes_def nregs_1 length_Suc_conv)

lemma writes_VCC:
  assumes "wf_ok wv" "length data = 8"
  shows "c \<le> 1 \<Longrightarrow> writes VCC c lane data wv (wv\<lparr>wf_VCC := le_word data\<rparr>)"
    and "writes VCCLO 2 lane data wv (wv\<lparr>wf_VCC := le_word data\<rparr>)"
proof -
  show "writes VCC c lane data wv (wv\<lparr>wf_VCC := le_word data\<rparr>)" if "c \<le> 1"
    using assms nregs_1 [OF that]
    by (intro writesI ReadReg_frame(4) special_separate(2) [of VCC])
       (simp_all add: WriteReg_def ReadReg_def Let_def reg_bytes_def BytesToUint64_def)
  show "writes VCCLO 2 lane data wv (wv\<lparr>wf_VCC := le_word data\<rparr>)"
    using assms
    by (intro writesI ReadReg_frame(4) special_separate(2) [of VCCLO])
       (simp_all add: WriteReg_def ReadReg_def Let_def reg_bytes_def BytesToUint64_def)
qed

lemma writes_EXEC:
  assumes "wf_ok wv" "length data = 8"
  shows "c \<le> 1 \<Longrightarrow> writes EXEC c lane data wv (wv\<lparr>wf_Exec := le_word data\<rparr>)"
    and "writes EXECLO 2 lane data wv (wv\<lparr>wf_Exec := le_word data\<rparr>)"
proof -
  show "writes EXEC c lane data wv (wv\<lparr>wf_Exec := le_word data\<rparr>)" if "c \<le> 1"
    using assms nregs_1 [OF that]
    by (intro writesI ReadReg_frame(5) special_separate(3) [of EXEC])
       (simp_all add: WriteReg_def ReadReg_def Let_def reg_bytes_def BytesToUint64_def)
  show "writes EXECLO 2 lane data wv (wv\<lparr>wf_Exec := le_word data\<rparr>)"
    using assms
    by (intro writesI ReadReg_frame(5) special_separate(3) [of EXECLO])
       (simp_all add: WriteReg_def ReadReg_def Let_def reg_bytes_def BytesToUint64_def)
qed

lemma writes_M0:
  assumes "wf_ok wv" "c \<le> 1" "length data = 4"
  shows "writes M0 c lane data wv (wv\<lparr>wf_M0 := le_word data\<rparr>)"
  using assms
  by (intro writesI ReadReg_frame(6) special_separate(4))
     (auto simp: WriteReg_def ReadReg_def Let_def reg_bytes_def nregs_1 BytesToUint32_def)

lemma plain_reg_cases:
  assumes "plain_reg t c"
  obtains (S) i where "t = S i" "i + nregs c \<le> 102" | (V) i where "t = V i" "i + nregs c \<le> 256"
    | (SCC) "t = SCC" "c \<le> 1" | (VCC) "t = VCC" "c \<le> 1" | (EXEC) "t = EXEC" "c \<le> 1" | (M0) "t = M0" "c \<le> 1"
    | (VCCLO) "t = VCCLO" "c = 2" | (EXECLO) "t = EXECLO" "c = 2"
  using assms by (cases t) simp_all

lemma writes_ex:
  assumes "wf_ok wv" "plain_reg t c" "lane < 64" "length data = reg_bytes (Regs t) c"
  shows "\<exists>wv'. writes t c lane data wv wv'"
  using assms(2)
proof (cases rule: plain_reg_cases)
  case (S i)
  then show ?thesis using writes_S [OF assms(1), of i c data lane] assms(4) by (auto simp: reg_bytes_def)
next
  case (V i)
  then show ?thesis using writes_V [OF assms(1), of i c lane data] assms(3,4) by (auto simp: reg_bytes_def)
next
  case SCC
  then show ?thesis using writes_SCC [OF assms(1)] assms(4) by (auto simp: reg_bytes_def nregs_1)
next
  case VCC
  then show ?thesis using writes_VCC(1) [OF assms(1)] assms(4) by (auto simp: reg_bytes_def nregs_1)
next
  case EXEC
  then show ?thesis using writes_EXEC(1) [OF assms(1)] assms(4) by (auto simp: reg_bytes_def nregs_1)
next
  case M0
  then show ?thesis using writes_M0 [OF assms(1)] assms(4) by (auto simp: reg_bytes_def nregs_1)
next
  case VCCLO
  then show ?thesis using writes_VCC(2) [OF assms(1)] assms(4) by (auto simp: reg_bytes_def)
next
  case EXECLO
  then show ?thesis using writes_EXEC(2) [OF assms(1)] assms(4) by (auto simp: reg_bytes_def)
qed

section \<open>Properties\<close>

text \<open>
  Claim C24. What \<open>WriteReg\<close> writes \<open>ReadReg\<close> returns, and a write changes no register that does not
  overlap: for every scalar register range, vector register range of a lane, SCC, VCC, EXEC, M0 and the
  64-bit pairs starting at VCCLO and EXECLO.
\<close>

theorem register_roundtrip:
  assumes "wf_ok wv" "plain_reg t c" "lane < 64" "length data = reg_bytes (Regs t) c"
  shows "\<exists>wv'. WriteReg (Regs t) c lane data wv = Inr wv' \<and> wf_ok wv' \<and>
    ReadReg (Regs t) c lane wv' = Inr data \<and>
    (\<forall>u c' lane'. separate (reg_span t c lane) (reg_span u c' lane') \<longrightarrow>
       ReadReg (Regs u) c' lane' wv' = ReadReg (Regs u) c' lane' wv)"
proof -
  have "\<exists>wv'. writes t c lane data wv wv'" by (rule writes_ex [OF assms])
  then show ?thesis by (simp add: writes_def)
qed

theorem register_roundtrip_witness:
  "\<exists>wv'. WriteReg (Regs (V 3)) 2 7 (Uint64ToBytes 0x1122334455667788) NewWavefront = Inr wv' \<and>
     ReadReg (Regs (V 3)) 2 7 wv' = Inr (Uint64ToBytes 0x1122334455667788) \<and>
     ReadReg (Regs (V 3)) 2 8 wv' = ReadReg (Regs (V 3)) 2 8 NewWavefront"
proof -
  have "separate (reg_span (V 3) 2 7) (reg_span (V 3) 2 8)" by (simp add: separate_def)
  then show ?thesis
    using register_roundtrip [of NewWavefront "V 3" 2 7 "Uint64ToBytes 0x1122334455667788"] by (auto simp: reg_bytes_def)
qed

text \<open>
  Claim C35. The halves of VCC cannot be written on their own: a write of VCCLO clears the upper half and only
  adds bits to the lower one, and a write of VCCHI clears the lower half and only adds bits to the upper one.
\<close>

theorem VCC_half_write_clobbers:
  "WriteReg (Regs VCCLO) 1 lane (Uint32ToBytes v) wv =
     Inr (wv\<lparr>wf_VCC := ucast ((ucast (wf_VCC wv) :: u32) OR v)\<rparr>) \<and>
   WriteReg (Regs VCCHI) 1 lane (Uint32ToBytes v) wv =
     Inr (wv\<lparr>wf_VCC := push_bit 32 (ucast ((ucast (drop_bit 32 (wf_VCC wv)) :: u32) OR v))\<rparr>)"
proof -
  have m: "(0xffffffff :: u64) = mask 32" "(0xffffffff00000000 :: u64) = push_bit 32 (mask 32)"
    by (simp_all add: mask_eq_exp_minus_1)
  have "wf_VCC wv AND 0xffffffff OR ucast v = ucast ((ucast (wf_VCC wv) :: u32) OR v)"
    unfolding m by (rule bit_word_eqI) (auto simp: bit_simps)
  moreover have "wf_VCC wv AND 0xffffffff00000000 OR push_bit 32 (ucast v) =
      push_bit 32 (ucast ((ucast (drop_bit 32 (wf_VCC wv)) :: u32) OR v))"
    unfolding m by (rule bit_word_eqI) (auto simp: bit_simps)
  ultimately show ?thesis by (simp add: WriteReg_def Let_def)
qed

end
