(* ===== verification/Emu_Scratchpad.thy ===== *)
theory Emu_Scratchpad
  imports Emu_Wavefront
begin

text \<open>
  The scratchpad through which the emulator passes operands to the ALU
  (\<^verbatim>\<open>mgpusim/emu/scratchpad.go\<close>), a decoded instruction (\<^verbatim>\<open>insts/inst.go\<close>, the fields the
  emulator reads), and operand access (\<^verbatim>\<open>readOperand\<close> and \<^verbatim>\<open>writeOperand\<close> of
  \<^verbatim>\<open>emu/scratchpadpreparer.go\<close>).

  The scratchpad is 4096 bytes. The Go code casts it to one struct per instruction
  format; here a layout is a record with a function \<open>As\<dots>\<close> that reads its fields at their
  offsets (little endian, 8-byte alignment) and a function \<open>set\<dots>\<close> that writes them back,
  and an operation on the struct is an operation on the record between the two. The lemmas
  are the laws of these pairs.
\<close>

section \<open>Instructions\<close>

datatype FormatType = SOP2 | SOPK | SOP1 | SOPC | SOPP | SMEM | VOP2 | VOP1 | VOP3a | VOP3b | VOPC | VINTRP | DS
  | MUBUF | MTBUF | MIMG | EXP | FLAT

record Inst =
  i_FormatType :: FormatType
  i_Opcode :: nat
  i_InstName :: string
  i_ByteSize :: u64
  i_Src0 :: "Operand option"
  i_Src1 :: "Operand option"
  i_Src2 :: "Operand option"
  i_Dst :: "Operand option"
  i_SDst :: "Operand option"
  i_Addr :: "Operand option"
  i_Data :: "Operand option"
  i_Data1 :: "Operand option"
  i_Base :: "Operand option"
  i_Offset :: "Operand option"
  i_SImm16 :: "Operand option"
  i_Abs :: nat
  i_Omod :: nat
  i_Neg :: nat
  i_Offset0 :: u32
  i_Offset1 :: u32
  i_IsSdwa :: bool
  i_DstSel :: u32
  i_Src0Sel :: u32
  i_Src1Sel :: u32

definition NewInst :: "FormatType \<Rightarrow> nat \<Rightarrow> Inst" where
  "NewInst f opc = \<lparr>i_FormatType = f, i_Opcode = opc, i_InstName = [], i_ByteSize = 0,
     i_Src0 = None, i_Src1 = None, i_Src2 = None, i_Dst = None, i_SDst = None, i_Addr = None, i_Data = None, i_Data1 = None,
     i_Base = None, i_Offset = None, i_SImm16 = None, i_Abs = 0, i_Omod = 0, i_Neg = 0, i_Offset0 = 0, i_Offset1 = 0,
     i_IsSdwa = False, i_DstSel = 0, i_Src0Sel = 0, i_Src1Sel = 0\<rparr>"

section \<open>Fields at offsets\<close>

type_synonym scratchpad = "byte list"

definition get8 :: "nat \<Rightarrow> scratchpad \<Rightarrow> byte" where
  "get8 off sp = sp ! off"

definition get32 :: "nat \<Rightarrow> scratchpad \<Rightarrow> u32" where
  "get32 off sp = le_word (take 4 (drop off sp))"

definition get64 :: "nat \<Rightarrow> scratchpad \<Rightarrow> u64" where
  "get64 off sp = le_word (take 8 (drop off sp))"

definition put8 :: "nat \<Rightarrow> byte \<Rightarrow> scratchpad \<Rightarrow> scratchpad" where
  "put8 off b sp = copy_at sp off [b]"

definition put32 :: "nat \<Rightarrow> u32 \<Rightarrow> scratchpad \<Rightarrow> scratchpad" where
  "put32 off v sp = copy_at sp off (Uint32ToBytes v)"

definition put64 :: "nat \<Rightarrow> u64 \<Rightarrow> scratchpad \<Rightarrow> scratchpad" where
  "put64 off v sp = copy_at sp off (Uint64ToBytes v)"

text \<open>An array of 64-bit fields.\<close>

definition get64s :: "nat \<Rightarrow> scratchpad \<Rightarrow> u64 list" where
  "get64s off sp = map (\<lambda>i. get64 (off + 8 * i) sp) [0..<64]"

definition put64s :: "nat \<Rightarrow> u64 list \<Rightarrow> scratchpad \<Rightarrow> scratchpad" where
  "put64s off vs sp = copy_at sp off (concat (map Uint64ToBytes vs))"

definition sp_ok :: "scratchpad \<Rightarrow> bool" where
  "sp_ok sp \<longleftrightarrow> length sp = 4096"

lemma put_ok [simp]:
  "off < 4096 \<Longrightarrow> sp_ok sp \<Longrightarrow> sp_ok (put8 off b sp)"
  "off + 4 \<le> 4096 \<Longrightarrow> sp_ok sp \<Longrightarrow> sp_ok (put32 off v sp)"
  "off + 8 \<le> 4096 \<Longrightarrow> sp_ok sp \<Longrightarrow> sp_ok (put64 off w sp)"
  by (simp_all add: sp_ok_def put8_def put32_def put64_def)

lemma length_concat_u64 [simp]: "length (concat (map Uint64ToBytes vs)) = 8 * length vs"
  by (induction vs) simp_all

lemma put64s_ok [simp]: "length vs = 64 \<Longrightarrow> off + 512 \<le> 4096 \<Longrightarrow> sp_ok sp \<Longrightarrow> sp_ok (put64s off vs sp)"
  by (simp add: sp_ok_def put64s_def)

lemma get64_put64 [simp]: "off + 8 \<le> 4096 \<Longrightarrow> sp_ok sp \<Longrightarrow> get64 off (put64 off v sp) = v"
  by (simp add: get64_def put64_def sp_ok_def copy_at_read_same) (simp add: Uint64ToBytes_def)

lemma get64_put64_other [simp]:
  "off + 8 \<le> 4096 \<Longrightarrow> sp_ok sp \<Longrightarrow> a + 8 \<le> off \<or> off + 8 \<le> a \<Longrightarrow> get64 a (put64 off v sp) = get64 a sp"
  by (simp add: get64_def put64_def sp_ok_def copy_at_read_other)

lemma get64_put8 [simp]:
  "off < 4096 \<Longrightarrow> sp_ok sp \<Longrightarrow> a + 8 \<le> off \<or> off < a \<Longrightarrow> get64 a (put8 off b sp) = get64 a sp"
  using copy_at_read_other [of off "[b]" sp a 8] by (auto simp: get64_def put8_def sp_ok_def)

lemma get8_put [simp]:
  "off < 4096 \<Longrightarrow> sp_ok sp \<Longrightarrow> get8 off (put8 off b sp) = b"
  "off + 8 \<le> 4096 \<Longrightarrow> sp_ok sp \<Longrightarrow> a < 4096 \<Longrightarrow> a < off \<or> off + 8 \<le> a \<Longrightarrow> get8 a (put64 off v sp) = get8 a sp"
  "off + 4 \<le> 4096 \<Longrightarrow> sp_ok sp \<Longrightarrow> a < 4096 \<Longrightarrow> a < off \<or> off + 4 \<le> a \<Longrightarrow> get8 a (put32 off u sp) = get8 a sp"
  by (auto simp: get8_def put8_def put64_def put32_def sp_ok_def nth_copy_at)

lemma get32_put32 [simp]:
  "off + 4 \<le> 4096 \<Longrightarrow> sp_ok sp \<Longrightarrow> get32 off (put32 off v sp) = v"
  by (simp add: get32_def put32_def sp_ok_def copy_at_read_same) (simp add: Uint32ToBytes_def)

lemma get32_get64: "sp_ok sp \<Longrightarrow> off + 8 \<le> 4096 \<Longrightarrow> get32 off sp = ucast (get64 off sp)"
  by (rule bit_word_eqI) (auto simp: get32_def get64_def sp_ok_def bit_le_word bit_simps)

text \<open>What a commit reads from the scratchpad.\<close>

lemma bytes_get64: "sp_ok sp \<Longrightarrow> off + 8 \<le> 4096 \<Longrightarrow> take 8 (drop off sp) = Uint64ToBytes (get64 off sp)"
  by (simp add: get64_def sp_ok_def)

lemma bytes_get8: "sp_ok sp \<Longrightarrow> off < 4096 \<Longrightarrow> take (Suc 0) (drop off sp) = [get8 off sp]"
  by (simp add: get8_def sp_ok_def take_Suc_conv_app_nth)

section \<open>The scalar layouts\<close>

record SOP1Layout =
  sop1_SRC0 :: u64
  sop1_DST :: u64
  sop1_EXEC :: u64
  sop1_SCC :: byte
  sop1_PC :: u64

definition AsSOP1 :: "scratchpad \<Rightarrow> SOP1Layout" where
  "AsSOP1 sp = \<lparr>sop1_SRC0 = get64 0 sp, sop1_DST = get64 8 sp, sop1_EXEC = get64 16 sp, sop1_SCC = get8 24 sp, sop1_PC = get64 32 sp\<rparr>"

definition setSOP1 :: "SOP1Layout \<Rightarrow> scratchpad \<Rightarrow> scratchpad" where
  "setSOP1 l sp = put64 32 (sop1_PC l) (put8 24 (sop1_SCC l) (put64 16 (sop1_EXEC l) (put64 8 (sop1_DST l) (put64 0 (sop1_SRC0 l) sp))))"

lemma SOP1_laws:
  "sp_ok sp \<Longrightarrow> sp_ok (setSOP1 l sp)"
  "sp_ok sp \<Longrightarrow> AsSOP1 (setSOP1 l sp) = l"
  by (simp_all add: AsSOP1_def setSOP1_def)

record SOP2Layout =
  sop2_SRC0 :: u64
  sop2_SRC1 :: u64
  sop2_DST :: u64
  sop2_SCC :: byte

definition AsSOP2 :: "scratchpad \<Rightarrow> SOP2Layout" where
  "AsSOP2 sp = \<lparr>sop2_SRC0 = get64 0 sp, sop2_SRC1 = get64 8 sp, sop2_DST = get64 16 sp, sop2_SCC = get8 24 sp\<rparr>"

definition setSOP2 :: "SOP2Layout \<Rightarrow> scratchpad \<Rightarrow> scratchpad" where
  "setSOP2 l sp = put8 24 (sop2_SCC l) (put64 16 (sop2_DST l) (put64 8 (sop2_SRC1 l) (put64 0 (sop2_SRC0 l) sp)))"

lemma SOP2_laws:
  "sp_ok sp \<Longrightarrow> sp_ok (setSOP2 l sp)"
  "sp_ok sp \<Longrightarrow> AsSOP2 (setSOP2 l sp) = l"
  by (simp_all add: AsSOP2_def setSOP2_def)

record SOPCLayout =
  sopc_SRC0 :: u64
  sopc_SRC1 :: u64
  sopc_SCC :: byte

definition AsSOPC :: "scratchpad \<Rightarrow> SOPCLayout" where
  "AsSOPC sp = \<lparr>sopc_SRC0 = get64 0 sp, sopc_SRC1 = get64 8 sp, sopc_SCC = get8 16 sp\<rparr>"

definition setSOPC :: "SOPCLayout \<Rightarrow> scratchpad \<Rightarrow> scratchpad" where
  "setSOPC l sp = put8 16 (sopc_SCC l) (put64 8 (sopc_SRC1 l) (put64 0 (sopc_SRC0 l) sp))"

lemma SOPC_laws:
  "sp_ok sp \<Longrightarrow> sp_ok (setSOPC l sp)"
  "sp_ok sp \<Longrightarrow> AsSOPC (setSOPC l sp) = l"
  by (simp_all add: AsSOPC_def setSOPC_def)

record SOPPLayout =
  sopp_EXEC :: u64
  sopp_PC :: u64
  sopp_IMM :: u64
  sopp_SCC :: byte
  sopp_VCC :: u64

definition AsSOPP :: "scratchpad \<Rightarrow> SOPPLayout" where
  "AsSOPP sp = \<lparr>sopp_EXEC = get64 0 sp, sopp_PC = get64 8 sp, sopp_IMM = get64 16 sp, sopp_SCC = get8 24 sp, sopp_VCC = get64 32 sp\<rparr>"

definition setSOPP :: "SOPPLayout \<Rightarrow> scratchpad \<Rightarrow> scratchpad" where
  "setSOPP l sp = put64 32 (sopp_VCC l) (put8 24 (sopp_SCC l) (put64 16 (sopp_IMM l) (put64 8 (sopp_PC l) (put64 0 (sopp_EXEC l) sp))))"

lemma SOPP_laws:
  "sp_ok sp \<Longrightarrow> sp_ok (setSOPP l sp)"
  "sp_ok sp \<Longrightarrow> AsSOPP (setSOPP l sp) = l"
  by (simp_all add: AsSOPP_def setSOPP_def)

record SOPKLayout =
  sopk_DST :: u64
  sopk_IMM :: u64
  sopk_SCC :: byte

definition AsSOPK :: "scratchpad \<Rightarrow> SOPKLayout" where
  "AsSOPK sp = \<lparr>sopk_DST = get64 0 sp, sopk_IMM = get64 8 sp, sopk_SCC = get8 16 sp\<rparr>"

definition setSOPK :: "SOPKLayout \<Rightarrow> scratchpad \<Rightarrow> scratchpad" where
  "setSOPK l sp = put8 16 (sopk_SCC l) (put64 8 (sopk_IMM l) (put64 0 (sopk_DST l) sp))"

lemma SOPK_laws:
  "sp_ok sp \<Longrightarrow> sp_ok (setSOPK l sp)"
  "sp_ok sp \<Longrightarrow> AsSOPK (setSOPK l sp) = l"
  by (simp_all add: AsSOPK_def setSOPK_def)

section \<open>The vector layouts\<close>

lemma get64_put64s:
  assumes "length vs = 64" "off + 512 \<le> 4096" "sp_ok sp"
  shows "i < 64 \<Longrightarrow> get64 (off + 8 * i) (put64s off vs sp) = vs ! i"
    and "a + 8 \<le> off \<or> off + 512 \<le> a \<Longrightarrow> get64 a (put64s off vs sp) = get64 a sp"
proof -
  let ?d = "concat (map Uint64ToBytes vs)"
  have chunk: "take 8 (drop (8 * i) (concat (map Uint64ToBytes us))) = Uint64ToBytes (us ! i)" if "i < length us" for us i
    using that
  proof (induction us arbitrary: i)
    case (Cons u us)
    then show ?case by (cases i) simp_all
  qed simp
  show "get64 (off + 8 * i) (put64s off vs sp) = vs ! i" if i: "i < 64"
  proof -
    have "drop (off + 8 * i) (copy_at sp off ?d) = drop (8 * i) ?d @ drop (off + length ?d) sp"
      using assms i by (simp add: copy_at_def sp_ok_def drop_append)
    then show ?thesis using assms i chunk [of i vs] by (simp add: get64_def put64s_def) (simp add: Uint64ToBytes_def)
  qed
  show "get64 a (put64s off vs sp) = get64 a sp" if "a + 8 \<le> off \<or> off + 512 \<le> a"
    using assms that by (simp add: get64_def put64s_def sp_ok_def copy_at_read_other)
qed

lemma get64s_put64s [simp]:
  "length vs = 64 \<Longrightarrow> off + 512 \<le> 4096 \<Longrightarrow> sp_ok sp \<Longrightarrow> get64s off (put64s off vs sp) = vs"
  by (rule nth_equalityI) (simp_all add: get64s_def get64_put64s)

lemma get64s_put_other [simp]:
  "length vs = 64 \<Longrightarrow> off + 512 \<le> 4096 \<Longrightarrow> sp_ok sp \<Longrightarrow> a + 512 \<le> off \<or> off + 512 \<le> a \<Longrightarrow> get64s a (put64s off vs sp) = get64s a sp"
  "off + 8 \<le> 4096 \<Longrightarrow> sp_ok sp \<Longrightarrow> a + 512 \<le> off \<or> off + 8 \<le> a \<Longrightarrow> get64s a (put64 off v sp) = get64s a sp"
  by (auto simp: get64s_def intro!: get64_put64s(2) get64_put64_other)

lemma get64_put64s_other [simp]:
  "length vs = 64 \<Longrightarrow> off + 512 \<le> 4096 \<Longrightarrow> sp_ok sp \<Longrightarrow> a + 8 \<le> off \<or> off + 512 \<le> a \<Longrightarrow> get64 a (put64s off vs sp) = get64 a sp"
  by (rule get64_put64s(2))

lemma get64s_length [simp]: "length (get64s off sp) = 64" and get64s_nth [simp]: "i < 64 \<Longrightarrow> get64s off sp ! i = get64 (off + 8 * i) sp"
  by (simp_all add: get64s_def)

record VOP1Layout =
  vop1_EXEC :: u64
  vop1_DST :: "u64 list"
  vop1_VCC :: u64
  vop1_SRC0 :: "u64 list"

definition AsVOP1 :: "scratchpad \<Rightarrow> VOP1Layout" where
  "AsVOP1 sp = \<lparr>vop1_EXEC = get64 0 sp, vop1_DST = get64s 8 sp, vop1_VCC = get64 520 sp, vop1_SRC0 = get64s 528 sp\<rparr>"

definition setVOP1 :: "VOP1Layout \<Rightarrow> scratchpad \<Rightarrow> scratchpad" where
  "setVOP1 l sp = put64s 528 (vop1_SRC0 l) (put64 520 (vop1_VCC l) (put64s 8 (vop1_DST l) (put64 0 (vop1_EXEC l) sp)))"

lemma VOP1_laws:
  "sp_ok sp \<Longrightarrow> length (vop1_DST l) = 64 \<Longrightarrow> length (vop1_SRC0 l) = 64 \<Longrightarrow> sp_ok (setVOP1 l sp)"
  "sp_ok sp \<Longrightarrow> length (vop1_DST l) = 64 \<Longrightarrow> length (vop1_SRC0 l) = 64 \<Longrightarrow> AsVOP1 (setVOP1 l sp) = l"
  by (simp_all add: AsVOP1_def setVOP1_def)

record VOP2Layout =
  vop2_EXEC :: u64
  vop2_DST :: "u64 list"
  vop2_VCC :: u64
  vop2_SRC0 :: "u64 list"
  vop2_SRC1 :: "u64 list"
  vop2_LiteralConstant :: u64

definition AsVOP2 :: "scratchpad \<Rightarrow> VOP2Layout" where
  "AsVOP2 sp = \<lparr>vop2_EXEC = get64 0 sp, vop2_DST = get64s 8 sp, vop2_VCC = get64 520 sp, vop2_SRC0 = get64s 528 sp, vop2_SRC1 = get64s 1040 sp, vop2_LiteralConstant = get64 1552 sp\<rparr>"

definition setVOP2 :: "VOP2Layout \<Rightarrow> scratchpad \<Rightarrow> scratchpad" where
  "setVOP2 l sp = put64 1552 (vop2_LiteralConstant l) (put64s 1040 (vop2_SRC1 l) (put64s 528 (vop2_SRC0 l) (put64 520 (vop2_VCC l) (put64s 8 (vop2_DST l) (put64 0 (vop2_EXEC l) sp)))))"

lemma VOP2_laws:
  "sp_ok sp \<Longrightarrow> length (vop2_DST l) = 64 \<Longrightarrow> length (vop2_SRC0 l) = 64 \<Longrightarrow> length (vop2_SRC1 l) = 64 \<Longrightarrow> sp_ok (setVOP2 l sp)"
  "sp_ok sp \<Longrightarrow> length (vop2_DST l) = 64 \<Longrightarrow> length (vop2_SRC0 l) = 64 \<Longrightarrow> length (vop2_SRC1 l) = 64 \<Longrightarrow> AsVOP2 (setVOP2 l sp) = l"
  by (simp_all add: AsVOP2_def setVOP2_def)

record VOP3ALayout =
  vop3a_EXEC :: u64
  vop3a_DST :: "u64 list"
  vop3a_VCC :: u64
  vop3a_SRC0 :: "u64 list"
  vop3a_SRC1 :: "u64 list"
  vop3a_SRC2 :: "u64 list"

definition AsVOP3A :: "scratchpad \<Rightarrow> VOP3ALayout" where
  "AsVOP3A sp = \<lparr>vop3a_EXEC = get64 0 sp, vop3a_DST = get64s 8 sp, vop3a_VCC = get64 520 sp, vop3a_SRC0 = get64s 528 sp, vop3a_SRC1 = get64s 1040 sp, vop3a_SRC2 = get64s 1552 sp\<rparr>"

definition setVOP3A :: "VOP3ALayout \<Rightarrow> scratchpad \<Rightarrow> scratchpad" where
  "setVOP3A l sp = put64s 1552 (vop3a_SRC2 l) (put64s 1040 (vop3a_SRC1 l) (put64s 528 (vop3a_SRC0 l) (put64 520 (vop3a_VCC l) (put64s 8 (vop3a_DST l) (put64 0 (vop3a_EXEC l) sp)))))"

lemma VOP3A_laws:
  "sp_ok sp \<Longrightarrow> length (vop3a_DST l) = 64 \<Longrightarrow> length (vop3a_SRC0 l) = 64 \<Longrightarrow> length (vop3a_SRC1 l) = 64 \<Longrightarrow> length (vop3a_SRC2 l) = 64 \<Longrightarrow> sp_ok (setVOP3A l sp)"
  "sp_ok sp \<Longrightarrow> length (vop3a_DST l) = 64 \<Longrightarrow> length (vop3a_SRC0 l) = 64 \<Longrightarrow> length (vop3a_SRC1 l) = 64 \<Longrightarrow> length (vop3a_SRC2 l) = 64 \<Longrightarrow> AsVOP3A (setVOP3A l sp) = l"
  by (simp_all add: AsVOP3A_def setVOP3A_def)

record VOP3BLayout =
  vop3b_EXEC :: u64
  vop3b_DST :: "u64 list"
  vop3b_VCC :: u64
  vop3b_SRC0 :: "u64 list"
  vop3b_SRC1 :: "u64 list"
  vop3b_SRC2 :: "u64 list"
  vop3b_SDST :: u64

definition AsVOP3B :: "scratchpad \<Rightarrow> VOP3BLayout" where
  "AsVOP3B sp = \<lparr>vop3b_EXEC = get64 0 sp, vop3b_DST = get64s 8 sp, vop3b_VCC = get64 520 sp, vop3b_SRC0 = get64s 528 sp, vop3b_SRC1 = get64s 1040 sp, vop3b_SRC2 = get64s 1552 sp, vop3b_SDST = get64 2064 sp\<rparr>"

definition setVOP3B :: "VOP3BLayout \<Rightarrow> scratchpad \<Rightarrow> scratchpad" where
  "setVOP3B l sp = put64 2064 (vop3b_SDST l) (put64s 1552 (vop3b_SRC2 l) (put64s 1040 (vop3b_SRC1 l) (put64s 528 (vop3b_SRC0 l) (put64 520 (vop3b_VCC l) (put64s 8 (vop3b_DST l) (put64 0 (vop3b_EXEC l) sp))))))"

lemma VOP3B_laws:
  "sp_ok sp \<Longrightarrow> length (vop3b_DST l) = 64 \<Longrightarrow> length (vop3b_SRC0 l) = 64 \<Longrightarrow> length (vop3b_SRC1 l) = 64 \<Longrightarrow> length (vop3b_SRC2 l) = 64 \<Longrightarrow> sp_ok (setVOP3B l sp)"
  "sp_ok sp \<Longrightarrow> length (vop3b_DST l) = 64 \<Longrightarrow> length (vop3b_SRC0 l) = 64 \<Longrightarrow> length (vop3b_SRC1 l) = 64 \<Longrightarrow> length (vop3b_SRC2 l) = 64 \<Longrightarrow> AsVOP3B (setVOP3B l sp) = l"
  by (simp_all add: AsVOP3B_def setVOP3B_def)

record VOPCLayout =
  vopc_EXEC :: u64
  vopc_VCC :: u64
  vopc_SRC0 :: "u64 list"
  vopc_SRC1 :: "u64 list"

definition AsVOPC :: "scratchpad \<Rightarrow> VOPCLayout" where
  "AsVOPC sp = \<lparr>vopc_EXEC = get64 0 sp, vopc_VCC = get64 8 sp, vopc_SRC0 = get64s 16 sp, vopc_SRC1 = get64s 528 sp\<rparr>"

definition setVOPC :: "VOPCLayout \<Rightarrow> scratchpad \<Rightarrow> scratchpad" where
  "setVOPC l sp = put64s 528 (vopc_SRC1 l) (put64s 16 (vopc_SRC0 l) (put64 8 (vopc_VCC l) (put64 0 (vopc_EXEC l) sp)))"

lemma VOPC_laws:
  "sp_ok sp \<Longrightarrow> length (vopc_SRC0 l) = 64 \<Longrightarrow> length (vopc_SRC1 l) = 64 \<Longrightarrow> sp_ok (setVOPC l sp)"
  "sp_ok sp \<Longrightarrow> length (vopc_SRC0 l) = 64 \<Longrightarrow> length (vopc_SRC1 l) = 64 \<Longrightarrow> AsVOPC (setVOPC l sp) = l"
  by (simp_all add: AsVOPC_def setVOPC_def)

section \<open>Operands\<close>

text \<open>
  \<^verbatim>\<open>readOperand\<close> copies into \<^verbatim>\<open>buf\<close>, which every caller passes as \<^verbatim>\<open>sp[off:off+n]\<close>; a \<^verbatim>\<open>nil\<close> operand is
  dereferenced.
\<close>

fun operand_bytes :: "Operand option \<Rightarrow> nat \<Rightarrow> Wavefront \<Rightarrow> byte list result" where
  "operand_bytes None laneID wv = Inl NilDereference"
| "operand_bytes (Some (RegOperand r c)) laneID wv = ReadReg r c laneID wv"
| "operand_bytes (Some (IntOperand v)) laneID wv = Inr (Uint64ToBytes v)"
| "operand_bytes (Some (FloatOperand f)) laneID wv = Inr (Uint64ToBytes (ucast f))"
| "operand_bytes (Some (LiteralConstant l)) laneID wv = Inr (Uint32ToBytes l)"
| "operand_bytes (Some InvalidOperand) laneID wv = Inl (Panic ''Operand is not supported'')"

definition readOperand :: "Operand option \<Rightarrow> Wavefront \<Rightarrow> nat \<Rightarrow> nat \<Rightarrow> nat \<Rightarrow> scratchpad \<Rightarrow> scratchpad result" where
  "readOperand operand wv laneID off n sp = bindR (operand_bytes operand laneID wv) (\<lambda>d. Inr (copy_at sp off (take n d)))"

fun writeOperand :: "Operand option \<Rightarrow> nat \<Rightarrow> byte list \<Rightarrow> Wavefront \<Rightarrow> Wavefront result" where
  "writeOperand None laneID buf wv = Inl NilDereference"
| "writeOperand (Some (RegOperand r c)) laneID buf wv = WriteReg r c laneID buf wv"
| "writeOperand (Some _) laneID buf wv = Inl (Panic ''Can only write into reg operand'')"

definition clear :: "scratchpad \<Rightarrow> scratchpad" where
  "clear buf = replicate (length buf) 0"

end
