(* ===== verification/Emu_Scalar.thy ===== *)
theory Emu_Scalar
  imports Emu_Scratchpad
begin

text \<open>
  The scalar instructions of the emulator: the operations of \<^verbatim>\<open>mgpusim/emu/alusop1.go\<close>, \<^verbatim>\<open>alusop2.go\<close>,
  \<^verbatim>\<open>alusopc.go\<close>, \<^verbatim>\<open>alusopk.go\<close> and the branches of \<^verbatim>\<open>alu.go\<close>, with the functions of
  \<^verbatim>\<open>scratchpadpreparer.go\<close> that move their operands into and out of the scratchpad.

  An operation on a layout struct is a function on its record; the few operations that the
  source writes on the raw bytes are functions on the scratchpad. The opcode switches are
  tables. A Go shift by at least the width gives zero (or the sign), as \<open>push_bit\<close>, \<open>drop_bit\<close>
  and \<open>signed_drop_bit\<close> do.
\<close>

section \<open>Conversions\<close>

text \<open>\<^verbatim>\<open>asInt16\<close>, \<^verbatim>\<open>asInt32\<close> read the same bits as a signed number.\<close>

definition asInt16 :: "16 word \<Rightarrow> int" where
  "asInt16 bits = sint bits"

definition asInt32 :: "u32 \<Rightarrow> int" where
  "asInt32 bits = sint bits"

definition lo32 :: "u64 \<Rightarrow> u32" where
  "lo32 v = ucast v"

text \<open>\<^verbatim>\<open>if b { 1 } else { 0 }\<close>.\<close>

definition flag :: "bool \<Rightarrow> byte" where
  "flag b = (if b then 1 else 0)"

definition ExtractBitsFromU32 :: "u32 \<Rightarrow> nat \<Rightarrow> nat \<Rightarrow> u32" where
  "ExtractBitsFromU32 num loInclude hiInclude =
     (let m = push_bit loInclude (push_bit (hiInclude - loInclude + 1) 1 - 1) in drop_bit loInclude (num AND m))"

definition ExtractBitsFromU64 :: "u64 \<Rightarrow> nat \<Rightarrow> nat \<Rightarrow> u64" where
  "ExtractBitsFromU64 num loInclude hiInclude =
     (let m = push_bit loInclude (push_bit (hiInclude - loInclude + 1) 1 - 1) in drop_bit loInclude (num AND m))"

definition SignExt :: "u64 \<Rightarrow> nat \<Rightarrow> u64" where
  "SignExt num signBit =
     (let m = NOT (push_bit (signBit + 1) 1 - 1); sign = drop_bit signBit num AND 1
      in if 0 < sign then num OR m else num AND NOT m)"

text \<open>The opcode switch of a format.\<close>

definition dispatch :: "string \<Rightarrow> (nat \<times> 'a) list \<Rightarrow> nat \<Rightarrow> 'a result" where
  "dispatch msg table opc = (case map_of table opc of None \<Rightarrow> Inl (Panic msg) | Some f \<Rightarrow> Inr f)"

section \<open>SOP1\<close>

definition runSMOVB32 :: "SOP1Layout \<Rightarrow> SOP1Layout" where
  "runSMOVB32 sp = sp\<lparr>sop1_DST := sop1_SRC0 sp\<rparr>"

definition runSMOVB64 :: "SOP1Layout \<Rightarrow> SOP1Layout" where
  "runSMOVB64 sp = sp\<lparr>sop1_DST := sop1_SRC0 sp\<rparr>"

definition runSNOTU32 :: "SOP1Layout \<Rightarrow> SOP1Layout" where
  "runSNOTU32 sp = (let dst = NOT (sop1_SRC0 sp) in
     sp\<lparr>sop1_DST := dst, sop1_SCC := (if dst \<noteq> 0 then 1 else sop1_SCC sp)\<rparr>)"

definition brev_loop :: "u32 \<Rightarrow> u32" where
  "brev_loop src = fold (\<lambda>i dst. dst OR push_bit i (drop_bit (31 - i) (src AND push_bit (31 - i) 1))) [0..<32] 0"

definition runSBREVB32 :: "SOP1Layout \<Rightarrow> SOP1Layout" where
  "runSBREVB32 sp = sp\<lparr>sop1_DST := ucast (brev_loop (lo32 (sop1_SRC0 sp)))\<rparr>"

definition runSGETPCB64 :: "SOP1Layout \<Rightarrow> SOP1Layout" where
  "runSGETPCB64 sp = sp\<lparr>sop1_DST := sop1_PC sp + 4\<rparr>"

definition runSANDSAVEEXECB64 :: "SOP1Layout \<Rightarrow> SOP1Layout" where
  "runSANDSAVEEXECB64 sp =
     (let exec' = sop1_SRC0 sp AND sop1_EXEC sp in sp\<lparr>sop1_DST := sop1_EXEC sp, sop1_EXEC := exec', sop1_SCC := flag (exec' \<noteq> 0)\<rparr>)"

definition runSORSAVEEXECB64 :: "SOP1Layout \<Rightarrow> SOP1Layout" where
  "runSORSAVEEXECB64 sp =
     (let exec' = sop1_SRC0 sp OR sop1_EXEC sp in sp\<lparr>sop1_DST := sop1_EXEC sp, sop1_EXEC := exec', sop1_SCC := flag (exec' \<noteq> 0)\<rparr>)"

definition runSXORSAVEEXECB64 :: "SOP1Layout \<Rightarrow> SOP1Layout" where
  "runSXORSAVEEXECB64 sp =
     (let exec' = sop1_SRC0 sp XOR sop1_EXEC sp in sp\<lparr>sop1_DST := sop1_EXEC sp, sop1_EXEC := exec', sop1_SCC := flag (exec' \<noteq> 0)\<rparr>)"

definition runSANDN2SAVEEXECB64 :: "SOP1Layout \<Rightarrow> SOP1Layout" where
  "runSANDN2SAVEEXECB64 sp =
     (let exec' = sop1_SRC0 sp AND NOT (sop1_EXEC sp) in sp\<lparr>sop1_DST := sop1_EXEC sp, sop1_EXEC := exec', sop1_SCC := flag (exec' \<noteq> 0)\<rparr>)"

definition runSORN2SAVEEXECB64 :: "SOP1Layout \<Rightarrow> SOP1Layout" where
  "runSORN2SAVEEXECB64 sp =
     (let exec' = sop1_SRC0 sp OR NOT (sop1_EXEC sp) in sp\<lparr>sop1_DST := sop1_EXEC sp, sop1_EXEC := exec', sop1_SCC := flag (exec' \<noteq> 0)\<rparr>)"

definition runSNANDSAVEEXECB64 :: "SOP1Layout \<Rightarrow> SOP1Layout" where
  "runSNANDSAVEEXECB64 sp =
     (let exec' = NOT (sop1_SRC0 sp AND sop1_EXEC sp) in sp\<lparr>sop1_DST := sop1_EXEC sp, sop1_EXEC := exec', sop1_SCC := flag (exec' \<noteq> 0)\<rparr>)"

definition runSNORSAVEEXECB64 :: "SOP1Layout \<Rightarrow> SOP1Layout" where
  "runSNORSAVEEXECB64 sp =
     (let exec' = NOT (sop1_SRC0 sp OR sop1_EXEC sp) in sp\<lparr>sop1_DST := sop1_EXEC sp, sop1_EXEC := exec', sop1_SCC := flag (exec' \<noteq> 0)\<rparr>)"

definition runSNXORSAVEEXECB64 :: "SOP1Layout \<Rightarrow> SOP1Layout" where
  "runSNXORSAVEEXECB64 sp =
     (let exec' = NOT (sop1_SRC0 sp XOR sop1_EXEC sp) in sp\<lparr>sop1_DST := sop1_EXEC sp, sop1_EXEC := exec', sop1_SCC := flag (exec' \<noteq> 0)\<rparr>)"

definition runSOP1 :: "nat \<Rightarrow> scratchpad \<Rightarrow> scratchpad result" where
  "runSOP1 opc sp = bindR (dispatch ''Opcode for SOP1 format is not implemented''
     [(0, runSMOVB32), (1, runSMOVB64), (4, runSNOTU32), (8, runSBREVB32), (28, runSGETPCB64), (32, runSANDSAVEEXECB64),
      (33, runSORSAVEEXECB64), (34, runSXORSAVEEXECB64), (35, runSANDN2SAVEEXECB64), (36, runSORN2SAVEEXECB64),
      (37, runSNANDSAVEEXECB64), (38, runSNORSAVEEXECB64), (39, runSNXORSAVEEXECB64)] opc)
     (\<lambda>f. Inr (setSOP1 (f (AsSOP1 sp)) sp))"

section \<open>SOP2\<close>

text \<open>Three operations work on the bytes: they read the low halves and write four bytes of the destination.\<close>

definition runSADDU32 :: "scratchpad \<Rightarrow> scratchpad" where
  "runSADDU32 sp =
     (let src0 = get32 0 sp; src1 = get32 8 sp; dst = src0 + src1; scc = flag (src0 > 0xffffffff - src1)
      in put8 24 scc (put32 16 dst sp))"

definition runSADDI32 :: "scratchpad \<Rightarrow> scratchpad" where
  "runSADDI32 sp =
     (let src0 = get32 0 sp; src1 = get32 8 sp; dst = src0 + src1; scc = flag (src0 > 0xffffffff - src1)
      in put8 24 scc (put32 16 dst sp))"

definition runSADDCU32 :: "scratchpad \<Rightarrow> scratchpad" where
  "runSADDCU32 sp =
     (let src0 = get32 0 sp; src1 = get32 8 sp; scc = get8 24 sp; dst = src0 + src1 + ucast scc;
          scc' = (if src0 < 0xffffffff - ucast scc - src1 then 0 else 1)
      in put8 24 scc' (put32 16 dst sp))"

definition runSSUBU32 :: "SOP2Layout \<Rightarrow> SOP2Layout" where
  "runSSUBU32 sp = (if sop2_SRC0 sp < sop2_SRC1 sp then sp\<lparr>sop2_SCC := 1\<rparr> else sp)
     \<lparr>sop2_DST := sop2_SRC0 sp - sop2_SRC1 sp\<rparr>"

definition runSSUBI32 :: "SOP2Layout \<Rightarrow> SOP2Layout" where
  "runSSUBI32 sp =
     (let src0 = asInt32 (lo32 (sop2_SRC0 sp)); src1 = asInt32 (lo32 (sop2_SRC1 sp));
          dst = lo32 (sop2_SRC0 sp) - lo32 (sop2_SRC1 sp)
      in sp\<lparr>sop2_SCC := flag (0 < src1 \<and> src0 < asInt32 dst \<or> src1 < 0 \<and> asInt32 dst < src0), sop2_DST := ucast dst\<rparr>)"

definition runSSUBBU32 :: "SOP2Layout \<Rightarrow> SOP2Layout" where
  "runSSUBBU32 sp =
     sp\<lparr>sop2_DST := sop2_SRC0 sp - sop2_SRC1 sp - ucast (sop2_SCC sp),
        sop2_SCC := flag (sop2_SRC0 sp < sop2_SRC1 sp + ucast (sop2_SCC sp))\<rparr>"

definition runSMINI32 :: "SOP2Layout \<Rightarrow> SOP2Layout" where
  "runSMINI32 sp =
     (if asInt32 (lo32 (sop2_SRC0 sp)) < asInt32 (lo32 (sop2_SRC1 sp)) then sp\<lparr>sop2_DST := sop2_SRC0 sp, sop2_SCC := 1\<rparr>
      else sp\<lparr>sop2_DST := sop2_SRC1 sp\<rparr>)"

definition runSMINU32 :: "SOP2Layout \<Rightarrow> SOP2Layout" where
  "runSMINU32 sp =
     (if sop2_SRC0 sp < sop2_SRC1 sp then sp\<lparr>sop2_DST := sop2_SRC0 sp, sop2_SCC := 1\<rparr>
      else sp\<lparr>sop2_DST := sop2_SRC1 sp\<rparr>)"

definition runSMAXI32 :: "SOP2Layout \<Rightarrow> SOP2Layout" where
  "runSMAXI32 sp =
     (if asInt32 (lo32 (sop2_SRC0 sp)) > asInt32 (lo32 (sop2_SRC1 sp)) then sp\<lparr>sop2_DST := sop2_SRC0 sp, sop2_SCC := 1\<rparr>
      else sp\<lparr>sop2_DST := sop2_SRC1 sp\<rparr>)"

definition runSMAXU32 :: "SOP2Layout \<Rightarrow> SOP2Layout" where
  "runSMAXU32 sp =
     (if sop2_SRC0 sp > sop2_SRC1 sp then sp\<lparr>sop2_DST := sop2_SRC0 sp, sop2_SCC := 1\<rparr>
      else sp\<lparr>sop2_DST := sop2_SRC1 sp\<rparr>)"

definition runSCSELECTB32 :: "SOP2Layout \<Rightarrow> SOP2Layout" where
  "runSCSELECTB32 sp = sp\<lparr>sop2_DST := (if sop2_SCC sp = 1 then sop2_SRC0 sp else sop2_SRC1 sp)\<rparr>"

definition runSCSELECTB64 :: "SOP2Layout \<Rightarrow> SOP2Layout" where
  "runSCSELECTB64 sp = sp\<lparr>sop2_DST := (if sop2_SCC sp = 1 then sop2_SRC0 sp else sop2_SRC1 sp)\<rparr>"

definition runSANDB32 :: "SOP2Layout \<Rightarrow> SOP2Layout" where
  "runSANDB32 sp = (let dst = sop2_SRC0 sp AND sop2_SRC1 sp in sp\<lparr>sop2_DST := dst, sop2_SCC := flag (dst \<noteq> 0)\<rparr>)"

definition runSANDB64 :: "SOP2Layout \<Rightarrow> SOP2Layout" where
  "runSANDB64 sp = (let dst = sop2_SRC0 sp AND sop2_SRC1 sp in sp\<lparr>sop2_DST := dst, sop2_SCC := flag (dst \<noteq> 0)\<rparr>)"

definition runSORB32 :: "SOP2Layout \<Rightarrow> SOP2Layout" where
  "runSORB32 sp = (let dst = sop2_SRC0 sp OR sop2_SRC1 sp in sp\<lparr>sop2_DST := dst, sop2_SCC := flag (dst \<noteq> 0)\<rparr>)"

definition runSORB64 :: "SOP2Layout \<Rightarrow> SOP2Layout" where
  "runSORB64 sp = (let dst = sop2_SRC0 sp OR sop2_SRC1 sp in sp\<lparr>sop2_DST := dst, sop2_SCC := flag (dst \<noteq> 0)\<rparr>)"

definition runSXORB64 :: "SOP2Layout \<Rightarrow> SOP2Layout" where
  "runSXORB64 sp = (let dst = sop2_SRC0 sp XOR sop2_SRC1 sp in sp\<lparr>sop2_DST := dst, sop2_SCC := flag (dst \<noteq> 0)\<rparr>)"

definition runSANDN2B64 :: "SOP2Layout \<Rightarrow> SOP2Layout" where
  "runSANDN2B64 sp = (let dst = sop2_SRC0 sp AND NOT (sop2_SRC1 sp) in sp\<lparr>sop2_DST := dst, sop2_SCC := flag (dst \<noteq> 0)\<rparr>)"

definition runSLSHLB32 :: "SOP2Layout \<Rightarrow> SOP2Layout" where
  "runSLSHLB32 sp = (let dst = (ucast (push_bit (unat ((ucast (sop2_SRC1 sp) :: byte) AND 0x1f)) (lo32 (sop2_SRC0 sp))) :: u64) in sp\<lparr>sop2_DST := dst, sop2_SCC := flag (dst \<noteq> 0)\<rparr>)"

definition runSLSHLB64 :: "SOP2Layout \<Rightarrow> SOP2Layout" where
  "runSLSHLB64 sp = (let dst = push_bit (unat ((ucast (sop2_SRC1 sp) :: byte) AND 0x3f)) (sop2_SRC0 sp) in sp\<lparr>sop2_DST := dst, sop2_SCC := flag (dst \<noteq> 0)\<rparr>)"

definition runSLSHRB32 :: "SOP2Layout \<Rightarrow> SOP2Layout" where
  "runSLSHRB32 sp = (let dst = drop_bit (unat (sop2_SRC1 sp AND 0x1f)) (sop2_SRC0 sp) in sp\<lparr>sop2_DST := dst, sop2_SCC := flag (dst \<noteq> 0)\<rparr>)"

definition runSLSHRB64 :: "SOP2Layout \<Rightarrow> SOP2Layout" where
  "runSLSHRB64 sp = (let dst = drop_bit (unat (sop2_SRC1 sp AND 0x3f)) (sop2_SRC0 sp) in sp\<lparr>sop2_DST := dst, sop2_SCC := flag (dst \<noteq> 0)\<rparr>)"

definition runSASHRI32 :: "SOP2Layout \<Rightarrow> SOP2Layout" where
  "runSASHRI32 sp = (let dst = (ucast (signed_drop_bit (unat (ucast (sop2_SRC1 sp) :: byte)) (lo32 (sop2_SRC0 sp))) :: u64) in sp\<lparr>sop2_DST := dst, sop2_SCC := flag (dst \<noteq> 0)\<rparr>)"

definition runSBFMB32 :: "SOP2Layout \<Rightarrow> SOP2Layout" where
  "runSBFMB32 sp =
     sp\<lparr>sop2_DST := push_bit (unat (sop2_SRC1 sp AND 0x1f)) (push_bit (unat (sop2_SRC0 sp AND 0x1f)) 1 - 1)\<rparr>"

text \<open>Go's division truncates; \<^verbatim>\<open>MinInt32 / -1\<close> wraps to \<^verbatim>\<open>MinInt32\<close>.\<close>

definition int32_div :: "u32 \<Rightarrow> u32 \<Rightarrow> u32" where
  "int32_div a b = word_of_int (sgn (sint a) * sgn (sint b) * (\<bar>sint a\<bar> div \<bar>sint b\<bar>))"

definition runSMULI32 :: "SOP2Layout \<Rightarrow> SOP2Layout" where
  "runSMULI32 sp =
     (let src0 = lo32 (sop2_SRC0 sp); src1 = lo32 (sop2_SRC1 sp); dst = src0 * src1
      in sp\<lparr>sop2_DST := ucast dst, sop2_SCC := (if src0 \<noteq> 0 \<and> int32_div dst src0 \<noteq> src1 then 1 else sop2_SCC sp)\<rparr>)"

definition runSBFEU32 :: "SOP2Layout \<Rightarrow> SOP2Layout" where
  "runSBFEU32 sp =
     (let src0 = lo32 (sop2_SRC0 sp); src1 = lo32 (sop2_SRC1 sp); offset = unat (ExtractBitsFromU32 src1 0 4);
          width = unat (ExtractBitsFromU32 src1 16 22); dst = signed_drop_bit offset src0 AND (push_bit width 1 - 1)
      in sp\<lparr>sop2_DST := ucast dst, sop2_SCC := flag (dst \<noteq> 0)\<rparr>)"

definition runSBFEI32 :: "SOP2Layout \<Rightarrow> SOP2Layout" where
  "runSBFEI32 sp =
     (let src0 = lo32 (sop2_SRC0 sp); src1 = lo32 (sop2_SRC1 sp); offset = unat (ExtractBitsFromU32 src1 0 4);
          width = unat (ExtractBitsFromU32 src1 16 22); dst = signed_drop_bit offset src0 AND (push_bit width 1 - 1)
      in sp\<lparr>sop2_DST := ucast dst, sop2_SCC := flag (dst \<noteq> 0)\<rparr>)"

definition onSOP2 :: "(SOP2Layout \<Rightarrow> SOP2Layout) \<Rightarrow> scratchpad \<Rightarrow> scratchpad" where
  "onSOP2 f sp = setSOP2 (f (AsSOP2 sp)) sp"

definition sop2_table :: "(nat \<times> (scratchpad \<Rightarrow> scratchpad)) list" where
  "sop2_table =
     [(0, runSADDU32), (1, onSOP2 runSSUBU32), (2, runSADDI32), (3, onSOP2 runSSUBI32), (4, runSADDCU32),
      (5, onSOP2 runSSUBBU32), (6, onSOP2 runSMINI32), (7, onSOP2 runSMINU32), (8, onSOP2 runSMAXI32), (9, onSOP2 runSMAXU32),
      (10, onSOP2 runSCSELECTB32), (11, onSOP2 runSCSELECTB64), (12, onSOP2 runSANDB32), (13, onSOP2 runSANDB64),
      (14, onSOP2 runSORB32), (15, onSOP2 runSORB64), (16, onSOP2 runSXORB64), (17, onSOP2 runSXORB64),
      (19, onSOP2 runSANDN2B64), (28, onSOP2 runSLSHLB32), (29, onSOP2 runSLSHLB64), (30, onSOP2 runSLSHRB32),
      (31, onSOP2 runSLSHRB64), (32, onSOP2 runSASHRI32), (34, onSOP2 runSBFMB32), (36, onSOP2 runSMULI32),
      (37, onSOP2 runSBFEU32), (38, onSOP2 runSBFEI32)]"

definition runSOP2 :: "nat \<Rightarrow> scratchpad \<Rightarrow> scratchpad result" where
  "runSOP2 opc sp = bindR (dispatch ''Opcode for SOP2 format is not implemented'' sop2_table opc) (\<lambda>f. Inr (f sp))"

section \<open>SOPC\<close>

definition runSCMPGTI32 :: "SOPCLayout \<Rightarrow> SOPCLayout" where
  "runSCMPGTI32 sp = sp\<lparr>sopc_SCC := flag (asInt32 (lo32 (sopc_SRC0 sp)) > asInt32 (lo32 (sopc_SRC1 sp)))\<rparr>"

definition runSCMPLTI32 :: "SOPCLayout \<Rightarrow> SOPCLayout" where
  "runSCMPLTI32 sp = sp\<lparr>sopc_SCC := flag (asInt32 (lo32 (sopc_SRC0 sp)) < asInt32 (lo32 (sopc_SRC1 sp)))\<rparr>"

definition runSCMPLEI32 :: "SOPCLayout \<Rightarrow> SOPCLayout" where
  "runSCMPLEI32 sp = sp\<lparr>sopc_SCC := flag (asInt32 (lo32 (sopc_SRC0 sp)) \<le> asInt32 (lo32 (sopc_SRC1 sp)))\<rparr>"

definition runSCMPGEI32 :: "SOPCLayout \<Rightarrow> SOPCLayout" where
  "runSCMPGEI32 sp = sp\<lparr>sopc_SCC := flag (asInt32 (lo32 (sopc_SRC0 sp)) \<ge> asInt32 (lo32 (sopc_SRC1 sp)))\<rparr>"

definition runSCMPEQU32 :: "SOPCLayout \<Rightarrow> SOPCLayout" where
  "runSCMPEQU32 sp = sp\<lparr>sopc_SCC := flag (lo32 (sopc_SRC0 sp) = lo32 (sopc_SRC1 sp))\<rparr>"

definition runSCMPLGU32 :: "SOPCLayout \<Rightarrow> SOPCLayout" where
  "runSCMPLGU32 sp = sp\<lparr>sopc_SCC := flag (lo32 (sopc_SRC0 sp) \<noteq> lo32 (sopc_SRC1 sp))\<rparr>"

definition runSCMPGTU32 :: "SOPCLayout \<Rightarrow> SOPCLayout" where
  "runSCMPGTU32 sp = sp\<lparr>sopc_SCC := flag (lo32 (sopc_SRC0 sp) > lo32 (sopc_SRC1 sp))\<rparr>"

definition runSCMPGEU32 :: "SOPCLayout \<Rightarrow> SOPCLayout" where
  "runSCMPGEU32 sp = sp\<lparr>sopc_SCC := flag (lo32 (sopc_SRC0 sp) \<ge> lo32 (sopc_SRC1 sp))\<rparr>"

definition runSCMPLTU32 :: "SOPCLayout \<Rightarrow> SOPCLayout" where
  "runSCMPLTU32 sp = sp\<lparr>sopc_SCC := flag (lo32 (sopc_SRC0 sp) < lo32 (sopc_SRC1 sp))\<rparr>"

definition runSCMPEQU64 :: "SOPCLayout \<Rightarrow> SOPCLayout" where
  "runSCMPEQU64 sp = sp\<lparr>sopc_SCC := flag (sopc_SRC0 sp = sopc_SRC1 sp)\<rparr>"

definition runSCMPNEU64 :: "SOPCLayout \<Rightarrow> SOPCLayout" where
  "runSCMPNEU64 sp = sp\<lparr>sopc_SCC := flag (sopc_SRC0 sp \<noteq> sopc_SRC1 sp)\<rparr>"

definition runSOPC :: "nat \<Rightarrow> scratchpad \<Rightarrow> scratchpad result" where
  "runSOPC opc sp = bindR (dispatch ''Opcode for SOPC format is not implemented''
     [(0, runSCMPEQU32), (1, runSCMPLGU32), (2, runSCMPGTI32), (3, runSCMPGEI32), (4, runSCMPLTI32), (5, runSCMPLEI32),
      (6, runSCMPEQU32), (7, runSCMPLGU32), (8, runSCMPGTU32), (9, runSCMPGEU32), (10, runSCMPLTU32),
      (18, runSCMPEQU64), (19, runSCMPEQU64)] opc)
     (\<lambda>f. Inr (setSOPC (f (AsSOPC sp)) sp))"

section \<open>SOPK\<close>

definition imm16 :: "u64 \<Rightarrow> 16 word" where
  "imm16 imm = ucast (imm AND 0xffff)"

definition runSMOVKI32 :: "SOPKLayout \<Rightarrow> SOPKLayout" where
  "runSMOVKI32 sp = sp\<lparr>sopk_DST := scast (imm16 (sopk_IMM sp))\<rparr>"

definition runSCMPKLGI32 :: "SOPKLayout \<Rightarrow> SOPKLayout" where
  "runSCMPKLGI32 sp = sp\<lparr>sopk_SCC := flag (asInt16 (ucast (sopk_DST sp)) \<noteq> asInt16 (imm16 (sopk_IMM sp)))\<rparr>"

definition runSCMPKLTU32 :: "SOPKLayout \<Rightarrow> SOPKLayout" where
  "runSCMPKLTU32 sp = sp\<lparr>sopk_SCC := flag (lo32 (sopk_DST sp) < ucast (imm16 (sopk_IMM sp)))\<rparr>"

definition runSMULKI32 :: "SOPKLayout \<Rightarrow> SOPKLayout" where
  "runSMULKI32 sp = sp\<lparr>sopk_DST := scast ((scast (imm16 (sopk_IMM sp)) :: u32) * lo32 (sopk_DST sp))\<rparr>"

definition runSOPK :: "nat \<Rightarrow> scratchpad \<Rightarrow> scratchpad result" where
  "runSOPK opc sp = bindR (dispatch ''Opcode for SOPK format is not implemented''
     [(0, runSMOVKI32), (3, runSCMPKLGI32), (12, runSCMPKLTU32), (15, runSMULKI32)] opc)
     (\<lambda>f. Inr (setSOPK (f (AsSOPK sp)) sp))"

section \<open>SOPP: branches\<close>

definition branch_if :: "(SOPPLayout \<Rightarrow> bool) \<Rightarrow> SOPPLayout \<Rightarrow> SOPPLayout" where
  "branch_if c sp = (if c sp then sp\<lparr>sopp_PC := sopp_PC sp + scast (imm16 (sopp_IMM sp)) * 4\<rparr> else sp)"

definition runSCBRANCH :: "SOPPLayout \<Rightarrow> SOPPLayout" where
  "runSCBRANCH = branch_if (\<lambda>sp. True)"

definition runSCBRANCHSCC0 :: "SOPPLayout \<Rightarrow> SOPPLayout" where
  "runSCBRANCHSCC0 = branch_if (\<lambda>sp. sopp_SCC sp = 0)"

definition runSCBRANCHSCC1 :: "SOPPLayout \<Rightarrow> SOPPLayout" where
  "runSCBRANCHSCC1 = branch_if (\<lambda>sp. sopp_SCC sp = 1)"

definition runSCBRANCHVCCZ :: "SOPPLayout \<Rightarrow> SOPPLayout" where
  "runSCBRANCHVCCZ = branch_if (\<lambda>sp. sopp_VCC sp = 0)"

definition runSCBRANCHVCCNZ :: "SOPPLayout \<Rightarrow> SOPPLayout" where
  "runSCBRANCHVCCNZ = branch_if (\<lambda>sp. sopp_VCC sp \<noteq> 0)"

definition runSCBRANCHEXECZ :: "SOPPLayout \<Rightarrow> SOPPLayout" where
  "runSCBRANCHEXECZ = branch_if (\<lambda>sp. sopp_EXEC sp = 0)"

definition runSCBRANCHEXECNZ :: "SOPPLayout \<Rightarrow> SOPPLayout" where
  "runSCBRANCHEXECNZ = branch_if (\<lambda>sp. sopp_EXEC sp \<noteq> 0)"

text \<open>\<^verbatim>\<open>S_NOP\<close> and \<^verbatim>\<open>S_WAITCNT\<close> do nothing.\<close>

definition runSOPP :: "nat \<Rightarrow> scratchpad \<Rightarrow> scratchpad result" where
  "runSOPP opc sp = bindR (dispatch ''Opcode for SOPP format is not implemented''
     [(0, id), (2, runSCBRANCH), (4, runSCBRANCHSCC0), (5, runSCBRANCHSCC1), (6, runSCBRANCHVCCZ), (7, runSCBRANCHVCCNZ),
      (8, runSCBRANCHEXECZ), (9, runSCBRANCHEXECNZ), (12, id)] opc)
     (\<lambda>f. Inr (setSOPP (f (AsSOPP sp)) sp))"

section \<open>Moving operands\<close>

text \<open>\<^verbatim>\<open>copy(scratchPad[off:off+n], wf.ReadReg(insts.Regs[t], 1, 0))\<close>.\<close>

definition read_special :: "RegType \<Rightarrow> Wavefront \<Rightarrow> nat \<Rightarrow> nat \<Rightarrow> scratchpad \<Rightarrow> scratchpad result" where
  "read_special t wv off n sp = bindR (ReadReg (Regs t) 1 0 wv) (\<lambda>d. Inr (copy_at sp off (take n d)))"

definition prepareSOP1 :: "Inst \<Rightarrow> Wavefront \<Rightarrow> scratchpad \<Rightarrow> scratchpad result" where
  "prepareSOP1 inst wv sp =
     bindR (readOperand (i_Src0 inst) wv 0 0 8 (put64 32 (wf_PC wv) sp)) (\<lambda>sp.
     bindR (read_special SCC wv 24 1 sp) (read_special EXEC wv 16 8))"

definition prepareSOP2 :: "Inst \<Rightarrow> Wavefront \<Rightarrow> scratchpad \<Rightarrow> scratchpad result" where
  "prepareSOP2 inst wv sp =
     bindR (readOperand (i_Src0 inst) wv 0 0 8 sp) (\<lambda>sp.
     bindR (readOperand (i_Src1 inst) wv 0 8 8 sp) (read_special SCC wv 24 1))"

definition prepareSOPC :: "Inst \<Rightarrow> Wavefront \<Rightarrow> scratchpad \<Rightarrow> scratchpad result" where
  "prepareSOPC inst wv sp =
     bindR (readOperand (i_Src0 inst) wv 0 0 8 sp) (readOperand (i_Src1 inst) wv 0 8 8)"

definition prepareSOPP :: "Inst \<Rightarrow> Wavefront \<Rightarrow> scratchpad \<Rightarrow> scratchpad result" where
  "prepareSOPP inst wv sp =
     readOperand (i_SImm16 inst) wv 0 16 8
       (put64 32 (wf_VCC wv) (put64 0 (wf_Exec wv) (put8 24 (wf_SCC wv) (put64 8 (wf_PC wv) sp))))"

definition prepareSOPK :: "Inst \<Rightarrow> Wavefront \<Rightarrow> scratchpad \<Rightarrow> scratchpad result" where
  "prepareSOPK inst wv sp =
     bindR (readOperand (i_Dst inst) wv 0 0 8 (put8 16 (wf_SCC wv) sp)) (readOperand (i_SImm16 inst) wv 0 8 8)"

definition prepareSMEM :: "Inst \<Rightarrow> Wavefront \<Rightarrow> scratchpad \<Rightarrow> scratchpad result" where
  "prepareSMEM inst wv sp =
     bindR (if 16 \<le> i_Opcode inst \<and> i_Opcode inst \<le> 26 then readOperand (i_Data inst) wv 0 0 16 sp else Inr sp) (\<lambda>sp.
     bindR (readOperand (i_Offset inst) wv 0 16 8 sp) (readOperand (i_Base inst) wv 0 24 8))"

definition commitSOP1 :: "Inst \<Rightarrow> scratchpad \<Rightarrow> Wavefront \<Rightarrow> Wavefront result" where
  "commitSOP1 inst sp wv =
     bindR (writeOperand (i_Dst inst) 0 (take 8 (drop 8 sp)) wv) (\<lambda>wv.
     bindR (WriteReg (Regs EXEC) 1 0 (take 8 (drop 16 sp)) wv) (\<lambda>wv.
     bindR (WriteReg (Regs SCC) 1 0 (take 1 (drop 24 sp)) wv) (\<lambda>wv.
     Inr (wv\<lparr>wf_PC := sop1_PC (AsSOP1 sp)\<rparr>))))"

definition commitSOP2 :: "Inst \<Rightarrow> scratchpad \<Rightarrow> Wavefront \<Rightarrow> Wavefront result" where
  "commitSOP2 inst sp wv =
     bindR (writeOperand (i_Dst inst) 0 (take 8 (drop 16 sp)) wv) (WriteReg (Regs SCC) 1 0 (take 1 (drop 24 sp)))"

definition commitSOPC :: "scratchpad \<Rightarrow> Wavefront \<Rightarrow> Wavefront result" where
  "commitSOPC sp wv = Inr (wv\<lparr>wf_SCC := sopc_SCC (AsSOPC sp)\<rparr>)"

definition commitSOPP :: "scratchpad \<Rightarrow> Wavefront \<Rightarrow> Wavefront result" where
  "commitSOPP sp wv = Inr (wv\<lparr>wf_PC := sopp_PC (AsSOPP sp)\<rparr>)"

definition commitSOPK :: "Inst \<Rightarrow> scratchpad \<Rightarrow> Wavefront \<Rightarrow> Wavefront result" where
  "commitSOPK inst sp wv =
     bindR (writeOperand (i_Dst inst) 0 (take 8 sp) wv) (\<lambda>wv. Inr (wv\<lparr>wf_SCC := sopk_SCC (AsSOPK sp)\<rparr>))"

definition commitSMEM :: "Inst \<Rightarrow> scratchpad \<Rightarrow> Wavefront \<Rightarrow> Wavefront result" where
  "commitSMEM inst sp wv =
     (if i_Opcode inst \<le> 12 then writeOperand (i_Data inst) 0 (take 64 (drop 32 sp)) wv else Inr wv)"

section \<open>The prepared scratchpad\<close>

lemma le_word_pad [simp]: "le_word (bs @ replicate k 0) = le_word bs"
  by (rule bit_word_eqI) (auto simp: bit_le_word nth_append)

lemma sp_ok_copy [simp]: "sp_ok sp \<Longrightarrow> off + n \<le> 4096 \<Longrightarrow> sp_ok (copy_at sp off (take n d))"
  by (simp add: sp_ok_def)

lemma sp_ok_clear [simp]: "sp_ok sp \<Longrightarrow> sp_ok (clear sp)"
  by (simp add: sp_ok_def clear_def)

lemma get_clear [simp]:
  "off + 8 \<le> 4096 \<Longrightarrow> sp_ok sp \<Longrightarrow> get64 off (clear sp) = 0" "off < 4096 \<Longrightarrow> sp_ok sp \<Longrightarrow> get8 off (clear sp) = 0"
  using le_word_pad [of "[]"] by (simp_all add: get64_def get8_def clear_def sp_ok_def)

text \<open>The value an operand has as a 64-bit number.\<close>

definition operand_value :: "Operand option \<Rightarrow> nat \<Rightarrow> Wavefront \<Rightarrow> u64 result" where
  "operand_value opd lane wv = bindR (operand_bytes opd lane wv) (\<lambda>d. Inr (le_word (take 8 d)))"

lemma get64_copy:
  assumes "sp_ok sp" "off + 8 \<le> 4096" "get64 off sp = 0"
  shows "get64 off (copy_at sp off (take 8 d)) = le_word (take 8 d)"
proof (rule bit_word_eqI)
  fix n
  assume n: "n < LENGTH(64)"
  then have n8: "n div 8 < 8" by (simp add: less_mult_imp_div_less)
  let ?t = "take 8 d"
  have z: "\<not> bit (sp ! (off + n div 8)) (n mod 8)"
    using arg_cong [OF assms(3), of "\<lambda>w. bit w n"] n n8 assms(1,2) by (simp add: get64_def bit_le_word sp_ok_def)
  have "bit (get64 off (copy_at sp off ?t)) n \<longleftrightarrow> bit (copy_at sp off ?t ! (off + n div 8)) (n mod 8)"
    using n n8 assms(1,2) by (simp add: get64_def bit_le_word sp_ok_def)
  also have "\<dots> \<longleftrightarrow> n div 8 < length ?t \<and> bit (?t ! (n div 8)) (n mod 8)"
    using n n8 assms(1,2) z by (simp add: nth_copy_at sp_ok_def)
  finally show "bit (get64 off (copy_at sp off ?t)) n = bit (le_word ?t :: u64) n" using n by (auto simp: bit_le_word)
qed

lemma get64_copy_other:
  assumes "sp_ok sp" "off + n \<le> 4096" "a + 8 \<le> off \<or> off + n \<le> a"
  shows "get64 a (copy_at sp off (take n d)) = get64 a sp"
proof -
  have "off + length (take n d) \<le> length sp" using assms(1,2) by (simp add: sp_ok_def)
  moreover have "a + 8 \<le> off \<or> off + length (take n d) \<le> a" using assms(3) by auto
  ultimately show ?thesis by (simp only: get64_def copy_at_read_other)
qed

lemma get8_copy_other:
  assumes "sp_ok sp" "off + n \<le> 4096" "a < 4096" "a < off \<or> off + n \<le> a"
  shows "get8 a (copy_at sp off (take n d)) = get8 a sp"
  using assms by (auto simp: get8_def sp_ok_def nth_copy_at)

lemmas copy_simps = get64_copy get64_copy_other get8_copy_other

lemma read_special_eqs [simp]:
  "read_special SCC wv off (Suc 0) sp = Inr (put8 off (wf_SCC wv) sp)"
  "read_special EXEC wv off 8 sp = Inr (put64 off (wf_Exec wv) sp)"
  "read_special VCC wv off 8 sp = Inr (put64 off (wf_VCC wv) sp)"
  by (simp_all add: read_special_def ReadReg_def Let_def reg_bytes_def put8_def put64_def)

lemma readOperand_value:
  assumes "operand_value opd lane wv = Inr v"
  shows "\<exists>d. v = le_word (take 8 d) \<and> (\<forall>off sp. readOperand opd wv lane off 8 sp = Inr (copy_at sp off (take 8 d)))"
  using assms by (auto simp: operand_value_def readOperand_def bindR_eq_Inr)

lemma prepareSOP1_view:
  assumes "sp_ok sp" "operand_value (i_Src0 inst) 0 wv = Inr a"
  shows "\<exists>sp'. prepareSOP1 inst wv (clear sp) = Inr sp' \<and> sp_ok sp' \<and>
    AsSOP1 sp' = \<lparr>sop1_SRC0 = a, sop1_DST = 0, sop1_EXEC = wf_Exec wv, sop1_SCC = wf_SCC wv, sop1_PC = wf_PC wv\<rparr>"
proof -
  obtain d where d: "a = le_word (take 8 d)"
    "\<forall>off sp. readOperand (i_Src0 inst) wv 0 off 8 sp = Inr (copy_at sp off (take 8 d))"
    using readOperand_value [OF assms(2)] by blast
  show ?thesis using assms(1) by (simp add: prepareSOP1_def d AsSOP1_def copy_simps)
qed

lemma prepareSOP2_view:
  assumes "sp_ok sp" "operand_value (i_Src0 inst) 0 wv = Inr a" "operand_value (i_Src1 inst) 0 wv = Inr b"
  shows "\<exists>sp'. prepareSOP2 inst wv (clear sp) = Inr sp' \<and> sp_ok sp' \<and>
    AsSOP2 sp' = \<lparr>sop2_SRC0 = a, sop2_SRC1 = b, sop2_DST = 0, sop2_SCC = wf_SCC wv\<rparr>"
proof -
  obtain d where d: "a = le_word (take 8 d)"
    "\<forall>off sp. readOperand (i_Src0 inst) wv 0 off 8 sp = Inr (copy_at sp off (take 8 d))"
    using readOperand_value [OF assms(2)] by blast
  obtain e where e: "b = le_word (take 8 e)"
    "\<forall>off sp. readOperand (i_Src1 inst) wv 0 off 8 sp = Inr (copy_at sp off (take 8 e))"
    using readOperand_value [OF assms(3)] by blast
  show ?thesis using assms(1) by (simp add: prepareSOP2_def d e AsSOP2_def copy_simps)
qed

lemma prepareSOPC_view:
  assumes "sp_ok sp" "operand_value (i_Src0 inst) 0 wv = Inr a" "operand_value (i_Src1 inst) 0 wv = Inr b"
  shows "\<exists>sp'. prepareSOPC inst wv (clear sp) = Inr sp' \<and> sp_ok sp' \<and>
    AsSOPC sp' = \<lparr>sopc_SRC0 = a, sopc_SRC1 = b, sopc_SCC = 0\<rparr>"
proof -
  obtain d where d: "a = le_word (take 8 d)"
    "\<forall>off sp. readOperand (i_Src0 inst) wv 0 off 8 sp = Inr (copy_at sp off (take 8 d))"
    using readOperand_value [OF assms(2)] by blast
  obtain e where e: "b = le_word (take 8 e)"
    "\<forall>off sp. readOperand (i_Src1 inst) wv 0 off 8 sp = Inr (copy_at sp off (take 8 e))"
    using readOperand_value [OF assms(3)] by blast
  show ?thesis using assms(1) by (simp add: prepareSOPC_def d e AsSOPC_def copy_simps)
qed

lemma prepareSOPP_view:
  assumes "sp_ok sp" "operand_value (i_SImm16 inst) 0 wv = Inr a"
  shows "\<exists>sp'. prepareSOPP inst wv (clear sp) = Inr sp' \<and> sp_ok sp' \<and>
    AsSOPP sp' = \<lparr>sopp_EXEC = wf_Exec wv, sopp_PC = wf_PC wv, sopp_IMM = a, sopp_SCC = wf_SCC wv, sopp_VCC = wf_VCC wv\<rparr>"
proof -
  obtain d where d: "a = le_word (take 8 d)"
    "\<forall>off sp. readOperand (i_SImm16 inst) wv 0 off 8 sp = Inr (copy_at sp off (take 8 d))"
    using readOperand_value [OF assms(2)] by blast
  show ?thesis using assms(1) by (simp add: prepareSOPP_def d AsSOPP_def copy_simps)
qed

lemma prepareSOPK_view:
  assumes "sp_ok sp" "operand_value (i_Dst inst) 0 wv = Inr a" "operand_value (i_SImm16 inst) 0 wv = Inr b"
  shows "\<exists>sp'. prepareSOPK inst wv (clear sp) = Inr sp' \<and> sp_ok sp' \<and>
    AsSOPK sp' = \<lparr>sopk_DST = a, sopk_IMM = b, sopk_SCC = wf_SCC wv\<rparr>"
proof -
  obtain d where d: "a = le_word (take 8 d)"
    "\<forall>off sp. readOperand (i_Dst inst) wv 0 off 8 sp = Inr (copy_at sp off (take 8 d))"
    using readOperand_value [OF assms(2)] by blast
  obtain e where e: "b = le_word (take 8 e)"
    "\<forall>off sp. readOperand (i_SImm16 inst) wv 0 off 8 sp = Inr (copy_at sp off (take 8 e))"
    using readOperand_value [OF assms(3)] by blast
  show ?thesis using assms(1) by (simp add: prepareSOPK_def d e AsSOPK_def copy_simps)
qed

section \<open>The commit\<close>

lemma WriteReg_special [simp]:
  "WriteReg (Regs EXEC) (Suc 0) l (Uint64ToBytes v) wv = Inr (wv\<lparr>wf_Exec := v\<rparr>)"
  "WriteReg (Regs VCC) (Suc 0) l (Uint64ToBytes v) wv = Inr (wv\<lparr>wf_VCC := v\<rparr>)"
  "WriteReg (Regs SCC) (Suc 0) l [b] wv = Inr (wv\<lparr>wf_SCC := b\<rparr>)"
  by (simp_all add: WriteReg_def Let_def)

lemma commitSOP1_eq:
  "sp_ok sp \<Longrightarrow> commitSOP1 inst sp wv = bindR (writeOperand (i_Dst inst) 0 (Uint64ToBytes (sop1_DST (AsSOP1 sp))) wv)
     (\<lambda>wv. Inr (wv\<lparr>wf_Exec := sop1_EXEC (AsSOP1 sp), wf_SCC := sop1_SCC (AsSOP1 sp), wf_PC := sop1_PC (AsSOP1 sp)\<rparr>))"
  by (simp add: commitSOP1_def AsSOP1_def bytes_get64 bytes_get8)

lemma commitSOP2_eq:
  "sp_ok sp \<Longrightarrow> commitSOP2 inst sp wv = bindR (writeOperand (i_Dst inst) 0 (Uint64ToBytes (sop2_DST (AsSOP2 sp))) wv)
     (\<lambda>wv. Inr (wv\<lparr>wf_SCC := sop2_SCC (AsSOP2 sp)\<rparr>))"
  by (simp add: commitSOP2_def AsSOP2_def bytes_get64 bytes_get8 bindR_def split: sum.splits)

lemma commitSOPK_eq:
  "sp_ok sp \<Longrightarrow> commitSOPK inst sp wv = bindR (writeOperand (i_Dst inst) 0 (Uint64ToBytes (sopk_DST (AsSOPK sp))) wv)
     (\<lambda>wv. Inr (wv\<lparr>wf_SCC := sopk_SCC (AsSOPK sp)\<rparr>))"
  using bytes_get64 [of sp 0] by (simp add: commitSOPK_def AsSOPK_def)

section \<open>The operations\<close>

lemma dispatch_Inr: "dispatch msg table opc = Inr f \<Longrightarrow> (opc, f) \<in> set table"
  by (auto simp: dispatch_def split: option.splits dest: map_of_SomeD)

lemma sop2_ops_ok: "sp_ok sp \<Longrightarrow> (opc, f) \<in> set sop2_table \<Longrightarrow> sp_ok (f sp)"
  by (auto simp: sop2_table_def onSOP2_def SOP2_laws runSADDU32_def runSADDI32_def runSADDCU32_def Let_def)

lemma runSOP_ok:
  assumes "sp_ok sp"
  shows "runSOP1 opc sp = Inr sp' \<Longrightarrow> sp_ok sp'" "runSOP2 opc sp = Inr sp' \<Longrightarrow> sp_ok sp'"
    "runSOPC opc sp = Inr sp' \<Longrightarrow> sp_ok sp'" "runSOPK opc sp = Inr sp' \<Longrightarrow> sp_ok sp'" "runSOPP opc sp = Inr sp' \<Longrightarrow> sp_ok sp'"
  using assms by (auto simp: runSOP1_def runSOP2_def runSOPC_def runSOPK_def runSOPP_def bindR_eq_Inr SOP1_laws SOPC_laws SOPK_laws
      SOPP_laws dest: dispatch_Inr sop2_ops_ok)

text \<open>The operations on raw bytes, seen through the layout.\<close>

lemma AsSOP2_put:
  assumes "sp_ok sp" "sop2_DST (AsSOP2 sp) = 0"
  shows "AsSOP2 (put8 24 b (put32 16 v sp)) = (AsSOP2 sp)\<lparr>sop2_DST := ucast v, sop2_SCC := b\<rparr>"
proof -
  have z: "get64 16 sp = 0" using assms(2) by (simp add: AsSOP2_def)
  have p: "put32 16 v sp = copy_at sp 16 (take 8 (Uint32ToBytes v))" by (simp add: put32_def)
  have v: "le_word (Uint32ToBytes v) = (ucast v :: u64)"
  proof (rule bit_word_eqI)
    fix n
    assume "n < LENGTH(64)"
    then show "bit (le_word (Uint32ToBytes v) :: u64) n = bit (ucast v :: u64) n"
      using bit_imp_le_length [of v n] less_mult_imp_div_less [of n 4 8]
      by (cases "n < 32") (auto simp: Uint32ToBytes_def bit_le_word bit_simps div_less_iff_less_mult)
  qed
  have "get64 16 (put32 16 v sp) = ucast v" using get64_copy [OF assms(1) _ z, of "Uint32ToBytes v"] v unfolding p by simp
  moreover have "get64 a (put32 16 v sp) = get64 a sp" if "a + 8 \<le> 16" for a
    unfolding p by (rule get64_copy_other) (use assms(1) that in simp_all)
  ultimately show ?thesis using assms(1) by (simp add: AsSOP2_def)
qed

lemma get32_AsSOP2:
  "sp_ok sp \<Longrightarrow> get32 0 sp = lo32 (sop2_SRC0 (AsSOP2 sp))" "sp_ok sp \<Longrightarrow> get32 8 sp = lo32 (sop2_SRC1 (AsSOP2 sp))"
  "get8 24 sp = sop2_SCC (AsSOP2 sp)"
  by (simp_all add: get32_get64 lo32_def AsSOP2_def)

text \<open>\<^verbatim>\<open>s_brev_b32\<close> reverses the bits.\<close>

lemma bit_brev_fold:
  "n < 32 \<Longrightarrow> bit (fold (\<lambda>i dst. dst OR push_bit i (drop_bit (31 - i) (src AND push_bit (31 - i) 1))) [0..<k] (acc::u32)) n
     \<longleftrightarrow> bit acc n \<or> n < k \<and> bit src (31 - n)"
proof (induction k)
  case (Suc k)
  have "bit (push_bit k (drop_bit (31 - k) (src AND push_bit (31 - k) 1))) n \<longleftrightarrow> n = k \<and> bit src (31 - n)"
    using Suc.prems by (auto simp: bit_simps)
  then show ?case using Suc by (auto simp: bit_simps)
qed simp

lemma brev_loop_reverses: "n < 32 \<Longrightarrow> bit (brev_loop src) n \<longleftrightarrow> bit src (31 - n)"
  unfolding brev_loop_def by (subst bit_brev_fold) simp_all

end
