(* ===== verification/Emu_Vector.thy ===== *)
theory Emu_Vector
  imports Emu_Scalar
begin

text \<open>
  The vector instructions of the emulator (\<^verbatim>\<open>mgpusim/emu/aluvop1.go\<close>, \<^verbatim>\<open>aluvop2.go\<close>, \<^verbatim>\<open>aluvop3a.go\<close>,
  \<^verbatim>\<open>aluvop3b.go\<close>, \<^verbatim>\<open>aluvopc.go\<close>) and the sub-dword selection of \<^verbatim>\<open>alu.go\<close>. Every operation is a loop over the
  64 lanes that skips the lanes the EXEC mask does not select. A loop that assigns \<^verbatim>\<open>DST[i]\<close> is
  \<open>lanes1\<close>, \<open>lanes2\<close> or \<open>lanes3\<close> of the value it assigns; a loop that sets bit \<^verbatim>\<open>i\<close> of a mask is \<open>lane_mask\<close>
  of the condition.

  Comparisons of \<^verbatim>\<open>float32\<close> values are defined on their IEEE 754 bit patterns. Floating-point
  arithmetic and conversions, which the processor the simulator runs on implements, are the fields
  of the parameter \<open>go_float\<close>: the lane loop around them is modelled, the arithmetic is not.
\<close>

section \<open>Lanes\<close>

definition laneMasked :: "u64 \<Rightarrow> nat \<Rightarrow> bool" where
  "laneMasked Exec laneID \<longleftrightarrow> Exec AND push_bit laneID 1 > 0"

definition lane_mask :: "u64 \<Rightarrow> u64 \<Rightarrow> (nat \<Rightarrow> bool) \<Rightarrow> u64" where
  "lane_mask exec init P = fold (\<lambda>i m. if laneMasked exec i \<and> P i then m OR push_bit i 1 else m) [0..<64] init"

definition lane_map :: "u64 \<Rightarrow> (nat \<Rightarrow> u64) \<Rightarrow> u64 list \<Rightarrow> u64 list" where
  "lane_map exec g dst = map (\<lambda>i. if laneMasked exec i then g i else dst ! i) [0..<64]"

lemma laneMasked_bit [simp]: "laneMasked e i = bit e i"
proof -
  have "e AND push_bit i 1 = (if bit e i then push_bit i 1 else 0)"
    by (rule bit_word_eqI) (auto simp: bit_simps)
  moreover have "bit e i \<Longrightarrow> push_bit i (1::u64) \<noteq> 0"
    using bit_imp_le_length [of e i] bit_push_bit_iff [of i "1::u64" i] by (auto simp: bit_simps)
  ultimately show ?thesis by (auto simp: laneMasked_def word_gt_0)
qed

lemma bit_lane_mask_fold:
  "bit (fold (\<lambda>i m. if laneMasked exec i \<and> P i then m OR push_bit i 1 else m) [0..<k] (init::u64)) n
     \<longleftrightarrow> bit init n \<or> n < k \<and> bit exec n \<and> P n"
proof (induction k)
  case (Suc k)
  then show ?case using bit_imp_le_length [of exec k] by (auto simp: bit_simps less_Suc_eq)
qed simp

lemma bit_lane_mask [simp]: "bit (lane_mask exec init P) n \<longleftrightarrow> bit init n \<or> bit exec n \<and> P n"
  using bit_imp_le_length [of exec n] unfolding lane_mask_def bit_lane_mask_fold by auto

lemma length_lane_map [simp]: "length (lane_map exec g dst) = 64"
  by (simp add: lane_map_def)

lemma lane_map_nth [simp]: "i < 64 \<Longrightarrow> lane_map exec g dst ! i = (if bit exec i then g i else dst ! i)"
  by (simp add: lane_map_def)

section \<open>Floating point\<close>

text \<open>Go's comparisons of two \<^verbatim>\<open>float32\<close>: false on NaN, equal on the two zeros, else by sign and magnitude.\<close>

definition f32_nan :: "u32 \<Rightarrow> bool" where
  "f32_nan a \<longleftrightarrow> 0x7f800000 < a AND 0x7fffffff"

definition f32_key :: "u32 \<Rightarrow> int" where
  "f32_key a = (if bit a 31 then - uint (a AND 0x7fffffff) else uint a)"

definition f32_lt :: "u32 \<Rightarrow> u32 \<Rightarrow> bool" where
  "f32_lt a b \<longleftrightarrow> \<not> f32_nan a \<and> \<not> f32_nan b \<and> f32_key a < f32_key b"

definition f32_eq :: "u32 \<Rightarrow> u32 \<Rightarrow> bool" where
  "f32_eq a b \<longleftrightarrow> \<not> f32_nan a \<and> \<not> f32_nan b \<and> f32_key a = f32_key b"

definition f32_le :: "u32 \<Rightarrow> u32 \<Rightarrow> bool" where
  "f32_le a b \<longleftrightarrow> f32_lt a b \<or> f32_eq a b"

record go_float =
  fl_vop1 :: "nat \<Rightarrow> u64 \<Rightarrow> u64"
  fl_vop2 :: "nat \<Rightarrow> u64 \<Rightarrow> u64 \<Rightarrow> u64 \<Rightarrow> u64 \<Rightarrow> u64"
  fl_vop3 :: "nat \<Rightarrow> u64 \<Rightarrow> u64 \<Rightarrow> u64 \<Rightarrow> u64 \<Rightarrow> u64 \<Rightarrow> u64 result"
  fl_abs32 :: "u32 \<Rightarrow> u32"
  fl_neg32 :: "u32 \<Rightarrow> u32"
  fl_neg64 :: "u64 \<Rightarrow> u64"
  fl_divscale :: "VOP3BLayout \<Rightarrow> u64 list \<times> u64"

section \<open>Sub-dword selection\<close>

definition sdwaSrcSelect :: "u32 \<Rightarrow> u32 \<Rightarrow> u32" where
  "sdwaSrcSelect src sel =
     (if sel = 0x000000ff then src AND 0x000000ff else if sel = 0x0000ff00 then drop_bit 8 (src AND 0x0000ff00)
      else if sel = 0x00ff0000 then drop_bit 16 (src AND 0x00ff0000) else if sel = 0xff000000 then drop_bit 24 (src AND 0xff000000)
      else if sel = 0x0000ffff then src AND 0x0000ffff else if sel = 0xffff0000 then drop_bit 16 (src AND 0xffff0000)
      else src)"

text \<open>The old destination and the treatment of unused bits are arguments the function does not use.\<close>

definition sdwaDstSelect :: "u32 \<Rightarrow> u32 \<Rightarrow> u32 \<Rightarrow> u32" where
  "sdwaDstSelect dstOld dstNew sel =
     (if sel = 0x000000ff then dstNew AND 0x000000ff else if sel = 0x0000ff00 then push_bit 8 dstNew AND 0x0000ff00
      else if sel = 0x00ff0000 then push_bit 16 dstNew AND 0x00ff0000 else if sel = 0xff000000 then push_bit 24 dstNew AND 0xff000000
      else if sel = 0x0000ffff then dstNew AND 0x0000ffff else if sel = 0xffff0000 then push_bit 16 dstNew AND 0xffff0000
      else dstNew)"

section \<open>VOP1\<close>

definition lanes1 :: "(nat \<Rightarrow> u64 \<Rightarrow> u64) \<Rightarrow> VOP1Layout \<Rightarrow> VOP1Layout" where
  "lanes1 g sp = sp\<lparr>vop1_DST := lane_map (vop1_EXEC sp) (\<lambda>i. g i (vop1_SRC0 sp ! i)) (vop1_DST sp)\<rparr>"

definition runVMOVB32 :: "VOP1Layout \<Rightarrow> VOP1Layout" where
  "runVMOVB32 = lanes1 (\<lambda>i src0. src0)"

text \<open>With no active lane \<^verbatim>\<open>laneid\<close> keeps its zero value.\<close>

definition runVREADFIRSTLANEB32 :: "VOP1Layout \<Rightarrow> VOP1Layout" where
  "runVREADFIRSTLANEB32 sp =
     (let laneid = (case find (laneMasked (vop1_EXEC sp)) [0..<64] of Some i \<Rightarrow> i | None \<Rightarrow> 0)
      in sp\<lparr>vop1_DST := replicate 64 (vop1_SRC0 sp ! laneid)\<rparr>)"

definition runVNOTB32 :: "VOP1Layout \<Rightarrow> VOP1Layout" where
  "runVNOTB32 = lanes1 (\<lambda>i src0. ucast (NOT (lo32 src0)))"

definition runBFREVB32 :: "VOP1Layout \<Rightarrow> VOP1Layout" where
  "runBFREVB32 = lanes1 (\<lambda>i src0. ucast (brev_loop (lo32 src0)))"

text \<open>The fraction is taken from the lane index, as in the source; \<^verbatim>\<open>exp16\<close> is an \<^verbatim>\<open>int16\<close>.\<close>

definition cvtF16F32 :: "nat \<Rightarrow> u32 \<Rightarrow> 16 word" where
  "cvtF16F32 i src =
     (let sign = ucast (drop_bit 31 src AND 1) :: 16 word; e = drop_bit 23 src AND 0xff;
          exp16 = sint (ucast e :: 16 word) - 127 + 15; frac = of_nat (drop_bit 13 i) AND 0x3ff :: 16 word;
          (exp16, frac) = (if e = 0 then (0, frac) else if e = 0xff then (0x1f, frac)
                           else if 0x1e < exp16 then (0x1f, 0) else if exp16 < 1 then (0, 0) else (exp16, frac))
      in push_bit 15 sign OR push_bit 10 (word_of_int exp16) OR frac)"

definition runVCVTF16F32 :: "VOP1Layout \<Rightarrow> VOP1Layout" where
  "runVCVTF16F32 = lanes1 (\<lambda>i src0. ucast (cvtF16F32 i (lo32 src0)))"

definition runLogLegacyF32 :: "VOP1Layout \<Rightarrow> VOP1Layout" where
  "runLogLegacyF32 = lanes1 (\<lambda>i src0. src0)"

definition runVOP1 :: "go_float \<Rightarrow> nat \<Rightarrow> scratchpad \<Rightarrow> scratchpad result" where
  "runVOP1 fl opc sp = bindR (dispatch ''Opcode for VOP1 format is not implemented''
     ([(1, runVMOVB32), (2, runVREADFIRSTLANEB32), (10, runVCVTF16F32), (43, runVNOTB32), (44, runBFREVB32), (76, runLogLegacyF32)] @
      map (\<lambda>opc. (opc, lanes1 (\<lambda>i. fl_vop1 fl opc))) [4, 5, 6, 7, 8, 15, 16, 17, 28, 30, 32, 33, 34, 35, 36, 37, 39]) opc)
     (\<lambda>f. Inr (setVOP1 (f (AsVOP1 sp)) sp))"

section \<open>VOP2\<close>

text \<open>The lane functions get both sources, the old destination and the lane's VCC bit.\<close>

definition lanes2 :: "(u64 \<Rightarrow> u64 \<Rightarrow> u64 \<Rightarrow> bool \<Rightarrow> u64) \<Rightarrow> VOP2Layout \<Rightarrow> VOP2Layout" where
  "lanes2 g sp = sp\<lparr>vop2_DST := lane_map (vop2_EXEC sp)
     (\<lambda>i. g (vop2_SRC0 sp ! i) (vop2_SRC1 sp ! i) (vop2_DST sp ! i) (laneMasked (vop2_VCC sp) i)) (vop2_DST sp)\<rparr>"

text \<open>The operations with a carry: the new VCC has the carries of the active lanes.\<close>

definition carry2 :: "(u64 \<Rightarrow> u64 \<Rightarrow> bool \<Rightarrow> bool) \<Rightarrow> VOP2Layout \<Rightarrow> u64" where
  "carry2 c sp = lane_mask (vop2_EXEC sp) 0 (\<lambda>i. c (vop2_SRC0 sp ! i) (vop2_SRC1 sp ! i) (laneMasked (vop2_VCC sp) i))"

definition no_sdwa :: "Inst \<Rightarrow> 'a \<Rightarrow> 'a result" where
  "no_sdwa inst r = (if i_IsSdwa inst then Inl (Panic ''SDWA for VOP2 instruction not implemented'') else Inr r)"

definition of_bit :: "bool \<Rightarrow> u64" where
  "of_bit b = (if b then 1 else 0)"

definition runVCNDMASKB32 :: "Inst \<Rightarrow> VOP2Layout \<Rightarrow> VOP2Layout result" where
  "runVCNDMASKB32 inst sp = no_sdwa inst (lanes2 (\<lambda>s0 s1 d c. if c then s1 else s0) sp)"

definition i24 :: "u64 \<Rightarrow> u32" where
  "i24 s = ucast (SignExt (ExtractBitsFromU64 s 0 23) 23)"

definition runVMULI32I24 :: "Inst \<Rightarrow> VOP2Layout \<Rightarrow> VOP2Layout result" where
  "runVMULI32I24 inst sp = no_sdwa inst (lanes2 (\<lambda>s0 s1 d c. scast (i24 s0 * i24 s1)) sp)"

definition runVMULU32U24 :: "Inst \<Rightarrow> VOP2Layout \<Rightarrow> VOP2Layout result" where
  "runVMULU32U24 inst sp = Inr (lanes2 (\<lambda>s0 s1 d c. ucast (drop_bit 8 (push_bit 8 (lo32 s0)) * drop_bit 8 (push_bit 8 (lo32 s1)))) sp)"

definition runVMINF32 :: "Inst \<Rightarrow> VOP2Layout \<Rightarrow> VOP2Layout result" where
  "runVMINF32 inst sp = no_sdwa inst (lanes2 (\<lambda>s0 s1 d c. ucast (if f32_lt (lo32 s1) (lo32 s0) then lo32 s1 else lo32 s0)) sp)"

definition runVMAXF32 :: "Inst \<Rightarrow> VOP2Layout \<Rightarrow> VOP2Layout result" where
  "runVMAXF32 inst sp = no_sdwa inst (lanes2 (\<lambda>s0 s1 d c. ucast (if f32_lt (lo32 s0) (lo32 s1) then lo32 s1 else lo32 s0)) sp)"

definition runVMINI32 :: "Inst \<Rightarrow> VOP2Layout \<Rightarrow> VOP2Layout result" where
  "runVMINI32 inst sp = Inr (lanes2 (\<lambda>s0 s1 d c. scast (if asInt32 (lo32 s0) < asInt32 (lo32 s1) then lo32 s0 else lo32 s1)) sp)"

definition runVMAXI32 :: "Inst \<Rightarrow> VOP2Layout \<Rightarrow> VOP2Layout result" where
  "runVMAXI32 inst sp = Inr (lanes2 (\<lambda>s0 s1 d c. scast (if asInt32 (lo32 s0) > asInt32 (lo32 s1) then lo32 s0 else lo32 s1)) sp)"

definition runVMINU32 :: "Inst \<Rightarrow> VOP2Layout \<Rightarrow> VOP2Layout result" where
  "runVMINU32 inst sp = Inr (lanes2 (\<lambda>s0 s1 d c. ucast (if lo32 s0 < lo32 s1 then lo32 s0 else lo32 s1)) sp)"

definition runVMAXU32 :: "Inst \<Rightarrow> VOP2Layout \<Rightarrow> VOP2Layout result" where
  "runVMAXU32 inst sp = Inr (lanes2 (\<lambda>s0 s1 d c. ucast (if lo32 s0 \<ge> lo32 s1 then lo32 s0 else lo32 s1)) sp)"

definition runVLSHRREVB32 :: "Inst \<Rightarrow> VOP2Layout \<Rightarrow> VOP2Layout result" where
  "runVLSHRREVB32 inst sp = no_sdwa inst (lanes2 (\<lambda>s0 s1 d c. drop_bit (unat (s0 AND 0x1f)) s1) sp)"

definition runVASHRREVI32 :: "Inst \<Rightarrow> VOP2Layout \<Rightarrow> VOP2Layout result" where
  "runVASHRREVI32 inst sp = no_sdwa inst (lanes2 (\<lambda>s0 s1 d c. scast (signed_drop_bit (unat (lo32 s0 AND 0x1f)) (lo32 s1))) sp)"

definition runVLSHLREVB32 :: "Inst \<Rightarrow> VOP2Layout \<Rightarrow> VOP2Layout result" where
  "runVLSHLREVB32 inst sp = no_sdwa inst (lanes2 (\<lambda>s0 s1 d c. ucast (push_bit (unat (lo32 s0 AND 0x1f)) (lo32 s1))) sp)"

definition runVANDB32 :: "Inst \<Rightarrow> VOP2Layout \<Rightarrow> VOP2Layout result" where
  "runVANDB32 inst sp =
     (if \<not> i_IsSdwa inst then Inr (lanes2 (\<lambda>s0 s1 d c. ucast (lo32 s0 AND lo32 s1)) sp)
      else Inr (lanes2 (\<lambda>s0 s1 d c. ucast (sdwaDstSelect (lo32 d)
             (sdwaSrcSelect (lo32 s0) (i_Src0Sel inst) AND sdwaSrcSelect (lo32 s1) (i_Src1Sel inst)) (i_DstSel inst))) sp))"

definition runVORB32 :: "Inst \<Rightarrow> VOP2Layout \<Rightarrow> VOP2Layout result" where
  "runVORB32 inst sp =
     (if \<not> i_IsSdwa inst then Inr (lanes2 (\<lambda>s0 s1 d c. ucast (lo32 s0 OR lo32 s1)) sp)
      else Inr (lanes2 (\<lambda>s0 s1 d c. ucast (sdwaDstSelect (lo32 d)
             (sdwaSrcSelect (lo32 s0) (i_Src0Sel inst) OR sdwaSrcSelect (lo32 s1) (i_Src1Sel inst)) (i_DstSel inst))) sp))"

definition runVXORB32 :: "Inst \<Rightarrow> VOP2Layout \<Rightarrow> VOP2Layout result" where
  "runVXORB32 inst sp =
     (if \<not> i_IsSdwa inst then Inr (lanes2 (\<lambda>s0 s1 d c. ucast (lo32 s0 XOR lo32 s1)) sp)
      else Inr (lanes2 (\<lambda>s0 s1 d c. ucast (sdwaDstSelect (lo32 d)
             (sdwaSrcSelect (lo32 s0) (i_Src0Sel inst) XOR sdwaSrcSelect (lo32 s1) (i_Src1Sel inst)) (i_DstSel inst))) sp))"

text \<open>\<^verbatim>\<open>VCC = 0\<close> first; \<^verbatim>\<open>math.MinInt32 + src1\<close> is computed in \<^verbatim>\<open>int32\<close>.\<close>

definition runVADDI32SDWA :: "Inst \<Rightarrow> VOP2Layout \<Rightarrow> VOP2Layout" where
  "runVADDI32SDWA inst sp =
     (let src0 = (\<lambda>s. lo32 s AND i_Src0Sel inst); src1 = (\<lambda>s. lo32 s AND i_Src1Sel inst) in
      (lanes2 (\<lambda>s0 s1 d c. ucast ((src0 s0 + src1 s1) AND i_DstSel inst)) sp)
      \<lparr>vop2_VCC := carry2 (\<lambda>s0 s1 c. 0 < asInt32 (src1 s1) \<and> asInt32 (src0 s0) > asInt32 (0x7fffffff - src1 s1) \<or>
          asInt32 (src1 s1) < 0 \<and> asInt32 (src0 s0) < asInt32 (0x80000000 + src1 s1)) sp\<rparr>)"

definition runVADDI32Regular :: "VOP2Layout \<Rightarrow> VOP2Layout" where
  "runVADDI32Regular sp =
     (lanes2 (\<lambda>s0 s1 d c. ucast (lo32 s0 + lo32 s1)) sp)
     \<lparr>vop2_VCC := carry2 (\<lambda>s0 s1 c. ucast (lo32 s0) + ucast (lo32 s1) > (0xffffffff :: u64)) sp\<rparr>"

definition runVADDI32 :: "Inst \<Rightarrow> VOP2Layout \<Rightarrow> VOP2Layout result" where
  "runVADDI32 inst sp = Inr (if i_IsSdwa inst then runVADDI32SDWA inst sp else runVADDI32Regular sp)"

definition runVSUBI32 :: "Inst \<Rightarrow> VOP2Layout \<Rightarrow> VOP2Layout result" where
  "runVSUBI32 inst sp = no_sdwa inst
     ((lanes2 (\<lambda>s0 s1 d c. ucast (lo32 s0 - lo32 s1)) sp)\<lparr>vop2_VCC := carry2 (\<lambda>s0 s1 c. lo32 s0 < lo32 s1) sp\<rparr>)"

definition runVSUBREVI32 :: "Inst \<Rightarrow> VOP2Layout \<Rightarrow> VOP2Layout result" where
  "runVSUBREVI32 inst sp = no_sdwa inst
     ((lanes2 (\<lambda>s0 s1 d c. ucast (lo32 s1 - lo32 s0)) sp)\<lparr>vop2_VCC := carry2 (\<lambda>s0 s1 c. lo32 s0 > lo32 s1) sp\<rparr>)"

definition runVADDCU32 :: "Inst \<Rightarrow> VOP2Layout \<Rightarrow> VOP2Layout result" where
  "runVADDCU32 inst sp = no_sdwa inst
     ((lanes2 (\<lambda>s0 s1 d c. s0 + s1 + of_bit c) sp)\<lparr>vop2_VCC := carry2 (\<lambda>s0 s1 c. s0 > 0xffffffff - of_bit c - s1) sp\<rparr>)"

definition runVSUBBU32 :: "Inst \<Rightarrow> VOP2Layout \<Rightarrow> VOP2Layout result" where
  "runVSUBBU32 inst sp = no_sdwa inst
     ((lanes2 (\<lambda>s0 s1 d c. s0 - s1 - of_bit c) sp)\<lparr>vop2_VCC := carry2 (\<lambda>s0 s1 c. s0 < s1 + of_bit c) sp\<rparr>)"

definition runVSUBBREVU32 :: "Inst \<Rightarrow> VOP2Layout \<Rightarrow> VOP2Layout result" where
  "runVSUBBREVU32 inst sp = no_sdwa inst
     ((lanes2 (\<lambda>s0 s1 d c. s1 - s0 - of_bit c) sp)\<lparr>vop2_VCC := carry2 (\<lambda>s0 s1 c. s1 < s0 + of_bit c) sp\<rparr>)"

definition float2 :: "go_float \<Rightarrow> nat \<Rightarrow> Inst \<Rightarrow> VOP2Layout \<Rightarrow> VOP2Layout result" where
  "float2 fl opc inst sp = no_sdwa inst (lanes2 (\<lambda>s0 s1 d c. fl_vop2 fl opc s0 s1 d (vop2_LiteralConstant sp)) sp)"

definition vop2_table :: "go_float \<Rightarrow> (nat \<times> (Inst \<Rightarrow> VOP2Layout \<Rightarrow> VOP2Layout result)) list" where
  "vop2_table fl =
     [(0, runVCNDMASKB32), (1, float2 fl 1), (2, float2 fl 2), (3, float2 fl 3), (4, float2 fl 4), (5, float2 fl 5),
      (6, runVMULI32I24), (8, runVMULU32U24), (10, runVMINF32), (11, runVMAXF32), (12, runVMINI32), (13, runVMAXI32),
      (14, runVMINU32), (15, runVMAXU32), (16, runVLSHRREVB32), (17, runVASHRREVI32), (18, runVLSHLREVB32), (19, runVANDB32),
      (20, runVORB32), (21, runVXORB32), (22, float2 fl 22), (24, float2 fl 24), (25, runVADDI32), (26, runVSUBI32),
      (27, runVSUBREVI32), (28, runVADDCU32), (29, runVSUBBU32), (30, runVSUBBREVU32)]"

definition runVOP2 :: "go_float \<Rightarrow> Inst \<Rightarrow> scratchpad \<Rightarrow> scratchpad result" where
  "runVOP2 fl inst sp = bindR (dispatch ''Opcode for VOP2 format is not implemented'' (vop2_table fl) (i_Opcode inst))
     (\<lambda>f. bindR (f inst (AsVOP2 sp)) (\<lambda>l. Inr (setVOP2 l sp)))"

section \<open>VOPC\<close>

definition vcmp :: "(u64 \<Rightarrow> u64 \<Rightarrow> bool) \<Rightarrow> VOPCLayout \<Rightarrow> VOPCLayout" where
  "vcmp P sp = sp\<lparr>vopc_VCC := lane_mask (vopc_EXEC sp) 0 (\<lambda>i. P (vopc_SRC0 sp ! i) (vopc_SRC1 sp ! i))\<rparr>"

definition runVCmpLtF32 :: "VOPCLayout \<Rightarrow> VOPCLayout" where
  "runVCmpLtF32 = vcmp (\<lambda>s0 s1. f32_lt (lo32 s0) (lo32 s1))"

definition runVCmpEqF32 :: "VOPCLayout \<Rightarrow> VOPCLayout" where
  "runVCmpEqF32 = vcmp (\<lambda>s0 s1. f32_eq (lo32 s0) (lo32 s1))"

definition runVCmpLeF32 :: "VOPCLayout \<Rightarrow> VOPCLayout" where
  "runVCmpLeF32 = vcmp (\<lambda>s0 s1. f32_le (lo32 s0) (lo32 s1))"

definition runVCmpLgF32 :: "VOPCLayout \<Rightarrow> VOPCLayout" where
  "runVCmpLgF32 = vcmp (\<lambda>s0 s1. \<not> f32_eq (lo32 s0) (lo32 s1))"

definition runVCmpGtF32 :: "VOPCLayout \<Rightarrow> VOPCLayout" where
  "runVCmpGtF32 = vcmp (\<lambda>s0 s1. f32_lt (lo32 s1) (lo32 s0))"

definition runVCmpGeF32 :: "VOPCLayout \<Rightarrow> VOPCLayout" where
  "runVCmpGeF32 = vcmp (\<lambda>s0 s1. f32_le (lo32 s1) (lo32 s0))"

definition runVCmpNgeF32 :: "VOPCLayout \<Rightarrow> VOPCLayout" where
  "runVCmpNgeF32 = vcmp (\<lambda>s0 s1. \<not> f32_le (lo32 s1) (lo32 s0))"

definition runVCmpNlgF32 :: "VOPCLayout \<Rightarrow> VOPCLayout" where
  "runVCmpNlgF32 = vcmp (\<lambda>s0 s1. f32_eq (lo32 s0) (lo32 s1))"

definition runVCmpNgtF32 :: "VOPCLayout \<Rightarrow> VOPCLayout" where
  "runVCmpNgtF32 = vcmp (\<lambda>s0 s1. \<not> f32_lt (lo32 s1) (lo32 s0))"

definition runVCmpNleF32 :: "VOPCLayout \<Rightarrow> VOPCLayout" where
  "runVCmpNleF32 = vcmp (\<lambda>s0 s1. \<not> f32_le (lo32 s0) (lo32 s1))"

definition runVCmpNeqF32 :: "VOPCLayout \<Rightarrow> VOPCLayout" where
  "runVCmpNeqF32 = vcmp (\<lambda>s0 s1. \<not> f32_eq (lo32 s0) (lo32 s1))"

definition runVCmpNltF32 :: "VOPCLayout \<Rightarrow> VOPCLayout" where
  "runVCmpNltF32 = vcmp (\<lambda>s0 s1. \<not> f32_lt (lo32 s0) (lo32 s1))"

definition runVCmpLtI32 :: "VOPCLayout \<Rightarrow> VOPCLayout" where
  "runVCmpLtI32 = vcmp (\<lambda>s0 s1. asInt32 (lo32 s0) < asInt32 (lo32 s1))"

definition runVCmpLeI32 :: "VOPCLayout \<Rightarrow> VOPCLayout" where
  "runVCmpLeI32 = vcmp (\<lambda>s0 s1. asInt32 (lo32 s0) \<le> asInt32 (lo32 s1))"

definition runVCmpGtI32 :: "VOPCLayout \<Rightarrow> VOPCLayout" where
  "runVCmpGtI32 = vcmp (\<lambda>s0 s1. asInt32 (lo32 s0) > asInt32 (lo32 s1))"

definition runVCmpLgI32 :: "VOPCLayout \<Rightarrow> VOPCLayout" where
  "runVCmpLgI32 = vcmp (\<lambda>s0 s1. asInt32 (lo32 s0) \<noteq> asInt32 (lo32 s1))"

definition runVCmpGeI32 :: "VOPCLayout \<Rightarrow> VOPCLayout" where
  "runVCmpGeI32 = vcmp (\<lambda>s0 s1. asInt32 (lo32 s0) \<ge> asInt32 (lo32 s1))"

definition runVCmpLtU32 :: "VOPCLayout \<Rightarrow> VOPCLayout" where
  "runVCmpLtU32 = vcmp (\<lambda>s0 s1. s0 < s1)"

definition runVCmpEqU32 :: "VOPCLayout \<Rightarrow> VOPCLayout" where
  "runVCmpEqU32 = vcmp (\<lambda>s0 s1. lo32 s0 = lo32 s1)"

definition runVCmpLeU32 :: "VOPCLayout \<Rightarrow> VOPCLayout" where
  "runVCmpLeU32 = vcmp (\<lambda>s0 s1. s0 \<le> s1)"

definition runVCmpGtU32 :: "VOPCLayout \<Rightarrow> VOPCLayout" where
  "runVCmpGtU32 = vcmp (\<lambda>s0 s1. s0 > s1)"

definition runVCmpNeU32 :: "VOPCLayout \<Rightarrow> VOPCLayout" where
  "runVCmpNeU32 = vcmp (\<lambda>s0 s1. s0 \<noteq> s1)"

definition runVCmpGeU32 :: "VOPCLayout \<Rightarrow> VOPCLayout" where
  "runVCmpGeU32 = vcmp (\<lambda>s0 s1. s0 \<ge> s1)"

definition runVCmpFU64 :: "VOPCLayout \<Rightarrow> VOPCLayout" where
  "runVCmpFU64 = vcmp (\<lambda>s0 s1. False)"

definition runVCmpLtU64 :: "VOPCLayout \<Rightarrow> VOPCLayout" where
  "runVCmpLtU64 = vcmp (\<lambda>s0 s1. s0 < s1)"

definition runVCmpEqU64 :: "VOPCLayout \<Rightarrow> VOPCLayout" where
  "runVCmpEqU64 = vcmp (\<lambda>s0 s1. s0 = s1)"

definition runVCmpLeU64 :: "VOPCLayout \<Rightarrow> VOPCLayout" where
  "runVCmpLeU64 = vcmp (\<lambda>s0 s1. s0 \<le> s1)"

definition runVCmpGtU64 :: "VOPCLayout \<Rightarrow> VOPCLayout" where
  "runVCmpGtU64 = vcmp (\<lambda>s0 s1. s0 > s1)"

definition runVCmpLgU64 :: "VOPCLayout \<Rightarrow> VOPCLayout" where
  "runVCmpLgU64 = vcmp (\<lambda>s0 s1. s0 \<noteq> s1)"

definition runVCmpGeU64 :: "VOPCLayout \<Rightarrow> VOPCLayout" where
  "runVCmpGeU64 = vcmp (\<lambda>s0 s1. s0 \<ge> s1)"

definition runVCmpTruU64 :: "VOPCLayout \<Rightarrow> VOPCLayout" where
  "runVCmpTruU64 = vcmp (\<lambda>s0 s1. True)"

definition vopc_table :: "(nat \<times> (VOPCLayout \<Rightarrow> VOPCLayout)) list" where
  "vopc_table =
     [(0x41, runVCmpLtF32), (0x42, runVCmpEqF32), (0x43, runVCmpLeF32), (0x44, runVCmpGtF32), (0x45, runVCmpLgF32), (0x46, runVCmpGeF32),
      (0x49, runVCmpNgeF32), (0x4A, runVCmpNlgF32), (0x4B, runVCmpNgtF32), (0x4C, runVCmpNleF32), (0x4D, runVCmpNeqF32), (0x4E, runVCmpNltF32),
      (0xC1, runVCmpLtI32), (0xC3, runVCmpLeI32), (0xC4, runVCmpGtI32), (0xC5, runVCmpLgI32), (0xC6, runVCmpGeI32), (0xC9, runVCmpLtU32),
      (0xCA, runVCmpEqU32), (0xCB, runVCmpLeU32), (0xCC, runVCmpGtU32), (0xCD, runVCmpNeU32), (0xCE, runVCmpGeU32), (0xE8, runVCmpFU64),
      (0xE9, runVCmpLtU64), (0xEA, runVCmpEqU64), (0xEB, runVCmpLeU64), (0xEC, runVCmpGtU64), (0xED, runVCmpLgU64), (0xEE, runVCmpGeU64),
      (0xEF, runVCmpTruU64)]"

definition runVOPC :: "nat \<Rightarrow> scratchpad \<Rightarrow> scratchpad result" where
  "runVOPC opc sp = bindR (dispatch ''Opcode for VOPC format is not implemented'' vopc_table opc)
     (\<lambda>f. Inr (setVOPC (f (AsVOPC sp)) sp))"

section \<open>VOP3a\<close>

fun contains :: "string \<Rightarrow> string \<Rightarrow> bool" where
  "contains [] pat = (pat = [])"
| "contains (c # cs) pat = (take (length pat) (c # cs) = pat \<or> contains cs pat)"

text \<open>The input modifiers: a function applied to the sources that the bits of \<^verbatim>\<open>Abs\<close> or \<^verbatim>\<open>Neg\<close> select.\<close>

definition modify_srcs :: "nat \<Rightarrow> (u64 \<Rightarrow> u64) \<Rightarrow> VOP3ALayout \<Rightarrow> VOP3ALayout" where
  "modify_srcs bits f sp =
     sp\<lparr>vop3a_SRC0 := (if bit bits 0 then map f (vop3a_SRC0 sp) else vop3a_SRC0 sp),
        vop3a_SRC1 := (if bit bits 1 then map f (vop3a_SRC1 sp) else vop3a_SRC1 sp),
        vop3a_SRC2 := (if bit bits 2 then map f (vop3a_SRC2 sp) else vop3a_SRC2 sp)\<rparr>"

definition vop3aPreProcessAbs :: "go_float \<Rightarrow> Inst \<Rightarrow> VOP3ALayout \<Rightarrow> VOP3ALayout" where
  "vop3aPreProcessAbs fl inst sp =
     (if contains (i_InstName inst) ''F32'' \<or> contains (i_InstName inst) ''f32''
      then modify_srcs (i_Abs inst) (\<lambda>s. ucast (fl_abs32 fl (lo32 s))) sp else sp)"

definition vop3aPreProcessF64Neg :: "go_float \<Rightarrow> Inst \<Rightarrow> VOP3ALayout \<Rightarrow> VOP3ALayout" where
  "vop3aPreProcessF64Neg fl inst = modify_srcs (i_Neg inst) (fl_neg64 fl)"

definition vop3aPreProcessF32Neg :: "go_float \<Rightarrow> Inst \<Rightarrow> VOP3ALayout \<Rightarrow> VOP3ALayout" where
  "vop3aPreProcessF32Neg fl inst = modify_srcs (i_Neg inst) (\<lambda>s. ucast (fl_neg32 fl (lo32 s)))"

definition vop3aPreProcessB32Neg :: "Inst \<Rightarrow> VOP3ALayout \<Rightarrow> VOP3ALayout" where
  "vop3aPreProcessB32Neg inst = modify_srcs (i_Neg inst) (\<lambda>s. ucast (lo32 s * (- 1)))"

definition vop3aPreProcessNeg :: "go_float \<Rightarrow> Inst \<Rightarrow> VOP3ALayout \<Rightarrow> VOP3ALayout" where
  "vop3aPreProcessNeg fl inst sp =
     (if contains (i_InstName inst) ''F64'' \<or> contains (i_InstName inst) ''f64'' then vop3aPreProcessF64Neg fl inst sp
      else if contains (i_InstName inst) ''F32'' \<or> contains (i_InstName inst) ''f32'' then vop3aPreProcessF32Neg fl inst sp
      else if contains (i_InstName inst) ''B32'' \<or> contains (i_InstName inst) ''b32'' then vop3aPreProcessB32Neg inst sp
      else sp)"

definition vop3aPreprocess :: "go_float \<Rightarrow> Inst \<Rightarrow> VOP3ALayout \<Rightarrow> VOP3ALayout" where
  "vop3aPreprocess fl inst sp =
     (let sp = (if i_Abs inst \<noteq> 0 then vop3aPreProcessAbs fl inst sp else sp)
      in if i_Neg inst \<noteq> 0 then vop3aPreProcessNeg fl inst sp else sp)"

definition vop3aPostprocess :: "Inst \<Rightarrow> 'a \<Rightarrow> 'a result" where
  "vop3aPostprocess inst r = (if i_Omod inst \<noteq> 0 then Inl (Panic ''Output modifiers are not supported.'') else Inr r)"

definition lanes3 :: "(nat \<Rightarrow> u64 \<Rightarrow> u64 \<Rightarrow> u64 \<Rightarrow> u64) \<Rightarrow> VOP3ALayout \<Rightarrow> VOP3ALayout" where
  "lanes3 g sp = sp\<lparr>vop3a_DST := lane_map (vop3a_EXEC sp)
     (\<lambda>i. g i (vop3a_SRC0 sp ! i) (vop3a_SRC1 sp ! i) (vop3a_SRC2 sp ! i)) (vop3a_DST sp)\<rparr>"

text \<open>A comparison sets the bits of \<^verbatim>\<open>DST[0]\<close>.\<close>

definition vcmp3 :: "(u64 \<Rightarrow> u64 \<Rightarrow> bool) \<Rightarrow> VOP3ALayout \<Rightarrow> VOP3ALayout" where
  "vcmp3 P sp = sp\<lparr>vop3a_DST := (vop3a_DST sp)[0 := lane_mask (vop3a_EXEC sp) (vop3a_DST sp ! 0)
     (\<lambda>i. P (vop3a_SRC0 sp ! i) (vop3a_SRC1 sp ! i))]\<rparr>"

definition runVCmpClassF32VOP3a :: "VOP3ALayout \<Rightarrow> VOP3ALayout" where
  "runVCmpClassF32VOP3a sp = sp\<lparr>vop3a_VCC := lane_mask (vop3a_EXEC sp) 0 (\<lambda>i.
     let src0 = lo32 (vop3a_SRC0 sp ! i); src1 = lo32 (vop3a_SRC1 sp ! i) in
     bit src1 0 \<and> f32_nan src0 \<or> bit src1 2 \<and> src0 = 0xff800000 \<or> bit src1 6 \<and> f32_eq src0 0 \<or>
     bit src1 7 \<and> f32_eq src0 0 \<or> bit src1 9 \<and> src0 = 0x7f800000)\<rparr>"

definition runVCmpLtF32VOP3a :: "VOP3ALayout \<Rightarrow> VOP3ALayout" where
  "runVCmpLtF32VOP3a = vcmp3 (\<lambda>s0 s1. f32_lt (lo32 s0) (lo32 s1))"

definition runVCmpGtF32VOP3a :: "VOP3ALayout \<Rightarrow> VOP3ALayout" where
  "runVCmpGtF32VOP3a = vcmp3 (\<lambda>s0 s1. f32_lt (lo32 s1) (lo32 s0))"

definition runVCmpNltF32VOP3a :: "VOP3ALayout \<Rightarrow> VOP3ALayout" where
  "runVCmpNltF32VOP3a = vcmp3 (\<lambda>s0 s1. \<not> f32_lt (lo32 s0) (lo32 s1))"

definition runVCmpLtI32VOP3a :: "VOP3ALayout \<Rightarrow> VOP3ALayout" where
  "runVCmpLtI32VOP3a = vcmp3 (\<lambda>s0 s1. asInt32 (lo32 s0) < asInt32 (lo32 s1))"

definition runVCmpLeI32VOP3a :: "VOP3ALayout \<Rightarrow> VOP3ALayout" where
  "runVCmpLeI32VOP3a = vcmp3 (\<lambda>s0 s1. asInt32 (lo32 s0) \<le> asInt32 (lo32 s1))"

definition runVCmpGtI32VOP3a :: "VOP3ALayout \<Rightarrow> VOP3ALayout" where
  "runVCmpGtI32VOP3a = vcmp3 (\<lambda>s0 s1. asInt32 (lo32 s0) > asInt32 (lo32 s1))"

definition runVCmpGEI32VOP3a :: "VOP3ALayout \<Rightarrow> VOP3ALayout" where
  "runVCmpGEI32VOP3a = vcmp3 (\<lambda>s0 s1. asInt32 (lo32 s0) \<ge> asInt32 (lo32 s1))"

definition runVCmpLtU32VOP3a :: "VOP3ALayout \<Rightarrow> VOP3ALayout" where
  "runVCmpLtU32VOP3a = vcmp3 (\<lambda>s0 s1. s0 < s1)"

definition runVCmpEqU32VOP3a :: "VOP3ALayout \<Rightarrow> VOP3ALayout" where
  "runVCmpEqU32VOP3a = vcmp3 (\<lambda>s0 s1. lo32 s0 = lo32 s1)"

definition runVCmpLeU32VOP3a :: "VOP3ALayout \<Rightarrow> VOP3ALayout" where
  "runVCmpLeU32VOP3a = vcmp3 (\<lambda>s0 s1. s0 \<le> s1)"

definition runVCmpGtU32VOP3a :: "VOP3ALayout \<Rightarrow> VOP3ALayout" where
  "runVCmpGtU32VOP3a = vcmp3 (\<lambda>s0 s1. s0 > s1)"

definition runVCmpLgU32VOP3a :: "VOP3ALayout \<Rightarrow> VOP3ALayout" where
  "runVCmpLgU32VOP3a = vcmp3 (\<lambda>s0 s1. s0 \<noteq> s1)"

definition runVCmpGeU32VOP3a :: "VOP3ALayout \<Rightarrow> VOP3ALayout" where
  "runVCmpGeU32VOP3a = vcmp3 (\<lambda>s0 s1. s0 \<ge> s1)"

definition runVCmpLtU64VOP3a :: "VOP3ALayout \<Rightarrow> VOP3ALayout" where
  "runVCmpLtU64VOP3a = vcmp3 (\<lambda>s0 s1. s0 < s1)"

definition runVCmpEqU64VOP3a :: "VOP3ALayout \<Rightarrow> VOP3ALayout" where
  "runVCmpEqU64VOP3a = vcmp3 (\<lambda>s0 s1. s0 = s1)"

definition runVCmpLeU64VOP3a :: "VOP3ALayout \<Rightarrow> VOP3ALayout" where
  "runVCmpLeU64VOP3a = vcmp3 (\<lambda>s0 s1. s0 \<le> s1)"

definition runVCmpGtU64VOP3a :: "VOP3ALayout \<Rightarrow> VOP3ALayout" where
  "runVCmpGtU64VOP3a = vcmp3 (\<lambda>s0 s1. s0 > s1)"

definition runVCmpLgU64VOP3a :: "VOP3ALayout \<Rightarrow> VOP3ALayout" where
  "runVCmpLgU64VOP3a = vcmp3 (\<lambda>s0 s1. s0 \<noteq> s1)"

definition runVCmpGeU64VOP3a :: "VOP3ALayout \<Rightarrow> VOP3ALayout" where
  "runVCmpGeU64VOP3a = vcmp3 (\<lambda>s0 s1. s0 \<ge> s1)"

definition runVCNDMASKB32VOP3a :: "VOP3ALayout \<Rightarrow> VOP3ALayout" where
  "runVCNDMASKB32VOP3a = lanes3 (\<lambda>i s0 s1 s2. if laneMasked s2 i then s1 else s0)"

definition runVMADI32I24 :: "VOP3ALayout \<Rightarrow> VOP3ALayout" where
  "runVMADI32I24 = lanes3 (\<lambda>i s0 s1 s2. scast (i24 s0 * i24 s1 + lo32 s2))"

definition runVMADU64U32 :: "VOP3ALayout \<Rightarrow> VOP3ALayout" where
  "runVMADU64U32 = lanes3 (\<lambda>i s0 s1 s2. s0 * s1 + s2)"

definition runVMULLOU32 :: "VOP3ALayout \<Rightarrow> VOP3ALayout" where
  "runVMULLOU32 = lanes3 (\<lambda>i s0 s1 s2. s0 * s1)"

definition runVMULHIU32 :: "VOP3ALayout \<Rightarrow> VOP3ALayout" where
  "runVMULHIU32 = lanes3 (\<lambda>i s0 s1 s2. drop_bit 32 (s0 * s1))"

definition runVLSHLREVB64 :: "VOP3ALayout \<Rightarrow> VOP3ALayout" where
  "runVLSHLREVB64 = lanes3 (\<lambda>i s0 s1 s2. push_bit (unat s0) s1)"

definition runVASHRREVI64 :: "VOP3ALayout \<Rightarrow> VOP3ALayout" where
  "runVASHRREVI64 = lanes3 (\<lambda>i s0 s1 s2. signed_drop_bit (unat s0) s1)"

text \<open>The first of three values, replaced by a later one that is better than the best so far.\<close>

definition best3 :: "(u32 \<Rightarrow> u32 \<Rightarrow> bool) \<Rightarrow> u64 \<Rightarrow> u64 \<Rightarrow> u64 \<Rightarrow> u64" where
  "best3 better s0 s1 s2 =
     (let dst = lo32 s0; dst = (if better (lo32 s1) dst then lo32 s1 else dst);
          dst = (if better (lo32 s2) dst then lo32 s2 else dst) in ucast dst)"

definition runVMIN3F32 :: "VOP3ALayout \<Rightarrow> VOP3ALayout" where
  "runVMIN3F32 = lanes3 (\<lambda>i s0 s1 s2. best3 f32_lt s0 s1 s2)"

definition runVMIN3I32 :: "VOP3ALayout \<Rightarrow> VOP3ALayout" where
  "runVMIN3I32 = lanes3 (\<lambda>i s0 s1 s2. best3 (\<lambda>x y. asInt32 x < asInt32 y) s0 s1 s2)"

definition runVMIN3U32 :: "VOP3ALayout \<Rightarrow> VOP3ALayout" where
  "runVMIN3U32 = lanes3 (\<lambda>i s0 s1 s2. best3 (<) s0 s1 s2)"

definition runVMAX3F32 :: "VOP3ALayout \<Rightarrow> VOP3ALayout" where
  "runVMAX3F32 = lanes3 (\<lambda>i s0 s1 s2. best3 (\<lambda>x y. f32_lt y x) s0 s1 s2)"

definition runVMAX3I32 :: "VOP3ALayout \<Rightarrow> VOP3ALayout" where
  "runVMAX3I32 = lanes3 (\<lambda>i s0 s1 s2. best3 (\<lambda>x y. asInt32 x > asInt32 y) s0 s1 s2)"

definition runVMAX3U32 :: "VOP3ALayout \<Rightarrow> VOP3ALayout" where
  "runVMAX3U32 = lanes3 (\<lambda>i s0 s1 s2. best3 (>) s0 s1 s2)"

text \<open>\<^verbatim>\<open>sort.Ints\<close> of the three values.\<close>

definition runVMED3I32 :: "VOP3ALayout \<Rightarrow> VOP3ALayout" where
  "runVMED3I32 = lanes3 (\<lambda>i s0 s1 s2. ucast (word_of_int (sort [asInt32 (lo32 s0), asInt32 (lo32 s1), asInt32 (lo32 s2)] ! 1) :: u32))"

definition median3Uint32 :: "u32 \<Rightarrow> u32 \<Rightarrow> u32 \<Rightarrow> u32" where
  "median3Uint32 a b c =
     (let out = a; out = (if b < a \<and> b > c \<or> b > a \<and> b < c then b else out)
      in if c < a \<and> c > b \<or> c > a \<and> c < b then c else out)"

definition runVMED3U32 :: "VOP3ALayout \<Rightarrow> VOP3ALayout" where
  "runVMED3U32 = lanes3 (\<lambda>i s0 s1 s2. ucast (median3Uint32 (lo32 s0) (lo32 s1) (lo32 s2)))"

text \<open>The \<^verbatim>\<open>F64\<close> and three-operand operations check for sub-dword selection first, the others do not.\<close>

definition float3_loop :: "go_float \<Rightarrow> nat \<Rightarrow> VOP3ALayout \<Rightarrow> VOP3ALayout result" where
  "float3_loop fl opc sp = fold (\<lambda>i r. bindR r (\<lambda>l. if laneMasked (vop3a_EXEC sp) i then
       bindR (fl_vop3 fl opc (vop3a_SRC0 sp ! i) (vop3a_SRC1 sp ! i) (vop3a_SRC2 sp ! i) (vop3a_DST sp ! i) (vop3a_VCC sp AND push_bit i 1))
         (\<lambda>v. Inr (l\<lparr>vop3a_DST := (vop3a_DST l)[i := v]\<rparr>)) else Inr l)) [0..<64] (Inr sp)"

definition vop3a_table :: "(nat \<times> (VOP3ALayout \<Rightarrow> VOP3ALayout)) list" where
  "vop3a_table =
     [(16, runVCmpClassF32VOP3a), (65, runVCmpLtF32VOP3a), (68, runVCmpGtF32VOP3a), (78, runVCmpNltF32VOP3a),
      (193, runVCmpLtI32VOP3a), (195, runVCmpLeI32VOP3a), (196, runVCmpGtI32VOP3a), (198, runVCmpGEI32VOP3a),
      (201, runVCmpLtU32VOP3a), (202, runVCmpEqU32VOP3a), (203, runVCmpLeU32VOP3a), (204, runVCmpGtU32VOP3a),
      (205, runVCmpLgU32VOP3a), (206, runVCmpGeU32VOP3a), (233, runVCmpLtU64VOP3a), (234, runVCmpEqU64VOP3a),
      (235, runVCmpLeU64VOP3a), (236, runVCmpGtU64VOP3a), (237, runVCmpLgU64VOP3a), (238, runVCmpGeU64VOP3a),
      (256, runVCNDMASKB32VOP3a), (450, runVMADI32I24), (451, runVMADU64U32), (488, runVMADU64U32),
      (464, runVMIN3F32), (465, runVMIN3I32), (466, runVMIN3U32), (467, runVMAX3F32), (468, runVMAX3I32), (469, runVMAX3U32),
      (471, runVMED3I32), (472, runVMED3U32), (645, runVMULLOU32), (646, runVMULHIU32), (655, runVLSHLREVB64), (657, runVASHRREVI64)]"

definition sdwa_checked :: "nat list" where
  "sdwa_checked = [460, 464, 465, 466, 467, 468, 469, 470, 471, 472, 479, 483, 640, 641]"

definition vop3a_op :: "go_float \<Rightarrow> Inst \<Rightarrow> VOP3ALayout \<Rightarrow> VOP3ALayout result" where
  "vop3a_op fl inst sp =
     (if i_IsSdwa inst \<and> i_Opcode inst \<in> set sdwa_checked then Inl (Panic ''SDWA for VOP3A instruction not implemented'')
      else if i_Opcode inst \<in> set [257, 258, 261, 278, 449, 460, 470, 479, 483, 640, 641] then float3_loop fl (i_Opcode inst) sp
      else bindR (dispatch ''Opcode for VOP3a format is not implemented'' vop3a_table (i_Opcode inst)) (\<lambda>f. Inr (f sp)))"

definition runVOP3A :: "go_float \<Rightarrow> Inst \<Rightarrow> scratchpad \<Rightarrow> scratchpad result" where
  "runVOP3A fl inst sp =
     bindR (vop3a_op fl inst (vop3aPreprocess fl inst (AsVOP3A sp))) (\<lambda>l. vop3aPostprocess inst (setVOP3A l sp))"

section \<open>VOP3b\<close>

text \<open>The loop assigns \<^verbatim>\<open>DST[i]\<close>, then tests it for a carry into bit \<^verbatim>\<open>i\<close> of \<^verbatim>\<open>SDST\<close> and keeps the low half.\<close>

definition lanes3b :: "(nat \<Rightarrow> u64 \<Rightarrow> u64 \<Rightarrow> u64 \<Rightarrow> u64) \<Rightarrow> (nat \<Rightarrow> u64 \<Rightarrow> u64 \<Rightarrow> u64 \<Rightarrow> bool) \<Rightarrow> VOP3BLayout \<Rightarrow> VOP3BLayout" where
  "lanes3b g c sp = sp\<lparr>vop3b_DST := lane_map (vop3b_EXEC sp) (\<lambda>i. g i (vop3b_SRC0 sp ! i) (vop3b_SRC1 sp ! i) (vop3b_SRC2 sp ! i)) (vop3b_DST sp),
     vop3b_SDST := lane_mask (vop3b_EXEC sp) (vop3b_SDST sp) (\<lambda>i. c i (vop3b_SRC0 sp ! i) (vop3b_SRC1 sp ! i) (vop3b_SRC2 sp ! i))\<rparr>"

definition wrap_if :: "bool \<Rightarrow> u64 \<Rightarrow> u64" where
  "wrap_if b v = (if b then v AND 0xffffffff else v)"

definition carry_in :: "nat \<Rightarrow> u64 \<Rightarrow> u64" where
  "carry_in i s2 = drop_bit i (s2 AND push_bit i 1)"

definition runVADDU32VOP3b :: "VOP3BLayout \<Rightarrow> VOP3BLayout" where
  "runVADDU32VOP3b =
     lanes3b (\<lambda>i s0 s1 s2. wrap_if (s0 + s1 > 0xffffffff) (s0 + s1))
       (\<lambda>i s0 s1 s2. s0 + s1 > 0xffffffff)"

definition runVSUBU32VOP3b :: "VOP3BLayout \<Rightarrow> VOP3BLayout" where
  "runVSUBU32VOP3b =
     lanes3b (\<lambda>i s0 s1 s2. wrap_if (s0 < s1) (s0 - s1))
       (\<lambda>i s0 s1 s2. s0 < s1)"

definition runVSUBREVU32VOP3b :: "VOP3BLayout \<Rightarrow> VOP3BLayout" where
  "runVSUBREVU32VOP3b =
     lanes3b (\<lambda>i s0 s1 s2. wrap_if (s1 - s0 > 0xffffffff) (s1 - s0))
       (\<lambda>i s0 s1 s2. s1 - s0 > 0xffffffff)"

definition runVADDCU32VOP3b :: "VOP3BLayout \<Rightarrow> VOP3BLayout" where
  "runVADDCU32VOP3b =
     lanes3b (\<lambda>i s0 s1 s2. (s0 + s1 + carry_in i s2) AND 0xffffffff)
       (\<lambda>i s0 s1 s2. s0 + s1 + carry_in i s2 > 0xffffffff)"

definition runVSUBBU32VOP3b :: "VOP3BLayout \<Rightarrow> VOP3BLayout" where
  "runVSUBBU32VOP3b =
     lanes3b (\<lambda>i s0 s1 s2. (s0 - s1 - carry_in i s2) AND 0xffffffff)
       (\<lambda>i s0 s1 s2. s0 - s1 - carry_in i s2 > 0xffffffff)"

definition runVSUBBREVU32VOP3b :: "VOP3BLayout \<Rightarrow> VOP3BLayout" where
  "runVSUBBREVU32VOP3b =
     lanes3b (\<lambda>i s0 s1 s2. (s1 - s0 - carry_in i s2) AND 0xffffffff)
       (\<lambda>i s0 s1 s2. s1 - s0 - carry_in i s2 > 0xffffffff)"

definition runVOP3B :: "go_float \<Rightarrow> Inst \<Rightarrow> scratchpad \<Rightarrow> scratchpad result" where
  "runVOP3B fl inst sp =
     (let sp = setVOP3A (vop3aPreprocess fl inst (AsVOP3A sp)) sp in
      bindR (dispatch ''Opcode for VOP3b format is not implemented''
        [(281, runVADDU32VOP3b), (282, runVSUBU32VOP3b), (283, runVSUBREVU32VOP3b), (284, runVADDCU32VOP3b),
         (285, runVSUBBU32VOP3b), (286, runVSUBBREVU32VOP3b),
         (481, \<lambda>l. l\<lparr>vop3b_DST := fst (fl_divscale fl l), vop3b_VCC := snd (fl_divscale fl l)\<rparr>)] (i_Opcode inst))
        (\<lambda>f. vop3aPostprocess inst (setVOP3B (f (AsVOP3B sp)) sp)))"

end
