(* ===== verification/Emu_Vector_Operands.thy ===== *)
theory Emu_Vector_Operands
  imports Emu_Vector
begin

text \<open>
  Moving the operands of vector instructions between the register files and the scratchpad
  (the vector part of \<^verbatim>\<open>mgpusim/emu/scratchpadpreparer.go\<close>). The first lemmas show what the layout
  structs hold after the preparation loops, the others what the commit loops leave in the
  vector register file: an active lane gets its result and no other register changes.
\<close>

section \<open>The loops\<close>

text \<open>\<^verbatim>\<open>for i := 0; i < 64; i++\<close> over operations that may panic.\<close>

definition each_lane :: "nat list \<Rightarrow> (nat \<Rightarrow> 's \<Rightarrow> 's result) \<Rightarrow> 's \<Rightarrow> 's result" where
  "each_lane ls f s = fold (\<lambda>i r. bindR r (f i)) ls (Inr s)"

definition prepareVOP1 :: "Inst \<Rightarrow> Wavefront \<Rightarrow> scratchpad \<Rightarrow> scratchpad result" where
  "prepareVOP1 inst wv sp =
     bindR (read_special EXEC wv 0 8 sp) (\<lambda>sp. bindR (read_special VCC wv 520 8 sp) (\<lambda>sp.
     each_lane [0..<64] (\<lambda>i. readOperand (i_Src0 inst) wv i (528 + 8 * i) 8) sp))"

definition prepareVOP2 :: "Inst \<Rightarrow> Wavefront \<Rightarrow> scratchpad \<Rightarrow> scratchpad result" where
  "prepareVOP2 inst wv sp =
     bindR (read_special EXEC wv 0 8 sp) (\<lambda>sp. bindR (read_special VCC wv 520 8 sp) (\<lambda>sp.
     bindR (if i_Src2 inst = None then Inr sp else readOperand (i_Src2 inst) wv 0 1552 8 sp) (\<lambda>sp.
     each_lane [0..<64] (\<lambda>i sp.
       bindR (readOperand (i_Dst inst) wv i (8 + 8 * i) 8 sp) (\<lambda>sp.
       bindR (readOperand (i_Src0 inst) wv i (528 + 8 * i) 8 sp) (readOperand (i_Src1 inst) wv i (1040 + 8 * i) 8))) sp)))"

definition prepareVOP3a :: "Inst \<Rightarrow> Wavefront \<Rightarrow> scratchpad \<Rightarrow> scratchpad result" where
  "prepareVOP3a inst wv sp =
     bindR (read_special EXEC wv 0 8 sp) (\<lambda>sp. bindR (read_special VCC wv 520 8 sp) (\<lambda>sp.
     each_lane [0..<64] (\<lambda>i sp.
       bindR (readOperand (i_Src0 inst) wv i (528 + 8 * i) 8 sp) (\<lambda>sp.
       bindR (readOperand (i_Src1 inst) wv i (1040 + 8 * i) 8 sp) (\<lambda>sp.
       if i_Src2 inst = None then Inr sp else readOperand (i_Src2 inst) wv i (1552 + 8 * i) 8 sp))) sp))"

definition prepareVOP3b :: "Inst \<Rightarrow> Wavefront \<Rightarrow> scratchpad \<Rightarrow> scratchpad result" where
  "prepareVOP3b = prepareVOP3a"

definition prepareVOPC :: "Inst \<Rightarrow> Wavefront \<Rightarrow> scratchpad \<Rightarrow> scratchpad result" where
  "prepareVOPC inst wv sp =
     bindR (each_lane [0..<64] (\<lambda>i sp.
       bindR (readOperand (i_Src0 inst) wv i (16 + 8 * i) 8 sp) (readOperand (i_Src1 inst) wv i (528 + 8 * i) 8)) sp)
     (\<lambda>sp. Inr (put64 0 (wf_Exec wv) sp))"

text \<open>\<^verbatim>\<open>writeOperand(inst.Dst, wf, i, sp[off+i*8:off+i*8+8])\<close> for the active lanes, in the order of the loop.\<close>

definition write_lanes :: "nat list \<Rightarrow> u64 \<Rightarrow> Operand option \<Rightarrow> (nat \<Rightarrow> byte list) \<Rightarrow> Wavefront \<Rightarrow> Wavefront result" where
  "write_lanes ls exec dst buf = each_lane ls (\<lambda>i wv. if \<not> laneMasked exec i then Inr wv else writeOperand dst i (buf i) wv)"

definition commitVOP1 :: "Inst \<Rightarrow> scratchpad \<Rightarrow> Wavefront \<Rightarrow> Wavefront result" where
  "commitVOP1 inst sp wv =
     bindR (WriteReg (Regs VCC) 1 0 (take 8 (drop 520 sp)) wv)
       (write_lanes (rev [0..<64]) (vop1_EXEC (AsVOP1 sp)) (i_Dst inst) (\<lambda>i. take 8 (drop (8 + 8 * i) sp)))"

definition commitVOP2 :: "Inst \<Rightarrow> scratchpad \<Rightarrow> Wavefront \<Rightarrow> Wavefront result" where
  "commitVOP2 inst sp wv =
     bindR (WriteReg (Regs VCC) 1 0 (take 8 (drop 520 sp)) wv)
       (write_lanes [0..<64] (vop2_EXEC (AsVOP2 sp)) (i_Dst inst) (\<lambda>i. take 8 (drop (8 + 8 * i) sp)))"

definition commitVOP3aCmp :: "Inst \<Rightarrow> scratchpad \<Rightarrow> Wavefront \<Rightarrow> Wavefront result" where
  "commitVOP3aCmp inst sp wv = writeOperand (i_Dst inst) 0 (take 8 (drop 8 sp)) wv"

definition commitVOP3a :: "Inst \<Rightarrow> scratchpad \<Rightarrow> Wavefront \<Rightarrow> Wavefront result" where
  "commitVOP3a inst sp wv =
     (if i_Opcode inst \<le> 255 then commitVOP3aCmp inst sp wv
      else bindR (WriteReg (Regs VCC) 1 0 (take 8 (drop 520 sp)) wv)
        (write_lanes (rev [0..<64]) (vop3a_EXEC (AsVOP3A sp)) (i_Dst inst) (\<lambda>i. take 8 (drop (8 + 8 * i) sp))))"

definition commitVOP3b :: "Inst \<Rightarrow> scratchpad \<Rightarrow> Wavefront \<Rightarrow> Wavefront result" where
  "commitVOP3b inst sp wv =
     bindR (WriteReg (Regs VCC) 1 0 (take 8 (drop 520 sp)) wv) (\<lambda>wv.
     bindR (write_lanes (rev [0..<64]) (vop3b_EXEC (AsVOP3B sp)) (i_Dst inst) (\<lambda>i. take 8 (drop (8 + 8 * i) sp)) wv)
       (writeOperand (i_SDst inst) 0 (Uint64ToBytes (vop3b_SDST (AsVOP3B sp)))))"

definition commitVOPC :: "scratchpad \<Rightarrow> Wavefront \<Rightarrow> Wavefront result" where
  "commitVOPC sp wv = Inr (wv\<lparr>wf_VCC := vopc_VCC (AsVOPC sp), wf_Exec := vopc_EXEC (AsVOPC sp)\<rparr>)"

section \<open>What the preparation loops leave\<close>

lemma each_lane_Nil [simp]: "each_lane [] f s = Inr s"
  by (simp add: each_lane_def)

lemma each_lane_snoc [simp]: "each_lane (ls @ [i]) f s = bindR (each_lane ls f s) (f i)"
  by (simp add: each_lane_def)

lemma each_lane_pure:
  "(\<And>i s. i \<in> set ls \<Longrightarrow> f i s = Inr (g i s)) \<Longrightarrow> each_lane ls f s = Inr (fold g ls s)"
  by (induction ls rule: rev_induct) simp_all

text \<open>A sequence of copies of at most 8 bytes.\<close>

definition wr :: "(nat \<times> byte list) list \<Rightarrow> scratchpad \<Rightarrow> scratchpad" where
  "wr ws sp = fold (\<lambda>(a, d) sp. copy_at sp a (take 8 d)) ws sp"

lemma wr_simps [simp]: "wr [] sp = sp" "wr [(a, d)] sp = copy_at sp a (take 8 d)"
  "wr (us @ vs) sp = wr vs (wr us sp)"
  by (simp_all add: wr_def)

lemma fold_wr: "fold (\<lambda>i. wr (row i)) ls sp = wr (concat (map row ls)) sp"
  by (induction ls arbitrary: sp) simp_all

lemma get64_copy_again:
  assumes "sp_ok sp" "off + 8 \<le> 4096" "get64 off sp = le_word (take 8 d)"
  shows "get64 off (copy_at sp off (take 8 d)) = le_word (take 8 d)"
proof (rule bit_word_eqI)
  fix n
  assume n: "n < LENGTH(64)"
  then have n8: "n div 8 < 8" by (simp add: less_mult_imp_div_less)
  then have n9: "n div 8 < 4096 - off" using assms(2) by linarith
  let ?t = "take 8 d"
  have z: "bit (sp ! (off + n div 8)) (n mod 8) \<longleftrightarrow> n div 8 < length ?t \<and> bit (?t ! (n div 8)) (n mod 8)"
    using arg_cong [OF assms(3), of "\<lambda>w. bit w n"] n n8 n9 assms(1,2) by (simp add: get64_def bit_le_word sp_ok_def)
  have "bit (get64 off (copy_at sp off ?t)) n \<longleftrightarrow> bit (copy_at sp off ?t ! (off + n div 8)) (n mod 8)"
    using n n8 assms(1,2) by (simp add: get64_def bit_le_word sp_ok_def)
  also have "\<dots> \<longleftrightarrow> n div 8 < length ?t \<and> bit (?t ! (n div 8)) (n mod 8)"
    using n8 assms(1,2) z by (simp add: nth_copy_at sp_ok_def)
  finally show "bit (get64 off (copy_at sp off ?t)) n = bit (le_word ?t :: u64) n" using n by (auto simp: bit_le_word)
qed

text \<open>Copies to aligned slots that agree on what goes where.\<close>

lemma wr_get64:
  assumes "sp_ok sp" "\<forall>(a, d) \<in> set ws. 8 dvd a \<and> a + 8 \<le> 4096 \<and> le_word (take 8 d) = F a \<and> get64 a sp = 0" "8 dvd x" "x + 8 \<le> 4096"
  shows "sp_ok (wr ws sp)" "get64 x (wr ws sp) = (if x \<in> fst ` set ws then F x else get64 x sp)"
  using assms(2)
proof (induction ws rule: rev_induct)
  case Nil
  { case 1 then show ?case using assms by simp next case 2 then show ?case by simp }
next
  case (snoc w ws)
  obtain a d where w: "w = (a, d)" by fastforce
  { case 1 then show ?case using snoc.IH(1) by (simp add: w)
  next
    case 2
    then have a: "8 dvd a" "a + 8 \<le> 4096" "le_word (take 8 d) = F a" "get64 a sp = 0" by (simp_all add: w)
    have okw: "sp_ok (wr ws sp)" and IH: "get64 x (wr ws sp) = (if x \<in> fst ` set ws then F x else get64 x sp)"
      using snoc.IH 2 by simp_all
    show ?case
    proof (cases "x = a")
      case True
      then show ?thesis using get64_copy [OF okw a(2)] get64_copy_again [OF okw a(2)] a IH by (auto simp: w split: if_splits)
    next
      case False
      then have "x + 8 \<le> a \<or> a + 8 \<le> x" using a(1) assms(3) by (auto elim!: dvdE)
      then have "get64 x (copy_at (wr ws sp) a (take 8 d)) = get64 x (wr ws sp)"
        using okw a(2) by (intro get64_copy_other) auto
      then show ?thesis using IH False by (simp add: w)
    qed
  }
qed

text \<open>The operand of a lane, when reading it does not panic.\<close>

definition lane_values :: "Operand option \<Rightarrow> Wavefront \<Rightarrow> (nat \<Rightarrow> u64) \<Rightarrow> bool" where
  "lane_values opd wv A \<longleftrightarrow> (\<forall>i < 64. operand_value opd i wv = Inr (A i))"

definition lane_bytes :: "Operand option \<Rightarrow> Wavefront \<Rightarrow> nat \<Rightarrow> byte list" where
  "lane_bytes opd wv i = (case operand_bytes opd i wv of Inr d \<Rightarrow> d | Inl _ \<Rightarrow> [])"

lemma lane_valuesD:
  assumes "lane_values opd wv A" "i < 64"
  shows "A i = le_word (take 8 (lane_bytes opd wv i))"
    "readOperand opd wv i off 8 sp = Inr (wr [(off, lane_bytes opd wv i)] sp)"
  using assms by (auto simp: lane_values_def lane_bytes_def operand_value_def readOperand_def bindR_eq_Inr)

text \<open>The rows a loop copies, and the slots they fill.\<close>

lemma fill_view:
  assumes "sp_ok sp" and row: "\<forall>i < 64. \<forall>(a, d) \<in> set (row i).
      8 dvd a \<and> a + 8 \<le> 4096 \<and> le_word (take 8 d) = F a \<and> get64 a sp = 0"
  defines "sp' \<equiv> wr (concat (map row [0..<64])) sp"
  shows "sp_ok sp'"
    and "i < 64 \<Longrightarrow> x \<in> fst ` set (row i) \<Longrightarrow> get64 x sp' = F x"
    and "8 dvd x \<Longrightarrow> x + 8 \<le> 4096 \<Longrightarrow> (\<And>i. i < 64 \<Longrightarrow> x \<notin> fst ` set (row i)) \<Longrightarrow> get64 x sp' = get64 x sp"
proof -
  let ?ws = "concat (map row [0..<64])"
  have ws: "\<forall>(a, d) \<in> set ?ws. 8 dvd a \<and> a + 8 \<le> 4096 \<and> le_word (take 8 d) = F a \<and> get64 a sp = 0" using row by simp
  show "sp_ok sp'" using wr_get64(1) [OF assms(1) ws, of 0] by (simp add: sp'_def)
  show "get64 x sp' = F x" if i: "i < 64" "x \<in> fst ` set (row i)"
  proof -
    obtain b where "(x, b) \<in> set (row i)" using i(2) by auto
    then have b: "(x, b) \<in> set ?ws" using i(1) by auto
    from bspec [OF ws b] have x: "8 dvd x" "x + 8 \<le> 4096" by simp_all
    have "x \<in> fst ` set ?ws" using image_eqI [of x fst, OF _ b] by simp
    then show ?thesis using wr_get64(2) [OF assms(1) ws x] by (simp add: sp'_def)
  qed
  show "get64 x sp' = get64 x sp" if "8 dvd x" "x + 8 \<le> 4096" "\<And>i. i < 64 \<Longrightarrow> x \<notin> fst ` set (row i)"
  proof -
    have "x \<notin> fst ` set ?ws"
    proof
      assume "x \<in> fst ` set ?ws"
      then obtain i b where "i < 64" "(x, b) \<in> set (row i)" by auto
      then show False using that(3) [of i] by force
    qed
    then show ?thesis using wr_get64(2) [OF assms(1) ws that(1,2)] by (simp add: sp'_def)
  qed
qed

lemma prepareVOP2_view:
  assumes "sp_ok sp" "lane_values (i_Dst inst) wv D" "lane_values (i_Src0 inst) wv A" "lane_values (i_Src1 inst) wv B"
    and "i_Src2 inst = None"
  shows "\<exists>sp'. prepareVOP2 inst wv (clear sp) = Inr sp' \<and> sp_ok sp' \<and>
    AsVOP2 sp' = \<lparr>vop2_EXEC = wf_Exec wv, vop2_DST = map D [0..<64], vop2_VCC = wf_VCC wv, vop2_SRC0 = map A [0..<64],
                   vop2_SRC1 = map B [0..<64], vop2_LiteralConstant = 0\<rparr>"
proof -
  let ?s = "put64 520 (wf_VCC wv) (put64 0 (wf_Exec wv) (clear sp))"
  let ?row = "\<lambda>i. [(8 + 8 * i, lane_bytes (i_Dst inst) wv i), (528 + 8 * i, lane_bytes (i_Src0 inst) wv i),
                  (1040 + 8 * i, lane_bytes (i_Src1 inst) wv i)]"
  let ?F = "\<lambda>x. if x < 520 then D ((x - 8) div 8) else if x < 1040 then A ((x - 528) div 8) else B ((x - 1040) div 8)"
  let ?sp' = "wr (concat (map ?row [0..<64])) ?s"
  have sok: "sp_ok ?s" using assms(1) by simp
  have "each_lane [0..<64] (\<lambda>i sp. bindR (readOperand (i_Dst inst) wv i (8 + 8 * i) 8 sp) (\<lambda>sp.
       bindR (readOperand (i_Src0 inst) wv i (528 + 8 * i) 8 sp) (readOperand (i_Src1 inst) wv i (1040 + 8 * i) 8))) ?s
     = Inr (fold (\<lambda>i. wr (?row i)) [0..<64] ?s)"
    using lane_valuesD(2) [OF assms(2)] lane_valuesD(2) [OF assms(3)] lane_valuesD(2) [OF assms(4)]
    by (intro each_lane_pure) (simp add: wr_def)
  then have prep: "prepareVOP2 inst wv (clear sp) = Inr ?sp'"
    using assms(5) unfolding fold_wr by (simp add: prepareVOP2_def)
  have row: "\<forall>i < 64. \<forall>(a, d) \<in> set (?row i). 8 dvd a \<and> a + 8 \<le> 4096 \<and> le_word (take 8 d) = ?F a \<and> get64 a ?s = 0"
    using assms(1) lane_valuesD(1) [OF assms(2)] lane_valuesD(1) [OF assms(3)] lane_valuesD(1) [OF assms(4)] by auto
  note fv = fill_view [OF sok row]
  have arr: "get64s 8 ?sp' = map D [0..<64]" "get64s 528 ?sp' = map A [0..<64]" "get64s 1040 ?sp' = map B [0..<64]"
    using fv(2) by (auto intro!: nth_equalityI)
  have oth: "get64 0 ?sp' = wf_Exec wv" "get64 520 ?sp' = wf_VCC wv" "get64 1552 ?sp' = 0"
    using fv(3) [of 0] fv(3) [of 520] fv(3) [of 1552] assms(1) by auto
  show ?thesis using prep fv(1) by (auto simp: AsVOP2_def arr oth)
qed

lemma prepareVOPC_view:
  assumes "sp_ok sp" "lane_values (i_Src0 inst) wv A" "lane_values (i_Src1 inst) wv B"
  shows "\<exists>sp'. prepareVOPC inst wv (clear sp) = Inr sp' \<and> sp_ok sp' \<and>
    AsVOPC sp' = \<lparr>vopc_EXEC = wf_Exec wv, vopc_VCC = 0, vopc_SRC0 = map A [0..<64], vopc_SRC1 = map B [0..<64]\<rparr>"
proof -
  let ?row = "\<lambda>i. [(16 + 8 * i, lane_bytes (i_Src0 inst) wv i), (528 + 8 * i, lane_bytes (i_Src1 inst) wv i)]"
  let ?F = "\<lambda>x. if x < 528 then A ((x - 16) div 8) else B ((x - 528) div 8)"
  let ?sp' = "wr (concat (map ?row [0..<64])) (clear sp)"
  have "each_lane [0..<64] (\<lambda>i sp. bindR (readOperand (i_Src0 inst) wv i (16 + 8 * i) 8 sp)
       (readOperand (i_Src1 inst) wv i (528 + 8 * i) 8)) (clear sp) = Inr (fold (\<lambda>i. wr (?row i)) [0..<64] (clear sp))"
    using lane_valuesD(2) [OF assms(2)] lane_valuesD(2) [OF assms(3)]
    by (intro each_lane_pure) (simp add: wr_def)
  then have prep: "prepareVOPC inst wv (clear sp) = Inr (put64 0 (wf_Exec wv) ?sp')"
    unfolding fold_wr by (simp add: prepareVOPC_def)
  have row: "\<forall>i < 64. \<forall>(a, d) \<in> set (?row i). 8 dvd a \<and> a + 8 \<le> 4096 \<and> le_word (take 8 d) = ?F a \<and> get64 a (clear sp) = 0"
    using assms(1) lane_valuesD(1) [OF assms(2)] lane_valuesD(1) [OF assms(3)] by auto
  note fv = fill_view [OF sp_ok_clear [OF assms(1)] row]
  have arr: "get64s 16 ?sp' = map A [0..<64]" "get64s 528 ?sp' = map B [0..<64]"
    using fv(2) by (auto intro!: nth_equalityI)
  have oth: "get64 8 ?sp' = 0" using fv(3) [of 8] assms(1) by auto
  show ?thesis using prep fv(1) by (auto simp: AsVOPC_def arr oth)
qed

section \<open>What the commit loops leave\<close>

lemma write_lanes_V:
  assumes "wf_ok wv" "d + nregs c \<le> 256" "\<And>i. i \<in> set ls \<Longrightarrow> i < 64 \<and> 4 * nregs c \<le> length (buf i)" "distinct ls"
  shows "\<exists>wv'. write_lanes ls exec (Some (RegOperand (Regs (V d)) c)) buf wv = Inr wv' \<and> wf_ok wv' \<and>
    (\<exists>f. wv' = wv\<lparr>wf_VRegFile := f\<rparr>) \<and>
    (\<forall>i \<in> set ls. bit exec i \<longrightarrow> ReadReg (Regs (V d)) c i wv' = Inr (take (4 * nregs c) (buf i))) \<and>
    (\<forall>u c' l'. (\<forall>i \<in> set ls. bit exec i \<longrightarrow> separate (reg_span (V d) c i) (reg_span u c' l')) \<longrightarrow>
       ReadReg (Regs u) c' l' wv' = ReadReg (Regs u) c' l' wv)"
  using assms(3,4)
proof (induction ls rule: rev_induct)
  case Nil
  have "\<exists>f. wv = wv\<lparr>wf_VRegFile := f\<rparr>" by (rule exI [of _ "wf_VRegFile wv"]) simp
  then show ?case using assms(1) by (simp add: write_lanes_def)
next
  case (snoc k ls)
  have p: "\<And>i. i \<in> set ls \<Longrightarrow> i < 64 \<and> 4 * nregs c \<le> length (buf i)" "distinct ls" using snoc.prems by simp_all
  obtain w where w: "write_lanes ls exec (Some (RegOperand (Regs (V d)) c)) buf wv = Inr w" "wf_ok w" "\<exists>f. w = wv\<lparr>wf_VRegFile := f\<rparr>"
    and rd: "\<forall>i \<in> set ls. bit exec i \<longrightarrow> ReadReg (Regs (V d)) c i w = Inr (take (4 * nregs c) (buf i))"
    and fr: "\<forall>u c' l'. (\<forall>i \<in> set ls. bit exec i \<longrightarrow> separate (reg_span (V d) c i) (reg_span u c' l')) \<longrightarrow>
       ReadReg (Regs u) c' l' w = ReadReg (Regs u) c' l' wv"
    using snoc.IH [OF p] by blast
  have k: "k < 64" "4 * nregs c \<le> length (buf k)" "k \<notin> set ls" using snoc.prems by auto
  show ?case
  proof (cases "bit exec k")
    case False
    then show ?thesis using w rd fr by (auto simp: write_lanes_def)
  next
    case True
    let ?data = "take (4 * nregs c) (buf k)"
    let ?w' = "w\<lparr>wf_VRegFile := copy_at (wf_VRegFile w) (1024 * k + 4 * d) ?data\<rparr>"
    have wr: "writes (V d) c k ?data w ?w'" using writes_V [OF w(2) assms(2) k(1)] k(2) by simp
    have fr_w: "separate (reg_span (V d) c k) (reg_span u c' l') \<Longrightarrow> ReadReg (Regs u) c' l' ?w' = ReadReg (Regs u) c' l' w" for u c' l'
      using wr by (simp add: writes_def)
    have step: "write_lanes (ls @ [k]) exec (Some (RegOperand (Regs (V d)) c)) buf wv = Inr ?w'"
      using w(1) True WriteReg_V [OF w(2) assms(2) k(1), of "buf k"] by (simp add: write_lanes_def)
    have sep: "separate (reg_span (V d) c k) (reg_span (V d) c i)" if "i \<in> set ls" for i
    proof -
      have "i < k \<or> k < i" using k(3) that by (metis nat_neq_iff)
      then show ?thesis using assms(2) by (auto simp: separate_def)
    qed
    show ?thesis
    proof (intro exI [of _ ?w'] conjI allI impI ballI)
      show "write_lanes (ls @ [k]) exec (Some (RegOperand (Regs (V d)) c)) buf wv = Inr ?w'" by (rule step)
      show "wf_ok ?w'" using wr by (simp add: writes_def)
      show "\<exists>f. ?w' = wv\<lparr>wf_VRegFile := f\<rparr>" using w(3) by auto
    next
      fix i assume "i \<in> set (ls @ [k])" "bit exec i"
      then show "ReadReg (Regs (V d)) c i ?w' = Inr (take (4 * nregs c) (buf i))"
        using rd fr_w [OF sep [of i]] wr by (cases "i = k") (simp_all add: writes_def)
    next
      fix u c' l' assume "\<forall>i \<in> set (ls @ [k]). bit exec i \<longrightarrow> separate (reg_span (V d) c i) (reg_span u c' l')"
      then have "separate (reg_span (V d) c k) (reg_span u c' l')" "ReadReg (Regs u) c' l' w = ReadReg (Regs u) c' l' wv"
        using fr True by simp_all
      then show "ReadReg (Regs u) c' l' ?w' = ReadReg (Regs u) c' l' wv" using fr_w by simp
    qed
  qed
qed

end
