(* ===== verification/Emu_Memory.thy ===== *)
theory Emu_Memory
  imports Emu_Vector_Operands Storage Page_Table
begin

text \<open>
  The memory side of the emulator: the accessor that translates virtual addresses and reads or
  writes the backing storage page by page (\<^verbatim>\<open>mgpusim/emu/storageaccessor.go\<close>), the scalar loads
  (\<^verbatim>\<open>SMEM\<close>, \<^verbatim>\<open>alu.go\<close>), the flat loads and stores (\<^verbatim>\<open>alu_flat.go\<close>) and the accesses to the local
  data share (\<^verbatim>\<open>aluds.go\<close>), with the operand movement of these formats.

  The ALU reaches memory only through the accessor's two methods, the record \<open>memory_port\<close>
  over a state \<open>'m\<close>. The address converter, an interface that may be \<^verbatim>\<open>nil\<close>, is a partial function. The
  accessor's loops take one unit of fuel per byte; the theorems that give a result show that it is enough.
\<close>

section \<open>The storage accessor\<close>

record 'm storageAccessor =
  sa_storage :: storage
  sa_addrConverter :: "(u64 \<Rightarrow> u64 result) option"
  sa_pageTable :: "'m PageTableImpl"
  sa_log2PageSize :: nat

definition newStorageAccessor ::
    "storage \<Rightarrow> 'm PageTableImpl \<Rightarrow> nat \<Rightarrow> (u64 \<Rightarrow> u64 result) option \<Rightarrow> 'm storageAccessor" where
  "newStorageAccessor sto pageTable log2PageSize addrConverter =
     \<lparr>sa_storage = sto, sa_addrConverter = addrConverter, sa_pageTable = pageTable, sa_log2PageSize = log2PageSize\<rparr>"

definition sizeInPageLeft :: "nat \<Rightarrow> u64 \<Rightarrow> u64" where
  "sizeInPageLeft log2PageSize currVAddr =
     push_bit log2PageSize (drop_bit log2PageSize currVAddr + 1) - currVAddr"

text \<open>The storage address of \<open>currVAddr\<close>, with the page looked up at \<open>keyVAddr\<close>.\<close>

definition translate :: "'m storageAccessor \<Rightarrow> u32 \<Rightarrow> u64 \<Rightarrow> u64 \<Rightarrow> (u64 \<times> 'm storageAccessor) result" where
  "translate a pid keyVAddr currVAddr =
     (let (r, pt) = pt_Find pid keyVAddr (sa_pageTable a); a = a\<lparr>sa_pageTable := pt\<rparr> in
      case r of
        None \<Rightarrow> Inl (Panic ''page not found in page table'')
      | Some page \<Rightarrow> let pAddr = pg_PAddr page + (currVAddr - pg_VAddr page) in
          bindR (case sa_addrConverter a of None \<Rightarrow> Inr pAddr | Some conv \<Rightarrow> conv pAddr) (\<lambda>storageAddr. Inr (storageAddr, a)))"

text \<open>An error of the storage makes the accessor panic.\<close>

definition sto_result :: "(storage \<times> (string + 'a)) result option \<Rightarrow> (storage \<times> 'a) result" where
  "sto_result r = (case r of None \<Rightarrow> Inl Diverges | Some (Inl p) \<Rightarrow> Inl p
     | Some (Inr (s, Inl err)) \<Rightarrow> Inl (Panic err) | Some (Inr (s, Inr x)) \<Rightarrow> Inr (s, x))"

fun acc_read_loop ::
    "nat \<Rightarrow> u32 \<Rightarrow> u64 \<Rightarrow> u64 \<Rightarrow> u64 \<Rightarrow> byte list \<Rightarrow> 'm storageAccessor \<Rightarrow> (byte list \<times> 'm storageAccessor) result" where
  "acc_read_loop 0 pid vAddr offset sizeLeft data a = Inl Diverges"
| "acc_read_loop (Suc fuel) pid vAddr offset sizeLeft data a =
     (if \<not> 0 < sizeLeft then Inr (data, a)
      else let currVAddr = vAddr + offset; left = sizeInPageLeft (sa_log2PageSize a) currVAddr;
               sizeToRead = (if left > sizeLeft then sizeLeft else left) in
        bindR (translate a pid currVAddr currVAddr) (\<lambda>(storageAddr, a).
        bindR (sto_result (storage_Read (sa_storage a) storageAddr sizeToRead)) (\<lambda>(s, d).
        acc_read_loop fuel pid vAddr (offset + sizeToRead) (sizeLeft - sizeToRead)
          (copy_at data (unat offset) (take (length data - unat offset) d)) (a\<lparr>sa_storage := s\<rparr>))))"

definition accessor_Read :: "u32 \<Rightarrow> u64 \<Rightarrow> u64 \<Rightarrow> 'm storageAccessor \<Rightarrow> (byte list \<times> 'm storageAccessor) result" where
  "accessor_Read pid vAddr byteSize a =
     acc_read_loop (Suc (unat byteSize)) pid vAddr 0 byteSize (replicate (unat byteSize) 0) a"

fun acc_write_loop ::
    "nat \<Rightarrow> u32 \<Rightarrow> u64 \<Rightarrow> u64 \<Rightarrow> u64 \<Rightarrow> byte list \<Rightarrow> 'm storageAccessor \<Rightarrow> 'm storageAccessor result" where
  "acc_write_loop 0 pid vAddr offset sizeLeft data a = Inl Diverges"
| "acc_write_loop (Suc fuel) pid vAddr offset sizeLeft data a =
     (if \<not> 0 < sizeLeft then Inr a
      else let currVAddr = vAddr + offset; left = sizeInPageLeft (sa_log2PageSize a) currVAddr;
               sizeToWrite = (if left > sizeLeft then sizeLeft else left) in
        bindR (translate a pid vAddr currVAddr) (\<lambda>(storageAddr, a).
        bindR (sto_result (storage_Write (sa_storage a) storageAddr (take (unat sizeToWrite) (drop (unat offset) data)))) (\<lambda>(s, _).
        acc_write_loop fuel pid vAddr (offset + sizeToWrite) (sizeLeft - sizeToWrite) data (a\<lparr>sa_storage := s\<rparr>))))"

definition accessor_Write :: "u32 \<Rightarrow> u64 \<Rightarrow> byte list \<Rightarrow> 'm storageAccessor \<Rightarrow> 'm storageAccessor result" where
  "accessor_Write pid vAddr data a =
     acc_write_loop (Suc (length data)) pid vAddr 0 (of_nat (length data)) data a"

record 'm memory_port =
  mp_Read :: "u32 \<Rightarrow> u64 \<Rightarrow> u64 \<Rightarrow> 'm \<Rightarrow> (byte list \<times> 'm) result"
  mp_Write :: "u32 \<Rightarrow> u64 \<Rightarrow> byte list \<Rightarrow> 'm \<Rightarrow> 'm result"

definition accessor_port :: "'m storageAccessor memory_port" where
  "accessor_port = \<lparr>mp_Read = accessor_Read, mp_Write = accessor_Write\<rparr>"

section \<open>SMEM: scalar loads\<close>

definition runSLOADDWORD :: "'m memory_port \<Rightarrow> u32 \<Rightarrow> scratchpad \<times> 'm \<Rightarrow> (scratchpad \<times> 'm) result" where
  "runSLOADDWORD mp pid = (\<lambda>(sp, m). bindR (mp_Read mp pid (get64 24 sp + get64 16 sp) 4 m) (\<lambda>(buf, m).
     bindR (BytesToUint32 buf) (\<lambda>v. Inr (put32 32 v sp, m))))"

definition smem_load :: "u64 \<Rightarrow> 'm memory_port \<Rightarrow> u32 \<Rightarrow> scratchpad \<times> 'm \<Rightarrow> (scratchpad \<times> 'm) result" where
  "smem_load n mp pid = (\<lambda>(sp, m). bindR (mp_Read mp pid (get64 24 sp + get64 16 sp) n m) (\<lambda>(buf, m).
     Inr (copy_at sp 32 (take (unat n) buf), m)))"

definition runSLOADDWORDX2 :: "'m memory_port \<Rightarrow> u32 \<Rightarrow> scratchpad \<times> 'm \<Rightarrow> (scratchpad \<times> 'm) result" where
  "runSLOADDWORDX2 = smem_load 8"

definition runSLOADDWORDX4 :: "'m memory_port \<Rightarrow> u32 \<Rightarrow> scratchpad \<times> 'm \<Rightarrow> (scratchpad \<times> 'm) result" where
  "runSLOADDWORDX4 = smem_load 16"

definition runSLOADDWORDX8 :: "'m memory_port \<Rightarrow> u32 \<Rightarrow> scratchpad \<times> 'm \<Rightarrow> (scratchpad \<times> 'm) result" where
  "runSLOADDWORDX8 = smem_load 32"

definition runSMEM :: "'m memory_port \<Rightarrow> u32 \<Rightarrow> nat \<Rightarrow> scratchpad \<times> 'm \<Rightarrow> (scratchpad \<times> 'm) result" where
  "runSMEM mp pid opc s = bindR (dispatch ''Opcode for SMEM format is not implemented''
     [(0, runSLOADDWORD), (1, runSLOADDWORDX2), (2, runSLOADDWORDX4), (3, runSLOADDWORDX8)] opc) (\<lambda>f. f mp pid s)"

section \<open>FLAT: vector loads and stores\<close>

text \<open>The loop over the active lanes; \<^verbatim>\<open>EXEC\<close> at 0, \<^verbatim>\<open>ADDR\<close> at 8, \<^verbatim>\<open>DATA\<close> at 520, \<^verbatim>\<open>DST\<close> at 1544.\<close>

definition active_lanes :: "scratchpad \<Rightarrow> (nat \<Rightarrow> 's \<Rightarrow> 's result) \<Rightarrow> 's \<Rightarrow> 's result" where
  "active_lanes sp f = each_lane [0..<64] (\<lambda>i s. if \<not> laneMasked (get64 0 sp) i then Inr s else f i s)"

text \<open>A load of \<open>n\<close> bytes that keeps the first \<open>k\<close>, as dwords of \<^verbatim>\<open>DST[i*4]\<close> on.\<close>

definition flat_load :: "u64 \<Rightarrow> nat \<Rightarrow> 'm memory_port \<Rightarrow> u32 \<Rightarrow> scratchpad \<times> 'm \<Rightarrow> (scratchpad \<times> 'm) result" where
  "flat_load n k mp pid = (\<lambda>(sp0, m0). active_lanes sp0 (\<lambda>i (sp, m).
     bindR (mp_Read mp pid (get64 (8 + 8 * i) sp) n m) (\<lambda>(buf, m).
     if length buf < unat n then Inl IndexOutOfRange
     else Inr (copy_at sp (1544 + 16 * i) (take k buf @ replicate (unat n - k) 0), m))) (sp0, m0))"

definition runFlatLoadUByte :: "'m memory_port \<Rightarrow> u32 \<Rightarrow> scratchpad \<times> 'm \<Rightarrow> (scratchpad \<times> 'm) result" where
  "runFlatLoadUByte = flat_load 4 1"

definition runFlatLoadUShort :: "'m memory_port \<Rightarrow> u32 \<Rightarrow> scratchpad \<times> 'm \<Rightarrow> (scratchpad \<times> 'm) result" where
  "runFlatLoadUShort = flat_load 4 2"

definition runFlatLoadDWord :: "'m memory_port \<Rightarrow> u32 \<Rightarrow> scratchpad \<times> 'm \<Rightarrow> (scratchpad \<times> 'm) result" where
  "runFlatLoadDWord = flat_load 4 4"

definition runFlatLoadDWordX2 :: "'m memory_port \<Rightarrow> u32 \<Rightarrow> scratchpad \<times> 'm \<Rightarrow> (scratchpad \<times> 'm) result" where
  "runFlatLoadDWordX2 = flat_load 8 8"

definition runFlatLoadDWordX4 :: "'m memory_port \<Rightarrow> u32 \<Rightarrow> scratchpad \<times> 'm \<Rightarrow> (scratchpad \<times> 'm) result" where
  "runFlatLoadDWordX4 = flat_load 16 16"

text \<open>A store of the first \<open>k\<close> dwords of \<^verbatim>\<open>DATA[i*4]\<close>.\<close>

definition flat_store :: "nat \<Rightarrow> 'm memory_port \<Rightarrow> u32 \<Rightarrow> scratchpad \<times> 'm \<Rightarrow> (scratchpad \<times> 'm) result" where
  "flat_store k mp pid = (\<lambda>(sp0, m0). active_lanes sp0 (\<lambda>i (sp, m).
     bindR (mp_Write mp pid (get64 (8 + 8 * i) sp)
              (concat (map (\<lambda>j. Uint32ToBytes (get32 (520 + 16 * i + 4 * j) sp)) [0..<k])) m) (\<lambda>m. Inr (sp, m))) (sp0, m0))"

definition runFlatStoreDWord :: "'m memory_port \<Rightarrow> u32 \<Rightarrow> scratchpad \<times> 'm \<Rightarrow> (scratchpad \<times> 'm) result" where
  "runFlatStoreDWord = flat_store 1"

definition runFlatStoreDWordX2 :: "'m memory_port \<Rightarrow> u32 \<Rightarrow> scratchpad \<times> 'm \<Rightarrow> (scratchpad \<times> 'm) result" where
  "runFlatStoreDWordX2 = flat_store 2"

definition runFlatStoreDWordX3 :: "'m memory_port \<Rightarrow> u32 \<Rightarrow> scratchpad \<times> 'm \<Rightarrow> (scratchpad \<times> 'm) result" where
  "runFlatStoreDWordX3 = flat_store 3"

definition runFlatStoreDWordX4 :: "'m memory_port \<Rightarrow> u32 \<Rightarrow> scratchpad \<times> 'm \<Rightarrow> (scratchpad \<times> 'm) result" where
  "runFlatStoreDWordX4 = flat_store 4"

definition runFlat :: "'m memory_port \<Rightarrow> u32 \<Rightarrow> nat \<Rightarrow> scratchpad \<times> 'm \<Rightarrow> (scratchpad \<times> 'm) result" where
  "runFlat mp pid opc s = bindR (dispatch ''Opcode for FLAT format is not implemented''
     [(16, runFlatLoadUByte), (18, runFlatLoadUShort), (20, runFlatLoadDWord), (21, runFlatLoadDWordX2), (23, runFlatLoadDWordX4),
      (28, runFlatStoreDWord), (29, runFlatStoreDWordX2), (30, runFlatStoreDWordX3), (31, runFlatStoreDWordX4)] opc)
     (\<lambda>f. f mp pid s)"

section \<open>DS: the local data share\<close>

text \<open>
  \<^verbatim>\<open>EXEC\<close> at 0, \<^verbatim>\<open>ADDR\<close> (32 bit) at 8, \<^verbatim>\<open>DATA\<close> at 264, \<^verbatim>\<open>DATA1\<close> at 1288, \<^verbatim>\<open>DST\<close> at 2312. A slice of
  the share outside its length panics.
\<close>

definition ds_write :: "u32 \<Rightarrow> nat \<Rightarrow> nat \<Rightarrow> nat \<Rightarrow> scratchpad \<times> byte list \<Rightarrow> (scratchpad \<times> byte list) result" where
  "ds_write offset from n i = (\<lambda>(sp, lds).
     bindR (copy_range lds (unat (get32 (8 + 4 * i) sp + offset)) n (take n (drop (from + 16 * i) sp))) (\<lambda>lds. Inr (sp, lds)))"

definition ds_read :: "u32 \<Rightarrow> nat \<Rightarrow> nat \<Rightarrow> nat \<Rightarrow> scratchpad \<times> byte list \<Rightarrow> (scratchpad \<times> byte list) result" where
  "ds_read offset at n i = (\<lambda>(sp, lds).
     bindR (slice_range lds (unat (get32 (8 + 4 * i) sp + offset)) n) (\<lambda>d. Inr (copy_at sp (at + 16 * i) d, lds)))"

definition runDSWRITEB32 :: "Inst \<Rightarrow> scratchpad \<times> byte list \<Rightarrow> (scratchpad \<times> byte list) result" where
  "runDSWRITEB32 inst s = active_lanes (fst s) (ds_write (i_Offset0 inst) 264 4) s"

definition runDSWRITE2B32 :: "Inst \<Rightarrow> scratchpad \<times> byte list \<Rightarrow> (scratchpad \<times> byte list) result" where
  "runDSWRITE2B32 inst s = active_lanes (fst s) (\<lambda>i s.
     bindR (ds_write (i_Offset0 inst * 4) 264 4 i s) (ds_write (i_Offset1 inst * 4) 1288 4 i)) s"

definition runDSREADB32 :: "Inst \<Rightarrow> scratchpad \<times> byte list \<Rightarrow> (scratchpad \<times> byte list) result" where
  "runDSREADB32 inst s = active_lanes (fst s) (ds_read (i_Offset0 inst) 2312 4) s"

definition runDSREAD2B32 :: "Inst \<Rightarrow> scratchpad \<times> byte list \<Rightarrow> (scratchpad \<times> byte list) result" where
  "runDSREAD2B32 inst s = active_lanes (fst s) (\<lambda>i s.
     bindR (ds_read (i_Offset0 inst * 4) 2312 4 i s) (ds_read (i_Offset1 inst * 4) 2316 4 i)) s"

definition runDSWRITE2B64 :: "Inst \<Rightarrow> scratchpad \<times> byte list \<Rightarrow> (scratchpad \<times> byte list) result" where
  "runDSWRITE2B64 inst s = active_lanes (fst s) (\<lambda>i s.
     bindR (ds_write (i_Offset0 inst * 8) 264 8 i s) (ds_write (i_Offset1 inst * 8) 1288 8 i)) s"

definition runDSREADB64 :: "Inst \<Rightarrow> scratchpad \<times> byte list \<Rightarrow> (scratchpad \<times> byte list) result" where
  "runDSREADB64 inst s = active_lanes (fst s) (ds_read 0 2312 8) s"

definition runDSREAD2B64 :: "Inst \<Rightarrow> scratchpad \<times> byte list \<Rightarrow> (scratchpad \<times> byte list) result" where
  "runDSREAD2B64 inst s = active_lanes (fst s) (\<lambda>i s.
     bindR (ds_read (i_Offset0 inst * 8) 2312 8 i s) (ds_read (i_Offset1 inst * 8) 2320 8 i)) s"

definition runDS :: "Inst \<Rightarrow> scratchpad \<times> byte list \<Rightarrow> (scratchpad \<times> byte list) result" where
  "runDS inst s = bindR (dispatch ''Opcode for DS format is not implemented''
     [(13, runDSWRITEB32), (14, runDSWRITE2B32), (54, runDSREADB32), (55, runDSREAD2B32), (78, runDSWRITE2B64),
      (118, runDSREADB64), (119, runDSREAD2B64)] (i_Opcode inst)) (\<lambda>f. f inst s)"

section \<open>Moving operands\<close>

definition prepareFlat :: "Inst \<Rightarrow> Wavefront \<Rightarrow> scratchpad \<Rightarrow> scratchpad result" where
  "prepareFlat inst wv sp =
     bindR (read_special EXEC wv 0 8 sp) (each_lane [0..<64] (\<lambda>i sp.
       bindR (readOperand (i_Addr inst) wv i (8 + 8 * i) 8 sp) (readOperand (i_Data inst) wv i (520 + 16 * i) 16)))"

definition prepareDS :: "Inst \<Rightarrow> Wavefront \<Rightarrow> scratchpad \<Rightarrow> scratchpad result" where
  "prepareDS inst wv sp =
     bindR (each_lane [0..<64] (\<lambda>i. readOperand (i_Addr inst) wv i (8 + 4 * i) 4) (put64 0 (wf_Exec wv) sp)) (\<lambda>sp.
     bindR (if i_Data inst = None then Inr sp
            else each_lane [0..<64] (\<lambda>i. readOperand (i_Data inst) wv i (264 + 16 * i) 16) sp) (\<lambda>sp.
     if i_Data1 inst = None then Inr sp
     else each_lane [0..<64] (\<lambda>i. readOperand (i_Data1 inst) wv i (1288 + 16 * i) 16) sp))"

definition commitFlat :: "Inst \<Rightarrow> scratchpad \<Rightarrow> Wavefront \<Rightarrow> Wavefront result" where
  "commitFlat inst sp wv =
     (if i_Opcode inst < 24 \<or> 31 < i_Opcode inst
      then write_lanes [0..<64] (get64 0 sp) (i_Dst inst) (\<lambda>i. take 16 (drop (1544 + 16 * i) sp)) wv
      else Inr wv)"

definition commitDS :: "Inst \<Rightarrow> scratchpad \<Rightarrow> Wavefront \<Rightarrow> Wavefront result" where
  "commitDS inst sp wv =
     (if i_Dst inst = None then Inr wv
      else write_lanes [0..<64] (get64 0 sp) (i_Dst inst) (\<lambda>i. take 16 (drop (2312 + 16 * i) sp)) wv)"

end
