(* ===== verification/Emu_Unit.thy ===== *)
theory Emu_Unit
  imports Emu_Memory
begin

text \<open>
  The emulator's compute unit (\<^verbatim>\<open>mgpusim/emu/computeunit.go\<close>): executing one instruction is
  \<^verbatim>\<open>Prepare\<close> (registers into the scratchpad), \<^verbatim>\<open>Run\<close> (the ALU on the scratchpad) and \<^verbatim>\<open>Commit\<close> (the
  scratchpad into the registers), each a switch on the instruction format; a wavefront runs until a
  barrier or its end, and a work-group runs its wavefronts in turn until all have completed.

  The properties are about whole instructions and sequences of them: what reaches the register
  files after the three phases.

  The wavefronts of a work-group share one local data share, which is passed beside them. The
  decoder, an interface of the compute unit, is a parameter. The loops of a wavefront and of a
  work-group need not end and take fuel.
\<close>

section \<open>The three phases\<close>

definition Prepare :: "Inst \<Rightarrow> Wavefront \<Rightarrow> scratchpad \<Rightarrow> scratchpad result" where
  "Prepare inst wv sp0 =
     (let sp = clear sp0 in
      case i_FormatType inst of
        SOP1 \<Rightarrow> prepareSOP1 inst wv sp | SOP2 \<Rightarrow> prepareSOP2 inst wv sp | SOPC \<Rightarrow> prepareSOPC inst wv sp
      | VOP1 \<Rightarrow> prepareVOP1 inst wv sp | VOP2 \<Rightarrow> prepareVOP2 inst wv sp | VOP3a \<Rightarrow> prepareVOP3a inst wv sp
      | VOP3b \<Rightarrow> prepareVOP3b inst wv sp | VOPC \<Rightarrow> prepareVOPC inst wv sp | FLAT \<Rightarrow> prepareFlat inst wv sp
      | SMEM \<Rightarrow> prepareSMEM inst wv sp | SOPP \<Rightarrow> prepareSOPP inst wv sp | SOPK \<Rightarrow> prepareSOPK inst wv sp
      | DS \<Rightarrow> prepareDS inst wv sp | _ \<Rightarrow> Inl (Panic ''Inst format is not supported''))"

definition pureALU :: "scratchpad result \<Rightarrow> byte list \<Rightarrow> 'm \<Rightarrow> (scratchpad \<times> byte list \<times> 'm) result" where
  "pureALU r lds m = bindR r (\<lambda>sp. Inr (sp, lds, m))"

definition ALU_Run ::
    "go_float \<Rightarrow> 'm memory_port \<Rightarrow> Inst \<Rightarrow> u32 \<Rightarrow> scratchpad \<Rightarrow> byte list \<Rightarrow> 'm \<Rightarrow> (scratchpad \<times> byte list \<times> 'm) result" where
  "ALU_Run fl mp inst pid sp lds m =
     (let opc = i_Opcode inst in
      case i_FormatType inst of
        SOP1 \<Rightarrow> pureALU (runSOP1 opc sp) lds m | SOP2 \<Rightarrow> pureALU (runSOP2 opc sp) lds m | SOPC \<Rightarrow> pureALU (runSOPC opc sp) lds m
      | SMEM \<Rightarrow> bindR (runSMEM mp pid opc (sp, m)) (\<lambda>(sp, m). Inr (sp, lds, m))
      | VOP1 \<Rightarrow> pureALU (runVOP1 fl opc sp) lds m | VOP2 \<Rightarrow> pureALU (runVOP2 fl inst sp) lds m
      | VOP3a \<Rightarrow> pureALU (runVOP3A fl inst sp) lds m | VOP3b \<Rightarrow> pureALU (runVOP3B fl inst sp) lds m
      | VOPC \<Rightarrow> pureALU (runVOPC opc sp) lds m
      | FLAT \<Rightarrow> bindR (runFlat mp pid opc (sp, m)) (\<lambda>(sp, m). Inr (sp, lds, m))
      | SOPP \<Rightarrow> pureALU (runSOPP opc sp) lds m | SOPK \<Rightarrow> pureALU (runSOPK opc sp) lds m
      | DS \<Rightarrow> bindR (runDS inst (sp, lds)) (\<lambda>(sp, lds). Inr (sp, lds, m))
      | _ \<Rightarrow> Inl (Panic ''Inst format is not supported''))"

definition Commit :: "Inst \<Rightarrow> scratchpad \<Rightarrow> Wavefront \<Rightarrow> Wavefront result" where
  "Commit inst sp wv =
     (case i_FormatType inst of
        SOP1 \<Rightarrow> commitSOP1 inst sp wv | SOP2 \<Rightarrow> commitSOP2 inst sp wv | VOP1 \<Rightarrow> commitVOP1 inst sp wv
      | VOP2 \<Rightarrow> commitVOP2 inst sp wv | VOP3a \<Rightarrow> commitVOP3a inst sp wv | VOP3b \<Rightarrow> commitVOP3b inst sp wv
      | VOPC \<Rightarrow> commitVOPC sp wv | FLAT \<Rightarrow> commitFlat inst sp wv | SMEM \<Rightarrow> commitSMEM inst sp wv
      | SOPP \<Rightarrow> commitSOPP sp wv | SOPC \<Rightarrow> commitSOPC sp wv | SOPK \<Rightarrow> commitSOPK inst sp wv
      | DS \<Rightarrow> commitDS inst sp wv | _ \<Rightarrow> Inl (Panic ''Inst format is not supported''))"

record 'm emu_state =
  es_wf :: Wavefront
  es_lds :: "byte list"
  es_mem :: 'm

definition executeInst :: "go_float \<Rightarrow> 'm memory_port \<Rightarrow> Inst \<Rightarrow> 'm emu_state \<Rightarrow> 'm emu_state result" where
  "executeInst fl mp inst s =
     (let wv = es_wf s in
      bindR (Prepare inst wv (wf_scratchpad wv)) (\<lambda>sp.
      bindR (ALU_Run fl mp inst (wf_pid wv) sp (es_lds s) (es_mem s)) (\<lambda>(sp, lds, m).
      bindR (Commit inst sp (wv\<lparr>wf_scratchpad := sp\<rparr>)) (\<lambda>wv.
      Inr \<lparr>es_wf = wv, es_lds = lds, es_mem = m\<rparr>))))"

section \<open>Wavefronts and work-groups\<close>

text \<open>\<^verbatim>\<open>inst, _ := cu.decoder.Decode(instBuf)\<close>: the error is dropped and a \<^verbatim>\<open>nil\<close> instruction dereferenced.\<close>

fun runWfUntilBarrier ::
    "nat \<Rightarrow> (byte list \<Rightarrow> Inst option) \<Rightarrow> go_float \<Rightarrow> 'm memory_port \<Rightarrow> 'm emu_state \<Rightarrow> 'm emu_state result" where
  "runWfUntilBarrier 0 decode fl mp s = Inl Diverges"
| "runWfUntilBarrier (Suc fuel) decode fl mp s =
     bindR (mp_Read mp (wf_pid (es_wf s)) (wf_PC (es_wf s)) 8 (es_mem s)) (\<lambda>(instBuf, m).
       case decode instBuf of None \<Rightarrow> Inl NilDereference
       | Some inst \<Rightarrow>
           let wv = (es_wf s)\<lparr>wf_PC := wf_PC (es_wf s) + i_ByteSize inst\<rparr>; s = s\<lparr>es_wf := wv, es_mem := m\<rparr> in
           if i_FormatType inst = SOPP \<and> i_Opcode inst = 10 then Inr (s\<lparr>es_wf := wv\<lparr>wf_AtBarrier := True\<rparr>\<rparr>)
           else if i_FormatType inst = SOPP \<and> i_Opcode inst = 1 then Inr (s\<lparr>es_wf := wv\<lparr>wf_Completed := True\<rparr>\<rparr>)
           else bindR (executeInst fl mp inst s) (runWfUntilBarrier fuel decode fl mp))"

definition isAllWfCompleted :: "Wavefront list \<Rightarrow> bool" where
  "isAllWfCompleted wfs = list_all wf_Completed wfs"

fun clear_barriers :: "Wavefront list \<Rightarrow> Wavefront list result" where
  "clear_barriers [] = Inr []"
| "clear_barriers (wv # wfs) =
     (if \<not> wf_AtBarrier wv then Inl (Panic ''not all wavefronts at barrier'')
      else bindR (clear_barriers wfs) (\<lambda>wfs. Inr (wv\<lparr>wf_AtBarrier := False\<rparr> # wfs)))"

definition resolveBarrier :: "Wavefront list \<Rightarrow> Wavefront list result" where
  "resolveBarrier wfs = (if isAllWfCompleted wfs then Inr wfs else clear_barriers wfs)"

text \<open>The inner loop of \<^verbatim>\<open>runWG\<close>: every wavefront in turn, on the shared local data share and memory.\<close>

fun run_wfs ::
    "nat \<Rightarrow> (byte list \<Rightarrow> Inst option) \<Rightarrow> go_float \<Rightarrow> 'm memory_port \<Rightarrow> Wavefront list \<Rightarrow> byte list \<times> 'm \<Rightarrow>
     (Wavefront list \<times> byte list \<times> 'm) result" where
  "run_wfs fuel decode fl mp [] (lds, m) = Inr ([], lds, m)"
| "run_wfs fuel decode fl mp (wv # wfs) (lds, m) =
     bindR (runWfUntilBarrier fuel decode fl mp \<lparr>es_wf = wv, es_lds = lds, es_mem = m\<rparr>) (\<lambda>s.
     bindR (run_wfs fuel decode fl mp wfs (es_lds s, es_mem s)) (\<lambda>(wfs', r). Inr (es_wf s # wfs', r)))"

fun runWG_loop ::
    "nat \<Rightarrow> nat \<Rightarrow> (byte list \<Rightarrow> Inst option) \<Rightarrow> go_float \<Rightarrow> 'm memory_port \<Rightarrow> Wavefront list \<Rightarrow> byte list \<times> 'm \<Rightarrow>
     (Wavefront list \<times> byte list \<times> 'm) result" where
  "runWG_loop 0 fuel decode fl mp wfs r = Inl Diverges"
| "runWG_loop (Suc n) fuel decode fl mp wfs r =
     (if isAllWfCompleted wfs then Inr (wfs, r)
      else bindR (run_wfs fuel decode fl mp wfs r) (\<lambda>(wfs, r).
           bindR (resolveBarrier wfs) (\<lambda>wfs. runWG_loop n fuel decode fl mp wfs r)))"

section \<open>Scalar instructions\<close>

text \<open>The value of a scalar register, and of a pair of them.\<close>

definition sreg :: "Wavefront \<Rightarrow> nat \<Rightarrow> u32" where
  "sreg wv i = le_word (take 4 (drop (4 * i) (wf_SRegFile wv)))"

definition sreg64 :: "Wavefront \<Rightarrow> nat \<Rightarrow> u64" where
  "sreg64 wv i = ucast (sreg wv i) + ucast (sreg wv (i + 1)) * 0x100000000"

lemma SRegValue_sreg: "wf_ok wv \<Longrightarrow> i < 102 \<Longrightarrow> SRegValue i wv = Inr (sreg wv i)"
  by (simp add: SRegValue_def slice_range_def wf_ok_def BytesToUint32_def sreg_def mult.commute)

lemma le_word_u64: "length bs \<le> 4 \<Longrightarrow> (le_word bs :: u64) = ucast (le_word bs :: u32)"
  by (rule bit_word_eqI) (auto simp: bit_le_word bit_simps)

lemma operand_value_S:
  assumes "wf_ok wv" "i < 102"
  shows "operand_value (Some (NewSRegOperand i 1)) 0 wv = Inr (ucast (sreg wv i))"
proof -
  have "length (take 4 (drop (4 * i) (wf_SRegFile wv))) = 4" using assms by (simp add: wf_ok_def)
  then show ?thesis using assms ReadReg_S [OF assms(1), of i 1 0]
    by (simp add: operand_value_def NewSRegOperand_def sreg_def le_word_u64)
qed

lemma sreg_write:
  assumes "wf_ok wv" "d < 102" "i < 102"
  shows "sreg (wv\<lparr>wf_SRegFile := copy_at (wf_SRegFile wv) (4 * d) (Uint32ToBytes v)\<rparr>) i = (if i = d then v else sreg wv i)"
proof (cases "i = d")
  case True
  then show ?thesis using assms by (simp add: sreg_def wf_ok_def copy_at_read_same) (simp add: Uint32ToBytes_def)
next
  case False
  then have "4 * i + 4 \<le> 4 * d \<or> 4 * d + 4 \<le> 4 * i" by linarith
  then show ?thesis using assms False by (simp add: sreg_def wf_ok_def copy_at_read_other)
qed

lemma take4_Uint64: "take 4 (Uint64ToBytes v) = Uint32ToBytes (lo32 v)"
  by (rule nth_equalityI) (auto simp: Uint64ToBytes_def Uint32ToBytes_def lo32_def intro!: bit_word_eqI simp: bit_simps)

lemma writeOperand_S:
  assumes "wf_ok wv" "d < 102"
  shows "writeOperand (Some (NewSRegOperand d 1)) 0 (Uint64ToBytes v) wv =
    Inr (wv\<lparr>wf_SRegFile := copy_at (wf_SRegFile wv) (4 * d) (Uint32ToBytes (lo32 v))\<rparr>)"
  using WriteReg_S [OF assms(1), of d 1 0] assms(2) by (simp add: NewSRegOperand_def take4_Uint64)

lemma wf_ok_SRegFile:
  "wf_ok wv \<Longrightarrow> d < 102 \<Longrightarrow> wf_ok (wv\<lparr>wf_SRegFile := copy_at (wf_SRegFile wv) (4 * d) (Uint32ToBytes v)\<rparr>)"
  by (simp add: wf_ok_def)

text \<open>A scalar two-operand instruction, up to what its operation makes of the layout.\<close>

lemma execute_SOP2:
  fixes s :: "'m emu_state"
  assumes "wf_ok (es_wf s)" "i_FormatType inst = SOP2" "dispatch ''Opcode for SOP2 format is not implemented'' sop2_table (i_Opcode inst) = Inr f"
    and "operand_value (i_Src0 inst) 0 (es_wf s) = Inr a" "operand_value (i_Src1 inst) 0 (es_wf s) = Inr b"
  shows "\<exists>sp. sp_ok sp \<and> AsSOP2 sp = \<lparr>sop2_SRC0 = a, sop2_SRC1 = b, sop2_DST = 0, sop2_SCC = wf_SCC (es_wf s)\<rparr> \<and>
    executeInst fl mp inst s =
      bindR (writeOperand (i_Dst inst) 0 (Uint64ToBytes (sop2_DST (AsSOP2 (f sp)))) ((es_wf s)\<lparr>wf_scratchpad := f sp\<rparr>))
        (\<lambda>wv. Inr (s\<lparr>es_wf := wv\<lparr>wf_SCC := sop2_SCC (AsSOP2 (f sp))\<rparr>\<rparr>))"
proof -
  have "sp_ok (wf_scratchpad (es_wf s))" using assms(1) by (simp add: wf_ok_def sp_ok_def)
  then obtain sp where sp: "prepareSOP2 inst (es_wf s) (clear (wf_scratchpad (es_wf s))) = Inr sp" "sp_ok sp"
    "AsSOP2 sp = \<lparr>sop2_SRC0 = a, sop2_SRC1 = b, sop2_DST = 0, sop2_SCC = wf_SCC (es_wf s)\<rparr>"
    using prepareSOP2_view [OF _ assms(4,5)] by blast
  have "sp_ok (f sp)" using sop2_ops_ok [OF sp(2) dispatch_Inr [OF assms(3)]] .
  then have "executeInst fl mp inst s =
      bindR (writeOperand (i_Dst inst) 0 (Uint64ToBytes (sop2_DST (AsSOP2 (f sp)))) ((es_wf s)\<lparr>wf_scratchpad := f sp\<rparr>))
        (\<lambda>wv. Inr (s\<lparr>es_wf := wv\<lparr>wf_SCC := sop2_SCC (AsSOP2 (f sp))\<rparr>\<rparr>))"
    using assms(2,3) sp(1) by (simp add: executeInst_def Let_def Prepare_def ALU_Run_def Commit_def pureALU_def runSOP2_def commitSOP2_eq bindR_def
        split: sum.splits)
  then show ?thesis using sp(2,3) by blast
qed

definition sop2_inst :: "nat \<Rightarrow> nat \<Rightarrow> nat \<Rightarrow> nat \<Rightarrow> Inst" where
  "sop2_inst opc d a b = (NewInst SOP2 opc)\<lparr>i_Src0 := Some (NewSRegOperand a 1), i_Src1 := Some (NewSRegOperand b 1),
     i_Dst := Some (NewSRegOperand d 1)\<rparr>"

lemma sop2_inst_simps [simp]:
  "i_FormatType (sop2_inst opc d a b) = SOP2" "i_Opcode (sop2_inst opc d a b) = opc"
  "i_Src0 (sop2_inst opc d a b) = Some (NewSRegOperand a 1)" "i_Src1 (sop2_inst opc d a b) = Some (NewSRegOperand b 1)"
  "i_Dst (sop2_inst opc d a b) = Some (NewSRegOperand d 1)"
  by (simp_all add: sop2_inst_def NewInst_def)

text \<open>What changes when a scalar register and SCC are written; the scratchpad is the emulator's own.\<close>

definition swrite :: "nat \<Rightarrow> u32 \<Rightarrow> byte \<Rightarrow> 'm emu_state \<Rightarrow> 'm emu_state \<Rightarrow> bool" where
  "swrite d v scc s s' \<longleftrightarrow> wf_ok (es_wf s') \<and> (\<forall>i < 102. sreg (es_wf s') i = (if i = d then v else sreg (es_wf s) i)) \<and>
     wf_SCC (es_wf s') = scc \<and> (\<exists>f sp. s' = s\<lparr>es_wf := (es_wf s)\<lparr>wf_SRegFile := f, wf_SCC := scc, wf_scratchpad := sp\<rparr>\<rparr>)"

lemma execute_sop2_inst:
  fixes s :: "'m emu_state"
  assumes "wf_ok (es_wf s)" "d < 102" "a < 102" "b < 102" "dispatch ''Opcode for SOP2 format is not implemented'' sop2_table opc = Inr f"
    and f: "\<And>sp. sp_ok sp \<Longrightarrow> AsSOP2 sp = \<lparr>sop2_SRC0 = ucast (sreg (es_wf s) a), sop2_SRC1 = ucast (sreg (es_wf s) b), sop2_DST = 0,
               sop2_SCC = wf_SCC (es_wf s)\<rparr> \<Longrightarrow> lo32 (sop2_DST (AsSOP2 (f sp))) = v \<and> sop2_SCC (AsSOP2 (f sp)) = scc"
  shows "\<exists>s'. executeInst fl mp (sop2_inst opc d a b) s = Inr s' \<and> swrite d v scc s s'"
proof -
  let ?i = "sop2_inst opc d a b"
  have d': "dispatch ''Opcode for SOP2 format is not implemented'' sop2_table (i_Opcode ?i) = Inr f" using assms(5) by simp
  obtain sp where sp: "sp_ok sp" "AsSOP2 sp = \<lparr>sop2_SRC0 = ucast (sreg (es_wf s) a), sop2_SRC1 = ucast (sreg (es_wf s) b),
      sop2_DST = 0, sop2_SCC = wf_SCC (es_wf s)\<rparr>"
    "executeInst fl mp ?i s =
      bindR (writeOperand (Some (NewSRegOperand d 1)) 0 (Uint64ToBytes (sop2_DST (AsSOP2 (f sp)))) ((es_wf s)\<lparr>wf_scratchpad := f sp\<rparr>))
        (\<lambda>wv. Inr (s\<lparr>es_wf := wv\<lparr>wf_SCC := sop2_SCC (AsSOP2 (f sp))\<rparr>\<rparr>))"
    using execute_SOP2 [OF assms(1) sop2_inst_simps(1) d'] operand_value_S [OF assms(1)] assms(3,4) by fastforce
  have okf: "sp_ok (f sp)" using sop2_ops_ok [OF sp(1) dispatch_Inr [OF assms(5)]] .
  let ?w = "(es_wf s)\<lparr>wf_scratchpad := f sp\<rparr>"
  let ?file = "copy_at (wf_SRegFile (es_wf s)) (4 * d) (Uint32ToBytes v)"
  let ?s' = "s\<lparr>es_wf := (es_wf s)\<lparr>wf_SRegFile := ?file, wf_SCC := scc, wf_scratchpad := f sp\<rparr>\<rparr>"
  have w: "wf_ok ?w" using assms(1) okf by (simp add: sp_ok_def)
  have "executeInst fl mp ?i s = Inr ?s'" using sp(3) writeOperand_S [OF w assms(2)] f [OF sp(1,2)] by simp
  moreover have "swrite d v scc s ?s'"
  proof -
    have "wf_ok ((es_wf s)\<lparr>wf_SRegFile := ?file\<rparr>)" by (rule wf_ok_SRegFile [OF assms(1,2)])
    moreover have "sreg ((es_wf s)\<lparr>wf_SRegFile := ?file, wf_SCC := scc, wf_scratchpad := f sp\<rparr>) i =
        sreg ((es_wf s)\<lparr>wf_SRegFile := ?file\<rparr>) i" for i by (simp add: sreg_def)
    ultimately show ?thesis using sreg_write [OF assms(1,2)] okf by (auto simp: swrite_def wf_ok_def sp_ok_def)
  qed
  ultimately show ?thesis by blast
qed

lemma swrite_frame:
  assumes "swrite d v c s t"
  obtains f sp where "t = s\<lparr>es_wf := (es_wf s)\<lparr>wf_SRegFile := f, wf_SCC := c, wf_scratchpad := sp\<rparr>\<rparr>"
  using assms by (auto simp: swrite_def)

lemma swrite_frame_trans:
  assumes "swrite d v c s t" "swrite d' v' c' t u"
  shows "\<exists>f b sp. u = s\<lparr>es_wf := (es_wf s)\<lparr>wf_SRegFile := f, wf_SCC := b, wf_scratchpad := sp\<rparr>\<rparr>"
proof -
  obtain f sp where "t = s\<lparr>es_wf := (es_wf s)\<lparr>wf_SRegFile := f, wf_SCC := c, wf_scratchpad := sp\<rparr>\<rparr>"
    by (rule swrite_frame [OF assms(1)])
  moreover obtain f' sp' where "u = t\<lparr>es_wf := (es_wf t)\<lparr>wf_SRegFile := f', wf_SCC := c', wf_scratchpad := sp'\<rparr>\<rparr>"
    by (rule swrite_frame [OF assms(2)])
  ultimately have "u = s\<lparr>es_wf := (es_wf s)\<lparr>wf_SRegFile := f', wf_SCC := c', wf_scratchpad := sp'\<rparr>\<rparr>" by simp
  then show ?thesis by blast
qed

lemma u32_carry: "(x::u32) > 0xffffffff - y \<longleftrightarrow> 2 ^ 32 \<le> unat x + unat y"
proof -
  have "y \<le> 0xffffffff" using unsigned_less [of y, where ?'a = nat] by (simp add: word_le_nat_alt)
  then have "unat (0xffffffff - y) = 2 ^ 32 - 1 - unat y" by (simp add: unat_sub)
  then show ?thesis using unsigned_less [of y, where ?'a = nat] by (auto simp: word_less_nat_alt)
qed

lemma lo32_ucast [simp]: "lo32 (ucast (v::u32)) = v"
  by (rule bit_word_eqI) (auto simp: lo32_def bit_simps)

lemma execute_s_add:
  fixes s :: "'m emu_state"
  assumes "wf_ok (es_wf s)" "d < 102" "a < 102" "b < 102"
  shows "\<exists>s'. executeInst fl mp (sop2_inst 0 d a b) s = Inr s' \<and>
    swrite d (sreg (es_wf s) a + sreg (es_wf s) b) (flag (2 ^ 32 \<le> unat (sreg (es_wf s) a) + unat (sreg (es_wf s) b))) s s'"
  by (rule execute_sop2_inst [OF assms, of _ runSADDU32])
     (simp_all add: dispatch_def sop2_table_def runSADDU32_def AsSOP2_put get32_AsSOP2 u32_carry Let_def)

lemma execute_s_addc:
  fixes s :: "'m emu_state"
  assumes "wf_ok (es_wf s)" "d < 102" "a < 102" "b < 102"
  shows "\<exists>s'. executeInst fl mp (sop2_inst 4 d a b) s = Inr s' \<and>
    swrite d (sreg (es_wf s) a + sreg (es_wf s) b + ucast (wf_SCC (es_wf s)))
      (if sreg (es_wf s) a < 0xffffffff - ucast (wf_SCC (es_wf s)) - sreg (es_wf s) b then 0 else 1) s s'"
  by (rule execute_sop2_inst [OF assms, of _ runSADDCU32])
     (simp_all add: dispatch_def sop2_table_def runSADDCU32_def AsSOP2_put get32_AsSOP2 Let_def)

lemma of_nat_split: "(of_nat n :: u64) = of_nat (n mod 2 ^ 32) + of_nat (n div 2 ^ 32) * 0x100000000"
proof -
  have "(of_nat n :: u64) = of_nat (n mod 2 ^ 32 + n div 2 ^ 32 * 2 ^ 32)" by (simp only: mod_div_mult_eq)
  also have "\<dots> = of_nat (n mod 2 ^ 32) + of_nat (n div 2 ^ 32) * 2 ^ 32"
    by (simp only: of_nat_add of_nat_mult of_nat_power of_nat_numeral)
  finally show ?thesis by simp
qed

lemma of_nat_mod_64: "(of_nat (n mod 2 ^ 32) :: u64) * 0x100000000 = of_nat n * 0x100000000"
proof -
  have "(of_nat n :: u64) * 0x100000000 = of_nat (n mod 2 ^ 32) * 0x100000000 + of_nat (n div 2 ^ 32) * (0x100000000 * 0x100000000)"
    unfolding of_nat_split [of n] distrib_right mult.assoc by simp
  also have "(0x100000000 * 0x100000000 :: u64) = 0" by simp
  finally show ?thesis by simp
qed

lemma ucast_of_nat_unat: "(ucast (x :: u32) :: u64) = of_nat (unat x)"
  by simp

text \<open>Addition of two halves with a carry is 64-bit addition.\<close>

lemma add_halves:
  fixes al ah bl bh :: u32
  shows "ucast (al + bl) + ucast (ah + bh + ucast (flag (2 ^ 32 \<le> unat al + unat bl))) * 0x100000000 =
    (ucast al + ucast ah * 0x100000000) + (ucast bl + ucast bh * 0x100000000 :: u64)"
proof -
  define c where "c = (unat al + unat bl) div 2 ^ 32"
  define k where "k = (ucast (flag (2 ^ 32 \<le> unat al + unat bl)) :: u32)"
  have "unat al + unat bl < 2 * 2 ^ 32"
    using unsigned_less [of al, where ?'a = nat] unsigned_less [of bl, where ?'a = nat] by simp
  then have "c = (if 2 ^ 32 \<le> unat al + unat bl then 1 else 0)" unfolding c_def by (auto intro: div_nat_eqI)
  then have c: "unat k = c" by (simp add: k_def flag_def)
  have m: "unat (al + bl) = (unat al + unat bl) mod 2 ^ 32" by (simp add: unat_word_ariths(1))
  have lo: "of_nat (unat al) + of_nat (unat bl) = (ucast (al + bl) :: u64) + of_nat c * 0x100000000"
    using of_nat_split [of "unat al + unat bl"] unfolding ucast_of_nat_unat m c_def by simp
  have "unat (ah + bh + k) = (unat ah + unat bh + c) mod 2 ^ 32"
    by (simp add: unat_word_ariths(1) c mod_simps)
  then have hi: "ucast (ah + bh + k) * 0x100000000 = (of_nat (unat ah + unat bh + c) :: u64) * 0x100000000"
    unfolding ucast_of_nat_unat by (simp only: of_nat_mod_64)
  have "ucast (al + bl) + (of_nat (unat ah + unat bh + c) :: u64) * 0x100000000 =
      (ucast (al + bl) + of_nat c * 0x100000000) + (of_nat (unat ah) + of_nat (unat bh)) * 0x100000000"
    by (simp only: of_nat_add distrib_right ac_simps)
  then show ?thesis unfolding k_def [symmetric] hi lo [symmetric] by (simp only: ucast_of_nat_unat distrib_right ac_simps)
qed

section \<open>Properties\<close>

text \<open>
  \<^verbatim>\<open>S_ADD_U32\<close> and \<^verbatim>\<open>S_ADDC_U32\<close> on the two halves of scalar register pairs add 64-bit numbers: executed one
  after the other by the emulator they never panic, leave the sum of the pairs in the destination pair, and
  change no other scalar register, vector register, mask, program counter, local or global memory.
\<close>

theorem s_add64:
  fixes s :: "'m emu_state"
  assumes "wf_ok (es_wf s)" "d + 1 < 102" "a + 1 < 102" "b + 1 < 102" "d \<noteq> a + 1" "d \<noteq> b + 1"
  shows "\<exists>s'. bindR (executeInst fl mp (sop2_inst 0 d a b) s) (executeInst fl mp (sop2_inst 4 (d + 1) (a + 1) (b + 1))) = Inr s' \<and>
    wf_ok (es_wf s') \<and> sreg64 (es_wf s') d = sreg64 (es_wf s) a + sreg64 (es_wf s) b \<and>
    (\<forall>i < 102. i \<noteq> d \<and> i \<noteq> d + 1 \<longrightarrow> sreg (es_wf s') i = sreg (es_wf s) i) \<and>
    (\<exists>f b sp. s' = s\<lparr>es_wf := (es_wf s)\<lparr>wf_SRegFile := f, wf_SCC := b, wf_scratchpad := sp\<rparr>\<rparr>)"
proof -
  obtain t where t: "executeInst fl mp (sop2_inst 0 d a b) s = Inr t"
    "swrite d (sreg (es_wf s) a + sreg (es_wf s) b) (flag (2 ^ 32 \<le> unat (sreg (es_wf s) a) + unat (sreg (es_wf s) b))) s t"
    using execute_s_add [OF assms(1), of d a b] assms(2-4) by auto
  then have okt: "wf_ok (es_wf t)" by (simp add: swrite_def)
  obtain s' scc where s': "executeInst fl mp (sop2_inst 4 (d + 1) (a + 1) (b + 1)) t = Inr s'"
    "swrite (d + 1) (sreg (es_wf t) (a + 1) + sreg (es_wf t) (b + 1) + ucast (wf_SCC (es_wf t))) scc t s'"
    using execute_s_addc [OF okt assms(2-4), of fl mp] by blast
  have "sreg64 (es_wf s') d = sreg64 (es_wf s) a + sreg64 (es_wf s) b"
    using t(2) s'(2) assms(2-6) add_halves [of "sreg (es_wf s) a" "sreg (es_wf s) b" "sreg (es_wf s) (a + 1)" "sreg (es_wf s) (b + 1)"]
    by (simp add: swrite_def sreg64_def)
  moreover have "\<exists>f b sp. s' = s\<lparr>es_wf := (es_wf s)\<lparr>wf_SRegFile := f, wf_SCC := b, wf_scratchpad := sp\<rparr>\<rparr>"
    by (rule swrite_frame_trans [OF t(2) s'(2)])
  moreover have "wf_ok (es_wf s')" "\<forall>i < 102. i \<noteq> d \<and> i \<noteq> d + 1 \<longrightarrow> sreg (es_wf s') i = sreg (es_wf s) i"
    using t(2) s'(2) by (simp_all add: swrite_def)
  ultimately show ?thesis using t(1) s'(1) by simp
qed

definition emu0 :: "unit emu_state" where
  "emu0 = \<lparr>es_wf = NewWavefront, es_lds = [], es_mem = ()\<rparr>"

definition fl0 :: go_float where
  "fl0 = \<lparr>fl_vop1 = \<lambda>_ x. x, fl_vop2 = \<lambda>_ x _ _ _. x, fl_vop3 = \<lambda>_ x _ _ _ _. Inr x, fl_abs32 = id, fl_neg32 = id, fl_neg64 = id,
          fl_divscale = \<lambda>l. (vop3b_DST l, vop3b_VCC l)\<rparr>"

definition mp0 :: "unit memory_port" where
  "mp0 = \<lparr>mp_Read = \<lambda>_ _ n _. Inr (replicate (unat n) 0, ()), mp_Write = \<lambda>_ _ _ _. Inr ()\<rparr>"

lemma emu0_ok [simp]: "wf_ok (es_wf emu0)"
  by (simp add: emu0_def)

theorem s_add64_witness:
  "\<exists>s'. bindR (executeInst fl0 mp0 (sop2_inst 0 4 0 2) emu0) (executeInst fl0 mp0 (sop2_inst 4 5 1 3)) = Inr s' \<and>
    sreg64 (es_wf s') 4 = sreg64 (es_wf emu0) 0 + sreg64 (es_wf emu0) 2"
  using s_add64 [of emu0 4 0 2 fl0 mp0] by auto

text \<open>
  The carry of \<^verbatim>\<open>S_ADDC_U32\<close> is off by one: with the carry clear and operands whose sum is exactly the
  largest 32-bit number, which does not overflow, the emulator sets SCC.
\<close>

theorem s_addc_spurious_carry:
  fixes s :: "'m emu_state"
  assumes "wf_ok (es_wf s)" "d < 102" "a < 102" "b < 102" "wf_SCC (es_wf s) = 0"
    and "unat (sreg (es_wf s) a) + unat (sreg (es_wf s) b) = 2 ^ 32 - 1"
  shows "\<exists>s'. executeInst fl mp (sop2_inst 4 d a b) s = Inr s' \<and> sreg (es_wf s') d = 0xffffffff \<and> wf_SCC (es_wf s') = 1"
proof -
  let ?a = "sreg (es_wf s) a" and ?b = "sreg (es_wf s) b"
  have ab: "?a + ?b = 0xffffffff" using assms(6) by (simp add: word_unat_eq_iff unat_word_ariths(1))
  then have "\<not> ?a < 0xffffffff - ?b" by (metis add_diff_cancel_right' less_irrefl)
  then show ?thesis using execute_s_addc [OF assms(1-4), of fl mp] assms(2,5) ab by (auto simp: swrite_def)
qed

definition emu_max :: "unit emu_state" where
  "emu_max = emu0\<lparr>es_wf := (es_wf emu0)\<lparr>wf_SRegFile := copy_at (wf_SRegFile (es_wf emu0)) 0 (Uint32ToBytes 0xffffffff)\<rparr>\<rparr>"

theorem s_addc_spurious_carry_witness:
  "\<exists>s'. executeInst fl0 mp0 (sop2_inst 4 2 0 1) emu_max = Inr s' \<and> sreg (es_wf s') 2 = 0xffffffff \<and> wf_SCC (es_wf s') = 1"
proof -
  have "wf_ok (es_wf emu_max)" using wf_ok_SRegFile [of "es_wf emu0" 0] by (simp add: emu_max_def)
  moreover have "sreg (es_wf emu0) i = 0" if "i < 102" for i
    using that le_word_pad [of "[]" 4] by (simp add: sreg_def emu0_def NewWavefront_def)
  then have "sreg (es_wf emu_max) 0 = 0xffffffff" "sreg (es_wf emu_max) 1 = 0"
    using sreg_write [of "es_wf emu0" 0 0] sreg_write [of "es_wf emu0" 0 1] by (simp_all add: emu_max_def)
  moreover have "wf_SCC (es_wf emu_max) = 0" by (simp add: emu_max_def emu0_def NewWavefront_def)
  ultimately show ?thesis using s_addc_spurious_carry [of emu_max 2 0 1 fl0 mp0] by simp
qed

end
