(* ===== verification/Emu_Program.thy ===== *)
theory Emu_Program
  imports Emu_Unit
begin

text \<open>
  Vector, compare and branch instructions executed by the emulator's compute unit
  (\<^verbatim>\<open>executeInst\<close> of \<^verbatim>\<open>mgpusim/emu/computeunit.go\<close>): what is in the vector registers, VCC and the
  program counter after the operands went through the scratchpad and back.

  \<open>vwrite\<close> says that one vector register was written in the active lanes, VCC replaced, and nothing
  else changed; \<open>execute_vop2\<close> and \<open>execute_vopc\<close> give the effect of a two-operand instruction and of a
  comparison in terms of their operation on the layout, and the properties follow from them.
\<close>

section \<open>Vector registers\<close>

definition vreg :: "Wavefront \<Rightarrow> nat \<Rightarrow> nat \<Rightarrow> u32" where
  "vreg wv lane i = le_word (take 4 (drop (1024 * lane + 4 * i) (wf_VRegFile wv)))"

definition vreg64 :: "Wavefront \<Rightarrow> nat \<Rightarrow> nat \<Rightarrow> u64" where
  "vreg64 wv lane i = ucast (vreg wv lane i) + ucast (vreg wv lane (i + 1)) * 0x100000000"

lemma ReadReg_vreg:
  assumes "wf_ok wv" "i < 256" "lane < 64"
  shows "ReadReg (Regs (V i)) 1 lane wv = Inr (Uint32ToBytes (vreg wv lane i))"
proof -
  have "length (take 4 (drop (1024 * lane + 4 * i) (wf_VRegFile wv))) = 4" using assms by (simp add: wf_ok_def)
  then show ?thesis using assms ReadReg_V [OF assms(1), of i 1 lane]
    by (simp add: vreg_def)
qed

lemma operand_value_V:
  assumes "wf_ok wv" "i < 256" "lane < 64"
  shows "operand_value (Some (NewVRegOperand i 1)) lane wv = Inr (ucast (vreg wv lane i))"
  using ReadReg_vreg [OF assms] by (simp add: operand_value_def NewVRegOperand_def Uint32ToBytes_def le_word_u64)

lemma lane_values_V: "wf_ok wv \<Longrightarrow> i < 256 \<Longrightarrow> lane_values (Some (NewVRegOperand i 1)) wv (\<lambda>l. ucast (vreg wv l i))"
  using operand_value_V by (simp add: lane_values_def)

section \<open>Two-operand vector instructions\<close>

definition vop2_inst :: "nat \<Rightarrow> nat \<Rightarrow> nat \<Rightarrow> nat \<Rightarrow> Inst" where
  "vop2_inst opc d a b = (NewInst VOP2 opc)\<lparr>i_Src0 := Some (NewVRegOperand a 1), i_Src1 := Some (NewVRegOperand b 1),
     i_Dst := Some (NewVRegOperand d 1)\<rparr>"

lemma vop2_inst_simps [simp]:
  "i_FormatType (vop2_inst opc d a b) = VOP2" "i_Opcode (vop2_inst opc d a b) = opc"
  "i_Src0 (vop2_inst opc d a b) = Some (NewVRegOperand a 1)" "i_Src1 (vop2_inst opc d a b) = Some (NewVRegOperand b 1)"
  "i_Src2 (vop2_inst opc d a b) = None" "\<not> i_IsSdwa (vop2_inst opc d a b)"
  "i_Dst (vop2_inst opc d a b) = Some (NewVRegOperand d 1)"
  by (simp_all add: vop2_inst_def NewInst_def)

definition vwrite :: "nat \<Rightarrow> (nat \<Rightarrow> u32) \<Rightarrow> u64 \<Rightarrow> 'm emu_state \<Rightarrow> 'm emu_state \<Rightarrow> bool" where
  "vwrite d g vcc s s' \<longleftrightarrow> wf_ok (es_wf s') \<and>
     (\<forall>l < 64. \<forall>i < 256. vreg (es_wf s') l i = (if i = d \<and> bit (wf_Exec (es_wf s)) l then g l else vreg (es_wf s) l i)) \<and>
     (\<exists>f sp. s' = s\<lparr>es_wf := (es_wf s)\<lparr>wf_VRegFile := f, wf_VCC := vcc, wf_scratchpad := sp\<rparr>\<rparr>)"

lemma vreg_ReadReg: 
  assumes "wf_ok w" "wf_ok wv" "l < 64" "i < 256" "ReadReg (Regs (V i)) 1 l w = ReadReg (Regs (V i)) 1 l wv"
  shows "vreg w l i = vreg wv l i"
  using arg_cong [OF assms(5), of "\<lambda>r. bindR r BytesToUint32"] ReadReg_vreg [OF assms(1) assms(4,3)] ReadReg_vreg [OF assms(2) assms(4,3)] by simp

lemma write_lanes_vreg:
  assumes "wf_ok wv" "d < 256" "\<And>l. l < 64 \<Longrightarrow> buf l = Uint64ToBytes (v l)" "distinct ls" "set ls = {..<64}"
  shows "\<exists>f. write_lanes ls exec (Some (NewVRegOperand d 1)) buf wv = Inr (wv\<lparr>wf_VRegFile := f\<rparr>) \<and> wf_ok (wv\<lparr>wf_VRegFile := f\<rparr>) \<and>
    (\<forall>l < 64. \<forall>i < 256. vreg (wv\<lparr>wf_VRegFile := f\<rparr>) l i = (if i = d \<and> bit exec l then lo32 (v l) else vreg wv l i))"
proof -
  obtain f where w: "write_lanes ls exec (Some (NewVRegOperand d 1)) buf wv = Inr (wv\<lparr>wf_VRegFile := f\<rparr>)" "wf_ok (wv\<lparr>wf_VRegFile := f\<rparr>)"
    and rd: "\<forall>i \<in> set ls. bit exec i \<longrightarrow> ReadReg (Regs (V d)) 1 i (wv\<lparr>wf_VRegFile := f\<rparr>) = Inr (take 4 (buf i))"
    and fr: "\<forall>u c' l'. (\<forall>i \<in> set ls. bit exec i \<longrightarrow> separate (reg_span (V d) 1 i) (reg_span u c' l')) \<longrightarrow>
       ReadReg (Regs u) c' l' (wv\<lparr>wf_VRegFile := f\<rparr>) = ReadReg (Regs u) c' l' wv"
    using write_lanes_V [OF assms(1), of d 1 ls buf exec] assms(2-5) by (auto simp: NewVRegOperand_def)
  let ?w = "wv\<lparr>wf_VRegFile := f\<rparr>"
  have "vreg ?w l i = (if i = d \<and> bit exec l then lo32 (v l) else vreg wv l i)" if li: "l < 64" "i < 256" for l i
  proof (cases "i = d \<and> bit exec l")
    case True
    then have "Uint32ToBytes (vreg ?w l i) = Uint32ToBytes (lo32 (v l))"
      using rd assms(3,5) li ReadReg_vreg [OF w(2) li(2,1)] by (simp add: take4_Uint64)
    from arg_cong [OF this, of BytesToUint32] show ?thesis using True by simp
  next
    case False
    have "separate (reg_span (V d) 1 k) (reg_span (V i) 1 l)" if "k < 64" "bit exec k" for k
    proof -
      have "k \<noteq> l \<or> i \<noteq> d" using False that by auto
      then consider "k < l" | "l < k" | "k = l" "i < d" | "k = l" "d < i" by linarith
      then show ?thesis using assms(2) li by cases (auto simp: separate_def)
    qed
    then have "ReadReg (Regs (V i)) 1 l ?w = ReadReg (Regs (V i)) 1 l wv" using fr assms(5) by blast
    then show ?thesis using vreg_ReadReg [OF w(2) assms(1) li] False by auto
  qed
  then show ?thesis using w by blast
qed

definition vop2_operands :: "Wavefront \<Rightarrow> nat \<Rightarrow> nat \<Rightarrow> nat \<Rightarrow> VOP2Layout" where
  "vop2_operands wv d a b =
     \<lparr>vop2_EXEC = wf_Exec wv, vop2_DST = map (\<lambda>l. ucast (vreg wv l d)) [0..<64], vop2_VCC = wf_VCC wv,
      vop2_SRC0 = map (\<lambda>l. ucast (vreg wv l a)) [0..<64], vop2_SRC1 = map (\<lambda>l. ucast (vreg wv l b)) [0..<64],
      vop2_LiteralConstant = 0\<rparr>"

lemma execute_vop2:
  fixes s :: "'m emu_state"
  assumes "wf_ok (es_wf s)" "d < 256" "a < 256" "b < 256"
    and "dispatch ''Opcode for VOP2 format is not implemented'' (vop2_table fl) opc = Inr op"
    and "op (vop2_inst opc d a b) (vop2_operands (es_wf s) d a b) = Inr L"
    and "length (vop2_DST L) = 64" "length (vop2_SRC0 L) = 64" "length (vop2_SRC1 L) = 64" "vop2_EXEC L = wf_Exec (es_wf s)"
  shows "\<exists>s'. executeInst fl mp (vop2_inst opc d a b) s = Inr s' \<and> vwrite d (\<lambda>l. lo32 (vop2_DST L ! l)) (vop2_VCC L) s s'"
proof -
  let ?i = "vop2_inst opc d a b" and ?wv = "es_wf s"
  have "sp_ok (wf_scratchpad ?wv)" using assms(1) by (simp add: wf_ok_def sp_ok_def)
  then obtain sp where sp: "prepareVOP2 ?i ?wv (clear (wf_scratchpad ?wv)) = Inr sp" "sp_ok sp"
    "op ?i (AsVOP2 sp) = Inr L"
    using prepareVOP2_view [of "wf_scratchpad ?wv" ?i ?wv "\<lambda>l. ucast (vreg ?wv l d)" "\<lambda>l. ucast (vreg ?wv l a)" "\<lambda>l. ucast (vreg ?wv l b)"]
      lane_values_V [OF assms(1)] assms(2-4,6) by (auto simp: vop2_operands_def)
  let ?sp = "setVOP2 L sp"
  have okl: "sp_ok ?sp" "AsVOP2 ?sp = L" using VOP2_laws [OF sp(2) assms(7-9)] by simp_all
  have dst: "take 8 (drop (8 + 8 * l) ?sp) = Uint64ToBytes (vop2_DST L ! l)" if "l < 64" for l
  proof -
    have "get64 (8 + 8 * l) ?sp = get64s 8 ?sp ! l" using that by simp
    also have "\<dots> = vop2_DST L ! l" using arg_cong [OF okl(2), of vop2_DST] by (simp add: AsVOP2_def)
    finally show ?thesis using bytes_get64 [OF okl(1), of "8 + 8 * l"] that by simp
  qed
  have vcc: "take 8 (drop 520 ?sp) = Uint64ToBytes (vop2_VCC L)"
    using bytes_get64 [OF okl(1), of 520] arg_cong [OF okl(2), of vop2_VCC] by (simp add: AsVOP2_def)
  let ?w = "?wv\<lparr>wf_scratchpad := ?sp, wf_VCC := vop2_VCC L\<rparr>"
  have okw: "wf_ok ?w" using assms(1) okl(1) by (simp add: wf_ok_def sp_ok_def)
  obtain f where f: "write_lanes [0..<64] (wf_Exec ?wv) (Some (NewVRegOperand d 1)) (\<lambda>i. take 8 (drop (8 + 8 * i) ?sp)) ?w
        = Inr (?w\<lparr>wf_VRegFile := f\<rparr>)" "wf_ok (?w\<lparr>wf_VRegFile := f\<rparr>)"
      "\<forall>l < 64. \<forall>i < 256. vreg (?w\<lparr>wf_VRegFile := f\<rparr>) l i = (if i = d \<and> bit (wf_Exec ?wv) l then lo32 (vop2_DST L ! l) else vreg ?w l i)"
    using write_lanes_vreg [OF okw assms(2), of "\<lambda>i. take 8 (drop (8 + 8 * i) ?sp)" "\<lambda>l. vop2_DST L ! l" "[0..<64]" "wf_Exec ?wv", OF dst]
    by (auto simp: lessThan_atLeast0)
  let ?s' = "s\<lparr>es_wf := ?w\<lparr>wf_VRegFile := f\<rparr>\<rparr>"
  have "executeInst fl mp ?i s = Inr ?s'"
    using sp(1,3) assms(5,10) okl f(1) vcc
    by (simp add: executeInst_def Let_def Prepare_def ALU_Run_def Commit_def pureALU_def runVOP2_def commitVOP2_def WriteReg_def)
  moreover have "vwrite d (\<lambda>l. lo32 (vop2_DST L ! l)) (vop2_VCC L) s ?s'"
  proof -
    have "?s' = s\<lparr>es_wf := ?wv\<lparr>wf_VRegFile := f, wf_VCC := vop2_VCC L, wf_scratchpad := ?sp\<rparr>\<rparr>" by simp
    then have "\<exists>f sp. ?s' = s\<lparr>es_wf := ?wv\<lparr>wf_VRegFile := f, wf_VCC := vop2_VCC L, wf_scratchpad := sp\<rparr>\<rparr>" by blast
    moreover have "vreg ?w l i = vreg ?wv l i" for l i by (simp add: vreg_def)
    ultimately show ?thesis using f(2,3) by (simp add: vwrite_def)
  qed
  ultimately show ?thesis by blast
qed
lemma lo32_of_nat: "lo32 (of_nat n) = of_nat n"
  by (rule bit_word_eqI) (auto simp: lo32_def bit_simps)

lemma lo32_sum: "lo32 (ucast x + ucast y) = x + (y :: u32)" "lo32 (ucast x + ucast y + ucast z) = x + y + (z :: u32)"
  using lo32_of_nat [of "unat x + unat y"] lo32_of_nat [of "unat x + unat y + unat z"] by simp_all

lemma u64_carry: "(0xffffffff :: u64) < ucast (x :: u32) + ucast (y :: u32) \<longleftrightarrow> 2 ^ 32 \<le> unat x + unat y"
proof -
  have "unat x + unat y < 2 ^ 64"
    using unsigned_less [of x, where ?'a = nat] unsigned_less [of y, where ?'a = nat] by simp
  then have "unat (ucast x + ucast y :: u64) = unat x + unat y"
    by (simp add: unat_word_ariths(1) unsigned_ucast_eq take_bit_eq_mod mod_simps)
  then show ?thesis by (simp add: word_less_nat_alt) arith
qed

lemma execute_v_add:
  fixes s :: "'m emu_state"
  assumes "wf_ok (es_wf s)" "d < 256" "a < 256" "b < 256"
  shows "\<exists>s' vcc. executeInst fl mp (vop2_inst 25 d a b) s = Inr s' \<and>
    vwrite d (\<lambda>l. vreg (es_wf s) l a + vreg (es_wf s) l b) vcc s s' \<and>
    (\<forall>l < 64. bit vcc l \<longleftrightarrow> bit (wf_Exec (es_wf s)) l \<and> 2 ^ 32 \<le> unat (vreg (es_wf s) l a) + unat (vreg (es_wf s) l b))"
proof -
  let ?L = "runVADDI32Regular (vop2_operands (es_wf s) d a b)"
  note L = runVADDI32Regular_def vop2_operands_def lanes2_def carry2_def
  obtain s' where s': "executeInst fl mp (vop2_inst 25 d a b) s = Inr s'" "vwrite d (\<lambda>l. lo32 (vop2_DST ?L ! l)) (vop2_VCC ?L) s s'"
    using execute_vop2 [OF assms, of fl 25 runVADDI32 ?L mp] by (auto simp: dispatch_def vop2_table_def runVADDI32_def L)
  have "vwrite d (\<lambda>l. vreg (es_wf s) l a + vreg (es_wf s) l b) (vop2_VCC ?L) s s'"
    using s'(2) unfolding vwrite_def by (simp add: L lo32_sum)
  moreover have "\<forall>l < 64. bit (vop2_VCC ?L) l \<longleftrightarrow> bit (wf_Exec (es_wf s)) l \<and> 2 ^ 32 \<le> unat (vreg (es_wf s) l a) + unat (vreg (es_wf s) l b)"
    using u64_carry by (simp add: L)
  ultimately show ?thesis using s'(1) by blast
qed

lemma execute_v_addc:
  fixes s :: "'m emu_state"
  assumes "wf_ok (es_wf s)" "d < 256" "a < 256" "b < 256"
  shows "\<exists>s' vcc. executeInst fl mp (vop2_inst 28 d a b) s = Inr s' \<and>
    vwrite d (\<lambda>l. vreg (es_wf s) l a + vreg (es_wf s) l b + ucast (flag (bit (wf_VCC (es_wf s)) l))) vcc s s' \<and>
    (\<forall>l < 64. bit vcc l \<longleftrightarrow> bit (wf_Exec (es_wf s)) l \<and>
       ucast (vreg (es_wf s) l a) > 0xffffffff - of_bit (bit (wf_VCC (es_wf s)) l) - (ucast (vreg (es_wf s) l b) :: u64))"
proof -
  let ?L = "(lanes2 (\<lambda>s0 s1 d c. s0 + s1 + of_bit c) (vop2_operands (es_wf s) d a b))
    \<lparr>vop2_VCC := carry2 (\<lambda>s0 s1 c. s0 > 0xffffffff - of_bit c - s1) (vop2_operands (es_wf s) d a b)\<rparr>"
  note L = vop2_operands_def lanes2_def carry2_def
  obtain s' where s': "executeInst fl mp (vop2_inst 28 d a b) s = Inr s'" "vwrite d (\<lambda>l. lo32 (vop2_DST ?L ! l)) (vop2_VCC ?L) s s'"
    using execute_vop2 [OF assms, of fl 28 runVADDCU32 ?L mp] by (auto simp: dispatch_def vop2_table_def runVADDCU32_def no_sdwa_def L)
  have "of_bit c = ucast (ucast (flag c) :: u32)" for c by (simp add: of_bit_def flag_def)
  then have "vwrite d (\<lambda>l. vreg (es_wf s) l a + vreg (es_wf s) l b + ucast (flag (bit (wf_VCC (es_wf s)) l))) (vop2_VCC ?L) s s'"
    using s'(2) lo32_sum(2) unfolding vwrite_def by (simp add: L)
  moreover have "\<forall>l < 64. bit (vop2_VCC ?L) l \<longleftrightarrow> bit (wf_Exec (es_wf s)) l \<and>
       ucast (vreg (es_wf s) l a) > 0xffffffff - of_bit (bit (wf_VCC (es_wf s)) l) - (ucast (vreg (es_wf s) l b) :: u64)"
    by (simp add: L)
  ultimately show ?thesis using s'(1) by blast
qed

lemma vwrite_frame:
  assumes "vwrite d g c s t"
  obtains f sp where "t = s\<lparr>es_wf := (es_wf s)\<lparr>wf_VRegFile := f, wf_VCC := c, wf_scratchpad := sp\<rparr>\<rparr>"
  using assms by (auto simp: vwrite_def)

lemma vwrite_frame_trans:
  assumes "vwrite d g c s t" "vwrite d' g' c' t u"
  shows "\<exists>f b sp. u = s\<lparr>es_wf := (es_wf s)\<lparr>wf_VRegFile := f, wf_VCC := b, wf_scratchpad := sp\<rparr>\<rparr>"
proof -
  obtain f sp where "t = s\<lparr>es_wf := (es_wf s)\<lparr>wf_VRegFile := f, wf_VCC := c, wf_scratchpad := sp\<rparr>\<rparr>"
    by (rule vwrite_frame [OF assms(1)])
  moreover obtain f' sp' where "u = t\<lparr>es_wf := (es_wf t)\<lparr>wf_VRegFile := f', wf_VCC := c', wf_scratchpad := sp'\<rparr>\<rparr>"
    by (rule vwrite_frame [OF assms(2)])
  ultimately have "u = s\<lparr>es_wf := (es_wf s)\<lparr>wf_VRegFile := f', wf_VCC := c', wf_scratchpad := sp'\<rparr>\<rparr>" by simp
  then show ?thesis by blast
qed

lemma vwriteD:
  assumes "vwrite d g c s t"
  shows "wf_ok (es_wf t)" "wf_Exec (es_wf t) = wf_Exec (es_wf s)" "wf_VCC (es_wf t) = c"
    "l < 64 \<Longrightarrow> i < 256 \<Longrightarrow> vreg (es_wf t) l i = (if i = d \<and> bit (wf_Exec (es_wf s)) l then g l else vreg (es_wf s) l i)"
  using assms by (auto simp: vwrite_def)

text \<open>
  Claim C11. \<^verbatim>\<open>V_ADD_I32\<close> and \<^verbatim>\<open>V_ADDC_U32\<close> on the two halves of vector register pairs add 64-bit numbers in every active
  lane, provided that the low destination register is not the high register of a source pair, which the second instruction
  still has to read: executed one after the other they never panic, active lanes get the sum of the pairs in the destination pair,
  inactive lanes keep theirs, and no other vector register, no
  scalar register, SCC, EXEC, program counter or memory changes; VCC, which both instructions set, is left open.
\<close>

theorem v_add64:
  fixes s :: "'m emu_state"
  assumes "wf_ok (es_wf s)" "d + 1 < 256" "a + 1 < 256" "b + 1 < 256" "d \<noteq> a + 1" "d \<noteq> b + 1"
  shows "\<exists>s'. bindR (executeInst fl mp (vop2_inst 25 d a b) s) (executeInst fl mp (vop2_inst 28 (d + 1) (a + 1) (b + 1))) = Inr s' \<and>
    wf_ok (es_wf s') \<and>
    (\<forall>l < 64. if bit (wf_Exec (es_wf s)) l then vreg64 (es_wf s') l d = vreg64 (es_wf s) l a + vreg64 (es_wf s) l b
             else vreg64 (es_wf s') l d = vreg64 (es_wf s) l d) \<and>
    (\<forall>l < 64. \<forall>i < 256. i \<noteq> d \<and> i \<noteq> d + 1 \<longrightarrow> vreg (es_wf s') l i = vreg (es_wf s) l i) \<and>
    (\<exists>f b sp. s' = s\<lparr>es_wf := (es_wf s)\<lparr>wf_VRegFile := f, wf_VCC := b, wf_scratchpad := sp\<rparr>\<rparr>)"
proof -
  obtain t vcc where t: "executeInst fl mp (vop2_inst 25 d a b) s = Inr t"
    "vwrite d (\<lambda>l. vreg (es_wf s) l a + vreg (es_wf s) l b) vcc s t"
    "\<forall>l < 64. bit vcc l \<longleftrightarrow> bit (wf_Exec (es_wf s)) l \<and> 2 ^ 32 \<le> unat (vreg (es_wf s) l a) + unat (vreg (es_wf s) l b)"
    using execute_v_add [OF assms(1), of d a b fl mp] assms(2-4) by auto
  note T = vwriteD [OF t(2)]
  obtain s' vcc' where s': "executeInst fl mp (vop2_inst 28 (d + 1) (a + 1) (b + 1)) t = Inr s'"
    "vwrite (d + 1) (\<lambda>l. vreg (es_wf t) l (a + 1) + vreg (es_wf t) l (b + 1) + ucast (flag (bit (wf_VCC (es_wf t)) l))) vcc' t s'"
    using execute_v_addc [OF T(1) assms(2-4), of fl mp] by blast
  note S = vwriteD [OF s'(2)]
  have "if bit (wf_Exec (es_wf s)) l then vreg64 (es_wf s') l d = vreg64 (es_wf s) l a + vreg64 (es_wf s) l b
      else vreg64 (es_wf s') l d = vreg64 (es_wf s) l d" if l: "l < 64" for l
    using assms(2-6) l t(3) add_halves [of "vreg (es_wf s) l a" "vreg (es_wf s) l b" "vreg (es_wf s) l (a + 1)" "vreg (es_wf s) l (b + 1)"]
    by (simp add: vreg64_def S(4) T)
  moreover have "\<forall>l < 64. \<forall>i < 256. i \<noteq> d \<and> i \<noteq> d + 1 \<longrightarrow> vreg (es_wf s') l i = vreg (es_wf s) l i" using S(4) T(4) by simp
  ultimately show ?thesis using t(1) s'(1) S(1) vwrite_frame_trans [OF t(2) s'(2)] by simp
qed

definition emu_lane0 :: "unit emu_state" where
  "emu_lane0 = emu0\<lparr>es_wf := (es_wf emu0)\<lparr>wf_Exec := 1\<rparr>\<rparr>"

lemma emu_lane0_simps [simp]: "wf_ok (es_wf emu_lane0)" "wf_Exec (es_wf emu_lane0) = 1"
  using emu0_ok by (simp_all add: emu_lane0_def wf_ok_def)

theorem v_add64_witness:
  "\<exists>s'. bindR (executeInst fl0 mp0 (vop2_inst 25 4 0 2) emu_lane0) (executeInst fl0 mp0 (vop2_inst 28 5 1 3)) = Inr s' \<and>
    vreg64 (es_wf s') 0 4 = vreg64 (es_wf emu_lane0) 0 0 + vreg64 (es_wf emu_lane0) 0 2 \<and>
    vreg64 (es_wf s') 7 4 = vreg64 (es_wf emu_lane0) 7 4"
proof -
  have pre: "4 + 1 < (256 :: nat)" "0 + 1 < (256 :: nat)" "2 + 1 < (256 :: nat)" "4 \<noteq> 0 + (1 :: nat)" "4 \<noteq> 2 + (1 :: nat)" by simp_all
  obtain s' where s': "bindR (executeInst fl0 mp0 (vop2_inst 25 4 0 2) emu_lane0) (executeInst fl0 mp0 (vop2_inst 28 (4 + 1) (0 + 1) (2 + 1))) = Inr s'"
    "\<forall>l < 64. if bit (wf_Exec (es_wf emu_lane0)) l then vreg64 (es_wf s') l 4 = vreg64 (es_wf emu_lane0) l 0 + vreg64 (es_wf emu_lane0) l 2
             else vreg64 (es_wf s') l 4 = vreg64 (es_wf emu_lane0) l 4"
    using v_add64 [OF emu_lane0_simps(1) pre, of fl0 mp0] by blast
  then show ?thesis using spec [OF s'(2), of 0] spec [OF s'(2), of 7] by simp
qed

text \<open>
  Claim C36. \<^verbatim>\<open>V_ADDC_U32\<close> loses carries: in a lane with the carry set whose second operand is the largest 32-bit number, where
  the addition overflows whatever the first operand is, the carry-out is clear, because the bound wraps around.
\<close>

theorem v_addc_lost_carry:
  fixes s :: "'m emu_state"
  assumes "wf_ok (es_wf s)" "d < 256" "a < 256" "b < 256" "l < 64"
    and "bit (wf_VCC (es_wf s)) l" "vreg (es_wf s) l b = 0xffffffff"
  shows "\<exists>s'. executeInst fl mp (vop2_inst 28 d a b) s = Inr s' \<and> \<not> bit (wf_VCC (es_wf s')) l"
proof -
  obtain s' vcc where s': "executeInst fl mp (vop2_inst 28 d a b) s = Inr s'" 
    "vwrite d (\<lambda>l. vreg (es_wf s) l a + vreg (es_wf s) l b + ucast (flag (bit (wf_VCC (es_wf s)) l))) vcc s s'"
    "\<forall>l < 64. bit vcc l \<longleftrightarrow> bit (wf_Exec (es_wf s)) l \<and>
       ucast (vreg (es_wf s) l a) > 0xffffffff - of_bit (bit (wf_VCC (es_wf s)) l) - (ucast (vreg (es_wf s) l b) :: u64)"
    using execute_v_addc [OF assms(1-4), of fl mp] by blast
  have "\<not> ucast (vreg (es_wf s) l a) > 0xffffffff - of_bit True - (ucast (0xffffffff :: u32) :: u64)"
    using word_order.not_eq_extremum [of "ucast (vreg (es_wf s) l a) :: u64"] by (simp add: of_bit_def not_less)
  then show ?thesis using s'(1,3) vwriteD(3) [OF s'(2)] assms(5-7) by simp
qed

theorem v_addc_lost_carry_witness:
  "\<exists>s'. executeInst fl0 mp0 (vop2_inst 28 2 0 1)
      (emu_lane0\<lparr>es_wf := (es_wf emu_lane0)\<lparr>wf_VCC := 1, wf_VRegFile := copy_at (wf_VRegFile (es_wf emu_lane0)) 4 (Uint32ToBytes 0xffffffff)\<rparr>\<rparr>) = Inr s' \<and>
    \<not> bit (wf_VCC (es_wf s')) 0"
proof -
  let ?w = "(es_wf emu_lane0)\<lparr>wf_VCC := 1, wf_VRegFile := copy_at (wf_VRegFile (es_wf emu_lane0)) 4 (Uint32ToBytes 0xffffffff)\<rparr>"
  have w: "wf_ok ?w" using emu_lane0_simps(1) by (simp add: wf_ok_def)
  have "take 4 (drop 4 (wf_VRegFile ?w)) = Uint32ToBytes 0xffffffff"
    using emu_lane0_simps(1) by (simp add: wf_ok_def copy_at_read_same)
  then have "vreg ?w 0 1 = 0xffffffff" by (simp add: vreg_def) (simp add: Uint32ToBytes_def)
  then show ?thesis using v_addc_lost_carry [of "emu_lane0\<lparr>es_wf := ?w\<rparr>" 2 0 1 0 fl0 mp0] w by simp
qed

section \<open>Comparisons\<close>

text \<open>What the 32-bit integer comparisons of the instruction set compare.\<close>

definition int_cmp :: "nat \<Rightarrow> (u32 \<Rightarrow> u32 \<Rightarrow> bool) option" where
  "int_cmp = map_of
     [(0xC1, \<lambda>x y. sint x < sint y), (0xC3, \<lambda>x y. sint x \<le> sint y), (0xC4, \<lambda>x y. sint x > sint y),
      (0xC5, \<lambda>x y. sint x \<noteq> sint y), (0xC6, \<lambda>x y. sint x \<ge> sint y),
      (0xC9, \<lambda>x y. unat x < unat y), (0xCA, \<lambda>x y. x = y), (0xCB, \<lambda>x y. unat x \<le> unat y),
      (0xCC, \<lambda>x y. unat x > unat y), (0xCD, \<lambda>x y. x \<noteq> y), (0xCE, \<lambda>x y. unat x \<ge> unat y)]"

definition vopc_inst :: "nat \<Rightarrow> nat \<Rightarrow> nat \<Rightarrow> Inst" where
  "vopc_inst opc a b = (NewInst VOPC opc)\<lparr>i_Src0 := Some (NewVRegOperand a 1), i_Src1 := Some (NewVRegOperand b 1)\<rparr>"

lemma vopc_inst_simps [simp]:
  "i_FormatType (vopc_inst opc a b) = VOPC" "i_Opcode (vopc_inst opc a b) = opc"
  "i_Src0 (vopc_inst opc a b) = Some (NewVRegOperand a 1)" "i_Src1 (vopc_inst opc a b) = Some (NewVRegOperand b 1)"
  by (simp_all add: vopc_inst_def NewInst_def)

definition vopc_operands :: "Wavefront \<Rightarrow> nat \<Rightarrow> nat \<Rightarrow> VOPCLayout" where
  "vopc_operands wv a b = \<lparr>vopc_EXEC = wf_Exec wv, vopc_VCC = 0, vopc_SRC0 = map (\<lambda>l. ucast (vreg wv l a)) [0..<64],
     vopc_SRC1 = map (\<lambda>l. ucast (vreg wv l b)) [0..<64]\<rparr>"

lemma execute_vopc:
  fixes s :: "'m emu_state"
  assumes "wf_ok (es_wf s)" "a < 256" "b < 256" "map_of vopc_table opc = Some (vcmp P)"
  shows "\<exists>sp. sp_ok sp \<and> executeInst fl mp (vopc_inst opc a b) s =
    Inr (s\<lparr>es_wf := (es_wf s)\<lparr>wf_VCC := lane_mask (wf_Exec (es_wf s)) 0 (\<lambda>l. P (ucast (vreg (es_wf s) l a)) (ucast (vreg (es_wf s) l b))),
       wf_scratchpad := sp\<rparr>\<rparr>)"
proof -
  let ?i = "vopc_inst opc a b" and ?wv = "es_wf s"
  have "sp_ok (wf_scratchpad ?wv)" using assms(1) by (simp add: wf_ok_def sp_ok_def)
  then obtain sp where sp: "prepareVOPC ?i ?wv (clear (wf_scratchpad ?wv)) = Inr sp" "sp_ok sp" "AsVOPC sp = vopc_operands ?wv a b"
    using prepareVOPC_view [of "wf_scratchpad ?wv" ?i ?wv "\<lambda>l. ucast (vreg ?wv l a)" "\<lambda>l. ucast (vreg ?wv l b)"]
      lane_values_V [OF assms(1)] assms(2,3) by (auto simp: vopc_operands_def)
  let ?L = "vcmp P (vopc_operands ?wv a b)"
  let ?sp = "setVOPC ?L sp"
  have okl: "sp_ok ?sp" "AsVOPC ?sp = ?L" using VOPC_laws [OF sp(2), of ?L] by (simp_all add: vcmp_def vopc_operands_def)
  have vcc: "vopc_VCC ?L = lane_mask (wf_Exec ?wv) 0 (\<lambda>l. P (ucast (vreg ?wv l a)) (ucast (vreg ?wv l b)))"
    by (rule bit_word_eqI) (auto simp: vcmp_def vopc_operands_def)
  have "executeInst fl mp ?i s = Inr (s\<lparr>es_wf := ?wv\<lparr>wf_VCC := vopc_VCC ?L, wf_scratchpad := ?sp\<rparr>\<rparr>)"
    using sp(1,3) assms(4) okl
    by (simp add: executeInst_def Let_def Prepare_def ALU_Run_def Commit_def pureALU_def runVOPC_def commitVOPC_def dispatch_def vcmp_def vopc_operands_def)
  then show ?thesis unfolding vcc using okl(1) by blast
qed

lemma u32_cmp:
  fixes x y :: u32
  shows "(ucast x :: u64) < ucast y \<longleftrightarrow> unat x < unat y" "(ucast x :: u64) \<le> ucast y \<longleftrightarrow> unat x \<le> unat y"
    "(ucast x :: u64) = ucast y \<longleftrightarrow> x = y"
proof -
  have "unat (ucast z :: u64) = unat z" for z :: u32
    using unsigned_less [of z, where ?'a = nat] by (simp add: unsigned_ucast_eq take_bit_eq_mod)
  then show "(ucast x :: u64) < ucast y \<longleftrightarrow> unat x < unat y" "(ucast x :: u64) \<le> ucast y \<longleftrightarrow> unat x \<le> unat y"
    "(ucast x :: u64) = ucast y \<longleftrightarrow> x = y"
    by (simp_all add: word_less_nat_alt word_le_nat_alt word_unat_eq_iff)
qed

lemma int_cmp_vcmp:
  assumes "int_cmp opc = Some R"
  shows "\<exists>P. map_of vopc_table opc = Some (vcmp P) \<and> (\<forall>x y. P (ucast x) (ucast y) = R x y)"
proof -
  have "opc \<in> set [0xC1, 0xC3, 0xC4, 0xC5, 0xC6, 0xC9, 0xCA, 0xCB, 0xCC, 0xCD, 0xCE]"
    using assms by (auto simp: int_cmp_def split: if_splits)
  then show ?thesis using assms
    by (elim set_ConsD [THEN disjE])
       (auto simp: int_cmp_def vopc_table_def runVCmpLtI32_def runVCmpLeI32_def runVCmpGtI32_def runVCmpLgI32_def runVCmpGeI32_def
         runVCmpLtU32_def runVCmpEqU32_def runVCmpLeU32_def runVCmpGtU32_def runVCmpNeU32_def runVCmpGeU32_def asInt32_def u32_cmp)
qed

lemma execute_vopc_unknown:
  fixes s :: "'m emu_state"
  assumes "wf_ok (es_wf s)" "a < 256" "b < 256" "map_of vopc_table opc = None"
  shows "executeInst fl mp (vopc_inst opc a b) s = Inl (Panic ''Opcode for VOPC format is not implemented'')"
proof -
  have "sp_ok (wf_scratchpad (es_wf s))" using assms(1) by (simp add: wf_ok_def sp_ok_def)
  then obtain sp where "prepareVOPC (vopc_inst opc a b) (es_wf s) (clear (wf_scratchpad (es_wf s))) = Inr sp"
    using prepareVOPC_view [of "wf_scratchpad (es_wf s)" "vopc_inst opc a b" "es_wf s" "\<lambda>l. ucast (vreg (es_wf s) l a)" "\<lambda>l. ucast (vreg (es_wf s) l b)"]
      lane_values_V [OF assms(1)] assms(2,3) by auto
  then show ?thesis using assms(4) by (simp add: executeInst_def Let_def Prepare_def ALU_Run_def pureALU_def runVOPC_def dispatch_def)
qed

lemma int_cmp_unknown:
  assumes "opc \<in> {0xC0..0xCF}" "int_cmp opc = None"
  shows "map_of vopc_table opc = None \<and> opc \<in> {0xC0, 0xC2, 0xC7, 0xC8, 0xCF}"
proof -
  have "opc \<in> set [0xC0..<0xD0]" by (subst set_upt) (use assms(1) in simp)
  moreover have "list_all (\<lambda>opc. int_cmp opc = None \<longrightarrow> map_of vopc_table opc = None \<and> opc \<in> {0xC0, 0xC2, 0xC7, 0xC8, 0xCF}) [0xC0..<0xD0]"
    by (simp add: int_cmp_def vopc_table_def upt_rec)
  ultimately show ?thesis using assms(2) unfolding list_all_iff by blast
qed

text \<open>
  Claim C27. The 32-bit integer comparisons of VOPC are the opcodes 0xC0 to 0xCF. On two vector registers the eleven that \<open>int_cmp\<close> lists
  (less, less or equal, greater, not equal and greater or equal of signed numbers; less, equal, less or equal, greater, not
  equal and greater or equal of unsigned numbers) never panic, set exactly the bits of VCC of the active lanes in which the
  relation of the opcode holds, and change nothing else but the scratchpad. The other five (false, equal and true of signed numbers,
  false and true of unsigned numbers), which the decoder knows, end in the panic that the opcode is not implemented.
\<close>

theorem v_cmp_int:
  fixes s :: "'m emu_state"
  assumes "wf_ok (es_wf s)" "a < 256" "b < 256" "opc \<in> {0xC0..0xCF}"
  shows "case int_cmp opc of
      Some R \<Rightarrow> \<exists>vcc sp. executeInst fl mp (vopc_inst opc a b) s = Inr (s\<lparr>es_wf := (es_wf s)\<lparr>wf_VCC := vcc, wf_scratchpad := sp\<rparr>\<rparr>) \<and>
        (\<forall>l < 64. bit vcc l \<longleftrightarrow> bit (wf_Exec (es_wf s)) l \<and> R (vreg (es_wf s) l a) (vreg (es_wf s) l b))
    | None \<Rightarrow> opc \<in> {0xC0, 0xC2, 0xC7, 0xC8, 0xCF} \<and>
        executeInst fl mp (vopc_inst opc a b) s = Inl (Panic ''Opcode for VOPC format is not implemented'')"
proof (cases "int_cmp opc")
  case None
  then show ?thesis using int_cmp_unknown [OF assms(4) None] execute_vopc_unknown [OF assms(1-3)] by simp
next
  case (Some R)
  obtain P where P: "map_of vopc_table opc = Some (vcmp P)" "\<forall>x y. P (ucast x) (ucast y) = R x y" using int_cmp_vcmp [OF Some] by blast
  obtain sp where "executeInst fl mp (vopc_inst opc a b) s =
    Inr (s\<lparr>es_wf := (es_wf s)\<lparr>wf_VCC := lane_mask (wf_Exec (es_wf s)) 0 (\<lambda>l. P (ucast (vreg (es_wf s) l a)) (ucast (vreg (es_wf s) l b))),
       wf_scratchpad := sp\<rparr>\<rparr>)" using execute_vopc [OF assms(1-3) P(1), of fl mp] by blast
  then show ?thesis using P(2) unfolding Some option.case by (intro exI conjI) auto
qed

theorem v_cmp_int_witness:
  "\<exists>vcc sp. executeInst fl0 mp0 (vopc_inst 0xC9 0 1) emu_lane0 =
      Inr (emu_lane0\<lparr>es_wf := (es_wf emu_lane0)\<lparr>wf_VCC := vcc, wf_scratchpad := sp\<rparr>\<rparr>) \<and> \<not> bit vcc 5"
proof -
  have "int_cmp 0xC9 = Some (\<lambda>x y. unat x < unat y)" by (simp add: int_cmp_def)
  then obtain vcc sp where v: "executeInst fl0 mp0 (vopc_inst 0xC9 0 1) emu_lane0 =
      Inr (emu_lane0\<lparr>es_wf := (es_wf emu_lane0)\<lparr>wf_VCC := vcc, wf_scratchpad := sp\<rparr>\<rparr>)"
    "\<forall>l < 64. bit vcc l \<longleftrightarrow> bit (wf_Exec (es_wf emu_lane0)) l \<and> unat (vreg (es_wf emu_lane0) l 0) < unat (vreg (es_wf emu_lane0) l 1)"
    using v_cmp_int [OF emu_lane0_simps(1), where a = 0 and b = 1 and opc = "0xC9" and fl = fl0 and mp = mp0] by auto
  then show ?thesis using spec [OF v(2), of 5] by auto
qed

section \<open>Branches\<close>

text \<open>When a program-control instruction of the instruction set jumps.\<close>

definition branch_taken :: "nat \<Rightarrow> Wavefront \<Rightarrow> bool" where
  "branch_taken opc wv \<longleftrightarrow> (opc = 2) \<or> (opc = 4 \<and> wf_SCC wv = 0) \<or> (opc = 5 \<and> wf_SCC wv = 1) \<or>
     (opc = 6 \<and> wf_VCC wv = 0) \<or> (opc = 7 \<and> wf_VCC wv \<noteq> 0) \<or> (opc = 8 \<and> wf_Exec wv = 0) \<or> (opc = 9 \<and> wf_Exec wv \<noteq> 0)"

text \<open>
  A branch adds four times the sign-extended 16-bit immediate to the program counter exactly when the condition of
  its opcode holds on SCC, VCC or EXEC; otherwise, and for \<^verbatim>\<open>S_NOP\<close> and \<^verbatim>\<open>S_WAITCNT\<close>, the program counter stays. Nothing else
  changes.
\<close>

theorem s_branch:
  fixes s :: "'m emu_state"
  assumes "wf_ok (es_wf s)" "i_FormatType inst = SOPP" "i_Opcode inst \<in> {0, 2, 4, 5, 6, 7, 8, 9, 12}"
    and "operand_value (i_SImm16 inst) 0 (es_wf s) = Inr imm"
  shows "\<exists>sp. executeInst fl mp inst s = Inr (s\<lparr>es_wf := (es_wf s)\<lparr>
      wf_PC := (if branch_taken (i_Opcode inst) (es_wf s) then wf_PC (es_wf s) + of_int (4 * sint (ucast imm :: 16 word)) else wf_PC (es_wf s)),
      wf_scratchpad := sp\<rparr>\<rparr>)"
proof -
  let ?wv = "es_wf s"
  let ?l = "\<lparr>sopp_EXEC = wf_Exec ?wv, sopp_PC = wf_PC ?wv, sopp_IMM = imm, sopp_SCC = wf_SCC ?wv, sopp_VCC = wf_VCC ?wv\<rparr>"
  have "sp_ok (wf_scratchpad ?wv)" using assms(1) by (simp add: wf_ok_def sp_ok_def)
  then obtain sp where sp: "prepareSOPP inst ?wv (clear (wf_scratchpad ?wv)) = Inr sp" "sp_ok sp" "AsSOPP sp = ?l"
    using prepareSOPP_view [OF _ assms(4)] by blast
  have imm: "imm16 imm = ucast imm" 
  proof (rule bit_word_eqI)
    fix n assume "n < LENGTH(16)"
    then show "bit (imm16 imm) n = bit (ucast imm :: 16 word) n"
      using bit_mask_iff [of 16 n, where ?'a = "64 word"] by (simp add: imm16_def bit_simps mask_eq_exp_minus_1)
  qed
  have off: "scast (ucast imm :: 16 word) * 4 = (of_int (4 * sint (ucast imm :: 16 word)) :: u64)" by simp
  let ?pc = "if branch_taken (i_Opcode inst) ?wv then wf_PC ?wv + of_int (4 * sint (ucast imm :: 16 word)) else wf_PC ?wv"
  let ?sp = "setSOPP (?l\<lparr>sopp_PC := ?pc\<rparr>) sp"
  have "runSOPP (i_Opcode inst) sp = Inr ?sp" using assms(3)
    by (auto simp: runSOPP_def dispatch_def sp(3) branch_taken_def runSCBRANCH_def runSCBRANCHSCC0_def runSCBRANCHSCC1_def runSCBRANCHVCCZ_def
      runSCBRANCHVCCNZ_def runSCBRANCHEXECZ_def runSCBRANCHEXECNZ_def branch_if_def imm off)
  then have "executeInst fl mp inst s = Inr (s\<lparr>es_wf := ?wv\<lparr>wf_PC := ?pc, wf_scratchpad := ?sp\<rparr>\<rparr>)"
    using sp(1) assms(2) SOPP_laws [OF sp(2)]
    by (simp add: executeInst_def Let_def Prepare_def ALU_Run_def Commit_def pureALU_def commitSOPP_def)
  then show ?thesis by blast
qed

theorem s_branch_witness:
  "\<exists>sp. executeInst fl0 mp0 ((NewInst SOPP 6)\<lparr>i_SImm16 := Some (IntOperand 0xfffe)\<rparr>) emu0 =
     Inr (emu0\<lparr>es_wf := (es_wf emu0)\<lparr>wf_PC := wf_PC (es_wf emu0) + of_int (4 * sint (ucast (0xfffe :: u64) :: 16 word)), wf_scratchpad := sp\<rparr>\<rparr>)"
proof -
  let ?i = "(NewInst SOPP 6)\<lparr>i_SImm16 := Some (IntOperand 0xfffe)\<rparr>"
  have "operand_value (i_SImm16 ?i) 0 (es_wf emu0) = Inr 0xfffe" by (simp add: operand_value_def Uint64ToBytes_def)
  moreover have "branch_taken 6 (es_wf emu0)" by (simp add: branch_taken_def emu0_def NewWavefront_def)
  ultimately show ?thesis using s_branch [of emu0 ?i "0xfffe" fl0 mp0] by (simp add: NewInst_def)
qed
end
