(* ===== verification/Emu_Accessor.thy ===== *)
theory Emu_Accessor
  imports Emu_Memory
begin

text \<open>
  The virtual memory the emulator's storage accessor gives (\<^verbatim>\<open>src/mgpusim/emu/storageaccessor.go\<close>, whose operations are in
  \<^verbatim>\<open>Emu_Memory\<close>): the composition of the page table of \<^verbatim>\<open>Page_Table\<close> with the storage of \<^verbatim>\<open>Storage\<close>. A virtual byte
  \<^verbatim>\<open>vbyte\<close> is the storage's byte at the address its page translates to; a read of any length is a read of virtual bytes, a
  write inside one page is read back, and a write that crosses a page boundary goes behind the first physical page.
\<close>

section \<open>One iteration of the accessor's loops\<close>

lemma sizeInPageLeft_eq:
  assumes "lg < 64"
  shows "unat (sizeInPageLeft lg x) = 2 ^ lg - unat x mod 2 ^ lg"
proof -
  have "push_bit lg (drop_bit lg x + 1) = push_bit lg (drop_bit lg x) + push_bit lg 1" by (rule push_bit_add)
  also have "\<dots> = x - take_bit lg x + 2 ^ lg" using bits_ident [of lg x] by (simp add: push_bit_of_1 algebra_simps)
  finally have "sizeInPageLeft lg x = 2 ^ lg - take_bit lg x" by (simp add: sizeInPageLeft_def)
  moreover have u: "unat (2 ^ lg :: u64) = 2 ^ lg"
  proof -
    have "unat (of_nat (2 ^ lg) :: u64) = 2 ^ lg" using assms by (simp only: unsigned_of_nat) (simp add: take_bit_nat_eq_self)
    then show ?thesis by simp
  qed
  moreover have t: "unat (take_bit lg x) = unat x mod 2 ^ lg" by (simp only: unsigned_take_bit_eq take_bit_nat_def)
  ultimately show ?thesis using unat_sub [of "take_bit lg x" "2 ^ lg"] by (simp add: word_le_nat_alt)
qed

definition page_of :: "'m storageAccessor \<Rightarrow> u32 \<Rightarrow> u64 \<Rightarrow> Page option" where
  "page_of a pid v = fst (pt_Find pid v (sa_pageTable a))"

definition same_map :: "'m storageAccessor \<Rightarrow> 'm storageAccessor \<Rightarrow> bool" where
  "same_map a a' \<longleftrightarrow> page_of a' = page_of a \<and> sa_addrConverter a' = sa_addrConverter a \<and> sa_log2PageSize a' = sa_log2PageSize a \<and>
     pt_log2PageSize (sa_pageTable a') = pt_log2PageSize (sa_pageTable a)"

lemma same_map_refl [simp]: "same_map a a" "same_map a (a\<lparr>sa_storage := s\<rparr>)"
  by (simp_all add: same_map_def page_of_def fun_eq_iff)

lemma same_map_trans: "same_map a b \<Longrightarrow> same_map b c \<Longrightarrow> same_map a c"
  by (simp add: same_map_def)

lemma pt_Find_pure:
  "fst (pt_Find pid' v' (snd (pt_Find pid v pt))) = fst (pt_Find pid' v' pt)"
  "pt_log2PageSize (snd (pt_Find pid v pt)) = pt_log2PageSize pt"
  by (auto simp: pt_Find_def getTable_def AlignToPage_def Let_def split: option.splits prod.splits)

lemma translate_ok:
  assumes "sa_addrConverter a = None" "page_of a pid key = Some pg"
  shows "\<exists>a'. translate a pid key x = Inr (pg_PAddr pg + (x - pg_VAddr pg), a') \<and> same_map a a' \<and> sa_storage a' = sa_storage a"
proof -
  obtain pt where pt: "pt_Find pid key (sa_pageTable a) = (Some pg, pt)" using assms(2) by (cases "pt_Find pid key (sa_pageTable a)") (simp add: page_of_def)
  let ?a = "a\<lparr>sa_pageTable := pt\<rparr>"
  have "translate a pid key x = Inr (pg_PAddr pg + (x - pg_VAddr pg), ?a)" using assms(1) by (simp add: translate_def pt)
  moreover have "same_map a ?a" using pt_Find_pure [where pid = pid and v = key and pt = "sa_pageTable a"] by (simp add: same_map_def page_of_def fun_eq_iff pt)
  ultimately show ?thesis by auto
qed

text \<open>A page that lies in the storage and holds the address.\<close>

definition resident :: "'m storageAccessor \<Rightarrow> u32 \<Rightarrow> u64 \<Rightarrow> bool" where
  "resident a pid v \<longleftrightarrow> (\<exists>pg. page_of a pid v = Some pg \<and> pg_VAddr pg = v - take_bit (sa_log2PageSize a) v \<and>
     unat (pg_PAddr pg) + 2 ^ sa_log2PageSize a \<le> unat (sto_Capacity (sa_storage a)))"

definition paddr :: "'m storageAccessor \<Rightarrow> u32 \<Rightarrow> u64 \<Rightarrow> u64" where
  "paddr a pid v = (case page_of a pid v of None \<Rightarrow> 0 | Some pg \<Rightarrow> pg_PAddr pg + (v - pg_VAddr pg))"

definition vbyte :: "'m storageAccessor \<Rightarrow> u32 \<Rightarrow> u64 \<Rightarrow> byte" where
  "vbyte a pid v = byte_at (sa_storage a) (paddr a pid v)"

definition acc_wf :: "'m storageAccessor \<Rightarrow> bool" where
  "acc_wf a \<longleftrightarrow> storage_wf (sa_storage a) \<and> sa_addrConverter a = None \<and> sa_log2PageSize a < 64 \<and>
     pt_log2PageSize (sa_pageTable a) = sa_log2PageSize a"

text \<open>Addresses of one page have one entry, and translation keeps their distance.\<close>

lemma page_of_align: "acc_wf a \<Longrightarrow> drop_bit (sa_log2PageSize a) x = drop_bit (sa_log2PageSize a) y \<Longrightarrow> page_of a pid x = page_of a pid y"
  by (auto simp: page_of_def pt_Find_def getTable_def AlignToPage_def acc_wf_def Let_def split: option.splits prod.splits)

lemma div_add_small:
  assumes "(x :: nat) mod n + k < n"
  shows "(x + k) div n = x div n"
proof -
  have "x + k = (x mod n + k) + n * (x div n)" using mult_div_mod_eq [of n x] by linarith
  then have "(x + k) div n = (x mod n + k) div n + x div n" using assms by (simp only: div_mult_self2)
  then show ?thesis using assms by simp
qed

lemma in_page:
  assumes "lg < 64" "unat x mod 2 ^ lg + k < 2 ^ lg"
  shows "unat (x + of_nat k) = unat (x :: u64) + k" "drop_bit lg (x + of_nat k) = drop_bit lg x"
    "take_bit lg (x + of_nat k) = take_bit lg x + of_nat k"
proof -
  let ?q = "unat x div 2 ^ lg" and ?r = "unat x mod 2 ^ lg"
  have x: "unat x = ?q * 2 ^ lg + ?r" by (rule div_mult_mod_eq [symmetric])
  have e: "(2 :: nat) ^ 64 = 2 ^ (64 - lg) * 2 ^ lg" using assms(1) by (simp flip: power_add)
  then have "?q < 2 ^ (64 - lg)" using unat_lt64 [of x] by (simp add: less_mult_imp_div_less)
  then have "(?q + 1) * 2 ^ lg \<le> 2 ^ (64 - lg) * 2 ^ lg" by (intro mult_le_mono1) simp
  then have "unat x + k < 2 ^ 64" using assms(2) x e by simp
  then show u: "unat (x + of_nat k) = unat x + k" by (intro unat_word_add) simp
  have "(unat x + k) div 2 ^ lg = ?q" by (rule div_add_small [OF assms(2)])
  then show d: "drop_bit lg (x + of_nat k) = drop_bit lg x"
    by (simp only: word_unat_eq_iff unat_drop_bit_eq drop_bit_nat_def u)
  have tb: "take_bit lg y = y - push_bit lg (drop_bit lg y)" for y :: u64
    using bits_ident [of lg y] by (simp add: eq_diff_eq add.commute)
  show "take_bit lg (x + of_nat k) = take_bit lg x + of_nat k"
    unfolding tb [of "x + of_nat k"] tb [of x] d by simp
qed

lemma paddr_in_page:
  assumes "acc_wf a" "resident a pid x" "unat x mod 2 ^ sa_log2PageSize a + k < 2 ^ sa_log2PageSize a"
  shows "resident a pid (x + of_nat k)" "paddr a pid (x + of_nat k) = paddr a pid x + of_nat k"
    "unat (paddr a pid (x + of_nat k)) = unat (paddr a pid x) + k"
    "unat (paddr a pid x) + (2 ^ sa_log2PageSize a - unat x mod 2 ^ sa_log2PageSize a) \<le> unat (sto_Capacity (sa_storage a))"
proof -
  let ?lg = "sa_log2PageSize a"
  have lg: "?lg < 64" using assms(1) by (simp add: acc_wf_def)
  obtain pg where pg: "page_of a pid x = Some pg" "pg_VAddr pg = x - take_bit ?lg x"
    "unat (pg_PAddr pg) + 2 ^ ?lg \<le> unat (sto_Capacity (sa_storage a))" using assms(2) by (auto simp: resident_def)
  note ip = in_page [OF lg assms(3)]
  have p: "page_of a pid (x + of_nat k) = Some pg" using page_of_align [OF assms(1) ip(2)] pg(1) by simp
  show "resident a pid (x + of_nat k)" using p pg(2,3) by (simp add: resident_def ip(3))
  show k: "paddr a pid (x + of_nat k) = paddr a pid x + of_nat k" using p pg(1) by (simp add: paddr_def)
  have px: "paddr a pid x = pg_PAddr pg + of_nat (unat x mod 2 ^ ?lg)"
  proof -
    have "take_bit ?lg x = of_nat (unat (take_bit ?lg x))" by simp
    also have "unat (take_bit ?lg x) = unat x mod 2 ^ ?lg" by (simp only: unsigned_take_bit_eq take_bit_nat_def)
    finally show ?thesis using pg by (simp add: paddr_def)
  qed
  have up: "unat (paddr a pid x) = unat (pg_PAddr pg) + unat x mod 2 ^ ?lg"
    unfolding px using pg(3) unat_lt64 [of "sto_Capacity (sa_storage a)"] assms(3) by (intro unat_word_add) simp
  then show "unat (paddr a pid (x + of_nat k)) = unat (paddr a pid x) + k"
    unfolding k using pg(3) unat_lt64 [of "sto_Capacity (sa_storage a)"] assms(3) by (intro unat_word_add) simp
  show "unat (paddr a pid x) + (2 ^ ?lg - unat x mod 2 ^ ?lg) \<le> unat (sto_Capacity (sa_storage a))" using up pg(3) assms(3) by simp
qed

lemma acc_wf_storage: "acc_wf a \<Longrightarrow> same_map a a' \<Longrightarrow> storage_wf (sa_storage a') \<Longrightarrow> acc_wf a'"
  by (simp add: acc_wf_def same_map_def)

lemma same_map_paddr: "same_map a a' \<Longrightarrow> paddr a' pid v = paddr a pid v"
  by (simp add: same_map_def paddr_def)

lemma same_map_resident:
  "same_map a a' \<Longrightarrow> sto_Capacity (sa_storage a') = sto_Capacity (sa_storage a) \<Longrightarrow> resident a' pid v = resident a pid v"
  by (simp add: same_map_def resident_def)

lemma sto_result_simps [simp]:
  "sto_result (Some (Inr (s, Inr x))) = Inr (s, x)" "sto_result (Some (Inr (s, Inl err))) = Inl (Panic err)"
  by (simp_all add: sto_result_def)

text \<open>The number of bytes one iteration handles.\<close>

definition chunk :: "nat \<Rightarrow> u64 \<Rightarrow> nat \<Rightarrow> nat" where
  "chunk lg x n = min (2 ^ lg - unat x mod 2 ^ lg) n"

lemma chunk_bounds: "0 < n \<Longrightarrow> 0 < chunk lg x n" "chunk lg x n \<le> n" "k < chunk lg x n \<Longrightarrow> unat x mod 2 ^ lg + k < 2 ^ lg"
  using mod_less_divisor [of "2 ^ lg" "unat x"] by (auto simp: chunk_def simp del: mod_less_divisor)

lemma chunk_word:
  assumes "lg < 64" "n < 2 ^ 64"
  shows "(if sizeInPageLeft lg x > of_nat n then of_nat n else sizeInPageLeft lg x) = of_nat (chunk lg x n)"
proof -
  have n: "unat (of_nat n :: u64) = n" using assms(2) by (simp add: unat_of_nat)
  have "sizeInPageLeft lg x > of_nat n \<longleftrightarrow> n < 2 ^ lg - unat x mod 2 ^ lg"
    by (simp only: word_less_nat_alt n sizeInPageLeft_eq [OF assms(1)])
  moreover have "sizeInPageLeft lg x = of_nat (2 ^ lg - unat x mod 2 ^ lg)"
    unfolding sizeInPageLeft_eq [OF assms(1), of x, symmetric] by simp
  ultimately show ?thesis by (auto simp: chunk_def min_def)
qed

lemma acc_read_step:
  assumes "acc_wf a" "resident a pid (v + of_nat off)" "0 < left" "left < 2 ^ 64" "off + left \<le> length data" "length data < 2 ^ 64"
  defines "c \<equiv> chunk (sa_log2PageSize a) (v + of_nat off) left"
  shows "\<exists>a'. same_map a a' \<and> storage_wf (sa_storage a') \<and> byte_at (sa_storage a') = byte_at (sa_storage a) \<and>
    sto_Capacity (sa_storage a') = sto_Capacity (sa_storage a) \<and>
    acc_read_loop (Suc fuel) pid v (of_nat off) (of_nat left) data a =
      acc_read_loop fuel pid v (of_nat (off + c)) (of_nat (left - c))
        (copy_at data off (map (\<lambda>i. vbyte a pid (v + of_nat (off + i))) [0..<c])) a'"
proof -
  let ?lg = "sa_log2PageSize a" and ?x = "v + of_nat off"
  have lg: "?lg < 64" using assms(1) by (simp add: acc_wf_def)
  obtain pg where pg: "page_of a pid ?x = Some pg" using assms(2) by (auto simp: resident_def)
  obtain a1 where a1: "translate a pid ?x ?x = Inr (pg_PAddr pg + (?x - pg_VAddr pg), a1)" "same_map a a1" "sa_storage a1 = sa_storage a"
    using translate_ok [OF _ pg, of ?x] assms(1) by (auto simp: acc_wf_def)
  then have tr: "translate a pid ?x ?x = Inr (paddr a pid ?x, a1)" using pg by (simp add: paddr_def)
  have cb: "0 < c" "c \<le> left" "\<And>k. k < c \<Longrightarrow> unat ?x mod 2 ^ ?lg + k < 2 ^ ?lg"
    using chunk_bounds [where lg = ?lg and x = ?x and n = left] assms(3) by (simp_all add: c_def)
  have uc: "unat (of_nat c :: u64) = c" using cb(2) assms(4) by (simp add: unat_of_nat)
  have "unat ?x mod 2 ^ ?lg + 0 < 2 ^ ?lg" by simp
  then have "unat (paddr a pid ?x) + (2 ^ ?lg - unat ?x mod 2 ^ ?lg) \<le> unat (sto_Capacity (sa_storage a))"
    by (rule paddr_in_page(4) [OF assms(1,2)])
  moreover have "c \<le> 2 ^ ?lg - unat ?x mod 2 ^ ?lg" by (simp add: c_def chunk_def)
  ultimately have "unat (paddr a pid ?x) + c \<le> unat (sto_Capacity (sa_storage a))" by linarith
  then have rng: "in_range (sa_storage a) (paddr a pid ?x) (unat (of_nat c :: u64))"
    using uc by (simp add: in_range_def)
  obtain s' where s': "storage_Read (sa_storage a) (paddr a pid ?x) (of_nat c) =
      Some (Inr (s', Inr (map (\<lambda>i. byte_at (sa_storage a) (paddr a pid ?x + of_nat i)) [0..<c])))"
    "storage_wf s'" "byte_at s' = byte_at (sa_storage a)" "sto_Capacity s' = sto_Capacity (sa_storage a)"
    using storage_Read_spec [OF _ rng] assms(1) uc by (auto simp: acc_wf_def)
  have bytes: "map (\<lambda>i. byte_at (sa_storage a) (paddr a pid ?x + of_nat i)) [0..<c] = map (\<lambda>i. vbyte a pid (v + of_nat (off + i))) [0..<c]"
    using paddr_in_page(2) [OF assms(1,2) cb(3)] by (auto simp: vbyte_def add.assoc)
  have uo: "unat (of_nat off :: u64) = off" using assms(5,6) by (simp add: unat_of_nat)
  have pos: "0 < (of_nat left :: u64)" using assms(3,4) by (simp add: word_less_nat_alt unat_of_nat)
  have "take (length data - off) (map f [0..<c]) = map f [0..<c]" for f using cb(2) assms(5) by (simp add: take_map)
  then have "acc_read_loop (Suc fuel) pid v (of_nat off) (of_nat left) data a =
      acc_read_loop fuel pid v (of_nat (off + c)) (of_nat (left - c))
        (copy_at data off (map (\<lambda>i. vbyte a pid (v + of_nat (off + i))) [0..<c])) (a1\<lparr>sa_storage := s'\<rparr>)"
    using tr s'(1) a1(3) pos cb chunk_word [OF lg assms(4), of ?x] uo
    by (simp add: Let_def c_def [symmetric] bytes of_nat_diff)
  moreover have "same_map a (a1\<lparr>sa_storage := s'\<rparr>)" using a1(2) same_map_trans same_map_refl(2) by blast
  ultimately show ?thesis using s'(2-4) by (intro exI [of _ "a1\<lparr>sa_storage := s'\<rparr>"]) simp
qed

lemma acc_read_loop_ok:
  assumes "acc_wf a" "\<forall>i < left. resident a pid (v + of_nat (off + i))" "left < fuel" "off + left = length data" "length data < 2 ^ 64"
  shows "\<exists>a'. acc_read_loop fuel pid v (of_nat off) (of_nat left) data a =
      Inr (take off data @ map (\<lambda>i. vbyte a pid (v + of_nat (off + i))) [0..<left], a') \<and>
    same_map a a' \<and> storage_wf (sa_storage a') \<and> byte_at (sa_storage a') = byte_at (sa_storage a) \<and>
    sto_Capacity (sa_storage a') = sto_Capacity (sa_storage a)"
  using assms
proof (induction left arbitrary: off data a fuel rule: less_induct)
  case (less left)
  obtain fuel' where fuel: "fuel = Suc fuel'" using less.prems(3) by (cases fuel) auto
  show ?case
  proof (cases "left = 0")
    case True
    then show ?thesis using less.prems(1,4) by (intro exI [of _ a]) (simp add: fuel acc_wf_def)
  next
    case False
    let ?c = "chunk (sa_log2PageSize a) (v + of_nat off) left"
    let ?f = "\<lambda>i. vbyte a pid (v + of_nat (off + i))"
    let ?data = "copy_at data off (map ?f [0..<?c])"
    have c: "0 < ?c" "?c \<le> left" using chunk_bounds False by simp_all
    have "resident a pid (v + of_nat off)" using less.prems(2) [rule_format, of 0] False by simp
    then obtain a1 where a1: "same_map a a1" "storage_wf (sa_storage a1)" "byte_at (sa_storage a1) = byte_at (sa_storage a)"
      "sto_Capacity (sa_storage a1) = sto_Capacity (sa_storage a)"
      "acc_read_loop fuel pid v (of_nat off) (of_nat left) data a = acc_read_loop fuel' pid v (of_nat (off + ?c)) (of_nat (left - ?c)) ?data a1"
      using acc_read_step [OF less.prems(1), of pid v off left data fuel'] less.prems(4,5) False by (auto simp: fuel)
    have vb: "vbyte a1 pid x = vbyte a pid x" for x using a1(1,3) by (simp add: vbyte_def same_map_paddr)
    have "acc_wf a1" using acc_wf_storage less.prems(1) a1(1,2) by blast
    moreover have "\<forall>i < left - ?c. resident a1 pid (v + of_nat (off + ?c + i))"
    proof (intro allI impI)
      fix i assume "i < left - ?c"
      then have "?c + i < left" by simp
      then show "resident a1 pid (v + of_nat (off + ?c + i))"
        using less.prems(2) same_map_resident [OF a1(1,4)] by (simp only: add.assoc)
    qed
    moreover have "left - ?c < left" "left - ?c < fuel'" "off + ?c + (left - ?c) = length ?data" "length ?data < 2 ^ 64"
      using c less.prems(3-5) by (simp_all add: fuel)
    ultimately obtain a' where a': "acc_read_loop fuel' pid v (of_nat (off + ?c)) (of_nat (left - ?c)) ?data a1 =
        Inr (take (off + ?c) ?data @ map (\<lambda>i. vbyte a pid (v + of_nat (off + ?c + i))) [0..<left - ?c], a')"
        "same_map a1 a'" "storage_wf (sa_storage a')" "byte_at (sa_storage a') = byte_at (sa_storage a1)"
        "sto_Capacity (sa_storage a') = sto_Capacity (sa_storage a1)"
      using less.IH [of "left - ?c" a1 "off + ?c" fuel' ?data] unfolding vb by blast
    have "take (off + ?c) ?data = take off data @ map ?f [0..<?c]" using less.prems(4) by (simp add: copy_at_def)
    then have "take (off + ?c) ?data @ map (\<lambda>i. vbyte a pid (v + of_nat (off + ?c + i))) [0..<left - ?c] = take off data @ map ?f [0..<left]"
      using map_upt_split [OF c(2), of ?f] by (simp add: add.assoc)
    then show ?thesis using a' a1 same_map_trans by (intro exI [of _ a']) auto
  qed
qed

lemma acc_write_step:
  assumes "acc_wf a" "page_of a pid v = Some pg" "0 < left" "left < 2 ^ 64" "off + left = length data" "length data < 2 ^ 64"
    and base: "base = pg_PAddr pg + (v - pg_VAddr pg)" "unat base + length data \<le> unat (sto_Capacity (sa_storage a))"
  defines "c \<equiv> chunk (sa_log2PageSize a) (v + of_nat off) left"
  shows "\<exists>a'. same_map a a' \<and> storage_wf (sa_storage a') \<and> sto_Capacity (sa_storage a') = sto_Capacity (sa_storage a) \<and>
    (\<forall>x. byte_at (sa_storage a') x = (if unat base + off \<le> unat x \<and> unat x < unat base + off + c then data ! (unat x - unat base) else byte_at (sa_storage a) x)) \<and>
    acc_write_loop (Suc fuel) pid v (of_nat off) (of_nat left) data a = acc_write_loop fuel pid v (of_nat (off + c)) (of_nat (left - c)) data a'"
proof -
  let ?lg = "sa_log2PageSize a" and ?x = "v + of_nat off" and ?p = "base + of_nat off" and ?d = "take c (drop off data)"
  have lg: "?lg < 64" using assms(1) by (simp add: acc_wf_def)
  have p: "pg_PAddr pg + (?x - pg_VAddr pg) = ?p" using base(1) by simp
  obtain a1 where a1: "translate a pid v ?x = Inr (?p, a1)" "same_map a a1" "sa_storage a1 = sa_storage a"
    using translate_ok [OF _ assms(2), of ?x] assms(1) unfolding p by (auto simp: acc_wf_def)
  have cb: "0 < c" "c \<le> left" using chunk_bounds [where lg = ?lg and x = ?x and n = left] assms(3) by (simp_all add: c_def)
  have uc: "unat (of_nat c :: u64) = c" "unat (of_nat off :: u64) = off" using cb(2) assms(4-6) by (simp_all add: unat_of_nat)
  have up: "unat ?p = unat base + off" using base(2) assms(5) unat_lt64 [of "sto_Capacity (sa_storage a)"] by (intro unat_word_add) simp
  have ld: "length ?d = c" using cb(2) assms(5) by simp
  have rng: "in_range (sa_storage a) ?p (length ?d)" using base(2) cb(2) assms(5) by (simp add: in_range_def up ld)
  obtain s' where s': "storage_Write (sa_storage a) ?p ?d = Some (Inr (s', Inr ()))" "storage_wf s'" "sto_Capacity s' = sto_Capacity (sa_storage a)"
    "\<forall>x. byte_at s' x = (if unat ?p \<le> unat x \<and> unat x < unat ?p + length ?d then ?d ! (unat x - unat ?p) else byte_at (sa_storage a) x)"
    using storage_Write_spec [OF _ rng] assms(1) by (auto simp: acc_wf_def)
  have pos: "0 < (of_nat left :: u64)" using assms(3,4) by (simp add: word_less_nat_alt unat_of_nat)
  have "acc_write_loop (Suc fuel) pid v (of_nat off) (of_nat left) data a =
      acc_write_loop fuel pid v (of_nat (off + c)) (of_nat (left - c)) data (a1\<lparr>sa_storage := s'\<rparr>)"
    using a1(1,3) s'(1) pos cb chunk_word [OF lg assms(4), of ?x] uc
    by (simp add: Let_def c_def [symmetric] of_nat_diff)
  moreover have "same_map a (a1\<lparr>sa_storage := s'\<rparr>)" using a1(2) same_map_trans same_map_refl(2) by blast
  moreover have "\<forall>x. byte_at s' x = (if unat base + off \<le> unat x \<and> unat x < unat base + off + c then data ! (unat x - unat base) else byte_at (sa_storage a) x)"
    using s'(4) cb(2) assms(5) unfolding up ld by (auto simp: nth_take nth_drop)
  ultimately show ?thesis using s'(2,3) by (intro exI [of _ "a1\<lparr>sa_storage := s'\<rparr>"]) simp
qed

lemma acc_write_loop_ok:
  assumes "acc_wf a" "page_of a pid v = Some pg" "left < fuel" "off + left = length data" "length data < 2 ^ 64"
    and "base = pg_PAddr pg + (v - pg_VAddr pg)" "unat base + length data \<le> unat (sto_Capacity (sa_storage a))"
  shows "\<exists>a'. acc_write_loop fuel pid v (of_nat off) (of_nat left) data a = Inr a' \<and> same_map a a' \<and> storage_wf (sa_storage a') \<and>
    sto_Capacity (sa_storage a') = sto_Capacity (sa_storage a) \<and>
    (\<forall>x. byte_at (sa_storage a') x = (if unat base + off \<le> unat x \<and> unat x < unat base + length data then data ! (unat x - unat base) else byte_at (sa_storage a) x))"
  using assms(1-5,7)
proof (induction left arbitrary: off a fuel rule: less_induct)
  case (less left)
  obtain fuel' where fuel: "fuel = Suc fuel'" using less.prems(3) by (cases fuel) auto
  show ?case
  proof (cases "left = 0")
    case True
    then show ?thesis using less.prems(1,4) by (intro exI [of _ a]) (auto simp: fuel acc_wf_def)
  next
    case False
    let ?c = "chunk (sa_log2PageSize a) (v + of_nat off) left"
    have c: "0 < ?c" "?c \<le> left" using chunk_bounds False by simp_all
    have l: "left < 2 ^ 64" "0 < left" using less.prems(4,5) False by simp_all
    obtain a1 where a1: "same_map a a1" "storage_wf (sa_storage a1)" "sto_Capacity (sa_storage a1) = sto_Capacity (sa_storage a)"
      "\<forall>x. byte_at (sa_storage a1) x = (if unat base + off \<le> unat x \<and> unat x < unat base + off + ?c then data ! (unat x - unat base) else byte_at (sa_storage a) x)"
      "acc_write_loop fuel pid v (of_nat off) (of_nat left) data a = acc_write_loop fuel' pid v (of_nat (off + ?c)) (of_nat (left - ?c)) data a1"
      using acc_write_step [OF less.prems(1,2) l(2,1) less.prems(4,5) assms(6) less.prems(6), of fuel'] unfolding fuel by blast
    have "acc_wf a1" using acc_wf_storage less.prems(1) a1(1,2) by blast
    moreover have "page_of a1 pid v = Some pg" using a1(1) less.prems(2) by (simp add: same_map_def)
    moreover have "left - ?c < left" "left - ?c < fuel'" "off + ?c + (left - ?c) = length data"
      using c less.prems(3,4) by (simp_all add: fuel)
    moreover have "unat base + length data \<le> unat (sto_Capacity (sa_storage a1))" using less.prems(6) a1(3) by simp
    ultimately obtain a' where a': "acc_write_loop fuel' pid v (of_nat (off + ?c)) (of_nat (left - ?c)) data a1 = Inr a'" "same_map a1 a'"
      "storage_wf (sa_storage a')" "sto_Capacity (sa_storage a') = sto_Capacity (sa_storage a1)"
      "\<forall>x. byte_at (sa_storage a') x = (if unat base + (off + ?c) \<le> unat x \<and> unat x < unat base + length data then data ! (unat x - unat base) else byte_at (sa_storage a1) x)"
      using less.IH [of "left - ?c" a1 fuel' "off + ?c"] less.prems(5) by blast
    have "\<forall>x. byte_at (sa_storage a') x = (if unat base + off \<le> unat x \<and> unat x < unat base + length data then data ! (unat x - unat base) else byte_at (sa_storage a) x)"
      using a'(5) a1(4) c(2) less.prems(4) by auto
    then show ?thesis using a'(1-4) a1(1,3,5) same_map_trans by (intro exI [of _ a']) auto
  qed
qed

lemma accessor_Write_ok:
  assumes "acc_wf a" "page_of a pid v = Some pg" "unat (paddr a pid v) + length data \<le> unat (sto_Capacity (sa_storage a))"
  shows "\<exists>a'. accessor_Write pid v data a = Inr a' \<and> same_map a a' \<and> acc_wf a' \<and> sto_Capacity (sa_storage a') = sto_Capacity (sa_storage a) \<and>
    (\<forall>x. byte_at (sa_storage a') x = (if unat (paddr a pid v) \<le> unat x \<and> unat x < unat (paddr a pid v) + length data
        then data ! (unat x - unat (paddr a pid v)) else byte_at (sa_storage a) x))"
proof -
  have "length data < 2 ^ 64" using assms(3) unat_lt64 [of "sto_Capacity (sa_storage a)"] by linarith
  moreover have "paddr a pid v = pg_PAddr pg + (v - pg_VAddr pg)" using assms(2) by (simp add: paddr_def)
  ultimately obtain a' where "acc_write_loop (Suc (length data)) pid v (of_nat 0) (of_nat (length data)) data a = Inr a'" "same_map a a'" "storage_wf (sa_storage a')"
      "sto_Capacity (sa_storage a') = sto_Capacity (sa_storage a)"
      "\<forall>x. byte_at (sa_storage a') x = (if unat (paddr a pid v) + 0 \<le> unat x \<and> unat x < unat (paddr a pid v) + length data
        then data ! (unat x - unat (paddr a pid v)) else byte_at (sa_storage a) x)"
    using acc_write_loop_ok [OF assms(1,2), of "length data" "Suc (length data)" 0 data "paddr a pid v"] assms(3) by auto
  then show ?thesis using acc_wf_storage [OF assms(1)] by (auto simp: accessor_Write_def)
qed

section \<open>Properties\<close>

text \<open>
  Claim C21. A read through the accessor is a read of virtual memory: for any length, across any number of pages that are
  mapped into the storage, each through its own page-table entry, it does not panic, returns the byte of every virtual address
  in order and changes neither a byte nor the mapping.
\<close>

theorem accessor_Read_virtual:
  assumes "acc_wf a" "\<forall>i < unat n. resident a pid (v + of_nat i)"
  shows "\<exists>a'. accessor_Read pid v n a = Inr (map (\<lambda>i. vbyte a pid (v + of_nat i)) [0..<unat n], a') \<and> acc_wf a' \<and> (\<forall>pid' x. vbyte a' pid' x = vbyte a pid' x)"
proof -
  obtain a' where a': "acc_read_loop (Suc (unat n)) pid v (of_nat 0) (of_nat (unat n)) (replicate (unat n) 0) a =
      Inr (take 0 (replicate (unat n) 0) @ map (\<lambda>i. vbyte a pid (v + of_nat (0 + i))) [0..<unat n], a')" "same_map a a'" "storage_wf (sa_storage a')"
      "byte_at (sa_storage a') = byte_at (sa_storage a)"
    using acc_read_loop_ok [OF assms(1), of "unat n" pid v 0 "Suc (unat n)" "replicate (unat n) 0"] assms(2) unat_lt64 [of n] by auto
  have "accessor_Read pid v n a = Inr (map (\<lambda>i. vbyte a pid (v + of_nat i)) [0..<unat n], a')"
    using a'(1) by (simp add: accessor_Read_def)
  moreover have "acc_wf a'" using acc_wf_storage [OF assms(1) a'(2,3)] .
  moreover have "vbyte a' pid' x = vbyte a pid' x" for pid' x using a'(2,4) by (simp add: vbyte_def same_map_paddr)
  ultimately show ?thesis by blast
qed

text \<open>
  Claim C22. What is written inside one page is what is read back: the write does not panic, a read of the same virtual range
  returns the data, and no virtual address of any process that is mapped to another physical byte changes.
\<close>

theorem accessor_write_then_read:
  assumes "acc_wf a" "resident a pid v" "unat v mod 2 ^ sa_log2PageSize a + length data \<le> 2 ^ sa_log2PageSize a" "length data < 2 ^ 64"
  shows "\<exists>a' a''. accessor_Write pid v data a = Inr a' \<and> accessor_Read pid v (of_nat (length data)) a' = Inr (data, a'') \<and>
    (\<forall>pid' x. (\<forall>i < length data. paddr a pid' x \<noteq> paddr a pid (v + of_nat i)) \<longrightarrow> vbyte a' pid' x = vbyte a pid' x)"
proof -
  let ?lg = "sa_log2PageSize a" and ?n = "length data" and ?p = "paddr a pid v"
  have inp: "unat v mod 2 ^ ?lg + i < 2 ^ ?lg" if "i < ?n" for i using that assms(3) by linarith
  have "unat v mod 2 ^ ?lg + 0 < 2 ^ ?lg" by simp
  note P0 = paddr_in_page(4) [OF assms(1,2) this]
  have cap: "unat ?p + ?n \<le> unat (sto_Capacity (sa_storage a))" using P0 assms(3) by linarith
  obtain pg where pg: "page_of a pid v = Some pg" using assms(2) by (auto simp: resident_def)
  obtain a' where a': "accessor_Write pid v data a = Inr a'" "same_map a a'" "acc_wf a'" "sto_Capacity (sa_storage a') = sto_Capacity (sa_storage a)"
    "\<forall>x. byte_at (sa_storage a') x = (if unat ?p \<le> unat x \<and> unat x < unat ?p + ?n then data ! (unat x - unat ?p) else byte_at (sa_storage a) x)"
    using accessor_Write_ok [OF assms(1) pg cap] by blast
  have n: "unat (of_nat ?n :: u64) = ?n" using assms(4) by (simp add: unat_of_nat)
  have "\<forall>i < ?n. resident a' pid (v + of_nat i)"
    using paddr_in_page(1) [OF assms(1,2) inp] same_map_resident [OF a'(2,4)] by blast
  moreover have "vbyte a' pid (v + of_nat i) = data ! i" if "i < ?n" for i
    using paddr_in_page(3) [OF assms(1,2) inp [OF that]] a'(5) that by (simp add: vbyte_def same_map_paddr [OF a'(2)])
  then have d: "map (\<lambda>i. vbyte a' pid (v + of_nat i)) [0..<?n] = data" by (intro nth_equalityI) simp_all
  obtain a'' where "acc_read_loop (Suc ?n) pid v (of_nat 0) (of_nat ?n) (replicate ?n 0) a' =
      Inr (take 0 (replicate ?n 0) @ map (\<lambda>i. vbyte a' pid (v + of_nat (0 + i))) [0..<?n], a'')"
    using acc_read_loop_ok [OF a'(3), of ?n pid v 0 "Suc ?n" "replicate ?n 0"] calculation assms(4) by auto
  then have "accessor_Read pid v (of_nat ?n) a' = Inr (data, a'')" using d by (simp add: accessor_Read_def n)
  moreover have "vbyte a' pid' x = vbyte a pid' x" if "\<forall>i < ?n. paddr a pid' x \<noteq> paddr a pid (v + of_nat i)" for pid' x
  proof -
    have "\<not> (unat ?p \<le> unat (paddr a pid' x) \<and> unat (paddr a pid' x) < unat ?p + ?n)"
    proof
      assume r: "unat ?p \<le> unat (paddr a pid' x) \<and> unat (paddr a pid' x) < unat ?p + ?n"
      then obtain i where i: "unat (paddr a pid' x) = unat ?p + i" "i < ?n" by (auto simp: le_iff_add)
      then have "unat (paddr a pid (v + of_nat i)) = unat (paddr a pid' x)" using paddr_in_page(3) [OF assms(1,2) inp] by simp
      then show False using that i(2) by (metis word_unat_eq_iff)
    qed
    then show ?thesis using a'(5) by (auto simp: vbyte_def same_map_paddr [OF a'(2)])
  qed
  ultimately show ?thesis using a'(1) by blast
qed

text \<open>
  Claim C38. A write that crosses into another page ignores that page's mapping: \<^verbatim>\<open>Write\<close> looks up the page of the first address
  for every part, so the bytes go behind the first physical page, and a virtual address of the range whose own page is mapped
  elsewhere keeps its old content.
\<close>

theorem accessor_write_misses_second_page:
  assumes "acc_wf a" "page_of a pid v = Some pg" "unat (paddr a pid v) + length data \<le> unat (sto_Capacity (sa_storage a))"
    and "i < length data" "\<forall>j < length data. paddr a pid (v + of_nat i) \<noteq> paddr a pid v + of_nat j"
  shows "\<exists>a'. accessor_Write pid v data a = Inr a' \<and> vbyte a' pid (v + of_nat i) = vbyte a pid (v + of_nat i) \<and>
    byte_at (sa_storage a') (paddr a pid v + of_nat i) = data ! i"
proof -
  let ?p = "paddr a pid v" and ?q = "paddr a pid (v + of_nat i)" and ?n = "length data"
  have up: "unat (?p + of_nat j) = unat ?p + j" if "j < ?n" for j
    using that assms(3) unat_lt64 [of "sto_Capacity (sa_storage a)"] by (intro unat_word_add) simp
  obtain a' where a': "accessor_Write pid v data a = Inr a'" "same_map a a'"
    "\<forall>x. byte_at (sa_storage a') x = (if unat ?p \<le> unat x \<and> unat x < unat ?p + ?n then data ! (unat x - unat ?p) else byte_at (sa_storage a) x)"
    using accessor_Write_ok [OF assms(1-3)] by blast
  have "\<not> (unat ?p \<le> unat ?q \<and> unat ?q < unat ?p + ?n)"
  proof
    assume r: "unat ?p \<le> unat ?q \<and> unat ?q < unat ?p + ?n"
    then have "unat ?q - unat ?p < ?n" by linarith
    then have "unat (?p + of_nat (unat ?q - unat ?p)) = unat ?q" using up r by simp
    then show False using assms(5) \<open>unat ?q - unat ?p < ?n\<close> by (metis word_unat_eq_iff)
  qed
  then show ?thesis using a' up [OF assms(4)] assms(4) by (auto simp: vbyte_def same_map_paddr [OF a'(2)])
qed

text \<open>Two pages of 16 bytes that are adjacent in virtual memory and apart in the storage.\<close>

definition pageA :: Page where
  "pageA = no_page\<lparr>pg_PID := 1, pg_VAddr := 0, pg_PAddr := 0\<rparr>"

definition pageB :: Page where
  "pageB = no_page\<lparr>pg_PID := 1, pg_VAddr := 16, pg_PAddr := 64\<rparr>"

lemma two_pages:
  "\<exists>a :: u64 storageAccessor. acc_wf a \<and> sa_storage a = NewStorage 128 \<and> sa_log2PageSize a = 4 \<and>
     (\<forall>v < 16. page_of a 1 v = Some pageA \<and> page_of a 1 (v + 16) = Some pageB)"
proof -
  let ?pt = "SetMemoryAllocator (Some bump) (NewPageTable 4)"
  have "pt_wf 4 ?pt" using bump_total by (simp add: pt_wf_def SetMemoryAllocator_def NewPageTable_def)
  moreover have "pt_pages ?pt = Map.empty" by (simp add: pt_pages_def SetMemoryAllocator_def NewPageTable_def fun_eq_iff)
  moreover have "spec_ops (\<lambda>(pid, v). canonical 4 v) (\<lambda>p. (pg_PID p, pg_VAddr p)) [PInsert pageA, PInsert pageB] Map.empty =
      Some [(1, 0) \<mapsto> pageA, (1, 16) \<mapsto> pageB]"
    by (simp add: pageA_def pageB_def no_page_def canonical_def)
  ultimately obtain pt :: "u64 PageTableImpl" where pt: "pt_wf 4 pt" "pt_pages pt = [(1, 0) \<mapsto> pageA, (1, 16) \<mapsto> pageB]"
    using ptm.run_refines [of 4 "(?pt, 0 :: u64)" "[PInsert pageA, PInsert pageB]"] by (auto simp del: spec_ops.simps run_ops.simps)
  let ?a = "newStorageAccessor (NewStorage 128) pt 4 None"
  have "page_of ?a 1 v = Some pageA \<and> page_of ?a 1 (v + 16) = Some pageB" if "v < 16" for v
  proof -
    obtain t pt' where g: "getTable 1 pt = (t, pt')" "pt_wf 4 pt'" "\<forall>v. pt_find t v = pt_pages pt (1, v)"
      by (rule getTable_wf [OF pt(1), of 1]) blast
    have "drop_bit 4 (0 + of_nat (unat v)) = drop_bit 4 (0 :: u64)" "drop_bit 4 (16 + of_nat (unat v)) = drop_bit 4 (16 :: u64)"
      using that by (intro in_page(2); simp add: word_less_nat_alt)+
    moreover have "push_bit 4 (drop_bit 4 (16 :: u64)) = 16" by code_simp
    ultimately have "push_bit 4 (drop_bit 4 v) = 0" "push_bit 4 (drop_bit 4 (v + 16)) = 16" by (simp_all only: add.commute [of v 16] of_nat_unat ucast_id add_0 drop_bit_of_0 push_bit_of_0)
    then show ?thesis using g pt(2) by (simp add: page_of_def newStorageAccessor_def pt_Find_def AlignToPage_def pt_wf_def)
  qed
  moreover have "acc_wf ?a" using pt(1) NewStorage_wf [of 128] by (simp add: acc_wf_def newStorageAccessor_def pt_wf_def)
  ultimately show ?thesis by (intro exI [of _ ?a]) (simp add: newStorageAccessor_def)
qed
lemma two_pages_paddr:
  assumes "acc_wf a" "sa_storage a = NewStorage 128" "sa_log2PageSize a = 4"
    and "\<forall>v < 16. page_of a 1 v = Some pageA \<and> page_of a 1 (v + 16) = Some pageB" "i < 16"
  shows "resident a 1 (of_nat i)" "paddr a 1 (of_nat i) = of_nat i"
    "resident a 1 (16 + of_nat i)" "paddr a 1 (16 + of_nat i) = 64 + of_nat i"
proof -
  have u: "(of_nat i :: u64) < 16" using assms(5) by (simp add: word_less_nat_alt unat_of_nat)
  then have pg: "page_of a 1 (of_nat i) = Some pageA" "page_of a 1 (16 + of_nat i) = Some pageB" using assms(4) by (simp_all add: add.commute)
  have t: "take_bit 4 (0 + of_nat i) = take_bit 4 (0 :: u64) + of_nat i" "take_bit 4 (16 + of_nat i) = take_bit 4 (16 :: u64) + of_nat i"
    using assms(5) by (intro in_page(3); simp)+
  show "resident a 1 (of_nat i)" "resident a 1 (16 + of_nat i)"
    using pg t assms(2,3) by (simp_all add: resident_def pageA_def pageB_def no_page_def NewStorage_def)
  show "paddr a 1 (of_nat i) = of_nat i" "paddr a 1 (16 + of_nat i) = 64 + of_nat i"
    using pg by (simp_all add: paddr_def pageA_def pageB_def no_page_def)
qed

theorem accessor_Read_virtual_witness:
  "\<exists>(a :: u64 storageAccessor) a'. page_of a 1 8 \<noteq> page_of a 1 16 \<and>
     accessor_Read 1 8 16 a = Inr (map (\<lambda>i. vbyte a 1 (8 + of_nat i)) [0..<16], a')"
proof -
  obtain a :: "u64 storageAccessor" where a: "acc_wf a" "sa_storage a = NewStorage 128" "sa_log2PageSize a = 4"
    "\<forall>v < 16. page_of a 1 v = Some pageA \<and> page_of a 1 (v + 16) = Some pageB" using two_pages by blast
  note R = two_pages_paddr [OF a]
  have "resident a 1 (8 + of_nat i)" if "i < 16" for i
  proof (cases "i < 8")
    case True
    then show ?thesis using R(1) [of "8 + i"] by simp
  next
    case False
    then have "8 + of_nat i = 16 + (of_nat (i - 8) :: u64)" by (simp add: of_nat_diff)
    then show ?thesis using R(3) [of "i - 8"] that by simp
  qed
  then obtain a' where "accessor_Read 1 8 16 a = Inr (map (\<lambda>i. vbyte a 1 (8 + of_nat i)) [0..<unat (16 :: u64)], a')"
    using accessor_Read_virtual [OF a(1), of 16 1 8] by auto
  moreover have "page_of a 1 8 \<noteq> page_of a 1 16"
  proof -
    have "page_of a 1 8 = Some pageA" "page_of a 1 16 = Some pageB" using a(4) [rule_format, of 8] a(4) [rule_format, of 0] by simp_all
    then show ?thesis by (simp add: pageA_def pageB_def no_page_def)
  qed
  ultimately show ?thesis by auto
qed

theorem accessor_write_then_read_witness:
  "\<exists>(a :: u64 storageAccessor) a' a''. accessor_Write 1 20 [1, 2, 3] a = Inr a' \<and> accessor_Read 1 20 3 a' = Inr ([1, 2, 3], a'')"
proof -
  obtain a :: "u64 storageAccessor" where a: "acc_wf a" "sa_storage a = NewStorage 128" "sa_log2PageSize a = 4"
    "\<forall>v < 16. page_of a 1 v = Some pageA \<and> page_of a 1 (v + 16) = Some pageB" using two_pages by blast
  have "resident a 1 20" using two_pages_paddr(3) [OF a, of 4] by simp
  then show ?thesis using accessor_write_then_read [OF a(1), of 1 20 "[1, 2, 3]"] a(3) by (simp add: numeral_3_eq_3) blast
qed

theorem accessor_write_misses_second_page_witness:
  "\<exists>(a :: u64 storageAccessor) a'. accessor_Write 1 15 [1, 2] a = Inr a' \<and> vbyte a' 1 16 = vbyte a 1 16 \<and> vbyte a 1 16 = 0 \<and>
     byte_at (sa_storage a') 16 = 2"
proof -
  obtain a :: "u64 storageAccessor" where a: "acc_wf a" "sa_storage a = NewStorage 128" "sa_log2PageSize a = 4"
    "\<forall>v < 16. page_of a 1 v = Some pageA \<and> page_of a 1 (v + 16) = Some pageB" using two_pages by blast
  have p: "page_of a 1 15 = Some pageA" "paddr a 1 15 = 15" "paddr a 1 16 = 64"
    using a(4) [rule_format, of 15] two_pages_paddr(2) [OF a, of 15] two_pages_paddr(4) [OF a, of 0] by simp_all
  have "(64 :: u64) \<noteq> 15 + of_nat j" if "j < 2" for j :: nat using less_2_cases [OF that] by auto
  then obtain a' where "accessor_Write 1 15 [1, 2] a = Inr a'" "vbyte a' 1 16 = vbyte a 1 16" "byte_at (sa_storage a') 16 = 2"
    using accessor_write_misses_second_page [OF a(1) p(1), of "[1, 2]" 1] p(2,3) a(2) by (auto simp: NewStorage_def)
  moreover have "vbyte a 1 16 = 0" using a(2) by (simp add: vbyte_def byte_at_def NewStorage_def)
  ultimately show ?thesis by blast
qed

end
