(* ===== verification/Inst_Format.thy ===== *)
theory Inst_Format
  imports Emu_Scratchpad
begin

text \<open>
  Bit fields and instruction formats (\<^verbatim>\<open>mgpusim/insts/disassembler.go\<close> and \<^verbatim>\<open>format.go\<close>). The list of formats comes from a Go map,
  whose order is not defined, and is then sorted by mask with a sort that is not stable; the property here is that the format found for a
  word does not depend on the order that results.
\<close>

unbundle bit_operations_syntax

section \<open>Bit fields\<close>

text \<open>The mask is computed in 64 bits; \<^verbatim>\<open>hi - lo + 1\<close> in 8.\<close>

definition extractBits :: "u32 \<Rightarrow> byte \<Rightarrow> byte \<Rightarrow> u32" where
  "extractBits number lo hi =
     (let m = push_bit (unat lo) (push_bit (unat (hi - lo + 1)) 1 - 1) :: u64
      in ucast (drop_bit (unat lo) (ucast number AND m)))"

definition extractBit :: "u32 \<Rightarrow> byte \<Rightarrow> u32" where
  "extractBit number bitPosition = number AND ucast bitPosition"

section \<open>Formats\<close>

record Format =
  f_FormatType :: FormatType
  f_FormatName :: string
  f_Encoding :: u32
  f_Mask :: u32
  f_ByteSizeExLiteral :: nat
  f_OpcodeLow :: byte
  f_OpcodeHigh :: byte

definition fmt :: "FormatType \<Rightarrow> string \<Rightarrow> u32 \<Rightarrow> u32 \<Rightarrow> nat \<Rightarrow> byte \<Rightarrow> byte \<Rightarrow> Format" where
  "fmt t name enc m bytes lo hi =
     \<lparr>f_FormatType = t, f_FormatName = name, f_Encoding = enc, f_Mask = m, f_ByteSizeExLiteral = bytes, f_OpcodeLow = lo, f_OpcodeHigh = hi\<rparr>"

definition FormatTable :: "Format list" where
  "FormatTable = [
     fmt SOP1 ''sop1'' 0xBE800000 0xFF800000 4 8 15,
     fmt SOPC ''sopc'' 0xBF000000 0xFF800000 4 16 22,
     fmt SOPP ''sopp'' 0xBF800000 0xFF800000 4 16 22,
     fmt VOP1 ''vop1'' 0x7E000000 0xFE000000 4 9 16,
     fmt VOPC ''vopc'' 0x7C000000 0xFE000000 4 17 24,
     fmt SMEM ''smem'' 0xC0000000 0xFC000000 8 18 25,
     fmt VOP3a ''vop3a'' 0xD0000000 0xFC000000 8 16 25,
     fmt VOP3b ''vop3b'' 0xD0000000 0xFC000000 8 16 25,
     fmt VINTRP ''vintrp'' 0xC8000000 0xFC000000 4 16 17,
     fmt DS ''ds'' 0xD8000000 0xFC000000 8 17 24,
     fmt MUBUF ''mubuf'' 0xE0000000 0xFC000000 8 18 24,
     fmt MTBUF ''mtbuf'' 0xE8000000 0xFC000000 8 15 18,
     fmt MIMG ''mimg'' 0xF0000000 0xFC000000 8 18 24,
     fmt EXP ''exp'' 0xC4000000 0xFC000000 8 0 0,
     fmt FLAT ''flat'' 0xDC000000 0xFC000000 8 18 24,
     fmt SOPK ''sopk'' 0xB0000000 0xF0000000 4 23 27,
     fmt SOP2 ''sop2'' 0x80000000 0xA0000000 4 23 29,
     fmt VOP2 ''vop2'' 0x00000000 0x80000000 4 25 30]"

definition VOP3b_format :: Format where
  "VOP3b_format = fmt VOP3b ''vop3b'' 0xD0000000 0xFC000000 8 16 25"

text \<open>What \<^verbatim>\<open>initFormatList\<close> may produce: some order of the formats with the masks descending.\<close>

definition formatList_ok :: "Format list \<Rightarrow> bool" where
  "formatList_ok fl \<longleftrightarrow> mset fl = mset FormatTable \<and> sorted_wrt (\<lambda>f g. f_Mask g \<le> f_Mask f) fl"

definition initFormatList :: "Format list" where
  "initFormatList = FormatTable"

definition retrieveOpcode :: "Format \<Rightarrow> u32 \<Rightarrow> nat" where
  "retrieveOpcode f firstFourBytes = unat (extractBits firstFourBytes (f_OpcodeLow f) (f_OpcodeHigh f))"

definition isVOP3bOpcode :: "nat \<Rightarrow> bool" where
  "isVOP3bOpcode opcode \<longleftrightarrow> opcode \<in> set [281, 282, 283, 284, 285, 286, 480, 481]"

text \<open>\<open>None\<close> is the error that no format was found.\<close>

fun matchFormat :: "Format list \<Rightarrow> u32 \<Rightarrow> Format option" where
  "matchFormat [] firstFourBytes = None"
| "matchFormat (f # fl) firstFourBytes =
     (if f_FormatType f = VOP3b then matchFormat fl firstFourBytes
      else if (firstFourBytes XOR f_Encoding f) AND f_Mask f = 0
      then if f_FormatType f = VOP3a \<and> isVOP3bOpcode (retrieveOpcode f firstFourBytes) then Some VOP3b_format else Some f
      else matchFormat fl firstFourBytes)"

section \<open>The order of the formats does not matter\<close>

definition matches :: "u32 \<Rightarrow> Format \<Rightarrow> bool" where
  "matches w f \<longleftrightarrow> f_FormatType f \<noteq> VOP3b \<and> (w XOR f_Encoding f) AND f_Mask f = 0"

lemma matchFormat_find:
  "matchFormat fl w = map_option (\<lambda>f. if f_FormatType f = VOP3a \<and> isVOP3bOpcode (retrieveOpcode f w) then VOP3b_format else f) (find (matches w) fl)"
  by (induction fl) (auto simp: matches_def)

lemma initFormatList_ok: "formatList_ok initFormatList"
  by (simp add: formatList_ok_def initFormatList_def FormatTable_def fmt_def)

lemma find_eq_Some_first:
  assumes "sorted_wrt (\<lambda>f g. key g \<le> (key f :: 'b :: linorder)) xs" "x \<in> set xs" "P x"
    "\<And>y. y \<in> set xs \<Longrightarrow> P y \<Longrightarrow> key x \<le> key y \<Longrightarrow> y = x"
  shows "find P xs = Some x"
  using assms
proof (induction xs)
  case (Cons a xs)
  show ?case
  proof (cases "P a")
    case True
    have "key x \<le> key a" using Cons.prems(1,2) by auto
    then have "a = x" using Cons.prems(4) [of a] True by simp
    then show ?thesis using True by simp
  next
    case False
    then have "x \<in> set xs" using Cons.prems(2,3) by auto
    then show ?thesis using Cons.IH Cons.prems False by simp
  qed
qed simp

text \<open>Two formats of the same mask never match the same word.\<close>

definition apart :: "Format \<Rightarrow> Format \<Rightarrow> bool" where
  "apart f g \<longleftrightarrow> f_FormatType f = VOP3b \<or> f_FormatType g = VOP3b \<or> f_Mask f \<noteq> f_Mask g \<or> (f_Encoding f XOR f_Encoding g) AND f_Mask f \<noteq> 0"

lemma FormatTable_apart: "list_all (\<lambda>f. list_all (\<lambda>g. f = g \<or> apart f g) FormatTable) FormatTable"
  by code_simp

lemma matches_unique:
  assumes "f \<in> set FormatTable" "g \<in> set FormatTable" "matches w f" "matches w g" "f_Mask f = f_Mask g"
  shows "g = f"
proof (rule ccontr)
  assume "g \<noteq> f"
  then have "apart f g" using FormatTable_apart assms(1,2) by (auto simp: list_all_iff)
  then have "(f_Encoding f XOR f_Encoding g) AND f_Mask f \<noteq> 0" using assms(3-5) by (auto simp: apart_def matches_def)
  moreover have "(f_Encoding f XOR f_Encoding g) AND f_Mask f = ((w XOR f_Encoding f) AND f_Mask f) XOR ((w XOR f_Encoding g) AND f_Mask g)"
    by (rule bit_eqI) (auto simp: bit_simps assms(5))
  ultimately show False using assms(3,4) by (simp add: matches_def)
qed

lemma matchFormat_order:
  assumes "formatList_ok fl"
  shows "matchFormat fl w = matchFormat initFormatList w"
proof -
  have s: "set fl = set FormatTable" "sorted_wrt (\<lambda>f g. f_Mask g \<le> f_Mask f) fl"
    using assms by (auto simp: formatList_ok_def dest: mset_eq_setD)
  have s': "sorted_wrt (\<lambda>f g. f_Mask g \<le> f_Mask f) initFormatList" using initFormatList_ok by (simp add: formatList_ok_def)
  have "find (matches w) fl = find (matches w) initFormatList"
  proof (cases "find (matches w) initFormatList")
    case None
    then have "\<not> (\<exists>f \<in> set fl. matches w f)" by (simp add: find_None_iff s initFormatList_def)
    then have "find (matches w) fl = None" by (auto simp: find_None_iff)
    then show ?thesis using None by simp
  next
    case (Some f)
    obtain i where i: "i < length initFormatList" "matches w (initFormatList ! i)" "f = initFormatList ! i" "\<forall>j<i. \<not> matches w (initFormatList ! j)"
      using Some by (auto simp: find_Some_iff)
    have f: "f \<in> set FormatTable" using i by (auto simp: initFormatList_def)
    have top: "f_Mask y \<le> f_Mask f" if y: "y \<in> set FormatTable" "matches w y" for y
    proof -
      obtain j where j: "j < length initFormatList" "y = initFormatList ! j" using y(1) by (auto simp: in_set_conv_nth initFormatList_def)
      then have "i \<le> j" using i(4) y(2) by (metis not_le)
      then show ?thesis using j i(3) sorted_wrt_nth_less [OF s', of i j] by (cases "i = j") auto
    qed
    have "find (matches w) fl = Some f"
    proof (rule find_eq_Some_first [where key = f_Mask, OF s(2)])
      show "f \<in> set fl" "matches w f" using f i by (simp_all add: s)
      fix y assume y: "y \<in> set fl" "matches w y" "f_Mask f \<le> f_Mask y"
      then show "y = f" using matches_unique [OF f, of y w] top [of y] i by (simp add: s(1))
    qed
    then show ?thesis using Some by simp
  qed
  then show ?thesis by (simp add: matchFormat_find)
qed

text \<open>Claim C28. However the map and the sort order the formats, the format found for a word is the same.\<close>

theorem matchFormat_order_independent:
  assumes "formatList_ok fl"
  shows "matchFormat fl w = matchFormat initFormatList w"
  by (rule matchFormat_order [OF assms])

theorem matchFormat_order_independent_witness:
  "formatList_ok (tl (take 3 FormatTable) @ hd FormatTable # drop 3 FormatTable) \<and>
   matchFormat (tl (take 3 FormatTable) @ hd FormatTable # drop 3 FormatTable) 0x80020100 = Some (fmt SOP2 ''sop2'' 0x80000000 0xA0000000 4 23 29)"
proof
  show ok: "formatList_ok (tl (take 3 FormatTable) @ hd FormatTable # drop 3 FormatTable)"
    by (simp add: formatList_ok_def FormatTable_def fmt_def)
  have "matchFormat initFormatList 0x80020100 = Some (fmt SOP2 ''sop2'' 0x80000000 0xA0000000 4 23 29)" by code_simp
  then show "matchFormat (tl (take 3 FormatTable) @ hd FormatTable # drop 3 FormatTable) 0x80020100 = Some (fmt SOP2 ''sop2'' 0x80000000 0xA0000000 4 23 29)"
    using matchFormat_order_independent [OF ok, where w = "0x80020100"] by simp
qed

end
