(* ===== verification/Decode_Table.thy ===== *)
theory Decode_Table
  imports Inst_Format
begin

text \<open>
  The instructions of GCN3 that the decoder knows (\<^verbatim>\<open>mgpusim/insts/decodetable.go\<close>): for each format, the instruction types in the order
  in which \<^verbatim>\<open>initializeDecodeTable\<close> adds them. The running number \<^verbatim>\<open>ID\<close> of an instruction type, which nothing reads, is left out.
\<close>

datatype ExeUnit = ExeUnitVALU | ExeUnitScalar | ExeUnitVMem | ExeUnitBranch | ExeUnitLDS | ExeUnitGDS | ExeUnitSpecial

record InstType =
  it_InstName :: string
  it_Opcode :: nat
  it_ExeUnit :: ExeUnit
  it_DSTWidth :: nat
  it_SRC0Width :: nat
  it_SRC1Width :: nat
  it_SRC2Width :: nat
  it_SDSTWidth :: nat

definition it :: "string \<Rightarrow> nat \<Rightarrow> ExeUnit \<Rightarrow> nat \<Rightarrow> nat \<Rightarrow> nat \<Rightarrow> nat \<Rightarrow> nat \<Rightarrow> InstType" where
  "it name opc unit dst src0 src1 src2 sdst =
     \<lparr>it_InstName = name, it_Opcode = opc, it_ExeUnit = unit, it_DSTWidth = dst, it_SRC0Width = src0, it_SRC1Width = src1, it_SRC2Width = src2,
      it_SDSTWidth = sdst\<rparr>"

definition table_SOP2 :: "InstType list" where
  "table_SOP2 = [
     it ''s_add_u32'' 0 ExeUnitScalar 32 32 32 0 0,
     it ''s_sub_u32'' 1 ExeUnitScalar 32 32 32 0 0,
     it ''s_add_i32'' 2 ExeUnitScalar 32 32 32 0 0,
     it ''s_sub_i32'' 3 ExeUnitScalar 32 32 32 0 0,
     it ''s_addc_u32'' 4 ExeUnitScalar 32 32 32 0 0,
     it ''s_subb_u32'' 5 ExeUnitScalar 32 32 32 0 0,
     it ''s_min_i32'' 6 ExeUnitScalar 32 32 32 0 0,
     it ''s_min_u32'' 7 ExeUnitScalar 32 32 32 0 0,
     it ''s_max_i32'' 8 ExeUnitScalar 32 32 32 0 0,
     it ''s_max_u32'' 9 ExeUnitScalar 32 32 32 0 0,
     it ''s_cselect_b32'' 10 ExeUnitScalar 32 32 32 0 0,
     it ''s_cselect_b64'' 11 ExeUnitScalar 32 32 32 0 0,
     it ''s_and_b32'' 12 ExeUnitScalar 32 32 32 0 0,
     it ''s_and_b64'' 13 ExeUnitScalar 32 32 32 0 0,
     it ''s_or_b32'' 14 ExeUnitScalar 32 32 32 0 0,
     it ''s_or_b64'' 15 ExeUnitScalar 32 32 32 0 0,
     it ''s_xor_b32'' 16 ExeUnitScalar 32 32 32 0 0,
     it ''s_xor_b64'' 17 ExeUnitScalar 32 32 32 0 0,
     it ''s_andn2_b32'' 18 ExeUnitScalar 32 32 32 0 0,
     it ''s_andn2_b64'' 19 ExeUnitScalar 32 32 32 0 0,
     it ''s_orn2_b32'' 20 ExeUnitScalar 32 32 32 0 0,
     it ''s_orn2_b64'' 21 ExeUnitScalar 32 32 32 0 0,
     it ''s_nand_b32'' 22 ExeUnitScalar 32 32 32 0 0,
     it ''s_nand_b64'' 23 ExeUnitScalar 32 32 32 0 0,
     it ''s_nor_b32'' 24 ExeUnitScalar 32 32 32 0 0,
     it ''s_nor_b64'' 25 ExeUnitScalar 32 32 32 0 0,
     it ''s_xnor_b32'' 26 ExeUnitScalar 32 32 32 0 0,
     it ''s_xnor_b64'' 27 ExeUnitScalar 32 32 32 0 0,
     it ''s_lshl_b32'' 28 ExeUnitScalar 32 32 32 0 0,
     it ''s_lshl_b64'' 29 ExeUnitScalar 32 32 32 0 0,
     it ''s_lshr_b32'' 30 ExeUnitScalar 32 32 32 0 0,
     it ''s_lshr_b64'' 31 ExeUnitScalar 32 32 32 0 0,
     it ''s_ashr_i32'' 32 ExeUnitScalar 32 32 32 0 0,
     it ''s_ashr_i64'' 33 ExeUnitScalar 32 32 32 0 0,
     it ''s_bfm_b32'' 34 ExeUnitScalar 32 32 32 0 0,
     it ''s_bfm_b64'' 35 ExeUnitScalar 32 32 32 0 0,
     it ''s_mul_i32'' 36 ExeUnitScalar 32 32 32 0 0,
     it ''s_bfe_u32'' 37 ExeUnitScalar 32 32 32 0 0,
     it ''s_bfe_i32'' 38 ExeUnitScalar 32 32 32 0 0,
     it ''s_bfe_u64'' 39 ExeUnitScalar 32 32 32 0 0,
     it ''s_bfe_i64'' 40 ExeUnitScalar 32 32 32 0 0,
     it ''s_cbrahcn_g_fork'' 41 ExeUnitScalar 32 32 32 0 0,
     it ''s_absdiss_i32'' 42 ExeUnitScalar 32 32 32 0 0,
     it ''s_rfe_restore_b64'' 43 ExeUnitScalar 32 32 32 0 0]"

definition table_VOP2 :: "InstType list" where
  "table_VOP2 = [
     it ''v_cndmask_b32_e32'' 0 ExeUnitVALU 32 32 32 0 0,
     it ''v_add_f32_e32'' 1 ExeUnitVALU 32 32 32 0 0,
     it ''v_sub_f32_e32'' 2 ExeUnitVALU 32 32 32 0 0,
     it ''v_subrev_f32_e32'' 3 ExeUnitVALU 32 32 32 0 0,
     it ''v_mul_legacy_f32'' 4 ExeUnitVALU 32 32 32 0 0,
     it ''v_mul_f32_e32'' 5 ExeUnitVALU 32 32 32 0 0,
     it ''v_mul_i32_i24_e32'' 6 ExeUnitVALU 32 32 32 0 0,
     it ''v_mul_hi_i32_i24'' 7 ExeUnitVALU 32 32 32 0 0,
     it ''v_mul_u32_u24_e32'' 8 ExeUnitVALU 32 32 32 0 0,
     it ''v_mul_hi_u32_u24'' 9 ExeUnitVALU 32 32 32 0 0,
     it ''v_min_f32_e32'' 10 ExeUnitVALU 32 32 32 0 0,
     it ''v_max_f32_e32'' 11 ExeUnitVALU 32 32 32 0 0,
     it ''v_min_i32_e32'' 12 ExeUnitVALU 32 32 32 0 0,
     it ''v_max_i32_e32'' 13 ExeUnitVALU 32 32 32 0 0,
     it ''v_min_u32_e32'' 14 ExeUnitVALU 32 32 32 0 0,
     it ''v_max_u32_e32'' 15 ExeUnitVALU 32 32 32 0 0,
     it ''v_lshrrev_b32_e32'' 16 ExeUnitVALU 32 32 32 0 0,
     it ''v_ashrrev_i32_e32'' 17 ExeUnitVALU 32 32 32 0 0,
     it ''v_lshlrev_b32_e32'' 18 ExeUnitVALU 32 32 32 0 0,
     it ''v_and_b32_e32'' 19 ExeUnitVALU 32 32 32 0 0,
     it ''v_or_b32_e32'' 20 ExeUnitVALU 32 32 32 0 0,
     it ''v_xor_b32_e32'' 21 ExeUnitVALU 32 32 32 0 0,
     it ''v_mac_f32_e32'' 22 ExeUnitVALU 32 32 32 0 0,
     it ''v_madmk_f32'' 23 ExeUnitVALU 32 32 32 0 0,
     it ''v_madak_f32'' 24 ExeUnitVALU 32 32 32 0 0,
     it ''v_add_u32_e32'' 25 ExeUnitVALU 32 32 32 0 0,
     it ''v_sub_u32_e32'' 26 ExeUnitVALU 32 32 32 0 0,
     it ''v_subrev_u32_e32'' 27 ExeUnitVALU 32 32 32 0 0,
     it ''v_addc_u32_e32'' 28 ExeUnitVALU 32 32 32 0 0,
     it ''v_subb_u32_e32'' 29 ExeUnitVALU 32 32 32 0 0,
     it ''v_subbrev_u32'' 30 ExeUnitVALU 32 32 32 0 0,
     it ''v_add_f16'' 31 ExeUnitVALU 32 32 32 0 0,
     it ''v_sub_f16'' 32 ExeUnitVALU 32 32 32 0 0,
     it ''v_subrev_f16'' 33 ExeUnitVALU 32 32 32 0 0,
     it ''v_mul_f16'' 34 ExeUnitVALU 32 32 32 0 0,
     it ''v_mac_f16'' 35 ExeUnitVALU 32 32 32 0 0,
     it ''v_madmk_f16'' 36 ExeUnitVALU 32 32 32 0 0,
     it ''v_madak_f16'' 37 ExeUnitVALU 32 32 32 0 0,
     it ''v_add_u16'' 38 ExeUnitVALU 32 32 32 0 0,
     it ''v_sub_u16'' 39 ExeUnitVALU 32 32 32 0 0,
     it ''v_subrev_u16'' 40 ExeUnitVALU 32 32 32 0 0,
     it ''v_mul_lo_u16'' 41 ExeUnitVALU 32 32 32 0 0,
     it ''v_lshlrev_b16_e32'' 42 ExeUnitVALU 32 32 32 0 0,
     it ''v_lshrrev_b16'' 43 ExeUnitVALU 32 32 32 0 0,
     it ''v_ashrrev_i16'' 44 ExeUnitVALU 32 32 32 0 0,
     it ''v_max_f16'' 45 ExeUnitVALU 32 32 32 0 0,
     it ''v_min_f16'' 46 ExeUnitVALU 32 32 32 0 0,
     it ''v_max_u16'' 47 ExeUnitVALU 32 32 32 0 0,
     it ''v_max_i16'' 48 ExeUnitVALU 32 32 32 0 0,
     it ''v_min_u16'' 49 ExeUnitVALU 32 32 32 0 0,
     it ''v_min_i16'' 50 ExeUnitVALU 32 32 32 0 0,
     it ''v_ldexp_f16'' 51 ExeUnitVALU 32 32 32 0 0]"

definition table_VOP1 :: "InstType list" where
  "table_VOP1 = [
     it ''v_nop'' 0 ExeUnitVALU 32 32 32 0 0,
     it ''v_mov_b32_e32'' 1 ExeUnitVALU 32 32 32 0 0,
     it ''v_readfirstlane_b32'' 2 ExeUnitVALU 32 32 32 0 0,
     it ''v_cvt_i32_f64'' 3 ExeUnitVALU 32 32 32 0 0,
     it ''v_cvt_f64_i32_e32'' 4 ExeUnitVALU 64 32 32 0 0,
     it ''v_cvt_f32_i32'' 5 ExeUnitVALU 32 32 32 0 0,
     it ''v_cvt_f32_u32_e32'' 6 ExeUnitVALU 32 32 32 0 0,
     it ''v_cvt_u32_f32_e32'' 7 ExeUnitVALU 32 32 32 0 0,
     it ''v_cvt_i32_f32_e32'' 8 ExeUnitVALU 32 32 32 0 0,
     it ''v_cvt_f16_f32'' 10 ExeUnitVALU 32 32 32 0 0,
     it ''v_cvt_f32_f16'' 11 ExeUnitVALU 32 32 32 0 0,
     it ''v_cvt_rpi_i32_f32'' 12 ExeUnitVALU 32 32 32 0 0,
     it ''v_cvt_flr_i32_f32'' 13 ExeUnitVALU 32 32 32 0 0,
     it ''v_cvt_off_f32_i4'' 14 ExeUnitVALU 32 32 32 0 0,
     it ''v_cvt_f32_f64_e32'' 15 ExeUnitVALU 32 64 32 0 0,
     it ''v_cvt_f64_f32'' 16 ExeUnitVALU 32 32 32 0 0,
     it ''v_cvt_f32_ubyte0'' 17 ExeUnitVALU 32 32 32 0 0,
     it ''v_cvt_f32_ubyte1'' 18 ExeUnitVALU 32 32 32 0 0,
     it ''v_cvt_f32_ubyte2'' 19 ExeUnitVALU 32 32 32 0 0,
     it ''v_cvt_f32_ubyte3'' 20 ExeUnitVALU 32 32 32 0 0,
     it ''v_cvt_u32_f64'' 21 ExeUnitVALU 32 32 32 0 0,
     it ''v_cvt_f64_u32'' 22 ExeUnitVALU 32 32 32 0 0,
     it ''v_trunc_f64'' 23 ExeUnitVALU 32 32 32 0 0,
     it ''v_ceil_f64'' 24 ExeUnitVALU 32 32 32 0 0,
     it ''v_rndne_f64'' 25 ExeUnitVALU 32 32 32 0 0,
     it ''v_floor_f64'' 26 ExeUnitVALU 32 32 32 0 0,
     it ''v_fract_f32'' 27 ExeUnitVALU 32 32 32 0 0,
     it ''v_trunc_f32_e32'' 28 ExeUnitVALU 32 32 32 0 0,
     it ''v_ceil_f32'' 29 ExeUnitVALU 32 32 32 0 0,
     it ''v_rndne_f32_e32'' 30 ExeUnitVALU 32 32 32 0 0,
     it ''v_floor_f32'' 31 ExeUnitVALU 32 32 32 0 0,
     it ''v_exp_f32'' 32 ExeUnitVALU 32 32 32 0 0,
     it ''v_log_f32'' 33 ExeUnitVALU 32 32 32 0 0,
     it ''v_rcp_f32_e32'' 34 ExeUnitVALU 32 32 32 0 0,
     it ''v_rcp_iflag_f32_e32'' 35 ExeUnitVALU 32 32 32 0 0,
     it ''v_rsq_f32_e32'' 36 ExeUnitVALU 32 32 32 0 0,
     it ''v_rcp_f64'' 37 ExeUnitVALU 32 32 32 0 0,
     it ''v_rsq_f64'' 38 ExeUnitVALU 32 32 32 0 0,
     it ''v_sqrt_f32'' 39 ExeUnitVALU 32 32 32 0 0,
     it ''v_sqrt_f64'' 40 ExeUnitVALU 32 32 32 0 0,
     it ''v_sin_f32'' 41 ExeUnitVALU 32 32 32 0 0,
     it ''v_cos_f32'' 42 ExeUnitVALU 32 32 32 0 0,
     it ''v_not_b32_e32'' 43 ExeUnitVALU 32 32 32 0 0,
     it ''v_bfrev_b32_e32'' 44 ExeUnitVALU 32 32 32 0 0,
     it ''v_ffbh_u32_e32'' 45 ExeUnitVALU 32 32 32 0 0,
     it ''v_ffbl_b32'' 46 ExeUnitVALU 32 32 32 0 0,
     it ''v_ffbh_i32'' 47 ExeUnitVALU 32 32 32 0 0,
     it ''v_frexp_exp_i32_f64'' 48 ExeUnitVALU 32 32 32 0 0,
     it ''v_frexp_mant_f64'' 49 ExeUnitVALU 32 32 32 0 0,
     it ''v_fract_f64'' 50 ExeUnitVALU 32 32 32 0 0,
     it ''v_frexp_exp_i32_f32'' 51 ExeUnitVALU 32 32 32 0 0,
     it ''v_frexp_mant_f32'' 52 ExeUnitVALU 32 32 32 0 0,
     it ''v_clrexcp'' 53 ExeUnitVALU 32 32 32 0 0,
     it ''v_movreld_b32'' 54 ExeUnitVALU 32 32 32 0 0,
     it ''v_movrels_b32'' 55 ExeUnitVALU 32 32 32 0 0,
     it ''v_movrelsd_b32'' 56 ExeUnitVALU 32 32 32 0 0,
     it ''v_cvt_f16_u16'' 57 ExeUnitVALU 32 32 32 0 0,
     it ''v_cvt_f16_i16'' 58 ExeUnitVALU 32 32 32 0 0,
     it ''v_cvt_u16_f16'' 59 ExeUnitVALU 32 32 32 0 0,
     it ''v_cvt_i16_f16'' 60 ExeUnitVALU 32 32 32 0 0,
     it ''v_rcp_f16'' 61 ExeUnitVALU 32 32 32 0 0,
     it ''v_sqrt_f16'' 62 ExeUnitVALU 32 32 32 0 0,
     it ''v_rsq_f16'' 63 ExeUnitVALU 32 32 32 0 0,
     it ''v_log_f16'' 64 ExeUnitVALU 32 32 32 0 0,
     it ''v_exp_f16'' 65 ExeUnitVALU 32 32 32 0 0,
     it ''v_frexp_mant_f16'' 66 ExeUnitVALU 32 32 32 0 0,
     it ''v_frexp_exp_i16_f16'' 67 ExeUnitVALU 32 32 32 0 0,
     it ''v_floor_f16'' 68 ExeUnitVALU 32 32 32 0 0,
     it ''v_ceil_f16'' 69 ExeUnitVALU 32 32 32 0 0,
     it ''v_trunc_f16'' 70 ExeUnitVALU 32 32 32 0 0,
     it ''v_rndne_f16'' 71 ExeUnitVALU 32 32 32 0 0,
     it ''v_fract_f16'' 72 ExeUnitVALU 32 32 32 0 0,
     it ''v_sin_f16'' 73 ExeUnitVALU 32 32 32 0 0,
     it ''v_cos_f16'' 74 ExeUnitVALU 32 32 32 0 0,
     it ''v_exp_legacy_f32'' 75 ExeUnitVALU 32 32 32 0 0,
     it ''v_log_legacy_f32'' 76 ExeUnitVALU 32 32 32 0 0]"

definition table_FLAT :: "InstType list" where
  "table_FLAT = [
     it ''flat_load_ubyte'' 16 ExeUnitVMem 32 32 32 0 0,
     it ''flat_load_sbyte'' 17 ExeUnitVMem 32 32 32 0 0,
     it ''flat_load_ushort'' 18 ExeUnitVMem 32 32 32 0 0,
     it ''flat_load_sshort'' 19 ExeUnitVMem 32 32 32 0 0,
     it ''flat_load_dword'' 20 ExeUnitVMem 32 32 32 0 0,
     it ''flat_load_dwordx2'' 21 ExeUnitVMem 32 32 32 0 0,
     it ''flat_load_dwordx3'' 22 ExeUnitVMem 32 32 32 0 0,
     it ''flat_load_dwordx4'' 23 ExeUnitVMem 32 32 32 0 0,
     it ''flat_store_byte'' 24 ExeUnitVMem 32 32 32 0 0,
     it ''flat_store_short'' 26 ExeUnitVMem 32 32 32 0 0,
     it ''flat_store_dword'' 28 ExeUnitVMem 32 32 32 0 0,
     it ''flat_store_dwordx2'' 29 ExeUnitVMem 32 32 32 0 0,
     it ''flat_store_dwordx3'' 30 ExeUnitVMem 32 32 32 0 0,
     it ''flat_store_dwordx4'' 31 ExeUnitVMem 32 32 32 0 0,
     it ''flat_atomic_swap'' 48 ExeUnitVMem 32 32 32 0 0,
     it ''flat_atomic_cmpswap'' 49 ExeUnitVMem 32 32 32 0 0,
     it ''flat_atomic_add'' 50 ExeUnitVMem 32 32 32 0 0,
     it ''flat_atomic_sub'' 51 ExeUnitVMem 32 32 32 0 0,
     it ''flat_atomic_smin'' 53 ExeUnitVMem 32 32 32 0 0,
     it ''flat_atomic_umin'' 54 ExeUnitVMem 32 32 32 0 0,
     it ''flat_atomic_smax'' 55 ExeUnitVMem 32 32 32 0 0,
     it ''flag_atomic_umax'' 56 ExeUnitVMem 32 32 32 0 0,
     it ''flat_atomic_and'' 57 ExeUnitVMem 32 32 32 0 0,
     it ''flat_atomic_or'' 58 ExeUnitVMem 32 32 32 0 0,
     it ''flat_atomic_xor'' 59 ExeUnitVMem 32 32 32 0 0,
     it ''flat_atomic_inc'' 60 ExeUnitVMem 32 32 32 0 0,
     it ''flat_atomic_dec'' 61 ExeUnitVMem 32 32 32 0 0,
     it ''flat_atomic_swap_x2'' 80 ExeUnitVMem 32 32 32 0 0,
     it ''flat_atomic_cmpswap_x2'' 81 ExeUnitVMem 32 32 32 0 0,
     it ''flat_atomic_add_x2'' 82 ExeUnitVMem 32 32 32 0 0,
     it ''flat_atomic_sub_x2'' 83 ExeUnitVMem 32 32 32 0 0,
     it ''flat_atomic_smin_x2'' 85 ExeUnitVMem 32 32 32 0 0,
     it ''flat_atomic_umin_x2'' 86 ExeUnitVMem 32 32 32 0 0,
     it ''flat_atomic_smax_x2'' 87 ExeUnitVMem 32 32 32 0 0,
     it ''flat_atomic_umax_x2'' 88 ExeUnitVMem 32 32 32 0 0,
     it ''flat_atomic_and_x2'' 89 ExeUnitVMem 32 32 32 0 0,
     it ''flat_atomic_or_x2'' 90 ExeUnitVMem 32 32 32 0 0,
     it ''flat_atomic_xor_x2'' 91 ExeUnitVMem 32 32 32 0 0,
     it ''flat_atomic_inc_x2'' 92 ExeUnitVMem 32 32 32 0 0,
     it ''flat_atomic_dec_x2'' 93 ExeUnitVMem 32 32 32 0 0]"

definition table_SMEM :: "InstType list" where
  "table_SMEM = [
     it ''s_load_dword'' 0 ExeUnitScalar 32 32 32 0 0,
     it ''s_load_dwordx2'' 1 ExeUnitScalar 32 32 32 0 0,
     it ''s_load_dwordx4'' 2 ExeUnitScalar 32 32 32 0 0,
     it ''s_load_dwordx8'' 3 ExeUnitScalar 32 32 32 0 0,
     it ''s_load_dwordx16'' 4 ExeUnitScalar 32 32 32 0 0,
     it ''s_buffer_load_dword'' 8 ExeUnitScalar 32 32 32 0 0,
     it ''s_buffer_load_dwordx2'' 9 ExeUnitScalar 32 32 32 0 0,
     it ''s_buffer_load_dwordx4'' 10 ExeUnitScalar 32 32 32 0 0,
     it ''s_buffer_load_dwordx8'' 11 ExeUnitScalar 32 32 32 0 0,
     it ''s_buffer_load_dwordx16'' 12 ExeUnitScalar 32 32 32 0 0,
     it ''s_store_dword'' 16 ExeUnitScalar 32 32 32 0 0,
     it ''s_store_dwordx2'' 17 ExeUnitScalar 32 32 32 0 0,
     it ''s_store_dwordx4'' 18 ExeUnitScalar 32 32 32 0 0,
     it ''s_buffer_store_dword'' 24 ExeUnitScalar 32 32 32 0 0,
     it ''s_buffer_store_dwordx2'' 25 ExeUnitScalar 32 32 32 0 0,
     it ''s_buffer_store_dwordx4'' 26 ExeUnitScalar 32 32 32 0 0,
     it ''s_dcache_inv'' 32 ExeUnitScalar 32 32 32 0 0,
     it ''s_dcache_wb'' 33 ExeUnitScalar 32 32 32 0 0,
     it ''s_dcache_inv_vol'' 34 ExeUnitScalar 32 32 32 0 0,
     it ''s_dcache_wb_vol'' 35 ExeUnitScalar 32 32 32 0 0,
     it ''s_memtime'' 36 ExeUnitScalar 32 32 32 0 0,
     it ''s_memrealtime'' 37 ExeUnitScalar 32 32 32 0 0,
     it ''s_atc_probe'' 38 ExeUnitScalar 32 32 32 0 0,
     it ''s_atc_probe_buffer'' 39 ExeUnitScalar 32 32 32 0 0]"

definition table_SOPP :: "InstType list" where
  "table_SOPP = [
     it ''s_nop'' 0 ExeUnitSpecial 32 32 32 0 0,
     it ''s_endpgm'' 1 ExeUnitSpecial 32 32 32 0 0,
     it ''s_branch'' 2 ExeUnitBranch 32 32 32 0 0,
     it ''s_cbranch_scc0'' 4 ExeUnitBranch 32 32 32 0 0,
     it ''s_cbranch_scc1'' 5 ExeUnitBranch 32 32 32 0 0,
     it ''s_cbranch_vccz'' 6 ExeUnitBranch 32 32 32 0 0,
     it ''s_cbranch_vccnz'' 7 ExeUnitBranch 32 32 32 0 0,
     it ''s_cbranch_execz'' 8 ExeUnitBranch 32 32 32 0 0,
     it ''s_cbranch_execnz'' 9 ExeUnitBranch 32 32 32 0 0,
     it ''s_barrier'' 10 ExeUnitSpecial 32 32 32 0 0,
     it ''s_setkill'' 11 ExeUnitSpecial 32 32 32 0 0,
     it ''s_waitcnt'' 12 ExeUnitSpecial 32 32 32 0 0,
     it ''s_sethalt'' 13 ExeUnitSpecial 32 32 32 0 0,
     it ''s_sleep'' 14 ExeUnitSpecial 32 32 32 0 0,
     it ''s_setprio'' 15 ExeUnitSpecial 32 32 32 0 0,
     it ''s_sendmsg'' 16 ExeUnitBranch 32 32 32 0 0,
     it ''s_sendmsghalt'' 17 ExeUnitBranch 32 32 32 0 0,
     it ''s_trap'' 18 ExeUnitSpecial 32 32 32 0 0,
     it ''s_icache_inv'' 19 ExeUnitSpecial 32 32 32 0 0,
     it ''s_incperflevel'' 20 ExeUnitSpecial 32 32 32 0 0,
     it ''s_decperflevel'' 21 ExeUnitSpecial 32 32 32 0 0,
     it ''s_ttracedata'' 22 ExeUnitSpecial 32 32 32 0 0,
     it ''s_cbranch_cdbgsys'' 23 ExeUnitBranch 32 32 32 0 0,
     it ''s_cbranch_cdbguser'' 24 ExeUnitBranch 32 32 32 0 0,
     it ''s_cbranch_cdbgsys_or_user'' 25 ExeUnitBranch 32 32 32 0 0,
     it ''s_cbranch_cdbgsys_and_user'' 26 ExeUnitBranch 32 32 32 0 0,
     it ''s_endpgm_saved'' 27 ExeUnitSpecial 32 32 32 0 0,
     it ''s_set_gpr_idx_off'' 28 ExeUnitSpecial 32 32 32 0 0,
     it ''s_set_gpr_idx_mode'' 29 ExeUnitSpecial 32 32 32 0 0]"

definition table_SOPC :: "InstType list" where
  "table_SOPC = [
     it ''s_cmp_eq_i32'' 0 ExeUnitScalar 32 32 32 0 0,
     it ''s_cmp_lg_i32'' 1 ExeUnitScalar 32 32 32 0 0,
     it ''s_cmp_gt_i32'' 2 ExeUnitScalar 32 32 32 0 0,
     it ''s_cmp_ge_i32'' 3 ExeUnitScalar 32 32 32 0 0,
     it ''s_cmp_lt_i32'' 4 ExeUnitScalar 32 32 32 0 0,
     it ''s_cmp_le_i32'' 5 ExeUnitScalar 32 32 32 0 0,
     it ''s_cmp_eq_u32'' 6 ExeUnitScalar 32 32 32 0 0,
     it ''s_cmp_lg_u32'' 7 ExeUnitScalar 32 32 32 0 0,
     it ''s_cmp_gt_u32'' 8 ExeUnitScalar 32 32 32 0 0,
     it ''s_cmp_ge_u32'' 9 ExeUnitScalar 32 32 32 0 0,
     it ''s_cmp_lt_u32'' 10 ExeUnitScalar 32 32 32 0 0,
     it ''s_cmp_le_u32'' 11 ExeUnitScalar 32 32 32 0 0,
     it ''s_bitcmp0_b32'' 12 ExeUnitScalar 32 32 32 0 0,
     it ''s_bitcmp1_b32'' 13 ExeUnitScalar 32 32 32 0 0,
     it ''s_bitcmp0_b64'' 14 ExeUnitScalar 32 32 32 0 0,
     it ''s_bitcmp1_b64'' 15 ExeUnitScalar 32 32 32 0 0,
     it ''s_setvskip'' 16 ExeUnitScalar 32 32 32 0 0,
     it ''s_set_gpr_idx_on'' 17 ExeUnitScalar 32 32 32 0 0,
     it ''s_cmp_eq_u64'' 18 ExeUnitScalar 32 32 32 0 0,
     it ''s_cmp_ne_u64'' 19 ExeUnitScalar 32 32 32 0 0]"

definition table_SOPK :: "InstType list" where
  "table_SOPK = [
     it ''s_movk_i32'' 0 ExeUnitScalar 32 32 32 0 0,
     it ''s_cmovk_i32'' 1 ExeUnitScalar 32 32 32 0 0,
     it ''s_cmpk_eq_i32'' 2 ExeUnitScalar 32 32 32 0 0,
     it ''s_cmpk_lg_i32'' 3 ExeUnitScalar 32 32 32 0 0,
     it ''s_cmpk_gt_i32'' 4 ExeUnitScalar 32 32 32 0 0,
     it ''s_cmpk_ge_i32'' 5 ExeUnitScalar 32 32 32 0 0,
     it ''s_cmpk_lt_i32'' 6 ExeUnitScalar 32 32 32 0 0,
     it ''s_cmpk_le_i32'' 7 ExeUnitScalar 32 32 32 0 0,
     it ''s_cmpk_eq_u32'' 8 ExeUnitScalar 32 32 32 0 0,
     it ''s_cmpk_lg_u32'' 9 ExeUnitScalar 32 32 32 0 0,
     it ''s_cmpk_gt_u32'' 10 ExeUnitScalar 32 32 32 0 0,
     it ''s_cmpk_ge_u32'' 11 ExeUnitScalar 32 32 32 0 0,
     it ''s_cmpk_lt_u32'' 12 ExeUnitScalar 32 32 32 0 0,
     it ''s_cmpk_le_u32'' 13 ExeUnitScalar 32 32 32 0 0,
     it ''s_addk_i32'' 14 ExeUnitScalar 32 32 32 0 0,
     it ''s_mulk_i32'' 15 ExeUnitScalar 32 32 32 0 0,
     it ''s_cbranch_i_fork'' 16 ExeUnitScalar 32 32 32 0 0,
     it ''s_getreg_b32'' 17 ExeUnitScalar 32 32 32 0 0,
     it ''s_setreg_b32'' 18 ExeUnitScalar 32 32 32 0 0,
     it ''s_setreg_imm32_b32'' 20 ExeUnitScalar 32 32 32 0 0]"

definition table_VOPC_float :: "InstType list" where
  "table_VOPC_float = [
     it ''v_cmp_class_f32'' 16 ExeUnitVALU 32 32 32 0 0,
     it ''v_cmpx_class_f32'' 17 ExeUnitVALU 32 32 32 0 0,
     it ''v_cmp_class_f64'' 18 ExeUnitVALU 32 64 64 0 0,
     it ''v_cmpx_class_f64'' 19 ExeUnitVALU 32 64 64 0 0,
     it ''v_cmp_class_f16'' 20 ExeUnitVALU 32 32 32 0 0,
     it ''v_cmpx_class_f16'' 21 ExeUnitVALU 32 32 32 0 0,
     it ''v_cmp_f_f16'' 32 ExeUnitVALU 32 32 32 0 0,
     it ''v_cmp_lt_f16'' 33 ExeUnitVALU 32 32 32 0 0,
     it ''v_cmp_eq_f16'' 34 ExeUnitVALU 32 32 32 0 0,
     it ''v_cmp_le_f16'' 35 ExeUnitVALU 32 32 32 0 0,
     it ''v_cmp_gt_f16'' 36 ExeUnitVALU 32 32 32 0 0,
     it ''v_cmp_lg_f16'' 37 ExeUnitVALU 32 32 32 0 0,
     it ''v_cmp_ge_f16'' 38 ExeUnitVALU 32 32 32 0 0,
     it ''v_cmp_o_f16'' 39 ExeUnitVALU 32 32 32 0 0,
     it ''v_cmp_u_f16'' 40 ExeUnitVALU 32 32 32 0 0,
     it ''v_cmp_nge_f16'' 41 ExeUnitVALU 32 32 32 0 0,
     it ''v_cmp_nlg_f16'' 42 ExeUnitVALU 32 32 32 0 0,
     it ''v_cmp_ngt_f16'' 43 ExeUnitVALU 32 32 32 0 0,
     it ''v_cmp_nle_f16'' 44 ExeUnitVALU 32 32 32 0 0,
     it ''v_cmp_neq_f16'' 45 ExeUnitVALU 32 32 32 0 0,
     it ''v_cmp_nlt_f16'' 46 ExeUnitVALU 32 32 32 0 0,
     it ''v_cmp_tru_f16'' 47 ExeUnitVALU 32 32 32 0 0,
     it ''v_cmpx_f_f16'' 48 ExeUnitVALU 32 32 32 0 0,
     it ''v_cmpx_lt_f16'' 49 ExeUnitVALU 32 32 32 0 0,
     it ''v_cmpx_eq_f16'' 50 ExeUnitVALU 32 32 32 0 0,
     it ''v_cmpx_le_f16'' 51 ExeUnitVALU 32 32 32 0 0,
     it ''v_cmpx_gt_f16'' 52 ExeUnitVALU 32 32 32 0 0,
     it ''v_cmpx_lg_f16'' 53 ExeUnitVALU 32 32 32 0 0,
     it ''v_cmpx_ge_f16'' 54 ExeUnitVALU 32 32 32 0 0,
     it ''v_cmpx_o_f16'' 55 ExeUnitVALU 32 32 32 0 0,
     it ''v_cmpx_u_f16'' 56 ExeUnitVALU 32 32 32 0 0,
     it ''v_cmpx_nge_f16'' 57 ExeUnitVALU 32 32 32 0 0,
     it ''v_cmpx_nlg_f16'' 58 ExeUnitVALU 32 32 32 0 0,
     it ''v_cmpx_ngt_f16'' 59 ExeUnitVALU 32 32 32 0 0,
     it ''v_cmpx_nle_f16'' 60 ExeUnitVALU 32 32 32 0 0,
     it ''v_cmpx_neq_f16'' 61 ExeUnitVALU 32 32 32 0 0,
     it ''v_cmpx_nlt_f16'' 62 ExeUnitVALU 32 32 32 0 0,
     it ''v_cmpx_tru_f16'' 63 ExeUnitVALU 32 32 32 0 0,
     it ''v_cmp_f_f32_e32'' 64 ExeUnitVALU 32 32 32 0 0,
     it ''v_cmp_lt_f32_e32'' 65 ExeUnitVALU 32 32 32 0 0,
     it ''v_cmp_eq_f32_e32'' 66 ExeUnitVALU 32 32 32 0 0,
     it ''v_cmp_le_f32_e32'' 67 ExeUnitVALU 32 32 32 0 0,
     it ''v_cmp_gt_f32_e32'' 68 ExeUnitVALU 32 32 32 0 0,
     it ''v_cmp_lg_f32_e32'' 69 ExeUnitVALU 32 32 32 0 0,
     it ''v_cmp_ge_f32_e32'' 70 ExeUnitVALU 32 32 32 0 0,
     it ''v_cmp_o_f32_e32'' 71 ExeUnitVALU 32 32 32 0 0,
     it ''v_cmp_u_f32_e32'' 72 ExeUnitVALU 32 32 32 0 0,
     it ''v_cmp_nge_f32_e32'' 73 ExeUnitVALU 32 32 32 0 0,
     it ''v_cmp_nlg_f32_e32'' 74 ExeUnitVALU 32 32 32 0 0,
     it ''v_cmp_ngt_f32_e32'' 75 ExeUnitVALU 32 32 32 0 0,
     it ''v_cmp_nle_f32_e32'' 76 ExeUnitVALU 32 32 32 0 0,
     it ''v_cmp_neq_f32_e32'' 77 ExeUnitVALU 32 32 32 0 0,
     it ''v_cmp_nlt_f32_e32'' 78 ExeUnitVALU 32 32 32 0 0,
     it ''v_cmp_tru_f32_e32'' 79 ExeUnitVALU 32 32 32 0 0,
     it ''v_cmpx_f_f32_e32'' 80 ExeUnitVALU 32 32 32 0 0,
     it ''v_cmpx_lt_f32_e32'' 81 ExeUnitVALU 32 32 32 0 0,
     it ''v_cmpx_eq_f32_e32'' 82 ExeUnitVALU 32 32 32 0 0,
     it ''v_cmpx_le_f32_e32'' 83 ExeUnitVALU 32 32 32 0 0,
     it ''v_cmpx_gt_f32_e32'' 84 ExeUnitVALU 32 32 32 0 0,
     it ''v_cmpx_lg_f32_e32'' 85 ExeUnitVALU 32 32 32 0 0,
     it ''v_cmpx_ge_f32_e32'' 86 ExeUnitVALU 32 32 32 0 0,
     it ''v_cmpx_o_f32_e32'' 87 ExeUnitVALU 32 32 32 0 0,
     it ''v_cmpx_u_f32_e32'' 88 ExeUnitVALU 32 32 32 0 0,
     it ''v_cmpx_nge_f32_e32'' 89 ExeUnitVALU 32 32 32 0 0,
     it ''v_cmpx_nlg_f32_e32'' 90 ExeUnitVALU 32 32 32 0 0,
     it ''v_cmpx_ngt_f32_e32'' 91 ExeUnitVALU 32 32 32 0 0,
     it ''v_cmpx_nle_f32_e32'' 92 ExeUnitVALU 32 32 32 0 0,
     it ''v_cmpx_neq_f32_e32'' 93 ExeUnitVALU 32 32 32 0 0,
     it ''v_cmpx_nlt_f32_e32'' 94 ExeUnitVALU 32 32 32 0 0,
     it ''v_cmpx_tru_f32_e32'' 95 ExeUnitVALU 32 32 32 0 0,
     it ''v_cmp_f_f64'' 96 ExeUnitVALU 32 64 64 0 0,
     it ''v_cmp_lt_f64'' 97 ExeUnitVALU 32 64 64 0 0,
     it ''v_cmp_eq_f64'' 98 ExeUnitVALU 32 64 64 0 0,
     it ''v_cmp_le_f64'' 99 ExeUnitVALU 32 64 64 0 0,
     it ''v_cmp_gt_f64'' 100 ExeUnitVALU 32 64 64 0 0,
     it ''v_cmp_lg_f64'' 101 ExeUnitVALU 32 64 64 0 0,
     it ''v_cmp_ge_f64'' 102 ExeUnitVALU 32 64 64 0 0,
     it ''v_cmp_o_f64'' 103 ExeUnitVALU 32 64 64 0 0,
     it ''v_cmp_u_f64'' 104 ExeUnitVALU 32 64 64 0 0,
     it ''v_cmp_nge_f64'' 105 ExeUnitVALU 32 64 64 0 0,
     it ''v_cmp_nlg_f64'' 106 ExeUnitVALU 32 64 64 0 0,
     it ''v_cmp_ngt_f64'' 107 ExeUnitVALU 32 64 64 0 0,
     it ''v_cmp_nle_f64'' 108 ExeUnitVALU 32 64 64 0 0,
     it ''v_cmp_neq_f64'' 109 ExeUnitVALU 32 64 64 0 0,
     it ''v_cmp_nlt_f64'' 110 ExeUnitVALU 32 64 64 0 0,
     it ''v_cmp_tru_f64'' 111 ExeUnitVALU 32 64 64 0 0,
     it ''v_cmpx_f_f64'' 112 ExeUnitVALU 32 64 64 0 0,
     it ''v_cmpx_lt_f64'' 113 ExeUnitVALU 32 64 64 0 0,
     it ''v_cmpx_eq_f64'' 114 ExeUnitVALU 32 64 64 0 0,
     it ''v_cmpx_le_f64'' 115 ExeUnitVALU 32 64 64 0 0,
     it ''v_cmpx_gt_f64'' 116 ExeUnitVALU 32 64 64 0 0,
     it ''v_cmpx_lg_f64'' 117 ExeUnitVALU 32 64 64 0 0,
     it ''v_cmpx_ge_f64'' 118 ExeUnitVALU 32 64 64 0 0,
     it ''v_cmpx_o_f64'' 119 ExeUnitVALU 32 64 64 0 0,
     it ''v_cmpx_u_f64'' 120 ExeUnitVALU 32 64 64 0 0,
     it ''v_cmpx_nge_f64'' 121 ExeUnitVALU 32 64 64 0 0,
     it ''v_cmpx_nlg_f64'' 122 ExeUnitVALU 32 64 64 0 0,
     it ''v_cmpx_ngt_f64'' 123 ExeUnitVALU 32 64 64 0 0,
     it ''v_cmpx_nle_f64'' 124 ExeUnitVALU 32 64 64 0 0,
     it ''v_cmpx_neq_f64'' 125 ExeUnitVALU 32 64 64 0 0,
     it ''v_cmpx_nlt_f64'' 126 ExeUnitVALU 32 64 64 0 0,
     it ''v_cmpx_tru_f64'' 127 ExeUnitVALU 32 64 64 0 0]"

definition table_VOPC_int :: "InstType list" where
  "table_VOPC_int = [
     it ''v_cmp_f_i16'' 160 ExeUnitVALU 32 32 32 0 0,
     it ''v_cmp_lt_i16'' 161 ExeUnitVALU 32 32 32 0 0,
     it ''v_cmp_eq_i16'' 162 ExeUnitVALU 32 32 32 0 0,
     it ''v_cmp_le_i16'' 163 ExeUnitVALU 32 32 32 0 0,
     it ''v_cmp_gt_i16_e32'' 164 ExeUnitVALU 32 32 32 0 0,
     it ''v_cmp_lg_i16'' 165 ExeUnitVALU 32 32 32 0 0,
     it ''v_cmp_ge_i16'' 166 ExeUnitVALU 32 32 32 0 0,
     it ''v_cmp_tru_i16'' 167 ExeUnitVALU 32 32 32 0 0,
     it ''v_cmp_f_u16'' 168 ExeUnitVALU 32 32 32 0 0,
     it ''v_cmp_lt_u16'' 169 ExeUnitVALU 32 32 32 0 0,
     it ''v_cmp_eq_u16'' 170 ExeUnitVALU 32 32 32 0 0,
     it ''v_cmp_le_u16'' 171 ExeUnitVALU 32 32 32 0 0,
     it ''v_cmp_gt_u16'' 172 ExeUnitVALU 32 32 32 0 0,
     it ''v_cmp_lg_u16'' 173 ExeUnitVALU 32 32 32 0 0,
     it ''v_cmp_ge_u16'' 174 ExeUnitVALU 32 32 32 0 0,
     it ''v_cmp_tru_u16'' 175 ExeUnitVALU 32 32 32 0 0,
     it ''v_cmpx_f_i16'' 176 ExeUnitVALU 32 32 32 0 0,
     it ''v_cmpx_lt_i16'' 177 ExeUnitVALU 32 32 32 0 0,
     it ''v_cmpx_eq_i16'' 178 ExeUnitVALU 32 32 32 0 0,
     it ''v_cmpx_le_i16'' 179 ExeUnitVALU 32 32 32 0 0,
     it ''v_cmpx_gt_i16'' 180 ExeUnitVALU 32 32 32 0 0,
     it ''v_cmpx_lg_i16'' 181 ExeUnitVALU 32 32 32 0 0,
     it ''v_cmpx_ge_i16'' 182 ExeUnitVALU 32 32 32 0 0,
     it ''v_cmpx_tru_i16'' 183 ExeUnitVALU 32 32 32 0 0,
     it ''v_cmpx_f_u16'' 184 ExeUnitVALU 32 32 32 0 0,
     it ''v_cmpx_lt_u16'' 185 ExeUnitVALU 32 32 32 0 0,
     it ''v_cmpx_eq_u16'' 186 ExeUnitVALU 32 32 32 0 0,
     it ''v_cmpx_le_u16'' 187 ExeUnitVALU 32 32 32 0 0,
     it ''v_cmpx_gt_u16'' 188 ExeUnitVALU 32 32 32 0 0,
     it ''v_cmpx_lg_u16'' 189 ExeUnitVALU 32 32 32 0 0,
     it ''v_cmpx_ge_u16'' 190 ExeUnitVALU 32 32 32 0 0,
     it ''v_cmpx_tru_u16'' 191 ExeUnitVALU 32 32 32 0 0,
     it ''v_cmp_f_i32_e32'' 192 ExeUnitVALU 32 32 32 0 0,
     it ''v_cmp_lt_i32_e32'' 193 ExeUnitVALU 32 32 32 0 0,
     it ''v_cmp_eq_i32_e32'' 194 ExeUnitVALU 32 32 32 0 0,
     it ''v_cmp_le_i32_e32'' 195 ExeUnitVALU 32 32 32 0 0,
     it ''v_cmp_gt_i32_e32'' 196 ExeUnitVALU 32 32 32 0 0,
     it ''v_cmp_lg_i32_e32'' 197 ExeUnitVALU 32 32 32 0 0,
     it ''v_cmp_ge_i32_e32'' 198 ExeUnitVALU 32 32 32 0 0,
     it ''v_cmp_tru_i32_e32'' 199 ExeUnitVALU 32 32 32 0 0,
     it ''v_cmp_f_u32_e32'' 200 ExeUnitVALU 32 32 32 0 0,
     it ''v_cmp_lt_u32_e32'' 201 ExeUnitVALU 32 32 32 0 0,
     it ''v_cmp_eq_u32_e32'' 202 ExeUnitVALU 32 32 32 0 0,
     it ''v_cmp_le_u32_e32'' 203 ExeUnitVALU 32 32 32 0 0,
     it ''v_cmp_gt_u32_e32'' 204 ExeUnitVALU 32 32 32 0 0,
     it ''v_cmp_ne_u32_e32'' 205 ExeUnitVALU 32 32 32 0 0,
     it ''v_cmp_ge_u32_e32'' 206 ExeUnitVALU 32 32 32 0 0,
     it ''v_cmp_tru_u32_e32'' 207 ExeUnitVALU 32 32 32 0 0,
     it ''v_cmpx_f_i32_e32'' 208 ExeUnitVALU 32 32 32 0 0,
     it ''v_cmpx_lt_i32_e32'' 209 ExeUnitVALU 32 32 32 0 0,
     it ''v_cmpx_eq_i32_e32'' 210 ExeUnitVALU 32 32 32 0 0,
     it ''v_cmpx_le_i32_e32'' 211 ExeUnitVALU 32 32 32 0 0,
     it ''v_cmpx_gt_i32_e32'' 212 ExeUnitVALU 32 32 32 0 0,
     it ''v_cmpx_lg_i32_e32'' 213 ExeUnitVALU 32 32 32 0 0,
     it ''v_cmpx_ge_i32_e32'' 214 ExeUnitVALU 32 32 32 0 0,
     it ''v_cmpx_tru_i32_e32'' 215 ExeUnitVALU 32 32 32 0 0,
     it ''v_cmpx_f_u32_e32'' 216 ExeUnitVALU 32 32 32 0 0,
     it ''v_cmpx_lt_u32_e32'' 217 ExeUnitVALU 32 32 32 0 0,
     it ''v_cmpx_eq_u32_e32'' 218 ExeUnitVALU 32 32 32 0 0,
     it ''v_cmpx_le_u32_e32'' 219 ExeUnitVALU 32 32 32 0 0,
     it ''v_cmpx_gt_u32_e32'' 220 ExeUnitVALU 32 32 32 0 0,
     it ''v_cmpx_lg_u32_e32'' 221 ExeUnitVALU 32 32 32 0 0,
     it ''v_cmpx_ge_u32_e32'' 222 ExeUnitVALU 32 32 32 0 0,
     it ''v_cmpx_tru_u32_e32'' 223 ExeUnitVALU 32 32 32 0 0,
     it ''v_cmp_f_i64'' 224 ExeUnitVALU 32 64 64 0 0,
     it ''v_cmp_lt_i64'' 225 ExeUnitVALU 32 64 64 0 0,
     it ''v_cmp_eq_i64'' 226 ExeUnitVALU 32 64 64 0 0,
     it ''v_cmp_le_i64'' 227 ExeUnitVALU 32 64 64 0 0,
     it ''v_cmp_gt_i64'' 228 ExeUnitVALU 32 64 64 0 0,
     it ''v_cmp_lg_i64'' 229 ExeUnitVALU 32 64 64 0 0,
     it ''v_cmp_ge_i64'' 230 ExeUnitVALU 32 64 64 0 0,
     it ''v_cmp_tru_i64'' 231 ExeUnitVALU 32 64 64 0 0,
     it ''v_cmp_f_u64'' 232 ExeUnitVALU 32 64 64 0 0,
     it ''v_cmp_lt_u64'' 233 ExeUnitVALU 32 64 64 0 0,
     it ''v_cmp_eq_u64'' 234 ExeUnitVALU 32 64 64 0 0,
     it ''v_cmp_le_u64'' 235 ExeUnitVALU 32 64 64 0 0,
     it ''v_cmp_gt_u64'' 236 ExeUnitVALU 32 64 64 0 0,
     it ''v_cmp_lg_u64'' 237 ExeUnitVALU 32 64 64 0 0,
     it ''v_cmp_ge_u64'' 238 ExeUnitVALU 32 64 64 0 0,
     it ''v_cmp_tru_u64'' 239 ExeUnitVALU 32 64 64 0 0,
     it ''v_cmpx_f_i64'' 240 ExeUnitVALU 32 64 64 0 0,
     it ''v_cmpx_lt_i64'' 241 ExeUnitVALU 32 64 64 0 0,
     it ''v_cmpx_eq_i64'' 242 ExeUnitVALU 32 64 64 0 0,
     it ''v_cmpx_le_i64'' 243 ExeUnitVALU 32 64 64 0 0,
     it ''v_cmpx_gt_i64'' 244 ExeUnitVALU 32 64 64 0 0,
     it ''v_cmpx_lg_i64'' 245 ExeUnitVALU 32 64 64 0 0,
     it ''v_cmpx_ge_i64'' 246 ExeUnitVALU 32 64 64 0 0,
     it ''v_cmpx_tru_i64'' 247 ExeUnitVALU 32 64 64 0 0,
     it ''v_cmpx_f_u64'' 248 ExeUnitVALU 32 64 64 0 0,
     it ''v_cmpx_lt_u64'' 249 ExeUnitVALU 32 64 64 0 0,
     it ''v_cmpx_eq_u64'' 250 ExeUnitVALU 32 64 64 0 0,
     it ''v_cmpx_le_u64'' 251 ExeUnitVALU 32 64 64 0 0,
     it ''v_cmpx_gt_u64'' 252 ExeUnitVALU 32 64 64 0 0,
     it ''v_cmpx_lg_u64'' 253 ExeUnitVALU 32 64 64 0 0,
     it ''v_cmpx_ge_u64'' 254 ExeUnitVALU 32 64 64 0 0,
     it ''v_cmpx_tru_u64'' 255 ExeUnitVALU 32 64 64 0 0]"

definition table_VOP3a_cmp_float :: "InstType list" where
  "table_VOP3a_cmp_float = [
     it ''v_cmp_class_f32'' 16 ExeUnitVALU 64 32 32 0 0,
     it ''v_cmpx_class_f32'' 17 ExeUnitVALU 64 32 32 0 0,
     it ''v_cmp_class_f64'' 18 ExeUnitVALU 64 64 64 0 0,
     it ''v_cmpx_class_f64'' 19 ExeUnitVALU 64 64 64 0 0,
     it ''v_cmp_class_f16'' 20 ExeUnitVALU 64 32 32 0 0,
     it ''v_cmpx_class_f16'' 21 ExeUnitVALU 64 32 32 0 0,
     it ''v_cmp_f_f16'' 32 ExeUnitVALU 64 32 32 0 0,
     it ''v_cmp_lt_f16'' 33 ExeUnitVALU 64 32 32 0 0,
     it ''v_cmp_eq_f16'' 34 ExeUnitVALU 64 32 32 0 0,
     it ''v_cmp_le_f16'' 35 ExeUnitVALU 64 32 32 0 0,
     it ''v_cmp_gt_f16'' 36 ExeUnitVALU 64 32 32 0 0,
     it ''v_cmp_lg_f16'' 37 ExeUnitVALU 64 32 32 0 0,
     it ''v_cmp_ge_f16'' 38 ExeUnitVALU 64 32 32 0 0,
     it ''v_cmp_o_f16'' 39 ExeUnitVALU 64 32 32 0 0,
     it ''v_cmp_u_f16'' 40 ExeUnitVALU 64 32 32 0 0,
     it ''v_cmp_nge_f16'' 41 ExeUnitVALU 64 32 32 0 0,
     it ''v_cmp_nlg_f16'' 42 ExeUnitVALU 64 32 32 0 0,
     it ''v_cmp_ngt_f16'' 43 ExeUnitVALU 64 32 32 0 0,
     it ''v_cmp_nle_f16'' 44 ExeUnitVALU 64 32 32 0 0,
     it ''v_cmp_neq_f16'' 45 ExeUnitVALU 64 32 32 0 0,
     it ''v_cmp_nlt_f16'' 46 ExeUnitVALU 64 32 32 0 0,
     it ''v_cmp_tru_f16'' 47 ExeUnitVALU 64 32 32 0 0,
     it ''v_cmpx_f_f16'' 48 ExeUnitVALU 64 32 32 0 0,
     it ''v_cmpx_lt_f16'' 49 ExeUnitVALU 64 32 32 0 0,
     it ''v_cmpx_eq_f16'' 50 ExeUnitVALU 64 32 32 0 0,
     it ''v_cmpx_le_f16'' 51 ExeUnitVALU 64 32 32 0 0,
     it ''v_cmpx_gt_f16'' 52 ExeUnitVALU 64 32 32 0 0,
     it ''v_cmpx_lg_f16'' 53 ExeUnitVALU 64 32 32 0 0,
     it ''v_cmpx_ge_f16'' 54 ExeUnitVALU 64 32 32 0 0,
     it ''v_cmpx_o_f16'' 55 ExeUnitVALU 64 32 32 0 0,
     it ''v_cmpx_u_f16'' 56 ExeUnitVALU 64 32 32 0 0,
     it ''v_cmpx_nge_f16'' 57 ExeUnitVALU 64 32 32 0 0,
     it ''v_cmpx_nlg_f16'' 58 ExeUnitVALU 64 32 32 0 0,
     it ''v_cmpx_ngt_f16'' 59 ExeUnitVALU 64 32 32 0 0,
     it ''v_cmpx_nle_f16'' 60 ExeUnitVALU 64 32 32 0 0,
     it ''v_cmpx_neq_f16'' 61 ExeUnitVALU 64 32 32 0 0,
     it ''v_cmpx_nlt_f16'' 62 ExeUnitVALU 64 32 32 0 0,
     it ''v_cmpx_tru_f16'' 63 ExeUnitVALU 64 32 32 0 0,
     it ''v_cmp_f_f32_e64'' 64 ExeUnitVALU 64 32 32 0 0,
     it ''v_cmp_lt_f32_e64'' 65 ExeUnitVALU 64 32 32 0 0,
     it ''v_cmp_eq_f32_e64'' 66 ExeUnitVALU 64 32 32 0 0,
     it ''v_cmp_le_f32_e64'' 67 ExeUnitVALU 64 32 32 0 0,
     it ''v_cmp_gt_f32_e64'' 68 ExeUnitVALU 64 32 32 0 0,
     it ''v_cmp_lg_f32_e64'' 69 ExeUnitVALU 64 32 32 0 0,
     it ''v_cmp_ge_f32_e64'' 70 ExeUnitVALU 64 32 32 0 0,
     it ''v_cmp_o_f32_e64'' 71 ExeUnitVALU 64 32 32 0 0,
     it ''v_cmp_u_f32_e64'' 72 ExeUnitVALU 64 32 32 0 0,
     it ''v_cmp_nge_f32_e64'' 73 ExeUnitVALU 64 32 32 0 0,
     it ''v_cmp_nlg_f32_e64'' 74 ExeUnitVALU 64 32 32 0 0,
     it ''v_cmp_ngt_f32_e64'' 75 ExeUnitVALU 64 32 32 0 0,
     it ''v_cmp_nle_f32_e64'' 76 ExeUnitVALU 64 32 32 0 0,
     it ''v_cmp_neq_f32_e64'' 77 ExeUnitVALU 64 32 32 0 0,
     it ''v_cmp_nlt_f32_e64'' 78 ExeUnitVALU 64 32 32 0 0,
     it ''v_cmp_tru_f32_e64'' 79 ExeUnitVALU 64 32 32 0 0,
     it ''v_cmpx_f_f32_e64'' 80 ExeUnitVALU 64 32 32 0 0,
     it ''v_cmpx_lt_f32_e64'' 81 ExeUnitVALU 64 32 32 0 0,
     it ''v_cmpx_eq_f32_e64'' 82 ExeUnitVALU 64 32 32 0 0,
     it ''v_cmpx_le_f32_e64'' 83 ExeUnitVALU 64 32 32 0 0,
     it ''v_cmpx_gt_f32_e64'' 84 ExeUnitVALU 64 32 32 0 0,
     it ''v_cmpx_lg_f32_e64'' 85 ExeUnitVALU 64 32 32 0 0,
     it ''v_cmpx_ge_f32_e64'' 86 ExeUnitVALU 64 32 32 0 0,
     it ''v_cmpx_o_f32_e64'' 87 ExeUnitVALU 64 32 32 0 0,
     it ''v_cmpx_u_f32_e64'' 88 ExeUnitVALU 64 32 32 0 0,
     it ''v_cmpx_nge_f32_e64'' 89 ExeUnitVALU 64 32 32 0 0,
     it ''v_cmpx_nlg_f32_e64'' 90 ExeUnitVALU 64 32 32 0 0,
     it ''v_cmpx_ngt_f32_e64'' 91 ExeUnitVALU 64 32 32 0 0,
     it ''v_cmpx_nle_f32_e64'' 92 ExeUnitVALU 64 32 32 0 0,
     it ''v_cmpx_neq_f32_e64'' 93 ExeUnitVALU 64 32 32 0 0,
     it ''v_cmpx_nlt_f32_e64'' 94 ExeUnitVALU 64 32 32 0 0,
     it ''v_cmpx_tru_f32_e64'' 95 ExeUnitVALU 64 32 32 0 0,
     it ''v_cmp_f_f64'' 96 ExeUnitVALU 64 64 64 0 0,
     it ''v_cmp_lt_f64'' 97 ExeUnitVALU 64 64 64 0 0,
     it ''v_cmp_eq_f64'' 98 ExeUnitVALU 64 64 64 0 0,
     it ''v_cmp_le_f64'' 99 ExeUnitVALU 64 64 64 0 0,
     it ''v_cmp_gt_f64'' 100 ExeUnitVALU 64 64 64 0 0,
     it ''v_cmp_lg_f64'' 101 ExeUnitVALU 64 64 64 0 0,
     it ''v_cmp_ge_f64'' 102 ExeUnitVALU 64 64 64 0 0,
     it ''v_cmp_o_f64'' 103 ExeUnitVALU 64 64 64 0 0,
     it ''v_cmp_u_f64'' 104 ExeUnitVALU 64 64 64 0 0,
     it ''v_cmp_nge_f64'' 105 ExeUnitVALU 64 64 64 0 0,
     it ''v_cmp_nlg_f64'' 106 ExeUnitVALU 64 64 64 0 0,
     it ''v_cmp_ngt_f64'' 107 ExeUnitVALU 64 64 64 0 0,
     it ''v_cmp_nle_f64'' 108 ExeUnitVALU 64 64 64 0 0,
     it ''v_cmp_neq_f64'' 109 ExeUnitVALU 64 64 64 0 0,
     it ''v_cmp_nlt_f64'' 110 ExeUnitVALU 64 64 64 0 0,
     it ''v_cmp_tru_f64'' 111 ExeUnitVALU 64 64 64 0 0,
     it ''v_cmpx_f_f64'' 112 ExeUnitVALU 64 64 64 0 0,
     it ''v_cmpx_lt_f64'' 113 ExeUnitVALU 64 64 64 0 0,
     it ''v_cmpx_eq_f64'' 114 ExeUnitVALU 64 64 64 0 0,
     it ''v_cmpx_le_f64'' 115 ExeUnitVALU 64 64 64 0 0,
     it ''v_cmpx_gt_f64'' 116 ExeUnitVALU 64 64 64 0 0,
     it ''v_cmpx_lg_f64'' 117 ExeUnitVALU 64 64 64 0 0,
     it ''v_cmpx_ge_f64'' 118 ExeUnitVALU 64 64 64 0 0,
     it ''v_cmpx_o_f64'' 119 ExeUnitVALU 64 64 64 0 0,
     it ''v_cmpx_u_f64'' 120 ExeUnitVALU 64 64 64 0 0,
     it ''v_cmpx_nge_f64'' 121 ExeUnitVALU 64 64 64 0 0,
     it ''v_cmpx_nlg_f64'' 122 ExeUnitVALU 64 64 64 0 0,
     it ''v_cmpx_ngt_f64'' 123 ExeUnitVALU 64 64 64 0 0,
     it ''v_cmpx_nle_f64'' 124 ExeUnitVALU 64 64 64 0 0,
     it ''v_cmpx_neq_f64'' 125 ExeUnitVALU 64 64 64 0 0,
     it ''v_cmpx_nlt_f64'' 126 ExeUnitVALU 64 64 64 0 0,
     it ''v_cmpx_tru_f64'' 127 ExeUnitVALU 64 64 64 0 0]"

definition table_VOP3a_cmp_int :: "InstType list" where
  "table_VOP3a_cmp_int = [
     it ''v_cmp_f_i16'' 160 ExeUnitVALU 64 32 32 0 0,
     it ''v_cmp_lt_i16'' 161 ExeUnitVALU 64 32 32 0 0,
     it ''v_cmp_eq_i16'' 162 ExeUnitVALU 64 32 32 0 0,
     it ''v_cmp_le_i16'' 163 ExeUnitVALU 64 32 32 0 0,
     it ''v_cmp_gt_i16'' 164 ExeUnitVALU 32 32 32 0 0,
     it ''v_cmp_lg_i16'' 165 ExeUnitVALU 32 32 32 0 0,
     it ''v_cmp_ge_i16'' 166 ExeUnitVALU 32 32 32 0 0,
     it ''v_cmp_tru_i16'' 167 ExeUnitVALU 64 32 32 0 0,
     it ''v_cmp_f_u16'' 168 ExeUnitVALU 64 32 32 0 0,
     it ''v_cmp_lt_u16'' 169 ExeUnitVALU 64 32 32 0 0,
     it ''v_cmp_eq_u16'' 170 ExeUnitVALU 64 32 32 0 0,
     it ''v_cmp_le_u16'' 171 ExeUnitVALU 64 32 32 0 0,
     it ''v_cmp_gt_u16'' 172 ExeUnitVALU 64 32 32 0 0,
     it ''v_cmp_lg_u16'' 173 ExeUnitVALU 64 32 32 0 0,
     it ''v_cmp_ge_u16'' 174 ExeUnitVALU 64 32 32 0 0,
     it ''v_cmp_tru_u16'' 175 ExeUnitVALU 64 32 32 0 0,
     it ''v_cmpx_f_i16'' 176 ExeUnitVALU 64 32 32 0 0,
     it ''v_cmpx_lt_i16'' 177 ExeUnitVALU 64 32 32 0 0,
     it ''v_cmpx_eq_i16'' 178 ExeUnitVALU 64 32 32 0 0,
     it ''v_cmpx_le_i16'' 179 ExeUnitVALU 64 32 32 0 0,
     it ''v_cmpx_gt_i16'' 180 ExeUnitVALU 64 32 32 0 0,
     it ''v_cmpx_lg_i16'' 181 ExeUnitVALU 64 32 32 0 0,
     it ''v_cmpx_ge_i16'' 182 ExeUnitVALU 64 32 32 0 0,
     it ''v_cmpx_tru_i16'' 183 ExeUnitVALU 64 32 32 0 0,
     it ''v_cmpx_f_u16'' 184 ExeUnitVALU 64 32 32 0 0,
     it ''v_cmpx_lt_u16'' 185 ExeUnitVALU 64 32 32 0 0,
     it ''v_cmpx_eq_u16'' 186 ExeUnitVALU 64 32 32 0 0,
     it ''v_cmpx_le_u16'' 187 ExeUnitVALU 64 32 32 0 0,
     it ''v_cmpx_gt_u16'' 188 ExeUnitVALU 64 32 32 0 0,
     it ''v_cmpx_lg_u16'' 189 ExeUnitVALU 64 32 32 0 0,
     it ''v_cmpx_ge_u16'' 190 ExeUnitVALU 64 32 32 0 0,
     it ''v_cmpx_tru_u16'' 191 ExeUnitVALU 64 32 32 0 0,
     it ''v_cmp_f_i32_e64'' 192 ExeUnitVALU 64 32 32 0 64,
     it ''v_cmp_lt_i32_e64'' 193 ExeUnitVALU 64 32 32 0 64,
     it ''v_cmp_eq_i32_e64'' 194 ExeUnitVALU 64 32 32 0 64,
     it ''v_cmp_le_i32_e64'' 195 ExeUnitVALU 64 32 32 0 64,
     it ''v_cmp_gt_i32_e64'' 196 ExeUnitVALU 64 32 32 0 64,
     it ''v_cmp_lg_i32_e64'' 197 ExeUnitVALU 64 32 32 0 64,
     it ''v_cmp_ge_i32_e64'' 198 ExeUnitVALU 64 32 32 0 64,
     it ''v_cmp_tru_i32_e64'' 199 ExeUnitVALU 64 32 32 0 64,
     it ''v_cmp_f_u32_e64'' 200 ExeUnitVALU 64 32 32 0 64,
     it ''v_cmp_lt_u32_e64'' 201 ExeUnitVALU 64 32 32 0 64,
     it ''v_cmp_eq_u32_e64'' 202 ExeUnitVALU 64 32 32 0 64,
     it ''v_cmp_le_u32_e64'' 203 ExeUnitVALU 64 32 32 0 64,
     it ''v_cmp_gt_u32_e64'' 204 ExeUnitVALU 64 32 32 0 64,
     it ''v_cmp_ne_u32_e64'' 205 ExeUnitVALU 64 32 32 0 64,
     it ''v_cmp_ge_u32_e64'' 206 ExeUnitVALU 64 32 32 0 64,
     it ''v_cmp_tru_u32_e64'' 207 ExeUnitVALU 64 32 32 0 64,
     it ''v_cmpx_f_i32_e64'' 208 ExeUnitVALU 64 32 32 0 64,
     it ''v_cmpx_lt_i32_e64'' 209 ExeUnitVALU 64 32 32 0 64,
     it ''v_cmpx_eq_i32_e64'' 210 ExeUnitVALU 64 32 32 0 64,
     it ''v_cmpx_le_i32_e64'' 211 ExeUnitVALU 64 32 32 0 64,
     it ''v_cmpx_gt_i32_e64'' 212 ExeUnitVALU 64 32 32 0 64,
     it ''v_cmpx_lg_i32_e64'' 213 ExeUnitVALU 64 32 32 0 64,
     it ''v_cmpx_ge_i32_e64'' 214 ExeUnitVALU 64 32 32 0 64,
     it ''v_cmpx_tru_i32_e64'' 215 ExeUnitVALU 64 32 32 0 64,
     it ''v_cmpx_f_u32_e64'' 216 ExeUnitVALU 64 32 32 0 64,
     it ''v_cmpx_lt_u32_e64'' 217 ExeUnitVALU 64 32 32 0 64,
     it ''v_cmpx_eq_u32_e64'' 218 ExeUnitVALU 64 32 32 0 64,
     it ''v_cmpx_le_u32_e64'' 219 ExeUnitVALU 64 32 32 0 64,
     it ''v_cmpx_gt_u32_e64'' 220 ExeUnitVALU 64 32 32 0 64,
     it ''v_cmpx_lg_u32_e64'' 221 ExeUnitVALU 64 32 32 0 64,
     it ''v_cmpx_ge_u32_e64'' 222 ExeUnitVALU 64 32 32 0 64,
     it ''v_cmpx_tru_u32_e64'' 223 ExeUnitVALU 64 32 32 0 64,
     it ''v_cmp_f_i64'' 224 ExeUnitVALU 64 64 64 0 0,
     it ''v_cmp_lt_i64'' 225 ExeUnitVALU 64 64 64 0 0,
     it ''v_cmp_eq_i64'' 226 ExeUnitVALU 64 64 64 0 0,
     it ''v_cmp_le_i64'' 227 ExeUnitVALU 64 64 64 0 0,
     it ''v_cmp_gt_i64'' 228 ExeUnitVALU 64 64 64 0 0,
     it ''v_cmp_lg_i64'' 229 ExeUnitVALU 64 64 64 0 0,
     it ''v_cmp_ge_i64'' 230 ExeUnitVALU 64 64 64 0 0,
     it ''v_cmp_tru_i64'' 231 ExeUnitVALU 64 64 64 0 0,
     it ''v_cmp_f_u64'' 232 ExeUnitVALU 64 64 64 0 0,
     it ''v_cmp_lt_u64'' 233 ExeUnitVALU 64 64 64 0 0,
     it ''v_cmp_eq_u64'' 234 ExeUnitVALU 64 64 64 0 0,
     it ''v_cmp_le_u64'' 235 ExeUnitVALU 64 64 64 0 0,
     it ''v_cmp_gt_u64'' 236 ExeUnitVALU 64 64 64 0 0,
     it ''v_cmp_lg_u64'' 237 ExeUnitVALU 64 64 64 0 0,
     it ''v_cmp_ge_u64'' 238 ExeUnitVALU 64 64 64 0 0,
     it ''v_cmp_tru_u64'' 239 ExeUnitVALU 64 64 64 0 0,
     it ''v_cmpx_f_i64'' 240 ExeUnitVALU 64 64 64 0 0,
     it ''v_cmpx_lt_i64'' 241 ExeUnitVALU 64 64 64 0 0,
     it ''v_cmpx_eq_i64'' 242 ExeUnitVALU 64 64 64 0 0,
     it ''v_cmpx_le_i64'' 243 ExeUnitVALU 64 64 64 0 0,
     it ''v_cmpx_gt_i64'' 244 ExeUnitVALU 64 64 64 0 0,
     it ''v_cmpx_lg_i64'' 245 ExeUnitVALU 64 64 64 0 0,
     it ''v_cmpx_ge_i64'' 246 ExeUnitVALU 64 64 64 0 0,
     it ''v_cmpx_tru_i64'' 247 ExeUnitVALU 64 64 64 0 0,
     it ''v_cmpx_f_u64'' 248 ExeUnitVALU 64 64 64 0 0,
     it ''v_cmpx_lt_u64'' 249 ExeUnitVALU 64 64 64 0 0,
     it ''v_cmpx_eq_u64'' 250 ExeUnitVALU 64 64 64 0 0,
     it ''v_cmpx_le_u64'' 251 ExeUnitVALU 64 64 64 0 0,
     it ''v_cmpx_gt_u64'' 252 ExeUnitVALU 64 64 64 0 0,
     it ''v_cmpx_lg_u64'' 253 ExeUnitVALU 64 64 64 0 0,
     it ''v_cmpx_ge_u64'' 254 ExeUnitVALU 64 64 64 0 0,
     it ''v_cmpx_tru_u64'' 255 ExeUnitVALU 64 64 64 0 0]"

definition table_VOP3a_vop2 :: "InstType list" where
  "table_VOP3a_vop2 = [
     it ''v_cndmask_b32_e64'' 256 ExeUnitVALU 32 32 32 64 0,
     it ''v_add_f32'' 257 ExeUnitVALU 32 32 32 0 0,
     it ''v_sub_f32_e64'' 258 ExeUnitVALU 32 32 32 0 0,
     it ''v_subrev_f32'' 259 ExeUnitVALU 32 32 32 0 0,
     it ''v_mul_legacy_f32'' 260 ExeUnitVALU 32 32 32 0 0,
     it ''v_mul_f32_e32'' 261 ExeUnitVALU 32 32 32 0 0,
     it ''v_mul_i32_i24'' 262 ExeUnitVALU 32 32 32 0 0,
     it ''v_mul_hi_i32_i24'' 263 ExeUnitVALU 32 32 32 0 0,
     it ''v_mul_u32_u24_e32'' 264 ExeUnitVALU 32 32 32 0 0,
     it ''v_mul_hi_u32_u24'' 265 ExeUnitVALU 32 32 32 0 0,
     it ''v_min_f32'' 266 ExeUnitVALU 32 32 32 0 0,
     it ''v_max_f32'' 267 ExeUnitVALU 32 32 32 0 0,
     it ''v_min_i32'' 268 ExeUnitVALU 32 32 32 0 0,
     it ''v_max_i32'' 269 ExeUnitVALU 32 32 32 0 0,
     it ''v_min_u32_e32'' 270 ExeUnitVALU 32 32 32 0 0,
     it ''v_max_u32_e32'' 271 ExeUnitVALU 32 32 32 0 0,
     it ''v_lshrrev_b32_e32'' 272 ExeUnitVALU 32 32 32 0 0,
     it ''v_ashrrev_i32_e32'' 273 ExeUnitVALU 32 32 32 0 0,
     it ''v_lshlrev_b32_e32'' 274 ExeUnitVALU 32 32 32 0 0,
     it ''v_and_b32_e32'' 275 ExeUnitVALU 32 32 32 0 0,
     it ''v_or_b32_e32'' 276 ExeUnitVALU 32 32 32 0 0,
     it ''v_xor_b32_e32'' 277 ExeUnitVALU 32 32 32 0 0,
     it ''v_mac_f32_e32'' 278 ExeUnitVALU 32 32 32 0 0,
     it ''v_madmk_f32'' 279 ExeUnitVALU 32 32 32 0 0,
     it ''v_madak_f32'' 280 ExeUnitVALU 32 32 32 0 0,
     it ''v_add_f16'' 287 ExeUnitVALU 32 32 32 0 0,
     it ''v_sub_f16'' 288 ExeUnitVALU 32 32 32 0 0,
     it ''v_subrev_f16'' 289 ExeUnitVALU 32 32 32 0 0,
     it ''v_mul_f16'' 290 ExeUnitVALU 32 32 32 0 0,
     it ''v_mac_f16'' 291 ExeUnitVALU 32 32 32 0 0,
     it ''v_madmk_f16'' 292 ExeUnitVALU 32 32 32 0 0,
     it ''v_madak_f16'' 293 ExeUnitVALU 32 32 32 0 0,
     it ''v_add_u16'' 294 ExeUnitVALU 32 32 32 0 0,
     it ''v_sub_u16'' 295 ExeUnitVALU 32 32 32 0 0,
     it ''v_subrev_u16'' 296 ExeUnitVALU 32 32 32 0 0,
     it ''v_mul_lo_u16'' 297 ExeUnitVALU 32 32 32 0 0,
     it ''v_lshlrev_b16'' 298 ExeUnitVALU 32 32 32 0 0,
     it ''v_lshrrev_b16'' 299 ExeUnitVALU 32 32 32 0 0,
     it ''v_ashrrev_i16'' 300 ExeUnitVALU 32 32 32 0 0,
     it ''v_max_f16'' 301 ExeUnitVALU 32 32 32 0 0,
     it ''v_min_f16'' 302 ExeUnitVALU 32 32 32 0 0,
     it ''v_max_u16'' 303 ExeUnitVALU 32 32 32 0 0,
     it ''v_max_i16'' 304 ExeUnitVALU 32 32 32 0 0,
     it ''v_min_u16'' 305 ExeUnitVALU 32 32 32 0 0,
     it ''v_min_i16'' 306 ExeUnitVALU 32 32 32 0 0,
     it ''v_ldexp_f16'' 307 ExeUnitVALU 32 32 32 0 0]"

definition table_VOP3a_vop3 :: "InstType list" where
  "table_VOP3a_vop3 = [
     it ''v_mad_legacy_f32'' 448 ExeUnitVALU 32 32 32 32 0,
     it ''v_mad_f32'' 449 ExeUnitVALU 32 32 32 32 0,
     it ''v_mad_i32_i24'' 450 ExeUnitVALU 32 32 32 32 0,
     it ''v_mad_u32_u24'' 451 ExeUnitVALU 32 32 32 32 0,
     it ''v_cubeid_f32'' 452 ExeUnitVALU 32 32 32 32 0,
     it ''v_cubesc_f32'' 453 ExeUnitVALU 32 32 32 32 0,
     it ''v_cubetc_f32'' 454 ExeUnitVALU 32 32 32 32 0,
     it ''v_cubema_f32'' 455 ExeUnitVALU 32 32 32 32 0,
     it ''v_bfe_u32'' 456 ExeUnitVALU 32 32 32 32 0,
     it ''v_bfe_i32'' 457 ExeUnitVALU 32 32 32 32 0,
     it ''v_bfi_b32'' 458 ExeUnitVALU 32 32 32 32 0,
     it ''v_fma_f32'' 459 ExeUnitVALU 32 32 32 32 0,
     it ''v_fma_f64'' 460 ExeUnitVALU 32 32 32 32 0,
     it ''v_lerp_u8'' 461 ExeUnitVALU 32 32 32 32 0,
     it ''v_alignbit_b32'' 462 ExeUnitVALU 32 32 32 32 0,
     it ''v_alignbyte_b32'' 463 ExeUnitVALU 32 32 32 32 0,
     it ''v_min3_f32'' 464 ExeUnitVALU 32 32 32 32 0,
     it ''v_min3_i32'' 465 ExeUnitVALU 32 32 32 32 0,
     it ''v_min3_u32'' 466 ExeUnitVALU 32 32 32 32 0,
     it ''v_max3_f32'' 467 ExeUnitVALU 32 32 32 32 0,
     it ''v_max3_i32'' 468 ExeUnitVALU 32 32 32 32 0,
     it ''v_max3_u32'' 469 ExeUnitVALU 32 32 32 32 0,
     it ''v_med3_f32'' 470 ExeUnitVALU 32 32 32 32 0,
     it ''v_med3_i32'' 471 ExeUnitVALU 32 32 32 32 0,
     it ''v_med3_u32'' 472 ExeUnitVALU 32 32 32 32 0,
     it ''v_sad_u8'' 473 ExeUnitVALU 32 32 32 32 0,
     it ''v_sad_hi_u8'' 474 ExeUnitVALU 32 32 32 32 0,
     it ''v_sad_u16'' 475 ExeUnitVALU 32 32 32 32 0,
     it ''v_sad_u32'' 476 ExeUnitVALU 32 32 32 32 0,
     it ''v_cvt_pk_u8_f32'' 477 ExeUnitVALU 32 32 32 32 0,
     it ''v_div_fixup_f32'' 478 ExeUnitVALU 32 32 32 32 0,
     it ''v_div_fixup_f64'' 479 ExeUnitVALU 32 32 32 32 0,
     it ''v_div_fmas_f32'' 482 ExeUnitVALU 32 32 32 32 0,
     it ''v_div_fmas_f64'' 483 ExeUnitVALU 32 32 32 32 0,
     it ''v_msad_u8'' 484 ExeUnitVALU 32 32 32 32 0,
     it ''v_qsad_pk_u16_u8'' 485 ExeUnitVALU 32 32 32 32 0,
     it ''v_mqsad_pk_u16_u8'' 486 ExeUnitVALU 32 32 32 32 0,
     it ''v_mqsad_u32_u8'' 487 ExeUnitVALU 32 32 32 32 0,
     it ''v_mad_u64_u32'' 488 ExeUnitVALU 32 32 32 32 0,
     it ''v_mad_i64_i32'' 489 ExeUnitVALU 32 32 32 0 0,
     it ''v_mad_f16'' 490 ExeUnitVALU 32 32 32 32 0,
     it ''v_mad_u16'' 491 ExeUnitVALU 32 32 32 32 0,
     it ''v_mad_i16'' 492 ExeUnitVALU 32 32 32 32 0,
     it ''v_perm_b32'' 493 ExeUnitVALU 32 32 32 32 0,
     it ''v_fma_f16'' 494 ExeUnitVALU 32 32 32 32 0,
     it ''v_div_fixup_16'' 495 ExeUnitVALU 32 32 32 32 0,
     it ''v_cvt_pkaccum_u8_f32'' 496 ExeUnitVALU 32 32 32 32 0,
     it ''v_interp_p1_f32'' 624 ExeUnitVALU 32 32 32 32 0,
     it ''v_interp_p2_f32'' 625 ExeUnitVALU 32 32 32 32 0,
     it ''v_interp_mov_f32'' 626 ExeUnitVALU 32 32 32 32 0,
     it ''v_interp_p1ll_f16'' 628 ExeUnitVALU 32 32 32 32 0,
     it ''v_interp_p1lv_f16'' 629 ExeUnitVALU 32 32 32 32 0,
     it ''v_interp_p2_f16'' 630 ExeUnitVALU 32 32 32 32 0,
     it ''v_add_f64_e64'' 640 ExeUnitVALU 32 32 32 32 0,
     it ''v_mul_f64'' 641 ExeUnitVALU 64 64 64 0 0,
     it ''v_min_f64_e64'' 642 ExeUnitVALU 32 32 32 32 0,
     it ''v_max_f64_e64'' 643 ExeUnitVALU 32 32 32 32 0,
     it ''v_ldexp_f64'' 644 ExeUnitVALU 32 32 32 32 0,
     it ''v_mul_lo_u32'' 645 ExeUnitVALU 32 32 32 0 0,
     it ''v_mul_hi_u32'' 646 ExeUnitVALU 32 32 32 0 0,
     it ''v_mul_hi_i32'' 647 ExeUnitVALU 32 32 32 32 0,
     it ''v_ldexp_f32'' 648 ExeUnitVALU 32 32 32 32 0,
     it ''v_readlane_b32'' 649 ExeUnitVALU 32 32 32 32 0,
     it ''v_writelane_b32'' 650 ExeUnitVALU 32 32 32 32 0,
     it ''v_bcnt_u32_b32'' 651 ExeUnitVALU 32 32 32 32 0,
     it ''v_mbcnt_lo_u32_b32'' 652 ExeUnitVALU 32 32 32 32 0,
     it ''v_mbcnt_hi_u32_b32'' 653 ExeUnitVALU 32 32 32 32 0,
     it ''v_lshlrev_b64'' 655 ExeUnitVALU 64 64 64 0 0,
     it ''v_lshrrev_b64'' 656 ExeUnitVALU 64 64 64 0 0,
     it ''v_ashrrev_i64'' 657 ExeUnitVALU 64 64 64 0 0,
     it ''v_trig_preop_f64'' 658 ExeUnitVALU 64 64 64 0 0,
     it ''v_bfm_b32'' 659 ExeUnitVALU 32 32 32 0 0,
     it ''v_cvt_pknorm_i16_f32'' 660 ExeUnitVALU 32 32 32 0 0,
     it ''v_cvt_pknorm_u16_f32'' 661 ExeUnitVALU 32 32 32 0 0,
     it ''v_cvt_pkrtz_f16_f32'' 662 ExeUnitVALU 32 32 32 0 0,
     it ''v_cvt_pk_u16_u32'' 663 ExeUnitVALU 32 32 32 0 0,
     it ''v_cvt_pk_i16_i32'' 664 ExeUnitVALU 32 32 32 0 0]"

definition table_VOP3b :: "InstType list" where
  "table_VOP3b = [
     it ''v_add_u32_e64'' 281 ExeUnitVALU 32 32 32 64 64,
     it ''v_sub_u32_e64'' 282 ExeUnitVALU 32 32 32 0 64,
     it ''v_subrev_u32_e64'' 283 ExeUnitVALU 32 32 0 0 64,
     it ''v_addc_u32_e64'' 284 ExeUnitVALU 32 32 32 64 64,
     it ''v_subb_u32_e64'' 285 ExeUnitVALU 32 32 32 0 64,
     it ''v_subbrev_u32_e64'' 286 ExeUnitVALU 32 32 32 64 64,
     it ''v_div_scale_f32'' 480 ExeUnitVALU 32 32 32 32 0,
     it ''v_div_scale_f64'' 481 ExeUnitVALU 32 32 32 32 0]"

definition table_SOP1 :: "InstType list" where
  "table_SOP1 = [
     it ''s_mov_b32'' 0 ExeUnitScalar 32 32 0 0 0,
     it ''s_mov_b64'' 1 ExeUnitScalar 64 64 0 0 0,
     it ''s_cmov_b32'' 2 ExeUnitScalar 32 32 0 0 0,
     it ''s_cmov_b64'' 3 ExeUnitScalar 64 64 0 0 0,
     it ''s_not_b32'' 4 ExeUnitScalar 32 32 0 0 0,
     it ''s_not_b64'' 5 ExeUnitScalar 64 64 0 0 0,
     it ''s_wqm_b32'' 6 ExeUnitScalar 32 32 0 0 0,
     it ''s_wqm_b64 '' 7 ExeUnitScalar 64 64 0 0 0,
     it ''s_brev_b32'' 8 ExeUnitScalar 32 32 0 0 0,
     it ''s_brev_b64'' 9 ExeUnitScalar 64 64 0 0 0,
     it ''s_bcnt0_i32_b32'' 10 ExeUnitScalar 32 32 0 0 0,
     it ''s_bcnt0_i32_b64'' 11 ExeUnitScalar 32 32 0 0 0,
     it ''s_bcnt1_i32_b32'' 12 ExeUnitScalar 32 32 0 0 0,
     it ''s_bcnt1_i32_b64'' 13 ExeUnitScalar 32 32 0 0 0,
     it ''s_ff0_i32_b32'' 14 ExeUnitScalar 32 32 0 0 0,
     it ''s_ff0_i32_b64'' 15 ExeUnitScalar 32 32 0 0 0,
     it ''s_ff1_i32_b32'' 16 ExeUnitScalar 32 32 0 0 0,
     it ''s_ff1_i32_b64'' 17 ExeUnitScalar 32 32 0 0 0,
     it ''s_flbit_i32_b32'' 18 ExeUnitScalar 32 32 0 0 0,
     it ''s_flbit_i32_b64'' 19 ExeUnitScalar 32 32 0 0 0,
     it ''s_flbit_i32'' 20 ExeUnitScalar 32 32 0 0 0,
     it ''s_flbit_i32_i64'' 21 ExeUnitScalar 32 32 0 0 0,
     it ''s_sext_i32_i8'' 22 ExeUnitScalar 32 32 0 0 0,
     it ''s_sext_i32_i16'' 23 ExeUnitScalar 32 32 0 0 0,
     it ''s_bitset0_b32'' 24 ExeUnitScalar 32 32 0 0 0,
     it ''s_bitset0_b64'' 25 ExeUnitScalar 64 64 0 0 0,
     it ''s_bitset1_b32'' 26 ExeUnitScalar 32 32 0 0 0,
     it ''s_bitset1_b64'' 27 ExeUnitScalar 64 64 0 0 0,
     it ''s_getpc_b64'' 28 ExeUnitScalar 64 64 0 0 0,
     it ''s_setpc_b64'' 29 ExeUnitScalar 64 64 0 0 0,
     it ''s_swappc_b64'' 30 ExeUnitScalar 64 64 0 0 0,
     it ''s_rfe_b64'' 31 ExeUnitScalar 64 64 0 0 0,
     it ''s_and_saveexec_b64'' 32 ExeUnitScalar 64 64 0 0 0,
     it ''s_or_saveexec_b64'' 33 ExeUnitScalar 64 64 0 0 0,
     it ''s_xor_saveexec_b64'' 34 ExeUnitScalar 64 64 0 0 0,
     it ''s_andn2_saveexec_b64'' 35 ExeUnitScalar 64 64 0 0 0,
     it ''s_orn2_saveexec_b64'' 36 ExeUnitScalar 64 64 0 0 0,
     it ''s_nand_saveexec_b64'' 37 ExeUnitScalar 64 64 0 0 0,
     it ''s_nor_saveexec_b64'' 38 ExeUnitScalar 64 64 0 0 0,
     it ''s_xnor_saveexec_b64'' 39 ExeUnitScalar 64 64 0 0 0,
     it ''s_quadmask_b32'' 40 ExeUnitScalar 32 32 0 0 0,
     it ''s_quadmask_b64'' 41 ExeUnitScalar 64 64 0 0 0,
     it ''s_movrels_b32'' 42 ExeUnitScalar 32 32 0 0 0,
     it ''s_movrels_b64'' 43 ExeUnitScalar 64 64 0 0 0,
     it ''s_movreld_b32'' 44 ExeUnitScalar 32 32 0 0 0,
     it ''s_movreld_b64'' 45 ExeUnitScalar 64 64 0 0 0,
     it ''s_cbranch_join'' 46 ExeUnitScalar 32 32 0 0 0,
     it ''s_abs_i32'' 48 ExeUnitScalar 32 32 0 0 0,
     it ''s_set_gpr_idx_idx'' 49 ExeUnitScalar 32 32 0 0 0]"

definition table_DS_32 :: "InstType list" where
  "table_DS_32 = [
     it ''ds_add_u32'' 0 ExeUnitLDS 0 0 0 0 0,
     it ''ds_sub_u32'' 1 ExeUnitLDS 0 0 0 0 0,
     it ''ds_rsub_u32'' 2 ExeUnitLDS 0 0 0 0 0,
     it ''ds_inc_u32'' 3 ExeUnitLDS 0 0 0 0 0,
     it ''ds_dec_u32'' 4 ExeUnitLDS 0 0 0 0 0,
     it ''ds_min_i32'' 5 ExeUnitLDS 0 0 0 0 0,
     it ''ds_max_i32'' 6 ExeUnitLDS 0 0 0 0 0,
     it ''ds_min_u32'' 7 ExeUnitLDS 0 0 0 0 0,
     it ''ds_max_u32'' 8 ExeUnitLDS 0 0 0 0 0,
     it ''ds_and_b32'' 9 ExeUnitLDS 0 0 0 0 0,
     it ''ds_or_b32'' 10 ExeUnitLDS 0 0 0 0 0,
     it ''ds_xor_b32'' 11 ExeUnitLDS 0 0 0 0 0,
     it ''ds_mskor_b32'' 12 ExeUnitLDS 0 0 0 0 0,
     it ''ds_write_b32'' 13 ExeUnitLDS 0 32 0 0 0,
     it ''ds_write2_b32'' 14 ExeUnitLDS 0 32 32 0 0,
     it ''ds_write2st64_b32'' 15 ExeUnitLDS 0 0 0 0 0,
     it ''ds_cmpst_b32'' 16 ExeUnitLDS 0 0 0 0 0,
     it ''ds_cmpst_f32'' 17 ExeUnitLDS 0 0 0 0 0,
     it ''ds_min_f32'' 18 ExeUnitLDS 0 0 0 0 0,
     it ''ds_max_f32'' 19 ExeUnitLDS 0 0 0 0 0,
     it ''ds_nop '' 20 ExeUnitLDS 0 0 0 0 0,
     it ''ds_add_f32'' 21 ExeUnitLDS 0 0 0 0 0,
     it ''ds_write_b8'' 30 ExeUnitLDS 0 0 0 0 0,
     it ''ds_write_b16'' 31 ExeUnitLDS 0 0 0 0 0,
     it ''ds_add_rtn_u32'' 32 ExeUnitLDS 0 0 0 0 0,
     it ''ds_sub_rtn_u32'' 33 ExeUnitLDS 0 0 0 0 0,
     it ''ds_rsub_rtn_u32'' 34 ExeUnitLDS 0 0 0 0 0,
     it ''ds_inc_rtn_u32'' 35 ExeUnitLDS 0 0 0 0 0,
     it ''ds_dec_rtn_u32'' 36 ExeUnitLDS 0 0 0 0 0,
     it ''ds_min_rtn_i32'' 37 ExeUnitLDS 0 0 0 0 0,
     it ''ds_max_rtn_i32'' 38 ExeUnitLDS 0 0 0 0 0,
     it ''ds_min_rtn_u32'' 39 ExeUnitLDS 0 0 0 0 0,
     it ''ds_max_rtn_u32'' 40 ExeUnitLDS 0 0 0 0 0,
     it ''ds_and_rtn_b32'' 41 ExeUnitLDS 0 0 0 0 0,
     it ''ds_or_rtn_b32'' 42 ExeUnitLDS 0 0 0 0 0,
     it ''ds_xor_rtn_b32'' 43 ExeUnitLDS 0 0 0 0 0,
     it ''ds_mskor_rtn_b32'' 44 ExeUnitLDS 0 0 0 0 0,
     it ''ds_wrxchg_rtn_b32'' 45 ExeUnitLDS 0 0 0 0 0,
     it ''ds_wrxchg2_rtn_b32'' 46 ExeUnitLDS 0 0 0 0 0,
     it ''ds_wrxchg2st64_rtn_b32'' 47 ExeUnitLDS 0 0 0 0 0,
     it ''ds_cmpst_rtn_b32'' 48 ExeUnitLDS 0 0 0 0 0,
     it ''ds_cmpst_rtn_f32'' 49 ExeUnitLDS 0 0 0 0 0,
     it ''ds_min_rtn_f32'' 50 ExeUnitLDS 0 0 0 0 0,
     it ''ds_max_rtn_f32'' 51 ExeUnitLDS 0 0 0 0 0,
     it ''ds_wrap_rtn_b32'' 52 ExeUnitLDS 0 0 0 0 0,
     it ''ds_read_b32'' 54 ExeUnitLDS 32 0 0 0 0,
     it ''ds_read2_b32'' 55 ExeUnitLDS 64 0 0 0 0,
     it ''ds_read2st64_b32'' 56 ExeUnitLDS 0 0 0 0 0,
     it ''ds_read_i8'' 57 ExeUnitLDS 0 0 0 0 0,
     it ''ds_read_u8'' 58 ExeUnitLDS 0 0 0 0 0,
     it ''ds_read_i16'' 59 ExeUnitLDS 0 0 0 0 0,
     it ''ds_read_u16'' 60 ExeUnitLDS 0 0 0 0 0,
     it ''ds_swizzle_b32'' 61 ExeUnitLDS 0 0 0 0 0,
     it ''ds_permute_b32'' 62 ExeUnitLDS 0 0 0 0 0,
     it ''ds_bpermute_b32'' 63 ExeUnitLDS 0 0 0 0 0,
     it ''ds_add_u64'' 64 ExeUnitLDS 0 0 0 0 0,
     it ''ds_sub_u64'' 65 ExeUnitLDS 0 0 0 0 0,
     it ''ds_rsub_u64'' 66 ExeUnitLDS 0 0 0 0 0,
     it ''ds_inc_u64'' 67 ExeUnitLDS 0 0 0 0 0,
     it ''ds_dec_u64'' 68 ExeUnitLDS 0 0 0 0 0,
     it ''ds_min_i64'' 69 ExeUnitLDS 0 0 0 0 0,
     it ''ds_max_i64'' 70 ExeUnitLDS 0 0 0 0 0,
     it ''ds_min_u64'' 71 ExeUnitLDS 0 0 0 0 0,
     it ''ds_max_u64'' 72 ExeUnitLDS 0 0 0 0 0,
     it ''ds_and_b64'' 73 ExeUnitLDS 0 0 0 0 0,
     it ''ds_or_b64'' 74 ExeUnitLDS 0 0 0 0 0,
     it ''ds_xor_b64'' 75 ExeUnitLDS 0 0 0 0 0,
     it ''ds_mskor_b64'' 76 ExeUnitLDS 0 0 0 0 0,
     it ''ds_write_b64'' 77 ExeUnitLDS 0 0 0 0 0,
     it ''ds_write2_b64'' 78 ExeUnitLDS 0 64 64 0 0]"

definition table_DS_64 :: "InstType list" where
  "table_DS_64 = [
     it ''ds_write2st64_b64'' 79 ExeUnitLDS 0 0 0 0 0,
     it ''ds_cmpst_b64'' 80 ExeUnitLDS 0 0 0 0 0,
     it ''ds_cmpst_f64'' 81 ExeUnitLDS 0 0 0 0 0,
     it ''ds_min_f64'' 82 ExeUnitLDS 0 0 0 0 0,
     it ''ds_max_f64'' 83 ExeUnitLDS 0 0 0 0 0,
     it ''ds_add_rtn_u64'' 96 ExeUnitLDS 0 0 0 0 0,
     it ''ds_sub_rtn_u64'' 97 ExeUnitLDS 0 0 0 0 0,
     it ''ds_rsub_rtn_u64'' 98 ExeUnitLDS 0 0 0 0 0,
     it ''ds_inc_rtn_u64'' 99 ExeUnitLDS 0 0 0 0 0,
     it ''ds_dec_rtn_u64'' 100 ExeUnitLDS 0 0 0 0 0,
     it ''ds_min_rtn_i64'' 101 ExeUnitLDS 0 0 0 0 0,
     it ''ds_max_rtn_i64'' 102 ExeUnitLDS 0 0 0 0 0,
     it ''ds_min_rtn_u64'' 103 ExeUnitLDS 0 0 0 0 0,
     it ''ds_max_rtn_u64'' 104 ExeUnitLDS 0 0 0 0 0,
     it ''ds_and_rtn_b64'' 105 ExeUnitLDS 0 0 0 0 0,
     it ''ds_or_rtn_b64'' 106 ExeUnitLDS 0 0 0 0 0,
     it ''ds_xor_rtn_b64'' 107 ExeUnitLDS 0 0 0 0 0,
     it ''ds_mskor_rtn_b64'' 108 ExeUnitLDS 0 0 0 0 0,
     it ''ds_wrxchg_rtn_b64'' 109 ExeUnitLDS 0 0 0 0 0,
     it ''ds_wrxchg2_rtn_b64'' 110 ExeUnitLDS 0 0 0 0 0,
     it ''ds_wrxchg2st64_rtn_b64'' 111 ExeUnitLDS 0 0 0 0 0,
     it ''ds_cmpst_rtn_b64'' 112 ExeUnitLDS 0 0 0 0 0,
     it ''ds_cmpst_rtn_f64'' 113 ExeUnitLDS 0 0 0 0 0,
     it ''ds_min_rtn_f64'' 114 ExeUnitLDS 0 0 0 0 0,
     it ''ds_max_rtn_f64'' 115 ExeUnitLDS 0 0 0 0 0,
     it ''ds_read_b64'' 118 ExeUnitLDS 64 0 0 0 0,
     it ''ds_read2_b64'' 119 ExeUnitLDS 128 0 0 0 0,
     it ''ds_read2st64_b64'' 120 ExeUnitLDS 0 0 0 0 0,
     it ''ds_condxchg32_rtn_b64'' 126 ExeUnitLDS 0 0 0 0 0,
     it ''ds_add_src2_u32'' 128 ExeUnitLDS 0 0 0 0 0,
     it ''ds_sub_src2_u32'' 129 ExeUnitLDS 0 0 0 0 0,
     it ''ds_rsub_src2_u32'' 130 ExeUnitLDS 0 0 0 0 0,
     it ''ds_inc_src2_u32'' 131 ExeUnitLDS 0 0 0 0 0,
     it ''ds_dec_src2_u32'' 132 ExeUnitLDS 0 0 0 0 0,
     it ''ds_min_src2_i32'' 133 ExeUnitLDS 0 0 0 0 0,
     it ''ds_max_src2_i32'' 134 ExeUnitLDS 0 0 0 0 0,
     it ''ds_min_src2_u32'' 135 ExeUnitLDS 0 0 0 0 0,
     it ''ds_max_src2_u32'' 136 ExeUnitLDS 0 0 0 0 0,
     it ''ds_and_src2_b32'' 137 ExeUnitLDS 0 0 0 0 0,
     it ''ds_or_src2_b32'' 138 ExeUnitLDS 0 0 0 0 0,
     it ''ds_xor_src2_b32'' 139 ExeUnitLDS 0 0 0 0 0,
     it ''ds_write_src2_b32'' 141 ExeUnitLDS 0 0 0 0 0,
     it ''ds_min_src2_f32'' 146 ExeUnitLDS 0 0 0 0 0,
     it ''ds_max_src2_f32'' 147 ExeUnitLDS 0 0 0 0 0,
     it ''ds_gws_sema_release_all'' 152 ExeUnitLDS 0 0 0 0 0,
     it ''ds_gws_init'' 153 ExeUnitLDS 0 0 0 0 0,
     it ''ds_gws_sema_v'' 154 ExeUnitLDS 0 0 0 0 0,
     it ''ds_gws_sema_br'' 155 ExeUnitLDS 0 0 0 0 0,
     it ''ds_gws_sema_p'' 156 ExeUnitLDS 0 0 0 0 0,
     it ''ds_gws_barrier'' 157 ExeUnitLDS 0 0 0 0 0,
     it ''ds_consume'' 189 ExeUnitLDS 0 0 0 0 0,
     it ''ds_append'' 190 ExeUnitLDS 0 0 0 0 0,
     it ''ds_ordered_count'' 191 ExeUnitLDS 0 0 0 0 0,
     it ''ds_add_src2_u64'' 192 ExeUnitLDS 0 0 0 0 0,
     it ''ds_sub_src2_u64'' 193 ExeUnitLDS 0 0 0 0 0,
     it ''ds_rsub_src2_u64'' 194 ExeUnitLDS 0 0 0 0 0,
     it ''ds_inc_src2_u64'' 195 ExeUnitLDS 0 0 0 0 0,
     it ''ds_dec_src2_u64'' 196 ExeUnitLDS 0 0 0 0 0,
     it ''ds_min_src2_i64'' 197 ExeUnitLDS 0 0 0 0 0,
     it ''ds_max_src2_i64'' 198 ExeUnitLDS 0 0 0 0 0,
     it ''ds_min_src2_u64'' 199 ExeUnitLDS 0 0 0 0 0,
     it ''ds_max_src2_u64'' 200 ExeUnitLDS 0 0 0 0 0,
     it ''ds_and_src2_b64'' 201 ExeUnitLDS 0 0 0 0 0,
     it ''ds_or_src2_b64'' 202 ExeUnitLDS 0 0 0 0 0,
     it ''ds_xor_src2_b64'' 203 ExeUnitLDS 0 0 0 0 0,
     it ''ds_write_src2_b64'' 205 ExeUnitLDS 0 0 0 0 0,
     it ''ds_min_src2_f64'' 210 ExeUnitLDS 0 0 0 0 0,
     it ''ds_max_src2_f64'' 211 ExeUnitLDS 0 0 0 0 0,
     it ''ds_write_b96'' 222 ExeUnitLDS 0 0 0 0 0,
     it ''ds_write_b128'' 223 ExeUnitLDS 0 0 0 0 0,
     it ''ds_condxchg32_rtn_b128'' 253 ExeUnitLDS 0 0 0 0 0,
     it ''ds_read_b96'' 254 ExeUnitLDS 0 0 0 0 0,
     it ''ds_read_b128'' 255 ExeUnitLDS 0 0 0 0 0]"

text \<open>Every VOP1 instruction is also a VOP3a instruction, with 320 added to its opcode.\<close>

definition as_VOP3a :: "InstType \<Rightarrow> InstType" where
  "as_VOP3a t = it (it_InstName t) (it_Opcode t + 320) ExeUnitVALU 32 32 32 0 0"

fun decodeTables :: "FormatType \<Rightarrow> InstType list" where
  "decodeTables SOP2 = table_SOP2"
| "decodeTables VOP2 = table_VOP2"
| "decodeTables VOP1 = table_VOP1"
| "decodeTables FLAT = table_FLAT"
| "decodeTables SMEM = table_SMEM"
| "decodeTables SOPP = table_SOPP"
| "decodeTables SOPC = table_SOPC"
| "decodeTables SOPK = table_SOPK"
| "decodeTables VOPC = table_VOPC_float @ table_VOPC_int"
| "decodeTables VOP3a = table_VOP3a_cmp_float @ table_VOP3a_cmp_int @ table_VOP3a_vop2 @ map as_VOP3a table_VOP1 @ table_VOP3a_vop3"
| "decodeTables VOP3b = table_VOP3b"
| "decodeTables SOP1 = table_SOP1"
| "decodeTables DS = table_DS_32 @ table_DS_64"
| "decodeTables _ = []"

text \<open>\<^verbatim>\<open>addInstType\<close> overwrites, so the last instruction type with an opcode counts; a missing one is the error of \<^verbatim>\<open>lookUp\<close>.\<close>

definition lookUp :: "FormatType \<Rightarrow> nat \<Rightarrow> InstType option" where
  "lookUp f opc = find (\<lambda>t. it_Opcode t = opc) (rev (decodeTables f))"

end
