(* ===== verification/Decoder.thy ===== *)
theory Decoder
  imports Decode_Table
begin

text \<open>
  The instruction decoder (\<^verbatim>\<open>mgpusim/insts/disassembler.go\<close> and \<^verbatim>\<open>getOperand\<close> of \<^verbatim>\<open>operand.go\<close>): from the bytes of an instruction to the
  record that the emulator executes.

  A decoder function can panic or return a Go error; the result is \<open>Inl\<close> for a panic, \<open>Inr (Inl e)\<close> for an error and \<open>Inr (Inr x)\<close> for a
  value. The register count of an operand that is not a register, which nothing reads, is left out, so setting it changes nothing. A slice
  expression beyond the length of the buffer counts as out of range (the capacity of the buffers is their length). The register \<^verbatim>\<open>nil\<close> that a
  number beyond the last register gives is the invalid register.
\<close>

section \<open>Instructions\<close>

text \<open>The fields of \<^verbatim>\<open>Inst\<close> that the emulator does not read, and the widths of its instruction type.\<close>

record DInst = Inst +
  d_ExeUnit :: ExeUnit
  d_DSTWidth :: nat
  d_SRC0Width :: nat
  d_SRC1Width :: nat
  d_SRC2Width :: nat
  d_SDSTWidth :: nat
  d_SystemLevelCoherent :: bool
  d_GlobalLevelCoherent :: bool
  d_TextureFailEnable :: bool
  d_Imm :: bool
  d_Clamp :: bool
  d_GDS :: bool
  d_VMCNT :: nat
  d_LKGMCNT :: nat
  d_Src0Neg :: bool
  d_Src0Abs :: bool
  d_Src1Neg :: bool
  d_Src1Abs :: bool
  d_Src2Neg :: bool
  d_Src2Abs :: bool

definition new_inst :: "Format \<Rightarrow> InstType \<Rightarrow> DInst" where
  "new_inst f t = Inst.extend ((NewInst (f_FormatType f) (it_Opcode t))\<lparr>i_InstName := it_InstName t, i_ByteSize := of_nat (f_ByteSizeExLiteral f)\<rparr>)
     (DInst.fields (it_ExeUnit t) (it_DSTWidth t) (it_SRC0Width t) (it_SRC1Width t) (it_SRC2Width t) (it_SDSTWidth t)
        False False False False False False 0 0 False False False False False False)"

section \<open>Operands\<close>

text \<open>The constants that follow the scalar registers in the enumeration of registers.\<close>

definition after_sregs :: "RegType list" where
  "after_sregs = [EXEC, EXECLO, EXECHI, EXECZ, VCC, VCCLO, VCCHI, VCCZ, SCC, FlatSratch, FlatSratchLo, FlatSratchHi, XnackMask, XnackMaskLo,
     XnackMaskHi, Status, Mode, M0, Trapsts, Tba, TbaLo, TbaHi, Tma, TmaLo, TmaHi] @ map Timp [0..<12] @ [VMCNT, EXPCNT, LGKMCNT]"

text \<open>\<^verbatim>\<open>S0 + RegType(index)\<close>.\<close>

definition sreg_at :: "nat \<Rightarrow> RegType" where
  "sreg_at index =
     (if index \<le> 101 then S index
      else if index - 102 < length after_sregs then after_sregs ! (index - 102) else InvalidRegType)"

definition sreg_operand :: "nat \<Rightarrow> nat \<Rightarrow> Operand" where
  "sreg_operand index cnt = NewRegOperand (sreg_at index) cnt"

definition getOperand :: "nat \<Rightarrow> Operand option" where
  "getOperand num =
     (if num \<le> 101 then Some (NewSRegOperand num 0)
      else if num = 102 then Some (NewRegOperand FlatSratchLo 0)
      else if num = 103 then Some (NewRegOperand FlatSratchHi 0)
      else if num = 104 then Some (NewRegOperand XnackMaskLo 0)
      else if num = 105 then Some (NewRegOperand XnackMaskHi 0)
      else if num = 106 then Some (NewRegOperand VCCLO 0)
      else if num = 107 then Some (NewRegOperand VCCHI 0)
      else if num = 108 then Some (NewRegOperand TbaLo 0)
      else if num = 109 then Some (NewRegOperand TbaHi 0)
      else if num = 110 then Some (NewRegOperand TmaLo 0)
      else if num = 111 then Some (NewRegOperand TmaHi 0)
      else if 112 \<le> num \<and> num < 123 then Some (NewRegOperand (Timp (num - 112)) 0)
      else if num = 124 then Some (NewRegOperand M0 0)
      else if num = 126 then Some (NewRegOperand EXECLO 0)
      else if num = 127 then Some (NewRegOperand EXECHI 0)
      else if 128 \<le> num \<and> num \<le> 192 then Some (IntOperand (of_int (int num - 128)))
      else if 193 \<le> num \<and> num \<le> 208 then Some (IntOperand (of_int (192 - int num)))
      else if num = 240 then Some (FloatOperand 0x3f000000)
      else if num = 241 then Some (FloatOperand 0xbf000000)
      else if num = 242 then Some (FloatOperand 0x3f800000)
      else if num = 243 then Some (FloatOperand 0xbf800000)
      else if num = 244 then Some (FloatOperand 0x40000000)
      else if num = 245 then Some (FloatOperand 0xc0000000)
      else if num = 246 then Some (FloatOperand 0x40800000)
      else if num = 247 then Some (FloatOperand 0xc0800000)
      else if num = 248 then Some (FloatOperand 0x3e22f983)
      else if num = 251 then Some (NewRegOperand VCCZ 0)
      else if num = 252 then Some (NewRegOperand EXECZ 0)
      else if num = 253 then Some (NewRegOperand SCC 0)
      else if num = 255 then Some (LiteralConstant 0)
      else if 256 \<le> num \<and> num \<le> 511 then Some (NewVRegOperand (num - 256) 0)
      else None)"

type_synonym 'a decoded = "(string + 'a) result"

definition okD :: "'a \<Rightarrow> 'a decoded" where
  "okD x = Inr (Inr x)"

definition bindD :: "'a decoded \<Rightarrow> ('a \<Rightarrow> 'b decoded) \<Rightarrow> 'b decoded" where
  "bindD m f = bindR m (\<lambda>r. case r of Inl e \<Rightarrow> Inr (Inl e) | Inr x \<Rightarrow> f x)"

text \<open>\<^verbatim>\<open>op.RegCount = n\<close>, which panics when the operand was not found.\<close>

fun set_count :: "nat \<Rightarrow> Operand \<Rightarrow> Operand" where
  "set_count n (RegOperand r c) = RegOperand r n"
| "set_count n op = op"

definition RegCount :: "nat \<Rightarrow> Operand option \<Rightarrow> Operand option decoded" where
  "RegCount n op = (case op of None \<Rightarrow> Inl NilDereference | Some op \<Rightarrow> okD (Some (set_count n op)))"

definition RegCount_if :: "bool \<Rightarrow> nat \<Rightarrow> Operand option \<Rightarrow> Operand option decoded" where
  "RegCount_if c n op = (if c then RegCount n op else okD op)"

definition word_at :: "nat \<Rightarrow> byte list \<Rightarrow> u32 decoded" where
  "word_at off buf = bindR (slice_range buf off 4) (\<lambda>bs. bindR (BytesToUint32 bs) okD)"

text \<open>A literal constant: four more bytes, and its value is the second word.\<close>

definition literal :: "byte list \<Rightarrow> Operand option \<Rightarrow> u64 \<Rightarrow> (Operand option \<times> u64) decoded" where
  "literal buf op nbytes =
     (case op of
        None \<Rightarrow> Inl NilDereference
      | Some (LiteralConstant _) \<Rightarrow>
          if length buf < 8 then Inr (Inl ''no enough bytes'')
          else bindD (word_at 4 buf) (\<lambda>v. okD (Some (LiteralConstant v), nbytes + 4))
      | Some op \<Rightarrow> okD (Some op, nbytes))"

definition field :: "u32 \<Rightarrow> byte \<Rightarrow> byte \<Rightarrow> nat" where
  "field w lo hi = unat (extractBits w lo hi)"

definition flag_at :: "u32 \<Rightarrow> byte \<Rightarrow> bool" where
  "flag_at w lo = (extractBits w lo lo \<noteq> 0)"

fun str_contains :: "'a list \<Rightarrow> 'a list \<Rightarrow> bool" where
  "str_contains sub [] = (sub = [])"
| "str_contains sub (x # xs) = (take (length sub) (x # xs) = sub \<or> str_contains sub xs)"

section \<open>Scalar formats\<close>

definition decodeSOP2 :: "DInst \<Rightarrow> byte list \<Rightarrow> DInst decoded" where
  "decodeSOP2 inst buf =
     bindD (word_at 0 buf) (\<lambda>w.
     bindD (literal buf (getOperand (field w 0 7)) (i_ByteSize inst)) (\<lambda>(src0, nbytes).
     bindD (literal buf (getOperand (field w 8 15)) nbytes) (\<lambda>(src1, nbytes).
     let dst = getOperand (field w 16 22); wide = str_contains ''64'' (i_InstName inst) in
     bindD (RegCount_if wide 2 src0) (\<lambda>src0.
     bindD (RegCount_if wide 2 src1) (\<lambda>src1.
     bindD (RegCount_if wide 2 dst) (\<lambda>dst.
     okD (inst\<lparr>i_Src0 := src0, i_Src1 := src1, i_Dst := dst, i_ByteSize := nbytes\<rparr>)))))))"

definition decodeSOP1 :: "DInst \<Rightarrow> byte list \<Rightarrow> DInst decoded" where
  "decodeSOP1 inst buf =
     bindD (word_at 0 buf) (\<lambda>w.
     bindD (RegCount_if (d_SRC0Width inst = 64) 2 (getOperand (field w 0 7))) (\<lambda>src0.
     bindD (RegCount_if (d_DSTWidth inst = 64) 2 (getOperand (field w 16 22))) (\<lambda>dst.
     bindD (literal buf src0 (i_ByteSize inst)) (\<lambda>(src0, nbytes).
     okD (inst\<lparr>i_Src0 := src0, i_Dst := dst, i_ByteSize := nbytes\<rparr>)))))"

definition decodeSOPC :: "DInst \<Rightarrow> byte list \<Rightarrow> DInst decoded" where
  "decodeSOPC inst buf =
     bindD (word_at 0 buf) (\<lambda>w.
     bindD (literal buf (getOperand (field w 0 7)) (i_ByteSize inst)) (\<lambda>(src0, nbytes).
     bindD (literal buf (getOperand (field w 8 15)) nbytes) (\<lambda>(src1, nbytes).
     okD (inst\<lparr>i_Src0 := src0, i_Src1 := src1, i_ByteSize := nbytes\<rparr>))))"

definition decodeSOPK :: "DInst \<Rightarrow> byte list \<Rightarrow> DInst decoded" where
  "decodeSOPK inst buf =
     bindD (word_at 0 buf) (\<lambda>w.
     okD (inst\<lparr>i_SImm16 := Some (IntOperand (ucast (extractBits w 0 15))), i_Dst := getOperand (field w 16 22)\<rparr>))"

definition decodeSOPP :: "DInst \<Rightarrow> byte list \<Rightarrow> DInst decoded" where
  "decodeSOPP inst buf =
     bindD (word_at 0 buf) (\<lambda>w.
     let imm = extractBits w 0 15; inst = inst\<lparr>i_SImm16 := Some (IntOperand (ucast imm))\<rparr> in
     if i_Opcode inst = 12 then okD (inst\<lparr>d_VMCNT := field imm 0 3, d_LKGMCNT := field imm 8 12\<rparr>) else okD inst)"

definition decodeSMEM :: "DInst \<Rightarrow> byte list \<Rightarrow> DInst decoded" where
  "decodeSMEM inst buf =
     bindD (word_at 0 buf) (\<lambda>lo.
     bindD (word_at 4 buf) (\<lambda>hi.
     bindD (literal buf (getOperand (field lo 6 12)) (i_ByteSize inst)) (\<lambda>(data, nbytes).
     let opc = i_Opcode inst; imm = flag_at lo 17 in
     bindD (if opc = 0 then RegCount 1 data
            else if opc \<in> set [1, 9, 17, 25] then RegCount 2 data
            else if opc \<in> set [2, 10, 18, 26] then RegCount 4 data
            else if opc \<in> set [3, 11, 19, 27] then RegCount 8 data
            else if opc \<in> set [4, 12, 20, 28] then RegCount 16 data
            else okD data) (\<lambda>data.
     okD (inst\<lparr>d_GlobalLevelCoherent := flag_at lo 16, d_Imm := imm, i_Base := Some (sreg_operand (2 * field lo 0 5) 2), i_Data := data, i_ByteSize := nbytes,
       i_Offset := Some (if imm then IntOperand (ucast (extractBits hi 0 19)) else sreg_operand (field hi 0 19) 1)\<rparr>)))))"

section \<open>Vector formats\<close>

definition decodeVOP1 :: "DInst \<Rightarrow> byte list \<Rightarrow> DInst decoded" where
  "decodeVOP1 inst buf =
     bindD (word_at 0 buf) (\<lambda>w.
     bindD (literal buf (getOperand (field w 0 8)) (i_ByteSize inst)) (\<lambda>(src0, nbytes).
     let opc = i_Opcode inst;
         dst = (if opc = 2 then getOperand (field w 17 24) else getOperand (field w 17 24 + 256)) in
     bindD (RegCount_if (opc = 4) 2 dst) (\<lambda>dst.
     bindD (RegCount_if (opc = 15) 2 src0) (\<lambda>src0.
     okD (inst\<lparr>i_Src0 := src0, i_Dst := dst, i_ByteSize := nbytes\<rparr>)))))"

text \<open>The selection of a part of a register in the SDWA word; 7 leaves the field as it was.\<close>

definition sdwa_select :: "nat \<Rightarrow> u32 \<Rightarrow> u32" where
  "sdwa_select sel old =
     (if sel = 0 then 0xff else if sel = 1 then 0xff00 else if sel = 2 then 0xff0000 else if sel = 3 then 0xff000000
      else if sel = 4 then 0xffff else if sel = 5 then 0xFFFF0000 else if sel = 6 then 0xFFFFFFFF else old)"

definition decode_sdwa :: "DInst \<Rightarrow> byte list \<Rightarrow> DInst decoded" where
  "decode_sdwa inst buf =
     (if length buf < 8 then Inr (Inl ''no enough bytes'')
      else bindD (word_at 4 buf) (\<lambda>s.
        if field s 11 12 = 1 then Inl (Panic ''DST_UNUSED SEXT is not implemented'')
        else if field s 11 12 = 2 then Inl (Panic ''DST_UNUSED PRESERVE is not implemented'')
        else if flag_at s 13 then Inl (Panic ''CLAMP is not implemented'')
        else if flag_at s 19 then Inl (Panic ''SRC0_SEXT is not implemented'')
        else if flag_at s 20 then Inl (Panic ''SRC0_NEG when true is not implemented'')
        else if flag_at s 21 then Inl (Panic ''SRC0_ABS is not implemented'')
        else if flag_at s 27 then Inl (Panic ''SRC1_SEXT is not implemented'')
        else if flag_at s 28 then Inl (Panic ''SRC1_NEG when true is not implemented'')
        else if flag_at s 29 then Inl (Panic ''SRC1_ABS is not implemented'')
        else okD (inst\<lparr>i_IsSdwa := True, i_Src0 := Some (NewVRegOperand (field s 0 7) 0), i_DstSel := sdwa_select (field s 8 10) (i_DstSel inst),
          i_Src0Sel := sdwa_select (field s 16 18) (i_Src0Sel inst), i_Src1Sel := sdwa_select (field s 24 26) (i_Src1Sel inst),
          i_ByteSize := i_ByteSize inst + 4\<rparr>)))"

definition decodeVOP2 :: "DInst \<Rightarrow> byte list \<Rightarrow> DInst decoded" where
  "decodeVOP2 inst buf =
     bindD (word_at 0 buf) (\<lambda>w.
     bindD (if field w 0 8 = 249 then decode_sdwa inst buf else okD (inst\<lparr>i_Src0 := getOperand (field w 0 8)\<rparr>)) (\<lambda>inst.
     bindD (literal buf (i_Src0 inst) (i_ByteSize inst)) (\<lambda>(src0, nbytes).
     let inst = inst\<lparr>i_Src0 := src0, i_ByteSize := nbytes, i_Src1 := Some (NewVRegOperand (field w 9 16) 0), i_Dst := Some (NewVRegOperand (field w 17 24) 0)\<rparr> in
     if i_Opcode inst \<in> set [24, 37]
     then bindD (word_at 4 buf) (\<lambda>v. okD (inst\<lparr>d_Imm := True, i_ByteSize := i_ByteSize inst + 4, i_Src2 := Some (LiteralConstant v)\<rparr>))
     else okD inst)))"

definition decodeVOPC :: "DInst \<Rightarrow> byte list \<Rightarrow> DInst decoded" where
  "decodeVOPC inst buf =
     bindD (word_at 0 buf) (\<lambda>w.
     bindD (literal buf (getOperand (field w 0 8)) (i_ByteSize inst)) (\<lambda>(src0, nbytes).
     okD (inst\<lparr>i_Src0 := src0, i_ByteSize := nbytes, i_Src1 := Some (NewVRegOperand (field w 9 16) 0)\<rparr>)))"

definition parseNeg :: "u32 \<Rightarrow> DInst \<Rightarrow> DInst" where
  "parseNeg neg inst = inst\<lparr>d_Src0Neg := neg AND 1 > 0 \<or> d_Src0Neg inst, d_Src1Neg := neg AND 2 > 0 \<or> d_Src1Neg inst, d_Src2Neg := neg AND 4 > 0 \<or> d_Src2Neg inst\<rparr>"

definition parseAbs :: "u32 \<Rightarrow> DInst \<Rightarrow> DInst" where
  "parseAbs m inst = inst\<lparr>d_Src0Abs := m AND 1 > 0 \<or> d_Src0Abs inst, d_Src1Abs := m AND 2 > 0 \<or> d_Src1Abs inst, d_Src2Abs := m AND 4 > 0 \<or> d_Src2Abs inst\<rparr>"

definition decodeVOP3a :: "DInst \<Rightarrow> byte list \<Rightarrow> DInst decoded" where
  "decodeVOP3a inst buf =
     bindD (word_at 0 buf) (\<lambda>lo.
     bindD (word_at 4 buf) (\<lambda>hi.
     bindD (RegCount_if (d_DSTWidth inst = 64) 2
              (if i_Opcode inst \<le> 255 then getOperand (field lo 0 7) else Some (NewVRegOperand (field lo 0 7) 0))) (\<lambda>dst.
     let inst = (parseAbs (extractBits lo 8 10) inst)\<lparr>i_Dst := dst, i_Abs := field lo 8 10, d_Clamp := flag_at lo 15\<rparr> in
     bindD (RegCount_if (d_SRC0Width inst = 64) 2 (getOperand (field hi 0 8))) (\<lambda>src0.
     bindD (RegCount_if (d_SRC1Width inst = 64) 2 (getOperand (field hi 9 17))) (\<lambda>src1.
     bindD (if d_SRC2Width inst \<noteq> 0 then RegCount_if (d_SRC2Width inst = 64) 2 (getOperand (field hi 18 26)) else okD (i_Src2 inst)) (\<lambda>src2.
     okD (parseNeg (extractBits hi 29 31) (inst\<lparr>i_Src0 := src0, i_Src1 := src1, i_Src2 := src2, i_Omod := field hi 27 28, i_Neg := field hi 29 31\<rparr>))))))))"

definition decodeVOP3b :: "DInst \<Rightarrow> byte list \<Rightarrow> DInst decoded" where
  "decodeVOP3b inst buf =
     bindD (word_at 0 buf) (\<lambda>lo.
     bindD (word_at 4 buf) (\<lambda>hi.
     bindD (if 255 < i_Opcode inst then RegCount_if (d_DSTWidth inst = 64) 2 (Some (NewVRegOperand (field lo 0 7) 1)) else okD (i_Dst inst)) (\<lambda>dst.
     bindD (RegCount_if (d_SDSTWidth inst = 64) 2 (getOperand (field lo 8 14))) (\<lambda>sdst.
     bindD (RegCount_if (d_SRC0Width inst = 64) 2 (getOperand (field hi 0 8))) (\<lambda>src0.
     bindD (RegCount_if (d_SRC1Width inst = 64) 2 (getOperand (field hi 9 17))) (\<lambda>src1.
     bindD (if 255 < i_Opcode inst \<and> 0 < d_SRC2Width inst then RegCount_if (d_SRC2Width inst = 64) 2 (getOperand (field hi 18 26)) else okD (i_Src2 inst)) (\<lambda>src2.
     okD (inst\<lparr>i_Dst := dst, i_SDst := sdst, d_Clamp := flag_at lo 15, i_Src0 := src0, i_Src1 := src1, i_Src2 := src2, i_Omod := field hi 27 28,
       i_Neg := field hi 29 31\<rparr>))))))))"

section \<open>Memory formats\<close>

definition decodeFLAT :: "DInst \<Rightarrow> byte list \<Rightarrow> DInst decoded" where
  "decodeFLAT inst buf =
     bindD (word_at 0 buf) (\<lambda>lo.
     bindD (word_at 4 buf) (\<lambda>hi.
     let opc = i_Opcode inst;
         cnt = (if opc \<in> set [21, 29, 80, 81, 82, 83, 84, 85, 86, 87, 88, 89, 90, 91, 92, 93] then 2
                else if opc \<in> set [22, 30] then 3 else if opc \<in> set [23, 31] then 4 else 0) in
     okD (inst\<lparr>d_SystemLevelCoherent := flag_at lo 17, d_GlobalLevelCoherent := flag_at lo 16, d_TextureFailEnable := flag_at hi 23,
       i_Addr := Some (NewVRegOperand (field hi 0 7) 2), i_Dst := Some (NewVRegOperand (field hi 24 31) cnt), i_Data := Some (NewVRegOperand (field hi 8 15) cnt)\<rparr>)))"

definition combineDSOffsets :: "DInst \<Rightarrow> DInst" where
  "combineDSOffsets inst =
     (if i_Opcode inst \<in> set [14, 15, 46, 47, 55, 56, 78, 79, 110, 111, 119, 120] then inst
      else inst\<lparr>i_Offset0 := i_Offset0 inst + push_bit 8 (i_Offset1 inst)\<rparr>)"

definition decodeDS :: "DInst \<Rightarrow> byte list \<Rightarrow> DInst decoded" where
  "decodeDS inst buf =
     bindD (word_at 0 buf) (\<lambda>lo.
     bindD (word_at 4 buf) (\<lambda>hi.
     let inst = (combineDSOffsets (inst\<lparr>i_Offset0 := extractBits lo 0 7, i_Offset1 := extractBits lo 8 15\<rparr>))
           \<lparr>d_GDS := extractBit lo 16 \<noteq> 0, i_Addr := Some (NewVRegOperand (field hi 0 7) 1)\<rparr>;
         inst = (if 0 < d_SRC0Width inst then inst\<lparr>i_Data := Some (NewVRegOperand (field hi 8 15) (if d_SRC0Width inst = 64 then 2 else 1))\<rparr> else inst);
         inst = (if 0 < d_SRC1Width inst then inst\<lparr>i_Data1 := Some (NewVRegOperand (field hi 16 23) (if d_SRC1Width inst = 64 then 2 else 1))\<rparr> else inst);
         inst = (if 0 < d_DSTWidth inst
                 then inst\<lparr>i_Dst := Some (NewVRegOperand (field hi 24 31) (if d_DSTWidth inst = 64 then 2 else if d_DSTWidth inst = 128 then 4 else 1))\<rparr> else inst)
     in okD inst))"

section \<open>Decoding an instruction\<close>

text \<open>The switch on the format in \<^verbatim>\<open>Decode\<close>.\<close>

definition decode_switch :: "Format \<Rightarrow> DInst \<Rightarrow> byte list \<Rightarrow> DInst decoded" where
  "decode_switch f inst buf =
     (case f_FormatType f of
        SOP2 \<Rightarrow> decodeSOP2 inst buf | SMEM \<Rightarrow> decodeSMEM inst buf | VOP2 \<Rightarrow> decodeVOP2 inst buf | VOP1 \<Rightarrow> decodeVOP1 inst buf
      | FLAT \<Rightarrow> decodeFLAT inst buf | SOPP \<Rightarrow> decodeSOPP inst buf | VOPC \<Rightarrow> decodeVOPC inst buf | SOPC \<Rightarrow> decodeSOPC inst buf
      | VOP3a \<Rightarrow> decodeVOP3a inst buf | VOP3b \<Rightarrow> decodeVOP3b inst buf | SOP1 \<Rightarrow> decodeSOP1 inst buf | SOPK \<Rightarrow> decodeSOPK inst buf
      | DS \<Rightarrow> decodeDS inst buf | _ \<Rightarrow> Inl (Panic ''unabkle to decode instruction type''))"

definition Decode :: "Format list \<Rightarrow> byte list \<Rightarrow> DInst decoded" where
  "Decode formatList buf =
     bindD (word_at 0 buf) (\<lambda>w.
     case matchFormat formatList w of
       None \<Rightarrow> Inr (Inl ''cannot find the instruction format, first two bytes are '')
     | Some f \<Rightarrow>
         (case lookUp (f_FormatType f) (retrieveOpcode f w) of
            None \<Rightarrow> Inr (Inl ''not found'')
          | Some t \<Rightarrow>
              if length buf < f_ByteSizeExLiteral f then Inr (Inl ''no enough buffer'')
              else decode_switch f (new_inst f t) buf))"

text \<open>What the compute unit makes of it: \<^verbatim>\<open>inst, _ := cu.decoder.Decode(instBuf)\<close>, where a missing instruction is then dereferenced.\<close>

definition decoder :: "Format list \<Rightarrow> byte list \<Rightarrow> Inst option" where
  "decoder formatList buf = (case Decode formatList buf of Inr (Inr inst) \<Rightarrow> Some (Inst.truncate inst) | _ \<Rightarrow> None)"

end
