(* ===== verification/Decoding.thy ===== *)
theory Decoding
  imports Decoder Emu_Program
begin

text \<open>
  What the decoder does: the format of a word is decided by its upper nine bits, encoded scalar instructions decode to themselves, a small program in
  memory is fetched, decoded and executed to its result, and an instruction takes 4, 8 or 12 bytes. Two errors of the decoder are at the end.
\<close>

section \<open>Bit fields\<close>

lemma extractBits_div:
  assumes "lo \<le> hi" "hi < 32"
  shows "unat (extractBits w lo hi) = unat w div 2 ^ unat lo mod 2 ^ (unat hi - unat lo + 1)"
proof -
  have h: "unat hi < 32" "unat lo \<le> unat hi" using assms by (simp_all add: word_less_nat_alt word_le_nat_alt)
  have "unat (hi - lo) = unat hi - unat lo" using assms(1) by (rule unat_sub)
  then have "unat (hi - lo + 1) = unat hi - unat lo + 1" using h by (simp add: unat_word_ariths(1))
  then have m: "push_bit (unat (hi - lo + 1)) 1 - 1 = (mask (unat hi - unat lo + 1) :: u64)" by (simp add: mask_eq_exp_minus_1)
  have "extractBits w lo hi = take_bit (unat hi - unat lo + 1) (drop_bit (unat lo) w)"
    unfolding extractBits_def Let_def m using h by (intro bit_word_eqI) (auto simp: bit_simps)
  then have "unat (extractBits w lo hi) = take_bit (unat hi - unat lo + 1) (drop_bit (unat lo) (unat w))"
    by (simp only: unsigned_take_bit_eq unat_drop_bit_eq)
  then show ?thesis by (simp only: take_bit_eq_mod drop_bit_eq_div)
qed

lemma field_div: "lo \<le> hi \<Longrightarrow> hi < 32 \<Longrightarrow> field w lo hi = unat w div 2 ^ unat lo mod 2 ^ (unat hi - unat lo + 1)"
  by (simp add: field_def extractBits_div)

text \<open>Every field is within its width.\<close>

lemma field_less: "lo \<le> hi \<Longrightarrow> hi < 32 \<Longrightarrow> field w lo hi < 2 ^ (unat hi - unat lo + 1)"
  by (simp add: field_div)

section \<open>The format of a word is in its upper nine bits\<close>

definition upper :: "u32 \<Rightarrow> u32" where
  "upper w = push_bit 23 (drop_bit 23 w)"

lemma upper_and_mask: "upper w AND push_bit 23 (mask 9) = w AND push_bit 23 (mask 9)"
  unfolding upper_def by (rule bit_word_eqI) (auto simp: bit_simps)

lemma upper_and:
  assumes "f_Mask f AND 0xFF800000 = f_Mask f"
  shows "(upper w XOR f_Encoding f) AND f_Mask f = (w XOR f_Encoding f) AND f_Mask f"
proof -
  define M :: u32 where "M = push_bit 23 (mask 9)"
  have "M = 0xFF800000" by (simp add: M_def mask_eq_exp_minus_1 push_bit_eq_mult)
  then have m: "f_Mask f = f_Mask f AND M" using assms by simp
  have mb: "bit M n" if "bit (f_Mask f) n" for n using that by (subst (asm) m) (simp add: bit_and_iff)
  have dist: "(x XOR f_Encoding f) AND f_Mask f = (x AND M XOR f_Encoding f AND M) AND f_Mask f" for x
    by (rule bit_word_eqI) (auto simp: bit_simps dest: mb)
  show ?thesis unfolding dist [of "upper w"] dist [of w] M_def upper_and_mask ..
qed

lemma masks_upper: "list_all (\<lambda>f. f_Mask f AND 0xFF800000 = f_Mask f) FormatTable"
  by code_simp

lemma find_upper: "find (matches w) FormatTable = find (matches (upper w)) FormatTable"
  using masks_upper by (intro find_cong refl) (simp add: matches_def upper_and list_all_iff)

lemma upper_of: "upper w = push_bit 23 (of_nat (unat w div 2 ^ 23))"
proof -
  have "drop_bit 23 w = of_nat (unat w div 2 ^ 23)" by (simp only: unat_drop_bit_eq [symmetric] drop_bit_eq_div [symmetric]) simp
  then show ?thesis by (simp add: upper_def)
qed

section \<open>Scalar instructions with two operands\<close>

text \<open>The word of a SOP2 instruction: the tag \<open>10\<close>, seven bits of opcode, seven of destination, eight of each source.\<close>

definition sop2_word :: "nat \<Rightarrow> nat \<Rightarrow> nat \<Rightarrow> nat \<Rightarrow> u32" where
  "sop2_word opc d b a = of_nat ((((256 + opc) * 128 + d) * 256 + b) * 256 + a)"

lemma sop2_word_unat:
  assumes "opc < 64" "d < 128" "b < 256" "a < 256"
  shows "unat (sop2_word opc d b a) = (((256 + opc) * 128 + d) * 256 + b) * 256 + a"
proof -
  have "(((256 + opc) * 128 + d) * 256 + b) * 256 + a < 2 ^ LENGTH(32)" using assms by simp
  then show ?thesis by (simp only: sop2_word_def unsigned_of_nat take_bit_nat_eq_self of_nat_id)
qed

lemma horner:
  fixes x y n :: nat
  assumes "y < n"
  shows "(x * n + y) div n = x" "(x * n + y) mod n = y"
  using assms by simp_all

lemma sop2_word_fields:
  assumes "opc < 64" "d < 128" "b < 256" "a < 256"
  shows "field (sop2_word opc d b a) 0 7 = a" "field (sop2_word opc d b a) 8 15 = b" "field (sop2_word opc d b a) 16 22 = d"
    "field (sop2_word opc d b a) 23 29 = opc" "unat (sop2_word opc d b a) div 2 ^ 23 = 256 + opc"
proof -
  let ?w = "unat (sop2_word opc d b a)"
  have w: "?w = (((256 + opc) * 128 + d) * 256 + b) * 256 + a" by (rule sop2_word_unat [OF assms])
  have d1: "?w div 2 ^ 8 = ((256 + opc) * 128 + d) * 256 + b" unfolding w using assms(4) by simp
  then have d2: "?w div 2 ^ 16 = (256 + opc) * 128 + d" using assms(3) div_mult2_eq [of ?w "2 ^ 8" "2 ^ 8"] by simp
  then have d3: "?w div 2 ^ 23 = 256 + opc" using assms(2) div_mult2_eq [of ?w "2 ^ 16" "2 ^ 7"] by simp
  have "?w mod 256 = a" unfolding w by (rule horner(2) [OF assms(4)])
  then show "field (sop2_word opc d b a) 0 7 = a" by (simp add: field_div)
  have "?w div 2 ^ 8 mod 256 = b" unfolding d1 by (rule horner(2) [OF assms(3)])
  then show "field (sop2_word opc d b a) 8 15 = b" by (simp add: field_div)
  have "?w div 2 ^ 16 mod 128 = d" unfolding d2 by (rule horner(2) [OF assms(2)])
  then show "field (sop2_word opc d b a) 16 22 = d" by (simp add: field_div)
  have "?w div 2 ^ 23 mod 128 = opc" unfolding d3 using horner(2) [of opc 128 2] assms(1) by simp
  then show "field (sop2_word opc d b a) 23 29 = opc" by (simp add: field_div)
  show "?w div 2 ^ 23 = 256 + opc" by (rule d3)
qed

definition SOP2_format :: Format where
  "SOP2_format = fmt SOP2 ''sop2'' 0x80000000 0xA0000000 4 23 29"

lemma sop2_formats: "list_all (\<lambda>opc. find (matches (push_bit 23 (of_nat (256 + opc)))) FormatTable = Some SOP2_format) [0..<44]"
  by code_simp

lemma sop2_types: "list_all (\<lambda>opc. map_option it_Opcode (lookUp SOP2 opc) = Some opc) [0..<44]"
  by code_simp

lemma matchFormat_SOP2:
  assumes "formatList_ok fl" "opc < 44" "d < 128" "b < 256" "a < 256"
  shows "matchFormat fl (sop2_word opc d b a) = Some SOP2_format"
proof -
  have "find (matches (sop2_word opc d b a)) FormatTable = Some SOP2_format"
    using sop2_formats assms sop2_word_fields(5) [of opc d b a] by (simp add: find_upper [of "sop2_word opc d b a"] upper_of list_all_iff)
  then have "matchFormat initFormatList (sop2_word opc d b a) = Some SOP2_format"
    by (simp add: matchFormat_find initFormatList_def SOP2_format_def fmt_def)
  then show ?thesis by (simp add: matchFormat_order [OF assms(1)])
qed

lemma okD_simps [simp]: "bindD (okD x) f = f x" "bindD (Inl p) f = Inl p" "bindD (Inr (Inl e)) f = Inr (Inl e)" "okD x = okD y \<longleftrightarrow> x = y"
  by (simp_all add: bindD_def okD_def)

lemma word_at_0: "word_at 0 (Uint32ToBytes w @ rest) = okD w"
  by (simp add: word_at_def slice_range_def)

lemma word_at_4: "word_at 4 (Uint32ToBytes v @ Uint32ToBytes w @ rest) = okD w"
  by (simp add: word_at_def slice_range_def)

lemma literal_plain [simp]: "literal buf (Some (NewSRegOperand i c)) n = okD (Some (NewSRegOperand i c), n)"
  by (simp add: literal_def NewSRegOperand_def)

lemma RegCount_if_S [simp]: "RegCount_if c n (Some (NewSRegOperand i k)) = okD (Some (NewSRegOperand i (if c then n else k)))"
  by (simp add: RegCount_if_def RegCount_def NewSRegOperand_def)

lemma getOperand_S [simp]: "i \<le> 101 \<Longrightarrow> getOperand i = Some (NewSRegOperand i 0)"
  by (simp add: getOperand_def)

text \<open>The instruction a SOP2 word stands for.\<close>

definition sop2_decoded :: "InstType \<Rightarrow> nat \<Rightarrow> nat \<Rightarrow> nat \<Rightarrow> DInst" where
  "sop2_decoded t d b a =
     (let c = (if str_contains ''64'' (it_InstName t) then 2 else 0)
      in (new_inst SOP2_format t)\<lparr>i_Src0 := Some (NewSRegOperand a c), i_Src1 := Some (NewSRegOperand b c), i_Dst := Some (NewSRegOperand d c)\<rparr>)"

lemma new_inst_simps [simp]:
  "i_ByteSize (new_inst f t) = of_nat (f_ByteSizeExLiteral f)" "i_InstName (new_inst f t) = it_InstName t" "i_Opcode (new_inst f t) = it_Opcode t"
  "i_FormatType (new_inst f t) = f_FormatType f"
  by (simp_all add: new_inst_def Inst.defs DInst.defs NewInst_def)

lemma new_inst_ByteSize: "(new_inst SOP2_format t)\<lparr>i_Src0 := x, i_Src1 := y, i_Dst := z, i_ByteSize := 4\<rparr> = (new_inst SOP2_format t)\<lparr>i_Src0 := x, i_Src1 := y, i_Dst := z\<rparr>"
  by (simp add: new_inst_def Inst.defs DInst.defs NewInst_def SOP2_format_def fmt_def)

lemma SOP2_format_simps [simp]: "f_FormatType SOP2_format = SOP2" "f_ByteSizeExLiteral SOP2_format = 4" "f_OpcodeLow SOP2_format = 23" "f_OpcodeHigh SOP2_format = 29"
  by (simp_all add: SOP2_format_def fmt_def)

lemma Decode_SOP2_word:
  assumes "formatList_ok fl" "opc < 44" "d \<le> 101" "b \<le> 101" "a \<le> 101"
  obtains t where "lookUp SOP2 opc = Some t" "it_Opcode t = opc" "Decode fl (Uint32ToBytes (sop2_word opc d b a) @ rest) = okD (sop2_decoded t d b a)"
proof -
  let ?w = "sop2_word opc d b a" and ?buf = "Uint32ToBytes (sop2_word opc d b a) @ rest"
  have m: "matchFormat fl ?w = Some SOP2_format" using assms by (intro matchFormat_SOP2) simp_all
  note F = sop2_word_fields [of opc d b a]
  have r: "retrieveOpcode SOP2_format ?w = opc" using F(4) assms by (simp add: retrieveOpcode_def field_def)
  obtain t where t: "lookUp SOP2 opc = Some t" "it_Opcode t = opc" using sop2_types assms(2) by (auto simp: list_all_iff dest!: bspec [of _ _ opc])
  have f: "field ?w 0 7 = a" "field ?w 8 15 = b" "field ?w 16 22 = d" using F assms by simp_all
  have "decodeSOP2 (new_inst SOP2_format t) ?buf = okD (sop2_decoded t d b a)"
    using assms by (simp add: decodeSOP2_def word_at_0 f Let_def sop2_decoded_def new_inst_ByteSize)
  then have "Decode fl ?buf = okD (sop2_decoded t d b a)" by (simp add: Decode_def decode_switch_def word_at_0 m r t)
  then show ?thesis by (rule that [OF t])
qed

text \<open>An instruction whose operands have no register count runs like one with the count 1.\<close>

lemma nregs_01: "ReadReg (Regs (S i)) 0 lane wv = ReadReg (Regs (S i)) 1 lane wv" "WriteReg (Regs (S i)) 0 lane bs wv = WriteReg (Regs (S i)) 1 lane bs wv"
  by (simp_all add: ReadReg_def WriteReg_def reg_bytes_def Let_def)

lemma execute_no_count:
  assumes "i_FormatType inst = SOP2" "i_Opcode inst = opc" "i_Src0 inst = Some (NewSRegOperand a 0)" "i_Src1 inst = Some (NewSRegOperand b 0)"
    "i_Dst inst = Some (NewSRegOperand d 0)"
  shows "executeInst flt mp inst s = executeInst flt mp (sop2_inst opc d a b) s"
proof -
  have r: "readOperand (Some (NewSRegOperand i 0)) = readOperand (Some (NewSRegOperand i 1))" for i
    by (intro ext) (simp add: readOperand_def NewSRegOperand_def nregs_01)
  have w: "writeOperand (Some (NewSRegOperand i 0)) = writeOperand (Some (NewSRegOperand i 1))" for i
    by (intro ext) (simp add: NewSRegOperand_def nregs_01)
  have "Prepare inst = Prepare (sop2_inst opc d a b)" by (intro ext) (simp add: Prepare_def prepareSOP2_def assms r)
  moreover have "Commit inst = Commit (sop2_inst opc d a b)" by (intro ext) (simp add: Commit_def commitSOP2_def assms w)
  moreover have "ALU_Run flt mp inst = ALU_Run flt mp (sop2_inst opc d a b)" by (intro ext) (simp add: ALU_Run_def assms)
  ultimately show ?thesis by (simp add: executeInst_def)
qed

section \<open>Programs in memory\<close>

text \<open>A word at an address, followed by four more bytes that can be read.\<close>

definition code_at :: "'m memory_port \<Rightarrow> u32 \<Rightarrow> 'm \<Rightarrow> u64 \<Rightarrow> u32 \<Rightarrow> bool" where
  "code_at mp pid m pc w \<longleftrightarrow> (\<exists>rest. length rest = 4 \<and> mp_Read mp pid pc 8 m = Inr (Uint32ToBytes w @ rest, m))"

lemma truncate_simps [simp]:
  "i_FormatType (Inst.truncate x) = i_FormatType x" "i_Opcode (Inst.truncate x) = i_Opcode x" "i_ByteSize (Inst.truncate x) = i_ByteSize x"
  "i_Src0 (Inst.truncate x) = i_Src0 x" "i_Src1 (Inst.truncate x) = i_Src1 x" "i_Dst (Inst.truncate x) = i_Dst x"
  by (simp_all add: Inst.defs)

lemma run_SOP2_word:
  assumes "formatList_ok fl" "opc < 44" "d \<le> 101" "b \<le> 101" "a \<le> 101" "code_at mp (wf_pid (es_wf s)) (es_mem s) (wf_PC (es_wf s)) (sop2_word opc d b a)"
    "\<And>t. lookUp SOP2 opc = Some t \<Longrightarrow> \<not> str_contains ''64'' (it_InstName t)"
  shows "runWfUntilBarrier (Suc n) (decoder fl) flt mp s =
    bindR (executeInst flt mp (sop2_inst opc d a b) (s\<lparr>es_wf := (es_wf s)\<lparr>wf_PC := wf_PC (es_wf s) + 4\<rparr>\<rparr>)) (runWfUntilBarrier n (decoder fl) flt mp)"
proof -
  obtain rest where rd: "mp_Read mp (wf_pid (es_wf s)) (wf_PC (es_wf s)) 8 (es_mem s) = Inr (Uint32ToBytes (sop2_word opc d b a) @ rest, es_mem s)"
    using assms(6) by (auto simp: code_at_def)
  obtain t where t: "lookUp SOP2 opc = Some t" "it_Opcode t = opc" "Decode fl (Uint32ToBytes (sop2_word opc d b a) @ rest) = okD (sop2_decoded t d b a)"
    by (rule Decode_SOP2_word [OF assms(1-5)])
  let ?i = "Inst.truncate (sop2_decoded t d b a)"
  have dec: "decoder fl (Uint32ToBytes (sop2_word opc d b a) @ rest) = Some ?i" by (simp add: decoder_def t(3) okD_def)
  have i: "i_FormatType ?i = SOP2" "i_Opcode ?i = opc" "i_ByteSize ?i = 4" "i_Src0 ?i = Some (NewSRegOperand a 0)" "i_Src1 ?i = Some (NewSRegOperand b 0)"
    "i_Dst ?i = Some (NewSRegOperand d 0)" using assms(7) [OF t(1)] t(2) by (simp_all add: sop2_decoded_def Let_def)
  show ?thesis using rd by (simp add: dec Let_def i execute_no_count [OF i(1,2,4-6)] del: truncate_simps)
qed

text \<open>\<^verbatim>\<open>s_endpgm\<close>.\<close>

definition endpgm_word :: u32 where
  "endpgm_word = 0xBF810000"

definition SOPP_format :: Format where
  "SOPP_format = fmt SOPP ''sopp'' 0xBF800000 0xFF800000 4 16 22"

definition endpgm_type :: InstType where
  "endpgm_type = it ''s_endpgm'' 1 ExeUnitSpecial 32 32 32 0 0"

lemma endpgm_match: "matchFormat initFormatList endpgm_word = Some SOPP_format" "retrieveOpcode SOPP_format endpgm_word = Suc 0"
  "lookUp SOPP (Suc 0) = Some endpgm_type"
  by code_simp+

lemma SOPP_simps [simp]: "f_FormatType SOPP_format = SOPP" "f_ByteSizeExLiteral SOPP_format = 4" "it_Opcode endpgm_type = Suc 0"
  by (simp_all add: SOPP_format_def fmt_def endpgm_type_def it_def)

section \<open>Properties\<close>

text \<open>
  Claim C25. Decoding inverts the encoding of scalar instructions with two operands: the four bytes of opcode, destination and sources decode, with
  anything behind them, to the instruction with these operands, whose registers are pairs exactly for the 64-bit instructions.
\<close>

theorem SOP2_encode_decode:
  assumes "formatList_ok fl" "opc < 44" "d \<le> 101" "b \<le> 101" "a \<le> 101"
  shows "\<exists>t. lookUp SOP2 opc = Some t \<and> it_Opcode t = opc \<and> Decode fl (Uint32ToBytes (sop2_word opc d b a) @ rest) = okD (sop2_decoded t d b a)"
  by (rule Decode_SOP2_word [OF assms, where rest = rest]) blast

theorem SOP2_encode_decode_witness:
  "\<exists>t. lookUp SOP2 13 = Some t \<and> Decode initFormatList (Uint32ToBytes (sop2_word 13 4 2 0)) = okD (sop2_decoded t 4 2 0)"
  using SOP2_encode_decode [OF initFormatList_ok, where opc = 13 and d = 4 and b = 2 and a = 0 and rest = "[]"] by auto

lemma run_endpgm:
  assumes "formatList_ok fl" "code_at mp (wf_pid (es_wf s)) (es_mem s) (wf_PC (es_wf s)) endpgm_word"
  shows "runWfUntilBarrier (Suc n) (decoder fl) flt mp s = Inr (s\<lparr>es_wf := (es_wf s)\<lparr>wf_PC := wf_PC (es_wf s) + 4, wf_Completed := True\<rparr>\<rparr>)"
proof -
  obtain rest where rd: "mp_Read mp (wf_pid (es_wf s)) (wf_PC (es_wf s)) 8 (es_mem s) = Inr (Uint32ToBytes endpgm_word @ rest, es_mem s)"
    using assms(2) by (auto simp: code_at_def)
  let ?i = "(new_inst SOPP_format endpgm_type)\<lparr>i_SImm16 := Some (IntOperand (ucast (extractBits endpgm_word 0 15)))\<rparr>"
  have "Decode fl (Uint32ToBytes endpgm_word @ rest) = okD ?i"
    by (simp add: Decode_def decode_switch_def word_at_0 matchFormat_order [OF assms(1)] endpgm_match Let_def decodeSOPP_def)
  then have dec: "decoder fl (Uint32ToBytes endpgm_word @ rest) = Some (Inst.truncate ?i)" by (simp add: decoder_def okD_def)
  have i: "i_FormatType (Inst.truncate ?i) = SOPP" "i_Opcode (Inst.truncate ?i) = 1" "i_ByteSize (Inst.truncate ?i) = 4" by simp_all
  show ?thesis using rd by (simp add: dec Let_def i del: truncate_simps)
qed

lemma plain_names: "\<not> str_contains ''64'' (it_InstName (the (lookUp SOP2 0)))" "\<not> str_contains ''64'' (it_InstName (the (lookUp SOP2 4)))"
  by code_simp+

text \<open>
  Claim C7. From bytes to effect: a wavefront whose program counter points at the encoding of \<^verbatim>\<open>S_ADD_U32\<close>, \<^verbatim>\<open>S_ADDC_U32\<close> and \<^verbatim>\<open>S_ENDPGM\<close> on register
  pairs, where the low destination register is not the high register of a source pair (which the second instruction still has to read), runs to its
  end in three steps of fetching, decoding and executing. It never panics, the destination pair has the 64-bit sum, the program counter is behind
  the program; SCC, which the second addition sets, is left open, and the other scalar registers, the vector registers, VCC, EXEC, local
  and global memory are as before.
\<close>

theorem add64_program_runs:
  fixes s :: "'m emu_state"
  assumes "formatList_ok fl" "wf_ok (es_wf s)" "d + 1 < 102" "a + 1 < 102" "b + 1 < 102" "d \<noteq> a + 1" "d \<noteq> b + 1"
    "code_at mp (wf_pid (es_wf s)) (es_mem s) (wf_PC (es_wf s)) (sop2_word 0 d b a)"
    "code_at mp (wf_pid (es_wf s)) (es_mem s) (wf_PC (es_wf s) + 4) (sop2_word 4 (d + 1) (b + 1) (a + 1))"
    "code_at mp (wf_pid (es_wf s)) (es_mem s) (wf_PC (es_wf s) + 8) endpgm_word"
  shows "\<exists>s' f c sp. runWfUntilBarrier (n + 3) (decoder fl) flt mp s = Inr s' \<and>
    s' = s\<lparr>es_wf := (es_wf s)\<lparr>wf_PC := wf_PC (es_wf s) + 12, wf_Completed := True, wf_SRegFile := f, wf_SCC := c, wf_scratchpad := sp\<rparr>\<rparr> \<and>
    sreg64 (es_wf s') d = sreg64 (es_wf s) a + sreg64 (es_wf s) b \<and>
    (\<forall>i < 102. i \<noteq> d \<and> i \<noteq> d + 1 \<longrightarrow> sreg (es_wf s') i = sreg (es_wf s) i)"
proof -
  let ?pc = "wf_PC (es_wf s)"
  let ?v = "sreg (es_wf s) a + sreg (es_wf s) b" and ?c = "flag (2 ^ 32 \<le> unat (sreg (es_wf s) a) + unat (sreg (es_wf s) b))"
  define s1 where "s1 = s\<lparr>es_wf := (es_wf s)\<lparr>wf_PC := ?pc + 4\<rparr>\<rparr>"
  have ok1: "wf_ok (es_wf s1)" using assms(2) by (simp add: s1_def)
  have r1: "sreg (es_wf s1) i = sreg (es_wf s) i" for i by (simp add: s1_def sreg_def)
  have step1: "runWfUntilBarrier (Suc (Suc (Suc n))) (decoder fl) flt mp s =
      bindR (executeInst flt mp (sop2_inst 0 d a b) s1) (runWfUntilBarrier (Suc (Suc n)) (decoder fl) flt mp)"
    unfolding s1_def using assms plain_names(1) by (intro run_SOP2_word) simp_all
  obtain t where t: "executeInst flt mp (sop2_inst 0 d a b) s1 = Inr t" "swrite d ?v ?c s1 t"
    using execute_s_add [OF ok1, of d a b flt mp] assms(3-5) unfolding r1 by auto
  obtain f1 sp1 where t': "t = s1\<lparr>es_wf := (es_wf s1)\<lparr>wf_SRegFile := f1, wf_SCC := ?c, wf_scratchpad := sp1\<rparr>\<rparr>" by (rule swrite_frame [OF t(2)])
  define t1 where "t1 = t\<lparr>es_wf := (es_wf t)\<lparr>wf_PC := ?pc + 8\<rparr>\<rparr>"
  have ok2: "wf_ok (es_wf t1)" using t(2) by (simp add: t1_def swrite_def)
  have r2: "sreg (es_wf t1) i = sreg (es_wf t) i" "wf_SCC (es_wf t1) = ?c" for i by (simp_all add: t1_def sreg_def t')
  have same: "wf_pid (es_wf t) = wf_pid (es_wf s)" "es_mem t = es_mem s" "wf_PC (es_wf t) = ?pc + 4" by (simp_all add: t' s1_def)
  have t1e: "t1 = t\<lparr>es_wf := (es_wf t)\<lparr>wf_PC := wf_PC (es_wf t) + 4\<rparr>\<rparr>" by (simp add: t1_def same add.assoc)
  have step2: "runWfUntilBarrier (Suc (Suc n)) (decoder fl) flt mp t =
      bindR (executeInst flt mp (sop2_inst 4 (d + 1) (a + 1) (b + 1)) t1) (runWfUntilBarrier (Suc n) (decoder fl) flt mp)"
    unfolding t1e by (rule run_SOP2_word [OF assms(1)]) (use assms(3-5,9) plain_names(2) in \<open>simp_all add: same\<close>)
  obtain u scc where u: "executeInst flt mp (sop2_inst 4 (d + 1) (a + 1) (b + 1)) t1 = Inr u"
    "swrite (d + 1) (sreg (es_wf t) (a + 1) + sreg (es_wf t) (b + 1) + ucast ?c) scc t1 u"
    using execute_s_addc [OF ok2 assms(3-5), of flt mp] unfolding r2 by blast
  obtain f2 sp2 where u': "u = t1\<lparr>es_wf := (es_wf t1)\<lparr>wf_SRegFile := f2, wf_SCC := scc, wf_scratchpad := sp2\<rparr>\<rparr>" by (rule swrite_frame [OF u(2)])
  let ?s' = "u\<lparr>es_wf := (es_wf u)\<lparr>wf_PC := ?pc + 12, wf_Completed := True\<rparr>\<rparr>"
  have usame: "wf_pid (es_wf u) = wf_pid (es_wf s)" "es_mem u = es_mem s" "wf_PC (es_wf u) = ?pc + 8" by (simp_all add: u' t1_def t' s1_def)
  have "?s' = u\<lparr>es_wf := (es_wf u)\<lparr>wf_PC := wf_PC (es_wf u) + 4, wf_Completed := True\<rparr>\<rparr>" by (simp add: usame add.assoc)
  then have "runWfUntilBarrier (Suc n) (decoder fl) flt mp u = Inr ?s'"
    using run_endpgm [OF assms(1), of mp u n flt] assms(10) by (simp only: usame)
  then have "runWfUntilBarrier (n + 3) (decoder fl) flt mp s = Inr ?s'" unfolding step1 step2 by (simp only: numeral_3_eq_3 add_Suc_right add_0_right step1 step2 t(1) u(1) bindR_simps)
  moreover have "?s' = s\<lparr>es_wf := (es_wf s)\<lparr>wf_PC := ?pc + 12, wf_Completed := True, wf_SRegFile := f2, wf_SCC := scc, wf_scratchpad := sp2\<rparr>\<rparr>"
    by (simp add: u' t1_def t' s1_def)
  moreover have r3: "sreg (es_wf ?s') i = sreg (es_wf u) i" "sreg64 (es_wf ?s') i = sreg64 (es_wf u) i" for i by (simp_all add: sreg_def sreg64_def)
  have vt: "sreg (es_wf t) i = (if i = d then ?v else sreg (es_wf s) i)" if "i < 102" for i using t(2) that by (simp add: swrite_def r1)
  have vu: "sreg (es_wf u) i = (if i = d + 1 then sreg (es_wf t) (a + 1) + sreg (es_wf t) (b + 1) + ucast ?c else sreg (es_wf t) i)" if "i < 102" for i
    using u(2) that by (simp add: swrite_def r2)
  have "sreg64 (es_wf u) d = sreg64 (es_wf s) a + sreg64 (es_wf s) b"
    using assms(3-7) add_halves [of "sreg (es_wf s) a" "sreg (es_wf s) b" "sreg (es_wf s) (a + 1)" "sreg (es_wf s) (b + 1)"]
    by (simp add: sreg64_def vu vt)
  then have "sreg64 (es_wf ?s') d = sreg64 (es_wf s) a + sreg64 (es_wf s) b" by (simp only: r3)
  moreover have "\<forall>i < 102. i \<noteq> d \<and> i \<noteq> d + 1 \<longrightarrow> sreg (es_wf ?s') i = sreg (es_wf s) i" by (simp only: r3) (simp add: vu vt)
  ultimately show ?thesis by blast
qed

text \<open>A memory that is a list of bytes, and the program in it.\<close>

definition list_port :: "byte list memory_port" where
  "list_port = \<lparr>mp_Read = (\<lambda>pid addr n m. if unat addr + unat n \<le> length m then Inr (take (unat n) (drop (unat addr) m), m) else Inl IndexOutOfRange),
     mp_Write = (\<lambda>pid addr bs m. if unat addr + length bs \<le> length m then Inr (copy_at m (unat addr) bs) else Inl IndexOutOfRange)\<rparr>"

definition add64_bytes :: "byte list" where
  "add64_bytes = Uint32ToBytes (sop2_word 0 4 2 0) @ Uint32ToBytes (sop2_word 4 5 3 1) @ Uint32ToBytes endpgm_word @ replicate 4 0"

lemma add64_code:
  "code_at list_port pid add64_bytes 0 (sop2_word 0 4 2 0)" "code_at list_port pid add64_bytes 4 (sop2_word 4 5 3 1)"
  "code_at list_port pid add64_bytes 8 endpgm_word"
  by (simp_all add: code_at_def list_port_def add64_bytes_def)

theorem add64_program_runs_witness:
  "\<exists>s'. runWfUntilBarrier 3 (decoder initFormatList) fl0 list_port \<lparr>es_wf = NewWavefront, es_lds = [], es_mem = add64_bytes\<rparr> = Inr s' \<and>
     wf_Completed (es_wf s') \<and> wf_PC (es_wf s') = 12 \<and> es_mem s' = add64_bytes"
proof -
  let ?s = "\<lparr>es_wf = NewWavefront, es_lds = [], es_mem = add64_bytes\<rparr>"
  have pc: "wf_PC (es_wf ?s) = 0" by (simp add: NewWavefront_def)
  show ?thesis using add64_program_runs [OF initFormatList_ok, where s = ?s and d = 4 and a = 0 and b = 2 and mp = list_port and n = 0 and flt = fl0] add64_code pc
    by auto
qed

section \<open>How many bytes an instruction takes\<close>

text \<open>The size of an instruction and what the buffer has, after at most \<open>k\<close> more words.\<close>

definition grows :: "nat \<Rightarrow> byte list \<Rightarrow> u64 \<Rightarrow> u64 \<Rightarrow> bool" where
  "grows k buf n n' \<longleftrightarrow> (\<exists>j\<le>k. n' = n + 4 * of_nat j \<and> (0 < j \<longrightarrow> 8 \<le> length buf))"

lemma bindD_eq_okD: "bindD m f = okD y \<longleftrightarrow> (\<exists>x. m = okD x \<and> f x = okD y)"
  by (cases m rule: sum.exhaust [case_product sum.exhaust [of "projr m"]]) (auto simp: bindD_def okD_def)

lemma okD_neq [simp]: "Inl p \<noteq> okD x" "Inr (Inl e) \<noteq> okD x" "okD x \<noteq> Inl p" "okD x \<noteq> Inr (Inl e)"
  by (simp_all add: okD_def)

lemma growsI: "grows k buf n n" "grows j buf n n' \<Longrightarrow> 8 \<le> length buf \<Longrightarrow> grows (Suc j) buf n (n' + 4)" "grows j buf n n' \<Longrightarrow> j \<le> k \<Longrightarrow> grows k buf n n'"
  by (auto simp: grows_def intro: exI [of _ 0] exI [of _ "Suc _"]) (metis order_trans)

lemma literal_grows: "literal buf op n = okD (op', n') \<Longrightarrow> grows 1 buf n n'"
  by (auto simp: literal_def bindD_eq_okD grows_def split: option.splits Operand.splits if_splits intro: exI [of _ 0] exI [of _ 1])

lemma grows_trans:
  assumes "grows j buf n n'" "grows k buf n' n''"
  shows "grows (j + k) buf n n''"
proof -
  obtain x y where "x \<le> j" "n' = n + 4 * of_nat x" "0 < x \<longrightarrow> 8 \<le> length buf" "y \<le> k" "n'' = n' + 4 * of_nat y" "0 < y \<longrightarrow> 8 \<le> length buf"
    using assms by (auto simp: grows_def)
  then show ?thesis unfolding grows_def by (intro exI [of _ "x + y"]) (auto simp: algebra_simps)
qed

lemma grows_2: "grows (Suc 0) buf n n' \<Longrightarrow> grows (Suc 0) buf n' n'' \<Longrightarrow> grows 2 buf n n''"
  using grows_trans [of 1 buf n n' 1 n''] by (simp add: numeral_2_eq_2)

lemma grows_cases: "grows 2 buf n n' \<Longrightarrow> n' = n \<or> 8 \<le> length buf \<and> (n' = n + 4 \<or> n' = n + 8)"
  by (auto simp: grows_def le_Suc_eq numeral_2_eq_2)

lemma getOperand_literal: "getOperand n = Some (LiteralConstant v) \<Longrightarrow> n = 255"
  by (auto simp: getOperand_def NewSRegOperand_def NewRegOperand_def NewVRegOperand_def split: if_splits)

text \<open>The parts of a decoder that leave the size alone.\<close>

lemma sizes:
  "decodeSOP2 inst buf = okD inst' \<Longrightarrow> grows 2 buf (i_ByteSize inst) (i_ByteSize inst')"
  "decodeSOPC inst buf = okD inst' \<Longrightarrow> grows 2 buf (i_ByteSize inst) (i_ByteSize inst')"
  "decodeSOP1 inst buf = okD inst' \<Longrightarrow> grows 1 buf (i_ByteSize inst) (i_ByteSize inst')"
  "decodeVOP1 inst buf = okD inst' \<Longrightarrow> grows 1 buf (i_ByteSize inst) (i_ByteSize inst')"
  "decodeVOPC inst buf = okD inst' \<Longrightarrow> grows 1 buf (i_ByteSize inst) (i_ByteSize inst')"
  by (auto simp: decodeSOP2_def decodeSOPC_def decodeSOP1_def decodeVOP1_def decodeVOPC_def bindD_eq_okD Let_def dest!: literal_grows intro: grows_2)

lemma size_FLAT: "decodeFLAT inst buf = okD inst' \<Longrightarrow> i_ByteSize inst' = i_ByteSize inst"
  by (auto simp only: decodeFLAT_def bindD_eq_okD Let_def okD_simps) simp

lemma size_SOPK: "decodeSOPK inst buf = okD inst' \<Longrightarrow> i_ByteSize inst' = i_ByteSize inst"
  by (auto simp only: decodeSOPK_def bindD_eq_okD okD_simps) simp

lemma size_SOPP: "decodeSOPP inst buf = okD inst' \<Longrightarrow> i_ByteSize inst' = i_ByteSize inst"
proof -
  assume "decodeSOPP inst buf = okD inst'"
  then obtain w where w: "(let imm = extractBits w 0 15; inst = inst\<lparr>i_SImm16 := Some (IntOperand (ucast imm))\<rparr> in
     if i_Opcode inst = 12 then okD (inst\<lparr>d_VMCNT := field imm 0 3, d_LKGMCNT := field imm 8 12\<rparr>) else okD inst) = okD inst'"
    unfolding decodeSOPP_def bindD_eq_okD by blast
  show ?thesis
  proof (cases "i_Opcode inst = 12")
    case True
    then have "inst' = inst\<lparr>i_SImm16 := Some (IntOperand (ucast (extractBits w 0 15))), d_VMCNT := field (extractBits w 0 15) 0 3, d_LKGMCNT := field (extractBits w 0 15) 8 12\<rparr>"
      using w by (simp add: Let_def)
    then show ?thesis by simp
  next
    case False
    then have "inst' = inst\<lparr>i_SImm16 := Some (IntOperand (ucast (extractBits w 0 15)))\<rparr>" using w by (simp add: Let_def)
    then show ?thesis by simp
  qed
qed

lemmas sizes_same = size_FLAT size_SOPK size_SOPP

lemma size_DS: "decodeDS inst buf = okD inst' \<Longrightarrow> i_ByteSize inst' = i_ByteSize inst"
proof -
  assume "decodeDS inst buf = okD inst'"
  then obtain lo hi where "inst' =
    (let inst = (combineDSOffsets (inst\<lparr>i_Offset0 := extractBits lo 0 7, i_Offset1 := extractBits lo 8 15\<rparr>))
           \<lparr>d_GDS := extractBit lo 16 \<noteq> 0, i_Addr := Some (NewVRegOperand (field hi 0 7) 1)\<rparr>;
         inst = (if 0 < d_SRC0Width inst then inst\<lparr>i_Data := Some (NewVRegOperand (field hi 8 15) (if d_SRC0Width inst = 64 then 2 else 1))\<rparr> else inst);
         inst = (if 0 < d_SRC1Width inst then inst\<lparr>i_Data1 := Some (NewVRegOperand (field hi 16 23) (if d_SRC1Width inst = 64 then 2 else 1))\<rparr> else inst);
         inst = (if 0 < d_DSTWidth inst
                 then inst\<lparr>i_Dst := Some (NewVRegOperand (field hi 24 31) (if d_DSTWidth inst = 64 then 2 else if d_DSTWidth inst = 128 then 4 else 1))\<rparr> else inst)
     in inst)" by (auto simp only: decodeDS_def bindD_eq_okD Let_def okD_simps)
  then show ?thesis by (simp add: Let_def combineDSOffsets_def)
qed

lemma size_VOP3b: "decodeVOP3b inst buf = okD inst' \<Longrightarrow> i_ByteSize inst' = i_ByteSize inst"
  by (auto simp only: decodeVOP3b_def bindD_eq_okD okD_simps) simp

lemma size_VOP3a: "decodeVOP3a inst buf = okD inst' \<Longrightarrow> i_ByteSize inst' = i_ByteSize inst"
  by (auto simp only: decodeVOP3a_def bindD_eq_okD Let_def okD_simps) (simp add: parseNeg_def parseAbs_def)

lemma size_SMEM: "decodeSMEM inst buf = okD inst' \<Longrightarrow> i_ByteSize inst' = i_ByteSize inst"
proof -
  assume "decodeSMEM inst buf = okD inst'"
  then obtain lo op n where l: "literal buf (getOperand (field lo 6 12)) (i_ByteSize inst) = okD (op, n)" "i_ByteSize inst' = n"
    by (auto simp: decodeSMEM_def bindD_eq_okD Let_def)
  have "field lo 6 12 < 128" using field_less [of 6 12 lo] by simp
  then have "getOperand (field lo 6 12) \<noteq> Some (LiteralConstant v)" for v using getOperand_literal [of "field lo 6 12" v] by auto
  then show ?thesis using l by (auto simp: literal_def split: option.splits Operand.splits)
qed

lemma word_at_length: "word_at off buf = okD v \<Longrightarrow> off + 4 \<le> length buf"
  by (auto simp: word_at_def slice_range_def okD_def split: if_splits)

lemma sdwa_size: "decode_sdwa inst buf = okD inst' \<Longrightarrow> 8 \<le> length buf \<and> i_ByteSize inst' = i_ByteSize inst + 4 \<and> (\<exists>r. i_Src0 inst' = Some (NewVRegOperand r 0))"
  by (auto simp: decode_sdwa_def bindD_eq_okD split: if_split_asm)

lemma size_VOP2: "decodeVOP2 inst buf = okD inst' \<Longrightarrow> grows 2 buf (i_ByteSize inst) (i_ByteSize inst')"
proof -
  assume "decodeVOP2 inst buf = okD inst'"
  then obtain w inst1 src0 n where i: "(if field w 0 8 = 249 then decode_sdwa inst buf else okD (inst\<lparr>i_Src0 := getOperand (field w 0 8)\<rparr>)) = okD inst1"
    and l: "literal buf (i_Src0 inst1) (i_ByteSize inst1) = okD (src0, n)"
    and e: "(let inst = inst1\<lparr>i_Src0 := src0, i_ByteSize := n, i_Src1 := Some (NewVRegOperand (field w 9 16) 0), i_Dst := Some (NewVRegOperand (field w 17 24) 0)\<rparr> in
     if i_Opcode inst \<in> set [24, 37]
     then bindD (word_at 4 buf) (\<lambda>v. okD (inst\<lparr>d_Imm := True, i_ByteSize := i_ByteSize inst + 4, i_Src2 := Some (LiteralConstant v)\<rparr>))
     else okD inst) = okD inst'"
    unfolding decodeVOP2_def bindD_eq_okD by fast
  have last: "grows (Suc 0) buf n (i_ByteSize inst')"
  proof (cases "i_Opcode inst1 \<in> set [24, 37]")
    case True
    then obtain v where v: "word_at 4 buf = okD v" "i_ByteSize inst' = n + 4" using e by (auto simp: Let_def bindD_eq_okD)
    then show ?thesis using growsI(2) [OF growsI(1) [of 0 buf n]] word_at_length [OF v(1)] by simp
  next
    case False
    then have "i_ByteSize inst' = n" using e by (auto simp: Let_def)
    then show ?thesis by (simp add: growsI(1))
  qed
  have "grows (Suc 0) buf (i_ByteSize inst) n"
  proof (cases "field w 0 8 = 249")
    case True
    then have s: "8 \<le> length buf" "i_ByteSize inst1 = i_ByteSize inst + 4" "\<exists>r. i_Src0 inst1 = Some (NewVRegOperand r 0)" using i sdwa_size by auto
    then have "n = i_ByteSize inst + 4" using l by (auto simp: literal_def NewVRegOperand_def)
    then show ?thesis using growsI(2) [OF growsI(1) [of 0 buf "i_ByteSize inst"]] s(1) by simp
  next
    case False
    then have "i_ByteSize inst1 = i_ByteSize inst" using i by auto
    then show ?thesis using literal_grows [OF l] by simp
  qed
  then show ?thesis using last by (rule grows_2)
qed

lemma grows_1_2: "grows 1 buf n n' \<Longrightarrow> grows 2 buf n n'"
  by (rule growsI(3), assumption, linarith)

lemmas sizes_12 = sizes(1,2) sizes(3-5) [THEN grows_1_2]

text \<open>
  Claim C33. An instruction that is decoded takes 4, 8 or 12 bytes, and one that takes more than 4 was read from a buffer with the 8 bytes that hold
  it; only the formats with four bytes grow. So the program counter always moves on.
\<close>

theorem Decode_size:
  assumes "formatList_ok fl" "Decode fl buf = okD inst"
  shows "i_ByteSize inst \<in> {4, 8, 12} \<and> (i_ByteSize inst = 4 \<or> 8 \<le> length buf)"
proof -
  obtain w f t where w: "matchFormat fl w = Some f" "f_ByteSizeExLiteral f \<le> length buf"
    and d: "decode_switch f (new_inst f t) buf = okD inst"
  proof -
    obtain w where w: "(case matchFormat fl w of
         None \<Rightarrow> Inr (Inl ''cannot find the instruction format, first two bytes are '')
       | Some f \<Rightarrow>
           (case lookUp (f_FormatType f) (retrieveOpcode f w) of
              None \<Rightarrow> Inr (Inl ''not found'')
            | Some t \<Rightarrow> if length buf < f_ByteSizeExLiteral f then Inr (Inl ''no enough buffer'') else decode_switch f (new_inst f t) buf)) = okD inst"
      using assms(2) unfolding Decode_def bindD_eq_okD by blast
    then obtain f where f: "matchFormat fl w = Some f" by (cases "matchFormat fl w") auto
    then obtain t where t: "lookUp (f_FormatType f) (retrieveOpcode f w) = Some t" using w by (cases "lookUp (f_FormatType f) (retrieveOpcode f w)") auto
    show ?thesis using w by (intro that [OF f, of t]) (simp_all add: f t split: if_split_asm)
  qed
  have "matchFormat initFormatList w = Some f" using w(1) by (simp add: matchFormat_order [OF assms(1)])
  then have "f \<in> set FormatTable"
    by (auto simp: matchFormat_find initFormatList_def find_Some_iff VOP3b_format_def FormatTable_def split: if_splits)
  then have sz: "(f_FormatType f, f_ByteSizeExLiteral f) \<in> set (map (\<lambda>f. (f_FormatType f, f_ByteSizeExLiteral f)) FormatTable)" by simp
  have g: "f_ByteSizeExLiteral f = 4 \<and> grows 2 buf 4 (i_ByteSize inst) \<or> f_ByteSizeExLiteral f = 8 \<and> i_ByteSize inst = 8"
    using sz d by (auto simp: FormatTable_def fmt_def decode_switch_def dest!: sizes_12 size_VOP2 sizes_same size_SMEM size_DS size_VOP3a size_VOP3b simp: growsI(1))
  then show ?thesis using w(2) grows_cases [of buf 4 "i_ByteSize inst"] by auto
qed

theorem Decode_size_witness:
  "\<exists>inst. Decode initFormatList (Uint32ToBytes (sop2_word 0 4 2 0)) = okD inst \<and> i_ByteSize inst \<in> {4, 8, 12}"
proof -
  obtain t where "Decode initFormatList (Uint32ToBytes (sop2_word 0 4 2 0) @ []) = okD (sop2_decoded t 4 2 0)"
    by (rule Decode_SOP2_word [OF initFormatList_ok, of 0 4 2 0 "[]"]) simp_all
  then show ?thesis using Decode_size [OF initFormatList_ok, of "Uint32ToBytes (sop2_word 0 4 2 0)" "sop2_decoded t 4 2 0"] by auto
qed

section \<open>Two errors\<close>

lemma literal_255: "getOperand 255 = Some (LiteralConstant 0)"
  by (simp add: getOperand_def)

text \<open>
  Claim C37. A scalar instruction whose two sources are both the literal constant: the instruction has two words, and both sources get the value of the
  second, but the decoder counts that word twice and gives the size 12, so the emulator skips the instruction that follows.
\<close>

theorem shared_literal_counted_twice:
  assumes "formatList_ok fl" "opc < 44" "d \<le> 101"
  shows "\<exists>inst. Decode fl (Uint32ToBytes (sop2_word opc d 255 255) @ Uint32ToBytes v @ rest) = okD inst \<and>
    i_Src0 inst = Some (LiteralConstant v) \<and> i_Src1 inst = Some (LiteralConstant v) \<and> i_ByteSize inst = 12"
proof -
  let ?w = "sop2_word opc d 255 255" and ?buf = "Uint32ToBytes (sop2_word opc d 255 255) @ Uint32ToBytes v @ rest"
  have m: "matchFormat fl ?w = Some SOP2_format" using assms by (intro matchFormat_SOP2) simp_all
  note F = sop2_word_fields [of opc d 255 255]
  have r: "retrieveOpcode SOP2_format ?w = opc" using F(4) assms by (simp add: retrieveOpcode_def field_def)
  obtain t where t: "lookUp SOP2 opc = Some t" using sop2_types assms(2) by (auto simp: list_all_iff dest!: bspec [of _ _ opc])
  have f: "field ?w 0 7 = 255" "field ?w 8 15 = 255" "field ?w 16 22 = d" using F assms by simp_all
  have l: "literal ?buf (Some (LiteralConstant 0)) n = okD (Some (LiteralConstant v), n + 4)" for n by (simp add: literal_def word_at_4)
  have c: "RegCount_if b n (Some (LiteralConstant v)) = okD (Some (LiteralConstant v))" for b n by (simp add: RegCount_if_def RegCount_def)
  have "Decode fl ?buf = decodeSOP2 (new_inst SOP2_format t) ?buf" by (simp add: Decode_def decode_switch_def word_at_0 m r t)
  then show ?thesis using assms(3) by (simp add: decodeSOP2_def word_at_0 f literal_255 l c Let_def)
qed

theorem shared_literal_counted_twice_witness:
  "\<exists>inst. Decode initFormatList (Uint32ToBytes (sop2_word 0 4 255 255) @ Uint32ToBytes 7) = okD inst \<and> i_ByteSize inst = 12"
  using shared_literal_counted_twice [OF initFormatList_ok, of 0 4 7 "[]"] by auto

text \<open>
  \<^verbatim>\<open>extractBit\<close> masks with the position instead of shifting to it, so the GDS flag of an LDS instruction is taken from bit 4, which belongs to the
  offset, and not from bit 16.
\<close>

lemma extractBit_16: "extractBit w 16 \<noteq> 0 \<longleftrightarrow> bit w 4"
proof -
  have "extractBit w 16 = w AND push_bit 4 1" by (simp add: extractBit_def push_bit_eq_mult)
  then show ?thesis by (simp only: bit_iff_and_push_bit_not_eq_0)
qed

lemma DS_gds_from_offset:
  assumes "decodeDS inst (Uint32ToBytes lo @ Uint32ToBytes hi @ rest) = okD inst'"
  shows "d_GDS inst' \<longleftrightarrow> bit lo 4"
proof -
  let ?i = "(combineDSOffsets (inst\<lparr>i_Offset0 := extractBits lo 0 7, i_Offset1 := extractBits lo 8 15\<rparr>))
           \<lparr>d_GDS := extractBit lo 16 \<noteq> 0, i_Addr := Some (NewVRegOperand (field hi 0 7) 1)\<rparr>"
  have "inst' =
    (let inst = ?i;
         inst = (if 0 < d_SRC0Width inst then inst\<lparr>i_Data := Some (NewVRegOperand (field hi 8 15) (if d_SRC0Width inst = 64 then 2 else 1))\<rparr> else inst);
         inst = (if 0 < d_SRC1Width inst then inst\<lparr>i_Data1 := Some (NewVRegOperand (field hi 16 23) (if d_SRC1Width inst = 64 then 2 else 1))\<rparr> else inst);
         inst = (if 0 < d_DSTWidth inst
                 then inst\<lparr>i_Dst := Some (NewVRegOperand (field hi 24 31) (if d_DSTWidth inst = 64 then 2 else if d_DSTWidth inst = 128 then 4 else 1))\<rparr> else inst)
     in inst)" using assms by (simp only: decodeDS_def word_at_0 word_at_4 Let_def okD_simps)
  then have "d_GDS inst' = d_GDS ?i" by (simp add: Let_def)
  then show ?thesis by (simp add: extractBit_16)
qed

end
