(* ===== verification/Grid_Builder.thy ===== *)
theory Grid_Builder
  imports Sim_World
begin

text \<open>
  How a kernel launch becomes work-groups and wavefronts (\<^verbatim>\<open>mgpusim/kernels/gridbuilder.go\<close> and \<^verbatim>\<open>grid.go\<close>). The builder walks over the
  grid, x first, and makes one work-group per call, with its work-items and its wavefronts of 64 work-items.

  Sizes in the packet have the widths of the dispatch packet, and the code turns them into \<^verbatim>\<open>int\<close> before it computes with them; only
  \<^verbatim>\<open>GridSizeX-1\<close> is computed in 32 bits. A work-item and a wavefront refer to their work-group by being part of it. The code object
  has a parametric type; the identifier generator is the sequential one.
\<close>

unbundle bit_operations_syntax

section \<open>Data\<close>

record HsaKernelDispatchPacket =
  pk_Header :: "16 word"
  pk_Setup :: "16 word"
  pk_WorkgroupSizeX :: "16 word"
  pk_WorkgroupSizeY :: "16 word"
  pk_WorkgroupSizeZ :: "16 word"
  pk_GridSizeX :: u32
  pk_GridSizeY :: u32
  pk_GridSizeZ :: u32
  pk_PrivateSegmentSize :: u32
  pk_GroupSegmentSize :: u32
  pk_KernelObject :: u64
  pk_KernargAddress :: u64
  pk_CompletionSignal :: u64

record WorkItem =
  wi_IDX :: int
  wi_IDY :: int
  wi_IDZ :: int

record 'c kernel_Wavefront =
  kw_UID :: string
  kw_CodeObject :: "'c option"
  kw_Packet :: "HsaKernelDispatchPacket option"
  kw_PacketAddress :: u64
  kw_FirstWiFlatID :: int
  kw_InitExecMask :: u64
  kw_WorkItems :: "WorkItem list"

record 'c WorkGroup =
  wg_UID :: string
  wg_CodeObject :: "'c option"
  wg_Packet :: "HsaKernelDispatchPacket option"
  wg_PacketAddress :: u64
  wg_SizeX :: int
  wg_SizeY :: int
  wg_SizeZ :: int
  wg_IDX :: int
  wg_IDY :: int
  wg_IDZ :: int
  wg_CurrSizeX :: int
  wg_CurrSizeY :: int
  wg_CurrSizeZ :: int
  wg_Wavefronts :: "'c kernel_Wavefront list"
  wg_WorkItems :: "WorkItem list"

definition WorkGroup0 :: "'c WorkGroup" where
  "WorkGroup0 = \<lparr>wg_UID = [], wg_CodeObject = None, wg_Packet = None, wg_PacketAddress = 0, wg_SizeX = 0, wg_SizeY = 0, wg_SizeZ = 0,
     wg_IDX = 0, wg_IDY = 0, wg_IDZ = 0, wg_CurrSizeX = 0, wg_CurrSizeY = 0, wg_CurrSizeZ = 0, wg_Wavefronts = [], wg_WorkItems = []\<rparr>"

definition NewWorkGroup :: "u64 \<Rightarrow> 'c WorkGroup \<times> u64" where
  "NewWorkGroup nextID = (let (ident, n) = sequentialIDGenerator_Generate nextID in (WorkGroup0\<lparr>wg_UID := ident\<rparr>, n))"

definition kernels_NewWavefront :: "u64 \<Rightarrow> 'c kernel_Wavefront \<times> u64" where
  "kernels_NewWavefront nextID =
     (let (ident, n) = sequentialIDGenerator_Generate nextID
      in (\<lparr>kw_UID = ident, kw_CodeObject = None, kw_Packet = None, kw_PacketAddress = 0, kw_FirstWiFlatID = 0, kw_InitExecMask = 0,
           kw_WorkItems = []\<rparr>, n))"

definition FlattenedID :: "'c WorkGroup \<Rightarrow> WorkItem \<Rightarrow> int" where
  "FlattenedID wg wi = wi_IDX wi + wi_IDY wi * wg_SizeX wg + wi_IDZ wi * wg_SizeX wg * wg_SizeY wg"

type_synonym 'c WGFilterFunc = "HsaKernelDispatchPacket \<Rightarrow> 'c WorkGroup \<Rightarrow> bool"

record 'c KernelLaunchInfo =
  li_CodeObject :: 'c
  li_Packet :: HsaKernelDispatchPacket
  li_PacketAddr :: u64
  li_WGFilter :: "'c WGFilterFunc option"

record 'c gridBuilder =
  gb_hsaco :: 'c
  gb_packet :: HsaKernelDispatchPacket
  gb_filter :: "'c WGFilterFunc option"
  gb_packetAddr :: u64
  gb_numWG :: int
  gb_xid :: int
  gb_yid :: int
  gb_zid :: int

section \<open>Counting work-groups\<close>

text \<open>\<^verbatim>\<open>int(GridSize-1)/int(WorkgroupSize) + 1\<close>.\<close>

definition num_in_dim :: "u32 \<Rightarrow> 16 word \<Rightarrow> int result" where
  "num_in_dim grid wg = (if wg = 0 then Inl DivideByZero else Inr (uint (grid - 1) div uint wg + 1))"

definition NumWGX :: "'c gridBuilder \<Rightarrow> int result" where
  "NumWGX b = num_in_dim (pk_GridSizeX (gb_packet b)) (pk_WorkgroupSizeX (gb_packet b))"

definition NumWGY :: "'c gridBuilder \<Rightarrow> int result" where
  "NumWGY b = num_in_dim (pk_GridSizeY (gb_packet b)) (pk_WorkgroupSizeY (gb_packet b))"

definition NumWG :: "'c gridBuilder \<Rightarrow> int" where
  "NumWG b = gb_numWG b"

definition countWG :: "'c gridBuilder \<Rightarrow> 'c gridBuilder result" where
  "countWG b =
     bindR (num_in_dim (pk_GridSizeX (gb_packet b)) (pk_WorkgroupSizeX (gb_packet b))) (\<lambda>x.
     bindR (num_in_dim (pk_GridSizeY (gb_packet b)) (pk_WorkgroupSizeY (gb_packet b))) (\<lambda>y.
     bindR (num_in_dim (pk_GridSizeZ (gb_packet b)) (pk_WorkgroupSizeZ (gb_packet b))) (\<lambda>z.
       case gb_filter b of
         None \<Rightarrow> Inr (b\<lparr>gb_numWG := x * y * z\<rparr>)
       | Some f \<Rightarrow>
           Inr (b\<lparr>gb_numWG := int (length
             [(i, j, k). i \<leftarrow> [0..<nat x], j \<leftarrow> [0..<nat y], k \<leftarrow> [0..<nat z],
                f (gb_packet b) (WorkGroup0\<lparr>wg_IDX := int i, wg_IDY := int j, wg_IDZ := int k\<rparr>)])\<rparr>))))"

definition SetKernel :: "'c KernelLaunchInfo \<Rightarrow> 'c gridBuilder result" where
  "SetKernel info =
     countWG \<lparr>gb_hsaco = li_CodeObject info, gb_packet = li_Packet info, gb_filter = li_WGFilter info, gb_packetAddr = li_PacketAddr info,
       gb_numWG = 0, gb_xid = 0, gb_yid = 0, gb_zid = 0\<rparr>"

section \<open>Making a work-group\<close>

definition spawnWorkItems :: "'c WorkGroup \<Rightarrow> 'c WorkGroup" where
  "spawnWorkItems wg =
     wg\<lparr>wg_WorkItems := wg_WorkItems wg @
       [\<lparr>wi_IDX = int x, wi_IDY = int y, wi_IDZ = int z\<rparr>.
          z \<leftarrow> [0..<nat (wg_CurrSizeZ wg)], y \<leftarrow> [0..<nat (wg_CurrSizeY wg)], x \<leftarrow> [0..<nat (wg_CurrSizeX wg)]]\<rparr>"

text \<open>The loop of \<^verbatim>\<open>formWavefronts\<close>; the variable \<^verbatim>\<open>wf\<close> points to the last wavefront of the list.\<close>

fun form_loop ::
    "'c gridBuilder \<Rightarrow> 'c WorkGroup \<Rightarrow> WorkItem list \<Rightarrow> 'c kernel_Wavefront list \<Rightarrow> u64 \<Rightarrow> ('c kernel_Wavefront list \<times> u64) result" where
  "form_loop b wg [] wfs nextID = Inr (wfs, nextID)"
| "form_loop b wg (wi # wis) wfs nextID =
     (let inWGID = wi_IDZ wi * wg_SizeX wg * wg_SizeY wg + wi_IDY wi * wg_SizeX wg + wi_IDX wi;
          (wfs, nextID) =
            (if inWGID mod 64 = 0
             then let (wf, n) = kernels_NewWavefront nextID
                  in (wfs @ [wf\<lparr>kw_FirstWiFlatID := FlattenedID wg wi, kw_CodeObject := Some (gb_hsaco b), kw_Packet := Some (gb_packet b),
                       kw_PacketAddress := gb_packetAddr b\<rparr>], n)
             else (wfs, nextID))
      in if wfs = [] then Inl NilDereference
         else let wf = last wfs
              in form_loop b wg wis
                   (butlast wfs @ [wf\<lparr>kw_WorkItems := kw_WorkItems wf @ [wi],
                      kw_InitExecMask := kw_InitExecMask wf OR push_bit (nat (inWGID mod 64)) 1\<rparr>]) nextID)"

definition formWavefronts :: "'c gridBuilder \<Rightarrow> 'c WorkGroup \<Rightarrow> u64 \<Rightarrow> ('c WorkGroup \<times> u64) result" where
  "formWavefronts b wg nextID =
     bindR (form_loop b wg (wg_WorkItems wg) (wg_Wavefronts wg) nextID) (\<lambda>(wfs, n). Inr (wg\<lparr>wg_Wavefronts := wfs\<rparr>, n))"

text \<open>The loop of \<^verbatim>\<open>NextWG\<close>: the next position that passes the filter.\<close>

partial_function (option) next_loop :: "'c gridBuilder \<Rightarrow> 'c WorkGroup \<Rightarrow> ('c WorkGroup option \<times> 'c gridBuilder) option" where
  [code]: "next_loop b wg =
     (let p = gb_packet b;
          xLeft = uint (pk_GridSizeX p) - gb_xid b * uint (pk_WorkgroupSizeX p);
          yLeft = uint (pk_GridSizeY p) - gb_yid b * uint (pk_WorkgroupSizeY p);
          zLeft = uint (pk_GridSizeZ p) - gb_zid b * uint (pk_WorkgroupSizeZ p)
      in if xLeft \<le> 0 \<or> yLeft \<le> 0 \<or> zLeft \<le> 0 then Some (None, b)
         else let xToAllocate = min xLeft (uint (pk_WorkgroupSizeX p));
                  yToAllocate = min yLeft (uint (pk_WorkgroupSizeY p));
                  zToAllocate = min zLeft (uint (pk_WorkgroupSizeZ p));
                  wg = wg\<lparr>wg_Packet := Some p, wg_CodeObject := Some (gb_hsaco b), wg_SizeX := uint (pk_WorkgroupSizeX p),
                    wg_SizeY := uint (pk_WorkgroupSizeY p), wg_SizeZ := uint (pk_WorkgroupSizeZ p),
                    wg_IDX := gb_xid b, wg_IDY := gb_yid b, wg_IDZ := gb_zid b,
                    wg_CurrSizeX := xToAllocate, wg_CurrSizeY := yToAllocate, wg_CurrSizeZ := zToAllocate\<rparr>;
                  b = (if xLeft - xToAllocate \<le> 0
                       then if yLeft - yToAllocate \<le> 0 then b\<lparr>gb_xid := 0, gb_yid := 0, gb_zid := gb_zid b + 1\<rparr>
                            else b\<lparr>gb_xid := 0, gb_yid := gb_yid b + 1\<rparr>
                       else b\<lparr>gb_xid := gb_xid b + 1\<rparr>)
              in case gb_filter b of
                   None \<Rightarrow> Some (Some wg, b)
                 | Some f \<Rightarrow> if f p wg then Some (Some wg, b) else next_loop b wg)"

definition NextWG :: "'c gridBuilder \<Rightarrow> u64 \<Rightarrow> ('c WorkGroup option \<times> 'c gridBuilder \<times> u64) result" where
  "NextWG b nextID =
     (let (wg, n) = NewWorkGroup nextID
      in case next_loop b wg of
           None \<Rightarrow> Inl Diverges
         | Some (None, b) \<Rightarrow> Inr (None, b, n)
         | Some (Some wg, b) \<Rightarrow>
             let wg = spawnWorkItems wg
             in bindR (formWavefronts b wg n) (\<lambda>(wg, n). Inr (Some wg, b, n)))"

text \<open>
  The filter the driver gives each GPU of a unified device (\<^verbatim>\<open>mgpusim/driver/driver.go\<close>): the work-groups are dealt out in turn.
\<close>

definition unified_filter :: "nat \<Rightarrow> nat \<Rightarrow> 'c WGFilterFunc" where
  "unified_filter numGPUs currentGPUIndex pkt wg =
     (let numWGX = (pk_GridSizeX pkt - 1) div ucast (pk_WorkgroupSizeX pkt) + 1;
          numWGY = (pk_GridSizeY pkt - 1) div ucast (pk_WorkgroupSizeY pkt) + 1;
          flattenedID = wg_IDZ wg * uint numWGX * uint numWGY + wg_IDY wg * uint numWGX + wg_IDX wg
      in flattenedID mod int numGPUs = int currentGPUIndex)"

text \<open>What the launch requests of a unified device carry to the grid builders of its GPUs.\<close>

definition unified_launches :: "'c \<Rightarrow> HsaKernelDispatchPacket \<Rightarrow> u64 \<Rightarrow> nat \<Rightarrow> 'c KernelLaunchInfo list" where
  "unified_launches hsaco pkt addr numGPUs =
     map (\<lambda>i. \<lparr>li_CodeObject = hsaco, li_Packet = pkt, li_PacketAddr = addr, li_WGFilter = Some (unified_filter numGPUs i)\<rparr>) [0..<numGPUs]"

end
