(* ===== verification/Grid_Coverage.thy ===== *)
theory Grid_Coverage
  imports Grid_Builder
begin

text \<open>
  The grid builder covers the grid. The walk of \<^verbatim>\<open>NextWG\<close> is a count through the positions of the grid of work-groups (\<^term>\<open>at_pos\<close>,
  \<^term>\<open>wg_at\<close>); with a filter it stops at the positions that pass. The work-items of the work-group at a position are those of the
  grid that the position owns, so a launch, and the launches of a unified device taken together, make every work-item of the grid exactly once.
\<close>

section \<open>The walk over the grid\<close>

text \<open>The sizes of a launch as numbers, and the number of work-groups in each direction.\<close>

definition groups :: "nat \<Rightarrow> nat \<Rightarrow> nat" where
  "groups g w = (g - 1) div w + 1"

definition groupsX :: "HsaKernelDispatchPacket \<Rightarrow> nat" where
  "groupsX p = groups (unat (pk_GridSizeX p)) (unat (pk_WorkgroupSizeX p))"

definition groupsY :: "HsaKernelDispatchPacket \<Rightarrow> nat" where
  "groupsY p = groups (unat (pk_GridSizeY p)) (unat (pk_WorkgroupSizeY p))"

definition groupsZ :: "HsaKernelDispatchPacket \<Rightarrow> nat" where
  "groupsZ p = groups (unat (pk_GridSizeZ p)) (unat (pk_WorkgroupSizeZ p))"

definition all_groups :: "HsaKernelDispatchPacket \<Rightarrow> nat" where
  "all_groups p = groupsX p * groupsY p * groupsZ p"

text \<open>
  A launch whose sizes are not zero. The code keeps the number of work-groups in an \<^verbatim>\<open>int\<close> of 64 bits, and the definitions compute
  with unbounded integers: they agree as long as that number is below \<open>2 ^ 63\<close>.
\<close>

definition launch_ok :: "HsaKernelDispatchPacket \<Rightarrow> bool" where
  "launch_ok p \<longleftrightarrow> pk_GridSizeX p \<noteq> 0 \<and> pk_GridSizeY p \<noteq> 0 \<and> pk_GridSizeZ p \<noteq> 0 \<and>
     pk_WorkgroupSizeX p \<noteq> 0 \<and> pk_WorkgroupSizeY p \<noteq> 0 \<and> pk_WorkgroupSizeZ p \<noteq> 0 \<and> all_groups p < 2 ^ 63"

lemma groups_pos [simp]: "0 < groups g w"
  by (simp add: groups_def)

lemma groups_bound:
  assumes "0 < w" "0 < g" "i < groups g w"
  shows "i * w < g" "g - i * w \<le> w \<longleftrightarrow> Suc i = groups g w"
proof -
  have "i * w \<le> (g - 1) div w * w" using assms(3) by (simp add: groups_def)
  also have "\<dots> \<le> g - 1" by simp
  finally show "i * w < g" using assms(2) by simp
  have "g - i * w \<le> w \<longleftrightarrow> g \<le> Suc i * w" by auto
  also have "\<dots> \<longleftrightarrow> g - 1 < Suc i * w" using assms(2) by linarith
  also have "\<dots> \<longleftrightarrow> (g - 1) div w < Suc i" using assms(1) by (simp add: div_less_iff_less_mult)
  finally show "g - i * w \<le> w \<longleftrightarrow> Suc i = groups g w" using assms(3) by (auto simp: groups_def)
qed

lemma groups_end: "0 < w \<Longrightarrow> 0 < g \<Longrightarrow> g \<le> groups g w * w"
  using dividend_less_div_times [of w "g - 1"] by (simp add: groups_def)

lemma num_in_dim_groups:
  assumes "g \<noteq> 0" "w \<noteq> 0"
  shows "num_in_dim g w = Inr (int (groups (unat g) (unat w)))"
proof -
  have "unat (g - 1) = unat g - 1" using assms(1) by (simp add: unat_minus_one)
  then have "uint (g - 1) div uint w = int ((unat g - 1) div unat w)" by (simp only: uint_nat of_nat_div)
  then show ?thesis using assms(2) by (simp add: num_in_dim_def groups_def)
qed

text \<open>The builder at the \<open>q\<close>-th position of the walk, and the work-group it makes there.\<close>

definition at_pos :: "'c gridBuilder \<Rightarrow> nat \<Rightarrow> 'c gridBuilder" where
  "at_pos b q = b\<lparr>gb_xid := int (q mod groupsX (gb_packet b)), gb_yid := int (q div groupsX (gb_packet b) mod groupsY (gb_packet b)),
     gb_zid := int (q div groupsX (gb_packet b) div groupsY (gb_packet b))\<rparr>"

definition wg_at :: "'c gridBuilder \<Rightarrow> nat \<Rightarrow> 'c WorkGroup \<Rightarrow> 'c WorkGroup" where
  "wg_at b q wg =
     (let p = gb_packet b;
          x = q mod groupsX p; y = q div groupsX p mod groupsY p; z = q div groupsX p div groupsY p
      in wg\<lparr>wg_Packet := Some p, wg_CodeObject := Some (gb_hsaco b), wg_SizeX := int (unat (pk_WorkgroupSizeX p)),
           wg_SizeY := int (unat (pk_WorkgroupSizeY p)), wg_SizeZ := int (unat (pk_WorkgroupSizeZ p)),
           wg_IDX := int x, wg_IDY := int y, wg_IDZ := int z,
           wg_CurrSizeX := int (min (unat (pk_GridSizeX p) - x * unat (pk_WorkgroupSizeX p)) (unat (pk_WorkgroupSizeX p))),
           wg_CurrSizeY := int (min (unat (pk_GridSizeY p) - y * unat (pk_WorkgroupSizeY p)) (unat (pk_WorkgroupSizeY p))),
           wg_CurrSizeZ := int (min (unat (pk_GridSizeZ p) - z * unat (pk_WorkgroupSizeZ p)) (unat (pk_WorkgroupSizeZ p)))\<rparr>)"

lemma at_pos_simps [simp]:
  "gb_packet (at_pos b q) = gb_packet b" "gb_filter (at_pos b q) = gb_filter b" "gb_hsaco (at_pos b q) = gb_hsaco b"
  "gb_packetAddr (at_pos b q) = gb_packetAddr b" "gb_numWG (at_pos b q) = gb_numWG b" "at_pos (at_pos b q) r = at_pos b r"
  by (simp_all add: at_pos_def)

lemma wg_at_simps [simp]: "wg_at b q (wg_at b r wg) = wg_at b q wg" "wg_at (at_pos b r) q wg = wg_at b q wg"
  by (simp_all add: wg_at_def Let_def)

lemma walk_step:
  fixes nx ny :: nat
  assumes "0 < nx" "0 < ny"
  shows "Suc q mod nx = (if Suc (q mod nx) = nx then 0 else Suc (q mod nx))"
    "Suc q div nx mod ny = (if Suc (q mod nx) = nx then if Suc (q div nx mod ny) = ny then 0 else Suc (q div nx mod ny) else q div nx mod ny)"
    "Suc q div nx div ny = (if Suc (q mod nx) = nx \<and> Suc (q div nx mod ny) = ny then Suc (q div nx div ny) else q div nx div ny)"
  using assms by (auto simp: mod_Suc div_Suc)

lemma pos_bounds:
  fixes q nx ny nz :: nat
  assumes "q < nx * ny * nz" "0 < nx" "0 < ny"
  shows "q mod nx < nx" "q div nx mod ny < ny" "q div nx div ny < nz"
proof -
  have "q < nz * (nx * ny)" using assms(1) by (simp only: mult.commute [of nz])
  then have "q div (nx * ny) < nz" by (rule less_mult_imp_div_less)
  then show "q div nx div ny < nz" by (simp add: div_mult2_eq)
qed (use assms in simp_all)

lemma int_le_0: "int a - int b \<le> 0 \<longleftrightarrow> a \<le> b" "int a - int b * int c \<le> 0 \<longleftrightarrow> a \<le> b * c"
  by (simp, metis diff_le_0_iff_le of_nat_le_iff of_nat_mult)

lemma int_left: "b * c \<le> a \<Longrightarrow> int a - int b * int c = int (a - b * c)"
  by (simp add: of_nat_diff)

lemma next_loop_at:
  assumes "launch_ok (gb_packet b)" "q < all_groups (gb_packet b)"
  shows "next_loop (at_pos b q) wg =
    (case gb_filter b of
       None \<Rightarrow> Some (Some (wg_at b q wg), at_pos b (Suc q))
     | Some f \<Rightarrow> if f (gb_packet b) (wg_at b q wg) then Some (Some (wg_at b q wg), at_pos b (Suc q)) else next_loop (at_pos b (Suc q)) (wg_at b q wg))"
proof -
  let ?p = "gb_packet b"
  define gx gy gz wx wy wz where "gx = unat (pk_GridSizeX ?p)" and "gy = unat (pk_GridSizeY ?p)" and "gz = unat (pk_GridSizeZ ?p)"
    and "wx = unat (pk_WorkgroupSizeX ?p)" and "wy = unat (pk_WorkgroupSizeY ?p)" and "wz = unat (pk_WorkgroupSizeZ ?p)"
  note d = this
  define x y z where "x = q mod groupsX ?p" and "y = q div groupsX ?p mod groupsY ?p" and "z = q div groupsX ?p div groupsY ?p"
  have pos: "0 < gx" "0 < gy" "0 < gz" "0 < wx" "0 < wy" "0 < wz" using assms(1) by (auto simp: d launch_ok_def unat_gt_0)
  have n: "groupsX ?p = groups gx wx" "groupsY ?p = groups gy wy" "groupsZ ?p = groups gz wz" by (simp_all add: d groupsX_def groupsY_def groupsZ_def)
  have b: "x < groups gx wx" "y < groups gy wy" "z < groups gz wz"
    using pos_bounds [of q "groups gx wx" "groups gy wy" "groups gz wz"] assms(2) by (simp_all add: all_groups_def n x_def y_def z_def)
  note Bx = groups_bound [OF pos(4,1) b(1)] and By = groups_bound [OF pos(5,2) b(2)] and Bz = groups_bound [OF pos(6,3) b(3)]
  have u: "uint (pk_GridSizeX ?p) = int gx" "uint (pk_GridSizeY ?p) = int gy" "uint (pk_GridSizeZ ?p) = int gz"
    "uint (pk_WorkgroupSizeX ?p) = int wx" "uint (pk_WorkgroupSizeY ?p) = int wy" "uint (pk_WorkgroupSizeZ ?p) = int wz" unfolding d by (rule uint_nat)+
  have l: "int gx - int x * int wx = int (gx - x * wx)" "int gy - int y * int wy = int (gy - y * wy)" "int gz - int z * int wz = int (gz - z * wz)"
    by (rule int_left [OF less_imp_le [OF Bx(1)]], rule int_left [OF less_imp_le [OF By(1)]], rule int_left [OF less_imp_le [OF Bz(1)]])
  have e: "int (gx - x * wx) - min (int (gx - x * wx)) (int wx) \<le> 0 \<longleftrightarrow> Suc x = groups gx wx"
    "int (gy - y * wy) - min (int (gy - y * wy)) (int wy) \<le> 0 \<longleftrightarrow> Suc y = groups gy wy" using Bx(2) By(2) by auto
  have nz: "\<not> int (gx - x * wx) \<le> 0" "\<not> int (gy - y * wy) \<le> 0" "\<not> int (gz - z * wz) \<le> 0"
    using Bx(1) By(1) Bz(1) by (simp_all only: of_nat_le_0_iff diff_is_0_eq not_le)
  have id: "gb_xid (at_pos b q) = int x" "gb_yid (at_pos b q) = int y" "gb_zid (at_pos b q) = int z" by (simp_all add: at_pos_def x_def y_def z_def)
  have step: "at_pos b (Suc q) =
      (if Suc x = groups gx wx then if Suc y = groups gy wy then (at_pos b q)\<lparr>gb_xid := 0, gb_yid := 0, gb_zid := int z + 1\<rparr>
         else (at_pos b q)\<lparr>gb_xid := 0, gb_yid := int y + 1\<rparr> else (at_pos b q)\<lparr>gb_xid := int x + 1\<rparr>)"
    using walk_step [of "groups gx wx" "groups gy wy" q] by (auto simp: at_pos_def n x_def y_def z_def)
  have wg: "wg\<lparr>wg_Packet := Some ?p, wg_CodeObject := Some (gb_hsaco b), wg_SizeX := int wx, wg_SizeY := int wy, wg_SizeZ := int wz,
      wg_IDX := int x, wg_IDY := int y, wg_IDZ := int z, wg_CurrSizeX := min (int (gx - x * wx)) (int wx),
      wg_CurrSizeY := min (int (gy - y * wy)) (int wy), wg_CurrSizeZ := min (int (gz - z * wz)) (int wz)\<rparr> = wg_at b q wg"
    by (simp add: wg_at_def Let_def d x_def y_def z_def of_nat_min)
  show ?thesis
    by (subst next_loop.simps) (simp only: at_pos_simps id u l nz e wg Let_def if_False simp_thms flip: step)
qed

lemma next_loop_end:
  assumes "launch_ok (gb_packet b)"
  shows "next_loop (at_pos b (all_groups (gb_packet b))) wg = Some (None, at_pos b (all_groups (gb_packet b)))"
proof -
  let ?p = "gb_packet b"
  have "gb_zid (at_pos b (all_groups ?p)) = int (groupsZ ?p)" by (simp add: at_pos_def all_groups_def groupsX_def groupsY_def mult.assoc)
  moreover have "unat (pk_GridSizeZ ?p) \<le> groupsZ ?p * unat (pk_WorkgroupSizeZ ?p)"
    using assms by (simp add: groupsZ_def groups_end launch_ok_def unat_gt_0)
  ultimately have "uint (pk_GridSizeZ ?p) - gb_zid (at_pos b (all_groups ?p)) * uint (pk_WorkgroupSizeZ ?p) \<le> 0"
    by (simp only: uint_nat of_nat_mult [symmetric] diff_le_0_iff_le of_nat_le_iff)
  then show ?thesis by (subst next_loop.simps) (simp add: Let_def)
qed

section \<open>All work-groups of a launch\<close>

text \<open>A filter that looks at the position of a work-group only, as the driver's does.\<close>

definition filter_by_id :: "'c WGFilterFunc \<Rightarrow> bool" where
  "filter_by_id f \<longleftrightarrow> (\<forall>p wg wg'. wg_IDX wg = wg_IDX wg' \<longrightarrow> wg_IDY wg = wg_IDY wg' \<longrightarrow> wg_IDZ wg = wg_IDZ wg' \<longrightarrow> f p wg = f p wg')"

definition accepted :: "'c gridBuilder \<Rightarrow> nat \<Rightarrow> bool" where
  "accepted b q = (case gb_filter b of None \<Rightarrow> True | Some f \<Rightarrow> f (gb_packet b) (wg_at b q WorkGroup0))"

definition positions :: "'c gridBuilder \<Rightarrow> nat \<Rightarrow> nat list" where
  "positions b q = filter (accepted b) [q..<all_groups (gb_packet b)]"

lemma accepted_at:
  assumes "\<And>f. gb_filter b = Some f \<Longrightarrow> filter_by_id f" "gb_filter b = Some f"
  shows "f (gb_packet b) (wg_at b q wg) = accepted b q"
  using assms(1) [OF assms(2)] assms(2) by (simp add: accepted_def filter_by_id_def wg_at_def Let_def)

lemma positions_step: "q < all_groups (gb_packet b) \<Longrightarrow> positions b q = (if accepted b q then q # positions b (Suc q) else positions b (Suc q))"
  by (simp add: positions_def upt_conv_Cons)

lemma positions_Cons:
  assumes "positions b q = r # rs"
  shows "q \<le> r" "r < all_groups (gb_packet b)" "accepted b r" "rs = positions b (Suc r)"
proof -
  have "r \<in> set (positions b q)" using assms by simp
  then show r: "q \<le> r" "r < all_groups (gb_packet b)" "accepted b r" by (auto simp: positions_def)
  show "rs = positions b (Suc r)"
    using assms
  proof (induction "all_groups (gb_packet b) - q" arbitrary: q)
    case 0
    then show ?case by (simp add: positions_def)
  next
    case (Suc n)
    then have "q < all_groups (gb_packet b)" by simp
    then show ?case using Suc.hyps(1) [of "Suc q"] Suc.hyps(2) Suc.prems positions_step [of q b] by (auto split: if_splits)
  qed
qed

lemma next_loop_find:
  assumes "launch_ok (gb_packet b)" "\<And>f. gb_filter b = Some f \<Longrightarrow> filter_by_id f" "q \<le> all_groups (gb_packet b)"
  shows "next_loop (at_pos b q) wg =
    (case positions b q of [] \<Rightarrow> Some (None, at_pos b (all_groups (gb_packet b))) | r # _ \<Rightarrow> Some (Some (wg_at b r wg), at_pos b (Suc r)))"
  using assms(3)
proof (induction "all_groups (gb_packet b) - q" arbitrary: q wg)
  case 0
  then show ?case using next_loop_end [OF assms(1), of wg] by (simp add: positions_def)
next
  case (Suc n)
  then have q: "q < all_groups (gb_packet b)" by simp
  have IH: "next_loop (at_pos b (Suc q)) wg' = (case positions b (Suc q) of [] \<Rightarrow> Some (None, at_pos b (all_groups (gb_packet b)))
      | r # _ \<Rightarrow> Some (Some (wg_at b r wg'), at_pos b (Suc r)))" for wg'
    using Suc by (intro Suc.hyps(1)) auto
  show ?case
  proof (cases "gb_filter b")
    case None
    then show ?thesis using next_loop_at [OF assms(1) q, of wg] q by (simp add: positions_step accepted_def)
  next
    case (Some f)
    then show ?thesis using next_loop_at [OF assms(1) q, of wg] accepted_at [OF assms(2) Some, of q wg]
      by (simp add: positions_step q IH split: list.splits)
  qed
qed

lemma form_loop_returns: "wfs \<noteq> [] \<Longrightarrow> \<exists>wfs' n. form_loop b wg wis wfs nextID = Inr (wfs', n)"
  by (induction b wg wis wfs nextID rule: form_loop.induct) (auto simp: Let_def split: prod.splits)

lemma form_loop_first:
  assumes "wi_IDX wi = 0" "wi_IDY wi = 0" "wi_IDZ wi = 0"
  shows "\<exists>wfs' n. form_loop b wg (wi # wis) wfs nextID = Inr (wfs', n)"
  using assms by (auto simp: Let_def split: prod.splits intro!: form_loop_returns)

text \<open>The work-group made at a position.\<close>

definition made_at :: "'c gridBuilder \<Rightarrow> nat \<Rightarrow> 'c WorkGroup \<Rightarrow> bool" where
  "made_at b q wg \<longleftrightarrow> (\<exists>uid wfs. wg = (spawnWorkItems (wg_at b q (WorkGroup0\<lparr>wg_UID := uid\<rparr>)))\<lparr>wg_Wavefronts := wfs\<rparr>)"

lemma first_item:
  assumes "launch_ok (gb_packet b)" "q < all_groups (gb_packet b)"
  shows "\<exists>wis. wg_WorkItems (spawnWorkItems (wg_at b q (WorkGroup0\<lparr>wg_UID := uid\<rparr>))) = \<lparr>wi_IDX = 0, wi_IDY = 0, wi_IDZ = 0\<rparr> # wis"
proof -
  let ?p = "gb_packet b"
  have b: "q mod groupsX ?p < groupsX ?p" "q div groupsX ?p mod groupsY ?p < groupsY ?p" "q div groupsX ?p div groupsY ?p < groupsZ ?p"
    using pos_bounds [of q "groupsX ?p" "groupsY ?p" "groupsZ ?p"] assms(2) by (simp_all add: all_groups_def groupsX_def groupsY_def)
  have pos: "0 < min (g - i * w) w" if "0 < w" "0 < g" "i < groups g w" for g w i :: nat using groups_bound(1) [OF that] that(1) by simp
  let ?w = "wg_at b q (WorkGroup0\<lparr>wg_UID := uid\<rparr>)"
  have u: "0 < unat (pk_GridSizeX ?p)" "0 < unat (pk_GridSizeY ?p)" "0 < unat (pk_GridSizeZ ?p)"
    "0 < unat (pk_WorkgroupSizeX ?p)" "0 < unat (pk_WorkgroupSizeY ?p)" "0 < unat (pk_WorkgroupSizeZ ?p)" using assms(1) by (simp_all add: launch_ok_def unat_gt_0)
  have "0 < nat (wg_CurrSizeX ?w)" "0 < nat (wg_CurrSizeY ?w)" "0 < nat (wg_CurrSizeZ ?w)"
    using pos [OF u(4,1) b(1) [unfolded groupsX_def [of ?p]]] pos [OF u(5,2) b(2) [unfolded groupsY_def [of ?p]]] pos [OF u(6,3) b(3) [unfolded groupsZ_def [of ?p]]]
    by (simp_all add: wg_at_def Let_def groupsX_def groupsY_def)
  then obtain nx ny nz where n: "nat (wg_CurrSizeX ?w) = Suc nx" "nat (wg_CurrSizeY ?w) = Suc ny" "nat (wg_CurrSizeZ ?w) = Suc nz"
    by (auto simp: gr0_conv_Suc)
  show ?thesis unfolding spawnWorkItems_def by (simp add: n upt_conv_Cons del: upt_Suc) (simp add: wg_at_def Let_def WorkGroup0_def)
qed

lemma NextWG_at:
  assumes "launch_ok (gb_packet b)" "\<And>f. gb_filter b = Some f \<Longrightarrow> filter_by_id f" "q \<le> all_groups (gb_packet b)"
  shows "case positions b q of
      [] \<Rightarrow> \<exists>n. NextWG (at_pos b q) nextID = Inr (None, at_pos b (all_groups (gb_packet b)), n)
    | r # _ \<Rightarrow> \<exists>wg n. NextWG (at_pos b q) nextID = Inr (Some wg, at_pos b (Suc r), n) \<and> made_at b r wg"
proof -
  obtain uid n where g: "sequentialIDGenerator_Generate nextID = (uid, n)" by fastforce
  note L = next_loop_find [OF assms, of "WorkGroup0\<lparr>wg_UID := uid\<rparr>"]
  show ?thesis
  proof (cases "positions b q")
    case Nil
    then show ?thesis using L g by (simp add: NextWG_def NewWorkGroup_def)
  next
    case (Cons r rs)
    let ?wg = "spawnWorkItems (wg_at b r (WorkGroup0\<lparr>wg_UID := uid\<rparr>))"
    obtain wis where wis: "wg_WorkItems ?wg = \<lparr>wi_IDX = 0, wi_IDY = 0, wi_IDZ = 0\<rparr> # wis"
      using first_item [OF assms(1) positions_Cons(2) [OF Cons]] by blast
    obtain wfs n' where f: "formWavefronts (at_pos b (Suc r)) ?wg n = Inr (?wg\<lparr>wg_Wavefronts := wfs\<rparr>, n')"
      using form_loop_first [of "\<lparr>wi_IDX = 0, wi_IDY = 0, wi_IDZ = 0\<rparr>" "at_pos b (Suc r)" ?wg wis "wg_Wavefronts ?wg" n]
      by (auto simp: formWavefronts_def wis)
    show ?thesis using L g Cons f by (auto simp: NextWG_def NewWorkGroup_def made_at_def)
  qed
qed

text \<open>Calling \<^verbatim>\<open>NextWG\<close> until it returns \<^verbatim>\<open>nil\<close>, at most \<open>n\<close> times.\<close>

fun collect_wgs :: "nat \<Rightarrow> 'c gridBuilder \<Rightarrow> u64 \<Rightarrow> ('c WorkGroup list \<times> bool) result" where
  "collect_wgs 0 b nextID = Inr ([], False)"
| "collect_wgs (Suc n) b nextID =
     bindR (NextWG b nextID) (\<lambda>(wg, b, nextID).
       case wg of
         None \<Rightarrow> Inr ([], True)
       | Some wg \<Rightarrow> bindR (collect_wgs n b nextID) (\<lambda>(wgs, fin). Inr (wg # wgs, fin)))"

lemma collect_wgs_ok:
  assumes "launch_ok (gb_packet b)" "\<And>f. gb_filter b = Some f \<Longrightarrow> filter_by_id f" "q \<le> all_groups (gb_packet b)" "length (positions b q) = n"
  shows "\<exists>wgs. collect_wgs (Suc n) (at_pos b q) nextID = Inr (wgs, True) \<and> list_all2 (made_at b) (positions b q) wgs"
  using assms(3,4)
proof (induction n arbitrary: q nextID)
  case 0
  then show ?case using NextWG_at [OF assms(1,2) 0(1), of nextID] by auto
next
  case (Suc n)
  then obtain r rs where p: "positions b q = r # rs" by (cases "positions b q") auto
  obtain wg k where w: "NextWG (at_pos b q) nextID = Inr (Some wg, at_pos b (Suc r), k)" "made_at b r wg"
    using NextWG_at [OF assms(1,2) Suc.prems(1), of nextID] p by auto
  have r: "r < all_groups (gb_packet b)" "rs = positions b (Suc r)" using positions_Cons [OF p] by auto
  obtain wgs where "collect_wgs (Suc n) (at_pos b (Suc r)) k = Inr (wgs, True)" "list_all2 (made_at b) rs wgs"
    using Suc.IH [of "Suc r" k] r Suc.prems(2) p by auto
  then show ?case using w p by auto
qed

section \<open>Every work-item once\<close>

text \<open>The position of a work-item in the grid.\<close>

definition global_ids :: "'c WorkGroup \<Rightarrow> (int \<times> int \<times> int) list" where
  "global_ids wg = map (\<lambda>wi. (wg_IDX wg * wg_SizeX wg + wi_IDX wi, wg_IDY wg * wg_SizeY wg + wi_IDY wi, wg_IDZ wg * wg_SizeZ wg + wi_IDZ wi)) (wg_WorkItems wg)"

definition grid_of :: "HsaKernelDispatchPacket \<Rightarrow> (int \<times> int \<times> int) set" where
  "grid_of p = {0..<uint (pk_GridSizeX p)} \<times> {0..<uint (pk_GridSizeY p)} \<times> {0..<uint (pk_GridSizeZ p)}"

text \<open>The position of the work-group a work-item of the grid belongs to.\<close>

fun owner :: "HsaKernelDispatchPacket \<Rightarrow> int \<times> int \<times> int \<Rightarrow> nat" where
  "owner p (i, j, k) = nat i div unat (pk_WorkgroupSizeX p) +
     groupsX p * (nat j div unat (pk_WorkgroupSizeY p) + groupsY p * (nat k div unat (pk_WorkgroupSizeZ p)))"

lemma dim_cell:
  assumes "0 < w"
  shows "(\<exists>x < min (g - X * w) w. i = X * w + x) \<longleftrightarrow> i < g \<and> i div w = (X::nat)"
proof
  assume "i < g \<and> i div w = X"
  then show "\<exists>x < min (g - X * w) w. i = X * w + x" using assms by (intro exI [of _ "i mod w"]) (auto simp: less_diff_conv)
qed (use assms in auto)

lemma owner_parts:
  fixes nx ny :: nat
  assumes "a < nx" "b < ny"
  shows "a + nx * (b + ny * c) = q \<longleftrightarrow> a = q mod nx \<and> b = q div nx mod ny \<and> c = q div nx div ny"
proof
  assume "a = q mod nx \<and> b = q div nx mod ny \<and> c = q div nx div ny"
  then show "a + nx * (b + ny * c) = q" by (metis mod_mult_div_eq add.commute)
qed (use assms in auto)

lemma cell_in_groups: "0 < w \<Longrightarrow> i < g \<Longrightarrow> i div w < groups g (w::nat)"
  by (auto simp: groups_def less_Suc_eq_le intro: div_le_mono)

lemma flat_less:
  fixes nx ny nz :: nat
  assumes "i < nx" "j < ny" "k < nz"
  shows "i + nx * (j + ny * k) < nx * ny * nz"
proof -
  have "ny * Suc k \<le> ny * nz" using assms(3) by (simp only: mult_le_mono2 Suc_leI)
  then have "j + ny * k < ny * nz" using assms(2) by simp
  then have "nx * Suc (j + ny * k) \<le> nx * (ny * nz)" by (simp only: mult_le_mono2 Suc_leI)
  then show ?thesis using assms(1) by (simp add: mult.assoc)
qed

lemma owner_less:
  assumes "launch_ok p" "c \<in> grid_of p"
  shows "owner p c < all_groups p"
proof -
  obtain i j k where c: "c = (int i, int j, int k)" "i < unat (pk_GridSizeX p)" "j < unat (pk_GridSizeY p)" "k < unat (pk_GridSizeZ p)"
    using assms(2) by (auto simp: grid_of_def uint_nat elim!: nonneg_int_cases simp del: of_nat_unat)
  have u: "0 < unat (pk_WorkgroupSizeX p)" "0 < unat (pk_WorkgroupSizeY p)" "0 < unat (pk_WorkgroupSizeZ p)" using assms(1) by (simp_all add: launch_ok_def unat_gt_0)
  show ?thesis unfolding c(1) owner.simps nat_int all_groups_def
    by (rule flat_less; unfold groupsX_def groupsY_def groupsZ_def) (rule cell_in_groups [OF u(1) c(2)] cell_in_groups [OF u(2) c(3)] cell_in_groups [OF u(3) c(4)])+
qed

lemma items_product:
  "wg_WorkItems (spawnWorkItems (wg\<lparr>wg_WorkItems := []\<rparr>)) =
    map (\<lambda>(z, y, x). \<lparr>wi_IDX = int x, wi_IDY = int y, wi_IDZ = int z\<rparr>)
      (List.product [0..<nat (wg_CurrSizeZ wg)] (List.product [0..<nat (wg_CurrSizeY wg)] [0..<nat (wg_CurrSizeX wg)]))"
  by (simp add: spawnWorkItems_def product_concat_map map_concat comp_def)

text \<open>A work-group has exactly the work-items of its part of the grid, each once.\<close>

lemma made_at_ids:
  assumes "launch_ok (gb_packet b)" "made_at b q wg"
  shows "distinct (global_ids wg)" "set (global_ids wg) = {c \<in> grid_of (gb_packet b). owner (gb_packet b) c = q}"
proof -
  let ?p = "gb_packet b"
  define gx gy gz wx wy wz where "gx = unat (pk_GridSizeX ?p)" and "gy = unat (pk_GridSizeY ?p)" and "gz = unat (pk_GridSizeZ ?p)"
    and "wx = unat (pk_WorkgroupSizeX ?p)" and "wy = unat (pk_WorkgroupSizeY ?p)" and "wz = unat (pk_WorkgroupSizeZ ?p)"
  note d = this
  define x y z where "x = q mod groupsX ?p" and "y = q div groupsX ?p mod groupsY ?p" and "z = q div groupsX ?p div groupsY ?p"
  define f where "f = (\<lambda>(k, j, i). (int (x * wx + i), int (y * wy + j), int (z * wz + k)))"
  define P where "P = List.product [0..<min (gz - z * wz) wz] (List.product [0..<min (gy - y * wy) wy] [0..<min (gx - x * wx) wx])"
  obtain uid wfs where wg: "wg = (spawnWorkItems (wg_at b q (WorkGroup0\<lparr>wg_UID := uid\<rparr>)))\<lparr>wg_Wavefronts := wfs\<rparr>" using assms(2) by (auto simp: made_at_def)
  let ?w = "wg_at b q (WorkGroup0\<lparr>wg_UID := uid\<rparr>)"
  have e: "?w\<lparr>wg_WorkItems := []\<rparr> = ?w" by (simp add: wg_at_def Let_def WorkGroup0_def)
  have g: "global_ids wg = map f P"
    unfolding global_ids_def wg f_def P_def using items_product [of ?w, unfolded e]
    by (simp add: spawnWorkItems_def) (auto simp: wg_at_def Let_def d x_def y_def z_def intro!: map_cong)
  have "inj f" by (auto simp: inj_on_def f_def)
  moreover have "distinct P" by (simp add: P_def distinct_product)
  ultimately show "distinct (global_ids wg)" by (simp add: g distinct_map inj_on_subset [OF _ subset_UNIV])
  have u: "0 < wx" "0 < wy" "0 < wz" using assms(1) by (simp_all add: d launch_ok_def unat_gt_0)
  have n: "groupsX ?p = groups gx wx" "groupsY ?p = groups gy wy" by (simp_all add: d groupsX_def groupsY_def)
  have U: "uint (pk_GridSizeX ?p) = int gx" "uint (pk_GridSizeY ?p) = int gy" "uint (pk_GridSizeZ ?p) = int gz" unfolding d by (rule uint_nat)+
  have "(a, b', c) \<in> set (global_ids wg) \<longleftrightarrow> (a, b', c) \<in> grid_of ?p \<and> owner ?p (a, b', c) = q" for a b' c
  proof (cases "0 \<le> a \<and> 0 \<le> b' \<and> 0 \<le> c")
    case False
    then show ?thesis by (auto simp: g f_def grid_of_def)
  next
    case True
    then obtain i j k where c: "a = int i" "b' = int j" "c = int k" by (metis nonneg_int_cases)
    have "(a, b', c) \<in> set (global_ids wg) \<longleftrightarrow> (\<exists>t < min (gx - x * wx) wx. i = x * wx + t) \<and> (\<exists>t < min (gy - y * wy) wy. j = y * wy + t) \<and> (\<exists>t < min (gz - z * wz) wz. k = z * wz + t)"
      unfolding g c f_def P_def by (auto simp: image_iff Bex_def simp del: of_nat_add of_nat_mult)
    also have "\<dots> \<longleftrightarrow> (i < gx \<and> j < gy \<and> k < gz) \<and> i div wx = x \<and> j div wy = y \<and> k div wz = z"
      unfolding dim_cell [OF u(1)] dim_cell [OF u(2)] dim_cell [OF u(3)] by blast
    also have "\<dots> \<longleftrightarrow> (i < gx \<and> j < gy \<and> k < gz) \<and> owner ?p (a, b', c) = q"
      using owner_parts [of "i div wx" "groupsX ?p" "j div wy" "groupsY ?p" "k div wz" q] cell_in_groups u
      by (auto simp: c x_def y_def z_def n d [symmetric])
    also have "i < gx \<and> j < gy \<and> k < gz \<longleftrightarrow> (a, b', c) \<in> grid_of ?p"
      by (simp add: grid_of_def c U)
    finally show ?thesis .
  qed
  then show "set (global_ids wg) = {c \<in> grid_of (gb_packet b). owner (gb_packet b) c = q}" by auto
qed

lemma made_all_ids:
  assumes "launch_ok (gb_packet b)" "list_all2 (made_at b) qs wgs" "distinct qs"
  shows "distinct (concat (map global_ids wgs))" "set (concat (map global_ids wgs)) = {c \<in> grid_of (gb_packet b). owner (gb_packet b) c \<in> set qs}"
  using assms(2,3)
proof (induction rule: list_all2_induct)
  case (Cons q qs wg wgs)
  {
    case 1
    then show ?case using Cons(3,4) made_at_ids [OF assms(1) Cons(1)] by auto
  next
    case 2
    then show ?case using Cons(4) made_at_ids(2) [OF assms(1) Cons(1)] by auto
  }
qed auto

section \<open>Counting\<close>

text \<open>The triple loop of \<^verbatim>\<open>countWG\<close> counts the positions of the walk that pass the filter.\<close>

lemma concat_if: "concat (map (\<lambda>x. if Q x then [f x] else []) xs) = map f (filter Q xs)"
  by (induction xs) simp_all

lemma triples_product:
  "[(i, j, k). i \<leftarrow> [0..<a], j \<leftarrow> [0..<b], k \<leftarrow> [0..<c], P i j k] = filter (\<lambda>(i, j, k). P i j k) (List.product [0..<a] (List.product [0..<b] [0..<c]))"
  by (simp add: product_concat_map filter_concat map_concat comp_def filter_map concat_if)

lemma count_positions:
  fixes nx ny nz :: nat
  assumes "0 < nx" "0 < ny"
  shows "length [(i, j, k). i \<leftarrow> [0..<nx], j \<leftarrow> [0..<ny], k \<leftarrow> [0..<nz], P i j k] =
    length (filter (\<lambda>q. P (q mod nx) (q div nx mod ny) (q div nx div ny)) [0..<nx * ny * nz])"
proof -
  let ?T = "filter (\<lambda>(i, j, k). P i j k) (List.product [0..<nx] (List.product [0..<ny] [0..<nz]))"
  let ?Q = "filter (\<lambda>q. P (q mod nx) (q div nx mod ny) (q div nx div ny)) [0..<nx * ny * nz]"
  let ?f = "\<lambda>q. (q mod nx, q div nx mod ny, q div nx div ny)"
  have "bij_betw ?f (set ?Q) (set ?T)"
  proof (rule bij_betw_byWitness [where f' = "\<lambda>(i, j, k). i + nx * (j + ny * k)"])
    show "\<forall>q \<in> set ?Q. (case ?f q of (i, j, k) \<Rightarrow> i + nx * (j + ny * k)) = q" by simp
    show "\<forall>t \<in> set ?T. ?f (case t of (i, j, k) \<Rightarrow> i + nx * (j + ny * k)) = t" by auto
    show "?f ` set ?Q \<subseteq> set ?T" using pos_bounds [OF _ assms] by auto
    show "(\<lambda>(i, j, k). i + nx * (j + ny * k)) ` set ?T \<subseteq> set ?Q" using flat_less by auto
  qed
  then have "card (set ?Q) = card (set ?T)" by (rule bij_betw_same_card)
  moreover have "distinct ?T" "distinct ?Q" by (simp_all add: distinct_product)
  ultimately show ?thesis unfolding triples_product by (simp only: distinct_card)
qed

text \<open>Setting a kernel: the builder stands at the first position, and the count is the number of positions that pass the filter.\<close>

lemma SetKernel_ok:
  assumes "launch_ok (li_Packet info)" "\<And>f. li_WGFilter info = Some f \<Longrightarrow> filter_by_id f"
  obtains b where "SetKernel info = Inr b" "gb_packet b = li_Packet info" "gb_filter b = li_WGFilter info" "at_pos b 0 = b"
    "NumWG b = int (length (positions b 0))"
proof -
  let ?p = "li_Packet info"
  let ?b = "\<lambda>n. \<lparr>gb_hsaco = li_CodeObject info, gb_packet = ?p, gb_filter = li_WGFilter info, gb_packetAddr = li_PacketAddr info,
    gb_numWG = n, gb_xid = 0, gb_yid = 0, gb_zid = 0\<rparr>"
  have n: "num_in_dim (pk_GridSizeX ?p) (pk_WorkgroupSizeX ?p) = Inr (int (groupsX ?p))" "num_in_dim (pk_GridSizeY ?p) (pk_WorkgroupSizeY ?p) = Inr (int (groupsY ?p))"
    "num_in_dim (pk_GridSizeZ ?p) (pk_WorkgroupSizeZ ?p) = Inr (int (groupsZ ?p))"
    using assms(1) by (simp_all add: launch_ok_def num_in_dim_groups groupsX_def groupsY_def groupsZ_def)
  have a: "at_pos (?b m) 0 = ?b m" for m by (simp add: at_pos_def)
  show ?thesis
  proof (cases "li_WGFilter info")
    case None
    then have "positions (?b m) 0 = [0..<all_groups ?p]" for m by (simp add: positions_def accepted_def)
    then show ?thesis using n a None by (intro that [of "?b (int (all_groups ?p))"]) (simp_all add: SetKernel_def countWG_def all_groups_def NumWG_def)
  next
    case (Some f)
    let ?P = "\<lambda>i j k. f ?p (WorkGroup0\<lparr>wg_IDX := int i, wg_IDY := int j, wg_IDZ := int k\<rparr>)"
    let ?L = "[(i, j, k). i \<leftarrow> [0..<groupsX ?p], j \<leftarrow> [0..<groupsY ?p], k \<leftarrow> [0..<groupsZ ?p], ?P i j k]"
    have "accepted (?b m) q = ?P (q mod groupsX ?p) (q div groupsX ?p mod groupsY ?p) (q div groupsX ?p div groupsY ?p)" for m q
      using assms(2) [OF Some] by (simp add: Some accepted_def wg_at_def Let_def filter_by_id_def)
    then have "accepted (?b m) = (\<lambda>q. ?P (q mod groupsX ?p) (q div groupsX ?p mod groupsY ?p) (q div groupsX ?p div groupsY ?p))" for m by (rule ext)
    then have "length ?L = length (positions (?b m) 0)" for m
      using count_positions [of "groupsX ?p" "groupsY ?p" ?P "groupsZ ?p"] by (simp add: positions_def all_groups_def groupsX_def groupsY_def)
    then show ?thesis using n a Some by (intro that [of "?b (int (length ?L))"]) (simp_all add: SetKernel_def countWG_def NumWG_def)
  qed
qed

lemma positions_distinct [simp]: "distinct (positions b q)"
  by (simp add: positions_def)

text \<open>The work-groups of a launch, whatever its filter.\<close>

lemma launch_collects:
  assumes "launch_ok (li_Packet info)" "\<And>f. li_WGFilter info = Some f \<Longrightarrow> filter_by_id f"
  obtains b wgs where "SetKernel info = Inr b" "gb_packet b = li_Packet info" "gb_filter b = li_WGFilter info"
    "collect_wgs (nat (NumWG b) + 1) b nextID = Inr (wgs, True)" "int (length wgs) = NumWG b"
    "distinct (concat (map global_ids wgs))"
    "set (concat (map global_ids wgs)) = {c \<in> grid_of (li_Packet info). accepted b (owner (li_Packet info) c)}"
proof -
  obtain b where b: "SetKernel info = Inr b" "gb_packet b = li_Packet info" "gb_filter b = li_WGFilter info" "at_pos b 0 = b"
    "NumWG b = int (length (positions b 0))" by (rule SetKernel_ok [OF assms])
  have ok: "launch_ok (gb_packet b)" "\<And>f. gb_filter b = Some f \<Longrightarrow> filter_by_id f" using assms b by auto
  obtain wgs where w: "collect_wgs (nat (NumWG b) + 1) b nextID = Inr (wgs, True)" "list_all2 (made_at b) (positions b 0) wgs"
    using collect_wgs_ok [OF ok le0 refl, of nextID] b(4,5) by auto
  note ids = made_all_ids [OF ok(1) w(2) positions_distinct]
  have "set (concat (map global_ids wgs)) = {c \<in> grid_of (li_Packet info). accepted b (owner (li_Packet info) c)}"
    using ids(2) owner_less [OF assms(1)] by (auto simp: b(2) positions_def)
  then show ?thesis using b w list_all2_lengthD [OF w(2)] ids(1) by (intro that [of b wgs]) auto
qed

section \<open>A launch on several GPUs\<close>

lemma unified_filter_by_id: "filter_by_id (unified_filter k i)"
  by (auto simp: filter_by_id_def unified_filter_def Let_def)

lemma unified_groups:
  fixes w :: "16 word"
  assumes "g \<noteq> 0" "w \<noteq> 0"
  shows "uint ((g - 1) div ucast w + 1 :: u32) = int (groups (unat g) (unat w))"
proof -
  have w: "unat w < 2 ^ 16" using unsigned_less [where ?'a = nat, of w] by simp
  have uw: "unat (ucast w :: u32) = unat w" using w by (simp add: unsigned_ucast_eq take_bit_nat_eq_self)
  have "unat (g - 1) = unat g - 1" using assms(1) by (simp add: unat_minus_one)
  then have d: "unat ((g - 1) div ucast w :: u32) = (unat g - 1) div unat w" by (simp add: unat_div uw)
  have "(unat g - 1) div unat w \<le> unat g - 1" by (rule div_le_dividend)
  moreover have "unat g - 1 + 1 < 2 ^ 32" using unsigned_less [where ?'a = nat, of g] assms(1) unat_gt_0 [of g] by simp
  ultimately have "(unat g - 1) div unat w + 1 < 2 ^ 32" by linarith
  then have "unat ((g - 1) div ucast w + 1 :: u32) = groups (unat g) (unat w)"
    by (simp add: unat_word_ariths(1) d groups_def)
  then show ?thesis by (simp only: uint_nat)
qed

lemma unified_accepted:
  assumes "launch_ok (gb_packet b)" "gb_filter b = Some (unified_filter k i)"
  shows "accepted b q \<longleftrightarrow> q mod k = i"
proof -
  let ?p = "gb_packet b"
  have u: "uint ((pk_GridSizeX ?p - 1) div ucast (pk_WorkgroupSizeX ?p) + 1) = int (groupsX ?p)"
    "uint ((pk_GridSizeY ?p - 1) div ucast (pk_WorkgroupSizeY ?p) + 1) = int (groupsY ?p)"
    using assms(1) unfolding launch_ok_def groupsX_def groupsY_def by (simp_all only: unified_groups not_False_eq_True)
  have "int (q div groupsX ?p div groupsY ?p) * int (groupsX ?p) * int (groupsY ?p) + int (q div groupsX ?p mod groupsY ?p) * int (groupsX ?p) + int (q mod groupsX ?p) =
      int (q mod groupsX ?p + groupsX ?p * (q div groupsX ?p mod groupsY ?p + groupsY ?p * (q div groupsX ?p div groupsY ?p)))"
    unfolding of_nat_add of_nat_mult by (simp only: algebra_simps)
  also have "\<dots> = int q" by simp
  finally have "accepted b q \<longleftrightarrow> int q mod int k = int i"
    unfolding accepted_def assms(2) by (simp only: option.case unified_filter_def Let_def u) (simp add: wg_at_def Let_def)
  then show ?thesis by (simp flip: of_nat_mod)
qed

lemma residue_partition:
  assumes "0 < k" "\<And>i. i < k \<Longrightarrow> distinct (F i) \<and> set (F i) = {c \<in> G. h c mod k = i}"
  shows "distinct (concat (map F [0..<k])) \<and> set (concat (map F [0..<k])) = (G :: 'a set)"
proof -
  have "n \<le> k \<Longrightarrow> distinct (concat (map F [0..<n])) \<and> set (concat (map F [0..<n])) = {c \<in> G. h c mod k < n}" for n
  proof (induction n)
    case (Suc n)
    then show ?case using assms(2) [of n] by (auto simp: less_Suc_eq)
  qed simp
  from this [of k] show ?thesis using assms(1) by auto
qed

lemma concat_map_concat: "concat (map f (concat xss)) = concat (map (\<lambda>xs. concat (map f xs)) xss)"
  by (induction xss) simp_all

text \<open>
  Claim C9. A kernel launched on a unified device of \<open>k\<close> GPUs: each GPU's builder counts the work-groups it will make, makes that
  many and then returns nil; over all GPUs, every work-item of the grid is in exactly one work-group of exactly one GPU.
\<close>

theorem unified_launch_covers_grid_once:
  assumes "launch_ok p" "0 < k"
  shows "\<exists>bs wgs. map SetKernel (unified_launches co p addr k) = map Inr bs \<and> length bs = k \<and> length wgs = k \<and>
    (\<forall>i<k. collect_wgs (nat (NumWG (bs ! i)) + 1) (bs ! i) (nextID i) = Inr (wgs ! i, True) \<and> int (length (wgs ! i)) = NumWG (bs ! i)) \<and>
    distinct (concat (map global_ids (concat wgs))) \<and> set (concat (map global_ids (concat wgs))) = grid_of p"
proof -
  let ?I = "\<lambda>i. \<lparr>li_CodeObject = co, li_Packet = p, li_PacketAddr = addr, li_WGFilter = Some (unified_filter k i)\<rparr>"
  define R where "R i bw \<longleftrightarrow> SetKernel (?I i) = Inr (fst bw) \<and> collect_wgs (nat (NumWG (fst bw)) + 1) (fst bw) (nextID i) = Inr (snd bw, True) \<and>
      int (length (snd bw)) = NumWG (fst bw) \<and> distinct (concat (map global_ids (snd bw))) \<and>
      set (concat (map global_ids (snd bw))) = {c \<in> grid_of p. owner p c mod k = i}" for i bw
  have "\<forall>i. \<exists>bw. R i bw"
  proof
    fix i
    show "\<exists>bw. R i bw"
  proof (rule launch_collects [of "?I i" "nextID i"])
    show "launch_ok (li_Packet (?I i))" using assms(1) by simp
    show "filter_by_id f" if "li_WGFilter (?I i) = Some f" for f using that by (auto simp: unified_filter_by_id)
  next
    fix b wgs
    assume b: "SetKernel (?I i) = Inr b" "gb_packet b = li_Packet (?I i)" "gb_filter b = li_WGFilter (?I i)"
      and w: "collect_wgs (nat (NumWG b) + 1) b (nextID i) = Inr (wgs, True)" "int (length wgs) = NumWG b" "distinct (concat (map global_ids wgs))"
        "set (concat (map global_ids wgs)) = {c \<in> grid_of (li_Packet (?I i)). accepted b (owner (li_Packet (?I i)) c)}"
    have "accepted b q \<longleftrightarrow> q mod k = i" for q by (rule unified_accepted) (use assms(1) b in simp_all)
    then show ?thesis using b(1) w by (intro exI [of _ "(b, wgs)"]) (simp add: R_def)
  qed
  qed
  from choice [OF this] obtain BW where bw: "\<And>i. R i (BW i)" by blast
  have "distinct (concat (map (\<lambda>i. concat (map global_ids (snd (BW i)))) [0..<k])) \<and> set (concat (map (\<lambda>i. concat (map global_ids (snd (BW i)))) [0..<k])) = grid_of p"
    by (rule residue_partition [OF assms(2), where h = "owner p"]) (use bw in \<open>simp add: R_def\<close>)
  then show ?thesis using bw
    by (intro exI [of _ "map (fst \<circ> BW) [0..<k]"] exI [of _ "map (snd \<circ> BW) [0..<k]"]) (simp add: R_def unified_launches_def concat_map_concat comp_def)
qed

section \<open>An example\<close>

definition example_packet :: "16 word \<Rightarrow> 16 word \<Rightarrow> u32 \<Rightarrow> u32 \<Rightarrow> HsaKernelDispatchPacket" where
  "example_packet wx wy gx gy = \<lparr>pk_Header = 0, pk_Setup = 0, pk_WorkgroupSizeX = wx, pk_WorkgroupSizeY = wy, pk_WorkgroupSizeZ = 1,
     pk_GridSizeX = gx, pk_GridSizeY = gy, pk_GridSizeZ = 1, pk_PrivateSegmentSize = 0, pk_GroupSegmentSize = 0, pk_KernelObject = 0x1000,
     pk_KernargAddress = 0, pk_CompletionSignal = 0\<rparr>"

theorem unified_launch_covers_grid_once_witness:
  "launch_ok (example_packet 2 2 5 3) \<and>
   (\<exists>bs (wgs :: unit WorkGroup list list). map SetKernel (unified_launches () (example_packet 2 2 5 3) 0 2) = map Inr bs \<and> length bs = 2 \<and> length wgs = 2 \<and>
      distinct (concat (map global_ids (concat wgs))) \<and> set (concat (map global_ids (concat wgs))) = grid_of (example_packet 2 2 5 3))"
proof
  show ok: "launch_ok (example_packet 2 2 5 3)"
    by (simp add: launch_ok_def example_packet_def all_groups_def groupsX_def groupsY_def groupsZ_def groups_def)
  show "\<exists>bs (wgs :: unit WorkGroup list list). map SetKernel (unified_launches () (example_packet 2 2 5 3) 0 2) = map Inr bs \<and> length bs = 2 \<and> length wgs = 2 \<and>
      distinct (concat (map global_ids (concat wgs))) \<and> set (concat (map global_ids (concat wgs))) = grid_of (example_packet 2 2 5 3)"
    using unified_launch_covers_grid_once [where k = 2 and co = "()" and addr = 0 and nextID = of_nat, OF ok zero_less_numeral]
    by (elim exE conjE) (intro exI conjI; assumption)
qed

end
