(* ===== verification/Grid_Wavefronts.thy ===== *)
theory Grid_Wavefronts
  imports Grid_Coverage
begin

text \<open>
  The wavefronts of a new work-group: in a work-group that is full in x and y the flat identifiers of the work-items are the numbers from 0, and
  \<^verbatim>\<open>formWavefronts\<close> cuts them into blocks of 64.
\<close>

section \<open>The wavefronts of a work-group\<close>

text \<open>
  Wavefronts that hold a list of work-items in blocks of 64: the \<open>j\<close>-th starts at the flat position \<open>64 * j\<close>, and the lanes set in its
  execution mask are those that have a work-item.
\<close>

definition in_blocks :: "'c gridBuilder \<Rightarrow> WorkItem list \<Rightarrow> 'c kernel_Wavefront list \<Rightarrow> bool" where
  "in_blocks b items wfs \<longleftrightarrow> length wfs = (length items + 63) div 64 \<and>
     (\<forall>j<length wfs. kw_FirstWiFlatID (wfs ! j) = 64 * int j \<and> kw_WorkItems (wfs ! j) = take 64 (drop (64 * j) items) \<and>
        kw_InitExecMask (wfs ! j) = mask (length (kw_WorkItems (wfs ! j))) \<and> kw_CodeObject (wfs ! j) = Some (gb_hsaco b) \<and>
        kw_Packet (wfs ! j) = Some (gb_packet b) \<and> kw_PacketAddress (wfs ! j) = gb_packetAddr b)"

lemma mask_Suc_push: "mask n OR push_bit n 1 = (mask (Suc n) :: u64)"
  by (rule bit_eqI) (auto simp: bit_simps)

definition add_item :: "nat \<Rightarrow> WorkItem \<Rightarrow> 'c kernel_Wavefront \<Rightarrow> 'c kernel_Wavefront" where
  "add_item r wi wv = wv\<lparr>kw_WorkItems := kw_WorkItems wv @ [wi], kw_InitExecMask := kw_InitExecMask wv OR push_bit r 1\<rparr>"

lemma in_blocks_new:
  assumes "in_blocks b items wfs" "length items mod 64 = 0" "kw_FirstWiFlatID wv = int (length items)" "kw_WorkItems wv = []" "kw_InitExecMask wv = 0"
    "kw_CodeObject wv = Some (gb_hsaco b)" "kw_Packet wv = Some (gb_packet b)" "kw_PacketAddress wv = gb_packetAddr b"
  shows "in_blocks b (items @ [wi]) (wfs @ [add_item 0 wi wv])"
proof -
  obtain q where q: "length items = 64 * q" using assms(2) by auto
  then have l: "length wfs = q" using assms(1) by (simp add: in_blocks_def)
  have "mask (Suc 0) = (1 :: u64)" by (simp add: mask_eq_exp_minus_1)
  then show ?thesis using assms q l by (auto simp: in_blocks_def nth_append less_Suc_eq add_item_def)
qed

lemma in_blocks_more:
  assumes "in_blocks b items wfs" "length items mod 64 = r" "0 < r"
  shows "wfs \<noteq> []" "in_blocks b (items @ [wi]) (butlast wfs @ [add_item r wi (last wfs)])"
proof -
  obtain q where q: "length items = 64 * q + r" using assms(2) by (metis mult_div_mod_eq)
  have r: "r < 64" using assms(2) by auto
  have l: "length wfs = Suc q" using assms(1,3) r q by (simp add: in_blocks_def)
  then show ne: "wfs \<noteq> []" by auto
  let ?wfs = "butlast wfs @ [add_item r wi (last wfs)]"
  have old: "kw_FirstWiFlatID (wfs ! j) = 64 * int j" "kw_WorkItems (wfs ! j) = take 64 (drop (64 * j) items)"
    "kw_InitExecMask (wfs ! j) = mask (length (kw_WorkItems (wfs ! j)))"
    "kw_CodeObject (wfs ! j) = Some (gb_hsaco b)" "kw_Packet (wfs ! j) = Some (gb_packet b)" "kw_PacketAddress (wfs ! j) = gb_packetAddr b" if "j \<le> q" for j using assms(1) that l by (auto simp: in_blocks_def)
  have "last wfs = wfs ! q" using ne l by (simp add: last_conv_nth)
  then have n: "?wfs ! j = (if j = q then add_item r wi (wfs ! q) else wfs ! j)" if "j \<le> q" for j using that l by (simp add: nth_append nth_butlast)
  have "kw_FirstWiFlatID (?wfs ! j) = 64 * int j \<and> kw_WorkItems (?wfs ! j) = take 64 (drop (64 * j) (items @ [wi])) \<and>
      kw_InitExecMask (?wfs ! j) = mask (length (kw_WorkItems (?wfs ! j))) \<and> kw_CodeObject (?wfs ! j) = Some (gb_hsaco b) \<and>
      kw_Packet (?wfs ! j) = Some (gb_packet b) \<and> kw_PacketAddress (?wfs ! j) = gb_packetAddr b" if j: "j \<le> q" for j
  proof (cases "j = q")
    case True
    have "?wfs ! j = add_item r wi (wfs ! q)" using n [OF j] True by simp
    then show ?thesis using True q r mask_Suc_push [of r] by (simp only:) (simp add: add_item_def old)
  next
    case False
    then have "64 * j + 64 \<le> length items" using j q by simp
    then show ?thesis using False by (simp add: n [OF j] old [OF j])
  qed
  then show "in_blocks b (items @ [wi]) ?wfs" using l q r assms(3) by (simp add: in_blocks_def less_Suc_eq_le)
qed

lemma form_loop_blocks:
  fixes b :: "'c gridBuilder"
  assumes "in_blocks b done_items wfs" "map (FlattenedID wg) items = map int [length done_items..<length done_items + length items]"
  shows "\<exists>wfs' n. form_loop b wg items wfs nextID = Inr (wfs', n) \<and> in_blocks b (done_items @ items) wfs'"
  using assms
proof (induction items arbitrary: done_items wfs nextID)
  case (Cons wi items)
  let ?m = "length done_items"
  have u: "upt ?m (?m + length (wi # items)) = ?m # upt (Suc ?m) (Suc ?m + length items)" by (simp add: upt_conv_Cons del: upt_Suc)
  have id: "FlattenedID wg wi = int ?m" and rest: "map (FlattenedID wg) items = map int [length (done_items @ [wi])..<length (done_items @ [wi]) + length items]"
    using Cons.prems(2) unfolding u by simp_all
  have flat: "wi_IDZ wi * wg_SizeX wg * wg_SizeY wg + wi_IDY wi * wg_SizeX wg + wi_IDX wi = int ?m" using id by (simp add: FlattenedID_def)
  have m: "int ?m mod 64 = int (?m mod 64)" by (simp add: of_nat_mod)
  show ?case
  proof (cases "?m mod 64 = 0")
    case True
    obtain wv :: "'c kernel_Wavefront" and n where w: "kernels_NewWavefront nextID = (wv, n)" "kw_WorkItems wv = []" "kw_InitExecMask wv = 0"
      by (cases "sequentialIDGenerator_Generate nextID") (simp add: kernels_NewWavefront_def)
    let ?wv = "wv\<lparr>kw_FirstWiFlatID := FlattenedID wg wi, kw_CodeObject := Some (gb_hsaco b), kw_Packet := Some (gb_packet b), kw_PacketAddress := gb_packetAddr b\<rparr>"
    have "in_blocks b (done_items @ [wi]) (wfs @ [add_item 0 wi ?wv])" by (rule in_blocks_new [OF Cons.prems(1) True]) (simp_all add: w id)
    from Cons.IH [OF this rest, of n] show ?thesis by (simp add: Let_def flat m True w add_item_def)
  next
    case False
    note B = in_blocks_more [OF Cons.prems(1) refl]
    have "in_blocks b (done_items @ [wi]) (butlast wfs @ [add_item (?m mod 64) wi (last wfs)])" using False by (intro B(2)) simp
    from Cons.IH [OF this rest, of nextID] show ?thesis using B(1) False by (simp add: Let_def flat m add_item_def)
  qed
qed auto

text \<open>In a work-group that is full in x and y, the work-items are numbered without gaps.\<close>

lemma rows_flat: "concat (map (\<lambda>k. map (\<lambda>i. i + k * n) [0..<n]) [0..<m]) = [0..<m * n]"
proof (induction m)
  case (Suc m)
  have "map (\<lambda>i. i + m * n) [0..<n] = [m * n..<m * n + n]" by (simp add: map_add_upt add.commute)
  then show ?case using Suc upt_add_eq_append [of 0 "m * n" n] by (simp add: add.commute)
qed simp

lemma flat_product:
  "map (\<lambda>(z, y, x). x + y * nx + z * (ny * nx)) (List.product [0..<nz] (List.product [0..<ny] [0..<nx])) = [0..<nz * (ny * nx)]"
proof -
  have row: "map (\<lambda>(y, x). x + y * nx) (List.product [0..<ny] [0..<nx]) = [0..<ny * nx]"
    using rows_flat [of nx ny] by (simp add: product_concat_map map_concat comp_def)
  have "map (\<lambda>(z, y, x). x + y * nx + z * (ny * nx)) (List.product [0..<nz] (List.product [0..<ny] [0..<nx])) =
      concat (map (\<lambda>z. map (\<lambda>i. i + z * (ny * nx)) (map (\<lambda>(y, x). x + y * nx) (List.product [0..<ny] [0..<nx]))) [0..<nz])"
    by (simp add: product_concat_map [of "[0..<nz]"] map_concat comp_def case_prod_unfold)
  then show ?thesis unfolding row rows_flat .
qed

lemma full_flat:
  assumes "wg_WorkItems wg = []" "wg_CurrSizeX wg = wg_SizeX wg" "wg_CurrSizeY wg = wg_SizeY wg" "0 \<le> wg_SizeX wg" "0 \<le> wg_SizeY wg"
  defines "items \<equiv> wg_WorkItems (spawnWorkItems wg)"
  shows "map (FlattenedID wg) items = map int [0..<length items]"
proof -
  obtain nx ny where n: "wg_SizeX wg = int nx" "wg_SizeY wg = int ny" using assms(4,5) by (metis nonneg_int_cases)
  let ?P = "List.product [0..<nat (wg_CurrSizeZ wg)] (List.product [0..<ny] [0..<nx])"
  have w: "wg\<lparr>wg_WorkItems := []\<rparr> = wg" using assms(1) by simp
  have i: "items = map (\<lambda>(z, y, x). \<lparr>wi_IDX = int x, wi_IDY = int y, wi_IDZ = int z\<rparr>) ?P"
    unfolding items_def using items_product [of wg] by (simp add: w assms(2,3) n)
  have "map (FlattenedID wg) items = map int (map (\<lambda>(z, y, x). x + y * nx + z * (ny * nx)) ?P)"
    unfolding i by (simp add: FlattenedID_def n case_prod_unfold mult.assoc mult.commute)
  also have "\<dots> = map int [0..<length ?P]" unfolding flat_product by simp
  finally show ?thesis by (simp add: i)
qed

text \<open>The loop of \<^verbatim>\<open>NextWG\<close> leaves the lists of the new work-group alone and gives it sizes that are not negative.\<close>

lemma step_shape:
  assumes "(case g of None \<Rightarrow> Some (Some w, b) | Some f \<Rightarrow> if f p w then Some (Some w, b) else loop b w) = Some r" "Q w b"
  shows "\<exists>w b. Q w b \<and> (r = (Some w, b) \<or> loop b w = Some r)"
  using assms by (intro exI [of _ w] exI [of _ b]) (auto split: option.splits if_splits)

definition fresh_group :: "'c gridBuilder \<Rightarrow> 'c WorkGroup \<Rightarrow> 'c gridBuilder \<Rightarrow> bool" where
  "fresh_group b wg b' \<longleftrightarrow> wg_SizeX wg = uint (pk_WorkgroupSizeX (gb_packet b)) \<and> wg_SizeY wg = uint (pk_WorkgroupSizeY (gb_packet b)) \<and>
     wg_Packet wg = Some (gb_packet b) \<and> gb_packet b' = gb_packet b \<and> gb_hsaco b' = gb_hsaco b \<and> gb_packetAddr b' = gb_packetAddr b"

lemma next_loop_fields:
  assumes "next_loop b wg = Some (Some wg', b')"
  shows "wg_WorkItems wg' = wg_WorkItems wg \<and> wg_Wavefronts wg' = wg_Wavefronts wg \<and> fresh_group b wg' b'"
proof -
  have "\<forall>wg' b'. r = (Some wg', b') \<longrightarrow> wg_WorkItems wg' = wg_WorkItems wg \<and> wg_Wavefronts wg' = wg_Wavefronts wg \<and> fresh_group b wg' b'"
    if "next_loop b wg = Some r" for r
    using that
  proof (induction rule: next_loop.raw_induct [rotated, consumes 1])
    case (1 loop b wg r)
    let ?p = "gb_packet b"
    show ?case
    proof (cases "uint (pk_GridSizeX ?p) - gb_xid b * uint (pk_WorkgroupSizeX ?p) \<le> 0 \<or> uint (pk_GridSizeY ?p) - gb_yid b * uint (pk_WorkgroupSizeY ?p) \<le> 0 \<or>
        uint (pk_GridSizeZ ?p) - gb_zid b * uint (pk_WorkgroupSizeZ ?p) \<le> 0")
      case True
      then have "r = (None, b)" using 1(2) by (simp add: Let_def)
      then show ?thesis by simp
    next
      case False
      have "\<exists>w c. (wg_WorkItems w = wg_WorkItems wg \<and> wg_Wavefronts w = wg_Wavefronts wg \<and> fresh_group b w c) \<and> (r = (Some w, c) \<or> loop c w = Some r)"
        by (rule step_shape [where p = ?p and loop = loop, OF 1(2) [unfolded Let_def if_not_P [OF False]]]) (simp add: fresh_group_def)
      then show ?thesis using 1(1) by (fastforce simp: fresh_group_def)
    qed
  qed
  then show ?thesis using assms by blast
qed

text \<open>The shape of a work-group that is full in x and y.\<close>

lemma NextWG_full:
  assumes "NextWG b nextID = Inr (Some wg, b', nextID')" "wg_CurrSizeX wg = wg_SizeX wg" "wg_CurrSizeY wg = wg_SizeY wg"
  shows "fresh_group b wg b'" "in_blocks b (wg_WorkItems wg) (wg_Wavefronts wg)"
    "map (FlattenedID wg) (wg_WorkItems wg) = map int [0..<length (wg_WorkItems wg)]"
    "\<forall>wi \<in> set (wg_WorkItems wg). 0 \<le> wi_IDX wi \<and> wi_IDX wi < wg_SizeX wg \<and> 0 \<le> wi_IDY wi \<and> wi_IDY wi < wg_SizeY wg \<and> 0 \<le> wi_IDZ wi"
proof -
  obtain uid n where g: "sequentialIDGenerator_Generate nextID = (uid, n)" by fastforce
  obtain w where l: "next_loop b (WorkGroup0\<lparr>wg_UID := uid\<rparr>) = Some (Some w, b')"
    and f: "formWavefronts b' (spawnWorkItems w) n = Inr (wg, nextID')"
    using assms(1) by (auto simp: NextWG_def NewWorkGroup_def g bindR_eq_Inr split: option.splits)
  have w: "wg_WorkItems w = []" "wg_Wavefronts w = []" "fresh_group b w b'" using next_loop_fields [OF l] by (simp_all add: WorkGroup0_def)
  obtain wfs where wg: "wg = (spawnWorkItems w)\<lparr>wg_Wavefronts := wfs\<rparr>"
    and fl: "form_loop b' (spawnWorkItems w) (wg_WorkItems (spawnWorkItems w)) [] n = Inr (wfs, nextID')"
    using f by (auto simp: formWavefronts_def bindR_eq_Inr spawnWorkItems_def w)
  have c: "wg_CurrSizeX w = wg_SizeX w" "wg_CurrSizeY w = wg_SizeY w" "0 \<le> wg_SizeX w" "0 \<le> wg_SizeY w"
    using assms(2,3) w(3) by (simp_all add: wg spawnWorkItems_def fresh_group_def)
  note flat = full_flat [OF w(1) c]
  have F: "FlattenedID (spawnWorkItems w) = FlattenedID w" "FlattenedID wg = FlattenedID w" by (auto simp: FlattenedID_def spawnWorkItems_def wg)
  show "fresh_group b wg b'" using w(3) by (simp add: wg fresh_group_def spawnWorkItems_def)
  show "map (FlattenedID wg) (wg_WorkItems wg) = map int [0..<length (wg_WorkItems wg)]" using flat by (simp add: F) (simp add: wg)
  have "in_blocks b' [] []" by (simp add: in_blocks_def)
  from form_loop_blocks [OF this, of "spawnWorkItems w" "wg_WorkItems (spawnWorkItems w)" n] flat fl
  have "in_blocks b' (wg_WorkItems wg) wfs" by (simp add: F wg)
  then show "in_blocks b (wg_WorkItems wg) (wg_Wavefronts wg)" using w(3) by (simp add: wg in_blocks_def fresh_group_def)
  show "\<forall>wi \<in> set (wg_WorkItems wg). 0 \<le> wi_IDX wi \<and> wi_IDX wi < wg_SizeX wg \<and> 0 \<le> wi_IDY wi \<and> wi_IDY wi < wg_SizeY wg \<and> 0 \<le> wi_IDZ wi"
    using c by (auto simp: wg spawnWorkItems_def w)
qed

end
