(* ===== verification/Wavefront_Init.thy ===== *)
theory Wavefront_Init
  imports Emu_Unit Inst_Format Grid_Wavefronts
begin

text \<open>
  The code object of a kernel (\<^verbatim>\<open>mgpusim/insts/hsaco.go\<close>) and how the emulator's compute unit sets the registers of the wavefronts of a
  work-group before it runs them (\<^verbatim>\<open>initWfs\<close>, \<^verbatim>\<open>initLDS\<close> and \<^verbatim>\<open>initWfRegs\<close> of \<^verbatim>\<open>mgpusim/emu/computeunit.go\<close>).
  The wavefront of the package \<^verbatim>\<open>emu\<close> embeds the one the grid builder made, which is passed beside it, as is the work-group it
  belongs to. The header is modelled up to its register counts; no code reads the fields after them.
\<close>

section \<open>Code objects\<close>

record HsaCoHeader =
  co_CodeVersionMajor :: u32
  co_CodeVersionMinor :: u32
  co_MachineKind :: "16 word"
  co_MachineVersionMajor :: "16 word"
  co_MachineVersionMinor :: "16 word"
  co_MachineVersionStepping :: "16 word"
  co_KernelCodeEntryByteOffset :: u64
  co_KernelCodePrefetchByteOffset :: u64
  co_KernelCodePrefetchByteSize :: u64
  co_MaxScratchBackingMemoryByteSize :: u64
  co_ComputePgmRsrc1 :: u32
  co_ComputePgmRsrc2 :: u32
  co_Flags :: u32
  co_WIPrivateSegmentByteSize :: u32
  co_WGGroupSegmentByteSize :: u32
  co_GDSSegmentByteSize :: u32
  co_KernargSegmentByteSize :: u64
  co_WGFBarrierCount :: u32
  co_WFSgprCount :: "16 word"
  co_WIVgprCount :: "16 word"

record HsaCo = HsaCoHeader +
  co_Data :: "byte list"

definition NewHsaCo :: HsaCo where
  "NewHsaCo = \<lparr>co_CodeVersionMajor = 0, co_CodeVersionMinor = 0, co_MachineKind = 0, co_MachineVersionMajor = 0, co_MachineVersionMinor = 0,
     co_MachineVersionStepping = 0, co_KernelCodeEntryByteOffset = 0, co_KernelCodePrefetchByteOffset = 0, co_KernelCodePrefetchByteSize = 0,
     co_MaxScratchBackingMemoryByteSize = 0, co_ComputePgmRsrc1 = 0, co_ComputePgmRsrc2 = 0, co_Flags = 0, co_WIPrivateSegmentByteSize = 0,
     co_WGGroupSegmentByteSize = 0, co_GDSSegmentByteSize = 0, co_KernargSegmentByteSize = 0, co_WGFBarrierCount = 0, co_WFSgprCount = 0,
     co_WIVgprCount = 0, co_Data = []\<rparr>"

definition InstructionData :: "HsaCo \<Rightarrow> byte list result" where
  "InstructionData co = (if 256 \<le> length (co_Data co) then Inr (drop 256 (co_Data co)) else Inl IndexOutOfRange)"

definition WorkItemVgprCount :: "'a HsaCoHeader_scheme \<Rightarrow> u32" where
  "WorkItemVgprCount h = extractBits (co_ComputePgmRsrc1 h) 0 5"

definition WavefrontSgprCount :: "'a HsaCoHeader_scheme \<Rightarrow> u32" where
  "WavefrontSgprCount h = extractBits (co_ComputePgmRsrc1 h) 6 9"

definition co_Priority :: "'a HsaCoHeader_scheme \<Rightarrow> u32" where
  "co_Priority h = extractBits (co_ComputePgmRsrc1 h) 10 11"

definition EnableSgprPrivateSegmentWaveByteOffset :: "'a HsaCoHeader_scheme \<Rightarrow> bool" where
  "EnableSgprPrivateSegmentWaveByteOffset h \<longleftrightarrow> extractBits (co_ComputePgmRsrc2 h) 0 0 \<noteq> 0"

definition UserSgprCount :: "'a HsaCoHeader_scheme \<Rightarrow> u32" where
  "UserSgprCount h = extractBits (co_ComputePgmRsrc2 h) 1 5"

definition EnableSgprWorkGroupIDX :: "'a HsaCoHeader_scheme \<Rightarrow> bool" where
  "EnableSgprWorkGroupIDX h \<longleftrightarrow> extractBits (co_ComputePgmRsrc2 h) 7 7 \<noteq> 0"

definition EnableSgprWorkGroupIDY :: "'a HsaCoHeader_scheme \<Rightarrow> bool" where
  "EnableSgprWorkGroupIDY h \<longleftrightarrow> extractBits (co_ComputePgmRsrc2 h) 8 8 \<noteq> 0"

definition EnableSgprWorkGroupIDZ :: "'a HsaCoHeader_scheme \<Rightarrow> bool" where
  "EnableSgprWorkGroupIDZ h \<longleftrightarrow> extractBits (co_ComputePgmRsrc2 h) 9 9 \<noteq> 0"

definition EnableSgprWorkGroupInfo :: "'a HsaCoHeader_scheme \<Rightarrow> bool" where
  "EnableSgprWorkGroupInfo h \<longleftrightarrow> extractBits (co_ComputePgmRsrc2 h) 10 10 \<noteq> 0"

definition EnableVgprWorkItemID :: "'a HsaCoHeader_scheme \<Rightarrow> u32" where
  "EnableVgprWorkItemID h = extractBits (co_ComputePgmRsrc2 h) 11 12"

definition EnableExceptionAddressWatch :: "'a HsaCoHeader_scheme \<Rightarrow> bool" where
  "EnableExceptionAddressWatch h \<longleftrightarrow> extractBits (co_ComputePgmRsrc2 h) 13 13 \<noteq> 0"

definition EnableExceptionMemoryViolation :: "'a HsaCoHeader_scheme \<Rightarrow> bool" where
  "EnableExceptionMemoryViolation h \<longleftrightarrow> extractBits (co_ComputePgmRsrc2 h) 14 14 \<noteq> 0"

definition EnableSgprPrivateSegmentBuffer :: "'a HsaCoHeader_scheme \<Rightarrow> bool" where
  "EnableSgprPrivateSegmentBuffer h \<longleftrightarrow> extractBits (co_Flags h) 0 0 \<noteq> 0"

definition EnableSgprDispatchPtr :: "'a HsaCoHeader_scheme \<Rightarrow> bool" where
  "EnableSgprDispatchPtr h \<longleftrightarrow> extractBits (co_Flags h) 1 1 \<noteq> 0"

definition EnableSgprQueuePtr :: "'a HsaCoHeader_scheme \<Rightarrow> bool" where
  "EnableSgprQueuePtr h \<longleftrightarrow> extractBits (co_Flags h) 2 2 \<noteq> 0"

definition EnableSgprKernelArgSegmentPtr :: "'a HsaCoHeader_scheme \<Rightarrow> bool" where
  "EnableSgprKernelArgSegmentPtr h \<longleftrightarrow> extractBits (co_Flags h) 3 3 \<noteq> 0"

definition EnableSgprDispatchID :: "'a HsaCoHeader_scheme \<Rightarrow> bool" where
  "EnableSgprDispatchID h \<longleftrightarrow> extractBits (co_Flags h) 4 4 \<noteq> 0"

definition EnableSgprFlatScratchInit :: "'a HsaCoHeader_scheme \<Rightarrow> bool" where
  "EnableSgprFlatScratchInit h \<longleftrightarrow> extractBits (co_Flags h) 5 5 \<noteq> 0"

definition EnableSgprPrivateSegementSize :: "'a HsaCoHeader_scheme \<Rightarrow> bool" where
  "EnableSgprPrivateSegementSize h \<longleftrightarrow> extractBits (co_Flags h) 6 6 \<noteq> 0"

definition EnableSgprGridWorkGroupCountX :: "'a HsaCoHeader_scheme \<Rightarrow> bool" where
  "EnableSgprGridWorkGroupCountX h \<longleftrightarrow> extractBits (co_Flags h) 7 7 \<noteq> 0"

definition EnableSgprGridWorkGroupCountY :: "'a HsaCoHeader_scheme \<Rightarrow> bool" where
  "EnableSgprGridWorkGroupCountY h \<longleftrightarrow> extractBits (co_Flags h) 8 8 \<noteq> 0"

definition EnableSgprGridWorkGroupCountZ :: "'a HsaCoHeader_scheme \<Rightarrow> bool" where
  "EnableSgprGridWorkGroupCountZ h \<longleftrightarrow> extractBits (co_Flags h) 9 9 \<noteq> 0"

section \<open>Scalar registers\<close>

text \<open>
  The scalar registers are filled from the bottom: the byte position \<^verbatim>\<open>SGPRPtr\<close> goes with the wavefront. A value that the simulator
  does not support only moves the position.
\<close>

definition skip_sgprs :: "bool \<Rightarrow> nat \<Rightarrow> Wavefront \<times> nat \<Rightarrow> (Wavefront \<times> nat) result" where
  "skip_sgprs en n = (\<lambda>(wv, SGPRPtr). Inr (wv, if en then SGPRPtr + n else SGPRPtr))"

definition put_sgprs :: "bool \<Rightarrow> byte list result \<Rightarrow> Wavefront \<times> nat \<Rightarrow> (Wavefront \<times> nat) result" where
  "put_sgprs en val = (\<lambda>(wv, SGPRPtr).
     if en then
       bindR val (\<lambda>bs.
       bindR (copy_range (wf_SRegFile wv) SGPRPtr (length bs) bs) (\<lambda>f. Inr (wv\<lparr>wf_SRegFile := f\<rparr>, SGPRPtr + length bs)))
     else Inr (wv, SGPRPtr))"

text \<open>\<^verbatim>\<open>(GridSize + uint32(WorkgroupSize) - 1) / uint32(WorkgroupSize)\<close>, in 32 bits.\<close>

definition wg_count :: "u32 \<Rightarrow> 16 word \<Rightarrow> byte list result" where
  "wg_count grid wgs = (if wgs = 0 then Inl DivideByZero else Inr (Uint32ToBytes ((grid + ucast wgs - 1) div ucast wgs)))"

definition init_sgprs :: "HsaCo \<Rightarrow> HsaKernelDispatchPacket \<Rightarrow> u64 \<Rightarrow> HsaCo WorkGroup \<Rightarrow> Wavefront \<Rightarrow> Wavefront result" where
  "init_sgprs co pkt packetAddress wg wv =
     bindR (skip_sgprs (EnableSgprPrivateSegmentBuffer co) 16 (wv, 0)) (\<lambda>s.
     bindR (put_sgprs (EnableSgprDispatchPtr co) (Inr (Uint64ToBytes packetAddress)) s) (\<lambda>s.
     bindR (skip_sgprs (EnableSgprQueuePtr co) 8 s) (\<lambda>s.
     bindR (put_sgprs (EnableSgprKernelArgSegmentPtr co) (Inr (Uint64ToBytes (pk_KernargAddress pkt))) s) (\<lambda>s.
     bindR (skip_sgprs (EnableSgprDispatchID co) 8 s) (\<lambda>s.
     bindR (skip_sgprs (EnableSgprFlatScratchInit co) 8 s) (\<lambda>s.
     bindR (skip_sgprs (EnableSgprPrivateSegementSize co) 4 s) (\<lambda>s.
     bindR (put_sgprs (EnableSgprGridWorkGroupCountX co) (wg_count (pk_GridSizeX pkt) (pk_WorkgroupSizeX pkt)) s) (\<lambda>s.
     bindR (put_sgprs (EnableSgprGridWorkGroupCountY co) (wg_count (pk_GridSizeY pkt) (pk_WorkgroupSizeY pkt)) s) (\<lambda>s.
     bindR (put_sgprs (EnableSgprGridWorkGroupCountZ co) (wg_count (pk_GridSizeZ pkt) (pk_WorkgroupSizeZ pkt)) s) (\<lambda>s.
     bindR (put_sgprs (EnableSgprWorkGroupIDX co) (Inr (Uint32ToBytes (of_int (wg_IDX wg)))) s) (\<lambda>s.
     bindR (put_sgprs (EnableSgprWorkGroupIDY co) (Inr (Uint32ToBytes (of_int (wg_IDY wg)))) s) (\<lambda>s.
     bindR (put_sgprs (EnableSgprWorkGroupIDZ co) (Inr (Uint32ToBytes (of_int (wg_IDZ wg)))) s) (\<lambda>s.
     bindR (skip_sgprs (EnableSgprWorkGroupInfo co) 4 s) (\<lambda>s.
     bindR (skip_sgprs (EnableSgprPrivateSegmentWaveByteOffset co) 4 s) (\<lambda>(wv, SGPRPtr). Inr wv)))))))))))))))"

section \<open>Vector registers and the whole work-group\<close>

text \<open>One turn of the loop over the 64 lanes; \<^verbatim>\<open>i\<close> is not negative, so \<open>div\<close> and \<open>mod\<close> are Go's.\<close>

definition init_lane :: "HsaCo \<Rightarrow> HsaCo WorkGroup \<Rightarrow> int \<Rightarrow> nat \<Rightarrow> Wavefront \<Rightarrow> Wavefront result" where
  "init_lane co wg first laneID wv =
     (let i = first + int laneID; sxy = wg_SizeX wg * wg_SizeY wg
      in if sxy = 0 then Inl DivideByZero
         else let z = i div sxy; y = i mod sxy div wg_SizeX wg; x = i mod sxy mod wg_SizeX wg
              in bindR (WriteReg (VReg 0) 1 laneID (Uint32ToBytes (of_int x)) wv) (\<lambda>wv.
                 bindR (if 0 < EnableVgprWorkItemID co then WriteReg (VReg 1) 1 laneID (Uint32ToBytes (of_int y)) wv else Inr wv) (\<lambda>wv.
                 if 1 < EnableVgprWorkItemID co then WriteReg (VReg 2) 1 laneID (Uint32ToBytes (of_int z)) wv else Inr wv)))"

fun init_lanes :: "HsaCo \<Rightarrow> HsaCo WorkGroup \<Rightarrow> int \<Rightarrow> nat list \<Rightarrow> Wavefront \<Rightarrow> Wavefront result" where
  "init_lanes co wg first [] wv = Inr wv"
| "init_lanes co wg first (laneID # lanes) wv = bindR (init_lane co wg first laneID wv) (init_lanes co wg first lanes)"

definition initWfRegs :: "HsaCo WorkGroup \<Rightarrow> HsaCo kernel_Wavefront \<Rightarrow> Wavefront \<Rightarrow> Wavefront result" where
  "initWfRegs wg kwf wv =
     (case (kw_CodeObject kwf, kw_Packet kwf) of
        (Some co, Some pkt) \<Rightarrow>
          bindR (init_sgprs co pkt (kw_PacketAddress kwf) wg
                   (wv\<lparr>wf_PC := pk_KernelObject pkt + co_KernelCodeEntryByteOffset co, wf_Exec := kw_InitExecMask kwf\<rparr>))
            (init_lanes co wg (kw_FirstWiFlatID kwf) [0..<64])
      | _ \<Rightarrow> Inl NilDereference)"

fun init_wfs :: "HsaCo WorkGroup \<Rightarrow> u32 \<Rightarrow> HsaCo kernel_Wavefront list \<Rightarrow> Wavefront list result" where
  "init_wfs wg pid [] = Inr []"
| "init_wfs wg pid (kwf # kwfs) =
     bindR (initWfRegs wg kwf (NewWavefront\<lparr>wf_pid := pid\<rparr>)) (\<lambda>wv. bindR (init_wfs wg pid kwfs) (\<lambda>wvs. Inr (wv # wvs)))"

definition initLDS :: "HsaCo WorkGroup \<Rightarrow> byte list result" where
  "initLDS wg = (case wg_Packet wg of None \<Rightarrow> Inl NilDereference | Some pkt \<Rightarrow> Inr (replicate (unat (pk_GroupSegmentSize pkt)) 0))"

text \<open>\<^verbatim>\<open>initWfs\<close> gives the wavefronts and the local data share they have in common.\<close>

definition initWfs :: "HsaCo WorkGroup \<Rightarrow> u32 \<Rightarrow> (Wavefront list \<times> byte list) result" where
  "initWfs wg pid = bindR (initLDS wg) (\<lambda>lds. bindR (init_wfs wg pid (wg_Wavefronts wg)) (\<lambda>wvs. Inr (wvs, lds)))"

text \<open>\<^verbatim>\<open>runWG\<close> without the completion event it schedules at the end.\<close>

definition runWG ::
    "nat \<Rightarrow> nat \<Rightarrow> (byte list \<Rightarrow> Inst option) \<Rightarrow> go_float \<Rightarrow> 'm memory_port \<Rightarrow> HsaCo WorkGroup \<Rightarrow> u32 \<Rightarrow> 'm \<Rightarrow>
     (Wavefront list \<times> byte list \<times> 'm) result" where
  "runWG n fuel decode fl mp wg pid m =
     bindR (initWfs wg pid) (\<lambda>(wvs, lds). runWG_loop n fuel decode fl mp wvs (lds, m))"

end
