(* ===== verification/Wavefront_Lanes.thy ===== *)
theory Wavefront_Lanes
  imports Wavefront_Init
begin

text \<open>
  What the emulator's wavefronts hold when they start: the scalar registers are the enabled values one after the other, and the vector
  registers of a lane the identifiers computed from its flat position. For full work-groups these are the identifiers of the work-items the
  grid builder put there; for a work-group cut off in x they need not be.
\<close>

section \<open>What the scalar registers hold\<close>

definition sgpr_field :: "bool \<Rightarrow> byte list \<Rightarrow> byte list" where
  "sgpr_field en bs = (if en then bs else [])"

text \<open>The layout of the initial scalar registers: the enabled values one after the other.\<close>

definition groups_of :: "u32 \<Rightarrow> 16 word \<Rightarrow> u32" where
  "groups_of grid wgs = (grid + ucast wgs - 1) div ucast wgs"

definition sgpr_layout :: "HsaCo \<Rightarrow> HsaKernelDispatchPacket \<Rightarrow> u64 \<Rightarrow> HsaCo WorkGroup \<Rightarrow> byte list" where
  "sgpr_layout co pkt packetAddress wg =
     sgpr_field (EnableSgprPrivateSegmentBuffer co) (replicate 16 0) @ sgpr_field (EnableSgprDispatchPtr co) (Uint64ToBytes packetAddress) @
     sgpr_field (EnableSgprQueuePtr co) (replicate 8 0) @ sgpr_field (EnableSgprKernelArgSegmentPtr co) (Uint64ToBytes (pk_KernargAddress pkt)) @
     sgpr_field (EnableSgprDispatchID co) (replicate 8 0) @ sgpr_field (EnableSgprFlatScratchInit co) (replicate 8 0) @
     sgpr_field (EnableSgprPrivateSegementSize co) (replicate 4 0) @
     sgpr_field (EnableSgprGridWorkGroupCountX co) (Uint32ToBytes (groups_of (pk_GridSizeX pkt) (pk_WorkgroupSizeX pkt))) @
     sgpr_field (EnableSgprGridWorkGroupCountY co) (Uint32ToBytes (groups_of (pk_GridSizeY pkt) (pk_WorkgroupSizeY pkt))) @
     sgpr_field (EnableSgprGridWorkGroupCountZ co) (Uint32ToBytes (groups_of (pk_GridSizeZ pkt) (pk_WorkgroupSizeZ pkt))) @
     sgpr_field (EnableSgprWorkGroupIDX co) (Uint32ToBytes (of_int (wg_IDX wg))) @ sgpr_field (EnableSgprWorkGroupIDY co) (Uint32ToBytes (of_int (wg_IDY wg))) @
     sgpr_field (EnableSgprWorkGroupIDZ co) (Uint32ToBytes (of_int (wg_IDZ wg))) @
     sgpr_field (EnableSgprWorkGroupInfo co) (replicate 4 0) @ sgpr_field (EnableSgprPrivateSegmentWaveByteOffset co) (replicate 4 0)"

definition sg :: "Wavefront \<Rightarrow> byte list \<Rightarrow> Wavefront \<times> nat" where
  "sg wv bs = (wv\<lparr>wf_SRegFile := bs @ replicate (408 - length bs) 0\<rparr>, length bs)"

lemma length_sgpr_field: "length (bs @ sgpr_field en v) \<le> length v + n" if "length bs \<le> n"
  using that by (simp add: sgpr_field_def)

lemma zeros_split: "a + k \<le> n \<Longrightarrow> replicate (n - a) x = replicate k x @ replicate (n - (a + k)) x"
  by (simp flip: replicate_add)

lemma sg_skip:
  assumes "length bs \<le> n" "k + n \<le> 408" "length (bs @ sgpr_field en (replicate k 0)) \<le> k + n \<Longrightarrow> F (sg wv (bs @ sgpr_field en (replicate k 0))) = R"
  shows "bindR (skip_sgprs en k (sg wv bs)) F = R"
proof -
  have "skip_sgprs en k (sg wv bs) = Inr (sg wv (bs @ sgpr_field en (replicate k 0)))"
    using assms(1,2) zeros_split [of "length bs" k 408 "0 :: byte"] by (simp add: skip_sgprs_def sg_def sgpr_field_def)
  then show ?thesis using assms(3) length_sgpr_field [OF assms(1), of en "replicate k 0"] by simp
qed

lemma copy_at_append: "n = length v \<Longrightarrow> copy_at (bs @ replicate n x @ rest) (length bs) v = bs @ v @ rest"
  by (simp add: copy_at_def)

lemma sg_put:
  assumes "length bs \<le> n" "length v + n \<le> 408" "length (bs @ sgpr_field en v) \<le> length v + n \<Longrightarrow> F (sg wv (bs @ sgpr_field en v)) = R"
  shows "bindR (put_sgprs en (Inr v) (sg wv bs)) F = R"
proof -
  have "put_sgprs en (Inr v) (sg wv bs) = Inr (sg wv (bs @ sgpr_field en v))"
    using assms(1,2) zeros_split [of "length bs" "length v" 408 "0 :: byte"]
    by (simp add: put_sgprs_def sg_def sgpr_field_def copy_range_def copy_at_append)
  then show ?thesis using assms(3) length_sgpr_field [OF assms(1), of en v] by simp
qed

lemma init_sgprs_ok:
  assumes "wf_SRegFile wv = replicate 408 0" "pk_WorkgroupSizeX pkt \<noteq> 0" "pk_WorkgroupSizeY pkt \<noteq> 0" "pk_WorkgroupSizeZ pkt \<noteq> 0"
  shows "init_sgprs co pkt addr wg wv =
    Inr (wv\<lparr>wf_SRegFile := sgpr_layout co pkt addr wg @ replicate (408 - length (sgpr_layout co pkt addr wg)) 0\<rparr>)"
proof -
  have start: "(wv, 0) = sg wv []" using assms(1) by (simp add: sg_def)
  have c: "wg_count g w = Inr (Uint32ToBytes (groups_of g w))" if "w \<noteq> 0" for g w using that by (simp add: wg_count_def groups_of_def)
  have z: "length ([] :: byte list) \<le> 0" by simp
  show ?thesis
    unfolding init_sgprs_def start c [OF assms(2)] c [OF assms(3)] c [OF assms(4)]
    apply (insert z)
    apply (rule sg_skip, assumption, simp)
    apply (rule sg_put, assumption, simp)
    apply (rule sg_skip, assumption, simp)
    apply (rule sg_put, assumption, simp)
    apply (rule sg_skip, assumption, simp)+
    apply (rule sg_put, assumption, simp)+
    apply (rule sg_skip, assumption, simp)+
    by (simp add: sg_def sgpr_layout_def)
qed

section \<open>What the vector registers hold\<close>

definition lane_ids :: "HsaCo \<Rightarrow> HsaCo WorkGroup \<Rightarrow> int \<Rightarrow> nat \<Rightarrow> Wavefront \<Rightarrow> bool" where
  "lane_ids co wg first lane wv \<longleftrightarrow>
     (let i = first + int lane; sxy = wg_SizeX wg * wg_SizeY wg
      in VRegValue lane 0 wv = Inr (of_int (i mod sxy mod wg_SizeX wg)) \<and>
         (0 < EnableVgprWorkItemID co \<longrightarrow> VRegValue lane 1 wv = Inr (of_int (i mod sxy div wg_SizeX wg))) \<and>
         (1 < EnableVgprWorkItemID co \<longrightarrow> VRegValue lane 2 wv = Inr (of_int (i div sxy))))"

definition wr :: "nat \<Rightarrow> nat \<Rightarrow> u32 \<Rightarrow> Wavefront \<Rightarrow> Wavefront" where
  "wr lane i v wv = wv\<lparr>wf_VRegFile := copy_at (wf_VRegFile wv) (1024 * lane + 4 * i) (Uint32ToBytes v)\<rparr>"

lemma WriteReg_wr: "wf_ok wv \<Longrightarrow> lane < 64 \<Longrightarrow> i < 256 \<Longrightarrow> WriteReg (VReg i) (Suc 0) lane (Uint32ToBytes v) wv = Inr (wr lane i v wv)"
  by (simp add: VReg_def WriteReg_V wr_def)

lemma wr_ok: "wf_ok wv \<Longrightarrow> lane < 64 \<Longrightarrow> i < 256 \<Longrightarrow> wf_ok (wr lane i v wv)"
  by (simp add: wf_ok_def wr_def)

lemma VRegValue_wr:
  assumes "wf_ok wv" "lane < 64" "i < 256" "lane' < 64" "i' < 256"
  shows "VRegValue lane' i' (wr lane i v wv) = (if lane' = lane \<and> i' = i then Inr v else VRegValue lane' i' wv)"
proof (cases "lane' = lane \<and> i' = i")
  case True
  then have "slice_range (wf_VRegFile (wr lane i v wv)) (lane' * 1024 + i' * 4) 4 = Inr (Uint32ToBytes v)"
    using assms by (simp add: slice_range_def wr_def wf_ok_def mult.commute copy_at_read_same)
  then show ?thesis using True by (simp add: VRegValue_def)
next
  case False
  then have "lane' * 1024 + i' * 4 + 4 \<le> 1024 * lane + 4 * i \<or> 1024 * lane + 4 * i + 4 \<le> lane' * 1024 + i' * 4"
    using assms(3,5) by (cases lane lane' rule: linorder_cases; cases i i' rule: linorder_cases) auto
  then have "slice_range (wf_VRegFile (wr lane i v wv)) (lane' * 1024 + i' * 4) 4 = slice_range (wf_VRegFile wv) (lane' * 1024 + i' * 4) 4"
    using assms by (simp add: wr_def wf_ok_def slice_range_other)
  then show ?thesis using False by (auto simp: VRegValue_def)
qed

lemma init_lane_ok:
  assumes "wf_ok wv" "lane < 64" "wg_SizeX wg * wg_SizeY wg \<noteq> 0"
  shows "\<exists>f. init_lane co wg first lane wv = Inr (wv\<lparr>wf_VRegFile := f\<rparr>) \<and> wf_ok (wv\<lparr>wf_VRegFile := f\<rparr>) \<and>
    lane_ids co wg first lane (wv\<lparr>wf_VRegFile := f\<rparr>) \<and>
    (\<forall>l i. l < 64 \<longrightarrow> i < 256 \<longrightarrow> l \<noteq> lane \<longrightarrow> VRegValue l i (wv\<lparr>wf_VRegFile := f\<rparr>) = VRegValue l i wv)"
proof -
  let ?i = "first + int lane" and ?s = "wg_SizeX wg * wg_SizeY wg"
  let ?w1 = "wr lane 0 (of_int (?i mod ?s mod wg_SizeX wg)) wv"
  let ?w2 = "if 0 < EnableVgprWorkItemID co then wr lane 1 (of_int (?i mod ?s div wg_SizeX wg)) ?w1 else ?w1"
  let ?w3 = "if 1 < EnableVgprWorkItemID co then wr lane 2 (of_int (?i div ?s)) ?w2 else ?w2"
  have "init_lane co wg first lane wv = Inr ?w3" using assms by (simp add: init_lane_def Let_def WriteReg_wr wr_ok)
  moreover have "wf_ok ?w3" using assms by (simp add: wr_ok)
  moreover have "lane_ids co wg first lane ?w3" using assms by (simp add: lane_ids_def Let_def VRegValue_wr wr_ok)
  moreover have "\<forall>l i. l < 64 \<longrightarrow> i < 256 \<longrightarrow> l \<noteq> lane \<longrightarrow> VRegValue l i ?w3 = VRegValue l i wv" using assms by (simp add: VRegValue_wr wr_ok)
  moreover have "wv\<lparr>wf_VRegFile := wf_VRegFile ?w3\<rparr> = ?w3" by (simp add: wr_def)
  ultimately show ?thesis by (intro exI [of _ "wf_VRegFile ?w3"]) (simp only: simp_thms)
qed

lemma lane_ids_cong: "(\<And>i. i < 256 \<Longrightarrow> VRegValue lane i wv' = VRegValue lane i wv) \<Longrightarrow> lane_ids co wg first lane wv' = lane_ids co wg first lane wv"
  by (simp add: lane_ids_def Let_def)

lemma init_lanes_ok:
  assumes "wf_ok wv" "\<forall>l \<in> set lanes. l < 64" "distinct lanes" "wg_SizeX wg * wg_SizeY wg \<noteq> 0"
  shows "\<exists>f. init_lanes co wg first lanes wv = Inr (wv\<lparr>wf_VRegFile := f\<rparr>) \<and> wf_ok (wv\<lparr>wf_VRegFile := f\<rparr>) \<and>
    (\<forall>l \<in> set lanes. lane_ids co wg first l (wv\<lparr>wf_VRegFile := f\<rparr>)) \<and>
    (\<forall>l i. l < 64 \<longrightarrow> i < 256 \<longrightarrow> l \<notin> set lanes \<longrightarrow> VRegValue l i (wv\<lparr>wf_VRegFile := f\<rparr>) = VRegValue l i wv)"
  using assms(1-3)
proof (induction lanes arbitrary: wv)
  case Nil
  then show ?case by (intro exI [of _ "wf_VRegFile wv"]) simp
next
  case (Cons lane lanes)
  obtain f where f: "init_lane co wg first lane wv = Inr (wv\<lparr>wf_VRegFile := f\<rparr>)" "wf_ok (wv\<lparr>wf_VRegFile := f\<rparr>)"
    "lane_ids co wg first lane (wv\<lparr>wf_VRegFile := f\<rparr>)"
    "\<And>l i. l < 64 \<Longrightarrow> i < 256 \<Longrightarrow> l \<noteq> lane \<Longrightarrow> VRegValue l i (wv\<lparr>wf_VRegFile := f\<rparr>) = VRegValue l i wv"
    using init_lane_ok [OF Cons.prems(1) _ assms(4), of lane co first] Cons.prems(2) by auto
  obtain g where g: "init_lanes co wg first lanes (wv\<lparr>wf_VRegFile := f\<rparr>) = Inr (wv\<lparr>wf_VRegFile := g\<rparr>)" "wf_ok (wv\<lparr>wf_VRegFile := g\<rparr>)"
    "\<forall>l \<in> set lanes. lane_ids co wg first l (wv\<lparr>wf_VRegFile := g\<rparr>)"
    "\<And>l i. l < 64 \<Longrightarrow> i < 256 \<Longrightarrow> l \<notin> set lanes \<Longrightarrow> VRegValue l i (wv\<lparr>wf_VRegFile := g\<rparr>) = VRegValue l i (wv\<lparr>wf_VRegFile := f\<rparr>)"
    using Cons.IH [OF f(2)] Cons.prems(2,3) by auto
  have "lane_ids co wg first lane (wv\<lparr>wf_VRegFile := g\<rparr>)"
    using f(3) lane_ids_cong [of lane "wv\<lparr>wf_VRegFile := g\<rparr>" "wv\<lparr>wf_VRegFile := f\<rparr>"] g(4) [of lane] Cons.prems(2,3) by simp
  then show ?case using f(1,4) g by (intro exI [of _ g]) simp
qed

text \<open>In a full work-group, the identifiers in a lane are those of its work-item.\<close>

lemma flat_parts:
  fixes x y z sx sy :: int
  assumes "0 \<le> x" "x < sx" "0 \<le> y" "y < sy" "i = x + y * sx + z * sx * sy"
  shows "i mod (sx * sy) mod sx = x" "i mod (sx * sy) div sx = y" "i div (sx * sy) = z"
proof -
  have "(y + 1) * sx \<le> sy * sx" using assms by (intro mult_right_mono) auto
  then have r: "0 \<le> x + y * sx" "x + y * sx < sx * sy" using assms by (auto simp: algebra_simps)
  have i: "i = (x + y * sx) + (sx * sy) * z" using assms(5) by (simp add: algebra_simps)
  have g: "(a + n * z) mod n = a" "(a + n * z) div n = z" if "0 \<le> a" "a < n" for a n :: int using that by simp_all
  have m: "i mod (sx * sy) = x + y * sx" unfolding i by (rule g(1) [OF r])
  show "i div (sx * sy) = z" unfolding i by (rule g(2) [OF r])
  show "i mod (sx * sy) mod sx = x" "i mod (sx * sy) div sx = y" unfolding m using assms by simp_all
qed

lemma sgpr_field_le: "length v \<le> m \<Longrightarrow> length xs \<le> m - length v \<Longrightarrow> length (sgpr_field en v @ xs) \<le> m" "length v \<le> m \<Longrightarrow> length (sgpr_field en v) \<le> m"
  by (auto simp: sgpr_field_def)

lemma sgpr_layout_length: "length (sgpr_layout co pkt addr wg) \<le> 408"
  unfolding sgpr_layout_def by (rule sgpr_field_le(1), simp)+ (rule sgpr_field_le(2), simp)

lemma initWfRegs_ok:
  assumes "kw_CodeObject kwf = Some co" "kw_Packet kwf = Some pkt" "pk_WorkgroupSizeX pkt \<noteq> 0" "pk_WorkgroupSizeY pkt \<noteq> 0" "pk_WorkgroupSizeZ pkt \<noteq> 0"
    "wg_SizeX wg * wg_SizeY wg \<noteq> 0"
  shows "\<exists>wv. initWfRegs wg kwf (NewWavefront\<lparr>wf_pid := pid\<rparr>) = Inr wv \<and> wf_ok wv \<and> wf_pid wv = pid \<and> wf_Exec wv = kw_InitExecMask kwf \<and>
    wf_PC wv = pk_KernelObject pkt + co_KernelCodeEntryByteOffset co \<and> \<not> wf_Completed wv \<and> \<not> wf_AtBarrier wv \<and>
    take (length (sgpr_layout co pkt (kw_PacketAddress kwf) wg)) (wf_SRegFile wv) = sgpr_layout co pkt (kw_PacketAddress kwf) wg \<and>
    (\<forall>lane<64. lane_ids co wg (kw_FirstWiFlatID kwf) lane wv)"
proof -
  let ?L = "sgpr_layout co pkt (kw_PacketAddress kwf) wg"
  let ?start = "NewWavefront\<lparr>wf_pid := pid, wf_PC := pk_KernelObject pkt + co_KernelCodeEntryByteOffset co, wf_Exec := kw_InitExecMask kwf\<rparr>"
  let ?w = "?start\<lparr>wf_SRegFile := ?L @ replicate (408 - length ?L) 0\<rparr>"
  have s: "init_sgprs co pkt (kw_PacketAddress kwf) wg ?start = Inr ?w" by (rule init_sgprs_ok) (use assms in \<open>simp_all add: NewWavefront_def\<close>)
  have ok: "wf_ok ?w" using sgpr_layout_length [of co pkt "kw_PacketAddress kwf" wg] by (simp add: wf_ok_def NewWavefront_def)
  obtain f where "init_lanes co wg (kw_FirstWiFlatID kwf) [0..<64] ?w = Inr (?w\<lparr>wf_VRegFile := f\<rparr>)" "wf_ok (?w\<lparr>wf_VRegFile := f\<rparr>)"
    "\<forall>l \<in> set [0..<64]. lane_ids co wg (kw_FirstWiFlatID kwf) l (?w\<lparr>wf_VRegFile := f\<rparr>)"
    using init_lanes_ok [OF ok, of "[0..<64]" wg co "kw_FirstWiFlatID kwf"] assms(6) by auto
  then show ?thesis using assms(1,2) s by (intro exI [of _ "?w\<lparr>wf_VRegFile := f\<rparr>"]) (simp add: initWfRegs_def NewWavefront_def)
qed

lemma init_wfs_ok:
  assumes "\<And>kwf. kwf \<in> set kwfs \<Longrightarrow> \<exists>wv. initWfRegs wg kwf (NewWavefront\<lparr>wf_pid := pid\<rparr>) = Inr wv \<and> P kwf wv"
  shows "\<exists>wvs. init_wfs wg pid kwfs = Inr wvs \<and> list_all2 P kwfs wvs"
  using assms
proof (induction kwfs)
  case (Cons kwf kwfs)
  then obtain wv wvs where "initWfRegs wg kwf (NewWavefront\<lparr>wf_pid := pid\<rparr>) = Inr wv" "P kwf wv" "init_wfs wg pid kwfs = Inr wvs" "list_all2 P kwfs wvs"
    by (metis list.set_intros)
  then show ?case by simp
qed simp

text \<open>The lane of a work-item: it is active, and the registers have the item's identifiers.\<close>

definition runs_in :: "HsaCo \<Rightarrow> WorkItem \<Rightarrow> nat \<Rightarrow> Wavefront \<Rightarrow> bool" where
  "runs_in co wi lane wv \<longleftrightarrow> bit (wf_Exec wv) lane \<and> VRegValue lane 0 wv = Inr (of_int (wi_IDX wi)) \<and>
     (0 < EnableVgprWorkItemID co \<longrightarrow> VRegValue lane 1 wv = Inr (of_int (wi_IDY wi))) \<and>
     (1 < EnableVgprWorkItemID co \<longrightarrow> VRegValue lane 2 wv = Inr (of_int (wi_IDZ wi)))"

text \<open>
  Claim C10. For a work-group that is full in x and y, the emulator's initialisation succeeds and puts the work-items into lanes one to one:
  the item with flat identifier \<open>i\<close> runs in lane \<open>i mod 64\<close> of wavefront \<open>i div 64\<close> with its identifiers in v0, v1 and v2, and no other lane is
  active. Every wavefront starts at the kernel's entry point, with the enabled scalar values in order from s0.
\<close>

theorem full_group_runs_every_item:
  assumes "NextWG b nextID = Inr (Some wg, b', nextID')" "wg_CurrSizeX wg = wg_SizeX wg" "wg_CurrSizeY wg = wg_SizeY wg"
    "pk_WorkgroupSizeX (gb_packet b) \<noteq> 0" "pk_WorkgroupSizeY (gb_packet b) \<noteq> 0" "pk_WorkgroupSizeZ (gb_packet b) \<noteq> 0"
  shows "\<exists>wvs. initWfs wg pid = Inr (wvs, replicate (unat (pk_GroupSegmentSize (gb_packet b))) 0) \<and>
    length wvs = (length (wg_WorkItems wg) + 63) div 64 \<and>
    (\<forall>i<length (wg_WorkItems wg). FlattenedID wg (wg_WorkItems wg ! i) = int i \<and>
       runs_in (gb_hsaco b) (wg_WorkItems wg ! i) (i mod 64) (wvs ! (i div 64))) \<and>
    (\<forall>j<length wvs. \<forall>lane<64. bit (wf_Exec (wvs ! j)) lane \<longrightarrow> 64 * j + lane < length (wg_WorkItems wg)) \<and>
    (\<forall>wv \<in> set wvs. wf_PC wv = pk_KernelObject (gb_packet b) + co_KernelCodeEntryByteOffset (gb_hsaco b) \<and> wf_pid wv = pid \<and>
       take (length (sgpr_layout (gb_hsaco b) (gb_packet b) (gb_packetAddr b) wg)) (wf_SRegFile wv) =
         sgpr_layout (gb_hsaco b) (gb_packet b) (gb_packetAddr b) wg)"
proof -
  let ?co = "gb_hsaco b" and ?pkt = "gb_packet b" and ?items = "wg_WorkItems wg"
  note G = NextWG_full [OF assms(1-3)]
  have sz: "0 < wg_SizeX wg" "0 < wg_SizeY wg" "wg_Packet wg = Some ?pkt" using G(1) assms(4,5) by (simp_all add: fresh_group_def order_less_le uint_0_iff)
  define P where "P kwf wv \<longleftrightarrow> wf_ok wv \<and> wf_pid wv = pid \<and> wf_Exec wv = kw_InitExecMask kwf \<and>
    wf_PC wv = pk_KernelObject ?pkt + co_KernelCodeEntryByteOffset ?co \<and> \<not> wf_Completed wv \<and> \<not> wf_AtBarrier wv \<and>
    take (length (sgpr_layout ?co ?pkt (kw_PacketAddress kwf) wg)) (wf_SRegFile wv) = sgpr_layout ?co ?pkt (kw_PacketAddress kwf) wg \<and>
    (\<forall>lane<64. lane_ids ?co wg (kw_FirstWiFlatID kwf) lane wv)" for kwf :: "HsaCo kernel_Wavefront" and wv
  have B: "kw_FirstWiFlatID (wg_Wavefronts wg ! j) = 64 * int j" "kw_InitExecMask (wg_Wavefronts wg ! j) = mask (min (length ?items - 64 * j) 64)"
    "kw_CodeObject (wg_Wavefronts wg ! j) = Some ?co" "kw_Packet (wg_Wavefronts wg ! j) = Some ?pkt" "kw_PacketAddress (wg_Wavefronts wg ! j) = gb_packetAddr b"
    if "j < length (wg_Wavefronts wg)" for j using G(2) that by (simp_all add: in_blocks_def)
  have n: "length (wg_Wavefronts wg) = (length ?items + 63) div 64" using G(2) by (simp add: in_blocks_def)
  have "\<exists>wv. initWfRegs wg kwf (NewWavefront\<lparr>wf_pid := pid\<rparr>) = Inr wv \<and> P kwf wv" if kwf: "kwf \<in> set (wg_Wavefronts wg)" for kwf
  proof -
    obtain j where "j < length (wg_Wavefronts wg)" "kwf = wg_Wavefronts wg ! j" using kwf by (auto simp: in_set_conv_nth)
    then show ?thesis unfolding P_def using assms(4-6) sz B by (intro initWfRegs_ok) auto
  qed
  from init_wfs_ok [OF this] obtain wvs where w: "init_wfs wg pid (wg_Wavefronts wg) = Inr wvs" "list_all2 P (wg_Wavefronts wg) wvs" by blast
  have len: "length wvs = length (wg_Wavefronts wg)" using list_all2_lengthD [OF w(2)] by simp
  have p: "P (wg_Wavefronts wg ! j) (wvs ! j)" if "j < length wvs" for j using list_all2_nthD2 [OF w(2) that] .
  have ex: "bit (wf_Exec (wvs ! j)) lane \<longleftrightarrow> 64 * j + lane < length ?items" if "j < length wvs" "lane < 64" for j lane
    using p [OF that(1)] B(2) [of j] that len by (auto simp: P_def bit_mask_iff less_diff_conv add.commute)
  have it: "FlattenedID wg (?items ! i) = int i \<and> runs_in ?co (?items ! i) (i mod 64) (wvs ! (i div 64))" if i: "i < length ?items" for i
  proof
    have "map (FlattenedID wg) ?items ! i = map int [0..<length ?items] ! i" by (simp only: G(3))
    then show f: "FlattenedID wg (?items ! i) = int i" using i by simp
    have j: "i div 64 < length wvs" using i by (simp add: len n)
    have wi: "0 \<le> wi_IDX (?items ! i)" "wi_IDX (?items ! i) < wg_SizeX wg" "0 \<le> wi_IDY (?items ! i)" "wi_IDY (?items ! i) < wg_SizeY wg"
      using G(4) nth_mem [OF i] by auto
    have s: "64 * int (i div 64) + int (i mod 64) = int i" by (metis of_nat_add of_nat_mult of_nat_numeral mult_div_mod_eq)
    note F = flat_parts [OF wi, of "int i" "wi_IDZ (?items ! i)"]
    have "lane_ids ?co wg (64 * int (i div 64)) (i mod 64) (wvs ! (i div 64))" using p [OF j] B(1) [of "i div 64"] j len by (simp add: P_def)
    then show "runs_in ?co (?items ! i) (i mod 64) (wvs ! (i div 64))"
      using F ex [OF j, of "i mod 64"] i f by (simp add: runs_in_def lane_ids_def Let_def s FlattenedID_def)
  qed
  have "wf_PC wv = pk_KernelObject ?pkt + co_KernelCodeEntryByteOffset ?co \<and> wf_pid wv = pid \<and>
      take (length (sgpr_layout ?co ?pkt (gb_packetAddr b) wg)) (wf_SRegFile wv) = sgpr_layout ?co ?pkt (gb_packetAddr b) wg" if wv: "wv \<in> set wvs" for wv
  proof -
    obtain j where "j < length wvs" "wv = wvs ! j" using wv by (auto simp: in_set_conv_nth)
    then show ?thesis using p [of j] B(5) [of j] len by (simp add: P_def)
  qed
  then show ?thesis using w(1) sz(3) ex it len n by (intro exI [of _ wvs]) (simp add: initWfs_def initLDS_def)
qed

section \<open>Examples\<close>

text \<open>A code object that asks for the x and y identifiers of a work-item.\<close>

definition example_code :: HsaCo where
  "example_code = NewHsaCo\<lparr>co_ComputePgmRsrc2 := 0x800, co_KernelCodeEntryByteOffset := 256\<rparr>"

definition example_builder :: "HsaKernelDispatchPacket \<Rightarrow> HsaCo gridBuilder" where
  "example_builder p = \<lparr>gb_hsaco = example_code, gb_packet = p, gb_filter = None, gb_packetAddr = 0, gb_numWG = 1, gb_xid = 0, gb_yid = 0, gb_zid = 0\<rparr>"

definition outline ::
    "(HsaCo WorkGroup option \<times> HsaCo gridBuilder \<times> u64) result \<Rightarrow>
     ((int \<times> int \<times> int \<times> int) \<times> (int \<times> int \<times> int) list \<times> (int \<times> u64 \<times> nat) list) option" where
  "outline r =
     (case r of
        Inr (Some wg, b, n) \<Rightarrow>
          Some ((wg_SizeX wg, wg_CurrSizeX wg, wg_SizeY wg, wg_CurrSizeY wg), map (\<lambda>wi. (wi_IDX wi, wi_IDY wi, wi_IDZ wi)) (wg_WorkItems wg),
            map (\<lambda>w. (kw_FirstWiFlatID w, kw_InitExecMask w, length (kw_WorkItems w))) (wg_Wavefronts wg))
      | _ \<Rightarrow> None)"

lemma outline_full:
  "outline (NextWG (example_builder (example_packet 4 2 4 2)) 0) =
    Some ((4, 4, 2, 2), [(0, 0, 0), (1, 0, 0), (2, 0, 0), (3, 0, 0), (0, 1, 0), (1, 1, 0), (2, 1, 0), (3, 1, 0)], [(0, 0xff, 8)])"
  by code_simp

lemma outline_partial:
  "outline (NextWG (example_builder (example_packet 40 3 4 3)) 0) =
    Some ((40, 4, 3, 3), [(0, 0, 0), (1, 0, 0), (2, 0, 0), (3, 0, 0), (0, 1, 0), (1, 1, 0), (2, 1, 0), (3, 1, 0), (0, 2, 0), (1, 2, 0), (2, 2, 0), (3, 2, 0)],
      [(0, 0xf00000f000f, 12)])"
  by code_simp

lemma outlineD:
  assumes "outline r = Some (sizes, items, wfs)"
  obtains wg b n where "r = Inr (Some wg, b, n)" "sizes = (wg_SizeX wg, wg_CurrSizeX wg, wg_SizeY wg, wg_CurrSizeY wg)"
    "items = map (\<lambda>wi. (wi_IDX wi, wi_IDY wi, wi_IDZ wi)) (wg_WorkItems wg)"
    "wfs = map (\<lambda>w. (kw_FirstWiFlatID w, kw_InitExecMask w, length (kw_WorkItems w))) (wg_Wavefronts wg)"
  using assms by (auto simp: outline_def split: sum.splits option.splits)

text \<open>Every wavefront of a new work-group has the builder's code object and packet.\<close>

definition sourced :: "'c gridBuilder \<Rightarrow> 'c kernel_Wavefront \<Rightarrow> bool" where
  "sourced b w \<longleftrightarrow> kw_CodeObject w = Some (gb_hsaco b) \<and> kw_Packet w = Some (gb_packet b) \<and> kw_PacketAddress w = gb_packetAddr b"

lemma form_loop_source:
  fixes b :: "'c gridBuilder"
  assumes "form_loop b wg items wfs nextID = Inr (wfs', n)" "\<forall>w \<in> set wfs. sourced b w"
  shows "\<forall>w \<in> set wfs'. sourced b w"
  using assms
proof (induction items arbitrary: wfs nextID)
  case (Cons wi items)
  let ?i = "wi_IDZ wi * wg_SizeX wg * wg_SizeY wg + wi_IDY wi * wg_SizeX wg + wi_IDX wi"
  show ?case
  proof (cases "?i mod 64 = 0")
    case True
    obtain w0 :: "'c kernel_Wavefront" and n0 where w0: "kernels_NewWavefront nextID = (w0, n0)" by fastforce
    let ?w = "w0\<lparr>kw_FirstWiFlatID := FlattenedID wg wi, kw_CodeObject := Some (gb_hsaco b), kw_Packet := Some (gb_packet b), kw_PacketAddress := gb_packetAddr b,
      kw_WorkItems := kw_WorkItems w0 @ [wi], kw_InitExecMask := kw_InitExecMask w0 OR push_bit 0 1\<rparr>"
    have "form_loop b wg items (wfs @ [?w]) n0 = Inr (wfs', n)" using Cons.prems(1) by (simp add: Let_def True w0)
    then show ?thesis by (rule Cons.IH) (use Cons.prems(2) in \<open>simp add: sourced_def\<close>)
  next
    case False
    then have ne: "wfs \<noteq> []" using Cons.prems(1) by (auto simp: Let_def)
    let ?w = "(last wfs)\<lparr>kw_WorkItems := kw_WorkItems (last wfs) @ [wi], kw_InitExecMask := kw_InitExecMask (last wfs) OR push_bit (nat (?i mod 64)) 1\<rparr>"
    have "form_loop b wg items (butlast wfs @ [?w]) nextID = Inr (wfs', n)" using Cons.prems(1) False ne by (simp add: Let_def)
    then show ?thesis by (rule Cons.IH) (use Cons.prems(2) ne in \<open>auto simp: sourced_def dest: in_set_butlastD\<close>)
  qed
qed simp

lemma NextWG_source:
  assumes "NextWG b nextID = Inr (Some wg, b', nextID')" "kwf \<in> set (wg_Wavefronts wg)"
  shows "kw_CodeObject kwf = Some (gb_hsaco b) \<and> kw_Packet kwf = Some (gb_packet b) \<and> kw_PacketAddress kwf = gb_packetAddr b" "wg_Packet wg = Some (gb_packet b)"
proof -
  obtain uid n where g: "sequentialIDGenerator_Generate nextID = (uid, n)" by fastforce
  obtain w where l: "next_loop b (WorkGroup0\<lparr>wg_UID := uid\<rparr>) = Some (Some w, b')"
    and f: "formWavefronts b' (spawnWorkItems w) n = Inr (wg, nextID')"
    using assms(1) by (auto simp: NextWG_def NewWorkGroup_def g bindR_eq_Inr split: option.splits)
  have w: "wg_Wavefronts w = []" "fresh_group b w b'" using next_loop_fields [OF l] by (simp_all add: WorkGroup0_def)
  obtain wfs where wg: "wg = (spawnWorkItems w)\<lparr>wg_Wavefronts := wfs\<rparr>"
    and fl: "form_loop b' (spawnWorkItems w) (wg_WorkItems (spawnWorkItems w)) [] n = Inr (wfs, nextID')"
    using f by (auto simp: formWavefronts_def bindR_eq_Inr spawnWorkItems_def w)
  show "kw_CodeObject kwf = Some (gb_hsaco b) \<and> kw_Packet kwf = Some (gb_packet b) \<and> kw_PacketAddress kwf = gb_packetAddr b"
    using form_loop_source [OF fl] assms(2) w(2) by (simp add: wg fresh_group_def sourced_def)
  show "wg_Packet wg = Some (gb_packet b)" using w(2) by (simp add: wg fresh_group_def spawnWorkItems_def)
qed

lemma example_enabled: "EnableVgprWorkItemID example_code = 1"
  by code_simp

theorem full_group_runs_every_item_witness:
  "\<exists>wg b' n wvs. NextWG (example_builder (example_packet 4 2 4 2)) 0 = Inr (Some wg, b', n) \<and> initWfs wg 7 = Inr (wvs, []) \<and> length wvs = 1 \<and>
     runs_in example_code \<lparr>wi_IDX = 2, wi_IDY = 1, wi_IDZ = 0\<rparr> 6 (wvs ! 0)"
proof -
  let ?b = "example_builder (example_packet 4 2 4 2)"
  obtain wg b' n where r: "NextWG ?b 0 = Inr (Some wg, b', n)" "wg_SizeX wg = 4" "wg_CurrSizeX wg = 4" "wg_SizeY wg = 2" "wg_CurrSizeY wg = 2"
    and items: "[(0, 0, 0), (1, 0, 0), (2, 0, 0), (3, 0, 0), (0, 1, 0), (1, 1, 0), (2, 1, 0), (3, 1, 0)] = map (\<lambda>wi. (wi_IDX wi, wi_IDY wi, wi_IDZ wi)) (wg_WorkItems wg)"
    by (rule outlineD [OF outline_full]) simp
  have "map (\<lambda>wi. (wi_IDX wi, wi_IDY wi, wi_IDZ wi)) (wg_WorkItems wg) ! 6 = (2, 1, 0)" by (simp flip: items)
  moreover have l: "length (wg_WorkItems wg) = 8" using arg_cong [OF items, of length] by simp
  ultimately have "wg_WorkItems wg ! 6 = \<lparr>wi_IDX = 2, wi_IDY = 1, wi_IDZ = 0\<rparr>" by simp
  note i6 = this
  have b: "gb_hsaco ?b = example_code" "gb_packet ?b = example_packet 4 2 4 2" by (simp_all add: example_builder_def)
  have full: "wg_CurrSizeX wg = wg_SizeX wg" "wg_CurrSizeY wg = wg_SizeY wg" using r by simp_all
  have sz: "pk_WorkgroupSizeX (gb_packet ?b) \<noteq> 0" "pk_WorkgroupSizeY (gb_packet ?b) \<noteq> 0" "pk_WorkgroupSizeZ (gb_packet ?b) \<noteq> 0"
    unfolding b by (simp_all add: example_packet_def)
  obtain wvs where w: "initWfs wg 7 = Inr (wvs, replicate (unat (pk_GroupSegmentSize (gb_packet ?b))) 0)" "length wvs = (length (wg_WorkItems wg) + 63) div 64"
    "\<forall>i<length (wg_WorkItems wg). FlattenedID wg (wg_WorkItems wg ! i) = int i \<and> runs_in (gb_hsaco ?b) (wg_WorkItems wg ! i) (i mod 64) (wvs ! (i div 64))"
    using full_group_runs_every_item [OF r(1) full sz, of 7] by (elim exE conjE) (rule that; assumption)
  have "runs_in example_code \<lparr>wi_IDX = 2, wi_IDY = 1, wi_IDZ = 0\<rparr> 6 (wvs ! 0)" using w(3) [rule_format, of 6] l i6 by (simp add: b)
  moreover have "initWfs wg 7 = Inr (wvs, [])" "length wvs = 1" using w(1,2) l unfolding b by (simp_all add: example_packet_def)
  ultimately show ?thesis using r(1) by blast
qed

text \<open>
  Claim C40. A work-group at the edge of the grid, 4 wide instead of 40: after the first work-item no flat identifier is a multiple of 64, so all
  12 work-items go into one wavefront, whose lanes stand for the flat identifiers 0 to 63. None of the four work-items of the last row, those at 8 to 11, runs in a lane,
  and lane 16 is active although it stands for no work-item.
\<close>

theorem partial_group_loses_items:
  "\<exists>wg b' n wv. SetKernel \<lparr>li_CodeObject = example_code, li_Packet = example_packet 40 3 4 3, li_PacketAddr = 0, li_WGFilter = None\<rparr> =
       Inr (example_builder (example_packet 40 3 4 3)) \<and>
     NextWG (example_builder (example_packet 40 3 4 3)) 0 = Inr (Some wg, b', n) \<and> length (wg_WorkItems wg) = 12 \<and> initWfs wg pid = Inr ([wv], []) \<and>
     list_all (\<lambda>i. wi_IDY (wg_WorkItems wg ! i) = 2 \<and> list_all (\<lambda>lane. \<not> runs_in example_code (wg_WorkItems wg ! i) lane wv) [0..<64]) [8..<12] \<and>
     bit (wf_Exec wv) 16 \<and> list_all (\<lambda>wi. \<not> runs_in example_code wi 16 wv) (wg_WorkItems wg)"
proof -
  let ?p = "example_packet 40 3 4 3" and ?I = "\<lambda>wi. (wi_IDX wi, wi_IDY wi, wi_IDZ wi)"
  let ?b = "example_builder ?p"
  obtain wg b' n where r: "NextWG ?b 0 = Inr (Some wg, b', n)" "wg_SizeX wg = 40" "wg_SizeY wg = 3"
    and items: "[(0, 0, 0), (1, 0, 0), (2, 0, 0), (3, 0, 0), (0, 1, 0), (1, 1, 0), (2, 1, 0), (3, 1, 0), (0, 2, 0), (1, 2, 0), (2, 2, 0), (3, 2, 0)] = map ?I (wg_WorkItems wg)"
    and wfs: "[(0, 0xf00000f000f, 12)] = map (\<lambda>w. (kw_FirstWiFlatID w, kw_InitExecMask w, length (kw_WorkItems w))) (wg_Wavefronts wg)"
    by (rule outlineD [OF outline_partial]) simp
  obtain kwf where k: "wg_Wavefronts wg = [kwf]" "kw_FirstWiFlatID kwf = 0" "kw_InitExecMask kwf = 0xf00000f000f" using wfs by (auto simp: Cons_eq_map_conv)
  have b: "gb_hsaco ?b = example_code" "gb_packet ?b = ?p" by (simp_all add: example_builder_def)
  have "kwf \<in> set (wg_Wavefronts wg)" by (simp add: k)
  note src = NextWG_source [OF r(1) this, unfolded b]
  have sz: "pk_WorkgroupSizeX ?p \<noteq> 0" "pk_WorkgroupSizeY ?p \<noteq> 0" "pk_WorkgroupSizeZ ?p \<noteq> 0" "wg_SizeX wg * wg_SizeY wg \<noteq> 0"
    by (simp_all add: example_packet_def r)
  obtain wv where wv: "initWfRegs wg kwf (NewWavefront\<lparr>wf_pid := pid\<rparr>) = Inr wv" "wf_Exec wv = kw_InitExecMask kwf"
      "\<forall>lane<64. lane_ids example_code wg (kw_FirstWiFlatID kwf) lane wv"
    using initWfRegs_ok [OF conjunct1 [OF src(1)] conjunct1 [OF conjunct2 [OF src(1)]] sz, of pid] by (elim exE conjE) (rule that; assumption)
  have "initWfs wg pid = Inr ([wv], [])" using wv(1) src(2) k by (simp add: initWfs_def initLDS_def example_packet_def)
  moreover have l: "length (wg_WorkItems wg) = 12" using arg_cong [OF items, of length] by simp
  moreover have row: "wi_IDY (wg_WorkItems wg ! i) = 2" if "i \<in> {8..<12}" for i
  proof -
    have "i \<in> {8, 9, 10, 11}" using that by auto
    then have "fst (snd (map ?I (wg_WorkItems wg) ! i)) = 2" by (auto simp flip: items)
    then show ?thesis using l that by simp
  qed
  moreover have "\<not> runs_in example_code (wg_WorkItems wg ! i) lane wv" if i: "i \<in> {8..<12}" and "lane < 64" for i lane
  proof
    assume "runs_in example_code (wg_WorkItems wg ! i) lane wv"
    then have "VRegValue lane 1 wv = Inr 2" by (simp add: runs_in_def example_enabled row [OF i])
    moreover have "VRegValue lane 1 wv = Inr (of_int (int lane mod 120 div 40))" using wv(3) that(2) by (simp add: lane_ids_def Let_def example_enabled r k)
    ultimately have "(of_int (int lane mod 120 div 40) :: u32) = 2" by simp
    moreover have "int lane mod 120 div 40 \<in> {0, 1}" using that(2) by auto
    ultimately show False by auto
  qed
  moreover have "\<not> runs_in example_code wi 16 wv" if "wi \<in> set (wg_WorkItems wg)" for wi
  proof
    assume "runs_in example_code wi 16 wv"
    then have "VRegValue 16 0 wv = Inr (of_int (wi_IDX wi))" by (simp add: runs_in_def)
    moreover have "VRegValue 16 0 wv = Inr 16" using wv(3) by (simp add: lane_ids_def Let_def r k)
    moreover have "?I wi \<in> set (map ?I (wg_WorkItems wg))" using that by simp
    then have "wi_IDX wi \<in> {0, 1, 2, 3}" by (simp flip: items) auto
    ultimately show False by auto
  qed
  moreover have "bit (wf_Exec wv) 16" by (simp add: wv(2) k(3))
  moreover have "SetKernel \<lparr>li_CodeObject = example_code, li_Packet = ?p, li_PacketAddr = 0, li_WGFilter = None\<rparr> = Inr ?b"
    by (simp add: SetKernel_def countWG_def num_in_dim_def example_packet_def example_builder_def)
  ultimately show ?thesis using r(1) by (intro exI [of _ wg] exI [of _ b'] exI [of _ n] exI [of _ wv]) (simp add: list_all_iff)
qed

end
