(* ===== verification/Spec2Isabelle.thy ===== *)
theory Spec2Isabelle
  imports Event_Queue Serial_Engine Connection Buffer Pipeline Storage Cache_Directory Page_Walk_Cache MSHR Low_Module CU_Resource Write_Buffer Page_Table MMU_Lost Reorder_Order Ideal_Memory Emu_Program Emu_Accessor Decoding Wavefront_Lanes
begin

text \<open>
  Verification of the MCM-GPU simulator: a discrete-event simulator of multi-chiplet GPUs, written in Go
  as the packages \<^verbatim>\<open>akita\<close> (events, ports, components), \<^verbatim>\<open>util\<close> (buffers, pipelines, tracing), \<^verbatim>\<open>mem\<close> (storage, caches,
  address translation, DRAM, physical page placement), \<^verbatim>\<open>noc\<close> (networks) and \<^verbatim>\<open>mgpusim\<close> (the GPU: instruction set, functional
  emulator, timing model, driver, platforms).

  \<^bold>\<open>How the parts interact.\<close> Every component is a handler of events. The serial engine takes the earliest event from its
  queues and lets its handler run, which may schedule more. Components exchange messages through buffers and
  pipelines. A memory request goes from a compute unit through caches (directory, MSHR, write buffer) and is routed by a
  low-module finder to the bank or chiplet that owns the address; virtual addresses are translated with the page table and
  cached walks. The emulator executes the instructions of a wavefront on register files, local memory and, through the storage
  accessor and the page table, on the simulated storage; the timing model allocates the registers and the local memory of a
  compute unit to work-groups before they run.

  \<^bold>\<open>Theories and sources.\<close>
  \<^item> \<^verbatim>\<open>Prelude\<close>: panics as values (\<open>'a result\<close>), Go slices with their backing array, shared lemmas.
  \<^item> \<^verbatim>\<open>Event_Queue\<close> (\<^verbatim>\<open>akita/eventqueue.go\<close> with the heap of \<^verbatim>\<open>container/heap\<close>): both queues drain in time order, the insertion queue stably.
  \<^item> \<^verbatim>\<open>Serial_Engine\<close> (\<^verbatim>\<open>akita/serialengine.go\<close>): events are handled in time order, primary before secondary; \<^verbatim>\<open>Run\<close> ends when a measure
    of the handlers' work decreases.
  \<^item> \<^verbatim>\<open>Connection\<close> (\<^verbatim>\<open>akita/ticker.go\<close>, \<^verbatim>\<open>port.go\<close>, \<^verbatim>\<open>directconnection.go\<close>): messages between ports are neither lost, duplicated nor reordered, no
    wake-up is lost, and a tick that is scheduled makes progress.
  \<^item> \<^verbatim>\<open>Sim_World\<close> (\<^verbatim>\<open>akita/idgenerator.go\<close>; what a component sees of identifiers, ports and connections) and \<^verbatim>\<open>Mem_Protocol\<close> (\<^verbatim>\<open>mem/protocol.go\<close>): the
    ground for components that exchange messages.
  \<^item> \<^verbatim>\<open>Reorder_Buffer\<close>, \<^verbatim>\<open>Reorder_Order\<close> (\<^verbatim>\<open>mgpusim/timing/caches/rob/rob.go\<close>): requests are answered in the order they were made.
  \<^item> \<^verbatim>\<open>Ideal_Controller\<close>, \<^verbatim>\<open>Ideal_Memory\<close> (\<^verbatim>\<open>mem/idealmemcontroller/idealmemcontroller.go\<close>): the controller implements a byte-addressed
    memory, every request is answered once, and the requests under way are bounded.
  \<^item> \<^verbatim>\<open>Buffer\<close> (\<^verbatim>\<open>util/buffer.go\<close>, \<^verbatim>\<open>util/akitaext/bufferedsender.go\<close>) and \<^verbatim>\<open>Pipeline\<close> (\<^verbatim>\<open>util/pipelining/pipeline.go\<close>): lossless FIFOs, latency.
  \<^item> \<^verbatim>\<open>Storage\<close> (\<^verbatim>\<open>mem/storage.go\<close>): reads and writes across storage units refine a byte-addressed memory.
  \<^item> \<^verbatim>\<open>Cache_Directory\<close>, \<^verbatim>\<open>Page_Walk_Cache\<close> (\<^verbatim>\<open>mem/cache/directory.go\<close>, \<^verbatim>\<open>victimfinder.go\<close>, \<^verbatim>\<open>pagewalkcachedirectory.go\<close>): lookups, fills, LRU, longest match.
  \<^item> \<^verbatim>\<open>MSHR\<close> (\<^verbatim>\<open>mem/cache/mshr.go\<close> and its two variants): a bounded map; every miss is served once.
  \<^item> \<^verbatim>\<open>Low_Module\<close> (the low-module finders and address converters of \<^verbatim>\<open>mem/cache\<close>, \<^verbatim>\<open>mem/idealmemcontroller\<close>): one owner per address, round trips.
  \<^item> \<^verbatim>\<open>Write_Buffer\<close> (\<^verbatim>\<open>mem/writebuffer.go\<close>): combining writes does not change what is drained.
  \<^item> \<^verbatim>\<open>Page_Table\<close> (\<^verbatim>\<open>mem/device/pagetable.go\<close>): the radix tree and the hash table of a process.
  \<^item> \<^verbatim>\<open>MMU\<close>, \<^verbatim>\<open>MMU_Walks\<close>, \<^verbatim>\<open>MMU_Lost\<close> (\<^verbatim>\<open>mem/vm/mmu\<close>): interleaved walks answer with the addresses of the page table and never panic; a request
    that a connection refuses leaves its walk waiting for ever.
  \<^item> \<^verbatim>\<open>CU_Resource\<close> (\<^verbatim>\<open>mgpusim/timing/cp/internal/resource\<close>): reservations never overlap and are undone by release.
  \<^item> \<^verbatim>\<open>Emu_Wavefront\<close>, \<^verbatim>\<open>Emu_Scratchpad\<close>, \<^verbatim>\<open>Emu_Scalar\<close>, \<^verbatim>\<open>Emu_Vector\<close>, \<^verbatim>\<open>Emu_Vector_Operands\<close>, \<^verbatim>\<open>Emu_Memory\<close>, \<^verbatim>\<open>Emu_Unit\<close> (\<^verbatim>\<open>mgpusim/emu\<close>, \<^verbatim>\<open>mgpusim/insts\<close>):
    registers, operand movement, every instruction of the ALU, memory access, the loop over wavefronts. \<^verbatim>\<open>Emu_Program\<close> has the
    properties of executed instructions. \<^verbatim>\<open>Little_Endian\<close> (\<^verbatim>\<open>insts/littleendian.go\<close>) has the encoding of words, \<^verbatim>\<open>Emu_Accessor\<close>
    (\<^verbatim>\<open>emu/storageaccessor.go\<close>) the virtual memory that the page table and the storage make together.
  \<^item> \<^verbatim>\<open>Inst_Format\<close>, \<^verbatim>\<open>Decode_Table\<close>, \<^verbatim>\<open>Decoder\<close>, \<^verbatim>\<open>Decoding\<close> (\<^verbatim>\<open>mgpusim/insts/format.go\<close>, \<^verbatim>\<open>decodetable.go\<close>, \<^verbatim>\<open>disassembler.go\<close>): from the bytes of an
    instruction to its record; encoded scalar instructions decode to themselves, and a program in memory is fetched, decoded and executed to its result.
  \<^item> \<^verbatim>\<open>Grid_Builder\<close>, \<^verbatim>\<open>Grid_Coverage\<close>, \<^verbatim>\<open>Grid_Wavefronts\<close> (\<^verbatim>\<open>mgpusim/kernels/gridbuilder.go\<close>, \<^verbatim>\<open>grid.go\<close> and the unified launch of \<^verbatim>\<open>driver/driver.go\<close>):
    every work-item of a grid is launched exactly once.
  \<^item> \<^verbatim>\<open>Wavefront_Init\<close>, \<^verbatim>\<open>Wavefront_Lanes\<close> (\<^verbatim>\<open>mgpusim/insts/hsaco.go\<close>, \<^verbatim>\<open>initWfs\<close> of \<^verbatim>\<open>emu/computeunit.go\<close>): the registers with which the
    wavefronts of a work-group start; a full work-group runs every work-item in one lane.

  \<^bold>\<open>Interfaces.\<close> Where a component relies on another through a Go interface, the contract is a locale, interpreted on the model of each
  implementation: \<open>event_queue\<close> (both queues, for the engine), \<open>fifo_buffer\<close> (for the sender), \<open>msg_port\<close> (for the connection),
  \<open>victim_finder\<close> (for the directory), \<open>mshr\<close> (the three MSHRs, for their clients), \<open>home_map\<close> (both finders), \<open>page_store\<close> (the page table),
  and \<open>port_world\<close> with its extension \<open>mem_world\<close> (ports of direct connections, for the reorder buffer and the memory controller).

  \<^bold>\<open>Fuel and bounds.\<close> A loop whose end is not structural takes fuel, and \<open>Diverges\<close> or \<open>None\<close> is its value when the fuel ends; every
  theorem that gives a result shows that the fuel its definition passes is enough (one unit per byte in
  the storage and accessor loops, an explicit bound for the engine). The loops of a wavefront and of a
  work-group need not end and keep their fuel as an argument.

  \<^bold>\<open>Not modelled.\<close> Floating-point arithmetic of the vector ALU is a parameter (\<open>go_float\<close>); comparisons of floats are modelled on bits. Simulated
  time is ordered but its float64 rounding is not modelled. Hooks, tracing, logging, mutexes and the parallel engine are left out, as are
  printing and loading of programs from ELF files. A slice of an instruction buffer beyond its length counts as out of range: the callers of the
  decoder pass buffers whose capacity is their length. Platform builders, samples, benchmarks, the driver except the division of a
  unified launch, the visualisation and the neural-network library are configuration, workloads or output. The TLB and the
  address translators, the device memory states, the stages of the writeback and XCD caches, the vector L1 cache, DRAM, the timing compute unit, the
  command processor, RDMA, page migration and the networks are tick-driven clients of the parts modelled here and are not modelled.
\<close>

end
